(* ===== verification/Prelude.thy ===== *)
theory Prelude
  imports Main "HOL-Library.AList"
begin

text \<open>
  Shared vocabulary of the development: the error hierarchy of \<^verbatim>\<open>src/domain/errors.ts\<close>,
  JavaScript's insertion-ordered \<open>Map\<close>, the sources of values a call cannot predict (clock,
  random ids), truthiness of strings, stable sorting, and the generic lemmas about them.
\<close>

named_theorems js_simps \<open>facts that compute with the model of JavaScript's Map and strings\<close>

section \<open>Errors as values\<close>

text \<open>
  One constructor per class of \<^verbatim>\<open>src/domain/errors.ts\<close>, with its message; \<open>AuthFailedError\<close> of
  \<^verbatim>\<open>src/services/userService.ts\<close>, \<open>AuthError\<close> of \<^verbatim>\<open>src/api/routes.ts\<close> with its status, and \<open>PlainError\<close> for a bare \<open>new Error(..)\<close>. A fallible operation
  returns \<open>Inl\<close> of an error or \<open>Inr\<close> of its value.
\<close>

datatype app_error =
    NotFoundError string
  | ValidationError string
  | SignatureError string
  | InvalidStateError string
  | AmountMismatchError string
  | ProviderError string
  | ConfigError string
  | AuthFailedError string
  | AuthError string nat
  | PlainError string

type_synonym 'a result = "app_error + 'a"

fun error_code :: "app_error \<Rightarrow> string" where
  "error_code (NotFoundError m) = ''NOT_FOUND''"
| "error_code (ValidationError m) = ''VALIDATION_ERROR''"
| "error_code (SignatureError m) = ''SIGNATURE_ERROR''"
| "error_code (InvalidStateError m) = ''INVALID_STATE''"
| "error_code (AmountMismatchError m) = ''AMOUNT_MISMATCH''"
| "error_code (ProviderError m) = ''PROVIDER_ERROR''"
| "error_code (ConfigError m) = ''CONFIG_ERROR''"
| "error_code (AuthFailedError m) = ''AUTH_FAILED''"
| "error_code (AuthError m s) = ''UNAUTHORIZED''"
| "error_code (PlainError m) = ''INTERNAL''"

fun http_status :: "app_error \<Rightarrow> nat" where
  "http_status (NotFoundError m) = 404"
| "http_status (ValidationError m) = 400"
| "http_status (SignatureError m) = 401"
| "http_status (InvalidStateError m) = 409"
| "http_status (AmountMismatchError m) = 409"
| "http_status (ProviderError m) = 502"
| "http_status (ConfigError m) = 500"
| "http_status (AuthFailedError m) = 401"
| "http_status (AuthError m s) = s"
| "http_status (PlainError m) = 500"

fun error_message :: "app_error \<Rightarrow> string" where
  "error_message (NotFoundError m) = m"
| "error_message (ValidationError m) = m"
| "error_message (SignatureError m) = m"
| "error_message (InvalidStateError m) = m"
| "error_message (AmountMismatchError m) = m"
| "error_message (ProviderError m) = m"
| "error_message (ConfigError m) = m"
| "error_message (AuthFailedError m) = m"
| "error_message (AuthError m s) = m"
| "error_message (PlainError m) = m"

definition is_ok :: "'a result \<Rightarrow> bool" where
  "is_ok r = (case r of Inl _ \<Rightarrow> False | Inr _ \<Rightarrow> True)"

lemma is_ok_simps [simp]: "is_ok (Inr x)" "\<not> is_ok (Inl e)"
  by (simp_all add: is_ok_def)

text \<open>
  The pair of an outcome and the state it leaves: what was written before a throw stays written.
  \<open>bindR m f\<close> goes on with the value and the state, unless \<open>m\<close> threw.
\<close>

fun bindR :: "'a result \<times> 's \<Rightarrow> ('a \<Rightarrow> 's \<Rightarrow> 'b result \<times> 's) \<Rightarrow> 'b result \<times> 's" where
  "bindR (Inl err, s) f = (Inl err, s)"
| "bindR (Inr a, s) f = f a s"

text \<open>An operation on a part of the state that either throws or yields the part's new value.\<close>

definition writeR :: "('p result) \<Rightarrow> ('p \<Rightarrow> 's) \<Rightarrow> 's \<Rightarrow> unit result \<times> 's" where
  "writeR r put s = (case r of Inl err \<Rightarrow> (Inl err, s) | Inr p \<Rightarrow> (Inr (), put p))"

lemma writeR_simps [simp]:
  "writeR (Inl err) put s = (Inl err, s)"
  "writeR (Inr p) put s = (Inr (), put p)"
  by (simp_all add: writeR_def)

section \<open>What a call cannot predict\<close>

text \<open>
  \<open>now_at e i\<close>, \<open>uuid_at e i\<close> and \<open>random_at e i\<close> are the values that the clock, \<open>randomUUID\<close> and
  the random token and order-number generators return to the \<open>i\<close>-th place of one operation that asks
  for them; an operation is a function of the state and of these answers.
\<close>

record env =
  now_at :: "nat \<Rightarrow> int"
  uuid_at :: "nat \<Rightarrow> string"
  random_at :: "nat \<Rightarrow> string"

text \<open>The answers from the \<open>k\<close>-th on, for an operation that calls another one.\<close>

definition env_from :: "nat \<Rightarrow> env \<Rightarrow> env" where
  "env_from k e = \<lparr>now_at = (\<lambda>i. now_at e (k + i)), uuid_at = (\<lambda>i. uuid_at e (k + i)),
     random_at = (\<lambda>i. random_at e (k + i))\<rparr>"

lemma env_from_simps [simp]:
  "now_at (env_from k e) i = now_at e (k + i)"
  "uuid_at (env_from k e) i = uuid_at e (k + i)"
  "random_at (env_from k e) i = random_at e (k + i)"
  by (simp_all add: env_from_def)

text \<open>The environment of the worked examples: a clock that stands at \<open>t\<close>, and numbered ids.\<close>

definition env_at :: "int \<Rightarrow> env" where
  "env_at t = \<lparr>now_at = (\<lambda>_. t), uuid_at = (\<lambda>i. ''id-'' @ replicate i CHR ''i''),
     random_at = (\<lambda>i. ''rnd-'' @ replicate i CHR ''r'')\<rparr>"

lemma env_at_simps [simp]:
  "now_at (env_at t) i = t"
  "uuid_at (env_at t) i = ''id-'' @ replicate i CHR ''i''"
  "random_at (env_at t) i = ''rnd-'' @ replicate i CHR ''r''"
  by (simp_all add: env_at_def)

section \<open>JavaScript's Map\<close>

text \<open>
  A \<open>Map\<close> keeps its entries in insertion order, and \<open>set\<close> on a present key keeps the key's place:
  an association list with distinct keys, with the library's \<open>AList.update\<close> as \<open>set\<close> and
  \<open>AList.delete\<close> as \<open>delete\<close>.
\<close>

type_synonym ('k, 'v) jsmap = "('k \<times> 'v) list"

abbreviation jm_get :: "('k, 'v) jsmap \<Rightarrow> 'k \<Rightarrow> 'v option" where
  "jm_get \<equiv> map_of"

abbreviation jm_set :: "'k \<Rightarrow> 'v \<Rightarrow> ('k, 'v) jsmap \<Rightarrow> ('k, 'v) jsmap" where
  "jm_set \<equiv> AList.update"

abbreviation jm_delete :: "'k \<Rightarrow> ('k, 'v) jsmap \<Rightarrow> ('k, 'v) jsmap" where
  "jm_delete \<equiv> AList.delete"

abbreviation jm_keys :: "('k, 'v) jsmap \<Rightarrow> 'k list" where
  "jm_keys \<equiv> map fst"

abbreviation jm_values :: "('k, 'v) jsmap \<Rightarrow> 'v list" where
  "jm_values \<equiv> map snd"

definition jm_has :: "('k, 'v) jsmap \<Rightarrow> 'k \<Rightarrow> bool" where
  "jm_has m k = (jm_get m k \<noteq> None)"

definition jm_wf :: "('k, 'v) jsmap \<Rightarrow> bool" where
  "jm_wf m = distinct (jm_keys m)"

lemma jm_get_set [simp, js_simps]: "jm_get (jm_set k v m) x = (if x = k then Some v else jm_get m x)"
  by (simp add: update_conv')

lemma jm_get_delete [simp, js_simps]: "jm_get (jm_delete k m) x = (if x = k then None else jm_get m x)"
  by (simp add: delete_conv')

lemma jm_has_set [simp]: "jm_has (jm_set k v m) x = (x = k \<or> jm_has m x)"
  by (simp add: jm_has_def)

lemma jm_has_delete [simp]: "jm_has (jm_delete k m) x = (x \<noteq> k \<and> jm_has m x)"
  by (simp add: jm_has_def)

lemma jm_has_Nil [simp]: "\<not> jm_has [] x"
  by (simp add: jm_has_def)

lemma jm_wf_Nil [simp, intro]: "jm_wf []"
  by (simp add: jm_wf_def)

lemma jm_wf_set [simp, intro]: "jm_wf m \<Longrightarrow> jm_wf (jm_set k v m)"
  by (simp add: jm_wf_def distinct_update)

lemma jm_wf_delete [simp, intro]: "jm_wf m \<Longrightarrow> jm_wf (jm_delete k m)"
  by (simp add: jm_wf_def distinct_delete)

lemma jm_get_values: "jm_get m k = Some v \<Longrightarrow> v \<in> set (jm_values m)"
  by (force dest: map_of_SomeD)

lemma jm_get_in_set: "jm_wf m \<Longrightarrow> (jm_get m k = Some v) = ((k, v) \<in> set m)"
  by (auto simp: jm_wf_def dest: map_of_SomeD)

lemma jm_values_get: "jm_wf m \<Longrightarrow> v \<in> set (jm_values m) \<Longrightarrow> \<exists>k. jm_get m k = Some v"
  by (auto simp: jm_get_in_set)

lemma jm_get_None: "(jm_get m k = None) = (k \<notin> set (jm_keys m))"
  by (simp add: map_of_eq_None_iff)

lemma jm_set_fresh: "jm_get m k = None \<Longrightarrow> jm_set k v m = m @ [(k, v)]"
  by (induction m) (auto split: if_splits)

text \<open>Setting an entry to the value it has changes nothing.\<close>

lemma jm_set_same: "jm_get m k = Some v \<Longrightarrow> jm_set k v m = m"
  by (induction m) (auto split: if_splits)

lemma jm_set_set [simp]: "jm_set k v (jm_set k u m) = jm_set k v m"
  by (induction m) auto

text \<open>
  Aggregates over all entries (totals, counts) after a \<open>set\<close>: the old entry's share is replaced
  by the new one's.
\<close>

lemma sum_values_set:
  fixes f :: "'v \<Rightarrow> 'n::ab_group_add"
  shows "sum_list (map f (jm_values (jm_set k v m))) =
    sum_list (map f (jm_values m)) - (case jm_get m k of None \<Rightarrow> 0 | Some u \<Rightarrow> f u) + f v"
  by (induction m) (auto split: option.splits)

lemma set_values_set:
  "jm_wf m \<Longrightarrow> set (jm_values (jm_set k v m)) = insert v {u. \<exists>x. x \<noteq> k \<and> jm_get m x = Some u}"
proof -
  assume wf: "jm_wf m"
  have "u \<in> set (jm_values (jm_set k v m)) \<longleftrightarrow> (\<exists>x. jm_get (jm_set k v m) x = Some u)" for u
    using jm_values_get[OF jm_wf_set[OF wf]] jm_get_values by metis
  then show ?thesis
    by (intro set_eqI) (simp del: set_map, metis option.inject)
qed

lemma values_set_subset: "set (jm_values (jm_set k v m)) \<subseteq> insert v (set (jm_values m))"
  by (induction m) auto

section \<open>Strings\<close>

text \<open>
  A JavaScript string is a list of code units; the model uses Isabelle's 8-bit characters. The empty
  string is the only falsy one, and an absent value (\<open>undefined\<close>) is falsy too.
\<close>

definition truthy :: "string option \<Rightarrow> bool" where
  "truthy s = (case s of None \<Rightarrow> False | Some x \<Rightarrow> x \<noteq> [])"

lemma truthy_simps [simp]: "\<not> truthy None" "truthy (Some x) = (x \<noteq> [])"
  by (simp_all add: truthy_def)

text \<open>\<open>String(n)\<close> for an integer: the decimal digits, with a minus sign when negative.\<close>

definition digit_char :: "nat \<Rightarrow> char" where
  "digit_char d = char_of (48 + d)"

definition is_digit :: "char \<Rightarrow> bool" where
  "is_digit c = (48 \<le> (of_char c :: nat) \<and> (of_char c :: nat) \<le> 57)"

definition digit_val :: "char \<Rightarrow> nat" where
  "digit_val c = of_char c - 48"

fun nat_digits :: "nat \<Rightarrow> string" where
  "nat_digits n = (if n < 10 then [digit_char n] else nat_digits (n div 10) @ [digit_char (n mod 10)])"

declare nat_digits.simps [simp del]

definition string_of_int :: "int \<Rightarrow> string" where
  "string_of_int i = (if i < 0 then CHR ''-'' # nat_digits (nat (- i)) else nat_digits (nat i))"

definition digits_val :: "string \<Rightarrow> nat" where
  "digits_val s = foldl (\<lambda>a c. 10 * a + digit_val c) 0 s"

lemma digit_char_digit [simp]: "d < 10 \<Longrightarrow> is_digit (digit_char d)"
  by (simp add: is_digit_def digit_char_def)

lemma digit_val_char [simp]: "d < 10 \<Longrightarrow> digit_val (digit_char d) = d"
  by (simp add: digit_val_def digit_char_def)

lemma digit_val_less: "is_digit c \<Longrightarrow> digit_val c < 10"
  by (auto simp: is_digit_def digit_val_def)

lemma digits_val_Nil [simp]: "digits_val [] = 0"
  by (simp add: digits_val_def)

lemma digits_val_snoc [simp]: "digits_val (s @ [c]) = 10 * digits_val s + digit_val c"
  by (simp add: digits_val_def)

lemma digits_val_append: "digits_val (s @ t) = digits_val s * 10 ^ length t + digits_val t"
  by (induction t rule: rev_induct) (simp_all flip: append_assoc add: algebra_simps)

lemma digits_val_less: "list_all is_digit s \<Longrightarrow> digits_val s < 10 ^ length s"
proof (induction s rule: rev_induct)
  case (snoc c s)
  then have "digits_val s < 10 ^ length s" "digit_val c < 10" by (auto dest: digit_val_less)
  then show ?case by simp
qed simp

lemma nat_digits_val [simp]: "digits_val (nat_digits n) = n"
proof (induction n rule: nat_digits.induct)
  case (1 n)
  then show ?case
    by (cases "n < 10") (simp_all add: nat_digits.simps[of n] digits_val_def)
qed

lemma nat_digits_digit: "list_all is_digit (nat_digits n)"
proof (induction n rule: nat_digits.induct)
  case (1 n)
  then show ?case by (cases "n < 10") (simp_all add: nat_digits.simps[of n])
qed

lemma nat_digits_nonempty [simp]: "nat_digits n \<noteq> []"
  by (simp add: nat_digits.simps[of n])

lemma nat_digits_inj: "nat_digits m = nat_digits n \<Longrightarrow> m = n"
  by (metis nat_digits_val)

lemma string_of_int_nonempty [simp]: "string_of_int i \<noteq> []"
  by (simp add: string_of_int_def)

lemma minus_not_digit [simp]: "\<not> is_digit CHR ''-''"
  by (simp add: is_digit_def)

lemma nat_digits_hd: "is_digit (hd (nat_digits n))"
  using nat_digits_digit[of n] by (cases "nat_digits n") auto

lemma string_of_int_inj: "string_of_int i = string_of_int j \<Longrightarrow> i = j"
proof -
  assume eq: "string_of_int i = string_of_int j"
  have *: "nat_digits n \<noteq> CHR ''-'' # s" for n s
    using nat_digits_hd[of n] by auto
  show ?thesis
    using eq * *[symmetric] by (auto simp: string_of_int_def dest!: nat_digits_inj split: if_splits)
qed

text \<open>
  \<open>Number(s)\<close> on a decimal integer text; \<open>None\<close> stands for every other text (the code compares the
  result with \<open>NaN\<close> only, and stores no text that is a number of another form).
\<close>

definition int_of_string :: "string \<Rightarrow> int option" where
  "int_of_string s =
     (case s of
        [] \<Rightarrow> None
      | c # t \<Rightarrow>
          if c = CHR ''-'' then (if t \<noteq> [] \<and> list_all is_digit t then Some (- int (digits_val t)) else None)
          else if list_all is_digit s then Some (int (digits_val s)) else None)"

lemma int_of_string_of_int [simp]: "int_of_string (string_of_int i) = Some i"
proof (cases "i < 0")
  case True
  then show ?thesis by (simp add: string_of_int_def int_of_string_def nat_digits_digit)
next
  case False
  obtain c t where ct: "nat_digits (nat i) = c # t"
    by (cases "nat_digits (nat i)") simp_all
  have "is_digit c" "list_all is_digit (c # t)" "digits_val (c # t) = nat i"
    using nat_digits_hd[of "nat i"] nat_digits_digit[of "nat i"] nat_digits_val[of "nat i"]
    by (simp_all add: ct)
  moreover from this have "c \<noteq> CHR ''-''" by auto
  ultimately show ?thesis
    using False by (simp add: string_of_int_def int_of_string_def ct)
qed

text \<open>\<open>toLowerCase\<close> on code units below 256: ASCII and Latin-1 capitals.\<close>

definition lower_char :: "char \<Rightarrow> char" where
  "lower_char c = (let n = of_char c :: nat
     in if (65 \<le> n \<and> n \<le> 90) \<or> (192 \<le> n \<and> n \<le> 222 \<and> n \<noteq> 215) then char_of (n + 32) else c)"

definition to_lower :: "string \<Rightarrow> string" where
  "to_lower s = map lower_char s"

lemma lower_char_idem [simp]: "lower_char (lower_char c) = lower_char c"
proof -
  have "(of_char c :: nat) < 256" by simp
  then show ?thesis by (auto simp: lower_char_def Let_def)
qed

lemma to_lower_idem [simp]: "to_lower (to_lower s) = to_lower s"
  by (simp add: to_lower_def)

section \<open>Sorting and slicing\<close>

text \<open>
  \<open>Array.prototype.sort\<close> is stable, as the library's \<open>sort_key\<close> is: \<open>sort((a, b) => a.t - b.t)\<close> is
  \<open>sort_key t\<close>, and \<open>sort((a, b) => b.t - a.t)\<close> sorts by \<open>- t\<close>. \<open>slice(from, to)\<close> on non-negative
  indices is \<open>take\<close> after \<open>drop\<close>.
\<close>

definition js_slice :: "nat \<Rightarrow> nat \<Rightarrow> 'a list \<Rightarrow> 'a list" where
  "js_slice i j xs = take (j - i) (drop i xs)"

lemma js_slice_page [simp]: "js_slice off (off + lim) xs = take lim (drop off xs)"
  by (simp add: js_slice_def)

lemma length_js_slice: "length (js_slice i j xs) \<le> j - i"
  by (simp add: js_slice_def)

lemma set_js_slice: "set (js_slice i j xs) \<subseteq> set xs"
  unfolding js_slice_def by (meson order_trans set_take_subset set_drop_subset)

text \<open>Consecutive pages of equal size, put together, are the whole list.\<close>

lemma pages_concat:
  "concat (map (\<lambda>i. take n (drop (i * n) xs)) [0..<k]) = take (k * n) xs"
proof (induction k)
  case (Suc k)
  have "take (k * n) xs @ take n (drop (k * n) xs) = take (k * n + n) xs"
    by (simp add: take_add)
  with Suc show ?case by (simp add: add.commute)
qed simp

end
