(* ===== verification/Domain.thy ===== *)
theory Domain
  imports Prelude
begin

text \<open>
  The data of \<^verbatim>\<open>src/domain/\<close>: orders, plans, subscriptions, refunds, deposit addresses, sweep jobs,
  users and merchants, field by field. Amounts are integers in minor units and times are epoch
  milliseconds, both \<open>int\<close> (the code's numbers, in the safe-integer range where they are exact).
  An optional field is an \<open>option\<close>. Field names carry a one-letter prefix because Isabelle's records
  share one name space.
\<close>

section \<open>Orders, plans and subscriptions (types.ts)\<close>

datatype currency = CNY | USDT

datatype payment_method = Wechat | Alipay | Usdt

definition ALL_METHODS :: "payment_method list" where
  "ALL_METHODS = [Wechat, Alipay, Usdt]"

fun CURRENCY_DECIMALS :: "currency \<Rightarrow> nat" where
  "CURRENCY_DECIMALS CNY = 2"
| "CURRENCY_DECIMALS USDT = 6"

fun currency_name :: "currency \<Rightarrow> string" where
  "currency_name CNY = ''CNY''"
| "currency_name USDT = ''USDT''"

fun method_name :: "payment_method \<Rightarrow> string" where
  "method_name Wechat = ''wechat''"
| "method_name Alipay = ''alipay''"
| "method_name Usdt = ''usdt''"

lemma method_name_inj [simp]: "(method_name a = method_name b) = (a = b)"
  by (cases a; cases b) simp_all

datatype order_status = PENDING | PAID | FULFILLED | EXPIRED | CANCELLED | REFUNDED | FAILED

fun order_status_name :: "order_status \<Rightarrow> string" where
  "order_status_name PENDING = ''PENDING''"
| "order_status_name PAID = ''PAID''"
| "order_status_name FULFILLED = ''FULFILLED''"
| "order_status_name EXPIRED = ''EXPIRED''"
| "order_status_name CANCELLED = ''CANCELLED''"
| "order_status_name REFUNDED = ''REFUNDED''"
| "order_status_name FAILED = ''FAILED''"

record plan =
  p_id :: string
  p_name :: string
  p_durationDays :: int
  p_trafficGb :: int
  p_deviceLimit :: int
  p_priceCnyFen :: int
  p_priceUsdtMicro :: int
  p_enabled :: bool

datatype render_as = Qrcode | Address | Redirect

record create_payment_result =
  c_method :: payment_method
  c_payTarget :: string
  c_renderAs :: render_as
  c_extra :: "(string, string) jsmap"

text \<open>
  \<open>Order.metadata\<close> is a \<open>Record<string, string>\<close> in which the code writes three keys: \<open>depositAddress\<close>,
  \<open>depositIndex\<close> (a decimal text) and \<open>payInfo\<close>. The last one holds the JSON text of a
  \<open>CreatePaymentResult\<close> and is only ever read back through \<open>JSON.parse\<close>; the model keeps the value.
\<close>

record order_metadata =
  md_depositAddress :: "string option"
  md_depositIndex :: "string option"
  md_payInfo :: "create_payment_result option"

definition no_metadata :: order_metadata where
  "no_metadata = \<lparr>md_depositAddress = None, md_depositIndex = None, md_payInfo = None\<rparr>"

record order =
  o_id :: string
  o_merchantId :: "string option"
  o_outTradeNo :: string
  o_userId :: string
  o_planId :: string
  o_method :: payment_method
  o_currency :: currency
  o_amount :: int
  o_status :: order_status
  o_providerTxnId :: "string option"
  o_idempotencyKey :: "string option"
  o_createdAt :: int
  o_updatedAt :: int
  o_expiresAt :: int
  o_paidAt :: "int option"
  o_refundedAmount :: "int option"
  o_metadata :: order_metadata

record subscription =
  s_id :: string
  s_userId :: string
  s_planId :: string
  s_startsAt :: int
  s_expiresAt :: int
  s_trafficGb :: int
  s_deviceLimit :: int
  s_active :: bool
  s_orderIds :: "string list"
  s_expiryNotifiedAt :: "int option"
  s_createdAt :: int
  s_updatedAt :: int

record callback_result =
  cb_outTradeNo :: string
  cb_providerTxnId :: string
  cb_paid :: bool
  cb_paidAmount :: "int option"
  cb_currency :: currency
  cb_eventId :: string
  cb_rawStatus :: string

record query_result =
  q_paid :: bool
  q_providerTxnId :: "string option"
  q_paidAmount :: "int option"
  q_rawStatus :: string

text \<open>\<open>order.refundedAmount ?? 0\<close>, the reading every user of the field makes.\<close>

definition refunded :: "order \<Rightarrow> int" where
  "refunded ord = (case o_refundedAmount ord of None \<Rightarrow> 0 | Some n \<Rightarrow> n)"

lemma refunded_update [simp]:
  "refunded (ord\<lparr>o_refundedAmount := Some n\<rparr>) = n"
  "refunded (ord\<lparr>o_status := st\<rparr>) = refunded ord"
  "refunded (ord\<lparr>o_updatedAt := t\<rparr>) = refunded ord"
  "refunded (ord\<lparr>o_paidAt := p\<rparr>) = refunded ord"
  "refunded (ord\<lparr>o_providerTxnId := x\<rparr>) = refunded ord"
  "refunded (ord\<lparr>o_metadata := md\<rparr>) = refunded ord"
  by (simp_all add: refunded_def)

text \<open>An order for the worked examples.\<close>

definition demo_order :: "string \<Rightarrow> payment_method \<Rightarrow> int \<Rightarrow> order_status \<Rightarrow> order" where
  "demo_order i m a st = \<lparr>o_id = i, o_merchantId = None, o_outTradeNo = CHR ''N'' # i, o_userId = ''u1'',
     o_planId = ''monthly'', o_method = m, o_currency = (if m = Usdt then USDT else CNY), o_amount = a,
     o_status = st, o_providerTxnId = None, o_idempotencyKey = None, o_createdAt = 0, o_updatedAt = 0,
     o_expiresAt = 100, o_paidAt = (if st = PENDING then None else Some 5), o_refundedAmount = None,
     o_metadata = no_metadata\<rparr>"

section \<open>Refunds (refund.ts)\<close>

datatype refund_status = R_PENDING | R_SUCCESS | R_FAILED | R_MANUAL

fun refund_status_name :: "refund_status \<Rightarrow> string" where
  "refund_status_name R_PENDING = ''PENDING''"
| "refund_status_name R_SUCCESS = ''SUCCESS''"
| "refund_status_name R_FAILED = ''FAILED''"
| "refund_status_name R_MANUAL = ''MANUAL''"

record refund =
  r_id :: string
  r_orderId :: string
  r_outRefundNo :: string
  r_amount :: int
  r_currency :: currency
  r_reason :: "string option"
  r_status :: refund_status
  r_providerRefundId :: "string option"
  r_rawStatus :: string
  r_createdAt :: int
  r_updatedAt :: int

record refund_request =
  rq_outRefundNo :: string
  rq_amount :: int
  rq_totalAmount :: int
  rq_currency :: currency
  rq_reason :: "string option"

record refund_result =
  rr_providerRefundId :: "string option"
  rr_status :: refund_status
  rr_rawStatus :: string

text \<open>
  \<open>RefundCallbackResult.status\<close> has the type \<open>SUCCESS | FAILED\<close>; the flag says which.
\<close>

record refund_callback_result =
  rc_outRefundNo :: string
  rc_outTradeNo :: string
  rc_providerRefundId :: string
  rc_success :: bool
  rc_eventId :: string
  rc_rawStatus :: string

definition rc_status :: "refund_callback_result \<Rightarrow> refund_status" where
  "rc_status r = (if rc_success r then R_SUCCESS else R_FAILED)"

section \<open>Deposit addresses and sweep jobs (deposit.ts)\<close>

record deposit_address =
  d_index :: int
  d_address :: string
  d_orderId :: string
  d_createdAt :: int

datatype sweep_status = S_PENDING | S_GAS_FUELING | S_SWEEPING | S_SWEPT | S_EMPTY | S_FAILED

definition isSweepTerminal :: "sweep_status \<Rightarrow> bool" where
  "isSweepTerminal st = (st = S_SWEPT \<or> st = S_EMPTY \<or> st = S_FAILED)"

record sweep_job =
  j_id :: string
  j_orderId :: string
  j_depositIndex :: int
  j_depositAddress :: string
  j_collectionAddress :: string
  j_amountMicro :: int
  j_status :: sweep_status
  j_gasTxId :: "string option"
  j_sweepTxId :: "string option"
  j_attempts :: int
  j_lastError :: "string option"
  j_createdAt :: int
  j_updatedAt :: int
  j_nextAttemptAt :: int

section \<open>Users (user.ts) and merchants (merchant.ts)\<close>

record user =
  u_id :: string
  u_email :: string
  u_locale :: string
  u_name :: "string option"
  u_passwordHash :: string
  u_apiKey :: string
  u_createdAt :: int
  u_updatedAt :: int

record public_user =
  pu_id :: string
  pu_email :: string
  pu_locale :: string
  pu_name :: "string option"
  pu_createdAt :: int

definition toPublicUser :: "user \<Rightarrow> public_user" where
  "toPublicUser u = \<lparr>pu_id = u_id u, pu_email = u_email u, pu_locale = u_locale u,
     pu_name = u_name u, pu_createdAt = u_createdAt u\<rparr>"

definition DEFAULT_MERCHANT_ID :: string where
  "DEFAULT_MERCHANT_ID = ''default''"

datatype merchant_status = Active | Suspended

record merchant =
  m_id :: string
  m_name :: string
  m_status :: merchant_status
  m_apiKey :: string
  m_apiKeyPrevious :: "string option"
  m_usdtHdPath :: "string option"
  m_createdAt :: int
  m_updatedAt :: int

record public_merchant =
  pm_id :: string
  pm_name :: string
  pm_status :: merchant_status
  pm_usdtHdPath :: "string option"
  pm_createdAt :: int
  pm_updatedAt :: int

definition toPublicMerchant :: "merchant \<Rightarrow> public_merchant" where
  "toPublicMerchant m = \<lparr>pm_id = m_id m, pm_name = m_name m, pm_status = m_status m,
     pm_usdtHdPath = m_usdtHdPath m, pm_createdAt = m_createdAt m, pm_updatedAt = m_updatedAt m\<rparr>"

section \<open>Providers (provider.ts)\<close>

text \<open>
  A raw callback and the HTTP answer the provider expects; then the \<open>PaymentProvider\<close> interface as a
  record of functions: what each remote call of one operation returns or throws. \<open>refund\<close> and
  \<open>verifyRefundCallback\<close> are optional methods.
\<close>

record raw_callback =
  raw_body :: string
  raw_headers :: "(string, string) jsmap"

record callback_ack =
  ack_status :: int
  ack_contentType :: string
  ack_body :: string

record payment_provider =
  pp_createPayment :: "order \<Rightarrow> create_payment_result result"
  pp_verifyCallback :: "raw_callback \<Rightarrow> callback_result result"
  pp_queryPayment :: "order \<Rightarrow> query_result result"
  pp_callbackAck :: "bool \<Rightarrow> callback_ack"
  pp_refund :: "(order \<Rightarrow> refund_request \<Rightarrow> refund_result result) option"
  pp_verifyRefundCallback :: "(raw_callback \<Rightarrow> refund_callback_result result) option"

section \<open>Progress order of sweep states\<close>

text \<open>
  The pipeline's states in the order it visits them; the order is used as the measure of a job's
  progress, and by the metrics, which report every state in declaration order.
\<close>

fun sweep_rank :: "sweep_status \<Rightarrow> nat" where
  "sweep_rank S_PENDING = 0"
| "sweep_rank S_GAS_FUELING = 1"
| "sweep_rank S_SWEEPING = 2"
| "sweep_rank S_SWEPT = 3"
| "sweep_rank S_EMPTY = 4"
| "sweep_rank S_FAILED = 5"

lemma sweep_rank_inj: "sweep_rank a = sweep_rank b \<Longrightarrow> a = b"
  by (cases a; cases b) simp_all

instantiation sweep_status :: linorder
begin

definition less_eq_sweep_status :: "sweep_status \<Rightarrow> sweep_status \<Rightarrow> bool" where
  "less_eq_sweep_status a b = (sweep_rank a \<le> sweep_rank b)"

definition less_sweep_status :: "sweep_status \<Rightarrow> sweep_status \<Rightarrow> bool" where
  "less_sweep_status a b = (sweep_rank a < sweep_rank b)"

instance
  by intro_classes (auto simp: less_eq_sweep_status_def less_sweep_status_def intro: sweep_rank_inj)

end

lemmas sweep_order_defs = less_eq_sweep_status_def less_sweep_status_def

lemma sweep_terminal_rank: "isSweepTerminal st = (3 \<le> sweep_rank st)"
  by (cases st) (simp_all add: isSweepTerminal_def)

end
