(* ===== verification/OrderStateMachine.thy ===== *)
theory OrderStateMachine
  imports Domain
begin

text \<open>
  \<^verbatim>\<open>src/core/orderStateMachine.ts\<close>: the table of allowed order transitions, \<open>canTransition\<close>,
  \<open>isTerminal\<close> and \<open>assertTransition\<close>, with the lifecycle as a step relation over single transitions.
\<close>

fun TRANSITIONS :: "order_status \<Rightarrow> order_status list" where
  "TRANSITIONS PENDING = [PAID, EXPIRED, CANCELLED, FAILED]"
| "TRANSITIONS PAID = [FULFILLED, REFUNDED]"
| "TRANSITIONS FULFILLED = [REFUNDED]"
| "TRANSITIONS EXPIRED = []"
| "TRANSITIONS CANCELLED = []"
| "TRANSITIONS REFUNDED = []"
| "TRANSITIONS FAILED = []"

definition canTransition :: "order_status \<Rightarrow> order_status \<Rightarrow> bool" where
  "canTransition f t = (t \<in> set (TRANSITIONS f))"

definition isTerminal :: "order_status \<Rightarrow> bool" where
  "isTerminal st = (length (TRANSITIONS st) = 0)"

definition assertTransition :: "order_status \<Rightarrow> order_status \<Rightarrow> order_status result" where
  "assertTransition f t =
     (if f = t then Inr t
      else if \<not> canTransition f t then
        Inl (InvalidStateError (''cannot transition order from '' @ order_status_name f @ '' to ''
               @ order_status_name t))
      else Inr t)"

lemma assertTransition_ok: "assertTransition f t = Inr s \<Longrightarrow> s = t \<and> (f = t \<or> canTransition f t)"
  by (auto simp: assertTransition_def split: if_splits)

lemma assertTransition_iff: "is_ok (assertTransition f t) = (f = t \<or> canTransition f t)"
  by (simp add: assertTransition_def)

lemma isTerminal_iff: "isTerminal st = (st \<in> {EXPIRED, CANCELLED, REFUNDED, FAILED})"
  by (cases st) (simp_all add: isTerminal_def)

text \<open>The lifecycle as an inductive relation: one change of the status field that the table allows.\<close>

inductive order_step :: "order_status \<Rightarrow> order_status \<Rightarrow> bool" where
  order_step: "canTransition f t \<Longrightarrow> order_step f t"

inductive_simps order_step_simps: "order_step f t"

text \<open>How many transitions are left at most: the relation is acyclic and of depth three.\<close>

fun order_depth :: "order_status \<Rightarrow> nat" where
  "order_depth PENDING = 3"
| "order_depth PAID = 2"
| "order_depth FULFILLED = 1"
| "order_depth _ = 0"

lemma order_step_depth: "order_step f t \<Longrightarrow> order_depth t < order_depth f"
  by (cases f) (auto simp: order_step_simps canTransition_def)

lemma order_steps_depth: "order_step\<^sup>*\<^sup>* f t \<Longrightarrow> order_depth t \<le> order_depth f"
  by (induction rule: rtranclp_induct) (auto dest: order_step_depth)

lemma order_step_wf: "wfP (\<lambda>t f. order_step f t)"
  by (rule wfp_if_convertible_to_nat[where f = order_depth]) (rule order_step_depth)

lemma terminal_no_step: "isTerminal f \<Longrightarrow> \<not> order_step f t"
  by (auto simp: isTerminal_def order_step_simps canTransition_def)

lemma terminal_stays: "order_step\<^sup>*\<^sup>* f t \<Longrightarrow> isTerminal f \<Longrightarrow> t = f"
  by (erule converse_rtranclpE) (auto dest: terminal_no_step)

text \<open>States whose orders have been paid for, and those that never were.\<close>

definition settled_status :: "order_status \<Rightarrow> bool" where
  "settled_status st = (st = PAID \<or> st = FULFILLED \<or> st = REFUNDED)"

lemma settled_step: "order_step f t \<Longrightarrow> settled_status f \<Longrightarrow> settled_status t"
  by (auto simp: order_step_simps canTransition_def settled_status_def)

lemma settled_steps: "order_step\<^sup>*\<^sup>* f t \<Longrightarrow> settled_status f \<Longrightarrow> settled_status t"
  by (induction rule: rtranclp_induct) (auto intro: settled_step)

lemma order_steps_length: "(order_step ^^ n) f t \<Longrightarrow> order_depth t + n \<le> order_depth f"
proof (induction n arbitrary: t)
  case (Suc n)
  then obtain u where "(order_step ^^ n) f u" "order_step u t" by auto
  with Suc.IH[of u] show ?case by (fastforce dest: order_step_depth)
qed simp

lemma unsettled_step_source: "\<not> settled_status f \<Longrightarrow> order_step f u \<Longrightarrow> f = PENDING"
  by (cases f) (auto simp: settled_status_def order_step_simps canTransition_def)

lemma settled_origin:
  assumes "order_step\<^sup>*\<^sup>* f t" "\<not> settled_status f" "settled_status t"
  shows "f = PENDING \<and> order_step\<^sup>*\<^sup>* PAID t"
  using assms(1)
proof (cases rule: converse_rtranclpE)
  case base
  with assms show ?thesis by simp
next
  case (step u)
  have f: "f = PENDING"
    using unsettled_step_source assms(2) step(1) by blast
  have "u = PAID"
  proof (rule ccontr)
    assume "u \<noteq> PAID"
    with step(1) f have "isTerminal u" "\<not> settled_status u"
      by (auto simp: order_step_simps canTransition_def isTerminal_iff settled_status_def)
    with terminal_stays[OF step(2)] assms(3) show False by simp
  qed
  with f step(2) show ?thesis by simp
qed

text \<open>
  the status lifecycle. Any sequence of allowed transitions has at most three steps; a terminal
  status never changes again; a paid order stays in the paid states (PAID, FULFILLED, REFUNDED), and
  the only way into them from PENDING is the transition to PAID, so no expired, cancelled or failed
  order is ever revived by a late payment.
\<close>

theorem order_lifecycle:
  assumes steps: "(order_step ^^ n) f t"
  shows "n \<le> 3 \<and> (isTerminal f \<longrightarrow> t = f) \<and> (settled_status f \<longrightarrow> settled_status t) \<and>
    (\<not> settled_status f \<and> settled_status t \<longrightarrow> f = PENDING \<and> order_step\<^sup>*\<^sup>* PAID t)"
proof (intro conjI impI; (elim conjE)?)
  have r: "order_step\<^sup>*\<^sup>* f t" using steps by (rule relpowp_imp_rtranclp)
  show "n \<le> 3" using order_steps_length[OF steps] by (cases f) auto
  show "t = f" if "isTerminal f" using r that by (rule terminal_stays)
  show "settled_status t" if "settled_status f" using r that by (rule settled_steps)
  show "f = PENDING" if "\<not> settled_status f" "settled_status t"
    using settled_origin[OF r that] by simp
  show "order_step\<^sup>*\<^sup>* PAID t" if "\<not> settled_status f" "settled_status t"
    using settled_origin[OF r that] by simp
qed

theorem order_lifecycle_witness:
  "(order_step ^^ 3) PENDING REFUNDED \<and> (3::nat) \<le> 3 \<and> order_step\<^sup>*\<^sup>* PAID REFUNDED"
proof -
  have s: "order_step PENDING PAID" "order_step PAID FULFILLED" "order_step FULFILLED REFUNDED"
    by (simp_all add: order_step_simps canTransition_def)
  then have "(order_step ^^ 3) PENDING REFUNDED"
    by (auto simp: numeral_3_eq_3 intro!: relcomppI)
  with order_lifecycle[OF this] show ?thesis by (simp add: settled_status_def)
qed

end
