(* ===== verification/Repository.thy ===== *)
theory Repository
  imports Prelude
begin

text \<open>
  The storage interfaces of \<^verbatim>\<open>src/storage/repository.ts\<close> as locales: the operations a service calls
  and the laws an implementation promises. The services' proofs use only these laws; the in-memory
  stores of \<^verbatim>\<open>src/storage/memoryStore.ts\<close> are shown to satisfy them in the theories of the stores.
\<close>

section \<open>Entities stored by id\<close>

text \<open>
  \<open>find\<close>, \<open>create\<close> and \<open>update\<close> are the interface's operations; \<open>key\<close> is the entity's id, \<open>fixed\<close> the
  fields an update leaves alone, \<open>norm\<close> what \<open>create\<close> stores of its argument (users' emails are
  lower-cased), and \<open>valid\<close> the implementation's own invariant.
\<close>

text \<open>Writing one entity after another, with the \<open>update\<close> of any repository.\<close>

definition update_all :: "('a \<Rightarrow> 's \<Rightarrow> 's result) \<Rightarrow> 'a list \<Rightarrow> 's \<Rightarrow> 's" where
  "update_all upd bs s = fold (\<lambda>b t. projr (upd b t)) bs s"

lemma update_all_simps [simp]:
  "update_all upd [] s = s"
  "update_all upd (b # bs) s = update_all upd bs (projr (upd b s))"
  by (simp_all add: update_all_def)

locale repository =
  fixes valid :: "'s \<Rightarrow> bool"
    and find :: "'s \<Rightarrow> string \<Rightarrow> 'a option"
    and create :: "'a \<Rightarrow> 's \<Rightarrow> 's result"
    and update :: "'a \<Rightarrow> 's \<Rightarrow> 's result"
    and key :: "'a \<Rightarrow> string"
    and fixed :: "'a \<Rightarrow> 'f"
    and norm :: "'a \<Rightarrow> 'a"
  assumes create_find: "create a s = Inr s' \<Longrightarrow> find s' k = (if k = key a then Some (norm a) else find s k)"
    and update_find: "update a s = Inr s' \<Longrightarrow> find s' k = (if k = key a then Some a else find s k)"
    and create_valid: "valid s \<Longrightarrow> key a \<noteq> [] \<Longrightarrow> find s (key a) = None \<Longrightarrow> create a s = Inr s' \<Longrightarrow> valid s'"
    and update_valid: "valid s \<Longrightarrow> find s (key a) = Some b \<Longrightarrow> fixed b = fixed a \<Longrightarrow> update a s = Inr s' \<Longrightarrow> valid s'"
    and update_known: "find s (key a) = Some b \<Longrightarrow> is_ok (update a s)"
    and find_key: "valid s \<Longrightarrow> find s k = Some a \<Longrightarrow> key a = k"
    and key_norm: "key (norm a) = key a"
begin

lemma find_created: "create a s = Inr s' \<Longrightarrow> find s' (key a) = Some (norm a)"
  by (simp add: create_find)

lemma find_updated: "update a s = Inr s' \<Longrightarrow> find s' (key a) = Some a"
  by (simp add: update_find)

lemma find_other:
  "create a s = Inr s' \<Longrightarrow> k \<noteq> key a \<Longrightarrow> find s' k = find s k"
  "update a s = Inr s' \<Longrightarrow> k \<noteq> key a \<Longrightarrow> find s' k = find s k"
  by (simp_all add: create_find update_find)

lemma update_total: "find s (key a) = Some b \<Longrightarrow> \<exists>s'. update a s = Inr s'"
  using update_known[of s a b] by (cases "update a s") simp_all

lemma create_valid_projr:
  "valid s \<Longrightarrow> key a \<noteq> [] \<Longrightarrow> find s (key a) = None \<Longrightarrow> is_ok (create a s) \<Longrightarrow> valid (projr (create a s))"
  by (cases "create a s") (auto intro: create_valid)

text \<open>A batch of writes to known entities reaches exactly those entities.\<close>

lemma update_all_find:
  "valid s \<Longrightarrow> \<forall>b \<in> set bs. \<exists>a. find s (key b) = Some a \<and> fixed a = fixed b \<Longrightarrow> distinct (map key bs) \<Longrightarrow>
     valid (update_all update bs s) \<and>
     (\<forall>k. find (update_all update bs s) k =
        (case map_of (map (\<lambda>b. (key b, b)) bs) k of Some b \<Rightarrow> Some b | None \<Rightarrow> find s k))"
proof (induction bs arbitrary: s)
  case (Cons b bs)
  then obtain a where a: "find s (key b) = Some a" "fixed a = fixed b" by auto
  obtain s1 where s1: "update b s = Inr s1" using update_total[OF a(1)] by blast
  have v: "valid s1" using update_valid[OF Cons.prems(1) a s1] .
  have "\<exists>a. find s1 (key c) = Some a \<and> fixed a = fixed c" if c: "c \<in> set bs" for c
  proof -
    have "key c \<noteq> key b" using c Cons.prems(3) by (metis distinct.simps(2) image_eqI list.simps(9) set_map)
    then show ?thesis using c Cons.prems(2) by (simp add: update_find[OF s1])
  qed
  note IH = Cons.IH[OF v ballI[OF this]]
  have "map_of (map (\<lambda>b. (key b, b)) bs) (key b) = None" using Cons.prems(3) by (auto simp: map_of_eq_None_iff)
  then show ?case using IH Cons.prems(3) by (auto simp: s1 update_find[OF s1] split: option.split)
qed simp

text \<open>Read your writes: an entity created and then updated reads as last written.\<close>

lemma create_then_update:
  "create a s = Inr s' \<Longrightarrow> key b = key a \<Longrightarrow> \<exists>s''. update b s' = Inr s'' \<and> find s'' (key a) = Some b"
  using update_total[of s' b "norm a"] find_created[of a s s'] find_updated[of b s'] by fastforce

lemma update_update:
  "update a s = Inr s1 \<Longrightarrow> update b s1 = Inr s2 \<Longrightarrow> key b = key a \<Longrightarrow> find s2 k = (if k = key a then Some b else find s k)"
  by (simp add: update_find)

end

section \<open>Lookup by a second, unique name\<close>

locale indexed_repository = repository valid find create update key fixed norm
  for valid :: "'s \<Rightarrow> bool" and find create update key
    and fixed :: "'a \<Rightarrow> 'f" and norm +
  fixes lookup :: "'s \<Rightarrow> string \<Rightarrow> 'a option"
    and name :: "'a \<Rightarrow> string"
  assumes lookup_iff: "valid s \<Longrightarrow> (lookup s n = Some a) = (find s (key a) = Some a \<and> name a = n)"
    and create_dup: "valid s \<Longrightarrow> is_ok (create a s) = (lookup s (name a) = None)"
begin

lemma name_unique:
  "valid s \<Longrightarrow> find s (key a) = Some a \<Longrightarrow> find s (key b) = Some b \<Longrightarrow> name a = name b \<Longrightarrow> a = b"
  using lookup_iff[of s "name b"] by (metis option.inject)

lemma lookup_find: "valid s \<Longrightarrow> lookup s n = Some a \<Longrightarrow> find s (key a) = Some a \<and> name a = n"
  by (simp add: lookup_iff)

lemma lookup_created:
  "valid s \<Longrightarrow> valid s' \<Longrightarrow> create a s = Inr s' \<Longrightarrow> lookup s' (name (norm a)) = Some (norm a)"
  by (simp add: lookup_iff key_norm find_created)

end

section \<open>Listing every entity, and totals over the list\<close>

locale listed_repository = repository valid find create update key fixed norm
  for valid :: "'s \<Rightarrow> bool" and find create update key
    and fixed :: "'a \<Rightarrow> 'f" and norm +
  fixes listing :: "'s \<Rightarrow> 'a list"
  assumes listing_iff: "valid s \<Longrightarrow> (a \<in> set (listing s)) = (find s (key a) = Some a)"
    and distinct_listing: "valid s \<Longrightarrow> distinct (map key (listing s))"
begin

lemma listing_find: "valid s \<Longrightarrow> find s k = Some a \<Longrightarrow> a \<in> set (listing s)"
  using find_key[of s k a] by (simp add: listing_iff)

lemma listing_finite_sum:
  fixes f :: "'a \<Rightarrow> int"
  assumes "valid s"
  shows "sum_list (map f (listing s)) = sum f (set (listing s))"
proof -
  have "distinct (listing s)" using distinct_listing[OF assms] by (simp add: distinct_map)
  then show ?thesis by (rule sum_list_distinct_conv_sum_set)
qed

lemma total_created:
  fixes f :: "'a \<Rightarrow> int"
  assumes "valid s" "valid s'" "create a s = Inr s'" "find s (key a) = None"
  shows "sum_list (map f (listing s')) = sum_list (map f (listing s)) + f (norm a)"
proof -
  have nin: "norm a \<notin> set (listing s)" using assms(1,4) by (simp add: listing_iff key_norm)
  have "b \<in> set (listing s') \<longleftrightarrow> b = norm a \<or> b \<in> set (listing s)" for b
    using assms by (auto simp: listing_iff create_find key_norm)
  then have "set (listing s') = insert (norm a) (set (listing s))" by blast
  with nin show ?thesis by (simp add: listing_finite_sum assms(1,2))
qed

lemma total_updated:
  fixes f :: "'a \<Rightarrow> int"
  assumes "valid s" "valid s'" "update a s = Inr s'" "find s (key a) = Some b"
  shows "sum_list (map f (listing s')) = sum_list (map f (listing s)) - f b + f a"
proof -
  have kb: "key b = key a" using assms find_key by blast
  have b: "b \<in> set (listing s)" using assms(1,4) by (rule listing_find)
  have "c \<in> set (listing s') \<longleftrightarrow> c = a \<or> c \<in> set (listing s) - {b}" for c
    using assms kb by (auto simp: listing_iff update_find)
  then have eq: "set (listing s') = insert a (set (listing s) - {b})" by blast
  have nin: "a \<notin> set (listing s) - {b}" using assms(1,4) by (auto simp: listing_iff)
  show ?thesis using b nin by (simp add: listing_finite_sum assms(1,2) eq sum_diff1)
qed

text \<open>A set of entities picked by a test gains and loses exactly the one that is written.\<close>

lemma listing_updated:
  assumes "valid s" "valid s'" "update a s = Inr s'"
  shows "(c \<in> set (listing s')) = (c = a \<or> c \<in> set (listing s) \<and> key c \<noteq> key a)"
  using assms by (auto simp: listing_iff update_find)

lemma listing_created:
  assumes "valid s" "valid s'" "create a s = Inr s'" "find s (key a) = None"
  shows "(c \<in> set (listing s')) = (c = norm a \<or> c \<in> set (listing s))"
  using assms by (auto simp: listing_iff create_find key_norm)

end

section \<open>Maps by id with an index by name\<close>

text \<open>
  The shape every in-memory store shares: a \<open>Map\<close> from ids to entities, and \<open>Map\<close>s from another name
  to the id. \<open>keyed\<close>: every entity sits under its own non-empty id; \<open>index_ok\<close>: the index holds exactly
  the stored entities; \<open>index_get\<close> is the code's \<open>const id = ix.get(n); return id ? byId.get(id) : undefined\<close>.
\<close>

definition keyed :: "('a \<Rightarrow> string) \<Rightarrow> (string, 'a) jsmap \<Rightarrow> bool" where
  "keyed key m \<longleftrightarrow> jm_wf m \<and> (\<forall>i a. jm_get m i = Some a \<longrightarrow> key a = i \<and> i \<noteq> [])"

definition index_ok :: "('a \<Rightarrow> 'n) \<Rightarrow> (string, 'a) jsmap \<Rightarrow> ('n, string) jsmap \<Rightarrow> bool" where
  "index_ok name m ix \<longleftrightarrow> (\<forall>n i. jm_get ix n = Some i \<longleftrightarrow> (\<exists>a. jm_get m i = Some a \<and> name a = n))"

definition index_get :: "(string, 'a) jsmap \<Rightarrow> ('n, string) jsmap \<Rightarrow> 'n \<Rightarrow> 'a option" where
  "index_get m ix n = (let i = jm_get ix n in if truthy i then jm_get m (the i) else None)"

lemma keyed_Nil [simp]: "keyed key []"
  by (simp add: keyed_def)

lemma index_ok_Nil [simp]: "index_ok name [] []"
  by (simp add: index_ok_def)

lemma keyedD: "keyed key m \<Longrightarrow> jm_get m i = Some a \<Longrightarrow> key a = i \<and> i \<noteq> []"
  by (simp add: keyed_def)

lemma keyed_set: "keyed key m \<Longrightarrow> key a \<noteq> [] \<Longrightarrow> keyed key (jm_set (key a) a m)"
  by (simp add: keyed_def)

lemma keyed_values: "keyed key m \<Longrightarrow> (a \<in> set (jm_values m)) = (jm_get m (key a) = Some a)"
  using jm_values_get[of m a] jm_get_values[of m "key a" a] by (auto simp: keyed_def simp del: set_map)

lemma keyed_distinct: "keyed key m \<Longrightarrow> distinct (map key (jm_values m))"
proof -
  assume k: "keyed key m"
  then have "map (key \<circ> snd) m = jm_keys m"
    by (auto simp: keyed_def jm_get_in_set)
  then show ?thesis using k unfolding map_map keyed_def jm_wf_def by metis
qed

lemma index_get_iff:
  assumes k: "keyed key m" and ix: "index_ok name m ix"
  shows "(index_get m ix n = Some a) = (jm_get m (key a) = Some a \<and> name a = n)"
proof
  assume "index_get m ix n = Some a"
  then obtain i where i: "jm_get ix n = Some i" "jm_get m i = Some a"
    by (auto simp: index_get_def Let_def truthy_def split: if_splits option.splits)
  with k ix show "jm_get m (key a) = Some a \<and> name a = n"
    by (auto simp: index_ok_def dest: keyedD)
next
  assume a: "jm_get m (key a) = Some a \<and> name a = n"
  then have "jm_get ix n = Some (key a)" using ix by (auto simp: index_ok_def)
  with a k show "index_get m ix n = Some a" by (auto simp: index_get_def dest: keyedD)
qed

lemma index_get_None:
  assumes k: "keyed key m" and ix: "index_ok name m ix"
  shows "(index_get m ix n = None) = (jm_get ix n = None)"
proof (cases "jm_get ix n")
  case None
  then show ?thesis by (simp add: index_get_def)
next
  case (Some i)
  then obtain a where "jm_get m i = Some a" "name a = n" using ix by (auto simp: index_ok_def)
  with Some k show ?thesis by (auto simp: index_get_def dest: keyedD)
qed

lemma index_ok_insert:
  assumes ix: "index_ok name m ix" and "jm_get m (key a) = None" "jm_get ix (name a) = None"
  shows "index_ok name (jm_set (key a) a m) (jm_set (name a) (key a) ix)"
  unfolding index_ok_def
proof (intro allI)
  fix n i
  have old: "jm_get ix n = Some i \<longleftrightarrow> (\<exists>b. jm_get m i = Some b \<and> name b = n)" for n i
    using ix by (simp add: index_ok_def)
  show "(jm_get (jm_set (name a) (key a) ix) n = Some i) =
      (\<exists>b. jm_get (jm_set (key a) a m) i = Some b \<and> name b = n)"
  proof (cases "i = key a")
    case True
    then show ?thesis using old[of n i] assms(2) by auto
  next
    case False
    have "jm_get m i = Some b \<Longrightarrow> name b \<noteq> name a" for b
      using old[of "name b" i] assms(3) by auto
    with False show ?thesis using old[of n i] by auto
  qed
qed

lemma index_ok_update:
  assumes ix: "index_ok name m ix" and "jm_get m (key a) = Some b" "name b = name a"
  shows "index_ok name (jm_set (key a) a m) ix"
  unfolding index_ok_def
proof (intro allI)
  fix n i
  have "jm_get ix n = Some i \<longleftrightarrow> (\<exists>c. jm_get m i = Some c \<and> name c = n)"
    using ix by (simp add: index_ok_def)
  then show "(jm_get ix n = Some i) = (\<exists>c. jm_get (jm_set (key a) a m) i = Some c \<and> name c = n)"
    using assms(2,3) by auto
qed

section \<open>Deduplication of events\<close>

text \<open>
  \<open>ProcessedEventStore.markIfNew\<close>: an atomic check-and-set. \<open>seen\<close> is what the store remembers.
\<close>

locale dedupe_store =
  fixes mark :: "env \<Rightarrow> string \<Rightarrow> 's \<Rightarrow> bool \<times> 's"
    and seen :: "'s \<Rightarrow> string \<Rightarrow> bool"
  assumes mark_new: "fst (mark e x s) = (\<not> seen s x)"
    and mark_seen: "seen (snd (mark e x s)) y = (y = x \<or> seen s y)"
    and mark_old: "seen s x \<Longrightarrow> snd (mark e x s) = s"
begin

fun mark_all :: "(env \<times> string) list \<Rightarrow> 's \<Rightarrow> bool list \<times> 's" where
  "mark_all [] s = ([], s)"
| "mark_all (ex # exs) s =
     (let (b, s1) = mark (fst ex) (snd ex) s; (bs, s2) = mark_all exs s1 in (b # bs, s2))"

lemma mark_again: "mark e' x (snd (mark e x s)) = (False, snd (mark e x s))"
  by (simp add: prod_eq_iff mark_new mark_seen mark_old)

lemma mark_all_seen: "seen (snd (mark_all exs s)) y = (y \<in> set (map snd exs) \<or> seen s y)"
  by (induction exs arbitrary: s) (auto simp: Let_def split_beta mark_seen)

text \<open>Among any deliveries of events, each event is accepted at most once, and not at all if seen.\<close>

lemma accepted_once:
  "length (filter (\<lambda>p. fst p \<and> snd (snd p) = x) (zip (fst (mark_all exs s)) exs)) =
     (if x \<in> set (map snd exs) \<and> \<not> seen s x then 1 else 0)"
proof (induction exs arbitrary: s)
  case (Cons ex exs)
  show ?case
    using Cons.IH[of "snd (mark (fst ex) (snd ex) s)"]
    by (cases "snd ex = x") (auto simp: Let_def split_beta mark_new mark_seen)
qed simp

end

end
