(* ===== verification/OrderStore.thy ===== *)
theory OrderStore
  imports OrderStateMachine Repository
begin

text \<open>
  \<open>MemoryOrderRepository\<close> of \<^verbatim>\<open>src/storage/memoryStore.ts\<close>: orders by id, with indexes by order number
  and idempotency key, filtered and paginated queries, and the aggregated summary. \<open>clone\<close> (a JSON
  round trip) makes stored and returned objects independent copies, which values are anyway.
\<close>

record order_store =
  os_byId :: "(string, order) jsmap"
  os_byOutTradeNo :: "(string, string) jsmap"
  os_byIdem :: "(string, string) jsmap"

definition empty_order_store :: order_store where
  "empty_order_store = \<lparr>os_byId = [], os_byOutTradeNo = [], os_byIdem = []\<rparr>"

definition orderMerchant :: "order \<Rightarrow> string" where
  "orderMerchant ord = (case o_merchantId ord of None \<Rightarrow> DEFAULT_MERCHANT_ID | Some m \<Rightarrow> m)"

definition order_create :: "order \<Rightarrow> order_store \<Rightarrow> order_store result" where
  "order_create ord st =
     (if jm_has (os_byOutTradeNo st) (o_outTradeNo ord) then
        Inl (PlainError (''duplicate outTradeNo: '' @ o_outTradeNo ord))
      else
        let st1 = st\<lparr>os_byId := jm_set (o_id ord) ord (os_byId st)\<rparr>;
            st2 = st1\<lparr>os_byOutTradeNo := jm_set (o_outTradeNo ord) (o_id ord) (os_byOutTradeNo st1)\<rparr>
        in Inr (if truthy (o_idempotencyKey ord)
                then st2\<lparr>os_byIdem := jm_set (the (o_idempotencyKey ord)) (o_id ord) (os_byIdem st2)\<rparr>
                else st2))"

definition order_findById :: "order_store \<Rightarrow> string \<Rightarrow> order option" where
  "order_findById st i = jm_get (os_byId st) i"

definition order_findByOutTradeNo :: "order_store \<Rightarrow> string \<Rightarrow> order option" where
  "order_findByOutTradeNo st n = index_get (os_byId st) (os_byOutTradeNo st) n"

definition order_findByIdempotencyKey :: "order_store \<Rightarrow> string \<Rightarrow> order option" where
  "order_findByIdempotencyKey st k = index_get (os_byId st) (os_byIdem st) k"

definition order_findPendingByMethod :: "order_store \<Rightarrow> payment_method \<Rightarrow> order list" where
  "order_findPendingByMethod st m = filter (\<lambda>ord. o_method ord = m \<and> o_status ord = PENDING) (jm_values (os_byId st))"

definition order_update :: "order \<Rightarrow> order_store \<Rightarrow> order_store result" where
  "order_update ord st =
     (if \<not> jm_has (os_byId st) (o_id ord) then Inl (PlainError (''unknown order: '' @ o_id ord))
      else Inr (st\<lparr>os_byId := jm_set (o_id ord) ord (os_byId st)\<rparr>))"

definition order_all :: "order_store \<Rightarrow> order list" where
  "order_all st = jm_values (os_byId st)"

text \<open>
  The filter of \<open>query\<close> and \<open>summarize\<close>: an absent or (for the tenant) empty field does not filter.
\<close>

record order_filter =
  of_merchantId :: "string option"
  of_status :: "order_status option"
  of_method :: "payment_method option"
  of_from :: "int option"
  of_to :: "int option"

definition no_order_filter :: order_filter where
  "no_order_filter = \<lparr>of_merchantId = None, of_status = None, of_method = None, of_from = None, of_to = None\<rparr>"

definition order_matches :: "order_filter \<Rightarrow> order \<Rightarrow> bool" where
  "order_matches f ord =
     (if truthy (of_merchantId f) \<and> orderMerchant ord \<noteq> the (of_merchantId f) then False
      else if of_status f \<noteq> None \<and> o_status ord \<noteq> the (of_status f) then False
      else if of_method f \<noteq> None \<and> o_method ord \<noteq> the (of_method f) then False
      else if of_from f \<noteq> None \<and> o_createdAt ord < the (of_from f) then False
      else if of_to f \<noteq> None \<and> the (of_to f) \<le> o_createdAt ord then False
      else True)"

definition order_query :: "order_store \<Rightarrow> order_filter \<Rightarrow> nat \<Rightarrow> nat \<Rightarrow> nat \<times> order list" where
  "order_query st f lim off =
     (let matched = sort_key (\<lambda>ord. - o_createdAt ord) (filter (order_matches f) (jm_values (os_byId st)))
      in (length matched, js_slice off (off + lim) matched))"

record paid_row =
  pr_method :: payment_method
  pr_currency :: currency
  pr_paidCount :: int
  pr_grossMinor :: int

record order_summary =
  sm_ordersTotal :: nat
  sm_byStatus :: "(order_status, int) jsmap"
  sm_paid :: "paid_row list"

text \<open>
  The loop of \<open>summarize\<close>, one order at a time. The code's group key is the text \<open>method|currency\<close>; the
  model's is the pair, since neither name holds a bar.
\<close>

definition summarize_step ::
  "(order_status, int) jsmap \<times> (payment_method \<times> currency, paid_row) jsmap \<Rightarrow> order \<Rightarrow>
   (order_status, int) jsmap \<times> (payment_method \<times> currency, paid_row) jsmap" where
  "summarize_step acc ord =
     (let (byStatus, paidMap) = acc;
          byStatus' = jm_set (o_status ord)
            ((case jm_get byStatus (o_status ord) of None \<Rightarrow> 0 | Some n \<Rightarrow> n) + 1) byStatus
      in if o_paidAt ord \<noteq> None \<and> o_status ord \<in> {PAID, FULFILLED, REFUNDED} then
           let k = (o_method ord, o_currency ord);
               row = (case jm_get paidMap k of
                        None \<Rightarrow> \<lparr>pr_method = o_method ord, pr_currency = o_currency ord, pr_paidCount = 0, pr_grossMinor = 0\<rparr>
                      | Some r \<Rightarrow> r)
           in (byStatus', jm_set k (row\<lparr>pr_paidCount := pr_paidCount row + 1,
                                        pr_grossMinor := pr_grossMinor row + o_amount ord\<rparr>) paidMap)
         else (byStatus', paidMap))"

definition order_summarize :: "order_store \<Rightarrow> order_filter \<Rightarrow> order_summary" where
  "order_summarize st f =
     (let matched = filter (order_matches f) (jm_values (os_byId st));
          (byStatus, paidMap) = foldl summarize_step ([], []) matched
      in \<lparr>sm_ordersTotal = length matched, sm_byStatus = byStatus, sm_paid = jm_values paidMap\<rparr>)"

section \<open>The store's invariant\<close>

definition order_store_wf :: "order_store \<Rightarrow> bool" where
  "order_store_wf st \<longleftrightarrow> keyed o_id (os_byId st) \<and> index_ok o_outTradeNo (os_byId st) (os_byOutTradeNo st)"

lemmas order_find_defs = order_findById_def order_findByOutTradeNo_def order_findByIdempotencyKey_def order_all_def

lemma order_store_wf_empty [simp]: "order_store_wf empty_order_store"
  by (simp add: order_store_wf_def empty_order_store_def)

lemma order_create_ok:
  "order_create ord st = Inr st' \<Longrightarrow>
     os_byId st' = jm_set (o_id ord) ord (os_byId st) \<and>
     os_byOutTradeNo st' = jm_set (o_outTradeNo ord) (o_id ord) (os_byOutTradeNo st) \<and>
     os_byIdem st' = (if truthy (o_idempotencyKey ord)
        then jm_set (the (o_idempotencyKey ord)) (o_id ord) (os_byIdem st) else os_byIdem st) \<and>
     jm_get (os_byOutTradeNo st) (o_outTradeNo ord) = None"
  by (auto simp: order_create_def Let_def jm_has_def split: if_splits)

lemma order_update_ok:
  "order_update ord st = Inr st' \<Longrightarrow> st' = st\<lparr>os_byId := jm_set (o_id ord) ord (os_byId st)\<rparr>"
  by (auto simp: order_update_def split: if_splits)

lemma order_create_wf:
  assumes "order_store_wf st" "o_id ord \<noteq> []" "order_findById st (o_id ord) = None"
    and c: "order_create ord st = Inr st'"
  shows "order_store_wf st'"
  using assms(1-3) order_create_ok[OF c]
  by (simp add: order_store_wf_def keyed_set index_ok_insert order_findById_def)

lemma order_update_wf:
  assumes "order_store_wf st" "order_findById st (o_id ord) = Some old"
    and "o_outTradeNo old = o_outTradeNo ord" and u: "order_update ord st = Inr st'"
  shows "order_store_wf st'"
proof -
  have "o_id ord \<noteq> []" using assms(1,2) by (auto simp: order_store_wf_def order_findById_def dest: keyedD)
  with assms(1-3) show ?thesis
    unfolding order_update_ok[OF u]
    by (simp add: order_store_wf_def keyed_set index_ok_update order_findById_def)
qed

text \<open>The store provides the repository interface, with lookup by order number and a listing.\<close>

interpretation order_repo: indexed_repository order_store_wf order_findById order_create order_update
  o_id o_outTradeNo "\<lambda>x. x" order_findByOutTradeNo o_outTradeNo
proof (unfold_locales, goal_cases)
  case (1 a s s' k) then show ?case by (auto dest!: order_create_ok simp: order_findById_def)
next
  case (2 a s s' k) then show ?case by (auto dest!: order_update_ok simp: order_findById_def)
next
  case (3 s a s') then show ?case by (auto intro: order_create_wf)
next
  case (4 s a b s') then show ?case by (auto intro: order_update_wf)
next
  case (5 s a b) then show ?case by (simp add: order_update_def order_findById_def jm_has_def)
next
  case (6 s k a) then show ?case by (auto simp: order_findById_def order_store_wf_def dest: keyedD)
next
  case 7 show ?case by simp
next
  case (8 s n a)
  then show ?case
    by (simp add: order_find_defs order_store_wf_def index_get_iff)
next
  case (9 s a)
  then have "index_get (os_byId s) (os_byOutTradeNo s) (o_outTradeNo a) = None \<longleftrightarrow>
      jm_get (os_byOutTradeNo s) (o_outTradeNo a) = None"
    by (intro index_get_None[of o_id _ o_outTradeNo]) (simp_all add: order_store_wf_def)
  then show ?case by (simp add: order_create_def order_find_defs jm_has_def Let_def)
qed

interpretation order_list: listed_repository order_store_wf order_findById order_create order_update
  o_id o_outTradeNo "\<lambda>x. x" order_all
  by unfold_locales (simp_all add: order_find_defs order_store_wf_def keyed_values keyed_distinct del: set_map map_map)

section \<open>Queries\<close>

lemma order_matches_iff:
  "order_matches f ord \<longleftrightarrow>
     (truthy (of_merchantId f) \<longrightarrow> orderMerchant ord = the (of_merchantId f)) \<and>
     (\<forall>x. of_status f = Some x \<longrightarrow> o_status ord = x) \<and> (\<forall>m. of_method f = Some m \<longrightarrow> o_method ord = m) \<and>
     (\<forall>t. of_from f = Some t \<longrightarrow> t \<le> o_createdAt ord) \<and> (\<forall>t. of_to f = Some t \<longrightarrow> o_createdAt ord < t)"
  by (cases "of_status f"; cases "of_method f"; cases "of_from f"; cases "of_to f")
    (auto simp: order_matches_def)

definition matched_sorted :: "order_store \<Rightarrow> order_filter \<Rightarrow> order list" where
  "matched_sorted st f = sort_key (\<lambda>ord. - o_createdAt ord) (filter (order_matches f) (order_all st))"

lemma order_query_eq:
  "order_query st f lim off = (length (matched_sorted st f), take lim (drop off (matched_sorted st f)))"
  by (simp add: order_query_def matched_sorted_def order_all_def Let_def)

lemma matched_sorted_props:
  assumes "order_store_wf st"
  shows "distinct (matched_sorted st f)"
    and "set (matched_sorted st f) = {ord. order_findById st (o_id ord) = Some ord \<and> order_matches f ord}"
    and "sorted (map (\<lambda>ord. - o_createdAt ord) (matched_sorted st f))"
proof -
  have "distinct (order_all st)" using order_list.distinct_listing[OF assms] by (simp add: distinct_map)
  then show "distinct (matched_sorted st f)" by (simp add: matched_sorted_def)
  show "set (matched_sorted st f) = {ord. order_findById st (o_id ord) = Some ord \<and> order_matches f ord}"
    using order_list.listing_iff[OF assms] by (auto simp: matched_sorted_def)
  show "sorted (map (\<lambda>ord. - o_createdAt ord) (matched_sorted st f))"
    by (simp add: matched_sorted_def)
qed

text \<open>
  Paginated listing. The total is the number of stored orders that match; the pages of size
  \<open>lim\<close>, read one after another until they cover the total, list every matching order exactly once
  and newest first; and a tenant's filter returns that tenant's orders only.
\<close>

theorem order_query_pages:
  assumes "order_store_wf st" "fst (order_query st f lim 0) \<le> k * lim"
  shows "let pages = concat (map (\<lambda>i. snd (order_query st f lim (i * lim))) [0..<k]) in
    distinct pages \<and> length pages = fst (order_query st f lim 0) \<and>
    set pages = {ord. order_findById st (o_id ord) = Some ord \<and> order_matches f ord} \<and>
    sorted (map (\<lambda>ord. - o_createdAt ord) pages) \<and>
    (\<forall>ord m. ord \<in> set pages \<and> of_merchantId f = Some m \<and> m \<noteq> [] \<longrightarrow> orderMerchant ord = m)"
proof -
  have "concat (map (\<lambda>i. snd (order_query st f lim (i * lim))) [0..<k]) = matched_sorted st f"
    using assms(2) pages_concat[of lim "matched_sorted st f" k] by (simp add: order_query_eq)
  then show ?thesis
    using matched_sorted_props[OF assms(1), of f] by (auto simp: order_query_eq order_matches_iff)
qed

section \<open>The summary\<close>

definition is_paid :: "order \<Rightarrow> bool" where
  "is_paid ord = (o_paidAt ord \<noteq> None \<and> o_status ord \<in> {PAID, FULFILLED, REFUNDED})"

definition paid_group :: "payment_method \<times> currency \<Rightarrow> order list \<Rightarrow> order list" where
  "paid_group k xs = filter (\<lambda>ord. is_paid ord \<and> (o_method ord, o_currency ord) = k) xs"

definition group_row :: "payment_method \<times> currency \<Rightarrow> order list \<Rightarrow> paid_row" where
  "group_row k xs = \<lparr>pr_method = fst k, pr_currency = snd k, pr_paidCount = int (length (paid_group k xs)),
     pr_grossMinor = sum_list (map o_amount (paid_group k xs))\<rparr>"

lemma summarize_fold:
  assumes "foldl summarize_step ([], []) xs = (byS, paid)"
  shows "jm_wf paid \<and>
    (\<forall>s. jm_get byS s = (let n = length (filter (\<lambda>x. o_status x = s) xs) in if n = 0 then None else Some (int n))) \<and>
    (\<forall>k. jm_get paid k = (if paid_group k xs = [] then None else Some (group_row k xs)))"
  using assms
proof (induction xs arbitrary: byS paid rule: rev_induct)
  case Nil
  then show ?case by (simp add: paid_group_def)
next
  case (snoc x xs)
  obtain b p where bp: "foldl summarize_step ([], []) xs = (b, p)" by fastforce
  note IH = snoc.IH[OF bp]
  note IHp = IH[THEN conjunct2, THEN conjunct2, rule_format]
  have group_snoc: "paid_group k (xs @ [x]) = paid_group k xs @ (if is_paid x \<and> (o_method x, o_currency x) = k then [x] else [])" for k
    by (simp add: paid_group_def)
  have st: "summarize_step (b, p) x = (byS, paid)" using snoc.prems bp by simp
  have byS: "byS = jm_set (o_status x) ((case jm_get b (o_status x) of None \<Rightarrow> 0 | Some n \<Rightarrow> n) + 1) b"
    using st by (auto simp: summarize_step_def Let_def split: if_splits)
  have "jm_get byS s = (let n = length (filter (\<lambda>y. o_status y = s) (xs @ [x])) in if n = 0 then None else Some (int n))" for s
    using IH by (auto simp: byS Let_def)
  moreover have "jm_wf paid" using st IH by (auto simp: summarize_step_def Let_def split: if_splits)
  moreover have "jm_get paid k = (if paid_group k (xs @ [x]) = [] then None else Some (group_row k (xs @ [x])))" for k
  proof (cases "is_paid x")
    case False
    then have "paid = p" using st by (auto simp: summarize_step_def is_paid_def Let_def split: if_splits)
    with False show ?thesis by (simp add: group_snoc group_row_def IHp)
  next
    case True
    let ?k = "(o_method x, o_currency x)"
    let ?r = "case jm_get p ?k of None \<Rightarrow> \<lparr>pr_method = o_method x, pr_currency = o_currency x, pr_paidCount = 0, pr_grossMinor = 0\<rparr>
       | Some r \<Rightarrow> r"
    have "paid = jm_set ?k (?r\<lparr>pr_paidCount := pr_paidCount ?r + 1, pr_grossMinor := pr_grossMinor ?r + o_amount x\<rparr>) p"
      using st True by (auto simp: summarize_step_def is_paid_def Let_def split: if_splits)
    moreover have "?r\<lparr>pr_paidCount := pr_paidCount ?r + 1, pr_grossMinor := pr_grossMinor ?r + o_amount x\<rparr> = group_row ?k (xs @ [x])"
      using True by (simp add: group_row_def group_snoc IHp)
    ultimately show ?thesis
      using True by (cases "k = ?k") (auto simp: group_snoc group_row_def IHp)
  qed
  ultimately show ?case by blast
qed

text \<open>
  The order summary adds up. \<open>ordersTotal\<close> counts the matching orders, each status is reported with
  the number of matching orders in it (and not at all when there is none), and the paid rows are
  exactly one per method and currency that has a paid order, with their number and the exact sum of
  their amounts; CNY and USDT are never added together.
\<close>

theorem order_summarize_exact:
  "let xs = filter (order_matches f) (order_all st); s = order_summarize st f in
     sm_ordersTotal s = length xs \<and>
     (\<forall>x. jm_get (sm_byStatus s) x =
        (let n = length (filter (\<lambda>ord. o_status ord = x) xs) in if n = 0 then None else Some (int n))) \<and>
     set (sm_paid s) = {group_row k xs | k. paid_group k xs \<noteq> []}"
proof -
  define xs where "xs = filter (order_matches f) (order_all st)"
  obtain b p where bp: "foldl summarize_step ([], []) xs = (b, p)" by fastforce
  note F = summarize_fold[OF bp]
  have "r \<in> set (jm_values p) \<longleftrightarrow> (\<exists>k. jm_get p k = Some r)" for r
    using F jm_values_get[of p r] jm_get_values[of p _ r] by blast
  also have "\<dots> r \<longleftrightarrow> r \<in> {group_row k xs | k. paid_group k xs \<noteq> []}" for r
    using F[THEN conjunct2, THEN conjunct2] by (simp only: mem_Collect_eq) (metis option.inject option.distinct(1))
  finally have "set (jm_values p) = {group_row k xs | k. paid_group k xs \<noteq> []}" by blast
  moreover have "order_summarize st f = \<lparr>sm_ordersTotal = length xs, sm_byStatus = b, sm_paid = jm_values p\<rparr>"
    using bp by (simp add: order_summarize_def order_all_def xs_def)
  ultimately show ?thesis
    unfolding Let_def xs_def[symmetric] using F[THEN conjunct2, THEN conjunct1]
    by (simp add: Let_def del: set_map)
qed

end
