(* ===== verification/RefundStore.thy ===== *)
theory RefundStore
  imports Domain Repository
begin

text \<open>
  \<open>MemoryRefundRepository\<close> of \<^verbatim>\<open>src/storage/memoryStore.ts\<close>: refunds by id and by refund number, the
  refunds of an order, and the filtered, paginated query. Its \<open>update\<close> writes without a check.
\<close>

record refund_store =
  rs_byId :: "(string, refund) jsmap"
  rs_byOutRefundNo :: "(string, string) jsmap"

definition empty_refund_store :: refund_store where
  "empty_refund_store = \<lparr>rs_byId = [], rs_byOutRefundNo = []\<rparr>"

definition refund_create :: "refund \<Rightarrow> refund_store \<Rightarrow> refund_store result" where
  "refund_create r st =
     (if jm_has (rs_byOutRefundNo st) (r_outRefundNo r) then
        Inl (PlainError (''duplicate outRefundNo: '' @ r_outRefundNo r))
      else Inr (st\<lparr>rs_byId := jm_set (r_id r) r (rs_byId st),
                   rs_byOutRefundNo := jm_set (r_outRefundNo r) (r_id r) (rs_byOutRefundNo st)\<rparr>))"

definition refund_findById :: "refund_store \<Rightarrow> string \<Rightarrow> refund option" where
  "refund_findById st i = jm_get (rs_byId st) i"

definition refund_findByOutRefundNo :: "refund_store \<Rightarrow> string \<Rightarrow> refund option" where
  "refund_findByOutRefundNo st n = index_get (rs_byId st) (rs_byOutRefundNo st) n"

definition refund_findByOrder :: "refund_store \<Rightarrow> string \<Rightarrow> refund list" where
  "refund_findByOrder st oid = filter (\<lambda>r. r_orderId r = oid) (jm_values (rs_byId st))"

definition refund_update :: "refund \<Rightarrow> refund_store \<Rightarrow> refund_store result" where
  "refund_update r st = Inr (st\<lparr>rs_byId := jm_set (r_id r) r (rs_byId st)\<rparr>)"

definition refund_all :: "refund_store \<Rightarrow> refund list" where
  "refund_all st = jm_values (rs_byId st)"

record refund_filter =
  rf_status :: "refund_status option"
  rf_from :: "int option"
  rf_to :: "int option"

definition refund_matches :: "refund_filter \<Rightarrow> refund \<Rightarrow> bool" where
  "refund_matches f r =
     (if rf_status f \<noteq> None \<and> r_status r \<noteq> the (rf_status f) then False
      else if rf_from f \<noteq> None \<and> r_createdAt r < the (rf_from f) then False
      else if rf_to f \<noteq> None \<and> the (rf_to f) \<le> r_createdAt r then False
      else True)"

definition refund_query :: "refund_store \<Rightarrow> refund_filter \<Rightarrow> nat \<Rightarrow> nat \<Rightarrow> nat \<times> refund list" where
  "refund_query st f lim off =
     (let matched = sort_key (\<lambda>r. - r_createdAt r) (filter (refund_matches f) (jm_values (rs_byId st)))
      in (length matched, js_slice off (off + lim) matched))"

section \<open>The repository laws\<close>

definition refund_store_wf :: "refund_store \<Rightarrow> bool" where
  "refund_store_wf st \<longleftrightarrow> keyed r_id (rs_byId st) \<and> index_ok r_outRefundNo (rs_byId st) (rs_byOutRefundNo st)"

lemmas refund_find_defs = refund_findById_def refund_findByOutRefundNo_def refund_all_def

lemma refund_store_wf_empty [simp]: "refund_store_wf empty_refund_store"
  by (simp add: refund_store_wf_def empty_refund_store_def)

lemma refund_create_ok:
  "refund_create r st = Inr st' \<Longrightarrow>
     rs_byId st' = jm_set (r_id r) r (rs_byId st) \<and>
     rs_byOutRefundNo st' = jm_set (r_outRefundNo r) (r_id r) (rs_byOutRefundNo st) \<and>
     jm_get (rs_byOutRefundNo st) (r_outRefundNo r) = None"
  by (auto simp: refund_create_def jm_has_def split: if_splits)

lemma refund_create_wf:
  assumes "refund_store_wf st" "r_id r \<noteq> []" "refund_findById st (r_id r) = None"
    and c: "refund_create r st = Inr st'"
  shows "refund_store_wf st'"
  using assms(1-3) refund_create_ok[OF c]
  by (simp add: refund_store_wf_def keyed_set index_ok_insert refund_findById_def)

lemma refund_update_wf:
  assumes "refund_store_wf st" "refund_findById st (r_id r) = Some old"
    and "r_outRefundNo old = r_outRefundNo r" and u: "refund_update r st = Inr st'"
  shows "refund_store_wf st'"
proof -
  have "r_id r \<noteq> []" using assms(1,2) by (auto simp: refund_store_wf_def refund_findById_def dest: keyedD)
  with assms show ?thesis
    by (auto simp: refund_update_def refund_store_wf_def keyed_set index_ok_update refund_findById_def)
qed

interpretation refund_repo: indexed_repository refund_store_wf refund_findById refund_create refund_update
  r_id r_outRefundNo "\<lambda>x. x" refund_findByOutRefundNo r_outRefundNo
proof (unfold_locales, goal_cases)
  case (1 a s s' k) then show ?case by (auto dest!: refund_create_ok simp: refund_findById_def)
next
  case (2 a s s' k) then show ?case by (auto simp: refund_update_def refund_findById_def)
next
  case (3 s a s') then show ?case by (auto intro: refund_create_wf)
next
  case (4 s a b s') then show ?case by (auto intro: refund_update_wf)
next
  case (5 s a b) then show ?case by (simp add: refund_update_def)
next
  case (6 s k a) then show ?case by (auto simp: refund_findById_def refund_store_wf_def dest: keyedD)
next
  case 7 show ?case by simp
next
  case (8 s n a)
  then show ?case by (simp add: refund_find_defs refund_store_wf_def index_get_iff)
next
  case (9 s a)
  then have "index_get (rs_byId s) (rs_byOutRefundNo s) (r_outRefundNo a) = None \<longleftrightarrow>
      jm_get (rs_byOutRefundNo s) (r_outRefundNo a) = None"
    by (intro index_get_None[of r_id _ r_outRefundNo]) (simp_all add: refund_store_wf_def)
  then show ?case by (simp add: refund_create_def refund_find_defs jm_has_def)
qed

interpretation refund_list: listed_repository refund_store_wf refund_findById refund_create refund_update
  r_id r_outRefundNo "\<lambda>x. x" refund_all
  by unfold_locales
    (simp_all add: refund_find_defs refund_store_wf_def keyed_values keyed_distinct del: set_map map_map)

lemma refund_findByOrder_all: "refund_findByOrder st oid = filter (\<lambda>r. r_orderId r = oid) (refund_all st)"
  by (simp add: refund_findByOrder_def refund_all_def)

section \<open>The reserved total of an order\<close>

text \<open>
  The refund ledger's figure for an order: the sum of its refunds that are not \<open>FAILED\<close> (settled and
  reserved money). It is a total over the listing, so the interface's laws say how it changes.
\<close>

definition reserved_share :: "string \<Rightarrow> refund \<Rightarrow> int" where
  "reserved_share oid r = (if r_orderId r = oid \<and> r_status r \<noteq> R_FAILED then r_amount r else 0)"

definition reserved :: "refund_store \<Rightarrow> string \<Rightarrow> int" where
  "reserved st oid = sum_list (map (reserved_share oid) (refund_all st))"

lemma reserved_created:
  assumes "refund_store_wf st" "refund_create r st = Inr st'" "r_id r \<noteq> []" "refund_findById st (r_id r) = None"
  shows "reserved st' oid = reserved st oid + reserved_share oid r"
  unfolding reserved_def using assms
  by (intro refund_list.total_created refund_create_wf[OF assms(1,3,4,2)])

lemma reserved_updated:
  assumes "refund_store_wf st" "refund_update r st = Inr st'" "refund_findById st (r_id r) = Some old"
    and "r_outRefundNo old = r_outRefundNo r"
  shows "reserved st' oid = reserved st oid - reserved_share oid old + reserved_share oid r"
  unfolding reserved_def using assms
  by (intro refund_list.total_updated refund_update_wf[OF assms(1,3,4,2)])

end
