(* ===== verification/EventStore.thy ===== *)
theory EventStore
  imports Domain Repository
begin

text \<open>
  \<open>MemoryProcessedEventStore\<close> of \<^verbatim>\<open>src/storage/memoryStore.ts\<close>: the check-and-set that makes callbacks
  and settled transactions count once, and the sweep that forgets old entries.
\<close>

record event_store =
  es_seen :: "(string, int) jsmap"

definition empty_event_store :: event_store where
  "empty_event_store = \<lparr>es_seen = []\<rparr>"

definition event_markIfNew :: "env \<Rightarrow> string \<Rightarrow> event_store \<Rightarrow> bool \<times> event_store" where
  "event_markIfNew e eventId st =
     (if jm_has (es_seen st) eventId then (False, st)
      else (True, st\<lparr>es_seen := jm_set eventId (now_at e 0) (es_seen st)\<rparr>))"

definition event_sweep :: "env \<Rightarrow> int \<Rightarrow> event_store \<Rightarrow> nat \<times> event_store" where
  "event_sweep e olderThanMs st =
     (let cutoff = now_at e 0 - olderThanMs;
          (removed, seen) = foldl (\<lambda>(removed, seen) (i, at). if at < cutoff then (removed + 1, jm_delete i seen)
                                     else (removed, seen)) (0, es_seen st) (es_seen st)
      in (removed, st\<lparr>es_seen := seen\<rparr>))"

definition event_seen :: "event_store \<Rightarrow> string \<Rightarrow> bool" where
  "event_seen st x = jm_has (es_seen st) x"

interpretation event_dedupe: dedupe_store event_markIfNew event_seen
  by unfold_locales (auto simp: event_markIfNew_def event_seen_def)

definition event_store_wf :: "event_store \<Rightarrow> bool" where
  "event_store_wf st = jm_wf (es_seen st)"

lemma event_mark_wf: "event_store_wf st \<Longrightarrow> event_store_wf (snd (event_markIfNew e x st))"
  by (simp add: event_store_wf_def event_markIfNew_def)

section \<open>The sweep\<close>

lemma jm_delete_filter: "jm_delete k m = filter (\<lambda>p. fst p \<noteq> k) m"
  by (induction m) auto

lemma sweep_fold:
  "foldl (\<lambda>(removed, seen) (i, at). if at < c then (removed + 1, jm_delete i seen) else (removed, seen)) (n, m) xs =
     (n + length (filter (\<lambda>p. snd p < c) xs), filter (\<lambda>p. fst p \<notin> fst ` set (filter (\<lambda>p. snd p < c) xs)) m)"
proof (induction xs arbitrary: n m)
  case (Cons x xs)
  show ?case
    by (cases x) (simp add: Cons.IH jm_delete_filter filter_filter conj_commute del: set_filter)
qed simp

lemma event_sweep_eq:
  assumes "event_store_wf st"
  shows "event_sweep e a st =
    (length (filter (\<lambda>p. snd p < now_at e 0 - a) (es_seen st)),
     \<lparr>es_seen = filter (\<lambda>p. now_at e 0 - a \<le> snd p) (es_seen st)\<rparr>)"
proof -
  let ?c = "now_at e 0 - a" and ?m = "es_seen st"
  have wf: "distinct (map fst ?m)" using assms by (simp add: event_store_wf_def jm_wf_def)
  have "(fst p \<notin> fst ` set (filter (\<lambda>p. snd p < ?c) ?m)) = (?c \<le> snd p)" if p: "p \<in> set ?m" for p
  proof (cases "?c \<le> snd p")
    case True
    have "q = p" if "q \<in> set ?m" "fst q = fst p" for q
      using wf p that by (metis eq_key_imp_eq_value prod.collapse)
    with True have "fst p \<noteq> fst q" if "q \<in> set ?m" "snd q < ?c" for q using that by fastforce
    with True show ?thesis by auto
  next
    case False
    with p have "p \<in> set (filter (\<lambda>p. snd p < ?c) ?m)" by simp
    with False show ?thesis by blast
  qed
  then have "filter (\<lambda>p. fst p \<notin> fst ` set (filter (\<lambda>p. snd p < ?c) ?m)) ?m = filter (\<lambda>p. ?c \<le> snd p) ?m"
    by (intro filter_cong) auto
  then show ?thesis by (cases st) (simp add: event_sweep_def Let_def sweep_fold)
qed

lemma event_sweep_wf: "event_store_wf st \<Longrightarrow> event_store_wf (snd (event_sweep e a st))"
  by (simp add: event_sweep_eq) (auto simp: event_store_wf_def jm_wf_def distinct_map_filter)

lemma map_of_filter_val:
  "distinct (map fst m) \<Longrightarrow> map_of (filter (\<lambda>p. P (snd p)) m) k =
     (case map_of m k of None \<Rightarrow> None | Some v \<Rightarrow> if P v then Some v else None)"
  by (induction m) (auto split: option.splits dest: map_of_SomeD intro: rev_image_eqI)

lemma event_sweep_get:
  "event_store_wf st \<Longrightarrow> jm_get (es_seen (snd (event_sweep e a st))) x =
     (case jm_get (es_seen st) x of None \<Rightarrow> None | Some t \<Rightarrow> if now_at e 0 - a \<le> t then Some t else None)"
  using map_of_filter_val[of "es_seen st" "\<lambda>t. now_at e 0 - a \<le> t" x]
  by (simp add: event_sweep_eq event_store_wf_def jm_wf_def)

text \<open>
  the sweep removes exactly the entries older than the cutoff, reports how many it removed, and
  keeps the time and the order of the others.
\<close>

theorem event_sweep_exact:
  assumes "event_store_wf st"
  shows "let (n, st') = event_sweep e age st in
    es_seen st' = filter (\<lambda>p. now_at e 0 - age \<le> snd p) (es_seen st) \<and>
    n + length (es_seen st') = length (es_seen st) \<and>
    (\<forall>x. event_seen st' x = (\<exists>t. jm_get (es_seen st) x = Some t \<and> now_at e 0 - age \<le> t))"
proof -
  have "length (filter (\<lambda>p. snd p < c) m) + length (filter (\<lambda>p. c \<le> snd p) m) = length m"
    for c :: int and m :: "(string \<times> int) list"
    using sum_length_filter_compl[of "\<lambda>p. snd p < c" m] by (simp add: not_less)
  moreover have "event_seen (snd (event_sweep e age st)) x =
      (\<exists>t. jm_get (es_seen st) x = Some t \<and> now_at e 0 - age \<le> t)" for x
    unfolding event_seen_def jm_has_def event_sweep_get[OF assms] by (auto split: option.splits if_splits)
  ultimately show ?thesis by (simp add: event_sweep_eq[OF assms] Let_def)
qed

theorem event_sweep_exact_witness:
  "let st = \<lparr>es_seen = [(''a'', 5), (''b'', 50)]\<rparr>; (n, st') = event_sweep (env_at 100) 60 st in
     event_store_wf st \<and> es_seen st' = [(''b'', 50)] \<and> n + 1 = 2"
  using event_sweep_exact[of "\<lparr>es_seen = [(''a'', 5), (''b'', 50)]\<rparr>" "env_at 100" 60]
  by (auto simp: event_store_wf_def jm_wf_def split_beta)

section \<open>No event is accepted twice\<close>

text \<open>A history of the store: marks and sweeps, each at the clock of its call.\<close>

datatype event_op = Mark env string | Sweep env int

fun event_op_step :: "event_op \<Rightarrow> event_store \<Rightarrow> event_store" where
  "event_op_step (Mark e x) st = snd (event_markIfNew e x st)"
| "event_op_step (Sweep e a) st = snd (event_sweep e a st)"

definition event_history :: "event_op list \<Rightarrow> event_store \<Rightarrow> event_store" where
  "event_history ops st = fold event_op_step ops st"

text \<open>A sweep that keeps everything recorded at time \<open>t\<close> or later.\<close>

fun keeps_since :: "int \<Rightarrow> event_op \<Rightarrow> bool" where
  "keeps_since t (Mark e x) = True"
| "keeps_since t (Sweep e a) = (now_at e 0 - a \<le> t)"

lemma event_history_keeps:
  "event_store_wf st \<Longrightarrow> list_all (keeps_since t) ops \<Longrightarrow> jm_get (es_seen st) x = Some u \<Longrightarrow> t \<le> u \<Longrightarrow>
     jm_get (es_seen (event_history ops st)) x = Some u"
proof (induction ops arbitrary: st)
  case (Cons op ops)
  have "jm_get (es_seen (event_op_step op st)) x = Some u \<and> event_store_wf (event_op_step op st)"
  proof (cases op)
    case (Mark e y)
    then show ?thesis using Cons.prems event_mark_wf by (auto simp: event_markIfNew_def jm_has_def)
  next
    case (Sweep e a)
    then show ?thesis using Cons.prems event_sweep_wf by (simp add: event_sweep_get)
  qed
  then show ?case using Cons by (simp add: event_history_def)
qed (simp add: event_history_def)

text \<open>
  Replay protection within the retention window. An event that was accepted at time \<open>t\<close> is refused
  again after any history of marks and sweeps, as long as no sweep has a cutoff later than \<open>t\<close>.
\<close>

theorem event_no_replay:
  assumes "event_store_wf st" "fst (event_markIfNew e x st)"
    and "list_all (keeps_since (now_at e 0)) ops"
  shows "\<not> fst (event_markIfNew e' x (event_history ops (snd (event_markIfNew e x st))))"
proof -
  have "jm_get (es_seen (snd (event_markIfNew e x st))) x = Some (now_at e 0)"
    using assms(2) by (simp add: event_markIfNew_def split: if_splits)
  from event_history_keeps[OF event_mark_wf[OF assms(1)] assms(3) this]
  show ?thesis by (simp add: event_markIfNew_def jm_has_def)
qed

theorem event_no_replay_witness:
  "let ops = [Mark (env_at 7) ''other'', Sweep (env_at 8) 3]; st = empty_event_store in
   event_store_wf st \<and> fst (event_markIfNew (env_at 5) ''evt'' st) \<and> list_all (keeps_since 5) ops \<and>
   \<not> fst (event_markIfNew (env_at 9) ''evt'' (event_history ops (snd (event_markIfNew (env_at 5) ''evt'' st))))"
  unfolding Let_def
  by (intro conjI event_no_replay) (simp_all add: event_store_wf_def empty_event_store_def event_markIfNew_def)

end
