(* ===== verification/SubscriptionStore.thy ===== *)
theory SubscriptionStore
  imports Domain Repository
begin

text \<open>
  \<open>MemorySubscriptionRepository\<close> of \<^verbatim>\<open>src/storage/memoryStore.ts\<close>: subscriptions by id and, per user, the
  id of the current one. A new subscription takes over the user's entry without touching the old one,
  so an older active subscription may remain listed until it is deactivated.
\<close>

record sub_store =
  ss_byId :: "(string, subscription) jsmap"
  ss_activeByUser :: "(string, string) jsmap"

definition empty_sub_store :: sub_store where
  "empty_sub_store = \<lparr>ss_byId = [], ss_activeByUser = []\<rparr>"

definition sub_findActiveByUser :: "sub_store \<Rightarrow> string \<Rightarrow> subscription option" where
  "sub_findActiveByUser st u = index_get (ss_byId st) (ss_activeByUser st) u"

definition sub_create :: "subscription \<Rightarrow> sub_store \<Rightarrow> sub_store" where
  "sub_create s st =
     (let st1 = st\<lparr>ss_byId := jm_set (s_id s) s (ss_byId st)\<rparr>
      in if s_active s then st1\<lparr>ss_activeByUser := jm_set (s_userId s) (s_id s) (ss_activeByUser st1)\<rparr> else st1)"

definition sub_update :: "subscription \<Rightarrow> sub_store \<Rightarrow> sub_store" where
  "sub_update s st =
     (let st1 = st\<lparr>ss_byId := jm_set (s_id s) s (ss_byId st)\<rparr>
      in if s_active s then st1\<lparr>ss_activeByUser := jm_set (s_userId s) (s_id s) (ss_activeByUser st1)\<rparr>
         else if jm_get (ss_activeByUser st1) (s_userId s) = Some (s_id s)
         then st1\<lparr>ss_activeByUser := jm_delete (s_userId s) (ss_activeByUser st1)\<rparr>
         else st1)"

definition sub_listActive :: "sub_store \<Rightarrow> subscription list" where
  "sub_listActive st = filter s_active (jm_values (ss_byId st))"

text \<open>All stored subscriptions and a lookup by id: not operations of the code, but what the others act on.\<close>

definition sub_all :: "sub_store \<Rightarrow> subscription list" where
  "sub_all st = jm_values (ss_byId st)"

definition sub_find :: "sub_store \<Rightarrow> string \<Rightarrow> subscription option" where
  "sub_find st i = jm_get (ss_byId st) i"

definition sub_store_wf :: "sub_store \<Rightarrow> bool" where
  "sub_store_wf st \<longleftrightarrow> keyed s_id (ss_byId st) \<and>
     (\<forall>u i. jm_get (ss_activeByUser st) u = Some i \<longrightarrow>
        (\<exists>s. jm_get (ss_byId st) i = Some s \<and> s_userId s = u \<and> s_active s))"

lemma sub_store_wf_empty [simp]: "sub_store_wf empty_sub_store"
  by (simp add: sub_store_wf_def empty_sub_store_def)

lemma sub_active_iff:
  assumes "sub_store_wf st"
  shows "(sub_findActiveByUser st u = Some s) =
    (\<exists>i. jm_get (ss_activeByUser st) u = Some i \<and> jm_get (ss_byId st) i = Some s)"
  using assms keyedD[of s_id "ss_byId st"]
  by (fastforce simp: sub_findActiveByUser_def index_get_def Let_def truthy_def sub_store_wf_def split: option.splits)

lemma sub_active_props:
  assumes "sub_store_wf st" "sub_findActiveByUser st u = Some s"
  shows "s_userId s = u \<and> s_active s \<and> sub_find st (s_id s) = Some s \<and> s_id s \<noteq> []"
  using assms sub_active_iff[OF assms(1)] keyedD[of s_id "ss_byId st"]
  by (fastforce simp: sub_store_wf_def sub_find_def)

section \<open>The subscription interface\<close>

text \<open>
  What \<open>SubscriptionService\<close> and \<open>ExpiryService\<close> rely on: writing an active subscription makes it its
  user's current one and nobody else's; writing an inactive one leaves the other users' alone.
\<close>

locale subscription_repository =
  fixes valid :: "'s \<Rightarrow> bool"
    and current :: "'s \<Rightarrow> string \<Rightarrow> subscription option"
    and create :: "subscription \<Rightarrow> 's \<Rightarrow> 's"
    and update :: "subscription \<Rightarrow> 's \<Rightarrow> 's"
    and stored :: "'s \<Rightarrow> string \<Rightarrow> subscription option"
  assumes current_create: "valid s \<Longrightarrow> s_active a \<Longrightarrow> s_id a \<noteq> [] \<Longrightarrow> stored s (s_id a) = None \<Longrightarrow>
      current (create a s) u = (if u = s_userId a then Some a else current s u)"
    and current_update: "valid s \<Longrightarrow> s_active a \<Longrightarrow> stored s (s_id a) = Some b \<Longrightarrow> s_userId b = s_userId a \<Longrightarrow>
      current (update a s) u = (if u = s_userId a then Some a else current s u)"
    and current_deactivate: "valid s \<Longrightarrow> \<not> s_active a \<Longrightarrow> stored s (s_id a) = Some b \<Longrightarrow> s_userId b = s_userId a \<Longrightarrow>
      current (update a s) u =
        (if u = s_userId a \<and> (\<exists>c. current s u = Some c \<and> s_id c = s_id a) then None else current s u)"
    and create_valid: "valid s \<Longrightarrow> s_id a \<noteq> [] \<Longrightarrow> stored s (s_id a) = None \<Longrightarrow> valid (create a s)"
    and update_valid: "valid s \<Longrightarrow> stored s (s_id a) = Some b \<Longrightarrow> s_userId b = s_userId a \<Longrightarrow> valid (update a s)"
    and stored_create: "stored (create a s) i = (if i = s_id a then Some a else stored s i)"
    and stored_update: "stored (update a s) i = (if i = s_id a then Some a else stored s i)"
    and current_stored: "valid s \<Longrightarrow> current s u = Some a \<Longrightarrow>
      stored s (s_id a) = Some a \<and> s_userId a = u \<and> s_active a \<and> s_id a \<noteq> []"
begin

lemma current_renewed:
  assumes "valid s" "current s u = Some b" "s_id a = s_id b" "s_userId a = u" "s_active a"
  shows "current (update a s) v = (if v = u then Some a else current s v)" "valid (update a s)"
  using assms current_update[of s a b v] update_valid[of s a b] current_stored[of s u b] by auto

lemma current_cancelled:
  assumes "valid s" "current s u = Some b" "s_id a = s_id b" "s_userId a = u" "\<not> s_active a"
  shows "current (update a s) v = (if v = u then None else current s v)" "valid (update a s)"
  using assms current_deactivate[of s a b v] update_valid[of s a b] current_stored[of s u b] by auto

end

lemma sub_write_wf:
  assumes wf: "sub_store_wf st" and id: "s_id a \<noteq> []"
    and st: "ss_byId st' = jm_set (s_id a) a (ss_byId st)"
    and ix: "\<And>u i. jm_get (ss_activeByUser st') u = Some i \<Longrightarrow>
       (u = s_userId a \<and> i = s_id a \<and> s_active a) \<or> (jm_get (ss_activeByUser st) u = Some i \<and> i \<noteq> s_id a)"
  shows "sub_store_wf st'"
proof -
  have "\<exists>s. jm_get (ss_byId st') i = Some s \<and> s_userId s = u \<and> s_active s"
    if g: "jm_get (ss_activeByUser st') u = Some i" for u i
    using ix[OF g] wf by (auto simp: st sub_store_wf_def)
  moreover have "keyed s_id (ss_byId st')" using wf id by (simp add: st sub_store_wf_def keyed_set)
  ultimately show ?thesis by (simp add: sub_store_wf_def)
qed

lemma sub_index_owner:
  assumes "sub_store_wf st" "jm_get (ss_activeByUser st) u = Some i" "sub_find st i = Some b"
  shows "u = s_userId b \<and> s_active b"
  using assms by (fastforce simp: sub_store_wf_def sub_find_def)

lemma sub_index_stored:
  assumes "sub_store_wf st" "jm_get (ss_activeByUser st) u = Some i"
  shows "sub_find st i \<noteq> None"
  using assms by (fastforce simp: sub_store_wf_def sub_find_def)

lemma sub_create_wf:
  assumes "sub_store_wf st" "s_id a \<noteq> []" "sub_find st (s_id a) = None"
  shows "sub_store_wf (sub_create a st)"
proof (rule sub_write_wf[OF assms(1,2)])
  show "ss_byId (sub_create a st) = jm_set (s_id a) a (ss_byId st)" by (simp add: sub_create_def Let_def)
  fix u i assume "jm_get (ss_activeByUser (sub_create a st)) u = Some i"
  moreover have "jm_get (ss_activeByUser st) u \<noteq> Some (s_id a)"
    using sub_index_stored[OF assms(1)] assms(3) by fastforce
  ultimately show "(u = s_userId a \<and> i = s_id a \<and> s_active a) \<or> (jm_get (ss_activeByUser st) u = Some i \<and> i \<noteq> s_id a)"
    by (auto simp: sub_create_def Let_def split: if_splits)
qed

lemma sub_update_wf:
  assumes "sub_store_wf st" "sub_find st (s_id a) = Some b" "s_userId b = s_userId a"
  shows "sub_store_wf (sub_update a st)"
proof (rule sub_write_wf[OF assms(1)])
  show "s_id a \<noteq> []" using assms(1,2) by (auto simp: sub_store_wf_def sub_find_def dest: keyedD)
  show "ss_byId (sub_update a st) = jm_set (s_id a) a (ss_byId st)" by (simp add: sub_update_def Let_def)
  fix u i assume "jm_get (ss_activeByUser (sub_update a st)) u = Some i"
  moreover have "jm_get (ss_activeByUser st) u = Some (s_id a) \<Longrightarrow> u = s_userId a"
    using sub_index_owner[OF assms(1) _ assms(2)] assms(3) by simp
  ultimately show "(u = s_userId a \<and> i = s_id a \<and> s_active a) \<or> (jm_get (ss_activeByUser st) u = Some i \<and> i \<noteq> s_id a)"
    by (auto simp: sub_update_def Let_def split: if_splits)
qed

lemma sub_current_eq:
  "sub_findActiveByUser st u = (case jm_get (ss_activeByUser st) u of None \<Rightarrow> None
     | Some i \<Rightarrow> if i = [] then None else jm_get (ss_byId st) i)"
  by (auto simp: sub_findActiveByUser_def index_get_def Let_def truthy_def split: option.splits)

interpretation sub_repo: subscription_repository sub_store_wf sub_findActiveByUser sub_create sub_update sub_find
proof (unfold_locales, goal_cases)
  case (1 s a u)
  have "jm_get (ss_activeByUser s) v \<noteq> Some (s_id a)" for v
    using sub_index_stored[OF 1(1)] 1(4) by fastforce
  with 1 show ?case by (auto simp: sub_current_eq sub_create_def Let_def split: option.splits)
next
  case (2 s a b u)
  have id: "s_id a \<noteq> []" using 2 by (auto simp: sub_store_wf_def sub_find_def dest: keyedD)
  have own: "u \<noteq> s_userId a \<Longrightarrow> jm_get (ss_activeByUser s) u \<noteq> Some (s_id a)"
    using sub_index_owner[of s u "s_id a" b] 2 by auto
  have st: "ss_byId (sub_update a s) = jm_set (s_id a) a (ss_byId s)"
    "ss_activeByUser (sub_update a s) = jm_set (s_userId a) (s_id a) (ss_activeByUser s)"
    using 2(2) by (simp_all add: sub_update_def Let_def)
  show ?case
    by (cases "u = s_userId a"; cases "jm_get (ss_activeByUser s) u")
      (use id own in \<open>simp_all add: sub_current_eq st\<close>)
next
  case (3 s a b u)
  have id: "s_id a \<noteq> []" using 3 by (auto simp: sub_store_wf_def sub_find_def dest: keyedD)
  have own: "u \<noteq> s_userId a \<Longrightarrow> jm_get (ss_activeByUser s) u \<noteq> Some (s_id a)"
    using sub_index_owner[of s u "s_id a" b] 3 by auto
  have cur: "(\<exists>c. sub_findActiveByUser s v = Some c \<and> s_id c = s_id a) = (jm_get (ss_activeByUser s) v = Some (s_id a))" for v
  proof (cases "jm_get (ss_activeByUser s) v")
    case (Some i)
    then obtain t where "jm_get (ss_byId s) i = Some t" using 3(1) by (auto simp: sub_store_wf_def)
    moreover have "keyed s_id (ss_byId s)" using 3(1) by (simp add: sub_store_wf_def)
    ultimately show ?thesis using Some keyedD[of s_id "ss_byId s" i t] by (simp add: sub_current_eq)
  qed (simp add: sub_current_eq)
  have st: "ss_byId (sub_update a s) = jm_set (s_id a) a (ss_byId s)"
    "ss_activeByUser (sub_update a s) = (if jm_get (ss_activeByUser s) (s_userId a) = Some (s_id a)
       then jm_delete (s_userId a) (ss_activeByUser s) else ss_activeByUser s)"
    using 3(2) by (simp_all add: sub_update_def Let_def)
  have same: "jm_get (ss_activeByUser s) (s_userId a) = Some i \<Longrightarrow> i \<noteq> s_id a \<Longrightarrow>
      jm_get (jm_set (s_id a) a (ss_byId s)) i = jm_get (ss_byId s) i" for i by simp
  show ?case unfolding cur
    by (cases "u = s_userId a"; cases "jm_get (ss_activeByUser s) u")
      (use id own in \<open>auto simp: sub_current_eq st\<close>)
next
  case (4 s a) then show ?case by (rule sub_create_wf)
next
  case (5 s a b) then show ?case by (rule sub_update_wf)
next
  case (6 a s i) then show ?case by (auto simp: sub_find_def sub_create_def Let_def)
next
  case (7 a s i) then show ?case by (auto simp: sub_find_def sub_update_def Let_def)
next
  case (8 s u a) then show ?case by (auto dest: sub_active_props)
qed

lemma sub_all_find: "sub_store_wf st \<Longrightarrow> (s \<in> set (sub_all st)) = (sub_find st (s_id s) = Some s)"
  by (simp add: sub_all_def sub_find_def sub_store_wf_def keyed_values del: set_map)

lemma sub_listActive_iff:
  "sub_store_wf st \<Longrightarrow> (s \<in> set (sub_listActive st)) = (sub_find st (s_id s) = Some s \<and> s_active s)"
  by (auto simp: sub_listActive_def sub_all_find[unfolded sub_all_def] simp del: set_map)

lemma sub_all_distinct: "sub_store_wf st \<Longrightarrow> distinct (map s_id (sub_all st))"
  by (simp add: sub_all_def sub_store_wf_def keyed_distinct del: map_map)

lemma sub_all_write:
  fixes f :: "subscription \<Rightarrow> int"
  shows "sum_list (map f (sub_all (sub_create a st))) =
      sum_list (map f (sub_all st)) - (case sub_find st (s_id a) of None \<Rightarrow> 0 | Some b \<Rightarrow> f b) + f a"
    and "sum_list (map f (sub_all (sub_update a st))) =
      sum_list (map f (sub_all st)) - (case sub_find st (s_id a) of None \<Rightarrow> 0 | Some b \<Rightarrow> f b) + f a"
  by (simp_all add: sub_all_def sub_create_def sub_update_def sub_find_def Let_def sum_values_set del: map_map)

end
