(* ===== verification/Subscriptions.thy ===== *)
theory Subscriptions
  imports OrderStateMachine SubscriptionStore
begin

text \<open>
  What turns paid orders into access: the plan catalogue (\<^verbatim>\<open>src/services/plans.ts\<close>), fulfilment
  (\<^verbatim>\<open>src/services/subscriptionService.ts\<close>), and the expiry passes with their watcher
  (\<^verbatim>\<open>src/services/expiryService.ts\<close>, \<^verbatim>\<open>src/services/expiryWatcher.ts\<close>). A notifier is a function from
  the event to what \<open>notify\<close> returns or throws; the events it accepted are kept in order, as the code's
  \<open>RecordingNotifier\<close> does.
\<close>

section \<open>The plan catalogue\<close>

definition PLANS :: "plan list" where
  "PLANS =
    [\<lparr>p_id = ''monthly'', p_name = ''Monthly'', p_durationDays = 30, p_trafficGb = 200, p_deviceLimit = 3,
      p_priceCnyFen = 1500, p_priceUsdtMicro = 2000000, p_enabled = True\<rparr>,
     \<lparr>p_id = ''quarterly'', p_name = ''Quarterly'', p_durationDays = 90, p_trafficGb = 700, p_deviceLimit = 4,
      p_priceCnyFen = 3900, p_priceUsdtMicro = 5500000, p_enabled = True\<rparr>,
     \<lparr>p_id = ''yearly'', p_name = ''Yearly'', p_durationDays = 365, p_trafficGb = 0, p_deviceLimit = 5,
      p_priceCnyFen = 12800, p_priceUsdtMicro = 18000000, p_enabled = True\<rparr>]"

definition listPlans :: "plan list \<Rightarrow> plan list" where
  "listPlans plans = filter p_enabled plans"

definition getPlan :: "plan list \<Rightarrow> string \<Rightarrow> plan option" where
  "getPlan plans i = List.find (\<lambda>x. p_id x = i \<and> p_enabled x) plans"

lemma getPlan_enabled: "getPlan plans i = Some p \<Longrightarrow> p_id p = i \<and> p_enabled p \<and> p \<in> set (listPlans plans)"
  by (auto simp: getPlan_def listPlans_def find_Some_iff)

lemma getPlan_None: "(getPlan plans i = None) = (\<forall>p \<in> set (listPlans plans). p_id p \<noteq> i)"
  by (auto simp: getPlan_def listPlans_def find_None_iff)

section \<open>Fulfilment\<close>

definition renewed :: "int \<Rightarrow> order \<Rightarrow> plan \<Rightarrow> subscription \<Rightarrow> subscription" where
  "renewed now ord plan existing = existing\<lparr>
     s_planId := p_id plan,
     s_expiresAt := s_expiresAt existing + p_durationDays plan * 24 * 60 * 60 * 1000,
     s_trafficGb := p_trafficGb plan,
     s_deviceLimit := p_deviceLimit plan,
     s_orderIds := s_orderIds existing @ [o_id ord],
     s_active := True,
     s_expiryNotifiedAt := None,
     s_updatedAt := now\<rparr>"

definition started :: "env \<Rightarrow> int \<Rightarrow> order \<Rightarrow> plan \<Rightarrow> subscription" where
  "started e now ord plan = \<lparr>
     s_id = uuid_at e 0,
     s_userId = o_userId ord,
     s_planId = p_id plan,
     s_startsAt = now,
     s_expiresAt = now + p_durationDays plan * 24 * 60 * 60 * 1000,
     s_trafficGb = p_trafficGb plan,
     s_deviceLimit = p_deviceLimit plan,
     s_active = True,
     s_orderIds = [o_id ord],
     s_expiryNotifiedAt = None,
     s_createdAt = now,
     s_updatedAt = now\<rparr>"

text \<open>
  The subscription is written before the status is checked, so an order in a state that may not be
  fulfilled leaves the write behind.
\<close>

definition fulfillOrder ::
  "env \<Rightarrow> plan list \<Rightarrow> order \<Rightarrow> sub_store \<Rightarrow> (order \<times> subscription) result \<times> sub_store" where
  "fulfillOrder e plans ord st =
     (case (if o_status ord = FULFILLED then sub_findActiveByUser st (o_userId ord) else None) of
        Some existing \<Rightarrow> (Inr (ord, existing), st)
      | None \<Rightarrow>
          (case getPlan plans (o_planId ord) of
             None \<Rightarrow> (Inl (NotFoundError (''plan not found: '' @ o_planId ord)), st)
           | Some plan \<Rightarrow>
               let now = now_at e 0;
                   (subscription, st1) =
                     (case sub_findActiveByUser st (o_userId ord) of
                        Some existing \<Rightarrow>
                          if s_expiresAt existing > now then
                            let s = renewed now ord plan existing in (s, sub_update s st)
                          else let s = started e now ord plan in (s, sub_create s st)
                      | None \<Rightarrow> let s = started e now ord plan in (s, sub_create s st))
               in (case assertTransition (o_status ord) FULFILLED of
                     Inl err \<Rightarrow> (Inl err, st1)
                   | Inr status \<Rightarrow> (Inr (ord\<lparr>o_status := status, o_updatedAt := now\<rparr>, subscription), st1))))"

definition plan_ms :: "plan \<Rightarrow> int" where
  "plan_ms plan = p_durationDays plan * 86400000"

text \<open>The expiry a fulfilment at \<open>now\<close> starts to count from.\<close>

definition base_expiry :: "sub_store \<Rightarrow> string \<Rightarrow> int \<Rightarrow> int" where
  "base_expiry st u now = (case sub_findActiveByUser st u of None \<Rightarrow> now | Some s \<Rightarrow> max now (s_expiresAt s))"

text \<open>What the new subscription is and how the store changes, for an order that is not yet fulfilled.\<close>

definition granted :: "env \<Rightarrow> order \<Rightarrow> plan \<Rightarrow> sub_store \<Rightarrow> subscription \<times> sub_store" where
  "granted e ord plan st =
     (case sub_findActiveByUser st (o_userId ord) of
        Some existing \<Rightarrow>
          if s_expiresAt existing > now_at e 0 then
            let s = renewed (now_at e 0) ord plan existing in (s, sub_update s st)
          else let s = started e (now_at e 0) ord plan in (s, sub_create s st)
      | None \<Rightarrow> let s = started e (now_at e 0) ord plan in (s, sub_create s st))"

lemma fulfillOrder_granted:
  "o_status ord \<noteq> FULFILLED \<Longrightarrow> getPlan plans (o_planId ord) = Some plan \<Longrightarrow>
   fulfillOrder e plans ord st =
     (case assertTransition (o_status ord) FULFILLED of
        Inl err \<Rightarrow> (Inl err, snd (granted e ord plan st))
      | Inr status \<Rightarrow> (Inr (ord\<lparr>o_status := status, o_updatedAt := now_at e 0\<rparr>, fst (granted e ord plan st)),
                      snd (granted e ord plan st)))"
  unfolding fulfillOrder_def granted_def by (simp add: Let_def split_beta)

lemma granted_props:
  assumes wf: "sub_store_wf st" and new: "uuid_at e 0 \<noteq> []" "sub_find st (uuid_at e 0) = None"
    and g: "granted e ord plan st = (s, st')"
  shows "sub_store_wf st'"
    and "sub_findActiveByUser st' v = (if v = o_userId ord then Some s else sub_findActiveByUser st v)"
    and "s_userId s = o_userId ord \<and> s_active s \<and> s_planId s = p_id plan \<and>
      s_expiresAt s = base_expiry st (o_userId ord) (now_at e 0) + plan_ms plan"
    and "sub_find st' i = (if i = s_id s then Some s else sub_find st i)"
    and "\<exists>old. s_orderIds s = old @ [o_id ord] \<and> (case sub_find st (s_id s) of None \<Rightarrow> old = [] | Some b \<Rightarrow> old = s_orderIds b)"
proof -
  have "sub_store_wf st' \<and> (\<forall>v. sub_findActiveByUser st' v = (if v = o_userId ord then Some s else sub_findActiveByUser st v)) \<and>
    (s_userId s = o_userId ord \<and> s_active s \<and> s_planId s = p_id plan \<and>
      s_expiresAt s = base_expiry st (o_userId ord) (now_at e 0) + plan_ms plan) \<and>
    (\<forall>i. sub_find st' i = (if i = s_id s then Some s else sub_find st i)) \<and>
    (\<exists>old. s_orderIds s = old @ [o_id ord] \<and> (case sub_find st (s_id s) of None \<Rightarrow> old = [] | Some b \<Rightarrow> old = s_orderIds b))"
  proof (cases "\<exists>x. sub_findActiveByUser st (o_userId ord) = Some x \<and> s_expiresAt x > now_at e 0")
    case True
    then obtain x where x: "sub_findActiveByUser st (o_userId ord) = Some x" "s_expiresAt x > now_at e 0" by blast
    have s: "s = renewed (now_at e 0) ord plan x" "st' = sub_update s st"
      using g x by (auto simp: granted_def Let_def)
    have id: "s_id s = s_id x" "s_active s" "s_userId s = s_userId x" by (simp_all add: s renewed_def)
    have u: "s_userId x = o_userId ord" "sub_find st (s_id x) = Some x"
      using sub_repo.current_stored[OF wf x(1)] by simp_all
    note r = sub_repo.current_renewed[OF wf x(1) id(1) _ id(2)]
    show ?thesis using r id u x
      by (auto simp: s(2) sub_repo.stored_update) (simp_all add: s(1) renewed_def base_expiry_def plan_ms_def)
  next
    case False
    have s: "s = started e (now_at e 0) ord plan" "st' = sub_create s st"
      using g False by (auto simp: granted_def Let_def split: option.splits if_splits)
    have id: "s_id s = uuid_at e 0" "s_active s" "s_userId s = o_userId ord" by (simp_all add: s started_def)
    have base: "base_expiry st (o_userId ord) (now_at e 0) = now_at e 0"
      using False by (auto simp: base_expiry_def split: option.splits)
    show ?thesis
      using sub_repo.current_create[OF wf id(2)] sub_repo.create_valid[OF wf] new id
      by (auto simp: s(2) sub_repo.stored_create) (simp_all add: s(1) started_def base plan_ms_def)
  qed
  then show "sub_store_wf st'"
    "sub_findActiveByUser st' v = (if v = o_userId ord then Some s else sub_findActiveByUser st v)"
    "s_userId s = o_userId ord \<and> s_active s \<and> s_planId s = p_id plan \<and>
      s_expiresAt s = base_expiry st (o_userId ord) (now_at e 0) + plan_ms plan"
    "sub_find st' i = (if i = s_id s then Some s else sub_find st i)"
    "\<exists>old. s_orderIds s = old @ [o_id ord] \<and> (case sub_find st (s_id s) of None \<Rightarrow> old = [] | Some b \<Rightarrow> old = s_orderIds b)"
    by blast+
qed

text \<open>The store of the worked examples: one subscription of user \<open>u1\<close> that expires at 1000.\<close>

definition demo_sub :: subscription where
  "demo_sub = \<lparr>s_id = ''s1'', s_userId = ''u1'', s_planId = ''monthly'', s_startsAt = 0, s_expiresAt = 1000,
     s_trafficGb = 200, s_deviceLimit = 3, s_active = True, s_orderIds = [''o0''], s_expiryNotifiedAt = None,
     s_createdAt = 0, s_updatedAt = 0\<rparr>"

definition demo_sub_store :: sub_store where
  "demo_sub_store = sub_create demo_sub empty_sub_store"

lemma demo_sub_store_eq: "demo_sub_store = \<lparr>ss_byId = [(''s1'', demo_sub)], ss_activeByUser = [(''u1'', ''s1'')]\<rparr>"
  by (simp add: demo_sub_store_def sub_create_def demo_sub_def empty_sub_store_def)

lemma demo_sub_store_wf: "sub_store_wf demo_sub_store"
  unfolding demo_sub_store_def
  by (rule sub_repo.create_valid[OF sub_store_wf_empty]) (simp_all add: demo_sub_def sub_find_def empty_sub_store_def)

lemma demo_sub_current: "sub_findActiveByUser demo_sub_store ''u1'' = Some demo_sub"
  by (simp add: sub_current_eq demo_sub_store_eq)

text \<open>
  what a payment buys. For a PAID order of a known plan, fulfilment returns the order as FULFILLED
  and a subscription that is active, belongs to the order's user, expires the plan's duration after
  the later of now and the current expiry, and has the order as the last one it was paid by. That
  subscription becomes the user's current one, no other subscription changes, nobody else's current one
  does, and the store stays well formed.
\<close>

theorem fulfillOrder_grants:
  assumes "sub_store_wf st" "o_status ord = PAID" "getPlan plans (o_planId ord) = Some plan"
    and "uuid_at e 0 \<noteq> []" "sub_find st (uuid_at e 0) = None"
  shows "\<exists>s st'. fulfillOrder e plans ord st = (Inr (ord\<lparr>o_status := FULFILLED, o_updatedAt := now_at e 0\<rparr>, s), st') \<and>
    sub_store_wf st' \<and> s_active s \<and> s_userId s = o_userId ord \<and> last (s_orderIds s) = o_id ord \<and>
    s_expiresAt s = (case sub_findActiveByUser st (o_userId ord) of None \<Rightarrow> now_at e 0
       | Some old \<Rightarrow> max (now_at e 0) (s_expiresAt old)) + p_durationDays plan * 86400000 \<and>
    (\<forall>u. sub_findActiveByUser st' u = (if u = o_userId ord then Some s else sub_findActiveByUser st u)) \<and>
    (\<forall>i. i \<noteq> s_id s \<longrightarrow> sub_find st' i = sub_find st i)"
proof -
  obtain s st' where g: "granted e ord plan st = (s, st')" by fastforce
  note G = granted_props[OF assms(1,4,5) g]
  have "assertTransition PAID FULFILLED = Inr FULFILLED"
    by (simp add: assertTransition_def canTransition_def)
  then have "fulfillOrder e plans ord st = (Inr (ord\<lparr>o_status := FULFILLED, o_updatedAt := now_at e 0\<rparr>, s), st')"
    using fulfillOrder_granted[of ord plans plan e st] assms(2,3) g by simp
  moreover have "last (s_orderIds s) = o_id ord" using G(5) by auto
  ultimately show ?thesis
    using G(1) G(2) G(3) G(4) by (intro exI[of _ s] exI[of _ st']) (simp add: base_expiry_def plan_ms_def)
qed

theorem fulfillOrder_grants_witness:
  "\<exists>s st'. fulfillOrder (env_at 400) PLANS (demo_order ''o1'' Wechat 1500 PAID) demo_sub_store =
      (Inr ((demo_order ''o1'' Wechat 1500 PAID)\<lparr>o_status := FULFILLED, o_updatedAt := 400\<rparr>, s), st') \<and>
    sub_store_wf st' \<and> s_expiresAt s = 1000 + 30 * 86400000 \<and> sub_findActiveByUser st' ''u1'' = Some s"
proof -
  have p: "getPlan PLANS (o_planId (demo_order ''o1'' Wechat 1500 PAID)) = Some (hd PLANS)"
    by (simp add: getPlan_def PLANS_def demo_order_def)
  have o: "o_status (demo_order ''o1'' Wechat 1500 PAID) = PAID" "o_userId (demo_order ''o1'' Wechat 1500 PAID) = ''u1''"
    by (simp_all add: demo_order_def)
  have new: "uuid_at (env_at 400) 0 \<noteq> []" "sub_find demo_sub_store (uuid_at (env_at 400) 0) = None"
    by (simp_all add: sub_find_def demo_sub_store_eq)
  have d: "max 400 (s_expiresAt demo_sub) + p_durationDays (hd PLANS) * 86400000 =
      1000 + 30 * 86400000" by (simp add: demo_sub_def PLANS_def)
  show ?thesis
    using fulfillOrder_grants[OF demo_sub_store_wf o(1) p new]
    unfolding o(2) demo_sub_current option.case env_at_simps d
    by (elim exE conjE) (rule exI, rule exI, intro conjI, assumption, assumption, assumption, simp)
qed


text \<open>
  what fulfilment refuses. It fails only for an unknown or disabled plan, leaving the store as it
  was, or for a status from which FULFILLED cannot be reached; a re-run for an order that is FULFILLED
  returns the current subscription and changes nothing as long as the user has one.
\<close>

theorem fulfillOrder_refuses:
  "let (r, st') = fulfillOrder e plans ord st in
     (\<forall>err. r = Inl err \<longrightarrow>
        (err = NotFoundError (''plan not found: '' @ o_planId ord) \<and> st' = st \<and> getPlan plans (o_planId ord) = None) \<or>
        (\<not> is_ok (assertTransition (o_status ord) FULFILLED) \<and> http_status err = 409)) \<and>
     (o_status ord = FULFILLED \<and> sub_findActiveByUser st (o_userId ord) = Some s \<longrightarrow> r = Inr (ord, s) \<and> st' = st)"
proof -
  have "fulfillOrder e plans ord st = (Inl err, st') \<Longrightarrow>
      (err = NotFoundError (''plan not found: '' @ o_planId ord) \<and> st' = st \<and> getPlan plans (o_planId ord) = None) \<or>
      (\<not> is_ok (assertTransition (o_status ord) FULFILLED) \<and> http_status err = 409)" for err st'
    by (auto simp: fulfillOrder_def Let_def split_beta assertTransition_def split: option.splits if_splits sum.splits)
  moreover have "o_status ord = FULFILLED \<Longrightarrow> sub_findActiveByUser st (o_userId ord) = Some s \<Longrightarrow>
      fulfillOrder e plans ord st = (Inr (ord, s), st)"
    by (simp add: fulfillOrder_def)
  ultimately show ?thesis by (cases "fulfillOrder e plans ord st") auto
qed

theorem fulfillOrder_refuses_witness:
  "fst (fulfillOrder (env_at 400) [] (demo_order ''o1'' Wechat 1500 PAID) demo_sub_store) =
     Inl (NotFoundError ''plan not found: monthly'') \<and>
   snd (fulfillOrder (env_at 400) [] (demo_order ''o1'' Wechat 1500 PAID) demo_sub_store) = demo_sub_store"
  using fulfillOrder_refuses[of "env_at 400" "[]" "demo_order ''o1'' Wechat 1500 PAID" demo_sub_store demo_sub]
  by (simp add: fulfillOrder_def getPlan_def demo_order_def)


section \<open>Renewals stack\<close>

text \<open>Orders of one user fulfilled one after another, each with its own clock and ids.\<close>

fun fulfill_all :: "plan list \<Rightarrow> (env \<times> order) list \<Rightarrow> sub_store \<Rightarrow> sub_store" where
  "fulfill_all plans [] st = st"
| "fulfill_all plans ((e, ord) # rest) st = fulfill_all plans rest (snd (fulfillOrder e plans ord st))"

definition order_ms :: "plan list \<Rightarrow> order \<Rightarrow> int" where
  "order_ms plans ord = (case getPlan plans (o_planId ord) of None \<Rightarrow> 0 | Some p \<Rightarrow> plan_ms p)"

text \<open>Each order is a PAID order of the user for a known plan, fulfilled no later than \<open>t\<close> by the clock.\<close>

definition renewal :: "plan list \<Rightarrow> string \<Rightarrow> int \<Rightarrow> env \<times> order \<Rightarrow> bool" where
  "renewal plans u t eo = (o_userId (snd eo) = u \<and> o_status (snd eo) = PAID \<and>
     getPlan plans (o_planId (snd eo)) \<noteq> None \<and> now_at (fst eo) 0 < t)"

lemma fulfill_renewal:
  assumes wf: "sub_store_wf st" and cur: "sub_findActiveByUser st u = Some s"
    and r: "renewal plans u (s_expiresAt s) (e, ord)"
  shows "\<exists>st' s'. snd (fulfillOrder e plans ord st) = st' \<and> sub_store_wf st' \<and> sub_findActiveByUser st' u = Some s' \<and>
    s_id s' = s_id s \<and> s_expiresAt s' = s_expiresAt s + order_ms plans ord \<and> s_orderIds s' = s_orderIds s @ [o_id ord]"
proof -
  from r obtain plan where p: "getPlan plans (o_planId ord) = Some plan" and o: "o_userId ord = u" "o_status ord = PAID"
    and t: "now_at e 0 < s_expiresAt s" by (auto simp: renewal_def)
  let ?s = "renewed (now_at e 0) ord plan s"
  have g: "granted e ord plan st = (?s, sub_update ?s st)" using cur o t by (simp add: granted_def Let_def)
  have "snd (fulfillOrder e plans ord st) = sub_update ?s st"
    using fulfillOrder_granted[of ord plans plan e st] p o g by (simp split: sum.split)
  moreover have "s_userId s = u" using sub_repo.current_stored[OF wf cur] by simp
  then have "sub_findActiveByUser (sub_update ?s st) u = Some ?s" "sub_store_wf (sub_update ?s st)"
    using sub_repo.current_renewed[OF wf cur, of ?s] by (simp_all add: renewed_def)
  moreover have "s_expiresAt ?s = s_expiresAt s + order_ms plans ord"
    by (simp add: renewed_def order_ms_def p plan_ms_def)
  ultimately show ?thesis by (auto simp: renewed_def)
qed

text \<open>
  renewals stack. Fulfilling any sequence of a user's paid orders before the current subscription
  expires keeps that one subscription, adds up the bought durations exactly, none lost and none counted
  twice, and records the orders in the order they were paid.
\<close>

theorem renewals_stack:
  assumes "sub_store_wf st" "sub_findActiveByUser st u = Some s" "list_all (renewal plans u (s_expiresAt s)) eos"
    and "\<forall>p \<in> set plans. 0 \<le> p_durationDays p"
  shows "\<exists>s'. sub_findActiveByUser (fulfill_all plans eos st) u = Some s' \<and> s_id s' = s_id s \<and>
    s_expiresAt s' = s_expiresAt s + sum_list (map (\<lambda>(e, ord). order_ms plans ord) eos) \<and>
    s_orderIds s' = s_orderIds s @ map (\<lambda>(e, ord). o_id ord) eos"
  using assms(1-3)
proof (induction eos arbitrary: st s)
  case (Cons eo eos)
  obtain e ord where eo: "eo = (e, ord)" by fastforce
  from fulfill_renewal[OF Cons.prems(1,2), of plans e ord] Cons.prems(3) eo
  obtain st' s' where st': "snd (fulfillOrder e plans ord st) = st'" "sub_store_wf st'" "sub_findActiveByUser st' u = Some s'"
    and s': "s_id s' = s_id s" "s_expiresAt s' = s_expiresAt s + order_ms plans ord" "s_orderIds s' = s_orderIds s @ [o_id ord]"
    by auto
  have "0 \<le> order_ms plans ord"
    using assms(4) getPlan_enabled[of plans "o_planId ord"]
    by (auto simp: order_ms_def plan_ms_def listPlans_def split: option.split)
  then have "list_all (renewal plans u (s_expiresAt s')) eos"
    using Cons.prems(3) s'(2) by (fastforce simp: renewal_def list_all_iff)
  from Cons.IH[OF st'(2,3) this] s' st'(1) show ?case by (simp add: eo add.assoc)
qed simp

theorem renewals_stack_witness:
  "\<exists>s'. sub_findActiveByUser (fulfill_all PLANS [(env_at 400, demo_order ''o1'' Wechat 1500 PAID),
      (env_at 500, demo_order ''o2'' Wechat 1500 PAID)] demo_sub_store) ''u1'' = Some s' \<and>
    s_id s' = ''s1'' \<and> s_expiresAt s' = 1000 + 2 * (30 * 86400000) \<and> s_orderIds s' = [''o0'', ''o1'', ''o2'']"
proof -
  let ?eos = "[(env_at 400, demo_order ''o1'' Wechat 1500 PAID), (env_at 500, demo_order ''o2'' Wechat 1500 PAID)]"
  have p: "getPlan PLANS ''monthly'' = Some (hd PLANS)" by (simp add: getPlan_def PLANS_def)
  have r: "list_all (renewal PLANS ''u1'' (s_expiresAt demo_sub)) ?eos"
    by (simp add: renewal_def demo_order_def p demo_sub_def)
  have "\<forall>p \<in> set PLANS. 0 \<le> p_durationDays p" by (simp add: PLANS_def)
  from renewals_stack[OF demo_sub_store_wf demo_sub_current r this] show ?thesis
    by (simp add: order_ms_def plan_ms_def demo_order_def p) (simp add: PLANS_def demo_sub_def)
qed


section \<open>Expiry\<close>

datatype notification_type = subscription_expiring | subscription_expired

record notification_event =
  n_type :: notification_type
  n_userId :: string
  n_subscriptionId :: string
  n_planId :: string
  n_expiresAt :: int
  n_at :: int

definition notification_of :: "notification_type \<Rightarrow> int \<Rightarrow> subscription \<Rightarrow> notification_event" where
  "notification_of ty now s = \<lparr>n_type = ty, n_userId = s_userId s, n_subscriptionId = s_id s,
     n_planId = s_planId s, n_expiresAt = s_expiresAt s, n_at = now\<rparr>"

type_synonym notifier = "notification_event \<Rightarrow> unit result"

definition dueForReminder :: "int \<Rightarrow> int \<Rightarrow> subscription \<Rightarrow> bool" where
  "dueForReminder now windowEnd s = (s_expiresAt s > now \<and> s_expiresAt s \<le> windowEnd \<and> s_expiryNotifiedAt s = None)"

fun remind_loop :: "int \<Rightarrow> int \<Rightarrow> notifier \<Rightarrow> subscription list \<Rightarrow> nat \<Rightarrow> sub_store \<times> notification_event list \<Rightarrow>
    nat result \<times> sub_store \<times> notification_event list" where
  "remind_loop now windowEnd notify [] sent (st, log) = (Inr sent, st, log)"
| "remind_loop now windowEnd notify (s # rest) sent (st, log) =
     (if \<not> dueForReminder now windowEnd s then remind_loop now windowEnd notify rest sent (st, log)
      else let ev = notification_of subscription_expiring now s
           in (case notify ev of
                 Inl err \<Rightarrow> (Inl err, st, log)
               | Inr _ \<Rightarrow> remind_loop now windowEnd notify rest (sent + 1)
                   (sub_update (s\<lparr>s_expiryNotifiedAt := Some now\<rparr>) st, log @ [ev])))"

definition sendExpiryReminders :: "env \<Rightarrow> int \<Rightarrow> notifier \<Rightarrow> sub_store \<times> notification_event list \<Rightarrow>
    nat result \<times> sub_store \<times> notification_event list" where
  "sendExpiryReminders e reminderWindowMs notify w =
     (let now = now_at e 0 in remind_loop now (now + reminderWindowMs) notify (sub_listActive (fst w)) 0 w)"

fun deactivate_loop :: "int \<Rightarrow> notifier \<Rightarrow> subscription list \<Rightarrow> nat \<Rightarrow> sub_store \<times> notification_event list \<Rightarrow>
    nat result \<times> sub_store \<times> notification_event list" where
  "deactivate_loop now notify [] n (st, log) = (Inr n, st, log)"
| "deactivate_loop now notify (s # rest) n (st, log) =
     (if s_expiresAt s > now then deactivate_loop now notify rest n (st, log)
      else let st1 = sub_update (s\<lparr>s_active := False, s_updatedAt := now\<rparr>) st;
               ev = notification_of subscription_expired now s
           in (case notify ev of
                 Inl err \<Rightarrow> (Inl err, st1, log)
               | Inr _ \<Rightarrow> deactivate_loop now notify rest (n + 1) (st1, log @ [ev])))"

definition deactivateExpired :: "env \<Rightarrow> notifier \<Rightarrow> sub_store \<times> notification_event list \<Rightarrow>
    nat result \<times> sub_store \<times> notification_event list" where
  "deactivateExpired e notify w = deactivate_loop (now_at e 0) notify (sub_listActive (fst w)) 0 w"

text \<open>
  \<open>ExpiryWatcher.runOnce\<close>; its optional maintenance hook (the container passes the event store's sweep)
  touches neither subscriptions nor notifications and is left to the caller.
\<close>

definition expiry_runOnce :: "env \<Rightarrow> int \<Rightarrow> notifier \<Rightarrow> sub_store \<times> notification_event list \<Rightarrow>
    (nat \<times> nat) result \<times> sub_store \<times> notification_event list" where
  "expiry_runOnce e reminderWindowMs notify w =
     (case sendExpiryReminders e reminderWindowMs notify w of
        (Inl err, w1) \<Rightarrow> (Inl err, w1)
      | (Inr reminders, w1) \<Rightarrow>
          (case deactivateExpired (env_from 1 e) notify w1 of
             (Inl err, w2) \<Rightarrow> (Inl err, w2)
           | (Inr deactivated, w2) \<Rightarrow> (Inr (reminders, deactivated), w2)))"

text \<open>What both loops do to the store: one update per subscription of a list with distinct ids.\<close>

lemma sub_update_each:
  assumes wf: "sub_store_wf st" and stored: "\<And>s. s \<in> set xs \<Longrightarrow> sub_find st (s_id s) = Some s"
    and d: "distinct (map s_id xs)" and f: "\<And>s. s_id (f s) = s_id s \<and> s_userId (f s) = s_userId s"
  shows "sub_store_wf (fold (\<lambda>s. sub_update (f s)) xs st) \<and>
    (\<forall>i. sub_find (fold (\<lambda>s. sub_update (f s)) xs st) i =
       (case sub_find st i of None \<Rightarrow> None | Some s \<Rightarrow> if s \<in> set xs then Some (f s) else Some s))"
  using wf stored d
proof (induction xs arbitrary: st)
  case Nil
  then show ?case by (simp split: option.split)
next
  case (Cons x xs)
  let ?st = "sub_update (f x) st"
  have x: "sub_find st (s_id x) = Some x" using Cons.prems by simp
  have find: "sub_find ?st i = (if i = s_id x then Some (f x) else sub_find st i)" for i
    using f[of x] by (simp add: sub_repo.stored_update)
  have wf': "sub_store_wf ?st" using sub_repo.update_valid[OF Cons.prems(1), of "f x" x] f[of x] x by simp
  have ne: "s \<in> set xs \<Longrightarrow> s_id s \<noteq> s_id x" for s using Cons.prems(3) by (metis distinct.simps(2) image_eqI list.simps(9) set_map)
  have st': "sub_find ?st (s_id s) = Some s" if "s \<in> set xs" for s
    using that ne[OF that] Cons.prems(2)[of s] by (simp add: find)
  note IH = Cons.IH[OF wf' st'] 
  have key: "sub_find st i = Some s \<Longrightarrow> s_id s = i" for i s
    using Cons.prems(1) keyedD[of s_id "ss_byId st" i s] by (simp add: sub_store_wf_def sub_find_def)
  have "sub_find (fold (\<lambda>s. sub_update (f s)) xs ?st) i =
      (case sub_find st i of None \<Rightarrow> None | Some s \<Rightarrow> if s \<in> set (x # xs) then Some (f s) else Some s)" for i
  proof (cases "i = s_id x")
    case True
    moreover have "f x \<notin> set xs" using ne[of "f x"] f[of x] by auto
    ultimately show ?thesis using IH Cons.prems(3) x by (simp add: find)
  next
    case False
    then show ?thesis using IH Cons.prems(3) key[of i x] by (auto simp: find split: option.split)
  qed
  then show ?case using IH Cons.prems(3) by simp
qed

text \<open>Up to the first failure of the notifier.\<close>

definition delivered :: "notifier \<Rightarrow> (subscription \<Rightarrow> notification_event) \<Rightarrow> subscription list \<Rightarrow> subscription list" where
  "delivered notify ev xs = takeWhile (\<lambda>s. is_ok (notify (ev s))) xs"

lemma remind_loop_eq:
  fixes now we notify xs
  defines "ev \<equiv> notification_of subscription_expiring now" and "D \<equiv> filter (dueForReminder now we) xs"
  shows "remind_loop now we notify xs n (st, log) =
    (case drop (length (delivered notify ev D)) D of [] \<Rightarrow> Inr (n + length D) | s # _ \<Rightarrow> Inl (projl (notify (ev s))),
     fold (\<lambda>s. sub_update (s\<lparr>s_expiryNotifiedAt := Some now\<rparr>)) (delivered notify ev D) st,
     log @ map ev (delivered notify ev D))"
  unfolding D_def
proof (induction xs arbitrary: n st log)
  case (Cons s xs)
  then show ?case
    by (cases "notify (ev s)") (auto simp: delivered_def ev_def Let_def split: list.split)
qed (simp add: delivered_def)

lemma deactivate_loop_eq:
  fixes now notify xs
  defines "ev \<equiv> notification_of subscription_expired now" and "D \<equiv> filter (\<lambda>s. s_expiresAt s \<le> now) xs"
  shows "deactivate_loop now notify xs n (st, log) =
    (let k = length (delivered notify ev D)
     in (case drop k D of [] \<Rightarrow> Inr (n + length D) | s # _ \<Rightarrow> Inl (projl (notify (ev s))),
         fold (\<lambda>s. sub_update (s\<lparr>s_active := False, s_updatedAt := now\<rparr>)) (take (Suc k) D) st,
         log @ map ev (take k D)))"
  unfolding D_def
proof (induction xs arbitrary: n st log)
  case (Cons s xs)
  then show ?case
    by (cases "notify (ev s)") (auto simp: delivered_def ev_def Let_def not_less split: list.split)
qed (simp add: delivered_def)

lemma listActive_snapshot:
  assumes "sub_store_wf st" "set xs \<subseteq> set (sub_listActive st)"
  shows "s \<in> set xs \<Longrightarrow> sub_find st (s_id s) = Some s"
  using assms by (auto simp: sub_listActive_iff)

lemma distinct_active: "sub_store_wf st \<Longrightarrow> distinct (map s_id (filter P (sub_listActive st)))"
  using sub_all_distinct[of st] by (auto simp: sub_listActive_def sub_all_def distinct_map inj_on_def simp del: set_map map_map)

lemma distinct_map_take: "distinct (map f xs) \<Longrightarrow> distinct (map f (take n xs))"
  by (simp flip: take_map)

lemma delivered_take: "delivered notify ev xs = take (length (delivered notify ev xs)) xs"
  unfolding delivered_def by (simp add: takeWhile_eq_take[symmetric])

lemma length_delivered: "length (delivered notify ev xs) \<le> length xs"
  by (simp add: delivered_def length_takeWhile_le)

text \<open>
  a reminder is sent at most once per period and is not lost. A reminder pass notifies, in order, the
  active subscriptions that expire within the window and were not reminded yet, up to the first failure of
  the notifier; exactly those are marked, and a marked one is not due again at any time until it is
  renewed; those after a failure stay as they were, so that the next pass takes them; the pass
  reports their number, and only when none failed.
\<close>

theorem reminders_once:
  assumes "sub_store_wf st"
  shows "let now = now_at e 0; ev = notification_of subscription_expiring now;
      D = filter (dueForReminder now (now + window)) (sub_listActive st);
      sent = takeWhile (\<lambda>s. is_ok (notify (ev s))) D;
      (r, st', log') = sendExpiryReminders e window notify (st, log)
    in log' = log @ map ev sent \<and> sub_store_wf st' \<and> (\<forall>n. r = Inr n \<longrightarrow> n = length D \<and> sent = D) \<and>
      (is_ok r \<longleftrightarrow> sent = D) \<and>
      (\<forall>i s. sub_find st i = Some s \<longrightarrow> (\<exists>s'. sub_find st' i = Some s' \<and>
         (if s \<in> set sent then s_expiryNotifiedAt s' = Some now \<and> (\<forall>t w. \<not> dueForReminder t w s') else s' = s)))"
proof -
  let ?now = "now_at e 0" and ?f = "\<lambda>s. s\<lparr>s_expiryNotifiedAt := Some (now_at e 0)\<rparr>"
  define ev where "ev = notification_of subscription_expiring ?now"
  define D where "D = filter (dueForReminder ?now (?now + window)) (sub_listActive st)"
  define sent where "sent = delivered notify ev D"
  have eq: "sendExpiryReminders e window notify (st, log) =
    (case drop (length sent) D of [] \<Rightarrow> Inr (length D) | s # _ \<Rightarrow> Inl (projl (notify (ev s))),
     fold (\<lambda>s. sub_update (?f s)) sent st, log @ map ev sent)"
    unfolding sendExpiryReminders_def Let_def fst_conv remind_loop_eq sent_def D_def ev_def add_0 ..
  have take: "sent = take (length sent) D" unfolding sent_def by (rule delivered_take)
  have sub: "set sent \<subseteq> set (sub_listActive st)"
    using set_take_subset[of "length sent" D] take by (auto simp: D_def)
  have "distinct (map s_id D)" unfolding D_def by (rule distinct_active[OF assms])
  then have "distinct (map s_id sent)" using take distinct_map_take by metis
  note U = sub_update_each[OF assms listActive_snapshot[OF assms sub] this, of ?f]
  have full: "drop (length sent) D = [] \<longleftrightarrow> sent = D"
    using take length_delivered[of notify ev D] by (metis drop_all drop_eq_Nil le_refl sent_def take_all)
  have T: "takeWhile (\<lambda>s. is_ok (notify (notification_of subscription_expiring ?now s)))
      (filter (dueForReminder ?now (?now + window)) (sub_listActive st)) = sent"
    by (simp add: sent_def delivered_def D_def ev_def)
  show ?thesis
    using U full unfolding Let_def T unfolding ev_def[symmetric] D_def[symmetric] eq
    by (auto simp: dueForReminder_def split: list.splits)
qed

theorem reminders_once_witness:
  "let (r, st', log') = sendExpiryReminders (env_at 400) 700 (\<lambda>_. Inr ()) (demo_sub_store, []) in
     r = Inr 1 \<and> map n_subscriptionId log' = [''s1''] \<and> sub_store_wf st'"
proof -
  have D: "filter (dueForReminder 400 1100) (sub_listActive demo_sub_store) = [demo_sub]"
    by (simp add: demo_sub_store_eq sub_listActive_def dueForReminder_def demo_sub_def)
  show ?thesis
    using reminders_once[OF demo_sub_store_wf, of "env_at 400" 700 "\<lambda>_. Inr ()" "[]"]
    by (simp add: D Let_def split_beta)
      (auto simp: sendExpiryReminders_def Let_def remind_loop_eq D delivered_def notification_of_def demo_sub_def)
qed


text \<open>
  expired access ends. A deactivation pass that completes has deactivated exactly the active
  subscriptions whose expiry has passed, told each of their users once, and afterwards no user's current
  subscription is an expired one. When the notifier fails, the pass stops after the subscription it
  failed for: that one is deactivated without a notice, and the later ones are untouched.
\<close>

theorem deactivate_expired_exact:
  assumes "sub_store_wf st"
  shows "let now = now_at e 0; ev = notification_of subscription_expired now;
      D = filter (\<lambda>s. s_expiresAt s \<le> now) (sub_listActive st);
      k = length (takeWhile (\<lambda>s. is_ok (notify (ev s))) D);
      (r, st', log') = deactivateExpired e notify (st, log)
    in log' = log @ map ev (take k D) \<and> sub_store_wf st' \<and>
      (\<forall>i. sub_find st' i = (case sub_find st i of None \<Rightarrow> None
         | Some s \<Rightarrow> Some (if s \<in> set (take (Suc k) D) then s\<lparr>s_active := False, s_updatedAt := now\<rparr> else s))) \<and>
      (is_ok r \<longleftrightarrow> k = length D) \<and>
      (\<forall>n. r = Inr n \<longrightarrow> n = length D \<and> (\<forall>u s. sub_findActiveByUser st' u = Some s \<longrightarrow> now < s_expiresAt s))"
proof -
  let ?now = "now_at e 0" and ?f = "\<lambda>s. s\<lparr>s_active := False, s_updatedAt := now_at e 0\<rparr>"
  define ev where "ev = notification_of subscription_expired ?now"
  define D where "D = filter (\<lambda>s. s_expiresAt s \<le> ?now) (sub_listActive st)"
  define k where "k = length (delivered notify ev D)"
  define st' where "st' = fold (\<lambda>s. sub_update (?f s)) (take (Suc k) D) st"
  have eq: "deactivateExpired e notify (st, log) =
    (case drop k D of [] \<Rightarrow> Inr (length D) | s # _ \<Rightarrow> Inl (projl (notify (ev s))), st', log @ map ev (take k D))"
    unfolding deactivateExpired_def deactivate_loop_eq Let_def k_def D_def ev_def st'_def fst_conv add_0 ..
  have sub: "set (take (Suc k) D) \<subseteq> set (sub_listActive st)"
    using set_take_subset[of "Suc k" D] by (auto simp: D_def)
  have "distinct (map s_id (take (Suc k) D))"
    unfolding D_def by (rule distinct_map_take[OF distinct_active[OF assms]])
  note U = sub_update_each[OF assms listActive_snapshot[OF assms sub] this, of ?f, folded st'_def]
  have kD: "k \<le> length D" unfolding k_def by (rule length_delivered)
  have wf': "sub_store_wf st'" using U by simp
  have cur: "?now < s_expiresAt s" if all: "k = length D" and c: "sub_findActiveByUser st' u = Some s" for u s
  proof (rule ccontr)
    assume n: "\<not> ?now < s_expiresAt s"
    have a: "s_active s" "sub_find st' (s_id s) = Some s" using sub_repo.current_stored[OF wf' c] by simp_all
    then obtain b where b: "sub_find st (s_id s) = Some b" "s = (if b \<in> set (take (Suc k) D) then ?f b else b)"
      using U by (auto split: option.splits if_splits)
    then have "s = b" "b \<notin> set D" using a(1) all by (auto split: if_splits)
    then show False using b(1) a(1) n assms by (simp add: D_def sub_listActive_iff)
  qed
  have T: "length (takeWhile (\<lambda>s. is_ok (notify (notification_of subscription_expired ?now s)))
      (filter (\<lambda>s. s_expiresAt s \<le> ?now) (sub_listActive st))) = k"
    by (simp add: k_def delivered_def D_def ev_def)
  have f: "sub_find st' i = (case sub_find st i of None \<Rightarrow> None
         | Some s \<Rightarrow> Some (if s \<in> set (take (Suc k) D) then ?f s else s))" for i
    using U by (auto split: option.split)
  have dr: "drop k D = [] \<longleftrightarrow> k = length D" using kD by auto
  have P: "is_ok (case drop k D of [] \<Rightarrow> Inr (length D) | s # _ \<Rightarrow> Inl (projl (notify (ev s)))) \<longleftrightarrow> k = length D"
    "(case drop k D of [] \<Rightarrow> Inr (length D) | s # _ \<Rightarrow> Inl (projl (notify (ev s)))) = Inr n \<Longrightarrow> n = length D \<and> k = length D" for n
    using dr by (cases "drop k D"; simp)+
  show ?thesis
    unfolding Let_def T unfolding ev_def[symmetric] D_def[symmetric] eq prod.case
    using wf' P cur f by blast
qed

theorem deactivate_expired_exact_witness:
  "let (r, st', log') = deactivateExpired (env_at 2000) (\<lambda>_. Inr ()) (demo_sub_store, []) in
     r = Inr 1 \<and> map n_subscriptionId log' = [''s1''] \<and> sub_store_wf st' \<and> sub_find st' ''s1'' \<noteq> Some demo_sub"
proof -
  have D: "filter (\<lambda>s. s_expiresAt s \<le> 2000) (sub_listActive demo_sub_store) = [demo_sub]"
    "sub_find demo_sub_store ''s1'' = Some demo_sub"
    by (simp_all add: demo_sub_store_eq sub_listActive_def demo_sub_def sub_find_def)
  show ?thesis
    using deactivate_expired_exact[OF demo_sub_store_wf, of "env_at 2000" "\<lambda>_. Inr ()" "[]"]
    by (simp add: D Let_def split_beta)
      (auto simp: deactivateExpired_def Let_def deactivate_loop_eq D delivered_def notification_of_def demo_sub_def)
qed


end
