(* ===== verification/Money.thy ===== *)
theory Money
  imports Domain Complex_Main
begin

text \<open>
  \<^verbatim>\<open>src/core/money.ts\<close>: conversion between decimal texts and integer minor units. The code's
  \<open>BigInt\<close> arithmetic is exact, as \<open>int\<close> is; the result is a number only after the check against
  \<open>Number.MAX_SAFE_INTEGER\<close>.
\<close>

definition MAX_SAFE_INTEGER :: int where
  "MAX_SAFE_INTEGER = 9007199254740991"

text \<open>\<open>String.prototype.trim\<close> on 8-bit characters: tab, line feed, vertical tab, form feed, carriage
  return, space and no-break space.\<close>

definition is_space :: "char \<Rightarrow> bool" where
  "is_space c = ((of_char c :: nat) \<in> {9, 10, 11, 12, 13, 32, 160})"

definition trim :: "string \<Rightarrow> string" where
  "trim s = rev (dropWhile is_space (rev (dropWhile is_space s)))"

definition padEnd :: "nat \<Rightarrow> char \<Rightarrow> string \<Rightarrow> string" where
  "padEnd n c s = s @ replicate (n - length s) c"

definition padStart :: "nat \<Rightarrow> char \<Rightarrow> string \<Rightarrow> string" where
  "padStart n c s = replicate (n - length s) c @ s"

text \<open>\<open>str.split('.')\<close>, for any separator character.\<close>

fun split_on :: "char \<Rightarrow> string \<Rightarrow> string list" where
  "split_on sep [] = [[]]"
| "split_on sep (c # cs) =
     (if c = sep then [] # split_on sep cs
      else (case split_on sep cs of [] \<Rightarrow> [[c]] | p # ps \<Rightarrow> (c # p) # ps))"

text \<open>The regular expression \<open>^\d+(\.\d+)?$\<close>: its parts are one or two non-empty runs of digits.\<close>

definition decimal_text :: "string \<Rightarrow> bool" where
  "decimal_text s =
     (case split_on CHR ''.'' s of
        [i] \<Rightarrow> i \<noteq> [] \<and> list_all is_digit i
      | [i, f] \<Rightarrow> i \<noteq> [] \<and> list_all is_digit i \<and> f \<noteq> [] \<and> list_all is_digit f
      | _ \<Rightarrow> False)"

text \<open>
  The argument of \<open>toMinorUnits\<close>: a string; a finite number (an exact rational) with the text \<open>String\<close>
  prints for it; or another number (\<open>NaN\<close>, an infinity), whose \<open>toFixed\<close> is its name. \<open>toFixed(d)\<close> picks
  the nearest multiple of \<open>10\<^sup>-\<^sup>d\<close>, the larger of two equally near, prints a minus sign for a negative
  number, and from \<open>10\<^sup>2\<^sup>1\<close> on is the exponent form, which is the \<open>String\<close> text.
\<close>

datatype money_input = MoneyStr string | MoneyNum rat string | MoneyNonFinite string

definition toFixed :: "nat \<Rightarrow> rat \<Rightarrow> string \<Rightarrow> string" where
  "toFixed d x printed =
     (let a = \<bar>x\<bar>; n = nat \<lfloor>a * 10 ^ d + 1 / 2\<rfloor>;
          body = (if d = 0 then nat_digits n
                  else nat_digits (n div 10 ^ d) @ ''.'' @ padStart d CHR ''0'' (nat_digits (n mod 10 ^ d)))
      in if 10 ^ 21 \<le> a then printed else if x < 0 then ''-'' @ body else body)"

fun input_text :: "currency \<Rightarrow> money_input \<Rightarrow> string" where
  "input_text c (MoneyStr s) = trim s"
| "input_text c (MoneyNum x printed) = toFixed (CURRENCY_DECIMALS c) x printed"
| "input_text c (MoneyNonFinite t) = t"

fun input_printed :: "money_input \<Rightarrow> string" where
  "input_printed (MoneyStr s) = s"
| "input_printed (MoneyNum x printed) = printed"
| "input_printed (MoneyNonFinite t) = t"

definition toMinorUnits :: "money_input \<Rightarrow> currency \<Rightarrow> int result" where
  "toMinorUnits value cur =
     (let decimals = CURRENCY_DECIMALS cur; str = input_text cur value in
      if \<not> decimal_text str then
        Inl (ValidationError (''invalid monetary value: '' @ input_printed value))
      else
        let parts = split_on CHR ''.'' str;
            intPart = hd parts;
            fracPartRaw = (if tl parts = [] then [] else hd (tl parts))
        in if length fracPartRaw > decimals then
             Inl (ValidationError (''value '' @ str @ '' has more than '' @ nat_digits decimals
                    @ '' decimal places for '' @ currency_name cur))
           else
             let fracPart = padEnd decimals CHR ''0'' fracPartRaw;
                 minor = int (digits_val intPart) * 10 ^ decimals + int (digits_val fracPart)
             in if minor > MAX_SAFE_INTEGER then
                  Inl (ValidationError (''value '' @ str @ '' is too large''))
                else Inr minor)"

text \<open>
  \<open>fromMinorUnits\<close>; its argument is an integer here, and the code's other rejected numbers (fractions,
  \<open>NaN\<close>) cannot be given.
\<close>

definition fromMinorUnits :: "int \<Rightarrow> currency \<Rightarrow> string result" where
  "fromMinorUnits minor cur =
     (if minor < 0 then Inl (ValidationError (''invalid minor-unit amount: '' @ string_of_int minor))
      else
        let decimals = CURRENCY_DECIMALS cur in
        if decimals = 0 then Inr (string_of_int minor)
        else
          let factor = 10 ^ decimals;
              intPart = minor div factor;
              fracPart = padStart decimals CHR ''0'' (string_of_int (minor mod factor))
          in Inr (string_of_int intPart @ ''.'' @ fracPart))"

section \<open>Lemmas\<close>

lemma split_on_nonempty [simp]: "split_on sep s \<noteq> []"
  by (induction s) (auto split: list.split)

lemma split_on_append_sep: "sep \<notin> set a \<Longrightarrow> split_on sep (a @ sep # b) = a # split_on sep b"
  by (induction a) (auto split: list.split)

lemma split_on_no_sep: "sep \<notin> set a \<Longrightarrow> split_on sep a = [a]"
  by (induction a) auto

lemma dot_not_digit [simp]: "\<not> is_digit CHR ''.''"
  by (simp add: is_digit_def)

lemma digits_no_dot: "list_all is_digit s \<Longrightarrow> CHR ''.'' \<notin> set s"
  by (auto simp: list_all_iff)

lemma digit_not_space: "is_digit c \<Longrightarrow> \<not> is_space c"
  by (auto simp: is_digit_def is_space_def)

lemma trim_id: "s \<noteq> [] \<Longrightarrow> \<not> is_space (hd s) \<Longrightarrow> \<not> is_space (last s) \<Longrightarrow> trim s = s"
  by (simp add: trim_def dropWhile_eq_self_iff[THEN iffD2] hd_rev)

lemma zeros_digits [simp]: "list_all is_digit (replicate n CHR ''0'')"
  by (simp add: list_all_iff is_digit_def)

lemma digit_val_zero [simp]: "digit_val CHR ''0'' = 0"
  by (simp add: digit_val_def)

lemma digits_val_zeros [simp]: "digits_val (replicate n CHR ''0'') = 0"
  by (induction n) (simp_all add: replicate_append_same[symmetric])

lemma digits_val_padStart [simp]: "digits_val (padStart n CHR ''0'' s) = digits_val s"
  by (simp add: padStart_def digits_val_append)

lemma padStart_digits: "list_all is_digit s \<Longrightarrow> list_all is_digit (padStart n CHR ''0'' s)"
  by (simp add: padStart_def)

lemma padEnd_length: "length s \<le> n \<Longrightarrow> length (padEnd n c s) = n"
  by (simp add: padEnd_def)

lemma padEnd_id: "length s = n \<Longrightarrow> padEnd n c s = s"
  by (simp add: padEnd_def)

lemma nat_digits_length: "0 < k \<Longrightarrow> n < 10 ^ k \<Longrightarrow> length (nat_digits n) \<le> k"
proof (induction k arbitrary: n)
  case (Suc k)
  show ?case
  proof (cases "n < 10")
    case True
    then show ?thesis by (simp add: nat_digits.simps[of n])
  next
    case False
    then have "0 < k" using Suc.prems by (cases k) auto
    moreover have "n div 10 < 10 ^ k" using Suc.prems by (simp add: less_mult_imp_div_less mult.commute)
    ultimately show ?thesis using Suc.IH False by (simp add: nat_digits.simps[of n])
  qed
qed simp

lemma padStart_length: "0 < k \<Longrightarrow> n < 10 ^ k \<Longrightarrow> length (padStart k c (nat_digits n)) = k"
  using nat_digits_length[of k n] by (simp add: padStart_def)

lemma string_of_int_nat: "0 \<le> i \<Longrightarrow> string_of_int i = nat_digits (nat i)"
  by (simp add: string_of_int_def)

lemma decimals_pos [simp]: "0 < CURRENCY_DECIMALS c"
  by (cases c) simp_all

text \<open>The text of an amount: its digits, a point, and exactly as many digits as the currency has.\<close>

lemma fromMinorUnits_text:
  assumes "0 \<le> m"
  obtains i f where "fromMinorUnits m cur = Inr (i @ CHR ''.'' # f)"
    "list_all is_digit i" "i \<noteq> []" "list_all is_digit f" "length f = CURRENCY_DECIMALS cur"
    "int (digits_val i) * 10 ^ CURRENCY_DECIMALS cur + int (digits_val f) = m"
proof
  let ?d = "CURRENCY_DECIMALS cur"
  let ?i = "nat_digits (nat (m div 10 ^ ?d))"
  let ?f = "padStart ?d CHR ''0'' (nat_digits (nat (m mod 10 ^ ?d)))"
  have "m mod 10 ^ ?d < 10 ^ ?d" "0 \<le> m mod 10 ^ ?d" "0 \<le> m div 10 ^ ?d"
    using assms by (simp_all add: pos_imp_zdiv_nonneg_iff)
  moreover from this have lt: "nat (m mod 10 ^ ?d) < 10 ^ ?d"
    by (simp add: nat_less_iff)
  ultimately show "fromMinorUnits m cur = Inr (?i @ CHR ''.'' # ?f)"
    "int (digits_val ?i) * 10 ^ ?d + int (digits_val ?f) = m"
    using assms div_mult_mod_eq[of m "10 ^ ?d"] decimals_pos[of cur]
    by (auto simp: fromMinorUnits_def Let_def string_of_int_nat simp del: decimals_pos)
  show "length ?f = ?d" using lt by (simp add: padStart_length)
qed (simp_all add: nat_digits_digit padStart_digits)

lemma digits_text:
  assumes "list_all is_digit i" "i \<noteq> []" "list_all is_digit f" "f \<noteq> []"
  shows "trim (i @ CHR ''.'' # f) = i @ CHR ''.'' # f"
    and "split_on CHR ''.'' (i @ CHR ''.'' # f) = [i, f]"
    and "decimal_text (i @ CHR ''.'' # f)"
proof -
  have "is_digit (hd i)" "is_digit (last f)"
    using assms by (auto simp: list_all_iff)
  then show "trim (i @ CHR ''.'' # f) = i @ CHR ''.'' # f"
    using assms by (intro trim_id) (auto simp: digit_not_space)
  show sp: "split_on CHR ''.'' (i @ CHR ''.'' # f) = [i, f]"
    using assms by (simp add: split_on_append_sep split_on_no_sep digits_no_dot)
  show "decimal_text (i @ CHR ''.'' # f)"
    using assms by (simp add: decimal_text_def sp)
qed

text \<open>
  C20: Parsing a printed amount gives the amount back. For every amount in the safe range and either
  currency, \<open>fromMinorUnits\<close> prints a text that \<open>toMinorUnits\<close> reads as exactly that amount, so no money
  is lost or created at the display boundary.
\<close>

theorem money_roundtrip:
  assumes "0 \<le> m" "m \<le> MAX_SAFE_INTEGER"
  shows "\<exists>t. fromMinorUnits m cur = Inr t \<and> toMinorUnits (MoneyStr t) cur = Inr m"
proof -
  obtain i f where t: "fromMinorUnits m cur = Inr (i @ CHR ''.'' # f)"
    and i: "list_all is_digit i" "i \<noteq> []" and f: "list_all is_digit f" "length f = CURRENCY_DECIMALS cur"
    and val: "int (digits_val i) * 10 ^ CURRENCY_DECIMALS cur + int (digits_val f) = m"
    using fromMinorUnits_text[OF assms(1)] by blast
  have "f \<noteq> []" using f(2) decimals_pos[of cur] by (cases cur) auto
  note tx = digits_text[OF i f(1) this]
  have "toMinorUnits (MoneyStr (i @ CHR ''.'' # f)) cur = Inr m"
    using assms(2) f(2) val by (simp add: toMinorUnits_def Let_def tx padEnd_id)
  with t show ?thesis by simp
qed

theorem money_roundtrip_witness:
  "fromMinorUnits 1234 CNY = Inr ''12.34'' \<and> toMinorUnits (MoneyStr ''12.34'') CNY = Inr 1234"
proof -
  have "fromMinorUnits 1234 CNY = Inr ''12.34''" by code_simp
  with money_roundtrip[of 1234 CNY] show ?thesis by (auto simp: MAX_SAFE_INTEGER_def)
qed

lemma digits_val_padEnd:
  "length f \<le> d \<Longrightarrow> digits_val (padEnd d CHR ''0'' f) = digits_val f * 10 ^ (d - length f)"
  by (simp add: padEnd_def digits_val_append)

lemma split_on_concat: "(case split_on sep s of p # ps \<Rightarrow> p @ concat (map (\<lambda>x. sep # x) ps) = s | [] \<Rightarrow> False)"
  by (induction s) (auto split: list.splits)

lemma decimal_text_cases:
  assumes "decimal_text s"
  obtains i f where "list_all is_digit i" "i \<noteq> []" "list_all is_digit f"
    "s = (if f = [] then i else i @ ''.'' @ f)"
    "hd (split_on CHR ''.'' s) = i" "tl (split_on CHR ''.'' s) = (if f = [] then [] else [f])"
proof (cases "tl (split_on CHR ''.'' s)")
  case Nil
  then obtain i where "split_on CHR ''.'' s = [i]" by (cases "split_on CHR ''.'' s") auto
  note sp = this
  have "s = i" using split_on_concat[of "CHR ''.''" s] by (simp add: sp)
  moreover have "i \<noteq> [] \<and> list_all is_digit i" using assms by (simp add: decimal_text_def sp)
  ultimately show ?thesis using sp by (intro that[of i "[]"]) simp_all
next
  case (Cons f r)
  then obtain i where "split_on CHR ''.'' s = i # f # r" by (cases "split_on CHR ''.'' s") auto
  note sp = this
  have d: "r = [] \<and> i \<noteq> [] \<and> list_all is_digit i \<and> f \<noteq> [] \<and> list_all is_digit f"
    using assms by (cases r) (simp_all add: decimal_text_def sp)
  moreover have "s = i @ ''.'' @ f" using split_on_concat[of "CHR ''.''" s] d by (simp add: sp)
  ultimately show ?thesis using sp by (intro that[of i f]) simp_all
qed

text \<open>
  What \<open>toMinorUnits\<close> accepts, and that it never rounds. An accepted text is one or two runs of
  digits with no more fraction digits than the currency has; the value is exactly the text's decimal
  value in minor units and lies between 0 and the largest safe integer. Everything else is a
  \<open>ValidationError\<close>.
\<close>

theorem toMinorUnits_exact:
  "case toMinorUnits (MoneyStr s) cur of
      Inr m \<Rightarrow> 0 \<le> m \<and> m \<le> MAX_SAFE_INTEGER \<and>
        (\<exists>i f. list_all is_digit i \<and> i \<noteq> [] \<and> list_all is_digit f \<and> length f \<le> CURRENCY_DECIMALS cur \<and>
           trim s = (if f = [] then i else i @ ''.'' @ f) \<and>
           m = int (digits_val (i @ f)) * 10 ^ (CURRENCY_DECIMALS cur - length f))
    | Inl e \<Rightarrow> (\<exists>msg. e = ValidationError msg)"
proof (cases "decimal_text (trim s)")
  case False
  then show ?thesis by (simp add: toMinorUnits_def Let_def)
next
  case True
  let ?d = "CURRENCY_DECIMALS cur"
  obtain i f where parts: "list_all is_digit i" "i \<noteq> []" "list_all is_digit f"
    "trim s = (if f = [] then i else i @ ''.'' @ f)"
    "hd (split_on CHR ''.'' (trim s)) = i" "tl (split_on CHR ''.'' (trim s)) = (if f = [] then [] else [f])"
    using decimal_text_cases[OF True] by blast
  have raw: "(if tl (split_on CHR ''.'' (trim s)) = [] then [] else hd (tl (split_on CHR ''.'' (trim s)))) = f"
    using parts(6) by simp
  have val: "int (digits_val i) * 10 ^ ?d + int (digits_val (padEnd ?d CHR ''0'' f)) =
      int (digits_val (i @ f)) * 10 ^ (?d - length f)" if "length f \<le> ?d"
    using that by (simp add: digits_val_padEnd digits_val_append algebra_simps flip: power_add)
  show ?thesis
  proof (cases "length f \<le> ?d")
    case len: True
    show ?thesis
    proof (cases "int (digits_val (i @ f)) * 10 ^ (?d - length f) > MAX_SAFE_INTEGER")
      case big: True
      then show ?thesis using True len by (simp add: toMinorUnits_def Let_def raw parts(5) val)
    next
      case fit: False
      then have "toMinorUnits (MoneyStr s) cur = Inr (int (digits_val (i @ f)) * 10 ^ (?d - length f))"
        using True len by (simp add: toMinorUnits_def Let_def raw parts(5) val)
      with fit len parts show ?thesis by auto
    qed
  next
    case len: False
    then show ?thesis using True by (simp add: toMinorUnits_def Let_def raw)
  qed
qed

end
