(* ===== verification/Doubles.thy ===== *)
theory Doubles
  imports Prelude Complex_Main
begin

text \<open>
  JavaScript's numbers where fractions occur: rounding to the nearest binary64 value, and the text
  \<open>String(x)\<close> prints. A finite double is the rational number it stands for (the two zeros are one);
  \<open>None\<close> is a value that is not finite.
\<close>

section \<open>Rounding to a double\<close>

text \<open>To the nearest integer, ties to the even one.\<close>

definition round_even :: "rat \<Rightarrow> int" where
  "round_even x = (let f = \<lfloor>x\<rfloor>; r = x - of_int f
     in if r < 1 / 2 then f else if r > 1 / 2 then f + 1 else if even f then f else f + 1)"

definition pow2 :: "int \<Rightarrow> rat" where
  "pow2 k = 2 powi k"

definition pow10 :: "int \<Rightarrow> rat" where
  "pow10 k = 10 powi k"

text \<open>The number of binary digits.\<close>

function bit_count :: "int \<Rightarrow> nat" where
  "bit_count n = (if n \<le> 0 then 0 else Suc (bit_count (n div 2)))"
  by pat_completeness auto
termination by (relation "measure nat") auto

declare bit_count.simps [simp del]

text \<open>
  The exponent of the last place of a positive \<open>x\<close>: the one that leaves 53 binary digits, and not less
  than \<open>-1074\<close>.
\<close>

definition last_place :: "rat \<Rightarrow> int" where
  "last_place x =
     (let (n, d) = quotient_of x;
          q = int (bit_count n) - int (bit_count d) - 53;
          q' = (if x / pow2 q < 2 ^ 53 then q else q + 1)
      in max q' (-1074))"

definition round_pos :: "rat \<Rightarrow> rat" where
  "round_pos x = (let q = last_place x in of_int (round_even (x / pow2 q)) * pow2 q)"

definition to_double :: "rat \<Rightarrow> rat option" where
  "to_double x =
     (if x = 0 then Some 0
      else let y = (if 0 < x then round_pos x else - round_pos (- x))
           in if \<bar>y\<bar> < pow2 1024 then Some y else None)"

section \<open>The error of a rounding\<close>

lemma pow2_pos [simp]: "0 < pow2 k" "0 \<le> pow2 k" "pow2 k \<noteq> 0"
  by (simp_all add: pow2_def)

lemma pow2_add: "pow2 (j + k) = pow2 j * pow2 k"
  by (simp add: pow2_def power_int_add)

lemma pow2_nat: "pow2 (int n) = 2 ^ n"
  by (simp add: pow2_def)

lemma round_even_error: "\<bar>of_int (round_even x) - x\<bar> \<le> 1 / 2"
proof -
  have "of_int \<lfloor>x\<rfloor> \<le> x" "x < of_int \<lfloor>x\<rfloor> + 1" by linarith+
  then show ?thesis by (simp add: round_even_def Let_def abs_le_iff)
qed

lemma round_even_int [simp]: "round_even (of_int k) = k"
  by (simp add: round_even_def)

lemma bit_count_bounds: "0 < n \<Longrightarrow> 2 ^ (bit_count n - 1) \<le> n \<and> n < 2 ^ bit_count n \<and> 0 < bit_count n"
proof (induction n rule: bit_count.induct)
  case (1 n)
  show ?case
  proof (cases "n div 2 = 0")
    case True
    then have "n = 1" using 1 by auto
    then show ?thesis by (simp add: bit_count.simps)
  next
    case False
    then have ih: "2 ^ (bit_count (n div 2) - 1) \<le> n div 2" "n div 2 < 2 ^ bit_count (n div 2)" "0 < bit_count (n div 2)"
      using 1 by auto
    have b: "bit_count n = Suc (bit_count (n div 2))" using 1(2) by (subst bit_count.simps) simp
    have "2 * 2 ^ (bit_count (n div 2) - 1) \<le> n" using ih(1) by linarith
    then have "2 ^ bit_count (n div 2) \<le> n" using ih(3) by (cases "bit_count (n div 2)") simp_all
    moreover have "n < 2 * 2 ^ bit_count (n div 2)" using ih(2) by linarith
    ultimately show ?thesis by (simp add: b)
  qed
qed

text \<open>A positive number lies in the binade its last place names.\<close>

lemma last_place_normal:
  assumes "0 < x" "- 1074 < last_place x"
  shows "2 ^ 52 * pow2 (last_place x) \<le> x" "x < 2 ^ 53 * pow2 (last_place x)"
proof -
  obtain n d where nd: "quotient_of x = (n, d)" by (cases "quotient_of x")
  have x: "x = of_int n / of_int d" using quotient_of_div[OF nd] .
  have d: "0 < d" using quotient_of_denom_pos[OF nd] .
  have n: "0 < n" using assms(1) d by (simp add: x zero_less_divide_iff)
  define bn bd where "bn = bit_count n" and "bd = bit_count d"
  have bounds: "pow2 (int (bit_count m) - 1) \<le> of_int m \<and> of_int m < pow2 (int (bit_count m))" if m: "0 < m" for m
  proof -
    have b: "2 ^ (bit_count m - 1) \<le> m" "m < 2 ^ bit_count m" "0 < bit_count m" using bit_count_bounds[OF m] by auto
    have "(of_int (2 ^ (bit_count m - 1)) :: rat) \<le> of_int m" using b(1) by (simp only: of_int_le_iff)
    moreover have "pow2 (int (bit_count m) - 1) = 2 ^ (bit_count m - 1)"
      using b(3) pow2_nat[of "bit_count m - 1"] by (simp add: of_nat_diff)
    moreover have "(of_int m :: rat) < of_int (2 ^ bit_count m)" using b(2) by (simp only: of_int_less_iff)
    ultimately show ?thesis by (simp add: pow2_nat)
  qed
  have n_lo: "pow2 (int bn - 1) \<le> of_int n" and n_hi: "of_int n < pow2 (int bn)"
    and d_lo: "pow2 (int bd - 1) \<le> of_int d" and d_hi: "of_int d < pow2 (int bd)"
    using bounds[OF n] bounds[OF d] by (simp_all add: bn_def bd_def)
  define q where "q = int bn - int bd - 53"
  have dp: "(0 :: rat) < of_int d" using d by simp
  have "pow2 (int bn - 1) = pow2 (52 + q) * pow2 (int bd)" by (simp add: q_def flip: pow2_add)
  moreover have "pow2 (52 + q) * of_int d < pow2 (52 + q) * pow2 (int bd)"
    by (rule mult_strict_left_mono[OF d_hi]) simp
  ultimately have "pow2 (52 + q) * of_int d < of_int n" using n_lo by linarith
  then have lo: "2 ^ 52 * pow2 q < x" using dp pow2_nat[of 52] by (simp add: x pow2_add pos_less_divide_eq)
  have "pow2 (int bn) = pow2 (54 + q) * pow2 (int bd - 1)" by (simp add: q_def flip: pow2_add)
  moreover have "pow2 (54 + q) * pow2 (int bd - 1) \<le> pow2 (54 + q) * of_int d"
    by (rule mult_left_mono[OF d_lo]) simp
  ultimately have "of_int n < pow2 (54 + q) * of_int d" using n_hi by linarith
  then have hi: "x < 2 ^ 54 * pow2 q" using dp pow2_nat[of 54] by (simp add: x pow2_add pos_divide_less_eq)
  let ?q = "if x / pow2 q < 2 ^ 53 then q else q + 1"
  have lp: "last_place x = ?q"
  proof -
    have "last_place x = max ?q (- 1074)"
      by (simp only: last_place_def nd prod.case Let_def q_def bn_def bd_def)
    then show ?thesis using assms(2) by (simp only: max_def) (simp split: if_splits)
  qed
  have in_q: "2 ^ 52 * pow2 ?q \<le> x \<and> x < 2 ^ 53 * pow2 ?q"
  proof (cases "x / pow2 q < 2 ^ 53")
    case True
    then have "x < 2 ^ 53 * pow2 q" by (simp add: pos_divide_less_eq)
    then show ?thesis using True lo by simp
  next
    case False
    then have "2 ^ 53 * pow2 q \<le> x" by (simp add: pos_divide_less_eq not_less)
    moreover have "pow2 (q + 1) = 2 * pow2 q" by (simp add: pow2_add) (simp add: pow2_def)
    ultimately show ?thesis using False hi by simp
  qed
  show "2 ^ 52 * pow2 (last_place x) \<le> x" "x < 2 ^ 53 * pow2 (last_place x)"
    using in_q by (simp_all only: lp)
qed

lemma last_place_least: "- 1074 \<le> last_place x"
  by (simp add: last_place_def Let_def split: prod.split)

lemma round_pos_error: "\<bar>round_pos x - x\<bar> \<le> pow2 (last_place x) / 2"
proof -
  let ?u = "pow2 (last_place x)"
  let ?a = "of_int (round_even (x / ?u)) - x / ?u"
  have "\<bar>?a\<bar> * ?u \<le> 1 / 2 * ?u" by (rule mult_right_mono[OF round_even_error]) simp
  moreover have "round_pos x - x = ?a * ?u" by (simp add: round_pos_def Let_def left_diff_distrib)
  ultimately show ?thesis by (simp only: abs_mult abs_of_pos[OF pow2_pos(1)])
qed

text \<open>One rounding is off by at most one part in \<open>2 ^ 53\<close>, or half the least double.\<close>

lemma round_pos_relative:
  assumes "0 < x"
  shows "\<bar>round_pos x - x\<bar> \<le> x / 2 ^ 53 + pow2 (- 1075)"
proof (cases "- 1074 < last_place x")
  case True
  then have "pow2 (last_place x) / 2 \<le> x / 2 ^ 53" using last_place_normal(1)[OF assms] by simp
  then show ?thesis using round_pos_error[of x] pow2_pos(1)[of "- 1075"] by linarith
next
  case False
  then have "last_place x = - 1074" using last_place_least[of x] by simp
  moreover have "pow2 (- 1074) / 2 = pow2 (- 1075)"
    using pow2_add[of 1 "- 1075"] pow2_nat[of 1] by simp
  ultimately show ?thesis using round_pos_error[of x] assms by simp
qed

lemma round_pos_nonneg: "0 < x \<Longrightarrow> 0 \<le> round_pos x"
proof -
  assume "0 < x"
  then have "0 \<le> x / pow2 (last_place x)" by (simp add: less_imp_le)
  then have "0 \<le> round_even (x / pow2 (last_place x))" by (simp add: round_even_def Let_def)
  then show ?thesis by (simp add: round_pos_def Let_def)
qed

text \<open>Integers up to \<open>2 ^ 53\<close> are doubles.\<close>

lemma round_pos_int:
  assumes "0 < i" "i \<le> 2 ^ 53"
  shows "round_pos (of_int i) = of_int i"
proof -
  let ?q = "last_place (of_int i)"
  have small: "?q \<le> 1 \<and> (?q = 1 \<longrightarrow> i = 2 ^ 53)"
  proof (cases "- 1074 < ?q")
    case True
    have in_q: "2 ^ 52 * pow2 ?q \<le> of_int i" using last_place_normal(1)[OF _ True] assms(1) by simp
    have le: "(of_int i :: rat) \<le> 2 ^ 53"
      using assms(2) by (metis of_int_le_iff of_int_numeral of_int_power)
    have "?q \<le> 1"
    proof (rule ccontr)
      assume "\<not> ?q \<le> 1"
      then obtain k where k: "?q = 2 + int k" using zle_iff_zadd[of 2 ?q] by auto
      have "(1::rat) \<le> pow2 (int k)" by (simp add: pow2_nat)
      then have "4 \<le> pow2 ?q" using pow2_nat[of 2] by (simp add: k pow2_add)
      then show False using in_q le by simp
    qed
    moreover have "i = 2 ^ 53" if "?q = 1"
    proof -
      have "(of_int (2 ^ 53) :: rat) \<le> of_int i" using in_q pow2_nat[of 1] by (simp add: that)
      then have "2 ^ 53 \<le> i" by (simp only: of_int_le_iff)
      then show ?thesis using assms(2) by simp
    qed
    ultimately show ?thesis by blast
  qed simp
  show ?thesis
  proof (cases "?q = 1")
    case True
    then have "of_int i / pow2 ?q = of_int (2 ^ 52)" using small pow2_nat[of 1] by simp
    then have "round_even (of_int i / pow2 ?q) = 2 ^ 52" by (simp only: round_even_int)
    then show ?thesis using small True pow2_nat[of 1] by (simp add: round_pos_def)
  next
    case False
    then have "?q \<le> 0" using small by simp
    then obtain k' where k: "?q = - int k'" by (rule nonpos_int_cases)
    have u: "pow2 ?q = inverse (2 ^ k')" by (simp add: k pow2_def power_int_minus)
    have "of_int i / pow2 ?q = of_int (i * 2 ^ k')" by (simp add: u divide_inverse)
    moreover have "of_int (i * 2 ^ k') * pow2 ?q = of_int i" by (simp add: u)
    ultimately show ?thesis by (simp add: round_pos_def del: of_int_mult of_int_power)
  qed
qed

lemma to_double_int: "\<bar>i\<bar> \<le> 2 ^ 53 \<Longrightarrow> to_double (of_int i) = Some (of_int i)"
proof -
  assume small: "\<bar>i\<bar> \<le> 2 ^ 53"
  have "(of_int \<bar>i\<bar> :: rat) \<le> of_int (2 ^ 53)" using small by (simp only: of_int_le_iff)
  moreover have "(2::rat) ^ 53 < pow2 1024"
    using power_strict_increasing[of 53 1024 "2::rat"] pow2_nat[of 1024] by (simp del: power_strict_increasing_iff)
  ultimately have bound: "\<bar>of_int i :: rat\<bar> < pow2 1024" by (simp only: of_int_abs of_int_power of_int_numeral)
  consider "i = 0" | "0 < i" | "i < 0" by linarith
  then show ?thesis
  proof cases
    case 2
    then have "round_pos (of_int i) = of_int i" using small by (intro round_pos_int) auto
    then show ?thesis using 2 bound by (simp add: to_double_def)
  next
    case 3
    then have "round_pos (of_int (- i)) = of_int (- i)" using small by (intro round_pos_int) auto
    then show ?thesis using 3 bound by (simp add: to_double_def)
  qed (simp add: to_double_def)
qed

lemma to_double_bound:
  assumes "0 \<le> x" "to_double x = Some y"
  shows "\<bar>y - x\<bar> \<le> x / 2 ^ 53 + pow2 (- 1075)" "0 \<le> y"
  using assms round_pos_relative[of x] round_pos_nonneg[of x] pow2_pos(2)[of "- 1075"]
  by (auto simp: to_double_def Let_def split: if_splits)

text \<open>\<open>Number.isInteger\<close> and \<open>Number.isSafeInteger\<close> of a finite value.\<close>

definition is_integer :: "rat \<Rightarrow> bool" where
  "is_integer x = (of_int \<lfloor>x\<rfloor> = x)"

definition MAX_SAFE_INTEGER :: int where
  "MAX_SAFE_INTEGER = 2 ^ 53 - 1"

lemma is_integer_of_int [simp]: "is_integer (of_int i)"
  by (simp add: is_integer_def)

section \<open>String(x)\<close>

text \<open>The decimal exponent \<open>n\<close> of a positive \<open>x\<close>: \<open>10 ^ (n - 1) \<le> x < 10 ^ n\<close>.\<close>

definition digit_count :: "nat \<Rightarrow> nat" where
  "digit_count n = (if n = 0 then 0 else length (nat_digits n))"

definition decimal_exponent :: "rat \<Rightarrow> int" where
  "decimal_exponent x =
     (if 1 \<le> x then int (digit_count (nat \<lfloor>x\<rfloor>)) else 1 - int (digit_count (nat (\<lceil>1 / x\<rceil> - 1))))"

text \<open>The closest decimal of \<open>k\<close> digits that reads as \<open>x\<close>: its digits as a number.\<close>

definition digits_at :: "rat \<Rightarrow> int \<Rightarrow> nat \<Rightarrow> int option" where
  "digits_at x n k =
     (let u = pow10 (n - int k); y = x / u; lo = \<lfloor>y\<rfloor>; hi = lo + 1;
          reads = (\<lambda>c. to_double (of_int c * u) = Some x)
      in if reads lo \<and> (\<not> reads hi \<or> y - of_int lo \<le> of_int hi - y) then Some lo
         else if reads hi then Some hi else None)"

text \<open>The fewest digits that do; seventeen always do.\<close>

fun shortest :: "rat \<Rightarrow> int \<Rightarrow> nat \<Rightarrow> nat \<Rightarrow> nat \<times> int" where
  "shortest x n k fuel =
     (case (digits_at x n k, fuel) of
        (Some c, _) \<Rightarrow> (k, c)
      | (None, 0) \<Rightarrow> (k, \<lfloor>x / pow10 (n - int k)\<rfloor>)
      | (None, Suc f) \<Rightarrow> shortest x n (Suc k) f)"

definition zeros :: "nat \<Rightarrow> string" where
  "zeros n = replicate n CHR ''0''"

definition pos_text :: "rat \<Rightarrow> string" where
  "pos_text x =
     (let n0 = decimal_exponent x;
          (k0, c0) = shortest x n0 1 16;
          (n, k, c) = (if c0 = 10 ^ k0 then (n0 + 1, 1, 1) else (n0, k0, c0));
          ds = nat_digits (nat c)
      in if int k \<le> n \<and> n \<le> 21 then ds @ zeros (nat (n - int k))
         else if 0 < n \<and> n \<le> 21 then take (nat n) ds @ ''.'' @ drop (nat n) ds
         else if - 6 < n \<and> n \<le> 0 then ''0.'' @ zeros (nat (- n)) @ ds
         else let e = n - 1; sgn = (if 0 \<le> e then ''+'' else ''-''); es = nat_digits (nat \<bar>e\<bar>)
              in if k = 1 then ds @ ''e'' @ sgn @ es
                 else take 1 ds @ ''.'' @ drop 1 ds @ ''e'' @ sgn @ es)"

definition number_text :: "rat \<Rightarrow> string" where
  "number_text x = (if x = 0 then ''0'' else if 0 < x then pos_text x else ''-'' @ pos_text (- x))"

section \<open>Numbers that need not be finite\<close>

datatype num = Fin rat | Pos_inf | Neg_inf | Not_num

definition of_exact :: "rat \<Rightarrow> num" where
  "of_exact x = (case to_double x of Some y \<Rightarrow> Fin y | None \<Rightarrow> if 0 < x then Pos_inf else Neg_inf)"

definition num_sign :: "num \<Rightarrow> int" where
  "num_sign x = (case x of Fin q \<Rightarrow> (if 0 < q then 1 else if q < 0 then - 1 else 0) | Pos_inf \<Rightarrow> 1 | Neg_inf \<Rightarrow> - 1 | Not_num \<Rightarrow> 0)"

fun num_mul :: "num \<Rightarrow> num \<Rightarrow> num" where
  "num_mul (Fin a) (Fin b) = of_exact (a * b)"
| "num_mul x y =
     (if x = Not_num \<or> y = Not_num \<or> num_sign x * num_sign y = 0 then Not_num
      else if 0 < num_sign x * num_sign y then Pos_inf else Neg_inf)"

fun num_div :: "num \<Rightarrow> num \<Rightarrow> num" where
  "num_div (Fin a) (Fin b) =
     (if b \<noteq> 0 then of_exact (a / b) else if a = 0 then Not_num else if 0 < a then Pos_inf else Neg_inf)"
| "num_div (Fin a) y = (if y = Not_num then Not_num else Fin 0)"
| "num_div x (Fin b) = (if x = Not_num then Not_num else if (x = Pos_inf) = (0 \<le> b) then Pos_inf else Neg_inf)"
| "num_div x y = Not_num"

fun num_text :: "num \<Rightarrow> string" where
  "num_text (Fin q) = number_text q"
| "num_text Pos_inf = ''Infinity''"
| "num_text Neg_inf = ''-Infinity''"
| "num_text Not_num = ''NaN''"

text \<open>\<open>Math.round\<close>: the nearest integer, halves up.\<close>

fun num_round :: "num \<Rightarrow> num" where
  "num_round (Fin q) = Fin (of_int \<lfloor>q + 1 / 2\<rfloor>)"
| "num_round x = x"

fun is_integer_num :: "num \<Rightarrow> bool" where
  "is_integer_num (Fin q) = is_integer q"
| "is_integer_num x = False"

lemma of_exact_int: "\<bar>i\<bar> \<le> 2 ^ 53 \<Longrightarrow> of_exact (of_int i) = Fin (of_int i)"
  by (simp add: of_exact_def to_double_int)

lemma of_exact_bound:
  assumes "0 \<le> x" "of_exact x = Fin y"
  shows "\<bar>y - x\<bar> \<le> x / 2 ^ 53 + pow2 (- 1075)" "0 \<le> y"
  using assms to_double_bound[of x y] by (auto simp: of_exact_def split: option.splits if_splits)

end
