(* ===== verification/Json.thy ===== *)
theory Json
  imports Money Doubles
begin

text \<open>
  JSON values, as audit metadata, webhook payloads and API bodies use them, with the text
  \<open>JSON.stringify\<close> prints; and \<open>Number(s)\<close> on texts. A number is an integer, the only kind the code
  stores, or any other double; an object keeps its properties in insertion order. Integers are printed by
  their digits, as JavaScript prints those below \<open>10 ^ 21\<close>.
\<close>

datatype json =
    JNull
  | JBool bool
  | JNum int
  | JReal num
  | JStr string
  | JArr "json list"
  | JObj "(string \<times> json) list"

definition hex_digit :: "nat \<Rightarrow> char" where
  "hex_digit d = (if d < 10 then char_of (48 + d) else char_of (87 + d))"

text \<open>The escapes of \<open>JSON.stringify\<close>: quote, backslash and control characters.\<close>

definition json_char :: "char \<Rightarrow> string" where
  "json_char c = (let n = of_char c :: nat in
     if n = 34 then [CHR 0x5C, CHR 0x22]
     else if n = 92 then [CHR 0x5C, CHR 0x5C]
     else if n = 8 then [CHR 0x5C, CHR ''b'']
     else if n = 9 then [CHR 0x5C, CHR ''t'']
     else if n = 10 then [CHR 0x5C, CHR ''n'']
     else if n = 12 then [CHR 0x5C, CHR ''f'']
     else if n = 13 then [CHR 0x5C, CHR ''r'']
     else if n < 32 then [CHR 0x5C, CHR ''u'', CHR ''0'', CHR ''0'', hex_digit (n div 16), hex_digit (n mod 16)]
     else [c])"

definition json_string :: "string \<Rightarrow> string" where
  "json_string s = [CHR 0x22] @ concat (map json_char s) @ [CHR 0x22]"

fun join_with :: "string \<Rightarrow> string list \<Rightarrow> string" where
  "join_with sep [] = []"
| "join_with sep [x] = x"
| "join_with sep (x # y # xs) = x @ sep @ join_with sep (y # xs)"

fun json_text :: "json \<Rightarrow> string" where
  "json_text JNull = ''null''"
| "json_text (JBool b) = (if b then ''true'' else ''false'')"
| "json_text (JNum i) = string_of_int i"
| "json_text (JReal x) = (case x of Fin q \<Rightarrow> number_text q | _ \<Rightarrow> ''null'')"
| "json_text (JStr s) = json_string s"
| "json_text (JArr xs) = ''['' @ join_with '','' (map json_text xs) @ '']''"
| "json_text (JObj ps) = ''{'' @ join_with '','' (map (\<lambda>(k, v). json_string k @ '':'' @ json_text v) ps) @ ''}''"

text \<open>An optional value: \<open>JSON.stringify\<close> leaves out properties that are \<open>undefined\<close>.\<close>

definition opt_field :: "string \<Rightarrow> ('a \<Rightarrow> json) \<Rightarrow> 'a option \<Rightarrow> (string \<times> json) list" where
  "opt_field k f x = (case x of None \<Rightarrow> [] | Some v \<Rightarrow> [(k, f v)])"

section \<open>Number(s)\<close>

text \<open>
  \<open>Number(s)\<close> on a trimmed text: the empty text is zero; an optional sign, digits with an optional
  fraction, and an optional exponent are the exact value they name (a double is the nearest one to
  it); everything else, the infinities and the hexadecimal, octal and binary forms included, is \<open>None\<close>.
\<close>

definition unsigned_decimal :: "string \<Rightarrow> rat option" where
  "unsigned_decimal s =
     (case split_on CHR ''.'' s of
        [i] \<Rightarrow> if i \<noteq> [] \<and> list_all is_digit i then Some (of_nat (digits_val i)) else None
      | [i, f] \<Rightarrow> if i @ f \<noteq> [] \<and> list_all is_digit (i @ f)
          then Some (of_nat (digits_val (i @ f)) / 10 ^ length f) else None
      | _ \<Rightarrow> None)"

fun with_sign :: "(string \<Rightarrow> rat option) \<Rightarrow> string \<Rightarrow> rat option" where
  "with_sign p (CHR ''-'' # s) = map_option uminus (p s)"
| "with_sign p (CHR ''+'' # s) = p s"
| "with_sign p s = p s"

definition exponent_value :: "string \<Rightarrow> int option" where
  "exponent_value s = (let t = (if s \<noteq> [] \<and> hd s = CHR ''+'' then tl s else s)
     in if t \<noteq> [] \<and> hd t = CHR ''-'' \<and> s \<noteq> t then None else int_of_string t)"

definition with_exponent :: "string \<Rightarrow> rat option" where
  "with_exponent s =
     (case split_on CHR ''e'' (map (\<lambda>c. if c = CHR ''E'' then CHR ''e'' else c) s) of
        [m] \<Rightarrow> unsigned_decimal m
      | [m, x] \<Rightarrow> (case (unsigned_decimal m, exponent_value x) of
            (Some v, Some k) \<Rightarrow> Some (if 0 \<le> k then v * 10 ^ nat k else v / 10 ^ nat (- k))
          | _ \<Rightarrow> None)
      | _ \<Rightarrow> None)"

definition js_Number :: "string \<Rightarrow> rat option" where
  "js_Number s = (let t = trim s in if t = [] then Some 0 else with_sign with_exponent t)"

text \<open>The double that \<open>Number(s)\<close> is, with the infinities and the hexadecimal, octal and binary forms.\<close>

definition radix_digit :: "nat \<Rightarrow> char \<Rightarrow> nat option" where
  "radix_digit radix c =
     (let n = of_char c :: nat;
          d = (if 48 \<le> n \<and> n \<le> 57 then n - 48 else if 97 \<le> n \<and> n \<le> 102 then n - 87
               else if 65 \<le> n \<and> n \<le> 70 then n - 55 else 16)
      in if d < radix then Some d else None)"

definition radix_value :: "nat \<Rightarrow> string \<Rightarrow> num" where
  "radix_value radix s =
     (if s \<noteq> [] \<and> list_all (\<lambda>c. radix_digit radix c \<noteq> None) s
      then of_exact (of_nat (foldl (\<lambda>v c. v * radix + the (radix_digit radix c)) 0 s)) else Not_num)"

definition js_number_of :: "string \<Rightarrow> num" where
  "js_number_of s =
     (let t = trim s; prefix = to_lower (take 2 t); rest = drop 2 t
      in if prefix = ''0x'' then radix_value 16 rest
         else if prefix = ''0o'' then radix_value 8 rest
         else if prefix = ''0b'' then radix_value 2 rest
         else if t = ''Infinity'' \<or> t = ''+Infinity'' then Pos_inf
         else if t = ''-Infinity'' then Neg_inf
         else case js_Number t of Some v \<Rightarrow> of_exact v | None \<Rightarrow> Not_num)"

definition int_of_num :: "num \<Rightarrow> int option" where
  "int_of_num x = (case x of Fin q \<Rightarrow> if is_integer q then Some \<lfloor>q\<rfloor> else None | _ \<Rightarrow> None)"

lemma split_on_join:
  "xs \<noteq> [] \<Longrightarrow> \<forall>x \<in> set xs. c \<notin> set x \<Longrightarrow> split_on c (join_with [c] xs) = xs"
proof (induction xs rule: induct_list012)
  case (3 x y zs)
  then show ?case by (simp add: split_on_append_sep)
qed (simp_all add: split_on_no_sep)

lemma digits_no_e: "list_all is_digit s \<Longrightarrow> CHR ''e'' \<notin> set s \<and> CHR ''E'' \<notin> set s"
  by (auto simp: list_all_iff is_digit_def)

lemma digits_no_sign: "list_all is_digit (c # s) \<Longrightarrow> c \<noteq> CHR ''-'' \<and> c \<noteq> CHR ''+''"
  by (auto simp: is_digit_def)

lemma with_exponent_digits:
  assumes "list_all is_digit s" "s \<noteq> []"
  shows "with_exponent s = Some (of_nat (digits_val s))"
proof -
  have "map (\<lambda>c. if c = CHR ''E'' then CHR ''e'' else c) s = s"
    using digits_no_e[OF assms(1)] by (auto intro!: map_idI)
  then have "split_on CHR ''e'' (map (\<lambda>c. if c = CHR ''E'' then CHR ''e'' else c) s) = [s]"
    using digits_no_e[OF assms(1)] by (simp add: split_on_no_sep)
  moreover have "split_on CHR ''.'' s = [s]" using digits_no_dot[OF assms(1)] by (rule split_on_no_sep)
  ultimately show ?thesis using assms by (simp add: with_exponent_def unsigned_decimal_def)
qed

text \<open>\<open>Number(String(n)) = n\<close> for a non-negative integer.\<close>

lemma js_Number_of_int:
  assumes "0 \<le> i"
  shows "js_Number (string_of_int i) = Some (of_int i)"
proof -
  let ?s = "nat_digits (nat i)"
  have d: "list_all is_digit ?s" by (rule nat_digits_digit)
  have "\<not> is_space (hd ?s)" "\<not> is_space (last ?s)"
    using d by (auto intro!: digit_not_space simp: list_all_iff)
  then have t: "trim ?s = ?s" by (intro trim_id) simp_all
  obtain c r where cr: "?s = c # r" by (cases ?s) simp_all
  have "with_sign with_exponent ?s = with_exponent ?s"
    using d digits_no_sign[of c r] unfolding cr
    by (cases "(with_exponent, c # r)" rule: with_sign.cases) auto
  also have "\<dots> = Some (of_int i)" using with_exponent_digits[OF d] assms by simp
  finally show ?thesis using t assms by (simp add: js_Number_def string_of_int_nat)
qed

end
