(* ===== verification/DepositStores.thy ===== *)
theory DepositStores
  imports Domain Repository
begin

text \<open>
  \<open>MemoryDepositAddressRepository\<close> and \<open>MemorySweepJobRepository\<close> of \<^verbatim>\<open>src/storage/memoryStore.ts\<close>:
  the derivation-index counter, the addresses handed to orders, and the sweep jobs.
\<close>

section \<open>Deposit addresses\<close>

record deposit_store =
  ds_counter :: int
  ds_byOrderId :: "(string, deposit_address) jsmap"
  ds_byAddress :: "(string, deposit_address) jsmap"

definition empty_deposit_store :: deposit_store where
  "empty_deposit_store = \<lparr>ds_counter = 0, ds_byOrderId = [], ds_byAddress = []\<rparr>"

definition deposit_nextIndex :: "deposit_store \<Rightarrow> int \<times> deposit_store" where
  "deposit_nextIndex st = (ds_counter st + 1, st\<lparr>ds_counter := ds_counter st + 1\<rparr>)"

definition deposit_save :: "deposit_address \<Rightarrow> deposit_store \<Rightarrow> deposit_store result" where
  "deposit_save d st =
     (if jm_has (ds_byOrderId st) (d_orderId d) then
        Inl (PlainError (''duplicate deposit orderId: '' @ d_orderId d))
      else if jm_has (ds_byAddress st) (d_address d) then
        Inl (PlainError (''duplicate deposit address: '' @ d_address d))
      else Inr (st\<lparr>ds_byOrderId := jm_set (d_orderId d) d (ds_byOrderId st),
                   ds_byAddress := jm_set (d_address d) d (ds_byAddress st)\<rparr>))"

definition deposit_findByOrderId :: "deposit_store \<Rightarrow> string \<Rightarrow> deposit_address option" where
  "deposit_findByOrderId st i = jm_get (ds_byOrderId st) i"

definition deposit_findByAddress :: "deposit_store \<Rightarrow> string \<Rightarrow> deposit_address option" where
  "deposit_findByAddress st a = jm_get (ds_byAddress st) a"

text \<open>
  The two maps hold the same records, each under its own name.
\<close>

definition deposit_store_wf :: "deposit_store \<Rightarrow> bool" where
  "deposit_store_wf st \<longleftrightarrow>
     (\<forall>k d. jm_get (ds_byOrderId st) k = Some d \<longrightarrow>
        d_orderId d = k \<and> jm_get (ds_byAddress st) (d_address d) = Some d) \<and>
     (\<forall>a d. jm_get (ds_byAddress st) a = Some d \<longrightarrow>
        d_address d = a \<and> jm_get (ds_byOrderId st) (d_orderId d) = Some d)"

lemma deposit_store_wf_empty [simp]: "deposit_store_wf empty_deposit_store"
  by (simp add: deposit_store_wf_def empty_deposit_store_def)

lemma deposit_next_wf: "deposit_store_wf st \<Longrightarrow> deposit_store_wf (snd (deposit_nextIndex st))"
  by (fastforce simp: deposit_store_wf_def deposit_nextIndex_def)

lemma deposit_save_ok:
  "deposit_save d st = Inr st' \<Longrightarrow>
     st' = st\<lparr>ds_byOrderId := jm_set (d_orderId d) d (ds_byOrderId st),
              ds_byAddress := jm_set (d_address d) d (ds_byAddress st)\<rparr> \<and>
     jm_get (ds_byOrderId st) (d_orderId d) = None \<and> jm_get (ds_byAddress st) (d_address d) = None"
  by (auto simp: deposit_save_def jm_has_def split: if_splits)

lemma deposit_save_wf:
  assumes wf: "deposit_store_wf st" and s: "deposit_save d st = Inr st'"
  shows "deposit_store_wf st'"
proof -
  note st' = deposit_save_ok[OF s]
  have A: "d_orderId x = k \<and> jm_get (ds_byAddress st) (d_address x) = Some x"
    if "jm_get (ds_byOrderId st) k = Some x" for k x using wf that by (simp add: deposit_store_wf_def)
  have B: "d_address x = a \<and> jm_get (ds_byOrderId st) (d_orderId x) = Some x"
    if "jm_get (ds_byAddress st) a = Some x" for a x using wf that by (simp add: deposit_store_wf_def)
  have "d_orderId x = k \<and> jm_get (ds_byAddress st') (d_address x) = Some x"
    if "jm_get (ds_byOrderId st') k = Some x" for k x
    using that st' A[of k x] by (auto split: if_splits)
  moreover have "d_address x = a \<and> jm_get (ds_byOrderId st') (d_orderId x) = Some x"
    if "jm_get (ds_byAddress st') a = Some x" for a x
    using that st' B[of a x] by (auto split: if_splits)
  ultimately show ?thesis unfolding deposit_store_wf_def by blast
qed

section \<open>Sweep jobs\<close>

record sweep_store =
  js_byId :: "(string, sweep_job) jsmap"
  js_byOrderId :: "(string, string) jsmap"

definition empty_sweep_store :: sweep_store where
  "empty_sweep_store = \<lparr>js_byId = [], js_byOrderId = []\<rparr>"

definition sweep_create :: "sweep_job \<Rightarrow> sweep_store \<Rightarrow> sweep_store result" where
  "sweep_create job st =
     (if jm_has (js_byOrderId st) (j_orderId job) then
        Inl (PlainError (''duplicate sweep orderId: '' @ j_orderId job))
      else Inr (st\<lparr>js_byId := jm_set (j_id job) job (js_byId st),
                   js_byOrderId := jm_set (j_orderId job) (j_id job) (js_byOrderId st)\<rparr>))"

definition sweep_findById :: "sweep_store \<Rightarrow> string \<Rightarrow> sweep_job option" where
  "sweep_findById st i = jm_get (js_byId st) i"

definition sweep_findByOrderId :: "sweep_store \<Rightarrow> string \<Rightarrow> sweep_job option" where
  "sweep_findByOrderId st n = index_get (js_byId st) (js_byOrderId st) n"

definition sweep_update :: "sweep_job \<Rightarrow> sweep_store \<Rightarrow> sweep_store result" where
  "sweep_update job st =
     (if \<not> jm_has (js_byId st) (j_id job) then Inl (PlainError (''unknown sweep job: '' @ j_id job))
      else Inr (st\<lparr>js_byId := jm_set (j_id job) job (js_byId st)\<rparr>))"

definition sweep_due :: "sweep_store \<Rightarrow> int \<Rightarrow> nat \<Rightarrow> sweep_job list" where
  "sweep_due st now limit =
     js_slice 0 limit (sort_key j_createdAt
       (filter (\<lambda>job. \<not> isSweepTerminal (j_status job) \<and> j_nextAttemptAt job \<le> now) (jm_values (js_byId st))))"

definition sweep_all :: "sweep_store \<Rightarrow> sweep_job list" where
  "sweep_all st = jm_values (js_byId st)"

definition sweep_store_wf :: "sweep_store \<Rightarrow> bool" where
  "sweep_store_wf st \<longleftrightarrow> keyed j_id (js_byId st) \<and> index_ok j_orderId (js_byId st) (js_byOrderId st)"

lemmas sweep_find_defs = sweep_findById_def sweep_findByOrderId_def sweep_all_def

lemma sweep_store_wf_empty [simp]: "sweep_store_wf empty_sweep_store"
  by (simp add: sweep_store_wf_def empty_sweep_store_def)

lemma sweep_create_ok:
  "sweep_create a st = Inr st' \<Longrightarrow>
     js_byId st' = jm_set (j_id a) a (js_byId st) \<and>
     js_byOrderId st' = jm_set (j_orderId a) (j_id a) (js_byOrderId st) \<and>
     jm_get (js_byOrderId st) (j_orderId a) = None"
  by (auto simp: sweep_create_def jm_has_def split: if_splits)

lemma sweep_update_ok:
  "sweep_update a st = Inr st' \<Longrightarrow> st' = st\<lparr>js_byId := jm_set (j_id a) a (js_byId st)\<rparr>"
  by (auto simp: sweep_update_def split: if_splits)

interpretation sweep_repo: indexed_repository sweep_store_wf sweep_findById sweep_create sweep_update
  j_id j_orderId "\<lambda>x. x" sweep_findByOrderId j_orderId
proof (unfold_locales, goal_cases)
  case (1 a s s' k) then show ?case by (auto dest!: sweep_create_ok simp: sweep_findById_def)
next
  case (2 a s s' k) then show ?case by (auto dest!: sweep_update_ok simp: sweep_findById_def)
next
  case (3 s a s') then show ?case
    using sweep_create_ok[OF 3(4)] by (simp add: sweep_store_wf_def keyed_set index_ok_insert sweep_findById_def)
next
  case (4 s a b s')
  then have "j_id a \<noteq> []" by (auto simp: sweep_store_wf_def sweep_findById_def dest: keyedD)
  with 4 show ?case unfolding sweep_update_ok[OF 4(4)]
    by (simp add: sweep_store_wf_def keyed_set index_ok_update sweep_findById_def)
next
  case (5 s a b) then show ?case by (simp add: sweep_update_def sweep_findById_def jm_has_def)
next
  case (6 s k a) then show ?case by (auto simp: sweep_findById_def sweep_store_wf_def dest: keyedD)
next
  case 7 show ?case by simp
next
  case (8 s n a)
  then show ?case by (simp add: sweep_find_defs sweep_store_wf_def index_get_iff)
next
  case (9 s a)
  then have "index_get (js_byId s) (js_byOrderId s) (j_orderId a) = None \<longleftrightarrow>
      jm_get (js_byOrderId s) (j_orderId a) = None"
    by (intro index_get_None[of j_id _ j_orderId]) (simp_all add: sweep_store_wf_def)
  then show ?case by (simp add: sweep_create_def sweep_find_defs jm_has_def)
qed

interpretation sweep_list: listed_repository sweep_store_wf sweep_findById sweep_create sweep_update
  j_id j_orderId "\<lambda>x. x" sweep_all
  by unfold_locales
    (simp_all add: sweep_find_defs sweep_store_wf_def keyed_values keyed_distinct del: set_map map_map)

section \<open>The queue of due jobs\<close>

definition job_due :: "int \<Rightarrow> sweep_job \<Rightarrow> bool" where
  "job_due now job = (\<not> isSweepTerminal (j_status job) \<and> j_nextAttemptAt job \<le> now)"

definition due_sorted :: "sweep_store \<Rightarrow> int \<Rightarrow> sweep_job list" where
  "due_sorted st now = sort_key j_createdAt (filter (job_due now) (sweep_all st))"

lemma sweep_due_eq: "sweep_due st now lim = take lim (due_sorted st now)"
  by (simp add: sweep_due_def due_sorted_def sweep_all_def js_slice_def job_due_def[abs_def])

lemma sorted_take_min:
  assumes "sorted (map f xs)" "x \<in> set (take n xs)" "y \<in> set xs" "y \<notin> set (take n xs)"
  shows "f x \<le> f y"
proof -
  have "y \<in> set (drop n xs)" using assms(3,4) by (metis Un_iff append_take_drop_id set_append)
  moreover have "sorted (map f (take n xs @ drop n xs))" using assms(1) by simp
  ultimately show ?thesis using assms(2) unfolding map_append sorted_append by auto
qed

text \<open>
  A round of the sweeper picks distinct, stored, unfinished jobs whose time has come, at most
  \<open>limit\<close> of them, oldest first; a due job it leaves out is no older than any it takes, and is left
  out only when the round is full.
\<close>

theorem sweep_due_oldest_first:
  assumes "sweep_store_wf st"
  shows "let picked = sweep_due st now lim in
    distinct (map j_id picked) \<and> length picked \<le> lim \<and> sorted (map j_createdAt picked) \<and>
    (\<forall>a \<in> set picked. sweep_findById st (j_id a) = Some a \<and> job_due now a) \<and>
    (\<forall>a b. a \<in> set picked \<and> sweep_findById st (j_id b) = Some b \<and> job_due now b \<and> b \<notin> set picked \<longrightarrow>
       length picked = lim \<and> j_createdAt a \<le> j_createdAt b)"
proof -
  have iff: "(a \<in> set (due_sorted st now)) = (sweep_findById st (j_id a) = Some a \<and> job_due now a)" for a
    using sweep_list.listing_iff[OF assms] by (auto simp: due_sorted_def)
  have "distinct (map j_id (due_sorted st now))"
    using sweep_list.distinct_listing[OF assms] by (auto simp: due_sorted_def distinct_map inj_on_def)
  then have d: "distinct (map j_id (take lim (due_sorted st now)))" by (simp add: distinct_map inj_on_def) (meson in_set_takeD)
  have s: "sorted (map j_createdAt (due_sorted st now))" by (simp add: due_sorted_def)
  then have s': "sorted (map j_createdAt (take lim (due_sorted st now)))" by (simp add: sorted_wrt_take flip: take_map)
  have full: "length (take lim (due_sorted st now)) = lim"
    if "b \<in> set (due_sorted st now)" "b \<notin> set (take lim (due_sorted st now))" for b
    using that by (cases "lim \<le> length (due_sorted st now)") auto
  show ?thesis
    unfolding sweep_due_eq Let_def
  proof (intro conjI allI ballI impI)
    fix a assume "a \<in> set (take lim (due_sorted st now))"
    then show "sweep_findById st (j_id a) = Some a" "job_due now a" using iff in_set_takeD by fast+
  next
    fix a b assume *: "a \<in> set (take lim (due_sorted st now)) \<and> sweep_findById st (j_id b) = Some b \<and>
      job_due now b \<and> b \<notin> set (take lim (due_sorted st now))"
    then have b: "b \<in> set (due_sorted st now)" using iff by blast
    show "length (take lim (due_sorted st now)) = lim" using full b * by blast
    show "j_createdAt a \<le> j_createdAt b" using sorted_take_min[OF s] b * by blast
  qed (use d s' in simp_all)
qed

definition demo_job :: "string \<Rightarrow> string \<Rightarrow> int \<Rightarrow> sweep_status \<Rightarrow> int \<Rightarrow> sweep_job" where
  "demo_job i oid t st at = \<lparr>j_id = i, j_orderId = oid, j_depositIndex = 1, j_depositAddress = ''Tdep'',
     j_collectionAddress = ''Tcol'', j_amountMicro = 1000000, j_status = st, j_gasTxId = None,
     j_sweepTxId = None, j_attempts = 0, j_lastError = None, j_createdAt = t, j_updatedAt = t,
     j_nextAttemptAt = at\<rparr>"

definition demo_sweep_store :: sweep_store where
  "demo_sweep_store = projr (sweep_create (demo_job ''j2'' ''o2'' 10 S_SWEEPING 5)
     (projr (sweep_create (demo_job ''j1'' ''o1'' 20 S_PENDING 0) empty_sweep_store)))"

lemmas demo_job_simps = demo_job_def sweep_create_def sweep_findById_def jm_has_def empty_sweep_store_def

lemma demo_sweep_store_wf: "sweep_store_wf demo_sweep_store"
  unfolding demo_sweep_store_def
  by (intro sweep_repo.create_valid_projr sweep_store_wf_empty) (simp_all add: demo_job_simps)

theorem sweep_due_oldest_first_witness:
  "sweep_store_wf demo_sweep_store \<and> map j_id (sweep_due demo_sweep_store 7 1) = [''j2''] \<and>
   distinct (map j_id (sweep_due demo_sweep_store 7 1))"
  using sweep_due_oldest_first[OF demo_sweep_store_wf, of 7 1] demo_sweep_store_wf
  by (simp add: demo_sweep_store_def demo_job_simps sweep_due_def js_slice_def isSweepTerminal_def Let_def)

end
