(* ===== verification/Usdt.thy ===== *)
theory Usdt
  imports Json DepositStores OrderStore
begin

text \<open>
  The USDT (TRC20) side: \<^verbatim>\<open>src/providers/usdt/usdtTron.ts\<close> (unique amounts, matching of transfers, the
  provider and the TronGrid client), \<^verbatim>\<open>src/services/addressAllocator.ts\<close> and
  \<^verbatim>\<open>src/providers/usdt/roundRobin.ts\<close>. The chain, the wallet and the HTTP client are code outside
  the repository: arguments of the definitions.
\<close>

section \<open>Configuration and transfers\<close>

datatype address_mode = Shared | PerOrder

record usdt_config =
  uc_addressMode :: address_mode
  uc_receivingAddress :: string
  uc_collectionAddress :: "string option"
  uc_hdStartIndex :: int
  uc_contractAddress :: string
  uc_apiBase :: string
  uc_apiKey :: "string option"
  uc_uniqueAmountMaxDelta :: int

text \<open>
  \<open>valueMicro\<close> is \<open>Number(t.value)\<close>; \<open>None\<close> is \<open>NaN\<close>, which equals and exceeds nothing. The value of a TRC20
  transfer is an integer of 256 bits, so its double is an integer.
\<close>

record trc20_transfer =
  tf_txId :: string
  tf_to :: string
  tf_from :: string
  tf_valueMicro :: "int option"
  tf_timestampMs :: int
  tf_confirmed :: bool

section \<open>Unique amounts\<close>

function allocate_loop :: "int \<Rightarrow> int list \<Rightarrow> int \<Rightarrow> int \<Rightarrow> int result" where
  "allocate_loop base taken maxDelta delta =
     (if delta \<le> maxDelta then
        let candidate = base + delta
        in if candidate \<notin> set taken then Inr candidate else allocate_loop base taken maxDelta (delta + 1)
      else Inl (ProviderError ''no unique USDT amount available; try again later''))"
  by pat_completeness auto
termination by (relation "measure (\<lambda>(b, t, m, d). nat (m + 1 - d))") auto

declare allocate_loop.simps [simp del]

definition allocateUniqueAmount :: "int \<Rightarrow> int list \<Rightarrow> int \<Rightarrow> int result" where
  "allocateUniqueAmount base taken maxDelta = allocate_loop base taken maxDelta 0"

lemma allocate_loop_props:
  "(allocate_loop base taken m d = Inr a \<longrightarrow>
      base + d \<le> a \<and> a \<le> base + m \<and> a \<notin> set taken \<and> {base + d..<a} \<subseteq> set taken) \<and>
   (\<not> is_ok (allocate_loop base taken m d) \<longrightarrow> {base + d..base + m} \<subseteq> set taken)"
proof (induction base taken m d rule: allocate_loop.induct)
  case (1 base taken m d)
  show ?case
  proof (cases "d \<le> m \<and> base + d \<in> set taken")
    case True
    then have eq: "allocate_loop base taken m d = allocate_loop base taken m (d + 1)"
      by (simp add: allocate_loop.simps[of base taken m d])
    have "{base + d..<a} \<subseteq> insert (base + d) {base + (d + 1)..<a}"
      "{base + d..base + m} \<subseteq> insert (base + d) {base + (d + 1)..base + m}" by auto
    then show ?thesis using 1 True unfolding eq by auto
  next
    case False
    then show ?thesis by (auto simp: allocate_loop.simps[of base taken m d])
  qed
qed

text \<open>
  the amount told to the payer in shared mode. It is the least one from the base price on that no
  pending order has, and exceeds the base price by at most the configured delta; allocation fails only
  when every amount in that range is taken, so it succeeds while fewer orders than amounts are pending.
\<close>

theorem allocateUniqueAmount_least:
  "(\<forall>a. allocateUniqueAmount base taken maxDelta = Inr a \<longrightarrow>
      base \<le> a \<and> a \<le> base + maxDelta \<and> a \<notin> set taken \<and> (\<forall>b. base \<le> b \<and> b < a \<longrightarrow> b \<in> set taken)) \<and>
   (int (length taken) \<le> maxDelta \<longrightarrow> is_ok (allocateUniqueAmount base taken maxDelta))"
proof (intro conjI allI impI)
  fix a assume "allocateUniqueAmount base taken maxDelta = Inr a"
  then have P: "base \<le> a \<and> a \<le> base + maxDelta \<and> a \<notin> set taken \<and> {base..<a} \<subseteq> set taken"
    using allocate_loop_props[of base taken maxDelta 0 a] by (simp add: allocateUniqueAmount_def)
  then show "base \<le> a" "a \<le> base + maxDelta" "a \<notin> set taken" by auto
  fix b assume "base \<le> b \<and> b < a"
  then show "b \<in> set taken" using P by auto
next
  assume few: "int (length taken) \<le> maxDelta"
  show "is_ok (allocateUniqueAmount base taken maxDelta)"
  proof (rule ccontr)
    assume "\<not> is_ok (allocateUniqueAmount base taken maxDelta)"
    then have "{base..base + maxDelta} \<subseteq> set taken"
      using allocate_loop_props[of base taken maxDelta 0] by (simp add: allocateUniqueAmount_def)
    then have "card {base..base + maxDelta} \<le> length taken"
      by (meson List.finite_set card_length card_mono le_trans)
    then show False using few by simp
  qed
qed

theorem allocateUniqueAmount_least_witness:
  "allocateUniqueAmount 2000000 [2000000, 2000001] 9999 = Inr 2000002 \<and> (2000002::int) \<notin> set [2000000, 2000001]"
  using allocateUniqueAmount_least[of 2000000 "[2000000, 2000001]" 9999]
  by (simp add: allocateUniqueAmount_def allocate_loop.simps)

section \<open>Matching transfers\<close>

definition matchTransfer :: "order \<Rightarrow> trc20_transfer list \<Rightarrow> string \<Rightarrow> string list \<Rightarrow> trc20_transfer option" where
  "matchTransfer ord transfers receivingAddress claimedTxIds =
     (let earliest = o_createdAt ord - 5 * 60000
      in List.find (\<lambda>t. tf_confirmed t \<and> tf_to t = receivingAddress \<and> tf_valueMicro t = Some (o_amount ord) \<and>
           earliest \<le> tf_timestampMs t \<and> tf_txId t \<notin> set claimedTxIds) transfers)"

definition matchByAddress :: "order \<Rightarrow> trc20_transfer list \<Rightarrow> string \<Rightarrow> string list \<Rightarrow> trc20_transfer option" where
  "matchByAddress ord transfers depositAddress claimedTxIds =
     (let earliest = o_createdAt ord - 5 * 60000
      in List.find (\<lambda>t. tf_confirmed t \<and> tf_to t = depositAddress \<and>
           (case tf_valueMicro t of None \<Rightarrow> False | Some v \<Rightarrow> o_amount ord \<le> v) \<and>
           earliest \<le> tf_timestampMs t \<and> tf_txId t \<notin> set claimedTxIds) transfers)"

lemma matchTransfer_Some:
  "matchTransfer ord ts addr cl = Some t \<Longrightarrow> t \<in> set ts \<and> tf_confirmed t \<and> tf_to t = addr \<and>
     tf_valueMicro t = Some (o_amount ord) \<and> o_createdAt ord - 300000 \<le> tf_timestampMs t \<and> tf_txId t \<notin> set cl"
  by (auto simp: matchTransfer_def find_Some_iff)

lemma matchByAddress_Some:
  "matchByAddress ord ts addr cl = Some t \<Longrightarrow> t \<in> set ts \<and> tf_confirmed t \<and> tf_to t = addr \<and>
     (\<exists>v. tf_valueMicro t = Some v \<and> o_amount ord \<le> v) \<and> o_createdAt ord - 300000 \<le> tf_timestampMs t \<and>
     tf_txId t \<notin> set cl"
  by (auto simp: matchByAddress_def find_Some_iff split: option.splits)

section \<open>The provider\<close>

text \<open>\<open>getIncomingTransfers(address, contract, sinceMs)\<close> of the chain client the provider is given.\<close>

type_synonym chain_client = "string \<Rightarrow> string \<Rightarrow> int \<Rightarrow> trc20_transfer list result"

definition or_empty :: "string option \<Rightarrow> string" where
  "or_empty s = (case s of None \<Rightarrow> [] | Some x \<Rightarrow> x)"

definition usdt_createPayment :: "usdt_config \<Rightarrow> order \<Rightarrow> create_payment_result result" where
  "usdt_createPayment cfg ord =
     (let perOrder = uc_addressMode cfg = PerOrder;
          payTarget = (if perOrder then or_empty (md_depositAddress (o_metadata ord)) else uc_receivingAddress cfg)
      in if perOrder \<and> payTarget = [] then
           Inl (ProviderError ''per-order USDT mode: order has no deposit address allocated'')
         else (case fromMinorUnits (o_amount ord) USDT of
             Inl err \<Rightarrow> Inl err
           | Inr amount \<Rightarrow> Inr \<lparr>c_method = Usdt, c_payTarget = payTarget, c_renderAs = Address,
               c_extra = [(''network'', ''TRON (TRC20)''), (''contract'', uc_contractAddress cfg),
                          (''amount'', amount), (''currency'', ''USDT''),
                          (''note'', if perOrder
                             then ''Send USDT (TRC20) to this address; it is dedicated to your order.''
                             else ''Send the exact amount shown so we can confirm your payment automatically.'')]\<rparr>))"

definition usdt_verifyCallback :: "raw_callback \<Rightarrow> callback_result result" where
  "usdt_verifyCallback cb = Inl (ProviderError ''USDT settlement is detected on-chain, not via callbacks'')"

definition usdt_queryPayment :: "usdt_config \<Rightarrow> chain_client \<Rightarrow> order \<Rightarrow> query_result result" where
  "usdt_queryPayment cfg chain ord =
     (let perOrder = uc_addressMode cfg = PerOrder;
          watchAddress = (if perOrder then or_empty (md_depositAddress (o_metadata ord)) else uc_receivingAddress cfg)
      in if perOrder \<and> watchAddress = [] then
           Inr \<lparr>q_paid = False, q_providerTxnId = None, q_paidAmount = None, q_rawStatus = ''NO_ADDRESS''\<rparr>
         else (case chain watchAddress (uc_contractAddress cfg) (o_createdAt ord - 5 * 60000) of
             Inl err \<Rightarrow> Inl err
           | Inr transfers \<Rightarrow>
               (case (if perOrder then matchByAddress ord transfers watchAddress []
                      else matchTransfer ord transfers watchAddress []) of
                  None \<Rightarrow> Inr \<lparr>q_paid = False, q_providerTxnId = None, q_paidAmount = None, q_rawStatus = ''NO_MATCH''\<rparr>
                | Some t \<Rightarrow> Inr \<lparr>q_paid = True, q_providerTxnId = Some (tf_txId t), q_paidAmount = tf_valueMicro t,
                                q_rawStatus = ''CONFIRMED''\<rparr>)))"

definition usdt_callbackAck :: "bool \<Rightarrow> callback_ack" where
  "usdt_callbackAck ok = \<lparr>ack_status = 404, ack_contentType = ''text/plain'', ack_body = ''not applicable''\<rparr>"

definition usdt_provider :: "usdt_config \<Rightarrow> chain_client \<Rightarrow> payment_provider" where
  "usdt_provider cfg chain = \<lparr>pp_createPayment = usdt_createPayment cfg, pp_verifyCallback = usdt_verifyCallback,
     pp_queryPayment = usdt_queryPayment cfg chain, pp_callbackAck = usdt_callbackAck,
     pp_refund = None, pp_verifyRefundCallback = None\<rparr>"

definition watch_address :: "usdt_config \<Rightarrow> order \<Rightarrow> string" where
  "watch_address cfg ord = (if uc_addressMode cfg = PerOrder then or_empty (md_depositAddress (o_metadata ord))
     else uc_receivingAddress cfg)"

lemma usdt_queryPayment_paid:
  assumes "usdt_queryPayment cfg chain ord = Inr q" "q_paid q"
  shows "\<exists>ts t v. chain (watch_address cfg ord) (uc_contractAddress cfg) (o_createdAt ord - 300000) = Inr ts \<and>
    t \<in> set ts \<and> tf_confirmed t \<and> tf_to t = watch_address cfg ord \<and> o_createdAt ord - 300000 \<le> tf_timestampMs t \<and>
    q_providerTxnId q = Some (tf_txId t) \<and> q_paidAmount q = Some v \<and> tf_valueMicro t = Some v \<and>
    (if uc_addressMode cfg = PerOrder then o_amount ord \<le> v \<and> watch_address cfg ord \<noteq> [] else v = o_amount ord)"
proof (cases "uc_addressMode cfg")
  case Shared
  then obtain ts t where t: "chain (watch_address cfg ord) (uc_contractAddress cfg) (o_createdAt ord - 300000) = Inr ts"
    "matchTransfer ord ts (watch_address cfg ord) [] = Some t"
    "q = \<lparr>q_paid = True, q_providerTxnId = Some (tf_txId t), q_paidAmount = tf_valueMicro t, q_rawStatus = ''CONFIRMED''\<rparr>"
    using assms by (auto simp: usdt_queryPayment_def watch_address_def Let_def split: sum.splits option.splits)
  then show ?thesis using matchTransfer_Some[OF t(2)] Shared by auto
next
  case PerOrder
  then obtain ts t where t: "chain (watch_address cfg ord) (uc_contractAddress cfg) (o_createdAt ord - 300000) = Inr ts"
    "matchByAddress ord ts (watch_address cfg ord) [] = Some t" "watch_address cfg ord \<noteq> []"
    "q = \<lparr>q_paid = True, q_providerTxnId = Some (tf_txId t), q_paidAmount = tf_valueMicro t, q_rawStatus = ''CONFIRMED''\<rparr>"
    using assms by (auto simp: usdt_queryPayment_def watch_address_def Let_def split: sum.splits option.splits if_splits)
  then show ?thesis using matchByAddress_Some[OF t(2)] PerOrder by auto
qed

text \<open>One transaction id belongs to one transfer, in every listing of the chain.\<close>

definition consistent_listing :: "chain_client \<Rightarrow> bool" where
  "consistent_listing chain \<longleftrightarrow>
     (\<forall>ad ct s ts t ad' ct' s' us u. chain ad ct s = Inr ts \<and> t \<in> set ts \<and> chain ad' ct' s' = Inr us \<and> u \<in> set us \<and>
        tf_txId t = tf_txId u \<longrightarrow> t = u)"

text \<open>
  C17: an on-chain settlement is backed by a real transfer, and by one that can settle only one order. When
  the provider reports an order paid, the chain listed a confirmed transfer to the address the order was
  told, with the reported id and amount, not older than five minutes before the order, of exactly the order's
  amount in shared mode and of at least its amount in per-order mode. Any other order that is reported paid
  and differs in amount (shared) or in address (per-order) is reported with another transaction, provided
  that one transaction id belongs to one transfer in all listings.
\<close>

theorem usdt_settlement_backed:
  assumes "usdt_queryPayment cfg chain a = Inr qa" "q_paid qa"
  shows "(\<exists>ts t v. chain (watch_address cfg a) (uc_contractAddress cfg) (o_createdAt a - 300000) = Inr ts \<and> t \<in> set ts \<and>
      tf_confirmed t \<and> tf_to t = watch_address cfg a \<and> q_providerTxnId qa = Some (tf_txId t) \<and>
      q_paidAmount qa = Some v \<and> tf_valueMicro t = Some v \<and> o_createdAt a - 300000 \<le> tf_timestampMs t \<and>
      (if uc_addressMode cfg = PerOrder then o_amount a \<le> v \<and> watch_address cfg a \<noteq> [] else v = o_amount a)) \<and>
    (\<forall>b qb. usdt_queryPayment cfg chain b = Inr qb \<and> q_paid qb \<and> consistent_listing chain \<and>
      (if uc_addressMode cfg = PerOrder then watch_address cfg a \<noteq> watch_address cfg b else o_amount a \<noteq> o_amount b) \<longrightarrow>
      q_providerTxnId qa \<noteq> q_providerTxnId qb)"
proof -
  from usdt_queryPayment_paid[OF assms] obtain ts t v where
    A: "chain (watch_address cfg a) (uc_contractAddress cfg) (o_createdAt a - 300000) = Inr ts" "t \<in> set ts"
      "tf_confirmed t" "tf_to t = watch_address cfg a" "o_createdAt a - 300000 \<le> tf_timestampMs t"
      "q_providerTxnId qa = Some (tf_txId t)" "q_paidAmount qa = Some v" "tf_valueMicro t = Some v"
      "if uc_addressMode cfg = PerOrder then o_amount a \<le> v \<and> watch_address cfg a \<noteq> [] else v = o_amount a"
    by blast
  have "q_providerTxnId qa \<noteq> q_providerTxnId qb"
    if b: "usdt_queryPayment cfg chain b = Inr qb" "q_paid qb" and c: "consistent_listing chain"
      and differ: "if uc_addressMode cfg = PerOrder then watch_address cfg a \<noteq> watch_address cfg b else o_amount a \<noteq> o_amount b"
    for b qb
  proof
    assume same: "q_providerTxnId qa = q_providerTxnId qb"
    from usdt_queryPayment_paid[OF b] obtain us u w where
      B: "chain (watch_address cfg b) (uc_contractAddress cfg) (o_createdAt b - 300000) = Inr us" "u \<in> set us"
        "tf_to u = watch_address cfg b" "q_providerTxnId qb = Some (tf_txId u)" "tf_valueMicro u = Some w"
        "if uc_addressMode cfg = PerOrder then o_amount b \<le> w \<and> watch_address cfg b \<noteq> [] else w = o_amount b"
      by blast
    have "tf_txId t = tf_txId u" using same A(6) B(4) by simp
    then have "t = u" using c A(1,2) B(1,2) unfolding consistent_listing_def by blast
    then have "watch_address cfg a = watch_address cfg b" "v = w" using A(4,8) B(3,5) by simp_all
    then show False using A(9) B(6) differ by (cases "uc_addressMode cfg = PerOrder") simp_all
  qed
  then show ?thesis using A by blast
qed

definition demo_usdt_config :: usdt_config where
  "demo_usdt_config = \<lparr>uc_addressMode = Shared, uc_receivingAddress = ''Trecv'', uc_collectionAddress = None,
     uc_hdStartIndex = 0, uc_contractAddress = ''Tusdt'', uc_apiBase = ''https://api'', uc_apiKey = None,
     uc_uniqueAmountMaxDelta = 9999\<rparr>"

definition demo_transfer :: "string \<Rightarrow> int \<Rightarrow> trc20_transfer" where
  "demo_transfer x v = \<lparr>tf_txId = x, tf_to = ''Trecv'', tf_from = ''Tpayer'', tf_valueMicro = Some v,
     tf_timestampMs = 60, tf_confirmed = True\<rparr>"

theorem usdt_settlement_backed_witness:
  "let chain = (\<lambda>ad ct s. Inr [demo_transfer ''x1'' 2000000, demo_transfer ''x2'' 2000001]) in
   \<exists>qa qb. usdt_queryPayment demo_usdt_config chain (demo_order ''o1'' Usdt 2000000 PENDING) = Inr qa \<and>
     usdt_queryPayment demo_usdt_config chain (demo_order ''o2'' Usdt 2000001 PENDING) = Inr qb \<and> q_paid qa \<and> q_paid qb \<and>
     q_providerTxnId qa \<noteq> q_providerTxnId qb"
proof -
  let ?chain = "\<lambda>(ad::string) (ct::string) (s::int). Inr [demo_transfer ''x1'' 2000000, demo_transfer ''x2'' 2000001] :: trc20_transfer list result"
  let ?a = "demo_order ''o1'' Usdt 2000000 PENDING" and ?b = "demo_order ''o2'' Usdt 2000001 PENDING"
  let ?q = "\<lambda>x v. \<lparr>q_paid = True, q_providerTxnId = Some x, q_paidAmount = Some v, q_rawStatus = ''CONFIRMED''\<rparr>"
  have q: "usdt_queryPayment demo_usdt_config ?chain ?a = Inr (?q ''x1'' 2000000)"
    "usdt_queryPayment demo_usdt_config ?chain ?b = Inr (?q ''x2'' 2000001)"
    by (simp_all add: usdt_queryPayment_def demo_usdt_config_def matchTransfer_def demo_transfer_def demo_order_def Let_def)
  have m: "if uc_addressMode demo_usdt_config = PerOrder then watch_address demo_usdt_config ?a \<noteq> watch_address demo_usdt_config ?b
      else o_amount ?a \<noteq> o_amount ?b" by (simp add: demo_usdt_config_def demo_order_def)
  have l: "consistent_listing ?chain" unfolding consistent_listing_def by (auto simp: demo_transfer_def)
  have p: "q_paid (?q ''x1'' 2000000)" "q_paid (?q ''x2'' 2000001)" by simp_all
  have "q_providerTxnId (?q ''x1'' 2000000) \<noteq> q_providerTxnId (?q ''x2'' 2000001)"
    using usdt_settlement_backed[OF q(1) p(1), THEN conjunct2] q(2) p(2) m l by blast
  then show ?thesis unfolding Let_def using q p by blast
qed

section \<open>The TronGrid client\<close>

record http_request =
  hq_method :: string
  hq_url :: string
  hq_headers :: "(string, string) jsmap"
  hq_body :: "string option"

record http_response =
  hs_status :: int
  hs_body :: string

text \<open>The rows of the response body; \<open>parse\<close> is \<open>JSON.parse\<close> with its \<open>data\<close> field.\<close>

record tron_row =
  tr_transaction_id :: string
  tr_to :: string
  tr_from :: string
  tr_value :: string
  tr_block_timestamp :: int

definition tron_transfer :: "tron_row \<Rightarrow> trc20_transfer" where
  "tron_transfer t = \<lparr>tf_txId = tr_transaction_id t, tf_to = tr_to t, tf_from = tr_from t,
     tf_valueMicro = int_of_num (js_number_of (tr_value t)), tf_timestampMs = tr_block_timestamp t, tf_confirmed = True\<rparr>"

definition tronGrid_getIncomingTransfers ::
  "usdt_config \<Rightarrow> (http_request \<Rightarrow> http_response result) \<Rightarrow> (string \<Rightarrow> tron_row list option result) \<Rightarrow> chain_client" where
  "tronGrid_getIncomingTransfers cfg request parse address contract sinceMs =
     (let url = uc_apiBase cfg @ ''/v1/accounts/'' @ address @ ''/transactions/trc20'' @
                ''?only_to=true&limit=100&contract_address='' @ contract @ ''&min_timestamp='' @ string_of_int sinceMs;
          headers = [(''Accept'', ''application/json'')];
          headers = (if truthy (uc_apiKey cfg) then jm_set ''TRON-PRO-API-KEY'' (the (uc_apiKey cfg)) headers else headers)
      in case request \<lparr>hq_method = ''GET'', hq_url = url, hq_headers = headers, hq_body = None\<rparr> of
           Inl err \<Rightarrow> Inl err
         | Inr res \<Rightarrow>
             if hs_status res \<noteq> 200 then
               Inl (ProviderError (''trongrid query failed ('' @ string_of_int (hs_status res) @ '')''))
             else (case parse (hs_body res) of
                 Inl err \<Rightarrow> Inl err
               | Inr data \<Rightarrow> Inr (map tron_transfer (case data of None \<Rightarrow> [] | Some rows \<Rightarrow> rows))))"

section \<open>Deposit addresses\<close>

text \<open>The address allocator; \<open>derive\<close> is the wallet's \<open>deriveDepositAddress\<close>.\<close>

definition allocate ::
  "env \<Rightarrow> int \<Rightarrow> (int \<Rightarrow> string result) \<Rightarrow> string \<Rightarrow> deposit_store \<Rightarrow> deposit_address result \<times> deposit_store" where
  "allocate e hdStartIndex derive orderId st =
     (case deposit_findByOrderId st orderId of
        Some existing \<Rightarrow> (Inr existing, st)
      | None \<Rightarrow>
          (let (raw, st1) = deposit_nextIndex st; index = hdStartIndex + raw
           in case derive index of
                Inl err \<Rightarrow> (Inl err, st1)
              | Inr address \<Rightarrow>
                  let rec = \<lparr>d_index = index, d_address = address, d_orderId = orderId, d_createdAt = now_at e 0\<rparr>
                  in (case deposit_save rec st1 of
                        Inl err \<Rightarrow> (Inl err, st1)
                      | Inr st2 \<Rightarrow> (Inr rec, st2))))"

text \<open>Every address on file was derived from its index, and the indexes lie between the offset and the counter.\<close>

definition deposits_derived :: "int \<Rightarrow> (int \<Rightarrow> string result) \<Rightarrow> deposit_store \<Rightarrow> bool" where
  "deposits_derived start derive st \<longleftrightarrow> deposit_store_wf st \<and> 0 \<le> ds_counter st \<and>
     (\<forall>k d. deposit_findByOrderId st k = Some d \<longrightarrow>
        start < d_index d \<and> d_index d \<le> start + ds_counter st \<and> derive (d_index d) = Inr (d_address d))"

definition wallet_injective :: "(int \<Rightarrow> string result) \<Rightarrow> bool" where
  "wallet_injective derive \<longleftrightarrow> (\<forall>i j a. derive i = Inr a \<and> derive j = Inr a \<longrightarrow> i = j)"

lemma deposits_derived_empty: "deposits_derived start derive empty_deposit_store"
  by (simp add: deposits_derived_def deposit_findByOrderId_def empty_deposit_store_def deposit_store_wf_def)

lemma deposit_address_fresh:
  assumes "wallet_injective derive" "deposits_derived start derive st" "derive (start + (ds_counter st + 1)) = Inr a"
  shows "jm_get (ds_byAddress st) a = None"
proof (cases "jm_get (ds_byAddress st) a")
  case (Some d)
  then have d: "d_address d = a" "deposit_findByOrderId st (d_orderId d) = Some d"
    using assms(2) by (simp_all add: deposits_derived_def deposit_store_wf_def deposit_findByOrderId_def)
  then have "d_index d \<le> start + ds_counter st" "derive (d_index d) = Inr a"
    using assms(2) by (auto simp: deposits_derived_def)
  then have "d_index d = start + (ds_counter st + 1)" "d_index d \<le> start + ds_counter st"
    using assms(1,3) unfolding wallet_injective_def by blast+
  then show ?thesis by simp
qed simp

lemma allocate_cases:
  assumes inj: "wallet_injective derive" and inv: "deposits_derived start derive st"
  shows "deposits_derived start derive (snd (allocate e start derive oid st)) \<and>
    (\<forall>k. k \<noteq> oid \<or> deposit_findByOrderId st k \<noteq> None \<longrightarrow>
       deposit_findByOrderId (snd (allocate e start derive oid st)) k = deposit_findByOrderId st k) \<and>
    (case fst (allocate e start derive oid st) of
       Inr d \<Rightarrow> deposit_findByOrderId (snd (allocate e start derive oid st)) oid = Some d
     | Inl err \<Rightarrow> derive (start + (ds_counter st + 1)) = Inl err)"
proof (cases "deposit_findByOrderId st oid")
  case (Some d)
  then show ?thesis using inv by (simp add: allocate_def)
next
  case None
  let ?i = "start + (ds_counter st + 1)" and ?st1 = "st\<lparr>ds_counter := ds_counter st + 1\<rparr>"
  have inv1: "deposits_derived start derive ?st1"
    using inv unfolding deposits_derived_def deposit_store_wf_def deposit_findByOrderId_def by fastforce
  show ?thesis
  proof (cases "derive ?i")
    case (Inl err)
    then show ?thesis using None inv1
      by (simp add: allocate_def deposit_nextIndex_def Let_def) (simp add: deposit_findByOrderId_def)
  next
    case (Inr a)
    let ?d = "\<lparr>d_index = ?i, d_address = a, d_orderId = oid, d_createdAt = now_at e 0\<rparr>"
    let ?st2 = "?st1\<lparr>ds_byOrderId := jm_set oid ?d (ds_byOrderId st), ds_byAddress := jm_set a ?d (ds_byAddress st)\<rparr>"
    have s: "deposit_save ?d ?st1 = Inr ?st2"
      using None deposit_address_fresh[OF inj inv Inr]
      by (simp add: deposit_save_def jm_has_def deposit_findByOrderId_def)
    have eq: "allocate e start derive oid st = (Inr ?d, ?st2)"
      using None Inr s by (simp add: allocate_def deposit_nextIndex_def Let_def)
    have "deposit_store_wf ?st2" using inv1 s by (auto simp: deposits_derived_def intro: deposit_save_wf)
    moreover have "start < d_index d \<and> d_index d \<le> start + ds_counter ?st2 \<and> derive (d_index d) = Inr (d_address d)"
      if "deposit_findByOrderId ?st2 k = Some d" for k d
    proof (cases "k = oid")
      case True
      moreover have "0 \<le> ds_counter st" using inv by (simp add: deposits_derived_def)
      ultimately show ?thesis using that Inr by (auto simp: deposit_findByOrderId_def)
    next
      case False
      then have "deposit_findByOrderId st k = Some d" using that by (simp add: deposit_findByOrderId_def)
      then show ?thesis using inv by (fastforce simp: deposits_derived_def)
    qed
    moreover have "0 \<le> ds_counter ?st2" using inv by (simp add: deposits_derived_def)
    ultimately have "deposits_derived start derive ?st2" unfolding deposits_derived_def by blast
    then show ?thesis unfolding eq using None by (simp add: deposit_findByOrderId_def)
  qed
qed

lemma deposits_derivedD:
  assumes "deposits_derived start derive st" "deposit_findByOrderId st k = Some d"
  shows "d_orderId d = k" "jm_get (ds_byAddress st) (d_address d) = Some d" "derive (d_index d) = Inr (d_address d)"
  using assms by (simp_all add: deposits_derived_def deposit_store_wf_def deposit_findByOrderId_def)

text \<open>Allocation requests one after another, each at its own clock; the wallet may fail any of them.\<close>

definition allocate_all :: "int \<Rightarrow> (int \<Rightarrow> string result) \<Rightarrow> (env \<times> string) list \<Rightarrow> deposit_store \<Rightarrow> deposit_store" where
  "allocate_all start derive reqs st = fold (\<lambda>(e, oid) s. snd (allocate e start derive oid s)) reqs st"

lemma allocate_all_keeps:
  assumes inj: "wallet_injective derive"
  shows "deposits_derived start derive st \<Longrightarrow> deposits_derived start derive (allocate_all start derive reqs st) \<and>
    (\<forall>k. deposit_findByOrderId st k \<noteq> None \<longrightarrow>
       deposit_findByOrderId (allocate_all start derive reqs st) k = deposit_findByOrderId st k)"
proof (induction reqs arbitrary: st)
  case (Cons r reqs)
  obtain e oid where r: "r = (e, oid)" by fastforce
  note A = allocate_cases[OF inj Cons.prems, of e oid]
  have "allocate_all start derive (r # reqs) st = allocate_all start derive reqs (snd (allocate e start derive oid st))"
    by (simp add: allocate_all_def r)
  then show ?case using Cons.IH[of "snd (allocate e start derive oid st)"] A by (metis (no_types, lifting))
qed (simp add: allocate_all_def)

text \<open>
  every order has a deposit address of its own. With a wallet that derives different addresses at
  different indexes, after any history of allocations (retries and wallet failures included) two
  different orders never share an address or an index; an order that got an address keeps it: whatever
  is allocated in between, asking again returns the same record and changes nothing; and allocation
  fails only when the wallet does.
\<close>

theorem deposit_addresses_unique:
  assumes "wallet_injective derive"
  shows "let st = allocate_all start derive reqs empty_deposit_store in
    (\<forall>a b da db. a \<noteq> b \<and> deposit_findByOrderId st a = Some da \<and> deposit_findByOrderId st b = Some db \<longrightarrow>
       d_address da \<noteq> d_address db \<and> d_index da \<noteq> d_index db) \<and>
    (\<forall>d more e'. fst (allocate e start derive oid st) = Inr d \<longrightarrow>
       (let st' = allocate_all start derive more (snd (allocate e start derive oid st))
        in allocate e' start derive oid st' = (Inr d, st'))) \<and>
    (\<forall>err. fst (allocate e start derive oid st) = Inl err \<longrightarrow> (\<exists>i. derive i = Inl err))"
proof -
  define st where "st = allocate_all start derive reqs empty_deposit_store"
  have inv: "deposits_derived start derive st"
    unfolding st_def using allocate_all_keeps[OF assms deposits_derived_empty] by blast
  note A = allocate_cases[OF assms inv, of e oid]
  have "d_address da \<noteq> d_address db \<and> d_index da \<noteq> d_index db"
    if "a \<noteq> b" "deposit_findByOrderId st a = Some da" "deposit_findByOrderId st b = Some db" for a b da db
  proof -
    note da = deposits_derivedD[OF inv that(2)] and db = deposits_derivedD[OF inv that(3)]
    have "d_address da \<noteq> d_address db" using that(1) da(1,2) db(1,2) by (metis option.inject)
    then show ?thesis using da(3) db(3) by (metis sum.inject(2))
  qed
  moreover have "allocate e' start derive oid (allocate_all start derive more (snd (allocate e start derive oid st))) =
      (Inr d, allocate_all start derive more (snd (allocate e start derive oid st)))"
    if "fst (allocate e start derive oid st) = Inr d" for d more e'
  proof -
    have "deposit_findByOrderId (snd (allocate e start derive oid st)) oid = Some d" using A that by simp
    then have "deposit_findByOrderId (allocate_all start derive more (snd (allocate e start derive oid st))) oid = Some d"
      using allocate_all_keeps[OF assms, of start "snd (allocate e start derive oid st)" more] A by simp
    then show ?thesis by (simp add: allocate_def)
  qed
  moreover have "\<exists>i. derive i = Inl err" if "fst (allocate e start derive oid st) = Inl err" for err
    using A that by auto
  ultimately show ?thesis unfolding st_def[symmetric] Let_def by blast
qed

definition demo_derive :: "int \<Rightarrow> string result" where
  "demo_derive i = Inr (''T'' @ string_of_int i)"

definition demo_deposits :: deposit_store where
  "demo_deposits = allocate_all 100 demo_derive
     [(env_at 1, ''o1''), (env_at 2, ''o2''), (env_at 3, ''o1'')] empty_deposit_store"

lemma demo_derive_injective: "wallet_injective demo_derive"
  by (auto simp: wallet_injective_def demo_derive_def dest: string_of_int_inj)

theorem deposit_addresses_unique_witness:
  "map_option d_index (deposit_findByOrderId demo_deposits ''o1'') = Some 101 \<and>
   map_option d_index (deposit_findByOrderId demo_deposits ''o2'') = Some 102 \<and>
   map_option d_address (deposit_findByOrderId demo_deposits ''o1'') \<noteq>
     map_option d_address (deposit_findByOrderId demo_deposits ''o2'')"
proof -
  have ne: "string_of_int 102 \<noteq> string_of_int 101" using string_of_int_inj[of 102 101] by auto
  have "\<exists>da. deposit_findByOrderId demo_deposits ''o1'' = Some da \<and> d_index da = 101"
    "\<exists>db. deposit_findByOrderId demo_deposits ''o2'' = Some db \<and> d_index db = 102"
    using ne by (simp_all add: demo_deposits_def demo_derive_def allocate_all_def allocate_def deposit_findByOrderId_def
        deposit_nextIndex_def deposit_save_def empty_deposit_store_def jm_has_def Let_def)
  then obtain da db where d: "deposit_findByOrderId demo_deposits ''o1'' = Some da" "d_index da = 101"
    "deposit_findByOrderId demo_deposits ''o2'' = Some db" "d_index db = 102" by blast
  note U = deposit_addresses_unique[OF demo_derive_injective, where start = 100 and
        reqs = "[(env_at 1, ''o1''), (env_at 2, ''o2''), (env_at 3, ''o1'')]", folded demo_deposits_def,
        unfolded Let_def, THEN conjunct1, rule_format, of "''o1''" "''o2''" da db]
  have "d_address da \<noteq> d_address db" using U d by simp
  then show ?thesis using d by simp
qed

section \<open>Fee wallets in rotation\<close>

record 'a round_robin =
  rb_items :: "'a list"
  rb_cursor :: nat

definition rb_new :: "'a list \<Rightarrow> 'a round_robin result" where
  "rb_new items = (if length items = 0 then Inl (PlainError ''RoundRobin: pool must be non-empty'')
     else Inr \<lparr>rb_items = items, rb_cursor = 0\<rparr>)"

definition rb_next :: "'a round_robin \<Rightarrow> 'a \<times> 'a round_robin" where
  "rb_next r = (rb_items r ! (rb_cursor r mod length (rb_items r)), r\<lparr>rb_cursor := rb_cursor r + 1\<rparr>)"

definition rb_size :: "'a round_robin \<Rightarrow> nat" where
  "rb_size r = length (rb_items r)"

definition rb_all :: "'a round_robin \<Rightarrow> 'a list" where
  "rb_all r = rb_items r"

fun rb_draw :: "nat \<Rightarrow> 'a round_robin \<Rightarrow> 'a list \<times> 'a round_robin" where
  "rb_draw 0 r = ([], r)"
| "rb_draw (Suc n) r = (let (x, r1) = rb_next r; (xs, r2) = rb_draw n r1 in (x # xs, r2))"

lemma rb_draw_eq:
  "rb_draw n r = (map (\<lambda>i. rb_items r ! (i mod length (rb_items r))) [rb_cursor r..<rb_cursor r + n],
     r\<lparr>rb_cursor := rb_cursor r + n\<rparr>)"
proof (induction n arbitrary: r)
  case (Suc n)
  have "[rb_cursor r..<rb_cursor r + Suc n] = rb_cursor r # [rb_cursor r + 1..<rb_cursor r + Suc n]"
    by (simp add: upt_conv_Cons)
  then show ?case by (simp add: Suc.IH rb_next_def Let_def del: upt_Suc)
qed simp

lemma nth_rotation: "0 < length xs \<Longrightarrow> map (\<lambda>i. xs ! (i mod length xs)) [c..<c + length xs] = rotate c xs"
  by (rule nth_equalityI) (simp_all add: nth_rotate)

lemma count_list_rotate: "count_list (rotate n xs) x = count_list xs x"
proof (induction n)
  case (Suc n)
  have "count_list (rotate1 ys) x = count_list ys x" for ys by (cases ys) simp_all
  with Suc show ?case by simp
qed simp

text \<open>
  The load is spread evenly. From any point on, as many draws as the pool has wallets return every
  wallet exactly once, in the pool's cyclic order; no draw is ever out of range.
\<close>

theorem round_robin_fair:
  assumes "rb_new items = Inr r0"
  shows "let (before, r) = rb_draw n r0; (round, r') = rb_draw (rb_size r) r in
    round = rotate n items \<and> (\<forall>x. count_list round x = count_list items x) \<and> set before \<subseteq> set items \<and> rb_all r' = items"
proof -
  have r0: "rb_items r0 = items" "rb_cursor r0 = 0" "0 < length items"
    using assms by (auto simp: rb_new_def split: if_splits)
  have "set (map (\<lambda>i. items ! (i mod length items)) [0..<n]) \<subseteq> set items"
    using r0(3) by (auto intro!: nth_mem)
  then show ?thesis
    using nth_rotation[OF r0(3), of n] by (simp add: rb_draw_eq r0 rb_size_def rb_all_def count_list_rotate)
qed

theorem round_robin_fair_witness:
  "let r0 = \<lparr>rb_items = [''a'', ''b'', ''c''], rb_cursor = 0\<rparr> in
     rb_new [''a'', ''b'', ''c''] = Inr r0 \<and> fst (rb_draw 3 (snd (rb_draw 4 r0))) = rotate 4 [''a'', ''b'', ''c'']"
proof -
  have "rb_new [''a'', ''b'', ''c''] = Inr \<lparr>rb_items = [''a'', ''b'', ''c''], rb_cursor = 0\<rparr>" by (simp add: rb_new_def)
  from round_robin_fair[OF this, of 4] this show ?thesis
    by (simp add: split_beta Let_def rb_draw_eq rb_size_def)
qed

end
