(* ===== verification/AuditLog.thy ===== *)
theory AuditLog
  imports Json
begin

text \<open>
  \<^verbatim>\<open>src/audit/auditLog.ts\<close>: the append-only log with bounded memory and its query. The cloning of
  entries has no counterpart: values cannot be mutated.
\<close>

record audit_event =
  a_id :: string
  a_at :: int
  a_action :: string
  a_actor :: "string option"
  a_subjectId :: "string option"
  a_metadata :: "json option"

record audit_input =
  ai_action :: string
  ai_actor :: "string option"
  ai_subjectId :: "string option"
  ai_metadata :: "json option"
  ai_at :: "int option"

record audit_query =
  aq_action :: "string option"
  aq_actor :: "string option"
  aq_subjectId :: "string option"
  aq_from :: "int option"
  aq_to :: "int option"
  aq_limit :: "nat option"
  aq_offset :: "nat option"

definition DEFAULT_LIMIT :: nat where
  "DEFAULT_LIMIT = 50"

record audit_log =
  al_entries :: "audit_event list"
  al_maxEntries :: nat

definition new_audit_log :: "nat \<Rightarrow> audit_log" where
  "new_audit_log n = \<lparr>al_entries = [], al_maxEntries = n\<rparr>"

fun shift_while :: "nat \<Rightarrow> 'a list \<Rightarrow> 'a list" where
  "shift_while n [] = []"
| "shift_while n (x # xs) = (if length (x # xs) > n then shift_while n xs else x # xs)"

definition audit_record :: "env \<Rightarrow> audit_input \<Rightarrow> audit_log \<Rightarrow> audit_event \<times> audit_log" where
  "audit_record e input al =
     (let event = \<lparr>a_id = uuid_at e 0, a_at = (case ai_at input of None \<Rightarrow> now_at e 0 | Some t \<Rightarrow> t),
            a_action = ai_action input, a_actor = ai_actor input, a_subjectId = ai_subjectId input,
            a_metadata = ai_metadata input\<rparr>
      in (event, al\<lparr>al_entries := shift_while (al_maxEntries al) (al_entries al @ [event])\<rparr>))"

text \<open>\<open>audit?.record(..)\<close> of the services, whose audit log is optional.\<close>

definition audit_opt :: "env \<Rightarrow> audit_input \<Rightarrow> audit_log option \<Rightarrow> audit_log option" where
  "audit_opt e input a = map_option (\<lambda>al. snd (audit_record e input al)) a"

definition audit_matches :: "audit_query \<Rightarrow> audit_event \<Rightarrow> bool" where
  "audit_matches q ev =
     (if aq_action q \<noteq> None \<and> a_action ev \<noteq> the (aq_action q) then False
      else if aq_actor q \<noteq> None \<and> a_actor ev \<noteq> aq_actor q then False
      else if aq_subjectId q \<noteq> None \<and> a_subjectId ev \<noteq> aq_subjectId q then False
      else if aq_from q \<noteq> None \<and> a_at ev < the (aq_from q) then False
      else if aq_to q \<noteq> None \<and> the (aq_to q) \<le> a_at ev then False
      else True)"

text \<open>Sorting by time, newest first, and by index, later first, among equal times: two stable passes.\<close>

definition audit_matched :: "audit_query \<Rightarrow> audit_log \<Rightarrow> (audit_event \<times> nat) list" where
  "audit_matched q al =
     sort_key (\<lambda>m. - a_at (fst m)) (sort_key (\<lambda>m. - int (snd m))
       (filter (\<lambda>m. audit_matches q (fst m)) (zip (al_entries al) [0..<length (al_entries al)])))"

definition audit_query :: "audit_query \<Rightarrow> audit_log \<Rightarrow> nat \<times> audit_event list" where
  "audit_query q al =
     (let matched = audit_matched q al;
          offset = (case aq_offset q of None \<Rightarrow> 0 | Some n \<Rightarrow> n);
          limit = (case aq_limit q of None \<Rightarrow> DEFAULT_LIMIT | Some n \<Rightarrow> n)
      in (length matched, map fst (js_slice offset (offset + limit) matched)))"

section \<open>Properties\<close>

lemma shift_while_drop: "shift_while n xs = drop (length xs - n) xs"
proof (induction xs)
  case (Cons x xs)
  show ?case
  proof (cases "length (x # xs) > n")
    case True
    then have "length (x # xs) - n = Suc (length xs - n)" by simp
    then show ?thesis using True Cons.IH by simp
  qed simp
qed simp

lemma audit_record_entries:
  "al_entries (snd (audit_record e i al)) =
     (let xs = al_entries al @ [fst (audit_record e i al)] in drop (length xs - al_maxEntries al) xs)"
  by (simp add: audit_record_def Let_def shift_while_drop)

fun audit_all :: "(env \<times> audit_input) list \<Rightarrow> audit_log \<Rightarrow> audit_event list \<times> audit_log" where
  "audit_all [] al = ([], al)"
| "audit_all ((e, i) # rest) al =
     (let (ev, log1) = audit_record e i al; (evs, log2) = audit_all rest log1 in (ev # evs, log2))"

lemma audit_max [simp]: "al_maxEntries (snd (audit_record e i al)) = al_maxEntries al"
  by (simp add: audit_record_def Let_def)

lemma drop_last_append: "length xs \<le> n \<Longrightarrow>
  (let ys = drop (length (xs @ [x]) - n) (xs @ [x]) in drop (length (ys @ zs) - n) (ys @ zs)) =
  drop (length (xs @ x # zs) - n) (xs @ x # zs)"
proof -
  assume l: "length xs \<le> n"
  define k where "k = length (xs @ [x]) - n"
  have "drop k (xs @ x # zs) = drop k (xs @ [x]) @ zs" using l by (cases n) (simp_all add: k_def drop_append)
  moreover have "drop (length (xs @ x # zs) - n) (xs @ x # zs) =
      drop (length (drop k (xs @ x # zs)) - n) (drop k (xs @ x # zs))"
  proof -
    have "length (xs @ x # zs) - n = (length (xs @ x # zs) - k - n) + k" by (auto simp: k_def)
    then show ?thesis by (simp only: length_drop drop_drop)
  qed
  ultimately show ?thesis by (simp add: k_def Let_def)
qed

text \<open>
  The log is append-only and bounded. Recording any sequence of events keeps exactly the newest
  \<open>maxEntries\<close> of all that were recorded, in the order they were recorded and unchanged; only the oldest
  are ever dropped, and none before the bound is reached.
\<close>

theorem audit_append_only:
  assumes "length (al_entries al) \<le> al_maxEntries al"
  shows "let (evs, al') = audit_all inputs al; all = al_entries al @ evs in
    al_entries al' = drop (length all - al_maxEntries al) all \<and>
    length (al_entries al') = min (al_maxEntries al) (length all) \<and>
    map a_action evs = map (\<lambda>(e, i). ai_action i) inputs \<and> map a_metadata evs = map (\<lambda>(e, i). ai_metadata i) inputs"
proof -
  have "al_entries (snd (audit_all inputs al)) =
      drop (length (al_entries al @ fst (audit_all inputs al)) - al_maxEntries al) (al_entries al @ fst (audit_all inputs al)) \<and>
    map a_action (fst (audit_all inputs al)) = map (\<lambda>(e, i). ai_action i) inputs \<and>
    map a_metadata (fst (audit_all inputs al)) = map (\<lambda>(e, i). ai_metadata i) inputs"
    using assms
  proof (induction inputs arbitrary: al)
    case (Cons x inputs)
    obtain e i where x: "x = (e, i)" by fastforce
    let ?ev = "fst (audit_record e i al)" and ?al = "snd (audit_record e i al)"
    have ent: "al_entries ?al = drop (length (al_entries al @ [?ev]) - al_maxEntries al) (al_entries al @ [?ev])"
      using audit_record_entries[of e i al] by (simp add: Let_def)
    have "length (al_entries ?al) \<le> al_maxEntries ?al" by (simp add: ent)
    note IH = Cons.IH[OF this]
    have "a_action ?ev = ai_action i" "a_metadata ?ev = ai_metadata i" by (simp_all add: audit_record_def Let_def)
    with IH show ?case
      using drop_last_append[OF Cons.prems, of ?ev "fst (audit_all inputs ?al)"]
      by (simp add: x split_beta Let_def ent)
  qed simp
  then show ?thesis by (simp add: split_beta Let_def)
qed

theorem audit_append_only_witness:
  "let i = (\<lambda>a. \<lparr>ai_action = a, ai_actor = None, ai_subjectId = None, ai_metadata = None, ai_at = None\<rparr>);
       (evs, al') = audit_all [(env_at 1, i ''a''), (env_at 2, i ''b''), (env_at 3, i ''c'')] (new_audit_log 2)
   in map a_action (al_entries al') = [''b'', ''c''] \<and> length (al_entries al') = min 2 3"
  using audit_append_only[of "new_audit_log 2"
      "map (\<lambda>(t, a). (env_at t, \<lparr>ai_action = a, ai_actor = None, ai_subjectId = None, ai_metadata = None, ai_at = None\<rparr>))
         [(1, ''a''), (2, ''b''), (3, ''c'')]"]
  by (simp add: new_audit_log_def audit_record_def Let_def split_beta)

lemma sort_key_stable_index:
  assumes "sorted (map f xs)" "distinct (map f xs)"
  shows "sorted_wrt (\<lambda>a b. g a < g b \<or> (g a = g b \<and> f a < (f b :: int))) (sort_key (g :: 'a \<Rightarrow> int) xs)"
proof -
  have sw: "sorted_wrt (\<lambda>a b. f a < f b) xs"
    using assms by (simp add: sorted_wrt_map[symmetric] strict_sorted_iff flip: sorted_wrt_map)
  let ?ys = "sort_key g xs"
  have stable: "filter (\<lambda>x. g x = k) ?ys = filter (\<lambda>x. g x = k) xs" for k
    by (rule sort_key_stable)
  show ?thesis unfolding sorted_wrt_iff_nth_less
  proof (intro allI impI)
    fix i j assume ij: "i < j" "j < length ?ys"
    have le: "g (?ys ! i) \<le> g (?ys ! j)"
      using ij sorted_nth_mono[of "map g ?ys" i j] by simp
    show "g (?ys ! i) < g (?ys ! j) \<or> (g (?ys ! i) = g (?ys ! j) \<and> f (?ys ! i) < f (?ys ! j))"
    proof (cases "g (?ys ! i) = g (?ys ! j)")
      case True
      have sp: "?ys = take i ?ys @ ?ys ! i # drop (Suc i) ?ys" using ij by (simp add: id_take_nth_drop)
      have "?ys ! j = drop (Suc i) ?ys ! (j - Suc i)" using ij by simp
      then have "?ys ! j \<in> set (drop (Suc i) ?ys)" using ij by (metis Suc_leI diff_less_mono length_drop nth_mem)
      then have m: "?ys ! j \<in> set (filter (\<lambda>x. g x = g (?ys ! i)) (drop (Suc i) ?ys))" using True by simp
      have "sorted_wrt (\<lambda>a b. f a < f b) (filter (\<lambda>x. g x = g (?ys ! i)) ?ys)"
        unfolding stable by (rule sorted_wrt_filter[OF sw])
      then have "sorted_wrt (\<lambda>a b. f a < f b) (filter (\<lambda>x. g x = g (?ys ! i)) (take i ?ys) @
          ?ys ! i # filter (\<lambda>x. g x = g (?ys ! i)) (drop (Suc i) ?ys))"
        by (subst (asm) (2) sp) simp
      then show ?thesis using m True by (simp add: sorted_wrt_append)
    qed (use le in simp)
  qed
qed

text \<open>
  A query finds the matching events, newest first. The total counts the matching entries; the page is
  the requested part of all of them in descending order of time, and of recording among equal times.
\<close>

theorem audit_query_newest_first:
  "\<exists>all. audit_query q al = (length all, map fst (take (case aq_limit q of None \<Rightarrow> 50 | Some n \<Rightarrow> n)
       (drop (case aq_offset q of None \<Rightarrow> 0 | Some n \<Rightarrow> n) all))) \<and>
     set all = {(al_entries al ! i, i) | i. i < length (al_entries al) \<and> audit_matches q (al_entries al ! i)} \<and>
     sorted_wrt (\<lambda>(a, i) (b, j). a_at b < a_at a \<or> (a_at a = a_at b \<and> j < i)) all"
proof (intro exI[of _ "audit_matched q al"] conjI)
  let ?xs = "filter (\<lambda>m. audit_matches q (fst m)) (zip (al_entries al) [0..<length (al_entries al)])"
  let ?ys = "sort_key (\<lambda>m. - int (snd m)) ?xs"
  show "audit_query q al = (length (audit_matched q al), map fst (take (case aq_limit q of None \<Rightarrow> 50 | Some n \<Rightarrow> n)
      (drop (case aq_offset q of None \<Rightarrow> 0 | Some n \<Rightarrow> n) (audit_matched q al))))"
    unfolding audit_query_def Let_def DEFAULT_LIMIT_def js_slice_page ..
  show "set (audit_matched q al) =
      {(al_entries al ! i, i) | i. i < length (al_entries al) \<and> audit_matches q (al_entries al ! i)}"
    by (auto simp: audit_matched_def set_zip)
  have "distinct (map snd (zip (al_entries al) [0..<length (al_entries al)]))" by simp
  then have "inj_on snd (set (zip (al_entries al) [0..<length (al_entries al)]))" unfolding distinct_map by blast
  then have "inj_on snd (set ?xs)" by (rule inj_on_subset) auto
  moreover have "distinct ?xs" by (simp add: distinct_zipI2)
  ultimately have d: "distinct (map (\<lambda>m. - int (snd m)) ?ys)" by (auto simp: distinct_map inj_on_def)
  have eq: "(\<lambda>(a, i) (b, j). a_at b < a_at a \<or> (a_at a = a_at b \<and> j < i)) =
      (\<lambda>m n :: audit_event \<times> nat. - a_at (fst m) < - a_at (fst n) \<or>
        (- a_at (fst m) = - a_at (fst n) \<and> - int (snd m) < - int (snd n)))"
    by (auto simp: fun_eq_iff)
  have s: "sorted (map (\<lambda>m. - int (snd m)) ?ys)" by (rule sorted_sort_key)
  show "sorted_wrt (\<lambda>(a, i) (b, j). a_at b < a_at a \<or> (a_at a = a_at b \<and> j < i)) (audit_matched q al)"
    unfolding eq audit_matched_def by (rule sort_key_stable_index[OF s d])
qed

end
