(* ===== verification/Webhooks.thy ===== *)
theory Webhooks
  imports Json Repository Usdt
begin

text \<open>
  \<^verbatim>\<open>src/webhooks/outbound.ts\<close> (delivery store, dispatcher with retries and dead letters),
  \<^verbatim>\<open>src/webhooks/webhookWatcher.ts\<close> and \<^verbatim>\<open>src/webhooks/verify.ts\<close>. \<open>request\<close> is the HTTP client and
  \<open>hmac\<close> is Node's \<open>createHmac('sha256', key).update(data).digest('hex')\<close>, both arguments.
\<close>

section \<open>Deliveries and their store\<close>

datatype event_type = Ev_order_fulfilled | Ev_order_refunded | Ev_refund_updated | Ev_reconciliation_alert

fun event_type_name :: "event_type \<Rightarrow> string" where
  "event_type_name Ev_order_fulfilled = ''order.fulfilled''"
| "event_type_name Ev_order_refunded = ''order.refunded''"
| "event_type_name Ev_refund_updated = ''refund.updated''"
| "event_type_name Ev_reconciliation_alert = ''reconciliation.alert''"

record outbound_event =
  oe_id :: string
  oe_type :: event_type
  oe_payload :: json
  oe_createdAt :: int

datatype delivery_status = D_pending | D_delivered | D_dead

record webhook_delivery =
  wd_id :: string
  wd_event :: outbound_event
  wd_url :: string
  wd_status :: delivery_status
  wd_attempts :: int
  wd_nextAttemptAt :: int
  wd_lastError :: "string option"
  wd_lastStatus :: "int option"
  wd_createdAt :: int
  wd_updatedAt :: int
  wd_deliveredAt :: "int option"

record webhook_store =
  wh_byId :: "(string, webhook_delivery) jsmap"
  wh_order :: "string list"

definition empty_webhook_store :: webhook_store where
  "empty_webhook_store = \<lparr>wh_byId = [], wh_order = []\<rparr>"

definition webhook_create :: "webhook_delivery \<Rightarrow> webhook_store \<Rightarrow> webhook_store result" where
  "webhook_create d st = Inr (st\<lparr>wh_byId := jm_set (wd_id d) d (wh_byId st), wh_order := wh_order st @ [wd_id d]\<rparr>)"

definition webhook_update :: "webhook_delivery \<Rightarrow> webhook_store \<Rightarrow> webhook_store result" where
  "webhook_update d st =
     (if \<not> jm_has (wh_byId st) (wd_id d) then Inl (PlainError (''unknown delivery: '' @ wd_id d))
      else Inr (st\<lparr>wh_byId := jm_set (wd_id d) d (wh_byId st)\<rparr>))"

definition webhook_findById :: "webhook_store \<Rightarrow> string \<Rightarrow> webhook_delivery option" where
  "webhook_findById st i = jm_get (wh_byId st) i"

definition webhook_findDue :: "webhook_store \<Rightarrow> int \<Rightarrow> nat \<Rightarrow> webhook_delivery list" where
  "webhook_findDue st now limit =
     js_slice 0 limit (sort_key wd_nextAttemptAt
       (filter (\<lambda>d. wd_status d = D_pending \<and> wd_nextAttemptAt d \<le> now) (jm_values (wh_byId st))))"

definition webhook_list :: "webhook_store \<Rightarrow> delivery_status option \<Rightarrow> nat \<Rightarrow> nat \<Rightarrow> nat \<times> webhook_delivery list" where
  "webhook_list st status limit offset =
     (let all = rev (filter (\<lambda>d. case status of None \<Rightarrow> True | Some s \<Rightarrow> wd_status d = s)
            (map (\<lambda>i. the (jm_get (wh_byId st) i)) (wh_order st)))
      in (length all, js_slice offset (offset + limit) all))"

text \<open>The order list names exactly the stored deliveries, each once.\<close>

definition webhook_store_wf :: "webhook_store \<Rightarrow> bool" where
  "webhook_store_wf st \<longleftrightarrow> keyed wd_id (wh_byId st) \<and> distinct (wh_order st) \<and>
     set (wh_order st) = set (jm_keys (wh_byId st))"

lemma webhook_store_wf_empty [simp]: "webhook_store_wf empty_webhook_store"
  by (simp add: webhook_store_wf_def empty_webhook_store_def)

lemmas webhook_store_defs = webhook_create_def webhook_update_def webhook_findById_def webhook_store_wf_def

definition webhook_all :: "webhook_store \<Rightarrow> webhook_delivery list" where
  "webhook_all st = jm_values (wh_byId st)"

lemma keys_set_in: "k \<in> set (jm_keys m) \<Longrightarrow> set (jm_keys (jm_set k v m)) = set (jm_keys m)"
  by (induction m) auto

lemma keys_set: "set (jm_keys (jm_set k v m)) = insert k (set (jm_keys m))"
  by (induction m) auto

interpretation webhook_repo: listed_repository webhook_store_wf webhook_findById webhook_create webhook_update
  wd_id "\<lambda>d. ()" "\<lambda>x. x" webhook_all
proof (unfold_locales, goal_cases)
  case (1 a s s' k) then show ?case by (auto simp: webhook_create_def webhook_findById_def)
next
  case (2 a s s' k) then show ?case by (auto simp: webhook_update_def webhook_findById_def split: if_splits)
next
  case (3 s a s')
  then have n: "wd_id a \<notin> set (wh_order s)" "wd_id a \<notin> set (jm_keys (wh_byId s))"
    unfolding webhook_store_wf_def webhook_findById_def jm_get_None by simp_all
  have s': "s' = s\<lparr>wh_byId := jm_set (wd_id a) a (wh_byId s), wh_order := wh_order s @ [wd_id a]\<rparr>"
    using 3(4) by (simp add: webhook_create_def)
  show ?case using 3(1,2) n unfolding s' webhook_store_wf_def by (simp add: keyed_set keys_set del: set_map)
next
  case (4 s a b s')
  then have g: "jm_get (wh_byId s) (wd_id a) = Some b" by (simp add: webhook_findById_def)
  then have "wd_id a \<noteq> []" using keyedD[OF _ g, of wd_id] 4(1) by (simp add: webhook_store_wf_def)
  moreover have "wd_id a \<in> set (jm_keys (wh_byId s))" using g jm_get_None[of "wh_byId s" "wd_id a"] by fastforce
  moreover have "s' = s\<lparr>wh_byId := jm_set (wd_id a) a (wh_byId s)\<rparr>"
    using 4(4) by (simp add: webhook_update_def split: if_splits)
  ultimately show ?case using 4(1) by (simp add: webhook_store_wf_def keyed_set keys_set_in del: set_map)
next
  case (5 s a b) then show ?case by (simp add: webhook_update_def webhook_findById_def jm_has_def)
next
  case (6 s k a) then show ?case by (auto simp: webhook_findById_def webhook_store_wf_def dest: keyedD)
next
  case 7 show ?case by simp
next
  case (8 s a)
  then show ?case by (simp add: webhook_all_def webhook_findById_def webhook_store_wf_def keyed_values del: set_map)
next
  case (9 s)
  then show ?case by (simp add: webhook_all_def webhook_store_wf_def keyed_distinct del: map_map)
qed

section \<open>Signatures and backoff\<close>

type_synonym hmac = "string \<Rightarrow> string \<Rightarrow> string"

definition signPayload :: "hmac \<Rightarrow> string \<Rightarrow> string \<Rightarrow> string \<Rightarrow> string" where
  "signPayload hmac secret timestamp body = ''sha256='' @ hmac secret (timestamp @ ''.'' @ body)"

definition defaultBackoff :: "int \<Rightarrow> int" where
  "defaultBackoff attempts = (let base = 30000; cap = 3600000 in min cap (base * 2 ^ nat (max 0 (attempts - 1))))"

definition safeEqual :: "string \<Rightarrow> string \<Rightarrow> bool" where
  "safeEqual a b = (if length a \<noteq> length b then False else a = b)"

text \<open>
  The receiver's check. \<open>now() / 1000 - ts\<close> is compared with the tolerance in seconds, here over exact
  rationals.
\<close>

definition verifyWebhookSignature ::
  "hmac \<Rightarrow> string \<Rightarrow> string \<Rightarrow> string \<Rightarrow> string \<Rightarrow> int \<Rightarrow> int \<Rightarrow> bool" where
  "verifyWebhookSignature hmac secret timestamp body signatureHeader toleranceSec now =
     (case js_Number timestamp of
        None \<Rightarrow> False
      | Some ts \<Rightarrow>
          if \<bar>of_int now / 1000 - ts\<bar> > of_int toleranceSec then False
          else safeEqual (signPayload hmac secret timestamp body) signatureHeader)"

section \<open>The dispatcher\<close>

record webhook_config =
  wc_url :: string
  wc_secret :: string
  wc_maxAttempts :: int

type_synonym http_client = "http_request \<Rightarrow> http_response result"

definition webhook_enqueue ::
  "env \<Rightarrow> webhook_config \<Rightarrow> event_type \<Rightarrow> json \<Rightarrow> webhook_store \<Rightarrow> webhook_delivery \<times> webhook_store" where
  "webhook_enqueue e cfg ty payload st =
     (let now = now_at e 0;
          delivery = \<lparr>wd_id = uuid_at e 0,
            wd_event = \<lparr>oe_id = uuid_at e 1, oe_type = ty, oe_payload = payload, oe_createdAt = now\<rparr>,
            wd_url = wc_url cfg, wd_status = D_pending, wd_attempts = 0, wd_nextAttemptAt = now,
            wd_lastError = None, wd_lastStatus = None, wd_createdAt = now, wd_updatedAt = now, wd_deliveredAt = None\<rparr>
      in (delivery, projr (webhook_create delivery st)))"

definition webhook_emit :: "env \<Rightarrow> webhook_config \<Rightarrow> event_type \<Rightarrow> json \<Rightarrow> webhook_store \<Rightarrow> webhook_store" where
  "webhook_emit e cfg ty payload st = snd (webhook_enqueue e cfg ty payload st)"

definition webhook_fail :: "webhook_config \<Rightarrow> webhook_delivery \<Rightarrow> int \<Rightarrow> int \<Rightarrow> string \<Rightarrow> int option \<Rightarrow> webhook_delivery" where
  "webhook_fail cfg d attempts now err lastStatus =
     (let dead = attempts \<ge> wc_maxAttempts cfg
      in d\<lparr>wd_status := (if dead then D_dead else D_pending),
           wd_attempts := attempts,
           wd_lastError := Some err,
           wd_lastStatus := lastStatus,
           wd_nextAttemptAt := (if dead then wd_nextAttemptAt d else now + defaultBackoff attempts),
           wd_updatedAt := now\<rparr>)"

definition webhook_body :: "outbound_event \<Rightarrow> string" where
  "webhook_body ev = json_text (JObj [(''id'', JStr (oe_id ev)), (''type'', JStr (event_type_name (oe_type ev))),
     (''createdAt'', JNum (oe_createdAt ev)), (''data'', oe_payload ev)])"

definition webhook_request :: "hmac \<Rightarrow> webhook_config \<Rightarrow> int \<Rightarrow> webhook_delivery \<Rightarrow> http_request" where
  "webhook_request hmac cfg now d =
     (let body = webhook_body (wd_event d); timestamp = string_of_int now
      in \<lparr>hq_method = ''POST'', hq_url = wd_url d,
          hq_headers = [(''Content-Type'', ''application/json''), (''X-Webhook-Id'', oe_id (wd_event d)),
            (''X-Webhook-Event'', event_type_name (oe_type (wd_event d))), (''X-Webhook-Timestamp'', timestamp),
            (''X-Webhook-Signature'', signPayload hmac (wc_secret cfg) timestamp body)],
          hq_body = Some body\<rparr>)"

text \<open>The delivery as it is stored after one attempt, and the attempt itself.\<close>

definition attempted :: "hmac \<Rightarrow> webhook_config \<Rightarrow> http_client \<Rightarrow> int \<Rightarrow> webhook_delivery \<Rightarrow> webhook_delivery" where
  "attempted hmac cfg request now d =
     (let attempts = wd_attempts d + 1
      in case request (webhook_request hmac cfg now d) of
           Inr res \<Rightarrow>
             if hs_status res \<ge> 200 \<and> hs_status res < 300 then
               d\<lparr>wd_status := D_delivered, wd_attempts := attempts, wd_lastStatus := Some (hs_status res),
                 wd_deliveredAt := Some now, wd_updatedAt := now, wd_lastError := None\<rparr>
             else webhook_fail cfg d attempts now (''HTTP '' @ string_of_int (hs_status res)) (Some (hs_status res))
         | Inl err \<Rightarrow> webhook_fail cfg d attempts now (error_message err) None)"

definition webhook_deliver ::
  "env \<Rightarrow> hmac \<Rightarrow> webhook_config \<Rightarrow> http_client \<Rightarrow> webhook_delivery \<Rightarrow> webhook_store \<Rightarrow>
   webhook_delivery result \<times> webhook_store" where
  "webhook_deliver e hmac cfg request d st =
     (let d' = attempted hmac cfg request (now_at e 0) d
      in case webhook_update d' st of Inl err \<Rightarrow> (Inl err, st) | Inr st' \<Rightarrow> (Inr d', st'))"

record process_counts =
  pc_delivered :: nat
  pc_retried :: nat
  pc_dead :: nat

fun process_loop ::
  "env \<Rightarrow> hmac \<Rightarrow> webhook_config \<Rightarrow> (nat \<Rightarrow> http_client) \<Rightarrow> nat \<Rightarrow> webhook_delivery list \<Rightarrow> process_counts \<Rightarrow>
   webhook_store \<Rightarrow> process_counts result \<times> webhook_store" where
  "process_loop e hmac cfg request i [] n st = (Inr n, st)"
| "process_loop e hmac cfg request i (d # ds) n st =
     (case webhook_deliver (env_from (1 + i) e) hmac cfg (request i) d st of
        (Inl err, st1) \<Rightarrow> (Inl err, st1)
      | (Inr r, st1) \<Rightarrow> process_loop e hmac cfg request (i + 1) ds
          (if wd_status r = D_delivered then n\<lparr>pc_delivered := pc_delivered n + 1\<rparr>
           else if wd_status r = D_dead then n\<lparr>pc_dead := pc_dead n + 1\<rparr>
           else n\<lparr>pc_retried := pc_retried n + 1\<rparr>) st1)"

definition webhook_processDue ::
  "env \<Rightarrow> hmac \<Rightarrow> webhook_config \<Rightarrow> (nat \<Rightarrow> http_client) \<Rightarrow> nat \<Rightarrow> webhook_store \<Rightarrow> process_counts result \<times> webhook_store" where
  "webhook_processDue e hmac cfg request limit st =
     process_loop e hmac cfg request 0 (webhook_findDue st (now_at e 0) limit)
       \<lparr>pc_delivered = 0, pc_retried = 0, pc_dead = 0\<rparr> st"

definition webhook_retry :: "env \<Rightarrow> string \<Rightarrow> webhook_store \<Rightarrow> webhook_delivery result \<times> webhook_store" where
  "webhook_retry e i st =
     (case webhook_findById st i of
        None \<Rightarrow> (Inl (PlainError (''unknown delivery: '' @ i)), st)
      | Some d \<Rightarrow>
          let now = now_at e 0; d' = d\<lparr>wd_status := D_pending, wd_nextAttemptAt := now, wd_updatedAt := now\<rparr>
          in (case webhook_update d' st of Inl err \<Rightarrow> (Inl err, st) | Inr st' \<Rightarrow> (Inr d', st')))"

definition deadLetterSummary :: "webhook_store \<Rightarrow> nat \<Rightarrow> nat \<times> string list" where
  "deadLetterSummary st sampleSize =
     (let (total, items) = webhook_list st (Some D_dead) sampleSize 0 in (total, map wd_id items))"

section \<open>Retries and dead letters\<close>

lemma defaultBackoff_bounds: "30000 \<le> defaultBackoff n \<and> defaultBackoff n \<le> 3600000"
proof -
  have "(1::int) \<le> 2 ^ nat (max 0 (n - 1))" by simp
  then show ?thesis by (simp add: defaultBackoff_def Let_def)
qed

lemma defaultBackoff_mono: "m \<le> n \<Longrightarrow> defaultBackoff m \<le> defaultBackoff n"
proof -
  assume "m \<le> n"
  then have "(2::int) ^ nat (max 0 (m - 1)) \<le> 2 ^ nat (max 0 (n - 1))" by (intro power_increasing) auto
  then show ?thesis unfolding defaultBackoff_def Let_def by (intro min.mono) simp_all
qed

definition answers_ok :: "http_response result \<Rightarrow> bool" where
  "answers_ok r = (case r of Inl _ \<Rightarrow> False | Inr res \<Rightarrow> 200 \<le> hs_status res \<and> hs_status res < 300)"

lemma attempted_cases:
  "attempted hmac cfg request now d =
     (let r = request (webhook_request hmac cfg now d) in
      if answers_ok r then d\<lparr>wd_status := D_delivered, wd_attempts := wd_attempts d + 1,
           wd_lastStatus := Some (hs_status (projr r)), wd_deliveredAt := Some now, wd_updatedAt := now, wd_lastError := None\<rparr>
      else webhook_fail cfg d (wd_attempts d + 1) now
        (case r of Inl err \<Rightarrow> error_message err | Inr res \<Rightarrow> ''HTTP '' @ string_of_int (hs_status res))
        (case r of Inl err \<Rightarrow> None | Inr res \<Rightarrow> Some (hs_status res)))"
  by (cases "request (webhook_request hmac cfg now d)") (auto simp: attempted_def answers_ok_def Let_def)

lemma attempted_props:
  "wd_id (attempted hmac cfg request now d) = wd_id d"
  "wd_event (attempted hmac cfg request now d) = wd_event d"
  "wd_url (attempted hmac cfg request now d) = wd_url d"
  "wd_attempts (attempted hmac cfg request now d) = wd_attempts d + 1"
  "wd_status (attempted hmac cfg request now d) =
     (if answers_ok (request (webhook_request hmac cfg now d)) then D_delivered
      else if wd_attempts d + 1 \<ge> wc_maxAttempts cfg then D_dead else D_pending)"
  by (simp_all add: attempted_cases webhook_fail_def Let_def)

lemma attempted_next:
  "wd_status (attempted hmac cfg request now d) = D_pending \<Longrightarrow>
     wd_nextAttemptAt (attempted hmac cfg request now d) = now + defaultBackoff (wd_attempts d + 1)"
  by (auto simp: attempted_cases webhook_fail_def Let_def split: if_splits)

text \<open>One delivery tried again and again: at each time, with what the endpoint answers then.\<close>

fun attempt_all :: "hmac \<Rightarrow> webhook_config \<Rightarrow> (int \<times> http_client) list \<Rightarrow> webhook_delivery \<Rightarrow> webhook_delivery" where
  "attempt_all hmac cfg [] d = d"
| "attempt_all hmac cfg ((now, request) # rest) d = attempt_all hmac cfg rest (attempted hmac cfg request now d)"

lemma attempt_all_event: "wd_event (attempt_all hmac cfg tries d) = wd_event d \<and> wd_id (attempt_all hmac cfg tries d) = wd_id d \<and>
    wd_attempts (attempt_all hmac cfg tries d) = wd_attempts d + int (length tries)"
  by (induction hmac cfg tries d rule: attempt_all.induct) (auto simp: attempted_props)

lemma attempt_all_snoc:
  "attempt_all hmac cfg (tries @ [(now, request)]) d = attempted hmac cfg request now (attempt_all hmac cfg tries d)"
  by (induction hmac cfg tries d rule: attempt_all.induct) simp_all

text \<open>
  C19: An event is retried until it is delivered or dead. Whatever the endpoint answered before, the
  \<open>n\<close>-th attempt at a delivery leaves it delivered when the endpoint answers 2xx; otherwise it stays
  pending while \<open>n\<close> is below the maximum, due again after 30 seconds at least and one hour at most, and
  is dead from the maximum on; the event itself and the count of attempts are never lost.
\<close>

theorem webhook_retry_schedule:
  assumes "wd_attempts d = 0" "tries = before @ [(now, request)]"
  shows "let d' = attempt_all hmac cfg tries d; n = int (length tries);
      ok = answers_ok (request (webhook_request hmac cfg now (attempt_all hmac cfg before d))) in
    wd_event d' = wd_event d \<and> wd_attempts d' = n \<and>
    wd_status d' = (if ok then D_delivered else if n < wc_maxAttempts cfg then D_pending else D_dead) \<and>
    (wd_status d' = D_pending \<longrightarrow> now + 30000 \<le> wd_nextAttemptAt d' \<and> wd_nextAttemptAt d' \<le> now + 3600000)"
proof -
  let ?b = "attempt_all hmac cfg before d"
  note E = attempt_all_event[of hmac cfg before d] and T = attempt_all_event[of hmac cfg tries d]
  have eq: "attempt_all hmac cfg tries d = attempted hmac cfg request now ?b" by (simp add: assms(2) attempt_all_snoc)
  have n: "wd_attempts ?b + 1 = int (length tries)" using E assms by simp
  have "wd_status (attempted hmac cfg request now ?b) = D_pending \<Longrightarrow>
     now + 30000 \<le> wd_nextAttemptAt (attempted hmac cfg request now ?b) \<and>
     wd_nextAttemptAt (attempted hmac cfg request now ?b) \<le> now + 3600000"
    using defaultBackoff_bounds by (simp add: attempted_next)
  then show ?thesis using T assms(1) unfolding Let_def eq by (simp add: attempted_props(5) n not_le)
qed

definition demo_webhook_config :: webhook_config where
  "demo_webhook_config = \<lparr>wc_url = ''https://m'', wc_secret = ''k'', wc_maxAttempts = 3\<rparr>"

definition demo_delivery :: webhook_delivery where
  "demo_delivery = fst (webhook_enqueue (env_at 1000) demo_webhook_config Ev_refund_updated JNull empty_webhook_store)"

definition answer :: "int \<Rightarrow> http_client" where
  "answer code = (\<lambda>_. Inr \<lparr>hs_status = code, hs_body = []\<rparr>)"

theorem webhook_retry_schedule_witness:
  "let tries = [(1000, answer 500), (40000, answer 503), (200000, answer 404)];
       d' = attempt_all (\<lambda>k x. x) demo_webhook_config tries demo_delivery
   in wd_status d' = D_dead \<and> wd_attempts d' = 3 \<and> wd_event d' = wd_event demo_delivery"
proof -
  have "wd_attempts demo_delivery = 0" by (simp add: demo_delivery_def webhook_enqueue_def Let_def)
  from webhook_retry_schedule[OF this, of _ "[(1000, answer 500), (40000, answer 503)]" 200000 "answer 404" "\<lambda>k x. x"
      demo_webhook_config, OF refl]
  show ?thesis by (simp add: Let_def answers_ok_def answer_def demo_webhook_config_def)
qed

section \<open>A round of the worker\<close>

definition deliveries_due :: "webhook_store \<Rightarrow> int \<Rightarrow> webhook_delivery list" where
  "deliveries_due st now = sort_key wd_nextAttemptAt (filter (\<lambda>d. wd_status d = D_pending \<and> wd_nextAttemptAt d \<le> now) (webhook_all st))"

lemma findDue_eq: "webhook_findDue st now limit = take limit (deliveries_due st now)"
  by (simp add: webhook_findDue_def deliveries_due_def webhook_all_def js_slice_def)

lemma deliveries_due_iff:
  "webhook_store_wf st \<Longrightarrow> (d \<in> set (deliveries_due st now)) =
     (webhook_findById st (wd_id d) = Some d \<and> wd_status d = D_pending \<and> wd_nextAttemptAt d \<le> now)"
  using webhook_repo.listing_iff[of st d] by (auto simp: deliveries_due_def)

lemma deliveries_due_distinct: "webhook_store_wf st \<Longrightarrow> distinct (map wd_id (take n (deliveries_due st now)))"
  using webhook_repo.distinct_listing[of st]
  by (auto simp: deliveries_due_def distinct_map inj_on_def simp flip: take_map dest!: in_set_takeD)

definition attempted_at :: "env \<Rightarrow> hmac \<Rightarrow> webhook_config \<Rightarrow> (nat \<Rightarrow> http_client) \<Rightarrow> nat \<Rightarrow> webhook_delivery \<Rightarrow> webhook_delivery" where
  "attempted_at e hmac cfg request i d = attempted hmac cfg (request i) (now_at e (1 + i)) d"

definition count_status :: "delivery_status \<Rightarrow> webhook_delivery list \<Rightarrow> nat" where
  "count_status s ds = length (filter (\<lambda>d. wd_status d = s) ds)"

fun attempts_from :: "env \<Rightarrow> hmac \<Rightarrow> webhook_config \<Rightarrow> (nat \<Rightarrow> http_client) \<Rightarrow> nat \<Rightarrow> webhook_delivery list \<Rightarrow> webhook_delivery list" where
  "attempts_from e hmac cfg request i [] = []"
| "attempts_from e hmac cfg request i (d # ds) = attempted_at e hmac cfg request i d # attempts_from e hmac cfg request (i + 1) ds"

lemma attempts_from_nth:
  "length (attempts_from e hmac cfg request i ds) = length ds"
  "k < length ds \<Longrightarrow> attempts_from e hmac cfg request i ds ! k = attempted_at e hmac cfg request (i + k) (ds ! k)"
  "map wd_id (attempts_from e hmac cfg request i ds) = map wd_id ds"
  by (induction ds arbitrary: i k) (auto simp: nth_Cons attempted_at_def attempted_props split: nat.split)

lemma process_loop_eq:
  assumes "\<forall>d \<in> set ds. webhook_findById st (wd_id d) \<noteq> None"
  shows "process_loop e hmac cfg request i ds n st =
    (let rs = attempts_from e hmac cfg request i ds in
     (Inr \<lparr>pc_delivered = pc_delivered n + count_status D_delivered rs, pc_retried = pc_retried n + count_status D_pending rs,
           pc_dead = pc_dead n + count_status D_dead rs\<rparr>, update_all webhook_update rs st))"
  using assms
proof (induction ds arbitrary: i n st)
  case (Cons d ds)
  let ?d = "attempted_at e hmac cfg request i d"
  have id: "wd_id ?d = wd_id d" by (simp add: attempted_at_def attempted_props)
  obtain st1 where up: "webhook_update ?d st = Inr st1"
    using Cons.prems by (auto simp: webhook_update_def webhook_findById_def jm_has_def id)
  have "webhook_deliver (env_from (1 + i) e) hmac cfg (request i) d st = (Inr ?d, st1)"
    using up by (simp add: webhook_deliver_def attempted_at_def Let_def)
  moreover have "\<forall>d \<in> set ds. webhook_findById st1 (wd_id d) \<noteq> None"
    using Cons.prems webhook_repo.update_find[OF up] by simp
  note IH = Cons.IH[OF this]
  ultimately show ?case
    using up by (cases "wd_status ?d") (simp_all add: IH Let_def count_status_def)
qed (simp add: count_status_def)

text \<open>
  A worker's round. It attempts the due deliveries, the longest due first, at most \<open>limit\<close> of them,
  each exactly once; it never fails and its counts add up to their number; every other delivery stays
  as it is, and no delivery leaves the store.
\<close>

theorem webhook_round_exact:
  assumes "webhook_store_wf st"
  shows "let due = take limit (deliveries_due st (now_at e 0));
      (r, st') = webhook_processDue e hmac cfg request limit st in
    (\<exists>n. r = Inr n \<and> pc_delivered n + pc_retried n + pc_dead n = length due) \<and> webhook_store_wf st' \<and>
    (\<forall>k < length due. webhook_findById st' (wd_id (due ! k)) =
       Some (attempted hmac cfg (request k) (now_at e (1 + k)) (due ! k))) \<and>
    (\<forall>i. i \<notin> wd_id ` set due \<longrightarrow> webhook_findById st' i = webhook_findById st i)"
proof -
  define due where "due = take limit (deliveries_due st (now_at e 0))"
  define rs where "rs = attempts_from e hmac cfg request 0 due"
  have stored: "\<forall>d \<in> set due. webhook_findById st (wd_id d) = Some d"
    using deliveries_due_iff[OF assms] by (auto simp: due_def dest: in_set_takeD)
  have d: "distinct (map wd_id rs)"
    unfolding rs_def attempts_from_nth(3) due_def by (rule deliveries_due_distinct[OF assms])
  have run: "webhook_processDue e hmac cfg request limit st =
      (Inr \<lparr>pc_delivered = count_status D_delivered rs, pc_retried = count_status D_pending rs,
            pc_dead = count_status D_dead rs\<rparr>, update_all webhook_update rs st)"
    using stored process_loop_eq[of due st e hmac cfg request 0] by (simp add: webhook_processDue_def findDue_eq rs_def Let_def flip: due_def)
  have "\<forall>b \<in> set rs. \<exists>a. webhook_findById st (wd_id b) = Some a \<and> () = ()"
  proof
    fix b assume "b \<in> set rs"
    then have "wd_id b \<in> set (map wd_id due)" unfolding rs_def using attempts_from_nth(3) by (metis image_eqI set_map)
    then show "\<exists>a. webhook_findById st (wd_id b) = Some a \<and> () = ()" using stored by auto
  qed
  note U = webhook_repo.update_all_find[OF assms this d]
  have "webhook_findById (update_all webhook_update rs st) (wd_id (due ! k)) =
      Some (attempted hmac cfg (request k) (now_at e (1 + k)) (due ! k))" if k: "k < length due" for k
  proof -
    have len: "length rs = length due" by (simp add: rs_def attempts_from_nth(1))
    have "rs ! k \<in> set rs" using k len by (intro nth_mem) simp
    moreover have "wd_id (rs ! k) = wd_id (due ! k)"
      using k attempts_from_nth(2)[of k due e hmac cfg request 0] by (simp add: rs_def attempted_at_def attempted_props)
    ultimately have "rs ! k \<in> set rs \<and> wd_id (rs ! k) = wd_id (due ! k)" by simp
    then have "map_of (map (\<lambda>b. (wd_id b, b)) rs) (wd_id (due ! k)) = Some (rs ! k)"
      using d by (intro map_of_is_SomeI) (auto simp: comp_def intro: rev_image_eqI)
    then show ?thesis using U k attempts_from_nth(2)[of k due e hmac cfg request 0] by (simp add: rs_def attempted_at_def)
  qed
  moreover have "webhook_findById (update_all webhook_update rs st) i = webhook_findById st i" if "i \<notin> wd_id ` set due" for i
  proof -
    have "i \<notin> set (map wd_id rs)" using that unfolding rs_def attempts_from_nth(3) by simp
    then have "map_of (map (\<lambda>b. (wd_id b, b)) rs) i = None" by (auto simp: map_of_eq_None_iff)
    then show ?thesis using U by simp
  qed
  moreover have "count_status D_delivered rs + count_status D_pending rs + count_status D_dead rs = length due"
  proof -
    have "count_status D_delivered xs + count_status D_pending xs + count_status D_dead xs = length xs" for xs
    proof (induction xs)
      case (Cons x xs) then show ?case by (cases "wd_status x") (auto simp: count_status_def)
    qed (simp add: count_status_def)
    then show ?thesis using attempts_from_nth(1) by (metis rs_def)
  qed
  ultimately show ?thesis using U unfolding due_def[symmetric] run Let_def by auto
qed

definition demo_webhook_store :: webhook_store where
  "demo_webhook_store = snd (webhook_enqueue (env_at 1000) demo_webhook_config Ev_refund_updated JNull empty_webhook_store)"

lemma demo_webhook_store_eq: "demo_webhook_store = \<lparr>wh_byId = [(''id-'', demo_delivery)], wh_order = [''id-'']\<rparr>"
  by (simp add: demo_webhook_store_def demo_delivery_def webhook_enqueue_def webhook_create_def empty_webhook_store_def Let_def)

lemma demo_webhook_store_wf: "webhook_store_wf demo_webhook_store"
  unfolding demo_webhook_store_def webhook_enqueue_def Let_def snd_conv
  by (rule webhook_repo.create_valid_projr[OF webhook_store_wf_empty])
    (simp_all add: webhook_create_def webhook_findById_def empty_webhook_store_def)

theorem webhook_round_exact_witness:
  "let (r, st') = webhook_processDue (env_at 1000) (\<lambda>k x. x) demo_webhook_config (\<lambda>i. answer 200) 50 demo_webhook_store in
     r = Inr \<lparr>pc_delivered = 1, pc_retried = 0, pc_dead = 0\<rparr> \<and> webhook_store_wf st' \<and>
     map_option wd_status (webhook_findById st' ''id-'') = Some D_delivered"
proof -
  have d: "deliveries_due demo_webhook_store 1000 = [demo_delivery]" "wd_id demo_delivery = ''id-''"
    "wd_status demo_delivery = D_pending" "wd_nextAttemptAt demo_delivery = 1000"
    by (simp_all add: deliveries_due_def webhook_all_def demo_webhook_store_eq)
      (simp_all add: demo_delivery_def webhook_enqueue_def Let_def)
  have r: "fst (webhook_processDue (env_at 1000) (\<lambda>k x. x) demo_webhook_config (\<lambda>i. answer 200) 50 demo_webhook_store) =
      Inr \<lparr>pc_delivered = 1, pc_retried = 0, pc_dead = 0\<rparr>"
    unfolding webhook_processDue_def findDue_eq env_at_simps d(1)
    by (simp add: d(2) webhook_deliver_def Let_def webhook_update_def
        attempted_props answers_ok_def answer_def jm_has_def demo_webhook_store_eq)
  have "wd_status (attempted (\<lambda>k x. x) demo_webhook_config (answer 200) 1000 demo_delivery) = D_delivered"
    by (simp add: attempted_props answers_ok_def answer_def)
  then show ?thesis
    using webhook_round_exact[OF demo_webhook_store_wf, of 50 "env_at 1000" "\<lambda>k x. x" demo_webhook_config "\<lambda>i. answer 200"] r
    by (simp add: d Let_def split_beta)
qed

section \<open>The clocks of sender and receiver\<close>

text \<open>
  C34: the sender's timestamp and the receiver's check disagree on the unit. A delivery carries the clock
  in milliseconds, while the check reads the header as seconds: for every delivery sent later than a
  million seconds (eleven days and a half) after the epoch and checked within a day, the check with its default tolerance answers that the
  signature is stale, although it was made with the receiver's own secret.
\<close>

theorem webhook_timestamp_unit_mismatch:
  fixes sent received :: int
  assumes "1000000000 \<le> sent" "sent \<le> received" "received \<le> sent + 86400000"
  shows "let rq = webhook_request hmac cfg sent d; h = (\<lambda>k. the (jm_get (hq_headers rq) k)) in
    \<not> verifyWebhookSignature hmac (wc_secret cfg) (h ''X-Webhook-Timestamp'') (the (hq_body rq))
        (h ''X-Webhook-Signature'') 300 received"
proof -
  have "js_Number (string_of_int sent) = Some (of_int sent)" using assms(1) by (intro js_Number_of_int) simp
  moreover have "\<bar>of_int received / 1000 - (of_int sent :: rat)\<bar> > 300"
  proof -
    have "(of_int received :: rat) \<le> of_int sent + 86400000" "(1000000000 :: rat) \<le> of_int sent"
      using assms by (metis of_int_add of_int_le_iff of_int_numeral)+
    then show ?thesis by (simp add: field_simps abs_if)
  qed
  ultimately show ?thesis by (simp add: webhook_request_def verifyWebhookSignature_def Let_def)
qed

theorem webhook_timestamp_unit_mismatch_witness:
  "let rq = webhook_request (\<lambda>k x. x) demo_webhook_config 1700000000000 demo_delivery;
       h = (\<lambda>k. the (jm_get (hq_headers rq) k)) in
    \<not> verifyWebhookSignature (\<lambda>k x. x) ''k'' (h ''X-Webhook-Timestamp'') (the (hq_body rq)) (h ''X-Webhook-Signature'') 300 1700000000500"
  using webhook_timestamp_unit_mismatch[of 1700000000000 1700000000500 "\<lambda>k x. x" demo_webhook_config demo_delivery]
  by (simp add: demo_webhook_config_def)

end
