(* ===== verification/Sweep.thy ===== *)
theory Sweep
  imports DepositStores AuditLog
begin

text \<open>
  \<^verbatim>\<open>src/services/sweepService.ts\<close> and \<^verbatim>\<open>src/services/sweepWatcher.ts\<close>: collecting settled deposits
  into the central wallet, one step per due job and round. The treasury
  (\<^verbatim>\<open>src/providers/usdt/tronTreasury.ts\<close>) is a record of functions: what each of its calls returns or
  throws during one step. The code changes the job object in place, also before a later call throws, so
  a step yields the job as it is then, beside the outcome and the stores.
\<close>

record treasury =
  t_trc20BalanceMicro :: "string \<Rightarrow> int result"
  t_trxBalanceSun :: "string \<Rightarrow> int result"
  t_fuelGas :: "string \<Rightarrow> int \<Rightarrow> string result"
  t_sweepTrc20 :: "int \<Rightarrow> string \<Rightarrow> string \<Rightarrow> int \<Rightarrow> string result"
  t_isConfirmed :: "string \<Rightarrow> bool result"
  t_feeBalanceSun :: "int result option"

record sweep_policy =
  sp_collectionAddress :: string
  sp_minSweepMicro :: int
  sp_gasTopupSun :: int
  sp_gasMinSun :: int
  sp_maxAttempts :: int
  sp_backoffMs :: int

text \<open>The job store and the optional audit log.\<close>

record sweep_world =
  sw_jobs :: sweep_store
  sw_audit :: "audit_log option"

section \<open>Enqueue and retry\<close>

definition sweep_enqueue ::
  "env \<Rightarrow> sweep_policy \<Rightarrow> string \<Rightarrow> int \<Rightarrow> string \<Rightarrow> sweep_store \<Rightarrow> sweep_job result \<times> sweep_store" where
  "sweep_enqueue e pol orderId depositIndex depositAddress st =
     (case sweep_findByOrderId st orderId of
        Some existing \<Rightarrow> (Inr existing, st)
      | None \<Rightarrow>
          let now = now_at e 0;
              job = \<lparr>j_id = uuid_at e 0, j_orderId = orderId, j_depositIndex = depositIndex,
                j_depositAddress = depositAddress, j_collectionAddress = sp_collectionAddress pol,
                j_amountMicro = 0, j_status = S_PENDING, j_gasTxId = None, j_sweepTxId = None, j_attempts = 0,
                j_lastError = None, j_createdAt = now, j_updatedAt = now, j_nextAttemptAt = now\<rparr>
          in (case sweep_create job st of Inl err \<Rightarrow> (Inl err, st) | Inr st' \<Rightarrow> (Inr job, st')))"

definition sweep_retry :: "env \<Rightarrow> string \<Rightarrow> sweep_store \<Rightarrow> sweep_job option result \<times> sweep_store" where
  "sweep_retry e orderId st =
     (case sweep_findByOrderId st orderId of
        None \<Rightarrow> (Inr None, st)
      | Some job \<Rightarrow>
          if j_status job \<noteq> S_FAILED then (Inr None, st)
          else let now = now_at e 0;
                   job' = job\<lparr>j_status := S_PENDING, j_attempts := 0, j_lastError := None, j_updatedAt := now,
                     j_nextAttemptAt := now\<rparr>
               in (case sweep_update job' st of Inl err \<Rightarrow> (Inl err, st) | Inr st' \<Rightarrow> (Inr (Some job'), st')))"

section \<open>One step of a job\<close>

definition save_job :: "sweep_job \<Rightarrow> sweep_world \<Rightarrow> unit result \<times> sweep_job \<times> sweep_world" where
  "save_job job w =
     (case sweep_update job (sw_jobs w) of
        Inl err \<Rightarrow> (Inl err, job, w)
      | Inr st \<Rightarrow> (Inr (), job, w\<lparr>sw_jobs := st\<rparr>))"

text \<open>\<open>advance\<close>, \<open>defer\<close> and \<open>finish\<close>; the patch is already applied to the job they get.\<close>

definition sweep_advance :: "env \<Rightarrow> sweep_policy \<Rightarrow> sweep_status \<Rightarrow> sweep_job \<Rightarrow> sweep_world \<Rightarrow>
    unit result \<times> sweep_job \<times> sweep_world" where
  "sweep_advance e pol status job w =
     (let now = now_at e 0
      in save_job (job\<lparr>j_status := status, j_attempts := 0, j_lastError := None, j_updatedAt := now,
           j_nextAttemptAt := now + sp_backoffMs pol\<rparr>) w)"

definition sweep_defer :: "env \<Rightarrow> sweep_policy \<Rightarrow> sweep_job \<Rightarrow> sweep_world \<Rightarrow> unit result \<times> sweep_job \<times> sweep_world" where
  "sweep_defer e pol job w =
     (let now = now_at e 0
      in save_job (job\<lparr>j_updatedAt := now, j_nextAttemptAt := now + sp_backoffMs pol\<rparr>) w)"

definition sweep_finish :: "env \<Rightarrow> sweep_status \<Rightarrow> sweep_job \<Rightarrow> sweep_world \<Rightarrow> unit result \<times> sweep_job \<times> sweep_world" where
  "sweep_finish e status job w =
     (let now = now_at e 0
      in save_job (job\<lparr>j_status := status, j_updatedAt := now, j_nextAttemptAt := now\<rparr>) w)"

definition stepPending :: "env \<Rightarrow> treasury \<Rightarrow> sweep_policy \<Rightarrow> sweep_job \<Rightarrow> sweep_world \<Rightarrow>
    unit result \<times> sweep_job \<times> sweep_world" where
  "stepPending e t pol job w =
     (case t_trc20BalanceMicro t (j_depositAddress job) of
        Inl err \<Rightarrow> (Inl err, job, w)
      | Inr balance \<Rightarrow>
          if balance < sp_minSweepMicro pol then sweep_finish e S_EMPTY (job\<lparr>j_amountMicro := balance\<rparr>) w
          else
            let job1 = job\<lparr>j_amountMicro := balance\<rparr>
            in case t_trxBalanceSun t (j_depositAddress job1) of
                 Inl err \<Rightarrow> (Inl err, job1, w)
               | Inr trx \<Rightarrow>
                   if trx < sp_gasMinSun pol then
                     (case t_fuelGas t (j_depositAddress job1) (sp_gasTopupSun pol) of
                        Inl err \<Rightarrow> (Inl err, job1, w)
                      | Inr gasTxId \<Rightarrow> sweep_advance e pol S_GAS_FUELING
                          (job1\<lparr>j_gasTxId := Some gasTxId, j_amountMicro := balance\<rparr>) w)
                   else
                     (case t_sweepTrc20 t (j_depositIndex job1) (j_depositAddress job1) (j_collectionAddress job1) balance of
                        Inl err \<Rightarrow> (Inl err, job1, w)
                      | Inr sweepTxId \<Rightarrow> sweep_advance e pol S_SWEEPING
                          (job1\<lparr>j_sweepTxId := Some sweepTxId, j_amountMicro := balance\<rparr>) w))"

definition confirmed :: "treasury \<Rightarrow> string option \<Rightarrow> bool result" where
  "confirmed t tx = (if truthy tx then t_isConfirmed t (the tx) else Inr False)"

definition stepGasFueling :: "env \<Rightarrow> treasury \<Rightarrow> sweep_policy \<Rightarrow> sweep_job \<Rightarrow> sweep_world \<Rightarrow>
    unit result \<times> sweep_job \<times> sweep_world" where
  "stepGasFueling e t pol job w =
     (case confirmed t (j_gasTxId job) of
        Inl err \<Rightarrow> (Inl err, job, w)
      | Inr ok \<Rightarrow>
          if \<not> ok then sweep_defer e pol job w
          else (case t_sweepTrc20 t (j_depositIndex job) (j_depositAddress job) (j_collectionAddress job) (j_amountMicro job) of
              Inl err \<Rightarrow> (Inl err, job, w)
            | Inr sweepTxId \<Rightarrow> sweep_advance e pol S_SWEEPING (job\<lparr>j_sweepTxId := Some sweepTxId\<rparr>) w))"

definition stepSweeping :: "env \<Rightarrow> treasury \<Rightarrow> sweep_policy \<Rightarrow> sweep_job \<Rightarrow> sweep_world \<Rightarrow>
    unit result \<times> sweep_job \<times> sweep_world" where
  "stepSweeping e t pol job w =
     (case confirmed t (j_sweepTxId job) of
        Inl err \<Rightarrow> (Inl err, job, w)
      | Inr ok \<Rightarrow>
          if \<not> ok then sweep_defer e pol job w
          else
            let w1 = w\<lparr>sw_audit := audit_opt (env_from 1 e)
                  \<lparr>ai_action = ''usdt.swept'', ai_actor = None, ai_subjectId = Some (j_orderId job),
                   ai_metadata = Some (JObj ([(''amountMicro'', JNum (j_amountMicro job)),
                      (''depositAddress'', JStr (j_depositAddress job)),
                      (''collectionAddress'', JStr (j_collectionAddress job))] @
                      opt_field ''sweepTxId'' JStr (j_sweepTxId job))),
                   ai_at = None\<rparr> (sw_audit w)\<rparr>
            in sweep_finish e S_SWEPT job w1)"

definition sweep_step :: "env \<Rightarrow> treasury \<Rightarrow> sweep_policy \<Rightarrow> sweep_job \<Rightarrow> sweep_world \<Rightarrow>
    unit result \<times> sweep_job \<times> sweep_world" where
  "sweep_step e t pol job w =
     (case j_status job of
        S_PENDING \<Rightarrow> stepPending e t pol job w
      | S_GAS_FUELING \<Rightarrow> stepGasFueling e t pol job w
      | S_SWEEPING \<Rightarrow> stepSweeping e t pol job w
      | _ \<Rightarrow> (Inr (), job, w))"

definition sweep_onError :: "env \<Rightarrow> sweep_policy \<Rightarrow> sweep_job \<Rightarrow> app_error \<Rightarrow> sweep_world \<Rightarrow>
    unit result \<times> sweep_job \<times> sweep_world" where
  "sweep_onError e pol job err w =
     (let now = now_at e 0;
          job1 = job\<lparr>j_attempts := j_attempts job + 1, j_lastError := Some (error_message err), j_updatedAt := now\<rparr>;
          job2 = (if j_attempts job1 \<ge> sp_maxAttempts pol then job1\<lparr>j_status := S_FAILED, j_nextAttemptAt := now\<rparr>
                  else job1\<lparr>j_nextAttemptAt := now + sp_backoffMs pol * j_attempts job1\<rparr>)
      in save_job job2 w)"

text \<open>The body of the loop of \<open>processDue\<close>: a step, and its error handling; then the loop.\<close>

definition process_job :: "env \<Rightarrow> treasury \<Rightarrow> sweep_policy \<Rightarrow> sweep_job \<Rightarrow> sweep_world \<Rightarrow>
    unit result \<times> sweep_job \<times> sweep_world" where
  "process_job e t pol job w =
     (case sweep_step e t pol job w of
        (Inr _, job1, w1) \<Rightarrow> (Inr (), job1, w1)
      | (Inl err, job1, w1) \<Rightarrow> sweep_onError (env_from 2 e) pol job1 err w1)"

fun sweep_loop :: "env \<Rightarrow> (nat \<Rightarrow> treasury) \<Rightarrow> sweep_policy \<Rightarrow> nat \<Rightarrow> sweep_job list \<Rightarrow> sweep_world \<Rightarrow>
    unit result \<times> sweep_world" where
  "sweep_loop e t pol i [] w = (Inr (), w)"
| "sweep_loop e t pol i (job # rest) w =
     (case process_job (env_from (1 + 3 * i) e) (t i) pol job w of
        (Inl err, _, w1) \<Rightarrow> (Inl err, w1)
      | (Inr _, _, w1) \<Rightarrow> sweep_loop e t pol (i + 1) rest w1)"

definition sweep_processDue :: "env \<Rightarrow> (nat \<Rightarrow> treasury) \<Rightarrow> sweep_policy \<Rightarrow> nat \<Rightarrow> sweep_world \<Rightarrow>
    nat result \<times> sweep_world" where
  "sweep_processDue e t pol limit w =
     (let due = sweep_due (sw_jobs w) (now_at e 0) limit
      in case sweep_loop e t pol 0 due w of
           (Inl err, w1) \<Rightarrow> (Inl err, w1)
         | (Inr _, w1) \<Rightarrow> (Inr (length due), w1))"

text \<open>\<open>SweepWatcher.runOnce\<close>, with the default limit of 50; an error ends the pass with the count 0.\<close>

definition sweep_runOnce :: "env \<Rightarrow> (nat \<Rightarrow> treasury) \<Rightarrow> sweep_policy \<Rightarrow> sweep_world \<Rightarrow> nat \<times> sweep_world" where
  "sweep_runOnce e t pol w =
     (case sweep_processDue e t pol 50 w of (Inl err, w1) \<Rightarrow> (0, w1) | (Inr n, w1) \<Rightarrow> (n, w1))"

section \<open>What a step does to a stored job\<close>

text \<open>
  When the job is in the store, saving it does not fail, and a round of the loop is one update of the
  store.
\<close>

definition stores :: "sweep_world \<Rightarrow> sweep_job \<Rightarrow> bool" where
  "stores w job \<longleftrightarrow> sweep_findById (sw_jobs w) (j_id job) \<noteq> None"

lemma save_job_stored:
  "stores w job \<Longrightarrow> save_job job w = (Inr (), job, w\<lparr>sw_jobs := projr (sweep_update job (sw_jobs w))\<rparr>)"
  by (simp add: save_job_def stores_def sweep_update_def sweep_findById_def jm_has_def)

lemmas step_defs = sweep_step_def stepPending_def stepGasFueling_def stepSweeping_def sweep_advance_def
  sweep_defer_def sweep_finish_def sweep_onError_def process_job_def

lemma stores_simps [simp]:
  "stores (w\<lparr>sw_audit := a\<rparr>) job = stores w job"
  "stores w (job\<lparr>j_amountMicro := n\<rparr>) = stores w job"
  "stores w (job\<lparr>j_status := s\<rparr>) = stores w job"
  "stores w (job\<lparr>j_attempts := n\<rparr>) = stores w job"
  "stores w (job\<lparr>j_lastError := le\<rparr>) = stores w job"
  "stores w (job\<lparr>j_updatedAt := n\<rparr>) = stores w job"
  "stores w (job\<lparr>j_nextAttemptAt := n\<rparr>) = stores w job"
  "stores w (job\<lparr>j_gasTxId := x\<rparr>) = stores w job"
  "stores w (job\<lparr>j_sweepTxId := x\<rparr>) = stores w job"
  by (simp_all add: stores_def)

text \<open>The job a processed one becomes, without the stores: a specification of the step and its error handling.\<close>

definition saved_at :: "int \<Rightarrow> int \<Rightarrow> sweep_job \<Rightarrow> sweep_job" where
  "saved_at now next job = job\<lparr>j_updatedAt := now, j_nextAttemptAt := next\<rparr>"

definition job_failed :: "int \<Rightarrow> sweep_policy \<Rightarrow> app_error \<Rightarrow> sweep_job \<Rightarrow> sweep_job" where
  "job_failed now pol err job =
     (let job1 = job\<lparr>j_attempts := j_attempts job + 1, j_lastError := Some (error_message err), j_updatedAt := now\<rparr>
      in if j_attempts job1 \<ge> sp_maxAttempts pol then job1\<lparr>j_status := S_FAILED, j_nextAttemptAt := now\<rparr>
         else job1\<lparr>j_nextAttemptAt := now + sp_backoffMs pol * j_attempts job1\<rparr>)"

definition job_advanced :: "int \<Rightarrow> sweep_policy \<Rightarrow> sweep_status \<Rightarrow> sweep_job \<Rightarrow> sweep_job" where
  "job_advanced now pol st job =
     saved_at now (now + sp_backoffMs pol) (job\<lparr>j_status := st, j_attempts := 0, j_lastError := None\<rparr>)"

definition transfer_of :: "treasury \<Rightarrow> sweep_job \<Rightarrow> string result" where
  "transfer_of t job = t_sweepTrc20 t (j_depositIndex job) (j_depositAddress job) (j_collectionAddress job) (j_amountMicro job)"

definition job_after :: "env \<Rightarrow> treasury \<Rightarrow> sweep_policy \<Rightarrow> sweep_job \<Rightarrow> sweep_job" where
  "job_after e t pol job =
     (let now = now_at e 0; fail = job_failed (now_at e 2) pol in
      case j_status job of
        S_PENDING \<Rightarrow>
          (case t_trc20BalanceMicro t (j_depositAddress job) of
             Inl err \<Rightarrow> fail err job
           | Inr b \<Rightarrow> let job1 = job\<lparr>j_amountMicro := b\<rparr> in
               if b < sp_minSweepMicro pol then saved_at now now (job1\<lparr>j_status := S_EMPTY\<rparr>)
               else (case t_trxBalanceSun t (j_depositAddress job) of
                   Inl err \<Rightarrow> fail err job1
                 | Inr trx \<Rightarrow>
                     if trx < sp_gasMinSun pol then
                       (case t_fuelGas t (j_depositAddress job) (sp_gasTopupSun pol) of
                          Inl err \<Rightarrow> fail err job1
                        | Inr tx \<Rightarrow> job_advanced now pol S_GAS_FUELING (job\<lparr>j_gasTxId := Some tx, j_amountMicro := b\<rparr>))
                     else
                       (case transfer_of t job1 of
                          Inl err \<Rightarrow> fail err job1
                        | Inr tx \<Rightarrow> job_advanced now pol S_SWEEPING (job\<lparr>j_sweepTxId := Some tx, j_amountMicro := b\<rparr>))))
      | S_GAS_FUELING \<Rightarrow>
          (case confirmed t (j_gasTxId job) of
             Inl err \<Rightarrow> fail err job
           | Inr ok \<Rightarrow>
               if \<not> ok then saved_at now (now + sp_backoffMs pol) job
               else (case transfer_of t job of
                   Inl err \<Rightarrow> fail err job
                 | Inr tx \<Rightarrow> job_advanced now pol S_SWEEPING (job\<lparr>j_sweepTxId := Some tx\<rparr>)))
      | S_SWEEPING \<Rightarrow>
          (case confirmed t (j_sweepTxId job) of
             Inl err \<Rightarrow> fail err job
           | Inr ok \<Rightarrow> if \<not> ok then saved_at now (now + sp_backoffMs pol) job
               else saved_at now now (job\<lparr>j_status := S_SWEPT\<rparr>))
      | _ \<Rightarrow> job)"

lemmas job_after_defs = job_failed_def job_advanced_def saved_at_def

definition wrote :: "sweep_job \<Rightarrow> sweep_world \<Rightarrow> unit result \<times> sweep_job \<times> sweep_world \<Rightarrow> bool" where
  "wrote job w r \<longleftrightarrow> (\<exists>w'. r = (Inr (), job, w') \<and> sw_jobs w' = projr (sweep_update job (sw_jobs w)))"

lemma save_job_wrote: "stores w job \<Longrightarrow> wrote job w (save_job job w)"
  by (simp add: wrote_def save_job_stored)

lemma onError_wrote: "stores w job \<Longrightarrow> wrote (job_failed (now_at e 0) pol err job) w (sweep_onError e pol job err w)"
  using save_job_wrote[of w "job_failed (now_at e 0) pol err job"]
  by (simp add: sweep_onError_def job_failed_def Let_def)

lemma wrote_audit: "wrote job (w\<lparr>sw_audit := a\<rparr>) r \<Longrightarrow> wrote job w r"
  by (simp add: wrote_def)

lemma advance_wrote:
  "stores w job \<Longrightarrow> wrote (job_advanced (now_at e 0) pol st job) w (sweep_advance e pol st job w)"
  "stores w job \<Longrightarrow> wrote (saved_at (now_at e 0) (now_at e 0 + sp_backoffMs pol) job) w (sweep_defer e pol job w)"
  "stores w job \<Longrightarrow> wrote (saved_at (now_at e 0) (now_at e 0) (job\<lparr>j_status := st\<rparr>)) w (sweep_finish e st job w)"
  using save_job_wrote[of w "job_advanced (now_at e 0) pol st job"]
    save_job_wrote[of w "saved_at (now_at e 0) (now_at e 0 + sp_backoffMs pol) job"]
    save_job_wrote[of w "saved_at (now_at e 0) (now_at e 0) (job\<lparr>j_status := st\<rparr>)"]
  by (simp_all add: sweep_advance_def sweep_defer_def sweep_finish_def job_after_defs Let_def)

text \<open>A step either has written its job, or throws with the job it leaves and the stores untouched.\<close>

definition step_outcome :: "(app_error \<Rightarrow> sweep_job \<Rightarrow> sweep_job) \<Rightarrow> sweep_job \<Rightarrow> sweep_world \<Rightarrow>
    unit result \<times> sweep_job \<times> sweep_world \<Rightarrow> bool" where
  "step_outcome fail after w r \<longleftrightarrow>
     wrote after w r \<or> (\<exists>err job1. r = (Inl err, job1, w) \<and> stores w job1 \<and> after = fail err job1)"

lemma stepPending_outcome:
  assumes "stores w job" "j_status job = S_PENDING"
  shows "step_outcome (job_failed (now_at e 2) pol) (job_after e t pol job) w (stepPending e t pol job w)"
  using assms
  by (auto simp: step_outcome_def stepPending_def job_after_def transfer_of_def Let_def advance_wrote split: sum.split)

lemma stepGasFueling_outcome:
  assumes "stores w job" "j_status job = S_GAS_FUELING"
  shows "step_outcome (job_failed (now_at e 2) pol) (job_after e t pol job) w (stepGasFueling e t pol job w)"
  using assms
  by (auto simp: step_outcome_def stepGasFueling_def job_after_def transfer_of_def Let_def advance_wrote split: sum.split)

lemma stepSweeping_outcome:
  assumes "stores w job" "j_status job = S_SWEEPING"
  shows "step_outcome (job_failed (now_at e 2) pol) (job_after e t pol job) w (stepSweeping e t pol job w)"
  using assms
  by (auto simp: step_outcome_def stepSweeping_def job_after_def Let_def advance_wrote
      intro!: wrote_audit[OF advance_wrote(3)] split: sum.split)

lemma process_job_wrote:
  assumes "stores w job" "\<not> isSweepTerminal (j_status job)"
  shows "wrote (job_after e t pol job) w (process_job e t pol job w)"
proof -
  have "step_outcome (job_failed (now_at e 2) pol) (job_after e t pol job) w (sweep_step e t pol job w)"
    using assms stepPending_outcome stepGasFueling_outcome stepSweeping_outcome
    by (cases "j_status job") (auto simp: sweep_step_def isSweepTerminal_def)
  then show ?thesis
    using onError_wrote[of w _ "env_from 2 e" pol]
    by (auto simp: step_outcome_def process_job_def wrote_def)
qed

section \<open>Properties of a step\<close>

lemma job_after_deposit:
  "j_id (job_after e t pol job) = j_id job" "j_orderId (job_after e t pol job) = j_orderId job"
  "j_depositIndex (job_after e t pol job) = j_depositIndex job"
  "j_depositAddress (job_after e t pol job) = j_depositAddress job"
  "j_collectionAddress (job_after e t pol job) = j_collectionAddress job"
  by (simp_all add: job_after_def job_after_defs Let_def split: sweep_status.split sum.split)

lemma job_after_status:
  "j_status job \<le> j_status (job_after e t pol job)"
  by (cases "j_status job")
    (simp_all add: job_after_def job_after_defs Let_def sweep_order_defs split: sum.split)

lemma job_after_money:
  shows "j_status (job_after e t pol job) = S_SWEEPING \<Longrightarrow> j_status job \<noteq> S_SWEEPING \<Longrightarrow>
      \<exists>tx. transfer_of t (job_after e t pol job) = Inr tx \<and> j_sweepTxId (job_after e t pol job) = Some tx"
    and "j_status (job_after e t pol job) = S_SWEPT \<Longrightarrow> j_status job \<noteq> S_SWEPT \<Longrightarrow>
      j_status job = S_SWEEPING \<and> confirmed t (j_sweepTxId job) = Inr True \<and>
      j_amountMicro (job_after e t pol job) = j_amountMicro job"
    and "j_status (job_after e t pol job) = S_EMPTY \<Longrightarrow> j_status job \<noteq> S_EMPTY \<Longrightarrow>
      \<exists>b. t_trc20BalanceMicro t (j_depositAddress job) = Inr b \<and> b < sp_minSweepMicro pol"
    and "j_status (job_after e t pol job) = S_FAILED \<Longrightarrow> j_status job \<noteq> S_FAILED \<Longrightarrow>
      sp_maxAttempts pol \<le> j_attempts (job_after e t pol job)"
  by (cases "j_status job";
      auto simp: job_after_def job_after_defs transfer_of_def Let_def split: sum.splits if_splits)+

text \<open>
  C15: a sweep job only moves forward, and money moves only as its state says. Processing a stored,
  unfinished job never throws, changes that job alone and none of the fields that name the deposit; its
  status never goes back; it becomes SWEEPING only with a transfer of its recorded amount from its own
  deposit address to its collection address accepted by the treasury, whose id it keeps; SWEPT only
  when that transfer is confirmed; EMPTY only below the dust threshold; and FAILED only when the
  attempts are used up.
\<close>

theorem sweep_job_safe:
  assumes "stores w job" "\<not> isSweepTerminal (j_status job)"
  shows "let (r, job', w') = process_job e t pol job w in
    r = Inr () \<and> sweep_findById (sw_jobs w') (j_id job) = Some job' \<and>
    (\<forall>i. i \<noteq> j_id job \<longrightarrow> sweep_findById (sw_jobs w') i = sweep_findById (sw_jobs w) i) \<and>
    (j_id job', j_orderId job', j_depositIndex job', j_depositAddress job', j_collectionAddress job') =
      (j_id job, j_orderId job, j_depositIndex job, j_depositAddress job, j_collectionAddress job) \<and>
    j_status job \<le> j_status job' \<and>
    (j_status job' = S_SWEEPING \<and> j_status job \<noteq> S_SWEEPING \<longrightarrow>
       (\<exists>tx. t_sweepTrc20 t (j_depositIndex job) (j_depositAddress job) (j_collectionAddress job) (j_amountMicro job') = Inr tx \<and>
          j_sweepTxId job' = Some tx)) \<and>
    (j_status job' = S_SWEPT \<longrightarrow> j_status job = S_SWEEPING \<and> confirmed t (j_sweepTxId job) = Inr True \<and>
       j_amountMicro job' = j_amountMicro job) \<and>
    (j_status job' = S_EMPTY \<longrightarrow> (\<exists>b. t_trc20BalanceMicro t (j_depositAddress job) = Inr b \<and> b < sp_minSweepMicro pol)) \<and>
    (j_status job' = S_FAILED \<longrightarrow> sp_maxAttempts pol \<le> j_attempts job')"
proof -
  let ?j = "job_after e t pol job"
  obtain w' where r: "process_job e t pol job w = (Inr (), ?j, w')"
    and w': "sw_jobs w' = projr (sweep_update ?j (sw_jobs w))"
    using process_job_wrote[OF assms, of e t pol] by (auto simp: wrote_def)
  have "sweep_findById (sw_jobs w) (j_id ?j) \<noteq> None" using assms(1) by (simp add: stores_def job_after_deposit)
  then obtain st where up: "sweep_update ?j (sw_jobs w) = Inr st" using sweep_repo.update_total by blast
  have find: "sweep_findById (sw_jobs w') i = (if i = j_id job then Some ?j else sweep_findById (sw_jobs w) i)" for i
    using sweep_repo.update_find[OF up] by (simp add: w' up job_after_deposit)
  have nt: "j_status job \<noteq> S_SWEPT" "j_status job \<noteq> S_EMPTY" "j_status job \<noteq> S_FAILED"
    using assms(2) by (auto simp: isSweepTerminal_def)
  show ?thesis
    using find job_after_status job_after_money(1)[of e t pol job] job_after_money(2)[OF _ nt(1), of e t pol]
      job_after_money(3)[OF _ nt(2), of e t pol] job_after_money(4)[OF _ nt(3), of e t pol]
    unfolding r by (simp add: job_after_deposit transfer_of_def)
qed

section \<open>Runs of one job\<close>

fun run_job :: "sweep_policy \<Rightarrow> (env \<times> treasury) list \<Rightarrow> sweep_job \<Rightarrow> sweep_world \<Rightarrow> sweep_job \<times> sweep_world" where
  "run_job pol [] job w = (job, w)"
| "run_job pol ((e, t) # rest) job w =
     (let (_, job1, w1) = process_job e t pol job w in run_job pol rest job1 w1)"

lemma wrote_stores: "wrote job w r \<Longrightarrow> stores w job \<Longrightarrow> stores (snd (snd r)) job"
  by (auto simp: wrote_def stores_def sweep_update_def sweep_findById_def jm_has_def)

lemma run_job_Cons:
  assumes "stores w job" "\<not> isSweepTerminal (j_status job)"
  shows "\<exists>w'. stores w' (job_after e t pol job) \<and>
    (\<forall>rest. run_job pol ((e, t) # rest) job w = run_job pol rest (job_after e t pol job) w')"
proof -
  obtain w' where r: "process_job e t pol job w = (Inr (), job_after e t pol job, w')"
    using process_job_wrote[OF assms, of e t pol] by (auto simp: wrote_def)
  have "stores w (job_after e t pol job)" using assms(1) by (simp add: stores_def job_after_deposit)
  then have "stores w' (job_after e t pol job)"
    using wrote_stores[OF process_job_wrote[OF assms, of e t pol]] by (simp add: r)
  then show ?thesis by (auto simp: r)
qed

section \<open>Broadcasts\<close>

text \<open>Two rounds that differ in what the treasury's transfer and gas funding do and nothing else.\<close>

definition same_apart_broadcasts :: "env \<times> treasury \<Rightarrow> env \<times> treasury \<Rightarrow> bool" where
  "same_apart_broadcasts a b \<longleftrightarrow> fst b = fst a \<and> (\<exists>f g. snd b = (snd a)\<lparr>t_sweepTrc20 := f, t_fuelGas := g\<rparr>)"

definition same_apart_fuel :: "env \<times> treasury \<Rightarrow> env \<times> treasury \<Rightarrow> bool" where
  "same_apart_fuel a b \<longleftrightarrow> fst b = fst a \<and> (\<exists>g. snd b = (snd a)\<lparr>t_fuelGas := g\<rparr>)"

definition broadcast_recorded :: "sweep_job \<Rightarrow> bool" where
  "broadcast_recorded job \<longleftrightarrow>
     (j_sweepTxId job \<noteq> None \<longrightarrow> j_status job \<in> {S_SWEEPING, S_SWEPT, S_FAILED}) \<and>
     (j_gasTxId job \<noteq> None \<longrightarrow> j_status job \<in> {S_GAS_FUELING, S_SWEEPING, S_SWEPT, S_FAILED})"

abbreviation job_of :: "unit result \<times> sweep_job \<times> sweep_world \<Rightarrow> sweep_job" where
  "job_of r \<equiv> fst (snd r)"

lemma save_job_job [simp]: "job_of (save_job job w) = job"
  by (simp add: save_job_def split: sum.split)

lemma step_job_simps [simp]:
  "job_of (sweep_advance e pol st job w) = job_advanced (now_at e 0) pol st job"
  "job_of (sweep_defer e pol job w) = saved_at (now_at e 0) (now_at e 0 + sp_backoffMs pol) job"
  "job_of (sweep_finish e st job w) = saved_at (now_at e 0) (now_at e 0) (job\<lparr>j_status := st\<rparr>)"
  "job_of (sweep_onError e pol job err w) = job_failed (now_at e 0) pol err job"
  by (simp_all add: sweep_advance_def sweep_defer_def sweep_finish_def sweep_onError_def job_after_defs Let_def)

lemma step_recorded:
  assumes "broadcast_recorded job"
  shows "broadcast_recorded (job_of (sweep_step e t pol job w))"
    and "j_sweepTxId job = Some x \<Longrightarrow> j_sweepTxId (job_of (sweep_step e t pol job w)) = Some x"
    and "j_gasTxId job = Some x \<Longrightarrow> j_gasTxId (job_of (sweep_step e t pol job w)) = Some x"
  using assms
  by (cases "j_status job"; auto simp: sweep_step_def stepPending_def stepGasFueling_def stepSweeping_def
      broadcast_recorded_def job_after_defs Let_def split: sum.splits if_splits)+

lemma failed_recorded:
  assumes "broadcast_recorded job"
  shows "broadcast_recorded (job_failed now pol err job)" "j_sweepTxId (job_failed now pol err job) = j_sweepTxId job"
    "j_gasTxId (job_failed now pol err job) = j_gasTxId job"
  using assms by (auto simp: broadcast_recorded_def job_failed_def Let_def)

lemma process_job_recorded:
  assumes "broadcast_recorded job"
  shows "broadcast_recorded (job_of (process_job e t pol job w))"
    and "j_sweepTxId job = Some x \<Longrightarrow> j_sweepTxId (job_of (process_job e t pol job w)) = Some x"
    and "j_gasTxId job = Some x \<Longrightarrow> j_gasTxId (job_of (process_job e t pol job w)) = Some x"
  using step_recorded(1)[OF assms, of e t pol w] step_recorded(2,3)[OF assms, of x e t pol w]
    failed_recorded[OF step_recorded(1)[OF assms, of e t pol w]]
  by (auto simp: process_job_def split: prod.split sum.split)

lemma confirmed_update [simp]:
  "confirmed (t\<lparr>t_sweepTrc20 := f\<rparr>) x = confirmed t x" "confirmed (t\<lparr>t_fuelGas := g\<rparr>) x = confirmed t x"
  by (simp_all add: confirmed_def)

lemma process_job_apart:
  assumes "broadcast_recorded job"
  shows "j_sweepTxId job \<noteq> None \<Longrightarrow>
      process_job e (t\<lparr>t_sweepTrc20 := f, t_fuelGas := g\<rparr>) pol job w = process_job e t pol job w"
    and "j_gasTxId job \<noteq> None \<Longrightarrow> process_job e (t\<lparr>t_fuelGas := g\<rparr>) pol job w = process_job e t pol job w"
  using assms
  by (auto simp: broadcast_recorded_def process_job_def sweep_step_def stepSweeping_def stepGasFueling_def
      split: sum.split)

lemma run_job_recorded:
  "broadcast_recorded job \<Longrightarrow> broadcast_recorded (fst (run_job pol xs job w)) \<and>
    (\<forall>x. j_sweepTxId job = Some x \<longrightarrow> j_sweepTxId (fst (run_job pol xs job w)) = Some x) \<and>
    (\<forall>x. j_gasTxId job = Some x \<longrightarrow> j_gasTxId (fst (run_job pol xs job w)) = Some x)"
proof (induction xs arbitrary: job w)
  case (Cons et xs)
  obtain e t where et: "et = (e, t)" by fastforce
  note P = process_job_recorded(1)[OF Cons.prems, of e t pol w] process_job_recorded(2,3)[OF Cons.prems, of _ e t pol w]
  from Cons.IH[OF P(1)] P(2,3) show ?case by (simp add: et split_beta Let_def)
qed simp

lemma run_job_apart:
  assumes "list_all2 R xs ys" "broadcast_recorded job" "P job"
    and same: "\<And>a b job w. R a b \<Longrightarrow> broadcast_recorded job \<Longrightarrow> P job \<Longrightarrow> fst b = fst a \<and>
      process_job (fst a) (snd b) pol job w = process_job (fst a) (snd a) pol job w"
    and keep: "\<And>e t job w. broadcast_recorded job \<Longrightarrow> P job \<Longrightarrow> P (job_of (process_job e t pol job w))"
  shows "run_job pol ys job w = run_job pol xs job w"
  using assms(1-3)
proof (induction arbitrary: job w rule: list_all2_induct)
  case (Cons a as b bs)
  obtain e t where a: "a = (e, t)" by fastforce
  have b: "b = (e, snd b)" "process_job e (snd b) pol job w = process_job e t pol job w"
    using same[OF Cons.hyps(1) Cons.prems] by (auto simp: a prod_eq_iff)
  obtain r job1 w1 where p: "process_job e t pol job w = (r, job1, w1)" by (metis prod_cases3)
  have "broadcast_recorded job1" "P job1"
    using process_job_recorded(1)[OF Cons.prems(1), of e t pol w] keep[OF Cons.prems, of e t w] by (simp_all add: p)
  from Cons.IH[OF this] show ?case by (subst b(1)) (simp add: a b(2) p)
qed simp

text \<open>
  C18: no deposit is fueled or transferred twice. Take any number of rounds of a new job, under any clocks and
  any treasuries. Once one of them has recorded a transfer, no later round depends on the treasury's transfer
  or gas operations: whatever these would do in the rounds that follow, the job and the stores come out the
  same, the job keeps that transfer's id and is SWEEPING, SWEPT or FAILED. Once a round has recorded gas
  funding, no later round depends on the gas operation. Both hold for as long as the watcher runs the job; an
  operator's retry of a FAILED job starts it over.
\<close>

theorem sweep_no_second_broadcast:
  assumes "j_status job = S_PENDING" "j_sweepTxId job = None" "j_gasTxId job = None"
    and "run_job pol before job w = (job1, w1)"
  shows "(\<forall>tx later others. j_sweepTxId job1 = Some tx \<and> list_all2 same_apart_broadcasts later others \<longrightarrow>
      run_job pol others job1 w1 = run_job pol later job1 w1 \<and>
      j_sweepTxId (fst (run_job pol later job1 w1)) = Some tx \<and>
      j_status (fst (run_job pol later job1 w1)) \<in> {S_SWEEPING, S_SWEPT, S_FAILED}) \<and>
    (\<forall>tx later others. j_gasTxId job1 = Some tx \<and> list_all2 same_apart_fuel later others \<longrightarrow>
      run_job pol others job1 w1 = run_job pol later job1 w1 \<and> j_gasTxId (fst (run_job pol later job1 w1)) = Some tx)"
proof -
  have "broadcast_recorded job" using assms(1-3) by (simp add: broadcast_recorded_def)
  from run_job_recorded[OF this, of pol before w] have r: "broadcast_recorded job1" by (simp add: assms(4))
  note R = run_job_recorded[OF r, of pol _ w1]
  have "run_job pol others job1 w1 = run_job pol later job1 w1"
    if "j_sweepTxId job1 = Some tx" "list_all2 same_apart_broadcasts later others" for tx later others
    by (rule run_job_apart[OF that(2) r, where P = "\<lambda>j. j_sweepTxId j \<noteq> None"])
      (use that process_job_apart(1) process_job_recorded(2) in \<open>auto simp: same_apart_broadcasts_def\<close>)
  moreover have "j_status (fst (run_job pol later job1 w1)) \<in> {S_SWEEPING, S_SWEPT, S_FAILED}"
    if "j_sweepTxId job1 = Some tx" for tx later
    using R[of later] that by (auto simp: broadcast_recorded_def)
  moreover have "run_job pol others job1 w1 = run_job pol later job1 w1"
    if "j_gasTxId job1 = Some tx" "list_all2 same_apart_fuel later others" for tx later others
    by (rule run_job_apart[OF that(2) r, where P = "\<lambda>j. j_gasTxId j \<noteq> None"])
      (use that process_job_apart(2) process_job_recorded(3) in \<open>auto simp: same_apart_fuel_def\<close>)
  ultimately show ?thesis using R by blast
qed

text \<open>
  A retried job transfers again. A FAILED job that has recorded a transfer, one whose confirmation could not be
  looked up for \<open>maxAttempts\<close> rounds, is PENDING after \<open>retry\<close>; while the chain still shows the deposit,
  the next round sends a second transfer of it and forgets the id of the first.
\<close>

lemma retried_sweep_transfers_again:
  assumes "sweep_findByOrderId st oid = Some job" "j_status job = S_FAILED" "j_sweepTxId job = Some first"
    and "sweep_retry e oid st = (Inr (Some job'), st')"
    and "t_trc20BalanceMicro t (j_depositAddress job) = Inr b" "sp_minSweepMicro pol \<le> b"
    and "t_trxBalanceSun t (j_depositAddress job) = Inr x" "sp_gasMinSun pol \<le> x"
    and "t_sweepTrc20 t (j_depositIndex job) (j_depositAddress job) (j_collectionAddress job) b = Inr second"
  shows "j_status job' = S_PENDING \<and> j_sweepTxId job' = Some first \<and>
    j_sweepTxId (job_of (sweep_step e2 t pol job' w)) = Some second"
proof -
  have "job' = job\<lparr>j_status := S_PENDING, j_attempts := 0, j_lastError := None, j_updatedAt := now_at e 0,
      j_nextAttemptAt := now_at e 0\<rparr>"
    using assms(1,2,4) by (auto simp: sweep_retry_def Let_def split: sum.splits)
  then show ?thesis
    using assms(3,5-9) by (simp add: sweep_step_def stepPending_def job_after_defs Let_def)
qed

text \<open>A treasury on which the job's step throws, whatever the step is.\<close>

definition down :: "treasury \<Rightarrow> bool" where
  "down t \<longleftrightarrow> (\<forall>a. \<not> is_ok (t_trc20BalanceMicro t a)) \<and> (\<forall>x. \<not> is_ok (t_isConfirmed t x))"

lemma not_ok: "\<not> is_ok r \<Longrightarrow> \<exists>err. r = Inl err"
  by (cases r) auto

lemma job_after_down:
  assumes "down t" "\<not> isSweepTerminal (j_status job)" "j_status job = S_GAS_FUELING \<Longrightarrow> truthy (j_gasTxId job)"
    "j_status job = S_SWEEPING \<Longrightarrow> truthy (j_sweepTxId job)"
  shows "\<exists>err. job_after e t pol job = job_failed (now_at e 2) pol err job"
proof (cases "j_status job")
  case S_PENDING
  obtain err where "t_trc20BalanceMicro t (j_depositAddress job) = Inl err"
    using assms(1) not_ok unfolding down_def by metis
  then show ?thesis using S_PENDING by (auto simp: job_after_def Let_def)
next
  case S_GAS_FUELING
  obtain err where "t_isConfirmed t (the (j_gasTxId job)) = Inl err"
    using assms(1) not_ok unfolding down_def by metis
  then show ?thesis using S_GAS_FUELING assms(3) by (auto simp: job_after_def confirmed_def Let_def)
next
  case S_SWEEPING
  obtain err where "t_isConfirmed t (the (j_sweepTxId job)) = Inl err"
    using assms(1) not_ok unfolding down_def by metis
  then show ?thesis using S_SWEEPING assms(4) by (auto simp: job_after_def confirmed_def Let_def)
qed (use assms(2) in \<open>simp_all add: isSweepTerminal_def\<close>)

lemma run_job_down:
  assumes "\<forall>(e, t) \<in> set ets. down t"
  shows "stores w job \<Longrightarrow> \<not> isSweepTerminal (j_status job) \<Longrightarrow> (j_status job = S_GAS_FUELING \<Longrightarrow> truthy (j_gasTxId job)) \<Longrightarrow>
    (j_status job = S_SWEEPING \<Longrightarrow> truthy (j_sweepTxId job)) \<Longrightarrow> j_attempts job + int (length ets) < sp_maxAttempts pol \<Longrightarrow>
    j_status (fst (run_job pol ets job w)) = j_status job \<and>
    j_attempts (fst (run_job pol ets job w)) = j_attempts job + int (length ets) \<and>
    stores (snd (run_job pol ets job w)) (fst (run_job pol ets job w)) \<and>
    (j_gasTxId (fst (run_job pol ets job w)), j_sweepTxId (fst (run_job pol ets job w))) = (j_gasTxId job, j_sweepTxId job)"
  using assms
proof (induction ets arbitrary: job w)
  case (Cons et ets)
  obtain e t where et: "et = (e, t)" by fastforce
  obtain err where j: "job_after e t pol job = job_failed (now_at e 2) pol err job"
    using job_after_down[of t job e pol] Cons.prems et by auto
  obtain w' where w': "stores w' (job_after e t pol job)"
    "run_job pol ((e, t) # ets) job w = run_job pol ets (job_after e t pol job) w'"
    using run_job_Cons[OF Cons.prems(1,2)] by blast
  let ?j = "job_failed (now_at e 2) pol err job"
  have f: "j_status ?j = j_status job" "j_attempts ?j = j_attempts job + 1" "j_gasTxId ?j = j_gasTxId job"
    "j_sweepTxId ?j = j_sweepTxId job"
    using Cons.prems(5) by (simp_all add: job_failed_def Let_def)
  show ?case
    using Cons.IH[of w' ?j] Cons.prems w' unfolding et j f by (simp add: add.assoc)
qed simp

text \<open>
  Errors are retried, and given up after exactly \<open>maxAttempts\<close>. While every step of a job throws,
  it keeps its status for the first \<open>maxAttempts - 1\<close> rounds, counting them, and the next one marks it
  FAILED; so an outage shorter than that never loses a job, and a longer one does not retry for ever.
\<close>

theorem sweep_gives_up_after_max:
  assumes "stores w job" "j_status job \<in> {S_PENDING, S_GAS_FUELING, S_SWEEPING}" "j_attempts job = 0"
    and "truthy (j_gasTxId job)" "truthy (j_sweepTxId job)"
    and "\<forall>(e, t) \<in> set ets. down t" "down t" "int (length ets) + 1 = sp_maxAttempts pol"
  shows "j_status (fst (run_job pol ets job w)) = j_status job \<and>
    j_attempts (fst (run_job pol ets job w)) = int (length ets) \<and>
    (case run_job pol ets job w of (job1, w1) \<Rightarrow>
       j_status (fst (snd (process_job e t pol job1 w1))) = S_FAILED)"
proof -
  obtain job1 w1 where run: "run_job pol ets job w = (job1, w1)" by fastforce
  have nt: "\<not> isSweepTerminal (j_status job)" using assms(2) by (auto simp: isSweepTerminal_def)
  have R: "j_status job1 = j_status job" "j_attempts job1 = int (length ets)" "stores w1 job1"
    "j_gasTxId job1 = j_gasTxId job" "j_sweepTxId job1 = j_sweepTxId job"
    using run_job_down[OF assms(6,1) nt, of pol] assms(3,4,5,8) by (simp_all add: run)
  obtain err where j: "job_after e t pol job1 = job_failed (now_at e 2) pol err job1"
    using job_after_down[of t job1 e pol] assms(4,5,7) nt R by auto
  have "process_job e t pol job1 w1 = (Inr (), job_after e t pol job1, snd (snd (process_job e t pol job1 w1)))"
    using process_job_wrote[of w1 job1 e t pol] R nt by (auto simp: wrote_def)
  then have "fst (snd (process_job e t pol job1 w1)) = job_after e t pol job1" by (metis fst_conv snd_conv)
  moreover have "j_status (job_failed (now_at e 2) pol err job1) = S_FAILED"
    using R(2) assms(8) by (simp add: job_failed_def Let_def)
  ultimately show ?thesis using R j by (simp add: run)
qed

lemma run_job_append:
  "run_job pol (xs @ ys) job w = (let (job1, w1) = run_job pol xs job w in run_job pol ys job1 w1)"
proof (induction xs arbitrary: job w)
  case (Cons x xs)
  show ?case
    by (cases x; cases "process_job (fst x) (snd x) pol job w") (simp add: Cons.IH)
qed simp

text \<open>Rounds in which a transaction is not confirmed yet.\<close>

definition unconfirmed :: "string \<Rightarrow> (env \<times> treasury) list \<Rightarrow> bool" where
  "unconfirmed tx ets \<longleftrightarrow> (\<forall>(e, t) \<in> set ets. t_isConfirmed t tx = Inr False)"

text \<open>The job as it is but for the times of its last and next visit.\<close>

definition same_but_times :: "sweep_job \<Rightarrow> sweep_job \<Rightarrow> bool" where
  "same_but_times a b \<longleftrightarrow> (\<exists>u n. b = a\<lparr>j_updatedAt := u, j_nextAttemptAt := n\<rparr>)"

lemma same_but_times_refl: "same_but_times job job"
  unfolding same_but_times_def by (intro exI[of _ "j_updatedAt job"] exI[of _ "j_nextAttemptAt job"]) simp

lemma same_but_times_saved: "same_but_times (saved_at u n a) b \<Longrightarrow> same_but_times a b"
  unfolding same_but_times_def saved_at_def by auto

lemma run_job_waits:
  assumes "tx \<noteq> []"
  shows "unconfirmed tx ets \<Longrightarrow> stores w job \<Longrightarrow>
    (j_status job = S_GAS_FUELING \<and> j_gasTxId job = Some tx) \<or> (j_status job = S_SWEEPING \<and> j_sweepTxId job = Some tx) \<Longrightarrow>
    \<exists>job' w'. run_job pol ets job w = (job', w') \<and> stores w' job' \<and> same_but_times job job'"
proof (induction ets arbitrary: job w)
  case Nil
  then show ?case by (simp add: same_but_times_refl)
next
  case (Cons et ets)
  obtain e t where et: "et = (e, t)" by fastforce
  have nt: "\<not> isSweepTerminal (j_status job)" using Cons.prems(3) by (auto simp: isSweepTerminal_def)
  let ?j = "saved_at (now_at e 0) (now_at e 0 + sp_backoffMs pol) job"
  have j: "job_after e t pol job = ?j"
    using Cons.prems assms by (auto simp: job_after_def confirmed_def unconfirmed_def et Let_def)
  obtain w' where w': "stores w' ?j" "run_job pol ((e, t) # ets) job w = run_job pol ets ?j w'"
    using run_job_Cons[OF Cons.prems(2) nt, of e t pol] unfolding j by blast
  have "unconfirmed tx ets" using Cons.prems(1) by (simp add: unconfirmed_def)
  from Cons.IH[OF this w'(1)] Cons.prems(3)
  obtain job' w'' where "run_job pol ets ?j w' = (job', w'')" "stores w'' job'" "same_but_times ?j job'"
    by (auto simp: saved_at_def)
  then show ?case using w'(2) same_but_times_saved by (metis et)
qed

text \<open>
  C25: A deposit is collected once the chain confirms. For a pending job whose address holds \<open>b\<close>, at least
  the dust threshold, but no gas: after the round that fuels it, any number of rounds waiting for the
  gas, the round that finds it confirmed and transfers, any number of rounds waiting for the transfer,
  and the round that finds it confirmed, the job is SWEPT with exactly the amount \<open>b\<close>, and the waiting
  cost it no attempt.
\<close>

theorem sweep_collects:
  assumes "stores w job" "j_status job = S_PENDING" "sp_minSweepMicro pol \<le> b"
    and t1: "t_trc20BalanceMicro t1 (j_depositAddress job) = Inr b" "t_trxBalanceSun t1 (j_depositAddress job) = Inr g"
      "g < sp_gasMinSun pol" "t_fuelGas t1 (j_depositAddress job) (sp_gasTopupSun pol) = Inr gas" "gas \<noteq> []"
    and t2: "t_isConfirmed t2 gas = Inr True" "tx \<noteq> []"
      "t_sweepTrc20 t2 (j_depositIndex job) (j_depositAddress job) (j_collectionAddress job) b = Inr tx"
    and t3: "t_isConfirmed t3 tx = Inr True"
    and waits: "unconfirmed gas w1" "unconfirmed tx w2"
  shows "case run_job pol ((e1, t1) # w1 @ (e2, t2) # w2 @ [(e3, t3)]) job w of (job', w') \<Rightarrow>
    j_status job' = S_SWEPT \<and> j_amountMicro job' = b \<and> j_attempts job' = 0 \<and>
    j_gasTxId job' = Some gas \<and> j_sweepTxId job' = Some tx \<and> stores w' job'"
proof -
  let ?a = "job_advanced (now_at e1 0) pol S_GAS_FUELING (job\<lparr>j_gasTxId := Some gas, j_amountMicro := b\<rparr>)"
  have nt: "\<not> isSweepTerminal (j_status job)" using assms(2) by (simp add: isSweepTerminal_def)
  have "job_after e1 t1 pol job = ?a" using assms(2,3) t1 by (simp add: job_after_def Let_def)
  then obtain v1 where v1: "stores v1 ?a" "\<And>r. run_job pol ((e1, t1) # r) job w = run_job pol r ?a v1"
    using run_job_Cons[OF assms(1) nt, of e1 t1 pol] by auto
  obtain j1 v2 where j1: "run_job pol w1 ?a v1 = (j1, v2)" "stores v2 j1" "same_but_times ?a j1"
    using run_job_waits[OF t1(5) waits(1) v1(1), of pol] by (auto simp: job_advanced_def saved_at_def)
  have f1: "j_status j1 = S_GAS_FUELING" "j_gasTxId j1 = Some gas" "j_amountMicro j1 = b" "j_attempts j1 = 0"
    "transfer_of t2 j1 = Inr tx"
    using j1(3) t2(3) by (auto simp: same_but_times_def job_advanced_def saved_at_def transfer_of_def)
  then have nt1: "\<not> isSweepTerminal (j_status j1)" by (simp add: isSweepTerminal_def)
  let ?b = "job_advanced (now_at e2 0) pol S_SWEEPING (j1\<lparr>j_sweepTxId := Some tx\<rparr>)"
  have "job_after e2 t2 pol j1 = ?b" using f1 t1(5) t2 by (simp add: job_after_def confirmed_def Let_def)
  then obtain v3 where v3: "stores v3 ?b" "\<And>r. run_job pol ((e2, t2) # r) j1 v2 = run_job pol r ?b v3"
    using run_job_Cons[OF j1(2) nt1, of e2 t2 pol] by auto
  obtain j2 v4 where j2: "run_job pol w2 ?b v3 = (j2, v4)" "stores v4 j2" "same_but_times ?b j2"
    using run_job_waits[OF t2(2) waits(2) v3(1), of pol] by (auto simp: job_advanced_def saved_at_def)
  have f2: "j_status j2 = S_SWEEPING" "j_sweepTxId j2 = Some tx" "j_amountMicro j2 = b" "j_attempts j2 = 0"
    "j_gasTxId j2 = Some gas"
    using j2(3) f1 by (auto simp: same_but_times_def job_advanced_def saved_at_def)
  then have nt2: "\<not> isSweepTerminal (j_status j2)" by (simp add: isSweepTerminal_def)
  let ?c = "saved_at (now_at e3 0) (now_at e3 0) (j2\<lparr>j_status := S_SWEPT\<rparr>)"
  have "job_after e3 t3 pol j2 = ?c" using f2 t2(2) t3 by (simp add: job_after_def confirmed_def Let_def)
  then obtain v5 where v5: "stores v5 ?c" "run_job pol [(e3, t3)] j2 v4 = (?c, v5)"
    using run_job_Cons[OF j2(2) nt2, of e3 t3 pol] by auto
  have "run_job pol ((e1, t1) # w1 @ (e2, t2) # w2 @ [(e3, t3)]) job w = (?c, v5)"
    by (simp only: v1(2) run_job_append j1(1) v3(2) j2(1) v5(2) Let_def prod.case)
  then show ?thesis using v5(1) f2 by (simp add: saved_at_def)
qed

section \<open>Enqueueing\<close>

text \<open>
  one job per order. Enqueueing an order that has a job returns that job and changes nothing; otherwise
  it creates a pending job for the order's deposit that is due at once, and a second call returns it; no
  other order's job is touched and the store stays well formed.
\<close>

theorem sweep_enqueue_idempotent:
  assumes "sweep_store_wf st" "uuid_at e 0 \<noteq> []" "sweep_findById st (uuid_at e 0) = None"
  shows "let (r, st') = sweep_enqueue e pol oid i addr st in
    \<exists>job. r = Inr job \<and> sweep_store_wf st' \<and> sweep_findByOrderId st' oid = Some job \<and>
      sweep_enqueue e' pol' oid i' addr' st' = (Inr job, st') \<and>
      (\<forall>k. k \<noteq> oid \<longrightarrow> sweep_findByOrderId st' k = sweep_findByOrderId st k) \<and>
      (case sweep_findByOrderId st oid of Some old \<Rightarrow> job = old \<and> st' = st
       | None \<Rightarrow> j_status job = S_PENDING \<and> j_depositIndex job = i \<and> j_depositAddress job = addr \<and> job_due (now_at e 0) job)"
proof (cases "sweep_findByOrderId st oid")
  case (Some old)
  then show ?thesis using assms(1) by (simp add: sweep_enqueue_def)
next
  case None
  define job where "job = \<lparr>j_id = uuid_at e 0, j_orderId = oid, j_depositIndex = i, j_depositAddress = addr,
    j_collectionAddress = sp_collectionAddress pol, j_amountMicro = 0, j_status = S_PENDING, j_gasTxId = None,
    j_sweepTxId = None, j_attempts = 0, j_lastError = None, j_createdAt = now_at e 0, j_updatedAt = now_at e 0,
    j_nextAttemptAt = now_at e 0\<rparr>"
  have job: "j_id job = uuid_at e 0" "j_orderId job = oid" by (simp_all add: job_def)
  have "is_ok (sweep_create job st)" using sweep_repo.create_dup[OF assms(1)] None by (simp add: job)
  then obtain st' where c: "sweep_create job st = Inr st'" by (cases "sweep_create job st") auto
  have wf: "sweep_store_wf st'" using sweep_repo.create_valid[OF assms(1) _ _ c] assms(2,3) by (simp add: job)
  have eq: "sweep_enqueue e pol oid i addr st = (Inr job, st')"
    using None c by (simp add: sweep_enqueue_def job_def Let_def)
  have found: "sweep_findByOrderId st' oid = Some job"
    using sweep_repo.lookup_created[OF assms(1) wf c] by (simp add: job)
  have "sweep_findByOrderId st' k = sweep_findByOrderId st k" if "k \<noteq> oid" for k
  proof -
    have "(sweep_findByOrderId st' k = Some x) = (sweep_findByOrderId st k = Some x)" for x
    proof (cases "j_id x = uuid_at e 0")
      case True
      have "job = x \<Longrightarrow> j_orderId x \<noteq> k" using that job(2) by auto
      then show ?thesis using True assms(3)
        by (auto simp: sweep_repo.lookup_iff[OF wf] sweep_repo.lookup_iff[OF assms(1)] sweep_repo.create_find[OF c] job(1))
    qed (simp add: sweep_repo.lookup_iff[OF wf] sweep_repo.lookup_iff[OF assms(1)] sweep_repo.create_find[OF c] job(1))
    then show ?thesis by (metis option.exhaust)
  qed
  then show ?thesis using eq wf found None
    by (simp add: sweep_enqueue_def) (simp add: job_def job_due_def isSweepTerminal_def)
qed

section \<open>Worked examples\<close>

definition demo_policy :: sweep_policy where
  "demo_policy = \<lparr>sp_collectionAddress = ''Tcol'', sp_minSweepMicro = 100000, sp_gasTopupSun = 30, sp_gasMinSun = 20,
     sp_maxAttempts = 3, sp_backoffMs = 60000\<rparr>"

definition demo_treasury :: treasury where
  "demo_treasury = \<lparr>t_trc20BalanceMicro = (\<lambda>_. Inr 5000000), t_trxBalanceSun = (\<lambda>_. Inr 0),
     t_fuelGas = (\<lambda>_ _. Inr ''gas1''), t_sweepTrc20 = (\<lambda>_ _ _ _. Inr ''tx1''), t_isConfirmed = (\<lambda>_. Inr True),
     t_feeBalanceSun = None\<rparr>"

definition down_treasury :: treasury where
  "down_treasury = demo_treasury\<lparr>t_trc20BalanceMicro := (\<lambda>_. Inl (PlainError ''rpc'')),
     t_isConfirmed := (\<lambda>_. Inl (PlainError ''rpc''))\<rparr>"

definition slow_treasury :: treasury where
  "slow_treasury = demo_treasury\<lparr>t_isConfirmed := (\<lambda>_. Inr False)\<rparr>"

definition demo_sweep_world :: sweep_world where
  "demo_sweep_world = \<lparr>sw_jobs = demo_sweep_store, sw_audit = None\<rparr>"

abbreviation demo_pending :: sweep_job where
  "demo_pending \<equiv> demo_job ''j1'' ''o1'' 20 S_PENDING 0"

lemma demo_stores: "j_id job = ''j1'' \<Longrightarrow> stores demo_sweep_world job"
  by (simp add: stores_def demo_sweep_world_def demo_sweep_store_def demo_job_simps)

theorem sweep_job_safe_witness:
  "case process_job (env_at 9) demo_treasury demo_policy demo_pending demo_sweep_world of (r, job', w') \<Rightarrow>
     r = Inr () \<and> j_status job' = S_GAS_FUELING \<and> S_PENDING \<le> j_status job' \<and>
     sweep_findById (sw_jobs w') ''j1'' = Some job'"
proof -
  have s: "stores demo_sweep_world demo_pending" by (rule demo_stores) (simp add: demo_job_def)
  have nt: "\<not> isSweepTerminal (j_status demo_pending)" by (simp add: demo_job_def isSweepTerminal_def)
  have "job_after (env_at 9) demo_treasury demo_policy demo_pending =
      job_advanced 9 demo_policy S_GAS_FUELING (demo_pending\<lparr>j_gasTxId := Some ''gas1'', j_amountMicro := 5000000\<rparr>)"
    by (simp add: job_after_def demo_treasury_def demo_policy_def demo_job_def Let_def)
  then have "j_status (fst (snd (process_job (env_at 9) demo_treasury demo_policy demo_pending demo_sweep_world))) = S_GAS_FUELING"
    using process_job_wrote[OF s nt, of "env_at 9" demo_treasury demo_policy] by (auto simp: wrote_def job_after_defs)
  moreover have "j_status demo_pending = S_PENDING" "j_id demo_pending = ''j1''" by (simp_all add: demo_job_def)
  ultimately show ?thesis
    using sweep_job_safe[OF s nt, of "env_at 9" demo_treasury demo_policy] by (simp add: split_beta Let_def)
qed

lemma demo_transferred:
  "j_sweepTxId (fst (run_job demo_policy [(env_at 1, demo_treasury), (env_at 3, demo_treasury)] demo_pending demo_sweep_world)) = Some ''tx1''"
proof -
  let ?a = "job_advanced 1 demo_policy S_GAS_FUELING (demo_pending\<lparr>j_gasTxId := Some ''gas1'', j_amountMicro := 5000000\<rparr>)"
  have s: "stores demo_sweep_world demo_pending" by (rule demo_stores) (simp add: demo_job_def)
  have nt: "\<not> isSweepTerminal (j_status demo_pending)" by (simp add: demo_job_def isSweepTerminal_def)
  have a: "job_after (env_at 1) demo_treasury demo_policy demo_pending = ?a"
    by (simp add: job_after_def demo_treasury_def demo_policy_def demo_job_def Let_def)
  obtain v where v: "stores v ?a" "\<And>r. run_job demo_policy ((env_at 1, demo_treasury) # r) demo_pending demo_sweep_world = run_job demo_policy r ?a v"
    using run_job_Cons[OF s nt, of "env_at 1" demo_treasury demo_policy] unfolding a by blast
  have nt1: "\<not> isSweepTerminal (j_status ?a)" by (simp add: job_after_defs isSweepTerminal_def)
  have b: "j_sweepTxId (job_after (env_at 3) demo_treasury demo_policy ?a) = Some ''tx1''"
    by (simp add: job_after_def job_after_defs confirmed_def demo_treasury_def demo_policy_def demo_job_def transfer_of_def Let_def)
  obtain v2 where "run_job demo_policy [(env_at 3, demo_treasury)] ?a v = (job_after (env_at 3) demo_treasury demo_policy ?a, v2)"
    using run_job_Cons[OF v(1) nt1, of "env_at 3" demo_treasury demo_policy] by auto
  then show ?thesis using v(2) b by simp
qed

theorem sweep_no_second_broadcast_witness:
  "let other = demo_treasury\<lparr>t_sweepTrc20 := (\<lambda>_ _ _ _. Inr ''again''), t_fuelGas := (\<lambda>_ _. Inr ''again'')\<rparr>;
       (job1, w1) = run_job demo_policy [(env_at 1, demo_treasury), (env_at 3, demo_treasury)] demo_pending demo_sweep_world in
   run_job demo_policy [(env_at 9, other)] job1 w1 = run_job demo_policy [(env_at 9, demo_treasury)] job1 w1 \<and>
   j_sweepTxId (fst (run_job demo_policy [(env_at 9, other)] job1 w1)) = Some ''tx1''"
proof -
  let ?other = "demo_treasury\<lparr>t_sweepTrc20 := (\<lambda>_ _ _ _. Inr ''again''), t_fuelGas := (\<lambda>_ _. Inr ''again'')\<rparr>"
  obtain job1 w1 where r: "run_job demo_policy [(env_at 1, demo_treasury), (env_at 3, demo_treasury)] demo_pending demo_sweep_world = (job1, w1)"
    by fastforce
  have tx: "j_sweepTxId job1 = Some ''tx1''" using demo_transferred unfolding r by simp
  have "same_apart_broadcasts (env_at 9, demo_treasury) (env_at 9, ?other)"
    unfolding same_apart_broadcasts_def by auto
  then have l: "list_all2 same_apart_broadcasts [(env_at 9, demo_treasury)] [(env_at 9, ?other)]" by simp
  have new: "j_status demo_pending = S_PENDING" "j_sweepTxId demo_pending = None" "j_gasTxId demo_pending = None"
    by (simp_all add: demo_job_def)
  show ?thesis
    using sweep_no_second_broadcast[OF new r, THEN conjunct1, rule_format, OF conjI[OF tx l]] unfolding r Let_def prod.case by simp
qed

theorem sweep_gives_up_after_max_witness:
  "let job = demo_pending\<lparr>j_gasTxId := Some ''g'', j_sweepTxId := Some ''s''\<rparr>;
       ets = [(env_at 1, down_treasury), (env_at 2, down_treasury)] in
   j_attempts (fst (run_job demo_policy ets job demo_sweep_world)) = 2 \<and>
   (case run_job demo_policy ets job demo_sweep_world of (job1, w1) \<Rightarrow>
      j_status (fst (snd (process_job (env_at 3) down_treasury demo_policy job1 w1))) = S_FAILED)"
proof -
  let ?job = "demo_pending\<lparr>j_gasTxId := Some ''g'', j_sweepTxId := Some ''s''\<rparr>"
  let ?ets = "[(env_at 1, down_treasury), (env_at 2, down_treasury)]"
  have s: "stores demo_sweep_world ?job" by (rule demo_stores) (simp add: demo_job_def)
  have d: "down down_treasury" by (simp add: down_def down_treasury_def)
  show ?thesis
    using sweep_gives_up_after_max[OF s, where ets = ?ets and t = down_treasury and pol = demo_policy and e = "env_at 3"] d
    by (simp add: demo_job_def demo_policy_def Let_def)
qed

theorem sweep_collects_witness:
  "case run_job demo_policy ((env_at 1, demo_treasury) # [(env_at 2, slow_treasury)] @ (env_at 3, demo_treasury) #
      [(env_at 4, slow_treasury), (env_at 5, slow_treasury)] @ [(env_at 6, demo_treasury)]) demo_pending demo_sweep_world of (job', w') \<Rightarrow>
    j_status job' = S_SWEPT \<and> j_amountMicro job' = 5000000"
proof -
  have s: "stores demo_sweep_world demo_pending" by (rule demo_stores) (simp add: demo_job_def)
  have "case run_job demo_policy ((env_at 1, demo_treasury) # [(env_at 2, slow_treasury)] @ (env_at 3, demo_treasury) #
      [(env_at 4, slow_treasury), (env_at 5, slow_treasury)] @ [(env_at 6, demo_treasury)]) demo_pending demo_sweep_world of (job', w') \<Rightarrow>
    j_status job' = S_SWEPT \<and> j_amountMicro job' = 5000000 \<and> j_attempts job' = 0 \<and>
    j_gasTxId job' = Some ''gas1'' \<and> j_sweepTxId job' = Some ''tx1'' \<and> stores w' job'"
    by (rule sweep_collects[OF s, where g = 0])
      (simp_all add: demo_job_def demo_policy_def demo_treasury_def slow_treasury_def unconfirmed_def)
  then show ?thesis by (simp only: split_beta)
qed

theorem sweep_enqueue_idempotent_witness:
  "case sweep_enqueue (env_at 7) demo_policy ''o9'' 4 ''Tdep'' demo_sweep_store of (r, st') \<Rightarrow>
     \<exists>job. r = Inr job \<and> sweep_findByOrderId st' ''o9'' = Some job \<and>
       sweep_enqueue (env_at 8) demo_policy ''o9'' 5 ''Tother'' st' = (Inr job, st')"
proof -
  have "sweep_findById demo_sweep_store (uuid_at (env_at 7) 0) = None"
    by (simp add: demo_sweep_store_def demo_job_simps)
  from sweep_enqueue_idempotent[OF demo_sweep_store_wf _ this, of demo_policy "''o9''" 4 "''Tdep''" "env_at 8" demo_policy 5 "''Tother''"]
  show ?thesis by (simp add: split_beta Let_def) blast
qed

end
