(* ===== verification/World.thy ===== *)
theory World
  imports OrderStore RefundStore EventStore Subscriptions Usdt AuditLog Webhooks Sweep
begin

text \<open>
  The state the services share, as \<^verbatim>\<open>src/container.ts\<close> wires it: one store of each kind, the optional
  audit log and the delivery store of the outbound webhooks. \<open>withLock\<close> runs its body on the state as it
  finds it; that bodies under one key do not interleave is the lock's property.
\<close>

record world =
  w_orders :: order_store
  w_refunds :: refund_store
  w_subs :: sub_store
  w_events :: event_store
  w_deposits :: deposit_store
  w_sweeps :: sweep_store
  w_audit :: "audit_log option"
  w_hooks :: webhook_store

definition empty_world :: world where
  "empty_world = \<lparr>w_orders = empty_order_store, w_refunds = empty_refund_store, w_subs = empty_sub_store,
     w_events = empty_event_store, w_deposits = empty_deposit_store, w_sweeps = empty_sweep_store,
     w_audit = Some (new_audit_log 10000), w_hooks = empty_webhook_store\<rparr>"

text \<open>The providers map of the services.\<close>

type_synonym providers = "payment_method \<Rightarrow> payment_provider option"

section \<open>Single effects\<close>

definition put_order :: "order \<Rightarrow> world \<Rightarrow> unit result \<times> world" where
  "put_order ord w = writeR (order_update ord (w_orders w)) (\<lambda>st. w\<lparr>w_orders := st\<rparr>) w"

definition mark_event :: "env \<Rightarrow> string \<Rightarrow> world \<Rightarrow> bool \<times> world" where
  "mark_event e x w = (let (isNew, ev) = event_markIfNew e x (w_events w) in (isNew, w\<lparr>w_events := ev\<rparr>))"

definition audit_world :: "env \<Rightarrow> string \<Rightarrow> string option \<Rightarrow> string option \<Rightarrow> json \<Rightarrow> world \<Rightarrow> world" where
  "audit_world e action actor subjectId metadata w =
     w\<lparr>w_audit := audit_opt e \<lparr>ai_action = action, ai_actor = actor, ai_subjectId = subjectId,
        ai_metadata = Some metadata, ai_at = None\<rparr> (w_audit w)\<rparr>"

text \<open>\<open>outbound?.emit(..)\<close>: the dispatcher is there when a webhook is configured.\<close>

definition emit_world :: "env \<Rightarrow> webhook_config option \<Rightarrow> event_type \<Rightarrow> json \<Rightarrow> world \<Rightarrow> world" where
  "emit_world e cfg ty payload w =
     (case cfg of None \<Rightarrow> w | Some c \<Rightarrow> w\<lparr>w_hooks := webhook_emit e c ty payload (w_hooks w)\<rparr>)"

lemma effects_frame [simp]:
  "w_orders (audit_world e a b c d w) = w_orders w" "w_refunds (audit_world e a b c d w) = w_refunds w"
  "w_subs (audit_world e a b c d w) = w_subs w" "w_events (audit_world e a b c d w) = w_events w"
  "w_deposits (audit_world e a b c d w) = w_deposits w" "w_sweeps (audit_world e a b c d w) = w_sweeps w"
  "w_orders (emit_world e cfg ty p w) = w_orders w" "w_refunds (emit_world e cfg ty p w) = w_refunds w"
  "w_subs (emit_world e cfg ty p w) = w_subs w" "w_events (emit_world e cfg ty p w) = w_events w"
  "w_deposits (emit_world e cfg ty p w) = w_deposits w" "w_sweeps (emit_world e cfg ty p w) = w_sweeps w"
  by (simp_all add: audit_world_def emit_world_def split: option.split)

lemma mark_event_frame [simp]:
  "w_orders (snd (mark_event e x w)) = w_orders w" "w_refunds (snd (mark_event e x w)) = w_refunds w"
  "w_subs (snd (mark_event e x w)) = w_subs w" "w_deposits (snd (mark_event e x w)) = w_deposits w"
  "w_sweeps (snd (mark_event e x w)) = w_sweeps w" "w_audit (snd (mark_event e x w)) = w_audit w"
  "w_hooks (snd (mark_event e x w)) = w_hooks w"
  by (simp_all add: mark_event_def split_beta)

lemma mark_event_new: "fst (mark_event e x w) = (\<not> event_seen (w_events w) x)"
  by (simp add: mark_event_def split_beta event_dedupe.mark_new)

lemma mark_event_seen: "event_seen (w_events (snd (mark_event e x w))) y = (y = x \<or> event_seen (w_events w) y)"
  by (simp add: mark_event_def split_beta event_dedupe.mark_seen)

lemma mark_event_old: "event_seen (w_events w) x \<Longrightarrow> mark_event e x w = (False, w)"
  using event_dedupe.mark_old[of "w_events w" x e] event_dedupe.mark_new[of e x "w_events w"]
  by (simp add: mark_event_def split_beta)

lemma put_order_ok:
  "order_findById (w_orders w) (o_id ord) = Some old \<Longrightarrow>
     \<exists>st. order_update ord (w_orders w) = Inr st \<and> put_order ord w = (Inr (), w\<lparr>w_orders := st\<rparr>)"
  using order_repo.update_total[of "w_orders w" ord old] by (auto simp: put_order_def)

text \<open>The orders after writing a known one.\<close>

definition with_order :: "order \<Rightarrow> world \<Rightarrow> world" where
  "with_order ord w = w\<lparr>w_orders := projr (order_update ord (w_orders w))\<rparr>"

lemma put_order_known:
  "order_findById (w_orders w) (o_id ord) = Some old \<Longrightarrow> put_order ord w = (Inr (), with_order ord w)"
  using put_order_ok[of w ord old] by (auto simp: with_order_def)

lemma with_order_find:
  "order_findById (w_orders w) (o_id ord) = Some old \<Longrightarrow>
     order_findById (w_orders (with_order ord w)) k = (if k = o_id ord then Some ord else order_findById (w_orders w) k)"
  using put_order_ok[of w ord old] order_repo.update_find[of ord "w_orders w"] by (auto simp: with_order_def)

lemma with_order_wf:
  "order_store_wf (w_orders w) \<Longrightarrow> order_findById (w_orders w) (o_id ord) = Some old \<Longrightarrow>
     o_outTradeNo old = o_outTradeNo ord \<Longrightarrow> order_store_wf (w_orders (with_order ord w))"
  using put_order_ok[of w ord old] order_repo.update_valid[of "w_orders w" ord old] by (auto simp: with_order_def)

lemma with_order_frame [simp]:
  "w_refunds (with_order ord w) = w_refunds w" "w_subs (with_order ord w) = w_subs w"
  "w_events (with_order ord w) = w_events w" "w_deposits (with_order ord w) = w_deposits w"
  "w_sweeps (with_order ord w) = w_sweeps w" "w_audit (with_order ord w) = w_audit w"
  "w_hooks (with_order ord w) = w_hooks w"
  by (simp_all add: with_order_def)

end
