(* ===== verification/PaymentService.thy ===== *)
theory PaymentService
  imports World
begin

text \<open>
  \<^verbatim>\<open>src/services/paymentService.ts\<close> and \<^verbatim>\<open>src/services/usdtWatcher.ts\<close>: creating orders, settling them by
  callback or by query, expiring the stale ones, and the reconciliation pass over pending USDT orders.
\<close>

record payment_deps =
  pd_providers :: providers
  pd_plans :: "plan list"
  pd_orderTtlMinutes :: int
  pd_usdtUniqueDeltaMax :: int
  pd_usdtAddressMode :: "address_mode option"
  pd_addressAllocator :: "(int \<times> (int \<Rightarrow> string result)) option"
  pd_sweepPolicy :: "sweep_policy option"
  pd_outbound :: "webhook_config option"

record create_order_input =
  ci_userId :: string
  ci_planId :: string
  ci_method :: payment_method
  ci_idempotencyKey :: "string option"
  ci_merchantId :: "string option"

definition provider_of :: "providers \<Rightarrow> payment_method \<Rightarrow> payment_provider result" where
  "provider_of ps m =
     (case ps m of None \<Rightarrow> Inl (ValidationError (''payment method not enabled: '' @ method_name m)) | Some p \<Rightarrow> Inr p)"

section \<open>Creating an order\<close>

definition resolveAmount :: "payment_deps \<Rightarrow> payment_method \<Rightarrow> int \<Rightarrow> int \<Rightarrow> order_store \<Rightarrow> int result" where
  "resolveAmount d m priceCnyFen priceUsdtMicro st =
     (if m \<noteq> Usdt then Inr priceCnyFen
      else if pd_usdtAddressMode d = Some PerOrder then Inr priceUsdtMicro
      else let pending = order_findPendingByMethod st Usdt; taken = map o_amount pending
           in allocateUniqueAmount priceUsdtMicro taken (pd_usdtUniqueDeltaMax d))"

text \<open>The deposit address of per-order mode, put on the order before the order is stored.\<close>

definition attach_deposit :: "env \<Rightarrow> payment_deps \<Rightarrow> order \<Rightarrow> world \<Rightarrow> order result \<times> world" where
  "attach_deposit e d ord w =
     (if o_method ord = Usdt \<and> pd_usdtAddressMode d = Some PerOrder then
        (case pd_addressAllocator d of
           None \<Rightarrow> (Inl (ProviderError ''per-order USDT mode is enabled but no address allocator is configured''), w)
         | Some (start, derive) \<Rightarrow>
             let (r, ds) = allocate e start derive (o_id ord) (w_deposits w); w1 = w\<lparr>w_deposits := ds\<rparr>
             in case r of
                  Inl err \<Rightarrow> (Inl err, w1)
                | Inr allocated \<Rightarrow>
                    (Inr (ord\<lparr>o_metadata := (o_metadata ord)\<lparr>md_depositAddress := Some (d_address allocated),
                       md_depositIndex := Some (string_of_int (d_index allocated))\<rparr>\<rparr>), w1))
      else (Inr ord, w))"

definition new_order :: "env \<Rightarrow> payment_deps \<Rightarrow> create_order_input \<Rightarrow> plan \<Rightarrow> int \<Rightarrow> order" where
  "new_order e d inp plan amount =
     (let now = now_at e 0
      in \<lparr>o_id = uuid_at e 0,
          o_merchantId = Some (case ci_merchantId inp of None \<Rightarrow> DEFAULT_MERCHANT_ID | Some m \<Rightarrow> m),
          o_outTradeNo = random_at e 0, o_userId = ci_userId inp, o_planId = p_id plan, o_method = ci_method inp,
          o_currency = (if ci_method inp = Usdt then USDT else CNY), o_amount = amount, o_status = PENDING,
          o_providerTxnId = None, o_idempotencyKey = ci_idempotencyKey inp, o_createdAt = now, o_updatedAt = now,
          o_expiresAt = now + pd_orderTtlMinutes d * 60000, o_paidAt = None, o_refundedAmount = None,
          o_metadata = no_metadata\<rparr>)"

text \<open>From the stored order on: the provider's payment intent, and the writes that follow it.\<close>

definition finish_create :: "env \<Rightarrow> payment_provider \<Rightarrow> order \<Rightarrow> world \<Rightarrow> (order \<times> create_payment_result) result \<times> world" where
  "finish_create e prov ord w =
     (case pp_createPayment prov ord of
        Inl err \<Rightarrow>
          (case assertTransition (o_status ord) FAILED of
             Inl err2 \<Rightarrow> (Inl err2, w)
           | Inr st \<Rightarrow> bindR (put_order (ord\<lparr>o_status := st, o_updatedAt := now_at e 2\<rparr>) w) (\<lambda>_ w1. (Inl err, w1)))
      | Inr payInfo \<Rightarrow>
          let saved = ord\<lparr>o_metadata := (o_metadata ord)\<lparr>md_payInfo := Some payInfo\<rparr>, o_updatedAt := now_at e 3\<rparr>
          in bindR (put_order saved w) (\<lambda>_ w1.
               (Inr (saved, payInfo),
                audit_world (env_from 4 e) ''order.created'' (Some (o_userId saved)) (Some (o_id saved))
                  (JObj [(''method'', JStr (method_name (o_method saved))), (''amount'', JNum (o_amount saved)),
                         (''currency'', JStr (currency_name (o_currency saved)))]) w1)))"

definition createOrder :: "env \<Rightarrow> payment_deps \<Rightarrow> create_order_input \<Rightarrow> world \<Rightarrow>
    (order \<times> create_payment_result) result \<times> world" where
  "createOrder e d inp w =
     (case (if truthy (ci_idempotencyKey inp) then order_findByIdempotencyKey (w_orders w) (the (ci_idempotencyKey inp)) else None) of
        Some existing \<Rightarrow>
          (case md_payInfo (o_metadata existing) of
             Some payInfo \<Rightarrow> (Inr (existing, payInfo), w)
           | None \<Rightarrow>
               (case provider_of (pd_providers d) (o_method existing) of
                  Inl err \<Rightarrow> (Inl err, w)
                | Inr prov \<Rightarrow>
                    (case pp_createPayment prov existing of
                       Inl err \<Rightarrow> (Inl err, w)
                     | Inr payInfo \<Rightarrow> (Inr (existing, payInfo), w))))
      | None \<Rightarrow>
          (case getPlan (pd_plans d) (ci_planId inp) of
             None \<Rightarrow> (Inl (NotFoundError (''plan not found: '' @ ci_planId inp)), w)
           | Some plan \<Rightarrow>
               (case provider_of (pd_providers d) (ci_method inp) of
                  Inl err \<Rightarrow> (Inl err, w)
                | Inr prov \<Rightarrow>
                    (case resolveAmount d (ci_method inp) (p_priceCnyFen plan) (p_priceUsdtMicro plan) (w_orders w) of
                       Inl err \<Rightarrow> (Inl err, w)
                     | Inr amount \<Rightarrow>
                         bindR (attach_deposit (env_from 1 e) d (new_order e d inp plan amount) w) (\<lambda>ord w1.
                         bindR (writeR (order_create ord (w_orders w1)) (\<lambda>st. w1\<lparr>w_orders := st\<rparr>) w1) (\<lambda>_ w2.
                           finish_create e prov ord w2))))))"

section \<open>Settlement\<close>

text \<open>The amount paid is \<open>undefined\<close> when a notification has none; then neither comparison with a number holds.\<close>

record paid_info =
  pi_providerTxnId :: string
  pi_paidAmount :: "int option"
  pi_currency :: currency

definition below :: "int option \<Rightarrow> int \<Rightarrow> bool" where
  "below paidAmount n = (case paidAmount of None \<Rightarrow> False | Some a \<Rightarrow> a < n)"

lemma below_simps [simp]: "\<not> below None n" "below (Some a) n = (a < n)"
  by (simp_all add: below_def)

text \<open>
  The container's \<open>onUsdtSettled\<close>, and its call: best effort, so an error is swallowed. \<open>Number(..)\<close> of an
  absent index is \<open>NaN\<close>.
\<close>

definition onUsdtSettled :: "env \<Rightarrow> sweep_policy \<Rightarrow> order \<Rightarrow> world \<Rightarrow> unit result \<times> world" where
  "onUsdtSettled e pol ord w =
     (let depositAddress = md_depositAddress (o_metadata ord);
          depositIndex = Option.bind (md_depositIndex (o_metadata ord)) (\<lambda>s. int_of_num (js_number_of s))
      in if \<not> truthy depositAddress \<or> depositIndex = None then (Inr (), w)
         else let (r, st) = sweep_enqueue e pol (o_id ord) (the depositIndex) (the depositAddress) (w_sweeps w);
                  w1 = w\<lparr>w_sweeps := st\<rparr>
              in case r of Inl err \<Rightarrow> (Inl err, w1) | Inr _ \<Rightarrow> (Inr (), w1))"

definition settle_sweep :: "env \<Rightarrow> payment_deps \<Rightarrow> order \<Rightarrow> world \<Rightarrow> world" where
  "settle_sweep e d ord w =
     (if o_method ord = Usdt \<and> truthy (md_depositAddress (o_metadata ord)) then
        (case pd_sweepPolicy d of None \<Rightarrow> w | Some pol \<Rightarrow> snd (onUsdtSettled e pol ord w))
      else w)"

definition fulfilled_payload :: "order \<Rightarrow> json" where
  "fulfilled_payload ord = JObj ([(''orderId'', JStr (o_id ord)), (''outTradeNo'', JStr (o_outTradeNo ord)),
     (''userId'', JStr (o_userId ord)), (''planId'', JStr (o_planId ord)), (''amount'', JNum (o_amount ord)),
     (''currency'', JStr (currency_name (o_currency ord)))] @ opt_field ''providerTxnId'' JStr (o_providerTxnId ord))"

definition applyPayment :: "env \<Rightarrow> payment_deps \<Rightarrow> string \<Rightarrow> paid_info \<Rightarrow> world \<Rightarrow> order result \<times> world" where
  "applyPayment e d orderId paid w =
     (case order_findById (w_orders w) orderId of
        None \<Rightarrow> (Inl (NotFoundError (''order not found: '' @ orderId)), w)
      | Some ord \<Rightarrow>
          if o_status ord = PAID \<or> o_status ord = FULFILLED then (Inr ord, w)
          else if isTerminal (o_status ord) then
            (Inl (ProviderError (''order '' @ orderId @ '' is '' @ order_status_name (o_status ord) @ ''; cannot accept payment'')), w)
          else if pi_currency paid \<noteq> o_currency ord then
            (Inl (AmountMismatchError (''currency mismatch: paid '' @ currency_name (pi_currency paid) @ '', expected ''
               @ currency_name (o_currency ord))), w)
          else if below (pi_paidAmount paid) (o_amount ord) then
            (Inl (AmountMismatchError (''underpayment: paid '' @ string_of_int (the (pi_paidAmount paid)) @ '', expected ''
               @ string_of_int (o_amount ord))), w)
          else
            let now = now_at e 0
            in (case assertTransition (o_status ord) PAID of
                  Inl err \<Rightarrow> (Inl err, w)
                | Inr st \<Rightarrow>
                    let paidOrder = ord\<lparr>o_status := st, o_providerTxnId := Some (pi_providerTxnId paid),
                          o_paidAt := Some now, o_updatedAt := now\<rparr>
                    in bindR (put_order paidOrder w) (\<lambda>_ w1.
                         let (r, subs) = fulfillOrder (env_from 1 e) (pd_plans d) paidOrder (w_subs w1);
                             w2 = w1\<lparr>w_subs := subs\<rparr>
                         in case r of
                              Inl err \<Rightarrow> (Inl err, w2)
                            | Inr (finalOrder, _) \<Rightarrow>
                                bindR (put_order finalOrder w2) (\<lambda>_ w3.
                                  let w4 = audit_world (env_from 2 e) ''order.fulfilled'' (Some (o_userId finalOrder))
                                        (Some (o_id finalOrder))
                                        (JObj ([(''providerTxnId'', JStr (pi_providerTxnId paid))] @
                                               opt_field ''amount'' JNum (pi_paidAmount paid) @
                                               [(''currency'', JStr (currency_name (pi_currency paid)))])) w3;
                                      w5 = emit_world (env_from 3 e) (pd_outbound d) Ev_order_fulfilled
                                        (fulfilled_payload finalOrder) w4
                                  in (Inr finalOrder, settle_sweep (env_from 5 e) d finalOrder w5)))))"

definition callback_key :: "payment_method \<Rightarrow> string \<Rightarrow> string" where
  "callback_key m i = ''cb:'' @ method_name m @ '':'' @ i"

definition txn_key :: "payment_method \<Rightarrow> string \<Rightarrow> string" where
  "txn_key m i = ''txn:'' @ method_name m @ '':'' @ i"

fun is_amount_mismatch :: "app_error \<Rightarrow> bool" where
  "is_amount_mismatch (AmountMismatchError _) = True"
| "is_amount_mismatch _ = False"

definition handleCallback :: "env \<Rightarrow> payment_deps \<Rightarrow> payment_method \<Rightarrow> raw_callback \<Rightarrow> world \<Rightarrow> callback_ack result \<times> world" where
  "handleCallback e d m raw w =
     (case provider_of (pd_providers d) m of
        Inl err \<Rightarrow> (Inl err, w)
      | Inr prov \<Rightarrow>
          (case pp_verifyCallback prov raw of
             Inl err \<Rightarrow> (Inl err, w)
           | Inr r \<Rightarrow>
               if \<not> cb_paid r then (Inr (pp_callbackAck prov True), w)
               else
                 let (isNew, w1) = mark_event e (callback_key m (cb_eventId r)) w
                 in if \<not> isNew then (Inr (pp_callbackAck prov True), w1)
                    else (case order_findByOutTradeNo (w_orders w1) (cb_outTradeNo r) of
                        None \<Rightarrow> (Inr (pp_callbackAck prov False), w1)
                      | Some ord \<Rightarrow>
                          (case applyPayment (env_from 1 e) d (o_id ord)
                              \<lparr>pi_providerTxnId = cb_providerTxnId r, pi_paidAmount = cb_paidAmount r, pi_currency = cb_currency r\<rparr> w1 of
                             (Inr _, w2) \<Rightarrow> (Inr (pp_callbackAck prov True), w2)
                           | (Inl err, w2) \<Rightarrow> (Inr (pp_callbackAck prov (is_amount_mismatch err)), w2)))))"

definition syncOrder :: "env \<Rightarrow> payment_deps \<Rightarrow> string \<Rightarrow> world \<Rightarrow> order result \<times> world" where
  "syncOrder e d orderId w =
     (case order_findById (w_orders w) orderId of
        None \<Rightarrow> (Inl (NotFoundError (''order not found: '' @ orderId)), w)
      | Some ord \<Rightarrow>
          if o_status ord \<noteq> PENDING then (Inr ord, w)
          else (case provider_of (pd_providers d) (o_method ord) of
              Inl err \<Rightarrow> (Inl err, w)
            | Inr prov \<Rightarrow>
                (case pp_queryPayment prov ord of
                   Inl err \<Rightarrow> (Inl err, w)
                 | Inr q \<Rightarrow>
                     if \<not> q_paid q \<or> \<not> truthy (q_providerTxnId q) then (Inr ord, w)
                     else
                       let (isNew, w1) = mark_event e (txn_key (o_method ord) (the (q_providerTxnId q))) w
                       in if \<not> isNew then
                            (Inr (case order_findById (w_orders w1) orderId of None \<Rightarrow> ord | Some x \<Rightarrow> x), w1)
                          else applyPayment (env_from 1 e) d (o_id ord)
                            \<lparr>pi_providerTxnId = the (q_providerTxnId q),
                             pi_paidAmount = Some (case q_paidAmount q of None \<Rightarrow> o_amount ord | Some a \<Rightarrow> a),
                             pi_currency = o_currency ord\<rparr> w1)))"

section \<open>Expiry of stale orders\<close>

fun expire_loop :: "env \<Rightarrow> int \<Rightarrow> nat \<Rightarrow> order list \<Rightarrow> nat \<Rightarrow> world \<Rightarrow> nat result \<times> world" where
  "expire_loop e now i [] count w = (Inr count, w)"
| "expire_loop e now i (x # rest) count w =
     (if o_status x = PENDING \<and> o_expiresAt x \<le> now then
        (case order_findById (w_orders w) (o_id x) of
           None \<Rightarrow> expire_loop e now (i + 1) rest count w
         | Some fresh \<Rightarrow>
             if o_status fresh \<noteq> PENDING then expire_loop e now (i + 1) rest count w
             else (case assertTransition (o_status fresh) EXPIRED of
                 Inl err \<Rightarrow> (Inl err, w)
               | Inr st \<Rightarrow>
                   bindR (put_order (fresh\<lparr>o_status := st, o_updatedAt := now_at e (1 + i)\<rparr>) w)
                     (\<lambda>_ w1. expire_loop e now (i + 1) rest (count + 1) w1)))
      else expire_loop e now (i + 1) rest count w)"

definition expireStaleOrders :: "env \<Rightarrow> world \<Rightarrow> nat result \<times> world" where
  "expireStaleOrders e w = expire_loop e (now_at e 0) 0 (order_all (w_orders w)) 0 w"

definition getOrder :: "string \<Rightarrow> world \<Rightarrow> order option" where
  "getOrder orderId w = order_findById (w_orders w) orderId"

section \<open>The reconciliation pass over USDT orders\<close>

text \<open>\<open>deps i\<close> are the dependencies as they answer the \<open>i\<close>-th query; a failed sync is skipped.\<close>

fun reconcile_loop :: "env \<Rightarrow> (nat \<Rightarrow> payment_deps) \<Rightarrow> nat \<Rightarrow> order list \<Rightarrow> nat \<Rightarrow> world \<Rightarrow> nat \<times> world" where
  "reconcile_loop e d i [] settled w = (settled, w)"
| "reconcile_loop e d i (x # rest) settled w =
     (case syncOrder (env_from (8 * i) e) (d i) (o_id x) w of
        (Inl err, w1) \<Rightarrow> reconcile_loop e d (i + 1) rest settled w1
      | (Inr updated, w1) \<Rightarrow> reconcile_loop e d (i + 1) rest (if o_status updated \<noteq> PENDING then settled + 1 else settled) w1)"

definition reconcileOnce :: "env \<Rightarrow> (nat \<Rightarrow> payment_deps) \<Rightarrow> world \<Rightarrow> nat \<times> world" where
  "reconcileOnce e d w = reconcile_loop e d 0 (order_findPendingByMethod (w_orders w) Usdt) 0 w"

section \<open>What a settlement does\<close>

definition paid_order :: "env \<Rightarrow> paid_info \<Rightarrow> order \<Rightarrow> order" where
  "paid_order e paid ord = ord\<lparr>o_status := PAID, o_providerTxnId := Some (pi_providerTxnId paid),
     o_paidAt := Some (now_at e 0), o_updatedAt := now_at e 0\<rparr>"

definition final_order :: "env \<Rightarrow> paid_info \<Rightarrow> order \<Rightarrow> order" where
  "final_order e paid ord = (paid_order e paid ord)\<lparr>o_status := FULFILLED, o_updatedAt := now_at e 1\<rparr>"

text \<open>The payment is accepted: the order is pending, the currency is its own, and the amount covers it.\<close>

definition acceptable :: "paid_info \<Rightarrow> order \<Rightarrow> bool" where
  "acceptable paid ord \<longleftrightarrow> o_status ord = PENDING \<and> pi_currency paid = o_currency ord \<and> \<not> below (pi_paidAmount paid) (o_amount ord)"

lemma order_fields_paid [simp]:
  "o_id (paid_order e paid ord) = o_id ord" "o_id (final_order e paid ord) = o_id ord"
  "o_outTradeNo (paid_order e paid ord) = o_outTradeNo ord" "o_outTradeNo (final_order e paid ord) = o_outTradeNo ord"
  "o_userId (paid_order e paid ord) = o_userId ord" "o_planId (paid_order e paid ord) = o_planId ord"
  "o_userId (final_order e paid ord) = o_userId ord" "o_planId (final_order e paid ord) = o_planId ord"
  "o_status (paid_order e paid ord) = PAID" "o_status (final_order e paid ord) = FULFILLED"
  "o_method (final_order e paid ord) = o_method ord" "o_metadata (final_order e paid ord) = o_metadata ord"
  "o_amount (paid_order e paid ord) = o_amount ord" "o_amount (final_order e paid ord) = o_amount ord"
  by (simp_all add: paid_order_def final_order_def)

lemma settle_sweep_frame [simp]:
  "w_orders (settle_sweep e d ord w) = w_orders w" "w_refunds (settle_sweep e d ord w) = w_refunds w"
  "w_subs (settle_sweep e d ord w) = w_subs w" "w_events (settle_sweep e d ord w) = w_events w"
  "w_deposits (settle_sweep e d ord w) = w_deposits w" "w_audit (settle_sweep e d ord w) = w_audit w"
  "w_hooks (settle_sweep e d ord w) = w_hooks w"
  by (simp_all add: settle_sweep_def onUsdtSettled_def Let_def split_beta split: option.split sum.split)

definition settled_subs :: "env \<Rightarrow> payment_deps \<Rightarrow> paid_info \<Rightarrow> order \<Rightarrow> world \<Rightarrow> sub_store" where
  "settled_subs e d paid ord w = snd (fulfillOrder (env_from 1 e) (pd_plans d) (paid_order e paid ord) (w_subs w))"

lemma fulfill_paid:
  assumes "getPlan (pd_plans d) (o_planId ord) = Some plan"
  shows "fulfillOrder (env_from 1 e) (pd_plans d) (paid_order e paid ord) st =
    (Inr (final_order e paid ord, fst (granted (env_from 1 e) (paid_order e paid ord) plan st)),
     snd (granted (env_from 1 e) (paid_order e paid ord) plan st))"
  using fulfillOrder_granted[of "paid_order e paid ord" "pd_plans d" plan "env_from 1 e" st] assms
  by (simp add: assertTransition_def canTransition_def final_order_def)

lemma fulfill_no_plan:
  "getPlan (pd_plans d) (o_planId ord) = None \<Longrightarrow> fulfillOrder (env_from 1 e) (pd_plans d) (paid_order e paid ord) st =
    (Inl (NotFoundError (''plan not found: '' @ o_planId ord)), st)"
  by (simp add: fulfillOrder_def)

lemma applyPayment_refused:
  assumes "order_findById (w_orders w) i = Some ord" "\<not> acceptable paid ord"
  shows "snd (applyPayment e d i paid w) = w"
    and "o_status ord = PENDING \<Longrightarrow> \<exists>m. fst (applyPayment e d i paid w) = Inl (AmountMismatchError m)"
    and "o_status ord \<noteq> PENDING \<Longrightarrow> fst (applyPayment e d i paid w) =
      (if o_status ord \<in> {PAID, FULFILLED} then Inr ord
       else Inl (ProviderError (''order '' @ i @ '' is '' @ order_status_name (o_status ord) @ ''; cannot accept payment'')))"
  using assms by (cases "o_status ord"; auto simp: applyPayment_def acceptable_def isTerminal_iff)+

lemma applyPayment_no_plan:
  assumes "order_findById (w_orders w) i = Some ord" "o_id ord = i" "acceptable paid ord"
    and "getPlan (pd_plans d) (o_planId ord) = None"
  shows "applyPayment e d i paid w =
    (Inl (NotFoundError (''plan not found: '' @ o_planId ord)), with_order (paid_order e paid ord) w)"
proof -
  have "put_order (paid_order e paid ord) w = (Inr (), with_order (paid_order e paid ord) w)"
    using put_order_known[of w "paid_order e paid ord" ord] assms by simp
  moreover have "assertTransition PENDING PAID = Inr PAID" by (simp add: assertTransition_def canTransition_def)
  ultimately show ?thesis
    using assms fulfill_no_plan[of d ord e paid "w_subs w"]
    by (simp add: applyPayment_def acceptable_def isTerminal_iff Let_def flip: paid_order_def)
qed

lemma applyPayment_accepted:
  assumes "order_findById (w_orders w) i = Some ord" "o_id ord = i" "acceptable paid ord"
    and plan: "getPlan (pd_plans d) (o_planId ord) = Some plan"
  shows "\<exists>w'. applyPayment e d i paid w = (Inr (final_order e paid ord), w') \<and>
    w_orders w' = w_orders (with_order (final_order e paid ord) (with_order (paid_order e paid ord) w)) \<and>
    w_subs w' = settled_subs e d paid ord w \<and> w_refunds w' = w_refunds w \<and> w_events w' = w_events w \<and>
    w_deposits w' = w_deposits w"
proof -
  let ?p = "paid_order e paid ord" and ?f = "final_order e paid ord"
  let ?w1 = "with_order ?p w"
  let ?w2 = "?w1\<lparr>w_subs := settled_subs e d paid ord w\<rparr>"
  have p: "put_order ?p w = (Inr (), ?w1)" using put_order_known[of w ?p ord] assms(1,2) by simp
  have f1: "order_findById (w_orders ?w1) i = Some ?p" using with_order_find[of w ?p ord] assms(1,2) by simp
  then have f: "put_order ?f ?w2 = (Inr (), with_order ?f ?w2)" using put_order_known[of ?w2 ?f ?p] assms(2) by simp
  have "assertTransition PENDING PAID = Inr PAID" by (simp add: assertTransition_def canTransition_def)
  then show ?thesis
    using assms p f fulfill_paid[OF plan, of e paid "w_subs w"]
    by (simp add: applyPayment_def acceptable_def isTerminal_iff Let_def settled_subs_def flip: paid_order_def)
      (simp add: with_order_def)
qed

lemma applyPayment_find:
  assumes "order_store_wf (w_orders w)" "order_findById (w_orders w) i = Some ord" "acceptable paid ord"
    and "getPlan (pd_plans d) (o_planId ord) = Some plan" "applyPayment e d i paid w = (r, w')"
  shows "r = Inr (final_order e paid ord)" "order_store_wf (w_orders w')"
    and "order_findById (w_orders w') k = (if k = i then Some (final_order e paid ord) else order_findById (w_orders w) k)"
proof -
  have id: "o_id ord = i" using order_repo.find_key[OF assms(1,2)] .
  let ?p = "paid_order e paid ord" and ?f = "final_order e paid ord"
  let ?w1 = "with_order ?p w"
  from applyPayment_accepted[OF assms(2) id assms(3,4), of e] assms(5)
  have R: "r = Inr ?f" "w_orders w' = w_orders (with_order ?f ?w1)" by auto
  have f1: "order_findById (w_orders ?w1) k = (if k = i then Some ?p else order_findById (w_orders w) k)" for k
    using with_order_find[of w ?p ord] assms(2) id by simp
  have wf1: "order_store_wf (w_orders ?w1)" using with_order_wf[OF assms(1), of ?p ord] assms(2) id by simp
  show "r = Inr ?f" by (rule R(1))
  show "order_store_wf (w_orders w')" unfolding R(2) using with_order_wf[OF wf1, of ?f ?p] f1 id by simp
  show "order_findById (w_orders w') k = (if k = i then Some ?f else order_findById (w_orders w) k)"
    unfolding R(2) using with_order_find[of ?w1 ?f ?p] f1 id by simp
qed

lemma fulfillOrder_status: "fst (fulfillOrder e plans ord st) = Inr (ord', s) \<Longrightarrow> o_status ord' = FULFILLED"
  by (auto simp: fulfillOrder_def assertTransition_def Let_def split_beta split: if_splits option.splits sum.splits)

lemma applyPayment_settled:
  assumes "applyPayment e d i p w = (Inr ord, w')"
  shows "o_status ord = PAID \<or> o_status ord = FULFILLED"
  using assms
  by (auto simp: applyPayment_def Let_def split_beta put_order_def writeR_def
      split: option.splits sum.splits if_splits prod.splits dest: fulfillOrder_status)

text \<open>The facts a callback's verified content establishes against the store.\<close>

definition cb_info :: "callback_result \<Rightarrow> paid_info" where
  "cb_info r = \<lparr>pi_providerTxnId = cb_providerTxnId r, pi_paidAmount = cb_paidAmount r, pi_currency = cb_currency r\<rparr>"

definition verified :: "payment_deps \<Rightarrow> payment_method \<Rightarrow> raw_callback \<Rightarrow> payment_provider \<Rightarrow> callback_result \<Rightarrow> bool" where
  "verified d m raw prov r \<longleftrightarrow> pd_providers d m = Some prov \<and> pp_verifyCallback prov raw = Inr r"

lemma handleCallback_new:
  assumes "verified d m raw prov r" "cb_paid r" "\<not> event_seen (w_events w) (callback_key m (cb_eventId r))"
  shows "handleCallback e d m raw w =
    (let w1 = snd (mark_event e (callback_key m (cb_eventId r)) w) in
     case order_findByOutTradeNo (w_orders w) (cb_outTradeNo r) of
       None \<Rightarrow> (Inr (pp_callbackAck prov False), w1)
     | Some ord \<Rightarrow> (case applyPayment (env_from 1 e) d (o_id ord) (cb_info r) w1 of
         (Inr _, w2) \<Rightarrow> (Inr (pp_callbackAck prov True), w2)
       | (Inl err, w2) \<Rightarrow> (Inr (pp_callbackAck prov (is_amount_mismatch err)), w2)))"
proof -
  have "fst (mark_event e (callback_key m (cb_eventId r)) w)"
    using assms(3) by (simp add: mark_event_new)
  then show ?thesis
    using assms(1,2) unfolding cb_info_def by (simp add: handleCallback_def verified_def provider_of_def Let_def split_beta)
qed

text \<open>
  C11: a good callback settles its order, completely and at once. For a verified payment notice not seen
  before, of a pending order of a known plan, in the order's currency and covering its amount, the answer
  is the provider's success; the order becomes FULFILLED, keeping everything but its status, transaction
  id and times; its user's current subscription is extended or started as the plan says; the event is
  remembered; and no other order, no refund and nobody else's current subscription changes.
\<close>

theorem callback_settles_order:
  assumes "order_store_wf (w_orders w)" "sub_store_wf (w_subs w)" "verified d m raw prov r" "cb_paid r"
    and "\<not> event_seen (w_events w) (callback_key m (cb_eventId r))"
    and "order_findByOutTradeNo (w_orders w) (cb_outTradeNo r) = Some ord" "o_status ord = PENDING"
    and "cb_currency r = o_currency ord" "\<not> below (cb_paidAmount r) (o_amount ord)"
    and "getPlan (pd_plans d) (o_planId ord) = Some plan" "uuid_at e 2 \<noteq> []" "sub_find (w_subs w) (uuid_at e 2) = None"
  shows "\<exists>w' ord' s. handleCallback e d m raw w = (Inr (pp_callbackAck prov True), w') \<and>
    (\<forall>k. order_findById (w_orders w') k = (if k = o_id ord then Some ord' else order_findById (w_orders w) k)) \<and>
    ord' = ord\<lparr>o_status := FULFILLED, o_providerTxnId := Some (cb_providerTxnId r), o_paidAt := Some (now_at e 1),
      o_updatedAt := now_at e 2\<rparr> \<and>
    (\<forall>u. sub_findActiveByUser (w_subs w') u = (if u = o_userId ord then Some s else sub_findActiveByUser (w_subs w) u)) \<and>
    s_expiresAt s = base_expiry (w_subs w) (o_userId ord) (now_at e 2) + plan_ms plan \<and> last (s_orderIds s) = o_id ord \<and>
    event_seen (w_events w') (callback_key m (cb_eventId r)) \<and> w_refunds w' = w_refunds w \<and>
    order_store_wf (w_orders w') \<and> sub_store_wf (w_subs w')"
proof -
  let ?w1 = "snd (mark_event e (callback_key m (cb_eventId r)) w)" and ?e = "env_from 1 e" and ?i = "cb_info r"
  have acc: "acceptable ?i ord" using assms(7-9) by (simp add: acceptable_def cb_info_def)
  have stored: "order_findById (w_orders ?w1) (o_id ord) = Some ord"
    using order_repo.lookup_find[OF assms(1,6)] by simp
  from applyPayment_accepted[OF stored refl acc assms(10), of ?e] obtain w' where
    w': "applyPayment ?e d (o_id ord) ?i ?w1 = (Inr (final_order ?e ?i ord), w')"
      "w_subs w' = settled_subs ?e d ?i ord ?w1" "w_refunds w' = w_refunds w" "w_events w' = w_events ?w1" by auto
  have "order_store_wf (w_orders ?w1)" using assms(1) by simp
  note F = applyPayment_find[OF this stored acc assms(10) w'(1)]
  obtain s st' where g: "granted (env_from 1 ?e) (paid_order ?e ?i ord) plan (w_subs w) = (s, st')" by fastforce
  have st': "w_subs w' = st'" using fulfill_paid[OF assms(10), of ?e ?i "w_subs w"] g by (simp add: w'(2) settled_subs_def)
  have new: "uuid_at (env_from 1 ?e) 0 \<noteq> []" "sub_find (w_subs w) (uuid_at (env_from 1 ?e) 0) = None"
    using assms(11,12) by (simp_all add: numeral_2_eq_2)
  note G = granted_props[OF assms(2) new g]
  have run: "handleCallback e d m raw w = (Inr (pp_callbackAck prov True), w')"
    using handleCallback_new[OF assms(3-5), of e] assms(6) w'(1) by (simp add: Let_def)
  have "last (s_orderIds s) = o_id ord" using G(5) by auto
  then show ?thesis
    using run F(2,3) G(1-3) w'(3,4)
    by (intro exI[of _ w'] exI[of _ "final_order ?e ?i ord"] exI[of _ s])
      (simp add: st' mark_event_seen final_order_def paid_order_def cb_info_def numeral_2_eq_2)
qed

lemma callback_known:
  assumes "verified d m raw prov r" "cb_paid r" "event_seen (w_events w) (callback_key m (cb_eventId r))"
  shows "handleCallback e d m raw w = (Inr (pp_callbackAck prov True), w)"
  using assms by (simp add: handleCallback_def verified_def provider_of_def mark_event_old)

lemma applyPayment_events [simp]: "w_events (snd (applyPayment e d i p w)) = w_events w"
  by (auto simp: applyPayment_def Let_def split_beta put_order_def writeR_def split: option.split sum.split)

text \<open>
  C14: a callback that was processed is processed only once. When the first delivery of a verified payment
  notice was answered with success, the order it names was there and has been settled (or had been before),
  or the notice was refused for good because its amount or currency does not fit the order. From then on,
  at any later time and whatever happens to orders, refunds and subscriptions in between, delivering
  the notice again is answered with success and changes nothing, while the event is remembered. (A first
  delivery that failed is not covered: see the lost retry below.)
\<close>

theorem callback_idempotent:
  assumes "verified d m raw prov r" "cb_paid r" "\<not> event_seen (w_events w) (callback_key m (cb_eventId r))"
    and "pp_callbackAck prov True \<noteq> pp_callbackAck prov False"
    and "handleCallback e d m raw w = (Inr (pp_callbackAck prov True), w1)"
  shows "(\<exists>ord. order_findByOutTradeNo (w_orders w) (cb_outTradeNo r) = Some ord \<and>
      (case applyPayment (env_from 1 e) d (o_id ord) (cb_info r) (snd (mark_event e (callback_key m (cb_eventId r)) w)) of
         (Inr settled, wa) \<Rightarrow> o_status settled \<in> {PAID, FULFILLED} \<and> w1 = wa
       | (Inl err, wa) \<Rightarrow> is_amount_mismatch err \<and> w1 = wa)) \<and>
    (\<forall>w2 e'. (\<forall>k. event_seen (w_events w1) k \<longrightarrow> event_seen (w_events w2) k) \<longrightarrow>
      handleCallback e' d m raw w2 = (Inr (pp_callbackAck prov True), w2))"
proof -
  let ?k = "callback_key m (cb_eventId r)"
  let ?wm = "snd (mark_event e ?k w)"
  note new = handleCallback_new[OF assms(1-3), of e]
  obtain ord where ord: "order_findByOutTradeNo (w_orders w) (cb_outTradeNo r) = Some ord"
    using new assms(4,5) by (cases "order_findByOutTradeNo (w_orders w) (cb_outTradeNo r)") (auto simp: Let_def)
  obtain ans wa where run: "applyPayment (env_from 1 e) d (o_id ord) (cb_info r) ?wm = (ans, wa)" by fastforce
  have w1: "w1 = wa" using new assms(5) ord run by (cases ans) (auto simp: Let_def)
  have "event_seen (w_events wa) ?k"
    using applyPayment_events[of "env_from 1 e" d "o_id ord" "cb_info r" ?wm] mark_event_seen[of e ?k w ?k]
    unfolding run by simp
  then have seen: "event_seen (w_events w1) ?k" by (simp add: w1)
  have "case ans of Inr settled \<Rightarrow> o_status settled \<in> {PAID, FULFILLED} | Inl err \<Rightarrow> is_amount_mismatch err"
  proof (cases ans)
    case (Inl err)
    then have "pp_callbackAck prov (is_amount_mismatch err) = pp_callbackAck prov True"
      using new assms(5) ord run by (simp add: Let_def)
    then show ?thesis using Inl assms(4) by (cases "is_amount_mismatch err") auto
  next
    case (Inr settled)
    then show ?thesis using applyPayment_settled[of "env_from 1 e" d "o_id ord" "cb_info r" ?wm] run by simp
  qed
  then show ?thesis
    using ord run w1 callback_known[OF assms(1,2)] seen by (cases ans) auto
qed

text \<open>
  a payment that does not fit is not booked. A verified new notice for a known order changes nothing
  but the memory of the event when the order is not pending, or the currency differs, or the amount falls
  short; it is acknowledged as done when nothing is left to do (settled order) or a retry could not
  help (mismatch), and refused for an order that is expired, cancelled, failed or refunded.
\<close>

theorem callback_rejects_unfit:
  assumes "order_store_wf (w_orders w)" "verified d m raw prov r" "cb_paid r"
    and "\<not> event_seen (w_events w) (callback_key m (cb_eventId r))"
    and "order_findByOutTradeNo (w_orders w) (cb_outTradeNo r) = Some ord"
    and "o_status ord \<noteq> PENDING \<or> cb_currency r \<noteq> o_currency ord \<or> below (cb_paidAmount r) (o_amount ord)"
  shows "handleCallback e d m raw w =
    (Inr (pp_callbackAck prov (\<not> isTerminal (o_status ord))), snd (mark_event e (callback_key m (cb_eventId r)) w))"
proof -
  let ?w1 = "snd (mark_event e (callback_key m (cb_eventId r)) w)" and ?i = "cb_info r" and ?e = "env_from 1 e"
  have stored: "order_findById (w_orders ?w1) (o_id ord) = Some ord"
    using order_repo.lookup_find[OF assms(1,5)] by simp
  have na: "\<not> acceptable ?i ord" using assms(6) by (auto simp: acceptable_def cb_info_def)
  note R = applyPayment_refused[OF stored na, of ?e d]
  obtain x where x: "applyPayment ?e d (o_id ord) ?i ?w1 = (x, ?w1)" using R(1) by (metis prod.collapse)
  show ?thesis
    using handleCallback_new[OF assms(2-4), of e] assms(5) R(2,3) x
    by (cases "o_status ord") (auto simp: Let_def isTerminal_iff)
qed

text \<open>
  a notice that could not be processed is lost, although the provider is asked to retry. When the first
  delivery of a payment finds no order under its number, the answer asks for a retry, but the event is
  already remembered: every later delivery is acknowledged as a success without being applied, so an
  order that is stored under that number afterwards stays pending. The same holds when fulfilment failed.
\<close>

theorem callback_retry_lost:
  assumes "verified d m raw prov r" "cb_paid r" "\<not> event_seen (w_events w) (callback_key m (cb_eventId r))"
    and "order_findByOutTradeNo (w_orders w) (cb_outTradeNo r) = None"
    and "w2 = (snd (handleCallback e d m raw w))\<lparr>w_orders := later\<rparr>"
    and "order_findByOutTradeNo later (cb_outTradeNo r) = Some ord" "acceptable (cb_info r) ord"
  shows "fst (handleCallback e d m raw w) = Inr (pp_callbackAck prov False) \<and>
    handleCallback e' d m raw w2 = (Inr (pp_callbackAck prov True), w2) \<and>
    order_findByOutTradeNo (w_orders w2) (cb_outTradeNo r) = Some ord \<and> o_status ord = PENDING"
proof -
  have h: "handleCallback e d m raw w =
      (Inr (pp_callbackAck prov False), snd (mark_event e (callback_key m (cb_eventId r)) w))"
    using handleCallback_new[OF assms(1-3), of e] assms(4) by (simp add: Let_def)
  then have "event_seen (w_events w2) (callback_key m (cb_eventId r))" by (simp add: assms(5) mark_event_seen)
  then have "handleCallback e' d m raw w2 = (Inr (pp_callbackAck prov True), w2)"
    using callback_known[OF assms(1,2)] by blast
  then show ?thesis using h assms(5-7) by (simp add: acceptable_def)
qed

section \<open>Settlement by query\<close>

text \<open>
  polling settles an order at most once per transaction. For a pending order whose provider reports a
  transaction: when the transaction was used before, by this order or another one, nothing changes; when
  it is new and the reported amount covers the order, the order becomes FULFILLED with that transaction;
  and in every case the transaction is remembered. Without a report nothing changes at all.
\<close>

theorem sync_settles_once:
  assumes "order_store_wf (w_orders w)" "order_findById (w_orders w) i = Some ord" "o_status ord = PENDING"
    and "pd_providers d (o_method ord) = Some prov" "pp_queryPayment prov ord = Inr q"
    and "getPlan (pd_plans d) (o_planId ord) \<noteq> None"
  shows "let key = txn_key (o_method ord) (the (q_providerTxnId q)); reported = q_paid q \<and> truthy (q_providerTxnId q);
      covers = (case q_paidAmount q of None \<Rightarrow> True | Some a \<Rightarrow> o_amount ord \<le> a); (r, w') = syncOrder e d i w in
    (\<not> reported \<or> event_seen (w_events w) key \<longrightarrow> r = Inr ord \<and> w' = w) \<and>
    (reported \<longrightarrow> event_seen (w_events w') key) \<and>
    (reported \<and> \<not> event_seen (w_events w) key \<longrightarrow>
      (\<forall>k. k \<noteq> i \<longrightarrow> order_findById (w_orders w') k = order_findById (w_orders w) k) \<and>
      (if covers then \<exists>ord'. r = Inr ord' \<and> order_findById (w_orders w') i = Some ord' \<and> o_status ord' = FULFILLED \<and>
           o_providerTxnId ord' = q_providerTxnId q
       else \<not> is_ok r \<and> order_findById (w_orders w') i = Some ord))"
proof (cases "q_paid q \<and> truthy (q_providerTxnId q)")
  case False
  then show ?thesis using assms by (auto simp: syncOrder_def provider_of_def)
next
  case True
  let ?key = "txn_key (o_method ord) (the (q_providerTxnId q))"
  have id: "o_id ord = i" using order_repo.find_key[OF assms(1,2)] .
  show ?thesis
  proof (cases "event_seen (w_events w) ?key")
    case seen: True
    then show ?thesis using assms(2-5) True by (simp add: syncOrder_def provider_of_def mark_event_old)
  next
    case new: False
    let ?i = "\<lparr>pi_providerTxnId = the (q_providerTxnId q),
      pi_paidAmount = Some (case q_paidAmount q of None \<Rightarrow> o_amount ord | Some a \<Rightarrow> a), pi_currency = o_currency ord\<rparr>"
    let ?w1 = "snd (mark_event e ?key w)"
    obtain r w' where ap: "applyPayment (env_from 1 e) d i ?i ?w1 = (r, w')" by fastforce
    have run: "syncOrder e d i w = (r, w')"
      using assms(2-5) True new ap by (simp add: syncOrder_def provider_of_def split_beta mark_event_new id)
    have stored: "order_findById (w_orders ?w1) i = Some ord" using assms(2) by simp
    have wf: "order_store_wf (w_orders ?w1)" using assms(1) by simp
    have txn: "q_providerTxnId q = Some (the (q_providerTxnId q))" using True by (cases "q_providerTxnId q") auto
    show ?thesis
    proof (cases "case q_paidAmount q of None \<Rightarrow> True | Some a \<Rightarrow> o_amount ord \<le> a")
      case covers: True
      then have acc: "acceptable ?i ord" using assms(3) by (auto simp: acceptable_def split: option.splits)
      obtain plan where plan: "getPlan (pd_plans d) (o_planId ord) = Some plan" using assms(6) by blast
      note F = applyPayment_find[OF wf stored acc plan ap]
      have "w_events w' = w_events ?w1" using applyPayment_accepted[OF stored id acc plan, of "env_from 1 e"] ap by auto
      then show ?thesis using F(1,3) covers new True txn unfolding run
        by (simp add: mark_event_seen) (simp add: final_order_def paid_order_def)
    next
      case short: False
      then have na: "\<not> acceptable ?i ord" by (auto simp: acceptable_def split: option.splits)
      have "w' = ?w1" "\<not> is_ok r" using applyPayment_refused(1,2)[OF stored na, of "env_from 1 e" d] ap assms(3) by auto
      then show ?thesis using short new True stored unfolding run by (simp add: mark_event_seen)
    qed
  qed
qed

section \<open>Expiry\<close>

definition stale :: "int \<Rightarrow> order \<Rightarrow> bool" where
  "stale now ord \<longleftrightarrow> o_status ord = PENDING \<and> o_expiresAt ord \<le> now"

lemma expire_loop_props:
  assumes "order_store_wf (w_orders w)" "\<forall>x \<in> set xs. order_findById (w_orders w) (o_id x) = Some x" "distinct (map o_id xs)"
  shows "\<exists>w'. expire_loop e now i xs n w = (Inr (n + length (filter (stale now) xs)), w') \<and> order_store_wf (w_orders w') \<and>
    w'\<lparr>w_orders := w_orders w\<rparr> = w \<and>
    (\<forall>k. case order_findById (w_orders w) k of
        None \<Rightarrow> order_findById (w_orders w') k = None
      | Some x \<Rightarrow> if x \<in> set xs \<and> stale now x then \<exists>t. order_findById (w_orders w') k = Some (x\<lparr>o_status := EXPIRED, o_updatedAt := t\<rparr>)
          else order_findById (w_orders w') k = Some x)"
  using assms
proof (induction xs arbitrary: i n w)
  case Nil
  then show ?case by (simp split: option.split)
next
  case (Cons x xs)
  have x: "order_findById (w_orders w) (o_id x) = Some x" using Cons.prems(2) by simp
  have ne: "y \<in> set xs \<Longrightarrow> o_id y \<noteq> o_id x" for y using Cons.prems(3) by (metis distinct.simps(2) image_eqI list.simps(9) set_map)
  show ?case
  proof (cases "stale now x")
    case False
    have loop: "expire_loop e now i (x # xs) n w = expire_loop e now (i + 1) xs n w"
      using False by (auto simp: stale_def)
    from Cons.IH[of w "i + 1" n] Cons.prems obtain w' where w': "expire_loop e now (i + 1) xs n w = (Inr (n + length (filter (stale now) xs)), w')"
      "order_store_wf (w_orders w')" "w'\<lparr>w_orders := w_orders w\<rparr> = w"
      "\<forall>k. case order_findById (w_orders w) k of
        None \<Rightarrow> order_findById (w_orders w') k = None
      | Some x \<Rightarrow> if x \<in> set xs \<and> stale now x then \<exists>t. order_findById (w_orders w') k = Some (x\<lparr>o_status := EXPIRED, o_updatedAt := t\<rparr>)
          else order_findById (w_orders w') k = Some x" by auto
    have same: "(y \<in> set (x # xs) \<and> stale now y) = (y \<in> set xs \<and> stale now y)" for y using False by auto
    show ?thesis unfolding loop same filter.simps if_not_P[OF False] using w' by blast
  next
    case True
    define t where "t = now_at e (1 + i)"
    let ?x = "x\<lparr>o_status := EXPIRED, o_updatedAt := t\<rparr>"
    let ?w = "with_order ?x w"
    have "assertTransition PENDING EXPIRED = Inr EXPIRED" by (simp add: assertTransition_def canTransition_def)
    then have loop: "expire_loop e now i (x # xs) n w = expire_loop e now (i + 1) xs (n + 1) ?w"
      using True x put_order_known[of w ?x x] by (simp add: stale_def t_def)
    have find: "order_findById (w_orders ?w) k = (if k = o_id x then Some ?x else order_findById (w_orders w) k)" for k
      using with_order_find[of w ?x x k] x by simp
    have wf: "order_store_wf (w_orders ?w)" using with_order_wf[OF Cons.prems(1), of ?x x] x by simp
    have st: "\<forall>y \<in> set xs. order_findById (w_orders ?w) (o_id y) = Some y"
      using Cons.prems(2) ne by (simp add: find)
    have d: "distinct (map o_id xs)" using Cons.prems(3) by simp
    from Cons.IH[OF wf st d, of "i + 1" "n + 1"] obtain w' where
      w': "expire_loop e now (i + 1) xs (n + 1) ?w = (Inr (n + 1 + length (filter (stale now) xs)), w')"
      "order_store_wf (w_orders w')" "w'\<lparr>w_orders := w_orders ?w\<rparr> = ?w"
      and F: "\<And>k. case order_findById (w_orders ?w) k of
        None \<Rightarrow> order_findById (w_orders w') k = None
      | Some x \<Rightarrow> if x \<in> set xs \<and> stale now x then \<exists>t. order_findById (w_orders w') k = Some (x\<lparr>o_status := EXPIRED, o_updatedAt := t\<rparr>)
          else order_findById (w_orders w') k = Some x" by auto
    have frame: "w'\<lparr>w_orders := w_orders w\<rparr> = w"
      using arg_cong[OF w'(3), of "\<lambda>v. v\<lparr>w_orders := w_orders w\<rparr>"] by (simp add: with_order_def)
    have xnew: "?x \<notin> set xs" using ne[of ?x] by auto
    have all: "case order_findById (w_orders w) k of
        None \<Rightarrow> order_findById (w_orders w') k = None
      | Some y \<Rightarrow> if y \<in> set (x # xs) \<and> stale now y then \<exists>t. order_findById (w_orders w') k = Some (y\<lparr>o_status := EXPIRED, o_updatedAt := t\<rparr>)
          else order_findById (w_orders w') k = Some y" for k
    proof (cases "k = o_id x")
      case k: True
      have "order_findById (w_orders w') k = Some ?x" using F[of k] xnew by (simp add: find k)
      then show ?thesis using x True k by auto
    next
      case k: False
      then have "order_findById (w_orders w) k \<noteq> Some x" using order_repo.find_key[OF Cons.prems(1)] by blast
      then show ?thesis using F[of k] k by (auto simp: find split: option.splits)
    qed
    have cnt: "n + length (filter (stale now) (x # xs)) = n + 1 + length (filter (stale now) xs)" using True by simp
    show ?thesis unfolding loop cnt using w'(1,2) frame all by blast
  qed
qed

lemma expired_none:
  assumes wf: "order_store_wf (w_orders w)"
    and y: "y \<in> set (order_all (w_orders (snd (expireStaleOrders e w))))"
  shows "\<not> stale (now_at e 0) y"
proof -
  let ?xs = "order_all (w_orders w)" and ?now = "now_at e 0"
  have st: "\<forall>x \<in> set ?xs. order_findById (w_orders w) (o_id x) = Some x" using order_list.listing_iff[OF wf] by blast
  from expire_loop_props[OF wf st order_list.distinct_listing[OF wf], of e ?now 0 0] obtain w' where
    run: "expire_loop e ?now 0 ?xs 0 w = (Inr (0 + length (filter (stale ?now) ?xs)), w')" and w': "order_store_wf (w_orders w')"
    and F: "\<And>k. case order_findById (w_orders w) k of
        None \<Rightarrow> order_findById (w_orders w') k = None
      | Some x \<Rightarrow> if x \<in> set ?xs \<and> stale ?now x then \<exists>t. order_findById (w_orders w') k = Some (x\<lparr>o_status := EXPIRED, o_updatedAt := t\<rparr>)
          else order_findById (w_orders w') k = Some x" by auto
  have "order_findById (w_orders w') (o_id y) = Some y"
    using y order_list.listing_iff[OF w'] by (simp add: expireStaleOrders_def run)
  then show ?thesis
    using F[of "o_id y"] order_list.listing_find[OF wf, of "o_id y"]
    by (cases "order_findById (w_orders w) (o_id y)") (auto simp: stale_def split: if_splits)
qed

text \<open>
  expiry takes exactly the stale orders. The pass never fails; it turns every pending order whose window
  has elapsed into EXPIRED, changing nothing else of it but its time of update, leaves every other order
  and every other store as they are, and returns the number it expired; run again at the same time it
  expires none.
\<close>

theorem expire_stale_exact:
  assumes "order_store_wf (w_orders w)"
  shows "\<exists>w'. expireStaleOrders e w = (Inr (length (filter (stale (now_at e 0)) (order_all (w_orders w)))), w') \<and>
    w'\<lparr>w_orders := w_orders w\<rparr> = w \<and> order_store_wf (w_orders w') \<and>
    (\<forall>k x. order_findById (w_orders w) k = Some x \<longrightarrow>
       (if stale (now_at e 0) x then \<exists>t. order_findById (w_orders w') k = Some (x\<lparr>o_status := EXPIRED, o_updatedAt := t\<rparr>)
        else order_findById (w_orders w') k = Some x)) \<and>
    (\<forall>e'. now_at e' 0 = now_at e 0 \<longrightarrow> fst (expireStaleOrders e' w') = Inr 0)"
proof -
  let ?xs = "order_all (w_orders w)" and ?now = "now_at e 0"
  have st: "\<forall>x \<in> set ?xs. order_findById (w_orders w) (o_id x) = Some x" using order_list.listing_iff[OF assms] by blast
  from expire_loop_props[OF assms st order_list.distinct_listing[OF assms], of e ?now 0 0] obtain w' where
    w': "expire_loop e ?now 0 ?xs 0 w = (Inr (0 + length (filter (stale ?now) ?xs)), w')" "order_store_wf (w_orders w')"
      "w'\<lparr>w_orders := w_orders w\<rparr> = w"
    and F: "\<And>k. case order_findById (w_orders w) k of
        None \<Rightarrow> order_findById (w_orders w') k = None
      | Some x \<Rightarrow> if x \<in> set ?xs \<and> stale ?now x then \<exists>t. order_findById (w_orders w') k = Some (x\<lparr>o_status := EXPIRED, o_updatedAt := t\<rparr>)
          else order_findById (w_orders w') k = Some x" by auto
  have E: "if stale ?now x then \<exists>t. order_findById (w_orders w') k = Some (x\<lparr>o_status := EXPIRED, o_updatedAt := t\<rparr>)
      else order_findById (w_orders w') k = Some x" if "order_findById (w_orders w) k = Some x" for k x
    using F[of k] that order_list.listing_find[OF assms that] by simp
  have none: "\<not> stale ?now y" if "y \<in> set (order_all (w_orders w'))" for y
  proof -
    have y: "order_findById (w_orders w') (o_id y) = Some y" using that order_list.listing_iff[OF w'(2)] by blast
    then obtain x where x: "order_findById (w_orders w) (o_id y) = Some x" using F[of "o_id y"] by (cases "order_findById (w_orders w) (o_id y)") auto
    show ?thesis using E[OF x] y by (auto simp: stale_def split: if_splits)
  qed
  have "fst (expireStaleOrders e' w') = Inr 0" if t: "now_at e' 0 = ?now" for e'
  proof -
    have st': "\<forall>x \<in> set (order_all (w_orders w')). order_findById (w_orders w') (o_id x) = Some x"
      using order_list.listing_iff[OF w'(2)] by blast
    have "filter (stale ?now) (order_all (w_orders w')) = []" using none by (simp add: filter_empty_conv)
    then show ?thesis
      using expire_loop_props[OF w'(2) st' order_list.distinct_listing[OF w'(2)], of e' ?now 0 0] t
      by (auto simp: expireStaleOrders_def)
  qed
  then show ?thesis using w' E unfolding expireStaleOrders_def by (intro exI[of _ w']) simp
qed

section \<open>Creation\<close>

lemma attach_deposit_props:
  assumes "attach_deposit e d ord w = (Inr ord', w1)"
  shows "o_id ord' = o_id ord \<and> o_outTradeNo ord' = o_outTradeNo ord \<and> o_status ord' = o_status ord \<and>
    o_amount ord' = o_amount ord \<and> o_method ord' = o_method ord \<and> o_idempotencyKey ord' = o_idempotencyKey ord \<and>
    o_currency ord' = o_currency ord \<and> o_paidAt ord' = o_paidAt ord \<and> o_refundedAmount ord' = o_refundedAmount ord \<and>
    o_merchantId ord' = o_merchantId ord \<and> o_userId ord' = o_userId ord \<and> o_planId ord' = o_planId ord \<and>
    o_expiresAt ord' = o_expiresAt ord \<and> w1\<lparr>w_deposits := w_deposits w\<rparr> = w"
proof -
  have upd: "w\<lparr>w_deposits := x, w_deposits := w_deposits w\<rparr> = w" for x by simp
  show ?thesis
    using assms by (auto simp: attach_deposit_def Let_def split_beta split: if_splits option.splits sum.splits)
qed

text \<open>A new order that gets through to the provider: nothing has thrown before.\<close>

definition placed :: "env \<Rightarrow> payment_deps \<Rightarrow> create_order_input \<Rightarrow> world \<Rightarrow> plan \<Rightarrow> payment_provider \<Rightarrow> int \<Rightarrow> order \<Rightarrow> world \<Rightarrow> bool" where
  "placed e d inp w plan prov amount ord w1 \<longleftrightarrow>
     (truthy (ci_idempotencyKey inp) \<longrightarrow> order_findByIdempotencyKey (w_orders w) (the (ci_idempotencyKey inp)) = None) \<and>
     getPlan (pd_plans d) (ci_planId inp) = Some plan \<and> pd_providers d (ci_method inp) = Some prov \<and>
     resolveAmount d (ci_method inp) (p_priceCnyFen plan) (p_priceUsdtMicro plan) (w_orders w) = Inr amount \<and>
     attach_deposit (env_from 1 e) d (new_order e d inp plan amount) w = (Inr ord, w1) \<and>
     uuid_at e 0 \<noteq> [] \<and> order_findById (w_orders w) (uuid_at e 0) = None \<and>
     order_findByOutTradeNo (w_orders w) (random_at e 0) = None"

definition stored_order :: "order \<Rightarrow> world \<Rightarrow> world" where
  "stored_order ord w = w\<lparr>w_orders := projr (order_create ord (w_orders w))\<rparr>"

lemma placed_order:
  assumes "placed e d inp w plan prov amount ord w1"
  shows "o_id ord = uuid_at e 0" "o_outTradeNo ord = random_at e 0" "o_status ord = PENDING" "o_amount ord = amount"
    and "o_method ord = ci_method inp" "o_idempotencyKey ord = ci_idempotencyKey inp" "o_paidAt ord = None"
    and "o_refundedAmount ord = None" "o_currency ord = (if ci_method inp = Usdt then USDT else CNY)"
    and "o_userId ord = ci_userId inp" "o_planId ord = p_id plan" "w_orders w1 = w_orders w"
    and "w1\<lparr>w_deposits := w_deposits w\<rparr> = w"
    and "o_expiresAt ord = now_at e 0 + pd_orderTtlMinutes d * 60000"
proof -
  have a: "attach_deposit (env_from 1 e) d (new_order e d inp plan amount) w = (Inr ord, w1)"
    using assms by (simp add: placed_def)
  note P = attach_deposit_props[OF a]
  show "w_orders w1 = w_orders w" using P by (metis world.select_convs(1) world.update_convs(5) world.surjective)
  show "o_id ord = uuid_at e 0" "o_outTradeNo ord = random_at e 0" "o_status ord = PENDING" "o_amount ord = amount"
    "o_method ord = ci_method inp" "o_idempotencyKey ord = ci_idempotencyKey inp" "o_paidAt ord = None"
    "o_refundedAmount ord = None" "o_currency ord = (if ci_method inp = Usdt then USDT else CNY)"
    "o_userId ord = ci_userId inp" "o_planId ord = p_id plan" "w1\<lparr>w_deposits := w_deposits w\<rparr> = w"
    "o_expiresAt ord = now_at e 0 + pd_orderTtlMinutes d * 60000"
    using P by (simp_all add: new_order_def Let_def)
qed

lemma createOrder_placed:
  assumes "order_store_wf (w_orders w)" "placed e d inp w plan prov amount ord w1"
  shows "createOrder e d inp w = finish_create e prov ord (stored_order ord w1)"
    and "order_create ord (w_orders w1) = Inr (w_orders (stored_order ord w1))"
    and "order_store_wf (w_orders (stored_order ord w1))"
    and "order_findById (w_orders (stored_order ord w1)) k = (if k = o_id ord then Some ord else order_findById (w_orders w) k)"
proof -
  note P = placed_order[OF assms(2)] and A = assms(2)[unfolded placed_def]
  have "is_ok (order_create ord (w_orders w))" using order_repo.create_dup[OF assms(1)] A by (simp add: P)
  then obtain st where c: "order_create ord (w_orders w) = Inr st" by (cases "order_create ord (w_orders w)") auto
  show "order_create ord (w_orders w1) = Inr (w_orders (stored_order ord w1))"
    by (simp add: stored_order_def P(12) c)
  show "order_store_wf (w_orders (stored_order ord w1))"
    using order_repo.create_valid[OF assms(1) _ _ c] A by (simp add: stored_order_def P c)
  show "order_findById (w_orders (stored_order ord w1)) k = (if k = o_id ord then Some ord else order_findById (w_orders w) k)"
    using order_repo.create_find[OF c] by (simp add: stored_order_def P(12) c)
  show "createOrder e d inp w = finish_create e prov ord (stored_order ord w1)"
    using A c by (simp add: createOrder_def provider_of_def stored_order_def P(12))
qed

text \<open>The order as it is stored last: with the payment intent, or failed.\<close>

definition created_order :: "env \<Rightarrow> payment_provider \<Rightarrow> order \<Rightarrow> order" where
  "created_order e prov ord = (case pp_createPayment prov ord of
     Inl err \<Rightarrow> ord\<lparr>o_status := FAILED, o_updatedAt := now_at e 2\<rparr>
   | Inr pay \<Rightarrow> ord\<lparr>o_metadata := (o_metadata ord)\<lparr>md_payInfo := Some pay\<rparr>, o_updatedAt := now_at e 3\<rparr>)"

lemma created_order_simps [simp]:
  "o_id (created_order e prov ord) = o_id ord" "o_outTradeNo (created_order e prov ord) = o_outTradeNo ord"
  "o_amount (created_order e prov ord) = o_amount ord" "o_method (created_order e prov ord) = o_method ord"
  "o_userId (created_order e prov ord) = o_userId ord" "o_planId (created_order e prov ord) = o_planId ord"
  "o_currency (created_order e prov ord) = o_currency ord" "o_paidAt (created_order e prov ord) = o_paidAt ord"
  "o_expiresAt (created_order e prov ord) = o_expiresAt ord" "o_refundedAmount (created_order e prov ord) = o_refundedAmount ord"
  by (simp_all add: created_order_def split: sum.split)

lemma createOrder_writes:
  assumes "order_store_wf (w_orders w)" "placed e d inp w plan prov amount ord w1"
  defines "new \<equiv> created_order e prov ord"
  shows "\<exists>w'. createOrder e d inp w =
      (case pp_createPayment prov ord of Inl err \<Rightarrow> Inl err | Inr pay \<Rightarrow> Inr (new, pay), w') \<and>
    order_store_wf (w_orders w') \<and>
    (\<forall>k. order_findById (w_orders w') k = (if k = uuid_at e 0 then Some new else order_findById (w_orders w) k)) \<and>
    w_refunds w' = w_refunds w \<and> w_subs w' = w_subs w \<and> w_events w' = w_events w"
proof -
  let ?w2 = "stored_order ord w1"
  note P = placed_order[OF assms(2)] and C = createOrder_placed[OF assms(1,2)]
  have stored: "order_findById (w_orders ?w2) (o_id new) = Some ord" using C(4) by (simp add: new_def)
  have fr: "w_refunds ?w2 = w_refunds w" "w_subs ?w2 = w_subs w" "w_events ?w2 = w_events w"
    using P(13) unfolding stored_order_def by (metis world.select_convs world.update_convs world.surjective)+
  have "assertTransition PENDING FAILED = Inr FAILED" by (simp add: assertTransition_def canTransition_def)
  then obtain w' where w': "createOrder e d inp w =
      (case pp_createPayment prov ord of Inl err \<Rightarrow> Inl err | Inr pay \<Rightarrow> Inr (new, pay), w')"
    "w_orders w' = w_orders (with_order new ?w2)" "w_refunds w' = w_refunds w" "w_subs w' = w_subs w" "w_events w' = w_events w"
    using C(1) P(3) put_order_known[OF stored] fr
    by (cases "pp_createPayment prov ord") (simp_all add: finish_create_def Let_def new_def created_order_def)
  show ?thesis
    using w' with_order_find[OF stored] with_order_wf[OF C(3) stored] C(4) P(1)
    by (intro exI[of _ w']) (simp add: new_def)
qed

text \<open>
  what creating an order leaves. With a known plan, an enabled method, an amount, and a deposit address
  where one is needed: when the provider accepts, the order is stored as PENDING with the plan's owner, the
  method's currency, the amount and the expiry it was given and the payment intent, which is also
  returned; when the provider throws, its error is passed on and the order is stored as FAILED, never
  left pending. No other order changes and the store stays well formed.
\<close>

theorem createOrder_outcome:
  assumes "order_store_wf (w_orders w)" "placed e d inp w plan prov amount ord w1"
  shows "let (r, w') = createOrder e d inp w in
    order_store_wf (w_orders w') \<and>
    (\<forall>k. k \<noteq> uuid_at e 0 \<longrightarrow> order_findById (w_orders w') k = order_findById (w_orders w) k) \<and>
    (\<exists>new. order_findById (w_orders w') (uuid_at e 0) = Some new \<and> o_userId new = ci_userId inp \<and> o_planId new = p_id plan \<and>
       o_amount new = amount \<and> o_currency new = (if ci_method inp = Usdt then USDT else CNY) \<and> o_paidAt new = None \<and>
       o_expiresAt new = now_at e 0 + pd_orderTtlMinutes d * 60000 \<and>
       (case pp_createPayment prov ord of
          Inr pay \<Rightarrow> r = Inr (new, pay) \<and> o_status new = PENDING \<and> md_payInfo (o_metadata new) = Some pay
        | Inl err \<Rightarrow> r = Inl err \<and> o_status new = FAILED)) \<and>
    w_refunds w' = w_refunds w \<and> w_subs w' = w_subs w \<and> w_events w' = w_events w"
proof -
  obtain w' where w': "createOrder e d inp w =
      (case pp_createPayment prov ord of Inl err \<Rightarrow> Inl err | Inr pay \<Rightarrow> Inr (created_order e prov ord, pay), w')"
    "order_store_wf (w_orders w')" "w_refunds w' = w_refunds w" "w_subs w' = w_subs w" "w_events w' = w_events w"
    "\<forall>k. order_findById (w_orders w') k = (if k = uuid_at e 0 then Some (created_order e prov ord) else order_findById (w_orders w) k)"
    using createOrder_writes[OF assms] by blast
  show ?thesis
    unfolding w'(1) using w'(2-6) placed_order[OF assms(2)]
    by (simp add: created_order_def split: sum.split)
qed

text \<open>
  A creation that is not placed (a replayed key, an unknown plan or method, no free amount or address, a
  number already taken) leaves orders, refunds, subscriptions and events as they were.
\<close>

lemma attach_deposit_frame [simp]:
  "w_orders (snd (attach_deposit e d ord w)) = w_orders w" "w_refunds (snd (attach_deposit e d ord w)) = w_refunds w"
  "w_subs (snd (attach_deposit e d ord w)) = w_subs w" "w_events (snd (attach_deposit e d ord w)) = w_events w"
  by (simp_all add: attach_deposit_def Let_def split_beta split: option.split sum.split)

lemma createOrder_unplaced:
  assumes wf: "order_store_wf (w_orders w)" and new: "uuid_at e 0 \<noteq> []" "order_findById (w_orders w) (uuid_at e 0) = None"
    and np: "\<nexists>plan prov amount ord w1. placed e d inp w plan prov amount ord w1"
  shows "w_orders (snd (createOrder e d inp w)) = w_orders w \<and> w_refunds (snd (createOrder e d inp w)) = w_refunds w \<and>
    w_subs (snd (createOrder e d inp w)) = w_subs w \<and> w_events (snd (createOrder e d inp w)) = w_events w"
proof (cases "if truthy (ci_idempotencyKey inp) then order_findByIdempotencyKey (w_orders w) (the (ci_idempotencyKey inp)) else None")
  case (Some x)
  then show ?thesis by (simp add: createOrder_def split: option.split sum.split)
next
  case key: None
  show ?thesis
  proof (cases "\<exists>plan prov amount. getPlan (pd_plans d) (ci_planId inp) = Some plan \<and> pd_providers d (ci_method inp) = Some prov \<and>
      resolveAmount d (ci_method inp) (p_priceCnyFen plan) (p_priceUsdtMicro plan) (w_orders w) = Inr amount")
    case False
    then show ?thesis unfolding createOrder_def key by (auto simp: provider_of_def split: option.split sum.split)
  next
    case True
    then obtain plan prov amount where ok: "getPlan (pd_plans d) (ci_planId inp) = Some plan" "pd_providers d (ci_method inp) = Some prov"
      "resolveAmount d (ci_method inp) (p_priceCnyFen plan) (p_priceUsdtMicro plan) (w_orders w) = Inr amount" by blast
    obtain r w1 where a: "attach_deposit (env_from 1 e) d (new_order e d inp plan amount) w = (r, w1)" by fastforce
    have fr: "w_orders w1 = w_orders w" "w_refunds w1 = w_refunds w" "w_subs w1 = w_subs w" "w_events w1 = w_events w"
      using attach_deposit_frame[of "env_from 1 e" d "new_order e d inp plan amount" w] unfolding a snd_conv by simp_all
    show ?thesis
    proof (cases r)
      case (Inl err)
      then show ?thesis using a unfolding createOrder_def key by (simp add: ok provider_of_def fr)
    next
      case (Inr ord)
      have no: "o_outTradeNo ord = random_at e 0"
        using attach_deposit_props[of "env_from 1 e" d "new_order e d inp plan amount" w ord w1] a Inr by (simp add: new_order_def Let_def)
      have "order_findByOutTradeNo (w_orders w) (random_at e 0) \<noteq> None"
      proof
        assume free: "order_findByOutTradeNo (w_orders w) (random_at e 0) = None"
        have "truthy (ci_idempotencyKey inp) \<longrightarrow> order_findByIdempotencyKey (w_orders w) (the (ci_idempotencyKey inp)) = None"
          using key by metis
        then have "placed e d inp w plan prov amount ord w1" using ok a Inr new free unfolding placed_def by simp
        then show False using np by blast
      qed
      then have "\<not> is_ok (order_create ord (w_orders w))" using order_repo.create_dup[OF wf, of ord] no by simp
      then obtain err where "order_create ord (w_orders w1) = Inl err" unfolding fr by (cases "order_create ord (w_orders w)") simp_all
      then show ?thesis using a Inr unfolding createOrder_def key by (simp add: ok provider_of_def fr)
    qed
  qed
qed

lemma idem_created:
  assumes "order_create ord st = Inr st'" "truthy (o_idempotencyKey ord)" "o_id ord \<noteq> []"
  shows "order_findByIdempotencyKey st' (the (o_idempotencyKey ord)) = order_findById st' (o_id ord)"
  using order_create_ok[OF assms(1)] assms(2,3)
  by (simp add: order_findByIdempotencyKey_def index_get_def order_findById_def)

lemma idem_updated:
  assumes "order_update x st = Inr st'" "order_findByIdempotencyKey st k = order_findById st i" "i \<noteq> []" "jm_get (os_byIdem st) k = Some i"
  shows "order_findByIdempotencyKey st' k = order_findById st' i" "jm_get (os_byIdem st') k = Some i"
  using order_update_ok[OF assms(1)] assms(3,4)
  by (simp_all add: order_findByIdempotencyKey_def index_get_def order_findById_def)

lemma createOrder_key:
  assumes "order_store_wf (w_orders w)" "placed e d inp w plan prov amount ord w1" "truthy (ci_idempotencyKey inp)"
  shows "order_findByIdempotencyKey (w_orders (snd (createOrder e d inp w))) (the (ci_idempotencyKey inp)) =
    order_findById (w_orders (snd (createOrder e d inp w))) (uuid_at e 0)"
proof -
  let ?w2 = "stored_order ord w1" and ?k = "the (ci_idempotencyKey inp)" and ?i = "uuid_at e 0"
  note P = placed_order[OF assms(2)] and C = createOrder_placed[OF assms(1,2)]
  have i: "?i \<noteq> []" using assms(2) by (simp add: placed_def)
  have k: "order_findByIdempotencyKey (w_orders ?w2) ?k = order_findById (w_orders ?w2) ?i"
    "jm_get (os_byIdem (w_orders ?w2)) ?k = Some ?i"
    using idem_created[OF C(2)] order_create_ok[OF C(2)] assms(3) i P by simp_all
  have stored: "order_findById (w_orders ?w2) (o_id ord) = Some ord" using C(4) by simp
  have upd: "order_findByIdempotencyKey (w_orders (with_order x ?w2)) ?k = order_findById (w_orders (with_order x ?w2)) ?i"
    if xi: "o_id x = o_id ord" for x
  proof -
    obtain st where st: "order_update x (w_orders ?w2) = Inr st" "with_order x ?w2 = ?w2\<lparr>w_orders := st\<rparr>"
      using put_order_ok[of ?w2 x ord] stored by (auto simp: with_order_def xi)
    show ?thesis using idem_updated(1)[OF st(1) k(1) i k(2)] by (simp add: st(2))
  qed
  show ?thesis
  proof (cases "pp_createPayment prov ord")
    case (Inl err)
    have "assertTransition PENDING FAILED = Inr FAILED" by (simp add: assertTransition_def canTransition_def)
    then show ?thesis
      using Inl C(1) P(3) put_order_known[of ?w2 "ord\<lparr>o_status := FAILED, o_updatedAt := now_at e 2\<rparr>" ord] stored upd
      by (simp add: finish_create_def)
  next
    case (Inr pay)
    show ?thesis
      using Inr C(1) put_order_known[of ?w2 "ord\<lparr>o_metadata := (o_metadata ord)\<lparr>md_payInfo := Some pay\<rparr>, o_updatedAt := now_at e 3\<rparr>" ord]
        stored upd
      by (simp add: finish_create_def Let_def)
  qed
qed

text \<open>
  creation is idempotent by key, and the key is global. After a request with an idempotency key has
  created an order, every further request with that key returns the same order and payment intent and
  changes nothing, whatever its user, plan, method or tenant, the clock and the providers. When the first
  request failed at the provider, a further one returns that FAILED order, with a new payment intent
  if the provider now gives one.
\<close>

theorem createOrder_idempotent:
  assumes "order_store_wf (w_orders w)" "placed e d inp w plan prov amount ord w1" "truthy (ci_idempotencyKey inp)"
    and "ci_idempotencyKey inp2 = ci_idempotencyKey inp"
  shows "let (r, w') = createOrder e d inp w in
    (\<forall>x. r = Inr x \<longrightarrow> createOrder e2 d2 inp2 w' = (Inr x, w')) \<and>
    (\<forall>err pay prov2. r = Inl err \<and> pd_providers d2 (ci_method inp) = Some prov2 \<and>
        (\<forall>x. pp_createPayment prov2 x = Inr pay) \<longrightarrow>
      (\<exists>failed. o_status failed = FAILED \<and> createOrder e2 d2 inp2 w' = (Inr (failed, pay), w')))"
proof -
  let ?w2 = "stored_order ord w1"
  note P = placed_order[OF assms(2)] and C = createOrder_placed[OF assms(1,2)]
  have stored: "order_findById (w_orders ?w2) (o_id ord) = Some ord" using C(4) by simp
  note K = createOrder_key[OF assms(1-3)]
  show ?thesis
  proof (cases "pp_createPayment prov ord")
    case (Inl err)
    let ?new = "ord\<lparr>o_status := FAILED, o_updatedAt := now_at e 2\<rparr>"
    have "assertTransition PENDING FAILED = Inr FAILED" by (simp add: assertTransition_def canTransition_def)
    then have run: "createOrder e d inp w = (Inl err, with_order ?new ?w2)"
      using Inl C(1) P(3) put_order_known[of ?w2 ?new ord] stored by (simp add: finish_create_def)
    have "order_findByIdempotencyKey (w_orders (with_order ?new ?w2)) (the (ci_idempotencyKey inp)) = Some ?new"
      using K with_order_find[of ?w2 ?new ord] stored P(1) by (simp add: run)
    moreover have "md_payInfo (o_metadata ?new) = None"
    proof -
      have a: "attach_deposit (env_from 1 e) d (new_order e d inp plan amount) w = (Inr ord, w1)"
        using assms(2) by (simp add: placed_def)
      then show ?thesis
        by (auto simp: attach_deposit_def new_order_def no_metadata_def Let_def split_beta split: if_splits option.splits sum.splits)
    qed
    ultimately show ?thesis
      using assms(3,4) P(5) unfolding run by (auto simp: createOrder_def provider_of_def)
  next
    case (Inr pay)
    let ?new = "ord\<lparr>o_metadata := (o_metadata ord)\<lparr>md_payInfo := Some pay\<rparr>, o_updatedAt := now_at e 3\<rparr>"
    obtain w' where run: "createOrder e d inp w = (Inr (?new, pay), w')" "w_orders w' = w_orders (with_order ?new ?w2)"
      using Inr C(1) put_order_known[of ?w2 ?new ord] stored by (simp add: finish_create_def Let_def)
    have "order_findByIdempotencyKey (w_orders w') (the (ci_idempotencyKey inp)) = Some ?new"
      using K with_order_find[of ?w2 ?new ord] stored P(1) by (simp add: run)
    then show ?thesis using assms(3,4) unfolding run(1) by (simp add: createOrder_def)
  qed
qed

section \<open>Worked examples\<close>

definition demo_payment :: create_payment_result where
  "demo_payment = \<lparr>c_method = Wechat, c_payTarget = ''weixin://pay'', c_renderAs = Qrcode, c_extra = []\<rparr>"

definition demo_callback :: "int \<Rightarrow> callback_result" where
  "demo_callback amount = \<lparr>cb_outTradeNo = ''N1'', cb_providerTxnId = ''tx1'', cb_paid = True, cb_paidAmount = Some amount,
     cb_currency = CNY, cb_eventId = ''ev1'', cb_rawStatus = ''SUCCESS''\<rparr>"

definition demo_query :: query_result where
  "demo_query = \<lparr>q_paid = True, q_providerTxnId = Some ''tx1'', q_paidAmount = Some 1500, q_rawStatus = ''SUCCESS''\<rparr>"

definition demo_ack :: "bool \<Rightarrow> callback_ack" where
  "demo_ack ok = \<lparr>ack_status = (if ok then 200 else 500), ack_contentType = ''text/plain'', ack_body = []\<rparr>"

definition demo_provider :: "int \<Rightarrow> payment_provider" where
  "demo_provider amount = \<lparr>pp_createPayment = (\<lambda>_. Inr demo_payment), pp_verifyCallback = (\<lambda>_. Inr (demo_callback amount)),
     pp_queryPayment = (\<lambda>_. Inr demo_query), pp_callbackAck = demo_ack, pp_refund = None, pp_verifyRefundCallback = None\<rparr>"

definition demo_deps :: "payment_provider \<Rightarrow> payment_deps" where
  "demo_deps p = \<lparr>pd_providers = (\<lambda>_. Some p), pd_plans = PLANS, pd_orderTtlMinutes = 15, pd_usdtUniqueDeltaMax = 9999,
     pd_usdtAddressMode = Some Shared, pd_addressAllocator = None, pd_sweepPolicy = None, pd_outbound = None\<rparr>"

definition demo_world :: "order list \<Rightarrow> world" where
  "demo_world xs = empty_world\<lparr>w_orders := fold (\<lambda>x st. projr (order_create x st)) xs empty_order_store\<rparr>"

definition demo_raw :: raw_callback where
  "demo_raw = \<lparr>raw_body = [], raw_headers = []\<rparr>"

definition demo_input :: create_order_input where
  "demo_input = \<lparr>ci_userId = ''u1'', ci_planId = ''monthly'', ci_method = Wechat, ci_idempotencyKey = Some ''k1'', ci_merchantId = None\<rparr>"

abbreviation demo_pending_order :: order where
  "demo_pending_order \<equiv> demo_order ''1'' Wechat 1500 PENDING"

definition demo_world1 :: world where
  "demo_world1 = demo_world [demo_pending_order]"

lemmas demo_store_simps = order_create_def empty_order_store_def order_findById_def order_findByOutTradeNo_def
  index_get_def jm_has_def demo_order_def

lemma demo_world1_wf: "order_store_wf (w_orders demo_world1)" "sub_store_wf (w_subs demo_world1)"
proof -
  have "order_store_wf (projr (order_create demo_pending_order empty_order_store))"
    by (rule order_repo.create_valid_projr[OF order_store_wf_empty]) (simp_all add: demo_store_simps)
  then show "order_store_wf (w_orders demo_world1)" by (simp add: demo_world1_def demo_world_def)
  show "sub_store_wf (w_subs demo_world1)" by (simp add: demo_world1_def demo_world_def empty_world_def)
qed

lemma demo_world1_simps:
  "order_findByOutTradeNo (w_orders demo_world1) ''N1'' = Some demo_pending_order"
  "order_findById (w_orders demo_world1) ''1'' = Some demo_pending_order"
  "w_subs demo_world1 = empty_sub_store" "w_events demo_world1 = empty_event_store" "w_refunds demo_world1 = empty_refund_store"
  "order_all (w_orders demo_world1) = [demo_pending_order]"
  by (simp_all add: demo_world1_def demo_world_def empty_world_def demo_store_simps order_all_def)

lemma demo_plan: "getPlan PLANS ''monthly'' = Some (hd PLANS)"
  by (simp add: getPlan_def PLANS_def)

lemma demo_verified: "verified (demo_deps (demo_provider a)) Wechat demo_raw (demo_provider a) (demo_callback a)"
  by (simp add: verified_def demo_deps_def demo_provider_def)

lemma no_event: "\<not> event_seen empty_event_store x"
  by (simp add: event_seen_def empty_event_store_def)


theorem createOrder_outcome_witness:
  "let (r, w') = createOrder (env_at 500) (demo_deps (demo_provider 1500)) demo_input demo_world1 in
     is_ok r \<and> order_store_wf (w_orders w') \<and>
     map_option o_status (order_findById (w_orders w') ''id-'') = Some PENDING \<and>
     map_option o_amount (order_findById (w_orders w') ''id-'') = Some 1500"
proof -
  let ?d = "demo_deps (demo_provider 1500)"
  have p: "placed (env_at 500) ?d demo_input demo_world1 (hd PLANS) (demo_provider 1500) 1500
      (new_order (env_at 500) ?d demo_input (hd PLANS) 1500) demo_world1"
    by (simp add: placed_def demo_input_def demo_deps_def resolveAmount_def attach_deposit_def new_order_def demo_plan)
      (simp add: PLANS_def demo_world1_def demo_world_def empty_world_def demo_store_simps order_findByIdempotencyKey_def)
  from createOrder_outcome[OF demo_world1_wf(1) p]
  show ?thesis by (auto simp: Let_def demo_provider_def)
qed

theorem createOrder_idempotent_witness:
  "let (r, w') = createOrder (env_at 500) (demo_deps (demo_provider 1500)) demo_input demo_world1 in
     createOrder (env_at 900) (demo_deps (demo_provider 7)) (demo_input\<lparr>ci_userId := ''someone else''\<rparr>) w' = (r, w')"
proof -
  let ?d = "demo_deps (demo_provider 1500)"
  have p: "placed (env_at 500) ?d demo_input demo_world1 (hd PLANS) (demo_provider 1500) 1500
      (new_order (env_at 500) ?d demo_input (hd PLANS) 1500) demo_world1"
    by (simp add: placed_def demo_input_def demo_deps_def resolveAmount_def attach_deposit_def new_order_def demo_plan)
      (simp add: PLANS_def demo_world1_def demo_world_def empty_world_def demo_store_simps order_findByIdempotencyKey_def)
  have "is_ok (fst (createOrder (env_at 500) ?d demo_input demo_world1))"
    using createOrder_outcome[OF demo_world1_wf(1) p] by (auto simp: Let_def demo_provider_def)
  then obtain x w' where x: "createOrder (env_at 500) ?d demo_input demo_world1 = (Inr x, w')"
    by (cases "createOrder (env_at 500) ?d demo_input demo_world1"; cases "fst (createOrder (env_at 500) ?d demo_input demo_world1)") auto
  have k: "truthy (ci_idempotencyKey demo_input)"
    "ci_idempotencyKey (demo_input\<lparr>ci_userId := ''someone else''\<rparr>) = ci_idempotencyKey demo_input"
    by (simp_all add: demo_input_def)
  from createOrder_idempotent[OF demo_world1_wf(1) p k, of "env_at 900" "demo_deps (demo_provider 7)"]
  show ?thesis unfolding x by (cases x) simp
qed

lemma demo_first_delivery:
  "\<exists>w'. handleCallback (env_at 50) (demo_deps (demo_provider 1500)) Wechat demo_raw demo_world1 = (Inr (demo_ack True), w')"
proof -
  let ?w = "snd (mark_event (env_at 50) (callback_key Wechat (cb_eventId (demo_callback 1500))) demo_world1)"
  have new: "cb_paid (demo_callback 1500)"
    "\<not> event_seen (w_events demo_world1) (callback_key Wechat (cb_eventId (demo_callback 1500)))"
    by (simp_all add: demo_callback_def demo_world1_simps no_event)
  have stored: "order_findById (w_orders ?w) (o_id demo_pending_order) = Some demo_pending_order"
    by (simp add: demo_world1_simps) (simp add: demo_order_def demo_world1_simps)
  have acc: "acceptable (cb_info (demo_callback 1500)) demo_pending_order"
    by (simp add: acceptable_def cb_info_def demo_callback_def demo_order_def)
  have plan: "getPlan (pd_plans (demo_deps (demo_provider 1500))) (o_planId demo_pending_order) = Some (hd PLANS)"
    by (simp add: demo_deps_def demo_order_def demo_plan)
  from applyPayment_accepted[OF stored refl acc plan, of "env_from 1 (env_at 50)"] obtain w' where
    "applyPayment (env_from 1 (env_at 50)) (demo_deps (demo_provider 1500)) (o_id demo_pending_order) (cb_info (demo_callback 1500)) ?w =
      (Inr (final_order (env_from 1 (env_at 50)) (cb_info (demo_callback 1500)) demo_pending_order), w')" by auto
  moreover have "order_findByOutTradeNo (w_orders demo_world1) (cb_outTradeNo (demo_callback 1500)) = Some demo_pending_order"
    by (simp add: demo_callback_def demo_world1_simps)
  ultimately show ?thesis
    using handleCallback_new[OF demo_verified new, of "env_at 50"] by (simp add: Let_def) (simp add: demo_provider_def)
qed

theorem callback_settles_order_witness:
  "\<exists>w'. handleCallback (env_at 50) (demo_deps (demo_provider 1500)) Wechat demo_raw demo_world1 = (Inr (demo_ack True), w') \<and>
    map_option o_status (order_findById (w_orders w') ''1'') = Some FULFILLED \<and> order_store_wf (w_orders w')"
proof -
  let ?d = "demo_deps (demo_provider 1500)"
  have s: "\<exists>w' ord' s. handleCallback (env_at 50) ?d Wechat demo_raw demo_world1 = (Inr (pp_callbackAck (demo_provider 1500) True), w') \<and>
    (\<forall>k. order_findById (w_orders w') k = (if k = o_id demo_pending_order then Some ord' else order_findById (w_orders demo_world1) k)) \<and>
    ord' = demo_pending_order\<lparr>o_status := FULFILLED, o_providerTxnId := Some (cb_providerTxnId (demo_callback 1500)),
      o_paidAt := Some (now_at (env_at 50) 1), o_updatedAt := now_at (env_at 50) 2\<rparr> \<and>
    (\<forall>u. sub_findActiveByUser (w_subs w') u = (if u = o_userId demo_pending_order then Some s else sub_findActiveByUser (w_subs demo_world1) u)) \<and>
    s_expiresAt s = base_expiry (w_subs demo_world1) (o_userId demo_pending_order) (now_at (env_at 50) 2) + plan_ms (hd PLANS) \<and>
    last (s_orderIds s) = o_id demo_pending_order \<and>
    event_seen (w_events w') (callback_key Wechat (cb_eventId (demo_callback 1500))) \<and> w_refunds w' = w_refunds demo_world1 \<and>
    order_store_wf (w_orders w') \<and> sub_store_wf (w_subs w')"
    by (rule callback_settles_order[OF demo_world1_wf demo_verified])
      (simp_all add: demo_callback_def demo_world1_simps no_event demo_plan demo_deps_def,
       simp_all add: demo_order_def demo_plan sub_find_def empty_sub_store_def)
  have "pp_callbackAck (demo_provider 1500) = demo_ack" "o_id demo_pending_order = ''1''"
    by (simp_all add: demo_provider_def demo_order_def)
  with s show ?thesis by auto
qed

theorem callback_idempotent_witness:
  "\<exists>w'. handleCallback (env_at 50) (demo_deps (demo_provider 1500)) Wechat demo_raw demo_world1 = (Inr (demo_ack True), w') \<and>
     handleCallback (env_at 99) (demo_deps (demo_provider 1500)) Wechat demo_raw w' = (Inr (demo_ack True), w')"
proof -
  have ack: "pp_callbackAck (demo_provider 1500) = demo_ack" "demo_ack True \<noteq> demo_ack False"
    by (simp_all add: demo_provider_def demo_ack_def)
  obtain w' where w': "handleCallback (env_at 50) (demo_deps (demo_provider 1500)) Wechat demo_raw demo_world1 = (Inr (demo_ack True), w')"
    using demo_first_delivery by blast
  have "cb_paid (demo_callback 1500)" "\<not> event_seen (w_events demo_world1) (callback_key Wechat (cb_eventId (demo_callback 1500)))"
    by (simp_all add: demo_callback_def demo_world1_simps no_event)
  note t = callback_idempotent[OF demo_verified this, unfolded ack(1), OF ack(2) w', THEN conjunct2]
  have "handleCallback (env_at 99) (demo_deps (demo_provider 1500)) Wechat demo_raw w' = (Inr (demo_ack True), w')"
    using t by blast
  then show ?thesis using w' by blast
qed

theorem callback_rejects_unfit_witness:
  "handleCallback (env_at 50) (demo_deps (demo_provider 1499)) Wechat demo_raw demo_world1 =
     (Inr (demo_ack True), snd (mark_event (env_at 50) (callback_key Wechat ''ev1'') demo_world1))"
proof -
  have "order_findByOutTradeNo (w_orders demo_world1) (cb_outTradeNo (demo_callback 1499)) = Some demo_pending_order"
    by (simp add: demo_callback_def demo_world1_simps)
  from callback_rejects_unfit[OF demo_world1_wf(1) demo_verified _ _ this, of "env_at 50"]
  show ?thesis
    by (simp add: demo_callback_def demo_world1_simps no_event)
      (simp add: demo_order_def demo_provider_def isTerminal_iff)
qed

theorem callback_retry_lost_witness:
  "let w2 = (snd (handleCallback (env_at 50) (demo_deps (demo_provider 1500)) Wechat demo_raw empty_world))
       \<lparr>w_orders := w_orders demo_world1\<rparr> in
   fst (handleCallback (env_at 50) (demo_deps (demo_provider 1500)) Wechat demo_raw empty_world) = Inr (demo_ack False) \<and>
   handleCallback (env_at 99) (demo_deps (demo_provider 1500)) Wechat demo_raw w2 = (Inr (demo_ack True), w2)"
proof -
  have "\<not> event_seen (w_events empty_world) (callback_key Wechat (cb_eventId (demo_callback 1500)))"
    "order_findByOutTradeNo (w_orders empty_world) (cb_outTradeNo (demo_callback 1500)) = None"
    by (simp_all add: empty_world_def no_event order_findByOutTradeNo_def empty_order_store_def index_get_def)
  moreover have "order_findByOutTradeNo (w_orders demo_world1) (cb_outTradeNo (demo_callback 1500)) = Some demo_pending_order"
    "acceptable (cb_info (demo_callback 1500)) demo_pending_order" "cb_paid (demo_callback 1500)"
    by (simp add: demo_callback_def demo_world1_simps)
      (simp_all add: demo_callback_def acceptable_def cb_info_def demo_order_def)
  ultimately show ?thesis
    using callback_retry_lost[OF demo_verified _ _ _ refl, of 1500 empty_world "w_orders demo_world1" demo_pending_order "env_at 50" "env_at 99"]
    by (simp add: Let_def) (simp add: demo_provider_def)
qed

theorem sync_settles_once_witness:
  "let (r, w') = syncOrder (env_at 50) (demo_deps (demo_provider 0)) ''1'' demo_world1 in
     map_option o_status (order_findById (w_orders w') ''1'') = Some FULFILLED \<and>
     event_seen (w_events w') (txn_key Wechat ''tx1'')"
proof -
  have pre: "o_status demo_pending_order = PENDING" "pd_providers (demo_deps (demo_provider 0)) (o_method demo_pending_order) = Some (demo_provider 0)"
    "pp_queryPayment (demo_provider 0) demo_pending_order = Inr demo_query"
    "getPlan (pd_plans (demo_deps (demo_provider 0))) (o_planId demo_pending_order) \<noteq> None"
    "o_method demo_pending_order = Wechat" "o_amount demo_pending_order = 1500"
    by (simp_all add: demo_order_def demo_deps_def demo_provider_def demo_plan)
  from sync_settles_once[OF demo_world1_wf(1) demo_world1_simps(2) pre(1-4), of "env_at 50"]
  show ?thesis unfolding Let_def pre(5,6)
    by (auto simp: demo_query_def demo_world1_simps no_event)
qed

theorem expire_stale_exact_witness:
  "\<exists>w'. expireStaleOrders (env_at 200) demo_world1 = (Inr 1, w') \<and>
     map_option o_status (order_findById (w_orders w') ''1'') = Some EXPIRED"
proof -
  have s: "filter (stale (now_at (env_at 200) 0)) (order_all (w_orders demo_world1)) = [demo_pending_order]"
    "stale 200 demo_pending_order"
    by (simp_all add: demo_world1_simps stale_def demo_order_def)
  from expire_stale_exact[OF demo_world1_wf(1), of "env_at 200"] obtain w' where
    w': "expireStaleOrders (env_at 200) demo_world1 = (Inr 1, w')"
    "\<forall>k x. order_findById (w_orders demo_world1) k = Some x \<longrightarrow>
       (if stale 200 x then \<exists>t. order_findById (w_orders w') k = Some (x\<lparr>o_status := EXPIRED, o_updatedAt := t\<rparr>)
        else order_findById (w_orders w') k = Some x)"
    unfolding s(1) by auto
  obtain t where "order_findById (w_orders w') ''1'' = Some (demo_pending_order\<lparr>o_status := EXPIRED, o_updatedAt := t\<rparr>)"
    using w'(2)[rule_format, OF demo_world1_simps(2)] s(2) by auto
  then show ?thesis using w'(1) by auto
qed

end
