(* ===== verification/Locker.thy ===== *)
theory Locker
  imports Prelude
begin

text \<open>
  \<open>InProcessLocker\<close> of \<^verbatim>\<open>src/storage/memoryStore.ts\<close>, as a step relation over the event loop's turns.
  A call of \<open>withLock\<close> is a task, numbered in the order of the calls. Up to its first \<open>await\<close> it runs
  without interruption (\<open>lock_call\<close>: it reads the key's tail and puts its own promise there); it
  enters when the promise it found has resolved (\<open>lock_enter\<close>); and it leaves when its function has
  returned or thrown (\<open>lock_exit\<close>: it opens its gate, and removes the tail when it is still its own).
\<close>

datatype lock_phase = Waiting | Running | Done

record lock_task =
  lt_key :: string
  lt_prev :: "nat option"
  lt_phase :: lock_phase

record lock_state =
  lk_tasks :: "lock_task list"
  lk_tails :: "(string, nat) jsmap"

definition lock_init :: lock_state where
  "lock_init = \<lparr>lk_tasks = [], lk_tails = []\<rparr>"

text \<open>
  The promise \<open>mine = prev.then(() => gate)\<close> of task \<open>t\<close> has resolved: its gate is open and the promise
  it found has resolved (\<open>Promise.resolve()\<close> when it found none).
\<close>

function lock_resolved :: "lock_task list \<Rightarrow> nat \<Rightarrow> bool" where
  "lock_resolved ts t =
     (t < length ts \<and> lt_phase (ts ! t) = Done \<and>
      (case lt_prev (ts ! t) of None \<Rightarrow> True | Some p \<Rightarrow> if p < t then lock_resolved ts p else False))"
  by pat_completeness auto
termination by (relation "measure snd") auto

declare lock_resolved.simps [simp del]

definition lock_ready :: "lock_state \<Rightarrow> nat \<Rightarrow> bool" where
  "lock_ready st t = (case lt_prev (lk_tasks st ! t) of None \<Rightarrow> True | Some p \<Rightarrow> lock_resolved (lk_tasks st) p)"

definition lock_call :: "string \<Rightarrow> lock_state \<Rightarrow> lock_state" where
  "lock_call k st =
     (let prev = jm_get (lk_tails st) k; mine = length (lk_tasks st)
      in st\<lparr>lk_tasks := lk_tasks st @ [\<lparr>lt_key = k, lt_prev = prev, lt_phase = Waiting\<rparr>],
            lk_tails := jm_set k mine (lk_tails st)\<rparr>)"

definition set_phase :: "nat \<Rightarrow> lock_phase \<Rightarrow> lock_state \<Rightarrow> lock_state" where
  "set_phase t ph st = st\<lparr>lk_tasks := (lk_tasks st)[t := (lk_tasks st ! t)\<lparr>lt_phase := ph\<rparr>]\<rparr>"

definition lock_enter :: "nat \<Rightarrow> lock_state \<Rightarrow> lock_state" where
  "lock_enter t st = set_phase t Running st"

definition lock_exit :: "nat \<Rightarrow> lock_state \<Rightarrow> lock_state" where
  "lock_exit t st =
     (let k = lt_key (lk_tasks st ! t); st1 = set_phase t Done st
      in if jm_get (lk_tails st1) k = Some t then st1\<lparr>lk_tails := jm_delete k (lk_tails st1)\<rparr> else st1)"

inductive lock_step :: "lock_state \<Rightarrow> lock_state \<Rightarrow> bool" where
  call: "lock_step st (lock_call k st)"
| enter: "t < length (lk_tasks st) \<Longrightarrow> lt_phase (lk_tasks st ! t) = Waiting \<Longrightarrow> lock_ready st t \<Longrightarrow>
    lock_step st (lock_enter t st)"
| exit: "t < length (lk_tasks st) \<Longrightarrow> lt_phase (lk_tasks st ! t) = Running \<Longrightarrow> lock_step st (lock_exit t st)"

inductive_cases lock_stepE: "lock_step st st'"

inductive lock_reachable :: "lock_state \<Rightarrow> bool" where
  init: "lock_reachable lock_init"
| step: "lock_reachable st \<Longrightarrow> lock_step st st' \<Longrightarrow> lock_reachable st'"

section \<open>The invariant\<close>

abbreviation phase_at :: "lock_state \<Rightarrow> nat \<Rightarrow> lock_phase" where
  "phase_at st t \<equiv> lt_phase (lk_tasks st ! t)"

abbreviation key_at :: "lock_state \<Rightarrow> nat \<Rightarrow> string" where
  "key_at st t \<equiv> lt_key (lk_tasks st ! t)"

text \<open>\<open>before st k t p\<close>: the last task of key \<open>k\<close> before \<open>t\<close> is \<open>p\<close>.\<close>

definition last_before :: "lock_state \<Rightarrow> string \<Rightarrow> nat \<Rightarrow> nat \<Rightarrow> bool" where
  "last_before st k t p \<longleftrightarrow> p < t \<and> key_at st p = k \<and> (\<forall>i. p < i \<and> i < t \<longrightarrow> key_at st i \<noteq> k)"

definition all_done :: "lock_state \<Rightarrow> string \<Rightarrow> nat \<Rightarrow> bool" where
  "all_done st k t \<longleftrightarrow> (\<forall>i<t. key_at st i = k \<longrightarrow> phase_at st i = Done)"

text \<open>What task \<open>t\<close> (or the tail, for \<open>t\<close> the number of tasks) knows of the earlier tasks of its key.\<close>

definition chained :: "lock_state \<Rightarrow> string \<Rightarrow> nat \<Rightarrow> nat option \<Rightarrow> bool" where
  "chained st k t q = (case q of None \<Rightarrow> all_done st k t | Some p \<Rightarrow> last_before st k t p)"

definition lock_inv :: "lock_state \<Rightarrow> bool" where
  "lock_inv st \<longleftrightarrow>
     (\<forall>t < length (lk_tasks st). chained st (key_at st t) t (lt_prev (lk_tasks st ! t))) \<and>
     (\<forall>t < length (lk_tasks st). phase_at st t \<noteq> Waiting \<longrightarrow> all_done st (key_at st t) t) \<and>
     (\<forall>k. chained st k (length (lk_tasks st)) (jm_get (lk_tails st) k)) \<and>
     (\<forall>k t. jm_get (lk_tails st) k = Some t \<longrightarrow> phase_at st t \<noteq> Done)"

lemma lock_invD:
  assumes "lock_inv st"
  shows "t < length (lk_tasks st) \<Longrightarrow> chained st (key_at st t) t (lt_prev (lk_tasks st ! t))"
    and "t < length (lk_tasks st) \<Longrightarrow> phase_at st t \<noteq> Waiting \<Longrightarrow> all_done st (key_at st t) t"
    and "chained st k (length (lk_tasks st)) (jm_get (lk_tails st) k)"
    and "jm_get (lk_tails st) k = Some t \<Longrightarrow> phase_at st t \<noteq> Done"
  using assms by (auto simp: lock_inv_def)

lemma lock_ready_all_done:
  assumes inv: "lock_inv st" and t: "t < length (lk_tasks st)" and r: "lock_ready st t"
  shows "all_done st (key_at st t) t"
proof (cases "lt_prev (lk_tasks st ! t)")
  case None
  then show ?thesis using lock_invD(1)[OF inv t] by (simp add: chained_def)
next
  case (Some p)
  then have lb: "last_before st (key_at st t) t p" using lock_invD(1)[OF inv t] by (simp add: chained_def)
  have p: "p < length (lk_tasks st)" "phase_at st p = Done"
    using r Some by (simp_all add: lock_ready_def lock_resolved.simps[of _ p])
  have "all_done st (key_at st p) p" using lock_invD(2)[OF inv p(1)] p(2) by simp
  then show ?thesis using lb p(2) unfolding all_done_def last_before_def
    by (metis linorder_less_linear)
qed

lemma lock_all_done_resolved:
  assumes inv: "lock_inv st"
  shows "t < length (lk_tasks st) \<Longrightarrow> phase_at st t = Done \<Longrightarrow> lock_resolved (lk_tasks st) t"
proof (induction t rule: less_induct)
  case (less t)
  have ad: "all_done st (key_at st t) t" using lock_invD(2)[OF inv less.prems(1)] less.prems(2) by simp
  show ?case
  proof (cases "lt_prev (lk_tasks st ! t)")
    case None
    then show ?thesis using less.prems by (simp add: lock_resolved.simps[of _ t])
  next
    case (Some p)
    then have lb: "last_before st (key_at st t) t p" using lock_invD(1)[OF inv less.prems(1)] by (simp add: chained_def)
    then have "phase_at st p = Done" "p < t" using ad by (simp_all add: all_done_def last_before_def)
    then have "lock_resolved (lk_tasks st) p" using less by simp
    with Some \<open>p < t\<close> less.prems show ?thesis by (simp add: lock_resolved.simps[of _ t])
  qed
qed

lemma lock_inv_init: "lock_inv lock_init"
  by (simp add: lock_inv_def lock_init_def chained_def all_done_def)

lemma nth_snoc: "t < length xs \<Longrightarrow> (xs @ [x]) ! t = xs ! t"
  by (simp add: nth_append)

lemma lock_call_same:
  assumes "t \<le> length (lk_tasks st)"
  shows "all_done (lock_call k st) k' t = all_done st k' t"
    and "last_before (lock_call k st) k' t p = last_before st k' t p"
    and "chained (lock_call k st) k' t q = chained st k' t q"
proof -
  have n: "i < t \<Longrightarrow> lk_tasks (lock_call k st) ! i = lk_tasks st ! i" for i
    using assms by (simp add: lock_call_def Let_def nth_append)
  show a: "all_done (lock_call k st) k' t = all_done st k' t" by (auto simp: all_done_def n)
  show l: "last_before (lock_call k st) k' t p = last_before st k' t p" for p
    by (auto simp: last_before_def n)
  show "chained (lock_call k st) k' t q = chained st k' t q" by (simp add: chained_def a l split: option.split)
qed

lemma chained_extend:
  assumes "chained st k' t q" "key_at st t \<noteq> k'"
  shows "chained st k' (Suc t) q"
  using assms by (auto simp: chained_def all_done_def last_before_def less_Suc_eq split: option.splits)

lemma lock_call_inv:
  assumes inv: "lock_inv st"
  shows "lock_inv (lock_call k st)"
proof -
  let ?n = "length (lk_tasks st)" and ?s = "lock_call k st"
  have new: "lk_tasks ?s ! ?n = \<lparr>lt_key = k, lt_prev = jm_get (lk_tails st) k, lt_phase = Waiting\<rparr>"
    "length (lk_tasks ?s) = Suc ?n" by (simp_all add: lock_call_def Let_def)
  have old: "t < ?n \<Longrightarrow> lk_tasks ?s ! t = lk_tasks st ! t" for t by (simp add: lock_call_def Let_def nth_append)
  have tails: "jm_get (lk_tails ?s) k' = (if k' = k then Some ?n else jm_get (lk_tails st) k')" for k'
    by (simp add: lock_call_def Let_def)
  have "chained ?s (key_at ?s t) t (lt_prev (lk_tasks ?s ! t))" if "t < Suc ?n" for t
    using that lock_invD(1)[OF inv, of t] lock_invD(3)[OF inv, of k]
    by (cases "t = ?n") (simp_all add: new old lock_call_same)
  moreover have "all_done ?s (key_at ?s t) t" if "t < Suc ?n" "phase_at ?s t \<noteq> Waiting" for t
    using that lock_invD(2)[OF inv, of t] by (cases "t = ?n") (simp_all add: new old lock_call_same)
  moreover have "chained ?s k' (Suc ?n) (jm_get (lk_tails ?s) k')" for k'
  proof (cases "k' = k")
    case True
    then show ?thesis by (auto simp: tails chained_def last_before_def new)
  next
    case False
    have "chained ?s k' ?n (jm_get (lk_tails st) k')"
      using lock_invD(3)[OF inv, of k'] by (simp add: lock_call_same)
    from chained_extend[OF this] False show ?thesis by (simp add: tails new)
  qed
  moreover have "phase_at ?s t \<noteq> Done" if "jm_get (lk_tails ?s) k' = Some t" for k' t
  proof (cases "k' = k")
    case True
    then show ?thesis using that by (auto simp: tails new)
  next
    case False
    then have g: "jm_get (lk_tails st) k' = Some t" using that by (simp add: tails)
    then have "t < ?n" using lock_invD(3)[OF inv, of k'] by (simp add: chained_def last_before_def)
    then show ?thesis using lock_invD(4)[OF inv g] by (simp add: old)
  qed
  ultimately show ?thesis unfolding lock_inv_def new(2) by blast
qed

lemma set_phase_simps [simp]:
  "length (lk_tasks (set_phase t ph st)) = length (lk_tasks st)"
  "lk_tails (set_phase t ph st) = lk_tails st"
  "t < length (lk_tasks st) \<Longrightarrow> lk_tasks (set_phase t ph st) ! i =
     (if i = t then (lk_tasks st ! t)\<lparr>lt_phase := ph\<rparr> else lk_tasks st ! i)"
  by (simp_all add: set_phase_def nth_list_update)

lemma set_phase_keys: "t < length (lk_tasks st) \<Longrightarrow> key_at (set_phase t ph st) i = key_at st i"
  by simp

lemma last_before_phase:
  "t < length (lk_tasks st) \<Longrightarrow> last_before (set_phase t ph st) k u p = last_before st k u p"
  unfolding last_before_def by (simp only: set_phase_keys)

lemma lock_enter_inv:
  assumes inv: "lock_inv st" and t: "t < length (lk_tasks st)" "phase_at st t = Waiting" "lock_ready st t"
  shows "lock_inv (lock_enter t st)"
proof -
  let ?s = "set_phase t Running st"
  have ad: "all_done ?s k u" if "all_done st k u" for k u using that t by (auto simp: all_done_def)
  have ch: "chained ?s k u q" if "chained st k u q" for k u q
    using that ad t by (auto simp: chained_def last_before_phase split: option.splits)
  have "chained ?s (key_at ?s u) u (lt_prev (lk_tasks ?s ! u))" if "u < length (lk_tasks st)" for u
    using ch lock_invD(1)[OF inv that] t by (cases "u = t") simp_all
  moreover have "all_done ?s (key_at ?s u) u" if "u < length (lk_tasks st)" "phase_at ?s u \<noteq> Waiting" for u
    using lock_ready_all_done[OF inv t(1,3)] lock_invD(2)[OF inv that(1)] that t ad by (cases "u = t") simp_all
  moreover have "chained ?s k (length (lk_tasks st)) (jm_get (lk_tails st) k)" for k
    using ch lock_invD(3)[OF inv] by blast
  moreover have "phase_at ?s u \<noteq> Done" if "jm_get (lk_tails st) k = Some u" for k u
    using lock_invD(4)[OF inv that] t by simp
  ultimately show ?thesis unfolding lock_inv_def lock_enter_def by simp
qed

lemma lock_exit_inv:
  assumes inv: "lock_inv st" and t: "t < length (lk_tasks st)" "phase_at st t = Running"
  shows "lock_inv (lock_exit t st)"
proof -
  let ?s = "set_phase t Done st" and ?k = "key_at st t" and ?n = "length (lk_tasks st)"
  let ?s' = "lock_exit t st"
  have tasks: "lk_tasks ?s' = lk_tasks ?s" by (simp add: lock_exit_def Let_def)
  have tails: "jm_get (lk_tails ?s') k =
      (if k = ?k \<and> jm_get (lk_tails st) k = Some t then None else jm_get (lk_tails st) k)" for k
    using t by (auto simp: lock_exit_def Let_def)
  have ad: "all_done ?s k u" if "all_done st k u" for k u using that t by (auto simp: all_done_def)
  have same: "all_done ?s' k u = all_done ?s k u" "last_before ?s' k u p = last_before ?s k u p" for k u p
    by (simp_all add: all_done_def last_before_def tasks)
  have ch: "chained ?s' k u q" if "chained st k u q" for k u q
    using that ad t by (auto simp: chained_def same last_before_phase split: option.splits)
  have "chained ?s' (key_at ?s' u) u (lt_prev (lk_tasks ?s' ! u))" if "u < ?n" for u
    using ch lock_invD(1)[OF inv that] t by (cases "u = t") (simp_all add: tasks)
  moreover have "all_done ?s' (key_at ?s' u) u" if "u < ?n" "phase_at ?s' u \<noteq> Waiting" for u
    using lock_invD(2)[OF inv that(1)] that t ad by (cases "u = t") (simp_all add: same tasks)
  moreover have "chained ?s' k ?n (jm_get (lk_tails ?s') k)" for k
  proof (cases "k = ?k \<and> jm_get (lk_tails st) k = Some t")
    case True
    then have "last_before st ?k ?n t" using lock_invD(3)[OF inv, of k] by (auto simp: chained_def)
    moreover have "all_done st ?k t" using lock_invD(2)[OF inv t(1)] t(2) by simp
    ultimately have "all_done ?s' ?k ?n" unfolding all_done_def last_before_def tasks
      using t(1) by (simp, metis linorder_less_linear)
    then show ?thesis using True by (auto simp: chained_def tails)
  next
    case False
    then show ?thesis using ch lock_invD(3)[OF inv, of k] by (auto simp: tails)
  qed
  moreover have "phase_at ?s' u \<noteq> Done" if "jm_get (lk_tails ?s') k = Some u" for k u
  proof -
    have g: "jm_get (lk_tails st) k = Some u" "\<not> (k = ?k \<and> u = t)" using that by (auto simp: tails split: if_splits)
    have "key_at st u = k" using lock_invD(3)[OF inv, of k] g(1) by (simp add: chained_def last_before_def)
    then have "u \<noteq> t" using g(2) by blast
    then show ?thesis using lock_invD(4)[OF inv g(1)] t by (simp add: tasks)
  qed
  ultimately show ?thesis unfolding lock_inv_def by (simp add: tasks)
qed

lemma lock_reachable_inv: "lock_reachable st \<Longrightarrow> lock_inv st"
proof (induction rule: lock_reachable.induct)
  case init
  show ?case by (rule lock_inv_init)
next
  case (step st st')
  from step.hyps(2) step.IH show ?case
    by (cases rule: lock_step.cases) (auto intro: lock_call_inv lock_enter_inv lock_exit_inv)
qed

section \<open>Properties\<close>

text \<open>
  C16: the lock serialises work per key, in the order of the calls. In every reachable state at most
  one task of a key runs, and whenever a task has started, every earlier call for the same key has
  finished.
\<close>

theorem lock_mutual_exclusion_fifo:
  assumes "lock_reachable st" "i < j" "j < length (lk_tasks st)" "key_at st i = key_at st j"
  shows "\<not> (phase_at st i = Running \<and> phase_at st j = Running) \<and>
    (phase_at st j \<noteq> Waiting \<longrightarrow> phase_at st i = Done)"
proof -
  have "phase_at st j \<noteq> Waiting \<Longrightarrow> phase_at st i = Done"
    using lock_invD(2)[OF lock_reachable_inv[OF assms(1)] assms(3)] assms(2,4) by (simp add: all_done_def)
  then show ?thesis by auto
qed

definition demo_lock_state :: lock_state where
  "demo_lock_state = lock_enter 0 (lock_call ''o1'' (lock_call ''o1'' lock_init))"

lemma demo_lock_reachable: "lock_reachable demo_lock_state"
  unfolding demo_lock_state_def
  by (intro lock_reachable.step[OF _ lock_step.enter] lock_reachable.step[OF _ lock_step.call] lock_reachable.init)
    (simp_all add: lock_call_def lock_init_def lock_ready_def)

theorem lock_mutual_exclusion_fifo_witness:
  "lock_reachable demo_lock_state \<and> phase_at demo_lock_state 0 = Running \<and> phase_at demo_lock_state 1 = Waiting"
proof -
  have "0 < length (lk_tasks demo_lock_state) \<and> 1 < length (lk_tasks demo_lock_state) \<and>
      key_at demo_lock_state 0 = key_at demo_lock_state 1 \<and> phase_at demo_lock_state 0 = Running"
    by (simp add: demo_lock_state_def lock_enter_def set_phase_def lock_call_def lock_init_def)
  then show ?thesis
    using lock_mutual_exclusion_fifo[OF demo_lock_reachable, of 0 1] demo_lock_reachable by fastforce
qed

text \<open>
  no call waits for ever on an idle key, and the map of tails does not grow. In every reachable
  state, the first unfinished task of a key is running or may enter at once, and a key has an entry in
  the map exactly while it has an unfinished task.
\<close>

theorem lock_progress_cleanup:
  assumes "lock_reachable st"
  shows "(\<forall>t < length (lk_tasks st). phase_at st t \<noteq> Done \<and> all_done st (key_at st t) t \<longrightarrow>
      phase_at st t = Running \<or> lock_step st (lock_enter t st)) \<and>
    (\<forall>k. (jm_get (lk_tails st) k \<noteq> None) = (\<exists>t < length (lk_tasks st). key_at st t = k \<and> phase_at st t \<noteq> Done))"
proof (intro conjI allI impI)
  note inv = lock_reachable_inv[OF assms]
  fix t assume t: "t < length (lk_tasks st)" and a: "phase_at st t \<noteq> Done \<and> all_done st (key_at st t) t"
  have "lock_ready st t"
  proof (cases "lt_prev (lk_tasks st ! t)")
    case (Some p)
    then have "last_before st (key_at st t) t p" using lock_invD(1)[OF inv t] by (simp add: chained_def)
    then have "p < length (lk_tasks st)" "phase_at st p = Done" using a t by (auto simp: last_before_def all_done_def)
    then show ?thesis using lock_all_done_resolved[OF inv] Some by (simp add: lock_ready_def)
  qed (simp add: lock_ready_def)
  then show "phase_at st t = Running \<or> lock_step st (lock_enter t st)"
    using a t lock_phase.exhaust[of "phase_at st t"] by (auto intro: lock_step.enter)
next
  note inv = lock_reachable_inv[OF assms]
  fix k
  show "(jm_get (lk_tails st) k \<noteq> None) = (\<exists>t < length (lk_tasks st). key_at st t = k \<and> phase_at st t \<noteq> Done)"
  proof (cases "jm_get (lk_tails st) k")
    case None
    then show ?thesis using lock_invD(3)[OF inv, of k] by (auto simp: chained_def all_done_def)
  next
    case (Some t)
    then show ?thesis using lock_invD(3)[OF inv, of k] lock_invD(4)[OF inv Some]
      by (auto simp: chained_def last_before_def)
  qed
qed

theorem lock_progress_cleanup_witness:
  "lock_reachable demo_lock_state \<and> jm_get (lk_tails demo_lock_state) ''o1'' \<noteq> None"
proof -
  have "0 < length (lk_tasks demo_lock_state) \<and> key_at demo_lock_state 0 = ''o1'' \<and> phase_at demo_lock_state 0 \<noteq> Done"
    by (simp add: demo_lock_state_def lock_enter_def set_phase_def lock_call_def lock_init_def)
  then show ?thesis
    using lock_progress_cleanup[OF demo_lock_reachable] demo_lock_reachable by blast
qed

end
