(* ===== verification/Interleave.thy ===== *)
theory Interleave
  imports PaymentService Locker "HOL-Library.Sublist"
begin

text \<open>
  Concurrent settlements. \<open>PaymentService\<close> has \<open>applyPayment\<close> and the expiry of one order as whole operations.
  Here they are taken apart at their \<open>await\<close>s and run against each other in any order, under the per-order
  lock of \<open>Locker\<close>: a task is one call of \<open>withLock\<close> by \<open>applyPayment\<close> or by \<open>expireStaleOrders\<close>
  (\<^verbatim>\<open>src/services/paymentService.ts\<close>), and each of its steps is what the event loop runs without
  interruption. \<open>fulfillOrder\<close> (\<^verbatim>\<open>src/services/subscriptionService.ts\<close>) is taken apart likewise: it reads
  the user's subscription in one step and writes it in another.
\<close>

section \<open>Tasks and their steps\<close>

datatype work = Settle paid_info | Expire

text \<open>
  Where a task is: it waits for the lock; it has read its order; it has written the order as PAID; it has read the
  user's current subscription, at a time; it has written the subscription; its function has returned or thrown; it
  has given the lock back.
\<close>

datatype place =
    Waits
  | Looked "order option"
  | Paying order
  | Reading order "subscription option" int
  | Granting order
  | Leaving
  | Left

record task =
  tk_order :: string
  tk_work :: work
  tk_place :: place

text \<open>What tasks have written, in the order in which they wrote it.\<close>

datatype effect = Marked_paid string | Granted_in string string | Completed string | Lapsed string

fun effect_order :: "effect \<Rightarrow> string" where
  "effect_order (Marked_paid k) = k"
| "effect_order (Granted_in k i) = k"
| "effect_order (Completed k) = k"
| "effect_order (Lapsed k) = k"

record run_state =
  ru_lock :: lock_state
  ru_tasks :: "task list"
  ru_orders :: order_store
  ru_subs :: sub_store
  ru_effects :: "effect list"

definition run_start :: "order_store \<Rightarrow> sub_store \<Rightarrow> run_state" where
  "run_start os ss = \<lparr>ru_lock = lock_init, ru_tasks = [], ru_orders = os, ru_subs = ss, ru_effects = []\<rparr>"

abbreviation task_at :: "run_state \<Rightarrow> nat \<Rightarrow> task" where
  "task_at s t \<equiv> ru_tasks s ! t"

definition goto :: "nat \<Rightarrow> place \<Rightarrow> run_state \<Rightarrow> run_state" where
  "goto t p s = s\<lparr>ru_tasks := (ru_tasks s)[t := (task_at s t)\<lparr>tk_place := p\<rparr>]\<rparr>"

definition call_task :: "string \<Rightarrow> work \<Rightarrow> run_state \<Rightarrow> run_state" where
  "call_task k wk s = s\<lparr>ru_lock := lock_call k (ru_lock s),
     ru_tasks := ru_tasks s @ [\<lparr>tk_order = k, tk_work = wk, tk_place = Waits\<rparr>]\<rparr>"

definition enter_task :: "nat \<Rightarrow> run_state \<Rightarrow> run_state" where
  "enter_task t s = goto t (Looked (order_findById (ru_orders s) (tk_order (task_at s t))))
     (s\<lparr>ru_lock := lock_enter t (ru_lock s)\<rparr>)"

definition write_order :: "nat \<Rightarrow> order \<Rightarrow> effect \<Rightarrow> place \<Rightarrow> run_state \<Rightarrow> run_state" where
  "write_order t ord ef p s =
     (case order_update ord (ru_orders s) of
        Inl err \<Rightarrow> goto t Leaving s
      | Inr st \<Rightarrow> goto t p (s\<lparr>ru_orders := st, ru_effects := ru_effects s @ [ef]\<rparr>))"

text \<open>The checks of \<open>applyPayment\<close> on the order it has read, and its first write.\<close>

definition settle_order :: "int \<Rightarrow> nat \<Rightarrow> paid_info \<Rightarrow> order \<Rightarrow> run_state \<Rightarrow> run_state" where
  "settle_order now t paid ord s =
     (if o_status ord = PAID \<or> o_status ord = FULFILLED then goto t Leaving s
      else if isTerminal (o_status ord) then goto t Leaving s
      else if pi_currency paid \<noteq> o_currency ord then goto t Leaving s
      else if below (pi_paidAmount paid) (o_amount ord) then goto t Leaving s
      else case assertTransition (o_status ord) PAID of
             Inl err \<Rightarrow> goto t Leaving s
           | Inr st \<Rightarrow>
               let paidOrder = ord\<lparr>o_status := st, o_providerTxnId := Some (pi_providerTxnId paid),
                     o_paidAt := Some now, o_updatedAt := now\<rparr>
               in write_order t paidOrder (Marked_paid (o_id ord)) (Paying paidOrder) s)"

text \<open>The body of the locked function of \<open>expireStaleOrders\<close>.\<close>

definition lapse_order :: "int \<Rightarrow> nat \<Rightarrow> order \<Rightarrow> run_state \<Rightarrow> run_state" where
  "lapse_order now t fresh s =
     (if o_status fresh \<noteq> PENDING then goto t Leaving s
      else case assertTransition (o_status fresh) EXPIRED of
             Inl err \<Rightarrow> goto t Leaving s
           | Inr st \<Rightarrow> write_order t (fresh\<lparr>o_status := st, o_updatedAt := now\<rparr>) (Lapsed (o_id fresh)) Leaving s)"

definition decide_task :: "int \<Rightarrow> nat \<Rightarrow> order option \<Rightarrow> run_state \<Rightarrow> run_state" where
  "decide_task now t found s =
     (case found of
        None \<Rightarrow> goto t Leaving s
      | Some ord \<Rightarrow>
          (case tk_work (task_at s t) of
             Settle paid \<Rightarrow> settle_order now t paid ord s
           | Expire \<Rightarrow> lapse_order now t ord s))"

text \<open>\<open>fulfillOrder\<close> up to the read of the subscription, and its write.\<close>

definition read_task :: "plan list \<Rightarrow> int \<Rightarrow> nat \<Rightarrow> order \<Rightarrow> run_state \<Rightarrow> run_state" where
  "read_task plans now t paidOrder s =
     (case getPlan plans (o_planId paidOrder) of
        None \<Rightarrow> goto t Leaving s
      | Some plan \<Rightarrow> goto t (Reading paidOrder (sub_findActiveByUser (ru_subs s) (o_userId paidOrder)) now) s)"

definition granted_sub :: "env \<Rightarrow> int \<Rightarrow> order \<Rightarrow> plan \<Rightarrow> subscription option \<Rightarrow> subscription" where
  "granted_sub e now ord plan existing =
     (case existing of
        Some x \<Rightarrow> if s_expiresAt x > now then renewed now ord plan x else started e now ord plan
      | None \<Rightarrow> started e now ord plan)"

definition stored_sub :: "int \<Rightarrow> subscription option \<Rightarrow> subscription \<Rightarrow> sub_store \<Rightarrow> sub_store" where
  "stored_sub now existing subscription st =
     (case existing of
        Some x \<Rightarrow> if s_expiresAt x > now then sub_update subscription st else sub_create subscription st
      | None \<Rightarrow> sub_create subscription st)"

definition grant_task :: "plan list \<Rightarrow> env \<Rightarrow> nat \<Rightarrow> order \<Rightarrow> subscription option \<Rightarrow> int \<Rightarrow> run_state \<Rightarrow> run_state" where
  "grant_task plans e t paidOrder existing now s =
     (case getPlan plans (o_planId paidOrder) of
        None \<Rightarrow> goto t Leaving s
      | Some plan \<Rightarrow>
          let subscription = granted_sub e now paidOrder plan existing;
              s1 = s\<lparr>ru_subs := stored_sub now existing subscription (ru_subs s),
                     ru_effects := ru_effects s @ [Granted_in (o_id paidOrder) (s_id subscription)]\<rparr>
          in case assertTransition (o_status paidOrder) FULFILLED of
               Inl err \<Rightarrow> goto t Leaving s1
             | Inr st \<Rightarrow> goto t (Granting (paidOrder\<lparr>o_status := st, o_updatedAt := now\<rparr>)) s1)"

text \<open>\<open>applyPayment\<close>'s last write of the order; and the end of the task, which opens the lock.\<close>

definition complete_task :: "nat \<Rightarrow> order \<Rightarrow> run_state \<Rightarrow> run_state" where
  "complete_task t fulfilled s = write_order t fulfilled (Completed (o_id fulfilled)) Leaving s"

definition leave_task :: "nat \<Rightarrow> run_state \<Rightarrow> run_state" where
  "leave_task t s = goto t Left (s\<lparr>ru_lock := lock_exit t (ru_lock s)\<rparr>)"

text \<open>The steps of the event loop: any task that can go on, goes on; the clock and the new ids are arbitrary.\<close>

inductive run_step :: "plan list \<Rightarrow> run_state \<Rightarrow> run_state \<Rightarrow> bool" for plans where
  call: "run_step plans s (call_task k wk s)"
| enter: "t < length (ru_tasks s) \<Longrightarrow> tk_place (task_at s t) = Waits \<Longrightarrow> lock_ready (ru_lock s) t \<Longrightarrow>
    run_step plans s (enter_task t s)"
| decide: "t < length (ru_tasks s) \<Longrightarrow> tk_place (task_at s t) = Looked found \<Longrightarrow>
    run_step plans s (decide_task now t found s)"
| read: "t < length (ru_tasks s) \<Longrightarrow> tk_place (task_at s t) = Paying paidOrder \<Longrightarrow>
    run_step plans s (read_task plans now t paidOrder s)"
| grant: "t < length (ru_tasks s) \<Longrightarrow> tk_place (task_at s t) = Reading paidOrder existing now \<Longrightarrow>
    run_step plans s (grant_task plans e t paidOrder existing now s)"
| complete: "t < length (ru_tasks s) \<Longrightarrow> tk_place (task_at s t) = Granting fulfilled \<Longrightarrow>
    run_step plans s (complete_task t fulfilled s)"
| leave: "t < length (ru_tasks s) \<Longrightarrow> tk_place (task_at s t) = Leaving \<Longrightarrow> run_step plans s (leave_task t s)"

inductive_cases run_stepE: "run_step plans s s'"

abbreviation run_reachable :: "plan list \<Rightarrow> order_store \<Rightarrow> sub_store \<Rightarrow> run_state \<Rightarrow> bool" where
  "run_reachable plans os ss s \<equiv> (run_step plans)\<^sup>*\<^sup>* (run_start os ss) s"

section \<open>The invariant\<close>

definition stage :: "run_state \<Rightarrow> string \<Rightarrow> effect list" where
  "stage s k = filter (\<lambda>ef. effect_order ef = k) (ru_effects s)"

fun phase_of :: "place \<Rightarrow> lock_phase" where
  "phase_of Waits = Waiting"
| "phase_of Left = Done"
| "phase_of _ = Running"

definition tasks_locked :: "run_state \<Rightarrow> bool" where
  "tasks_locked s \<longleftrightarrow> lock_inv (ru_lock s) \<and> length (lk_tasks (ru_lock s)) = length (ru_tasks s) \<and>
     (\<forall>t < length (ru_tasks s). key_at (ru_lock s) t = tk_order (task_at s t) \<and>
        phase_at (ru_lock s) t = phase_of (tk_place (task_at s t)))"

text \<open>How far an order has come, from the one it was at the start.\<close>

definition stage_ok :: "order_store \<Rightarrow> run_state \<Rightarrow> string \<Rightarrow> bool" where
  "stage_ok os s k \<longleftrightarrow>
     (let now = order_findById (ru_orders s) k; is = (\<lambda>st. map_option o_status now = Some st) in
      (stage s k = [] \<and> now = order_findById os k) \<or>
      (map_option o_status (order_findById os k) = Some PENDING \<and>
        ((stage s k = [Marked_paid k] \<and> is PAID) \<or> (\<exists>i. stage s k = [Marked_paid k, Granted_in k i] \<and> is PAID) \<or>
         (\<exists>i. stage s k = [Marked_paid k, Granted_in k i, Completed k] \<and> is FULFILLED) \<or> (stage s k = [Lapsed k] \<and> is EXPIRED))))"

fun place_ok :: "run_state \<Rightarrow> string \<Rightarrow> place \<Rightarrow> bool" where
  "place_ok s k (Looked found) = (found = order_findById (ru_orders s) k)"
| "place_ok s k (Paying p) = (order_findById (ru_orders s) k = Some p \<and> o_status p = PAID \<and> stage s k = [Marked_paid k])"
| "place_ok s k (Reading p x n) = (order_findById (ru_orders s) k = Some p \<and> o_status p = PAID \<and> stage s k = [Marked_paid k])"
| "place_ok s k (Granting p) = (\<exists>q i. order_findById (ru_orders s) k = Some q \<and> o_id p = k \<and> o_outTradeNo p = o_outTradeNo q \<and>
     o_status p = FULFILLED \<and> stage s k = [Marked_paid k, Granted_in k i])"
| "place_ok s k _ = True"

definition run_inv :: "order_store \<Rightarrow> run_state \<Rightarrow> bool" where
  "run_inv os s \<longleftrightarrow> tasks_locked s \<and> order_store_wf (ru_orders s) \<and> (\<forall>k. stage_ok os s k) \<and>
     (\<forall>t < length (ru_tasks s). place_ok s (tk_order (task_at s t)) (tk_place (task_at s t)))"

lemma goto_simps [simp]:
  "ru_lock (goto t p s) = ru_lock s" "ru_orders (goto t p s) = ru_orders s" "ru_subs (goto t p s) = ru_subs s"
  "ru_effects (goto t p s) = ru_effects s" "length (ru_tasks (goto t p s)) = length (ru_tasks s)"
  "stage (goto t p s) k = stage s k"
  "t < length (ru_tasks s) \<Longrightarrow> task_at (goto t p s) u = (if u = t then (task_at s t)\<lparr>tk_place := p\<rparr> else task_at s u)"
  by (simp_all add: goto_def stage_def nth_list_update)

text \<open>At most one task of an order is inside the lock.\<close>

lemma one_inside:
  assumes "tasks_locked s" "t < length (ru_tasks s)" "u < length (ru_tasks s)" "t \<noteq> u"
    and "tk_order (task_at s t) = tk_order (task_at s u)" "phase_of (tk_place (task_at s t)) = Running"
  shows "phase_of (tk_place (task_at s u)) \<noteq> Running"
proof -
  have *: "False" if "i < j" "j < length (ru_tasks s)" "tk_order (task_at s i) = tk_order (task_at s j)"
    "phase_of (tk_place (task_at s i)) = Running" "phase_of (tk_place (task_at s j)) = Running" for i j
    using lock_invD(2)[of "ru_lock s" j] assms(1) that by (auto simp: tasks_locked_def all_done_def)
  show ?thesis using *[of t u] *[of u t] assms by (metis linorder_neqE_nat)
qed

lemma place_ok_outside: "phase_of p \<noteq> Running \<Longrightarrow> place_ok s k p"
  by (cases p) simp_all

lemma place_ok_frame:
  "order_findById (ru_orders s') k = order_findById (ru_orders s) k \<Longrightarrow> stage s' k = stage s k \<Longrightarrow> place_ok s' k p = place_ok s k p"
  by (cases p) simp_all

text \<open>A step of a task inside the lock touches its own order only.\<close>

lemma run_inv_work:
  assumes inv: "run_inv os s" and t: "t < length (ru_tasks s)" "tk_order (task_at s t) = k"
    and run: "phase_of (tk_place (task_at s t)) = Running" "phase_of p = Running"
    and s1: "ru_lock s1 = ru_lock s" "ru_tasks s1 = ru_tasks s"
    and frame: "\<And>i. i \<noteq> k \<Longrightarrow> order_findById (ru_orders s1) i = order_findById (ru_orders s) i \<and> stage s1 i = stage s i"
    and new: "order_store_wf (ru_orders s1)" "stage_ok os s1 k" "place_ok s1 k p"
  shows "run_inv os (goto t p s1)"
proof -
  let ?s = "goto t p s1"
  have locked: "tasks_locked s" using inv by (simp add: run_inv_def)
  have "tasks_locked ?s"
    using locked t(1) run s1 by (simp add: tasks_locked_def)
  moreover have "stage_ok os ?s i" for i
  proof (cases "i = k")
    case True
    then show ?thesis using new(2) by (simp add: stage_ok_def)
  next
    case False
    have "stage_ok os s i" using inv by (simp add: run_inv_def)
    then show ?thesis using frame[OF False] by (simp add: stage_ok_def)
  qed
  moreover have "place_ok ?s (tk_order (task_at ?s u)) (tk_place (task_at ?s u))" if u: "u < length (ru_tasks s)" for u
  proof -
    have eq: "place_ok ?s i q = place_ok s1 i q" for i q by (rule place_ok_frame) simp_all
    consider "u = t" | "u \<noteq> t" "tk_order (task_at s u) = k" | "u \<noteq> t" "tk_order (task_at s u) \<noteq> k" by blast
    then show ?thesis
    proof cases
      case 1
      then show ?thesis using t new(3) s1 by (simp add: eq)
    next
      case 2
      then have "phase_of (tk_place (task_at s u)) \<noteq> Running" using one_inside[OF locked t(1) u] t(2) run(1) by metis
      then show ?thesis using 2 t s1 by (simp add: place_ok_outside)
    next
      case 3
      have "place_ok s (tk_order (task_at s u)) (tk_place (task_at s u))" using inv u by (simp add: run_inv_def)
      then show ?thesis using 3 t s1 frame place_ok_frame[of s1 "tk_order (task_at s u)" s] by (simp add: eq)
    qed
  qed
  ultimately show ?thesis using new(1) s1 by (simp add: run_inv_def)
qed

lemma run_inv_goto:
  assumes "run_inv os s" "t < length (ru_tasks s)" "phase_of (tk_place (task_at s t)) = Running"
    and "phase_of p = Running" "place_ok s (tk_order (task_at s t)) p"
  shows "run_inv os (goto t p s)"
  using assms by (intro run_inv_work[where k = "tk_order (task_at s t)"]) (simp_all add: run_inv_def)

lemma write_orderE:
  assumes "order_findById (ru_orders s) (o_id ord) = Some q"
  obtains st where "write_order t ord ef p s = goto t p (s\<lparr>ru_orders := st, ru_effects := ru_effects s @ [ef]\<rparr>)"
    "order_update ord (ru_orders s) = Inr st"
    "\<And>k. order_findById st k = (if k = o_id ord then Some ord else order_findById (ru_orders s) k)"
proof -
  obtain st where st: "order_update ord (ru_orders s) = Inr st" using order_repo.update_total[OF assms] by blast
  show ?thesis using that[OF _ st] st order_repo.update_find[OF st] by (simp add: write_order_def)
qed

text \<open>Writing a task's own order, with one more effect of that order.\<close>

lemma run_inv_write:
  assumes inv: "run_inv os s" and t: "t < length (ru_tasks s)" "tk_order (task_at s t) = k"
    and run: "phase_of (tk_place (task_at s t)) = Running" "phase_of p = Running"
    and old: "order_findById (ru_orders s) k = Some q" "o_id ord = k" "o_outTradeNo ord = o_outTradeNo q"
    and ef: "effect_order ef = k"
    and new: "\<And>s1. stage s1 k = stage s k @ [ef] \<Longrightarrow> order_findById (ru_orders s1) k = Some ord \<Longrightarrow>
      stage_ok os s1 k \<and> place_ok s1 k p"
  shows "run_inv os (write_order t ord ef p s)"
proof -
  obtain st where w: "write_order t ord ef p s = goto t p (s\<lparr>ru_orders := st, ru_effects := ru_effects s @ [ef]\<rparr>)"
    "order_update ord (ru_orders s) = Inr st"
    "\<And>k. order_findById st k = (if k = o_id ord then Some ord else order_findById (ru_orders s) k)"
    using write_orderE[of s ord q t ef p] old by metis
  let ?s1 = "s\<lparr>ru_orders := st, ru_effects := ru_effects s @ [ef]\<rparr>"
  have wf: "order_store_wf st"
    using order_repo.update_valid[OF _ _ _ w(2), of q] old inv by (simp add: run_inv_def)
  have st: "stage ?s1 i = (if i = k then stage s k @ [ef] else stage s i)" for i using ef by (simp add: stage_def)
  show ?thesis
    unfolding w(1)
    by (rule run_inv_work[OF inv t run]) (use wf st w(3) old(2) new[of ?s1] in simp_all)
qed

lemma stage_okD:
  assumes "run_inv os s"
  shows "stage_ok os s k"
  using assms by (simp add: run_inv_def)

lemma stored_key: "run_inv os s \<Longrightarrow> order_findById (ru_orders s) k = Some ord \<Longrightarrow> o_id ord = k"
  using order_repo.find_key[of "ru_orders s" k ord] by (auto simp: run_inv_def)

text \<open>An order that is still pending has not been touched.\<close>

lemma pending_untouched:
  assumes "run_inv os s" "order_findById (ru_orders s) k = Some ord" "o_status ord = PENDING"
  shows "stage s k = []" "order_findById os k = Some ord"
  using stage_okD[OF assms(1), of k] assms(2,3) by (auto simp: stage_ok_def Let_def)

lemma to_paid: "assertTransition f PAID = Inr st \<Longrightarrow> f \<noteq> PAID \<Longrightarrow> f = PENDING \<and> st = PAID"
  by (cases f) (simp_all add: assertTransition_def canTransition_def)

lemma run_inv_decide:
  assumes inv: "run_inv os s" and t: "t < length (ru_tasks s)" "tk_place (task_at s t) = Looked found"
  shows "run_inv os (decide_task now t found s)"
proof -
  let ?k = "tk_order (task_at s t)"
  have out: "run_inv os (goto t Leaving s)" using inv t by (intro run_inv_goto) simp_all
  have found: "found = order_findById (ru_orders s) ?k"
    using inv t by (fastforce simp: run_inv_def)
  show ?thesis
  proof (cases found)
    case None
    then show ?thesis using out by (simp add: decide_task_def)
  next
    case (Some ord)
    then have ord: "order_findById (ru_orders s) ?k = Some ord" using found by simp
    note key = stored_key[OF inv ord]
    show ?thesis
    proof (cases "tk_work (task_at s t)")
      case (Settle paid)
      have "run_inv os (settle_order now t paid ord s)"
      proof (cases "assertTransition (o_status ord) PAID")
        case (Inl err)
        then show ?thesis using out by (simp add: settle_order_def)
      next
        case (Inr st)
        show ?thesis
        proof (cases "o_status ord = PAID")
          case True
          then show ?thesis using out by (simp add: settle_order_def)
        next
          case False
          note st = to_paid[OF Inr False]
          let ?p = "ord\<lparr>o_status := st, o_providerTxnId := Some (pi_providerTxnId paid), o_paidAt := Some now, o_updatedAt := now\<rparr>"
          have "run_inv os (write_order t ?p (Marked_paid (o_id ord)) (Paying ?p) s)"
            by (rule run_inv_write[OF inv t(1) refl _ _ ord])
              (use t key st pending_untouched[OF inv ord] in \<open>auto simp: stage_ok_def Let_def\<close>)
          then show ?thesis using out Inr by (simp add: settle_order_def Let_def)
        qed
      qed
      then show ?thesis using Some Settle by (simp add: decide_task_def)
    next
      case Expire
      have "run_inv os (lapse_order now t ord s)"
      proof (cases "o_status ord = PENDING")
        case True
        have st: "assertTransition (o_status ord) EXPIRED = Inr EXPIRED"
          by (simp add: True assertTransition_def canTransition_def)
        have "run_inv os (write_order t (ord\<lparr>o_status := EXPIRED, o_updatedAt := now\<rparr>) (Lapsed (o_id ord)) Leaving s)"
          by (rule run_inv_write[OF inv t(1) refl _ _ ord])
            (use t key True pending_untouched[OF inv ord] in \<open>auto simp: stage_ok_def Let_def\<close>)
        then show ?thesis using True st by (simp add: lapse_order_def)
      qed (use out in \<open>simp add: lapse_order_def\<close>)
      then show ?thesis using Some Expire by (simp add: decide_task_def)
    qed
  qed
qed

lemma place_okD:
  assumes "run_inv os s" "t < length (ru_tasks s)" "tk_place (task_at s t) = p"
  shows "place_ok s (tk_order (task_at s t)) p"
  using assms by (auto simp: run_inv_def)

lemma run_inv_read:
  assumes inv: "run_inv os s" and t: "t < length (ru_tasks s)" "tk_place (task_at s t) = Paying p"
  shows "run_inv os (read_task plans now t p s)"
proof -
  have ok: "place_ok s (tk_order (task_at s t)) (Paying p)" by (rule place_okD[OF inv t])
  show ?thesis
    unfolding read_task_def using inv t ok
    by (cases "getPlan plans (o_planId p)") (auto intro!: run_inv_goto)
qed

lemma run_inv_grant:
  assumes inv: "run_inv os s" and t: "t < length (ru_tasks s)" "tk_place (task_at s t) = Reading p x now"
  shows "run_inv os (grant_task plans e t p x now s)"
proof -
  let ?k = "tk_order (task_at s t)"
  have ok: "order_findById (ru_orders s) ?k = Some p" "o_status p = PAID" "stage s ?k = [Marked_paid ?k]"
    using place_okD[OF inv t] by simp_all
  note key = stored_key[OF inv ok(1)]
  show ?thesis
  proof (cases "getPlan plans (o_planId p)")
    case None
    then show ?thesis using inv t by (auto simp: grant_task_def intro!: run_inv_goto)
  next
    case (Some plan)
    let ?sub = "granted_sub e now p plan x"
    let ?s1 = "s\<lparr>ru_subs := stored_sub now x ?sub (ru_subs s), ru_effects := ru_effects s @ [Granted_in (o_id p) (s_id ?sub)]\<rparr>"
    let ?f = "p\<lparr>o_status := FULFILLED, o_updatedAt := now\<rparr>"
    have st: "stage ?s1 i = (if i = ?k then [Marked_paid ?k, Granted_in ?k (s_id ?sub)] else stage s i)" for i
      using ok(3) key by (simp add: stage_def)
    have "stage_ok os s ?k" by (rule stage_okD[OF inv])
    then have "stage_ok os ?s1 ?k" using ok st by (auto simp: stage_ok_def Let_def)
    then have "run_inv os (goto t (Granting ?f) ?s1)"
      by (intro run_inv_work[OF inv t(1) refl]) (use inv t ok key st in \<open>simp_all add: run_inv_def\<close>)
    moreover have "assertTransition PAID FULFILLED = Inr FULFILLED" by (simp add: assertTransition_def canTransition_def)
    ultimately show ?thesis using Some ok(2) by (simp add: grant_task_def Let_def)
  qed
qed

lemma run_inv_complete:
  assumes inv: "run_inv os s" and t: "t < length (ru_tasks s)" "tk_place (task_at s t) = Granting p"
  shows "run_inv os (complete_task t p s)"
proof -
  let ?k = "tk_order (task_at s t)"
  obtain q i where ok: "order_findById (ru_orders s) ?k = Some q" "o_id p = ?k" "o_outTradeNo p = o_outTradeNo q"
    "o_status p = FULFILLED" "stage s ?k = [Marked_paid ?k, Granted_in ?k i]"
    using place_okD[OF inv t] by auto
  have "stage_ok os s ?k" by (rule stage_okD[OF inv])
  then have "map_option o_status (order_findById os ?k) = Some PENDING" using ok(5) by (simp add: stage_ok_def Let_def)
  then show ?thesis
    unfolding complete_task_def
    by (intro run_inv_write[OF inv t(1) refl _ _ ok(1-3)]) (use t ok in \<open>auto simp: stage_ok_def Let_def\<close>)
qed

text \<open>Steps that change the lock.\<close>

lemma run_inv_lock:
  assumes inv: "run_inv os s" and locked: "tasks_locked s'"
    and same: "ru_orders s' = ru_orders s" "ru_effects s' = ru_effects s"
    and places: "\<And>t. t < length (ru_tasks s') \<Longrightarrow> place_ok s (tk_order (task_at s' t)) (tk_place (task_at s' t))"
  shows "run_inv os s'"
proof -
  have "stage s' k = stage s k" for k using same(2) by (simp add: stage_def)
  moreover from this have "place_ok s' k p = place_ok s k p" for k p using same(1) by (intro place_ok_frame) simp_all
  ultimately show ?thesis
    using inv locked places same(1) by (simp add: run_inv_def stage_ok_def)
qed

lemma run_inv_call: "run_inv os s \<Longrightarrow> run_inv os (call_task k wk s)"
proof (rule run_inv_lock)
  assume inv: "run_inv os s"
  then have l: "tasks_locked s" by (simp add: run_inv_def)
  have "lk_tasks (lock_call k (ru_lock s)) =
      lk_tasks (ru_lock s) @ [\<lparr>lt_key = k, lt_prev = jm_get (lk_tails (ru_lock s)) k, lt_phase = Waiting\<rparr>]"
    by (simp add: lock_call_def Let_def)
  then show "tasks_locked (call_task k wk s)"
    using l lock_call_inv[of "ru_lock s" k] by (auto simp: tasks_locked_def call_task_def nth_append less_Suc_eq)
  show "place_ok s (tk_order (task_at (call_task k wk s) t)) (tk_place (task_at (call_task k wk s) t))"
    if "t < length (ru_tasks (call_task k wk s))" for t
    using inv that by (cases "t = length (ru_tasks s)") (auto simp: call_task_def nth_append run_inv_def)
qed (simp_all add: call_task_def)

lemma run_inv_enter:
  assumes inv: "run_inv os s" and t: "t < length (ru_tasks s)" "tk_place (task_at s t) = Waits" "lock_ready (ru_lock s) t"
  shows "run_inv os (enter_task t s)"
proof (rule run_inv_lock[OF inv])
  have l: "tasks_locked s" using inv by (simp add: run_inv_def)
  then have "lock_inv (lock_enter t (ru_lock s))"
    using t by (intro lock_enter_inv) (auto simp: tasks_locked_def)
  then show "tasks_locked (enter_task t s)" using l t by (simp add: tasks_locked_def enter_task_def lock_enter_def)
  show "place_ok s (tk_order (task_at (enter_task t s) u)) (tk_place (task_at (enter_task t s) u))"
    if "u < length (ru_tasks (enter_task t s))" for u
    using inv t that by (simp add: enter_task_def run_inv_def)
qed (simp_all add: enter_task_def)

lemma run_inv_leave:
  assumes inv: "run_inv os s" and t: "t < length (ru_tasks s)" "tk_place (task_at s t) = Leaving"
  shows "run_inv os (leave_task t s)"
proof (rule run_inv_lock[OF inv])
  have l: "tasks_locked s" using inv by (simp add: run_inv_def)
  then have "lock_inv (lock_exit t (ru_lock s))"
    using t by (intro lock_exit_inv) (auto simp: tasks_locked_def)
  moreover have "lk_tasks (lock_exit t (ru_lock s)) = lk_tasks (set_phase t Done (ru_lock s))"
    by (simp add: lock_exit_def Let_def)
  ultimately show "tasks_locked (leave_task t s)" using l t by (simp add: tasks_locked_def leave_task_def)
  show "place_ok s (tk_order (task_at (leave_task t s) u)) (tk_place (task_at (leave_task t s) u))"
    if "u < length (ru_tasks (leave_task t s))" for u
    using inv t that by (simp add: leave_task_def run_inv_def)
qed (simp_all add: leave_task_def)

lemma run_inv_step: "run_step plans s s' \<Longrightarrow> run_inv os s \<Longrightarrow> run_inv os s'"
  by (erule run_stepE)
    (auto intro: run_inv_call run_inv_enter run_inv_decide run_inv_read run_inv_grant run_inv_complete run_inv_leave)

lemma run_inv_start: "order_store_wf os \<Longrightarrow> run_inv os (run_start os ss)"
  by (simp add: run_inv_def run_start_def tasks_locked_def lock_inv_init stage_ok_def stage_def) (simp add: lock_init_def)

lemma run_inv_reachable:
  assumes "order_store_wf os" "run_reachable plans os ss s"
  shows "run_inv os s"
  using assms(2) by (induction rule: rtranclp_induct) (auto intro: run_inv_start[OF assms(1)] run_inv_step)

section \<open>Properties\<close>

text \<open>
  C8: Concurrent settlements of an order pay and grant it once. Take any number of settlements and expiries, by
  duplicated callbacks, polls or sweeps, of any orders, under the lock, with their steps interleaved in any
  way. What they write for an order, in this order, is at most: it is paid, it is granted to one subscription, it is
  completed; or it expires, and nothing else. Completed and expired orders have that status in the store, and
  an order that was not pending at the start is never written.
\<close>

theorem settled_once_interleaved:
  assumes "order_store_wf os" "run_reachable plans os ss s"
  shows "((\<exists>i. prefix (stage s k) [Marked_paid k, Granted_in k i, Completed k]) \<or> stage s k = [Lapsed k]) \<and>
    (Completed k \<in> set (stage s k) \<longrightarrow> map_option o_status (order_findById (ru_orders s) k) = Some FULFILLED) \<and>
    (stage s k = [Lapsed k] \<longrightarrow> map_option o_status (order_findById (ru_orders s) k) = Some EXPIRED) \<and>
    (map_option o_status (order_findById os k) \<noteq> Some PENDING \<longrightarrow>
      stage s k = [] \<and> order_findById (ru_orders s) k = order_findById os k)"
  using stage_okD[OF run_inv_reachable[OF assms], of k] unfolding stage_ok_def Let_def by auto


section \<open>A grant that is lost\<close>

text \<open>The two writes of a settlement that has read an active subscription.\<close>

lemma grant_renews:
  assumes "o_status p = PAID" "getPlan plans (o_planId p) = Some plan" "now < s_expiresAt x"
  shows "grant_task plans e t p (Some x) now s = goto t (Granting (p\<lparr>o_status := FULFILLED, o_updatedAt := now\<rparr>))
    (s\<lparr>ru_subs := sub_update (renewed now p plan x) (ru_subs s), ru_effects := ru_effects s @ [Granted_in (o_id p) (s_id x)]\<rparr>)"
proof -
  have "assertTransition PAID FULFILLED = Inr FULFILLED" by (simp add: assertTransition_def canTransition_def)
  moreover have "s_id (renewed now p plan x) = s_id x" by (simp add: renewed_def)
  ultimately show ?thesis using assms by (simp add: grant_task_def granted_sub_def stored_sub_def Let_def)
qed

lemma stage_goto_snoc:
  "stage (s\<lparr>ru_effects := ru_effects s @ [ef]\<rparr>) k = stage s k @ (if effect_order ef = k then [ef] else [])"
  by (simp add: stage_def)

text \<open>
  C28: Two settlements of one user at once can lose a grant. The lock is per order, so two paid orders of the same user
  can both read the user's subscription before either has written it. Then both can go on to the end: both
  orders are FULFILLED, each after its grant, but the subscription has the second order's time only; the first
  order is not among its orders, and what was paid for it is lost.
\<close>

theorem concurrent_grant_lost:
  assumes "order_store_wf os" "run_reachable plans os ss s"
    and t: "t < length (ru_tasks s)" "tk_place (task_at s t) = Reading p (Some x) n" "getPlan plans (o_planId p) = Some pplan"
    and u: "u < length (ru_tasks s)" "tk_place (task_at s u) = Reading q (Some x) m" "getPlan plans (o_planId q) = Some qplan"
    and differ: "tk_order (task_at s t) \<noteq> tk_order (task_at s u)"
    and active: "n < s_expiresAt x" "m < s_expiresAt x" and new: "o_id p \<notin> set (s_orderIds x)"
  shows "\<exists>s' y. (run_step plans)\<^sup>*\<^sup>* s s' \<and>
    stage s' (o_id p) = [Marked_paid (o_id p), Granted_in (o_id p) (s_id x), Completed (o_id p)] \<and>
    stage s' (o_id q) = [Marked_paid (o_id q), Granted_in (o_id q) (s_id x), Completed (o_id q)] \<and>
    map_option o_status (order_findById (ru_orders s') (o_id p)) = Some FULFILLED \<and>
    map_option o_status (order_findById (ru_orders s') (o_id q)) = Some FULFILLED \<and>
    sub_find (ru_subs s') (s_id x) = Some y \<and> o_id p \<notin> set (s_orderIds y) \<and> o_id q \<in> set (s_orderIds y) \<and>
    s_expiresAt y = s_expiresAt x + plan_ms qplan"
proof -
  note inv = run_inv_reachable[OF assms(1,2)]
  have P: "order_findById (ru_orders s) (tk_order (task_at s t)) = Some p" "o_status p = PAID"
    "stage s (tk_order (task_at s t)) = [Marked_paid (tk_order (task_at s t))]"
    using place_okD[OF inv t(1,2)] by simp_all
  have Q: "order_findById (ru_orders s) (tk_order (task_at s u)) = Some q" "o_status q = PAID"
    "stage s (tk_order (task_at s u)) = [Marked_paid (tk_order (task_at s u))]"
    using place_okD[OF inv u(1,2)] by simp_all
  have ids: "o_id p = tk_order (task_at s t)" "o_id q = tk_order (task_at s u)"
    using stored_key[OF inv P(1)] stored_key[OF inv Q(1)] by simp_all
  then have pq: "o_id p \<noteq> o_id q" and tu: "t \<noteq> u" using differ by auto
  let ?p = "p\<lparr>o_status := FULFILLED, o_updatedAt := n\<rparr>" and ?q = "q\<lparr>o_status := FULFILLED, o_updatedAt := m\<rparr>"
  let ?y = "renewed m q qplan x"
  define s1 where "s1 = grant_task plans undefined t p (Some x) n s"
  have s1: "s1 = goto t (Granting ?p) (s\<lparr>ru_subs := sub_update (renewed n p pplan x) (ru_subs s),
      ru_effects := ru_effects s @ [Granted_in (o_id p) (s_id x)]\<rparr>)"
    unfolding s1_def by (rule grant_renews[OF P(2) t(3) active(1)])
  have step1: "run_step plans s s1" unfolding s1_def by (rule run_step.grant[OF t(1,2)])
  have u1: "u < length (ru_tasks s1)" "tk_place (task_at s1 u) = Reading q (Some x) m" using t u tu by (simp_all add: s1)
  define s2 where "s2 = grant_task plans undefined u q (Some x) m s1"
  have s2: "s2 = goto u (Granting ?q) (s1\<lparr>ru_subs := sub_update ?y (ru_subs s1),
      ru_effects := ru_effects s1 @ [Granted_in (o_id q) (s_id x)]\<rparr>)"
    unfolding s2_def by (rule grant_renews[OF Q(2) u(3) active(2)])
  have step2: "run_step plans s1 s2" unfolding s2_def by (rule run_step.grant[OF u1])
  have t2: "t < length (ru_tasks s2)" "tk_place (task_at s2 t) = Granting ?p" using t u tu by (simp_all add: s2 s1)
  have o2: "ru_orders s2 = ru_orders s" by (simp add: s2 s1)
  define s3 where "s3 = complete_task t ?p s2"
  have "order_findById (ru_orders s2) (o_id ?p) = Some p" using P(1) ids o2 by simp
  then obtain st3 where s3: "s3 = goto t Leaving (s2\<lparr>ru_orders := st3, ru_effects := ru_effects s2 @ [Completed (o_id p)]\<rparr>)"
    and f3: "\<And>k. order_findById st3 k = (if k = o_id p then Some ?p else order_findById (ru_orders s2) k)"
    using write_orderE[of s2 ?p p t "Completed (o_id p)" Leaving] unfolding s3_def complete_task_def by auto
  have step3: "run_step plans s2 s3" unfolding s3_def by (rule run_step.complete[OF t2])
  have u3: "u < length (ru_tasks s3)" "tk_place (task_at s3 u) = Granting ?q" using t u tu by (simp_all add: s3 s2 s1)
  define s4 where "s4 = complete_task u ?q s3"
  have "order_findById (ru_orders s3) (o_id ?q) = Some q" using Q(1) ids o2 f3 pq by (simp add: s3)
  then obtain st4 where s4: "s4 = goto u Leaving (s3\<lparr>ru_orders := st4, ru_effects := ru_effects s3 @ [Completed (o_id q)]\<rparr>)"
    and f4: "\<And>k. order_findById st4 k = (if k = o_id q then Some ?q else order_findById (ru_orders s3) k)"
    using write_orderE[of s3 ?q q u "Completed (o_id q)" Leaving] unfolding s4_def complete_task_def by auto
  have step4: "run_step plans s3 s4" unfolding s4_def by (rule run_step.complete[OF u3])
  have run: "(run_step plans)\<^sup>*\<^sup>* s s4"
    using step1 step2 step3 step4 by (meson rtranclp.rtrancl_into_rtrancl rtranclp.rtrancl_refl)
  have ef: "ru_effects s4 = ru_effects s @ [Granted_in (o_id p) (s_id x), Granted_in (o_id q) (s_id x), Completed (o_id p), Completed (o_id q)]"
    by (simp add: s4 s3 s2 s1)
  have "stage s4 (o_id p) = [Marked_paid (o_id p), Granted_in (o_id p) (s_id x), Completed (o_id p)]"
    "stage s4 (o_id q) = [Marked_paid (o_id q), Granted_in (o_id q) (s_id x), Completed (o_id q)]"
    using P(3) Q(3) ids pq unfolding stage_def ef by simp_all
  moreover have "map_option o_status (order_findById (ru_orders s4) (o_id p)) = Some FULFILLED"
    "map_option o_status (order_findById (ru_orders s4) (o_id q)) = Some FULFILLED"
    using f3 f4 pq by (simp_all add: s4 s3)
  moreover have "ru_subs s4 = sub_update ?y (sub_update (renewed n p pplan x) (ru_subs s))" by (simp add: s4 s3 s2 s1)
  then have "sub_find (ru_subs s4) (s_id x) = Some ?y"
    using sub_repo.stored_update[of ?y _ "s_id x"] by (simp add: renewed_def)
  moreover have "o_id p \<notin> set (s_orderIds ?y)" "o_id q \<in> set (s_orderIds ?y)" "s_expiresAt ?y = s_expiresAt x + plan_ms qplan"
    using new pq by (simp_all add: renewed_def plan_ms_def)
  ultimately show ?thesis using run by blast
qed

section \<open>Worked examples\<close>

text \<open>Two pending orders of one user, whose subscription is active, are paid at the same time.\<close>

definition demo_first :: order where
  "demo_first = demo_order ''1'' Wechat 1500 PENDING"

definition demo_second :: order where
  "demo_second = demo_order ''2'' Wechat 1500 PENDING"

definition demo_pay :: paid_info where
  "demo_pay = \<lparr>pi_providerTxnId = ''tx'', pi_paidAmount = Some 1500, pi_currency = CNY\<rparr>"

definition demo_marked :: "order \<Rightarrow> order" where
  "demo_marked ord = ord\<lparr>o_status := PAID, o_providerTxnId := Some ''tx'', o_paidAt := Some 60, o_updatedAt := 60\<rparr>"

definition demo_orders :: order_store where
  "demo_orders = w_orders (demo_world [demo_first, demo_second])"

definition demo_inside :: run_state where
  "demo_inside = enter_task 1 (enter_task 0 (call_task ''2'' (Settle demo_pay) (call_task ''1'' (Settle demo_pay)
     (run_start demo_orders demo_sub_store))))"

definition demo_racing :: run_state where
  "demo_racing = read_task PLANS 61 1 (demo_marked demo_second) (read_task PLANS 61 0 (demo_marked demo_first)
     (decide_task 60 1 (Some demo_second) (decide_task 60 0 (Some demo_first) demo_inside)))"

lemma demo_orders_find [simp]:
  "order_findById demo_orders ''1'' = Some demo_first" "order_findById demo_orders ''2'' = Some demo_second"
  "order_store_wf demo_orders"
proof -
  let ?one = "projr (order_create demo_first empty_order_store)"
  have one: "order_store_wf ?one"
    by (rule order_repo.create_valid_projr[OF order_store_wf_empty]) (simp_all add: demo_store_simps demo_first_def)
  have "order_store_wf (projr (order_create demo_second ?one))"
    by (rule order_repo.create_valid_projr[OF one]) (simp_all add: demo_store_simps demo_first_def demo_second_def)
  then show "order_store_wf demo_orders" by (simp add: demo_orders_def demo_world_def)
  show "order_findById demo_orders ''1'' = Some demo_first" "order_findById demo_orders ''2'' = Some demo_second"
    by (simp_all add: demo_orders_def demo_world_def demo_store_simps demo_first_def demo_second_def)
qed

lemmas demo_step_defs = enter_task_def call_task_def run_start_def goto_def

lemma demo_inside_reachable: "run_reachable PLANS demo_orders demo_sub_store demo_inside"
proof -
  let ?a = "run_start demo_orders demo_sub_store"
  let ?b = "call_task ''1'' (Settle demo_pay) ?a"
  let ?c = "call_task ''2'' (Settle demo_pay) ?b"
  let ?d = "enter_task 0 ?c"
  note defs = demo_step_defs lock_enter_def set_phase_def lock_call_def lock_init_def lock_ready_def
  have "run_step PLANS ?a ?b" "run_step PLANS ?b ?c" by (rule run_step.call)+
  moreover have "run_step PLANS ?c ?d" by (rule run_step.enter) (simp_all add: defs)
  moreover have "run_step PLANS ?d demo_inside" unfolding demo_inside_def by (rule run_step.enter) (simp_all add: defs)
  ultimately show ?thesis by (meson rtranclp.rtrancl_into_rtrancl rtranclp.rtrancl_refl)
qed

lemma demo_inside_places:
  "length (ru_tasks demo_inside) = 2" "tk_place (task_at demo_inside 0) = Looked (Some demo_first)"
  "tk_place (task_at demo_inside 1) = Looked (Some demo_second)" "tk_work (task_at demo_inside 0) = Settle demo_pay"
  "tk_work (task_at demo_inside 1) = Settle demo_pay" "tk_order (task_at demo_inside 0) = ''1''"
  "tk_order (task_at demo_inside 1) = ''2''" "ru_orders demo_inside = demo_orders" "ru_subs demo_inside = demo_sub_store"
  by (simp_all add: demo_inside_def demo_step_defs)

lemma demo_decides:
  assumes "tk_work (task_at s t) = Settle demo_pay" "order_findById (ru_orders s) (o_id ord) = Some ord"
    and "o_status ord = PENDING" "o_currency ord = CNY" "o_amount ord = 1500"
  obtains st where "decide_task 60 t (Some ord) s =
      goto t (Paying (demo_marked ord)) (s\<lparr>ru_orders := st, ru_effects := ru_effects s @ [Marked_paid (o_id ord)]\<rparr>)"
    "\<And>k. order_findById st k = (if k = o_id ord then Some (demo_marked ord) else order_findById (ru_orders s) k)"
proof -
  have p: "assertTransition PENDING PAID = Inr PAID" by (simp add: assertTransition_def canTransition_def)
  have d: "decide_task 60 t (Some ord) s = write_order t (demo_marked ord) (Marked_paid (o_id ord)) (Paying (demo_marked ord)) s"
    using assms p by (simp add: decide_task_def settle_order_def isTerminal_def demo_pay_def demo_marked_def Let_def)
  have "order_findById (ru_orders s) (o_id (demo_marked ord)) = Some ord" "o_id (demo_marked ord) = o_id ord"
    using assms(2) by (simp_all add: demo_marked_def)
  then show ?thesis using write_orderE[of s "demo_marked ord" ord t "Marked_paid (o_id ord)" "Paying (demo_marked ord)"] that d by metis
qed

lemma demo_racing_props:
  "run_reachable PLANS demo_orders demo_sub_store demo_racing" "length (ru_tasks demo_racing) = 2"
  "tk_place (task_at demo_racing 0) = Reading (demo_marked demo_first) (Some demo_sub) 61"
  "tk_place (task_at demo_racing 1) = Reading (demo_marked demo_second) (Some demo_sub) 61"
  "tk_order (task_at demo_racing 0) \<noteq> tk_order (task_at demo_racing 1)"
proof -
  note I = demo_inside_places
  let ?f = "demo_marked demo_first" and ?g = "demo_marked demo_second"
  have id: "o_id demo_first = ''1''" "o_id demo_second = ''2''"
    and one: "o_status demo_first = PENDING" "o_currency demo_first = CNY" "o_amount demo_first = 1500"
    and two: "o_status demo_second = PENDING" "o_currency demo_second = CNY" "o_amount demo_second = 1500"
    by (simp_all add: demo_first_def demo_second_def demo_order_def)
  have found: "order_findById (ru_orders demo_inside) (o_id demo_first) = Some demo_first" by (simp add: id I(8))
  define a where "a = decide_task 60 0 (Some demo_first) demo_inside"
  define b where "b = decide_task 60 1 (Some demo_second) a"
  obtain st where a: "a = goto 0 (Paying ?f) (demo_inside\<lparr>ru_orders := st, ru_effects := ru_effects demo_inside @ [Marked_paid ''1'']\<rparr>)"
    and fa: "\<And>k. order_findById st k = (if k = ''1'' then Some ?f else order_findById demo_orders k)"
    using demo_decides[OF I(4) found one] unfolding a_def id I(8) by blast
  have ta: "length (ru_tasks a) = 2" "tk_work (task_at a 1) = Settle demo_pay" "tk_place (task_at a 1) = Looked (Some demo_second)"
    "tk_order (task_at a 0) = ''1''" "tk_order (task_at a 1) = ''2''" "tk_place (task_at a 0) = Paying ?f" "ru_subs a = demo_sub_store"
    using I by (simp_all add: a)
  have found2: "order_findById (ru_orders a) (o_id demo_second) = Some demo_second" by (simp add: id a fa)
  obtain st2 where b: "b = goto 1 (Paying ?g) (a\<lparr>ru_orders := st2, ru_effects := ru_effects a @ [Marked_paid ''2'']\<rparr>)"
    using demo_decides[OF ta(2) found2 two] unfolding b_def id by blast
  have tb: "length (ru_tasks b) = 2" "tk_place (task_at b 0) = Paying ?f" "tk_place (task_at b 1) = Paying ?g"
    "tk_order (task_at b 0) = ''1''" "tk_order (task_at b 1) = ''2''" "ru_subs b = demo_sub_store"
    using ta by (simp_all add: b)
  have plan: "getPlan PLANS (o_planId ?f) = Some (hd PLANS)" "getPlan PLANS (o_planId ?g) = Some (hd PLANS)"
    "o_userId ?f = ''u1''" "o_userId ?g = ''u1''"
    by (simp_all add: demo_marked_def demo_first_def demo_second_def demo_order_def demo_plan)
  define c where "c = read_task PLANS 61 0 ?f b"
  have c: "c = goto 0 (Reading ?f (Some demo_sub) 61) b" using plan tb by (simp add: c_def read_task_def demo_sub_current)
  have tc: "length (ru_tasks c) = 2" "tk_place (task_at c 1) = Paying ?g" "ru_subs c = demo_sub_store"
    "tk_place (task_at c 0) = Reading ?f (Some demo_sub) 61" "tk_order (task_at c 0) = ''1''" "tk_order (task_at c 1) = ''2''"
    using tb by (simp_all add: c)
  have d: "demo_racing = goto 1 (Reading ?g (Some demo_sub) 61) c"
    unfolding demo_racing_def a_def[symmetric] b_def[symmetric] c_def[symmetric] using plan tc(3) by (simp add: read_task_def demo_sub_current)
  have "run_step PLANS demo_inside a" unfolding a_def by (rule run_step.decide) (simp_all add: I)
  moreover have "run_step PLANS a b" unfolding b_def by (rule run_step.decide) (use ta in simp_all)
  moreover have "run_step PLANS b c" unfolding c_def by (rule run_step.read) (use tb in simp_all)
  moreover have "run_step PLANS c demo_racing"
    unfolding demo_racing_def a_def[symmetric] b_def[symmetric] c_def[symmetric] by (rule run_step.read) (use tc in simp_all)
  ultimately show "run_reachable PLANS demo_orders demo_sub_store demo_racing"
    using demo_inside_reachable by (meson rtranclp.rtrancl_into_rtrancl)
  show "length (ru_tasks demo_racing) = 2" "tk_place (task_at demo_racing 0) = Reading ?f (Some demo_sub) 61"
    "tk_place (task_at demo_racing 1) = Reading ?g (Some demo_sub) 61" "tk_order (task_at demo_racing 0) \<noteq> tk_order (task_at demo_racing 1)"
    using tc by (simp_all add: d)
qed

theorem settled_once_interleaved_witness:
  "(\<exists>i. prefix (stage demo_racing ''1'') [Marked_paid ''1'', Granted_in ''1'' i, Completed ''1'']) \<or> stage demo_racing ''1'' = [Lapsed ''1'']"
  using settled_once_interleaved[OF demo_orders_find(3) demo_racing_props(1), of "''1''"] by blast

theorem concurrent_grant_lost_witness:
  "\<exists>s' y. (run_step PLANS)\<^sup>*\<^sup>* demo_racing s' \<and> Completed ''1'' \<in> set (stage s' ''1'') \<and> Completed ''2'' \<in> set (stage s' ''2'') \<and>
     sub_find (ru_subs s') ''s1'' = Some y \<and> ''1'' \<notin> set (s_orderIds y) \<and> s_expiresAt y = 1000 + plan_ms (hd PLANS)"
proof -
  have plan: "getPlan PLANS (o_planId (demo_marked demo_first)) = Some (hd PLANS)"
    "getPlan PLANS (o_planId (demo_marked demo_second)) = Some (hd PLANS)"
    "o_id (demo_marked demo_first) = ''1''" "o_id (demo_marked demo_second) = ''2''"
    by (simp_all add: demo_marked_def demo_first_def demo_second_def demo_order_def demo_plan)
  have len: "0 < length (ru_tasks demo_racing)" "1 < length (ru_tasks demo_racing)" by (simp_all add: demo_racing_props(2))
  have sub: "61 < s_expiresAt demo_sub" "o_id (demo_marked demo_first) \<notin> set (s_orderIds demo_sub)" "s_id demo_sub = ''s1''"
    "s_expiresAt demo_sub = 1000"
    by (simp_all add: plan demo_sub_def)
  from concurrent_grant_lost[OF demo_orders_find(3) demo_racing_props(1) len(1) demo_racing_props(3) plan(1)
      len(2) demo_racing_props(4) plan(2) demo_racing_props(5) sub(1,1,2)]
  show ?thesis unfolding plan(3,4) sub(3,4) by (elim exE conjE) (intro exI conjI, assumption+, simp_all)
qed

end
