(* ===== verification/AccountStores.thy ===== *)
theory AccountStores
  imports Domain Repository
begin

text \<open>
  \<open>MemoryUserRepository\<close> and \<open>MemoryMerchantRepository\<close> of \<^verbatim>\<open>src/storage/memoryStore.ts\<close>: users by id,
  lower-cased email and API key, and merchants with a current and a previous key.
\<close>

section \<open>Users\<close>

record user_store =
  us_byId :: "(string, user) jsmap"
  us_byEmail :: "(string, string) jsmap"
  us_byApiKey :: "(string, string) jsmap"

definition empty_user_store :: user_store where
  "empty_user_store = \<lparr>us_byId = [], us_byEmail = [], us_byApiKey = []\<rparr>"

definition user_create :: "user \<Rightarrow> user_store \<Rightarrow> user_store result" where
  "user_create u st =
     (let email = to_lower (u_email u)
      in if jm_has (us_byEmail st) email then Inl (PlainError (''email already registered: '' @ email))
         else let stored = u\<lparr>u_email := email\<rparr>
              in Inr (st\<lparr>us_byId := jm_set (u_id u) stored (us_byId st),
                         us_byEmail := jm_set email (u_id u) (us_byEmail st),
                         us_byApiKey := jm_set (u_apiKey u) (u_id u) (us_byApiKey st)\<rparr>))"

definition user_findById :: "user_store \<Rightarrow> string \<Rightarrow> user option" where
  "user_findById st i = jm_get (us_byId st) i"

definition user_findByEmail :: "user_store \<Rightarrow> string \<Rightarrow> user option" where
  "user_findByEmail st email = index_get (us_byId st) (us_byEmail st) (to_lower email)"

definition user_findByApiKey :: "user_store \<Rightarrow> string \<Rightarrow> user option" where
  "user_findByApiKey st k = index_get (us_byId st) (us_byApiKey st) k"

definition user_update :: "user \<Rightarrow> user_store \<Rightarrow> user_store result" where
  "user_update u st =
     (case jm_get (us_byId st) (u_id u) of
        None \<Rightarrow> Inl (PlainError (''unknown user: '' @ u_id u))
      | Some prev \<Rightarrow>
          let keys = (if u_apiKey prev \<noteq> u_apiKey u then jm_delete (u_apiKey prev) (us_byApiKey st)
                      else us_byApiKey st)
          in Inr (st\<lparr>us_byId := jm_set (u_id u) u (us_byId st),
                     us_byApiKey := jm_set (u_apiKey u) (u_id u) keys\<rparr>))"

definition user_norm :: "user \<Rightarrow> user" where
  "user_norm u = u\<lparr>u_email := to_lower (u_email u)\<rparr>"

definition user_store_wf :: "user_store \<Rightarrow> bool" where
  "user_store_wf st \<longleftrightarrow> keyed u_id (us_byId st) \<and> index_ok u_email (us_byId st) (us_byEmail st)"

text \<open>The key index is exact as long as no two users are given the same key.\<close>

definition user_keys_ok :: "user_store \<Rightarrow> bool" where
  "user_keys_ok st = index_ok u_apiKey (us_byId st) (us_byApiKey st)"

lemma user_store_wf_empty [simp]: "user_store_wf empty_user_store"
  by (simp add: user_store_wf_def empty_user_store_def)

lemma user_create_ok:
  "user_create u st = Inr st' \<Longrightarrow>
     us_byId st' = jm_set (u_id (user_norm u)) (user_norm u) (us_byId st) \<and>
     us_byEmail st' = jm_set (u_email (user_norm u)) (u_id (user_norm u)) (us_byEmail st) \<and>
     us_byApiKey st' = jm_set (u_apiKey (user_norm u)) (u_id (user_norm u)) (us_byApiKey st) \<and>
     jm_get (us_byEmail st) (u_email (user_norm u)) = None"
  by (auto simp: user_create_def user_norm_def Let_def jm_has_def split: if_splits)

lemma user_update_ok:
  "user_update u st = Inr st' \<Longrightarrow> \<exists>prev. jm_get (us_byId st) (u_id u) = Some prev \<and>
     us_byId st' = jm_set (u_id u) u (us_byId st) \<and> us_byEmail st' = us_byEmail st \<and>
     us_byApiKey st' = jm_set (u_apiKey u) (u_id u)
       (if u_apiKey prev \<noteq> u_apiKey u then jm_delete (u_apiKey prev) (us_byApiKey st) else us_byApiKey st)"
  by (cases "jm_get (us_byId st) (u_id u)") (auto simp: user_update_def Let_def)

interpretation user_repo: repository user_store_wf user_findById user_create user_update u_id u_email user_norm
proof (unfold_locales, goal_cases)
  case (1 a s s' k) then show ?case by (auto dest!: user_create_ok simp: user_findById_def user_norm_def)
next
  case (2 a s s' k) then show ?case by (auto dest!: user_update_ok simp: user_findById_def)
next
  case (3 s a s')
  have "keyed u_id (us_byId s')"
    using user_create_ok[OF 3(4)] 3 keyed_set[of u_id "us_byId s" "user_norm a"] by (simp add: user_store_wf_def user_norm_def)
  moreover have "index_ok u_email (us_byId s') (us_byEmail s')"
    using user_create_ok[OF 3(4)] 3 index_ok_insert[of u_email "us_byId s" "us_byEmail s" u_id "user_norm a"]
    by (simp add: user_store_wf_def user_findById_def user_norm_def)
  ultimately show ?case by (simp add: user_store_wf_def)
next
  case (4 s a b s')
  then have "u_id a \<noteq> []" by (auto simp: user_store_wf_def user_findById_def dest: keyedD)
  with 4 user_update_ok[OF 4(4)] show ?case
    by (auto simp: user_store_wf_def keyed_set index_ok_update user_findById_def)
next
  case (5 s a b) then show ?case by (simp add: user_update_def user_findById_def Let_def)
next
  case (6 s k a) then show ?case by (auto simp: user_findById_def user_store_wf_def dest: keyedD)
next
  case (7 a) show ?case by (simp add: user_norm_def)
qed

lemma user_findByEmail_iff:
  "user_store_wf st \<Longrightarrow> (user_findByEmail st e = Some u) = (user_findById st (u_id u) = Some u \<and> u_email u = to_lower e)"
  by (simp add: user_findByEmail_def user_findById_def user_store_wf_def index_get_iff)

lemma user_findByApiKey_iff:
  "user_store_wf st \<Longrightarrow> user_keys_ok st \<Longrightarrow>
     (user_findByApiKey st k = Some u) = (user_findById st (u_id u) = Some u \<and> u_apiKey u = k)"
  by (simp add: user_findByApiKey_def user_findById_def user_store_wf_def user_keys_ok_def index_get_iff)

lemma user_keys_create:
  assumes "user_store_wf st" "user_keys_ok st" "user_create u st = Inr st'"
    and "user_findById st (u_id u) = None" "user_findByApiKey st (u_apiKey u) = None"
  shows "user_keys_ok st'"
proof -
  have "jm_get (us_byApiKey st) (u_apiKey u) = None"
    using assms(1,2,5) index_get_None[of u_id "us_byId st" u_apiKey "us_byApiKey st"]
    by (simp add: user_findByApiKey_def user_store_wf_def user_keys_ok_def)
  then show ?thesis
    using user_create_ok[OF assms(3)] assms(2,4) index_ok_insert[of u_apiKey "us_byId st" "us_byApiKey st" u_id "user_norm u"]
    by (simp add: user_keys_ok_def user_findById_def user_norm_def)
qed

lemma index_ok_rename:
  assumes ix: "index_ok name m ix" and m: "jm_get m (key a) = Some b"
    and free: "\<And>c. jm_get m (key c) = Some c \<Longrightarrow> name c = name a \<Longrightarrow> c = b" and k: "keyed key m"
  shows "index_ok name (jm_set (key a) a m)
    (jm_set (name a) (key a) (if name b \<noteq> name a then jm_delete (name b) ix else ix))"
  unfolding index_ok_def
proof (intro allI)
  fix n i
  have old: "jm_get ix n = Some i \<longleftrightarrow> (\<exists>c. jm_get m i = Some c \<and> name c = n)" for n i
    using ix by (simp add: index_ok_def)
  have fr: "i = key a" if "jm_get m i = Some c" "name c = name a" for c i
    using free[of c] that keyedD[OF k that(1)] keyedD[OF k m] by auto
  have b: "jm_get ix (name b) = Some (key a)" using old m by blast
  have "jm_get m i = Some c \<Longrightarrow> name c = name b \<Longrightarrow> i = key a" for c using old[of "name b" i] b by auto
  then show "(jm_get (jm_set (name a) (key a) (if name b \<noteq> name a then jm_delete (name b) ix else ix)) n = Some i) =
      (\<exists>c. jm_get (jm_set (key a) a m) i = Some c \<and> name c = n)"
  proof (cases "i = key a")
    case True
    then show ?thesis using b old[of n i] m by (cases "name b = name a") auto
  next
    case False
    have "jm_get ix n = Some i \<Longrightarrow> n \<noteq> name b \<and> n \<noteq> name a" using old[of n i] b fr False by auto
    with False show ?thesis using old[of n i] by auto
  qed
qed

lemma user_keys_update:
  assumes wf: "user_store_wf st" "user_keys_ok st" and up: "user_update u st = Inr st'"
    and free: "\<And>v. user_findByApiKey st (u_apiKey u) = Some v \<Longrightarrow> u_id v = u_id u"
  shows "user_keys_ok st'"
proof -
  from user_update_ok[OF up] obtain prev where prev: "jm_get (us_byId st) (u_id u) = Some prev"
    and st': "us_byId st' = jm_set (u_id u) u (us_byId st)"
      "us_byApiKey st' = jm_set (u_apiKey u) (u_id u)
         (if u_apiKey prev \<noteq> u_apiKey u then jm_delete (u_apiKey prev) (us_byApiKey st) else us_byApiKey st)"
    by blast
  have "c = prev" if "jm_get (us_byId st) (u_id c) = Some c" "u_apiKey c = u_apiKey u" for c
  proof -
    have "user_findByApiKey st (u_apiKey u) = Some c"
      using that wf by (simp add: user_findByApiKey_iff user_findById_def)
    from free[OF this] show ?thesis using that(1) prev by simp
  qed
  then show ?thesis unfolding user_keys_ok_def st'
    using wf prev by (intro index_ok_rename) (auto simp: user_keys_ok_def user_store_wf_def)
qed

text \<open>
  replacing a user's API key. After the update the new key finds the user, the old key finds
  nobody any more, every other key finds whom it found, and the lookup indexes stay exact.
\<close>

theorem user_key_rotation:
  assumes "user_store_wf st" "user_keys_ok st" "user_findById st (u_id u) = Some prev"
    and "u_email prev = u_email u" "u_apiKey prev \<noteq> u_apiKey u" "user_findByApiKey st (u_apiKey u) = None"
  shows "\<exists>st'. user_update u st = Inr st' \<and> user_store_wf st' \<and> user_keys_ok st' \<and>
    user_findByApiKey st' (u_apiKey u) = Some u \<and> user_findByApiKey st' (u_apiKey prev) = None \<and>
    (\<forall>k. k \<noteq> u_apiKey u \<and> k \<noteq> u_apiKey prev \<longrightarrow> user_findByApiKey st' k = user_findByApiKey st k)"
proof -
  obtain st' where up: "user_update u st = Inr st'" using user_repo.update_total[OF assms(3)] by blast
  have wf': "user_store_wf st'" using user_repo.update_valid[OF assms(1,3,4) up] .
  have ok': "user_keys_ok st'" using user_keys_update[OF assms(1,2) up] assms(6) by simp
  have find: "user_findById st' i = (if i = u_id u then Some u else user_findById st i)" for i
    using user_repo.update_find[OF up] by simp
  have iff: "(user_findByApiKey st' k = Some v) = (user_findById st' (u_id v) = Some v \<and> u_apiKey v = k)" for k v
    by (rule user_findByApiKey_iff[OF wf' ok'])
  have old: "(user_findByApiKey st k = Some v) = (user_findById st (u_id v) = Some v \<and> u_apiKey v = k)" for k v
    by (rule user_findByApiKey_iff[OF assms(1,2)])
  have "user_findByApiKey st' (u_apiKey prev) \<noteq> Some v" for v
  proof
    assume "user_findByApiKey st' (u_apiKey prev) = Some v"
    then have v: "user_findById st (u_id v) = Some v" "u_apiKey v = u_apiKey prev" "u_id v \<noteq> u_id u"
      unfolding iff find using assms(5) by (metis option.inject)+
    moreover have "u_id prev = u_id u" using user_repo.find_key[OF assms(1,3)] .
    ultimately have "user_findByApiKey st (u_apiKey prev) = Some v" "user_findByApiKey st (u_apiKey prev) = Some prev"
      using old assms(3) by auto
    with v(3) assms(3) \<open>u_id prev = u_id u\<close> show False by simp
  qed
  then have none: "user_findByApiKey st' (u_apiKey prev) = None" by (cases "user_findByApiKey st' (u_apiKey prev)") auto
  have "user_findByApiKey st' k = user_findByApiKey st k" if "k \<noteq> u_apiKey u" "k \<noteq> u_apiKey prev" for k
  proof -
    have "(user_findByApiKey st' k = Some v) = (user_findByApiKey st k = Some v)" for v
      unfolding iff old find using that assms(3) by auto
    then show ?thesis by (metis option.exhaust)
  qed
  then show ?thesis using up wf' ok' none iff[of "u_apiKey u" u] find by auto
qed

definition demo_user :: user where
  "demo_user = \<lparr>u_id = ''u1'', u_email = ''A@x.io'', u_locale = ''en'', u_name = None, u_passwordHash = ''h'',
     u_apiKey = ''k1'', u_createdAt = 0, u_updatedAt = 0\<rparr>"

definition demo_user_store :: user_store where
  "demo_user_store = projr (user_create demo_user empty_user_store)"

lemmas demo_user_simps = demo_user_def user_create_def user_findById_def user_findByApiKey_def index_get_def
  jm_has_def empty_user_store_def user_norm_def to_lower_def

lemma demo_user_store_wf: "user_store_wf demo_user_store \<and> user_keys_ok demo_user_store"
proof
  have ok: "user_create demo_user empty_user_store = Inr demo_user_store"
    by (simp add: demo_user_store_def user_create_def empty_user_store_def Let_def)
  show "user_store_wf demo_user_store"
    by (rule user_repo.create_valid[OF user_store_wf_empty _ _ ok]) (simp_all add: demo_user_simps)
  show "user_keys_ok demo_user_store"
    by (rule user_keys_create[OF user_store_wf_empty _ ok]) (simp_all add: demo_user_simps user_keys_ok_def)
qed

theorem user_key_rotation_witness:
  "let u = (user_norm demo_user)\<lparr>u_apiKey := ''k2''\<rparr> in
     \<exists>st'. user_update u demo_user_store = Inr st' \<and> user_findByApiKey st' ''k2'' = Some u \<and>
       user_findByApiKey st' ''k1'' = None"
proof -
  let ?u = "(user_norm demo_user)\<lparr>u_apiKey := ''k2''\<rparr>"
  have pre: "user_findById demo_user_store (u_id ?u) = Some (user_norm demo_user)"
    "user_findByApiKey demo_user_store (u_apiKey ?u) = None"
    "u_email (user_norm demo_user) = u_email ?u" "u_apiKey (user_norm demo_user) = ''k1''" "u_apiKey ?u = ''k2''"
    by (simp_all add: demo_user_store_def demo_user_simps Let_def)
  have "u_apiKey (user_norm demo_user) \<noteq> u_apiKey ?u" using pre(4,5) by simp
  from user_key_rotation[OF demo_user_store_wf[THEN conjunct1] demo_user_store_wf[THEN conjunct2] pre(1,3) this pre(2)]
  show ?thesis unfolding Let_def pre(4,5) by blast
qed

section \<open>Merchants\<close>

record merchant_store =
  ms_byId :: "(string, merchant) jsmap"

definition empty_merchant_store :: merchant_store where
  "empty_merchant_store = \<lparr>ms_byId = []\<rparr>"

definition merchant_create :: "merchant \<Rightarrow> merchant_store \<Rightarrow> merchant_store result" where
  "merchant_create m st =
     (if jm_has (ms_byId st) (m_id m) then Inl (PlainError (''duplicate merchant: '' @ m_id m))
      else Inr (st\<lparr>ms_byId := jm_set (m_id m) m (ms_byId st)\<rparr>))"

definition merchant_findById :: "merchant_store \<Rightarrow> string \<Rightarrow> merchant option" where
  "merchant_findById st i = jm_get (ms_byId st) i"

definition merchant_findByApiKey :: "merchant_store \<Rightarrow> string \<Rightarrow> merchant option" where
  "merchant_findByApiKey st k =
     List.find (\<lambda>m. m_apiKey m = k \<or> m_apiKeyPrevious m = Some k) (jm_values (ms_byId st))"

definition merchant_update :: "merchant \<Rightarrow> merchant_store \<Rightarrow> merchant_store result" where
  "merchant_update m st =
     (if \<not> jm_has (ms_byId st) (m_id m) then Inl (PlainError (''unknown merchant: '' @ m_id m))
      else Inr (st\<lparr>ms_byId := jm_set (m_id m) m (ms_byId st)\<rparr>))"

definition merchant_list :: "merchant_store \<Rightarrow> merchant list" where
  "merchant_list st = jm_values (ms_byId st)"

definition merchant_store_wf :: "merchant_store \<Rightarrow> bool" where
  "merchant_store_wf st = keyed m_id (ms_byId st)"

lemma merchant_store_wf_empty [simp]: "merchant_store_wf empty_merchant_store"
  by (simp add: merchant_store_wf_def empty_merchant_store_def)

lemmas merchant_store_defs = merchant_create_def merchant_update_def merchant_findById_def merchant_store_wf_def
  merchant_list_def jm_has_def

interpretation merchant_repo: listed_repository merchant_store_wf merchant_findById merchant_create merchant_update
  m_id "\<lambda>m. ()" "\<lambda>x. x" merchant_list
proof (unfold_locales, goal_cases)
  case (4 s a b s')
  then have "m_id a \<noteq> []" by (auto simp: merchant_store_defs dest: keyedD)
  with 4 show ?case by (auto simp: merchant_store_defs keyed_set split: if_splits)
qed (auto simp: merchant_store_defs keyed_set keyed_values keyed_distinct
       simp del: set_map map_map split: if_splits dest: keyedD)

end
