(* ===== verification/Bytes.thy ===== *)
theory Bytes
  imports Json "HOL-Library.Word"
begin

text \<open>
  Node's \<open>Buffer\<close> as the code uses it: a list of 8-bit words, its hexadecimal and UTF-8 texts, with the
  round trip of the hexadecimal text that password hashes rely on.
\<close>

type_synonym byte = "8 word"

text \<open>\<open>buf.toString('hex')\<close>: two lower-case digits for each byte.\<close>

definition hex_byte :: "byte \<Rightarrow> string" where
  "hex_byte b = [hex_digit (unat b div 16), hex_digit (unat b mod 16)]"

definition to_hex :: "byte list \<Rightarrow> string" where
  "to_hex bs = concat (map hex_byte bs)"

text \<open>
  \<open>Buffer.from(s, 'hex')\<close>: digits of either case, two by two, up to the first pair that is not two
  digits; a single digit at the end is dropped.
\<close>

definition hex_value :: "char \<Rightarrow> nat option" where
  "hex_value c = (let n = of_char c :: nat in
     if 48 \<le> n \<and> n \<le> 57 then Some (n - 48)
     else if 97 \<le> n \<and> n \<le> 102 then Some (n - 87)
     else if 65 \<le> n \<and> n \<le> 70 then Some (n - 55)
     else None)"

fun of_hex :: "string \<Rightarrow> byte list" where
  "of_hex (a # b # rest) =
     (case (hex_value a, hex_value b) of
        (Some h, Some l) \<Rightarrow> word_of_nat (16 * h + l) # of_hex rest
      | _ \<Rightarrow> [])"
| "of_hex s = []"

text \<open>\<open>Buffer.from(s, 'utf8')\<close> on code units below 256: one byte, or two from 128 on.\<close>

definition utf8_char :: "char \<Rightarrow> byte list" where
  "utf8_char c = (let n = of_char c :: nat in
     if n < 128 then [word_of_nat n] else [word_of_nat (192 + n div 64), word_of_nat (128 + n mod 64)])"

definition utf8 :: "string \<Rightarrow> byte list" where
  "utf8 s = concat (map utf8_char s)"

section \<open>The hexadecimal round trip\<close>

lemma hex_value_digit [simp]: "d < 16 \<Longrightarrow> hex_value (hex_digit d) = Some d"
  by (auto simp: hex_value_def hex_digit_def Let_def)

lemma unat_byte_less: "unat (b :: byte) < 256"
  using unsigned_less[of b] by simp

lemma of_hex_byte [simp]: "of_hex (hex_byte b @ s) = b # of_hex s"
proof -
  have "unat b div 16 < 16" using unat_byte_less[of b] by linarith
  then show ?thesis by (simp add: hex_byte_def)
qed

lemma of_hex_to_hex [simp]: "of_hex (to_hex bs) = bs"
  by (induction bs) (simp_all add: to_hex_def)

lemma length_to_hex [simp]: "length (to_hex bs) = 2 * length bs"
  by (induction bs) (simp_all add: to_hex_def hex_byte_def)

lemma to_hex_empty [simp]: "to_hex bs = [] \<longleftrightarrow> bs = []"
  by (metis length_0_conv length_to_hex mult_eq_0_iff zero_neq_numeral)

lemma to_hex_inj: "to_hex a = to_hex b \<Longrightarrow> a = b"
  by (metis of_hex_to_hex)

lemma to_hex_digits: "c \<in> set (to_hex bs) \<Longrightarrow> hex_value c \<noteq> None"
proof -
  assume "c \<in> set (to_hex bs)"
  then obtain b where "c \<in> set (hex_byte b)" by (auto simp: to_hex_def)
  moreover have "unat b div 16 < 16" using unat_byte_less[of b] by linarith
  ultimately show ?thesis by (auto simp: hex_byte_def)
qed

lemma to_hex_no_colon: "CHR '':'' \<notin> set (to_hex bs)"
proof
  assume "CHR '':'' \<in> set (to_hex bs)"
  from to_hex_digits[OF this] show False by (simp add: hex_value_def)
qed

end
