(* ===== verification/Accounts.thy ===== *)
theory Accounts
  imports AccountStores AuditLog Bytes
begin

text \<open>
  \<^verbatim>\<open>src/services/userService.ts\<close>, \<^verbatim>\<open>src/services/merchantService.ts\<close> and the password functions of
  \<^verbatim>\<open>src/utils/crypto.ts\<close>. \<open>scrypt\<close> is a parameter: a function of the password, the salt and the length
  of the result it is asked for.
\<close>

section \<open>Passwords\<close>

type_synonym scrypt = "string \<Rightarrow> byte list \<Rightarrow> nat \<Rightarrow> byte list"

definition hashPassword :: "scrypt \<Rightarrow> byte list \<Rightarrow> string \<Rightarrow> string" where
  "hashPassword sc salt password = (let hash = sc password salt 64 in to_hex salt @ '':'' @ to_hex hash)"

definition verifyPassword :: "scrypt \<Rightarrow> string \<Rightarrow> string \<Rightarrow> bool" where
  "verifyPassword sc password stored =
     (case split_on CHR '':'' stored of
        saltHex # hashHex # _ \<Rightarrow>
          if saltHex = [] \<or> hashHex = [] then False
          else let expected = of_hex hashHex; actual = sc password (of_hex saltHex) (length expected)
               in length expected = length actual \<and> expected = actual
      | _ \<Rightarrow> False)"

section \<open>Users\<close>

text \<open>\<open>/^[^\s@]+@[^\s@]+\.[^\s@]+$/\<close>: one \<open>@\<close>, no white space, and a dot inside the domain.\<close>

definition email_ok :: "string \<Rightarrow> bool" where
  "email_ok s =
     (case split_on CHR ''@'' s of
        [a, b] \<Rightarrow> a \<noteq> [] \<and> \<not> list_ex is_space a \<and> \<not> list_ex is_space b \<and> CHR ''.'' \<in> set (butlast (tl b))
      | _ \<Rightarrow> False)"

definition SUPPORTED_LOCALES :: "string list" where
  "SUPPORTED_LOCALES = [''zh-CN'', ''en'']"

text \<open>The state both services work on; the audit log is optional.\<close>

record accounts =
  ac_users :: user_store
  ac_merchants :: merchant_store
  ac_audit :: "audit_log option"

record register_input =
  ri_email :: string
  ri_password :: string
  ri_locale :: "string option"
  ri_name :: "string option"

definition account_audit :: "env \<Rightarrow> string \<Rightarrow> string option \<Rightarrow> string \<Rightarrow> json option \<Rightarrow> accounts \<Rightarrow> accounts" where
  "account_audit e action actor subject metadata w =
     w\<lparr>ac_audit := audit_opt e \<lparr>ai_action = action, ai_actor = actor, ai_subjectId = Some subject,
        ai_metadata = metadata, ai_at = None\<rparr> (ac_audit w)\<rparr>"

definition newUserApiKey :: "env \<Rightarrow> string" where
  "newUserApiKey e = ''vpk_'' @ random_at e 0"

lemma newUserApiKey_nonempty [simp]: "newUserApiKey e \<noteq> []"
  by (simp add: newUserApiKey_def)

definition new_user :: "env \<Rightarrow> scrypt \<Rightarrow> byte list \<Rightarrow> register_input \<Rightarrow> user" where
  "new_user e sc salt inp = \<lparr>
     u_id = uuid_at e 0,
     u_email = to_lower (trim (ri_email inp)),
     u_locale = (case ri_locale inp of None \<Rightarrow> ''en''
       | Some l \<Rightarrow> if l \<noteq> [] \<and> l \<in> set SUPPORTED_LOCALES then l else ''en''),
     u_name = (case ri_name inp of None \<Rightarrow> None | Some n \<Rightarrow> if trim n = [] then None else Some (trim n)),
     u_passwordHash = hashPassword sc salt (ri_password inp),
     u_apiKey = newUserApiKey e,
     u_createdAt = now_at e 0,
     u_updatedAt = now_at e 0\<rparr>"

text \<open>\<open>salt\<close> is what \<open>randomBytes(16)\<close> returns to this call.\<close>

definition register :: "env \<Rightarrow> scrypt \<Rightarrow> byte list \<Rightarrow> register_input \<Rightarrow> accounts \<Rightarrow> (public_user \<times> string) result \<times> accounts" where
  "register e sc salt inp w =
     (let email = to_lower (trim (ri_email inp)) in
      if \<not> email_ok email then (Inl (ValidationError ''invalid email address''), w)
      else if length (ri_password inp) < 8 then (Inl (ValidationError ''password must be at least 8 characters''), w)
      else if user_findByEmail (ac_users w) email \<noteq> None then (Inl (ValidationError ''email already registered''), w)
      else
        let u = new_user e sc salt inp in
        bindR (writeR (user_create u (ac_users w)) (\<lambda>st. w\<lparr>ac_users := st\<rparr>) w) (\<lambda>_ w1.
          let created = user_norm u
          in (Inr (toPublicUser created, u_apiKey u),
              account_audit (env_from 1 e) ''user.registered'' (Some (u_id created)) (u_id created)
                (Some (JObj [(''email'', JStr email)])) w1)))"

definition login :: "env \<Rightarrow> scrypt \<Rightarrow> string \<Rightarrow> string \<Rightarrow> accounts \<Rightarrow> (public_user \<times> string) result \<times> accounts" where
  "login e sc email password w =
     (case user_findByEmail (ac_users w) (to_lower (trim email)) of
        None \<Rightarrow> (Inl (AuthFailedError ''invalid credentials''), w)
      | Some u \<Rightarrow>
          if \<not> verifyPassword sc password (u_passwordHash u) then (Inl (AuthFailedError ''invalid credentials''), w)
          else (Inr (toPublicUser u, u_apiKey u), account_audit e ''user.login'' (Some (u_id u)) (u_id u) None w))"

definition user_authenticate :: "string \<Rightarrow> accounts \<Rightarrow> user result" where
  "user_authenticate apiKey w =
     (case (if apiKey \<noteq> [] then user_findByApiKey (ac_users w) apiKey else None) of
        None \<Rightarrow> Inl (AuthFailedError ''invalid API key'')
      | Some u \<Rightarrow> Inr u)"

definition rotateApiKey :: "env \<Rightarrow> string \<Rightarrow> accounts \<Rightarrow> string result \<times> accounts" where
  "rotateApiKey e userId w =
     (case user_findById (ac_users w) userId of
        None \<Rightarrow> (Inl (ValidationError (''unknown user: '' @ userId)), w)
      | Some u \<Rightarrow>
          let apiKey = newUserApiKey e
          in bindR (writeR (user_update (u\<lparr>u_apiKey := apiKey, u_updatedAt := now_at e 0\<rparr>) (ac_users w))
                     (\<lambda>st. w\<lparr>ac_users := st\<rparr>) w) (\<lambda>_ w1. (Inr apiKey, w1)))"

record user_contact =
  uc_email :: string
  uc_locale :: string
  uc_name :: "string option"

definition contactLookup :: "string \<Rightarrow> accounts \<Rightarrow> user_contact option" where
  "contactLookup userId w =
     (case user_findById (ac_users w) userId of
        None \<Rightarrow> None
      | Some u \<Rightarrow> Some \<lparr>uc_email = u_email u, uc_locale = u_locale u, uc_name = u_name u\<rparr>)"

section \<open>Merchants\<close>

definition newMerchantApiKey :: "env \<Rightarrow> string" where
  "newMerchantApiKey e = ''mk_'' @ random_at e 0"

fun merchant_status_name :: "merchant_status \<Rightarrow> string" where
  "merchant_status_name Active = ''active''"
| "merchant_status_name Suspended = ''suspended''"

record create_merchant_input =
  cm_name :: string
  cm_id :: "string option"
  cm_usdtHdPath :: "string option"

definition put_merchant :: "(merchant \<Rightarrow> merchant_store \<Rightarrow> merchant_store result) \<Rightarrow> merchant \<Rightarrow> accounts \<Rightarrow> unit result \<times> accounts" where
  "put_merchant op m w = writeR (op m (ac_merchants w)) (\<lambda>st. w\<lparr>ac_merchants := st\<rparr>) w"

definition ensureDefault :: "env \<Rightarrow> accounts \<Rightarrow> merchant result \<times> accounts" where
  "ensureDefault e w =
     (case merchant_findById (ac_merchants w) DEFAULT_MERCHANT_ID of
        Some existing \<Rightarrow> (Inr existing, w)
      | None \<Rightarrow>
          let m = \<lparr>m_id = DEFAULT_MERCHANT_ID, m_name = ''Default'', m_status = Active, m_apiKey = newMerchantApiKey e,
                m_apiKeyPrevious = None, m_usdtHdPath = None, m_createdAt = now_at e 0, m_updatedAt = now_at e 0\<rparr>
          in bindR (put_merchant merchant_create m w) (\<lambda>_ w1. (Inr m, w1)))"

definition create_merchant :: "env \<Rightarrow> create_merchant_input \<Rightarrow> accounts \<Rightarrow> merchant result \<times> accounts" where
  "create_merchant e inp w =
     (let m = \<lparr>m_id = (case cm_id inp of None \<Rightarrow> uuid_at e 0 | Some i \<Rightarrow> i), m_name = cm_name inp, m_status = Active,
            m_apiKey = newMerchantApiKey e, m_apiKeyPrevious = None, m_usdtHdPath = cm_usdtHdPath inp,
            m_createdAt = now_at e 0, m_updatedAt = now_at e 0\<rparr>
      in bindR (put_merchant merchant_create m w) (\<lambda>_ w1.
           (Inr m, account_audit (env_from 1 e) ''merchant.created'' None (m_id m)
              (Some (JObj [(''name'', JStr (m_name m))])) w1)))"

definition find_merchant :: "string \<Rightarrow> accounts \<Rightarrow> merchant option" where
  "find_merchant i w = merchant_findById (ac_merchants w) i"

definition list_merchants :: "accounts \<Rightarrow> merchant list" where
  "list_merchants w = merchant_list (ac_merchants w)"

definition merchant_authenticate :: "string \<Rightarrow> accounts \<Rightarrow> merchant option" where
  "merchant_authenticate apiKey w =
     (if apiKey = [] then None
      else case merchant_findByApiKey (ac_merchants w) apiKey of
        None \<Rightarrow> None
      | Some m \<Rightarrow> if m_status m \<noteq> Active then None else Some m)"

definition rotateKey :: "env \<Rightarrow> string \<Rightarrow> accounts \<Rightarrow> merchant result \<times> accounts" where
  "rotateKey e i w =
     (case merchant_findById (ac_merchants w) i of
        None \<Rightarrow> (Inl (NotFoundError (''merchant not found: '' @ i)), w)
      | Some m \<Rightarrow>
          let updated = m\<lparr>m_apiKeyPrevious := Some (m_apiKey m), m_apiKey := newMerchantApiKey e, m_updatedAt := now_at e 0\<rparr>
          in bindR (put_merchant merchant_update updated w) (\<lambda>_ w1.
               (Inr updated, account_audit (env_from 1 e) ''merchant.key_rotated'' None i None w1)))"

definition setStatus :: "env \<Rightarrow> string \<Rightarrow> merchant_status \<Rightarrow> accounts \<Rightarrow> merchant result \<times> accounts" where
  "setStatus e i status w =
     (case merchant_findById (ac_merchants w) i of
        None \<Rightarrow> (Inl (NotFoundError (''merchant not found: '' @ i)), w)
      | Some m \<Rightarrow>
          let updated = m\<lparr>m_status := status, m_updatedAt := now_at e 0\<rparr>
          in bindR (put_merchant merchant_update updated w) (\<lambda>_ w1.
               (Inr updated, account_audit (env_from 1 e) ''merchant.status_changed'' None i
                  (Some (JObj [(''status'', JStr (merchant_status_name status))])) w1)))"

section \<open>What a registration gives\<close>

lemma verifyPassword_hash:
  assumes "\<forall>p s n. length (sc p s n) = n" "salt \<noteq> []"
  shows "verifyPassword sc p' (hashPassword sc salt p) = (sc p' salt 64 = sc p salt 64)"
proof -
  have "split_on CHR '':'' (hashPassword sc salt p) = [to_hex salt, to_hex (sc p salt 64)]"
    by (simp add: hashPassword_def split_on_append_sep split_on_no_sep to_hex_no_colon)
  moreover have "sc p salt 64 \<noteq> []" using assms(1) by (metis list.size(3) zero_neq_numeral)
  ultimately show ?thesis using assms by (auto simp: verifyPassword_def)
qed

lemma inner_char: "c \<in> set (butlast (tl b)) \<longleftrightarrow> (\<exists>x y. b = x @ c # y \<and> x \<noteq> [] \<and> y \<noteq> [])"
proof
  assume "c \<in> set (butlast (tl b))"
  then obtain x y where xy: "butlast (tl b) = x @ c # y" by (meson split_list)
  then have "tl b \<noteq> []" by auto
  then have "tl b = (x @ c # y) @ [last (tl b)]" "b = hd b # tl b" using xy by (metis append_butlast_last_id, cases b, auto)
  then have "b = (hd b # x) @ c # (y @ [last (tl b)])" by (metis append_Cons append_assoc)
  then show "\<exists>x y. b = x @ c # y \<and> x \<noteq> [] \<and> y \<noteq> []" by blast
next
  assume "\<exists>x y. b = x @ c # y \<and> x \<noteq> [] \<and> y \<noteq> []"
  then obtain x y where "b = x @ c # y" "x \<noteq> []" "y \<noteq> []" by blast
  then show "c \<in> set (butlast (tl b))" by (simp add: butlast_append)
qed

lemma split_on_pair: "split_on sep s = [a, b] \<longleftrightarrow> s = a @ sep # b \<and> sep \<notin> set a \<and> sep \<notin> set b"
proof
  have parts: "\<forall>p \<in> set (split_on sep s). sep \<notin> set p" for s
    by (induction s) (auto split: list.splits)
  assume l: "split_on sep s = [a, b]"
  then have "s = a @ sep # b" using split_on_concat[of sep s] by simp
  then show "s = a @ sep # b \<and> sep \<notin> set a \<and> sep \<notin> set b" using parts[of s] l by simp
next
  assume "s = a @ sep # b \<and> sep \<notin> set a \<and> sep \<notin> set b"
  then show "split_on sep s = [a, b]" by (simp add: split_on_append_sep split_on_no_sep)
qed

text \<open>The regular expression, as the shape of the text it accepts.\<close>

lemma email_ok_iff:
  "email_ok s \<longleftrightarrow> (\<exists>a x y. s = a @ CHR ''@'' # x @ CHR ''.'' # y \<and> a \<noteq> [] \<and> x \<noteq> [] \<and> y \<noteq> [] \<and>
     (\<forall>c \<in> set (a @ x @ y). \<not> is_space c \<and> c \<noteq> CHR ''@''))"
proof -
  have "email_ok s \<longleftrightarrow> (\<exists>a b. split_on CHR ''@'' s = [a, b] \<and> a \<noteq> [] \<and> \<not> list_ex is_space a \<and> \<not> list_ex is_space b \<and>
      CHR ''.'' \<in> set (butlast (tl b)))"
    by (auto simp: email_ok_def split: list.splits)
  also have "\<dots> \<longleftrightarrow> (\<exists>a x y. s = a @ CHR ''@'' # x @ CHR ''.'' # y \<and> a \<noteq> [] \<and> x \<noteq> [] \<and> y \<noteq> [] \<and>
     (\<forall>c \<in> set (a @ x @ y). \<not> is_space c \<and> c \<noteq> CHR ''@''))"
  proof -
    have "\<not> is_space CHR ''.''" by (simp add: is_space_def)
    then show ?thesis unfolding split_on_pair inner_char list_ex_iff by fastforce
  qed
  finally show ?thesis .
qed

text \<open>The stores' own invariants, and the keys: no two merchants share a key, current or previous.\<close>

definition holds_key :: "merchant \<Rightarrow> string \<Rightarrow> bool" where
  "holds_key m k = (m_apiKey m = k \<or> m_apiKeyPrevious m = Some k)"

definition merchant_keys_ok :: "merchant_store \<Rightarrow> bool" where
  "merchant_keys_ok st \<longleftrightarrow>
     (\<forall>i m. merchant_findById st i = Some m \<longrightarrow> m_apiKey m \<noteq> []) \<and>
     (\<forall>i j a b k. merchant_findById st i = Some a \<and> merchant_findById st j = Some b \<and> holds_key a k \<and> holds_key b k \<longrightarrow> i = j)"

definition accounts_ok :: "accounts \<Rightarrow> bool" where
  "accounts_ok w \<longleftrightarrow> user_store_wf (ac_users w) \<and> user_keys_ok (ac_users w) \<and>
     merchant_store_wf (ac_merchants w) \<and> merchant_keys_ok (ac_merchants w)"

definition no_accounts :: accounts where
  "no_accounts = \<lparr>ac_users = empty_user_store, ac_merchants = empty_merchant_store, ac_audit = Some (new_audit_log 10000)\<rparr>"

lemma accounts_ok_empty [simp]: "accounts_ok no_accounts"
  by (simp add: accounts_ok_def no_accounts_def user_keys_ok_def merchant_keys_ok_def empty_user_store_def
      empty_merchant_store_def merchant_findById_def user_store_wf_def merchant_store_wf_def)

lemma account_audit_frame [simp]:
  "ac_users (account_audit e a b c d w) = ac_users w" "ac_merchants (account_audit e a b c d w) = ac_merchants w"
  by (simp_all add: account_audit_def)

lemma new_user_simps [simp]:
  "u_id (new_user e sc salt inp) = uuid_at e 0" "u_email (new_user e sc salt inp) = to_lower (trim (ri_email inp))"
  "u_apiKey (new_user e sc salt inp) = newUserApiKey e"
  "u_passwordHash (new_user e sc salt inp) = hashPassword sc salt (ri_password inp)"
  "user_norm (new_user e sc salt inp) = new_user e sc salt inp"
  by (simp_all add: new_user_def user_norm_def)

text \<open>The ids and tokens drawn by a call are new, as random 128- and 192-bit values are.\<close>

definition fresh_user :: "env \<Rightarrow> accounts \<Rightarrow> bool" where
  "fresh_user e w \<longleftrightarrow> uuid_at e 0 \<noteq> [] \<and> user_findById (ac_users w) (uuid_at e 0) = None \<and>
     user_findByApiKey (ac_users w) (newUserApiKey e) = None"

definition acceptable :: "register_input \<Rightarrow> bool" where
  "acceptable inp \<longleftrightarrow> email_ok (to_lower (trim (ri_email inp))) \<and> 8 \<le> length (ri_password inp)"

lemma register_writes:
  assumes "accounts_ok w" "fresh_user e w" "acceptable inp"
    and "user_findByEmail (ac_users w) (to_lower (trim (ri_email inp))) = None"
  shows "\<exists>w'. register e sc salt inp w = (Inr (toPublicUser (new_user e sc salt inp), newUserApiKey e), w') \<and>
    accounts_ok w' \<and> ac_merchants w' = ac_merchants w \<and>
    (\<forall>i. user_findById (ac_users w') i = (if i = uuid_at e 0 then Some (new_user e sc salt inp) else user_findById (ac_users w) i))"
proof -
  let ?u = "new_user e sc salt inp"
  have wf: "user_store_wf (ac_users w)" "user_keys_ok (ac_users w)" using assms(1) by (simp_all add: accounts_ok_def)
  have "jm_get (us_byEmail (ac_users w)) (u_email ?u) = None"
    using assms(4) wf(1) index_get_None[of u_id "us_byId (ac_users w)" u_email "us_byEmail (ac_users w)"]
    by (simp add: user_findByEmail_def user_store_wf_def)
  then obtain st where st: "user_create ?u (ac_users w) = Inr st" by (auto simp: user_create_def Let_def jm_has_def)
  have "user_store_wf st" using user_repo.create_valid[OF wf(1) _ _ st] assms(2) by (simp add: fresh_user_def)
  moreover have "user_keys_ok st" using user_keys_create[OF wf st] assms(2) by (simp add: fresh_user_def)
  moreover have "user_findById st i = (if i = uuid_at e 0 then Some ?u else user_findById (ac_users w) i)" for i
    using user_repo.create_find[OF st, of i] by simp
  ultimately show ?thesis using assms(1,3,4) st
    by (simp add: register_def Let_def acceptable_def accounts_ok_def)
qed

lemma login_known:
  assumes "user_findByEmail (ac_users w) (to_lower (trim mail)) = Some u"
  shows "login e sc mail p w =
    (if verifyPassword sc p (u_passwordHash u) then (Inr (toPublicUser u, u_apiKey u), account_audit e ''user.login'' (Some (u_id u)) (u_id u) None w)
     else (Inl (AuthFailedError ''invalid credentials''), w))"
  by (simp add: login_def assms)

text \<open>
  C36: Registration and login agree. An acceptable registration with an unused email succeeds and
  keeps the stores consistent; from then on its API key authenticates the user, a login with any spelling of
  the email that trims and lower-cases to the same text succeeds with the same key exactly when
  \<open>scrypt\<close> gives the same hash for the password, a failed login changes nothing, and registering the
  email again is refused.
\<close>

theorem register_then_login:
  assumes "accounts_ok w" "fresh_user e w" "acceptable inp" "user_findByEmail (ac_users w) (to_lower (trim (ri_email inp))) = None"
    and "\<forall>p s n. length (sc p s n) = n" "salt \<noteq> []"
  shows "\<exists>pub key w'. register e sc salt inp w = (Inr (pub, key), w') \<and> accounts_ok w' \<and>
    pub = toPublicUser (new_user e sc salt inp) \<and> user_authenticate key w' = Inr (new_user e sc salt inp) \<and>
    (\<forall>e2 mail p. to_lower (trim mail) = to_lower (trim (ri_email inp)) \<longrightarrow>
      (if sc p salt 64 = sc (ri_password inp) salt 64 then fst (login e2 sc mail p w') = Inr (pub, key)
       else login e2 sc mail p w' = (Inl (AuthFailedError ''invalid credentials''), w'))) \<and>
    (\<forall>e2 salt2 inp2. acceptable inp2 \<and> to_lower (trim (ri_email inp2)) = to_lower (trim (ri_email inp)) \<longrightarrow>
      register e2 sc salt2 inp2 w' = (Inl (ValidationError ''email already registered''), w'))"
proof -
  let ?u = "new_user e sc salt inp"
  obtain w' where w': "register e sc salt inp w = (Inr (toPublicUser ?u, newUserApiKey e), w')" "accounts_ok w'"
    and find: "user_findById (ac_users w') (uuid_at e 0) = Some ?u"
    using register_writes[OF assms(1-4), of sc salt] by force
  have wf: "user_store_wf (ac_users w')" "user_keys_ok (ac_users w')" using w'(2) by (simp_all add: accounts_ok_def)
  have mail: "user_findByEmail (ac_users w') (to_lower (trim m)) = Some ?u"
    if "to_lower (trim m) = to_lower (trim (ri_email inp))" for m
    using find that by (simp add: user_findByEmail_iff[OF wf(1)])
  have "user_authenticate (newUserApiKey e) w' = Inr ?u"
  proof -
    have "user_findByApiKey (ac_users w') (newUserApiKey e) = Some ?u"
      using find by (simp add: user_findByApiKey_iff[OF wf])
    then show ?thesis by (simp add: user_authenticate_def)
  qed
  moreover have "if sc p salt 64 = sc (ri_password inp) salt 64
      then fst (login e2 sc m p w') = Inr (toPublicUser ?u, newUserApiKey e)
      else login e2 sc m p w' = (Inl (AuthFailedError ''invalid credentials''), w')"
    if "to_lower (trim m) = to_lower (trim (ri_email inp))" for e2 m p
    using login_known[OF mail[OF that], of e2 sc p] verifyPassword_hash[OF assms(5,6), of p "ri_password inp"] by simp
  moreover have "register e2 sc salt2 inp2 w' = (Inl (ValidationError ''email already registered''), w')"
    if "acceptable inp2" "to_lower (trim (ri_email inp2)) = to_lower (trim (ri_email inp))" for e2 salt2 inp2
    using that mail[OF that(2)] by (simp add: register_def acceptable_def)
  ultimately show ?thesis using w' by blast
qed

section \<open>Keys and suspension\<close>

lemma merchant_findByApiKey_iff:
  assumes "merchant_store_wf st" "merchant_keys_ok st"
  shows "merchant_findByApiKey st k = Some m \<longleftrightarrow> merchant_findById st (m_id m) = Some m \<and> holds_key m k"
proof
  assume "merchant_findByApiKey st k = Some m"
  then have "m \<in> set (merchant_list st)" "holds_key m k"
    by (auto simp: merchant_findByApiKey_def merchant_list_def find_Some_iff holds_key_def)
  then show "merchant_findById st (m_id m) = Some m \<and> holds_key m k"
    using merchant_repo.listing_iff[OF assms(1)] by blast
next
  assume m: "merchant_findById st (m_id m) = Some m \<and> holds_key m k"
  then have "m \<in> set (merchant_list st)" using merchant_repo.listing_iff[OF assms(1)] by blast
  then have "merchant_findByApiKey st k \<noteq> None"
    using m by (auto simp: merchant_findByApiKey_def merchant_list_def find_None_iff holds_key_def)
  then obtain n where n: "merchant_findByApiKey st k = Some n" by blast
  then have "n \<in> set (merchant_list st)" "holds_key n k"
    by (auto simp: merchant_findByApiKey_def merchant_list_def find_Some_iff holds_key_def)
  then have "merchant_findById st (m_id n) = Some n" using merchant_repo.listing_iff[OF assms(1)] by blast
  moreover have "m_id n = m_id m"
    using assms(2) calculation m \<open>holds_key n k\<close> unfolding merchant_keys_ok_def by blast
  ultimately show "merchant_findByApiKey st k = Some m" using n m by simp
qed

lemma merchant_authenticate_iff:
  assumes "accounts_ok w"
  shows "merchant_authenticate k w = Some m \<longleftrightarrow>
    k \<noteq> [] \<and> find_merchant (m_id m) w = Some m \<and> holds_key m k \<and> m_status m = Active"
proof -
  have "merchant_authenticate k w = Some m \<longleftrightarrow>
      k \<noteq> [] \<and> merchant_findByApiKey (ac_merchants w) k = Some m \<and> m_status m = Active"
    by (auto simp: merchant_authenticate_def split: option.split)
  also have "\<dots> \<longleftrightarrow> k \<noteq> [] \<and> find_merchant (m_id m) w = Some m \<and> holds_key m k \<and> m_status m = Active"
    using assms merchant_findByApiKey_iff[of "ac_merchants w" k m] by (auto simp: accounts_ok_def find_merchant_def)
  finally show ?thesis .
qed

lemma merchant_key_owner:
  "accounts_ok w \<Longrightarrow> find_merchant i w = Some a \<Longrightarrow> find_merchant j w = Some b \<Longrightarrow> holds_key a k \<Longrightarrow> holds_key b k \<Longrightarrow> i = j"
  unfolding accounts_ok_def merchant_keys_ok_def find_merchant_def by blast

text \<open>Replacing a merchant by one with the same id and the keys \<open>ks\<close> that nobody else holds.\<close>

lemma merchant_write:
  assumes ok: "accounts_ok w" and m: "find_merchant (m_id a) w = Some m"
    and key: "m_apiKey a \<noteq> []"
    and free: "\<And>k j b. holds_key a k \<Longrightarrow> find_merchant j w = Some b \<Longrightarrow> holds_key b k \<Longrightarrow> j = m_id a"
  shows "\<exists>w'. put_merchant merchant_update a w = (Inr (), w') \<and> accounts_ok w' \<and>
    (\<forall>i. find_merchant i w' = (if i = m_id a then Some a else find_merchant i w))"
proof -
  obtain st where st: "merchant_update a (ac_merchants w) = Inr st"
    using merchant_repo.update_total[of "ac_merchants w" a m] m by (auto simp: find_merchant_def)
  have find: "merchant_findById st i = (if i = m_id a then Some a else merchant_findById (ac_merchants w) i)" for i
    using merchant_repo.update_find[OF st] .
  have "merchant_store_wf st"
    using merchant_repo.update_valid[of "ac_merchants w" a m st] ok m st by (simp add: accounts_ok_def find_merchant_def)
  moreover have "merchant_keys_ok st"
    unfolding merchant_keys_ok_def find
    using ok key free unfolding accounts_ok_def merchant_keys_ok_def find_merchant_def
    by (auto split: if_splits)
  ultimately show ?thesis using st find ok
    by (simp add: put_merchant_def accounts_ok_def find_merchant_def)
qed

text \<open>Who authenticates when \<open>m\<close> has been replaced by \<open>a\<close>.\<close>

lemma authenticate_replaced:
  assumes "accounts_ok w" "accounts_ok w'" "find_merchant (m_id a) w = Some m"
    and find: "\<forall>i. find_merchant i w' = (if i = m_id a then Some a else find_merchant i w)"
  shows "holds_key a k \<Longrightarrow> merchant_authenticate k w' = (if k \<noteq> [] \<and> m_status a = Active then Some a else None)"
    and "\<not> holds_key a k \<Longrightarrow> holds_key m k \<Longrightarrow> merchant_authenticate k w' = None"
    and "\<not> holds_key a k \<Longrightarrow> \<not> holds_key m k \<Longrightarrow> merchant_authenticate k w' = merchant_authenticate k w"
proof -
  note auth = merchant_authenticate_iff[OF assms(1)] merchant_authenticate_iff[OF assms(2)]
  have m: "m_id m = m_id a" using assms(1,3) merchant_repo.find_key by (auto simp: find_merchant_def accounts_ok_def)
  show "merchant_authenticate k w' = (if k \<noteq> [] \<and> m_status a = Active then Some a else None)" if h: "holds_key a k"
  proof (cases "merchant_authenticate k w'")
    case None
    then have "\<not> (k \<noteq> [] \<and> find_merchant (m_id a) w' = Some a \<and> holds_key a k \<and> m_status a = Active)"
      using auth(2)[of k a] by simp
    moreover have "find_merchant (m_id a) w' = Some a" using find by simp
    ultimately show ?thesis using None h by simp
  next
    case (Some b)
    then have b: "k \<noteq> []" "find_merchant (m_id b) w' = Some b" "holds_key b k" "m_status b = Active" using auth(2) by simp_all
    have "find_merchant (m_id a) w' = Some a" using find by simp
    from merchant_key_owner[OF assms(2) b(2) this b(3) h] have "m_id b = m_id a" .
    then have "find_merchant (m_id a) w' = Some b" using b(2) by (simp only:)
    then have "b = a" using \<open>find_merchant (m_id a) w' = Some a\<close> by simp
    then show ?thesis using Some b(1,4) by simp
  qed
  show "merchant_authenticate k w' = None" if h: "\<not> holds_key a k" "holds_key m k"
  proof (rule ccontr)
    assume "merchant_authenticate k w' \<noteq> None"
    then obtain b where "merchant_authenticate k w' = Some b" by blast
    then have b: "find_merchant (m_id b) w' = Some b" "holds_key b k" using auth(2) by simp_all
    have "find_merchant (m_id a) w' = Some a" using find by simp
    then have ne: "m_id b \<noteq> m_id a" using b h(1) by auto
    then have "find_merchant (m_id b) w = Some b" using b(1) find by simp
    from merchant_key_owner[OF assms(1) this assms(3) b(2) h(2)] show False using ne by simp
  qed
  show "merchant_authenticate k w' = merchant_authenticate k w" if h: "\<not> holds_key a k" "\<not> holds_key m k"
  proof -
    have "(merchant_authenticate k w' = Some b) = (merchant_authenticate k w = Some b)" for b
      unfolding auth using find h assms(3) by auto
    then show ?thesis by (metis option.exhaust)
  qed
qed

definition fresh_merchant_key :: "env \<Rightarrow> accounts \<Rightarrow> bool" where
  "fresh_merchant_key e w \<longleftrightarrow> (\<forall>i m. find_merchant i w = Some m \<longrightarrow> \<not> holds_key m (newMerchantApiKey e))"

lemma rotateKey_writes:
  assumes "accounts_ok w" "find_merchant i w = Some m" "fresh_merchant_key e w"
  shows "\<exists>m' w'. rotateKey e i w = (Inr m', w') \<and> accounts_ok w' \<and> find_merchant i w' = Some m' \<and>
    merchant_authenticate (newMerchantApiKey e) w' = (if m_status m = Active then Some m' else None) \<and>
    merchant_authenticate (m_apiKey m) w' = (if m_status m = Active then Some m' else None) \<and>
    (\<forall>k. m_apiKeyPrevious m = Some k \<and> k \<noteq> m_apiKey m \<longrightarrow> merchant_authenticate k w' = None) \<and>
    (\<forall>k. \<not> holds_key m k \<and> k \<noteq> newMerchantApiKey e \<longrightarrow> merchant_authenticate k w' = merchant_authenticate k w)"
proof -
  define a where "a = m\<lparr>m_apiKeyPrevious := Some (m_apiKey m), m_apiKey := newMerchantApiKey e, m_updatedAt := now_at e 0\<rparr>"
  have i: "m_id m = i" using assms(1,2) merchant_repo.find_key by (auto simp: find_merchant_def accounts_ok_def)
  have a: "m_id a = i" "holds_key a k \<longleftrightarrow> k = newMerchantApiKey e \<or> k = m_apiKey m" "m_status a = m_status m" for k
    using i by (auto simp: a_def holds_key_def)
  have ne: "newMerchantApiKey e \<noteq> []" "m_apiKey m \<noteq> []"
    using assms(1,2) by (auto simp: newMerchantApiKey_def accounts_ok_def merchant_keys_ok_def find_merchant_def)
  have "j = m_id a" if h: "holds_key a k" "find_merchant j w = Some b" "holds_key b k" for k j b
  proof -
    have "k \<noteq> newMerchantApiKey e" using h(2,3) assms(3) unfolding fresh_merchant_key_def by blast
    then have "holds_key m k" using h(1) a(2) by (simp add: holds_key_def)
    then show ?thesis using merchant_key_owner[OF assms(1) h(2) assms(2) h(3)] a(1) by simp
  qed
  then obtain w1 where w1: "put_merchant merchant_update a w = (Inr (), w1)" "accounts_ok w1"
    and find: "\<forall>j. find_merchant j w1 = (if j = m_id a then Some a else find_merchant j w)"
    using merchant_write[OF assms(1), of a m] assms(2) a(1) ne by (auto simp: a_def)
  define w' where "w' = account_audit (env_from 1 e) ''merchant.key_rotated'' None i None w1"
  have run: "rotateKey e i w = (Inr a, w')"
    using assms(2) w1(1) by (simp add: rotateKey_def find_merchant_def a_def w'_def)
  have ok: "accounts_ok w'" using w1(2) by (simp add: w'_def accounts_ok_def)
  have find': "\<forall>j. find_merchant j w' = (if j = m_id a then Some a else find_merchant j w)"
    using find by (simp add: w'_def find_merchant_def)
  have "find_merchant (m_id a) w = Some m" using assms(2) a(1) by simp
  note auth = authenticate_replaced[OF assms(1) ok this find']
  have "merchant_authenticate k w' = None" if "m_apiKeyPrevious m = Some k" "k \<noteq> m_apiKey m" for k
  proof (rule auth(2))
    show "holds_key m k" using that by (simp add: holds_key_def)
    then show "\<not> holds_key a k" using that(2) assms(2,3) a(2) by (auto simp: fresh_merchant_key_def)
  qed
  moreover have "merchant_authenticate k w' = merchant_authenticate k w"
    if "\<not> holds_key m k" "k \<noteq> newMerchantApiKey e" for k
  proof (rule auth(3))
    show "\<not> holds_key m k" by (rule that(1))
    then show "\<not> holds_key a k" using that(2) a(2)[of k] by (auto simp: holds_key_def)
  qed
  ultimately show ?thesis using run ok find' auth(1) a ne by auto
qed

text \<open>
  Rotation keeps a grace window. After an active merchant's key is rotated, the new key and the
  one just replaced both authenticate it, a key it had before those does not any more, and every other key
  authenticates whom it did.
\<close>

theorem merchant_rotation_grace:
  assumes "accounts_ok w" "find_merchant i w = Some m" "m_status m = Active" "fresh_merchant_key e w"
  shows "\<exists>m' w'. rotateKey e i w = (Inr m', w') \<and> accounts_ok w' \<and> find_merchant i w' = Some m' \<and>
    merchant_authenticate (newMerchantApiKey e) w' = Some m' \<and> merchant_authenticate (m_apiKey m) w' = Some m' \<and>
    (\<forall>k. m_apiKeyPrevious m = Some k \<and> k \<noteq> m_apiKey m \<longrightarrow> merchant_authenticate k w' = None) \<and>
    (\<forall>k. \<not> holds_key m k \<and> k \<noteq> newMerchantApiKey e \<longrightarrow> merchant_authenticate k w' = merchant_authenticate k w)"
  using rotateKey_writes[OF assms(1,2,4)] assms(3) by simp

lemma merchant_write_status:
  assumes "accounts_ok w" "find_merchant i w = Some m"
  shows "\<exists>m' w'. setStatus e i st w = (Inr m', w') \<and> accounts_ok w' \<and> find_merchant i w' = Some m' \<and> m_status m' = st \<and>
    (\<forall>k. merchant_authenticate k w' =
      (if holds_key m k then if k \<noteq> [] \<and> st = Active then Some m' else None else merchant_authenticate k w))"
proof -
  define a where "a = m\<lparr>m_status := st, m_updatedAt := now_at e 0\<rparr>"
  have i: "m_id m = i" using assms merchant_repo.find_key by (auto simp: find_merchant_def accounts_ok_def)
  have a: "m_id a = i" "holds_key a k = holds_key m k" "m_status a = st" "m_apiKey a = m_apiKey m" for k
    using i by (auto simp: a_def holds_key_def)
  have ne: "m_apiKey m \<noteq> []" using assms by (auto simp: accounts_ok_def merchant_keys_ok_def find_merchant_def)
  have "j = m_id a" if "holds_key a k" "find_merchant j w = Some b" "holds_key b k" for k j b
    using merchant_key_owner[OF assms(1) that(2) assms(2) that(3)] that(1) a by simp
  then obtain w1 where w1: "put_merchant merchant_update a w = (Inr (), w1)" "accounts_ok w1"
    and find: "\<forall>j. find_merchant j w1 = (if j = m_id a then Some a else find_merchant j w)"
    using merchant_write[OF assms(1), of a m] assms(2) a ne by auto
  define w' where "w' = account_audit (env_from 1 e) ''merchant.status_changed'' None i
    (Some (JObj [(''status'', JStr (merchant_status_name st))])) w1"
  have run: "setStatus e i st w = (Inr a, w')"
    using assms(2) w1(1) by (simp add: setStatus_def find_merchant_def a_def w'_def)
  have ok: "accounts_ok w'" using w1(2) by (simp add: w'_def accounts_ok_def)
  have find': "\<forall>j. find_merchant j w' = (if j = m_id a then Some a else find_merchant j w)"
    using find by (simp add: w'_def find_merchant_def)
  have "find_merchant (m_id a) w = Some m" using assms(2) a(1) by simp
  note auth = authenticate_replaced[OF assms(1) ok this find']
  show ?thesis using run ok find' auth(1,3) a by auto
qed

text \<open>
  Suspension shuts a merchant out, and only that one. After a change of status every key the
  merchant holds authenticates it when the new status is active and nobody otherwise; all other keys keep
  their meaning, and setting the status back to active restores the keys.
\<close>

theorem merchant_suspension:
  assumes "accounts_ok w" "find_merchant i w = Some m"
  shows "\<exists>m' w'. setStatus e i st w = (Inr m', w') \<and> accounts_ok w' \<and> find_merchant i w' = Some m' \<and> m_status m' = st \<and>
    (\<forall>k. merchant_authenticate k w' =
      (if holds_key m k then if k \<noteq> [] \<and> st = Active then Some m' else None else merchant_authenticate k w))"
  by (rule merchant_write_status[OF assms])

section \<open>Every reachable state\<close>

text \<open>The calls of both services, on tokens and ids that are new when they are drawn.\<close>

inductive account_step :: "scrypt \<Rightarrow> accounts \<Rightarrow> accounts \<Rightarrow> bool" for sc where
  registers: "fresh_user e w \<Longrightarrow> account_step sc w (snd (register e sc salt inp w))"
| logs_in: "account_step sc w (snd (login e sc mail p w))"
| rotates_user: "user_findByApiKey (ac_users w) (newUserApiKey e) = None \<Longrightarrow> account_step sc w (snd (rotateApiKey e i w))"
| ensures: "fresh_merchant_key e w \<Longrightarrow> account_step sc w (snd (ensureDefault e w))"
| creates: "fresh_merchant_key e w \<Longrightarrow> cm_id inp \<noteq> Some [] \<Longrightarrow> uuid_at e 0 \<noteq> [] \<Longrightarrow> account_step sc w (snd (create_merchant e inp w))"
| rotates: "fresh_merchant_key e w \<Longrightarrow> account_step sc w (snd (rotateKey e i w))"
| sets: "account_step sc w (snd (setStatus e i st w))"

definition accounts_reachable :: "scrypt \<Rightarrow> accounts \<Rightarrow> bool" where
  "accounts_reachable sc w = (account_step sc)\<^sup>*\<^sup>* no_accounts w"

definition emails_ok :: "accounts \<Rightarrow> bool" where
  "emails_ok w \<longleftrightarrow> (\<forall>i u. user_findById (ac_users w) i = Some u \<longrightarrow> email_ok (u_email u) \<and> to_lower (u_email u) = u_email u)"

lemma audit_keeps [simp]:
  "accounts_ok (account_audit e a b c d w) = accounts_ok w" "emails_ok (account_audit e a b c d w) = emails_ok w"
  by (simp_all add: accounts_ok_def emails_ok_def)

lemma register_keeps:
  assumes "accounts_ok w" "emails_ok w" "fresh_user e w"
  shows "accounts_ok (snd (register e sc salt inp w)) \<and> emails_ok (snd (register e sc salt inp w))"
proof (cases "acceptable inp \<and> user_findByEmail (ac_users w) (to_lower (trim (ri_email inp))) = None")
  case True
  then obtain w' where w': "register e sc salt inp w = (Inr (toPublicUser (new_user e sc salt inp), newUserApiKey e), w')"
    "accounts_ok w'" "\<forall>i. user_findById (ac_users w') i = (if i = uuid_at e 0 then Some (new_user e sc salt inp) else user_findById (ac_users w) i)"
    using register_writes[OF assms(1,3), of inp sc salt] by blast
  then have "emails_ok w'" using assms(2) True by (simp add: emails_ok_def acceptable_def)
  then show ?thesis using w'(1,2) by simp
next
  case False
  then show ?thesis using assms by (auto simp: register_def acceptable_def Let_def)
qed

lemma login_keeps: "accounts_ok w \<Longrightarrow> emails_ok w \<Longrightarrow> accounts_ok (snd (login e sc mail p w)) \<and> emails_ok (snd (login e sc mail p w))"
  by (simp add: login_def split: option.split)

lemma rotateApiKey_writes:
  assumes "accounts_ok w" "user_findById (ac_users w) i = Some u" "user_findByApiKey (ac_users w) (newUserApiKey e) = None"
  shows "\<exists>w'. rotateApiKey e i w = (Inr (newUserApiKey e), w') \<and> accounts_ok w' \<and> ac_merchants w' = ac_merchants w \<and>
    user_findByApiKey (ac_users w') (newUserApiKey e) = Some (u\<lparr>u_apiKey := newUserApiKey e, u_updatedAt := now_at e 0\<rparr>) \<and>
    user_findByApiKey (ac_users w') (u_apiKey u) = None \<and>
    (\<forall>k. k \<noteq> newUserApiKey e \<and> k \<noteq> u_apiKey u \<longrightarrow> user_findByApiKey (ac_users w') k = user_findByApiKey (ac_users w) k) \<and>
    (\<forall>j. user_findById (ac_users w') j =
      (if j = i then Some (u\<lparr>u_apiKey := newUserApiKey e, u_updatedAt := now_at e 0\<rparr>) else user_findById (ac_users w) j))"
proof -
  define a where "a = u\<lparr>u_apiKey := newUserApiKey e, u_updatedAt := now_at e 0\<rparr>"
  have wf: "user_store_wf (ac_users w)" "user_keys_ok (ac_users w)" using assms(1) by (simp_all add: accounts_ok_def)
  have i: "u_id u = i" using user_repo.find_key[OF wf(1) assms(2)] .
  have a: "u_id a = i" "u_apiKey a = newUserApiKey e" "u_email u = u_email a" using i by (simp_all add: a_def)
  have "user_findByApiKey (ac_users w) (u_apiKey u) = Some u" using assms(2) i by (simp add: user_findByApiKey_iff[OF wf])
  then have ne: "u_apiKey u \<noteq> u_apiKey a" using assms(3) a(2) by auto
  have "user_findById (ac_users w) (u_id a) = Some u" using assms(2) a(1) by simp
  from user_key_rotation[OF wf this a(3) ne] assms(3) a(2) obtain st where st: "user_update a (ac_users w) = Inr st"
    "user_store_wf st" "user_keys_ok st" "user_findByApiKey st (u_apiKey a) = Some a" "user_findByApiKey st (u_apiKey u) = None"
    "\<forall>k. k \<noteq> u_apiKey a \<and> k \<noteq> u_apiKey u \<longrightarrow> user_findByApiKey st k = user_findByApiKey (ac_users w) k"
    by auto
  have "user_findById st j = (if j = i then Some a else user_findById (ac_users w) j)" for j
    using user_repo.update_find[OF st(1), of j] a(1) by simp
  moreover have "rotateApiKey e i w = (Inr (newUserApiKey e), w\<lparr>ac_users := st\<rparr>)"
    using assms(2) st(1) by (simp add: rotateApiKey_def Let_def flip: a_def)
  ultimately show ?thesis using st assms(1) a(2)
    by (intro exI[of _ "w\<lparr>ac_users := st\<rparr>"]) (simp add: accounts_ok_def flip: a_def)
qed

lemma rotateApiKey_keeps:
  assumes "accounts_ok w" "emails_ok w" "user_findByApiKey (ac_users w) (newUserApiKey e) = None"
  shows "accounts_ok (snd (rotateApiKey e i w)) \<and> emails_ok (snd (rotateApiKey e i w))"
proof (cases "user_findById (ac_users w) i")
  case None
  then show ?thesis using assms by (simp add: rotateApiKey_def)
next
  case (Some u)
  from rotateApiKey_writes[OF assms(1) Some assms(3)] obtain w' where
    "rotateApiKey e i w = (Inr (newUserApiKey e), w')" "accounts_ok w'"
    "\<forall>j. user_findById (ac_users w') j =
      (if j = i then Some (u\<lparr>u_apiKey := newUserApiKey e, u_updatedAt := now_at e 0\<rparr>) else user_findById (ac_users w) j)"
    by blast
  then show ?thesis using assms(2) Some by (auto simp: emails_ok_def)
qed

text \<open>A new merchant, under an unused id and an unused key.\<close>

lemma merchant_insert:
  assumes ok: "accounts_ok w" and id: "m_id a \<noteq> []" and key: "m_apiKey a \<noteq> []" "m_apiKeyPrevious a = None"
    and free: "\<forall>i m. find_merchant i w = Some m \<longrightarrow> \<not> holds_key m (m_apiKey a)"
  shows "(\<exists>err. put_merchant merchant_create a w = (Inl err, w)) \<or>
    (\<exists>st. put_merchant merchant_create a w = (Inr (), w\<lparr>ac_merchants := st\<rparr>) \<and> accounts_ok (w\<lparr>ac_merchants := st\<rparr>))"
proof (cases "merchant_create a (ac_merchants w)")
  case (Inl err)
  then show ?thesis by (simp add: put_merchant_def)
next
  case (Inr st)
  have new: "merchant_findById (ac_merchants w) (m_id a) = None"
    using Inr by (auto simp: merchant_create_def merchant_findById_def jm_has_def split: if_splits)
  have find: "merchant_findById st i = (if i = m_id a then Some a else merchant_findById (ac_merchants w) i)" for i
    using merchant_repo.create_find[OF Inr] .
  have h: "holds_key a k \<longleftrightarrow> k = m_apiKey a" for k using key by (auto simp: holds_key_def)
  have "merchant_store_wf st" using merchant_repo.create_valid[OF _ id new Inr] ok by (simp add: accounts_ok_def)
  moreover have "i = j" if "merchant_findById st i = Some b" "merchant_findById st j = Some c" "holds_key b k" "holds_key c k" for i j b c k
    using that free merchant_key_owner[OF ok, of i b j c k] h unfolding find find_merchant_def by (auto split: if_splits)
  moreover have "m_apiKey m \<noteq> []" if "merchant_findById st i = Some m" for i m
    using that key ok unfolding find accounts_ok_def merchant_keys_ok_def by (auto split: if_splits)
  ultimately have "merchant_store_wf st \<and> merchant_keys_ok st" unfolding merchant_keys_ok_def by blast
  then have "accounts_ok (w\<lparr>ac_merchants := st\<rparr>)" using ok by (simp add: accounts_ok_def)
  then show ?thesis using Inr by (intro disjI2 exI[of _ st]) (simp add: put_merchant_def)
qed

lemma put_merchant_users [simp]: "ac_users (snd (put_merchant op m w)) = ac_users w"
  by (cases "op m (ac_merchants w)") (simp_all add: put_merchant_def)

lemma bindR_snd: "snd (bindR m f) = (case fst m of Inl err \<Rightarrow> snd m | Inr a \<Rightarrow> snd (f a (snd m)))"
  by (cases m rule: prod.exhaust) (auto split: sum.split)

lemma merchant_inserted:
  assumes "accounts_ok w" "m_id a \<noteq> []" "m_apiKey a = newMerchantApiKey e" "m_apiKeyPrevious a = None" "fresh_merchant_key e w"
  shows "accounts_ok (snd (put_merchant merchant_create a w))"
  using merchant_insert[OF assms(1,2) _ assms(4)] assms(1,3,5) by (auto simp: fresh_merchant_key_def newMerchantApiKey_def)

lemma merchant_ops_users [simp]:
  "ac_users (snd (ensureDefault e w)) = ac_users w" "ac_users (snd (create_merchant e inp w)) = ac_users w"
  "ac_users (snd (rotateKey e i w)) = ac_users w" "ac_users (snd (setStatus e i st w)) = ac_users w"
  by (simp_all add: ensureDefault_def create_merchant_def rotateKey_def setStatus_def bindR_snd Let_def split: option.split sum.split)

lemma ensureDefault_keeps: "accounts_ok w \<Longrightarrow> fresh_merchant_key e w \<Longrightarrow> accounts_ok (snd (ensureDefault e w))"
  using merchant_inserted[of w _ e]
  by (simp add: ensureDefault_def bindR_snd Let_def DEFAULT_MERCHANT_ID_def split: option.split sum.split)

lemma create_merchant_keeps:
  "accounts_ok w \<Longrightarrow> fresh_merchant_key e w \<Longrightarrow> cm_id inp \<noteq> Some [] \<Longrightarrow> uuid_at e 0 \<noteq> [] \<Longrightarrow>
     accounts_ok (snd (create_merchant e inp w))"
  using merchant_inserted[of w _ e]
  by (cases "cm_id inp") (simp_all add: create_merchant_def bindR_snd Let_def split: sum.split)

lemma setStatus_keeps: "accounts_ok w \<Longrightarrow> accounts_ok (snd (setStatus e i st w))"
proof (cases "find_merchant i w")
  case None
  then show "accounts_ok w \<Longrightarrow> ?thesis" by (simp add: setStatus_def find_merchant_def)
next
  case (Some m)
  assume "accounts_ok w"
  from merchant_write_status[OF this Some, of e st] show ?thesis by auto
qed

lemma rotateKey_keeps:
  assumes "accounts_ok w" "fresh_merchant_key e w"
  shows "accounts_ok (snd (rotateKey e i w))"
proof (cases "find_merchant i w")
  case None
  then show ?thesis using assms by (simp add: rotateKey_def find_merchant_def)
next
  case (Some m)
  from rotateKey_writes[OF assms(1) Some assms(2)] show ?thesis by auto
qed

lemma account_step_keeps: "account_step sc w w' \<Longrightarrow> accounts_ok w \<and> emails_ok w \<Longrightarrow> accounts_ok w' \<and> emails_ok w'"
proof (induction rule: account_step.induct)
  case (registers e w salt inp)
  then show ?case using register_keeps by blast
next
  case (logs_in w e mail p)
  then show ?case using login_keeps by blast
next
  case (rotates_user w e i)
  then show ?case using rotateApiKey_keeps[of w e i] by (simp add: newUserApiKey_def)
qed (simp_all add: ensureDefault_keeps create_merchant_keeps rotateKey_keeps setStatus_keeps emails_ok_def)

lemma accounts_reachable_ok: "accounts_reachable sc w \<Longrightarrow> accounts_ok w \<and> emails_ok w"
  unfolding accounts_reachable_def
proof (induction rule: rtranclp_induct)
  case base
  show ?case by (simp add: emails_ok_def) (simp add: no_accounts_def empty_user_store_def user_findById_def)
next
  case (step w w')
  then show ?case using account_step_keeps by blast
qed

text \<open>
  C37: Whatever sequence of registrations, logins, key rotations, merchant creations and status changes
  the services perform, every stored user has a well-formed email, no two users share an email or an API
  key, an API key authenticates exactly the user who holds it, and exactly the active merchant that holds it
  as its current or previous key.
\<close>

theorem accounts_identities:
  assumes "accounts_reachable sc w"
  shows "(\<forall>u. user_findById (ac_users w) (u_id u) = Some u \<longrightarrow> email_ok (u_email u) \<and> user_findByEmail (ac_users w) (u_email u) = Some u) \<and>
    (\<forall>k u. user_authenticate k w = Inr u \<longleftrightarrow> k \<noteq> [] \<and> user_findById (ac_users w) (u_id u) = Some u \<and> u_apiKey u = k) \<and>
    (\<forall>k m. merchant_authenticate k w = Some m \<longleftrightarrow>
       k \<noteq> [] \<and> find_merchant (m_id m) w = Some m \<and> holds_key m k \<and> m_status m = Active)"
proof -
  have ok: "accounts_ok w" "emails_ok w" using accounts_reachable_ok[OF assms] by simp_all
  have wf: "user_store_wf (ac_users w)" "user_keys_ok (ac_users w)" using ok(1) by (simp_all add: accounts_ok_def)
  have "email_ok (u_email u) \<and> user_findByEmail (ac_users w) (u_email u) = Some u"
    if "user_findById (ac_users w) (u_id u) = Some u" for u
    using that ok(2) by (simp add: user_findByEmail_iff[OF wf(1)] emails_ok_def)
  moreover have "user_authenticate k w = Inr u \<longleftrightarrow> k \<noteq> [] \<and> user_findById (ac_users w) (u_id u) = Some u \<and> u_apiKey u = k" for k u
    using user_findByApiKey_iff[OF wf, of k u] by (auto simp: user_authenticate_def split: option.split)
  ultimately show ?thesis using merchant_authenticate_iff[OF ok(1)] by blast
qed

text \<open>
  Provisioning of the implicit tenant is idempotent: the first call leaves a state in which the
  tenant exists, and every later one returns it and changes nothing.
\<close>

lemma ensureDefault_idempotent:
  "\<exists>m w'. ensureDefault e w = (Inr m, w') \<and> (\<forall>e2. ensureDefault e2 w' = (Inr m, w'))"
proof (cases "merchant_findById (ac_merchants w) DEFAULT_MERCHANT_ID")
  case None
  then show ?thesis
    by (simp add: ensureDefault_def Let_def put_merchant_def merchant_create_def jm_has_def merchant_findById_def)
next
  case (Some m)
  then show ?thesis by (simp add: ensureDefault_def)
qed

section \<open>Worked examples\<close>

definition demo_scrypt :: scrypt where
  "demo_scrypt p salt n = take n (utf8 p @ replicate n 0)"

definition demo_salt :: "byte list" where
  "demo_salt = [1, 2]"

definition demo_register :: register_input where
  "demo_register = \<lparr>ri_email = '' Bob@x.io '', ri_password = ''password'', ri_locale = None, ri_name = Some ''Bob''\<rparr>"

lemma demo_scrypt_length: "\<forall>p s n. length (demo_scrypt p s n) = n"
  by (simp add: demo_scrypt_def min_def)

lemma demo_email: "to_lower (trim '' Bob@x.io '') = ''bob@x.io''" "to_lower (trim ''BOB@x.io'') = ''bob@x.io''" "email_ok ''bob@x.io''"
  by code_simp+

lemma demo_fresh: "fresh_user (env_at 0) no_accounts" "acceptable demo_register"
    "user_findByEmail (ac_users no_accounts) (to_lower (trim (ri_email demo_register))) = None"
  by (simp_all add: fresh_user_def no_accounts_def empty_user_store_def user_findById_def user_findByApiKey_def
      user_findByEmail_def index_get_def acceptable_def demo_register_def demo_email)

theorem register_then_login_witness:
  "\<exists>pub key w'. register (env_at 0) demo_scrypt demo_salt demo_register no_accounts = (Inr (pub, key), w') \<and>
     fst (login (env_at 9) demo_scrypt ''BOB@x.io'' ''password'' w') = Inr (pub, key) \<and>
     login (env_at 9) demo_scrypt ''BOB@x.io'' ''passwort'' w' = (Inl (AuthFailedError ''invalid credentials''), w')"
proof -
  have mail: "to_lower (trim ''BOB@x.io'') = to_lower (trim (ri_email demo_register))"
    by (simp add: demo_register_def demo_email)
  have hash: "demo_scrypt ''passwort'' demo_salt 64 \<noteq> demo_scrypt (ri_password demo_register) demo_salt 64"
    by (simp add: demo_scrypt_def demo_register_def utf8_def utf8_char_def)
  have pw: "ri_password demo_register = ''password''" by (simp add: demo_register_def)
  have "demo_salt \<noteq> []" by (simp add: demo_salt_def)
  from register_then_login[OF accounts_ok_empty demo_fresh demo_scrypt_length this]
  obtain pub key w' where run: "register (env_at 0) demo_scrypt demo_salt demo_register no_accounts = (Inr (pub, key), w')"
    and logins: "\<forall>e2 mail p. to_lower (trim mail) = to_lower (trim (ri_email demo_register)) \<longrightarrow>
      (if demo_scrypt p demo_salt 64 = demo_scrypt (ri_password demo_register) demo_salt 64
       then fst (login e2 demo_scrypt mail p w') = Inr (pub, key)
       else login e2 demo_scrypt mail p w' = (Inl (AuthFailedError ''invalid credentials''), w'))"
    by blast
  have "fst (login (env_at 9) demo_scrypt ''BOB@x.io'' ''password'' w') = Inr (pub, key)"
    using logins[rule_format, OF mail, of "ri_password demo_register" "env_at 9"] pw by simp
  moreover have "login (env_at 9) demo_scrypt ''BOB@x.io'' ''passwort'' w' = (Inl (AuthFailedError ''invalid credentials''), w')"
    using logins[rule_format, OF mail, of "''passwort''" "env_at 9"] hash by simp
  ultimately show ?thesis using run by blast
qed

text \<open>A state with the implicit tenant.\<close>

definition demo_accounts :: accounts where
  "demo_accounts = snd (ensureDefault (env_at 0) no_accounts)"

definition demo_tenant :: merchant where
  "demo_tenant = \<lparr>m_id = DEFAULT_MERCHANT_ID, m_name = ''Default'', m_status = Active, m_apiKey = ''mk_rnd-'',
     m_apiKeyPrevious = None, m_usdtHdPath = None, m_createdAt = 0, m_updatedAt = 0\<rparr>"

lemma demo_accounts_merchants: "ac_merchants demo_accounts = \<lparr>ms_byId = [(DEFAULT_MERCHANT_ID, demo_tenant)]\<rparr>"
  by (simp add: demo_accounts_def ensureDefault_def no_accounts_def empty_merchant_store_def merchant_findById_def Let_def
      put_merchant_def merchant_create_def jm_has_def demo_tenant_def newMerchantApiKey_def)

lemma demo_accounts_reachable: "accounts_reachable sc demo_accounts"
proof -
  have "fresh_merchant_key (env_at 0) no_accounts"
    by (simp add: fresh_merchant_key_def no_accounts_def empty_merchant_store_def find_merchant_def merchant_findById_def)
  from account_step.ensures[OF this, of sc] show ?thesis
    unfolding accounts_reachable_def demo_accounts_def by (rule r_into_rtranclp)
qed

lemma demo_tenant_found: "find_merchant i demo_accounts = (if i = DEFAULT_MERCHANT_ID then Some demo_tenant else None)"
  by (simp add: find_merchant_def demo_accounts_merchants merchant_findById_def)

lemma demo_new_key: "fresh_merchant_key (env_at 1\<lparr>random_at := (\<lambda>_. ''new'')\<rparr>) demo_accounts"
  "newMerchantApiKey (env_at 1\<lparr>random_at := (\<lambda>_. ''new'')\<rparr>) = ''mk_new''" "m_apiKey demo_tenant = ''mk_rnd-''"
  "m_status demo_tenant = Active"
  by (simp_all add: fresh_merchant_key_def demo_tenant_found demo_tenant_def holds_key_def newMerchantApiKey_def)

theorem merchant_rotation_grace_witness:
  "\<exists>m' w'. rotateKey (env_at 1\<lparr>random_at := (\<lambda>_. ''new'')\<rparr>) DEFAULT_MERCHANT_ID demo_accounts = (Inr m', w') \<and>
     merchant_authenticate ''mk_new'' w' = Some m' \<and> merchant_authenticate ''mk_rnd-'' w' = Some m'"
proof -
  have "accounts_ok demo_accounts" using accounts_reachable_ok[OF demo_accounts_reachable] by blast
  moreover have "find_merchant DEFAULT_MERCHANT_ID demo_accounts = Some demo_tenant" by (simp add: demo_tenant_found)
  ultimately have "\<exists>m' w'. rotateKey (env_at 1\<lparr>random_at := (\<lambda>_. ''new'')\<rparr>) DEFAULT_MERCHANT_ID demo_accounts = (Inr m', w') \<and>
      merchant_authenticate (newMerchantApiKey (env_at 1\<lparr>random_at := (\<lambda>_. ''new'')\<rparr>)) w' = Some m' \<and>
      merchant_authenticate (m_apiKey demo_tenant) w' = Some m'"
    using merchant_rotation_grace[OF _ _ demo_new_key(4,1)] by blast
  then show ?thesis by (simp only: demo_new_key)
qed

theorem merchant_suspension_witness:
  "\<exists>m' w'. setStatus (env_at 1) DEFAULT_MERCHANT_ID Suspended demo_accounts = (Inr m', w') \<and>
     merchant_authenticate ''mk_rnd-'' demo_accounts = Some demo_tenant \<and> merchant_authenticate ''mk_rnd-'' w' = None"
proof -
  have ok: "accounts_ok demo_accounts" using accounts_reachable_ok[OF demo_accounts_reachable] by blast
  have "find_merchant DEFAULT_MERCHANT_ID demo_accounts = Some demo_tenant" by (simp add: demo_tenant_found)
  from merchant_suspension[OF ok this, of "env_at 1" Suspended] obtain m' w' where
    run: "setStatus (env_at 1) DEFAULT_MERCHANT_ID Suspended demo_accounts = (Inr m', w')"
    and auth: "\<forall>k. merchant_authenticate k w' = (if holds_key demo_tenant k then if k \<noteq> [] \<and> Suspended = Active then Some m' else None
       else merchant_authenticate k demo_accounts)"
    by blast
  have "merchant_authenticate ''mk_rnd-'' w' = None"
    using auth[rule_format, of "''mk_rnd-''"] demo_new_key(3) by (simp add: holds_key_def)
  moreover have "merchant_authenticate ''mk_rnd-'' demo_accounts = Some demo_tenant"
    by (simp add: merchant_authenticate_def merchant_findByApiKey_def demo_accounts_merchants demo_new_key)
  ultimately show ?thesis using run by blast
qed

theorem accounts_identities_witness:
  "merchant_authenticate ''mk_rnd-'' demo_accounts = Some demo_tenant \<and> accounts_reachable demo_scrypt demo_accounts"
proof -
  have "merchant_authenticate ''mk_rnd-'' demo_accounts = Some demo_tenant \<longleftrightarrow>
      ''mk_rnd-'' \<noteq> [] \<and> find_merchant (m_id demo_tenant) demo_accounts = Some demo_tenant \<and> holds_key demo_tenant ''mk_rnd-'' \<and>
      m_status demo_tenant = Active"
    using accounts_identities[OF demo_accounts_reachable[of demo_scrypt]] by blast
  moreover have "m_id demo_tenant = DEFAULT_MERCHANT_ID" by (simp add: demo_tenant_def)
  ultimately show ?thesis
    using demo_new_key(3,4) demo_tenant_found demo_accounts_reachable by (simp add: holds_key_def)
qed

end
