(* ===== verification/RateLimit.thy ===== *)
theory RateLimit
  imports Prelude
begin

text \<open>
  \<^verbatim>\<open>src/api/rateLimiter.ts\<close> and \<^verbatim>\<open>src/api/redisRateLimiter.ts\<close>: the two fixed-window rate limiters. The
  Redis client is a parameter.
\<close>

record rate_decision =
  rd_allowed :: bool
  rd_limit :: int
  rd_remaining :: int
  rd_resetAt :: int
  rd_retryAfterSec :: int

record window =
  wn_count :: int
  wn_resetAt :: int

type_synonym windows = "(string, window) jsmap"

text \<open>\<open>Math.ceil(a / b)\<close> on integers with \<open>b > 0\<close>.\<close>

definition ceil_div :: "int \<Rightarrow> int \<Rightarrow> int" where
  "ceil_div a b = - ((- a) div b)"

text \<open>\<open>maxReq\<close> and \<open>windowMs\<close> are the limiter's settings, \<open>t\<close> the time it reads.\<close>

definition rate_check :: "int \<Rightarrow> int \<Rightarrow> int \<Rightarrow> string \<Rightarrow> windows \<Rightarrow> rate_decision \<times> windows" where
  "rate_check maxReq windowMs t key ws =
     (let w = (case jm_get ws key of
                 None \<Rightarrow> \<lparr>wn_count = 0, wn_resetAt = t + windowMs\<rparr>
               | Some w \<Rightarrow> if wn_resetAt w \<le> t then \<lparr>wn_count = 0, wn_resetAt = t + windowMs\<rparr> else w);
          w1 = w\<lparr>wn_count := wn_count w + 1\<rparr>
      in (\<lparr>rd_allowed = (wn_count w1 \<le> maxReq), rd_limit = maxReq, rd_remaining = max 0 (maxReq - wn_count w1),
           rd_resetAt = wn_resetAt w1, rd_retryAfterSec = max 1 (ceil_div (wn_resetAt w1 - t) 1000)\<rparr>,
          jm_set key w1 ws))"

definition rate_sweep :: "int \<Rightarrow> windows \<Rightarrow> windows" where
  "rate_sweep t ws = foldl (\<lambda>m (key, w). if wn_resetAt w \<le> t then jm_delete key m else m) ws ws"

text \<open>
  The client the Redis limiter is given: each command's reply or error, and the server's state after it. A
  command that fails ends the check with its error. The limiter reads the clock twice, \<open>t\<close> and \<open>t2\<close>.
\<close>

record 's redis =
  rs_incr :: "string \<Rightarrow> 's \<Rightarrow> int result \<times> 's"
  rs_pexpire :: "string \<Rightarrow> int \<Rightarrow> 's \<Rightarrow> unit result \<times> 's"
  rs_pttl :: "string \<Rightarrow> 's \<Rightarrow> int result \<times> 's"

definition bucketKey :: "string \<Rightarrow> int \<Rightarrow> string" where
  "bucketKey key bucket = ''rl:'' @ key @ '':'' @ string_of_int bucket"

definition redis_check :: "'s redis \<Rightarrow> int \<Rightarrow> int \<Rightarrow> int \<Rightarrow> int \<Rightarrow> string \<Rightarrow> 's \<Rightarrow> rate_decision result \<times> 's" where
  "redis_check rs maxReq windowMs t t2 key s =
     (let bucket = t div windowMs; bk = bucketKey key bucket in
      bindR (rs_incr rs bk s) (\<lambda>count s1.
      bindR (if count = 1 then rs_pexpire rs bk windowMs s1 else (Inr (), s1)) (\<lambda>_ s2.
      bindR (rs_pttl rs bk s2) (\<lambda>ttl0 s3.
      bindR (if ttl0 < 0 then bindR (rs_pexpire rs bk windowMs s3) (\<lambda>_ s4. (Inr windowMs, s4)) else (Inr ttl0, s3)) (\<lambda>ttl s4.
        (Inr \<lparr>rd_allowed = (count \<le> maxReq), rd_limit = maxReq, rd_remaining = max 0 (maxReq - count),
           rd_resetAt = t2 + ttl, rd_retryAfterSec = max 1 (ceil_div ttl 1000)\<rparr>, s4))))))"

section \<open>What every limiter promises\<close>

text \<open>One request after another: for each its key, its window and the decision; and the counts per window.\<close>

fun serve :: "('t \<Rightarrow> string \<Rightarrow> 's \<Rightarrow> rate_decision \<times> 's) \<Rightarrow> ('t \<Rightarrow> string \<Rightarrow> 's \<Rightarrow> 'w) \<Rightarrow> ('t \<times> string) list \<Rightarrow> 's \<Rightarrow>
    ((string \<times> 'w) \<times> rate_decision) list \<times> 's" where
  "serve check slot [] s = ([], s)"
| "serve check slot ((t, k) # rest) s =
     (let (d, s1) = check t k s; (served, s2) = serve check slot rest s1 in (((k, slot t k s), d) # served, s2))"

definition asked :: "string \<times> 'w \<Rightarrow> ((string \<times> 'w) \<times> rate_decision) list \<Rightarrow> nat" where
  "asked x l = length (filter (\<lambda>(y, d). y = x) l)"

definition admitted :: "string \<times> 'w \<Rightarrow> ((string \<times> 'w) \<times> rate_decision) list \<Rightarrow> nat" where
  "admitted x l = length (filter (\<lambda>(y, d). y = x \<and> rd_allowed d) l)"

text \<open>
  A limiter puts every request into a window of its key. \<open>rel s log\<close> relates its state to the requests it has
  seen, each with its window: a request is allowed when fewer than \<open>maxReq\<close> were seen in its window.
\<close>

locale rate_limiter =
  fixes maxReq :: int
    and check :: "'t \<Rightarrow> string \<Rightarrow> 's \<Rightarrow> rate_decision \<times> 's"
    and slot :: "'t \<Rightarrow> string \<Rightarrow> 's \<Rightarrow> 'w"
    and rel :: "'s \<Rightarrow> (string \<times> 'w) list \<Rightarrow> bool"
  assumes decides: "rel s log \<Longrightarrow> check t k s = (d, s') \<Longrightarrow> rd_allowed d = (int (count_list log (k, slot t k s)) < maxReq)"
    and keeps: "rel s log \<Longrightarrow> check t k s = (d, s') \<Longrightarrow> rel s' ((k, slot t k s) # log)"
begin

lemma serve_admits:
  "rel s log \<Longrightarrow> serve check slot reqs s = (l, s') \<Longrightarrow>
     int (admitted x l) = min (int (asked x l)) (max 0 (maxReq - int (count_list log x)))"
proof (induction reqs arbitrary: s log l s')
  case (Cons r reqs)
  obtain t k where r: "r = (t, k)" by fastforce
  obtain d s1 where c: "check t k s = (d, s1)" by fastforce
  obtain l1 s2 where run: "serve check slot reqs s1 = (l1, s2)" by fastforce
  have l: "l = ((k, slot t k s), d) # l1" using Cons.prems(2) r c run by simp
  note IH = Cons.IH[OF keeps[OF Cons.prems(1) c] run]
  show ?case
    using IH decides[OF Cons.prems(1) c] by (cases "x = (k, slot t k s)") (auto simp: l asked_def admitted_def)
qed (simp add: asked_def admitted_def)

text \<open>In every window the first \<open>maxReq\<close> requests are allowed and no other.\<close>

lemma serve_limit:
  assumes "rel s []" "serve check slot reqs s = (l, s')"
  shows "admitted x l = min (asked x l) (nat maxReq)"
  using serve_admits[OF assms, of x] by (auto simp: min_def max_def split: if_splits)

end

section \<open>The in-process limiter\<close>

text \<open>The window of a request is named by the time it resets.\<close>

definition rate_slot :: "int \<Rightarrow> int \<Rightarrow> string \<Rightarrow> windows \<Rightarrow> int" where
  "rate_slot windowMs t key ws =
     (case jm_get ws key of None \<Rightarrow> t + windowMs | Some w \<Rightarrow> if wn_resetAt w \<le> t then t + windowMs else wn_resetAt w)"

definition windows_rel :: "windows \<Rightarrow> (string \<times> int) list \<Rightarrow> bool" where
  "windows_rel ws log \<longleftrightarrow>
     (\<forall>k w. jm_get ws k = Some w \<longrightarrow> wn_count w = int (count_list log (k, wn_resetAt w))) \<and>
     (\<forall>k r. (k, r) \<in> set log \<longrightarrow> (\<exists>w. jm_get ws k = Some w \<and> r \<le> wn_resetAt w))"

lemma window_eta: "w\<lparr>wn_count := c\<rparr> = \<lparr>wn_count = c, wn_resetAt = wn_resetAt w\<rparr>"
  by (cases w) simp

lemma rate_check_eq:
  "rate_check m W t k ws = (d, ws') \<Longrightarrow>
     \<exists>c. (case jm_get ws k of None \<Rightarrow> c = 0 | Some w \<Rightarrow> c = (if wn_resetAt w \<le> t then 0 else wn_count w)) \<and>
       ws' = jm_set k \<lparr>wn_count = c + 1, wn_resetAt = rate_slot W t k ws\<rparr> ws \<and> rd_allowed d = (c < m) \<and>
       rd_resetAt d = rate_slot W t k ws \<and> rd_remaining d = max 0 (m - (c + 1))"
  by (auto simp: rate_check_def rate_slot_def Let_def window_eta split: option.splits)

lemma windows_rel_count:
  assumes "windows_rel ws log" "0 < W"
  shows "(case jm_get ws k of None \<Rightarrow> c = 0 | Some w \<Rightarrow> c = (if wn_resetAt w \<le> t then 0 else wn_count w)) \<longleftrightarrow>
    c = int (count_list log (k, rate_slot W t k ws))"
proof (cases "jm_get ws k")
  case None
  then have "(k, t + W) \<notin> set log" using assms(1) by (fastforce simp: windows_rel_def)
  then show ?thesis using None by (simp add: rate_slot_def)
next
  case (Some w)
  have "(k, t + W) \<notin> set log" if "wn_resetAt w \<le> t" using assms Some that by (fastforce simp: windows_rel_def)
  then show ?thesis using assms(1) Some by (auto simp: rate_slot_def windows_rel_def)
qed

lemma rate_slot_ge: "0 < W \<Longrightarrow> jm_get ws k = Some w \<Longrightarrow> wn_resetAt w \<le> rate_slot W t k ws"
  by (simp add: rate_slot_def)

lemma windows_rel_check:
  assumes rel: "windows_rel ws log" and W: "0 < W" and c: "rate_check m W t k ws = (d, ws')"
  shows "rd_allowed d = (int (count_list log (k, rate_slot W t k ws)) < m) \<and> windows_rel ws' ((k, rate_slot W t k ws) # log)"
proof -
  let ?r = "rate_slot W t k ws"
  have ws': "ws' = jm_set k \<lparr>wn_count = int (count_list log (k, ?r)) + 1, wn_resetAt = ?r\<rparr> ws"
    and d: "rd_allowed d = (int (count_list log (k, ?r)) < m)"
    using rate_check_eq[OF c] unfolding windows_rel_count[OF rel W] by auto
  have "\<exists>w. jm_get ws' i = Some w \<and> r \<le> wn_resetAt w" if "(i, r) \<in> set ((k, ?r) # log)" for i r
  proof (cases "i = k")
    case True
    have "r \<le> ?r"
    proof (cases "(k, r) \<in> set log")
      case True
      then obtain w where "jm_get ws k = Some w" "r \<le> wn_resetAt w" using rel unfolding windows_rel_def by blast
      then show ?thesis using rate_slot_ge[OF W, of ws k w t] by simp
    next
      case False
      then show ?thesis using that True by auto
    qed
    then show ?thesis using True ws' by simp
  next
    case False
    then show ?thesis using that rel ws' by (auto simp: windows_rel_def)
  qed
  moreover have "wn_count w = int (count_list ((k, ?r) # log) (i, wn_resetAt w))" if "jm_get ws' i = Some w" for i w
    using that rel ws' by (auto simp: windows_rel_def split: if_splits)
  ultimately show ?thesis using d by (simp add: windows_rel_def)
qed

interpretation memory_limiter: rate_limiter m "rate_check m W" "rate_slot W" "\<lambda>ws log. 0 < W \<and> windows_rel ws log" for m W :: int
  by unfold_locales (use windows_rel_check in blast)+

lemma windows_rel_empty [simp]: "windows_rel [] []"
  by (simp add: windows_rel_def)

text \<open>While the clock does not run backwards, a window is open for \<open>windowMs\<close> from its first request.\<close>

definition windows_open :: "int \<Rightarrow> int \<Rightarrow> windows \<Rightarrow> bool" where
  "windows_open W t ws \<longleftrightarrow> (\<forall>k w. jm_get ws k = Some w \<longrightarrow> wn_resetAt w \<le> t + W)"

lemma rate_check_open:
  assumes "windows_open W t0 ws" "t0 \<le> t" "0 < W" "rate_check m W t k ws = (d, ws')"
  shows "windows_open W t ws' \<and> rd_resetAt d = rate_slot W t k ws \<and> t < rd_resetAt d \<and> rd_resetAt d \<le> t + W"
proof -
  obtain c where ws': "ws' = jm_set k \<lparr>wn_count = c + 1, wn_resetAt = rate_slot W t k ws\<rparr> ws" and d: "rd_resetAt d = rate_slot W t k ws"
    using rate_check_eq[OF assms(4)] by blast
  have old: "wn_resetAt w \<le> t + W" if "jm_get ws i = Some w" for i w
    using assms(1,2) that by (force simp: windows_open_def)
  then have "t < rate_slot W t k ws \<and> rate_slot W t k ws \<le> t + W"
    using assms(3) by (auto simp: rate_slot_def split: option.split)
  then show ?thesis using d ws' old by (auto simp: windows_open_def)
qed

lemma serve_times:
  "windows_open W t0 ws \<Longrightarrow> 0 < W \<Longrightarrow> sorted (t0 # map fst reqs) \<Longrightarrow> serve (rate_check m W) (rate_slot W) reqs ws = (l, ws') \<Longrightarrow>
     length l = length reqs \<and>
     (\<forall>i < length reqs. fst (fst (l ! i)) = snd (reqs ! i) \<and> snd (fst (l ! i)) = rd_resetAt (snd (l ! i)) \<and>
        fst (reqs ! i) < rd_resetAt (snd (l ! i)) \<and> rd_resetAt (snd (l ! i)) \<le> fst (reqs ! i) + W)"
proof (induction reqs arbitrary: ws t0 l ws')
  case (Cons r reqs)
  obtain t k where r: "r = (t, k)" by fastforce
  obtain d ws1 where c: "rate_check m W t k ws = (d, ws1)" by fastforce
  obtain l1 ws2 where run: "serve (rate_check m W) (rate_slot W) reqs ws1 = (l1, ws2)" by fastforce
  have l: "l = ((k, rate_slot W t k ws), d) # l1" using Cons.prems(4) r c run by simp
  have "t0 \<le> t" "sorted (t # map fst reqs)" using Cons.prems(3) r by simp_all
  note one = rate_check_open[OF Cons.prems(1) this(1) Cons.prems(2) c]
  note IH = Cons.IH[OF one[THEN conjunct1] Cons.prems(2) \<open>sorted (t # map fst reqs)\<close> run]
  show ?case using IH one by (auto simp: l r nth_Cons split: nat.split)
qed simp

text \<open>
  C38: The in-process limiter admits the first \<open>maxReq\<close> requests of every window and no other. For any
  sequence of requests in clock order, each request falls into the window that resets at most \<open>windowMs\<close>
  later, and among the requests of one key in one window exactly the first \<open>maxReq\<close> are allowed.
\<close>

theorem rate_limit_enforced:
  assumes "0 < W" "sorted (map fst reqs)" "serve (rate_check m W) (rate_slot W) reqs [] = (l, ws)"
  shows "(\<forall>i < length reqs. fst (fst (l ! i)) = snd (reqs ! i) \<and> snd (fst (l ! i)) = rd_resetAt (snd (l ! i)) \<and>
        fst (reqs ! i) < rd_resetAt (snd (l ! i)) \<and> rd_resetAt (snd (l ! i)) \<le> fst (reqs ! i) + W) \<and>
    length l = length reqs \<and> (\<forall>x. admitted x l = min (asked x l) (nat m))"
proof -
  have "sorted ((case reqs of [] \<Rightarrow> 0 | r # _ \<Rightarrow> fst r) # map fst reqs)" using assms(2) by (cases reqs) auto
  then have "length l = length reqs \<and>
     (\<forall>i < length reqs. fst (fst (l ! i)) = snd (reqs ! i) \<and> snd (fst (l ! i)) = rd_resetAt (snd (l ! i)) \<and>
        fst (reqs ! i) < rd_resetAt (snd (l ! i)) \<and> rd_resetAt (snd (l ! i)) \<le> fst (reqs ! i) + W)"
    by (intro serve_times[OF _ assms(1) _ assms(3)]) (simp add: windows_open_def)
  moreover have "admitted x l = min (asked x l) (nat m)" for x
    using memory_limiter.serve_limit[OF _ assms(3), of x] assms(1) by simp
  ultimately show ?thesis by blast
qed

section \<open>Sweeping\<close>

lemma delete_fold:
  "jm_get (foldl (\<lambda>m (key, w). if bad w then jm_delete key m else m) m xs) k =
     (if \<exists>w. (k, w) \<in> set xs \<and> bad w then None else jm_get m k)"
proof (induction xs arbitrary: m)
  case (Cons x xs)
  obtain i w where "x = (i, w)" by fastforce
  then show ?case using Cons.IH by auto
qed simp

lemma rate_sweep_get:
  assumes "jm_wf ws"
  shows "jm_get (rate_sweep t ws) k = (case jm_get ws k of None \<Rightarrow> None | Some w \<Rightarrow> if wn_resetAt w \<le> t then None else Some w)"
  by (simp add: rate_sweep_def delete_fold jm_get_in_set[OF assms, symmetric] split: option.split)

text \<open>
  Dropping expired windows is invisible. Whenever \<open>sweep\<close> runs, a check at that time or later
  decides as it would have without it, and leaves the same window for its key.
\<close>

theorem rate_sweep_neutral:
  assumes "jm_wf ws" "t \<le> t'"
  shows "fst (rate_check m W t' k (rate_sweep t ws)) = fst (rate_check m W t' k ws) \<and>
    jm_get (snd (rate_check m W t' k (rate_sweep t ws))) k = jm_get (snd (rate_check m W t' k ws)) k"
  using assms(2) by (auto simp: rate_check_def rate_sweep_get[OF assms(1)] Let_def split: option.split)

section \<open>The Redis limiter\<close>

text \<open>
  What the limiter relies on of Redis, with \<open>val s k\<close> the integer stored at a key: no command fails, \<open>INCR\<close> adds
  one and returns the new value, and neither \<open>PEXPIRE\<close> nor \<open>PTTL\<close> changes a value. A bucket's key is never used again
  once it has expired, so expiry plays no part in the counts.
\<close>

definition redis_counts :: "'s redis \<Rightarrow> ('s \<Rightarrow> string \<Rightarrow> int) \<Rightarrow> bool" where
  "redis_counts rs val \<longleftrightarrow>
     (\<forall>k s. \<exists>s'. rs_incr rs k s = (Inr (val s k + 1), s') \<and> val s' = (val s)(k := val s k + 1)) \<and>
     (\<forall>k ms s. \<exists>s'. rs_pexpire rs k ms s = (Inr (), s') \<and> val s' = val s) \<and>
     (\<forall>k s. \<exists>ttl s'. rs_pttl rs k s = (Inr ttl, s') \<and> val s' = val s)"

text \<open>The decision of a check that did not fail.\<close>

definition redis_decide :: "'s redis \<Rightarrow> int \<Rightarrow> int \<Rightarrow> int \<times> int \<Rightarrow> string \<Rightarrow> 's \<Rightarrow> rate_decision \<times> 's" where
  "redis_decide rs m W t k s = (case redis_check rs m W (fst t) (snd t) k s of (r, s') \<Rightarrow> (projr r, s'))"

definition redis_slot :: "int \<Rightarrow> int \<times> int \<Rightarrow> string \<Rightarrow> 's \<Rightarrow> int" where
  "redis_slot W t key s = fst t div W"

definition redis_rel :: "int \<Rightarrow> ('s \<Rightarrow> string \<Rightarrow> int) \<Rightarrow> 's \<Rightarrow> (string \<times> int) list \<Rightarrow> bool" where
  "redis_rel W val s log \<longleftrightarrow> (\<forall>k b. val s (bucketKey k b) = int (count_list log (k, b)))"

lemma colon_not_in_number: "CHR '':'' \<notin> set (string_of_int i)"
proof -
  have "\<not> is_digit CHR '':''" by (simp add: is_digit_def)
  then show ?thesis
    using nat_digits_digit by (auto simp: string_of_int_def list_all_iff)
qed

lemma split_last: "a @ c # b = a' @ c # b' \<Longrightarrow> c \<notin> set b \<Longrightarrow> c \<notin> set b' \<Longrightarrow> a = a' \<and> b = b'"
proof (induction a arbitrary: a')
  case Nil
  then show ?case by (cases a') auto
next
  case (Cons x a)
  then show ?case by (cases a') auto
qed

text \<open>No two pairs of key and bucket share a Redis key, even when client keys contain colons.\<close>

lemma bucketKey_inj [simp]: "(bucketKey k b = bucketKey k' b') = (k = k' \<and> b = b')"
  using split_last[of k "CHR '':''" "string_of_int b" k' "string_of_int b'"] colon_not_in_number
  by (auto simp: bucketKey_def dest: string_of_int_inj)

lemma redis_check_eq:
  assumes "redis_counts rs val"
  shows "\<exists>d s'. redis_check rs m W t t2 k s = (Inr d, s') \<and> rd_allowed d = (val s (bucketKey k (t div W)) < m) \<and>
    val s' = (val s)(bucketKey k (t div W) := val s (bucketKey k (t div W)) + 1)"
proof -
  let ?b = "bucketKey k (t div W)"
  note R = assms[unfolded redis_counts_def]
  obtain s1 where i: "rs_incr rs ?b s = (Inr (val s ?b + 1), s1)" "val s1 = (val s)(?b := val s ?b + 1)" using R by blast
  obtain s2 where e: "(if val s ?b + 1 = 1 then rs_pexpire rs ?b W s1 else (Inr (), s1)) = (Inr (), s2)" "val s2 = val s1"
    using R[THEN conjunct2, THEN conjunct1, rule_format, of ?b W s1] by (cases "val s ?b + 1 = 1") auto
  obtain ttl s3 where p: "rs_pttl rs ?b s2 = (Inr ttl, s3)" "val s3 = val s2" using R by blast
  obtain ttl' s4 where r: "(if ttl < 0 then bindR (rs_pexpire rs ?b W s3) (\<lambda>_ s4. (Inr W, s4)) else (Inr ttl, s3)) = (Inr ttl', s4)"
    "val s4 = val s3"
    using R[THEN conjunct2, THEN conjunct1, rule_format, of ?b W s3] by (cases "ttl < 0") auto
  have "redis_check rs m W t t2 k s = (Inr \<lparr>rd_allowed = (val s ?b + 1 \<le> m), rd_limit = m, rd_remaining = max 0 (m - (val s ?b + 1)),
      rd_resetAt = t2 + ttl', rd_retryAfterSec = max 1 (ceil_div ttl' 1000)\<rparr>, s4)"
    unfolding redis_check_def Let_def i(1) bindR.simps e(1) p(1) r(1) ..
  then show ?thesis using i(2) e(2) p(2) r(2) by auto
qed

lemma redis_decide_eq:
  assumes "redis_counts rs val" "redis_decide rs m W t k s = (d, s')"
  shows "rd_allowed d = (val s (bucketKey k (fst t div W)) < m) \<and>
    val s' = (val s)(bucketKey k (fst t div W) := val s (bucketKey k (fst t div W)) + 1)"
  using redis_check_eq[OF assms(1), of m W "fst t" "snd t" k s] assms(2) by (auto simp: redis_decide_def)

interpretation redis_limiter: rate_limiter m "redis_decide rs m W" "redis_slot W"
  "\<lambda>s log. redis_counts rs val \<and> redis_rel W val s log" for m W :: int and rs :: "'s redis" and val
proof (unfold_locales, goal_cases)
  case (1 s log t k d s')
  then show ?case using redis_decide_eq[of rs val m W t k s d s']
    by (simp add: redis_rel_def redis_slot_def)
next
  case (2 s log t k d s')
  then have "val s' = (val s)(bucketKey k (fst t div W) := val s (bucketKey k (fst t div W)) + 1)"
    using redis_decide_eq[of rs val m W t k s d s'] by simp
  then show ?case using 2
    by (auto simp: redis_rel_def redis_slot_def)
qed

text \<open>
  The Redis limiter enforces the same limit per clock window. On any client that counts as
  Redis does, and whatever the keys contain, among the requests of one key in one window
  \<open>floor(now / windowMs)\<close> exactly the first \<open>maxReq\<close> are allowed.
\<close>

theorem redis_limit_enforced:
  assumes "redis_counts rs val" "\<forall>k. val s k = 0"
    and "serve (redis_decide rs m W) (redis_slot W) reqs s = (l, s')"
  shows "admitted (k, b) l = min (asked (k, b) l) (nat m)"
proof -
  have "redis_counts rs val \<and> redis_rel W val s []" using assms(1,2) by (simp add: redis_rel_def)
  from redis_limiter.serve_limit[OF this assms(3)] show ?thesis .
qed

text \<open>When the first command fails, the check fails, and no decision is made.\<close>

lemma redis_check_fails: "rs_incr rs (bucketKey k (t div W)) s = (Inl err, s') \<Longrightarrow> redis_check rs m W t t2 k s = (Inl err, s')"
  by (simp add: redis_check_def Let_def)

section \<open>Worked examples\<close>

definition demo_requests :: "(int \<times> string) list" where
  "demo_requests = [(0, ''a''), (5, ''a''), (6, ''b''), (7, ''a''), (20, ''a'')]"

theorem rate_limit_enforced_witness:
  "\<exists>l ws. serve (rate_check 2 10) (rate_slot 10) demo_requests [] = (l, ws) \<and> map (\<lambda>x. rd_allowed (snd x)) l = [True, True, True, False, True] \<and>
     admitted (''a'', 10) l = 2"
proof -
  obtain l ws where run: "serve (rate_check 2 10) (rate_slot 10) demo_requests [] = (l, ws)" by fastforce
  have "sorted (map fst demo_requests)" by (simp add: demo_requests_def)
  from rate_limit_enforced[OF _ this run] have "admitted (''a'', 10) l = min (asked (''a'', 10) l) (nat 2)" by simp
  moreover have "map (\<lambda>x. rd_allowed (snd x)) l = [True, True, True, False, True] \<and> asked (''a'', 10) l = 3"
    using run by (simp add: demo_requests_def rate_check_def rate_slot_def Let_def asked_def) (auto simp: asked_def)
  ultimately show ?thesis using run by simp
qed

theorem rate_sweep_neutral_witness:
  "rate_sweep 10 [(''a'', \<lparr>wn_count = 2, wn_resetAt = 10\<rparr>)] = [] \<and>
   rd_allowed (fst (rate_check 2 10 10 ''a'' (rate_sweep 10 [(''a'', \<lparr>wn_count = 2, wn_resetAt = 10\<rparr>)])))"
proof -
  have "jm_wf [(''a'', \<lparr>wn_count = 2, wn_resetAt = 10\<rparr>)]" by (simp add: jm_wf_def)
  from rate_sweep_neutral[OF this, of 10 10 2 10 "''a''"] show ?thesis
    by (simp add: rate_sweep_def) (simp add: rate_check_def Let_def)
qed

text \<open>A server with counters that never expire.\<close>

definition demo_redis :: "(string \<Rightarrow> int) redis" where
  "demo_redis = \<lparr>rs_incr = (\<lambda>k s. (Inr (s k + 1), s(k := s k + 1))), rs_pexpire = (\<lambda>k ms s. (Inr (), s)), rs_pttl = (\<lambda>k s. (Inr 5, s))\<rparr>"

theorem redis_limit_enforced_witness:
  "\<exists>l s'. serve (redis_decide demo_redis 1 10) (redis_slot 10)
     [((1, 1), ''a''), ((2, 2), ''a'')] (\<lambda>_. 0) = (l, s') \<and> admitted (''a'', 0) l = min (asked (''a'', 0) l) 1"
proof -
  obtain l s' where run: "serve (redis_decide demo_redis 1 10) (redis_slot 10)
     [((1, 1), ''a''), ((2, 2), ''a'')] (\<lambda>_. 0) = (l, s')" by fastforce
  have "redis_counts demo_redis (\<lambda>s. s)" by (simp add: redis_counts_def demo_redis_def)
  from redis_limit_enforced[OF this _ run] run show ?thesis by simp
qed

end
