(* ===== verification/Csv.thy ===== *)
theory Csv
  imports Json
begin

text \<open>
  \<^verbatim>\<open>src/reporting/csv.ts\<close>: the RFC 4180 export of orders and refunds, with a reader for the format as the
  reference it is measured against: reading the export gives back every cell.
\<close>

section \<open>Writing\<close>

text \<open>A cell is a value that may be \<open>undefined\<close>.\<close>

fun stringifyCell :: "json option \<Rightarrow> string" where
  "stringifyCell None = []"
| "stringifyCell (Some JNull) = []"
| "stringifyCell (Some (JStr s)) = s"
| "stringifyCell (Some (JNum i)) = string_of_int i"
| "stringifyCell (Some (JReal x)) = num_text x"
| "stringifyCell (Some (JBool b)) = (if b then ''true'' else ''false'')"
| "stringifyCell (Some (JArr xs)) = json_text (JArr xs)"
| "stringifyCell (Some (JObj ps)) = json_text (JObj ps)"

definition csv_special :: "char \<Rightarrow> bool" where
  "csv_special c = (c = CHR 0x22 \<or> c = CHR '','' \<or> c = CHR 0x0D \<or> c = CHR 0x0A)"

definition escapeCell :: "json option \<Rightarrow> string" where
  "escapeCell value =
     (let s = stringifyCell value
      in if list_ex csv_special s
         then [CHR 0x22] @ concat (map (\<lambda>c. if c = CHR 0x22 then [CHR 0x22, CHR 0x22] else [c]) s) @ [CHR 0x22]
         else s)"

definition CRLF :: string where
  "CRLF = [CHR 0x0D, CHR 0x0A]"

type_synonym csv_row = "(string, json) jsmap"

definition toCsv :: "csv_row list \<Rightarrow> string list \<Rightarrow> string" where
  "toCsv rows columns =
     (let lines = join_with '','' (map (\<lambda>c. escapeCell (Some (JStr c))) columns) #
            map (\<lambda>row. join_with '','' (map (\<lambda>col. escapeCell (jm_get row col)) columns)) rows
      in concat (map (\<lambda>line. line @ CRLF) lines))"

definition ORDER_COLUMNS :: "string list" where
  "ORDER_COLUMNS = [''id'', ''outTradeNo'', ''userId'', ''planId'', ''method'', ''currency'', ''amount'', ''status'',
     ''refundedAmount'', ''providerTxnId'', ''createdAt'', ''paidAt'', ''expiresAt'']"

definition REFUND_COLUMNS :: "string list" where
  "REFUND_COLUMNS = [''id'', ''orderId'', ''outRefundNo'', ''amount'', ''currency'', ''status'', ''providerRefundId'', ''createdAt'']"

definition order_row :: "order \<Rightarrow> csv_row" where
  "order_row ord =
     [(''id'', JStr (o_id ord)), (''outTradeNo'', JStr (o_outTradeNo ord)), (''userId'', JStr (o_userId ord)),
      (''planId'', JStr (o_planId ord)), (''method'', JStr (method_name (o_method ord))),
      (''currency'', JStr (currency_name (o_currency ord))), (''amount'', JNum (o_amount ord)),
      (''status'', JStr (order_status_name (o_status ord))), (''refundedAmount'', JNum (refunded ord))] @
     opt_field ''providerTxnId'' JStr (o_providerTxnId ord) @
     [(''createdAt'', JNum (o_createdAt ord))] @ opt_field ''paidAt'' JNum (o_paidAt ord) @
     [(''expiresAt'', JNum (o_expiresAt ord))]"

definition ordersToCsv :: "order list \<Rightarrow> string" where
  "ordersToCsv orders = toCsv (map order_row orders) ORDER_COLUMNS"

definition refund_row :: "refund \<Rightarrow> csv_row" where
  "refund_row r =
     [(''id'', JStr (r_id r)), (''orderId'', JStr (r_orderId r)), (''outRefundNo'', JStr (r_outRefundNo r)),
      (''amount'', JNum (r_amount r)), (''currency'', JStr (currency_name (r_currency r))),
      (''status'', JStr (refund_status_name (r_status r)))] @
     opt_field ''providerRefundId'' JStr (r_providerRefundId r) @ [(''createdAt'', JNum (r_createdAt r))]"

definition refundsToCsv :: "refund list \<Rightarrow> string" where
  "refundsToCsv refunds = toCsv (map refund_row refunds) REFUND_COLUMNS"

section \<open>Reading\<close>

text \<open>
  A reader for RFC 4180: at the start of a field, in a plain field, in a quoted field, or after a quote in
  one. It keeps the field and the record it is in; \<open>None\<close> is a text that is not well formed.
\<close>

datatype csv_state = At_start | In_plain | In_quoted | After_quote

fun csv_read :: "csv_state \<Rightarrow> string \<Rightarrow> string list \<Rightarrow> string \<Rightarrow> string list list option" where
  "csv_read At_start fld rec [] = (if fld = [] \<and> rec = [] then Some [] else None)"
| "csv_read _ fld rec [] = None"
| "csv_read In_quoted fld rec (c # cs) =
     (if c = CHR 0x22 then csv_read After_quote fld rec cs else csv_read In_quoted (fld @ [c]) rec cs)"
| "csv_read st fld rec (c # cs) =
     (if c = CHR '','' then csv_read At_start [] (rec @ [fld]) cs
      else if c = CHR 0x0D then
        (case cs of d # ds \<Rightarrow> if d = CHR 0x0A then map_option (\<lambda>rs. (rec @ [fld]) # rs) (csv_read At_start [] [] ds) else None | [] \<Rightarrow> None)
      else if c = CHR 0x22 then
        (if st = At_start then csv_read In_quoted [] rec cs
         else if st = After_quote then csv_read In_quoted (fld @ [c]) rec cs else None)
      else if c = CHR 0x0A \<or> st = After_quote then None
      else csv_read In_plain (fld @ [c]) rec cs)"

definition csv_parse :: "string \<Rightarrow> string list list option" where
  "csv_parse s = csv_read At_start [] [] s"

section \<open>Reading what was written\<close>

text \<open>A cell ends with a comma or with the end of its line.\<close>

definition cell_end :: "string \<Rightarrow> string list \<Rightarrow> string \<Rightarrow> string list list option" where
  "cell_end fld rec cs =
     (case cs of
        c # ds \<Rightarrow>
          if c = CHR '','' then csv_read At_start [] (rec @ [fld]) ds
          else map_option (\<lambda>rs. (rec @ [fld]) # rs) (csv_read At_start [] [] (tl ds))
      | [] \<Rightarrow> None)"

definition ends_cell :: "string \<Rightarrow> bool" where
  "ends_cell cs \<longleftrightarrow> (\<exists>ds. cs = CHR '','' # ds \<or> cs = CRLF @ ds)"

lemma ends_cell_simps [simp]: "ends_cell (CHR '','' # ds)" "ends_cell (CRLF @ ds)"
  unfolding ends_cell_def by blast+

lemma read_end:
  "ends_cell cs \<Longrightarrow> st \<noteq> In_quoted \<Longrightarrow> csv_read st fld rec cs = cell_end fld rec cs"
  by (cases st) (auto simp: ends_cell_def cell_end_def CRLF_def)

lemma read_plain:
  "\<not> list_ex csv_special s \<Longrightarrow> ends_cell cs \<Longrightarrow> st = At_start \<or> st = In_plain \<Longrightarrow>
     csv_read st fld rec (s @ cs) = cell_end (fld @ s) rec cs"
proof (induction s arbitrary: st fld)
  case Nil
  then show ?case using read_end[of cs st fld rec] by auto
next
  case (Cons c s)
  then have "csv_read st fld rec ((c # s) @ cs) = csv_read In_plain (fld @ [c]) rec (s @ cs)"
    by (auto simp: csv_special_def)
  then show ?case using Cons by simp
qed

lemma read_quoted:
  "csv_read In_quoted fld rec (concat (map (\<lambda>c. if c = CHR 0x22 then [CHR 0x22, CHR 0x22] else [c]) s) @ CHR 0x22 # cs) =
     csv_read After_quote (fld @ s) rec cs"
  by (induction s arbitrary: fld) auto

lemma read_cell:
  assumes "ends_cell cs"
  shows "csv_read At_start [] rec (escapeCell v @ cs) = cell_end (stringifyCell v) rec cs"
proof (cases "list_ex csv_special (stringifyCell v)")
  case True
  have "csv_read At_start [] rec (escapeCell v @ cs) =
      csv_read In_quoted [] rec (concat (map (\<lambda>c. if c = CHR 0x22 then [CHR 0x22, CHR 0x22] else [c]) (stringifyCell v)) @ CHR 0x22 # cs)"
    using True by (simp add: escapeCell_def Let_def)
  also have "\<dots> = cell_end (stringifyCell v) rec cs"
    using read_quoted[of "[]" rec "stringifyCell v" cs] read_end[OF assms, of After_quote] by simp
  finally show ?thesis .
next
  case False
  then show ?thesis using read_plain[OF False assms, of At_start "[]"] by (simp add: escapeCell_def Let_def)
qed

lemma read_line:
  "vs \<noteq> [] \<Longrightarrow> csv_read At_start [] rec (join_with '','' (map escapeCell vs) @ CRLF @ cs) =
     map_option (\<lambda>rs. (rec @ map stringifyCell vs) # rs) (csv_read At_start [] [] cs)"
proof (induction vs arbitrary: rec)
  case (Cons v vs)
  show ?case
  proof (cases vs)
    case Nil
    have "ends_cell (CRLF @ cs)" by (auto simp: ends_cell_def)
    from read_cell[OF this, of rec v] show ?thesis using Nil by (simp add: cell_end_def CRLF_def)
  next
    case (Cons u us)
    then have "join_with '','' (map escapeCell (v # vs)) @ CRLF @ cs =
        escapeCell v @ CHR '','' # (join_with '','' (map escapeCell vs) @ CRLF @ cs)" by simp
    moreover have "ends_cell (CHR '','' # (join_with '','' (map escapeCell vs) @ CRLF @ cs))" by (rule ends_cell_simps)
    ultimately have "csv_read At_start [] rec (join_with '','' (map escapeCell (v # vs)) @ CRLF @ cs) =
        csv_read At_start [] (rec @ [stringifyCell v]) (join_with '','' (map escapeCell vs) @ CRLF @ cs)"
      using read_cell[of "CHR '','' # (join_with '','' (map escapeCell vs) @ CRLF @ cs)" rec v] by (simp add: cell_end_def)
    then show ?thesis using Cons.IH[of "rec @ [stringifyCell v]"] Cons by simp
  qed
qed simp

lemma read_lines:
  "\<forall>l \<in> set lines. l \<noteq> [] \<Longrightarrow>
     csv_parse (concat (map (\<lambda>vs. join_with '','' (map escapeCell vs) @ CRLF) lines)) = Some (map (map stringifyCell) lines)"
  unfolding csv_parse_def
proof (induction lines)
  case (Cons l lines)
  then have "l \<noteq> []" by simp
  from read_line[OF this, of "[]"] Cons show ?case by simp
qed simp

lemma toCsv_reads:
  assumes "columns \<noteq> []"
  shows "csv_parse (toCsv rows columns) = Some (columns # map (\<lambda>row. map (\<lambda>col. stringifyCell (jm_get row col)) columns) rows)"
proof -
  let ?lines = "map (\<lambda>c. Some (JStr c)) columns # map (\<lambda>row. map (jm_get row) columns) rows"
  have "toCsv rows columns = concat (map (\<lambda>vs. join_with '','' (map escapeCell vs) @ CRLF) ?lines)"
    by (simp add: toCsv_def comp_def)
  moreover have "\<forall>l \<in> set ?lines. l \<noteq> []" using assms by simp
  ultimately have "csv_parse (toCsv rows columns) = Some (map (map stringifyCell) ?lines)" using read_lines by presburger
  then show ?thesis by (simp add: comp_def)
qed

text \<open>
  The export can be read back. Whatever the cells contain - commas, quotes, line breaks - reading
  the written table as RFC 4180 says yields the column names and, for every row in order, the text of every
  cell in column order.
\<close>

theorem csv_roundtrip:
  assumes "columns \<noteq> []"
  shows "csv_parse (toCsv rows columns) = Some (columns # map (\<lambda>row. map (\<lambda>col. stringifyCell (jm_get row col)) columns) rows)"
  by (rule toCsv_reads[OF assms])

theorem csv_roundtrip_witness:
  "csv_parse (toCsv [[(''a'', JStr [CHR 0x22, CHR '','']), (''b'', JNum (- 7))]] [''a'', ''b'']) =
     Some [[''a'', ''b''], [[CHR 0x22, CHR '',''], ''-7'']]"
  using csv_roundtrip[of "[''a'', ''b'']"] by (simp add: string_of_int_def nat_digits.simps digit_char_def) code_simp

text \<open>
  The order export loses no amount. From the text of an export one reads back, for every order in
  order, its id, its amount and its refunded amount, whatever the ids and references contain.
\<close>

theorem orders_csv_amounts:
  "\<exists>lines. csv_parse (ordersToCsv orders) = Some (ORDER_COLUMNS # lines) \<and>
     map (\<lambda>l. (l ! 0, int_of_string (l ! 6), l ! 7, int_of_string (l ! 8))) lines =
       map (\<lambda>ord. (o_id ord, Some (o_amount ord), order_status_name (o_status ord), Some (refunded ord))) orders"
proof -
  have row: "map (\<lambda>col. stringifyCell (jm_get (order_row ord) col)) ORDER_COLUMNS =
      [o_id ord, o_outTradeNo ord, o_userId ord, o_planId ord, method_name (o_method ord), currency_name (o_currency ord),
       string_of_int (o_amount ord), order_status_name (o_status ord), string_of_int (refunded ord),
       (case o_providerTxnId ord of None \<Rightarrow> [] | Some t \<Rightarrow> t), string_of_int (o_createdAt ord),
       (case o_paidAt ord of None \<Rightarrow> [] | Some t \<Rightarrow> string_of_int t), string_of_int (o_expiresAt ord)]" for ord
    by (simp add: ORDER_COLUMNS_def order_row_def opt_field_def split: option.split)
  have "ORDER_COLUMNS \<noteq> []" by (simp add: ORDER_COLUMNS_def)
  from toCsv_reads[OF this, of "map order_row orders"] show ?thesis
    unfolding ordersToCsv_def by (intro exI conjI) (assumption, simp add: row comp_def)
qed

end
