(* ===== verification/Metrics.thy ===== *)
theory Metrics
  imports Json DepositStores
begin

text \<open>
  \<^verbatim>\<open>src/observability/metrics.ts\<close> and \<^verbatim>\<open>src/observability/sweepMetrics.ts\<close>: counters, gauges and histograms
  with labelled series, the text exposition, and the gauges of the sweep pipeline. Values are integers, the
  only ones the program records. A registered metric is named by its place in the registry.
\<close>

section \<open>Series\<close>

type_synonym labels = "(string, string) jsmap"

definition label_value :: "labels \<Rightarrow> string \<Rightarrow> string" where
  "label_value labels n = (case jm_get labels n of None \<Rightarrow> [] | Some v \<Rightarrow> v)"

text \<open>The three replacements in their order: backslash, line feed, quote.\<close>

definition replace_char :: "char \<Rightarrow> string \<Rightarrow> string \<Rightarrow> string" where
  "replace_char c r s = concat (map (\<lambda>x. if x = c then r else [x]) s)"

definition escapeLabelValue :: "string \<Rightarrow> string" where
  "escapeLabelValue v =
     replace_char CHR 0x22 [CHR 0x5C, CHR 0x22] (replace_char CHR 0x0A [CHR 0x5C, CHR ''n''] (replace_char CHR 0x5C [CHR 0x5C, CHR 0x5C] v))"

definition seriesKey :: "string list \<Rightarrow> labels \<Rightarrow> string" where
  "seriesKey labelNames labels = join_with ''|'' (map (\<lambda>n. n @ ''='' @ label_value labels n) labelNames)"

definition renderLabels :: "string list \<Rightarrow> labels \<Rightarrow> (string \<times> string) option \<Rightarrow> string" where
  "renderLabels labelNames labels extra =
     (let quoted = (\<lambda>n v. n @ ''='' @ [CHR 0x22] @ escapeLabelValue v @ [CHR 0x22]);
          parts = map (\<lambda>n. quoted n (label_value labels n)) labelNames @ (case extra of None \<Rightarrow> [] | Some (n, v) \<Rightarrow> [quoted n v])
      in if parts \<noteq> [] then ''{'' @ join_with '','' parts @ ''}'' else [])"

section \<open>Counters and gauges\<close>

record metric =
  mc_name :: string
  mc_help :: string
  mc_labelNames :: "string list"
  mc_series :: "(string, labels \<times> int) jsmap"

definition new_metric :: "string \<Rightarrow> string \<Rightarrow> string list \<Rightarrow> metric" where
  "new_metric name help labelNames = \<lparr>mc_name = name, mc_help = help, mc_labelNames = labelNames, mc_series = []\<rparr>"

definition counter_inc :: "labels \<Rightarrow> int \<Rightarrow> metric \<Rightarrow> metric" where
  "counter_inc labels value c =
     (let key = seriesKey (mc_labelNames c) labels
      in case jm_get (mc_series c) key of
           Some (l, v) \<Rightarrow> c\<lparr>mc_series := jm_set key (l, v + value) (mc_series c)\<rparr>
         | None \<Rightarrow> c\<lparr>mc_series := jm_set key (labels, value) (mc_series c)\<rparr>)"

definition gauge_set :: "labels \<Rightarrow> int \<Rightarrow> metric \<Rightarrow> metric" where
  "gauge_set labels value g = g\<lparr>mc_series := jm_set (seriesKey (mc_labelNames g) labels) (labels, value) (mc_series g)\<rparr>"

definition gauge_reset :: "metric \<Rightarrow> metric" where
  "gauge_reset g = g\<lparr>mc_series := []\<rparr>"

definition metric_render :: "string \<Rightarrow> metric \<Rightarrow> string" where
  "metric_render kind m =
     join_with [CHR 0x0A]
       ([''# HELP '' @ mc_name m @ '' '' @ mc_help m, ''# TYPE '' @ mc_name m @ '' '' @ kind] @
        map (\<lambda>(labels, value). mc_name m @ renderLabels (mc_labelNames m) labels None @ '' '' @ string_of_int value)
          (jm_values (mc_series m)))"

definition counter_render :: "metric \<Rightarrow> string" where
  "counter_render = metric_render ''counter''"

definition gauge_render :: "metric \<Rightarrow> string" where
  "gauge_render = metric_render ''gauge''"

section \<open>Histograms\<close>

definition DEFAULT_BUCKETS :: "int list" where
  "DEFAULT_BUCKETS = [5, 10, 25, 50, 100, 250, 500, 1000, 2500, 5000]"

record hist_series =
  hs_labels :: labels
  hs_counts :: "int list"
  hs_sum :: int
  hs_count :: int

record histogram =
  hg_name :: string
  hg_help :: string
  hg_labelNames :: "string list"
  hg_buckets :: "int list"
  hg_series :: "(string, hist_series) jsmap"

definition new_histogram :: "string \<Rightarrow> string \<Rightarrow> string list \<Rightarrow> int list \<Rightarrow> histogram" where
  "new_histogram name help labelNames buckets =
     \<lparr>hg_name = name, hg_help = help, hg_labelNames = labelNames, hg_buckets = buckets, hg_series = []\<rparr>"

definition hist_observe :: "labels \<Rightarrow> int \<Rightarrow> histogram \<Rightarrow> histogram" where
  "hist_observe labels value h =
     (let key = seriesKey (hg_labelNames h) labels;
          s = (case jm_get (hg_series h) key of
                 None \<Rightarrow> \<lparr>hs_labels = labels, hs_counts = replicate (length (hg_buckets h)) 0, hs_sum = 0, hs_count = 0\<rparr>
               | Some s \<Rightarrow> s);
          s1 = s\<lparr>hs_sum := hs_sum s + value, hs_count := hs_count s + 1,
                 hs_counts := map2 (\<lambda>b n. if value \<le> b then n + 1 else n) (hg_buckets h) (hs_counts s)\<rparr>
      in h\<lparr>hg_series := jm_set key s1 (hg_series h)\<rparr>)"

definition hist_lines :: "histogram \<Rightarrow> hist_series \<Rightarrow> string list" where
  "hist_lines h s =
     map2 (\<lambda>b n. hg_name h @ ''_bucket'' @ renderLabels (hg_labelNames h) (hs_labels s) (Some (''le'', string_of_int b)) @ '' '' @ string_of_int n)
       (hg_buckets h) (hs_counts s) @
     [hg_name h @ ''_bucket'' @ renderLabels (hg_labelNames h) (hs_labels s) (Some (''le'', ''+Inf'')) @ '' '' @ string_of_int (hs_count s),
      hg_name h @ ''_sum'' @ renderLabels (hg_labelNames h) (hs_labels s) None @ '' '' @ string_of_int (hs_sum s),
      hg_name h @ ''_count'' @ renderLabels (hg_labelNames h) (hs_labels s) None @ '' '' @ string_of_int (hs_count s)]"

definition hist_render :: "histogram \<Rightarrow> string" where
  "hist_render h =
     join_with [CHR 0x0A]
       ([''# HELP '' @ hg_name h @ '' '' @ hg_help h, ''# TYPE '' @ hg_name h @ '' histogram''] @
        concat (map (hist_lines h) (jm_values (hg_series h))))"

section \<open>The registry\<close>

record metrics =
  mx_counters :: "metric list"
  mx_gauges :: "metric list"
  mx_histograms :: "histogram list"

definition empty_metrics :: metrics where
  "empty_metrics = \<lparr>mx_counters = [], mx_gauges = [], mx_histograms = []\<rparr>"

definition add_counter :: "metric \<Rightarrow> metrics \<Rightarrow> nat \<times> metrics" where
  "add_counter c mx = (length (mx_counters mx), mx\<lparr>mx_counters := mx_counters mx @ [c]\<rparr>)"

definition add_gauge :: "metric \<Rightarrow> metrics \<Rightarrow> nat \<times> metrics" where
  "add_gauge g mx = (length (mx_gauges mx), mx\<lparr>mx_gauges := mx_gauges mx @ [g]\<rparr>)"

definition add_histogram :: "histogram \<Rightarrow> metrics \<Rightarrow> nat \<times> metrics" where
  "add_histogram h mx = (length (mx_histograms mx), mx\<lparr>mx_histograms := mx_histograms mx @ [h]\<rparr>)"

text \<open>A collector is a function of the registry, run at every scrape before the text is made.\<close>

definition metrics_render :: "(metrics \<Rightarrow> metrics) list \<Rightarrow> metrics \<Rightarrow> string \<times> metrics" where
  "metrics_render collectors mx =
     (let mx1 = foldl (\<lambda>m c. c m) mx collectors
      in (join_with [CHR 0x0A, CHR 0x0A]
            (map counter_render (mx_counters mx1) @ map gauge_render (mx_gauges mx1) @ map hist_render (mx_histograms mx1)) @ [CHR 0x0A],
          mx1))"

definition on_gauge :: "nat \<Rightarrow> (metric \<Rightarrow> metric) \<Rightarrow> metrics \<Rightarrow> metrics" where
  "on_gauge i f mx = mx\<lparr>mx_gauges := (mx_gauges mx)[i := f (mx_gauges mx ! i)]\<rparr>"

section \<open>The gauges of the sweep pipeline\<close>

fun sweep_status_value :: "sweep_status \<Rightarrow> string" where
  "sweep_status_value S_PENDING = ''PENDING''"
| "sweep_status_value S_GAS_FUELING = ''GAS_FUELING''"
| "sweep_status_value S_SWEEPING = ''SWEEPING''"
| "sweep_status_value S_SWEPT = ''SWEPT''"
| "sweep_status_value S_EMPTY = ''EMPTY''"
| "sweep_status_value S_FAILED = ''FAILED''"

definition sweep_statuses :: "sweep_status list" where
  "sweep_statuses = [S_PENDING, S_GAS_FUELING, S_SWEEPING, S_SWEPT, S_EMPTY, S_FAILED]"

record sweep_gauges =
  sg_jobs :: nat
  sg_pending :: nat
  sg_failed :: nat
  sg_amount :: nat
  sg_fee :: nat

definition register_sweep_gauges :: "metrics \<Rightarrow> sweep_gauges \<times> metrics" where
  "register_sweep_gauges mx =
     (let (a, m1) = add_gauge (new_metric ''vpn_sweep_jobs'' ''Sweep job count by status'' [''status'']) mx;
          (b, m2) = add_gauge (new_metric ''vpn_sweep_pending'' ''Non-terminal (pending) sweep jobs'' []) m1;
          (c, m3) = add_gauge (new_metric ''vpn_sweep_failed'' ''Failed sweep jobs'' []) m2;
          (d, m4) = add_gauge (new_metric ''vpn_sweep_amount_micro_total'' ''Total swept amount in micro-USDT (jobs in SWEPT status)'' []) m3;
          (f, m5) = add_gauge (new_metric ''vpn_fee_wallet_trx_sun'' ''Fee-wallet TRX balance in sun'' []) m4
      in (\<lparr>sg_jobs = a, sg_pending = b, sg_failed = c, sg_amount = d, sg_fee = f\<rparr>, m5))"

record sweep_counts =
  sc_counts :: "(sweep_status, int) jsmap"
  sc_pending :: int
  sc_failed :: int
  sc_swept :: int

definition count_job :: "sweep_counts \<Rightarrow> sweep_job \<Rightarrow> sweep_counts" where
  "count_job s job =
     (let st = j_status job in
      \<lparr>sc_counts = jm_set st ((case jm_get (sc_counts s) st of None \<Rightarrow> 0 | Some n \<Rightarrow> n) + 1) (sc_counts s),
       sc_pending = (if \<not> isSweepTerminal st then sc_pending s + 1 else sc_pending s),
       sc_failed = (if st = S_FAILED then sc_failed s + 1 else sc_failed s),
       sc_swept = (if st = S_SWEPT then sc_swept s + j_amountMicro job else sc_swept s)\<rparr>)"

text \<open>
  The collector: \<open>jobs\<close> is what the repository answers, \<open>fee\<close> what the balance probe answers when there is
  one (\<open>undefined\<close> is \<open>Inr None\<close>). A failure of either leaves its gauges as they were.
\<close>

definition sweep_collector :: "sweep_gauges \<Rightarrow> sweep_job list result \<Rightarrow> int option result option \<Rightarrow> metrics \<Rightarrow> metrics" where
  "sweep_collector g jobs fee mx =
     (let mx1 = (case jobs of
            Inl err \<Rightarrow> mx
          | Inr js \<Rightarrow>
              let s = foldl count_job \<lparr>sc_counts = map (\<lambda>st. (st, 0)) sweep_statuses, sc_pending = 0, sc_failed = 0, sc_swept = 0\<rparr> js;
                  m1 = on_gauge (sg_jobs g) (\<lambda>x. foldl (\<lambda>x st. gauge_set [(''status'', sweep_status_value st)] (the (jm_get (sc_counts s) st)) x)
                         (gauge_reset x) sweep_statuses) mx;
                  m2 = on_gauge (sg_pending g) (gauge_set [] (sc_pending s)) m1;
                  m3 = on_gauge (sg_failed g) (gauge_set [] (sc_failed s)) m2
              in on_gauge (sg_amount g) (gauge_set [] (sc_swept s)) m3)
      in (case fee of
            Some (Inr (Some sun)) \<Rightarrow> on_gauge (sg_fee g) (gauge_set [] sun) mx1
          | _ \<Rightarrow> mx1))"

section \<open>What a histogram and a counter hold\<close>

text \<open>The values observed under the series of a label set, oldest first.\<close>

definition observed :: "string list \<Rightarrow> labels \<Rightarrow> (labels \<times> int) list \<Rightarrow> int list" where
  "observed names l obs = map snd (filter (\<lambda>x. seriesKey names (fst x) = seriesKey names l) obs)"

definition observe_all :: "(labels \<times> int) list \<Rightarrow> histogram \<Rightarrow> histogram" where
  "observe_all obs h = foldl (\<lambda>h (l, v). hist_observe l v h) h obs"

definition below :: "int list \<Rightarrow> int \<Rightarrow> int" where
  "below vs b = int (length (filter (\<lambda>v. v \<le> b) vs))"

lemma observe_all_snoc: "observe_all (obs @ [(l, v)]) h = hist_observe l v (observe_all obs h)"
  by (simp add: observe_all_def)

lemma observe_all_fields [simp]:
  "hg_labelNames (observe_all obs h) = hg_labelNames h" "hg_buckets (observe_all obs h) = hg_buckets h"
  by (induction obs rule: rev_induct) (auto simp: observe_all_snoc hist_observe_def Let_def observe_all_def)

lemma observed_snoc [simp]:
  "observed names l (obs @ [(k, v)]) = observed names l obs @ (if seriesKey names k = seriesKey names l then [v] else [])"
  by (simp add: observed_def)

lemma below_snoc [simp]: "below (vs @ [v]) b = (if v \<le> b then below vs b + 1 else below vs b)"
  by (simp add: below_def)

lemma hist_get_observe:
  "jm_get (hg_series (hist_observe k v h)) key =
     (if key = seriesKey (hg_labelNames h) k then
        (let s = (case jm_get (hg_series h) key of
                 None \<Rightarrow> \<lparr>hs_labels = k, hs_counts = replicate (length (hg_buckets h)) 0, hs_sum = 0, hs_count = 0\<rparr>
               | Some s \<Rightarrow> s)
         in Some (s\<lparr>hs_sum := hs_sum s + v, hs_count := hs_count s + 1,
                 hs_counts := map2 (\<lambda>b n. if v \<le> b then n + 1 else n) (hg_buckets h) (hs_counts s)\<rparr>))
      else jm_get (hg_series h) key)"
  by (simp add: hist_observe_def Let_def)

lemma map2_map: "map2 f bs (map g bs) = map (\<lambda>b. f b (g b)) bs"
  by (induction bs) auto

lemma replicate_map: "replicate (length bs) (0::int) = map (below []) bs"
  by (induction bs) (simp_all add: below_def)

lemma histogram_series:
  fixes h obs l
  defines "names \<equiv> hg_labelNames h" and "vs \<equiv> observed (hg_labelNames h) l obs"
  assumes "hg_series h = []"
  shows "case jm_get (hg_series (observe_all obs h)) (seriesKey names l) of
      None \<Rightarrow> vs = []
    | Some s \<Rightarrow> vs \<noteq> [] \<and> hs_counts s = map (below vs) (hg_buckets h) \<and> hs_sum s = sum_list vs \<and> hs_count s = int (length vs)"
  unfolding names_def vs_def
proof (induction obs rule: rev_induct)
  case Nil
  then show ?case using assms(3) by (simp add: observe_all_def observed_def)
next
  case (snoc x obs)
  obtain k v where x: "x = (k, v)" by fastforce
  show ?case
  proof (cases "seriesKey (hg_labelNames h) k = seriesKey (hg_labelNames h) l")
    case False
    then have "seriesKey (hg_labelNames h) l \<noteq> seriesKey (hg_labelNames h) k" by simp
    with False show ?thesis using snoc by (simp add: x observe_all_snoc hist_get_observe split: option.splits)
  next
    case True
    show ?thesis
    proof (cases "jm_get (hg_series (observe_all obs h)) (seriesKey (hg_labelNames h) l)")
      case None
      then have "observed (hg_labelNames h) l obs = []" using snoc by simp
      then show ?thesis using True None
        by (simp add: x observe_all_snoc hist_get_observe Let_def replicate_map map2_map below_def)
    next
      case (Some s)
      then show ?thesis using True snoc
        by (simp add: x observe_all_snoc hist_get_observe Let_def map2_map)
    qed
  qed
qed

text \<open>
  A histogram's series is the cumulative distribution of what was observed. After any sequence of
  observations, the series of a label set exists as soon as one value was observed under it; its count and sum
  are those of the values, every bucket counts the values up to its bound, and along increasing bounds the
  buckets never decrease nor exceed the count.
\<close>

theorem histogram_exact:
  assumes "hg_series h = []" "vs = observed (hg_labelNames h) l obs" "vs \<noteq> []"
  shows "\<exists>s. jm_get (hg_series (observe_all obs h)) (seriesKey (hg_labelNames h) l) = Some s \<and>
    hs_count s = int (length vs) \<and> hs_sum s = sum_list vs \<and> length (hs_counts s) = length (hg_buckets h) \<and>
    (\<forall>i < length (hg_buckets h). hs_counts s ! i = int (length (filter (\<lambda>v. v \<le> hg_buckets h ! i) vs)) \<and> hs_counts s ! i \<le> hs_count s) \<and>
    (sorted (hg_buckets h) \<longrightarrow> sorted (hs_counts s))"
proof -
  obtain s where s: "jm_get (hg_series (observe_all obs h)) (seriesKey (hg_labelNames h) l) = Some s"
    and f: "hs_counts s = map (below vs) (hg_buckets h)" "hs_sum s = sum_list vs" "hs_count s = int (length vs)"
    using histogram_series[OF assms(1), where obs = obs and l = l] assms(2,3) by (auto split: option.splits)
  have mono: "below vs a \<le> below vs b" if "a \<le> b" for a b
  proof -
    have "filter (\<lambda>v. v \<le> a) vs = filter (\<lambda>v. v \<le> a) (filter (\<lambda>v. v \<le> b) vs)" using that by (auto simp: filter_filter intro: filter_cong)
    then show ?thesis using length_filter_le[of "\<lambda>v. v \<le> a" "filter (\<lambda>v. v \<le> b) vs"] by (simp add: below_def)
  qed
  have "sorted (hs_counts s)" if "sorted (hg_buckets h)"
    using that mono unfolding f by (simp add: sorted_iff_nth_mono)
  then show ?thesis using s f by (auto simp: below_def)
qed

section \<open>Label values that collide\<close>

text \<open>Label sets without a bar have their own series.\<close>

lemma seriesKey_inj:
  assumes "\<forall>n \<in> set names. CHR ''|'' \<notin> set n \<and> CHR ''|'' \<notin> set (label_value a n) \<and> CHR ''|'' \<notin> set (label_value b n)"
    and "seriesKey names a = seriesKey names b" "n \<in> set names"
  shows "label_value a n = label_value b n"
proof -
  let ?f = "\<lambda>l n. n @ ''='' @ label_value l n"
  have ne: "map (?f a) names \<noteq> []" "map (?f b) names \<noteq> []" using assms(3) by auto
  have "split_on CHR ''|'' (join_with ''|'' (map (?f a) names)) = map (?f a) names"
    "split_on CHR ''|'' (join_with ''|'' (map (?f b) names)) = map (?f b) names"
    by (rule split_on_join; use ne assms(1) in auto)+
  then have "map (?f a) names = map (?f b) names" using assms(2) unfolding seriesKey_def by metis
  then show ?thesis using assms(3) by (auto simp: map_eq_conv)
qed

text \<open>
  Series keys are not injective. With two labels, values that contain a bar and an equals sign
  make two different label sets share one series, whose counts are then added up under the labels that came first.
\<close>

theorem metrics_label_collision:
  "let a = [(''x'', ''1|y=2''), (''y'', ''3'')]; b = [(''x'', ''1''), (''y'', ''2|y=3'')];
       c = counter_inc b 1 (counter_inc a 1 (new_metric ''m'' ''h'' [''x'', ''y'']))
   in label_value a ''x'' \<noteq> label_value b ''x'' \<and> length (mc_series c) = 1 \<and> jm_values (mc_series c) = [(a, 2)]"
  by (simp add: Let_def label_value_def counter_inc_def new_metric_def seriesKey_def)

section \<open>The sweep gauges are current\<close>

text \<open>The value a gauge shows for a label set, and the registry as \<open>registerSweepMetrics\<close> leaves it.\<close>

definition gauge_value :: "metrics \<Rightarrow> nat \<Rightarrow> labels \<Rightarrow> int option" where
  "gauge_value mx i l =
     (let g = mx_gauges mx ! i in map_option snd (jm_get (mc_series g) (seriesKey (mc_labelNames g) l)))"

definition sweep_handles :: "sweep_gauges \<Rightarrow> nat list" where
  "sweep_handles g = [sg_jobs g, sg_pending g, sg_failed g, sg_amount g, sg_fee g]"

definition sweep_registered :: "sweep_gauges \<Rightarrow> metrics \<Rightarrow> bool" where
  "sweep_registered g mx \<longleftrightarrow> distinct (sweep_handles g) \<and> (\<forall>i \<in> set (sweep_handles g). i < length (mx_gauges mx)) \<and>
     mc_labelNames (mx_gauges mx ! sg_jobs g) = [''status''] \<and>
     (\<forall>i \<in> set (tl (sweep_handles g)). mc_labelNames (mx_gauges mx ! i) = [])"

lemma register_registers: "register_sweep_gauges mx = (g, mx') \<Longrightarrow> sweep_registered g mx'"
  by (auto simp: register_sweep_gauges_def add_gauge_def Let_def sweep_registered_def sweep_handles_def nth_append new_metric_def)

lemma on_gauge_simps:
  "length (mx_gauges (on_gauge i f mx)) = length (mx_gauges mx)"
  "j < length (mx_gauges mx) \<Longrightarrow> mx_gauges (on_gauge i f mx) ! j = (if i = j then f (mx_gauges mx ! j) else mx_gauges mx ! j)"
  by (auto simp: on_gauge_def nth_list_update)

lemma gauge_set_simps [simp]:
  "mc_labelNames (gauge_set l v g) = mc_labelNames g" "mc_labelNames (gauge_reset g) = mc_labelNames g"
  "mc_series (gauge_set l v g) = jm_set (seriesKey (mc_labelNames g) l) (l, v) (mc_series g)" "mc_series (gauge_reset g) = []"
  by (simp_all add: gauge_set_def gauge_reset_def)

definition tally :: "sweep_job list \<Rightarrow> sweep_counts" where
  "tally js = foldl count_job \<lparr>sc_counts = map (\<lambda>st. (st, 0)) sweep_statuses, sc_pending = 0, sc_failed = 0, sc_swept = 0\<rparr> js"

lemma tally_exact:
  "jm_get (sc_counts (tally js)) st = Some (int (length (filter (\<lambda>j. j_status j = st) js)))"
  "sc_pending (tally js) = int (length (filter (\<lambda>j. \<not> isSweepTerminal (j_status j)) js))"
  "sc_failed (tally js) = int (length (filter (\<lambda>j. j_status j = S_FAILED) js))"
  "sc_swept (tally js) = sum_list (map j_amountMicro (filter (\<lambda>j. j_status j = S_SWEPT) js))"
proof (induction js rule: rev_induct)
  case Nil
  { case 1 show ?case by (cases st) (simp_all add: tally_def sweep_statuses_def) }
  { case 2 show ?case by (simp add: tally_def) }
  { case 3 show ?case by (simp add: tally_def) }
  { case 4 show ?case by (simp add: tally_def) }
next
  case (snoc x js)
  have t: "tally (js @ [x]) = count_job (tally js) x" by (simp add: tally_def)
  { case 1 show ?case using snoc by (auto simp: t count_job_def Let_def) }
  { case 2 show ?case using snoc by (simp add: t count_job_def Let_def) }
  { case 3 show ?case using snoc by (simp add: t count_job_def Let_def) }
  { case 4 show ?case using snoc by (simp add: t count_job_def Let_def) }
qed

lemma status_value_inj: "sweep_status_value a = sweep_status_value b \<Longrightarrow> a = b"
  by (cases a; cases b) simp_all

lemma status_gauge:
  assumes "mc_labelNames x = [''status'']" "distinct sts"
  shows "mc_labelNames (foldl (\<lambda>x st. gauge_set [(''status'', sweep_status_value st)] (f st) x) x sts) = [''status''] \<and>
    (\<forall>st. jm_get (mc_series (foldl (\<lambda>x st. gauge_set [(''status'', sweep_status_value st)] (f st) x) x sts))
         (''status='' @ sweep_status_value st) =
       (if st \<in> set sts then Some ([(''status'', sweep_status_value st)], f st)
        else jm_get (mc_series x) (''status='' @ sweep_status_value st)))"
  using assms(2)
proof (induction sts rule: rev_induct)
  case (snoc a sts)
  then show ?case
    by (auto simp: seriesKey_def label_value_def dest: status_value_inj)
qed (simp add: assms(1))

definition statuses_set :: "sweep_counts \<Rightarrow> metric \<Rightarrow> metric" where
  "statuses_set s x = foldl (\<lambda>x st. gauge_set [(''status'', sweep_status_value st)] (the (jm_get (sc_counts s) st)) x) (gauge_reset x) sweep_statuses"

lemma collector_eq:
  "sweep_collector g (Inr js) fee mx =
     (let m = on_gauge (sg_amount g) (gauge_set [] (sc_swept (tally js)))
        (on_gauge (sg_failed g) (gauge_set [] (sc_failed (tally js)))
        (on_gauge (sg_pending g) (gauge_set [] (sc_pending (tally js))) (on_gauge (sg_jobs g) (statuses_set (tally js)) mx)))
      in (case fee of Some (Inr (Some sun)) \<Rightarrow> on_gauge (sg_fee g) (gauge_set [] sun) m | _ \<Rightarrow> m))"
  by (simp add: sweep_collector_def Let_def tally_def statuses_set_def[abs_def])

lemma all_statuses: "st \<in> set sweep_statuses" "distinct sweep_statuses"
  by (cases st) (simp_all add: sweep_statuses_def)

lemma statuses_set_gauge:
  assumes "mc_labelNames x = [''status'']"
  shows "mc_labelNames (statuses_set s x) = [''status'']"
    "jm_get (mc_series (statuses_set s x)) (''status='' @ sweep_status_value st) =
       Some ([(''status'', sweep_status_value st)], the (jm_get (sc_counts s) st))"
proof -
  have n: "mc_labelNames (gauge_reset x) = [''status'']" using assms by simp
  note r = status_gauge[OF n all_statuses(2), of "\<lambda>st. the (jm_get (sc_counts s) st)"]
  show "mc_labelNames (statuses_set s x) = [''status'']" using r by (simp only: statuses_set_def)
  show "jm_get (mc_series (statuses_set s x)) (''status='' @ sweep_status_value st) =
       Some ([(''status'', sweep_status_value st)], the (jm_get (sc_counts s) st))"
    using r[THEN conjunct2, rule_format, of st] by (simp only: statuses_set_def all_statuses if_True)
qed

text \<open>
  Every scrape shows the current jobs. With the gauges registered, a run of the collector on the
  repository's jobs leaves them exact: each status is reported with the number of its jobs, zero included; the
  pending, failed and collected-amount gauges are those of the jobs; the counts add up to the number of jobs; the
  fee gauge takes the balance when the probe gives one; and the registration stays as it was, so the next
  scrape is exact again.
\<close>

theorem sweep_gauges_exact:
  assumes "sweep_registered g mx" "mx' = sweep_collector g (Inr js) fee mx"
  shows "sweep_registered g mx' \<and>
    (\<forall>st. gauge_value mx' (sg_jobs g) [(''status'', sweep_status_value st)] = Some (int (length (filter (\<lambda>j. j_status j = st) js)))) \<and>
    gauge_value mx' (sg_pending g) [] = Some (int (length (filter (\<lambda>j. \<not> isSweepTerminal (j_status j)) js))) \<and>
    gauge_value mx' (sg_failed g) [] = Some (int (length (filter (\<lambda>j. j_status j = S_FAILED) js))) \<and>
    gauge_value mx' (sg_amount g) [] = Some (sum_list (map j_amountMicro (filter (\<lambda>j. j_status j = S_SWEPT) js))) \<and>
    gauge_value mx' (sg_fee g) [] = (case fee of Some (Inr (Some sun)) \<Rightarrow> Some sun | _ \<Rightarrow> gauge_value mx (sg_fee g) [])"
proof -
  define m where "m = on_gauge (sg_amount g) (gauge_set [] (sc_swept (tally js)))
        (on_gauge (sg_failed g) (gauge_set [] (sc_failed (tally js)))
        (on_gauge (sg_pending g) (gauge_set [] (sc_pending (tally js))) (on_gauge (sg_jobs g) (statuses_set (tally js)) mx)))"
  have dist: "distinct (sweep_handles g)" and len: "\<forall>i \<in> set (sweep_handles g). i < length (mx_gauges mx)"
    and names: "mc_labelNames (mx_gauges mx ! sg_jobs g) = [''status'']" "\<forall>i \<in> set (tl (sweep_handles g)). mc_labelNames (mx_gauges mx ! i) = []"
    using assms(1) by (simp_all add: sweep_registered_def)
  have ne: "sg_jobs g \<noteq> sg_pending g" "sg_jobs g \<noteq> sg_failed g" "sg_jobs g \<noteq> sg_amount g" "sg_jobs g \<noteq> sg_fee g"
    "sg_pending g \<noteq> sg_failed g" "sg_pending g \<noteq> sg_amount g" "sg_pending g \<noteq> sg_fee g" "sg_failed g \<noteq> sg_amount g"
    "sg_failed g \<noteq> sg_fee g" "sg_amount g \<noteq> sg_fee g"
    using dist by (simp_all add: sweep_handles_def)
  note facts = ne ne[symmetric] len[unfolded sweep_handles_def, simplified]
    names(1) names(2)[unfolded sweep_handles_def, simplified]
  have m: "mx_gauges m ! sg_jobs g = statuses_set (tally js) (mx_gauges mx ! sg_jobs g)"
    "mx_gauges m ! sg_pending g = gauge_set [] (sc_pending (tally js)) (mx_gauges mx ! sg_pending g)"
    "mx_gauges m ! sg_failed g = gauge_set [] (sc_failed (tally js)) (mx_gauges mx ! sg_failed g)"
    "mx_gauges m ! sg_amount g = gauge_set [] (sc_swept (tally js)) (mx_gauges mx ! sg_amount g)"
    "mx_gauges m ! sg_fee g = mx_gauges mx ! sg_fee g" "length (mx_gauges m) = length (mx_gauges mx)"
    using facts by (simp_all add: m_def on_gauge_simps)
  define sun where "sun = (case fee of Some (Inr x) \<Rightarrow> x | _ \<Rightarrow> None)"
  have mx': "mx' = (case sun of None \<Rightarrow> m | Some n \<Rightarrow> on_gauge (sg_fee g) (gauge_set [] n) m)"
    using assms(2) by (auto simp: collector_eq m_def sun_def Let_def split: option.splits sum.splits)
  have fee_case: "(case fee of Some (Inr (Some n)) \<Rightarrow> Some n | _ \<Rightarrow> gauge_value mx (sg_fee g) []) =
      (case sun of None \<Rightarrow> gauge_value mx (sg_fee g) [] | Some n \<Rightarrow> Some n)"
    by (auto simp: sun_def split: option.splits sum.splits)
  have g': "mx_gauges mx' ! sg_jobs g = statuses_set (tally js) (mx_gauges mx ! sg_jobs g)"
    "mx_gauges mx' ! sg_pending g = gauge_set [] (sc_pending (tally js)) (mx_gauges mx ! sg_pending g)"
    "mx_gauges mx' ! sg_failed g = gauge_set [] (sc_failed (tally js)) (mx_gauges mx ! sg_failed g)"
    "mx_gauges mx' ! sg_amount g = gauge_set [] (sc_swept (tally js)) (mx_gauges mx ! sg_amount g)"
    "mx_gauges mx' ! sg_fee g = (case sun of None \<Rightarrow> mx_gauges mx ! sg_fee g | Some n \<Rightarrow> gauge_set [] n (mx_gauges mx ! sg_fee g))"
    "length (mx_gauges mx') = length (mx_gauges mx)"
    using facts m by (simp_all add: mx' on_gauge_simps split: option.split)
  have key: "seriesKey [''status''] [(''status'', v)] = ''status='' @ v" "seriesKey [] l = []" for v l
    by (simp_all add: seriesKey_def label_value_def)
  have "sweep_registered g mx'"
    using facts g' statuses_set_gauge(1)[OF names(1)]
    by (simp add: sweep_registered_def sweep_handles_def split: option.split)
  then show ?thesis
    unfolding fee_case unfolding gauge_value_def g' Let_def
    using facts statuses_set_gauge[OF names(1)]
    by (simp add: key tally_exact gauge_value_def split: option.split)
qed

definition demo_registry :: "sweep_gauges \<times> metrics" where
  "demo_registry = register_sweep_gauges empty_metrics"

theorem sweep_gauges_exact_witness:
  "let mx' = sweep_collector (fst demo_registry) (Inr []) (Some (Inr (Some 7))) (snd demo_registry)
   in gauge_value mx' (sg_pending (fst demo_registry)) [] = Some 0 \<and> gauge_value mx' (sg_fee (fst demo_registry)) [] = Some 7 \<and>
     gauge_value mx' (sg_jobs (fst demo_registry)) [(''status'', ''FAILED'')] = Some 0"
proof -
  have "sweep_registered (fst demo_registry) (snd demo_registry)"
    by (rule register_registers[of empty_metrics]) (simp add: demo_registry_def)
  from sweep_gauges_exact[OF this refl, of "[]" "Some (Inr (Some 7))"] sweep_status_value.simps(6)
  show ?thesis unfolding Let_def by (auto simp flip: sweep_status_value.simps(6))
qed

theorem histogram_exact_witness:
  "\<exists>s. jm_get (hg_series (observe_all [([], 3), ([], 30)] (new_histogram ''d'' ''h'' [] [5, 50]))) (seriesKey [] []) = Some s \<and>
     hs_counts s ! 0 = 1 \<and> hs_count s = 2 \<and> sorted (hs_counts s)"
proof -
  have pre: "hg_series (new_histogram ''d'' ''h'' [] [5, 50]) = []" by (simp add: new_histogram_def)
  have f: "hg_labelNames (new_histogram ''d'' ''h'' [] [5, 50]) = []" "hg_buckets (new_histogram ''d'' ''h'' [] [5, 50]) = [5, 50]"
    by (simp_all add: new_histogram_def)
  have "observed [] [] [([], 3), ([], 30)] = [3, 30]" by (simp add: observed_def)
  with histogram_exact[OF pre refl, of "[]" "[([], 3), ([], 30)]", unfolded f] show ?thesis by auto
qed

end
