(* ===== verification/RefundService.thy ===== *)
theory RefundService
  imports World
begin

text \<open>
  \<^verbatim>\<open>src/services/refundService.ts\<close>: issuing refunds and applying the providers' asynchronous results. A
  requested amount is a JavaScript number; one that is not an integer is kept as the text it prints.
\<close>

datatype js_number = JsInt int | JsNonInt string

fun js_number_text :: "js_number \<Rightarrow> string" where
  "js_number_text (JsInt i) = string_of_int i"
| "js_number_text (JsNonInt s) = s"

record refund_input =
  ri_amount :: "js_number option"
  ri_reason :: "string option"
  ri_outRefundNo :: "string option"

record refund_deps =
  rd_providers :: providers
  rd_outbound :: "webhook_config option"

definition isSettled :: "refund_status \<Rightarrow> bool" where
  "isSettled st = (st = R_SUCCESS \<or> st = R_MANUAL)"

definition reserveRefund :: "env \<Rightarrow> order \<Rightarrow> int \<Rightarrow> bool \<Rightarrow> world \<Rightarrow> unit result \<times> world" where
  "reserveRefund e ord newRefundedTotal settled w =
     (let now = now_at e 0;
          updated = ord\<lparr>o_refundedAmount := Some newRefundedTotal, o_updatedAt := now\<rparr>
      in if settled \<and> newRefundedTotal \<ge> o_amount ord \<and> o_status ord \<noteq> REFUNDED then
           (case assertTransition (o_status ord) REFUNDED of
              Inl err \<Rightarrow> (Inl err, w)
            | Inr st \<Rightarrow> put_order (updated\<lparr>o_status := st\<rparr>) w)
         else put_order updated w)"

definition refund_payload :: "refund \<Rightarrow> json" where
  "refund_payload r = JObj [(''orderId'', JStr (r_orderId r)), (''refundId'', JStr (r_id r)),
     (''outRefundNo'', JStr (r_outRefundNo r)), (''amount'', JNum (r_amount r)),
     (''currency'', JStr (currency_name (r_currency r))), (''status'', JStr (refund_status_name (r_status r)))]"

text \<open>What follows the provider's answer: the refund is stored, the order updated, and both published.\<close>

definition record_refund :: "env \<Rightarrow> refund_deps \<Rightarrow> order \<Rightarrow> int \<Rightarrow> refund \<Rightarrow> world \<Rightarrow> refund result \<times> world" where
  "record_refund e d ord alreadyRefunded r w =
     bindR (writeR (refund_create r (w_refunds w)) (\<lambda>st. w\<lparr>w_refunds := st\<rparr>) w) (\<lambda>_ w1.
     bindR (if r_status r \<noteq> R_FAILED then reserveRefund (env_from 1 e) ord (alreadyRefunded + r_amount r) (isSettled (r_status r)) w1
            else (Inr (), w1)) (\<lambda>_ w2.
       let w3 = audit_world (env_from 2 e) ''refund.issued'' (Some (o_userId ord)) (Some (o_id ord))
             (JObj [(''refundId'', JStr (r_id r)), (''amount'', JNum (r_amount r)),
                    (''status'', JStr (refund_status_name (r_status r)))]) w2
       in (Inr r, emit_world (env_from 3 e) (rd_outbound d) Ev_refund_updated (refund_payload r) w3)))"

text \<open>The answer of the provider's \<open>refund\<close>, or the manual refund of a method without that channel.\<close>

definition provider_refund :: "payment_provider \<Rightarrow> order \<Rightarrow> refund_request \<Rightarrow> refund_result result" where
  "provider_refund prov ord rq =
     (case pp_refund prov of
        Some f \<Rightarrow> f ord rq
      | None \<Rightarrow> Inr \<lparr>rr_providerRefundId = None, rr_status = R_MANUAL, rr_rawStatus = ''MANUAL_REQUIRED''\<rparr>)"

definition issue_refund :: "env \<Rightarrow> refund_deps \<Rightarrow> string \<Rightarrow> refund_input \<Rightarrow> world \<Rightarrow> refund result \<times> world" where
  "issue_refund e d orderId inp w =
     (case order_findById (w_orders w) orderId of
        None \<Rightarrow> (Inl (NotFoundError (''order not found: '' @ orderId)), w)
      | Some ord \<Rightarrow>
          if o_status ord \<noteq> PAID \<and> o_status ord \<noteq> FULFILLED then
            (Inl (InvalidStateError (''order '' @ orderId @ '' is '' @ order_status_name (o_status ord)
               @ ''; only paid orders can be refunded'')), w)
          else
            let alreadyRefunded = refunded ord; remaining = o_amount ord - alreadyRefunded;
                requested = (case ri_amount inp of None \<Rightarrow> JsInt remaining | Some a \<Rightarrow> a)
            in (case requested of
                  JsNonInt s \<Rightarrow> (Inl (ValidationError (''invalid refund amount: '' @ s)), w)
                | JsInt amount \<Rightarrow>
                    if amount \<le> 0 then (Inl (ValidationError (''invalid refund amount: '' @ string_of_int amount)), w)
                    else if amount > remaining then
                      (Inl (ValidationError (''refund amount '' @ string_of_int amount @ '' exceeds remaining refundable ''
                         @ string_of_int remaining)), w)
                    else (case rd_providers d (o_method ord) of
                        None \<Rightarrow> (Inl (ValidationError (''payment method not enabled: '' @ method_name (o_method ord))), w)
                      | Some prov \<Rightarrow>
                          let outRefundNo = (case ri_outRefundNo inp of None \<Rightarrow> random_at e 0 | Some n \<Rightarrow> n);
                              now = now_at e 0
                          in (case provider_refund prov ord \<lparr>rq_outRefundNo = outRefundNo, rq_amount = amount,
                                  rq_totalAmount = o_amount ord, rq_currency = o_currency ord, rq_reason = ri_reason inp\<rparr> of
                                Inl err \<Rightarrow> (Inl err, w)
                              | Inr res \<Rightarrow>
                                  record_refund e d ord alreadyRefunded
                                    \<lparr>r_id = uuid_at e 0, r_orderId = o_id ord, r_outRefundNo = outRefundNo, r_amount = amount,
                                     r_currency = o_currency ord, r_reason = ri_reason inp, r_status = rr_status res,
                                     r_providerRefundId = rr_providerRefundId res, r_rawStatus = rr_rawStatus res,
                                     r_createdAt = now, r_updatedAt = now\<rparr> w))))"

definition refundOrder :: "env \<Rightarrow> refund_deps \<Rightarrow> string \<Rightarrow> refund_input \<Rightarrow> world \<Rightarrow> refund result \<times> world" where
  "refundOrder e d orderId inp w =
     (case (if truthy (ri_outRefundNo inp) then refund_findByOutRefundNo (w_refunds w) (the (ri_outRefundNo inp)) else None) of
        Some existing \<Rightarrow> (Inr existing, w)
      | None \<Rightarrow> issue_refund e d orderId inp w)"

section \<open>Asynchronous results\<close>

definition refund_callback_key :: "payment_method \<Rightarrow> string \<Rightarrow> string" where
  "refund_callback_key m i = ''rfcb:'' @ method_name m @ '':'' @ i"

definition put_refund :: "refund \<Rightarrow> world \<Rightarrow> unit result \<times> world" where
  "put_refund r w = writeR (refund_update r (w_refunds w)) (\<lambda>st. w\<lparr>w_refunds := st\<rparr>) w"

text \<open>The body under the order's lock.\<close>

definition apply_refund_result :: "env \<Rightarrow> refund_callback_result \<Rightarrow> world \<Rightarrow> unit result \<times> world" where
  "apply_refund_result e res w =
     (case refund_findByOutRefundNo (w_refunds w) (rc_outRefundNo res) of
        None \<Rightarrow> (Inr (), w)
      | Some fresh \<Rightarrow>
          if r_status fresh \<noteq> R_PENDING then (Inr (), w)
          else
            let now = now_at e 0;
                fresh1 = fresh\<lparr>r_status := rc_status res,
                  r_providerRefundId := (if rc_providerRefundId res \<noteq> [] then Some (rc_providerRefundId res) else r_providerRefundId fresh),
                  r_rawStatus := rc_rawStatus res, r_updatedAt := now\<rparr>
            in bindR (put_refund fresh1 w) (\<lambda>_ w1.
                 case order_findById (w_orders w1) (r_orderId fresh1) of
                   None \<Rightarrow> (Inr (), w1)
                 | Some ord \<Rightarrow>
                     if rc_status res = R_SUCCESS then reserveRefund (env_from 1 e) ord (refunded ord) True w1
                     else put_order (ord\<lparr>o_refundedAmount := Some (max 0 (refunded ord - r_amount fresh1)), o_updatedAt := now\<rparr>) w1))"

definition handleRefundCallback :: "env \<Rightarrow> refund_deps \<Rightarrow> payment_method \<Rightarrow> raw_callback \<Rightarrow> world \<Rightarrow> callback_ack result \<times> world" where
  "handleRefundCallback e d m raw w =
     (case (case rd_providers d m of None \<Rightarrow> None
            | Some prov \<Rightarrow> (case pp_verifyRefundCallback prov of None \<Rightarrow> None | Some v \<Rightarrow> Some (prov, v))) of
        None \<Rightarrow> (Inl (ValidationError (''refund callbacks not supported for method: '' @ method_name m)), w)
      | Some (prov, verify) \<Rightarrow>
          (case verify raw of
             Inl err \<Rightarrow> (Inl err, w)
           | Inr res \<Rightarrow>
               let (isNew, w1) = mark_event e (refund_callback_key m (rc_eventId res)) w
               in if \<not> isNew then (Inr (pp_callbackAck prov True), w1)
                  else (case refund_findByOutRefundNo (w_refunds w1) (rc_outRefundNo res) of
                      None \<Rightarrow> (Inr (pp_callbackAck prov False), w1)
                    | Some r \<Rightarrow>
                        bindR (apply_refund_result (env_from 1 e) res w1) (\<lambda>_ w2. (Inr (pp_callbackAck prov True), w2)))))"

definition listOrderRefunds :: "string \<Rightarrow> world \<Rightarrow> refund list" where
  "listOrderRefunds orderId w = refund_findByOrder (w_refunds w) orderId"

section \<open>The ledger\<close>

text \<open>
  For every order, the refunded amount on the order is the total of its refunds that have not failed, within
  the order's amount, and only a paid order has refunds; no refund is for nothing.
\<close>

definition order_ledger :: "refund_store \<Rightarrow> order \<Rightarrow> bool" where
  "order_ledger st ord \<longleftrightarrow> refunded ord = reserved st (o_id ord) \<and> 0 \<le> refunded ord \<and>
     refunded ord \<le> o_amount ord \<and> (0 < refunded ord \<longrightarrow> settled_status (o_status ord))"

definition ledger_ok :: "world \<Rightarrow> bool" where
  "ledger_ok w \<longleftrightarrow> order_store_wf (w_orders w) \<and> refund_store_wf (w_refunds w) \<and>
     (\<forall>k ord. order_findById (w_orders w) k = Some ord \<longrightarrow> order_ledger (w_refunds w) ord) \<and>
     (\<forall>i r. refund_findById (w_refunds w) i = Some r \<longrightarrow> 0 < r_amount r)"

lemma ledger_okD:
  assumes "ledger_ok w"
  shows "order_store_wf (w_orders w)" "refund_store_wf (w_refunds w)"
    and "order_findById (w_orders w) k = Some ord \<Longrightarrow> order_ledger (w_refunds w) ord"
    and "refund_findById (w_refunds w) i = Some r \<Longrightarrow> 0 < r_amount r"
  using assms unfolding ledger_ok_def by blast+

lemma ledger_ok_frame:
  "w_orders w' = w_orders w \<Longrightarrow> w_refunds w' = w_refunds w \<Longrightarrow> ledger_ok w' = ledger_ok w"
  by (simp add: ledger_ok_def)

text \<open>
  One order and the refunds are written together: the new order has to balance, and the refunds of the
  others have to be as they were.
\<close>

lemma ledger_with_order:
  assumes "order_store_wf (w_orders w)" "refund_store_wf (w_refunds w)"
    and pos: "\<And>i r. refund_findById (w_refunds w) i = Some r \<Longrightarrow> 0 < r_amount r"
    and others: "\<And>k x. order_findById (w_orders w) k = Some x \<Longrightarrow> k \<noteq> o_id new \<Longrightarrow> order_ledger (w_refunds w) x"
    and old: "order_findById (w_orders w) (o_id new) = Some old" "o_outTradeNo old = o_outTradeNo new"
    and new: "order_ledger (w_refunds w) new"
  shows "ledger_ok (with_order new w)"
proof -
  note F = with_order_find[OF old(1)]
  have "order_ledger (w_refunds w) x" if "order_findById (w_orders (with_order new w)) k = Some x" for k x
    using that others[of k x] new F[of k] by (cases "k = o_id new") simp_all
  then show ?thesis using assms(2) pos with_order_wf[OF assms(1) old] unfolding ledger_ok_def by simp
qed

text \<open>How reserving writes the order.\<close>

definition reserved_order :: "env \<Rightarrow> order \<Rightarrow> int \<Rightarrow> bool \<Rightarrow> order" where
  "reserved_order e ord n settled = ord\<lparr>o_refundedAmount := Some n, o_updatedAt := now_at e 0,
     o_status := (if settled \<and> o_amount ord \<le> n then REFUNDED else o_status ord)\<rparr>"

lemma reserveRefund_writes:
  assumes "order_findById (w_orders w) (o_id ord) = Some old" "settled_status (o_status ord)"
  shows "reserveRefund e ord n settled w = (Inr (), with_order (reserved_order e ord n settled) w)"
proof -
  have t: "o_status ord \<noteq> REFUNDED \<Longrightarrow> assertTransition (o_status ord) REFUNDED = Inr REFUNDED"
    using assms(2) by (auto simp: assertTransition_def canTransition_def settled_status_def)
  let ?u = "ord\<lparr>o_refundedAmount := Some n, o_updatedAt := now_at e 0\<rparr>"
  have eq: "reserved_order e ord n settled =
      (if settled \<and> o_amount ord \<le> n \<and> o_status ord \<noteq> REFUNDED then ?u\<lparr>o_status := REFUNDED\<rparr> else ?u)"
    by (cases ord) (auto simp: reserved_order_def)
  have "put_order ?u w = (Inr (), with_order ?u w)" "put_order (?u\<lparr>o_status := REFUNDED\<rparr>) w = (Inr (), with_order (?u\<lparr>o_status := REFUNDED\<rparr>) w)"
    using put_order_known assms(1) by simp_all
  then show ?thesis using t unfolding eq by (auto simp: reserveRefund_def Let_def)
qed

lemma reserved_order_simps [simp]:
  "o_id (reserved_order e ord n s) = o_id ord" "o_outTradeNo (reserved_order e ord n s) = o_outTradeNo ord"
  "o_amount (reserved_order e ord n s) = o_amount ord" "refunded (reserved_order e ord n s) = n"
  "o_paidAt (reserved_order e ord n s) = o_paidAt ord" "o_method (reserved_order e ord n s) = o_method ord"
  by (simp_all add: reserved_order_def refunded_def)

lemma reserved_order_status: "settled_status (o_status ord) \<Longrightarrow> settled_status (o_status (reserved_order e ord n s))"
  by (auto simp: reserved_order_def settled_status_def)

section \<open>Issuing a refund\<close>

text \<open>What a request has to satisfy for the refund to be issued, and the refund that is recorded.\<close>

definition refund_number :: "env \<Rightarrow> refund_input \<Rightarrow> string" where
  "refund_number e inp = (case ri_outRefundNo inp of None \<Rightarrow> random_at e 0 | Some n \<Rightarrow> n)"

definition refund_amount :: "refund_input \<Rightarrow> order \<Rightarrow> js_number" where
  "refund_amount inp ord = (case ri_amount inp of None \<Rightarrow> JsInt (o_amount ord - refunded ord) | Some a \<Rightarrow> a)"

definition refund_call :: "env \<Rightarrow> refund_input \<Rightarrow> order \<Rightarrow> int \<Rightarrow> refund_request" where
  "refund_call e inp ord amount = \<lparr>rq_outRefundNo = refund_number e inp, rq_amount = amount,
     rq_totalAmount = o_amount ord, rq_currency = o_currency ord, rq_reason = ri_reason inp\<rparr>"

definition refundable :: "refund_deps \<Rightarrow> string \<Rightarrow> refund_input \<Rightarrow> world \<Rightarrow> order \<Rightarrow> int \<Rightarrow> payment_provider \<Rightarrow> bool" where
  "refundable d orderId inp w ord amount prov \<longleftrightarrow> order_findById (w_orders w) orderId = Some ord \<and>
     (o_status ord = PAID \<or> o_status ord = FULFILLED) \<and> refund_amount inp ord = JsInt amount \<and>
     0 < amount \<and> amount \<le> o_amount ord - refunded ord \<and> rd_providers d (o_method ord) = Some prov"

definition new_refund :: "env \<Rightarrow> refund_input \<Rightarrow> order \<Rightarrow> int \<Rightarrow> refund_result \<Rightarrow> refund" where
  "new_refund e inp ord amount res = \<lparr>r_id = uuid_at e 0, r_orderId = o_id ord, r_outRefundNo = refund_number e inp,
     r_amount = amount, r_currency = o_currency ord, r_reason = ri_reason inp, r_status = rr_status res,
     r_providerRefundId = rr_providerRefundId res, r_rawStatus = rr_rawStatus res, r_createdAt = now_at e 0, r_updatedAt = now_at e 0\<rparr>"

definition replayed :: "refund_input \<Rightarrow> world \<Rightarrow> bool" where
  "replayed inp w \<longleftrightarrow> truthy (ri_outRefundNo inp) \<and> refund_findByOutRefundNo (w_refunds w) (the (ri_outRefundNo inp)) \<noteq> None"

lemma refundOrder_not_replayed: "\<not> replayed inp w \<Longrightarrow> refundOrder e d orderId inp w = issue_refund e d orderId inp w"
  by (auto simp: refundOrder_def replayed_def)

text \<open>A request that is not refundable throws before the provider is asked, and writes nothing.\<close>

lemma issue_refused:
  assumes "\<nexists>ord amount prov. refundable d orderId inp w ord amount prov"
  shows "\<exists>err. issue_refund e d orderId inp w = (Inl err, w)"
  using assms unfolding refundable_def issue_refund_def
  by (auto simp: Let_def refund_amount_def split: option.split js_number.split)

lemma issue_accepted:
  assumes "refundable d orderId inp w ord amount prov"
  shows "issue_refund e d orderId inp w =
    (case provider_refund prov ord (refund_call e inp ord amount) of
       Inl err \<Rightarrow> (Inl err, w)
     | Inr res \<Rightarrow> record_refund e d ord (refunded ord) (new_refund e inp ord amount res) w)"
proof -
  have "(o_status ord \<noteq> PAID \<and> o_status ord \<noteq> FULFILLED) = False" "\<not> amount \<le> 0" "\<not> amount > o_amount ord - refunded ord"
    "order_findById (w_orders w) orderId = Some ord" "refund_amount inp ord = JsInt amount" "rd_providers d (o_method ord) = Some prov"
    using assms unfolding refundable_def by auto
  then show ?thesis
    unfolding issue_refund_def
    by (simp del: de_Morgan_conj add: Let_def refund_amount_def refund_call_def new_refund_def refund_number_def split: sum.split)
qed

lemma with_order_same: "order_findById (w_orders w) (o_id ord) = Some ord \<Longrightarrow> with_order ord w = w"
  by (simp add: with_order_def order_update_def jm_has_def order_findById_def jm_set_same)

text \<open>The order after a refund of it was issued: a failed one leaves it alone, any other is reserved.\<close>

definition order_after_refund :: "env \<Rightarrow> order \<Rightarrow> refund \<Rightarrow> order" where
  "order_after_refund e ord r =
     (if r_status r = R_FAILED then ord else reserved_order (env_from 1 e) ord (refunded ord + r_amount r) (isSettled (r_status r)))"

lemma record_refund_writes:
  assumes L: "ledger_ok w" and "order_findById (w_orders w) (o_id ord) = Some ord" "settled_status (o_status ord)"
    and r: "r_orderId r = o_id ord" "0 < r_amount r" "r_amount r \<le> o_amount ord - refunded ord" "r_id r \<noteq> []"
    and fresh: "refund_findById (w_refunds w) (r_id r) = None" "refund_findByOutRefundNo (w_refunds w) (r_outRefundNo r) = None"
  shows "\<exists>w'. record_refund e d ord (refunded ord) r w = (Inr r, w') \<and> ledger_ok w' \<and>
    (\<forall>i. refund_findById (w_refunds w') i = (if i = r_id r then Some r else refund_findById (w_refunds w) i)) \<and>
    (\<forall>k. order_findById (w_orders w') k = (if k = o_id ord then Some (order_after_refund e ord r) else order_findById (w_orders w) k)) \<and>
    w_subs w' = w_subs w \<and> w_events w' = w_events w"
proof -
  note LD = ledger_okD[OF L]
  have "is_ok (refund_create r (w_refunds w))" using refund_repo.create_dup[OF LD(2), of r] fresh(2) by simp
  then obtain st where st: "refund_create r (w_refunds w) = Inr st" by (cases "refund_create r (w_refunds w)") simp_all
  have wf: "refund_store_wf st" using refund_repo.create_valid[OF LD(2) r(4) fresh(1) st] .
  note find = refund_repo.create_find[OF st] and res = reserved_created[OF LD(2) st r(4) fresh(1)]
  have led: "order_ledger (w_refunds w) ord" by (rule LD(3)[OF assms(2)])
  let ?w1 = "w\<lparr>w_refunds := st\<rparr>" and ?new = "order_after_refund e ord r"
  have others: "order_ledger st x" if "order_findById (w_orders w) k = Some x" "k \<noteq> o_id ord" for k x
  proof -
    have "o_id x = k" using order_repo.find_key[OF LD(1) that(1)] .
    then show ?thesis using LD(3)[OF that(1)] that(2) r(1) by (simp add: order_ledger_def res reserved_share_def)
  qed
  have share: "reserved st (o_id ord) = refunded ord + (if r_status r = R_FAILED then 0 else r_amount r)"
    using led r(1) unfolding order_ledger_def res reserved_share_def by simp
  have new: "order_ledger st ?new"
  proof (cases "r_status r = R_FAILED")
    case True
    then show ?thesis using led share unfolding order_ledger_def order_after_refund_def by simp
  next
    case False
    note b = led[unfolded order_ledger_def]
    have s: "settled_status (o_status ?new)" "o_id ?new = o_id ord" "o_amount ?new = o_amount ord"
      "refunded ?new = refunded ord + r_amount r"
      using False reserved_order_status[OF assms(3)] by (simp_all add: order_after_refund_def)
    show ?thesis unfolding order_ledger_def s(2-4) share using False b s(1) r(2,3) by auto
  qed
  have pos: "0 < r_amount x" if "refund_findById st i = Some x" for i x
  proof (cases "i = r_id r")
    case True
    then show ?thesis using that find[of i] r(2) by simp
  next
    case False
    then show ?thesis using that find[of i] LD(4)[of i x] by simp
  qed
  have same: "o_id ?new = o_id ord" "o_outTradeNo ord = o_outTradeNo ?new" by (simp_all add: order_after_refund_def)
  have known: "order_findById (w_orders ?w1) (o_id ?new) = Some ord" using assms(2) same by simp
  have ok: "ledger_ok (with_order ?new ?w1)"
    by (rule ledger_with_order[OF _ _ _ _ known same(2)]) (use LD(1) wf pos others new same(1) in simp_all)
  have same_w: "with_order ord ?w1 = ?w1" if "r_status r = R_FAILED"
    using with_order_same[of ?w1 ord] assms(2) by simp
  obtain w' where w': "record_refund e d ord (refunded ord) r w = (Inr r, w')"
    "w_orders w' = w_orders (with_order ?new ?w1)" "w_refunds w' = st" "w_subs w' = w_subs w" "w_events w' = w_events w"
    using reserveRefund_writes[of ?w1 ord ord "env_from 1 e"] assms(2,3) same_w
    by (cases "r_status r = R_FAILED") (simp_all add: record_refund_def st order_after_refund_def Let_def)
  have "ledger_ok w'" using ok ledger_ok_frame[of w' "with_order ?new ?w1"] w' by simp
  moreover have "order_findById (w_orders w') k = (if k = o_id ord then Some ?new else order_findById (w_orders w) k)" for k
    using with_order_find[OF known, of k] same(1) by (simp add: w'(2))
  ultimately show ?thesis using w' find by auto
qed

lemma issue_refund_writes:
  assumes "ledger_ok w" "refundable d orderId inp w ord amount prov"
    and "provider_refund prov ord (refund_call e inp ord amount) = Inr res"
    and "uuid_at e 0 \<noteq> []" "refund_findById (w_refunds w) (uuid_at e 0) = None"
    and "refund_findByOutRefundNo (w_refunds w) (refund_number e inp) = None"
  shows "\<exists>w'. issue_refund e d orderId inp w = (Inr (new_refund e inp ord amount res), w') \<and> ledger_ok w' \<and>
    (\<forall>i. refund_findById (w_refunds w') i =
       (if i = uuid_at e 0 then Some (new_refund e inp ord amount res) else refund_findById (w_refunds w) i)) \<and>
    (\<forall>k. order_findById (w_orders w') k =
       (if k = o_id ord then Some (order_after_refund e ord (new_refund e inp ord amount res)) else order_findById (w_orders w) k)) \<and>
    w_subs w' = w_subs w \<and> w_events w' = w_events w"
proof -
  let ?r = "new_refund e inp ord amount res"
  have r: "r_orderId ?r = o_id ord" "r_amount ?r = amount" "r_id ?r = uuid_at e 0" "r_outRefundNo ?r = refund_number e inp"
    by (simp_all add: new_refund_def)
  have A: "order_findById (w_orders w) orderId = Some ord" "o_status ord = PAID \<or> o_status ord = FULFILLED"
    "0 < amount" "amount \<le> o_amount ord - refunded ord"
    using assms(2) unfolding refundable_def by blast+
  have "o_id ord = orderId" by (rule order_repo.find_key[OF ledger_okD(1)[OF assms(1)] A(1)])
  moreover have "settled_status (o_status ord)" using A(2) by (auto simp: settled_status_def)
  ultimately show ?thesis
    using record_refund_writes[OF assms(1), of ord ?r e d] A assms(4-6) issue_accepted[OF assms(2), of e] assms(3)
    unfolding r by simp
qed

text \<open>
  C13: A refund that the provider does not fail is on the books exactly once: the refund is stored under its
  new id, the order's refunded amount grows by it (by nothing when the provider answers \<open>FAILED\<close>) and never
  exceeds what was paid, the order becomes \<open>REFUNDED\<close> exactly when the refund is settled and covers the
  rest, no other order or refund changes, and the ledger still balances.
\<close>

theorem refund_accounts:
  assumes "ledger_ok w" "refundable d orderId inp w ord amount prov" "\<not> replayed inp w"
    and "provider_refund prov ord (refund_call e inp ord amount) = Inr res"
    and "uuid_at e 0 \<noteq> []" "refund_findById (w_refunds w) (uuid_at e 0) = None"
    and "refund_findByOutRefundNo (w_refunds w) (refund_number e inp) = None"
  shows "\<exists>r w' ord'. refundOrder e d orderId inp w = (Inr r, w') \<and> ledger_ok w' \<and>
    r_orderId r = orderId \<and> r_amount r = amount \<and> r_status r = rr_status res \<and> r_outRefundNo r = refund_number e inp \<and>
    (\<forall>i. refund_findById (w_refunds w') i = (if i = uuid_at e 0 then Some r else refund_findById (w_refunds w) i)) \<and>
    (\<forall>k. order_findById (w_orders w') k = (if k = orderId then Some ord' else order_findById (w_orders w) k)) \<and>
    refunded ord' = refunded ord + (if rr_status res = R_FAILED then 0 else amount) \<and> refunded ord' \<le> o_amount ord \<and>
    o_status ord' = (if isSettled (rr_status res) \<and> refunded ord + amount = o_amount ord then REFUNDED else o_status ord)"
proof -
  let ?r = "new_refund e inp ord amount res"
  obtain w' where w': "issue_refund e d orderId inp w = (Inr ?r, w')" "ledger_ok w'"
    "\<forall>i. refund_findById (w_refunds w') i = (if i = uuid_at e 0 then Some ?r else refund_findById (w_refunds w) i)"
    "\<forall>k. order_findById (w_orders w') k = (if k = o_id ord then Some (order_after_refund e ord ?r) else order_findById (w_orders w) k)"
    using issue_refund_writes[OF assms(1,2,4-7)] by blast
  have A: "order_findById (w_orders w) orderId = Some ord" "0 < amount" "amount \<le> o_amount ord - refunded ord"
    using assms(2) unfolding refundable_def by blast+
  have i: "o_id ord = orderId" by (rule order_repo.find_key[OF ledger_okD(1)[OF assms(1)] A(1)])
  let ?o = "order_after_refund e ord ?r"
  have "refunded ?o = refunded ord + (if rr_status res = R_FAILED then 0 else amount)" "refunded ?o \<le> o_amount ord"
    "o_status ?o = (if isSettled (rr_status res) \<and> refunded ord + amount = o_amount ord then REFUNDED else o_status ord)"
    using A(2,3) by (auto simp: order_after_refund_def new_refund_def reserved_order_def refunded_def isSettled_def)
  moreover have "r_orderId ?r = orderId" "r_amount ?r = amount" "r_status ?r = rr_status res" "r_outRefundNo ?r = refund_number e inp"
    by (simp_all add: new_refund_def i)
  ultimately show ?thesis
    using w' by (intro exI[of _ ?r] exI[of _ w'] exI[of _ ?o])
      (simp only: i refundOrder_not_replayed[OF assms(3)] simp_thms HOL.all_simps)
qed

text \<open>
  a refund is refused without any effect. An unknown order, an order that is not paid (or already fully
  refunded), an amount that is not a positive integer within the remaining balance, and a provider that
  throws each give their error, and nothing is written.
\<close>

theorem refund_refused:
  assumes "\<not> replayed inp w"
  shows "(order_findById (w_orders w) orderId = None \<longrightarrow>
      refundOrder e d orderId inp w = (Inl (NotFoundError (''order not found: '' @ orderId)), w)) \<and>
    (\<forall>ord. order_findById (w_orders w) orderId = Some ord \<and> o_status ord \<notin> {PAID, FULFILLED} \<longrightarrow>
      (\<exists>m. refundOrder e d orderId inp w = (Inl (InvalidStateError m), w))) \<and>
    (\<forall>ord. order_findById (w_orders w) orderId = Some ord \<and> o_status ord \<in> {PAID, FULFILLED} \<and>
      (\<nexists>a. refund_amount inp ord = JsInt a \<and> 0 < a \<and> a \<le> o_amount ord - refunded ord) \<longrightarrow>
      (\<exists>m. refundOrder e d orderId inp w = (Inl (ValidationError m), w))) \<and>
    (\<forall>ord amount prov err. refundable d orderId inp w ord amount prov \<and>
      provider_refund prov ord (refund_call e inp ord amount) = Inl err \<longrightarrow> refundOrder e d orderId inp w = (Inl err, w))"
proof (intro conjI allI impI; (elim conjE)?)
  note R = refundOrder_not_replayed[OF assms, of e d orderId]
  show "refundOrder e d orderId inp w = (Inl (NotFoundError (''order not found: '' @ orderId)), w)"
    if "order_findById (w_orders w) orderId = None"
    using that unfolding R issue_refund_def by simp
  show "\<exists>m. refundOrder e d orderId inp w = (Inl (InvalidStateError m), w)"
    if "order_findById (w_orders w) orderId = Some ord" "o_status ord \<notin> {PAID, FULFILLED}" for ord
    using that unfolding R issue_refund_def by simp
  show "\<exists>m. refundOrder e d orderId inp w = (Inl (ValidationError m), w)"
    if o: "order_findById (w_orders w) orderId = Some ord" "o_status ord \<in> {PAID, FULFILLED}"
      and a: "\<nexists>a. refund_amount inp ord = JsInt a \<and> 0 < a \<and> a \<le> o_amount ord - refunded ord" for ord
  proof (cases "refund_amount inp ord")
    case (JsInt n)
    then show ?thesis using o a unfolding R issue_refund_def refund_amount_def by (auto simp: Let_def)
  next
    case (JsNonInt t)
    then show ?thesis using o unfolding R issue_refund_def refund_amount_def by (auto simp: Let_def)
  qed
  show "refundOrder e d orderId inp w = (Inl err, w)" if "refundable d orderId inp w ord amount prov"
    "provider_refund prov ord (refund_call e inp ord amount) = Inl err" for ord amount prov err
    unfolding R issue_accepted[OF that(1)] by (simp add: that(2))
qed

section \<open>Results that arrive later\<close>

text \<open>A refund that has not failed is part of its order's total.\<close>

lemma reserved_covers:
  assumes wf: "refund_store_wf st" and pos: "\<And>i x. refund_findById st i = Some x \<Longrightarrow> 0 < r_amount x"
    and r: "refund_findById st (r_id r) = Some r" "r_status r \<noteq> R_FAILED"
  shows "r_amount r \<le> reserved st (r_orderId r)"
proof -
  let ?f = "reserved_share (r_orderId r)"
  have "0 \<le> ?f x" if "x \<in> set (refund_all st) - {r}" for x
    using that pos[of "r_id x" x] refund_list.listing_iff[OF wf, of x] by (simp add: reserved_share_def less_imp_le)
  moreover have "r \<in> set (refund_all st)" using refund_list.listing_iff[OF wf, of r] r(1) by simp
  ultimately have "?f r \<le> sum ?f (set (refund_all st))" by (intro member_le_sum) simp_all
  then show ?thesis using r(2) by (simp add: reserved_def refund_list.listing_finite_sum[OF wf] reserved_share_def)
qed

definition settled_refund :: "env \<Rightarrow> refund_callback_result \<Rightarrow> refund \<Rightarrow> refund" where
  "settled_refund e res r = r\<lparr>r_status := rc_status res,
     r_providerRefundId := (if rc_providerRefundId res \<noteq> [] then Some (rc_providerRefundId res) else r_providerRefundId r),
     r_rawStatus := rc_rawStatus res, r_updatedAt := now_at e 0\<rparr>"

lemma settled_refund_simps [simp]:
  "r_id (settled_refund e res r) = r_id r" "r_orderId (settled_refund e res r) = r_orderId r"
  "r_outRefundNo (settled_refund e res r) = r_outRefundNo r" "r_amount (settled_refund e res r) = r_amount r"
  "r_status (settled_refund e res r) = rc_status res"
  by (simp_all add: settled_refund_def)

definition order_after_result :: "env \<Rightarrow> refund_callback_result \<Rightarrow> refund \<Rightarrow> order \<Rightarrow> order" where
  "order_after_result e res r ord =
     (if rc_status res = R_SUCCESS then reserved_order (env_from 1 e) ord (refunded ord) True
      else ord\<lparr>o_refundedAmount := Some (refunded ord - r_amount r), o_updatedAt := now_at e 0\<rparr>)"

lemma order_after_result_simps [simp]:
  "o_id (order_after_result e res r ord) = o_id ord" "o_outTradeNo (order_after_result e res r ord) = o_outTradeNo ord"
  "o_amount (order_after_result e res r ord) = o_amount ord" "o_paidAt (order_after_result e res r ord) = o_paidAt ord"
  "refunded (order_after_result e res r ord) = refunded ord - (if rc_status res = R_SUCCESS then 0 else r_amount r)"
  by (simp_all add: order_after_result_def refunded_def reserved_order_def)

lemma order_after_result_status:
  "o_status (order_after_result e res r ord) =
     (if rc_status res = R_SUCCESS \<and> o_amount ord \<le> refunded ord then REFUNDED else o_status ord)"
  by (simp add: order_after_result_def reserved_order_def)

lemma apply_result_writes:
  assumes L: "ledger_ok w" and n: "refund_findByOutRefundNo (w_refunds w) (rc_outRefundNo res) = Some r"
    and p: "r_status r = R_PENDING"
  shows "\<exists>w'. apply_refund_result e res w = (Inr (), w') \<and> ledger_ok w' \<and>
    (\<forall>i. refund_findById (w_refunds w') i = (if i = r_id r then Some (settled_refund e res r) else refund_findById (w_refunds w) i)) \<and>
    (\<forall>k. order_findById (w_orders w') k =
       (if k = r_orderId r then map_option (order_after_result e res r) (order_findById (w_orders w) k) else order_findById (w_orders w) k)) \<and>
    w_subs w' = w_subs w \<and> w_events w' = w_events w"
proof -
  note LD = ledger_okD[OF L]
  have r: "refund_findById (w_refunds w) (r_id r) = Some r" using refund_repo.lookup_find[OF LD(2) n] by simp
  let ?r = "settled_refund e res r"
  define st where "st = projr (refund_update ?r (w_refunds w))"
  have st: "refund_update ?r (w_refunds w) = Inr st" by (simp add: st_def refund_update_def)
  have r': "refund_findById (w_refunds w) (r_id ?r) = Some r" using r by simp
  have wf: "refund_store_wf st" by (rule refund_repo.update_valid[OF LD(2) r' _ st]) simp
  have find: "refund_findById st i = (if i = r_id r then Some ?r else refund_findById (w_refunds w) i)" for i
    using refund_repo.update_find[OF st, of i] by simp
  have res: "reserved st k = reserved (w_refunds w) k - (if k = r_orderId r \<and> rc_status res \<noteq> R_SUCCESS then r_amount r else 0)" for k
    using reserved_updated[OF LD(2) st r', of k] p by (auto simp: reserved_share_def rc_status_def)
  let ?w1 = "w\<lparr>w_refunds := st\<rparr>"
  have put: "put_refund ?r w = (Inr (), ?w1)" by (simp add: put_refund_def st)
  have pos: "0 < r_amount x" if "refund_findById st i = Some x" for i x
    using that find[of i] LD(4)[of i x] LD(4)[OF r] by (cases "i = r_id r") simp_all
  have others: "order_ledger st x" if "order_findById (w_orders w) k = Some x" "k \<noteq> r_orderId r" for k x
    using LD(3)[OF that(1)] that(2) order_repo.find_key[OF LD(1) that(1)] by (simp add: order_ledger_def res)
  show ?thesis
  proof (cases "order_findById (w_orders w) (r_orderId r)")
    case None
    have "order_ledger st x" if "order_findById (w_orders w) k = Some x" for k x
      using others[OF that] that None by (cases "k = r_orderId r") simp_all
    then have "ledger_ok ?w1" using LD(1) wf pos by (simp add: ledger_ok_def)
    moreover have "apply_refund_result e res w = (Inr (), ?w1)"
      using n p put None by (simp add: apply_refund_result_def Let_def settled_refund_def)
    ultimately show ?thesis using None find by (intro exI[of _ ?w1]) simp
  next
    case (Some ord)
    let ?o = "order_after_result e res r ord"
    have id: "o_id ord = r_orderId r" by (rule order_repo.find_key[OF LD(1) Some])
    have led: "order_ledger (w_refunds w) ord" by (rule LD(3)[OF Some])
    have cov: "r_amount r \<le> refunded ord"
      using reserved_covers[OF LD(2,4) r] p led by (simp add: order_ledger_def id)
    have amt: "0 < r_amount r" by (rule LD(4)[OF r])
    have set: "settled_status (o_status ord)" using led cov amt by (simp add: order_ledger_def)
    have known: "order_findById (w_orders ?w1) (o_id ?o) = Some ord" using Some id by simp
    have "settled_status (o_status ?o)" using set by (simp add: order_after_result_status settled_status_def)
    then have "order_ledger st ?o" using led cov amt unfolding order_ledger_def by (simp add: res id)
    then have ok: "ledger_ok (with_order ?o ?w1)"
      by (intro ledger_with_order[OF _ _ _ _ known]) (use LD(1) wf pos others id in simp_all)
    have run: "apply_refund_result e res w = (Inr (), with_order ?o ?w1)"
    proof (cases "rc_status res = R_SUCCESS")
      case True
      then have "apply_refund_result e res w = reserveRefund (env_from 1 e) ord (refunded ord) True ?w1"
        using n p put Some by (simp add: apply_refund_result_def Let_def settled_refund_def)
      then show ?thesis using reserveRefund_writes[of ?w1 ord ord] known set True by (simp add: order_after_result_def)
    next
      case False
      then have "apply_refund_result e res w = put_order ?o ?w1"
        using n p put Some cov by (simp add: apply_refund_result_def Let_def settled_refund_def order_after_result_def)
      then show ?thesis using put_order_known[OF known] by simp
    qed
    have f: "order_findById (w_orders (with_order ?o ?w1)) k = (if k = r_orderId r then Some ?o else order_findById (w_orders w) k)" for k
      using with_order_find[OF known, of k] id by simp
    show ?thesis
      using run ok find f Some by (intro exI[of _ "with_order ?o ?w1"]) simp
  qed
qed

definition refund_verified :: "refund_deps \<Rightarrow> payment_method \<Rightarrow> raw_callback \<Rightarrow> payment_provider \<Rightarrow> refund_callback_result \<Rightarrow> bool" where
  "refund_verified d m raw prov res \<longleftrightarrow> rd_providers d m = Some prov \<and>
     (\<exists>v. pp_verifyRefundCallback prov = Some v \<and> v raw = Inr res)"

lemma refund_callback_verified:
  "refund_verified d m raw prov res \<Longrightarrow> handleRefundCallback e d m raw w =
     (let (isNew, w1) = mark_event e (refund_callback_key m (rc_eventId res)) w
      in if \<not> isNew then (Inr (pp_callbackAck prov True), w1)
         else (case refund_findByOutRefundNo (w_refunds w1) (rc_outRefundNo res) of
             None \<Rightarrow> (Inr (pp_callbackAck prov False), w1)
           | Some r \<Rightarrow> bindR (apply_refund_result (env_from 1 e) res w1) (\<lambda>_ w2. (Inr (pp_callbackAck prov True), w2))))"
  by (auto simp: handleRefundCallback_def refund_verified_def)

lemma refund_callback_seen:
  "refund_verified d m raw prov res \<Longrightarrow> event_seen (w_events w) (refund_callback_key m (rc_eventId res)) \<Longrightarrow>
     handleRefundCallback e d m raw w = (Inr (pp_callbackAck prov True), w)"
  by (simp add: refund_callback_verified mark_event_old)

text \<open>The result of a pending refund, on the state after its event was marked.\<close>

lemma refund_callback_pending:
  assumes L: "ledger_ok w" and v: "refund_verified d m raw prov res"
    and new: "\<not> event_seen (w_events w) (refund_callback_key m (rc_eventId res))"
    and r: "refund_findByOutRefundNo (w_refunds w) (rc_outRefundNo res) = Some r" "r_status r = R_PENDING"
  shows "\<exists>w'. handleRefundCallback e d m raw w = (Inr (pp_callbackAck prov True), w') \<and> ledger_ok w' \<and>
    (\<forall>i. refund_findById (w_refunds w') i =
       (if i = r_id r then Some (settled_refund (env_from 1 e) res r) else refund_findById (w_refunds w) i)) \<and>
    (\<forall>k. order_findById (w_orders w') k = (if k = r_orderId r
       then map_option (order_after_result (env_from 1 e) res r) (order_findById (w_orders w) k) else order_findById (w_orders w) k)) \<and>
    w_subs w' = w_subs w \<and> event_seen (w_events w') (refund_callback_key m (rc_eventId res))"
proof -
  let ?k = "refund_callback_key m (rc_eventId res)"
  define w1 where "w1 = snd (mark_event e ?k w)"
  have m: "mark_event e ?k w = (True, w1)" using new by (simp add: prod_eq_iff mark_event_new w1_def)
  have f: "w_orders w1 = w_orders w" "w_refunds w1 = w_refunds w" "w_subs w1 = w_subs w" by (simp_all add: w1_def)
  have "ledger_ok w1" using L ledger_ok_frame[OF f(1,2)] by simp
  from apply_result_writes[OF this, of res r "env_from 1 e"] r obtain w' where
    w': "apply_refund_result (env_from 1 e) res w1 = (Inr (), w')" "ledger_ok w'"
    "\<forall>i. refund_findById (w_refunds w') i =
       (if i = r_id r then Some (settled_refund (env_from 1 e) res r) else refund_findById (w_refunds w) i)"
    "\<forall>k. order_findById (w_orders w') k = (if k = r_orderId r
       then map_option (order_after_result (env_from 1 e) res r) (order_findById (w_orders w) k) else order_findById (w_orders w) k)"
    "w_subs w' = w_subs w" "w_events w' = w_events w1"
    unfolding f by blast
  have seen: "event_seen (w_events w') ?k" using mark_event_seen[of e ?k w ?k] by (simp add: w'(6) w1_def)
  show ?thesis
    unfolding refund_callback_verified[OF v] m by (intro exI[of _ w']) (use r w' seen f in simp)
qed

text \<open>
  The asynchronous result of a refund is applied exactly once. The first notification of a verified
  event settles the pending refund: on success the order's total stays and the order becomes \<open>REFUNDED\<close>
  when that total covers it, on failure exactly this refund's amount is released; the ledger balances
  afterwards. The same notification again, at any later time, is acknowledged and changes nothing.
\<close>

theorem refund_callback_once:
  assumes "ledger_ok w" "refund_verified d m raw prov res"
    and "\<not> event_seen (w_events w) (refund_callback_key m (rc_eventId res))"
    and "refund_findByOutRefundNo (w_refunds w) (rc_outRefundNo res) = Some r" "r_status r = R_PENDING"
    and "order_findById (w_orders w) (r_orderId r) = Some ord"
  shows "\<exists>w' r' ord'. handleRefundCallback e d m raw w = (Inr (pp_callbackAck prov True), w') \<and> ledger_ok w' \<and>
    refund_findById (w_refunds w') (r_id r) = Some r' \<and> r_amount r' = r_amount r \<and>
    r_status r' = (if rc_success res then R_SUCCESS else R_FAILED) \<and>
    order_findById (w_orders w') (r_orderId r) = Some ord' \<and>
    refunded ord' = refunded ord - (if rc_success res then 0 else r_amount r) \<and>
    o_status ord' = (if rc_success res \<and> refunded ord = o_amount ord then REFUNDED else o_status ord) \<and>
    (\<forall>e2. handleRefundCallback e2 d m raw w' = (Inr (pp_callbackAck prov True), w'))"
proof -
  obtain w' where w': "handleRefundCallback e d m raw w = (Inr (pp_callbackAck prov True), w')" "ledger_ok w'"
    "refund_findById (w_refunds w') (r_id r) = Some (settled_refund (env_from 1 e) res r)"
    "order_findById (w_orders w') (r_orderId r) = Some (order_after_result (env_from 1 e) res r ord)"
    "event_seen (w_events w') (refund_callback_key m (rc_eventId res))"
    using refund_callback_pending[OF assms(1-5), of e] assms(6) by auto
  have le: "refunded ord \<le> o_amount ord" using ledger_okD(3)[OF assms(1,6)] by (simp add: order_ledger_def)
  then have st: "o_status (order_after_result (env_from 1 e) res r ord) =
      (if rc_success res \<and> refunded ord = o_amount ord then REFUNDED else o_status ord)"
    by (simp add: order_after_result_status rc_status_def)
  show ?thesis
    using refund_callback_seen[OF assms(2) w'(5)] w'(1-4) st
    by (intro exI[of _ w'] exI[of _ "settled_refund (env_from 1 e) res r"] exI[of _ "order_after_result (env_from 1 e) res r ord"])
      (simp add: rc_status_def)
qed

text \<open>
  What any refund operation may do: an order keeps what it is for and whether it was paid, and goes at most
  from a paid state to \<open>REFUNDED\<close>; refunds belong to known orders; the ledger balances.
\<close>

definition refund_evolves :: "order \<Rightarrow> order \<Rightarrow> bool" where
  "refund_evolves a b \<longleftrightarrow> o_id b = o_id a \<and> o_amount b = o_amount a \<and> o_method b = o_method a \<and> o_planId b = o_planId a \<and>
     o_paidAt b = o_paidAt a \<and> (o_status b = o_status a \<or> settled_status (o_status a) \<and> o_status b = REFUNDED)"

definition refunds_known :: "world \<Rightarrow> bool" where
  "refunds_known w \<longleftrightarrow> (\<forall>i r. refund_findById (w_refunds w) i = Some r \<longrightarrow> order_findById (w_orders w) (r_orderId r) \<noteq> None)"

definition refund_step_ok :: "world \<Rightarrow> world \<Rightarrow> bool" where
  "refund_step_ok w w' \<longleftrightarrow> ledger_ok w' \<and> refunds_known w' \<and> w_subs w' = w_subs w \<and>
     (\<forall>k. rel_option refund_evolves (order_findById (w_orders w) k) (order_findById (w_orders w') k))"

lemma refund_evolves_refl [simp]: "refund_evolves a a"
  by (simp add: refund_evolves_def)

lemma refund_step_same:
  "ledger_ok w \<Longrightarrow> refunds_known w \<Longrightarrow> w_orders w' = w_orders w \<Longrightarrow> w_refunds w' = w_refunds w \<Longrightarrow> w_subs w' = w_subs w \<Longrightarrow>
     refund_step_ok w w'"
  using ledger_ok_frame[of w' w] by (simp add: refund_step_ok_def refunds_known_def option.rel_refl)

lemma refund_step_write:
  assumes "refunds_known w" "ledger_ok w'" "w_subs w' = w_subs w" "order_findById (w_orders w) (r_orderId r) \<noteq> None"
    and r: "\<forall>i. refund_findById (w_refunds w') i = (if i = r_id r then Some r else refund_findById (w_refunds w) i)"
    and o: "\<forall>k. order_findById (w_orders w') k =
      (if k = r_orderId r then map_option f (order_findById (w_orders w) k) else order_findById (w_orders w) k)"
    and f: "\<And>x. order_findById (w_orders w) (r_orderId r) = Some x \<Longrightarrow> refund_evolves x (f x)"
  shows "refund_step_ok w w'"
proof -
  have known: "order_findById (w_orders w') k \<noteq> None \<longleftrightarrow> order_findById (w_orders w) k \<noteq> None" for k using o by simp
  have "rel_option refund_evolves (order_findById (w_orders w) k) (order_findById (w_orders w') k)" for k
    using o f by (cases "order_findById (w_orders w) k"; cases "k = r_orderId r") auto
  moreover have "order_findById (w_orders w') (r_orderId x) \<noteq> None" if "refund_findById (w_refunds w') i = Some x" for i x
    using that r assms(1,4) unfolding known refunds_known_def by (cases "i = r_id r") auto
  ultimately show ?thesis using assms(2,3) unfolding refund_step_ok_def refunds_known_def by blast
qed

lemma refund_evolves_order:
  assumes "settled_status (o_status ord)"
  shows "refund_evolves ord (order_after_refund e ord r)" "refund_evolves ord (order_after_result e res r ord)"
proof -
  have "o_planId (reserved_order e ord n s) = o_planId ord" for e n s by (simp add: reserved_order_def)
  then show "refund_evolves ord (order_after_refund e ord r)" "refund_evolves ord (order_after_result e res r ord)"
    using assms by (simp_all add: refund_evolves_def order_after_refund_def order_after_result_def)
      (simp_all add: reserved_order_def)
qed

text \<open>An order with a pending refund has been paid.\<close>

lemma pending_refund_paid:
  assumes "ledger_ok w" "refund_findByOutRefundNo (w_refunds w) n = Some r" "r_status r = R_PENDING"
    and "order_findById (w_orders w) (r_orderId r) = Some ord"
  shows "settled_status (o_status ord)"
proof -
  note LD = ledger_okD[OF assms(1)]
  have r: "refund_findById (w_refunds w) (r_id r) = Some r" using refund_repo.lookup_find[OF LD(2) assms(2)] by simp
  have "o_id ord = r_orderId r" by (rule order_repo.find_key[OF LD(1) assms(4)])
  moreover have "r_amount r \<le> reserved (w_refunds w) (r_orderId r)" by (rule reserved_covers[OF LD(2,4) r]) (simp_all add: assms(3))
  ultimately show ?thesis using LD(4)[OF r] LD(3)[OF assms(4)] by (simp add: order_ledger_def)
qed

lemma handleRefundCallback_step:
  assumes L: "ledger_ok w" and K: "refunds_known w"
  shows "refund_step_ok w (snd (handleRefundCallback e d m raw w))"
proof (cases "\<exists>prov res. refund_verified d m raw prov res")
  case False
  then have "snd (handleRefundCallback e d m raw w) = w"
    by (auto simp: handleRefundCallback_def refund_verified_def split: option.split sum.split)
  then show ?thesis using refund_step_same[OF L K] by simp
next
  case True
  then obtain prov res where v: "refund_verified d m raw prov res" by blast
  let ?k = "refund_callback_key m (rc_eventId res)" let ?w1 = "snd (mark_event e ?k w)"
  have m: "refund_step_ok w ?w1" by (rule refund_step_same[OF L K]) simp_all
  show ?thesis
  proof (cases "event_seen (w_events w) ?k")
    case True
    then show ?thesis using refund_callback_seen[OF v True] refund_step_same[OF L K] by simp
  next
    case new: False
    then have mk: "mark_event e ?k w = (True, ?w1)" by (simp add: prod_eq_iff mark_event_new)
    show ?thesis
    proof (cases "refund_findByOutRefundNo (w_refunds w) (rc_outRefundNo res)")
      case None
      then have "snd (handleRefundCallback e d m raw w) = ?w1"
        unfolding refund_callback_verified[OF v] by (subst mk) simp
      then show ?thesis using m by simp
    next
      case (Some r)
      show ?thesis
      proof (cases "r_status r = R_PENDING")
        case True
        let ?r = "settled_refund (env_from 1 e) res r"
        obtain w' where w': "handleRefundCallback e d m raw w = (Inr (pp_callbackAck prov True), w')" "ledger_ok w'" "w_subs w' = w_subs w"
          "\<forall>i. refund_findById (w_refunds w') i = (if i = r_id ?r then Some ?r else refund_findById (w_refunds w) i)"
          "\<forall>k. order_findById (w_orders w') k = (if k = r_orderId ?r
             then map_option (order_after_result (env_from 1 e) res r) (order_findById (w_orders w) k) else order_findById (w_orders w) k)"
          using refund_callback_pending[OF L v new Some True, of e] by auto
        have "refund_findById (w_refunds w) (r_id r) = Some r" using refund_repo.lookup_find[OF ledger_okD(2)[OF L] Some] by simp
        then have "order_findById (w_orders w) (r_orderId ?r) \<noteq> None" using K by (simp add: refunds_known_def)
        then have "refund_step_ok w w'"
          using refund_step_write[OF K w'(2,3) _ w'(4,5)] refund_evolves_order(2) pending_refund_paid[OF L Some True] by simp
        then show ?thesis by (simp add: w'(1))
      next
        case False
        then have "snd (handleRefundCallback e d m raw w) = ?w1"
          unfolding refund_callback_verified[OF v] using Some by (subst mk) (simp add: apply_refund_result_def)
        then show ?thesis using m by simp
      qed
    qed
  qed
qed

text \<open>The number a refund gets is taken: the store refuses it and the operation throws.\<close>

lemma issue_duplicate:
  assumes "ledger_ok w" "refundable d orderId inp w ord amount prov"
    and "provider_refund prov ord (refund_call e inp ord amount) = Inr res"
    and "refund_findByOutRefundNo (w_refunds w) (refund_number e inp) \<noteq> None"
  shows "\<exists>err. issue_refund e d orderId inp w = (Inl err, w)"
proof -
  have "\<not> is_ok (refund_create (new_refund e inp ord amount res) (w_refunds w))"
    using refund_repo.create_dup[OF ledger_okD(2)[OF assms(1)]] assms(4) by (simp add: new_refund_def)
  then obtain err where "refund_create (new_refund e inp ord amount res) (w_refunds w) = Inl err"
    by (cases "refund_create (new_refund e inp ord amount res) (w_refunds w)") simp_all
  then show ?thesis using issue_accepted[OF assms(2), of e] assms(3) by (simp add: record_refund_def)
qed

lemma refundOrder_step:
  assumes L: "ledger_ok w" and K: "refunds_known w"
    and fresh: "uuid_at e 0 \<noteq> []" "refund_findById (w_refunds w) (uuid_at e 0) = None"
  shows "refund_step_ok w (snd (refundOrder e d orderId inp w))"
proof (cases "replayed inp w")
  case True
  then have "snd (refundOrder e d orderId inp w) = w" by (auto simp: refundOrder_def replayed_def)
  then show ?thesis using refund_step_same[OF L K] by simp
next
  case nr: False
  note R = refundOrder_not_replayed[OF nr] and same = refund_step_same[OF L K, of w]
  show ?thesis
  proof (cases "\<exists>ord amount prov. refundable d orderId inp w ord amount prov")
    case False
    then show ?thesis using issue_refused[of d orderId inp w e] same by (auto simp: R)
  next
    case True
    then obtain ord amount prov where ok: "refundable d orderId inp w ord amount prov" by blast
    show ?thesis
    proof (cases "provider_refund prov ord (refund_call e inp ord amount)")
      case (Inl err)
      then show ?thesis using issue_accepted[OF ok, of e] same by (simp add: R)
    next
      case (Inr res)
      show ?thesis
      proof (cases "refund_findByOutRefundNo (w_refunds w) (refund_number e inp)")
        case (Some x)
        then show ?thesis using issue_duplicate[OF L ok Inr] same unfolding R by auto
      next
        case None
        let ?r = "new_refund e inp ord amount res"
        have r: "r_id ?r = uuid_at e 0" "r_orderId ?r = o_id ord" by (simp_all add: new_refund_def)
        obtain w' where w': "issue_refund e d orderId inp w = (Inr ?r, w')" "ledger_ok w'" "w_subs w' = w_subs w"
          "\<forall>i. refund_findById (w_refunds w') i = (if i = uuid_at e 0 then Some ?r else refund_findById (w_refunds w) i)"
          "\<forall>k. order_findById (w_orders w') k = (if k = o_id ord then Some (order_after_refund e ord ?r) else order_findById (w_orders w) k)"
          using issue_refund_writes[OF L ok Inr fresh None] by blast
        have A: "order_findById (w_orders w) orderId = Some ord" "settled_status (o_status ord)"
          using ok by (auto simp: refundable_def settled_status_def)
        have i: "o_id ord = orderId" by (rule order_repo.find_key[OF ledger_okD(1)[OF L] A(1)])
        have "refund_step_ok w w'"
          by (rule refund_step_write[where r = ?r and f = "\<lambda>_. order_after_refund e ord ?r", OF K w'(2,3)])
            (use w'(4,5) r i A refund_evolves_order(1)[OF A(2)] in simp_all)
        then show ?thesis by (simp add: R w'(1))
      qed
    qed
  qed
qed

text \<open>
  C12: the refund ledger. Whatever is requested, and whatever the providers answer or notify, after every
  refund request and every refund notification each order's refunded amount is the total of its refunds
  that have not failed, is never negative and never more than the order's amount, and every refund belongs
  to a known order.
\<close>

theorem refund_ledger_invariant:
  assumes "ledger_ok w" "refunds_known w" "uuid_at e 0 \<noteq> []" "refund_findById (w_refunds w) (uuid_at e 0) = None"
  shows "ledger_ok (snd (refundOrder e d orderId inp w)) \<and> ledger_ok (snd (handleRefundCallback e d m raw w)) \<and>
    refunds_known (snd (refundOrder e d orderId inp w)) \<and> refunds_known (snd (handleRefundCallback e d m raw w))"
  using refundOrder_step[OF assms] handleRefundCallback_step[OF assms(1,2)] unfolding refund_step_ok_def by blast

text \<open>
  a repeated refund number is not issued twice. The provider is not asked, nothing is written, and the
  caller gets the refund of the first request, whatever else the second one says: the amount, and even the
  order, of the repeated request are not compared with those of the first.
\<close>

theorem refund_replayed:
  assumes "refundOrder e d orderId inp w = (Inr r, w')" "ledger_ok w" "truthy (ri_outRefundNo inp)"
    and "uuid_at e 0 \<noteq> []" "refund_findById (w_refunds w) (uuid_at e 0) = None"
    and "ri_outRefundNo inp2 = ri_outRefundNo inp"
  shows "refundOrder e2 d2 orderId2 inp2 w' = (Inr r, w')"
proof (cases "replayed inp w")
  case True
  then have "refund_findByOutRefundNo (w_refunds w) (the (ri_outRefundNo inp)) = Some r" "w' = w"
    using assms(1) by (auto simp: refundOrder_def replayed_def)
  then show ?thesis using assms(3,6) by (simp add: refundOrder_def)
next
  case nr: False
  have run: "issue_refund e d orderId inp w = (Inr r, w')" using assms(1) by (simp add: refundOrder_not_replayed[OF nr])
  obtain ord amount prov where ok: "refundable d orderId inp w ord amount prov"
    using issue_refused[of d orderId inp w e] run by fastforce
  obtain res where res: "provider_refund prov ord (refund_call e inp ord amount) = Inr res"
    using run issue_accepted[OF ok, of e] by (cases "provider_refund prov ord (refund_call e inp ord amount)") simp_all
  have num: "refund_number e inp = the (ri_outRefundNo inp)" using assms(3) by (auto simp: refund_number_def split: option.split)
  then have "refund_findByOutRefundNo (w_refunds w) (refund_number e inp) = None"
    using nr assms(3) by (simp add: replayed_def)
  from issue_refund_writes[OF assms(2) ok res assms(4,5) this] run
  have r: "r = new_refund e inp ord amount res" "ledger_ok w'" "refund_findById (w_refunds w') (uuid_at e 0) = Some r" by auto
  then have "refund_findByOutRefundNo (w_refunds w') (refund_number e inp) = Some r"
    using refund_repo.lookup_iff[OF ledger_okD(2)[OF r(2)]] by (simp add: new_refund_def)
  then show ?thesis using assms(3,6) num by (simp add: refundOrder_def)
qed

text \<open>
  An order can be closed too early. When the order is already \<open>REFUNDED\<close> while one of its refunds is
  still pending (a later refund that settled at once completed the reserved total), the failure of the
  pending one releases its amount but leaves the order \<open>REFUNDED\<close>: less than the order's amount has been
  refunded, and every further refund of the rest is refused.
\<close>

theorem refund_closed_too_early:
  assumes "ledger_ok w" "refund_verified d m raw prov res" "\<not> rc_success res"
    and "\<not> event_seen (w_events w) (refund_callback_key m (rc_eventId res))"
    and "refund_findByOutRefundNo (w_refunds w) (rc_outRefundNo res) = Some r" "r_status r = R_PENDING"
    and "order_findById (w_orders w) (r_orderId r) = Some ord" "o_status ord = REFUNDED"
  shows "\<exists>w' ord'. handleRefundCallback e d m raw w = (Inr (pp_callbackAck prov True), w') \<and>
    order_findById (w_orders w') (r_orderId r) = Some ord' \<and> o_status ord' = REFUNDED \<and> refunded ord' < o_amount ord' \<and>
    (\<forall>e2 d2 inp. ri_outRefundNo inp = None \<longrightarrow>
       (\<exists>msg. refundOrder e2 d2 (r_orderId r) inp w' = (Inl (InvalidStateError msg), w')))"
proof -
  obtain w' where w': "handleRefundCallback e d m raw w = (Inr (pp_callbackAck prov True), w')"
    "order_findById (w_orders w') (r_orderId r) = Some (order_after_result (env_from 1 e) res r ord)" (is "_ = Some ?o")
    using refund_callback_pending[OF assms(1,2,4-6), of e] assms(7) by auto
  have "refunded ord \<le> o_amount ord" using ledger_okD(3)[OF assms(1,7)] by (simp add: order_ledger_def)
  moreover have "0 < r_amount r"
    using ledger_okD(4)[OF assms(1)] refund_repo.lookup_find[OF ledger_okD(2)[OF assms(1)] assms(5)] by blast
  ultimately have o: "o_status ?o = REFUNDED" "refunded ?o < o_amount ?o"
    using assms(3,8) by (simp_all add: order_after_result_status rc_status_def)
  have "\<exists>msg. refundOrder e2 d2 (r_orderId r) inp w' = (Inl (InvalidStateError msg), w')"
    if "ri_outRefundNo inp = None" for e2 d2 inp
    using that w'(2) o(1) by (simp add: refundOrder_def issue_refund_def)
  then show ?thesis using w' o by blast
qed

section \<open>Worked examples\<close>

definition demo_refunding :: "refund_status \<Rightarrow> bool \<Rightarrow> payment_provider" where
  "demo_refunding st success = \<lparr>pp_createPayment = (\<lambda>_. Inl (ProviderError [])), pp_verifyCallback = (\<lambda>_. Inl (SignatureError [])),
     pp_queryPayment = (\<lambda>_. Inl (ProviderError [])),
     pp_callbackAck = (\<lambda>ok. \<lparr>ack_status = (if ok then 200 else 500), ack_contentType = [], ack_body = []\<rparr>),
     pp_refund = Some (\<lambda>_ _. Inr \<lparr>rr_providerRefundId = Some ''wx'', rr_status = st, rr_rawStatus = []\<rparr>),
     pp_verifyRefundCallback = Some (\<lambda>_. Inr \<lparr>rc_outRefundNo = ''RF1'', rc_outTradeNo = ''N1'', rc_providerRefundId = ''wx'',
       rc_success = success, rc_eventId = ''ev'', rc_rawStatus = []\<rparr>)\<rparr>"

definition demo_refund_deps :: "payment_provider \<Rightarrow> refund_deps" where
  "demo_refund_deps p = \<lparr>rd_providers = (\<lambda>_. Some p), rd_outbound = None\<rparr>"

definition demo_refund :: "int \<Rightarrow> refund_status \<Rightarrow> refund" where
  "demo_refund amount st = \<lparr>r_id = ''r1'', r_orderId = ''1'', r_outRefundNo = ''RF1'', r_amount = amount, r_currency = CNY,
     r_reason = None, r_status = st, r_providerRefundId = None, r_rawStatus = [], r_createdAt = 7, r_updatedAt = 7\<rparr>"

definition demo_paid :: "order_status \<Rightarrow> int \<Rightarrow> order" where
  "demo_paid st n = (demo_order ''1'' Wechat 1500 st)\<lparr>o_refundedAmount := Some n\<rparr>"

definition demo_refund_world :: "order \<Rightarrow> refund list \<Rightarrow> world" where
  "demo_refund_world ord rs = empty_world\<lparr>w_orders := projr (order_create ord empty_order_store),
     w_refunds := fold (\<lambda>r st. projr (refund_create r st)) rs empty_refund_store\<rparr>"

lemmas demo_refund_simps = demo_refund_world_def demo_paid_def demo_order_def demo_refund_def order_create_def empty_order_store_def
  order_findById_def refund_create_def empty_refund_store_def refund_findById_def refund_findByOutRefundNo_def
  index_get_def jm_has_def empty_world_def

abbreviation demo_world_paid :: world where
  "demo_world_paid \<equiv> demo_refund_world (demo_paid FULFILLED 0) []"

text \<open>A paid order with a pending refund of the given amount.\<close>

abbreviation demo_world_pending :: "int \<Rightarrow> world" where
  "demo_world_pending n \<equiv> demo_refund_world (demo_paid FULFILLED n) [demo_refund n R_PENDING]"

abbreviation demo_raw_refund :: raw_callback where
  "demo_raw_refund \<equiv> \<lparr>raw_body = [], raw_headers = []\<rparr>"

lemma demo_refund_find:
  "order_findById (w_orders (demo_refund_world (demo_paid st n) rs)) k = (if k = ''1'' then Some (demo_paid st n) else None)"
  "refund_findById (w_refunds (demo_refund_world x [])) i = None"
  "refund_findById (w_refunds (demo_refund_world x [demo_refund a rst])) i = (if i = ''r1'' then Some (demo_refund a rst) else None)"
  "refund_findByOutRefundNo (w_refunds (demo_refund_world x [])) i = None"
  "refund_findByOutRefundNo (w_refunds (demo_refund_world x [demo_refund a rst])) i = (if i = ''RF1'' then Some (demo_refund a rst) else None)"
  "w_events (demo_refund_world x rs) = empty_event_store"
  by (auto simp: demo_refund_simps)

lemma demo_reserved:
  "reserved (w_refunds (demo_refund_world x [])) k = 0"
  "reserved (w_refunds (demo_refund_world x [demo_refund a R_PENDING])) k = (if k = ''1'' then a else 0)"
  by (simp_all add: reserved_def reserved_share_def refund_all_def demo_refund_simps)

lemma demo_paid_simps:
  "o_id (demo_paid st n) = ''1''" "refunded (demo_paid st n) = n" "o_amount (demo_paid st n) = 1500"
  "o_status (demo_paid st n) = st" "o_method (demo_paid st n) = Wechat"
  by (simp_all add: demo_paid_def demo_order_def refunded_def)

lemma demo_ledger:
  "ledger_ok demo_world_paid" "0 < n \<Longrightarrow> n \<le> 1500 \<Longrightarrow> ledger_ok (demo_world_pending n)"
proof -
  have o: "order_store_wf (w_orders (demo_refund_world (demo_paid st n) rs))" for st n rs
  proof -
    have "order_store_wf (projr (order_create (demo_paid st n) empty_order_store))"
      by (rule order_repo.create_valid_projr[OF order_store_wf_empty]) (simp_all add: demo_refund_simps)
    then show ?thesis by (simp add: demo_refund_world_def)
  qed
  have r: "refund_store_wf (w_refunds (demo_refund_world x [demo_refund n R_PENDING]))" for x n
  proof -
    have "refund_store_wf (projr (refund_create (demo_refund n R_PENDING) empty_refund_store))"
      by (rule refund_repo.create_valid_projr[OF refund_store_wf_empty]) (simp_all add: demo_refund_simps)
    then show ?thesis by (simp add: demo_refund_world_def)
  qed
  have r0: "refund_store_wf (w_refunds (demo_refund_world x []))" for x by (simp add: demo_refund_world_def)
  show "ledger_ok demo_world_paid"
    using o r0 by (simp add: ledger_ok_def demo_refund_find order_ledger_def demo_reserved demo_paid_simps)
  show "ledger_ok (demo_world_pending n)" if "0 < n" "n \<le> 1500"
    using o r that by (simp add: ledger_ok_def demo_refund_find order_ledger_def demo_reserved demo_paid_simps settled_status_def)
      (simp add: demo_refund_def)
qed

abbreviation demo_request :: "int option \<Rightarrow> refund_input" where
  "demo_request a \<equiv> \<lparr>ri_amount = map_option JsInt a, ri_reason = None, ri_outRefundNo = Some ''RF1''\<rparr>"

lemma demo_refundable:
  "refundable (demo_refund_deps p) ''1'' (demo_request (Some 600)) demo_world_paid (demo_paid FULFILLED 0) 600 p"
  "refundable (demo_refund_deps p) ''1'' (demo_request None) demo_world_paid (demo_paid FULFILLED 0) 1500 p"
  by (simp_all add: refundable_def demo_refund_find refund_amount_def demo_paid_simps demo_refund_deps_def)

lemma demo_not_replayed: "\<not> replayed (demo_request a) demo_world_paid"
  by (simp add: replayed_def demo_refund_find)

lemma demo_refund_verified:
  "refund_verified (demo_refund_deps (demo_refunding st ok)) Wechat raw (demo_refunding st ok)
     \<lparr>rc_outRefundNo = ''RF1'', rc_outTradeNo = ''N1'', rc_providerRefundId = ''wx'', rc_success = ok, rc_eventId = ''ev'', rc_rawStatus = []\<rparr>"
  by (simp add: refund_verified_def demo_refund_deps_def demo_refunding_def)

lemma no_refund_event: "\<not> event_seen empty_event_store x"
  by (simp add: event_seen_def empty_event_store_def)

theorem refund_accounts_witness:
  "\<exists>r w' ord'. refundOrder (env_at 9) (demo_refund_deps (demo_refunding R_SUCCESS True)) ''1'' (demo_request None) demo_world_paid =
     (Inr r, w') \<and> r_amount r = 1500 \<and> order_findById (w_orders w') ''1'' = Some ord' \<and> refunded ord' = 1500 \<and> o_status ord' = REFUNDED"
proof -
  let ?res = "\<lparr>rr_providerRefundId = Some ''wx'', rr_status = R_SUCCESS, rr_rawStatus = []\<rparr>"
  have res: "provider_refund (demo_refunding R_SUCCESS True) (demo_paid FULFILLED 0)
      (refund_call (env_at 9) (demo_request None) (demo_paid FULFILLED 0) 1500) = Inr ?res"
    by (simp add: provider_refund_def demo_refunding_def)
  show ?thesis
    using refund_accounts[OF demo_ledger(1) demo_refundable(2) demo_not_replayed res]
    by (auto simp: demo_refund_find demo_paid_simps isSettled_def)
qed

theorem refund_refused_witness:
  "refundOrder (env_at 9) (demo_refund_deps (demo_refunding R_SUCCESS True)) ''2'' (demo_request None) demo_world_paid =
     (Inl (NotFoundError ''order not found: 2''), demo_world_paid)"
  using refund_refused[where orderId = "''2''" and e = "env_at 9", OF demo_not_replayed[of None]]
  by (simp add: demo_refund_find)

theorem refund_callback_once_witness:
  "\<exists>w' ord'. handleRefundCallback (env_at 9) (demo_refund_deps (demo_refunding R_PENDING True)) Wechat demo_raw_refund (demo_world_pending 1500) =
      (Inr (pp_callbackAck (demo_refunding R_PENDING True) True), w') \<and>
    order_findById (w_orders w') ''1'' = Some ord' \<and> o_status ord' = REFUNDED \<and>
    handleRefundCallback (env_at 10) (demo_refund_deps (demo_refunding R_PENDING True)) Wechat demo_raw_refund w' =
      (Inr (pp_callbackAck (demo_refunding R_PENDING True) True), w')"
proof -
  have l: "ledger_ok (demo_world_pending 1500)" by (rule demo_ledger(2)) simp_all
  have r: "r_orderId (demo_refund 1500 R_PENDING) = ''1''" "r_status (demo_refund 1500 R_PENDING) = R_PENDING"
    by (simp_all add: demo_refund_def)
  from refund_callback_once[where r = "demo_refund 1500 R_PENDING" and ord = "demo_paid FULFILLED 1500" and e = "env_at 9",
      OF l demo_refund_verified[of R_PENDING True demo_raw_refund]]
  show ?thesis by (auto simp: demo_refund_find no_refund_event r demo_paid_simps)
qed

theorem refund_ledger_invariant_witness:
  "ledger_ok (snd (refundOrder (env_at 9) (demo_refund_deps (demo_refunding R_PENDING True)) ''1'' (demo_request (Some 600)) demo_world_paid))"
proof -
  have "refunds_known demo_world_paid" by (simp add: refunds_known_def demo_refund_find)
  from refund_ledger_invariant[OF demo_ledger(1) this, of "env_at 9"] show ?thesis by (simp add: demo_refund_find)
qed

theorem refund_replayed_witness:
  "\<exists>r w'. refundOrder (env_at 9) (demo_refund_deps (demo_refunding R_SUCCESS True)) ''1'' (demo_request (Some 600)) demo_world_paid = (Inr r, w') \<and>
     refundOrder (env_at 20) (demo_refund_deps (demo_refunding R_FAILED True)) ''7'' (demo_request (Some 900)) w' = (Inr r, w')"
proof -
  let ?d = "demo_refund_deps (demo_refunding R_SUCCESS True)" let ?q = "demo_request (Some 600)"
  have "provider_refund (demo_refunding R_SUCCESS True) (demo_paid FULFILLED 0) (refund_call (env_at 9) ?q (demo_paid FULFILLED 0) 600) =
      Inr \<lparr>rr_providerRefundId = Some ''wx'', rr_status = R_SUCCESS, rr_rawStatus = []\<rparr>"
    by (simp add: provider_refund_def demo_refunding_def)
  from issue_refund_writes[OF demo_ledger(1) demo_refundable(1) this]
  have "is_ok (fst (refundOrder (env_at 9) ?d ''1'' ?q demo_world_paid))"
    unfolding refundOrder_not_replayed[OF demo_not_replayed] by (auto simp: demo_refund_find refund_number_def)
  then obtain r w' where run: "refundOrder (env_at 9) ?d ''1'' ?q demo_world_paid = (Inr r, w')"
    by (metis is_ok_simps(2) old.sum.exhaust prod.collapse)
  have "refundOrder (env_at 20) (demo_refund_deps (demo_refunding R_FAILED True)) ''7'' (demo_request (Some 900)) w' = (Inr r, w')"
    by (rule refund_replayed[OF run demo_ledger(1)]) (simp_all add: demo_refund_find)
  with run show ?thesis by blast
qed

text \<open>Of 1500, 500 are pending; 1000 more settle at once and close the order; then the 500 fail.\<close>

theorem refund_closed_too_early_witness:
  "\<exists>w1 w2 r ord1 ord2. refundOrder (env_at 9) (demo_refund_deps (demo_refunding R_SUCCESS False)) ''1''
       \<lparr>ri_amount = Some (JsInt 1000), ri_reason = None, ri_outRefundNo = Some ''RF2''\<rparr> (demo_world_pending 500) = (Inr r, w1) \<and>
    order_findById (w_orders w1) ''1'' = Some ord1 \<and> o_status ord1 = REFUNDED \<and> refunded ord1 = 1500 \<and>
    handleRefundCallback (env_at 10) (demo_refund_deps (demo_refunding R_SUCCESS False)) Wechat demo_raw_refund w1 =
      (Inr (pp_callbackAck (demo_refunding R_SUCCESS False) True), w2) \<and>
    order_findById (w_orders w2) ''1'' = Some ord2 \<and> o_status ord2 = REFUNDED \<and> refunded ord2 < o_amount ord2"
proof -
  let ?p = "demo_refunding R_SUCCESS False" let ?q = "\<lparr>ri_amount = Some (JsInt 1000), ri_reason = None, ri_outRefundNo = Some ''RF2''\<rparr>"
  let ?o = "demo_paid FULFILLED 500" let ?r = "demo_refund 500 R_PENDING"
  let ?res = "\<lparr>rr_providerRefundId = Some ''wx'', rr_status = R_SUCCESS, rr_rawStatus = []\<rparr>"
  have l: "ledger_ok (demo_world_pending 500)" by (rule demo_ledger(2)) simp_all
  have ok: "refundable (demo_refund_deps ?p) ''1'' ?q (demo_world_pending 500) ?o 1000 ?p"
    by (simp add: refundable_def demo_refund_find refund_amount_def demo_paid_simps demo_refund_deps_def)
  have res: "provider_refund ?p ?o (refund_call (env_at 9) ?q ?o 1000) = Inr ?res"
    by (simp add: provider_refund_def demo_refunding_def)
  have nr: "\<not> replayed ?q (demo_world_pending 500)" by (simp add: replayed_def demo_refund_find)
  have r: "r_id ?r = ''r1''" "r_orderId ?r = ''1''" "r_status ?r = R_PENDING" "r_outRefundNo ?r = ''RF1''"
    by (simp_all add: demo_refund_def)
  let ?n = "new_refund (env_at 9) ?q ?o 1000 ?res" let ?o1 = "order_after_refund (env_at 9) ?o ?n"
  obtain w1 where w1: "refundOrder (env_at 9) (demo_refund_deps ?p) ''1'' ?q (demo_world_pending 500) = (Inr ?n, w1)" "ledger_ok w1"
    "refund_findById (w_refunds w1) ''r1'' = Some ?r" "order_findById (w_orders w1) ''1'' = Some ?o1" "w_events w1 = empty_event_store"
    using issue_refund_writes[OF l ok res] unfolding refundOrder_not_replayed[OF nr]
    by (auto simp: demo_refund_find demo_paid_simps refund_number_def)
  have o1: "o_status ?o1 = REFUNDED" "refunded ?o1 = 1500"
    by (simp_all add: order_after_refund_def new_refund_def isSettled_def reserved_order_def demo_paid_simps refunded_def) (simp_all add: demo_paid_def)
  have byNo: "refund_findByOutRefundNo (w_refunds w1) ''RF1'' = Some ?r"
    using refund_repo.lookup_iff[OF ledger_okD(2)[OF w1(2)]] w1(3) r by simp
  from refund_closed_too_early[where r = ?r and ord = ?o1 and e = "env_at 10",
      OF w1(2) demo_refund_verified[of R_SUCCESS False demo_raw_refund]] w1 o1 byNo r
  show ?thesis by (auto simp: no_refund_event)
qed

end
