(* ===== verification/System.thy ===== *)
theory System
  imports PaymentService RefundService
begin

text \<open>
  The services together: every sequence of their operations on one shared state, in any order and with
  any answers of the providers, as an inductive step relation, each operation running to its end before the
  next begins (settlements whose awaits overlap are in \<open>Interleave\<close>), and the invariant that all of its reachable
  states satisfy. Operations that do not touch orders, refunds or subscriptions (webhook deliveries, the
  sweep pipeline, forgetting old events) are one environment step that may change the rest at will.
\<close>

section \<open>How often an order was granted\<close>

definition grants :: "sub_store \<Rightarrow> string \<Rightarrow> int" where
  "grants st k = sum_list (map (\<lambda>s. int (count_list (s_orderIds s) k)) (sub_all st))"

lemma grants_granted:
  assumes wf: "sub_store_wf st" and new: "uuid_at e 0 \<noteq> []" "sub_find st (uuid_at e 0) = None"
    and g: "granted e ord plan st = (s, st')"
  shows "grants st' k = grants st k + (if k = o_id ord then 1 else 0)"
proof (cases "\<exists>x. sub_findActiveByUser st (o_userId ord) = Some x \<and> s_expiresAt x > now_at e 0")
  case True
  then obtain x where x: "sub_findActiveByUser st (o_userId ord) = Some x" "s_expiresAt x > now_at e 0" by blast
  let ?s = "renewed (now_at e 0) ord plan x"
  have st': "st' = sub_update ?s st" using g x by (auto simp: granted_def Let_def)
  have "sub_find st (s_id ?s) = Some x" "s_orderIds ?s = s_orderIds x @ [o_id ord]"
    using sub_repo.current_stored[OF wf x(1)] by (simp_all add: renewed_def)
  then show ?thesis by (simp add: grants_def st' sub_all_write)
next
  case False
  let ?s = "started e (now_at e 0) ord plan"
  have st': "st' = sub_create ?s st" using g False by (auto simp: granted_def Let_def split: option.splits if_splits)
  have "sub_find st (s_id ?s) = None" "s_orderIds ?s = [o_id ord]" using new by (simp_all add: started_def)
  then show ?thesis by (simp add: grants_def st' sub_all_write)
qed

text \<open>The expiry passes rewrite subscriptions without touching what they were paid by.\<close>

lemma grants_update_each:
  assumes wf: "sub_store_wf st" and stored: "\<And>s. s \<in> set xs \<Longrightarrow> sub_find st (s_id s) = Some s"
    and d: "distinct (map s_id xs)" and f: "\<And>s. s_id (f s) = s_id s \<and> s_userId (f s) = s_userId s \<and> s_orderIds (f s) = s_orderIds s"
  shows "sub_store_wf (fold (\<lambda>s. sub_update (f s)) xs st) \<and> grants (fold (\<lambda>s. sub_update (f s)) xs st) k = grants st k"
  using wf stored d
proof (induction xs arbitrary: st)
  case (Cons x xs)
  let ?st = "sub_update (f x) st"
  have x: "sub_find st (s_id x) = Some x" using Cons.prems by simp
  have wf': "sub_store_wf ?st" using sub_repo.update_valid[OF Cons.prems(1), of "f x" x] f[of x] x by simp
  have "s \<in> set xs \<Longrightarrow> s_id s \<noteq> s_id x" for s using Cons.prems(3) by (metis distinct.simps(2) image_eqI list.simps(9) set_map)
  then have st': "sub_find ?st (s_id s) = Some s" if "s \<in> set xs" for s
    using that f[of x] Cons.prems(2)[of s] by (simp add: sub_repo.stored_update)
  have "grants ?st k = grants st k" using f[of x] x by (simp add: grants_def sub_all_write)
  then show ?case using Cons.IH[OF wf' st'] Cons.prems(3) by simp
qed simp

text \<open>A subscription store that grants the same to the same.\<close>

definition same_grants :: "sub_store \<Rightarrow> sub_store \<Rightarrow> bool" where
  "same_grants st st' \<longleftrightarrow> sub_store_wf st' \<and> (\<forall>k. grants st' k = grants st k)"

lemma reminders_same_grants:
  assumes "sub_store_wf st"
  shows "same_grants st (fst (snd (sendExpiryReminders e window notify (st, lg))))"
proof -
  let ?D = "filter (dueForReminder (now_at e 0) (now_at e 0 + window)) (sub_listActive st)"
  let ?xs = "delivered notify (notification_of subscription_expiring (now_at e 0)) ?D"
  have sub: "set ?xs \<subseteq> set (sub_listActive st)"
    by (auto simp: delivered_def dest: set_takeWhileD)
  have d: "distinct (map s_id ?xs)" by (subst delivered_take) (intro distinct_map_take distinct_active assms)
  show ?thesis
    using grants_update_each[OF assms listActive_snapshot[OF assms sub] d, of "\<lambda>s. s\<lparr>s_expiryNotifiedAt := Some (now_at e 0)\<rparr>"]
    by (simp add: sendExpiryReminders_def Let_def remind_loop_eq same_grants_def)
qed

lemma deactivate_same_grants:
  assumes "sub_store_wf st"
  shows "same_grants st (fst (snd (deactivateExpired e notify (st, lg))))"
proof -
  let ?D = "filter (\<lambda>s. s_expiresAt s \<le> now_at e 0) (sub_listActive st)"
  let ?k = "Suc (length (delivered notify (notification_of subscription_expired (now_at e 0)) ?D))"
  have sub: "set (take ?k ?D) \<subseteq> set (sub_listActive st)" by (auto dest: in_set_takeD)
  have d: "distinct (map s_id (take ?k ?D))" by (intro distinct_map_take distinct_active assms)
  show ?thesis
    using grants_update_each[OF assms listActive_snapshot[OF assms sub] d, of "\<lambda>s. s\<lparr>s_active := False, s_updatedAt := now_at e 0\<rparr>"]
    by (simp add: deactivateExpired_def Let_def deactivate_loop_eq same_grants_def)
qed

section \<open>The invariant\<close>

definition order_good :: "order \<Rightarrow> bool" where
  "order_good ord \<longleftrightarrow> getPlan PLANS (o_planId ord) \<noteq> None \<and> o_status ord \<noteq> PAID \<and>
     settled_status (o_status ord) = (o_paidAt ord \<noteq> None)"

definition granted_once :: "world \<Rightarrow> bool" where
  "granted_once w \<longleftrightarrow> (\<forall>k. grants (w_subs w) k =
     (case order_findById (w_orders w) k of None \<Rightarrow> 0 | Some ord \<Rightarrow> if settled_status (o_status ord) then 1 else 0))"

definition awaiting_usdt :: "order \<Rightarrow> bool" where
  "awaiting_usdt ord \<longleftrightarrow> o_method ord = Usdt \<and> o_status ord = PENDING"

definition amounts_distinct :: "world \<Rightarrow> bool" where
  "amounts_distinct w \<longleftrightarrow> (\<forall>i j x y. order_findById (w_orders w) i = Some x \<and> order_findById (w_orders w) j = Some y \<and>
     awaiting_usdt x \<and> awaiting_usdt y \<and> o_amount x = o_amount y \<longrightarrow> i = j)"

definition system_ok :: "address_mode option \<Rightarrow> world \<Rightarrow> bool" where
  "system_ok mode w \<longleftrightarrow> ledger_ok w \<and> refunds_known w \<and> sub_store_wf (w_subs w) \<and>
     (\<forall>k ord. order_findById (w_orders w) k = Some ord \<longrightarrow> order_good ord) \<and> granted_once w \<and>
     (mode \<noteq> Some PerOrder \<longrightarrow> amounts_distinct w)"

lemma system_okD:
  assumes "system_ok mode w"
  shows "ledger_ok w" "refunds_known w" "sub_store_wf (w_subs w)" "granted_once w"
    and "order_findById (w_orders w) k = Some ord \<Longrightarrow> order_good ord" and "mode \<noteq> Some PerOrder \<Longrightarrow> amounts_distinct w"
  using assms unfolding system_ok_def by blast+

lemma order_good_pending: "order_good ord \<Longrightarrow> o_status ord = PENDING \<Longrightarrow> o_paidAt ord = None"
  by (auto simp: order_good_def settled_status_def)

text \<open>Preserving the invariant: the ledger, the grants against the paid orders, and each order on its own.\<close>

definition paid_count :: "world \<Rightarrow> string \<Rightarrow> int" where
  "paid_count w k = (case order_findById (w_orders w) k of None \<Rightarrow> 0 | Some ord \<Rightarrow> if settled_status (o_status ord) then 1 else 0)"

lemma granted_once_count: "granted_once w \<longleftrightarrow> (\<forall>k. grants (w_subs w) k = paid_count w k)"
  by (simp add: granted_once_def paid_count_def)

text \<open>An order moves on: what it is for stays, and its status changes along the table.\<close>

definition order_moves :: "order \<Rightarrow> order \<Rightarrow> bool" where
  "order_moves a b \<longleftrightarrow> o_id b = o_id a \<and> o_amount b = o_amount a \<and> o_method b = o_method a \<and> o_planId b = o_planId a \<and>
     order_step\<^sup>*\<^sup>* (o_status a) (o_status b)"

lemma order_moves_refl [simp]: "order_moves a a"
  by (simp add: order_moves_def)

lemma order_moves_pending: "order_moves a b \<Longrightarrow> o_status b = PENDING \<Longrightarrow> o_status a = PENDING"
proof -
  assume "order_moves a b" "o_status b = PENDING"
  then have "order_depth PENDING \<le> order_depth (o_status a)" by (intro order_steps_depth) (simp add: order_moves_def)
  then show ?thesis by (cases "o_status a") simp_all
qed

lemma order_steps:
  "order_step\<^sup>*\<^sup>* PENDING FULFILLED" "order_step\<^sup>*\<^sup>* PENDING EXPIRED" "settled_status st \<Longrightarrow> order_step\<^sup>*\<^sup>* st REFUNDED"
proof -
  have "order_step PENDING PAID" "order_step PAID FULFILLED" "order_step PENDING EXPIRED" "order_step PAID REFUNDED" "order_step FULFILLED REFUNDED"
    by (simp_all add: order_step_simps canTransition_def)
  then show "order_step\<^sup>*\<^sup>* PENDING FULFILLED" "order_step\<^sup>*\<^sup>* PENDING EXPIRED" "settled_status st \<Longrightarrow> order_step\<^sup>*\<^sup>* st REFUNDED"
    by (auto simp: settled_status_def)
qed

text \<open>A step is sound: the invariant holds after it, and no order disappears or jumps.\<close>

definition system_next :: "address_mode option \<Rightarrow> world \<Rightarrow> world \<Rightarrow> bool" where
  "system_next mode w w' \<longleftrightarrow> system_ok mode w' \<and>
     (\<forall>k a. order_findById (w_orders w) k = Some a \<longrightarrow> (\<exists>b. order_findById (w_orders w') k = Some b \<and> order_moves a b))"

lemma amounts_distinct_moves:
  assumes "amounts_distinct w"
    and "\<And>k b. order_findById (w_orders w') k = Some b \<Longrightarrow> \<exists>a. order_findById (w_orders w) k = Some a \<and> order_moves a b"
  shows "amounts_distinct w'"
  unfolding amounts_distinct_def
proof (intro allI impI, elim conjE)
  fix i j x y
  assume x: "order_findById (w_orders w') i = Some x" "awaiting_usdt x" and y: "order_findById (w_orders w') j = Some y" "awaiting_usdt y"
    and eq: "o_amount x = o_amount y"
  obtain a b where ab: "order_findById (w_orders w) i = Some a" "order_moves a x" "order_findById (w_orders w) j = Some b" "order_moves b y"
    using assms(2)[OF x(1)] assms(2)[OF y(1)] by blast
  have "awaiting_usdt a" "awaiting_usdt b" "o_amount a = o_amount b"
    using order_moves_pending[OF ab(2)] order_moves_pending[OF ab(4)] ab(2,4) x(2) y(2) eq
    by (simp_all add: order_moves_def awaiting_usdt_def)
  then show "i = j" using assms(1) ab unfolding amounts_distinct_def by blast
qed

lemma system_ok_moves:
  assumes ok: "system_ok mode w" and "ledger_ok w'" "refunds_known w'" "sub_store_wf (w_subs w')"
    and count: "\<And>k. grants (w_subs w') k - grants (w_subs w) k = paid_count w' k - paid_count w k"
    and none: "\<And>k. order_findById (w_orders w) k = None \<Longrightarrow> order_findById (w_orders w') k = None"
    and moves: "\<And>k a. order_findById (w_orders w) k = Some a \<Longrightarrow>
      \<exists>b. order_findById (w_orders w') k = Some b \<and> order_good b \<and> order_moves a b"
  shows "system_next mode w w'"
proof -
  note D = system_okD[OF ok]
  have bwd: "\<exists>a. order_findById (w_orders w) k = Some a \<and> order_good b \<and> order_moves a b"
    if "order_findById (w_orders w') k = Some b" for k b
    using that none[of k] moves[of k] by (cases "order_findById (w_orders w) k") auto
  have "amounts_distinct w'" if "mode \<noteq> Some PerOrder" by (rule amounts_distinct_moves[OF D(6)[OF that]]) (use bwd in blast)
  moreover have "grants (w_subs w') k = paid_count w' k" for k
    using D(4) count[of k] by (simp add: granted_once_count)
  ultimately have "system_ok mode w'" using assms(2-4) bwd unfolding system_ok_def granted_once_count by blast
  then show ?thesis using moves unfolding system_next_def by blast
qed

lemma system_next_refl: "system_ok mode w \<Longrightarrow> system_next mode w w"
  by (auto simp: system_next_def)

lemma system_next_from: "system_next mode w1 w' \<Longrightarrow> w_orders w1 = w_orders w \<Longrightarrow> system_next mode w w'"
  by (simp add: system_next_def)

lemma system_ok_frame:
  assumes "system_ok mode w" "w_orders w' = w_orders w" "w_refunds w' = w_refunds w" "w_subs w' = w_subs w"
  shows "system_next mode w w'"
  using assms by (auto simp: system_next_def system_ok_def ledger_ok_def refunds_known_def granted_once_def amounts_distinct_def)

section \<open>Each operation keeps the invariant\<close>

text \<open>The ids an operation draws have not been used: what \<open>randomUUID\<close> is relied on for.\<close>

definition fresh :: "env \<Rightarrow> world \<Rightarrow> bool" where
  "fresh e w \<longleftrightarrow> (\<forall>i. uuid_at e i \<noteq> [] \<and> order_findById (w_orders w) (uuid_at e i) = None \<and>
     refund_findById (w_refunds w) (uuid_at e i) = None \<and> sub_find (w_subs w) (uuid_at e i) = None)"

lemma fresh_from: "fresh e w \<Longrightarrow> fresh (env_from n e) w"
  by (simp add: fresh_def)

lemma fresh_marked [simp]: "fresh e (snd (mark_event e' x w)) = fresh e w"
  by (simp add: fresh_def)

lemma applyPayment_step:
  assumes ok: "system_ok mode w" and fr: "fresh e w" and pl: "pd_plans d = PLANS"
  shows "system_next mode w (snd (applyPayment e d i paid w))"
proof (cases "order_findById (w_orders w) i")
  case None
  then show ?thesis using system_next_refl[OF ok] by (simp add: applyPayment_def)
next
  case (Some ord)
  note D = system_okD[OF ok] and L = ledger_okD[OF system_okD(1)[OF ok]]
  show ?thesis
  proof (cases "acceptable paid ord")
    case False
    then show ?thesis using applyPayment_refused(1)[OF Some] system_next_refl[OF ok] by simp
  next
    case True
    have good: "order_good ord" by (rule D(5)[OF Some])
    then obtain plan where plan: "getPlan (pd_plans d) (o_planId ord) = Some plan" by (auto simp: order_good_def pl)
    have id: "o_id ord = i" by (rule order_repo.find_key[OF L(1) Some])
    obtain w' where run: "applyPayment e d i paid w = (Inr (final_order e paid ord), w')"
      and f: "w_subs w' = settled_subs e d paid ord w" "w_refunds w' = w_refunds w"
      using applyPayment_accepted[OF Some id True plan, of e] by blast
    note F = applyPayment_find[OF L(1) Some True plan run]
    let ?f = "final_order e paid ord"
    have ff: "refunded ?f = refunded ord" "o_paidAt ?f \<noteq> None" by (simp_all add: final_order_def paid_order_def refunded_def)
    have pend: "\<not> settled_status (o_status ord)" using True by (simp add: acceptable_def settled_status_def)
    obtain s where g: "granted (env_from 1 e) (paid_order e paid ord) plan (w_subs w) = (s, w_subs w')"
      unfolding f(1) settled_subs_def fulfill_paid[OF plan] by (metis prod.collapse snd_conv)
    have new: "uuid_at (env_from 1 e) 0 \<noteq> []" "sub_find (w_subs w) (uuid_at (env_from 1 e) 0) = None"
      using fr unfolding fresh_def by simp_all
    have "order_ledger (w_refunds w) x" if "order_findById (w_orders w') k = Some x" for k x
      using that L(3)[OF Some] L(3)[of k x] ff id unfolding F(3) order_ledger_def
      by (cases "k = i") (auto simp: settled_status_def)
    then have led: "ledger_ok w'" using L(2,4) F(2) unfolding ledger_ok_def f(2) by blast
    have kn: "refunds_known w'" using D(2) Some unfolding refunds_known_def f(2) F(3) by simp
    have "system_next mode w w'"
    proof (rule system_ok_moves[OF ok led kn])
      show "sub_store_wf (w_subs w')" by (rule granted_props(1)[OF D(3) new g])
      show "grants (w_subs w') k - grants (w_subs w) k = paid_count w' k - paid_count w k" for k
        using grants_granted[OF D(3) new g, of k] Some pend id
        by (simp add: paid_count_def F(3)) (simp add: settled_status_def)
      show "order_findById (w_orders w') k = None" if "order_findById (w_orders w) k = None" for k
        using that Some by (auto simp: F(3))
      show "\<exists>b. order_findById (w_orders w') k = Some b \<and> order_good b \<and> order_moves a b"
        if a: "order_findById (w_orders w) k = Some a" for k a
      proof (cases "k = i")
        case k: True
        have "order_moves ord ?f" using True order_steps(1) by (simp add: order_moves_def acceptable_def)
        moreover have "order_good ?f" using good ff(2) by (auto simp: order_good_def settled_status_def)
        ultimately show ?thesis using a Some k by (simp add: F(3))
      next
        case False
        then show ?thesis using a D(5)[OF a] by (simp add: F(3))
      qed
    qed
    then show ?thesis by (simp add: run)
  qed
qed

lemma marked_step:
  assumes "system_ok mode w" "fresh e w" "pd_plans d = PLANS"
  shows "system_next mode w (snd (mark_event e x w))"
    and "system_next mode w (snd (applyPayment (env_from 1 e) d k paid (snd (mark_event e x w))))"
proof -
  show m: "system_next mode w (snd (mark_event e x w))" by (rule system_ok_frame[OF assms(1)]) simp_all
  have "system_next mode (snd (mark_event e x w)) (snd (applyPayment (env_from 1 e) d k paid (snd (mark_event e x w))))"
    using m assms(2,3) unfolding system_next_def by (intro applyPayment_step[unfolded system_next_def]) (simp_all add: fresh_from)
  then show "system_next mode w (snd (applyPayment (env_from 1 e) d k paid (snd (mark_event e x w))))"
    by (rule system_next_from) simp
qed

lemma handleCallback_step:
  assumes ok: "system_ok mode w" and fr: "fresh e w" and pl: "pd_plans d = PLANS"
  shows "system_next mode w (snd (handleCallback e d m raw w))"
proof (cases "\<exists>prov r. verified d m raw prov r \<and> cb_paid r \<and> \<not> event_seen (w_events w) (callback_key m (cb_eventId r))")
  case True
  then obtain prov r where v: "verified d m raw prov r" "cb_paid r" "\<not> event_seen (w_events w) (callback_key m (cb_eventId r))" by blast
  show ?thesis using marked_step[OF assms] unfolding handleCallback_new[OF v] Let_def
    by (simp split: option.split sum.split prod.split) (metis snd_conv)
next
  case False
  have "snd (handleCallback e d m raw w) = w"
    using False by (auto simp: handleCallback_def provider_of_def verified_def mark_event_old split: option.splits sum.splits)
  then show ?thesis using system_next_refl[OF ok] by simp
qed

lemma syncOrder_step:
  assumes "system_ok mode w" "fresh e w" "pd_plans d = PLANS"
  shows "system_next mode w (snd (syncOrder e d i w))"
  using system_next_refl[OF assms(1)] marked_step[OF assms]
  by (simp add: syncOrder_def Let_def split_beta split: option.split sum.split)

lemma expireStaleOrders_step:
  assumes ok: "system_ok mode w"
  shows "system_next mode w (snd (expireStaleOrders e w))"
proof -
  note D = system_okD[OF ok] and L = ledger_okD[OF system_okD(1)[OF ok]]
  let ?xs = "order_all (w_orders w)" and ?now = "now_at e 0"
  have st: "\<forall>x \<in> set ?xs. order_findById (w_orders w) (o_id x) = Some x" using order_list.listing_iff[OF L(1)] by blast
  from expire_loop_props[OF L(1) st order_list.distinct_listing[OF L(1)], of e ?now 0 0] obtain w' where
    run: "expire_loop e ?now 0 ?xs 0 w = (Inr (0 + length (filter (stale ?now) ?xs)), w')" and w': "order_store_wf (w_orders w')" "w'\<lparr>w_orders := w_orders w\<rparr> = w"
    and F: "\<And>k. case order_findById (w_orders w) k of
        None \<Rightarrow> order_findById (w_orders w') k = None
      | Some x \<Rightarrow> if x \<in> set ?xs \<and> stale ?now x then \<exists>t. order_findById (w_orders w') k = Some (x\<lparr>o_status := EXPIRED, o_updatedAt := t\<rparr>)
          else order_findById (w_orders w') k = Some x" by auto
  have fr: "w_refunds w' = w_refunds w" "w_subs w' = w_subs w" by (subst w'(2)[symmetric], simp)+
  have E: "\<exists>a. order_findById (w_orders w) k = Some a \<and> (b = a \<or> o_status a = PENDING \<and> (\<exists>t. b = a\<lparr>o_status := EXPIRED, o_updatedAt := t\<rparr>))"
    if "order_findById (w_orders w') k = Some b" for k b
    using F[of k] that by (auto simp: stale_def split: option.splits if_splits)
  have moved: "order_good b \<and> order_moves a b \<and> o_id b = o_id a \<and> refunded b = refunded a \<and> settled_status (o_status b) = settled_status (o_status a)"
    if "order_findById (w_orders w) k = Some a" "b = a \<or> o_status a = PENDING \<and> (\<exists>t. b = a\<lparr>o_status := EXPIRED, o_updatedAt := t\<rparr>)" for k a b
    using that(2) D(5)[OF that(1)] order_steps(2) by (auto simp: order_good_def order_moves_def settled_status_def)
  have none: "order_findById (w_orders w') k = None \<longleftrightarrow> order_findById (w_orders w) k = None" for k
    using F[of k] by (auto split: option.splits if_splits)
  have led: "ledger_ok w'"
  proof -
    have "order_ledger (w_refunds w) b" if "order_findById (w_orders w') k = Some b" for k b
      using E[OF that] moved L(3) unfolding order_ledger_def order_moves_def by metis
    then show ?thesis using L(2,4) w'(1) unfolding ledger_ok_def fr by blast
  qed
  have kn: "refunds_known w'" using D(2) none unfolding refunds_known_def fr by blast
  have cnt: "paid_count w' k = paid_count w k" for k
  proof (cases "order_findById (w_orders w') k")
    case None
    then show ?thesis using none[of k] by (simp add: paid_count_def)
  next
    case (Some b)
    then obtain a where a: "order_findById (w_orders w) k = Some a" "b = a \<or> o_status a = PENDING \<and> (\<exists>t. b = a\<lparr>o_status := EXPIRED, o_updatedAt := t\<rparr>)"
      using E by blast
    then show ?thesis using moved[OF a] Some by (simp add: paid_count_def)
  qed
  have "system_next mode w w'"
  proof (rule system_ok_moves[OF ok led kn])
    show "\<exists>b. order_findById (w_orders w') k = Some b \<and> order_good b \<and> order_moves a b"
      if a: "order_findById (w_orders w) k = Some a" for k a
    proof -
      obtain b where b: "order_findById (w_orders w') k = Some b" using a none[of k] by (cases "order_findById (w_orders w') k") auto
      from E[OF b] obtain a' where a': "order_findById (w_orders w) k = Some a'"
        "b = a' \<or> o_status a' = PENDING \<and> (\<exists>t. b = a'\<lparr>o_status := EXPIRED, o_updatedAt := t\<rparr>)" by (elim exE conjE)
      have "a' = a" using a a'(1) by simp
      then show ?thesis using moved[OF a'] b by simp
    qed
  qed (use D(3) fr cnt none in simp_all)
  then show ?thesis by (simp add: expireStaleOrders_def run)
qed

lemma refund_step_system:
  assumes ok: "system_ok mode w" and s: "refund_step_ok w w'"
  shows "system_next mode w w'"
proof -
  note D = system_okD[OF ok]
  have S: "ledger_ok w'" "refunds_known w'" "w_subs w' = w_subs w"
    and rel: "rel_option refund_evolves (order_findById (w_orders w) k) (order_findById (w_orders w') k)" for k
    using s unfolding refund_step_ok_def by blast+
  show ?thesis
  proof (rule system_ok_moves[OF ok S(1,2)])
    show "grants (w_subs w') k - grants (w_subs w) k = paid_count w' k - paid_count w k" for k
      using rel[of k] S(3) by (auto simp: paid_count_def refund_evolves_def settled_status_def elim!: option.rel_cases)
    show "order_findById (w_orders w') k = None" if "order_findById (w_orders w) k = None" for k
      using rel[of k] that by simp
    show "\<exists>b. order_findById (w_orders w') k = Some b \<and> order_good b \<and> order_moves a b"
      if a: "order_findById (w_orders w) k = Some a" for k a
    proof -
      obtain b where b: "order_findById (w_orders w') k = Some b" "refund_evolves a b"
        using rel[of k] a by (auto elim: option.rel_cases)
      have "order_good b" "order_moves a b"
        using D(5)[OF a] b(2) order_steps(3)[of "o_status a"] by (auto simp: order_good_def order_moves_def refund_evolves_def settled_status_def)
      then show ?thesis using b(1) by blast
    qed
  qed (use D(3) S(3) in simp_all)
qed

lemma same_grants_step:
  assumes ok: "system_ok mode w" and s: "same_grants (w_subs w) st"
  shows "system_next mode w (w\<lparr>w_subs := st\<rparr>)"
proof -
  note D = system_okD[OF ok]
  show ?thesis
    by (rule system_ok_moves[OF ok])
      (use D s in \<open>simp_all add: same_grants_def paid_count_def ledger_ok_def refunds_known_def\<close>)
qed

text \<open>Amounts given to new orders: never negative, and in shared mode not the one of a pending order.\<close>

lemma plan_prices: "getPlan PLANS i = Some plan \<Longrightarrow> 0 \<le> p_priceCnyFen plan \<and> 0 \<le> p_priceUsdtMicro plan"
  using getPlan_enabled[of PLANS i plan] by (auto simp: listPlans_def PLANS_def)

lemma unique_amount:
  assumes "allocateUniqueAmount base taken maxDelta = Inr a"
  shows "base \<le> a" "a \<notin> set taken"
  using assms allocate_loop_props[of base taken maxDelta 0 a] by (simp_all add: allocateUniqueAmount_def)

lemma resolveAmount_props:
  assumes "resolveAmount d m cny usdt st = Inr a" "0 \<le> cny" "0 \<le> usdt"
  shows "0 \<le> a"
    and "m = Usdt \<Longrightarrow> pd_usdtAddressMode d \<noteq> Some PerOrder \<Longrightarrow> a \<notin> o_amount ` {x \<in> set (order_all st). awaiting_usdt x}"
proof -
  have u: "usdt \<le> a \<and> a \<notin> set (map o_amount (order_findPendingByMethod st Usdt))"
    if "m = Usdt" "pd_usdtAddressMode d \<noteq> Some PerOrder"
    using assms(1) that unique_amount[of usdt "map o_amount (order_findPendingByMethod st Usdt)" "pd_usdtUniqueDeltaMax d" a]
    by (simp add: resolveAmount_def)
  show "0 \<le> a" using assms u by (auto simp: resolveAmount_def split: if_splits)
  show "a \<notin> o_amount ` {x \<in> set (order_all st). awaiting_usdt x}" if "m = Usdt" "pd_usdtAddressMode d \<noteq> Some PerOrder"
    using u[OF that] by (auto simp: order_findPendingByMethod_def order_all_def awaiting_usdt_def)
qed

lemma no_refunds_reserved:
  assumes "ledger_ok w" "refunds_known w" "order_findById (w_orders w) k = None"
  shows "reserved (w_refunds w) k = 0"
proof -
  have "reserved_share k r = 0" if "r \<in> set (refund_all (w_refunds w))" for r
  proof -
    have "refund_findById (w_refunds w) (r_id r) = Some r" using that refund_list.listing_iff[OF ledger_okD(2)[OF assms(1)]] by blast
    then have "r_orderId r \<noteq> k" using assms(2,3) unfolding refunds_known_def by metis
    then show ?thesis by (simp add: reserved_share_def)
  qed
  then show ?thesis unfolding reserved_def by (induction "refund_all (w_refunds w)") (simp_all add: sum_list_0 cong: map_cong)
qed

lemma createOrder_step:
  assumes ok: "system_ok (pd_usdtAddressMode d) w" and fr: "fresh e w" and pl: "pd_plans d = PLANS"
  shows "system_next (pd_usdtAddressMode d) w (snd (createOrder e d inp w))"
proof (cases "\<exists>plan prov amount ord w1. placed e d inp w plan prov amount ord w1")
  case False
  note D = system_okD[OF ok] and L = ledger_okD[OF system_okD(1)[OF ok]]
  have "w_orders (snd (createOrder e d inp w)) = w_orders w \<and> w_refunds (snd (createOrder e d inp w)) = w_refunds w \<and>
      w_subs (snd (createOrder e d inp w)) = w_subs w"
    using createOrder_unplaced[of w e d inp] L(1) fr False by (simp add: fresh_def)
  then show ?thesis using system_ok_frame[OF ok] by blast
next
  case True
  then obtain plan prov amount ord w1 where pc: "placed e d inp w plan prov amount ord w1" by blast
  note D = system_okD[OF ok] and L = ledger_okD[OF system_okD(1)[OF ok]] and P = placed_order[OF pc]
  let ?n = "created_order e prov ord" and ?i = "uuid_at e 0"
  obtain w' where w': "snd (createOrder e d inp w) = w'" "order_store_wf (w_orders w')" "w_refunds w' = w_refunds w" "w_subs w' = w_subs w"
    and F: "\<And>k. order_findById (w_orders w') k = (if k = ?i then Some ?n else order_findById (w_orders w) k)"
    using createOrder_writes[OF L(1) pc] by auto
  have none: "order_findById (w_orders w) ?i = None" using fr by (simp add: fresh_def)
  have plan: "getPlan PLANS (ci_planId inp) = Some plan"
    and amt: "resolveAmount d (ci_method inp) (p_priceCnyFen plan) (p_priceUsdtMicro plan) (w_orders w) = Inr amount"
    using pc pl unfolding placed_def by simp_all
  have pid: "getPlan PLANS (p_id plan) \<noteq> None" using plan getPlan_enabled[OF plan] by simp
  have st: "o_status ?n = PENDING \<or> o_status ?n = FAILED" using P(3) by (simp add: created_order_def split: sum.split)
  have good: "order_good ?n" using pid st P by (auto simp: order_good_def settled_status_def)
  have a: "0 \<le> amount" using resolveAmount_props(1)[OF amt] plan_prices[OF plan] by simp
  have new: "order_ledger (w_refunds w) ?n"
    using no_refunds_reserved[OF D(1,2) none] a P(1,4,8) by (simp add: order_ledger_def refunded_def)
  have "order_ledger (w_refunds w) x" if "order_findById (w_orders w') k = Some x" for k x
    using that new L(3)[of k x] by (simp add: F split: if_splits)
  then have led: "ledger_ok w'" using L(2,4) w'(2) unfolding ledger_ok_def w'(3) by blast
  have kn: "refunds_known w'" using D(2) unfolding refunds_known_def w'(3) F by simp
  have cnt: "paid_count w' k = paid_count w k" for k using st none by (auto simp: paid_count_def F settled_status_def)
  have dist: "amounts_distinct w'" if mode: "pd_usdtAddressMode d \<noteq> Some PerOrder"
  proof -
    have old: "o_amount x \<noteq> amount" if "order_findById (w_orders w) j = Some x" "awaiting_usdt x" "awaiting_usdt ?n" for j x
    proof -
      have "ci_method inp = Usdt" using that(3) P(5) by (simp add: awaiting_usdt_def)
      moreover have "x \<in> set (order_all (w_orders w))" by (rule order_list.listing_find[OF L(1) that(1)])
      ultimately show ?thesis using resolveAmount_props(2)[OF amt] plan_prices[OF plan] mode that(2) by auto
    qed
    show ?thesis unfolding amounts_distinct_def
    proof (intro allI impI, elim conjE)
      fix i j x y
      assume h: "order_findById (w_orders w') i = Some x" "order_findById (w_orders w') j = Some y" "awaiting_usdt x" "awaiting_usdt y"
        "o_amount x = o_amount y"
      show "i = j"
        using h old[of i x] old[of j y] D(6)[OF mode] P(4) unfolding F amounts_distinct_def
        by (cases "i = ?i"; cases "j = ?i") auto
    qed
  qed
  have "system_ok (pd_usdtAddressMode d) w'"
    using led kn D(3,4) good D(5) dist cnt F unfolding system_ok_def granted_once_count w'(4) by (auto split: if_splits)
  moreover have "order_findById (w_orders w') k = Some a" if "order_findById (w_orders w) k = Some a" for k a
    using that none by (auto simp: F)
  ultimately show ?thesis unfolding system_next_def w'(1) using order_moves_refl by blast
qed

section \<open>All operations, in any order\<close>

text \<open>
  One step is one whole operation (its locks make it atomic on its order) with fresh ids, the plans of the
  catalogue, and any configuration, input, clock and provider answers. The last rule covers everything that
  leaves orders, refunds and subscriptions alone.
\<close>

inductive system_step :: "address_mode option \<Rightarrow> world \<Rightarrow> world \<Rightarrow> bool" for mode where
  create: "fresh e w \<Longrightarrow> pd_plans d = PLANS \<Longrightarrow> pd_usdtAddressMode d = mode \<Longrightarrow> system_step mode w (snd (createOrder e d inp w))"
| callback: "fresh e w \<Longrightarrow> pd_plans d = PLANS \<Longrightarrow> system_step mode w (snd (handleCallback e d m raw w))"
| sync: "fresh e w \<Longrightarrow> pd_plans d = PLANS \<Longrightarrow> system_step mode w (snd (syncOrder e d i w))"
| expire: "system_step mode w (snd (expireStaleOrders e w))"
| refund: "fresh e w \<Longrightarrow> system_step mode w (snd (refundOrder e rd i ri w))"
| refund_callback: "system_step mode w (snd (handleRefundCallback e rd m raw w))"
| remind: "system_step mode w (w\<lparr>w_subs := fst (snd (sendExpiryReminders e window notify (w_subs w, lg)))\<rparr>)"
| deactivate: "system_step mode w (w\<lparr>w_subs := fst (snd (deactivateExpired e notify (w_subs w, lg)))\<rparr>)"
| environment: "w_orders w' = w_orders w \<Longrightarrow> w_refunds w' = w_refunds w \<Longrightarrow> w_subs w' = w_subs w \<Longrightarrow> system_step mode w w'"

inductive_cases system_stepE: "system_step mode w w'"

definition reachable :: "address_mode option \<Rightarrow> world \<Rightarrow> bool" where
  "reachable mode = (system_step mode)\<^sup>*\<^sup>* empty_world"

lemma system_step_next: "system_step mode w w' \<Longrightarrow> system_ok mode w \<Longrightarrow> system_next mode w w'"
proof (induction rule: system_step.induct)
  case (create e w d inp)
  then show ?case using createOrder_step by blast
next
  case (callback e w d m raw)
  then show ?case by (intro handleCallback_step)
next
  case (sync e w d i)
  then show ?case by (intro syncOrder_step)
next
  case (expire w e)
  then show ?case by (intro expireStaleOrders_step)
next
  case (refund e w rd i ri)
  then show ?case
    by (intro refund_step_system refundOrder_step) (simp_all add: system_ok_def fresh_def)
next
  case (refund_callback w e rd m raw)
  then show ?case by (intro refund_step_system handleRefundCallback_step) (simp_all add: system_ok_def)
next
  case (remind w e window notify lg)
  then show ?case by (intro same_grants_step reminders_same_grants) (simp_all add: system_ok_def)
next
  case (deactivate w e notify lg)
  then show ?case by (intro same_grants_step deactivate_same_grants) (simp_all add: system_ok_def)
next
  case (environment w' w)
  then show ?case by (intro system_ok_frame)
qed

lemma system_ok_empty: "system_ok mode empty_world"
  by (simp add: system_ok_def ledger_ok_def refunds_known_def granted_once_def amounts_distinct_def empty_world_def
      order_findById_def empty_order_store_def refund_findById_def empty_refund_store_def empty_sub_store_def grants_def sub_all_def
      order_store_wf_empty[unfolded empty_order_store_def] refund_store_wf_empty[unfolded empty_refund_store_def]
      sub_store_wf_empty[unfolded empty_sub_store_def])

lemma reachable_ok: "reachable mode w \<Longrightarrow> system_ok mode w"
  unfolding reachable_def
  by (induction rule: rtranclp_induct) (auto intro: system_ok_empty dest: system_step_next simp: system_next_def)

lemma steps_next: "(system_step mode)\<^sup>*\<^sup>* w w' \<Longrightarrow> system_ok mode w \<Longrightarrow> system_next mode w w'"
proof (induction rule: rtranclp_induct)
  case base
  then show ?case by (rule system_next_refl)
next
  case (step y z)
  then have yz: "system_next mode w y" "system_next mode y z" using system_step_next by (auto simp: system_next_def)
  have "order_moves a b \<Longrightarrow> order_moves b c \<Longrightarrow> order_moves a c" for a b c by (auto simp: order_moves_def)
  then show ?case using yz unfolding system_next_def by metis
qed

text \<open>
  C1: Paid exactly once. In every state that the services' operations reach when they run one after another, each
  to its end, an order that has been paid for has been granted to exactly one subscription, exactly once, and an
  order that has not been paid (or does not exist) to none: no replay, duplicate notification, repeated poll or
  lost acknowledgement buys time twice, and no settled payment is without its subscription. (Operations that
  overlap at their awaits are another matter: see the interleaved settlements, where the lock matters.)
\<close>

theorem paid_granted_once:
  assumes "reachable mode w"
  shows "grants (w_subs w) k =
    (case order_findById (w_orders w) k of None \<Rightarrow> 0 | Some ord \<Rightarrow> if o_paidAt ord = None then 0 else 1)"
proof -
  note D = system_okD[OF reachable_ok[OF assms]]
  have "order_findById (w_orders w) k = Some ord \<Longrightarrow> settled_status (o_status ord) = (o_paidAt ord \<noteq> None)" for ord
    using D(5) by (simp add: order_good_def)
  then show ?thesis using D(4) unfolding granted_once_def by (auto split: option.split)
qed

text \<open>
  C2: The books balance. In every reachable state each order's refunded amount is the total of its refunds that
  have not failed, lies between zero and the amount, and is positive only for an order that was paid; a
  paid order is always fulfilled or refunded, never left in between.
\<close>

theorem books_balance:
  assumes "reachable mode w" "order_findById (w_orders w) k = Some ord"
  shows "refunded ord = reserved (w_refunds w) k \<and> 0 \<le> refunded ord \<and> refunded ord \<le> o_amount ord \<and>
    (0 < refunded ord \<longrightarrow> o_paidAt ord \<noteq> None) \<and> (o_paidAt ord \<noteq> None \<longleftrightarrow> o_status ord \<in> {FULFILLED, REFUNDED})"
proof -
  note D = system_okD[OF reachable_ok[OF assms(1)]]
  have "order_ledger (w_refunds w) ord" "order_good ord" "o_id ord = k"
    using D(5)[OF assms(2)] ledger_okD(3)[OF D(1) assms(2)] order_repo.find_key[OF ledger_okD(1)[OF D(1)] assms(2)] by simp_all
  then show ?thesis by (auto simp: order_ledger_def order_good_def settled_status_def)
qed

text \<open>
  C21: No transfer pays two orders. In every reachable state of a system that was never in per-order mode, the
  amounts of the USDT orders that wait for payment are pairwise different, so that one transfer to the
  shared address matches at most one of them.
\<close>

theorem transfer_pays_one_order:
  assumes "reachable mode w" "mode \<noteq> Some PerOrder"
    and "order_findById (w_orders w) i = Some x" "order_findById (w_orders w) j = Some y"
    and "o_method x = Usdt" "o_status x = PENDING" "o_method y = Usdt" "o_status y = PENDING"
    and "matchTransfer x [t] addr claimed = Some t" "matchTransfer y [t] addr claimed' = Some t"
  shows "i = j"
proof -
  have "o_amount x = o_amount y"
    using assms(9,10) by (auto simp: matchTransfer_def Let_def split: if_splits)
  then show ?thesis
    using system_okD(6)[OF reachable_ok[OF assms(1)] assms(2)] assms(3-8) unfolding amounts_distinct_def awaiting_usdt_def by blast
qed

text \<open>
  C22: Order histories are legal. Whatever the services do from a reachable state, an order never disappears,
  never changes its amount, method or plan, and its status has moved along the transition table: an
  expired, failed or refunded order stays so, and a paid one stays paid.
\<close>

theorem order_history_legal:
  assumes "reachable mode w" "(system_step mode)\<^sup>*\<^sup>* w w'" "order_findById (w_orders w) k = Some a"
  shows "\<exists>b. order_findById (w_orders w') k = Some b \<and> o_amount b = o_amount a \<and> o_method b = o_method a \<and> o_planId b = o_planId a \<and>
    order_step\<^sup>*\<^sup>* (o_status a) (o_status b) \<and> (isTerminal (o_status a) \<longrightarrow> o_status b = o_status a) \<and>
    (o_paidAt a \<noteq> None \<longrightarrow> o_paidAt b \<noteq> None)"
proof -
  have ok: "system_ok mode w" by (rule reachable_ok[OF assms(1)])
  obtain b where b: "order_findById (w_orders w') k = Some b" "order_moves a b" and ok': "system_ok mode w'"
    using steps_next[OF assms(2) ok] assms(3) unfolding system_next_def by blast
  have "order_good a" "order_good b" using system_okD(5)[OF ok assms(3)] system_okD(5)[OF ok' b(1)] by simp_all
  then have "o_paidAt a \<noteq> None \<Longrightarrow> o_paidAt b \<noteq> None"
    using b(2) settled_steps[of "o_status a" "o_status b"] by (simp add: order_good_def order_moves_def)
  then show ?thesis using b terminal_stays[of "o_status a" "o_status b"] by (auto simp: order_moves_def)
qed

section \<open>A run\<close>

definition demo_ids :: "string \<Rightarrow> env \<Rightarrow> env" where
  "demo_ids prefix e = e\<lparr>uuid_at := (\<lambda>i. prefix @ uuid_at e i)\<rparr>"

definition demo_created :: world where
  "demo_created = snd (createOrder (env_at 500) (demo_deps (demo_provider 1500)) demo_input empty_world)"

definition demo_settled :: world where
  "demo_settled = snd (syncOrder (demo_ids ''b'' (env_at 600)) (demo_deps (demo_provider 1500)) ''id-'' demo_created)"

definition demo_new :: order where
  "demo_new = created_order (env_at 500) (demo_provider 1500)
     (new_order (env_at 500) (demo_deps (demo_provider 1500)) demo_input (hd PLANS) 1500)"

lemma empty_find [simp]:
  "order_findById (w_orders empty_world) k = None" "refund_findById (w_refunds empty_world) k = None"
  "sub_find (w_subs empty_world) k = None" "event_seen (w_events empty_world) k = False"
  by (simp_all add: empty_world_def order_findById_def empty_order_store_def refund_findById_def empty_refund_store_def
      sub_find_def empty_sub_store_def no_event)

lemma demo_created_facts:
  "system_step (Some Shared) empty_world demo_created"
  "order_findById (w_orders demo_created) k = (if k = ''id-'' then Some demo_new else None)"
  "w_refunds demo_created = w_refunds empty_world" "w_subs demo_created = w_subs empty_world" "w_events demo_created = w_events empty_world"
proof -
  let ?d = "demo_deps (demo_provider 1500)"
  have wf: "order_store_wf (w_orders empty_world)" by (simp add: empty_world_def)
  have pl: "placed (env_at 500) ?d demo_input empty_world (hd PLANS) (demo_provider 1500) 1500
      (new_order (env_at 500) ?d demo_input (hd PLANS) 1500) empty_world"
    by (simp add: placed_def demo_input_def demo_deps_def resolveAmount_def attach_deposit_def new_order_def demo_plan)
      (simp add: PLANS_def empty_world_def demo_store_simps order_findByIdempotencyKey_def)
  from createOrder_writes[OF wf pl]
  show "order_findById (w_orders demo_created) k = (if k = ''id-'' then Some demo_new else None)"
    "w_refunds demo_created = w_refunds empty_world" "w_subs demo_created = w_subs empty_world" "w_events demo_created = w_events empty_world"
    by (auto simp: demo_created_def demo_new_def)
  show "system_step (Some Shared) empty_world demo_created"
    unfolding demo_created_def by (rule system_step.create) (simp_all add: fresh_def demo_deps_def)
qed

lemma demo_new_simps:
  "o_status demo_new = PENDING" "o_method demo_new = Wechat" "o_amount demo_new = 1500" "o_currency demo_new = CNY"
  "o_planId demo_new = ''monthly''" "o_id demo_new = ''id-''"
  by (simp_all add: demo_new_def created_order_def demo_provider_def new_order_def demo_input_def PLANS_def Let_def)

lemma demo_settled_facts:
  "system_step (Some Shared) demo_created demo_settled"
  "\<exists>ord. order_findById (w_orders demo_settled) ''id-'' = Some ord \<and> o_status ord = FULFILLED \<and> o_paidAt ord = Some 600"
proof -
  let ?d = "demo_deps (demo_provider 1500)" and ?e = "demo_ids ''b'' (env_at 600)"
  define w1 where "w1 = snd (mark_event ?e (txn_key Wechat ''tx1'') demo_created)"
  let ?p = "\<lparr>pi_providerTxnId = ''tx1'', pi_paidAmount = Some 1500, pi_currency = CNY\<rparr>"
  show "system_step (Some Shared) demo_created demo_settled"
    unfolding demo_settled_def
    by (rule system_step.sync) (simp_all add: fresh_def demo_ids_def demo_created_facts demo_deps_def)
  have mk: "mark_event ?e (txn_key Wechat ''tx1'') demo_created = (True, w1)"
    by (simp add: prod_eq_iff mark_event_new demo_created_facts w1_def)
  have run: "demo_settled = snd (applyPayment (env_from 1 ?e) ?d ''id-'' ?p w1)"
  proof -
    have q: "pd_providers ?d m = Some (demo_provider 1500)" "pp_queryPayment (demo_provider 1500) x = Inr demo_query"
      "q_paid demo_query" "q_providerTxnId demo_query = Some ''tx1''" "q_paidAmount demo_query = Some 1500" for m x
      by (simp_all add: demo_deps_def demo_provider_def demo_query_def)
    show ?thesis
      unfolding demo_settled_def syncOrder_def using mk demo_created_facts(2) by (simp add: demo_new_simps provider_of_def q)
  qed
  have ok: "system_ok (Some Shared) demo_created"
    using system_step_next[OF demo_created_facts(1) system_ok_empty] by (simp add: system_next_def)
  have wf: "order_store_wf (w_orders w1)" using ledger_okD(1)[OF system_okD(1)[OF ok]] by (simp add: w1_def)
  have "order_findById (w_orders w1) ''id-'' = Some demo_new" "acceptable ?p demo_new"
    "getPlan (pd_plans ?d) (o_planId demo_new) = Some (hd PLANS)"
    by (simp_all add: w1_def demo_created_facts acceptable_def demo_new_simps demo_plan) (simp add: demo_deps_def demo_plan)
  from applyPayment_find(3)[OF wf this, of "env_from 1 ?e" _ demo_settled "''id-''"] run
  show "\<exists>ord. order_findById (w_orders demo_settled) ''id-'' = Some ord \<and> o_status ord = FULFILLED \<and> o_paidAt ord = Some 600"
    by (auto simp: final_order_def paid_order_def demo_ids_def prod_eq_iff)
qed

lemma demo_reachable: "reachable (Some Shared) demo_created" "reachable (Some Shared) demo_settled"
  unfolding reachable_def using demo_created_facts(1) demo_settled_facts(1) by auto

theorem paid_granted_once_witness:
  "reachable (Some Shared) demo_settled \<and> grants (w_subs demo_settled) ''id-'' = 1 \<and> grants (w_subs demo_settled) ''other'' \<le> 1"
  using paid_granted_once[OF demo_reachable(2)] demo_settled_facts(2) demo_reachable(2) by (auto split: option.split)

theorem books_balance_witness:
  "\<exists>ord. order_findById (w_orders demo_settled) ''id-'' = Some ord \<and> refunded ord = reserved (w_refunds demo_settled) ''id-'' \<and>
     refunded ord \<le> o_amount ord"
  using demo_settled_facts(2) books_balance[OF demo_reachable(2)] by blast

text \<open>A USDT order that waits for its transfer.\<close>

definition demo_waiting :: world where
  "demo_waiting = snd (createOrder (env_at 500) (demo_deps (demo_provider 1500)) (demo_input\<lparr>ci_method := Usdt\<rparr>) empty_world)"

theorem transfer_pays_one_order_witness:
  "\<exists>x. reachable (Some Shared) demo_waiting \<and> order_findById (w_orders demo_waiting) ''id-'' = Some x \<and> o_status x = PENDING \<and>
    (\<exists>t. matchTransfer x [t] ''T'' [] = Some t \<and> ''id-'' = o_id x)"
proof -
  let ?d = "demo_deps (demo_provider 1500)" and ?i = "demo_input\<lparr>ci_method := Usdt\<rparr>"
  let ?o = "new_order (env_at 500) ?d ?i (hd PLANS) (p_priceUsdtMicro (hd PLANS))"
  let ?x = "created_order (env_at 500) (demo_provider 1500) ?o"
  let ?t = "\<lparr>tf_txId = ''tx'', tf_to = ''T'', tf_from = [], tf_valueMicro = Some (o_amount ?x), tf_timestampMs = 500, tf_confirmed = True\<rparr>"
  have wf: "order_store_wf (w_orders empty_world)" by (simp add: empty_world_def)
  have pl: "placed (env_at 500) ?d ?i empty_world (hd PLANS) (demo_provider 1500) (p_priceUsdtMicro (hd PLANS)) ?o empty_world"
    by (simp add: placed_def demo_input_def demo_deps_def resolveAmount_def attach_deposit_def new_order_def demo_plan)
      (simp add: empty_world_def demo_store_simps order_findByIdempotencyKey_def order_findPendingByMethod_def
        allocateUniqueAmount_def allocate_loop.simps)
  have f: "order_findById (w_orders demo_waiting) ''id-'' = Some ?x"
    using createOrder_writes[OF wf pl] by (auto simp: demo_waiting_def)
  have r: "reachable (Some Shared) demo_waiting"
    unfolding reachable_def demo_waiting_def
    by (rule r_into_rtranclp, rule system_step.create) (simp_all add: fresh_def demo_deps_def)
  have x: "o_status ?x = PENDING" "o_method ?x = Usdt" "o_createdAt ?x = 500" "o_id ?x = ''id-''"
    by (simp_all add: created_order_def demo_provider_def new_order_def Let_def)
  have t: "matchTransfer ?x [?t] ''T'' [] = Some ?t" by (simp add: matchTransfer_def Let_def x(3))
  have f': "order_findById (w_orders demo_waiting) (o_id ?x) = Some ?x" unfolding x(4) by (rule f)
  have i: "''id-'' = o_id ?x"
    by (rule transfer_pays_one_order[OF r _ f f' x(2,1,2,1) t t]) simp
  show ?thesis
    by (rule exI[of _ ?x], intro conjI, rule r, rule f, rule x(1), rule exI[of _ ?t], intro conjI, rule t, rule i)
qed

theorem order_history_legal_witness:
  "\<exists>b. order_findById (w_orders demo_settled) ''id-'' = Some b \<and> order_step\<^sup>*\<^sup>* PENDING (o_status b) \<and> o_amount b = 1500"
proof -
  have "(system_step (Some Shared))\<^sup>*\<^sup>* demo_created demo_settled" using demo_settled_facts(1) by blast
  from order_history_legal[OF demo_reachable(1) this, of "''id-''" demo_new] show ?thesis
    unfolding demo_created_facts(2) demo_new_simps by auto
qed

end
