(* ===== verification/Reports.thy ===== *)
theory Reports
  imports System
begin

text \<open>
  \<^verbatim>\<open>src/services/reconciliationService.ts\<close> and \<^verbatim>\<open>src/services/reportService.ts\<close>: the consistency audit
  over orders and refunds, and the money summaries. The audit's findings are proved to be exactly the
  violations of the ledger, and on the reachable states of the services there are none but stale orders.
\<close>

section \<open>Reconciliation\<close>

datatype discrepancy_type =
    paid_unfulfilled
  | fulfilled_without_payment
  | stale_pending
  | over_refunded
  | refund_ledger_mismatch

record discrepancy =
  dc_type :: discrepancy_type
  dc_orderId :: string
  dc_detail :: string

record reconciliation_report =
  rp_ranAt :: int
  rp_checkedOrders :: nat
  rp_checkedRefunds :: nat
  rp_discrepancies :: "discrepancy list"
  rp_healedStaleOrders :: nat

definition checkOrder :: "order \<Rightarrow> int \<Rightarrow> int \<Rightarrow> discrepancy list \<Rightarrow> discrepancy list" where
  "checkOrder ord reservedAmount now out =
     (let r = refunded ord;
          out1 = (if o_status ord = PAID \<and> o_paidAt ord \<noteq> None then
            out @ [\<lparr>dc_type = paid_unfulfilled, dc_orderId = o_id ord, dc_detail = ''order is PAID but was never fulfilled''\<rparr>] else out);
          out2 = (if (o_status ord = FULFILLED \<or> o_status ord = REFUNDED) \<and> o_paidAt ord = None then
            out1 @ [\<lparr>dc_type = fulfilled_without_payment, dc_orderId = o_id ord,
              dc_detail = ''status '' @ order_status_name (o_status ord) @ '' but paidAt is unset''\<rparr>] else out1);
          out3 = (if o_status ord = PENDING \<and> o_expiresAt ord \<le> now then
            out2 @ [\<lparr>dc_type = stale_pending, dc_orderId = o_id ord,
              dc_detail = ''pending past expiry by '' @ string_of_int (now - o_expiresAt ord) @ ''ms''\<rparr>] else out2);
          out4 = (if r > o_amount ord then
            out3 @ [\<lparr>dc_type = over_refunded, dc_orderId = o_id ord,
              dc_detail = ''refunded '' @ string_of_int r @ '' exceeds amount '' @ string_of_int (o_amount ord)\<rparr>] else out3)
      in if r \<noteq> reservedAmount then
           out4 @ [\<lparr>dc_type = refund_ledger_mismatch, dc_orderId = o_id ord,
             dc_detail = ''order.refundedAmount '' @ string_of_int r @ '' != sum of non-failed refunds '' @ string_of_int reservedAmount\<rparr>]
         else out4)"

definition amount_or_zero :: "(string, int) jsmap \<Rightarrow> string \<Rightarrow> int" where
  "amount_or_zero m k = (case jm_get m k of None \<Rightarrow> 0 | Some n \<Rightarrow> n)"

definition reserve_step :: "(string, int) jsmap \<Rightarrow> refund \<Rightarrow> (string, int) jsmap" where
  "reserve_step m r = (if r_status r = R_FAILED then m else jm_set (r_orderId r) (amount_or_zero m (r_orderId r) + r_amount r) m)"

definition reconcile_run :: "env \<Rightarrow> bool \<Rightarrow> bool \<Rightarrow> world \<Rightarrow> reconciliation_report result \<times> world" where
  "reconcile_run e heal hasHealer w =
     (let now = now_at e 0; allOrders = order_all (w_orders w); allRefunds = refund_all (w_refunds w);
          reservedByOrder = foldl reserve_step [] allRefunds;
          discrepancies = foldl (\<lambda>out ord. checkOrder ord (amount_or_zero reservedByOrder (o_id ord)) now out) [] allOrders
      in bindR (if heal \<and> hasHealer then expireStaleOrders (env_from 1 e) w else (Inr 0, w)) (\<lambda>healed w1.
           (Inr \<lparr>rp_ranAt = now, rp_checkedOrders = length allOrders, rp_checkedRefunds = length allRefunds,
              rp_discrepancies = discrepancies, rp_healedStaleOrders = healed\<rparr>, w1)))"

text \<open>What is wrong with an order, as a list of types.\<close>

definition violations :: "refund_store \<Rightarrow> int \<Rightarrow> order \<Rightarrow> discrepancy_type list" where
  "violations st now ord =
     (if o_status ord = PAID \<and> o_paidAt ord \<noteq> None then [paid_unfulfilled] else []) @
     (if o_status ord \<in> {FULFILLED, REFUNDED} \<and> o_paidAt ord = None then [fulfilled_without_payment] else []) @
     (if stale now ord then [stale_pending] else []) @
     (if o_amount ord < refunded ord then [over_refunded] else []) @
     (if refunded ord \<noteq> reserved st (o_id ord) then [refund_ledger_mismatch] else [])"

fun wrong :: "refund_store \<Rightarrow> int \<Rightarrow> discrepancy_type \<Rightarrow> order \<Rightarrow> bool" where
  "wrong st now paid_unfulfilled ord = (o_status ord = PAID \<and> o_paidAt ord \<noteq> None)"
| "wrong st now fulfilled_without_payment ord = (o_status ord \<in> {FULFILLED, REFUNDED} \<and> o_paidAt ord = None)"
| "wrong st now stale_pending ord = (o_status ord = PENDING \<and> o_expiresAt ord \<le> now)"
| "wrong st now over_refunded ord = (o_amount ord < refunded ord)"
| "wrong st now refund_ledger_mismatch ord = (refunded ord \<noteq> reserved st (o_id ord))"

lemma violations_wrong: "t \<in> set (violations st now ord) \<longleftrightarrow> wrong st now t ord"
  by (cases t) (simp_all add: violations_def stale_def)

lemma checkOrder_violations:
  "map (\<lambda>x. (dc_type x, dc_orderId x)) (checkOrder ord (reserved st (o_id ord)) now out) =
     map (\<lambda>x. (dc_type x, dc_orderId x)) out @ map (\<lambda>t. (t, o_id ord)) (violations st now ord)"
  by (simp add: checkOrder_def violations_def stale_def Let_def)

lemma reserved_fold: "amount_or_zero (foldl reserve_step m rs) k = amount_or_zero m k + sum_list (map (reserved_share k) rs)"
proof (induction rs arbitrary: m)
  case (Cons r rs)
  have "amount_or_zero (reserve_step m r) k = amount_or_zero m k + reserved_share k r"
    by (simp add: reserve_step_def amount_or_zero_def reserved_share_def)
  then show ?case by (simp add: Cons.IH)
qed simp

lemma discrepancies_fold:
  "map (\<lambda>x. (dc_type x, dc_orderId x))
     (foldl (\<lambda>out ord. checkOrder ord (reserved st (o_id ord)) now out) out xs) =
   map (\<lambda>x. (dc_type x, dc_orderId x)) out @ concat (map (\<lambda>ord. map (\<lambda>t. (t, o_id ord)) (violations st now ord)) xs)"
  by (induction xs arbitrary: out) (simp_all add: checkOrder_violations)

lemma expire_total:
  assumes "order_store_wf (w_orders w)"
  shows "\<exists>n w'. expireStaleOrders e w = (Inr n, w')"
proof -
  have "\<forall>x \<in> set (order_all (w_orders w)). order_findById (w_orders w) (o_id x) = Some x" using order_list.listing_iff[OF assms] by blast
  from expire_loop_props[OF assms this order_list.distinct_listing[OF assms], of e "now_at e 0" 0 0]
  show ?thesis unfolding expireStaleOrders_def by blast
qed

lemma reconcile_report:
  assumes "order_store_wf (w_orders w)"
  shows "\<exists>rep w'. reconcile_run e heal hasHealer w = (Inr rep, w') \<and>
    map (\<lambda>x. (dc_type x, dc_orderId x)) (rp_discrepancies rep) =
      concat (map (\<lambda>ord. map (\<lambda>t. (t, o_id ord)) (violations (w_refunds w) (now_at e 0) ord)) (order_all (w_orders w))) \<and>
    rp_checkedOrders rep = length (order_all (w_orders w)) \<and> rp_checkedRefunds rep = length (refund_all (w_refunds w)) \<and>
    w' = (if heal \<and> hasHealer then snd (expireStaleOrders (env_from 1 e) w) else w)"
proof -
  have r: "amount_or_zero (foldl reserve_step [] (refund_all (w_refunds w))) k = reserved (w_refunds w) k" for k
    by (simp add: reserved_fold reserved_def) (simp add: amount_or_zero_def)
  obtain n w' where h: "expireStaleOrders (env_from 1 e) w = (Inr n, w')" using expire_total[OF assms] by blast
  show ?thesis
    using h discrepancies_fold[of "w_refunds w" "now_at e 0" "[]" "order_all (w_orders w)"]
    by (simp add: reconcile_run_def Let_def r)
qed

text \<open>The kinds of violation in the order in which the audit looks for them, and what it should list.\<close>

definition violation_kinds :: "discrepancy_type list" where
  "violation_kinds = [paid_unfulfilled, fulfilled_without_payment, stale_pending, over_refunded, refund_ledger_mismatch]"

definition expected_findings :: "refund_store \<Rightarrow> int \<Rightarrow> order list \<Rightarrow> (discrepancy_type \<times> string) list" where
  "expected_findings st now xs =
     concat (map (\<lambda>ord. map (\<lambda>t. (t, o_id ord)) (filter (\<lambda>t. wrong st now t ord) violation_kinds)) xs)"

lemma violations_filter: "violations st now ord = filter (\<lambda>t. wrong st now t ord) violation_kinds"
  by (simp add: violations_def violation_kinds_def stale_def)

lemma violation_kinds_props: "t \<in> set violation_kinds" "distinct violation_kinds"
  by (cases t) (simp_all add: violation_kinds_def)

lemma expected_findings_iff:
  "(t, k) \<in> set (expected_findings st now xs) \<longleftrightarrow> (\<exists>ord \<in> set xs. o_id ord = k \<and> wrong st now t ord)"
  by (auto simp: expected_findings_def violation_kinds_props image_iff)

lemma expected_findings_distinct: "distinct (map o_id xs) \<Longrightarrow> distinct (expected_findings st now xs)"
proof (induction xs)
  case (Cons ord xs)
  let ?one = "map (\<lambda>t. (t, o_id ord)) (filter (\<lambda>t. wrong st now t ord) violation_kinds)"
  have "distinct ?one" by (simp add: distinct_map violation_kinds_props inj_on_def)
  moreover have "set ?one \<inter> set (expected_findings st now xs) = {}"
    using Cons.prems by (auto simp: expected_findings_iff) (metis imageI)
  moreover have "expected_findings st now (ord # xs) = ?one @ expected_findings st now xs" by (simp add: expected_findings_def)
  ultimately show ?case using Cons by simp
qed (simp add: expected_findings_def)

text \<open>
  C23: The audit finds exactly what is wrong. On any well-formed stores its list is, order by order in the
  order of the listing, one entry for each violation of that order and no other, without repetition: an order
  paid but not fulfilled, fulfilled without a payment time, pending past its expiry, refunded beyond its
  amount, or whose refunded amount is not the total of its refunds that have not failed. It counts the orders
  and refunds it looked at, and writes nothing unless healing is asked for.
\<close>

theorem reconciliation_exact:
  assumes "order_store_wf (w_orders w)"
  shows "\<exists>rep w'. reconcile_run e heal hasHealer w = (Inr rep, w') \<and> (\<not> heal \<longrightarrow> w' = w) \<and>
    rp_checkedOrders rep = length (order_all (w_orders w)) \<and> rp_checkedRefunds rep = length (refund_all (w_refunds w)) \<and>
    map (\<lambda>x. (dc_type x, dc_orderId x)) (rp_discrepancies rep) =
      expected_findings (w_refunds w) (now_at e 0) (order_all (w_orders w)) \<and>
    distinct (map (\<lambda>x. (dc_type x, dc_orderId x)) (rp_discrepancies rep)) \<and>
    (\<forall>t k. (t, k) \<in> set (map (\<lambda>x. (dc_type x, dc_orderId x)) (rp_discrepancies rep)) \<longleftrightarrow>
      (\<exists>ord. order_findById (w_orders w) k = Some ord \<and> wrong (w_refunds w) (now_at e 0) t ord))"
proof -
  obtain rep w' where run: "reconcile_run e heal hasHealer w = (Inr rep, w')"
    and "map (\<lambda>x. (dc_type x, dc_orderId x)) (rp_discrepancies rep) =
      concat (map (\<lambda>ord. map (\<lambda>t. (t, o_id ord)) (violations (w_refunds w) (now_at e 0) ord)) (order_all (w_orders w)))"
    and w': "w' = (if heal \<and> hasHealer then snd (expireStaleOrders (env_from 1 e) w) else w)"
    using reconcile_report[OF assms] by blast
  then have d: "map (\<lambda>x. (dc_type x, dc_orderId x)) (rp_discrepancies rep) =
      expected_findings (w_refunds w) (now_at e 0) (order_all (w_orders w))"
    by (simp add: expected_findings_def violations_filter)
  have n: "rp_checkedOrders rep = length (order_all (w_orders w))" "rp_checkedRefunds rep = length (refund_all (w_refunds w))"
  proof -
    obtain r1 w1 where m: "(if heal \<and> hasHealer then expireStaleOrders (env_from 1 e) w else (Inr 0, w)) = (r1, w1)" by fastforce
    show "rp_checkedOrders rep = length (order_all (w_orders w))" "rp_checkedRefunds rep = length (refund_all (w_refunds w))"
      using run unfolding reconcile_run_def Let_def m by (cases r1; auto)+
  qed
  have ids: "ord \<in> set (order_all (w_orders w)) \<and> o_id ord = k \<longleftrightarrow> order_findById (w_orders w) k = Some ord" for ord k
    using order_list.listing_iff[OF assms, of ord] order_repo.find_key[OF assms, of k ord] by metis
  have mem: "(t, k) \<in> set (expected_findings (w_refunds w) (now_at e 0) (order_all (w_orders w))) \<longleftrightarrow>
      (\<exists>ord. order_findById (w_orders w) k = Some ord \<and> wrong (w_refunds w) (now_at e 0) t ord)" for t k
    unfolding expected_findings_iff ids[symmetric] by blast
  have "distinct (expected_findings (w_refunds w) (now_at e 0) (order_all (w_orders w)))"
    by (rule expected_findings_distinct[OF order_list.distinct_listing[OF assms]])
  moreover have "\<not> heal \<longrightarrow> w' = w" using w' by simp
  ultimately show ?thesis
    using run n mem unfolding d[symmetric] by (intro exI[of _ rep] exI[of _ w'] conjI) (simp_all add: d)
qed

text \<open>In a reachable state nothing is wrong with an order but that it may be stale.\<close>

lemma clean_violations:
  assumes "system_ok mode w" "order_findById (w_orders w) k = Some x"
  shows "violations (w_refunds w) t x = (if stale t x then [stale_pending] else [])"
proof -
  have "order_good x" "order_ledger (w_refunds w) x"
    using system_okD(1,5)[OF assms(1)] assms(2) ledger_okD(3) by blast+
  then show ?thesis by (auto simp: violations_def order_good_def order_ledger_def settled_status_def)
qed

lemma reconcile_reachable:
  assumes "reachable mode w"
  shows "\<exists>rep w'. reconcile_run e heal True w = (Inr rep, w') \<and> (\<forall>x \<in> set (rp_discrepancies rep). dc_type x = stale_pending) \<and>
    w' = (if heal then snd (expireStaleOrders (env_from 1 e) w) else w)"
proof -
  have ok: "system_ok mode w" by (rule reachable_ok[OF assms])
  have wf: "order_store_wf (w_orders w)" using ledger_okD(1)[OF system_okD(1)[OF ok]] .
  obtain rep w' where run: "reconcile_run e heal True w = (Inr rep, w')"
    and d: "map (\<lambda>x. (dc_type x, dc_orderId x)) (rp_discrepancies rep) =
      concat (map (\<lambda>ord. map (\<lambda>t. (t, o_id ord)) (violations (w_refunds w) (now_at e 0) ord)) (order_all (w_orders w)))"
    and w': "w' = (if heal \<and> True then snd (expireStaleOrders (env_from 1 e) w) else w)"
    using reconcile_report[OF wf, of e heal True] by blast
  have "dc_type x = stale_pending" if "x \<in> set (rp_discrepancies rep)" for x
  proof -
    have "(dc_type x, dc_orderId x) \<in> set (map (\<lambda>x. (dc_type x, dc_orderId x)) (rp_discrepancies rep))" using that by auto
    then obtain ord where "ord \<in> set (order_all (w_orders w))" "dc_type x \<in> set (violations (w_refunds w) (now_at e 0) ord)"
      unfolding d by auto
    then show ?thesis using clean_violations[OF ok] order_list.listing_iff[OF wf] by (auto split: if_splits)
  qed
  then show ?thesis using run w' by (intro exI[of _ rep] exI[of _ w']) simp
qed

text \<open>After healing, an audit at the same time finds nothing.\<close>

lemma healed_audit:
  assumes "reachable mode w" "w' = snd (expireStaleOrders (env_from 1 e) w)" "now_at e2 0 = now_at e 1"
  shows "\<exists>rep2 w2. reconcile_run e2 False True w' = (Inr rep2, w2) \<and> rp_discrepancies rep2 = []"
proof -
  have ok: "system_ok mode w" by (rule reachable_ok[OF assms(1)])
  have wf: "order_store_wf (w_orders w)" using ledger_okD(1)[OF system_okD(1)[OF ok]] .
  have step: "system_step mode w w'" using assms(2) system_step.expire by simp
  have ok': "system_ok mode w'" using system_step_next[OF step ok] by (simp add: system_next_def)
  have wf': "order_store_wf (w_orders w')" using ledger_okD(1)[OF system_okD(1)[OF ok']] .
  obtain rep2 w2 where run2: "reconcile_run e2 False True w' = (Inr rep2, w2)"
    and d2: "map (\<lambda>x. (dc_type x, dc_orderId x)) (rp_discrepancies rep2) =
      concat (map (\<lambda>ord. map (\<lambda>t. (t, o_id ord)) (violations (w_refunds w') (now_at e2 0) ord)) (order_all (w_orders w')))"
    using reconcile_report[OF wf', of e2 False True] by blast
  have "violations (w_refunds w') (now_at e2 0) y = []" if y: "y \<in> set (order_all (w_orders w'))" for y
  proof -
    have yf: "order_findById (w_orders w') (o_id y) = Some y" using y order_list.listing_iff[OF wf'] by blast
    have "\<not> stale (now_at e 1) y" using expired_none[OF wf, where e = "env_from 1 e" and y = y] y assms(2) by simp
    then show ?thesis using clean_violations[OF ok' yf] assms(3) by simp
  qed
  then have "map (\<lambda>x. (dc_type x, dc_orderId x)) (rp_discrepancies rep2) = []" unfolding d2 by simp
  then show ?thesis using run2 by simp
qed

text \<open>
  The audit of a running system is clean. In every reachable state the only discrepancies it can
  report are pending orders past their expiry; and when it heals, a second audit at the same time
  reports nothing at all.
\<close>

theorem reconciliation_clean:
  assumes "reachable mode w"
  shows "\<exists>rep w'. reconcile_run e heal True w = (Inr rep, w') \<and>
    (\<forall>x \<in> set (rp_discrepancies rep). dc_type x = stale_pending) \<and>
    (heal \<longrightarrow> (\<forall>e2. now_at e2 0 = now_at e 1 \<longrightarrow> (\<exists>rep2 w2. reconcile_run e2 False True w' = (Inr rep2, w2) \<and> rp_discrepancies rep2 = [])))"
  using reconcile_reachable[OF assms, of e heal] healed_audit[OF assms refl] by auto

theorem reconciliation_exact_witness:
  "\<exists>rep w'. reconcile_run (env_at 200) False True demo_world1 = (Inr rep, w') \<and>
    (stale_pending, ''1'') \<in> set (map (\<lambda>x. (dc_type x, dc_orderId x)) (rp_discrepancies rep)) \<and> w' = demo_world1"
proof -
  have "wrong (w_refunds demo_world1) (now_at (env_at 200) 0) stale_pending demo_pending_order"
    by (simp add: demo_order_def)
  then show ?thesis
    using reconciliation_exact[OF demo_world1_wf(1), of "env_at 200" False True] demo_world1_simps(2) by blast
qed

theorem reconciliation_clean_witness:
  "\<exists>rep w'. reconcile_run (env_at 900) True True demo_settled = (Inr rep, w') \<and>
    (\<exists>rep2 w2. reconcile_run (env_at 900) False True w' = (Inr rep2, w2) \<and> rp_discrepancies rep2 = [])"
proof -
  have "now_at (env_at 900) 0 = now_at (env_at 900) 1" by simp
  then show ?thesis using reconciliation_clean[OF demo_reachable(2), of "env_at 900" True] by blast
qed

section \<open>Money reports\<close>

record report_filter =
  pf_from :: "int option"
  pf_to :: "int option"
  pf_method :: "payment_method option"
  pf_status :: "order_status option"
  pf_merchantId :: "string option"

record currency_totals =
  ct_currency :: currency
  ct_paidCount :: int
  ct_grossMinor :: int
  ct_grossDisplay :: string
  ct_refundedMinor :: int
  ct_refundedDisplay :: string
  ct_netMinor :: int
  ct_netDisplay :: string

record method_totals =
  mt_method :: payment_method
  mt_currency :: currency
  mt_paidCount :: int
  mt_grossMinor :: int
  mt_grossDisplay :: string

record summary_report =
  sr_ordersTotal :: nat
  sr_byStatus :: "(order_status, int) jsmap"
  sr_currencies :: "currency_totals list"
  sr_byMethod :: "method_totals list"
  sr_refundsTotal :: nat

definition refundSettled :: "refund \<Rightarrow> bool" where
  "refundSettled r = (r_status r = R_SUCCESS \<or> r_status r = R_MANUAL)"

definition isPaid :: "order \<Rightarrow> bool" where
  "isPaid ord = (o_paidAt ord \<noteq> None \<and> (o_status ord = PAID \<or> o_status ord = FULFILLED \<or> o_status ord = REFUNDED))"

text \<open>The service's own filter, used by the summary; it has no test for the tenant.\<close>

definition report_matches :: "report_filter \<Rightarrow> order \<Rightarrow> bool" where
  "report_matches f ord =
     (if pf_from f \<noteq> None \<and> o_createdAt ord < the (pf_from f) then False
      else if pf_to f \<noteq> None \<and> the (pf_to f) \<le> o_createdAt ord then False
      else if pf_method f \<noteq> None \<and> o_method ord \<noteq> the (pf_method f) then False
      else if pf_status f \<noteq> None \<and> o_status ord \<noteq> the (pf_status f) then False
      else True)"

definition new_totals :: "currency \<Rightarrow> currency_totals" where
  "new_totals c = \<lparr>ct_currency = c, ct_paidCount = 0, ct_grossMinor = 0, ct_grossDisplay = ''0'', ct_refundedMinor = 0,
     ct_refundedDisplay = ''0'', ct_netMinor = 0, ct_netDisplay = ''0''\<rparr>"

definition totals_of :: "(currency, currency_totals) jsmap \<Rightarrow> currency \<Rightarrow> currency_totals" where
  "totals_of m c = (case jm_get m c of None \<Rightarrow> new_totals c | Some t \<Rightarrow> t)"

type_synonym summary_acc = "(order_status, int) jsmap \<times> (currency, currency_totals) jsmap \<times> (payment_method, method_totals) jsmap"

definition order_step_summary :: "summary_acc \<Rightarrow> order \<Rightarrow> summary_acc" where
  "order_step_summary acc ord =
     (let (byStatus, perCurrency, byMethod) = acc;
          byStatus' = jm_set (o_status ord) ((case jm_get byStatus (o_status ord) of None \<Rightarrow> 0 | Some n \<Rightarrow> n) + 1) byStatus
      in if isPaid ord then
           let t = totals_of perCurrency (o_currency ord);
               m = (case jm_get byMethod (o_method ord) of
                      None \<Rightarrow> \<lparr>mt_method = o_method ord, mt_currency = o_currency ord, mt_paidCount = 0, mt_grossMinor = 0, mt_grossDisplay = ''0''\<rparr>
                    | Some m \<Rightarrow> m)
           in (byStatus',
               jm_set (o_currency ord) (t\<lparr>ct_paidCount := ct_paidCount t + 1, ct_grossMinor := ct_grossMinor t + o_amount ord\<rparr>) perCurrency,
               jm_set (o_method ord) (m\<lparr>mt_paidCount := mt_paidCount m + 1, mt_grossMinor := mt_grossMinor m + o_amount ord\<rparr>) byMethod)
         else (byStatus', perCurrency, byMethod))"

definition refund_step_summary :: "(currency, currency_totals) jsmap \<Rightarrow> refund \<Rightarrow> (currency, currency_totals) jsmap" where
  "refund_step_summary m r =
     (if refundSettled r then
        let t = totals_of m (r_currency r)
        in jm_set (r_currency r) (t\<lparr>ct_refundedMinor := ct_refundedMinor t + r_amount r\<rparr>) m
      else m)"

text \<open>A \<open>map\<close> whose function may throw.\<close>

fun map_result :: "('a \<Rightarrow> 'b result) \<Rightarrow> 'a list \<Rightarrow> 'b list result" where
  "map_result f [] = Inr []"
| "map_result f (x # xs) =
     (case f x of Inl err \<Rightarrow> Inl err | Inr y \<Rightarrow> (case map_result f xs of Inl err \<Rightarrow> Inl err | Inr ys \<Rightarrow> Inr (y # ys)))"

definition finish_totals :: "currency_totals \<Rightarrow> currency_totals result" where
  "finish_totals t =
     (let net = ct_grossMinor t - ct_refundedMinor t in
      case fromMinorUnits (ct_grossMinor t) (ct_currency t) of Inl err \<Rightarrow> Inl err | Inr g \<Rightarrow>
     (case fromMinorUnits (ct_refundedMinor t) (ct_currency t) of Inl err \<Rightarrow> Inl err | Inr r \<Rightarrow>
     (case fromMinorUnits (max 0 net) (ct_currency t) of Inl err \<Rightarrow> Inl err | Inr n \<Rightarrow>
        Inr (t\<lparr>ct_grossDisplay := g, ct_refundedDisplay := r, ct_netMinor := net, ct_netDisplay := n\<rparr>))))"

definition finish_method :: "method_totals \<Rightarrow> method_totals result" where
  "finish_method m = (case fromMinorUnits (mt_grossMinor m) (mt_currency m) of Inl err \<Rightarrow> Inl err
     | Inr g \<Rightarrow> Inr (m\<lparr>mt_grossDisplay := g\<rparr>))"

definition report_summary :: "report_filter \<Rightarrow> order_store \<Rightarrow> refund_store \<Rightarrow> summary_report result" where
  "report_summary f ost rst =
     (let ords = filter (report_matches f) (order_all ost); ids = map o_id ords;
          refs = filter (\<lambda>r. r_orderId r \<in> set ids) (refund_all rst);
          (byStatus, perCurrency, byMethod) = foldl order_step_summary ([], [], []) ords;
          perCurrency' = foldl refund_step_summary perCurrency refs
      in case map_result finish_totals (jm_values perCurrency') of Inl err \<Rightarrow> Inl err | Inr currencies \<Rightarrow>
        (case map_result finish_method (jm_values byMethod) of Inl err \<Rightarrow> Inl err | Inr methods \<Rightarrow>
          Inr \<lparr>sr_ordersTotal = length ords, sr_byStatus = byStatus, sr_currencies = currencies, sr_byMethod = methods,
               sr_refundsTotal = length refs\<rparr>))"

definition report_listOrders :: "report_filter \<Rightarrow> nat \<Rightarrow> nat \<Rightarrow> order_store \<Rightarrow> nat \<times> order list" where
  "report_listOrders f n off st =
     order_query st \<lparr>of_merchantId = pf_merchantId f, of_status = pf_status f, of_method = pf_method f,
       of_from = pf_from f, of_to = pf_to f\<rparr> n off"

definition report_listRefunds :: "refund_filter \<Rightarrow> nat \<Rightarrow> nat \<Rightarrow> refund_store \<Rightarrow> nat \<times> refund list" where
  "report_listRefunds f n off st = refund_query st f n off"

text \<open>\<open>orderSummary\<close>: the store's rows added up per currency.\<close>

record currency_row =
  cw_currency :: currency
  cw_paidCount :: int
  cw_grossMinor :: int

definition currency_step :: "(currency, currency_row) jsmap \<Rightarrow> paid_row \<Rightarrow> (currency, currency_row) jsmap" where
  "currency_step m row =
     (let c = (case jm_get m (pr_currency row) of
                 None \<Rightarrow> \<lparr>cw_currency = pr_currency row, cw_paidCount = 0, cw_grossMinor = 0\<rparr> | Some c \<Rightarrow> c)
      in jm_set (pr_currency row) (c\<lparr>cw_paidCount := cw_paidCount c + pr_paidCount row,
           cw_grossMinor := cw_grossMinor c + pr_grossMinor row\<rparr>) m)"

record order_summary_report =
  os_total :: nat
  os_statuses :: "(order_status, int) jsmap"
  os_currencies :: "(currency_row \<times> string) list"
  os_methods :: "(paid_row \<times> string) list"

definition report_orderSummary :: "report_filter \<Rightarrow> order_store \<Rightarrow> order_summary_report result" where
  "report_orderSummary f st =
     (let s = order_summarize st \<lparr>of_merchantId = pf_merchantId f, of_status = pf_status f, of_method = pf_method f,
            of_from = pf_from f, of_to = pf_to f\<rparr>;
          byCurrency = foldl currency_step [] (sm_paid s)
      in case map_result (\<lambda>c. case fromMinorUnits (cw_grossMinor c) (cw_currency c) of Inl err \<Rightarrow> Inl err | Inr g \<Rightarrow> Inr (c, g))
              (jm_values byCurrency) of Inl err \<Rightarrow> Inl err | Inr cs \<Rightarrow>
        (case map_result (\<lambda>r. case fromMinorUnits (pr_grossMinor r) (pr_currency r) of Inl err \<Rightarrow> Inl err | Inr g \<Rightarrow> Inr (r, g))
              (sm_paid s) of Inl err \<Rightarrow> Inl err | Inr ms \<Rightarrow>
          Inr \<lparr>os_total = sm_ordersTotal s, os_statuses = sm_byStatus s, os_currencies = cs, os_methods = ms\<rparr>))"

subsection \<open>What the summary adds up to\<close>

definition paid_in :: "currency \<Rightarrow> order list \<Rightarrow> order list" where
  "paid_in c xs = filter (\<lambda>ord. isPaid ord \<and> o_currency ord = c) xs"

definition settled_in :: "currency \<Rightarrow> refund list \<Rightarrow> refund list" where
  "settled_in c rs = filter (\<lambda>r. refundSettled r \<and> r_currency r = c) rs"

definition order_totals :: "order list \<Rightarrow> currency \<Rightarrow> currency_totals" where
  "order_totals xs c = (new_totals c)\<lparr>ct_paidCount := int (length (paid_in c xs)), ct_grossMinor := sum_list (map o_amount (paid_in c xs))\<rparr>"

lemma summary_orders_fold:
  assumes "foldl order_step_summary ([], [], []) xs = (b, p, m)"
  shows "jm_wf p \<and> (\<forall>c. jm_get p c = (if paid_in c xs = [] then None else Some (order_totals xs c))) \<and>
    (\<forall>st. jm_get b st = (let n = length (filter (\<lambda>x. o_status x = st) xs) in if n = 0 then None else Some (int n))) \<and>
    ((\<forall>x \<in> set xs. 0 \<le> o_amount x) \<longrightarrow> (\<forall>v \<in> set (jm_values m). 0 \<le> mt_grossMinor v))"
  using assms
proof (induction xs arbitrary: b p m rule: rev_induct)
  case Nil
  then show ?case by (simp add: paid_in_def)
next
  case (snoc x xs)
  obtain b0 p0 m0 where f: "foldl order_step_summary ([], [], []) xs = (b0, p0, m0)" by (metis prod_cases3)
  note IH = snoc.IH[OF f]
  have wf: "jm_wf p0" and get: "\<And>c. jm_get p0 c = (if paid_in c xs = [] then None else Some (order_totals xs c))"
    and st: "\<And>st. jm_get b0 st = (let n = length (filter (\<lambda>x. o_status x = st) xs) in if n = 0 then None else Some (int n))"
    and pos: "(\<forall>x \<in> set xs. 0 \<le> o_amount x) \<Longrightarrow> (\<forall>v \<in> set (jm_values m0). 0 \<le> mt_grossMinor v)"
    using IH by blast+
  have s: "order_step_summary (b0, p0, m0) x = (b, p, m)" using snoc.prems f by simp
  have b: "b = jm_set (o_status x) ((case jm_get b0 (o_status x) of None \<Rightarrow> 0 | Some n \<Rightarrow> n) + 1) b0"
    using s by (auto simp: order_step_summary_def Let_def split: if_splits)
  have B: "jm_get b t = (let n = length (filter (\<lambda>y. o_status y = t) (xs @ [x])) in if n = 0 then None else Some (int n))" for t
    using st by (auto simp: b Let_def)
  show ?case
  proof (cases "isPaid x")
    case False
    then have "p = p0" "m = m0" using s by (auto simp: order_step_summary_def Let_def)
    moreover have "paid_in c (xs @ [x]) = paid_in c xs" for c using False by (simp add: paid_in_def)
    ultimately show ?thesis using wf get B pos by (simp add: order_totals_def)
  next
    case True
    let ?c = "o_currency x" and ?t = "totals_of p0 (o_currency x)"
    let ?m = "case jm_get m0 (o_method x) of
        None \<Rightarrow> \<lparr>mt_method = o_method x, mt_currency = o_currency x, mt_paidCount = 0, mt_grossMinor = 0, mt_grossDisplay = ''0''\<rparr> | Some m \<Rightarrow> m"
    have pm: "p = jm_set ?c (?t\<lparr>ct_paidCount := ct_paidCount ?t + 1, ct_grossMinor := ct_grossMinor ?t + o_amount x\<rparr>) p0"
      "m = jm_set (o_method x) (?m\<lparr>mt_paidCount := mt_paidCount ?m + 1, mt_grossMinor := mt_grossMinor ?m + o_amount x\<rparr>) m0"
      using s True by (simp_all add: order_step_summary_def Let_def)
    have grp: "paid_in c (xs @ [x]) = paid_in c xs @ (if c = ?c then [x] else [])" for c using True by (auto simp: paid_in_def)
    have "?t\<lparr>ct_paidCount := ct_paidCount ?t + 1, ct_grossMinor := ct_grossMinor ?t + o_amount x\<rparr> = order_totals (xs @ [x]) ?c"
      by (simp add: totals_of_def get order_totals_def grp new_totals_def)
    then have G: "jm_get p c = (if paid_in c (xs @ [x]) = [] then None else Some (order_totals (xs @ [x]) c))" for c
      using get[of c] by (simp add: pm grp order_totals_def)
    have M: "\<forall>v \<in> set (jm_values m). 0 \<le> mt_grossMinor v" if "\<forall>y \<in> set (xs @ [x]). 0 \<le> o_amount y"
    proof
      fix v assume v: "v \<in> set (jm_values m)"
      have old: "\<forall>v \<in> set (jm_values m0). 0 \<le> mt_grossMinor v" using pos that by simp
      have "0 \<le> mt_grossMinor ?m" using old jm_get_values[of m0 "o_method x"] by (cases "jm_get m0 (o_method x)") auto
      then show "0 \<le> mt_grossMinor v" using v old that values_set_subset unfolding pm(2) by fastforce
    qed
    show ?thesis using wf G B M by (simp add: pm(1))
  qed
qed

lemma summary_refunds_fold:
  assumes "jm_wf p"
  shows "jm_wf (foldl refund_step_summary p rs) \<and>
    (\<forall>c. jm_get (foldl refund_step_summary p rs) c =
      (if jm_get p c = None \<and> settled_in c rs = [] then None
       else Some ((totals_of p c)\<lparr>ct_refundedMinor := ct_refundedMinor (totals_of p c) + sum_list (map r_amount (settled_in c rs))\<rparr>)))"
proof (induction rs rule: rev_induct)
  case Nil
  then show ?case using assms by (auto simp: settled_in_def totals_of_def split: option.split)
next
  case (snoc r rs)
  let ?q = "foldl refund_step_summary p rs"
  have wf: "jm_wf ?q" and get: "\<And>c. jm_get ?q c = (if jm_get p c = None \<and> settled_in c rs = [] then None
       else Some ((totals_of p c)\<lparr>ct_refundedMinor := ct_refundedMinor (totals_of p c) + sum_list (map r_amount (settled_in c rs))\<rparr>))"
    using snoc.IH by blast+
  show ?case
  proof (cases "refundSettled r")
    case False
    then have "refund_step_summary ?q r = ?q" "settled_in c (rs @ [r]) = settled_in c rs" for c
      by (simp_all add: refund_step_summary_def settled_in_def)
    then show ?thesis using wf get by simp
  next
    case True
    have grp: "settled_in c (rs @ [r]) = settled_in c rs @ (if c = r_currency r then [r] else [])" for c using True by (auto simp: settled_in_def)
    have t: "ct_refundedMinor (totals_of ?q c) = ct_refundedMinor (totals_of p c) + sum_list (map r_amount (settled_in c rs))"
      "(totals_of ?q c)\<lparr>ct_refundedMinor := x\<rparr> = (totals_of p c)\<lparr>ct_refundedMinor := x\<rparr>" for c x
      by (auto simp: totals_of_def get new_totals_def)
    show ?thesis
      using wf get True by (auto simp: refund_step_summary_def[of _ r] Let_def grp t)
  qed
qed

lemma map_result_ok:
  "(\<And>x. x \<in> set xs \<Longrightarrow> f x = Inr (g x)) \<Longrightarrow> map_result f xs = Inr (map g xs)"
  by (induction xs) simp_all

lemma fromMinorUnits_ok: "0 \<le> n \<Longrightarrow> fromMinorUnits n c = Inr (projr (fromMinorUnits n c))"
  by (simp add: fromMinorUnits_def Let_def)

text \<open>The line of a currency, from the orders and refunds it is about.\<close>

definition currency_line :: "order list \<Rightarrow> refund list \<Rightarrow> currency \<Rightarrow> currency_totals" where
  "currency_line xs rs c =
     (let gross = sum_list (map o_amount (paid_in c xs)); back = sum_list (map r_amount (settled_in c rs))
      in \<lparr>ct_currency = c, ct_paidCount = int (length (paid_in c xs)), ct_grossMinor = gross,
          ct_grossDisplay = projr (fromMinorUnits gross c), ct_refundedMinor = back,
          ct_refundedDisplay = projr (fromMinorUnits back c), ct_netMinor = gross - back,
          ct_netDisplay = projr (fromMinorUnits (max 0 (gross - back)) c)\<rparr>)"

lemma jm_values_by_get:
  assumes "jm_wf m" "\<And>k v. jm_get m k = Some v \<Longrightarrow> v = g k"
  shows "jm_values m = map g (map fst m)"
proof -
  have "v = g k" if "(k, v) \<in> set m" for k v using that assms jm_get_in_set by metis
  then show ?thesis by auto
qed

text \<open>
  C24: The summary is exact. For a filter that names no tenant and amounts that are not negative it never
  fails; it reports exactly one line per currency that has a paid order or a settled refund of a matching
  order, with the exact gross of the paid orders, the exact total of the settled refunds and their
  difference, CNY and USDT apart, each shown in its own decimals; and every status with its number of
  matching orders. (A tenant in the filter is ignored by the summary.)
\<close>

theorem report_summary_exact:
  assumes "pf_merchantId f = None"
    and "\<forall>ord \<in> set (order_all ost). 0 \<le> o_amount ord" "\<forall>r \<in> set (refund_all rst). 0 \<le> r_amount r"
  shows "let xs = filter (report_matches f) (order_all ost); rs = filter (\<lambda>r. r_orderId r \<in> set (map o_id xs)) (refund_all rst) in
    \<exists>s. report_summary f ost rst = Inr s \<and> sr_ordersTotal s = length xs \<and> sr_refundsTotal s = length rs \<and>
      (\<exists>cs. distinct cs \<and> set cs = {c. paid_in c xs \<noteq> [] \<or> settled_in c rs \<noteq> []} \<and>
        sr_currencies s = map (currency_line xs rs) cs) \<and>
      (\<forall>st. jm_get (sr_byStatus s) st = (let n = length (filter (\<lambda>x. o_status x = st) xs) in if n = 0 then None else Some (int n)))"
proof -
  define xs where "xs = filter (report_matches f) (order_all ost)"
  define rs where "rs = filter (\<lambda>r. r_orderId r \<in> set (map o_id xs)) (refund_all rst)"
  obtain b p m where fold: "foldl order_step_summary ([], [], []) xs = (b, p, m)" by (metis prod_cases3)
  let ?q = "foldl refund_step_summary p rs"
  have wf: "jm_wf p" and get: "\<And>c. jm_get p c = (if paid_in c xs = [] then None else Some (order_totals xs c))"
    and st: "\<forall>st. jm_get b st = (let n = length (filter (\<lambda>x. o_status x = st) xs) in if n = 0 then None else Some (int n))"
    and mpos: "\<forall>v \<in> set (jm_values m). 0 \<le> mt_grossMinor v"
    using summary_orders_fold[OF fold] assms(2) by (auto simp: xs_def simp del: set_map)
  have xpos: "0 \<le> sum_list (map o_amount (paid_in c xs))" for c
    by (rule sum_list_nonneg) (use assms(2) in \<open>auto simp: paid_in_def xs_def\<close>)
  have rpos: "0 \<le> sum_list (map r_amount (settled_in c rs))" for c
    by (rule sum_list_nonneg) (use assms(3) in \<open>auto simp: settled_in_def rs_def\<close>)
  define line where "line c = (order_totals xs c)\<lparr>ct_refundedMinor := sum_list (map r_amount (settled_in c rs))\<rparr>" for c
  have tot: "totals_of p c = order_totals xs c" for c by (simp add: totals_of_def get order_totals_def new_totals_def)
  have qwf: "jm_wf ?q" and qget: "jm_get ?q c = (if paid_in c xs = [] \<and> settled_in c rs = [] then None else Some (line c))" for c
    using summary_refunds_fold[OF wf, of rs] by (auto simp: tot get line_def order_totals_def new_totals_def)
  define cs where "cs = map fst ?q"
  have cs: "distinct cs" "set cs = {c. paid_in c xs \<noteq> [] \<or> settled_in c rs \<noteq> []}"
  proof -
    show "distinct cs" using qwf by (simp add: cs_def jm_wf_def)
    have "c \<in> set cs \<longleftrightarrow> paid_in c xs \<noteq> [] \<or> settled_in c rs \<noteq> []" for c
      using jm_get_None[of ?q c] qget[of c] unfolding cs_def by (cases "paid_in c xs = [] \<and> settled_in c rs = []") auto
    then show "set cs = {c. paid_in c xs \<noteq> [] \<or> settled_in c rs \<noteq> []}" by blast
  qed
  have qval: "jm_values ?q = map line cs"
    unfolding cs_def by (rule jm_values_by_get[OF qwf]) (auto simp: qget split: if_splits)
  have fin: "finish_totals (line c) = Inr (currency_line xs rs c)" for c
  proof -
    let ?g = "sum_list (map o_amount (paid_in c xs))" and ?b = "sum_list (map r_amount (settled_in c rs))"
    obtain x y z where "fromMinorUnits ?g c = Inr x" "fromMinorUnits ?b c = Inr y" "fromMinorUnits (max 0 (?g - ?b)) c = Inr z"
      using fromMinorUnits_ok[OF xpos] fromMinorUnits_ok[OF rpos] fromMinorUnits_ok[OF max.cobounded1] by metis
    then show ?thesis by (simp add: finish_totals_def line_def currency_line_def order_totals_def new_totals_def Let_def)
  qed
  have c1: "map_result finish_totals (jm_values ?q) = Inr (map (\<lambda>t. projr (finish_totals t)) (jm_values ?q))"
    by (rule map_result_ok) (auto simp: qval fin)
  have c2: "map_result finish_method (jm_values m) = Inr (map (\<lambda>t. projr (finish_method t)) (jm_values m))"
  proof (rule map_result_ok)
    fix v assume "v \<in> set (jm_values m)"
    then obtain g where "fromMinorUnits (mt_grossMinor v) (mt_currency v) = Inr g"
      using mpos fromMinorUnits_ok[of "mt_grossMinor v" "mt_currency v"] by blast
    then show "finish_method v = Inr (projr (finish_method v))" by (simp add: finish_method_def)
  qed
  have cur: "map (\<lambda>t. projr (finish_totals t)) (jm_values ?q) = map (currency_line xs rs) cs"
    by (simp add: qval fin)
  have run: "report_summary f ost rst = Inr \<lparr>sr_ordersTotal = length xs, sr_byStatus = b,
      sr_currencies = map (\<lambda>t. projr (finish_totals t)) (jm_values ?q),
      sr_byMethod = map (\<lambda>t. projr (finish_method t)) (jm_values m), sr_refundsTotal = length rs\<rparr>"
    unfolding report_summary_def Let_def xs_def[symmetric] rs_def[symmetric] fold prod.case c1 c2 sum.case ..
  show ?thesis
    unfolding Let_def xs_def[symmetric] rs_def[symmetric] run
    by (rule exI, intro conjI, rule refl)
      (use cs in \<open>auto simp only: summary_report.select_convs cur st[unfolded Let_def] simp_thms HOL.all_simps\<close>)
qed

theorem report_summary_exact_witness:
  "\<exists>s. report_summary \<lparr>pf_from = None, pf_to = None, pf_method = None, pf_status = None, pf_merchantId = None\<rparr>
      (w_orders (demo_refund_world (demo_paid FULFILLED 500) [demo_refund 500 R_SUCCESS]))
      (w_refunds (demo_refund_world (demo_paid FULFILLED 500) [demo_refund 500 R_SUCCESS])) = Inr s \<and>
    \<lparr>ct_currency = CNY, ct_paidCount = 1, ct_grossMinor = 1500, ct_grossDisplay = ''15.00'', ct_refundedMinor = 500,
      ct_refundedDisplay = ''5.00'', ct_netMinor = 1000, ct_netDisplay = ''10.00''\<rparr> \<in> set (sr_currencies s)"
proof -
  let ?f = "\<lparr>pf_from = None, pf_to = None, pf_method = None, pf_status = None, pf_merchantId = None\<rparr>"
  let ?w = "demo_refund_world (demo_paid FULFILLED 500) [demo_refund 500 R_SUCCESS]"
  have l: "order_all (w_orders ?w) = [demo_paid FULFILLED 500]" "refund_all (w_refunds ?w) = [demo_refund 500 R_SUCCESS]"
    by (simp_all add: order_all_def refund_all_def demo_refund_simps)
  have o: "report_matches ?f (demo_paid FULFILLED 500)" "isPaid (demo_paid FULFILLED 500)" "o_currency (demo_paid FULFILLED 500) = CNY"
    by (simp_all add: report_matches_def isPaid_def demo_paid_def demo_order_def)
  have r: "refundSettled (demo_refund 500 R_SUCCESS)" "r_currency (demo_refund 500 R_SUCCESS) = CNY" "r_amount (demo_refund 500 R_SUCCESS) = 500"
    "r_orderId (demo_refund 500 R_SUCCESS) = o_id (demo_paid FULFILLED 500)"
    by (simp_all add: refundSettled_def demo_refund_def demo_paid_def demo_order_def)
  have line: "currency_line [demo_paid FULFILLED 500] [demo_refund 500 R_SUCCESS] CNY =
    \<lparr>ct_currency = CNY, ct_paidCount = 1, ct_grossMinor = 1500, ct_grossDisplay = ''15.00'', ct_refundedMinor = 500,
      ct_refundedDisplay = ''5.00'', ct_netMinor = 1000, ct_netDisplay = ''10.00''\<rparr>"
    using o r by (simp add: currency_line_def paid_in_def settled_in_def demo_paid_simps) code_simp
  have f: "filter (report_matches ?f) [demo_paid FULFILLED 500] = [demo_paid FULFILLED 500]"
    "filter (\<lambda>r. r_orderId r \<in> set (map o_id [demo_paid FULFILLED 500])) [demo_refund 500 R_SUCCESS] = [demo_refund 500 R_SUCCESS]"
    using o(1) r(4) by simp_all
  have p: "\<forall>ord \<in> set [demo_paid FULFILLED 500]. 0 \<le> o_amount ord" "\<forall>r \<in> set [demo_refund 500 R_SUCCESS]. 0 \<le> r_amount r"
    using r(3) by (simp_all add: demo_paid_simps)
  obtain s where s: "report_summary ?f (w_orders ?w) (w_refunds ?w) = Inr s"
    "\<exists>cs. set cs = {c. paid_in c [demo_paid FULFILLED 500] \<noteq> [] \<or> settled_in c [demo_refund 500 R_SUCCESS] \<noteq> []} \<and>
       sr_currencies s = map (currency_line [demo_paid FULFILLED 500] [demo_refund 500 R_SUCCESS]) cs"
    using report_summary_exact[of ?f "w_orders ?w" "w_refunds ?w", unfolded l f Let_def, OF _ p] unfolding f by auto
  have "paid_in CNY [demo_paid FULFILLED 500] \<noteq> []" using o by (simp add: paid_in_def)
  then have "currency_line [demo_paid FULFILLED 500] [demo_refund 500 R_SUCCESS] CNY \<in> set (sr_currencies s)" using s(2) by auto
  then show ?thesis unfolding line using s(1) by blast
qed

end
