(* ===== verification/Alerts.thy ===== *)
theory Alerts
  imports Reports Metrics
begin

text \<open>
  \<^verbatim>\<open>src/alerting/alertFormatter.ts\<close>, \<^verbatim>\<open>src/alerting/sweepAlerts.ts\<close> and \<^verbatim>\<open>src/webhooks/webhookWatcher.ts\<close>:
  the texts of the alerts and the two watchers, with the guards that keep a lasting condition from
  being reported at every tick. The timers are not modelled.
\<close>

section \<open>Formatting\<close>

datatype severity = Info | Warning | Critical

fun severity_name :: "severity \<Rightarrow> string" where
  "severity_name Info = ''info''"
| "severity_name Warning = ''warning''"
| "severity_name Critical = ''critical''"

record alert =
  at_severity :: severity
  at_title :: string
  at_summary :: string
  at_details :: "string list"

fun discrepancy_name :: "discrepancy_type \<Rightarrow> string" where
  "discrepancy_name paid_unfulfilled = ''paid_unfulfilled''"
| "discrepancy_name fulfilled_without_payment = ''fulfilled_without_payment''"
| "discrepancy_name stale_pending = ''stale_pending''"
| "discrepancy_name over_refunded = ''over_refunded''"
| "discrepancy_name refund_ledger_mismatch = ''refund_ledger_mismatch''"

definition CRITICAL_TYPES :: "discrepancy_type list" where
  "CRITICAL_TYPES = [paid_unfulfilled, fulfilled_without_payment, over_refunded, refund_ledger_mismatch]"

definition MAX_DETAIL_LINES :: nat where
  "MAX_DETAIL_LINES = 50"

text \<open>The dash and the ellipsis of the constant texts, as their UTF-8 bytes.\<close>

definition em_dash :: string where
  "em_dash = [CHR 0xE2, CHR 0x80, CHR 0x94]"

definition ellipsis :: string where
  "ellipsis = [CHR 0xE2, CHR 0x80, CHR 0xA6]"

definition string_of_nat :: "nat \<Rightarrow> string" where
  "string_of_nat n = string_of_int (int n)"

definition capped_details :: "('a \<Rightarrow> string) \<Rightarrow> 'a list \<Rightarrow> string list" where
  "capped_details f xs =
     (let details = map f (js_slice 0 MAX_DETAIL_LINES xs)
      in if length xs > MAX_DETAIL_LINES
         then details @ [ellipsis @ '' and '' @ string_of_nat (length xs - MAX_DETAIL_LINES) @ '' more''] else details)"

definition count_types :: "discrepancy list \<Rightarrow> (discrepancy_type, nat) jsmap" where
  "count_types ds = foldl (\<lambda>m d. jm_set (dc_type d) ((case jm_get m (dc_type d) of None \<Rightarrow> 0 | Some n \<Rightarrow> n) + 1) m) [] ds"

definition formatReconciliationAlert :: "reconciliation_report \<Rightarrow> alert option" where
  "formatReconciliationAlert report =
     (let ds = rp_discrepancies report in
      if ds = [] then None
      else
        let counts = count_types ds;
            sev = (if list_ex (\<lambda>d. dc_type d \<in> set CRITICAL_TYPES) ds then Critical else Warning)
        in Some \<lparr>at_severity = sev, at_title = ''Reconciliation '' @ severity_name sev,
             at_summary = string_of_nat (length ds) @ '' discrepancy(ies) across '' @ string_of_nat (rp_checkedOrders report)
               @ '' orders '' @ em_dash @ '' '' @
               join_with '', '' (map (\<lambda>(t, n). discrepancy_name t @ ''='' @ string_of_nat n) counts),
             at_details = capped_details (\<lambda>d. ''['' @ discrepancy_name (dc_type d) @ ''] order '' @ dc_orderId d @ '': '' @ dc_detail d) ds\<rparr>)"

definition formatDeadLetterAlert :: "nat \<Rightarrow> string list \<Rightarrow> alert option" where
  "formatDeadLetterAlert deadCount sampleIds =
     (if deadCount = 0 then None
      else Some \<lparr>at_severity = Warning, at_title = ''Webhook dead-letter queue non-empty'',
        at_summary = string_of_nat deadCount @ '' webhook delivery(ies) exhausted all retries'',
        at_details = map (\<lambda>i. ''delivery '' @ i) (js_slice 0 MAX_DETAIL_LINES sampleIds)\<rparr>)"

text \<open>
  \<open>(n / 1e6).toFixed(6)\<close>: the exact decimal of a non-negative integer number of millionths; the quotient's
  rounding cannot be seen in six places below \<open>4.5 * 10\<^sup>1\<^sup>5\<close>.
\<close>

definition formatMicro :: "int \<Rightarrow> string" where
  "formatMicro n = string_of_int (n div 1000000) @ ''.'' @ padStart 6 CHR ''0'' (string_of_int (n mod 1000000))"

definition formatFailedSweepsAlert :: "sweep_job list \<Rightarrow> alert option" where
  "formatFailedSweepsAlert failed =
     (if failed = [] then None
      else
        let totalMicro = foldl (\<lambda>s j. s + j_amountMicro j) 0 failed
        in Some \<lparr>at_severity = Critical, at_title = ''USDT sweep failures'',
             at_summary = string_of_nat (length failed) @ '' sweep job(s) FAILED '' @ em_dash @ '' '' @ formatMicro totalMicro
               @ '' USDT stuck ('' @ string_of_int totalMicro @ '' micro-USDT)'',
             at_details = capped_details (\<lambda>j. ''order '' @ j_orderId j @ '' ('' @ j_depositAddress j @ ''): '' @
               (case j_lastError j of None \<Rightarrow> ''unknown error'' | Some m \<Rightarrow> m)) failed\<rparr>)"

definition formatFeeWalletLowAlert :: "int \<Rightarrow> int \<Rightarrow> alert option" where
  "formatFeeWalletLowAlert balanceSun thresholdSun =
     (if balanceSun \<ge> thresholdSun then None
      else Some \<lparr>at_severity = (if balanceSun = 0 then Critical else Warning), at_title = ''USDT fee wallet low'',
        at_summary = ''fee wallet balance '' @ formatMicro balanceSun @ '' TRX is below the '' @ formatMicro thresholdSun @ '' TRX threshold'',
        at_details = [''top up the fee wallet to keep sweeps flowing'']\<rparr>)"

section \<open>The watcher of the sweep pipeline\<close>

text \<open>
  The watcher's two guards. The repository's answer, the probe (absent, failing, or answering a balance or
  \<open>undefined\<close>) and the sink (which may reject an alert) are given for each tick; \<open>sent\<close> collects the alerts
  the sink accepted.
\<close>

record alert_watcher =
  aw_lastAlertedFailedCount :: nat
  aw_feeLowAlerted :: bool

definition new_alert_watcher :: alert_watcher where
  "new_alert_watcher = \<lparr>aw_lastAlertedFailedCount = 0, aw_feeLowAlerted = False\<rparr>"

type_synonym alert_sink = "alert \<Rightarrow> unit result"

record watch_input =
  wi_jobs :: "sweep_job list result"
  wi_fee :: "int option result option"
  wi_sink :: alert_sink

definition send_alert :: "alert_sink \<Rightarrow> alert \<Rightarrow> alert_watcher \<times> alert list \<Rightarrow> unit result \<times> alert_watcher \<times> alert list" where
  "send_alert sink a s = (case sink a of Inl err \<Rightarrow> (Inl err, s) | Inr _ \<Rightarrow> (Inr (), fst s, snd s @ [a]))"

definition checkFailedSweeps :: "watch_input \<Rightarrow> alert_watcher \<times> alert list \<Rightarrow> unit result \<times> alert_watcher \<times> alert list" where
  "checkFailedSweeps inp s =
     (case wi_jobs inp of
        Inl err \<Rightarrow> (Inl err, s)
      | Inr all \<Rightarrow>
          let failed = filter (\<lambda>job. j_status job = S_FAILED) all in
          if length failed = 0 then (Inr (), (fst s)\<lparr>aw_lastAlertedFailedCount := 0\<rparr>, snd s)
          else if length failed \<le> aw_lastAlertedFailedCount (fst s) then (Inr (), s)
          else bindR (case formatFailedSweepsAlert failed of None \<Rightarrow> (Inr (), s) | Some a \<Rightarrow> send_alert (wi_sink inp) a s) (\<lambda>_ s1.
            (Inr (), (fst s1)\<lparr>aw_lastAlertedFailedCount := length failed\<rparr>, snd s1)))"

definition checkFeeWallet :: "int \<Rightarrow> watch_input \<Rightarrow> alert_watcher \<times> alert list \<Rightarrow> unit result \<times> alert_watcher \<times> alert list" where
  "checkFeeWallet threshold inp s =
     (case wi_fee inp of
        None \<Rightarrow> (Inr (), s)
      | Some (Inl err) \<Rightarrow> (Inr (), s)
      | Some (Inr None) \<Rightarrow> (Inr (), s)
      | Some (Inr (Some balanceSun)) \<Rightarrow>
          (case formatFeeWalletLowAlert balanceSun threshold of
             None \<Rightarrow> (Inr (), (fst s)\<lparr>aw_feeLowAlerted := False\<rparr>, snd s)
           | Some a \<Rightarrow>
               if aw_feeLowAlerted (fst s) then (Inr (), s)
               else bindR (send_alert (wi_sink inp) a s) (\<lambda>_ s1. (Inr (), (fst s1)\<lparr>aw_feeLowAlerted := True\<rparr>, snd s1))))"

definition alert_runOnce :: "int \<Rightarrow> watch_input \<Rightarrow> alert_watcher \<Rightarrow> alert_watcher \<times> alert list" where
  "alert_runOnce threshold inp w = snd (bindR (checkFailedSweeps inp (w, [])) (\<lambda>_ s. checkFeeWallet threshold inp s))"

section \<open>The watcher of the webhook deliveries\<close>

text \<open>The deliveries are drained first; then the dead-letter queue is compared with its depth at the last alert.\<close>

definition webhookWatcher_runOnce ::
  "env \<Rightarrow> hmac \<Rightarrow> webhook_config \<Rightarrow> (nat \<Rightarrow> http_client) \<Rightarrow> nat \<Rightarrow> webhook_store \<Rightarrow> (unit result \<times> alert list) \<times> nat \<times> webhook_store" where
  "webhookWatcher_runOnce e hmac cfg request lastAlertedDead st =
     (case webhook_processDue e hmac cfg request 50 st of
        (Inl err, st1) \<Rightarrow> ((Inl err, []), lastAlertedDead, st1)
      | (Inr counts, st1) \<Rightarrow>
          let (count, sampleIds) = deadLetterSummary st1 20 in
          if count > 0 \<and> count \<noteq> lastAlertedDead then
            ((Inr (), (case formatDeadLetterAlert count sampleIds of None \<Rightarrow> [] | Some a \<Rightarrow> [a])), count, st1)
          else if count = 0 then ((Inr (), []), 0, st1)
          else ((Inr (), []), lastAlertedDead, st1))"

section \<open>When the sweep watcher alerts\<close>

definition failed_jobs :: "sweep_job list \<Rightarrow> sweep_job list" where
  "failed_jobs js = filter (\<lambda>job. j_status job = S_FAILED) js"

text \<open>The guard as the history of failure counts determines it: the largest since they last were zero.\<close>

definition guard_after :: "nat \<Rightarrow> nat \<Rightarrow> nat" where
  "guard_after g n = (if n = 0 then 0 else max g n)"

definition accepts :: "alert_sink \<Rightarrow> bool" where
  "accepts sink \<longleftrightarrow> (\<forall>a. sink a = Inr ())"

definition failed_alert :: "sweep_job list \<Rightarrow> alert" where
  "failed_alert js = the (formatFailedSweepsAlert (failed_jobs js))"

definition fee_alert :: "int \<Rightarrow> int \<Rightarrow> alert" where
  "fee_alert threshold n = the (formatFeeWalletLowAlert n threshold)"

text \<open>What is known of the wallet after a tick: low or not, or as before when the probe gives nothing.\<close>

definition low_after :: "int \<Rightarrow> bool \<Rightarrow> int option result option \<Rightarrow> bool" where
  "low_after threshold low fee = (case fee of Some (Inr (Some n)) \<Rightarrow> n < threshold | _ \<Rightarrow> low)"

lemma watcher_eta [simp]: "\<lparr>aw_lastAlertedFailedCount = aw_lastAlertedFailedCount w, aw_feeLowAlerted = aw_feeLowAlerted w\<rparr> = w"
  by (cases w) simp

lemma failed_sweeps_tick:
  assumes "accepts (wi_sink inp)" "wi_jobs inp = Inr js"
  shows "checkFailedSweeps inp s =
    (Inr (), (fst s)\<lparr>aw_lastAlertedFailedCount := guard_after (aw_lastAlertedFailedCount (fst s)) (length (failed_jobs js))\<rparr>,
     snd s @ (if aw_lastAlertedFailedCount (fst s) < length (failed_jobs js) then [failed_alert js] else []))"
proof -
  let ?f = "failed_jobs js" and ?g = "aw_lastAlertedFailedCount (fst s)"
  have unfold: "checkFailedSweeps inp s =
     (if length ?f = 0 then (Inr (), (fst s)\<lparr>aw_lastAlertedFailedCount := 0\<rparr>, snd s)
      else if length ?f \<le> ?g then (Inr (), s)
      else bindR (case formatFailedSweepsAlert ?f of None \<Rightarrow> (Inr (), s) | Some a \<Rightarrow> send_alert (wi_sink inp) a s) (\<lambda>_ s1.
            (Inr (), (fst s1)\<lparr>aw_lastAlertedFailedCount := length ?f\<rparr>, snd s1)))"
    using assms(2) by (simp add: checkFailedSweeps_def failed_jobs_def Let_def)
  consider "?f = []" | "?f \<noteq> []" "length ?f \<le> ?g" | "?f \<noteq> []" "?g < length ?f" by fastforce
  then show ?thesis
  proof cases
    case 1
    then show ?thesis by (simp add: unfold guard_after_def)
  next
    case 2
    then have "(fst s)\<lparr>aw_lastAlertedFailedCount := max ?g (length ?f)\<rparr> = fst s" by (cases "fst s") (simp add: max_def)
    with 2 show ?thesis by (simp add: unfold guard_after_def)
  next
    case 3
    then obtain a where a: "formatFailedSweepsAlert ?f = Some a" by (auto simp: formatFailedSweepsAlert_def Let_def)
    with 3 assms(1) show ?thesis
      by (simp add: unfold guard_after_def failed_alert_def send_alert_def accepts_def max_def)
  qed
qed

lemma fee_wallet_tick:
  assumes "accepts (wi_sink inp)"
  shows "checkFeeWallet threshold inp s =
    (Inr (), (fst s)\<lparr>aw_feeLowAlerted := low_after threshold (aw_feeLowAlerted (fst s)) (wi_fee inp)\<rparr>,
     snd s @ (case wi_fee inp of Some (Inr (Some n)) \<Rightarrow>
         if n < threshold \<and> \<not> aw_feeLowAlerted (fst s) then [fee_alert threshold n] else [] | _ \<Rightarrow> []))"
proof -
  have same: "(fst s)\<lparr>aw_feeLowAlerted := aw_feeLowAlerted (fst s)\<rparr> = fst s" by (cases "fst s") simp
  show ?thesis
  proof (cases "wi_fee inp")
    case None
    then show ?thesis using same by (simp add: checkFeeWallet_def low_after_def)
  next
    case (Some r)
    show ?thesis
    proof (cases r)
      case (Inl err)
      then show ?thesis using Some same by (simp add: checkFeeWallet_def low_after_def)
    next
      case (Inr b)
      show ?thesis
      proof (cases b)
        case None
        then show ?thesis using Some Inr same by (simp add: checkFeeWallet_def low_after_def)
      next
        case (Some n)
        have "(fst s)\<lparr>aw_feeLowAlerted := True\<rparr> = fst s" if "aw_feeLowAlerted (fst s)" using that same by simp
        then have "(((fst s)\<lparr>aw_feeLowAlerted := True\<rparr>, snd s) = s)" if "aw_feeLowAlerted (fst s)"
          using that by (cases s; cases "fst s") simp
        then show ?thesis using \<open>wi_fee inp = Some r\<close> Inr Some assms
          by (auto simp: checkFeeWallet_def low_after_def formatFeeWalletLowAlert_def fee_alert_def send_alert_def accepts_def)
      qed
    qed
  qed
qed

fun watch_all :: "int \<Rightarrow> watch_input list \<Rightarrow> alert_watcher \<Rightarrow> alert list list \<times> alert_watcher" where
  "watch_all threshold [] w = ([], w)"
| "watch_all threshold (i # is) w =
     (let (w1, alerts) = alert_runOnce threshold i w; (rest, w2) = watch_all threshold is w1 in (alerts # rest, w2))"

lemma tick:
  assumes "accepts (wi_sink inp)" "wi_jobs inp = Inr js"
  shows "alert_runOnce threshold inp w =
    (\<lparr>aw_lastAlertedFailedCount = guard_after (aw_lastAlertedFailedCount w) (length (failed_jobs js)),
      aw_feeLowAlerted = low_after threshold (aw_feeLowAlerted w) (wi_fee inp)\<rparr>,
     (if aw_lastAlertedFailedCount w < length (failed_jobs js) then [failed_alert js] else []) @
     (case wi_fee inp of Some (Inr (Some n)) \<Rightarrow> if n < threshold \<and> \<not> aw_feeLowAlerted w then [fee_alert threshold n] else [] | _ \<Rightarrow> []))"
  unfolding alert_runOnce_def failed_sweeps_tick[OF assms] fee_wallet_tick[OF assms(1)]
  by (cases w) (simp add: fee_wallet_tick[OF assms(1)] split: option.split sum.split)

definition guard_upto :: "watch_input list \<Rightarrow> nat" where
  "guard_upto is = foldl (\<lambda>g i. guard_after g (length (failed_jobs (projr (wi_jobs i))))) 0 is"

definition low_upto :: "int \<Rightarrow> watch_input list \<Rightarrow> bool" where
  "low_upto threshold is = foldl (\<lambda>l i. low_after threshold l (wi_fee i)) False is"

lemma watch_all_at:
  "\<forall>i \<in> set is. accepts (wi_sink i) \<and> (\<exists>js. wi_jobs i = Inr js) \<Longrightarrow>
     length (fst (watch_all threshold is w)) = length is \<and>
     (\<forall>k < length is. fst (watch_all threshold is w) ! k =
        snd (alert_runOnce threshold (is ! k)
          \<lparr>aw_lastAlertedFailedCount = foldl (\<lambda>g i. guard_after g (length (failed_jobs (projr (wi_jobs i))))) (aw_lastAlertedFailedCount w) (take k is),
            aw_feeLowAlerted = foldl (\<lambda>l i. low_after threshold l (wi_fee i)) (aw_feeLowAlerted w) (take k is)\<rparr>))"
proof (induction "is" arbitrary: w)
  case (Cons i "is")
  obtain js where i: "accepts (wi_sink i)" "wi_jobs i = Inr js" using Cons.prems by auto
  obtain w1 alerts where r: "alert_runOnce threshold i w = (w1, alerts)" by fastforce
  have w1: "aw_lastAlertedFailedCount w1 = guard_after (aw_lastAlertedFailedCount w) (length (failed_jobs (projr (wi_jobs i))))"
    "aw_feeLowAlerted w1 = low_after threshold (aw_feeLowAlerted w) (wi_fee i)"
    using r tick[OF i, of threshold w] i(2) by auto
  note IH = Cons.IH[of w1]
  show ?case using IH Cons.prems r w1
    by (auto simp: split_beta nth_Cons split: nat.split)
qed simp

text \<open>
  The watcher alerts when a condition appears or worsens, and not at every tick. With a sink that
  accepts alerts, at every tick the sweep failures are reported exactly when there are more failed jobs than at
  any tick since there last were none, and the fee wallet exactly when it is low and was not when its balance was
  last known.
\<close>

theorem alerts_exact:
  assumes "\<forall>i \<in> set is. accepts (wi_sink i) \<and> (\<exists>js. wi_jobs i = Inr js)" "k < length is" "wi_jobs (is ! k) = Inr js"
  shows "fst (watch_all threshold is new_alert_watcher) ! k =
    (if guard_upto (take k is) < length (failed_jobs js) then [failed_alert js] else []) @
    (case wi_fee (is ! k) of
       Some (Inr (Some n)) \<Rightarrow> if n < threshold \<and> \<not> low_upto threshold (take k is) then [fee_alert threshold n] else []
     | _ \<Rightarrow> [])"
proof -
  have "accepts (wi_sink (is ! k))" using assms(1,2) by simp
  from tick[OF this assms(3)] watch_all_at[OF assms(1), of threshold new_alert_watcher] assms(2)
  show ?thesis by (simp add: guard_upto_def low_upto_def new_alert_watcher_def split: option.split sum.split)
qed

text \<open>
  New failures can stay silent. Once an alert for some number of failed jobs has been sent, a later
  tick with other failed jobs raises no alert as long as there are no more of them than then and never none in
  between, although none of them was ever reported.
\<close>

theorem new_failures_unreported:
  assumes "accepts (wi_sink inp)" "wi_jobs inp = Inr js" "failed_jobs js \<noteq> []"
    and "length (failed_jobs js) \<le> aw_lastAlertedFailedCount w" "wi_fee inp = None"
  shows "alert_runOnce threshold inp w = (w, [])"
proof -
  have "guard_after (aw_lastAlertedFailedCount w) (length (failed_jobs js)) = aw_lastAlertedFailedCount w"
    using assms(3,4) by (simp add: guard_after_def max_def)
  moreover have "low_after threshold (aw_feeLowAlerted w) None = aw_feeLowAlerted w" by (simp add: low_after_def)
  ultimately show ?thesis using tick[OF assms(1,2), of threshold w] assms(4,5) by simp
qed

section \<open>The severity of a reconciliation\<close>

text \<open>
  A reconciliation raises an alert exactly when it found something, and a critical one exactly
  when what it found is more than stale orders.
\<close>

lemma reconciliation_alert_iff:
  "formatReconciliationAlert rep = None \<longleftrightarrow> rp_discrepancies rep = []"
  "formatReconciliationAlert rep = Some a \<Longrightarrow>
     (at_severity a = Critical \<longleftrightarrow> (\<exists>d \<in> set (rp_discrepancies rep). dc_type d \<noteq> stale_pending)) \<and> at_severity a \<noteq> Info"
proof -
  show "formatReconciliationAlert rep = None \<longleftrightarrow> rp_discrepancies rep = []"
    by (simp add: formatReconciliationAlert_def Let_def)
  have crit: "t \<in> set CRITICAL_TYPES \<longleftrightarrow> t \<noteq> stale_pending" for t by (cases t) (simp_all add: CRITICAL_TYPES_def)
  assume "formatReconciliationAlert rep = Some a"
  then show "(at_severity a = Critical \<longleftrightarrow> (\<exists>d \<in> set (rp_discrepancies rep). dc_type d \<noteq> stale_pending)) \<and> at_severity a \<noteq> Info"
    by (auto simp: formatReconciliationAlert_def Let_def crit list_ex_iff split: if_splits)
qed

text \<open>
  The running system never raises a critical reconciliation alert. In every reachable state the
  audit's alert, if there is one, is a warning about orders pending past their expiry.
\<close>

theorem no_critical_reconciliation:
  assumes "reachable mode w" "reconcile_run e heal True w = (Inr rep, w')" "formatReconciliationAlert rep = Some a"
  shows "at_severity a = Warning \<and> (\<forall>d \<in> set (rp_discrepancies rep). dc_type d = stale_pending)"
proof -
  have "\<forall>d \<in> set (rp_discrepancies rep). dc_type d = stale_pending"
    using reconcile_reachable[OF assms(1), of e heal] assms(2) by auto
  then show ?thesis using reconciliation_alert_iff(2)[OF assms(3)] by (cases "at_severity a") auto
qed

section \<open>Worked examples\<close>

definition demo_failed :: "string \<Rightarrow> sweep_job" where
  "demo_failed i = \<lparr>j_id = i, j_orderId = i, j_depositIndex = 0, j_depositAddress = ''T'', j_collectionAddress = ''C'', j_amountMicro = 1,
     j_status = S_FAILED, j_gasTxId = None, j_sweepTxId = None, j_attempts = 5, j_lastError = None, j_createdAt = 0, j_updatedAt = 0,
     j_nextAttemptAt = 0\<rparr>"

definition demo_jobs :: "string list \<Rightarrow> sweep_job list" where
  "demo_jobs is = map demo_failed is"

definition demo_tick :: "string list \<Rightarrow> watch_input" where
  "demo_tick is = \<lparr>wi_jobs = Inr (demo_jobs is), wi_fee = None, wi_sink = (\<lambda>_. Inr ())\<rparr>"

lemma demo_tick_simps [simp]:
  "accepts (wi_sink (demo_tick is))" "wi_jobs (demo_tick is) = Inr (demo_jobs is)" "wi_fee (demo_tick is) = None"
  "failed_jobs (demo_jobs is) = demo_jobs is" "length (demo_jobs is) = length is" "demo_jobs is = [] \<longleftrightarrow> is = []"
  by (simp_all add: demo_tick_def accepts_def failed_jobs_def comp_def demo_failed_def filter_map demo_jobs_def)

theorem alerts_exact_witness:
  "length (fst (watch_all 0 [demo_tick [''a''], demo_tick [''a''], demo_tick [''a'', ''b'']] new_alert_watcher) ! 0) = 1 \<and>
   fst (watch_all 0 [demo_tick [''a''], demo_tick [''a''], demo_tick [''a'', ''b'']] new_alert_watcher) ! 1 = [] \<and>
   length (fst (watch_all 0 [demo_tick [''a''], demo_tick [''a''], demo_tick [''a'', ''b'']] new_alert_watcher) ! 2) = 1"
proof -
  let ?ticks = "[demo_tick [''a''], demo_tick [''a''], demo_tick [''a'', ''b'']]"
  have pre: "\<forall>i \<in> set ?ticks. accepts (wi_sink i) \<and> (\<exists>js. wi_jobs i = Inr js)" by simp
  show ?thesis
    using alerts_exact[OF pre, of 0 "demo_jobs [''a'']" 0] alerts_exact[OF pre, of 1 "demo_jobs [''a'']" 0]
      alerts_exact[OF pre, of 2 "demo_jobs [''a'', ''b'']" 0]
    by (simp add: guard_upto_def guard_after_def)
qed

theorem new_failures_unreported_witness:
  "alert_runOnce 0 (demo_tick [''c'', ''d'']) (fst (alert_runOnce 0 (demo_tick [''a'', ''b'']) new_alert_watcher)) =
     (fst (alert_runOnce 0 (demo_tick [''a'', ''b'']) new_alert_watcher), [])"
proof -
  have "aw_lastAlertedFailedCount (fst (alert_runOnce 0 (demo_tick [''a'', ''b'']) new_alert_watcher)) = 2"
    using tick[of "demo_tick [''a'', ''b'']" "demo_jobs [''a'', ''b'']" 0 new_alert_watcher]
    by (simp add: guard_after_def new_alert_watcher_def)
  then show ?thesis
    using new_failures_unreported[of "demo_tick [''c'', ''d'']" "demo_jobs [''c'', ''d'']"
      "fst (alert_runOnce 0 (demo_tick [''a'', ''b'']) new_alert_watcher)" 0]
    by simp
qed

theorem no_critical_reconciliation_witness:
  "\<exists>rep w' a. reconcile_run (env_at (o_expiresAt demo_new)) False True demo_created = (Inr rep, w') \<and>
     formatReconciliationAlert rep = Some a \<and> at_severity a = Warning"
proof -
  let ?e = "env_at (o_expiresAt demo_new)"
  have wf: "order_store_wf (w_orders demo_created)"
    using ledger_okD(1)[OF system_okD(1)[OF reachable_ok[OF demo_reachable(1)]]] .
  obtain rep w' where run: "reconcile_run ?e False True demo_created = (Inr rep, w')"
    and d: "map (\<lambda>x. (dc_type x, dc_orderId x)) (rp_discrepancies rep) =
      concat (map (\<lambda>ord. map (\<lambda>t. (t, o_id ord)) (violations (w_refunds demo_created) (now_at ?e 0) ord)) (order_all (w_orders demo_created)))"
    using reconcile_report[OF wf, of ?e False True] by blast
  have "order_findById (w_orders demo_created) (o_id demo_new) = Some demo_new" by (simp add: demo_created_facts(2) demo_new_simps)
  then have "demo_new \<in> set (order_all (w_orders demo_created))" using order_list.listing_iff[OF wf] by blast
  moreover have "stale_pending \<in> set (violations (w_refunds demo_created) (now_at ?e 0) demo_new)"
    by (simp add: violations_wrong demo_new_simps)
  ultimately have "rp_discrepancies rep \<noteq> []" using d by auto
  then obtain a where "formatReconciliationAlert rep = Some a" using reconciliation_alert_iff(1)[of rep] by blast
  with no_critical_reconciliation[OF demo_reachable(1) run this] run show ?thesis by blast
qed

end
