(* ===== verification/Lifecycle.thy ===== *)
theory Lifecycle
  imports Prelude
begin

text \<open>
  \<^verbatim>\<open>src/health/readiness.ts\<close>, \<^verbatim>\<open>src/health/dependencyChecks.ts\<close> and \<^verbatim>\<open>src/lifecycle/gracefulShutdown.ts\<close>: the
  readiness report with its isolation of checks, and the shutdown of the HTTP server as a state machine over
  the events it waits for.
\<close>

section \<open>Readiness\<close>

record check_result =
  cr_ok :: bool
  cr_detail :: "string option"

text \<open>
  A check's run is the time it takes to settle, if it ever does, and what it settles with: a result, or the
  message of what it throws.
\<close>

type_synonym check_run = "(int \<times> (string + check_result)) option"

record health_check =
  hc_name :: string
  hc_critical :: "bool option"
  hc_run :: check_run

datatype readiness_status = Ready | Degraded

record readiness_row =
  rr_name :: string
  rr_ok :: bool
  rr_critical :: bool
  rr_detail :: "string option"

record readiness_report =
  ry_status :: readiness_status
  ry_checks :: "readiness_row list"

definition DEFAULT_CHECK_TIMEOUT :: int where
  "DEFAULT_CHECK_TIMEOUT = 2000"

text \<open>\<open>runOne\<close>: the execution, its errors turned into results, against the timer.\<close>

definition runOne :: "int \<Rightarrow> health_check \<Rightarrow> check_result" where
  "runOne timeoutMs check =
     (case hc_run check of
        Some (t, outcome) \<Rightarrow>
          if t < timeoutMs then
            (case outcome of Inl err \<Rightarrow> \<lparr>cr_ok = False, cr_detail = Some err\<rparr> | Inr r \<Rightarrow> r)
          else \<lparr>cr_ok = False, cr_detail = Some ''timeout''\<rparr>
      | None \<Rightarrow> \<lparr>cr_ok = False, cr_detail = Some ''timeout''\<rparr>)"

definition readiness_run :: "int option \<Rightarrow> health_check list \<Rightarrow> readiness_report" where
  "readiness_run timeoutMs checks =
     (let results = map (runOne (case timeoutMs of None \<Rightarrow> DEFAULT_CHECK_TIMEOUT | Some t \<Rightarrow> t)) checks;
          rows = map2 (\<lambda>check result. \<lparr>rr_name = hc_name check, rr_ok = cr_ok result,
                   rr_critical = (case hc_critical check of None \<Rightarrow> False | Some b \<Rightarrow> b), rr_detail = cr_detail result\<rparr>) checks results;
          degraded = list_ex (\<lambda>row. rr_critical row \<and> \<not> rr_ok row) rows
      in \<lparr>ry_status = (if degraded then Degraded else Ready), ry_checks = rows\<rparr>)"

text \<open>
  The two dependency checks. What the client answers within \<open>t\<close> milliseconds, or its error message, is
  given; \<open>None\<close> is a call that never returns.
\<close>

definition sqlHealthCheck :: "string option \<Rightarrow> bool option \<Rightarrow> (int \<times> (string + unit)) option \<Rightarrow> health_check" where
  "sqlHealthCheck name critical q =
     \<lparr>hc_name = (case name of None \<Rightarrow> ''sql'' | Some n \<Rightarrow> n), hc_critical = Some (case critical of None \<Rightarrow> True | Some c \<Rightarrow> c),
      hc_run = map_option (\<lambda>(t, out). (t, Inr (case out of
        Inl err \<Rightarrow> \<lparr>cr_ok = False, cr_detail = Some err\<rparr>
      | Inr _ \<Rightarrow> \<lparr>cr_ok = True, cr_detail = Some (''reachable ('' @ string_of_int t @ ''ms)'')\<rparr>))) q\<rparr>"

definition redisHealthCheck :: "string option \<Rightarrow> bool option \<Rightarrow> (int \<times> (string + string)) option \<Rightarrow> health_check" where
  "redisHealthCheck name critical ping =
     \<lparr>hc_name = (case name of None \<Rightarrow> ''redis'' | Some n \<Rightarrow> n), hc_critical = Some (case critical of None \<Rightarrow> False | Some c \<Rightarrow> c),
      hc_run = map_option (\<lambda>(t, out). (t, Inr (case out of
        Inl err \<Rightarrow> \<lparr>cr_ok = False, cr_detail = Some err\<rparr>
      | Inr reply \<Rightarrow> if reply \<noteq> [] then \<lparr>cr_ok = True, cr_detail = Some ''reachable''\<rparr>
                     else \<lparr>cr_ok = False, cr_detail = Some (''unexpected ping reply: '' @ reply)\<rparr>))) ping\<rparr>"

text \<open>A check passes when it settles in time with a positive result.\<close>

definition passes :: "int \<Rightarrow> health_check \<Rightarrow> bool" where
  "passes timeoutMs check \<longleftrightarrow> (\<exists>t r. hc_run check = Some (t, Inr r) \<and> t < timeoutMs \<and> cr_ok r)"

lemma runOne_passes: "cr_ok (runOne T check) = passes T check"
  by (auto simp: runOne_def passes_def split: option.split sum.split)

text \<open>
  The report tells every check's own outcome, and is degraded exactly for critical ones. For any
  checks, the rows are the checks in their order, each row is positive exactly when its check settled in time with
  a positive result - whatever the others did - and the node is degraded exactly when a critical check did not
  pass.
\<close>

theorem readiness_exact:
  "let report = readiness_run (Some T) checks in
     map rr_name (ry_checks report) = map hc_name checks \<and>
     map rr_ok (ry_checks report) = map (passes T) checks \<and>
     (ry_status report = Degraded \<longleftrightarrow> (\<exists>check. check \<in> set checks \<and> hc_critical check = Some True \<and> \<not> passes T check))"
proof -
  define row where "row check = \<lparr>rr_name = hc_name check, rr_ok = cr_ok (runOne T check),
      rr_critical = (case hc_critical check of None \<Rightarrow> False | Some b \<Rightarrow> b), rr_detail = cr_detail (runOne T check)\<rparr>" for check
  have rows: "map2 (\<lambda>check result. \<lparr>rr_name = hc_name check, rr_ok = cr_ok result,
       rr_critical = (case hc_critical check of None \<Rightarrow> False | Some b \<Rightarrow> b), rr_detail = cr_detail result\<rparr>) cs (map (runOne T) cs) =
      map row cs" for cs
    by (induction cs) (simp_all add: row_def)
  have crit: "(case c of None \<Rightarrow> False | Some b \<Rightarrow> b) \<longleftrightarrow> c = Some True" for c :: "bool option" by (cases c) auto
  have run: "readiness_run (Some T) checks =
      \<lparr>ry_status = (if list_ex (\<lambda>r. rr_critical r \<and> \<not> rr_ok r) (map row checks) then Degraded else Ready), ry_checks = map row checks\<rparr>"
    unfolding readiness_run_def Let_def option.case rows ..
  have fields: "rr_name (row c) = hc_name c" "rr_ok (row c) = passes T c" "rr_critical (row c) \<longleftrightarrow> hc_critical c = Some True" for c
    by (simp_all add: row_def runOne_passes crit)
  show ?thesis by (simp add: run Let_def list_ex_iff comp_def fields) blast
qed

text \<open>
  With the two dependency checks as they are wired, the node is taken out when the database does
  not answer in time and stays in whatever Redis does.
\<close>

lemma dependency_readiness:
  "ry_status (readiness_run (Some T) [sqlHealthCheck None None q, redisHealthCheck None None ping]) =
     (if passes T (sqlHealthCheck None None q) then Ready else Degraded)"
  by (simp add: readiness_run_def Let_def runOne_passes sqlHealthCheck_def redisHealthCheck_def)

lemma sql_passes: "passes T (sqlHealthCheck name critical q) \<longleftrightarrow> (\<exists>t. q = Some (t, Inr ()) \<and> t < T)"
proof (cases q)
  case (Some x)
  obtain t out where "x = (t, out)" by fastforce
  then show ?thesis using Some by (cases out) (auto simp: passes_def sqlHealthCheck_def)
qed (simp add: passes_def sqlHealthCheck_def)

section \<open>Graceful shutdown\<close>

datatype shutdown_result = Clean | Forced

text \<open>
  Where \<open>runShutdown\<close> stands: not called; waiting for the stopper of that number; the server closing with the
  timer armed; or resolved. \<open>sd_ran\<close> records the stoppers that were started, \<open>sd_destroyed\<close> the sockets that
  were destroyed.
\<close>

datatype shutdown_phase = Idle | Stopping nat | Closing | Resolved shutdown_result

record shutdown =
  sd_installed :: bool
  sd_sockets :: "nat list"
  sd_phase :: shutdown_phase
  sd_timer :: bool
  sd_ran :: "nat list"
  sd_destroyed :: "nat list"

definition new_shutdown :: shutdown where
  "new_shutdown = \<lparr>sd_installed = False, sd_sockets = [], sd_phase = Idle, sd_timer = False, sd_ran = [], sd_destroyed = []\<rparr>"

definition sd_install :: "shutdown \<Rightarrow> shutdown" where
  "sd_install s = (if sd_installed s then s else s\<lparr>sd_installed := True\<rparr>)"

definition on_connection :: "nat \<Rightarrow> shutdown \<Rightarrow> shutdown" where
  "on_connection socket s = (if sd_installed s then s\<lparr>sd_sockets := List.insert socket (sd_sockets s)\<rparr> else s)"

definition on_socket_close :: "nat \<Rightarrow> shutdown \<Rightarrow> shutdown" where
  "on_socket_close socket s = s\<lparr>sd_sockets := removeAll socket (sd_sockets s)\<rparr>"

text \<open>The loop over the stoppers: start the next one, or close the server and arm the timer.\<close>

definition next_stopper :: "nat \<Rightarrow> nat \<Rightarrow> shutdown \<Rightarrow> shutdown" where
  "next_stopper stoppers k s =
     (if k < stoppers then s\<lparr>sd_phase := Stopping k, sd_ran := sd_ran s @ [k]\<rparr>
      else s\<lparr>sd_phase := Closing, sd_timer := True\<rparr>)"

definition sd_shutdown :: "nat \<Rightarrow> shutdown \<Rightarrow> shutdown" where
  "sd_shutdown stoppers s = (if sd_phase s \<noteq> Idle then s else next_stopper stoppers 0 s)"

text \<open>\<open>finish\<close> resolves once.\<close>

definition sd_finish :: "shutdown_result \<Rightarrow> shutdown \<Rightarrow> shutdown" where
  "sd_finish r s = (case sd_phase s of Resolved _ \<Rightarrow> s | _ \<Rightarrow> s\<lparr>sd_phase := Resolved r, sd_timer := False\<rparr>)"

definition on_timer :: "shutdown \<Rightarrow> shutdown" where
  "on_timer s = sd_finish Forced (s\<lparr>sd_destroyed := sd_destroyed s @ sd_sockets s\<rparr>)"

text \<open>
  The events: calls of \<open>install\<close> and \<open>shutdown\<close> at any time and any number of times, sockets opening and
  closing, the awaited stopper settling (returning or throwing: the code goes on in the same way), the server's
  close callback, and the timer while it is armed.
\<close>

inductive shutdown_step :: "nat \<Rightarrow> shutdown \<Rightarrow> shutdown \<Rightarrow> bool" for stoppers where
  installs: "shutdown_step stoppers s (sd_install s)"
| connects: "shutdown_step stoppers s (on_connection c s)"
| disconnects: "shutdown_step stoppers s (on_socket_close c s)"
| called: "shutdown_step stoppers s (sd_shutdown stoppers s)"
| stopper_settles: "sd_phase s = Stopping k \<Longrightarrow> shutdown_step stoppers s (next_stopper stoppers (k + 1) s)"
| server_closed: "sd_phase s = Closing \<or> (\<exists>r. sd_phase s = Resolved r) \<Longrightarrow> shutdown_step stoppers s (sd_finish Clean s)"
| timer_fires: "sd_timer s \<Longrightarrow> shutdown_step stoppers s (on_timer s)"

inductive_cases shutdown_stepE: "shutdown_step stoppers s s'"

definition shutdown_reachable :: "nat \<Rightarrow> shutdown \<Rightarrow> bool" where
  "shutdown_reachable stoppers s = (shutdown_step stoppers)\<^sup>*\<^sup>* new_shutdown s"

text \<open>What holds in each phase.\<close>

fun phase_ok :: "nat \<Rightarrow> shutdown_phase \<Rightarrow> shutdown \<Rightarrow> bool" where
  "phase_ok n Idle s = (sd_ran s = [] \<and> \<not> sd_timer s \<and> sd_destroyed s = [])"
| "phase_ok n (Stopping k) s = (k < n \<and> sd_ran s = [0..<Suc k] \<and> \<not> sd_timer s \<and> sd_destroyed s = [])"
| "phase_ok n Closing s = (sd_ran s = [0..<n] \<and> sd_timer s \<and> sd_destroyed s = [])"
| "phase_ok n (Resolved r) s = (sd_ran s = [0..<n] \<and> \<not> sd_timer s \<and> (r = Clean \<longrightarrow> sd_destroyed s = []))"

lemma phase_ok_cong:
  "sd_ran s = sd_ran t \<Longrightarrow> sd_timer s = sd_timer t \<Longrightarrow> sd_destroyed s = sd_destroyed t \<Longrightarrow> phase_ok n p s = phase_ok n p t"
  by (cases p) simp_all

lemma next_stopper_ok:
  assumes "k \<le> n" "sd_ran s = [0..<k]" "\<not> sd_timer s" "sd_destroyed s = []"
  shows "phase_ok n (sd_phase (next_stopper n k s)) (next_stopper n k s)"
  using assms by (auto simp: next_stopper_def)

lemma shutdown_step_ok: "shutdown_step n s s' \<Longrightarrow> phase_ok n (sd_phase s) s \<Longrightarrow> phase_ok n (sd_phase s') s'"
proof (induction rule: shutdown_step.induct)
  case (installs s)
  then show ?case using phase_ok_cong[of "sd_install s" s] by (auto simp: sd_install_def)
next
  case (connects s c)
  then show ?case using phase_ok_cong[of "on_connection c s" s] by (auto simp: on_connection_def)
next
  case (disconnects s c)
  then show ?case using phase_ok_cong[of "on_socket_close c s" s] by (auto simp: on_socket_close_def)
next
  case (called s)
  then show ?case using next_stopper_ok[of 0 n s] by (auto simp: sd_shutdown_def)
next
  case (stopper_settles s k)
  then show ?case using next_stopper_ok[of "k + 1" n s] by simp
next
  case (server_closed s)
  then show ?case by (auto simp: sd_finish_def)
next
  case (timer_fires s)
  then show ?case by (cases "sd_phase s") (auto simp: on_timer_def sd_finish_def)
qed

lemma shutdown_reachable_ok: "shutdown_reachable n s \<Longrightarrow> phase_ok n (sd_phase s) s"
  unfolding shutdown_reachable_def
  by (induction rule: rtranclp_induct) (auto simp: new_shutdown_def intro: shutdown_step_ok)

lemma resolved_step:
  "shutdown_step n s s' \<Longrightarrow> sd_phase s = Resolved r \<Longrightarrow> \<not> sd_timer s \<Longrightarrow>
     sd_phase s' = Resolved r \<and> \<not> sd_timer s' \<and> sd_destroyed s' = sd_destroyed s \<and> sd_ran s' = sd_ran s"
  by (induction rule: shutdown_step.induct)
    (auto simp: sd_install_def on_connection_def on_socket_close_def sd_shutdown_def sd_finish_def)

lemma resolved_stays:
  assumes "(shutdown_step n)\<^sup>*\<^sup>* s s'" "sd_phase s = Resolved r" "\<not> sd_timer s"
  shows "sd_phase s' = Resolved r \<and> \<not> sd_timer s' \<and> sd_destroyed s' = sd_destroyed s \<and> sd_ran s' = sd_ran s"
  using assms by (induction rule: rtranclp_induct) (auto dest: resolved_step)

text \<open>
  Shutdown runs once and resolves once. However calls, connections, stoppers, the server and the
  timer interleave, the stoppers are started in their order and none twice, the server is closed only when all of
  them have settled, no socket is destroyed before that nor when the result is clean, and once resolved the
  result, the destroyed sockets and the stoppers run never change again, however often shutdown is called.
\<close>

theorem shutdown_once:
  assumes "shutdown_reachable n s"
  shows "(\<exists>k \<le> n. sd_ran s = [0..<k]) \<and>
    (sd_phase s = Closing \<or> (\<exists>r. sd_phase s = Resolved r) \<longrightarrow> sd_ran s = [0..<n]) \<and>
    (sd_phase s \<noteq> Resolved Forced \<longrightarrow> sd_destroyed s = []) \<and>
    (\<forall>r s'. sd_phase s = Resolved r \<and> (shutdown_step n)\<^sup>*\<^sup>* s s' \<longrightarrow>
       sd_phase s' = Resolved r \<and> sd_destroyed s' = sd_destroyed s \<and> sd_ran s' = sd_ran s)"
proof -
  have ok: "phase_ok n (sd_phase s) s" by (rule shutdown_reachable_ok[OF assms])
  have "\<exists>k \<le> n. sd_ran s = [0..<k]"
  proof (cases "sd_phase s")
    case Idle
    then show ?thesis using ok by (intro exI[of _ 0]) simp
  next
    case (Stopping k)
    then show ?thesis using ok by (intro exI[of _ "Suc k"]) simp
  qed (use ok in auto)
  moreover have "sd_phase s = Closing \<or> (\<exists>r. sd_phase s = Resolved r) \<Longrightarrow> sd_ran s = [0..<n]" using ok by auto
  moreover have "sd_phase s \<noteq> Resolved Forced \<Longrightarrow> sd_destroyed s = []"
  proof (cases "sd_phase s")
    case (Resolved r)
    then show "sd_phase s \<noteq> Resolved Forced \<Longrightarrow> ?thesis" using ok by (cases r) auto
  qed (use ok in auto)
  moreover have "sd_phase s' = Resolved r \<and> sd_destroyed s' = sd_destroyed s \<and> sd_ran s' = sd_ran s"
    if "sd_phase s = Resolved r" "(shutdown_step n)\<^sup>*\<^sup>* s s'" for r s'
    using resolved_stays[OF that(2,1)] ok that(1) by simp
  ultimately show ?thesis by blast
qed

text \<open>
  After the stoppers, shutdown always ends, within the timeout. In every reachable state with the
  server closing, the server's callback resolves it cleanly, the timer is armed, and when the timer fires every
  socket still open is destroyed and the result is forced.
\<close>

theorem shutdown_ends:
  assumes "shutdown_reachable n s" "sd_phase s = Closing"
  shows "sd_timer s \<and> sd_phase (sd_finish Clean s) = Resolved Clean \<and>
    sd_phase (on_timer s) = Resolved Forced \<and> sd_destroyed (on_timer s) = sd_sockets s \<and>
    shutdown_step n s (on_timer s) \<and> shutdown_step n s (sd_finish Clean s)"
proof -
  have ok: "sd_timer s" "sd_destroyed s = []" using shutdown_reachable_ok[OF assms(1)] assms(2) by simp_all
  have "shutdown_step n s (on_timer s)" "shutdown_step n s (sd_finish Clean s)"
    using ok(1) assms(2) shutdown_step.intros(6,7) by blast+
  then show ?thesis using ok assms(2) by (simp add: sd_finish_def on_timer_def)
qed

text \<open>
  A stopper that never settles blocks the shutdown for ever. The timer is armed only after the
  stoppers, so as long as the awaited one does not settle no other event resolves the shutdown: neither the
  server's close, nor time, nor further calls.
\<close>

theorem hanging_stopper_blocks:
  assumes "shutdown_reachable n s" "sd_phase s = Stopping k" "shutdown_step n s s'" "s' \<noteq> next_stopper n (k + 1) s"
  shows "sd_phase s' = Stopping k \<and> \<not> sd_timer s'"
  using assms(3) shutdown_reachable_ok[OF assms(1)] assms(2,4)
  by (cases rule: shutdown_step.cases)
    (auto simp: sd_install_def on_connection_def on_socket_close_def sd_shutdown_def)

section \<open>Worked examples\<close>

text \<open>A server with two stoppers and one open socket, up to the timeout.\<close>

definition demo_closing :: shutdown where
  "demo_closing = next_stopper 2 2 (next_stopper 2 1 (sd_shutdown 2 (on_connection 7 (sd_install new_shutdown))))"

lemma demo_closing_reachable: "shutdown_reachable 2 demo_closing" "sd_phase demo_closing = Closing"
proof -
  let ?s = "sd_shutdown 2 (on_connection 7 (sd_install new_shutdown))"
  have "sd_phase ?s = Stopping 0" "sd_phase (next_stopper 2 1 ?s) = Stopping 1"
    by (simp_all add: sd_shutdown_def next_stopper_def on_connection_def sd_install_def new_shutdown_def)
  then have "shutdown_step 2 ?s (next_stopper 2 1 ?s)" "shutdown_step 2 (next_stopper 2 1 ?s) demo_closing"
    using shutdown_step.stopper_settles[of ?s 0 2] shutdown_step.stopper_settles[of "next_stopper 2 1 ?s" 1 2]
    by (simp_all add: demo_closing_def numeral_2_eq_2)
  moreover have "shutdown_step 2 new_shutdown (sd_install new_shutdown)"
    "shutdown_step 2 (sd_install new_shutdown) (on_connection 7 (sd_install new_shutdown))"
    "shutdown_step 2 (on_connection 7 (sd_install new_shutdown)) ?s"
    by (rule shutdown_step.intros)+
  ultimately show "shutdown_reachable 2 demo_closing"
    unfolding shutdown_reachable_def by (meson converse_rtranclp_into_rtranclp rtranclp.rtrancl_refl)
  show "sd_phase demo_closing = Closing" by (simp add: demo_closing_def next_stopper_def)
qed

theorem shutdown_once_witness:
  "shutdown_reachable 2 demo_closing \<and> sd_ran demo_closing = [0, 1] \<and> sd_destroyed demo_closing = []"
  using shutdown_once[OF demo_closing_reachable(1)] demo_closing_reachable by (simp add: upt_rec)

theorem shutdown_ends_witness:
  "sd_phase (on_timer demo_closing) = Resolved Forced \<and> sd_destroyed (on_timer demo_closing) = [7]"
  using shutdown_ends[OF demo_closing_reachable]
  by (simp add: demo_closing_def next_stopper_def sd_shutdown_def on_connection_def sd_install_def new_shutdown_def List.insert_def)

theorem hanging_stopper_blocks_witness:
  "sd_phase (on_connection 9 (next_stopper 2 0 new_shutdown)) = Stopping 0"
proof -
  have s: "next_stopper 2 0 new_shutdown = sd_shutdown 2 new_shutdown" by (simp add: sd_shutdown_def new_shutdown_def)
  have "shutdown_step 2 new_shutdown (sd_shutdown 2 new_shutdown)" by (rule shutdown_step.called)
  then have r: "shutdown_reachable 2 (next_stopper 2 0 new_shutdown)" unfolding shutdown_reachable_def s by blast
  have p: "sd_phase (next_stopper 2 0 new_shutdown) = Stopping 0" by (simp add: next_stopper_def)
  have "on_connection 9 (next_stopper 2 0 new_shutdown) \<noteq> next_stopper 2 (0 + 1) (next_stopper 2 0 new_shutdown)"
    by (simp add: on_connection_def next_stopper_def new_shutdown_def)
  from hanging_stopper_blocks[OF r p shutdown_step.connects this] show ?thesis by simp
qed

end
