(* ===== verification/Galois.thy ===== *)
theory Galois
  imports Bytes
begin

unbundle bit_operations_syntax

text \<open>
  The Galois-field tables of \<^verbatim>\<open>src/qr/qrEncoder.ts\<close>: the loops that fill them, multiplication by
  table lookup, and the proof that the 256 bytes with \<open>XOR\<close> as addition and \<open>gfMul\<close> as multiplication
  are a commutative ring, of which the Reed-Solomon code needs the laws.
\<close>

section \<open>The tables\<close>

text \<open>One step of the first loop on \<open>x\<close>: \<open>x <<= 1; if (x & 0x100) x ^= 0x11d\<close>.\<close>

definition xtime :: "nat \<Rightarrow> nat" where
  "xtime x = (let y = push_bit 1 x in if y AND 0x100 \<noteq> 0 then y XOR 0x11d else y)"

function init_gf :: "nat \<Rightarrow> nat \<Rightarrow> nat list \<Rightarrow> nat list \<Rightarrow> nat list \<times> nat list" where
  "init_gf i x ex lg =
     (if i < 255 then init_gf (i + 1) (xtime x) (ex[i := x]) (lg[x := i]) else (ex, lg))"
  by auto
termination by (relation "measure (\<lambda>(i, _). 255 - i)") auto

declare init_gf.simps [simp del]

function copy_gf :: "nat \<Rightarrow> nat list \<Rightarrow> nat list" where
  "copy_gf i ex = (if i < 512 then copy_gf (i + 1) (ex[i := ex ! (i - 255)]) else ex)"
  by auto
termination by (relation "measure (\<lambda>(i, _). 512 - i)") auto

declare copy_gf.simps [simp del]

definition gf_tables :: "nat list \<times> nat list" where
  "gf_tables =
     (case init_gf 0 1 (replicate 512 0) (replicate 256 0) of (ex, lg) \<Rightarrow> (copy_gf 255 ex, lg))"

definition EXP :: "nat list" where
  "EXP = fst gf_tables"

definition LOG :: "nat list" where
  "LOG = snd gf_tables"

definition gfMul :: "nat \<Rightarrow> nat \<Rightarrow> nat" where
  "gfMul a b = (if a = 0 \<or> b = 0 then 0 else EXP ! (LOG ! a + LOG ! b))"

definition gfLog :: "nat \<Rightarrow> nat" where
  "gfLog x = LOG ! x"

section \<open>Doubling\<close>

abbreviation xpow :: "nat \<Rightarrow> nat" where
  "xpow i \<equiv> (xtime ^^ i) 1"

lemma and_256: "(y AND 0x100 = 0) \<longleftrightarrow> \<not> bit (y :: nat) 8"
  using and_exp_eq_0_iff_not_bit[of y 8] by simp

lemma xtime_bit: "xtime x = (if bit (push_bit 1 x) 8 then push_bit 1 x XOR 0x11d else push_bit 1 x)"
  unfolding xtime_def Let_def and_256 by (rule if_cong) simp_all

lemma xor_cancel: "a XOR (a XOR b) = (b :: nat)"
  by (simp flip: xor.assoc)

lemma xtime_xor: "xtime (a XOR b) = xtime a XOR xtime b"
proof -
  have "(a' XOR p) XOR (b' XOR p) = a' XOR b'" "(a' XOR p) XOR b' = (a' XOR b') XOR p"
    "a' XOR (b' XOR p) = (a' XOR b') XOR p" for a' b' p :: nat
    by (simp_all only: xor.assoc xor.commute xor.left_commute xor_cancel xor_self_eq xor.right_neutral xor.left_neutral)
  note this [of "push_bit 1 a" 285 "push_bit 1 b"] this(3) [of "push_bit 1 a" "push_bit 1 b" 285]
  then show ?thesis
    unfolding xtime_bit push_bit_xor bit_xor_iff by (cases "bit (push_bit 1 a) 8"; cases "bit (push_bit 1 b) 8") simp_all
qed

lemma xtime_0 [simp]: "xtime 0 = 0"
  by (simp add: xtime_bit)

text \<open>A number below a power of two is one whose high bits are clear.\<close>

lemma less_exp_bits: "(x :: nat) < 2 ^ k \<longleftrightarrow> (\<forall>n\<ge>k. \<not> bit x n)"
proof
  assume "x < 2 ^ k"
  then have "take_bit k x = x" by (simp only: take_bit_nat_eq_self_iff)
  then show "\<forall>n\<ge>k. \<not> bit x n" by (metis bit_take_bit_iff not_le)
next
  assume "\<forall>n\<ge>k. \<not> bit x n"
  then have "take_bit k x = x" by (intro bit_eqI) (metis bit_take_bit_iff not_less)
  then show "x < 2 ^ k" by (simp only: take_bit_nat_eq_self_iff)
qed

lemma less_256: "(x :: nat) < 256 \<longleftrightarrow> (\<forall>n\<ge>8. \<not> bit x n)"
  using less_exp_bits[of x 8] by simp

lemma xor_less_256 [simp, intro]: "a < 256 \<Longrightarrow> b < 256 \<Longrightarrow> (a XOR b :: nat) < 256"
  by (simp add: less_256 bit_xor_iff)

lemma xtime_less [simp, intro]: "x < 256 \<Longrightarrow> xtime x < 256"
proof -
  assume x: "x < 256"
  have low: "\<not> bit (285 :: nat) n" if "9 \<le> n" for n using less_exp_bits[of 285 9] that by simp
  have "\<not> bit (xtime x) n" if "8 \<le> n" for n
  proof (cases "n = 8")
    case True
    have "bit (285 :: nat) 8" by (simp add: bit_iff_odd)
    with True show ?thesis by (simp add: xtime_bit bit_xor_iff)
  next
    case False
    then have "9 \<le> n" "8 \<le> n - 1" using that by simp_all
    then have "\<not> bit (push_bit 1 x) n" using x unfolding less_256 bit_push_bit_iff by blast
    then show ?thesis using low[OF \<open>9 \<le> n\<close>] by (simp only: xtime_bit bit_xor_iff split: if_split) simp
  qed
  then show ?thesis by (simp add: less_256)
qed

lemma xtime_eq_0: "x < 256 \<Longrightarrow> xtime x = 0 \<Longrightarrow> x = 0"
proof -
  assume "x < 256" "xtime x = 0"
  show "x = 0"
  proof (cases "bit (push_bit 1 x) 8")
    case True
    then have "push_bit 1 x = 0x11d" using \<open>xtime x = 0\<close> by (simp add: xtime_bit) (metis xor.right_neutral xor.left_neutral xor.assoc xor_self_eq)
    then have "2 * x = 285" by (simp add: push_bit_eq_mult)
    then show ?thesis by presburger
  next
    case False
    then show ?thesis using \<open>xtime x = 0\<close> by (simp add: xtime_bit)
  qed
qed

lemma xor_eq_0: "(a XOR b :: nat) = 0 \<longleftrightarrow> a = b"
  by (metis xor.assoc xor.right_neutral xor_self_eq xor.left_neutral)

lemma xtime_inj: "a < 256 \<Longrightarrow> b < 256 \<Longrightarrow> xtime a = xtime b \<Longrightarrow> a = b"
  using xtime_eq_0[of "a XOR b"] by (simp add: xtime_xor xor_eq_0)

text \<open>Any number of doublings.\<close>

lemma xtimes_0 [simp]: "(xtime ^^ n) 0 = 0"
  by (induction n) simp_all

lemma xtimes_less [simp, intro]: "x < 256 \<Longrightarrow> (xtime ^^ n) x < 256"
  by (induction n) simp_all

lemma xtimes_xor: "(xtime ^^ n) (a XOR b) = (xtime ^^ n) a XOR (xtime ^^ n) b"
  by (induction n) (simp_all add: xtime_xor)

lemma xtimes_inj: "a < 256 \<Longrightarrow> b < 256 \<Longrightarrow> (xtime ^^ n) a = (xtime ^^ n) b \<Longrightarrow> a = b"
  by (induction n) (auto dest: xtime_inj[rotated 2])

lemma xpow_less [simp, intro]: "xpow n < 256"
  by simp

lemma xpow_nonzero [simp]: "xpow n \<noteq> 0" "0 < (xtime ^^ n) (Suc 0)"
  using xtimes_inj[of 1 0 n] by auto

lemma funpow_numeral_step: "(f ^^ numeral k) x = (f ^^ pred_numeral k) (f x)"
  by (simp add: numeral_eq_Suc funpow_swap1)

lemmas xtime_eval = funpow_numeral_step xtime_def

lemma xtimes_15:
  "(xtime ^^ 15) 1 = 38" "(xtime ^^ 15) 38 = 96" "(xtime ^^ 15) 96 = 193" "(xtime ^^ 15) 193 = 185"
   "(xtime ^^ 15) 185 = 15" "(xtime ^^ 15) 15 = 223" "(xtime ^^ 15) 223 = 26" "(xtime ^^ 15) 26 = 59"
   "(xtime ^^ 15) 59 = 169" "(xtime ^^ 15) 169 = 85" "(xtime ^^ 15) 85 = 145" "(xtime ^^ 15) 145 = 150"
   "(xtime ^^ 15) 150 = 100" "(xtime ^^ 15) 100 = 89" "(xtime ^^ 15) 89 = 36" "(xtime ^^ 15) 36 = 44"
   "(xtime ^^ 15) 44 = 1"
  by (simp_all add: xtime_eval)

lemma xpow_add: "xpow (m + n) = (xtime ^^ m) (xpow n)"
  by (simp add: funpow_add)

lemma xpow_45: "xpow 45 = 193"
  using xpow_add[of 15 30] xpow_add[of 15 15] by (simp add: xtimes_15 del: One_nat_def)

lemma xpow_75: "xpow 75 = 15"
  using xpow_add[of 15 60] xpow_add[of 15 45] by (simp add: xtimes_15 xpow_45 del: One_nat_def)

lemma xpow_150: "xpow 150 = 85"
  using xpow_add[of 15 75] xpow_add[of 15 90] xpow_add[of 15 105] xpow_add[of 15 120] xpow_add[of 15 135]
  by (simp add: xtimes_15 xpow_75 del: One_nat_def)

lemma xpow_255: "xpow 255 = 1"
  using xpow_add[of 15 150] xpow_add[of 15 165] xpow_add[of 15 180] xpow_add[of 15 195] xpow_add[of 15 210]
    xpow_add[of 15 225] xpow_add[of 15 240]
  by (simp add: xtimes_15 xpow_150 del: One_nat_def)

lemma xpow_51_85: "xpow 15 \<noteq> 1" "xpow 51 \<noteq> 1" "xpow 85 \<noteq> 1"
proof -
  have "(xtime ^^ 6) 193 = 10" "(xtime ^^ 10) 15 = 214" by (simp_all add: xtime_eval)
  then show "xpow 51 \<noteq> 1" "xpow 85 \<noteq> 1"
    using xpow_add[of 6 45] xpow_add[of 10 75] by (simp_all add: xpow_45 xpow_75 del: One_nat_def)
  show "xpow 15 \<noteq> 1" using xtimes_15(1) by simp
qed

section \<open>The order of the generator\<close>

text \<open>
  The doublings of 1 return to 1 after 255 steps and not before: a shorter period would divide 255, and
  then 15, 51 or 85.
\<close>

lemma xpow_period: "xpow d = 1 \<Longrightarrow> xpow (d * k) = 1"
  by (induction k) (simp_all add: funpow_add del: One_nat_def)

lemma xpow_mod: "xpow d = 1 \<Longrightarrow> xpow n = xpow (n mod d)"
  using xpow_add[of "n mod d" "d * (n div d)"] xpow_period[of d "n div d"] by (simp del: One_nat_def)

lemma proper_divisor_255: "d dvd 255 \<Longrightarrow> d < 255 \<Longrightarrow> d dvd 15 \<or> d dvd 51 \<or> d dvd (85 :: nat)"
proof -
  assume "d dvd 255" "d < 255"
  then obtain k where k: "255 = d * k" "k \<noteq> 1" by auto
  have "d \<le> 15 \<or> k \<le> 15"
  proof (rule ccontr)
    assume "\<not> ?thesis"
    then have "16 * 16 \<le> d * k" by (intro mult_le_mono) simp_all
    with k(1) show False by simp
  qed
  then consider "d \<in> set [0..<16]" | "k \<in> set [0..<16]" by fastforce
  then show ?thesis
  proof cases
    case 1
    then have "d = 0 \<or> d = 1 \<or> d = 2 \<or> d = 3 \<or> d = 4 \<or> d = 5 \<or> d = 6 \<or> d = 7 \<or> d = 8 \<or> d = 9 \<or> d = 10 \<or>
        d = 11 \<or> d = 12 \<or> d = 13 \<or> d = 14 \<or> d = 15" by (simp, presburger)
    then show ?thesis using k(1) by (elim disjE) (simp_all, presburger+)
  next
    case 2
    then have "k = 0 \<or> k = 1 \<or> k = 2 \<or> k = 3 \<or> k = 4 \<or> k = 5 \<or> k = 6 \<or> k = 7 \<or> k = 8 \<or> k = 9 \<or> k = 10 \<or>
        k = 11 \<or> k = 12 \<or> k = 13 \<or> k = 14 \<or> k = 15" by (simp, presburger)
    then have "d = 85 \<or> d = 51 \<or> d = 17" using k by (elim disjE) (simp_all, presburger+)
    then show ?thesis by (elim disjE) simp_all
  qed
qed

lemma xpow_order: assumes "0 < n" "n < 255" shows "xpow n \<noteq> 1"
proof
  assume n: "xpow n = 1"
  define d where "d = (LEAST d. 0 < d \<and> xpow d = 1)"
  have d: "0 < d \<and> xpow d = 1" unfolding d_def using LeastI[of "\<lambda>d. 0 < d \<and> xpow d = 1" n] assms(1) n by blast
  have le: "d \<le> n" unfolding d_def using Least_le[of "\<lambda>d. 0 < d \<and> xpow d = 1" n] assms(1) n by blast
  have "xpow (255 mod d) = 1" using xpow_mod[of d 255] d xpow_255 by (simp only:)
  moreover have "255 mod d < d" using d by simp
  ultimately have "255 mod d = 0"
    using not_less_Least[of "255 mod d" "\<lambda>d. 0 < d \<and> xpow d = 1"] unfolding d_def by auto
  then have "d dvd 255" by (simp add: dvd_eq_mod_eq_0)
  with le assms(2) consider "d dvd 15" | "d dvd 51" | "d dvd 85"
    using proper_divisor_255[of d] by fastforce
  then show False
    using xpow_51_85 xpow_period[of d] d by cases (auto elim!: dvdE simp del: One_nat_def)
qed

lemma xpow_inj: "i < 255 \<Longrightarrow> j < 255 \<Longrightarrow> xpow i = xpow j \<Longrightarrow> i = j"
proof (induction i j rule: linorder_wlog)
  case (le a b)
  then have "(xtime ^^ a) (xpow (b - a)) = (xtime ^^ a) 1" using xpow_add[of a "b - a"] by simp
  then have "xpow (b - a) = 1" by (rule xtimes_inj[rotated 2]) simp_all
  with xpow_order[of "b - a"] le show ?case by (cases "a < b") simp_all
qed simp

lemma xpow_surj: "0 < x \<Longrightarrow> x < 256 \<Longrightarrow> \<exists>i<255. xpow i = x"
proof -
  have sub: "xpow ` {..<255} \<subseteq> {1..<256}" by (auto simp: Suc_le_eq)
  have "card (xpow ` {..<255}) = card {1..<256 :: nat}"
    by (subst card_image) (auto simp del: One_nat_def intro!: inj_onI xpow_inj)
  with sub have "xpow ` {..<255} = {1..<256}" by (intro card_subset_eq) auto
  moreover assume "0 < x" "x < 256"
  ultimately have "x \<in> xpow ` {..<255}" by simp
  then show ?thesis by auto
qed

section \<open>What the tables hold\<close>

text \<open>
  The first loop leaves the powers in \<open>EXP\<close> and their exponents in \<open>LOG\<close>; the second repeats the powers,
  so that a sum of two exponents needs no reduction.
\<close>

definition tables_upto :: "nat \<Rightarrow> nat list \<Rightarrow> nat list \<Rightarrow> bool" where
  "tables_upto i ex lg \<longleftrightarrow> length ex = 512 \<and> length lg = 256 \<and>
     (\<forall>j<i. ex ! j = xpow j) \<and> (\<forall>j<min i 255. lg ! xpow j = j)"

lemma less_add_one_iff: "j < i + 1 \<longleftrightarrow> j < i \<or> j = (i :: nat)"
  by auto

lemma tables_step:
  assumes "tables_upto i ex lg" "i < 255"
  shows "tables_upto (i + 1) (ex[i := xpow i]) (lg[xpow i := i])"
proof -
  have "xpow j \<noteq> xpow i" "xpow i \<noteq> xpow j" if "j < i" for j using xpow_inj[of j i] that assms(2) by auto
  with assms show ?thesis by (auto simp: tables_upto_def less_add_one_iff nth_list_update simp del: One_nat_def)
qed

lemma init_gf_tables:
  "tables_upto i ex lg \<Longrightarrow> i \<le> 255 \<Longrightarrow>
   (case init_gf i (xpow i) ex lg of (ex', lg') \<Rightarrow> tables_upto 255 ex' lg')"
proof (induction "255 - i" arbitrary: i ex lg)
  case 0
  then show ?case by (subst init_gf.simps) simp
next
  case (Suc d)
  then have "i < 255" by simp
  moreover have "xpow (i + 1) = xtime (xpow i)" by simp
  ultimately show ?case using Suc.hyps(1)[of "i + 1"] Suc.hyps(2) tables_step[OF Suc.prems(1)]
    by (simp add: init_gf.simps[of i] del: One_nat_def)
qed

lemma copy_gf_tables:
  "tables_upto i ex lg \<Longrightarrow> 255 \<le> i \<Longrightarrow> i \<le> 512 \<Longrightarrow> tables_upto 512 (copy_gf i ex) lg"
proof (induction "512 - i" arbitrary: i ex)
  case 0
  then show ?case by (subst copy_gf.simps) simp
next
  case (Suc d)
  then have i: "i < 512" by simp
  have "xpow i = xpow (i - 255)" using xpow_add[of "i - 255" 255] xpow_255 Suc.prems(2) by (simp del: One_nat_def)
  then have "tables_upto (i + 1) (ex[i := ex ! (i - 255)]) lg"
    using Suc.prems i by (auto simp: tables_upto_def less_add_one_iff nth_list_update min_def simp del: One_nat_def)
  with Suc.hyps(1)[of "i + 1"] Suc.hyps(2) Suc.prems i show ?case by (simp add: copy_gf.simps[of i])
qed

lemma tables_final: "tables_upto 512 EXP LOG"
proof -
  have "tables_upto 0 (replicate 512 0) (replicate 256 0)" by (simp add: tables_upto_def)
  from init_gf_tables[OF this] show ?thesis
    using copy_gf_tables[of 255] by (auto simp: EXP_def LOG_def gf_tables_def split: prod.splits)
qed

lemma EXP_xpow: "i < 512 \<Longrightarrow> EXP ! i = xpow i"
  using tables_final by (simp add: tables_upto_def)

lemma LOG_xpow: "i < 255 \<Longrightarrow> LOG ! xpow i = i"
  using tables_final by (simp add: tables_upto_def)

lemma xpow_LOG: "x < 256 \<Longrightarrow> x \<noteq> 0 \<Longrightarrow> LOG ! x < 255 \<and> xpow (LOG ! x) = x"
  using xpow_surj[of x] LOG_xpow by auto

text \<open>Multiplication repeats the doubling as often as the logarithm of its first argument says.\<close>

lemma gfMul_xtimes: "a < 256 \<Longrightarrow> a \<noteq> 0 \<Longrightarrow> b < 256 \<Longrightarrow> gfMul a b = (xtime ^^ (LOG ! a)) b"
proof (cases "b = 0")
  case False
  assume "a < 256" "a \<noteq> 0" "b < 256"
  with False have "LOG ! a < 255" "LOG ! b < 255" "xpow (LOG ! b) = b" using xpow_LOG by blast+
  with False \<open>a \<noteq> 0\<close> show ?thesis
    by (simp add: gfMul_def EXP_xpow xpow_add del: One_nat_def)
qed (simp add: gfMul_def)

lemma gfMul_xpow: "i < 255 \<Longrightarrow> j < 255 \<Longrightarrow> gfMul (xpow i) (xpow j) = xpow (i + j)"
  by (simp add: gfMul_xtimes LOG_xpow xpow_add del: One_nat_def)

lemma gfMul_commute: "gfMul a b = gfMul b a"
  by (simp add: gfMul_def add.commute)

lemma gfMul_0 [simp]: "gfMul 0 b = 0" "gfMul a 0 = 0"
  by (simp_all add: gfMul_def)

lemma gfMul_less [simp, intro]: "a < 256 \<Longrightarrow> b < 256 \<Longrightarrow> gfMul a b < 256"
  by (cases "a = 0") (simp_all add: gfMul_xtimes)

lemma gfMul_1 [simp]: "b < 256 \<Longrightarrow> gfMul (Suc 0) b = b"
  using gfMul_xtimes[of 1 b] LOG_xpow[of 0] by simp

lemma gfMul_eq_0: "a < 256 \<Longrightarrow> b < 256 \<Longrightarrow> gfMul a b = 0 \<longleftrightarrow> a = 0 \<or> b = 0"
  using xtimes_inj[of b 0 "LOG ! a"] by (cases "a = 0") (auto simp: gfMul_xtimes)

lemma gfMul_xor: "a < 256 \<Longrightarrow> b < 256 \<Longrightarrow> c < 256 \<Longrightarrow> gfMul a (b XOR c) = gfMul a b XOR gfMul a c"
  by (cases "a = 0") (simp_all add: gfMul_xtimes xtimes_xor)

lemma gfMul_assoc: "a < 256 \<Longrightarrow> b < 256 \<Longrightarrow> c < 256 \<Longrightarrow> gfMul (gfMul a b) c = gfMul a (gfMul b c)"
proof (cases "a = 0 \<or> b = 0")
  case False
  assume *: "a < 256" "b < 256" "c < 256"
  have "gfMul (gfMul a b) c = (xtime ^^ (LOG ! a)) ((xtime ^^ (LOG ! b)) c)"
  proof (cases "c = 0")
    case c: False
    have "gfMul (gfMul a b) c = gfMul c (gfMul a b)" by (rule gfMul_commute)
    also have "\<dots> = (xtime ^^ (LOG ! c)) ((xtime ^^ (LOG ! a)) b)" using * c False by (simp add: gfMul_xtimes)
    also have "\<dots> = (xtime ^^ (LOG ! a)) ((xtime ^^ (LOG ! c)) b)" by (simp add: funpow_add[THEN fun_cong, unfolded comp_def, symmetric] add.commute)
    also have "(xtime ^^ (LOG ! c)) b = (xtime ^^ (LOG ! b)) c"
      using * c False gfMul_commute[of c b] by (simp add: gfMul_xtimes)
    finally show ?thesis .
  qed simp
  with * False show ?thesis by (simp add: gfMul_xtimes)
qed (auto simp: gfMul_def)

section \<open>The ring of bytes\<close>

typedef gf = "{x :: nat. x < 256}" morphisms gf_val Gf
  by (rule exI[of _ 0]) simp

setup_lifting type_definition_gf

instantiation gf :: comm_ring_1
begin

lift_definition zero_gf :: gf is 0 by simp
lift_definition one_gf :: gf is 1 by simp
lift_definition plus_gf :: "gf \<Rightarrow> gf \<Rightarrow> gf" is "\<lambda>a b. a XOR b" by simp
lift_definition minus_gf :: "gf \<Rightarrow> gf \<Rightarrow> gf" is "\<lambda>a b. a XOR b" by simp
lift_definition uminus_gf :: "gf \<Rightarrow> gf" is "\<lambda>a. a" .
lift_definition times_gf :: "gf \<Rightarrow> gf \<Rightarrow> gf" is gfMul by simp

instance
proof
  fix a b c :: gf
  show "a + b + c = a + (b + c)" by transfer (rule xor.assoc)
  show "a + b = b + a" by transfer (rule xor.commute)
  show "0 + a = a" by transfer simp
  show "- a + a = 0" by transfer simp
  show "a - b = a + - b" by transfer simp
  show "a * b * c = a * (b * c)" by transfer (simp add: gfMul_assoc)
  show "a * b = b * a" by transfer (rule gfMul_commute)
  show "1 * a = a" by transfer simp
  show "(a + b) * c = a * c + b * c"
    by transfer (simp add: gfMul_commute[of _ "c :: nat" for c] gfMul_xor)
  show "(0 :: gf) \<noteq> 1" by transfer simp
qed

end

lemma gf_double [simp]: "a + a = (0 :: gf)"
  by transfer simp

lemma gf_two [simp]: "2 = (0 :: gf)"
  using gf_double[of 1] by (simp only: one_add_one)

lemma gf_minus [simp]: "a - b = a + (b :: gf)" "- a = (a :: gf)"
  by (transfer, simp)+

lemma gf_mult_eq_0: "a * b = 0 \<longleftrightarrow> a = 0 \<or> b = (0 :: gf)"
  by transfer (simp add: gfMul_eq_0)

lemma Gf_xor: "a < 256 \<Longrightarrow> b < 256 \<Longrightarrow> Gf (a XOR b) = Gf a + Gf b"
  by (simp add: plus_gf.abs_eq eq_onp_same_args)

lemma Gf_mul: "a < 256 \<Longrightarrow> b < 256 \<Longrightarrow> Gf (gfMul a b) = Gf a * Gf b"
  by (simp add: times_gf.abs_eq eq_onp_same_args)

lemma Gf_0: "Gf 0 = 0" and Gf_1: "Gf (Suc 0) = 1"
  by (simp_all add: zero_gf_def one_gf_def)

lemma Gf_eq: "a < 256 \<Longrightarrow> b < 256 \<Longrightarrow> Gf a = Gf b \<longleftrightarrow> a = b"
  by (simp add: Gf_inject)

end
