(* ===== verification/ReedSolomon.thy ===== *)
theory ReedSolomon
  imports Galois
begin

text \<open>
  Reed-Solomon encoding of \<^verbatim>\<open>src/qr/qrEncoder.ts\<close>: the generator polynomial and the division register,
  with the law that makes the result a codeword. A polynomial is its list of coefficients, the highest
  degree first.
\<close>

section \<open>The code\<close>

text \<open>The body of the generator's outer loop: \<open>poly\<close> times \<open>x\<close> plus \<open>e\<close>, with the loop over \<open>j\<close> as a fold.\<close>

definition gen_cell :: "nat list \<Rightarrow> nat \<Rightarrow> nat list \<Rightarrow> nat \<Rightarrow> nat list" where
  "gen_cell poly e next j =
     (let next1 = next[j := next ! j XOR poly ! j]
      in next1[j + 1 := next1 ! (j + 1) XOR gfMul (poly ! j) e])"

definition gen_step :: "nat list \<Rightarrow> nat \<Rightarrow> nat list" where
  "gen_step poly e = foldl (gen_cell poly e) (replicate (length poly + 1) 0) [0..<length poly]"

definition rsGenerator :: "nat \<Rightarrow> nat list" where
  "rsGenerator degree = foldl (\<lambda>poly i. gen_step poly (EXP ! i)) [1] [0..<degree]"

text \<open>
  One data byte through the register; \<open>res[0]\<close> of an empty register is \<open>undefined\<close>, which \<open>^\<close> reads as 0.
\<close>

definition rs_shift :: "nat list \<Rightarrow> nat \<Rightarrow> nat list \<Rightarrow> nat \<Rightarrow> nat list" where
  "rs_shift gen ecLen res b =
     (let factor = b XOR (case res of [] \<Rightarrow> 0 | r # _ \<Rightarrow> r);
          res1 = tl res @ [0]
      in if factor \<noteq> 0
         then foldl (\<lambda>rs i. rs[i := rs ! i XOR gfMul (gen ! (i + 1)) factor]) res1 [0..<ecLen]
         else res1)"

definition rsEncode :: "nat list \<Rightarrow> nat \<Rightarrow> nat list" where
  "rsEncode data ecLen = foldl (rs_shift (rsGenerator ecLen) ecLen) (replicate ecLen 0) data"

text \<open>
  The reference: the value of a polynomial at a point by Horner's rule. A block is a codeword when its
  value is 0 at each of the \<open>ecLen\<close> roots of the generator.
\<close>

definition poly_at :: "nat list \<Rightarrow> nat \<Rightarrow> nat" where
  "poly_at p x = foldl (\<lambda>acc c. gfMul acc x XOR c) 0 p"

definition is_codeword :: "nat \<Rightarrow> nat list \<Rightarrow> bool" where
  "is_codeword ecLen w = list_all (\<lambda>i. poly_at w (EXP ! i) = 0) [0..<ecLen]"

section \<open>Closed forms of the loops\<close>

lemma fold_update_prefix:
  "n \<le> length xs \<Longrightarrow> foldl (\<lambda>rs i. rs[i := rs ! i XOR f i]) xs [0..<n] =
     map (\<lambda>i. xs ! i XOR f i) [0..<n] @ drop n xs"
proof (induction n)
  case (Suc n)
  then show ?case
    by (simp add: list_update_append nth_append Cons_nth_drop_Suc[symmetric])
qed simp

lemma gen_cell_nth:
  "k < length next \<Longrightarrow> n + 1 < length next \<Longrightarrow> gen_cell poly e next n ! k =
     (if k = n then next ! n XOR poly ! n
      else if k = n + 1 then next ! (n + 1) XOR gfMul (poly ! n) e else next ! k)"
  by (simp add: gen_cell_def nth_list_update)

lemma gen_cell_length [simp]: "length (gen_cell poly e next n) = length next"
  by (simp add: gen_cell_def)

lemma gen_fold_prefix:
  "n \<le> length poly \<Longrightarrow> foldl (gen_cell poly e) (replicate (length poly + 1) 0) [0..<n] =
     map (\<lambda>k. (if k < n then poly ! k else 0) XOR (if 0 < k \<and> k \<le> n then gfMul (poly ! (k - 1)) e else 0))
       [0..<length poly + 1]"
proof (induction n)
  case 0
  show ?case by (rule nth_equalityI) (simp_all add: nth_replicate del: upt_Suc replicate_Suc)
next
  case (Suc n)
  let ?F = "\<lambda>n. map (\<lambda>k. (if k < n then poly ! k else 0) XOR
      (if 0 < k \<and> k \<le> n then gfMul (poly ! (k - 1)) e else 0)) [0..<length poly + 1]"
  have "gen_cell poly e (?F n) n = ?F (Suc n)"
  proof (rule nth_equalityI)
    fix k assume "k < length (gen_cell poly e (?F n) n)"
    then have k: "k < length poly + 1" by simp
    then consider "k = n" | "k = n + 1" | "k < n" | "n + 1 < k" by linarith
    then show "gen_cell poly e (?F n) n ! k = ?F (Suc n) ! k"
      using k Suc.prems
      by cases (simp_all add: gen_cell_nth nth_append xor.commute del: upt_Suc)
  qed simp
  with Suc show ?case by simp
qed

lemma gen_step_closed:
  "gen_step poly e = map2 (XOR) (poly @ [0]) (0 # map (\<lambda>c. gfMul c e) poly)"
proof (rule nth_equalityI)
  have gen: "gen_step poly e = map (\<lambda>k. (if k < length poly then poly ! k else 0) XOR
      (if 0 < k \<and> k \<le> length poly then gfMul (poly ! (k - 1)) e else 0)) [0..<length poly + 1]"
    unfolding gen_step_def by (rule gen_fold_prefix) simp
  show "length (gen_step poly e) = length (map2 (XOR) (poly @ [0]) (0 # map (\<lambda>c. gfMul c e) poly))"
    by (simp add: gen)
  fix k assume "k < length (gen_step poly e)"
  then have "k < length poly + 1" by (simp add: gen)
  then show "gen_step poly e ! k = map2 (XOR) (poly @ [0]) (0 # map (\<lambda>c. gfMul c e) poly) ! k"
    by (cases k) (simp_all add: gen nth_append del: upt_Suc)
qed

lemma rs_shift_closed:
  assumes "length rs + 1 = ecLen" "length gs = ecLen"
  shows "rs_shift (g # gs) ecLen (r # rs) b = map2 (XOR) (rs @ [0]) (map (\<lambda>h. gfMul h (b XOR r)) gs)"
proof -
  define xs where "xs = rs @ [0]"
  have len: "length xs = ecLen" using assms(1) by (simp add: xs_def)
  have "rs_shift (g # gs) ecLen (r # rs) b = map (\<lambda>i. xs ! i XOR gfMul (gs ! i) (b XOR r)) [0..<ecLen]"
  proof (cases "b XOR r = 0")
    case True
    have "xs = map (\<lambda>i. xs ! i) [0..<ecLen]" by (rule nth_equalityI) (simp_all add: len)
    with True show ?thesis by (simp add: rs_shift_def xs_def[symmetric])
  next
    case False
    then show ?thesis
      using fold_update_prefix[of ecLen xs "\<lambda>i. gfMul (gs ! i) (b XOR r)"]
      by (simp add: rs_shift_def xs_def[symmetric] len)
  qed
  also have "\<dots> = map2 (XOR) xs (map (\<lambda>h. gfMul h (b XOR r)) gs)"
    by (rule nth_equalityI) (simp_all add: len assms(2))
  finally show ?thesis unfolding xs_def .
qed

section \<open>Polynomials over the ring\<close>

definition horner :: "gf list \<Rightarrow> gf \<Rightarrow> gf" where
  "horner p x = foldl (\<lambda>acc c. acc * x + c) 0 p"

lemma horner_Nil [simp]: "horner [] x = 0"
  by (simp add: horner_def)

lemma horner_snoc [simp]: "horner (p @ [c]) x = horner p x * x + c"
  by (simp add: horner_def)

lemma horner_append: "horner (p @ q) x = horner p x * x ^ length q + horner q x"
  by (induction q rule: rev_induct) (simp_all add: algebra_simps flip: append_assoc)

lemma horner_Cons: "horner (c # p) x = c * x ^ length p + horner p x"
  using horner_append[of "[c]" p x] by (simp add: horner_def)

lemma horner_add: "length p = length q \<Longrightarrow> horner (map2 (+) p q) x = horner p x + horner q x"
  by (induction p q rule: rev_induct2) (simp_all add: algebra_simps)

lemma horner_scale: "horner (map (\<lambda>c. c * e) p) x = e * horner p x"
  by (induction p rule: rev_induct) (simp_all add: algebra_simps)

text \<open>Bytes, and the passage from their lists to the ring.\<close>

definition bytes :: "nat list \<Rightarrow> bool" where
  "bytes p = list_all (\<lambda>c. c < 256) p"

lemma bytes_simps [simp]:
  "bytes []" "bytes (c # p) = (c < 256 \<and> bytes p)" "bytes (p @ q) = (bytes p \<and> bytes q)"
  by (simp_all add: bytes_def)

lemma bytes_tl [simp, intro]: "bytes p \<Longrightarrow> bytes (tl p)"
  by (cases p) simp_all

lemma bytes_replicate [simp]: "c < 256 \<Longrightarrow> bytes (replicate n c)"
  by (simp add: bytes_def list_all_length)

lemma bytes_map_mul [simp]: "bytes p \<Longrightarrow> e < 256 \<Longrightarrow> bytes (map (\<lambda>c. gfMul c e) p)"
  by (induction p) simp_all

lemma bytes_map2 [simp]: "bytes p \<Longrightarrow> bytes q \<Longrightarrow> bytes (map2 (XOR) p q)"
  by (induction p q rule: list_induct2') simp_all

lemma Gf_map_xor:
  "bytes p \<Longrightarrow> bytes q \<Longrightarrow> map Gf (map2 (XOR) p q) = map2 (+) (map Gf p) (map Gf q)"
  by (induction p q rule: list_induct2') (simp_all add: Gf_xor)

lemma Gf_map_mul: "bytes p \<Longrightarrow> e < 256 \<Longrightarrow> map Gf (map (\<lambda>c. gfMul c e) p) = map (\<lambda>c. c * Gf e) (map Gf p)"
  by (induction p) (simp_all add: Gf_mul)

lemma poly_at_horner: "bytes p \<Longrightarrow> x < 256 \<Longrightarrow> poly_at p x < 256 \<and> Gf (poly_at p x) = horner (map Gf p) (Gf x)"
  by (induction p rule: rev_induct) (simp_all add: poly_at_def Gf_0 Gf_xor Gf_mul)

lemma poly_at_0: "bytes p \<Longrightarrow> x < 256 \<Longrightarrow> poly_at p x = 0 \<longleftrightarrow> horner (map Gf p) (Gf x) = 0"
  using poly_at_horner[of p x] Gf_eq[of "poly_at p x" 0] by (simp add: Gf_0)

section \<open>The generator and its roots\<close>

lemma EXP_less [simp]: "i < 512 \<Longrightarrow> EXP ! i < 256"
  by (simp add: EXP_xpow)

lemma gen_step_facts:
  assumes "bytes poly" "e < 256"
  shows "bytes (gen_step poly e)" "length (gen_step poly e) = length poly + 1"
    "horner (map Gf (gen_step poly e)) x = (x + Gf e) * horner (map Gf poly) x"
proof -
  show "bytes (gen_step poly e)" "length (gen_step poly e) = length poly + 1"
    using assms by (simp_all add: gen_step_closed)
  show "horner (map Gf (gen_step poly e)) x = (x + Gf e) * horner (map Gf poly) x"
    unfolding gen_step_closed using assms
    by (subst Gf_map_xor) (simp_all add: horner_add horner_Cons Gf_0 Gf_map_mul horner_scale algebra_simps del: map_map)
qed

lemma gen_step_lead: "poly \<noteq> [] \<Longrightarrow> hd (gen_step poly e) = hd poly"
  by (cases poly) (simp_all add: gen_step_closed)

lemma rsGenerator_Suc: "rsGenerator (Suc n) = gen_step (rsGenerator n) (EXP ! n)"
  by (simp add: rsGenerator_def)

lemma rsGenerator_facts:
  "n \<le> 512 \<Longrightarrow> bytes (rsGenerator n) \<and> length (rsGenerator n) = n + 1 \<and> hd (rsGenerator n) = 1 \<and>
     (\<forall>i<n. horner (map Gf (rsGenerator n)) (Gf (EXP ! i)) = 0)"
proof (induction n)
  case 0
  show ?case by (simp add: rsGenerator_def)
next
  case (Suc n)
  then have n: "n < 512" and IH: "bytes (rsGenerator n)" "length (rsGenerator n) = n + 1" "hd (rsGenerator n) = 1"
    "\<forall>i<n. horner (map Gf (rsGenerator n)) (Gf (EXP ! i)) = 0" by simp_all
  have ne: "rsGenerator n \<noteq> []" using IH(2) by auto
  show ?case
    unfolding rsGenerator_Suc
    using IH n gen_step_facts[OF IH(1) EXP_less[OF n]] gen_step_lead[OF ne, of "EXP ! n"]
    by (auto simp: less_Suc_eq)
qed

section \<open>The register divides by the generator\<close>

lemma rs_shift_facts:
  assumes gen: "bytes gen" "length gen = n + 1" "hd gen = 1" "horner (map Gf gen) x = 0"
    and res: "bytes res" "length res = n" and n: "0 < n" and b: "b < 256"
  shows "bytes (rs_shift gen n res b) \<and> length (rs_shift gen n res b) = n \<and>
    horner (map Gf (rs_shift gen n res b)) x = horner (map Gf res) x * x + Gf b * x ^ n"
proof -
  obtain g gs where g: "gen = g # gs" using gen(2) by (cases gen) auto
  obtain r rs where r: "res = r # rs" using res(2) n by (cases res) auto
  have bs: "bytes gs" "length gs = n" "g = 1" "bytes rs" "r < 256" "n = Suc (length rs)"
    using gen res g r by auto
  have root: "horner (map Gf gs) x = x ^ n"
  proof -
    have "x ^ n + horner (map Gf gs) x = 0" using gen(4) bs by (simp add: g horner_Cons Gf_1)
    then show ?thesis by (metis add.assoc add.right_neutral gf_double add.left_neutral)
  qed
  have fb: "b XOR r < 256" using b bs by simp
  have "horner (map Gf (rs_shift gen n res b)) x = horner (map Gf rs) x * x + Gf (b XOR r) * x ^ n"
    using res gen n b bs fb root
    by (simp add: rs_shift_closed Gf_map_xor horner_add Gf_map_mul horner_scale Gf_0 g r del: map_map)
  also have "\<dots> = horner (map Gf res) x * x + Gf b * x ^ n + (Gf r * x ^ n + Gf r * x ^ n)"
    using bs b by (simp add: r horner_Cons Gf_xor algebra_simps)
  finally show ?thesis using res gen n b bs fb by (simp add: rs_shift_closed g r)
qed

lemma rsEncode_facts:
  assumes "bytes data" "0 < n" "n \<le> 512"
  shows "bytes (rsEncode data n) \<and> length (rsEncode data n) = n \<and>
    (\<forall>i<n. horner (map Gf (data @ rsEncode data n)) (Gf (EXP ! i)) = 0)"
  using assms(1)
proof (induction data rule: rev_induct)
  case Nil
  have "horner (map Gf (replicate n 0)) x = 0" for x
    by (induction n) (simp_all add: horner_Cons Gf_0)
  then show ?case by (simp add: rsEncode_def)
next
  case (snoc b data)
  let ?res = "rsEncode data n" and ?gen = "rsGenerator n"
  have IH: "bytes ?res" "length ?res = n" "\<And>i. i < n \<Longrightarrow> horner (map Gf (data @ ?res)) (Gf (EXP ! i)) = 0"
    using snoc by auto
  have step: "rsEncode (data @ [b]) n = rs_shift ?gen n ?res b" by (simp add: rsEncode_def)
  have shift: "bytes (rs_shift ?gen n ?res b) \<and> length (rs_shift ?gen n ?res b) = n \<and>
      horner (map Gf (rs_shift ?gen n ?res b)) (Gf (EXP ! i)) =
        horner (map Gf ?res) (Gf (EXP ! i)) * Gf (EXP ! i) + Gf b * Gf (EXP ! i) ^ n" if "i < n" for i
    using rs_shift_facts[of ?gen n "Gf (EXP ! i)" ?res b] rsGenerator_facts[OF assms(3)] IH snoc.prems assms(2) that
    by simp
  have "horner (map Gf ((data @ [b]) @ rs_shift ?gen n ?res b)) (Gf (EXP ! i)) = 0" if "i < n" for i
  proof -
    let ?x = "Gf (EXP ! i)"
    have "horner (map Gf ((data @ [b]) @ rs_shift ?gen n ?res b)) ?x =
        ?x * horner (map Gf (data @ ?res)) ?x + (Gf b * ?x ^ n + Gf b * ?x ^ n)" (is "_ = ?rhs")
      using shift[OF that] IH(2) unfolding map_append horner_append length_map
      by (simp add: horner_Cons algebra_simps del: gf_double mult_2 mult_2_right)
    also have "\<dots> = 0" using IH(3)[OF that] by simp
    finally show ?thesis .
  qed
  with shift[OF assms(2)] show ?case by (simp only: step) blast
qed

lemma horner_update:
  "k < length p \<Longrightarrow> horner (p[k := c]) x = horner p x + (c + p ! k) * x ^ (length p - 1 - k)"
proof (induction p rule: rev_induct)
  case (snoc a p)
  show ?case
  proof (cases "k < length p")
    case True
    then have "length p - k = Suc (length p - Suc k)" by simp
    with True snoc.IH show ?thesis by (simp add: list_update_append nth_append algebra_simps)
  next
    case False
    with snoc.prems have "k = length p" by simp
    then show ?thesis by (simp add: algebra_simps)
  qed
qed simp

lemma is_codeword_horner:
  "bytes w \<Longrightarrow> n \<le> 512 \<Longrightarrow> is_codeword n w \<longleftrightarrow> (\<forall>i<n. horner (map Gf w) (Gf (EXP ! i)) = 0)"
  by (auto simp: is_codeword_def list_all_iff poly_at_0)

lemma damaged_not_codeword:
  assumes "bytes w" "is_codeword n w" "0 < n" "n \<le> 512" "k < length w" "c < 256" "c \<noteq> w ! k"
  shows "\<not> is_codeword n (w[k := c])"
proof
  assume bad: "is_codeword n (w[k := c])"
  have wk: "w ! k < 256" using assms(1,5) by (simp add: bytes_def list_all_length)
  have "bytes (w[k := c])" using assms(1,6) set_update_subset_insert[of w k c]
    by (auto simp: bytes_def list_all_iff)
  then have "horner (map Gf (w[k := c])) (Gf (EXP ! 0)) = 0" "horner (map Gf w) (Gf (EXP ! 0)) = 0"
    using bad assms(1-4) by (simp_all add: is_codeword_horner)
  moreover have "Gf (EXP ! 0) = 1" by (simp add: EXP_xpow Gf_1)
  ultimately have "Gf c + Gf (w ! k) = 0" using assms(5) by (simp add: map_update horner_update)
  then have "Gf c = Gf (w ! k)" by (metis add.assoc add.right_neutral gf_double add.left_neutral)
  then show False using assms(6,7) wk by (simp add: Gf_eq)
qed

text \<open>
  C40: \<open>rsEncode\<close> appends as many bytes as asked for, and the block with them is a codeword: every root of
  the generator is a root of it. A codeword with one byte changed is not one, so the damage is noticed.
\<close>

theorem rs_encode_codeword:
  assumes "bytes data" "0 < ecLen" "ecLen \<le> 255" "w = data @ rsEncode data ecLen"
  shows "length w = length data + ecLen \<and> bytes w \<and> is_codeword ecLen w \<and>
    (\<forall>k c. k < length w \<and> c < 256 \<and> c \<noteq> w ! k \<longrightarrow> \<not> is_codeword ecLen (w[k := c]))"
proof -
  note facts = rsEncode_facts[OF assms(1,2)]
  have w: "bytes w" "is_codeword ecLen w" "length w = length data + ecLen"
    using facts assms by (simp_all add: is_codeword_horner)
  with damaged_not_codeword[OF w(1,2) assms(2)] assms(3) show ?thesis by auto
qed

theorem rs_encode_codeword_witness:
  "is_codeword 10 ([32, 91, 11, 120] @ rsEncode [32, 91, 11, 120] 10) \<and>
   \<not> is_codeword 10 (([32, 91, 11, 120] @ rsEncode [32, 91, 11, 120] 10)[2 := 12])"
proof -
  define w where "w = [32, 91, 11, 120] @ rsEncode [32, 91, 11, 120] 10"
  note facts = rs_encode_codeword[OF _ _ _ w_def]
  have "is_codeword 10 w" "length w = 14"
    and "\<forall>k c. k < length w \<and> c < 256 \<and> c \<noteq> w ! k \<longrightarrow> \<not> is_codeword 10 (w[k := c])"
    using facts by simp_all
  moreover have "w ! 2 = 11" by (simp add: w_def)
  ultimately have "\<not> is_codeword 10 (w[2 := 12])" by simp
  with \<open>is_codeword 10 w\<close> show ?thesis by (simp only: w_def simp_thms)
qed

end
