(* ===== verification/QrData.thy ===== *)
theory QrData
  imports ReedSolomon
begin

text \<open>
  The data side of \<^verbatim>\<open>src/qr/qrEncoder.ts\<close>: modes, versions, the bit buffer, the codeword stream with its
  blocks, and the parser of the companion decoder. Bits and codewords are numbers, as in the code; a
  version is one of 1 to 10.
\<close>

section \<open>Tables\<close>

text \<open>\<open>[ecCodewordsPerBlock, group1Blocks, group1DataCw, group2Blocks, group2DataCw]\<close> of a version.\<close>

definition EC_M :: "(nat \<times> nat \<times> nat \<times> nat \<times> nat \<times> nat) list" where
  "EC_M = [
     (1, 10, 1, 16, 0, 0), (2, 16, 1, 28, 0, 0), (3, 26, 1, 44, 0, 0), (4, 18, 2, 32, 0, 0),
     (5, 24, 2, 43, 0, 0), (6, 16, 4, 27, 0, 0), (7, 18, 4, 31, 0, 0), (8, 22, 2, 38, 2, 39),
     (9, 22, 3, 36, 2, 37), (10, 26, 4, 43, 1, 44)]"

definition ec_m :: "nat \<Rightarrow> nat \<times> nat \<times> nat \<times> nat \<times> nat" where
  "ec_m version = the (map_of EC_M version)"

definition MAX_VERSION :: nat where
  "MAX_VERSION = 10"

definition totalDataCodewords :: "nat \<Rightarrow> nat" where
  "totalDataCodewords version = (case ec_m version of (_, g1b, g1d, g2b, g2d) \<Rightarrow> g1b * g1d + g2b * g2d)"

datatype qr_mode = Numeric | Byte

definition detectMode :: "string \<Rightarrow> qr_mode" where
  "detectMode txt = (if list_all is_digit txt then Numeric else Byte)"

definition countBits :: "qr_mode \<Rightarrow> nat \<Rightarrow> nat" where
  "countBits m version =
     (if version \<le> 9 then (if m = Numeric then 10 else 8) else (if m = Numeric then 12 else 16))"

section \<open>The bit buffer\<close>

text \<open>\<open>put\<close>: the low \<open>len\<close> bits of the value, the highest first.\<close>

definition bits_of :: "nat \<Rightarrow> nat \<Rightarrow> nat list" where
  "bits_of v len = map (\<lambda>i. drop_bit i v AND 1) (rev [0..<len])"

text \<open>The digits in groups of three; \<open>parseInt(group, 10)\<close> is the value of the digits.\<close>

fun numeric_bits :: "string \<Rightarrow> nat list" where
  "numeric_bits [] = []"
| "numeric_bits (c # cs) =
     (let group = take 3 (c # cs)
      in bits_of (digits_val group) (if length group = 3 then 10 else if length group = 2 then 7 else 4) @
         numeric_bits (drop 3 (c # cs)))"

definition encodeData :: "string \<Rightarrow> qr_mode \<Rightarrow> nat \<Rightarrow> nat list" where
  "encodeData txt m version =
     (let buf = utf8 txt;
          charCount = (if m = Numeric then length txt else length buf)
      in bits_of (if m = Numeric then 1 else 4) 4 @ bits_of charCount (countBits m version) @
         (if m = Numeric then numeric_bits txt else concat (map (\<lambda>b. bits_of (unat b) 8) buf)))"

definition need_bits :: "string \<Rightarrow> qr_mode \<Rightarrow> nat \<Rightarrow> nat" where
  "need_bits txt m v =
     4 + countBits m v +
     (if m = Numeric then length txt div 3 * 10 + [0, 4, 7] ! (length txt mod 3) else length (utf8 txt) * 8)"

definition chooseVersion :: "string \<Rightarrow> qr_mode \<Rightarrow> nat result" where
  "chooseVersion txt m =
     (case find (\<lambda>v. need_bits txt m v \<le> totalDataCodewords v * 8) [1..<MAX_VERSION + 1] of
        Some v \<Rightarrow> Inr v
      | None \<Rightarrow> Inl (PlainError (''content too large for a version-'' @ nat_digits MAX_VERSION @
          '' QR code ('' @ nat_digits (length txt) @ '' chars)'')))"

section \<open>The codeword stream\<close>

text \<open>The terminator loop, of at most \<open>n\<close> zero bits, and the loop up to a byte boundary.\<close>

fun terminator :: "nat \<Rightarrow> nat \<Rightarrow> nat list \<Rightarrow> nat list" where
  "terminator 0 capacity bits = bits"
| "terminator (Suc n) capacity bits = (if length bits < capacity then terminator n capacity (bits @ [0]) else bits)"

function pad_byte :: "nat list \<Rightarrow> nat list" where
  "pad_byte bits = (if length bits mod 8 \<noteq> 0 then pad_byte (bits @ [0]) else bits)"
  by auto
termination
proof (relation "measure (\<lambda>bits. (8 - length bits mod 8) mod 8)")
  fix bits :: "nat list"
  assume "length bits mod 8 \<noteq> 0"
  moreover from this have "(8 - length bits mod 8) mod 8 = 8 - length bits mod 8" by simp
  ultimately have "(8 - (length bits + 1) mod 8) mod 8 < (8 - length bits mod 8) mod 8"
    by (cases "length bits mod 8 = 7") (auto simp: mod_Suc)
  then show "(bits @ [0], bits) \<in> measure (\<lambda>bits. (8 - length bits mod 8) mod 8)" by simp
qed simp

declare pad_byte.simps [simp del]

text \<open>Eight bits to a byte: \<open>byte = (byte << 1) | bit\<close>; the length is a multiple of 8 when this is called.\<close>

definition byte_of :: "nat list \<Rightarrow> nat" where
  "byte_of bits = foldl (\<lambda>v b. push_bit 1 v OR b) 0 bits"

function pack_bytes :: "nat list \<Rightarrow> nat list" where
  "pack_bytes bits = (if length bits < 8 then [] else byte_of (take 8 bits) # pack_bytes (drop 8 bits))"
  by auto
termination by (relation "measure length") auto

declare pack_bytes.simps [simp del]

text \<open>\<open>for (let i = 0; data.length < totalData; i++) data.push(pads[i % 2])\<close>\<close>

function pad_data :: "nat \<Rightarrow> nat \<Rightarrow> nat list \<Rightarrow> nat list" where
  "pad_data i wanted data = (if length data < wanted then pad_data (i + 1) wanted (data @ [[0xec, 0x11] ! (i mod 2)]) else data)"
  by auto
termination by (relation "measure (\<lambda>(i, wanted, data). wanted - length data)") auto

declare pad_data.simps [simp del]

definition data_codewords :: "string \<Rightarrow> qr_mode \<Rightarrow> nat \<Rightarrow> nat list" where
  "data_codewords txt m version =
     (let wanted = totalDataCodewords version;
          buf = pad_byte (terminator 4 (wanted * 8) (encodeData txt m version))
      in pad_data 0 wanted (pack_bytes buf))"

definition block_sizes :: "nat \<Rightarrow> nat list" where
  "block_sizes version =
     (case ec_m version of (_, g1b, g1d, g2b, g2d) \<Rightarrow> map (\<lambda>b. if b < g1b then g1d else g2d) [0..<g1b + g2b])"

primrec split_blocks :: "nat list \<Rightarrow> nat list \<Rightarrow> nat list list" where
  "split_blocks [] data = []"
| "split_blocks (s # ss) data = take s data # split_blocks ss (drop s data)"

definition interleave :: "nat \<Rightarrow> nat list list \<Rightarrow> nat list" where
  "interleave n blocks =
     concat (map (\<lambda>i. concat (map (\<lambda>block. if i < length block then [block ! i] else []) blocks)) [0..<n])"

definition max_data :: "nat \<Rightarrow> nat" where
  "max_data version = (case ec_m version of (_, g1b, g1d, g2b, g2d) \<Rightarrow> max g1d g2d)"

definition ec_per_block :: "nat \<Rightarrow> nat" where
  "ec_per_block version = fst (ec_m version)"

definition buildCodewords :: "string \<Rightarrow> qr_mode \<Rightarrow> nat \<Rightarrow> nat list" where
  "buildCodewords txt m version =
     (let blocks = split_blocks (block_sizes version) (data_codewords txt m version);
          ecBlocks = map (\<lambda>block. rsEncode block (ec_per_block version)) blocks
      in interleave (max_data version) blocks @
         concat (map (\<lambda>i. map (\<lambda>ec. ec ! i) ecBlocks) [0..<ec_per_block version]))"

section \<open>The companion parser\<close>

text \<open>A read past the end of an array is \<open>undefined\<close>, which the bit operations take for 0.\<close>

definition nth0 :: "nat list \<Rightarrow> nat \<Rightarrow> nat" where
  "nth0 xs i = (if i < length xs then xs ! i else 0)"

text \<open>The loop body that hands the next codeword of the stream to block \<open>b\<close>.\<close>

definition deint_cell :: "nat list \<Rightarrow> nat list \<Rightarrow> nat list list \<times> nat \<Rightarrow> nat \<times> nat \<Rightarrow> nat list list \<times> nat" where
  "deint_cell sizes stream st ib =
     (case (st, ib) of ((blocks, idx), (i, b)) \<Rightarrow>
        if i < sizes ! b then (blocks[b := blocks ! b @ [nth0 stream idx]], idx + 1) else (blocks, idx))"

definition deinterleave :: "nat \<Rightarrow> nat list \<Rightarrow> nat list \<Rightarrow> nat list list" where
  "deinterleave n sizes stream =
     fst (foldl (deint_cell sizes stream) (map (\<lambda>_. []) sizes, 0) (List.product [0..<n] [0..<length sizes]))"

definition take_bits :: "nat list \<Rightarrow> nat \<Rightarrow> nat \<Rightarrow> nat" where
  "take_bits bb p n = foldl (\<lambda>v k. push_bit 1 v OR nth0 bb (p + k)) 0 [0..<n]"

fun read_numeric :: "nat list \<Rightarrow> nat \<Rightarrow> nat \<Rightarrow> string" where
  "read_numeric bb p count =
     (if 3 \<le> count then padStart 3 CHR ''0'' (nat_digits (take_bits bb p 10)) @ read_numeric bb (p + 10) (count - 3)
      else if count = 2 then padStart 2 CHR ''0'' (nat_digits (take_bits bb p 7))
      else if count = 1 then nat_digits (take_bits bb p 4)
      else [])"

declare read_numeric.simps [simp del]

text \<open>
  \<open>Buffer.from(bytes).toString('utf8')\<close> where the text has code units below 256 only; \<open>None\<close> for bytes
  whose text has others (or the replacement character), which the model's characters cannot write.
\<close>

fun utf8_text :: "nat list \<Rightarrow> string option" where
  "utf8_text [] = Some []"
| "utf8_text (b # bs) =
     (if b < 128 then map_option ((#) (char_of b)) (utf8_text bs)
      else if b = 0xc2 \<or> b = 0xc3 then
        (case bs of
           c # cs \<Rightarrow> if 128 \<le> c \<and> c < 192 then map_option ((#) (char_of ((b - 192) * 64 + (c - 128)))) (utf8_text cs) else None
         | [] \<Rightarrow> None)
      else None)"

definition decode_sizes :: "nat \<Rightarrow> nat list" where
  "decode_sizes version = (case ec_m version of (_, g1b, g1d, g2b, g2d) \<Rightarrow> replicate g1b g1d @ replicate g2b g2d)"

definition parse_data :: "nat \<Rightarrow> nat list \<Rightarrow> string option" where
  "parse_data version data =
     (let bb = concat (map (\<lambda>b. bits_of b 8) data)
      in if take_bits bb 0 4 = 1
         then let n = countBits Numeric version in Some (read_numeric bb (4 + n) (take_bits bb 4 n))
         else let n = countBits Byte version; count = take_bits bb 4 n
              in utf8_text (map (\<lambda>i. take_bits bb (4 + n + 8 * i) 8) [0..<count]))"

text \<open>The de-interleaving and the parsing of a codeword stream.\<close>

definition decode_stream :: "nat \<Rightarrow> nat list \<Rightarrow> string option" where
  "decode_stream version stream =
     parse_data version (concat (deinterleave (max_data version) (decode_sizes version) stream))"

section \<open>Bits\<close>

definition is_bits :: "nat list \<Rightarrow> bool" where
  "is_bits bs = list_all (\<lambda>b. b < 2) bs"

lemma is_bits_simps [simp]:
  "is_bits []" "is_bits (b # bs) = (b < 2 \<and> is_bits bs)" "is_bits (xs @ ys) = (is_bits xs \<and> is_bits ys)"
  by (simp_all add: is_bits_def)

lemma and_one: "(v :: nat) AND 1 = v mod 2"
  by (simp add: and_one_eq)

lemma bits_of_0 [simp]: "bits_of v 0 = []"
  by (simp add: bits_of_def)

lemma bits_of_Suc: "bits_of v (Suc n) = bits_of (v div 2) n @ [v mod 2]"
proof -
  have "rev [0..<Suc n] = map Suc (rev [0..<n]) @ [0]"
    by (simp add: upt_conv_Cons map_Suc_upt[symmetric] rev_map del: upt_Suc)
  then show ?thesis
    by (simp add: bits_of_def and_one drop_bit_Suc comp_def del: upt_Suc)
qed

lemma length_bits_of [simp]: "length (bits_of v n) = n"
  by (simp add: bits_of_def)

lemma is_bits_of [simp]: "is_bits (bits_of v n)"
  by (induction n arbitrary: v) (simp_all add: bits_of_Suc)

lemma push_or: "b < 2 \<Longrightarrow> push_bit 1 v OR b = 2 * v + (b :: nat)"
proof -
  assume "b < 2"
  then consider "b = 0" | "b = 1" by linarith
  then show ?thesis
    by cases (simp_all add: push_bit_eq_mult or_one_eq mult.commute del: One_nat_def)
qed

lemma byte_of_Nil [simp]: "byte_of [] = 0"
  by (simp add: byte_of_def)

lemma byte_of_snoc [simp]: "b < 2 \<Longrightarrow> byte_of (bs @ [b]) = 2 * byte_of bs + b"
  using push_or[of b "byte_of bs"] by (simp add: byte_of_def)

lemma byte_of_bits_of [simp]: "v < 2 ^ n \<Longrightarrow> byte_of (bits_of v n) = v"
  by (induction n arbitrary: v) (simp_all add: bits_of_Suc less_mult_imp_div_less mult.commute)

lemma bits_of_byte_of: "is_bits bs \<Longrightarrow> length bs = n \<Longrightarrow> bits_of (byte_of bs) n = bs"
  by (induction bs arbitrary: n rule: rev_induct) (auto simp: bits_of_Suc)

lemma byte_of_less: "is_bits bs \<Longrightarrow> byte_of bs < 2 ^ length bs"
  by (induction bs rule: rev_induct) simp_all

text \<open>Bytes to bits and back.\<close>

abbreviation all_bits :: "nat list \<Rightarrow> nat list" where
  "all_bits cws \<equiv> concat (map (\<lambda>b. bits_of b 8) cws)"

lemma length_all_bits [simp]: "length (all_bits cws) = 8 * length cws"
  by (induction cws) simp_all

lemma is_bits_all [simp]: "is_bits (all_bits cws)"
  by (induction cws) simp_all

lemma pack_bytes_all: "bytes cws \<Longrightarrow> pack_bytes (all_bits cws @ rest) = cws @ pack_bytes rest"
  by (induction cws) (simp_all add: pack_bytes.simps[of "bits_of _ 8 @ _"])

lemma all_bits_pack: "is_bits bits \<Longrightarrow> 8 dvd length bits \<Longrightarrow> all_bits (pack_bytes bits) = bits"
proof (induction bits rule: pack_bytes.induct)
  case (1 bits)
  show ?case
  proof (cases "length bits < 8")
    case True
    with 1(3) have "bits = []" using nat_dvd_not_less[of "length bits" 8] by auto
    then show ?thesis by (simp add: pack_bytes.simps)
  next
    case False
    have b: "is_bits (take 8 bits)" "is_bits (drop 8 bits)"
      using 1(2) append_take_drop_id[of 8 bits] is_bits_simps(3) by metis+
    moreover have "8 dvd length (drop 8 bits)" using 1(3) False by (simp add: dvd_diff_nat)
    ultimately show ?thesis
      using 1(1)[OF False] False by (simp add: pack_bytes.simps[of bits] bits_of_byte_of)
  qed
qed

lemma length_pack_bytes [simp]: "length (pack_bytes bits) = length bits div 8"
proof (induction bits rule: pack_bytes.induct)
  case (1 bits)
  then show ?case by (cases "length bits < 8") (simp_all add: pack_bytes.simps[of bits] le_div_geq)
qed

lemma bytes_pack: "is_bits bits \<Longrightarrow> bytes (pack_bytes bits)"
proof (induction bits rule: pack_bytes.induct)
  case (1 bits)
  show ?case
  proof (cases "length bits < 8")
    case False
    have b: "is_bits (take 8 bits)" "is_bits (drop 8 bits)"
      using 1(2) append_take_drop_id[of 8 bits] is_bits_simps(3) by metis+
    then show ?thesis using 1(1)[OF False] False byte_of_less[OF b(1)] by (simp add: pack_bytes.simps[of bits])
  qed (simp add: pack_bytes.simps)
qed

lemma take_bits_byte_of: "p + n \<le> length bb \<Longrightarrow> take_bits bb p n = byte_of (take n (drop p bb))"
proof -
  assume le: "p + n \<le> length bb"
  then have "take n (drop p bb) = map (\<lambda>k. nth0 bb (p + k)) [0..<n]"
    by (intro nth_equalityI) (simp_all add: nth0_def)
  then show ?thesis by (simp add: take_bits_def byte_of_def foldl_map)
qed

lemma take_bits_here: "v < 2 ^ n \<Longrightarrow> length pre = p \<Longrightarrow> take_bits (pre @ bits_of v n @ post) p n = v"
  by (simp add: take_bits_byte_of)

lemma take_bits_shift: "length pre + q = p \<Longrightarrow> take_bits (pre @ bb) p n = take_bits bb q n"
proof -
  assume p: "length pre + q = p"
  have "nth0 (pre @ bb) (p + k) = nth0 bb (q + k)" for k by (simp add: nth0_def nth_append flip: p)
  then show ?thesis by (simp only: take_bits_def)
qed

section \<open>The stream of a text\<close>

text \<open>Facts that hold version by version.\<close>

definition versions :: "nat list" where
  "versions = [1, 2, 3, 4, 5, 6, 7, 8, 9, 10]"

lemma versions_upt: "[1..<MAX_VERSION + 1] = versions"
  by (simp add: versions_def MAX_VERSION_def upt_rec[of _ "Suc _"] upt_rec[of _ "numeral _"])

lemmas version_table = versions_def ec_m_def EC_M_def totalDataCodewords_def block_sizes_def decode_sizes_def
  max_data_def ec_per_block_def

lemma list_all_versions: "list_all P versions \<Longrightarrow> v \<in> set versions \<Longrightarrow> P v"
  by (simp add: list_all_iff)

lemma decode_sizes_eq: "v \<in> set versions \<Longrightarrow> decode_sizes v = block_sizes v"
  by (rule list_all_versions) (simp_all add: version_table numeral_eq_Suc)

lemma sum_block_sizes: "v \<in> set versions \<Longrightarrow> sum_list (block_sizes v) = totalDataCodewords v"
  by (rule list_all_versions) (simp_all add: version_table numeral_eq_Suc)

lemma block_sizes_max: "v \<in> set versions \<Longrightarrow> s \<in> set (block_sizes v) \<Longrightarrow> s \<le> max_data v"
proof -
  have "list_all (\<lambda>v. list_all (\<lambda>s. s \<le> max_data v) (block_sizes v)) versions"
    by (simp add: version_table upt_rec[of _ "numeral _"] upt_rec[of _ "Suc _"])
  then show "v \<in> set versions \<Longrightarrow> s \<in> set (block_sizes v) \<Longrightarrow> s \<le> max_data v"
    by (simp add: list_all_iff)
qed

lemma capacity_small: "v \<in> set versions \<Longrightarrow> totalDataCodewords v \<le> (if v \<le> 9 then 182 else 216)"
  by (rule list_all_versions) (simp_all add: version_table)

lemma ec_per_block_range: "v \<in> set versions \<Longrightarrow> 0 < ec_per_block v \<and> ec_per_block v \<le> 255"
  by (rule list_all_versions) (simp_all add: version_table)

text \<open>The bits of a text, and their number.\<close>

lemma utf8_bytes [simp]: "bytes (map unat (utf8 s))"
  by (simp add: bytes_def list_all_iff unat_byte_less)

lemma length_numeric_bits: "length (numeric_bits s) = length s div 3 * 10 + [0, 4, 7] ! (length s mod 3)"
proof (induction s rule: numeric_bits.induct)
  case (2 c cs)
  consider "cs = []" | d where "cs = [d]" | d e es where "cs = d # e # es" by (metis list.exhaust)
  then show ?case
  proof cases
    case 3
    then have "(length cs + 1) div 3 = length es div 3 + 1" "(length cs + 1) mod 3 = length es mod 3"
      by simp_all
    then show ?thesis using 2 3 by (simp add: algebra_simps)
  qed simp_all
qed simp

lemma is_bits_numeric [simp]: "is_bits (numeric_bits s)"
  by (induction s rule: numeric_bits.induct) (simp_all add: Let_def)

lemma length_encodeData: "length (encodeData txt m v) = need_bits txt m v"
proof -
  have "length (concat (map (\<lambda>b. bits_of (unat b) 8) bs)) = 8 * length bs" for bs :: "byte list"
    by (induction bs) simp_all
  then show ?thesis by (simp add: encodeData_def need_bits_def Let_def length_numeric_bits)
qed

lemma is_bits_encodeData: "is_bits (encodeData txt m v)"
proof -
  have "is_bits (concat (map (\<lambda>b. bits_of (unat b) 8) bs))" for bs :: "byte list"
    by (induction bs) simp_all
  then show ?thesis by (simp add: encodeData_def Let_def)
qed

lemma terminator_zeros:
  "length bits \<le> cap \<Longrightarrow> \<exists>k. terminator n cap bits = bits @ replicate k 0 \<and> length bits + k \<le> cap"
proof (induction n arbitrary: bits)
  case 0
  then show ?case by (intro exI[of _ 0]) simp
next
  case (Suc n)
  show ?case
  proof (cases "length bits < cap")
    case True
    with Suc.IH[of "bits @ [0]"] obtain k where "terminator n cap (bits @ [0]) = (bits @ [0]) @ replicate k 0"
      "length bits + 1 + k \<le> cap" by auto
    with True show ?thesis by (intro exI[of _ "Suc k"]) simp
  next
    case False
    with Suc.prems show ?thesis by (intro exI[of _ 0]) simp
  qed
qed

lemma pad_byte_zeros:
  "\<exists>k. pad_byte bits = bits @ replicate k 0 \<and> 8 dvd length bits + k \<and>
     (8 dvd cap \<and> length bits \<le> cap \<longrightarrow> length bits + k \<le> cap)"
proof (induction bits rule: pad_byte.induct)
  case (1 bits)
  show ?case
  proof (cases "length bits mod 8 = 0")
    case True
    then show ?thesis by (intro exI[of _ 0]) (simp add: pad_byte.simps[of bits] dvd_eq_mod_eq_0)
  next
    case False
    with 1 obtain k where k: "pad_byte bits = (bits @ [0]) @ replicate k 0" "8 dvd length bits + 1 + k"
      "8 dvd cap \<Longrightarrow> length bits + 1 \<le> cap \<Longrightarrow> length bits + 1 + k \<le> cap"
      by (auto simp: pad_byte.simps[of bits])
    have "length bits \<noteq> cap" if "8 dvd cap" using that False by (auto simp: dvd_eq_mod_eq_0)
    with k show ?thesis by (intro exI[of _ "Suc k"]) (auto simp: Suc_le_eq)
  qed
qed

lemma pad_data_extends:
  "bytes data \<Longrightarrow> length data \<le> wanted \<Longrightarrow> \<exists>pads. pad_data i wanted data = data @ pads \<and> bytes pads \<and>
     length (data @ pads) = wanted"
proof (induction i wanted data rule: pad_data.induct)
  case (1 i wanted data)
  show ?case
  proof (cases "length data < wanted")
    case True
    define b :: nat where "b = [0xec, 0x11] ! (i mod 2)"
    have "b < 256" by (cases "i mod 2 = 0") (auto simp: b_def)
    with 1 True obtain pads where "pad_data (i + 1) wanted (data @ [b]) = (data @ [b]) @ pads" "bytes pads"
      "length ((data @ [b]) @ pads) = wanted" unfolding b_def by fastforce
    with True \<open>b < 256\<close> show ?thesis by (intro exI[of _ "b # pads"]) (simp add: pad_data.simps[of i] b_def)
  next
    case False
    with 1(3) show ?thesis by (intro exI[of _ "[]"]) (simp add: pad_data.simps[of i])
  qed
qed

text \<open>The data codewords fill the version's capacity, and their bits start with the encoded text.\<close>

lemma data_codewords_facts:
  assumes "need_bits txt m v \<le> totalDataCodewords v * 8"
  shows "bytes (data_codewords txt m v)" "length (data_codewords txt m v) = totalDataCodewords v"
    "\<exists>rest. all_bits (data_codewords txt m v) = encodeData txt m v @ rest"
proof -
  let ?cap = "totalDataCodewords v * 8" and ?e = "encodeData txt m v"
  obtain k where k: "terminator 4 ?cap ?e = ?e @ replicate k 0" "length ?e + k \<le> ?cap"
    using terminator_zeros[of ?e ?cap 4] assms by (auto simp: length_encodeData)
  define buf where "buf = pad_byte (terminator 4 ?cap ?e)"
  obtain j where j: "buf = ?e @ replicate (k + j) 0" "8 dvd length buf" "length buf \<le> ?cap"
    using pad_byte_zeros[of "?e @ replicate k 0" ?cap] k
    by (auto simp: buf_def replicate_add add.assoc)
  have bits: "is_bits buf" using is_bits_encodeData by (simp add: j(1)) (simp add: is_bits_def list_all_length)
  have len: "length (pack_bytes buf) \<le> totalDataCodewords v" using j(3) by (simp add: div_le_mono[of _ ?cap 8, simplified])
  obtain pads where pads: "data_codewords txt m v = pack_bytes buf @ pads" "bytes pads"
      "length (pack_bytes buf @ pads) = totalDataCodewords v"
    using pad_data_extends[OF bytes_pack[OF bits] len, of 0] by (auto simp: data_codewords_def Let_def buf_def)
  then show "bytes (data_codewords txt m v)" "length (data_codewords txt m v) = totalDataCodewords v"
    using bytes_pack[OF bits] by simp_all
  have "all_bits (data_codewords txt m v) = ?e @ replicate (k + j) 0 @ all_bits pads"
    using pads(1) all_bits_pack[OF bits j(2)] by (simp add: j(1))
  then show "\<exists>rest. all_bits (data_codewords txt m v) = ?e @ rest" by blast
qed

section \<open>De-interleaving\<close>

abbreviation cell :: "nat \<Rightarrow> nat list \<Rightarrow> nat list" where
  "cell i block \<equiv> (if i < length block then [block ! i] else [])"

abbreviation row_of :: "nat \<Rightarrow> nat list list \<Rightarrow> nat list" where
  "row_of i blocks \<equiv> concat (map (cell i) blocks)"

lemma interleave_Suc: "interleave (Suc n) blocks = interleave n blocks @ row_of n blocks"
  by (simp add: interleave_def)

lemma deint_row:
  assumes "k \<le> length B" "stream = pre @ row_of i B @ post" "sizes = map length B"
  shows "foldl (deint_cell sizes stream) (map (take i) B, length pre) (map (Pair i) [0..<k]) =
    (map (take (Suc i)) (take k B) @ map (take i) (drop k B), length pre + length (row_of i (take k B)))"
  using assms(1)
proof (induction k)
  case (Suc k)
  then have k: "k < length B" by simp
  have B: "take (Suc k) B = take k B @ [B ! k]" "drop k B = B ! k # drop (Suc k) B"
    using k by (simp_all add: take_Suc_conv_app_nth Cons_nth_drop_Suc)
  have row: "row_of i B = row_of i (take k B) @ cell i (B ! k) @ row_of i (drop (Suc k) B)"
    by (subst append_take_drop_id[of k B, symmetric], subst B(2)) simp
  have nth: "nth0 stream (length pre + length (row_of i (take k B))) = B ! k ! i" if "i < length (B ! k)"
    using that unfolding assms(2) row by (simp add: nth0_def nth_append)
  have upd: "(map (take (Suc i)) (take k B) @ map (take i) (drop k B))[k := x] =
      map (take (Suc i)) (take k B) @ x # map (take i) (drop (Suc k) B)" for x
    using k by (simp add: B(2) list_update_append min_def)
  have at: "(map (take (Suc i)) (take k B) @ map (take i) (drop k B)) ! k = take i (B ! k)"
    using k by (simp add: B(2) nth_append min_def)
  from Suc.IH k show ?case
    by (simp add: deint_cell_def at upd nth B(1) assms(3) take_Suc_conv_app_nth) (simp add: B(2))
qed simp

lemma deint_rows:
  assumes "stream = interleave n B @ post" "sizes = map length B" "m \<le> n"
  shows "foldl (deint_cell sizes stream) (map (\<lambda>_. []) B, 0) (List.product [0..<m] [0..<length B]) =
    (map (take m) B, length (interleave m B))"
  using assms(3)
proof (induction m)
  case 0
  then show ?case by (simp add: interleave_def)
next
  case (Suc m)
  have ext: "\<exists>q. interleave (m + d) B = interleave m B @ q" for d
    by (induction d) (auto simp: interleave_Suc)
  obtain q where q: "interleave n B = interleave (Suc m) B @ q"
  proof -
    have "\<exists>q. interleave (m' + d) B = interleave m' B @ q" for d m'
      by (induction d) (auto simp: interleave_Suc)
    from this[of "Suc m" "n - Suc m"] Suc.prems that show ?thesis by auto
  qed
  then have stream: "stream = interleave m B @ row_of m B @ q @ post"
    by (simp add: assms(1) interleave_Suc)
  have prod: "List.product [0..<Suc m] [0..<length B] =
      List.product [0..<m] [0..<length B] @ map (Pair m) [0..<length B]"
    by (simp add: product_concat_map)
  show ?case
    unfolding prod foldl_append using Suc deint_row[OF order_refl stream assms(2)] by (simp add: interleave_Suc)
qed

lemma deinterleave_interleave:
  assumes "\<forall>b \<in> set B. length b \<le> n"
  shows "deinterleave n (map length B) (interleave n B @ post) = B"
proof -
  have "map (take n) B = B" using assms by (simp add: map_idI)
  moreover have "map (\<lambda>_. []) (map length B) = map (\<lambda>_. ([] :: nat list)) B" by simp
  ultimately show ?thesis
    using deint_rows[OF refl refl order_refl, of B n post] by (simp only: deinterleave_def length_map fst_conv)
qed

lemma split_blocks_facts:
  "sum_list sizes = length data \<Longrightarrow> concat (split_blocks sizes data) = data \<and> map length (split_blocks sizes data) = sizes"
  by (induction sizes arbitrary: data) auto

lemma blocks_recovered:
  assumes "v \<in> set versions" "length data = totalDataCodewords v"
  shows "concat (deinterleave (max_data v) (decode_sizes v)
    (interleave (max_data v) (split_blocks (block_sizes v) data) @ post)) = data"
proof -
  let ?B = "split_blocks (block_sizes v) data"
  have B: "concat ?B = data" "map length ?B = block_sizes v"
    using split_blocks_facts[of "block_sizes v" data] sum_block_sizes[OF assms(1)] assms(2) by simp_all
  have "\<forall>b \<in> set ?B. length b \<le> max_data v"
    using block_sizes_max[OF assms(1)] B(2) by (metis image_eqI list.set_map)
  then show ?thesis
    using deinterleave_interleave[of ?B "max_data v" post] B by (simp add: decode_sizes_eq[OF assms(1)])
qed

section \<open>Parsing what was encoded\<close>

text \<open>A string of digits is determined by its length and its value.\<close>

lemma digit_val_inj: "is_digit c \<Longrightarrow> is_digit d \<Longrightarrow> digit_val c = digit_val d \<Longrightarrow> c = d"
proof -
  assume "is_digit c" "is_digit d" "digit_val c = digit_val d"
  then have "(of_char c :: nat) = of_char d" unfolding is_digit_def digit_val_def by linarith
  then show "c = d" by simp
qed

lemma digits_val_inj:
  "length s = length t \<Longrightarrow> list_all is_digit s \<Longrightarrow> list_all is_digit t \<Longrightarrow> digits_val s = digits_val t \<Longrightarrow> s = t"
proof (induction s t rule: rev_induct2)
  case (4 c s d t)
  then have "digit_val c < 10" "digit_val d < 10" by (simp_all add: digit_val_less)
  moreover have "10 * digits_val s + digit_val c = 10 * digits_val t + digit_val d" using 4 by simp
  ultimately have "digits_val s = digits_val t" "digit_val c = digit_val d" by presburger+
  with 4 digit_val_inj[of c d] show ?case by simp
qed simp_all

lemma padStart_digits_val:
  assumes "list_all is_digit g" "length g = n" "0 < n"
  shows "padStart n CHR ''0'' (nat_digits (digits_val g)) = g"
proof (rule digits_val_inj)
  have "digits_val g < 10 ^ n" using digits_val_less[OF assms(1)] assms(2) by simp
  then show "length (padStart n CHR ''0'' (nat_digits (digits_val g))) = length g"
    using assms(2,3) by (simp add: padStart_length)
qed (use assms in \<open>simp_all add: padStart_digits nat_digits_digit\<close>)

lemma read_numeric_bits:
  "list_all is_digit s \<Longrightarrow> length pre = p \<Longrightarrow> read_numeric (pre @ numeric_bits s @ post) p (length s) = s"
proof (induction s arbitrary: pre p rule: numeric_bits.induct)
  case 1
  then show ?case by (simp add: read_numeric.simps)
next
  case (2 c cs)
  consider (one) "cs = []" | (two) d where "cs = [d]" | (more) d e es where "cs = d # e # es" by (metis list.exhaust)
  then show ?case
  proof cases
    case one
    then show ?thesis
      using 2 padStart_digits_val[of "[c]" 1] digits_val_less[of "[c]"]
      by (simp add: read_numeric.simps[of _ p] take_bits_here padStart_def nat_digits.simps[of "digits_val [c]"])
  next
    case two
    then show ?thesis
      using 2 padStart_digits_val[of "[c, d]" 2] digits_val_less[of "[c, d]"]
      by (simp add: read_numeric.simps[of _ p] take_bits_here)
  next
    case more
    let ?g = "bits_of (digits_val [c, d, e]) 10"
    have IH: "read_numeric ((pre @ ?g) @ numeric_bits es @ post) (p + 10) (length es) = es"
      using 2(1)[OF refl, of "pre @ ?g" "p + 10"] 2(2,3) more by simp
    have "digits_val [c, d, e] < 2 ^ 10" using digits_val_less[of "[c, d, e]"] 2 more by simp
    then show ?thesis
      using 2 more IH padStart_digits_val[of "[c, d, e]" 3]
      by (simp add: read_numeric.simps[of _ p] take_bits_here)
  qed
qed

lemma utf8_text_char: "utf8_text (map unat (utf8_char c) @ rest) = map_option ((#) c) (utf8_text rest)"
proof -
  define n where "n = (of_char c :: nat)"
  have n: "n < 256" "char_of n = c" by (simp_all add: n_def)
  show ?thesis
  proof (cases "n < 128")
    case True
    with n show ?thesis by (simp add: utf8_char_def n_def[symmetric] unat_of_nat)
  next
    case False
    then have "n div 64 = 2 \<or> n div 64 = 3" using n(1) by auto
    moreover have "n = n div 64 * 64 + n mod 64" "n mod 64 < 64" by simp_all
    moreover have "unat (word_of_nat (128 + n mod 64) :: byte) = 128 + n mod 64"
      "unat (word_of_nat (192 + n div 64) :: byte) = 192 + n div 64"
      using calculation unfolding unat_of_nat by auto
    ultimately show ?thesis using False n(2)
      by (auto simp: utf8_char_def n_def[symmetric] Let_def)
  qed
qed

lemma utf8_text_utf8 [simp]: "utf8_text (map unat (utf8 s)) = Some s"
  by (induction s) (simp_all add: utf8_def utf8_text_char)

lemma chooseVersion_fits:
  assumes "chooseVersion txt m = Inr v"
  shows "v \<in> set versions" "need_bits txt m v \<le> totalDataCodewords v * 8"
proof -
  have "find (\<lambda>v. need_bits txt m v \<le> totalDataCodewords v * 8) versions = Some v"
    using assms by (simp add: chooseVersion_def versions_upt del: One_nat_def split: option.splits)
  then show "v \<in> set versions" "need_bits txt m v \<le> totalDataCodewords v * 8"
    by (auto simp: find_Some_iff)
qed

text \<open>The character count fits its field in every version that the text fits.\<close>

lemma count_fits:
  assumes "v \<in> set versions" "need_bits txt m v \<le> totalDataCodewords v * 8"
  shows "(if m = Numeric then length txt else length (utf8 txt)) < 2 ^ countBits m v"
proof -
  have cap: "totalDataCodewords v \<le> (if v \<le> 9 then 182 else 216)" by (rule capacity_small[OF assms(1)])
  show ?thesis
  proof (cases m)
    case Numeric
    have "length txt = length txt div 3 * 3 + length txt mod 3" "length txt mod 3 < 3" by simp_all
    with Numeric assms(2) cap show ?thesis
      by (cases "v \<le> 9") (auto simp: need_bits_def countBits_def)
  next
    case Byte
    with assms(2) cap show ?thesis by (cases "v \<le> 9") (auto simp: need_bits_def countBits_def)
  qed
qed

lemma parse_numeric:
  assumes "list_all is_digit txt" "length txt < 2 ^ countBits Numeric v"
    "all_bits data = encodeData txt Numeric v @ rest"
  shows "parse_data v data = Some txt"
proof -
  let ?n = "countBits Numeric v"
  have bb: "all_bits data = bits_of 1 4 @ bits_of (length txt) ?n @ numeric_bits txt @ rest"
    using assms(3) by (simp add: encodeData_def)
  have "take_bits (all_bits data) 0 4 = 1"
    unfolding bb using take_bits_here[of 1 4 "[]" 0] by simp
  moreover have "take_bits (all_bits data) 4 ?n = length txt"
    unfolding bb by (rule take_bits_here[OF assms(2)]) simp
  moreover have "read_numeric (all_bits data) (4 + ?n) (length txt) = txt"
    using read_numeric_bits[OF assms(1), of "bits_of 1 4 @ bits_of (length txt) ?n" "4 + ?n" rest] by (simp add: bb)
  ultimately show ?thesis by (simp add: parse_data_def Let_def)
qed

lemma take_bits_nth:
  assumes "bytes bs" "i < length bs" "length pre = p"
  shows "take_bits (pre @ all_bits bs @ post) (p + 8 * i) 8 = bs ! i"
proof -
  have "bs = take i bs @ bs ! i # drop (Suc i) bs" using assms(2) by (rule id_take_nth_drop)
  then have split: "all_bits bs = all_bits (take i bs) @ bits_of (bs ! i) 8 @ all_bits (drop (Suc i) bs)"
    by (metis concat.simps(2) concat_append list.simps(9) map_append)
  have "bs ! i < 2 ^ 8" using assms(1,2) by (simp add: bytes_def list_all_length)
  then show ?thesis
    unfolding split using assms(2,3) take_bits_here[of "bs ! i" 8 "pre @ all_bits (take i bs)" "p + 8 * i"]
    by (simp add: min_def)
qed

lemma parse_byte:
  assumes "length (utf8 txt) < 2 ^ countBits Byte v" "all_bits data = encodeData txt Byte v @ rest"
  shows "parse_data v data = Some txt"
proof -
  let ?n = "countBits Byte v" and ?bs = "map unat (utf8 txt)"
  have bb: "all_bits data = bits_of 4 4 @ bits_of (length ?bs) ?n @ all_bits ?bs @ rest"
    using assms(2) by (simp add: encodeData_def comp_def Let_def)
  have "take_bits (all_bits data) 0 4 = 4"
    unfolding bb using take_bits_here[of 4 4 "[]" 0] by simp
  moreover have "take_bits (all_bits data) 4 ?n = length ?bs"
    unfolding bb by (rule take_bits_here) (use assms(1) in simp_all)
  moreover have "map (\<lambda>i. take_bits (all_bits data) (4 + ?n + 8 * i) 8) [0..<length ?bs] = ?bs"
    using take_bits_nth[OF utf8_bytes, of _ "txt" "bits_of 4 4 @ bits_of (length ?bs) ?n" "4 + ?n" rest]
    by (intro nth_equalityI) (simp_all add: bb)
  ultimately show ?thesis by (simp add: parse_data_def Let_def)
qed

lemma decode_stream_build:
  assumes "chooseVersion txt (detectMode txt) = Inr v"
  shows "decode_stream v (buildCodewords txt (detectMode txt) v @ post) = Some txt"
proof -
  let ?m = "detectMode txt"
  note v = chooseVersion_fits[OF assms]
  note data = data_codewords_facts[OF v(2)]
  obtain rest where rest: "all_bits (data_codewords txt ?m v) = encodeData txt ?m v @ rest" using data(3) by blast
  have "decode_stream v (buildCodewords txt ?m v @ post) = parse_data v (data_codewords txt ?m v)"
    using blocks_recovered[OF v(1) data(2)] by (simp add: decode_stream_def buildCodewords_def Let_def)
  also have "\<dots> = Some txt"
    using count_fits[OF v] rest parse_numeric[where rest = rest and v = v] parse_byte[where rest = rest and v = v]
    by (cases "list_all is_digit txt") (simp_all add: detectMode_def)
  finally show ?thesis .
qed

section \<open>The length of the stream\<close>

lemma length_row_of: "length (row_of n B) + sum_list (map (\<lambda>b. min n (length b)) B) = sum_list (map (\<lambda>b. min (Suc n) (length b)) B)"
  by (induction B) auto

lemma length_interleave: "length (interleave n B) = sum_list (map (\<lambda>b. min n (length b)) B)"
proof (induction n)
  case 0
  show ?case by (induction B) (simp_all add: interleave_def)
next
  case (Suc n)
  then show ?case using length_row_of[of n B] by (simp add: interleave_Suc)
qed

lemma set_interleave: "set (interleave n B) \<subseteq> \<Union> (set ` set B)"
  by (auto simp: interleave_def split: if_splits)

lemma buildCodewords_facts:
  assumes "chooseVersion txt m = Inr v"
  shows "bytes (buildCodewords txt m v)"
    "length (buildCodewords txt m v) = totalDataCodewords v + ec_per_block v * length (block_sizes v)"
proof -
  note v = chooseVersion_fits[OF assms]
  note data = data_codewords_facts[OF v(2)]
  let ?B = "split_blocks (block_sizes v) (data_codewords txt m v)" and ?e = "ec_per_block v"
  have B: "concat ?B = data_codewords txt m v" "map length ?B = block_sizes v"
    using split_blocks_facts[of "block_sizes v" "data_codewords txt m v"] sum_block_sizes[OF v(1)] data(2) by simp_all
  have "bytes (concat ?B)" by (simp only: B(1) data(1))
  then have block: "bytes b" if "b \<in> set ?B" for b
    using that unfolding bytes_def list_all_iff by (metis UN_iff set_concat)
  have ec: "bytes (rsEncode b ?e)" "length (rsEncode b ?e) = ?e" if "b \<in> set ?B" for b
    using rsEncode_facts[OF block[OF that], of ?e] ec_per_block_range[OF v(1)] by simp_all
  have "bytes (interleave (max_data v) ?B)"
    using set_interleave[of "max_data v" ?B] block by (auto simp: bytes_def list_all_iff)
  moreover have "bytes (concat (map (\<lambda>i. map (\<lambda>ec. ec ! i) (map (\<lambda>b. rsEncode b ?e) ?B)) [0..<?e]))"
    using ec by (fastforce simp: bytes_def list_all_iff list_all_length)
  ultimately show "bytes (buildCodewords txt m v)" by (simp add: buildCodewords_def Let_def)
  have "map (\<lambda>b. min (max_data v) (length b)) ?B = map length ?B"
    using block_sizes_max[OF v(1)] B(2) by (intro map_cong refl) (metis image_eqI list.set_map min.absorb2)
  then have "length (interleave (max_data v) ?B) = totalDataCodewords v"
    using B(2) sum_block_sizes[OF v(1)] by (simp only: length_interleave)
  moreover have "length ?B = length (block_sizes v)" using B(2) by (metis length_map)
  ultimately show "length (buildCodewords txt m v) = totalDataCodewords v + ?e * length (block_sizes v)"
    by (simp add: buildCodewords_def Let_def length_concat comp_def sum_list_triv)
qed

end
