(* ===== verification/QrMatrix.thy ===== *)
theory QrMatrix
  imports QrData
begin

text \<open>
  The symbol matrix of \<^verbatim>\<open>src/qr/qrEncoder.ts\<close>: function patterns and reserved cells, the zig-zag placement of
  the bits, masks, format and version information, the penalty score and the choice of the mask; and the
  companion decoder. A matrix is a list of rows.
\<close>

section \<open>Grids\<close>

type_synonym 'a grid = "'a list list"

definition grid_set :: "'a grid \<Rightarrow> nat \<Rightarrow> nat \<Rightarrow> 'a \<Rightarrow> 'a grid" where
  "grid_set g r c v = g[r := (g ! r)[c := v]]"

abbreviation grid_at :: "'a grid \<Rightarrow> nat \<Rightarrow> nat \<Rightarrow> 'a" where
  "grid_at g r c \<equiv> g ! r ! c"

definition square :: "nat \<Rightarrow> 'a grid \<Rightarrow> bool" where
  "square n g \<longleftrightarrow> length g = n \<and> (\<forall>r<n. length (g ! r) = n)"

section \<open>Function patterns\<close>

definition ALIGN :: "(nat \<times> nat list) list" where
  "ALIGN = [(1, []), (2, [6, 18]), (3, [6, 22]), (4, [6, 26]), (5, [6, 30]),
     (6, [6, 34]), (7, [6, 22, 38]), (8, [6, 24, 42]), (9, [6, 26, 46]), (10, [6, 28, 50])]"

definition align_centres :: "nat \<Rightarrow> nat list" where
  "align_centres version = the (map_of ALIGN version)"

record layout =
  ly_size :: nat
  ly_base :: "bool option grid"
  ly_reserved :: "bool grid"

definition setFn :: "layout \<Rightarrow> nat \<Rightarrow> nat \<Rightarrow> bool \<Rightarrow> layout" where
  "setFn ly r c v =
     ly\<lparr>ly_base := grid_set (ly_base ly) r c (Some v), ly_reserved := grid_set (ly_reserved ly) r c True\<rparr>"

text \<open>\<open>reserved[r][c] = true\<close> alone.\<close>

definition reserve :: "layout \<Rightarrow> nat \<Rightarrow> nat \<Rightarrow> layout" where
  "reserve ly r c = ly\<lparr>ly_reserved := grid_set (ly_reserved ly) r c True\<rparr>"

definition inRing :: "int \<Rightarrow> int \<Rightarrow> bool" where
  "inRing r c \<longleftrightarrow> 0 \<le> r \<and> r \<le> 6 \<and> 0 \<le> c \<and> c \<le> 6 \<and>
     (r = 0 \<or> r = 6 \<or> c = 0 \<or> c = 6 \<or> (2 \<le> r \<and> r \<le> 4 \<and> 2 \<le> c \<and> c \<le> 4))"

definition finder_cell :: "nat \<Rightarrow> nat \<Rightarrow> layout \<Rightarrow> int \<times> int \<Rightarrow> layout" where
  "finder_cell r0 c0 ly rc =
     (case rc of (r, c) \<Rightarrow>
        let rr = int r0 + r; cc = int c0 + c
        in if rr < 0 \<or> int (ly_size ly) \<le> rr \<or> cc < 0 \<or> int (ly_size ly) \<le> cc then ly
           else setFn ly (nat rr) (nat cc) (inRing r c))"

definition placeFinder :: "nat \<Rightarrow> nat \<Rightarrow> layout \<Rightarrow> layout" where
  "placeFinder r0 c0 ly = foldl (finder_cell r0 c0) ly (List.product [-1..7] [-1..7])"

definition timing_cell :: "layout \<Rightarrow> nat \<Rightarrow> layout" where
  "timing_cell ly i = setFn (setFn ly 6 i (i mod 2 = 0)) i 6 (i mod 2 = 0)"

definition align_cell :: "nat \<Rightarrow> nat \<Rightarrow> layout \<Rightarrow> int \<times> int \<Rightarrow> layout" where
  "align_cell r c ly d =
     (case d of (dr, dc) \<Rightarrow> setFn ly (nat (int r + dr)) (nat (int c + dc)) (max \<bar>dr\<bar> \<bar>dc\<bar> \<noteq> 1))"

definition placeAlignment :: "layout \<Rightarrow> nat \<times> nat \<Rightarrow> layout" where
  "placeAlignment ly rc =
     (case rc of (r, c) \<Rightarrow>
        if grid_at (ly_reserved ly) r c then ly
        else foldl (align_cell r c) ly (List.product [-2..2] [-2..2]))"

definition reserve_format :: "layout \<Rightarrow> layout" where
  "reserve_format ly =
     (let n = ly_size ly;
          ly1 = foldl (\<lambda>ly i. reserve (reserve ly 8 i) i 8) ly [0..<9]
      in foldl (\<lambda>ly i. reserve (reserve ly 8 (n - 1 - i)) (n - 1 - i) 8) ly1 [0..<8])"

definition reserve_version :: "layout \<Rightarrow> layout" where
  "reserve_version ly =
     (let n = ly_size ly
      in foldl (\<lambda>ly (i, j). reserve (reserve ly i (n - 11 + j)) (n - 11 + j) i) ly (List.product [0..<6] [0..<3]))"

definition qr_size :: "nat \<Rightarrow> nat" where
  "qr_size version = 17 + version * 4"

definition empty_layout :: "nat \<Rightarrow> layout" where
  "empty_layout n = \<lparr>ly_size = n, ly_base = replicate n (replicate n None), ly_reserved = replicate n (replicate n False)\<rparr>"

text \<open>The layout with finders and timing patterns, and then with the rest.\<close>

definition frame_layout :: "nat \<Rightarrow> layout" where
  "frame_layout version =
     (let n = qr_size version;
          ly1 = placeFinder (n - 7) 0 (placeFinder 0 (n - 7) (placeFinder 0 0 (empty_layout n)))
      in foldl timing_cell ly1 [8..<n - 8])"

definition functionLayout :: "nat \<Rightarrow> layout" where
  "functionLayout version =
     (let centres = align_centres version;
          ly2 = foldl placeAlignment (frame_layout version) (List.product centres centres);
          ly3 = reserve_format (setFn ly2 (qr_size version - 8) 8 True)
      in if 7 \<le> version then reserve_version ly3 else ly3)"

section \<open>The zig-zag\<close>

text \<open>
  The cells the placement visits, in its order: columns in pairs from the right, without the timing
  column 6, upwards and downwards in turn. Below 2, \<open>col -= 2\<close> ends the loop.
\<close>

definition column_pair :: "nat \<Rightarrow> nat \<Rightarrow> bool \<Rightarrow> (nat \<times> nat) list" where
  "column_pair n col upward =
     concat (map (\<lambda>i. let row = (if upward then n - 1 - i else i) in [(row, col), (row, col - 1)]) [0..<n])"

function zigzag :: "nat \<Rightarrow> nat \<Rightarrow> bool \<Rightarrow> (nat \<times> nat) list" where
  "zigzag n col upward =
     (if 0 < col
      then let col1 = (if col = 6 then col - 1 else col)
           in column_pair n col1 upward @ zigzag n (col1 - 2) (\<not> upward)
      else [])"
  by auto
termination by (relation "measure (\<lambda>(n, col, upward). col)") (auto simp: Let_def)

declare zigzag.simps [simp del]

definition code_bit :: "nat list \<Rightarrow> nat \<Rightarrow> bool" where
  "code_bit codewords i = (drop_bit (7 - (i AND 7)) (codewords ! drop_bit 3 i) AND 1 = 1)"

definition place_cell :: "bool grid \<Rightarrow> nat list \<Rightarrow> bool option grid \<times> nat \<Rightarrow> nat \<times> nat \<Rightarrow> bool option grid \<times> nat" where
  "place_cell reserved codewords st rc =
     (case (st, rc) of ((modules, bitIndex), (row, c)) \<Rightarrow>
        if grid_at reserved row c then (modules, bitIndex)
        else if bitIndex < length codewords * 8
          then (grid_set modules row c (Some (code_bit codewords bitIndex)), bitIndex + 1)
          else (grid_set modules row c (Some False), bitIndex))"

definition place_bits :: "layout \<Rightarrow> nat list \<Rightarrow> bool option grid" where
  "place_bits ly codewords =
     fst (foldl (place_cell (ly_reserved ly) codewords) (ly_base ly, 0) (zigzag (ly_size ly) (ly_size ly - 1) True))"

section \<open>Masks, format and version information\<close>

definition maskFn :: "nat \<Rightarrow> nat \<Rightarrow> nat \<Rightarrow> bool" where
  "maskFn mk r c =
     (if mk = 0 then (r + c) mod 2 = 0
      else if mk = 1 then r mod 2 = 0
      else if mk = 2 then c mod 3 = 0
      else if mk = 3 then (r + c) mod 3 = 0
      else if mk = 4 then (r div 2 + c div 3) mod 2 = 0
      else if mk = 5 then (r * c) mod 2 + (r * c) mod 3 = 0
      else if mk = 6 then ((r * c) mod 2 + (r * c) mod 3) mod 2 = 0
      else ((r + c) mod 2 + (r * c) mod 3) mod 2 = 0)"

function bitLen :: "nat \<Rightarrow> nat" where
  "bitLen n = (if n \<noteq> 0 then 1 + bitLen (drop_bit 1 n) else 0)"
  by auto
termination by (relation "measure id") (auto simp: drop_bit_eq_div)

declare bitLen.simps [simp del]

lemma bitLen_half: "0 < n \<Longrightarrow> bitLen n = Suc (bitLen (n div 2))"
  by (simp add: bitLen.simps[of n] drop_bit_eq_div)

lemma bitLen_0 [simp]: "bitLen 0 = 0"
  by (simp add: bitLen.simps)

lemma bitLen_le: "bitLen n \<le> k \<longleftrightarrow> n < 2 ^ k"
proof (induction n arbitrary: k rule: bitLen.induct)
  case (1 n)
  show ?case
  proof (cases "n = 0")
    case False
    show ?thesis
    proof (cases k)
      case 0
      with False show ?thesis by (simp add: bitLen_half)
    next
      case (Suc j)
      with False 1[of j] show ?thesis by (simp add: bitLen_half drop_bit_eq_div div_less_iff_less_mult mult.commute)
    qed
  qed simp
qed

text \<open>One round of the division by the generator \<open>g\<close> of \<open>k\<close> bits shortens the rest.\<close>

lemma bitLen_top: "bitLen n = Suc k \<Longrightarrow> bit n k"
proof -
  assume "bitLen n = Suc k"
  then have "n < 2 ^ Suc k" "\<not> n < 2 ^ k" using bitLen_le[of n "Suc k"] bitLen_le[of n k] by auto
  then have "n div 2 ^ k = 1" by (simp add: div_nat_eqI)
  then show "bit n k" by (simp add: bit_iff_odd)
qed

lemma reduce_shorter:
  assumes "bitLen g = Suc k" "Suc k \<le> bitLen d"
  shows "bitLen (d XOR push_bit (bitLen d - Suc k) g) < bitLen d"
proof -
  define m where "m = bitLen d - 1"
  have m: "bitLen d = Suc m" "k \<le> m" using assms(2) by (simp_all add: m_def)
  let ?h = "push_bit (m - k) g"
  have "d < 2 ^ Suc m" using bitLen_le[of d "Suc m"] m(1) by simp
  then have d: "\<not> bit d n" if "Suc m \<le> n" for n using less_exp_bits that by blast
  have "g < 2 ^ Suc k" using bitLen_le[of g "Suc k"] assms(1) by simp
  then have g: "\<not> bit g n" if "Suc k \<le> n" for n using less_exp_bits that by blast
  have "\<not> bit (d XOR ?h) n" if n: "m \<le> n" for n
  proof (cases "n = m")
    case True
    have "bit ?h m" using bitLen_top[OF assms(1)] m(2) by (simp add: bit_push_bit_iff)
    with True bitLen_top[OF m(1)] show ?thesis by (simp add: bit_xor_iff)
  next
    case False
    with n m(2) have "Suc m \<le> n" "Suc k \<le> n - (m - k)" by simp_all
    then show ?thesis using d g by (simp add: bit_xor_iff bit_push_bit_iff)
  qed
  then have "d XOR ?h < 2 ^ m" by (simp add: less_exp_bits)
  then show ?thesis using bitLen_le[of "d XOR ?h" m] m by simp
qed

lemma bitLen_generators: "bitLen 0x537 = 11" "bitLen 0x1f25 = 13"
  by (simp_all add: bitLen_half)

function format_rest :: "nat \<Rightarrow> nat" where
  "format_rest d = (if 11 \<le> bitLen d then format_rest (d XOR push_bit (bitLen d - 11) 0x537) else d)"
  by auto
termination
  by (relation "measure bitLen") (use reduce_shorter[of "0x537" 10] bitLen_generators in auto)

function version_rest :: "nat \<Rightarrow> nat" where
  "version_rest d = (if 13 \<le> bitLen d then version_rest (d XOR push_bit (bitLen d - 13) 0x1f25) else d)"
  by auto
termination
  by (relation "measure bitLen") (use reduce_shorter[of "0x1f25" 12] bitLen_generators in auto)

declare format_rest.simps [simp del] version_rest.simps [simp del]

definition bchFormat :: "nat \<Rightarrow> nat" where
  "bchFormat data = (push_bit 10 data OR format_rest (push_bit 10 data)) XOR 0x5412"

definition bchVersion :: "nat \<Rightarrow> nat" where
  "bchVersion version = push_bit 12 version OR version_rest (push_bit 12 version)"

text \<open>The error-correction level M is \<open>00\<close>, so the format data is the mask.\<close>

definition writeFormat :: "bool grid \<Rightarrow> nat \<Rightarrow> nat \<Rightarrow> bool grid" where
  "writeFormat grid mk n =
     (let b = (\<lambda>i. bit (bchFormat (push_bit 3 0 OR mk)) i);
          g1 = foldl (\<lambda>g i. grid_set g 8 i (b i)) grid [0..<6];
          g2 = grid_set (grid_set (grid_set g1 8 7 (b 6)) 8 8 (b 7)) 7 8 (b 8);
          g3 = foldl (\<lambda>g i. grid_set g (14 - i) 8 (b i)) g2 [9..<15];
          g4 = foldl (\<lambda>g i. grid_set g (n - 1 - i) 8 (b i)) g3 [0..<8]
      in foldl (\<lambda>g i. grid_set g 8 (n - 15 + i) (b i)) g4 [8..<15])"

definition writeVersion :: "bool grid \<Rightarrow> nat \<Rightarrow> nat \<Rightarrow> bool grid" where
  "writeVersion grid version n =
     foldl (\<lambda>g i. grid_set (grid_set g (i div 3) (n - 11 + i mod 3) (bit (bchVersion version) i))
              (n - 11 + i mod 3) (i div 3) (bit (bchVersion version) i)) grid [0..<18]"

section \<open>The penalty\<close>

text \<open>Runs in one line: the inner loop that counts a run, and the loop that skips a counted one.\<close>

function run_length :: "nat \<Rightarrow> bool list \<Rightarrow> nat \<Rightarrow> nat \<Rightarrow> nat" where
  "run_length n line c run =
     (if c + run < n \<and> line ! (c + run) = line ! c then run_length n line c (run + 1) else run)"
  by auto
termination by (relation "measure (\<lambda>(n, line, c, run). n - (c + run))") auto

declare run_length.simps [simp del]

function run_penalty :: "nat \<Rightarrow> bool list \<Rightarrow> nat \<Rightarrow> nat" where
  "run_penalty n line c =
     (if c < n
      then let run = run_length n line c 1
           in if 5 \<le> run then 3 + (run - 5) + run_penalty n line (c + run) else run_penalty n line (c + 1)
      else 0)"
  by auto
termination by (relation "measure (\<lambda>(n, line, c). n - c)") auto

declare run_penalty.simps [simp del]

definition column :: "bool grid \<Rightarrow> nat \<Rightarrow> bool list" where
  "column grid c = map (\<lambda>row. row ! c) grid"

definition rule1 :: "bool grid \<Rightarrow> nat \<Rightarrow> nat" where
  "rule1 grid n =
     sum_list (map (\<lambda>r. run_penalty n (grid ! r) 0) [0..<n]) + sum_list (map (\<lambda>c. run_penalty n (column grid c) 0) [0..<n])"

definition rule2 :: "bool grid \<Rightarrow> nat \<Rightarrow> nat" where
  "rule2 grid n =
     sum_list (map (\<lambda>(r, c). let v = grid_at grid r c
         in if grid_at grid r (c + 1) = v \<and> grid_at grid (r + 1) c = v \<and> grid_at grid (r + 1) (c + 1) = v then 3 else 0)
       (List.product [0..<n - 1] [0..<n - 1]))"

definition pat1 :: "bool list" where
  "pat1 = [True, False, True, True, True, False, True, False, False, False, False]"

definition pat2 :: "bool list" where
  "pat2 = [False, False, False, False, True, False, True, True, True, False, True]"

definition matches :: "bool list \<Rightarrow> nat \<Rightarrow> bool list \<Rightarrow> bool" where
  "matches line i pat = list_all (\<lambda>k. line ! (i + k) = pat ! k) [0..<length pat]"

definition line_patterns :: "nat \<Rightarrow> bool list \<Rightarrow> nat" where
  "line_patterns n line = sum_list (map (\<lambda>i. if matches line i pat1 \<or> matches line i pat2 then 40 else 0) [0..<n - 10])"

definition rule3 :: "bool grid \<Rightarrow> nat \<Rightarrow> nat" where
  "rule3 grid n =
     sum_list (map (\<lambda>r. line_patterns n (grid ! r)) [0..<n]) + sum_list (map (\<lambda>c. line_patterns n (column grid c)) [0..<n])"

text \<open>
  The proportion of dark modules in exact fractions. The code computes in floating point; the value is a
  fraction with a denominator of at most \<open>5 * 57 * 57\<close>, far enough from the next integer for the same floor.
\<close>

definition rule4 :: "bool grid \<Rightarrow> nat \<Rightarrow> nat" where
  "rule4 grid n =
     (let dark = sum_list (map (\<lambda>(r, c). if grid_at grid r c then 1 else 0) (List.product [0..<n] [0..<n]));
          ratio = of_nat (dark * 100) / of_nat (n * n) :: rat
      in nat \<lfloor>\<bar>ratio - 50\<bar> / 5\<rfloor> * 10)"

definition scorePenalty :: "bool grid \<Rightarrow> nat \<Rightarrow> nat" where
  "scorePenalty grid n = rule1 grid n + rule2 grid n + rule3 grid n + rule4 grid n"

section \<open>Encoding and decoding\<close>

record qr_matrix =
  qm_size :: nat
  qm_version :: nat
  qm_mask :: nat
  qm_modules :: "bool grid"

definition masked_grid :: "layout \<Rightarrow> bool option grid \<Rightarrow> nat \<Rightarrow> bool grid" where
  "masked_grid ly modules mk =
     map (\<lambda>r. map (\<lambda>c. if grid_at (ly_reserved ly) r c then grid_at modules r c = Some True
                      else (grid_at modules r c = Some True) \<noteq> maskFn mk r c) [0..<length (modules ! r)])
       [0..<length modules]"

definition candidate :: "layout \<Rightarrow> bool option grid \<Rightarrow> nat \<Rightarrow> nat \<Rightarrow> bool grid" where
  "candidate ly modules version mk =
     (let n = ly_size ly; grid = writeFormat (masked_grid ly modules mk) mk n
      in if 7 \<le> version then writeVersion grid version n else grid)"

text \<open>The best candidate so far; \<open>None\<close> is the initial penalty \<open>Infinity\<close>.\<close>

definition better :: "layout \<Rightarrow> bool option grid \<Rightarrow> nat \<Rightarrow> (nat \<times> nat \<times> bool grid) option \<Rightarrow> nat \<Rightarrow> (nat \<times> nat \<times> bool grid) option" where
  "better ly modules version best mk =
     (let grid = candidate ly modules version mk; penalty = scorePenalty grid (ly_size ly)
      in case best of
           None \<Rightarrow> Some (mk, penalty, grid)
         | Some (_, p, _) \<Rightarrow> if penalty < p then Some (mk, penalty, grid) else best)"

definition encodeToMatrix :: "string \<Rightarrow> qr_matrix result" where
  "encodeToMatrix txt =
     (let m = detectMode txt
      in case chooseVersion txt m of
           Inl err \<Rightarrow> Inl err
         | Inr version \<Rightarrow>
             let ly = functionLayout version;
                 modules = place_bits ly (buildCodewords txt m version)
             in case foldl (better ly modules version) None [0..<8] of
                  None \<Rightarrow> Inr \<lparr>qm_size = ly_size ly, qm_version = version, qm_mask = 0, qm_modules = []\<rparr>
                | Some (mk, _, grid) \<Rightarrow> Inr \<lparr>qm_size = ly_size ly, qm_version = version, qm_mask = mk, qm_modules = grid\<rparr>)"

definition read_bits :: "qr_matrix \<Rightarrow> nat list" where
  "read_bits qr =
     concat (map (\<lambda>(row, c).
         if grid_at (ly_reserved (functionLayout (qm_version qr))) row c then []
         else [if grid_at (qm_modules qr) row c \<noteq> maskFn (qm_mask qr) row c then 1 else 0])
       (zigzag (qm_size qr) (qm_size qr - 1) True))"

definition decodeForTest :: "qr_matrix \<Rightarrow> string option" where
  "decodeForTest qr = decode_stream (qm_version qr) (pack_bytes (read_bits qr))"

end
