(* ===== verification/QrLayout.thy ===== *)
theory QrLayout
  imports QrMatrix
begin

text \<open>
  Where the function patterns of the symbol matrix are: the reserved cells as a set, their number, the
  cells of the zig-zag, and what the placement and the format information leave in the cells.
\<close>

section \<open>Reading after writing\<close>

lemma square_set [simp]: "square n (grid_set g r c v) = square n g"
  unfolding square_def grid_set_def by (cases "r < length g") (auto simp: nth_list_update)

lemma grid_at_other: "(r', c') \<noteq> (r, c) \<Longrightarrow> grid_at (grid_set g r c v) r' c' = grid_at g r' c'"
  unfolding grid_set_def by (cases "r < length g"; cases "r' = r") (auto simp: list_update_beyond)

lemma grid_at_same: "square n g \<Longrightarrow> r < n \<Longrightarrow> c < n \<Longrightarrow> grid_at (grid_set g r c v) r c = v"
  by (simp add: grid_set_def square_def)

lemma grid_at_set:
  "square n g \<Longrightarrow> r < n \<Longrightarrow> c < n \<Longrightarrow>
   grid_at (grid_set g r c v) r' c' = (if r' = r \<and> c' = c then v else grid_at g r' c')"
  using grid_at_same[of n g r c v] grid_at_other[of r' c' r c g v] by auto

text \<open>A fold of writes: its frame, and its effect when no cell is written twice.\<close>

lemma fold_frame:
  "\<forall>x \<in> set xs. (f x, h x) \<noteq> (r, c) \<Longrightarrow> grid_at (foldl (\<lambda>g x. grid_set g (f x) (h x) (b x)) g xs) r c = grid_at g r c"
  by (induction xs arbitrary: g) (auto simp: grid_at_other)

lemma fold_square [simp]: "square n (foldl (\<lambda>g x. grid_set g (f x) (h x) (b x)) g xs) = square n g"
  by (induction xs arbitrary: g) simp_all

lemma fold_written:
  assumes "square n g" "distinct xs" "inj_on (\<lambda>x. (f x, h x)) (set xs)" "k \<in> set xs" "f k < n" "h k < n"
  shows "grid_at (foldl (\<lambda>g x. grid_set g (f x) (h x) (b x)) g xs) (f k) (h k) = b k"
  using assms
proof (induction xs arbitrary: g)
  case (Cons x xs)
  show ?case
  proof (cases "k \<in> set xs")
    case True
    with Cons show ?thesis by (simp add: inj_on_def)
  next
    case False
    with Cons.prems have "k = x" by simp
    moreover have "\<forall>y \<in> set xs. (f y, h y) \<noteq> (f x, h x)"
      using Cons.prems(2,3) by (auto simp: inj_on_def)
    ultimately show ?thesis using Cons.prems by (simp add: fold_frame grid_at_same)
  qed
qed simp

section \<open>Marking cells\<close>

definition layout_ok :: "nat \<Rightarrow> layout \<Rightarrow> bool" where
  "layout_ok n ly \<longleftrightarrow> ly_size ly = n \<and> square n (ly_base ly) \<and> square n (ly_reserved ly)"

abbreviation res :: "layout \<Rightarrow> nat \<Rightarrow> nat \<Rightarrow> bool" where
  "res ly r c \<equiv> grid_at (ly_reserved ly) r c"

text \<open>A step that marks exactly the cells of \<open>S\<close>.\<close>

definition marks :: "nat \<Rightarrow> (layout \<Rightarrow> layout) \<Rightarrow> (nat \<times> nat) set \<Rightarrow> bool" where
  "marks n f S \<longleftrightarrow> (\<forall>ly. layout_ok n ly \<longrightarrow> layout_ok n (f ly) \<and>
     (\<forall>r<n. \<forall>c<n. res (f ly) r c \<longleftrightarrow> res ly r c \<or> (r, c) \<in> S))"

lemma marksD:
  "marks n f S \<Longrightarrow> layout_ok n ly \<Longrightarrow> layout_ok n (f ly)"
  "marks n f S \<Longrightarrow> layout_ok n ly \<Longrightarrow> r < n \<Longrightarrow> c < n \<Longrightarrow> res (f ly) r c \<longleftrightarrow> res ly r c \<or> (r, c) \<in> S"
  by (simp_all add: marks_def)

lemma marks_setFn: "r < n \<Longrightarrow> c < n \<Longrightarrow> marks n (\<lambda>ly. setFn ly r c v) {(r, c)}"
  by (auto simp: marks_def layout_ok_def setFn_def grid_at_set split: if_splits)

lemma marks_reserve: "r < n \<Longrightarrow> c < n \<Longrightarrow> marks n (\<lambda>ly. reserve ly r c) {(r, c)}"
  by (auto simp: marks_def layout_ok_def reserve_def grid_at_set split: if_splits)

lemma marks_id: "marks n (\<lambda>ly. ly) {}"
  by (simp add: marks_def)

lemma marks_comp: "marks n f S \<Longrightarrow> marks n g T \<Longrightarrow> marks n (\<lambda>ly. g (f ly)) (S \<union> T)"
  by (auto simp: marks_def)

lemma marks_cong: "marks n f S \<Longrightarrow> S = T \<Longrightarrow> marks n f T"
  by simp

lemma marks_fold: "(\<And>x. x \<in> set xs \<Longrightarrow> marks n (\<lambda>ly. f ly x) (S x)) \<Longrightarrow> marks n (\<lambda>ly. foldl f ly xs) (\<Union>x \<in> set xs. S x)"
proof (induction xs)
  case Nil
  show ?case using marks_id by simp
next
  case (Cons x xs)
  have "marks n (\<lambda>ly. foldl f (f ly x) xs) (S x \<union> (\<Union>x \<in> set xs. S x))"
    using Cons by (intro marks_comp[of n "\<lambda>ly. f ly x"]) simp_all
  then show ?case by simp
qed

section \<open>The cells of each pattern\<close>

definition window :: "nat \<Rightarrow> nat \<Rightarrow> nat \<Rightarrow> (nat \<times> nat) set" where
  "window n r0 c0 = {(r, c). r < n \<and> c < n \<and> r0 \<le> r + 1 \<and> r \<le> r0 + 7 \<and> c0 \<le> c + 1 \<and> c \<le> c0 + 7}"

lemma marks_finder: "marks n (placeFinder r0 c0) (window n r0 c0)"
proof -
  define S where "S = (\<lambda>(r, c). let rr = int r0 + r; cc = int c0 + c in
      if rr < 0 \<or> int n \<le> rr \<or> cc < 0 \<or> int n \<le> cc then {} else {(nat rr, nat cc)})"
  have "marks n (\<lambda>ly. finder_cell r0 c0 ly x) (S x)" for x
  proof -
    obtain r c where x: "x = (r, c)" by force
    show ?thesis
    proof (cases "int r0 + r < 0 \<or> int n \<le> int r0 + r \<or> int c0 + c < 0 \<or> int n \<le> int c0 + c")
      case True
      then show ?thesis by (auto simp: marks_def layout_ok_def finder_cell_def S_def x Let_def)
    next
      case False
      then have "marks n (\<lambda>ly. setFn ly (nat (int r0 + r)) (nat (int c0 + c)) (inRing r c)) (S x)"
        by (auto simp: S_def x Let_def intro!: marks_setFn)
      with False show ?thesis by (auto simp: marks_def layout_ok_def finder_cell_def x Let_def)
    qed
  qed
  then have "marks n (placeFinder r0 c0) (\<Union>x \<in> set (List.product [-1..7] [-1..7]). S x)"
    unfolding placeFinder_def[abs_def] by (intro marks_fold)
  moreover have "(\<Union>x \<in> set (List.product [-1..7] [-1..7]). S x) = window n r0 c0"
  proof (rule set_eqI)
    fix p :: "nat \<times> nat"
    obtain a b where p: "p = (a, b)" by force
    show "p \<in> (\<Union>x \<in> set (List.product [-1..7] [-1..7]). S x) \<longleftrightarrow> p \<in> window n r0 c0"
    proof
      assume "p \<in> window n r0 c0"
      then have "(int a - int r0, int b - int c0) \<in> set (List.product [-1..7] [-1..7])"
        "p \<in> S (int a - int r0, int b - int c0)"
        by (auto simp: window_def S_def p)
      then show "p \<in> (\<Union>x \<in> set (List.product [-1..7] [-1..7]). S x)" by blast
    qed (auto simp: window_def S_def p Let_def split: if_splits)
  qed
  ultimately show ?thesis by simp
qed

definition timing_cells :: "nat \<Rightarrow> (nat \<times> nat) set" where
  "timing_cells n = (\<Union>i \<in> {8..<n - 8}. {(6, i), (i, 6)})"

lemma marks_timing: "marks n (\<lambda>ly. foldl timing_cell ly [8..<n - 8]) (timing_cells n)"
proof -
  have "marks n (\<lambda>ly. timing_cell ly i) {(6, i), (i, 6)}" if "i \<in> set [8..<n - 8]" for i
    unfolding timing_cell_def using that
    by (intro marks_cong[OF marks_comp[OF marks_setFn marks_setFn]]) auto
  then show ?thesis unfolding timing_cells_def by (intro marks_cong[OF marks_fold]) auto
qed

definition format_cells :: "nat \<Rightarrow> (nat \<times> nat) set" where
  "format_cells n = (\<Union>i \<in> {0..<9}. {(8, i), (i, 8)}) \<union> (\<Union>i \<in> {0..<8}. {(8, n - 1 - i), (n - 1 - i, 8)})"

lemma marks_format: "21 \<le> n \<Longrightarrow> marks n reserve_format (format_cells n)"
proof -
  assume n: "21 \<le> n"
  define h where "h m ly = foldl (\<lambda>ly i. reserve (reserve ly 8 (m - 1 - i)) (m - 1 - i) 8)
      (foldl (\<lambda>ly i. reserve (reserve ly 8 i) i 8) ly [0..<9]) [0..<8]" for m ly
  have "marks n (\<lambda>ly. reserve (reserve ly 8 i) i 8) {(8, i), (i, 8)}" if "i \<in> set [0..<9]" for i
    using that n by (intro marks_cong[OF marks_comp[OF marks_reserve marks_reserve]]) auto
  moreover have "marks n (\<lambda>ly. reserve (reserve ly 8 (n - 1 - i)) (n - 1 - i) 8) {(8, n - 1 - i), (n - 1 - i, 8)}"
    if "i \<in> set [0..<8]" for i
    using that n by (intro marks_cong[OF marks_comp[OF marks_reserve marks_reserve]]) auto
  ultimately have "marks n (h n) (format_cells n)"
    unfolding h_def[abs_def] format_cells_def by (intro marks_cong[OF marks_comp[OF marks_fold marks_fold]]) auto
  moreover have "reserve_format ly = h n ly" if "layout_ok n ly" for ly
    using that by (simp add: reserve_format_def h_def Let_def layout_ok_def)
  ultimately show ?thesis by (simp add: marks_def)
qed

definition version_cells :: "nat \<Rightarrow> (nat \<times> nat) set" where
  "version_cells n = (\<Union>(i, j) \<in> {0..<6} \<times> {0..<3}. {(i, n - 11 + j), (n - 11 + j, i)})"

lemma marks_version: "21 \<le> n \<Longrightarrow> marks n reserve_version (version_cells n)"
proof -
  assume n: "21 \<le> n"
  define h where "h m ly = foldl (\<lambda>ly (i, j). reserve (reserve ly i (m - 11 + j)) (m - 11 + j) i) ly
      (List.product [0..<6] [0..<3])" for m ly
  have "marks n (\<lambda>ly. case x of (i, j) \<Rightarrow> reserve (reserve ly i (n - 11 + j)) (n - 11 + j) i)
      (case x of (i, j) \<Rightarrow> {(i, n - 11 + j), (n - 11 + j, i)})" if "x \<in> set (List.product [0..<6] [0..<3])" for x
  proof -
    obtain i j where x: "x = (i, j)" by force
    with that n have "i < n" "n - 11 + j < n" by auto
    then show ?thesis unfolding x prod.case
      by (intro marks_cong[OF marks_comp[OF marks_reserve marks_reserve]]) auto
  qed
  then have "marks n (h n) (version_cells n)"
    unfolding h_def[abs_def] version_cells_def by (intro marks_cong[OF marks_fold]) auto
  moreover have "reserve_version ly = h n ly" if "layout_ok n ly" for ly
    using that by (simp add: reserve_version_def h_def Let_def layout_ok_def)
  ultimately show ?thesis by (simp add: marks_def)
qed

definition align_block :: "nat \<times> nat \<Rightarrow> (nat \<times> nat) set" where
  "align_block rc = {fst rc - 2..fst rc + 2} \<times> {snd rc - 2..snd rc + 2}"

lemma marks_align:
  assumes "2 \<le> r" "r + 2 < n" "2 \<le> c" "c + 2 < n"
  shows "marks n (\<lambda>ly. foldl (align_cell r c) ly (List.product [-2..2] [-2..2])) (align_block (r, c))"
proof -
  define S where "S = (\<lambda>(dr, dc). {(nat (int r + dr), nat (int c + dc))})"
  have "marks n (\<lambda>ly. align_cell r c ly x) (S x)" if "x \<in> set (List.product [-2..2] [-2..2])" for x
  proof -
    obtain dr dc where x: "x = (dr, dc)" by force
    with that assms have "nat (int r + dr) < n" "nat (int c + dc) < n" by auto
    then show ?thesis unfolding align_cell_def S_def x prod.case by (rule marks_setFn)
  qed
  then have "marks n (\<lambda>ly. foldl (align_cell r c) ly (List.product [-2..2] [-2..2]))
      (\<Union>x \<in> set (List.product [-2..2] [-2..2]). S x)" by (intro marks_fold)
  moreover have "(\<Union>x \<in> set (List.product [-2..2] [-2..2]). S x) = align_block (r, c)"
  proof (rule set_eqI)
    fix p :: "nat \<times> nat"
    obtain a b where p: "p = (a, b)" by force
    show "p \<in> (\<Union>x \<in> set (List.product [-2..2] [-2..2]). S x) \<longleftrightarrow> p \<in> align_block (r, c)"
    proof
      assume "p \<in> align_block (r, c)"
      then have "(int a - int r, int b - int c) \<in> set (List.product [-2..2] [-2..2])"
        "p \<in> S (int a - int r, int b - int c)"
        using assms by (auto simp: align_block_def S_def p)
      then show "p \<in> (\<Union>x \<in> set (List.product [-2..2] [-2..2]). S x)" by blast
    qed (use assms in \<open>auto simp: align_block_def S_def p\<close>)
  qed
  ultimately show ?thesis by simp
qed

section \<open>The reserved cells of a version\<close>

lemma timing_cells_iff: "(r, c) \<in> timing_cells n \<longleftrightarrow> (r = 6 \<and> 8 \<le> c \<and> c < n - 8) \<or> (c = 6 \<and> 8 \<le> r \<and> r < n - 8)"
  by (auto simp: timing_cells_def)

lemma format_cells_iff:
  "21 \<le> n \<Longrightarrow> (r, c) \<in> format_cells n \<longleftrightarrow>
     (r = 8 \<and> (c \<le> 8 \<or> n - 8 \<le> c \<and> c < n)) \<or> (c = 8 \<and> (r \<le> 8 \<or> n - 8 \<le> r \<and> r < n))"
proof -
  assume n: "21 \<le> n"
  have last8: "(\<exists>i<8. x = n - Suc i) \<longleftrightarrow> n - 8 \<le> x \<and> x < n" for x
  proof
    assume "n - 8 \<le> x \<and> x < n"
    with n show "\<exists>i<8. x = n - Suc i" by (intro exI[of _ "n - Suc x"]) auto
  qed (use n in auto)
  have "(r, c) \<in> format_cells n \<longleftrightarrow> (r = 8 \<and> c < 9) \<or> (c = 8 \<and> r < 9) \<or>
      (r = 8 \<and> (\<exists>i<8. c = n - Suc i)) \<or> (c = 8 \<and> (\<exists>i<8. r = n - Suc i))"
    by (auto simp: format_cells_def)
  then show ?thesis unfolding last8 by auto
qed

definition frame_cells :: "nat \<Rightarrow> (nat \<times> nat) set" where
  "frame_cells n = window n 0 0 \<union> window n 0 (n - 7) \<union> window n (n - 7) 0 \<union> timing_cells n"

definition info_cells :: "nat \<Rightarrow> (nat \<times> nat) set" where
  "info_cells v = format_cells (qr_size v) \<union> (if 7 \<le> v then version_cells (qr_size v) else {})"

definition align_cells :: "nat \<Rightarrow> (nat \<times> nat) set" where
  "align_cells v = \<Union> (align_block ` (set (align_centres v) \<times> set (align_centres v) - frame_cells (qr_size v)))"

lemma empty_layout_ok: "layout_ok n (empty_layout n)" "r < n \<Longrightarrow> c < n \<Longrightarrow> \<not> res (empty_layout n) r c"
  by (simp_all add: layout_ok_def empty_layout_def square_def)

lemma frame_res:
  assumes "n = qr_size v"
  shows "layout_ok n (frame_layout v)" "r < n \<Longrightarrow> c < n \<Longrightarrow> res (frame_layout v) r c \<longleftrightarrow> (r, c) \<in> frame_cells n"
proof -
  have "marks n (\<lambda>ly. foldl timing_cell (placeFinder (n - 7) 0 (placeFinder 0 (n - 7) (placeFinder 0 0 ly))) [8..<n - 8])
      (((window n 0 0 \<union> window n 0 (n - 7)) \<union> window n (n - 7) 0) \<union> timing_cells n)"
    by (rule marks_comp[OF marks_comp[OF marks_comp[OF marks_finder marks_finder] marks_finder] marks_timing])
  note m = marksD[OF this empty_layout_ok(1)]
  show "layout_ok n (frame_layout v)" using m(1) by (simp add: frame_layout_def Let_def assms)
  show "res (frame_layout v) r c \<longleftrightarrow> (r, c) \<in> frame_cells n" if "r < n" "c < n"
    using m(2)[OF that] empty_layout_ok(2)[OF that] that by (simp add: frame_layout_def Let_def assms frame_cells_def)
qed

text \<open>An alignment pattern is placed unless its centre is reserved already.\<close>

lemma align_fold:
  assumes "layout_ok n ly" "\<forall>(r, c) \<in> R. r < n \<and> c < n \<longrightarrow> res ly r c"
    "\<forall>(r, c) \<in> set xs. 2 \<le> r \<and> r + 2 < n \<and> 2 \<le> c \<and> c + 2 < n"
  shows "layout_ok n (foldl placeAlignment ly xs) \<and>
    (\<forall>r<n. \<forall>c<n. (res ly r c \<longrightarrow> res (foldl placeAlignment ly xs) r c) \<and>
       (res (foldl placeAlignment ly xs) r c \<longrightarrow> res ly r c \<or> (r, c) \<in> \<Union> (align_block ` (set xs - R))))"
  using assms
proof (induction xs arbitrary: ly)
  case (Cons x xs)
  obtain r c where x: "x = (r, c)" by force
  with Cons.prems have rc: "2 \<le> r" "r + 2 < n" "2 \<le> c" "c + 2 < n" by auto
  show ?case
  proof (cases "res ly r c")
    case True
    then have "placeAlignment ly x = ly" by (simp add: placeAlignment_def x)
    with Cons.IH[OF Cons.prems(1,2)] Cons.prems(3) show ?thesis by auto
  next
    case False
    then have nR: "x \<notin> R" using Cons.prems(2) rc x by fastforce
    from False have p: "placeAlignment ly x = foldl (align_cell r c) ly (List.product [-2..2] [-2..2])"
      by (simp add: placeAlignment_def x)
    note m = marksD[OF marks_align[OF rc] Cons.prems(1), folded p]
    have "\<forall>(r, c) \<in> R. r < n \<and> c < n \<longrightarrow> res (placeAlignment ly x) r c"
      using Cons.prems(2) m(2) by fastforce
    from Cons.IH[OF m(1) this] Cons.prems(3)
    have IH: "layout_ok n (foldl placeAlignment (placeAlignment ly x) xs)"
      "\<And>r c. r < n \<Longrightarrow> c < n \<Longrightarrow> (res (placeAlignment ly x) r c \<longrightarrow> res (foldl placeAlignment (placeAlignment ly x) xs) r c) \<and>
        (res (foldl placeAlignment (placeAlignment ly x) xs) r c \<longrightarrow>
          res (placeAlignment ly x) r c \<or> (r, c) \<in> \<Union> (align_block ` (set xs - R)))"
      by auto
    have "\<Union> (align_block ` (set (x # xs) - R)) = align_block (r, c) \<union> \<Union> (align_block ` (set xs - R))"
      using nR x by auto
    with IH m(2) show ?thesis by auto
  qed
qed simp

lemma qr_size_versions: "v \<in> set versions \<Longrightarrow> 21 \<le> qr_size v \<and> qr_size v \<le> 57"
  by (auto simp: versions_def qr_size_def)

lemma align_centres_range:
  "v \<in> set versions \<Longrightarrow> c \<in> set (align_centres v) \<Longrightarrow> 2 \<le> c \<and> c + 2 < qr_size v"
proof -
  have "list_all (\<lambda>v. list_all (\<lambda>c. 2 \<le> c \<and> c + 2 < qr_size v) (align_centres v)) versions"
    by (simp add: versions_def align_centres_def ALIGN_def qr_size_def)
  then show "v \<in> set versions \<Longrightarrow> c \<in> set (align_centres v) \<Longrightarrow> 2 \<le> c \<and> c + 2 < qr_size v"
    by (auto simp: list_all_iff)
qed

lemma function_res:
  assumes v: "v \<in> set versions" and n: "n = qr_size v"
  shows "layout_ok n (functionLayout v)"
    "r < n \<Longrightarrow> c < n \<Longrightarrow> (r, c) \<in> frame_cells n \<union> info_cells v \<Longrightarrow> res (functionLayout v) r c"
    "r < n \<Longrightarrow> c < n \<Longrightarrow> res (functionLayout v) r c \<Longrightarrow> (r, c) \<in> frame_cells n \<union> info_cells v \<union> align_cells v"
proof -
  have n21: "21 \<le> n" using qr_size_versions[OF v] n by simp
  let ?cs = "align_centres v"
  define ly2 where "ly2 = foldl placeAlignment (frame_layout v) (List.product ?cs ?cs)"
  define ly4 where "ly4 = reserve_format (setFn ly2 (n - 8) 8 True)"
  have "\<forall>(r, c) \<in> set (List.product ?cs ?cs). 2 \<le> r \<and> r + 2 < n \<and> 2 \<le> c \<and> c + 2 < n"
    using align_centres_range[OF v] n by auto
  from align_fold[OF frame_res(1)[OF n] _ this, of "frame_cells n"] frame_res(2)[OF n]
  have ly2: "layout_ok n ly2" "\<And>r c. r < n \<Longrightarrow> c < n \<Longrightarrow> (r, c) \<in> frame_cells n \<Longrightarrow> res ly2 r c"
    "\<And>r c. r < n \<Longrightarrow> c < n \<Longrightarrow> res ly2 r c \<Longrightarrow> (r, c) \<in> frame_cells n \<union> align_cells v"
    unfolding ly2_def align_cells_def n[symmetric] by auto
  have "marks n (\<lambda>ly. reserve_format (setFn ly (n - 8) 8 True)) ({(n - 8, 8)} \<union> format_cells n)"
    using n21 by (intro marks_comp marks_setFn marks_format) simp_all
  moreover have "{(n - 8, 8)} \<union> format_cells n = format_cells n" using n21 by (auto simp: format_cells_iff)
  ultimately have "marks n (\<lambda>ly. reserve_format (setFn ly (n - 8) 8 True)) (format_cells n)" by simp
  note ly4 = marksD[OF this ly2(1), folded ly4_def]
  have f: "functionLayout v = (if 7 \<le> v then reserve_version ly4 else ly4)"
    by (simp add: functionLayout_def Let_def ly4_def ly2_def n)
  note ly5 = marksD[OF marks_version[OF n21] ly4(1)]
  show "layout_ok n (functionLayout v)" using ly4(1) ly5(1) by (simp add: f)
  have res: "res (functionLayout v) r c \<longleftrightarrow> res ly2 r c \<or> (r, c) \<in> info_cells v" if "r < n" "c < n" for r c
    using ly4(2)[OF that] ly5(2)[OF that] by (auto simp: f info_cells_def n[symmetric])
  show "res (functionLayout v) r c" if "r < n" "c < n" "(r, c) \<in> frame_cells n \<union> info_cells v"
    using res[OF that(1,2)] ly2(2)[OF that(1,2)] that(3) by auto
  show "(r, c) \<in> frame_cells n \<union> info_cells v \<union> align_cells v" if "r < n" "c < n" "res (functionLayout v) r c"
    using res[OF that(1,2)] ly2(3)[OF that(1,2)] that(3) by auto
qed

section \<open>The number of free cells\<close>

lemma align_free:
  assumes "v \<in> set versions"
  shows "card (set (align_centres v) \<times> set (align_centres v) - frame_cells (qr_size v)) \<le>
    (if v = 1 then 0 else if v < 7 then 1 else 4)"
proof -
  have "list_all (\<lambda>v. card (set (align_centres v) \<times> set (align_centres v) - frame_cells (qr_size v)) \<le>
      (if v = 1 then 0 else if v < 7 then 1 else 4)) versions"
    by (simp add: versions_def align_centres_def ALIGN_def qr_size_def frame_cells_def window_def timing_cells_iff
        insert_Times_insert insert_Diff_if)
  with assms show ?thesis by (simp add: list_all_iff)
qed

lemma version_cells_card: "card (version_cells n) \<le> 36 \<and> finite (version_cells n)"
proof -
  let ?P = "{0..<6} \<times> {0..<3} :: (nat \<times> nat) set"
  have eq: "version_cells n = (\<lambda>(i, j). (i, n - 11 + j)) ` ?P \<union> (\<lambda>(i, j). (n - 11 + j, i)) ` ?P"
    by (auto simp: version_cells_def)
  have "card (version_cells n) \<le> card ?P + card ?P"
    unfolding eq by (intro card_Un_le[THEN le_trans] add_mono card_image_le) simp_all
  then show ?thesis by (simp add: eq)
qed

lemma align_cells_card:
  assumes "v \<in> set versions"
  shows "card (align_cells v) \<le> 25 * (if v = 1 then 0 else if v < 7 then 1 else 4) \<and> finite (align_cells v)"
proof -
  let ?C = "set (align_centres v) \<times> set (align_centres v) - frame_cells (qr_size v)"
  have fin: "finite ?C" by simp
  have block: "card (align_block x) \<le> 25" "finite (align_block x)" for x
    using mult_le_mono[of "card {fst x - 2..fst x + 2}" 5 "card {snd x - 2..snd x + 2}" 5]
    by (simp_all add: align_block_def card_cartesian_product)
  have "card (align_cells v) \<le> (\<Sum>x \<in> ?C. card (align_block x))"
    unfolding align_cells_def by (rule card_UN_le[OF fin])
  also have "\<dots> \<le> (\<Sum>x \<in> ?C. 25)" using block by (intro sum_mono) simp
  also have "\<dots> = 25 * card ?C" by simp
  finally show ?thesis using align_free[OF assms] fin block by (simp add: align_cells_def)
qed

definition corner_cells :: "nat \<Rightarrow> (nat \<times> nat) set" where
  "corner_cells n = {..<9} \<times> {..<9} \<union> {..<9} \<times> {n - 8..<n} \<union> {n - 8..<n} \<times> {..<9} \<union>
     {6} \<times> {9..<n - 8} \<union> {9..<n - 8} \<times> {6}"

lemma corner_cells_card: "21 \<le> n \<Longrightarrow> card (corner_cells n) \<le> 225 + 2 * (n - 17)"
  unfolding corner_cells_def
  by (rule card_Un_le[THEN le_trans], rule add_mono[THEN le_trans], rule card_Un_le[THEN le_trans], rule add_mono,
      rule card_Un_le[THEN le_trans], rule add_mono, rule card_Un_le, (rule order_refl)+) (simp_all add: card_cartesian_product)

lemma frame_format_corner: "21 \<le> n \<Longrightarrow> frame_cells n \<union> format_cells n \<subseteq> corner_cells n"
  by (auto simp: frame_cells_def window_def timing_cells_iff format_cells_iff corner_cells_def)

definition reserved_cells :: "nat \<Rightarrow> (nat \<times> nat) set" where
  "reserved_cells v = {(r, c). r < qr_size v \<and> c < qr_size v \<and> res (functionLayout v) r c}"

lemma reserved_cells_card:
  assumes "v \<in> set versions"
  shows "card (reserved_cells v) \<le>
    225 + 8 * v + 25 * (if v = 1 then 0 else if v < 7 then 1 else 4) + (if 7 \<le> v then 36 else 0)"
proof -
  let ?n = "qr_size v" and ?V = "if 7 \<le> v then version_cells (qr_size v) else {}"
  have n: "21 \<le> ?n" using qr_size_versions[OF assms] by simp
  have "info_cells v = format_cells ?n \<union> ?V" by (simp add: info_cells_def)
  then have sub: "reserved_cells v \<subseteq> corner_cells ?n \<union> align_cells v \<union> ?V"
    using function_res(3)[OF assms refl] frame_format_corner[OF n] unfolding reserved_cells_def by blast
  have fin: "finite (corner_cells ?n \<union> align_cells v \<union> ?V)"
    using align_cells_card[OF assms] version_cells_card by (simp add: corner_cells_def)
  have "card (corner_cells ?n \<union> align_cells v \<union> ?V) \<le> card (corner_cells ?n) + card (align_cells v) + card ?V"
    using card_Un_le[of "corner_cells ?n \<union> align_cells v" ?V] card_Un_le[of "corner_cells ?n" "align_cells v"] by simp
  moreover have "card ?V \<le> (if 7 \<le> v then 36 else 0)" using version_cells_card by simp
  moreover have "card (corner_cells ?n) \<le> 225 + 8 * v" using corner_cells_card[OF n] by (simp add: qr_size_def)
  ultimately show ?thesis using card_mono[OF fin sub] align_cells_card[OF assms] by linarith
qed

section \<open>The zig-zag visits every cell once\<close>

definition zig_column :: "nat \<Rightarrow> bool" where
  "zig_column col \<longleftrightarrow> (even col \<and> 6 \<le> col) \<or> (odd col \<and> col \<le> 5)"

lemma column_pair_facts:
  assumes "0 < col"
  shows "set (column_pair n col up) = {..<n} \<times> {col - 1, col}" "distinct (column_pair n col up)"
proof -
  define f where "f i = (if up then n - 1 - i else i)" for i
  have inj: "inj_on f {..<n}" by (auto simp: f_def inj_on_def)
  have img: "f ` {..<n} = {..<n}" using inj by (intro endo_inj_surj) (auto simp: f_def)
  have eq: "column_pair n col up = concat (map (\<lambda>i. [(f i, col), (f i, col - 1)]) [0..<n])"
    by (simp add: column_pair_def f_def Let_def)
  have "set (column_pair n col up) = f ` {..<n} \<times> {col - 1, col}" by (auto simp: eq)
  then show "set (column_pair n col up) = {..<n} \<times> {col - 1, col}" by (simp only: img)
  have "distinct (concat (map (\<lambda>i. [(f i, col), (f i, col - 1)]) [0..<m]))" if "m \<le> n" for m
    using that
  proof (induction m)
    case (Suc m)
    have "f m \<noteq> f i" if "i < m" for i using inj_onD[OF inj, of m i] Suc.prems that by auto
    with Suc assms show ?case by auto
  qed simp
  then show "distinct (column_pair n col up)" by (simp add: eq)
qed

lemma zigzag_facts:
  "zig_column col \<or> col = 0 \<Longrightarrow>
   set (zigzag n col up) = (if col = 0 then {} else {..<n} \<times> ({..col} - {6})) \<and> distinct (zigzag n col up)"
proof (induction n col up rule: zigzag.induct)
  case (1 n col up)
  show ?case
  proof (cases "col = 0")
    case True
    then show ?thesis by (simp add: zigzag.simps)
  next
    case False
    define col1 where "col1 = (if col = 6 then col - 1 else col)"
    have z: "zigzag n col up = column_pair n col1 up @ zigzag n (col1 - 2) (\<not> up)"
      using False by (simp add: zigzag.simps[of n col] col1_def)
    have next_col: "zig_column (col1 - 2) \<or> col1 - 2 = 0" "0 < col1"
      using 1(2) False by (auto simp: zig_column_def col1_def)
    have IH: "set (zigzag n (col1 - 2) (\<not> up)) = (if col1 - 2 = 0 then {} else {..<n} \<times> ({..col1 - 2} - {6}))"
      "distinct (zigzag n (col1 - 2) (\<not> up))"
      using 1(1)[OF _ col1_def] next_col(1) False by simp_all
    have cols: "(if col1 - 2 = 0 then {} else {..col1 - 2} - {6}) \<union> {col1 - 1, col1} = {..col} - {6}"
    proof -
      have "col = 1 \<or> col = 3 \<or> col = 5 \<or> (even col \<and> 6 \<le> col)"
        using 1(2) False unfolding zig_column_def by presburger
      then show ?thesis by (elim disjE) (auto simp: col1_def)
    qed
    have "set (zigzag n col up) = {..<n} \<times> ((if col1 - 2 = 0 then {} else {..col1 - 2} - {6}) \<union> {col1 - 1, col1})"
      using IH(1) by (auto simp: z column_pair_facts(1)[OF next_col(2)])
    moreover have "distinct (zigzag n col up)"
    proof -
      have "set (column_pair n col1 up) \<inter> set (zigzag n (col1 - 2) (\<not> up)) = {}"
        unfolding IH(1) column_pair_facts(1)[OF next_col(2)] by (cases "col1 - 2 = 0") auto
      then show ?thesis by (simp only: z distinct_append IH(2) column_pair_facts(2)[OF next_col(2)] simp_thms)
    qed
    ultimately show ?thesis using False by (simp only: cols if_False simp_thms)
  qed
qed

lemma zigzag_cells:
  assumes "v \<in> set versions" "n = qr_size v"
  shows "set (zigzag n (n - 1) True) = {..<n} \<times> ({..<n} - {6})" "distinct (zigzag n (n - 1) True)"
proof -
  have n: "21 \<le> n" "odd n" using qr_size_versions[OF assms(1)] by (auto simp: assms(2) qr_size_def)
  then have "zig_column (n - 1)" by (simp add: zig_column_def)
  moreover have "{..n - 1} = {..<n}" "n - 1 \<noteq> 0" using n by auto
  ultimately show "set (zigzag n (n - 1) True) = {..<n} \<times> ({..<n} - {6})" "distinct (zigzag n (n - 1) True)"
    using zigzag_facts[of "n - 1" n True] by (simp_all del: One_nat_def)
qed

text \<open>The free cells in the order of the zig-zag; there are enough for the codewords of the version.\<close>

definition free_cells :: "nat \<Rightarrow> (nat \<times> nat) list" where
  "free_cells v = filter (\<lambda>(r, c). \<not> res (functionLayout v) r c) (zigzag (qr_size v) (qr_size v - 1) True)"

definition total_codewords :: "nat \<Rightarrow> nat" where
  "total_codewords v = totalDataCodewords v + ec_per_block v * length (block_sizes v)"

lemma timing_column_reserved:
  assumes "v \<in> set versions" "r < qr_size v"
  shows "res (functionLayout v) r 6"
proof -
  have n: "21 \<le> qr_size v" using qr_size_versions[OF assms(1)] by simp
  have "(r, 6) \<in> frame_cells (qr_size v)"
    using n assms(2) by (auto simp: frame_cells_def window_def timing_cells_iff)
  then show ?thesis using function_res(2)[OF assms(1) refl assms(2), of 6] n by simp
qed

lemma free_cells_enough:
  assumes v: "v \<in> set versions"
  shows "total_codewords v * 8 \<le> length (free_cells v)"
proof -
  let ?n = "qr_size v"
  have sub: "reserved_cells v \<subseteq> {..<?n} \<times> {..<?n}" by (auto simp: reserved_cells_def)
  have "set (free_cells v) = {..<?n} \<times> {..<?n} - reserved_cells v"
    using timing_column_reserved[OF v]
    by (auto simp: free_cells_def zigzag_cells[OF v refl] reserved_cells_def simp del: One_nat_def)
  moreover have "distinct (free_cells v)" by (simp add: free_cells_def zigzag_cells[OF v refl] del: One_nat_def)
  ultimately have "length (free_cells v) = ?n * ?n - card (reserved_cells v)"
    using sub card_Diff_subset[of "reserved_cells v" "{..<?n} \<times> {..<?n}"]
    by (metis card_cartesian_product card_lessThan distinct_card finite_SigmaI finite_lessThan finite_subset)
  moreover have "list_all (\<lambda>v. total_codewords v * 8 + (225 + 8 * v + 25 * (if v = 1 then 0 else if v < 7 then 1 else 4) +
      (if 7 \<le> v then 36 else 0)) \<le> qr_size v * qr_size v) versions"
    by (simp add: version_table total_codewords_def qr_size_def)
  ultimately show ?thesis using reserved_cells_card[OF v] v by (fastforce simp: list_all_iff)
qed

end
