(* ===== verification/QrCode.thy ===== *)
theory QrCode
  imports QrLayout
begin

text \<open>
  The encoder as a whole: what the placement leaves in the cells, the mask that is chosen, the round trip
  through the companion decoder, and where the symbol departs from ISO/IEC 18004.
\<close>

section \<open>The placement\<close>

lemma place_fold:
  assumes "square n modules" "distinct cells" "set cells \<subseteq> {..<n} \<times> {..<n}" "k \<le> length cws * 8"
    "U = filter (\<lambda>(r, c). \<not> grid_at reserved r c) cells" "m' = fst (foldl (place_cell reserved cws) (modules, k) cells)"
  shows "square n m' \<and>
    map (\<lambda>(r, c). grid_at m' r c) U = map (\<lambda>j. Some (k + j < length cws * 8 \<and> code_bit cws (k + j))) [0..<length U] \<and>
    (\<forall>r c. (r, c) \<notin> set U \<longrightarrow> grid_at m' r c = grid_at modules r c)"
  using assms
proof (induction cells arbitrary: modules k U)
  case (Cons x cells)
  obtain r c where x: "x = (r, c)" by force
  show ?case
  proof (cases "grid_at reserved r c")
    case True
    with Cons.IH[of modules k U] Cons.prems show ?thesis by (simp add: x place_cell_def)
  next
    case False
    define V where "V = filter (\<lambda>(r, c). \<not> grid_at reserved r c) cells"
    define b where "b \<longleftrightarrow> k < length cws * 8 \<and> code_bit cws k"
    define k1 where "k1 = (if k < length cws * 8 then k + 1 else k)"
    define m1 where "m1 = grid_set modules r c (Some b)"
    have U: "U = (r, c) # V" using Cons.prems(5) False by (simp add: x V_def)
    have step: "place_cell reserved cws (modules, k) x = (m1, k1)"
      using False by (simp add: x place_cell_def m1_def k1_def b_def)
    have rc: "r < n" "c < n" "x \<notin> set V" using Cons.prems(2,3) x by (auto simp: V_def)
    have IH: "square n m'" "map (\<lambda>(r, c). grid_at m' r c) V =
        map (\<lambda>j. Some (k1 + j < length cws * 8 \<and> code_bit cws (k1 + j))) [0..<length V]"
      "\<And>r c. (r, c) \<notin> set V \<Longrightarrow> grid_at m' r c = grid_at m1 r c"
      using Cons.IH[of m1 k1 V] Cons.prems step by (auto simp: m1_def k1_def V_def)
    have "grid_at m' r c = Some b"
      using IH(3)[of r c] rc x Cons.prems(1) by (simp add: m1_def grid_at_same)
    moreover have "k1 + j < length cws * 8 \<and> code_bit cws (k1 + j) \<longleftrightarrow>
        k + Suc j < length cws * 8 \<and> code_bit cws (k + Suc j)" for j
      using Cons.prems(4) by (auto simp: k1_def)
    moreover have "[0..<length U] = 0 # map Suc [0..<length V]"
      by (simp add: U map_Suc_upt upt_conv_Cons del: upt_Suc)
    ultimately have "map (\<lambda>(r, c). grid_at m' r c) U =
        map (\<lambda>j. Some (k + j < length cws * 8 \<and> code_bit cws (k + j))) [0..<length U]"
      using IH(2) by (simp add: U b_def comp_def del: upt_Suc)
    moreover have "grid_at m' r' c' = grid_at modules r' c'" if "(r', c') \<notin> set U" for r' c'
      using IH(3)[of r' c'] that by (auto simp: U m1_def grid_at_other)
    ultimately show ?thesis using IH(1) by blast
  qed
qed simp

text \<open>The bit the code reads out of the codewords.\<close>

lemma and_7: "(i :: nat) AND 7 = i mod 8"
  using take_bit_eq_mask[of 3 i] by (simp add: take_bit_eq_mod mask_numeral)

lemma bits_of_nth: "j < 8 \<Longrightarrow> bits_of v 8 ! j = drop_bit (7 - j) v AND 1"
  by (simp add: bits_of_def rev_nth)

lemma all_bits_nth:
  "i < 8 * length cws \<Longrightarrow> all_bits cws ! i = drop_bit (7 - i mod 8) (cws ! (i div 8)) AND 1"
proof (induction cws arbitrary: i)
  case (Cons c cws)
  show ?case
  proof (cases "i < 8")
    case True
    then show ?thesis by (simp add: nth_append bits_of_nth)
  next
    case False
    then obtain j where j: "i = 8 + j" by (metis le_Suc_ex not_less)
    with Cons.prems have "j < 8 * length cws" by simp
    with Cons.IH[of j] show ?thesis by (simp add: j nth_append)
  qed
qed simp

lemma code_bit_iff: "i < length cws * 8 \<Longrightarrow> (if code_bit cws i then 1 else 0) = all_bits cws ! i"
proof -
  assume "i < length cws * 8"
  moreover have "drop_bit 3 i = i div 8" by (simp add: drop_bit_eq_div)
  moreover have "v AND 1 \<noteq> 1 \<Longrightarrow> v AND 1 = 0" for v :: nat by (simp add: and_one)
  ultimately show ?thesis by (simp add: code_bit_def and_7 all_bits_nth del: One_nat_def)
qed

section \<open>Format and version information\<close>

lemma square_writeFormat [simp]: "square n (writeFormat g mk m) = square n g"
  by (simp add: writeFormat_def Let_def)

lemma square_writeVersion [simp]: "square n (writeVersion g v m) = square n g"
proof -
  have "square n (foldl (\<lambda>g i. grid_set (grid_set g (f i) (h i) (b i)) (h i) (f i) (b i)) g xs) = square n g"
    for f h b xs by (induction xs arbitrary: g) simp_all
  then show ?thesis by (simp add: writeVersion_def)
qed

text \<open>The five groups of cells of the format information.\<close>

lemma format_group_frame:
  assumes "21 \<le> n" "(r, c) \<notin> format_cells n"
  shows "grid_at (foldl (\<lambda>g i. grid_set g 8 i (b i)) g [0..<6]) r c = grid_at g r c"
    "grid_at (foldl (\<lambda>g i. grid_set g (14 - i) 8 (b i)) g [9..<15]) r c = grid_at g r c"
    "grid_at (foldl (\<lambda>g i. grid_set g (n - 1 - i) 8 (b i)) g [0..<8]) r c = grid_at g r c"
    "grid_at (foldl (\<lambda>g i. grid_set g 8 (n - 15 + i) (b i)) g [8..<15]) r c = grid_at g r c"
    "grid_at (grid_set g 8 7 x) r c = grid_at g r c" "grid_at (grid_set g 8 8 x) r c = grid_at g r c"
    "grid_at (grid_set g 7 8 x) r c = grid_at g r c"
proof -
  have ne: "(8, i) \<noteq> (r, c)" "(i, 8) \<noteq> (r, c)" if "i \<le> 8 \<or> n - 8 \<le> i \<and> i < n" for i
    using assms that by (auto simp: format_cells_iff)
  show "grid_at (foldl (\<lambda>g i. grid_set g 8 i (b i)) g [0..<6]) r c = grid_at g r c"
    "grid_at (foldl (\<lambda>g i. grid_set g (14 - i) 8 (b i)) g [9..<15]) r c = grid_at g r c"
    "grid_at (foldl (\<lambda>g i. grid_set g (n - 1 - i) 8 (b i)) g [0..<8]) r c = grid_at g r c"
    "grid_at (foldl (\<lambda>g i. grid_set g 8 (n - 15 + i) (b i)) g [8..<15]) r c = grid_at g r c"
    by (rule fold_frame, rule ballI, rule ne, use assms(1) in force)+
  show "grid_at (grid_set g 8 7 x) r c = grid_at g r c" "grid_at (grid_set g 8 8 x) r c = grid_at g r c"
    "grid_at (grid_set g 7 8 x) r c = grid_at g r c"
    using ne[of 7] ne[of 8] by (auto intro!: grid_at_other)
qed

lemma writeFormat_frame:
  assumes "21 \<le> n" "(r, c) \<notin> format_cells n"
  shows "grid_at (writeFormat g mk n) r c = grid_at g r c"
  unfolding writeFormat_def Let_def by (simp only: format_group_frame[OF assms])

lemma writeVersion_frame:
  assumes "(r, c) \<notin> version_cells n"
  shows "grid_at (writeVersion g v n) r c = grid_at g r c"
proof -
  have fold: "grid_at (foldl (\<lambda>g i. grid_set (grid_set g (f i) (h i) (b i)) (h i) (f i) (b i)) g xs) r c = grid_at g r c"
    if "\<forall>i \<in> set xs. (r, c) \<noteq> (f i, h i) \<and> (r, c) \<noteq> (h i, f i)" for f h b xs
    using that by (induction xs arbitrary: g) (simp_all add: grid_at_other)
  have "(i div 3, n - 11 + i mod 3) \<in> version_cells n \<and> (n - 11 + i mod 3, i div 3) \<in> version_cells n"
    if "i < 18" for i
  proof -
    have "(i div 3, i mod 3) \<in> {0..<6} \<times> {0..<3}" using that by auto
    then show ?thesis unfolding version_cells_def by (intro conjI UN_I[of "(i div 3, i mod 3)"]) simp_all
  qed
  with assms have "\<forall>i \<in> set [0..<18]. (r, c) \<noteq> (i div 3, n - 11 + i mod 3) \<and> (r, c) \<noteq> (n - 11 + i mod 3, i div 3)"
    by (metis atLeastLessThan_iff set_upt)
  from fold[OF this] show ?thesis unfolding writeVersion_def .
qed

section \<open>The chosen mask\<close>

lemma better_None:
  "better ly modules v None mk =
     Some (mk, scorePenalty (candidate ly modules v mk) (ly_size ly), candidate ly modules v mk)"
  by (simp add: better_def Let_def)

lemma better_Some:
  "better ly modules v (Some (m, p, g)) mk =
     (if scorePenalty (candidate ly modules v mk) (ly_size ly) < p then better ly modules v None mk else Some (m, p, g))"
  by (simp add: better_def Let_def)

lemma better_fold:
  "xs \<noteq> [] \<Longrightarrow> \<exists>mk. foldl (better ly modules v) None xs = better ly modules v None mk \<and> mk \<in> set xs \<and>
     (\<forall>m \<in> set xs. scorePenalty (candidate ly modules v mk) (ly_size ly) \<le> scorePenalty (candidate ly modules v m) (ly_size ly))"
proof (induction xs rule: rev_induct)
  case (snoc x xs)
  let ?p = "\<lambda>m. scorePenalty (candidate ly modules v m) (ly_size ly)"
  show ?case
  proof (cases "xs = []")
    case False
    with snoc obtain mk where mk: "foldl (better ly modules v) None xs = better ly modules v None mk" "mk \<in> set xs"
      "\<forall>m \<in> set xs. ?p mk \<le> ?p m" by blast
    show ?thesis
    proof (cases "?p x < ?p mk")
      case True
      with mk show ?thesis by (intro exI[of _ x]) (auto simp: better_None better_Some)
    next
      case False
      with mk show ?thesis by (intro exI[of _ mk]) (auto simp: better_None better_Some)
    qed
  qed simp
qed simp

text \<open>What the encoder returns for a text that fits.\<close>

definition data_modules :: "string \<Rightarrow> nat \<Rightarrow> bool option grid" where
  "data_modules txt v = place_bits (functionLayout v) (buildCodewords txt (detectMode txt) v)"

lemma encode_result:
  assumes "chooseVersion txt (detectMode txt) = Inr v"
  obtains mk where "mk < 8"
    "encodeToMatrix txt = Inr \<lparr>qm_size = qr_size v, qm_version = v, qm_mask = mk,
       qm_modules = candidate (functionLayout v) (data_modules txt v) v mk\<rparr>"
    "\<And>m. m < 8 \<Longrightarrow> scorePenalty (candidate (functionLayout v) (data_modules txt v) v mk) (qr_size v) \<le>
       scorePenalty (candidate (functionLayout v) (data_modules txt v) v m) (qr_size v)"
proof -
  note v = chooseVersion_fits(1)[OF assms]
  have n: "ly_size (functionLayout v) = qr_size v" using function_res(1)[OF v refl] by (simp add: layout_ok_def)
  from better_fold[of "[0..<8]" "functionLayout v" "data_modules txt v" v] obtain mk where mk: "mk < 8"
    "foldl (better (functionLayout v) (data_modules txt v) v) None [0..<8] = better (functionLayout v) (data_modules txt v) v None mk"
    "\<forall>m<8. scorePenalty (candidate (functionLayout v) (data_modules txt v) v mk) (qr_size v) \<le>
       scorePenalty (candidate (functionLayout v) (data_modules txt v) v m) (qr_size v)"
    unfolding n by auto
  show thesis
  proof (rule that[OF mk(1)])
    show "encodeToMatrix txt = Inr \<lparr>qm_size = qr_size v, qm_version = v, qm_mask = mk,
       qm_modules = candidate (functionLayout v) (data_modules txt v) v mk\<rparr>"
      using mk(2) by (simp add: encodeToMatrix_def assms Let_def n better_None del: upt_Suc flip: data_modules_def)
  qed (use mk(3) in blast)
qed

lemma masked_grid_square: "square n modules \<Longrightarrow> square n (masked_grid ly modules mk)"
  by (simp add: square_def masked_grid_def)

lemma masked_grid_at:
  "square n modules \<Longrightarrow> r < n \<Longrightarrow> c < n \<Longrightarrow> grid_at (masked_grid ly modules mk) r c =
     (if grid_at (ly_reserved ly) r c then grid_at modules r c = Some True
      else (grid_at modules r c = Some True) \<noteq> maskFn mk r c)"
  by (simp add: square_def masked_grid_def)

text \<open>The free cells of a candidate hold the masked data.\<close>

lemma candidate_free:
  assumes "v \<in> set versions" "square (qr_size v) modules" "r < qr_size v" "c < qr_size v"
    "\<not> res (functionLayout v) r c"
  shows "grid_at (candidate (functionLayout v) modules v mk) r c = ((grid_at modules r c = Some True) \<noteq> maskFn mk r c)"
proof -
  let ?n = "qr_size v"
  have n: "21 \<le> ?n" "ly_size (functionLayout v) = ?n"
    using qr_size_versions[OF assms(1)] function_res(1)[OF assms(1) refl] by (simp_all add: layout_ok_def)
  have "(r, c) \<notin> info_cells v" using function_res(2)[OF assms(1) refl assms(3,4)] assms(5) by blast
  then have "(r, c) \<notin> format_cells ?n" "7 \<le> v \<Longrightarrow> (r, c) \<notin> version_cells ?n" by (simp_all add: info_cells_def)
  then show ?thesis
    using masked_grid_at[OF assms(2-4), of "functionLayout v" mk] assms(5)
    by (simp add: candidate_def Let_def n writeFormat_frame writeVersion_frame)
qed

lemma data_modules_facts:
  assumes "chooseVersion txt (detectMode txt) = Inr v"
  shows "square (qr_size v) (data_modules txt v)"
    "map (\<lambda>(r, c). grid_at (data_modules txt v) r c = Some True) (free_cells v) =
      map (\<lambda>j. j < total_codewords v * 8 \<and> code_bit (buildCodewords txt (detectMode txt) v) j) [0..<length (free_cells v)]"
    "\<And>r c. (r, c) \<notin> set (free_cells v) \<Longrightarrow> grid_at (data_modules txt v) r c = grid_at (ly_base (functionLayout v)) r c"
proof -
  let ?n = "qr_size v" and ?cws = "buildCodewords txt (detectMode txt) v"
  note v = chooseVersion_fits(1)[OF assms]
  have ly: "ly_size (functionLayout v) = ?n" "square ?n (ly_base (functionLayout v))"
    using function_res(1)[OF v refl] by (simp_all add: layout_ok_def)
  have tot: "length ?cws = total_codewords v" using buildCodewords_facts(2)[OF assms] by (simp add: total_codewords_def)
  note P = place_fold[OF ly(2) zigzag_cells(2)[OF v refl] _ le0 refl refl,
      of "ly_reserved (functionLayout v)" ?cws, folded free_cells_def[of v]]
  have "set (zigzag ?n (?n - 1) True) \<subseteq> {..<?n} \<times> {..<?n}" unfolding zigzag_cells(1)[OF v refl] by auto
  note P = P[OF this, unfolded tot add_0]
  have P: "square ?n (data_modules txt v) \<and>
      map (\<lambda>(r, c). grid_at (data_modules txt v) r c) (free_cells v) =
        map (\<lambda>j. Some (j < total_codewords v * 8 \<and> code_bit ?cws j)) [0..<length (free_cells v)] \<and>
      (\<forall>r c. (r, c) \<notin> set (free_cells v) \<longrightarrow> grid_at (data_modules txt v) r c = grid_at (ly_base (functionLayout v)) r c)"
    unfolding data_modules_def place_bits_def ly(1) by (rule P)
  then show "square ?n (data_modules txt v)"
    "\<And>r c. (r, c) \<notin> set (free_cells v) \<Longrightarrow> grid_at (data_modules txt v) r c = grid_at (ly_base (functionLayout v)) r c"
    by blast+
  have "map (\<lambda>x. x = Some True) (map (\<lambda>(r, c). grid_at (data_modules txt v) r c) (free_cells v)) =
      map (\<lambda>x. x = Some True) (map (\<lambda>j. Some (j < total_codewords v * 8 \<and> code_bit ?cws j)) [0..<length (free_cells v)])"
    using P by (simp only:)
  then show "map (\<lambda>(r, c). grid_at (data_modules txt v) r c = Some True) (free_cells v) =
      map (\<lambda>j. j < total_codewords v * 8 \<and> code_bit ?cws j) [0..<length (free_cells v)]"
    by (simp add: comp_def case_prod_beta')
qed

lemma chooseVersion_least:
  assumes "chooseVersion txt m = Inr v" "need_bits txt m u \<le> totalDataCodewords u * 8" "1 \<le> u"
  shows "v \<le> u"
proof -
  let ?P = "\<lambda>v. need_bits txt m v \<le> totalDataCodewords v * 8"
  have nth: "versions ! i = i + 1" if "i < 10" for i
    using that by (simp add: versions_upt[symmetric] MAX_VERSION_def del: upt_Suc)
  have len: "length versions = 10" by (simp add: versions_def)
  have "find ?P versions = Some v"
    using assms(1) by (simp add: chooseVersion_def versions_upt del: One_nat_def split: option.splits)
  then obtain i where i: "i < 10" "v = i + 1" "\<forall>j<i. \<not> ?P (versions ! j)"
    unfolding find_Some_iff len using nth by force
  show ?thesis
  proof (rule ccontr)
    assume "\<not> v \<le> u"
    then have "u - 1 < i" "versions ! (u - 1) = u" using i assms(3) nth[of "u - 1"] by simp_all
    with i(3) assms(2) show False by force
  qed
qed

section \<open>Reading the symbol back\<close>

lemma read_bits_free:
  "qm_size qr = qr_size v \<Longrightarrow> qm_version qr = v \<Longrightarrow> read_bits qr =
     map (\<lambda>(r, c). if grid_at (qm_modules qr) r c \<noteq> maskFn (qm_mask qr) r c then 1 else 0) (free_cells v)"
proof -
  have "concat (map (\<lambda>(r, c). if P r c then [] else [f r c]) xs) = map (\<lambda>(r, c). f r c) (filter (\<lambda>(r, c). \<not> P r c) xs)"
    for P :: "nat \<Rightarrow> nat \<Rightarrow> bool" and f :: "nat \<Rightarrow> nat \<Rightarrow> nat" and xs
    by (induction xs) auto
  then show "qm_size qr = qr_size v \<Longrightarrow> qm_version qr = v \<Longrightarrow> ?thesis" by (simp add: read_bits_def free_cells_def)
qed

lemma read_bits_candidate:
  assumes "chooseVersion txt (detectMode txt) = Inr v" "qm_size qr = qr_size v" "qm_version qr = v"
    "qm_modules qr = candidate (functionLayout v) (data_modules txt v) v (qm_mask qr)"
  shows "\<exists>post. read_bits qr = all_bits (buildCodewords txt (detectMode txt) v) @ post"
proof -
  let ?cws = "buildCodewords txt (detectMode txt) v" and ?U = "free_cells v"
  note v = chooseVersion_fits(1)[OF assms(1)]
  note D = data_modules_facts[OF assms(1)]
  have tot: "length ?cws = total_codewords v" using buildCodewords_facts(2)[OF assms(1)] by (simp add: total_codewords_def)
  have "read_bits qr = map (\<lambda>(r, c). if grid_at (data_modules txt v) r c = Some True then 1 else 0) ?U"
    unfolding read_bits_free[OF assms(2,3)]
  proof (rule map_cong[OF refl])
    fix x assume x: "x \<in> set ?U"
    obtain r c where rc: "x = (r, c)" by force
    with x have "r < qr_size v" "c < qr_size v" "\<not> res (functionLayout v) r c"
      by (auto simp: free_cells_def zigzag_cells(1)[OF v refl] simp del: One_nat_def)
    from candidate_free[OF v D(1) this, of "qm_mask qr"]
    show "(case x of (r, c) \<Rightarrow> if grid_at (qm_modules qr) r c \<noteq> maskFn (qm_mask qr) r c then 1 else 0) =
        (case x of (r, c) \<Rightarrow> if grid_at (data_modules txt v) r c = Some True then 1 else 0)"
      by (auto simp: rc assms(4))
  qed
  also have "\<dots> = map (\<lambda>b. if b then 1 else 0) (map (\<lambda>(r, c). grid_at (data_modules txt v) r c = Some True) ?U)"
    by (simp add: comp_def case_prod_beta')
  also have "\<dots> = map (\<lambda>j. if j < total_codewords v * 8 \<and> code_bit ?cws j then 1 else 0) [0..<length ?U]"
    unfolding D(2) by (simp add: comp_def)
  finally have R: "read_bits qr = \<dots>" .
  have "take (total_codewords v * 8) (read_bits qr) = all_bits ?cws"
  proof (rule nth_equalityI)
    show "length (take (total_codewords v * 8) (read_bits qr)) = length (all_bits ?cws)"
      using free_cells_enough[OF v] by (simp add: R tot)
    fix i assume "i < length (take (total_codewords v * 8) (read_bits qr))"
    then have "i < total_codewords v * 8" "i < length ?U" by (simp_all add: R)
    then show "take (total_codewords v * 8) (read_bits qr) ! i = all_bits ?cws ! i"
      using code_bit_iff[of i ?cws] by (simp add: R tot)
  qed
  then show ?thesis by (metis append_take_drop_id)
qed

text \<open>
  The data codewords of the versions at error correction level M, as the standard tabulates them, and what it
  means for the bits of a text to fit a version.
\<close>

definition data_capacity :: "nat list" where
  "data_capacity = [16, 28, 44, 64, 86, 108, 124, 154, 182, 216]"

definition qr_fits :: "string \<Rightarrow> nat \<Rightarrow> bool" where
  "qr_fits txt v \<longleftrightarrow> 1 \<le> v \<and> v \<le> 10 \<and> length (encodeData txt (detectMode txt) v) \<le> 8 * data_capacity ! (v - 1)"

lemma capacity_table: "map totalDataCodewords versions = data_capacity"
  by code_simp

lemma qr_fits_iff: "qr_fits txt v \<longleftrightarrow> v \<in> set versions \<and> need_bits txt (detectMode txt) v \<le> totalDataCodewords v * 8"
proof -
  have v: "v \<in> set versions \<longleftrightarrow> 1 \<le> v \<and> v \<le> 10" unfolding versions_upt[symmetric] by (auto simp: MAX_VERSION_def)
  have "totalDataCodewords v = data_capacity ! (v - 1)" if "1 \<le> v" "v \<le> 10"
  proof -
    have "versions ! (v - 1) = v" "v - 1 < length versions"
      using that by (auto simp: versions_upt[symmetric] MAX_VERSION_def simp del: upt_Suc)
    then show ?thesis using capacity_table by (metis nth_map)
  qed
  then show ?thesis by (auto simp: qr_fits_def v length_encodeData mult.commute)
qed

lemma chooseVersion_None: "\<not> is_ok (chooseVersion txt (detectMode txt)) \<longleftrightarrow> (\<forall>v. \<not> qr_fits txt v)"
proof -
  let ?P = "\<lambda>v. need_bits txt (detectMode txt) v \<le> totalDataCodewords v * 8"
  have "find ?P versions = Some v \<Longrightarrow> v \<in> set versions \<and> ?P v" for v by (auto simp: find_Some_iff)
  then show ?thesis
    unfolding qr_fits_iff chooseVersion_def versions_upt
    by (cases "find ?P versions") (simp_all add: find_None_iff2, auto simp: find_None_iff)
qed

text \<open>
  C39: every text whose bits fit one of the versions 1 to 10 is encoded, into a symbol of the least such
  version; the companion decoder reads the text back from it, through the mask, the zig-zag, the interleaving
  and the bit fields; and no other mask has a lower penalty. A text that fits no version is refused with an
  error.
\<close>

theorem qr_roundtrip:
  "((\<exists>v. qr_fits txt v) \<longrightarrow>
     (\<exists>qr v. encodeToMatrix txt = Inr qr \<and> decodeForTest qr = Some txt \<and> qm_version qr = v \<and> qm_size qr = 17 + 4 * v \<and>
        qr_fits txt v \<and> (\<forall>u < v. \<not> qr_fits txt u) \<and>
        (\<forall>m<8. scorePenalty (qm_modules qr) (qm_size qr) \<le>
           scorePenalty (candidate (functionLayout v) (data_modules txt v) v m) (qm_size qr)))) \<and>
   ((\<forall>v. \<not> qr_fits txt v) \<longrightarrow> (\<exists>err. encodeToMatrix txt = Inl err))"
proof (intro conjI impI)
  assume "\<exists>v. qr_fits txt v"
  then obtain v where chosen: "chooseVersion txt (detectMode txt) = Inr v"
    using chooseVersion_None[of "txt"] by (cases "chooseVersion txt (detectMode txt)") auto
  obtain mk where mk: "mk < 8" "encodeToMatrix txt = Inr \<lparr>qm_size = qr_size v, qm_version = v, qm_mask = mk,
       qm_modules = candidate (functionLayout v) (data_modules txt v) v mk\<rparr>" (is "_ = Inr ?qr")
    "\<And>m. m < 8 \<Longrightarrow> scorePenalty (candidate (functionLayout v) (data_modules txt v) v mk) (qr_size v) \<le>
       scorePenalty (candidate (functionLayout v) (data_modules txt v) v m) (qr_size v)"
    using encode_result[OF chosen] by blast
  have "\<exists>post. read_bits ?qr = all_bits (buildCodewords txt (detectMode txt) v) @ post"
    by (rule read_bits_candidate[OF chosen]) simp_all
  then obtain post where post: "read_bits ?qr = all_bits (buildCodewords txt (detectMode txt) v) @ post" ..
  have "decodeForTest ?qr = Some txt"
    using decode_stream_build[OF chosen] pack_bytes_all[OF buildCodewords_facts(1)[OF chosen]]
    by (simp add: decodeForTest_def post)
  moreover have "\<not> qr_fits txt u" if "u < v" for u
  proof
    assume "qr_fits txt u"
    then have "1 \<le> u" "need_bits txt (detectMode txt) u \<le> totalDataCodewords u * 8"
      by (simp add: qr_fits_def, simp add: qr_fits_iff)
    then show False using chooseVersion_least[OF chosen, of u] that by simp
  qed
  moreover have "qr_fits txt v" using chooseVersion_fits[OF chosen] by (simp add: qr_fits_iff)
  ultimately show "\<exists>qr v. encodeToMatrix txt = Inr qr \<and> decodeForTest qr = Some txt \<and> qm_version qr = v \<and> qm_size qr = 17 + 4 * v \<and>
      qr_fits txt v \<and> (\<forall>u < v. \<not> qr_fits txt u) \<and>
      (\<forall>m<8. scorePenalty (qm_modules qr) (qm_size qr) \<le>
         scorePenalty (candidate (functionLayout v) (data_modules txt v) v m) (qm_size qr))"
    using mk by (intro exI[of _ ?qr] exI[of _ v]) (simp add: qr_size_def)
next
  assume "\<forall>v. \<not> qr_fits txt v"
  then obtain err where "chooseVersion txt (detectMode txt) = Inl err"
    using chooseVersion_None[of "txt"] by (cases "chooseVersion txt (detectMode txt)") auto
  then show "\<exists>err. encodeToMatrix txt = Inl err" by (simp add: encodeToMatrix_def Let_def)
qed

lemma tron_address_version:
  "chooseVersion ''TLa2f6VPqDgRE67v1736s7bJ8Ray5wYjU7'' (detectMode ''TLa2f6VPqDgRE67v1736s7bJ8Ray5wYjU7'') = Inr 3"
  by code_simp

theorem qr_roundtrip_witness:
  "\<exists>qr. encodeToMatrix ''TLa2f6VPqDgRE67v1736s7bJ8Ray5wYjU7'' = Inr qr \<and>
     decodeForTest qr = Some ''TLa2f6VPqDgRE67v1736s7bJ8Ray5wYjU7''"
proof -
  have "\<exists>v. qr_fits ''TLa2f6VPqDgRE67v1736s7bJ8Ray5wYjU7'' v"
    using chooseVersion_fits[OF tron_address_version] by (auto simp: qr_fits_iff)
  then show ?thesis using qr_roundtrip[of "''TLa2f6VPqDgRE67v1736s7bJ8Ray5wYjU7''"] by blast
qed

section \<open>Departures from the standard\<close>

lemma writeFormat_at:
  assumes "square n g" "21 \<le> n"
  shows "i < 6 \<Longrightarrow> grid_at (writeFormat g mk n) 8 i = bit (bchFormat mk) i"
    "grid_at (writeFormat g mk n) 8 7 = bit (bchFormat mk) 6"
    "grid_at (writeFormat g mk n) 8 8 = bit (bchFormat mk) 7"
    "grid_at (writeFormat g mk n) 7 8 = bit (bchFormat mk) 8"
    "9 \<le> i \<Longrightarrow> i < 15 \<Longrightarrow> grid_at (writeFormat g mk n) (14 - i) 8 = bit (bchFormat mk) i"
    "i < 8 \<Longrightarrow> grid_at (writeFormat g mk n) (n - 1 - i) 8 = bit (bchFormat mk) i"
    "8 \<le> i \<Longrightarrow> i < 15 \<Longrightarrow> grid_at (writeFormat g mk n) 8 (n - 15 + i) = bit (bchFormat mk) i"
    "grid_at (writeFormat g mk n) 8 (n - 8) = grid_at g 8 (n - 8)"
proof -
  define b where "b = bit (bchFormat mk)"
  define g1 where "g1 = foldl (\<lambda>g i. grid_set g 8 i (b i)) g [0..<6]"
  define g2 where "g2 = grid_set (grid_set (grid_set g1 8 7 (b 6)) 8 8 (b 7)) 7 8 (b 8)"
  define g3 where "g3 = foldl (\<lambda>g i. grid_set g (14 - i) 8 (b i)) g2 [9..<15]"
  define g4 where "g4 = foldl (\<lambda>g i. grid_set g (n - 1 - i) 8 (b i)) g3 [0..<8]"
  have w: "writeFormat g mk n = foldl (\<lambda>g i. grid_set g 8 (n - 15 + i) (b i)) g4 [8..<15]"
    by (simp add: writeFormat_def Let_def b_def g1_def g2_def g3_def g4_def)
  have sq: "square n g1" "square n g2" "square n g3" "square n g4"
    using assms(1) by (simp_all add: g1_def g2_def g3_def g4_def)
  have f5: "grid_at (writeFormat g mk n) r c = grid_at g4 r c" if "r \<noteq> 8 \<or> c < n - 7" for r c
    unfolding w by (rule fold_frame) (use that assms(2) in auto)
  have f4: "grid_at g4 r c = grid_at g3 r c" if "r < n - 8 \<or> c \<noteq> 8" for r c
    unfolding g4_def by (rule fold_frame) (use that assms(2) in auto)
  have f3: "grid_at g3 r c = grid_at g2 r c" if "5 < r \<or> c \<noteq> 8" for r c
    unfolding g3_def by (rule fold_frame) (use that in auto)
  have f2: "grid_at g2 r c = grid_at g1 r c" if "r < 7 \<or> 8 < r \<or> c < 7 \<or> 8 < c" for r c
    unfolding g2_def using that by (subst grid_at_other, force)+ (rule refl)
  have "grid_at g1 8 i = b i" if "i < 6" for i
    unfolding g1_def using fold_written[OF assms(1), of "[0..<6]" "\<lambda>_. 8" "\<lambda>i. i" i b] that assms(2)
    by (auto simp: inj_on_def)
  then show "i < 6 \<Longrightarrow> grid_at (writeFormat g mk n) 8 i = bit (bchFormat mk) i"
    using assms(2) by (simp add: f5 f4 f3 f2 b_def)
  show "grid_at (writeFormat g mk n) 8 7 = bit (bchFormat mk) 6"
    "grid_at (writeFormat g mk n) 8 8 = bit (bchFormat mk) 7"
    "grid_at (writeFormat g mk n) 7 8 = bit (bchFormat mk) 8"
    using assms sq(1) by (simp_all add: f5 f4 f3 g2_def grid_at_set[of n] b_def)
  have "grid_at g3 (14 - i) 8 = b i" if "9 \<le> i" "i < 15" for i
    unfolding g3_def by (rule fold_written[OF sq(2)]) (use that assms(2) in \<open>auto simp: inj_on_def\<close>)
  then show "9 \<le> i \<Longrightarrow> i < 15 \<Longrightarrow> grid_at (writeFormat g mk n) (14 - i) 8 = bit (bchFormat mk) i"
    using assms(2) by (simp add: f5 f4 b_def)
  have "grid_at g4 (n - 1 - i) 8 = b i" if "i < 8" for i
    unfolding g4_def by (rule fold_written[OF sq(3)]) (use that assms(2) in \<open>auto simp: inj_on_def\<close>)
  then show "i < 8 \<Longrightarrow> grid_at (writeFormat g mk n) (n - 1 - i) 8 = bit (bchFormat mk) i"
    using assms(2) by (simp add: f5 b_def)
  show "grid_at (writeFormat g mk n) 8 (n - 15 + i) = bit (bchFormat mk) i" if "8 \<le> i" "i < 15"
    unfolding w b_def[symmetric]
  proof (rule fold_written[OF sq(4) distinct_upt, where h = "\<lambda>i. n - 15 + i" and k = i])
    show "inj_on (\<lambda>x. (8 :: nat, n - 15 + x)) (set [8..<15])" by (rule inj_onI) simp
    show "i \<in> set [8..<15]" using that by (simp only: set_upt atLeastLessThan_iff)
  qed (use that assms(2) in simp_all)
  have "grid_at g1 8 (n - 8) = grid_at g 8 (n - 8)"
    unfolding g1_def by (rule fold_frame) (use assms(2) in auto)
  moreover have "8 < n - 8" using assms(2) by simp
  ultimately show "grid_at (writeFormat g mk n) 8 (n - 8) = grid_at g 8 (n - 8)"
    using f5[of 8 "n - 8"] f4[of 8 "n - 8"] f3[of 8 "n - 8"] f2[of 8 "n - 8"] assms(2) by simp
qed

text \<open>
  Where ISO/IEC 18004 puts bit \<open>k\<close> of the format information, bit 0 being the lowest: the first copy goes
  down column 8 and then left along row 8; the second goes left along row 8 and then down column 8.
\<close>

definition iso_first :: "nat \<Rightarrow> nat \<times> nat" where
  "iso_first k = (if k < 6 then (k, 8) else if k = 6 then (7, 8) else if k = 7 then (8, 8) else if k = 8 then (8, 7) else (8, 14 - k))"

definition iso_second :: "nat \<Rightarrow> nat \<Rightarrow> nat \<times> nat" where
  "iso_second n k = (if k < 8 then (8, n - 1 - k) else (n - 15 + k, 8))"

definition format_bits :: "nat \<Rightarrow> bool list" where
  "format_bits w = map (bit w) [0..<15]"

definition read_format :: "qr_matrix \<Rightarrow> (nat \<Rightarrow> nat \<times> nat) \<Rightarrow> bool list" where
  "read_format qr cell_of = map (\<lambda>k. grid_at (qm_modules qr) (fst (cell_of k)) (snd (cell_of k))) [0..<15]"

definition distance :: "bool list \<Rightarrow> bool list \<Rightarrow> nat" where
  "distance xs ys = length (filter (\<lambda>(x, y). x \<noteq> y) (zip xs ys))"

lemmas format_eval = bchFormat_def format_rest.simps bitLen_half

lemma bchFormat_values:
  "bchFormat 0 = 21522" "bchFormat (Suc 0) = 20773" "bchFormat 2 = 24188" "bchFormat 3 = 23371"
  "bchFormat 4 = 17913" "bchFormat 5 = 16590" "bchFormat 6 = 20375" "bchFormat 7 = 19104"
  "bchFormat 16 = 5769" "bchFormat 21 = 597" "bchFormat 26 = 16177" "bchFormat 28 = 9396" "bchFormat 29 = 8579" "bchFormat 31 = 11245"
  by (simp_all add: format_eval)

text \<open>The format word read backwards is nearer to the word of another symbol than a reader's three corrections.\<close>

definition wrong_format :: "nat \<Rightarrow> nat" where
  "wrong_format mk = [28, 21, 26, 31, 6, 29, 4, 16] ! mk"

lemma upt_15: "[0..<15] = [0, 1, 2, 3, 4, 5, 6, 7, 8, 9, 10, 11, 12, 13, 14 :: nat]"
  by (simp add: upt_rec[of _ "numeral _"] upt_rec[of _ "Suc _"] upt_rec[of 0])

lemma upt_8: "[0..<8] = [0, 1, 2, 3, 4, 5, 6, 7 :: nat]"
  by (simp add: upt_rec[of _ "numeral _"] upt_rec[of _ "Suc _"] upt_rec[of 0])

lemma reversed_format:
  assumes "mk < 8"
  shows "4 \<le> distance (rev (format_bits (bchFormat mk))) (format_bits (bchFormat mk)) \<and>
    wrong_format mk < 32 \<and> wrong_format mk \<noteq> mk \<and>
    distance (rev (format_bits (bchFormat mk))) (format_bits (bchFormat (wrong_format mk))) \<le> 3"
proof -
  let ?ok = "\<lambda>mk. 4 \<le> distance (rev (format_bits (bchFormat mk))) (format_bits (bchFormat mk)) \<and>
    wrong_format mk < 32 \<and> wrong_format mk \<noteq> mk \<and>
    distance (rev (format_bits (bchFormat mk))) (format_bits (bchFormat (wrong_format mk))) \<le> 3"
  have "list_all ?ok [0..<8]"
    by (simp add: upt_8 bchFormat_values wrong_format_def distance_def format_bits_def upt_15 bit_iff_odd)
  with assms show ?thesis by (simp add: list_all_iff)
qed

lemma version_cells_iff:
  "21 \<le> n \<Longrightarrow> (r, c) \<in> version_cells n \<longleftrightarrow>
     (r < 6 \<and> n - 11 \<le> c \<and> c < n - 8) \<or> (c < 6 \<and> n - 11 \<le> r \<and> r < n - 8)"
proof -
  assume n: "21 \<le> n"
  have three: "(\<exists>j<3. x = n - 11 + j) \<longleftrightarrow> n - 11 \<le> x \<and> x < n - 8" for x
  proof
    assume "n - 11 \<le> x \<and> x < n - 8"
    with n show "\<exists>j<3. x = n - 11 + j" by (intro exI[of _ "x - (n - 11)"]) auto
  qed (use n in auto)
  have "(r, c) \<in> version_cells n \<longleftrightarrow> (r < 6 \<and> (\<exists>j<3. c = n - 11 + j)) \<or> (c < 6 \<and> (\<exists>j<3. r = n - 11 + j))"
    unfolding version_cells_def by force
  then show ?thesis by (simp only: three)
qed

lemma format_not_version:
  assumes "21 \<le> n" "(r, c) \<in> format_cells n"
  shows "(r, c) \<notin> version_cells n"
  using assms by (auto simp: format_cells_iff version_cells_iff)

text \<open>
  In the first copy of the format information that the encoder writes, a reader that follows the
  standard finds the bits in reverse order, in the second copy too but for bit 7, whose cell is never
  written, while the dark module next to it is overwritten with that bit. The reversed word is at a
  distance of at least 4 from the right one and of at most 3 from another, so that the error correction of
  a reader settles on another level or mask.
\<close>

theorem qr_format_reversed:
  assumes "encodeToMatrix txt = Inr qr"
  shows "read_format qr iso_first = rev (format_bits (bchFormat (qm_mask qr))) \<and>
    (\<forall>k<15. k \<noteq> 7 \<longrightarrow> read_format qr (iso_second (qm_size qr)) ! k = rev (format_bits (bchFormat (qm_mask qr))) ! k) \<and>
    grid_at (qm_modules qr) (qm_size qr - 8) 8 = format_bits (bchFormat (qm_mask qr)) ! 7 \<and>
    4 \<le> distance (rev (format_bits (bchFormat (qm_mask qr)))) (format_bits (bchFormat (qm_mask qr))) \<and>
    (\<exists>d<32. d \<noteq> qm_mask qr \<and>
       distance (rev (format_bits (bchFormat (qm_mask qr)))) (format_bits (bchFormat d)) \<le> 3)"
proof -
  obtain v where v: "chooseVersion txt (detectMode txt) = Inr v"
    using assms by (auto simp: encodeToMatrix_def Let_def split: sum.splits)
  let ?n = "qr_size v" and ?g = "candidate (functionLayout v) (data_modules txt v) v"
  note vs = chooseVersion_fits(1)[OF v]
  obtain mk where mk: "mk < 8" "qr = \<lparr>qm_size = ?n, qm_version = v, qm_mask = mk, qm_modules = ?g mk\<rparr>"
    using encode_result[OF v] assms by (metis sum.inject(2))
  have n: "21 \<le> ?n" "ly_size (functionLayout v) = ?n"
    using qr_size_versions[OF vs] function_res(1)[OF vs refl] by (simp_all add: layout_ok_def)
  define m where "m = masked_grid (functionLayout v) (data_modules txt v) mk"
  have sq: "square ?n m" using data_modules_facts(1)[OF v] by (simp add: m_def masked_grid_square)
  have g: "grid_at (?g mk) r c = grid_at (writeFormat m mk ?n) r c" if "(r, c) \<in> format_cells ?n" for r c
    using format_not_version[OF n(1) that] by (simp add: candidate_def Let_def n m_def writeVersion_frame)
  note at = writeFormat_at[OF sq n(1), where mk = mk]
  have rev: "rev (format_bits w) ! k = bit w (14 - k)" if "k < 15" for w k
    using that by (simp add: format_bits_def rev_nth)
  have first: "grid_at (?g mk) (fst (iso_first k)) (snd (iso_first k)) = bit (bchFormat mk) (14 - k)" if "k < 15" for k
  proof -
    have "iso_first k \<in> format_cells ?n" using n(1) that by (auto simp: iso_first_def format_cells_iff)
    then have "grid_at (?g mk) (fst (iso_first k)) (snd (iso_first k)) = grid_at (writeFormat m mk ?n) (fst (iso_first k)) (snd (iso_first k))"
      by (intro g) simp
    also have "\<dots> = bit (bchFormat mk) (14 - k)"
    proof -
      consider "k < 6" | "k = 6" | "k = 7" | "k = 8" | "9 \<le> k" by linarith
      then show ?thesis
      proof cases
        case 1
        then show ?thesis using at(5)[of "14 - k"] by (simp add: iso_first_def)
      next
        case 5
        then show ?thesis using at(1)[of "14 - k"] that by (simp add: iso_first_def)
      qed (simp_all add: iso_first_def at(2-4))
    qed
    finally show ?thesis .
  qed
  have second: "grid_at (?g mk) (fst (iso_second ?n k)) (snd (iso_second ?n k)) = bit (bchFormat mk) (14 - k)"
    if "k < 15" "k \<noteq> 7" for k
  proof -
    have "iso_second ?n k \<in> format_cells ?n" using n(1) that by (auto simp: iso_second_def format_cells_iff)
    then have "grid_at (?g mk) (fst (iso_second ?n k)) (snd (iso_second ?n k)) =
        grid_at (writeFormat m mk ?n) (fst (iso_second ?n k)) (snd (iso_second ?n k))"
      by (intro g) simp
    also have "\<dots> = bit (bchFormat mk) (14 - k)"
    proof (cases "k < 8")
      case True
      with that n(1) have i: "iso_second ?n k = (8, ?n - 15 + (14 - k))" "8 \<le> 14 - k" "14 - k < 15"
        by (simp_all add: iso_second_def)
      show ?thesis unfolding i(1) fst_conv snd_conv by (rule at(7)[OF i(2,3)])
    next
      case False
      with that n(1) have i: "iso_second ?n k = (?n - 1 - (14 - k), 8)" "14 - k < 8"
        by (simp_all add: iso_second_def)
      show ?thesis unfolding i(1) fst_conv snd_conv by (rule at(6)[OF i(2)])
    qed
    finally show ?thesis .
  qed
  have "(?n - 8, 8) \<in> format_cells ?n" using n(1) by (simp add: format_cells_iff)
  then have dark: "grid_at (?g mk) (?n - 8) 8 = bit (bchFormat mk) 7"
    using g[of "?n - 8" 8] at(6)[of 7] by simp
  have "read_format qr iso_first = rev (format_bits (bchFormat mk))"
    using first rev by (intro nth_equalityI) (simp_all add: read_format_def mk(2) format_bits_def)
  moreover have "\<forall>k<15. k \<noteq> 7 \<longrightarrow> read_format qr (iso_second ?n) ! k = rev (format_bits (bchFormat mk)) ! k"
    using second rev by (simp add: read_format_def mk(2) del: upt_Suc)
  moreover have "format_bits w ! 7 = bit w 7" for w by (simp add: format_bits_def)
  ultimately show ?thesis using dark reversed_format[OF mk(1)] by (auto simp: mk(2))
qed

theorem qr_format_reversed_witness:
  "\<exists>qr d. encodeToMatrix ''TLa2f6VPqDgRE67v1736s7bJ8Ray5wYjU7'' = Inr qr \<and>
     read_format qr iso_first = rev (format_bits (bchFormat (qm_mask qr))) \<and> d \<noteq> qm_mask qr \<and>
     distance (read_format qr iso_first) (format_bits (bchFormat d)) \<le> 3"
proof -
  obtain qr where qr: "encodeToMatrix ''TLa2f6VPqDgRE67v1736s7bJ8Ray5wYjU7'' = Inr qr"
    using encode_result[OF tron_address_version] by blast
  from qr_format_reversed[OF qr] qr show ?thesis by metis
qed

text \<open>
  In the versions from 7 on, the alignment patterns on the timing lines, which the standard has, are
  not placed: their centre is reserved by the timing pattern. The cells of such a pattern hold data.
\<close>

theorem qr_alignment_missing:
  "list_all (\<lambda>v. let m = align_centres v ! 1 in
       res (frame_layout v) 6 m \<and> \<not> res (functionLayout v) 4 m \<and> \<not> res (functionLayout v) m 4 \<and>
       (4, m) \<in> set (free_cells v)) [7, 8, 9, 10]"
proof -
  have "let m = align_centres v ! 1 in
       res (frame_layout v) 6 m \<and> \<not> res (functionLayout v) 4 m \<and> \<not> res (functionLayout v) m 4 \<and>
       (4, m) \<in> set (free_cells v)" if v7: "v \<in> {7, 8, 9, 10}" for v
  proof -
    let ?m = "align_centres v ! 1" and ?n = "qr_size v"
    have v: "v \<in> set versions" using v7 by (auto simp: versions_def)
    have m: "?m < ?n" "4 < ?n" "6 < ?n" "?m \<noteq> 6" using v7 by (auto simp: align_centres_def ALIGN_def qr_size_def)
    have "(6, ?m) \<in> frame_cells ?n" using v7 by (auto simp: align_centres_def ALIGN_def qr_size_def frame_cells_def timing_cells_iff)
    moreover have "(4, ?m) \<notin> frame_cells ?n \<union> info_cells v \<union> align_cells v" "(?m, 4) \<notin> frame_cells ?n \<union> info_cells v \<union> align_cells v"
      using v7 by (elim insertE emptyE; simp add: align_centres_def ALIGN_def qr_size_def frame_cells_def timing_cells_iff
          window_def info_cells_def format_cells_iff version_cells_iff align_cells_def align_block_def insert_Times_insert insert_Diff_if)+
    ultimately show ?thesis
      using function_res(3)[OF v refl m(2,1)] function_res(3)[OF v refl m(1,2)] frame_res(2)[OF refl m(3,1)] m
      by (auto simp: Let_def free_cells_def zigzag_cells(1)[OF v refl] simp del: One_nat_def)
  qed
  then show ?thesis by simp
qed

end
