(* ===== verification/QrSvg.thy ===== *)
theory QrSvg
  imports QrCode
begin

text \<open>
  \<^verbatim>\<open>src/qr/qrSvg.ts\<close>: the SVG document of a symbol, with one square for each dark module, and its data URI.
\<close>

section \<open>Rendering\<close>

text \<open>\<open>M{x} {y}h{m}v{m}h-{m}z\<close>: the square of the module in row \<open>r\<close> and column \<open>c\<close>.\<close>

definition svg_square :: "nat \<Rightarrow> nat \<Rightarrow> nat \<Rightarrow> nat \<Rightarrow> string" where
  "svg_square m margin r c =
     ''M'' @ nat_digits ((c + margin) * m) @ '' '' @ nat_digits ((r + margin) * m) @ ''h'' @ nat_digits m @
     ''v'' @ nat_digits m @ ''h-'' @ nat_digits m @ ''z''"

definition svg_path :: "nat \<Rightarrow> nat \<Rightarrow> nat \<Rightarrow> bool grid \<Rightarrow> string" where
  "svg_path m margin n modules =
     concat (map (\<lambda>(r, c). if \<not> grid_at modules r c then [] else svg_square m margin r c) (List.product [0..<n] [0..<n]))"

definition quote :: string where
  "quote = [CHR 0x22]"

definition svg_attr :: "string \<Rightarrow> string \<Rightarrow> string" where
  "svg_attr name v = name @ ''='' @ quote @ v @ quote"

definition svg_document :: "nat \<Rightarrow> string \<Rightarrow> string" where
  "svg_document pixels path =
     (let d = nat_digits pixels
      in ''<svg '' @ svg_attr ''xmlns'' ''http://www.w3.org/2000/svg'' @ '' '' @ svg_attr ''width'' d @ '' '' @
         svg_attr ''height'' d @ '' '' @ svg_attr ''viewBox'' (''0 0 '' @ d @ '' '' @ d) @ '' '' @
         svg_attr ''shape-rendering'' ''crispEdges'' @ ''>'' @
         ''<rect '' @ svg_attr ''width'' d @ '' '' @ svg_attr ''height'' d @ '' '' @ svg_attr ''fill'' ''#ffffff'' @ ''/>'' @
         ''<path '' @ svg_attr ''d'' path @ '' '' @ svg_attr ''fill'' ''#000000'' @ ''/></svg>'')"

text \<open>The options are \<open>undefined\<close> or a number.\<close>

definition qrToSvg :: "string \<Rightarrow> nat option \<Rightarrow> nat option \<Rightarrow> string result" where
  "qrToSvg txt moduleSize marginOpt =
     (case encodeToMatrix txt of
        Inl err \<Rightarrow> Inl err
      | Inr qr \<Rightarrow>
          let m = (case moduleSize of None \<Rightarrow> 4 | Some x \<Rightarrow> x);
              margin = (case marginOpt of None \<Rightarrow> 4 | Some x \<Rightarrow> x);
              pixels = (qm_size qr + margin * 2) * m
          in Inr (svg_document pixels (svg_path m margin (qm_size qr) (qm_modules qr))))"

text \<open>\<open>Buffer.toString('base64')\<close>.\<close>

definition base64_char :: "nat \<Rightarrow> char" where
  "base64_char n = (''ABCDEFGHIJKLMNOPQRSTUVWXYZabcdefghijklmnopqrstuvwxyz0123456789+/'' ! n)"

fun base64 :: "nat list \<Rightarrow> string" where
  "base64 [] = []"
| "base64 [a] = [base64_char (a div 4), base64_char (a mod 4 * 16), CHR ''='', CHR ''='']"
| "base64 [a, b] = [base64_char (a div 4), base64_char (a mod 4 * 16 + b div 16), base64_char (b mod 16 * 4), CHR ''='']"
| "base64 (a # b # c # rest) =
     base64_char (a div 4) # base64_char (a mod 4 * 16 + b div 16) # base64_char (b mod 16 * 4 + c div 64) #
     base64_char (c mod 64) # base64 rest"

definition qrToDataUri :: "string \<Rightarrow> nat option \<Rightarrow> nat option \<Rightarrow> string result" where
  "qrToDataUri txt moduleSize margin =
     (case qrToSvg txt moduleSize margin of
        Inl err \<Rightarrow> Inl err
      | Inr svg \<Rightarrow> Inr (''data:image/svg+xml;base64,'' @ base64 (map unat (utf8 svg))))"

section \<open>One square for each dark module\<close>

lemma digits_no_letter: "\<not> is_digit c \<Longrightarrow> count_list (nat_digits n) c = 0"
  using nat_digits_digit[of n] by (auto simp: count_list_0_iff list_all_iff)

lemma count_list_append: "count_list (xs @ ys) c = count_list xs c + count_list ys c"
  by (induction xs) simp_all

lemma square_closes_once: "count_list (svg_square m margin r c) CHR ''z'' = 1"
proof -
  have "\<not> is_digit CHR ''z''" by (simp add: is_digit_def)
  then show ?thesis by (simp add: svg_square_def digits_no_letter count_list_append)
qed

lemma svg_path_squares:
  "count_list (svg_path m margin n modules) CHR ''z'' =
     length (filter (\<lambda>(r, c). grid_at modules r c) (List.product [0..<n] [0..<n]))"
proof -
  have "count_list (concat (map (\<lambda>(r, c). if \<not> grid_at modules r c then [] else svg_square m margin r c) xs)) CHR ''z'' =
      length (filter (\<lambda>(r, c). grid_at modules r c) xs)" for xs
    by (induction xs) (auto simp: count_list_append square_closes_once)
  then show ?thesis by (simp add: svg_path_def)
qed

lemma length_base64: "length (base64 bs) = 4 * ((length bs + 2) div 3)"
proof (induction bs rule: base64.induct)
  case (4 a b c rest)
  have "(length rest + 2 + 3) div 3 = (length rest + 2) div 3 + 1" by simp
  with 4 show ?case by (simp add: algebra_simps)
qed simp_all

text \<open>Rendering refuses exactly the texts that fit no version, whatever the options.\<close>

lemma qrToSvg_iff: "is_ok (qrToSvg txt m margin) \<longleftrightarrow> is_ok (chooseVersion txt (detectMode txt))"
proof (cases "chooseVersion txt (detectMode txt)")
  case (Inl err)
  then show ?thesis by (simp add: qrToSvg_def encodeToMatrix_def Let_def is_ok_def)
next
  case (Inr v)
  obtain qr where "encodeToMatrix txt = Inr qr" using encode_result[OF Inr] by blast
  with Inr show ?thesis by (simp add: qrToSvg_def Let_def)
qed

end
