(* ===== verification/Pricing.thy ===== *)
theory Pricing
  imports Json
begin

text \<open>
  \<^verbatim>\<open>src/pricing/\<close>: the exchange-rate table, its refreshed cache, and the conversion of amounts in minor
  units. Rates are doubles, and every product and quotient is rounded as the machine rounds it;
  \<open>Math.pow(10, k)\<close> is the double nearest to the power. A currency's name is not one of the names every
  JavaScript object inherits, such as \<open>constructor\<close>.
\<close>

section \<open>The table of rates\<close>

text \<open>\<open>ratesFromBase\<close>: units of each currency per unit of the base.\<close>

record rate_table =
  fx_base :: string
  fx_rates :: "(string, num) jsmap"

definition valid_rate :: "num \<Rightarrow> bool" where
  "valid_rate v = (case v of Fin q \<Rightarrow> 0 < q | _ \<Rightarrow> False)"

definition with_base :: "string \<Rightarrow> (string, num) jsmap \<Rightarrow> (string, num) jsmap" where
  "with_base base table = (if jm_get table base = None then jm_set base (Fin 1) table else table)"

definition newStaticRates :: "string \<Rightarrow> (string, num) jsmap \<Rightarrow> rate_table result" where
  "newStaticRates base rates =
     (let table = with_base base rates
      in case filter (\<lambda>(_, v). \<not> valid_rate v) table of
           [] \<Rightarrow> Inr \<lparr>fx_base = base, fx_rates = table\<rparr>
         | (currency, v) # _ \<Rightarrow>
             Inl (PlainError (''StaticExchangeRateProvider: invalid rate for '' @ currency @ '': '' @ num_text v)))"

definition rate_lookup :: "rate_table \<Rightarrow> string \<Rightarrow> num result" where
  "rate_lookup t currency =
     (case jm_get (fx_rates t) currency of
        None \<Rightarrow> Inl (PlainError (''StaticExchangeRateProvider: unknown currency '' @ [CHR 39] @ currency @ [CHR 39] @
          '' (base '' @ [CHR 39] @ fx_base t @ [CHR 39] @ '', known: '' @ join_with '', '' (jm_keys (fx_rates t)) @ '')''))
      | Some v \<Rightarrow> Inr v)"

definition static_rate :: "rate_table \<Rightarrow> string \<Rightarrow> string \<Rightarrow> num result" where
  "static_rate t from to =
     (if from = to
      then (case rate_lookup t from of Inl err \<Rightarrow> Inl err | Inr _ \<Rightarrow> Inr (Fin 1))
      else case rate_lookup t to of
             Inl err \<Rightarrow> Inl err
           | Inr a \<Rightarrow> (case rate_lookup t from of Inl err \<Rightarrow> Inl err | Inr b \<Rightarrow> Inr (num_div a b)))"

definition DEMO_RATES_FROM_CNY :: "(string, num) jsmap" where
  "DEMO_RATES_FROM_CNY =
     [(''CNY'', Fin 1),
      (''USD'', num_div (Fin 1) (of_exact (72 / 10))),
      (''EUR'', num_div (Fin 1) (of_exact (78 / 10))),
      (''USDT'', num_div (Fin 1) (of_exact (72 / 10)))]"

section \<open>The refreshed cache\<close>

text \<open>
  \<open>CachingExchangeRateProvider\<close>; \<open>cf_fallback\<close> is the provider it was given, \<open>cf_timer\<close> the period of
  the running interval.
\<close>

type_synonym rates = "string \<Rightarrow> string \<Rightarrow> num result"

record caching_rates =
  cf_base :: string
  cf_fallback :: rates
  cf_ttlMs :: int
  cf_cached :: "rate_table option"
  cf_lastRefreshAt :: "int option"
  cf_timer :: "int option"

definition new_caching :: "string \<Rightarrow> rates \<Rightarrow> int option \<Rightarrow> caching_rates" where
  "new_caching base fallback ttlMs =
     \<lparr>cf_base = base, cf_fallback = fallback, cf_ttlMs = (case ttlMs of None \<Rightarrow> 3600000 | Some t \<Rightarrow> t),
      cf_cached = None, cf_lastRefreshAt = None, cf_timer = None\<rparr>"

definition caching_rate :: "caching_rates \<Rightarrow> rates" where
  "caching_rate c from to = (case cf_cached c of None \<Rightarrow> cf_fallback c from to | Some t \<Rightarrow> static_rate t from to)"

text \<open>\<open>fetched\<close> is what \<open>feed.fetchRates\<close> returned, or the error it threw.\<close>

definition refresh :: "env \<Rightarrow> (string, num) jsmap result \<Rightarrow> caching_rates \<Rightarrow> bool \<times> caching_rates" where
  "refresh e fetched c =
     (case fetched of
        Inl _ \<Rightarrow> (False, c)
      | Inr rates \<Rightarrow>
          let table = with_base (cf_base c) rates
          in case newStaticRates (cf_base c) table of
               Inl _ \<Rightarrow> (False, c)
             | Inr t \<Rightarrow> (True, c\<lparr>cf_cached := Some t, cf_lastRefreshAt := Some (now_at e 0)\<rparr>))"

definition isStale :: "env \<Rightarrow> caching_rates \<Rightarrow> bool" where
  "isStale e c = (case cf_lastRefreshAt c of None \<Rightarrow> True | Some t \<Rightarrow> now_at e 0 - t > cf_ttlMs c)"

definition fx_stop :: "caching_rates \<Rightarrow> caching_rates" where
  "fx_stop c = c\<lparr>cf_timer := None\<rparr>"

definition fx_start :: "int option \<Rightarrow> caching_rates \<Rightarrow> caching_rates" where
  "fx_start intervalMs c =
     (fx_stop c)\<lparr>cf_timer := Some (case intervalMs of None \<Rightarrow> cf_ttlMs c | Some p \<Rightarrow> p)\<rparr>"

section \<open>Conversion\<close>

definition DECIMALS :: "(string, int) jsmap" where
  "DECIMALS = [(''CNY'', 2), (''USDT'', 6), (''USD'', 2), (''EUR'', 2)]"

definition decimalsOf :: "string \<Rightarrow> int result" where
  "decimalsOf currency =
     (case jm_get DECIMALS currency of
        None \<Rightarrow> Inl (PlainError (''unknown currency '' @ [CHR 39] @ currency @ [CHR 39] @ '' (known: '' @
          join_with '', '' (jm_keys DECIMALS) @ '')''))
      | Some d \<Rightarrow> Inr d)"

definition math_pow10 :: "int \<Rightarrow> num" where
  "math_pow10 k = of_exact (pow10 k)"

definition convertMinor :: "num \<Rightarrow> num \<Rightarrow> int \<Rightarrow> int \<Rightarrow> int result" where
  "convertMinor amountMinor rate decimalsFrom decimalsTo =
     (if \<not> is_integer_num amountMinor \<or> num_sign amountMinor < 0
      then Inl (PlainError (''convertMinor: amountMinor must be a non-negative integer, got '' @ num_text amountMinor))
      else if \<not> (case rate of Fin q \<Rightarrow> 0 \<le> q | _ \<Rightarrow> False)
      then Inl (PlainError (''convertMinor: rate must be a non-negative finite number, got '' @ num_text rate))
      else if decimalsFrom < 0
      then Inl (PlainError (''convertMinor: decimalsFrom must be a non-negative integer, got '' @ string_of_int decimalsFrom))
      else if decimalsTo < 0
      then Inl (PlainError (''convertMinor: decimalsTo must be a non-negative integer, got '' @ string_of_int decimalsTo))
      else let scale = math_pow10 (decimalsTo - decimalsFrom);
               resultMinor = num_round (num_mul (num_mul amountMinor rate) scale)
           in case resultMinor of
                Fin q \<Rightarrow> if \<bar>q\<bar> \<le> of_int MAX_SAFE_INTEGER then Inr \<lfloor>q\<rfloor>
                  else Inl (PlainError (''convertMinor: result '' @ num_text resultMinor @ '' exceeds safe integer range''))
              | _ \<Rightarrow> Inl (PlainError (''convertMinor: result '' @ num_text resultMinor @ '' exceeds safe integer range'')))"

definition formatMinor :: "int \<Rightarrow> int \<Rightarrow> string result" where
  "formatMinor amountMinor decimals =
     (if amountMinor < 0
      then Inl (PlainError (''formatMinor: amountMinor must be a non-negative integer, got '' @ string_of_int amountMinor))
      else if decimals = 0 then Inr (string_of_int amountMinor)
      else let factor = 10 ^ nat decimals;
               intPart = amountMinor div factor;
               fracPart = padStart (nat decimals) CHR ''0'' (string_of_int (amountMinor mod factor))
           in Inr (string_of_int intPart @ ''.'' @ fracPart))"

record quote =
  qt_amountMinor :: int
  qt_amountDisplay :: string
  qt_currency :: string
  qt_rate :: num

definition pricing_quote :: "rates \<Rightarrow> num \<Rightarrow> string \<Rightarrow> string \<Rightarrow> quote result" where
  "pricing_quote rate amountMinor from to =
     (case decimalsOf from of Inl err \<Rightarrow> Inl err | Inr decimalsFrom \<Rightarrow>
     (case decimalsOf to of Inl err \<Rightarrow> Inl err | Inr decimalsTo \<Rightarrow>
     (case rate from to of Inl err \<Rightarrow> Inl err | Inr r \<Rightarrow>
     (case convertMinor amountMinor r decimalsFrom decimalsTo of Inl err \<Rightarrow> Inl err | Inr converted \<Rightarrow>
     (case formatMinor converted decimalsTo of Inl err \<Rightarrow> Inl err | Inr display \<Rightarrow>
        Inr \<lparr>qt_amountMinor = converted, qt_amountDisplay = display, qt_currency = to, qt_rate = r\<rparr>)))))"

section \<open>The table is always usable\<close>

definition table_ok :: "rate_table \<Rightarrow> bool" where
  "table_ok t = (list_all (\<lambda>(_, v). valid_rate v) (fx_rates t) \<and> jm_get (fx_rates t) (fx_base t) \<noteq> None)"

lemma with_base_has: "jm_get (with_base base table) base \<noteq> None"
  by (simp add: with_base_def update_conv)

lemma invalid_none: "filter (\<lambda>(_, v). \<not> valid_rate v) xs = [] \<longleftrightarrow> list_all (\<lambda>(_, v). valid_rate v) xs"
  by (induction xs) auto

lemma newStaticRates_valid:
  "list_all (\<lambda>(_, v). valid_rate v) (with_base base rates) \<Longrightarrow>
     newStaticRates base rates = Inr \<lparr>fx_base = base, fx_rates = with_base base rates\<rparr>"
  unfolding invalid_none[symmetric] by (simp add: newStaticRates_def Let_def)

lemma newStaticRates_invalid:
  "\<not> list_all (\<lambda>(_, v). valid_rate v) (with_base base rates) \<Longrightarrow> \<exists>err. newStaticRates base rates = Inl err"
  unfolding invalid_none[symmetric] by (auto simp: newStaticRates_def Let_def split: list.split)

lemma newStaticRates_ok:
  "newStaticRates base rates = Inr t \<Longrightarrow> table_ok t \<and> fx_base t = base \<and> fx_rates t = with_base base rates"
  using with_base_has[of base rates] newStaticRates_valid[of base rates] newStaticRates_invalid[of base rates]
  by (cases "list_all (\<lambda>(_, v). valid_rate v) (with_base base rates)") (auto simp: table_ok_def)

lemma rate_lookup_ok:
  assumes "table_ok t" "rate_lookup t c = Inr v"
  obtains q where "v = Fin q" "0 < q"
proof -
  have "(c, v) \<in> set (fx_rates t)"
    using assms(2) by (auto simp: rate_lookup_def split: option.splits dest: map_of_SomeD)
  then have "valid_rate v" using assms(1) by (auto simp: table_ok_def list_all_iff)
  then show ?thesis using that by (cases v) (auto simp: valid_rate_def)
qed

definition knows :: "rate_table \<Rightarrow> string \<Rightarrow> bool" where
  "knows t c = (jm_get (fx_rates t) c \<noteq> None)"

lemma static_rate_answers: "(\<exists>r. static_rate t a b = Inr r) = (knows t a \<and> knows t b)"
  by (auto simp: static_rate_def rate_lookup_def knows_def split: option.splits)

lemma static_rate_self: "knows t a \<Longrightarrow> static_rate t a a = Inr (Fin 1)"
  by (auto simp: static_rate_def rate_lookup_def knows_def split: option.splits)

section \<open>The cache keeps the last usable rates\<close>

fun refresh_all :: "(env \<times> (string, num) jsmap result) list \<Rightarrow> caching_rates \<Rightarrow> caching_rates" where
  "refresh_all [] c = c"
| "refresh_all ((e, fetched) # rest) c = refresh_all rest (snd (refresh e fetched c))"

definition usable :: "string \<Rightarrow> (string, num) jsmap result \<Rightarrow> bool" where
  "usable base fetched = (case fetched of Inl _ \<Rightarrow> False | Inr rates \<Rightarrow> list_all (\<lambda>(_, v). valid_rate v) (with_base base rates))"

lemma with_base_idem [simp]: "with_base base (with_base base rates) = with_base base rates"
  using with_base_has[of base rates] by (simp add: with_base_def)

lemma refresh_usable:
  "usable (cf_base c) fetched \<Longrightarrow>
     refresh e fetched c = (True, c\<lparr>cf_cached := Some \<lparr>fx_base = cf_base c, fx_rates = with_base (cf_base c) (projr fetched)\<rparr>,
       cf_lastRefreshAt := Some (now_at e 0)\<rparr>)"
  by (auto simp: usable_def refresh_def newStaticRates_valid Let_def split: sum.splits)

lemma refresh_unusable: "\<not> usable (cf_base c) fetched \<Longrightarrow> refresh e fetched c = (False, c)"
  using newStaticRates_invalid[of "cf_base c" "with_base (cf_base c) (projr fetched)"]
  by (auto simp: usable_def refresh_def Let_def split: sum.splits)

lemma refresh_all_append: "refresh_all (xs @ ys) c = refresh_all ys (refresh_all xs c)"
  by (induction xs c rule: refresh_all.induct) simp_all

lemma refresh_base [simp]: "cf_base (snd (refresh e f c)) = cf_base c" "cf_fallback (snd (refresh e f c)) = cf_fallback c"
  by (simp_all add: refresh_def Let_def split: sum.split)

lemma refresh_all_base [simp]: "cf_base (refresh_all xs c) = cf_base c" "cf_fallback (refresh_all xs c) = cf_fallback c"
  by (induction xs c rule: refresh_all.induct) simp_all

text \<open>The table of the last usable answer of the feed, if there was one.\<close>

definition last_usable :: "string \<Rightarrow> (env \<times> (string, num) jsmap result) list \<Rightarrow> rate_table option" where
  "last_usable base xs =
     (case filter (\<lambda>(_, f). usable base f) xs of
        [] \<Rightarrow> None
      | ys \<Rightarrow> Some \<lparr>fx_base = base, fx_rates = with_base base (projr (snd (last ys)))\<rparr>)"

lemma cached_last_usable:
  "cf_cached (refresh_all xs c) = (case last_usable (cf_base c) xs of None \<Rightarrow> cf_cached c | Some t \<Rightarrow> Some t)"
proof (induction xs rule: rev_induct)
  case (snoc x xs)
  obtain e f where x: "x = (e, f)" by (cases x)
  show ?case
  proof (cases "usable (cf_base c) f")
    case True
    then show ?thesis
      using refresh_usable[of "refresh_all xs c" f e]
      by (cases "filter (\<lambda>(_, f). usable (cf_base c) f) xs") (simp_all add: x refresh_all_append last_usable_def)
  next
    case False
    then show ?thesis
      using refresh_unusable[of "refresh_all xs c" f e] snoc by (simp add: x refresh_all_append last_usable_def)
  qed
qed (simp add: last_usable_def)

lemma usable_table: "usable base f \<Longrightarrow> list_all (\<lambda>(_, v). valid_rate v) (with_base base (projr f))"
  by (cases f) (simp_all add: usable_def)

lemma last_usable_ok: "last_usable base xs = Some t \<Longrightarrow> table_ok t"
proof -
  assume t: "last_usable base xs = Some t"
  let ?ys = "filter (\<lambda>(_, f). usable base f) xs"
  have ne: "?ys \<noteq> []" using t by (auto simp: last_usable_def split: list.splits)
  then have "last ?ys \<in> set ?ys" by (rule last_in_set)
  then have u: "usable base (snd (last ?ys))" by auto
  have t': "t = \<lparr>fx_base = base, fx_rates = with_base base (projr (snd (last ?ys)))\<rparr>"
    using t ne by (auto simp: last_usable_def split: list.splits)
  show ?thesis
    using usable_table[OF u] with_base_has[of base "projr (snd (last ?ys))"] by (simp add: t' table_ok_def)
qed

section \<open>The error of a conversion\<close>

lemma is_integer_Fin: "is_integer_num (Fin q) \<Longrightarrow> \<exists>i. q = of_int i"
  by (auto simp: is_integer_def intro: exI[of _ "\<lfloor>q\<rfloor>"])

text \<open>The same currency: the amount itself.\<close>

lemma convert_same:
  assumes "0 \<le> a" "a \<le> MAX_SAFE_INTEGER" "0 \<le> d"
  shows "convertMinor (Fin (of_int a)) (Fin 1) d d = Inr a"
proof -
  have small: "\<bar>a\<bar> \<le> 2 ^ 53" using assms by (simp add: MAX_SAFE_INTEGER_def)
  have one: "math_pow10 0 = Fin 1" using of_exact_int[of 1] by (simp add: math_pow10_def pow10_def)
  have "num_round (num_mul (num_mul (Fin (of_int a)) (Fin 1)) (Fin 1)) = Fin (of_int a)"
    using of_exact_int[OF small] by (simp add: floor_eq_iff)
  moreover have "\<bar>of_int a :: rat\<bar> \<le> of_int MAX_SAFE_INTEGER" using assms by (simp only: of_int_abs[symmetric] of_int_le_iff)
  ultimately show ?thesis using assms by (simp add: convertMinor_def one num_sign_def Let_def)
qed

text \<open>
  \<open>X\<close> is the exact product of amount and rate, \<open>S\<close> the exact scale: two roundings of products and one of
  the scale, and the error they leave.
\<close>

lemma product_error:
  assumes "0 \<le> X" "0 < S" "S \<le> 10 ^ 4"
    and p: "of_exact X = Fin p" and s: "\<bar>s - S\<bar> \<le> S / 2 ^ 52" and z: "of_exact (p * s) = Fin z"
  shows "\<bar>z - X * S\<bar> \<le> X * S / 2 ^ 50 + 1 / 2 ^ 1000" "0 \<le> z"
proof -
  define u h :: rat where "u = 1 / 2 ^ 53" and "h = pow2 (- 1075)"
  have u: "0 \<le> u" "2 * u \<le> 1" and h: "0 \<le> h" by (simp_all add: u_def h_def)
  have pe: "\<bar>p - X\<bar> \<le> X * u + h" and p0: "0 \<le> p"
    using of_exact_bound[OF assms(1) p] by (simp_all add: u_def h_def)
  have se: "\<bar>s - S\<bar> \<le> S * (2 * u)" using s by (simp add: u_def)
  moreover have "S * (2 * u) \<le> S" using mult_left_mono[OF u(2), of S] assms(2) by simp
  ultimately have s0: "0 \<le> s" and s2: "s \<le> 2 * S" by (auto simp: abs_le_iff)
  have ps0: "0 \<le> p * s" using p0 s0 by simp
  have ze: "\<bar>z - p * s\<bar> \<le> p * s * u + h" and z0: "0 \<le> z"
    using of_exact_bound[OF ps0 z] by (simp_all add: u_def h_def)
  have "X * u \<le> X" using mult_left_mono[of u 1 X] assms(1) u by simp
  then have p2: "p \<le> 2 * X + h" using pe by (simp add: abs_le_iff)
  have "p * s \<le> (2 * X + h) * (2 * S)" using p2 s2 s0 p0 assms(1) h by (intro mult_mono) auto
  then have "p * s * u \<le> (2 * X + h) * (2 * S) * u" using u by (intro mult_right_mono) auto
  then have e1: "\<bar>z - p * s\<bar> \<le> 4 * (X * S * u) + 2 * (S * h * u) + h" using ze by (simp add: algebra_simps)
  have "\<bar>p - X\<bar> * s \<le> (X * u + h) * (2 * S)" using pe s2 s0 assms(1) u h by (intro mult_mono) auto
  moreover have "X * \<bar>s - S\<bar> \<le> X * (S * (2 * u))" using se assms(1) by (intro mult_left_mono) auto
  moreover have "\<bar>p * s - X * S\<bar> \<le> \<bar>p - X\<bar> * s + X * \<bar>s - S\<bar>"
  proof -
    have "p * s - X * S = (p - X) * s + X * (s - S)" by (simp add: algebra_simps)
    then have "\<bar>p * s - X * S\<bar> \<le> \<bar>(p - X) * s\<bar> + \<bar>X * (s - S)\<bar>" by (simp only: abs_triangle_ineq)
    then show ?thesis using s0 assms(1) by (simp add: abs_mult)
  qed
  ultimately have e2: "\<bar>p * s - X * S\<bar> \<le> 4 * (X * S * u) + 2 * (S * h)" by (simp add: algebra_simps)
  have "S * h * u \<le> S * h" using mult_left_mono[of u 1 "S * h"] assms(2) h u by simp
  then have "\<bar>z - X * S\<bar> \<le> 8 * (X * S * u) + 4 * (S * h) + h" using e1 e2 by linarith
  moreover have "8 * (X * S * u) = X * S / 2 ^ 50" by (simp add: u_def)
  moreover have "4 * (S * h) + h \<le> 1 / 2 ^ 1000"
  proof -
    have "S * h \<le> 10 ^ 4 * h" using assms(3) h by (rule mult_right_mono)
    then have "4 * (S * h) + h \<le> (4 * 10 ^ 4 + 1) * h" by simp
    also have "\<dots> \<le> 1 / 2 ^ 1000" by (simp add: h_def pow2_def power_int_minus)
    finally show ?thesis .
  qed
  ultimately show "\<bar>z - X * S\<bar> \<le> X * S / 2 ^ 50 + 1 / 2 ^ 1000" by (metis add_left_mono add.assoc order_trans)
  show "0 \<le> z" by (rule z0)
qed

lemma pow10_values: "pow10 (- 4) = 1 / 10000" "pow10 0 = 1" "pow10 4 = 10000"
  by (simp_all add: pow10_def power_int_def power_divide)

lemma double_small_scale: "of_exact (1 / 10000) = Fin (7378697629483821 / 73786976294838206464)"
proof -
  have q: "quotient_of (1 / 10000) = (1, 10000)" by code_simp
  have b: "bit_count 10000 = 14" "bit_count 1 = 1" by code_simp+
  have l: "last_place (1 / 10000) = - 66"
    by (simp add: last_place_def q b pow2_def power_int_def power_divide)
  have r: "round_pos (1 / 10000) = 7378697629483821 / 73786976294838206464"
    by (simp add: round_pos_def l pow2_def power_int_minus round_even_def
        floor_divide_of_int_eq[of 73786976294838206464 10000, simplified])
  show ?thesis by (simp add: of_exact_def to_double_def r pow2_nat[of 1024, simplified])
qed

text \<open>The scales that the decimals of the currencies give.\<close>

lemma scale_error:
  assumes "k = - 4 \<or> k = 0 \<or> k = 4"
  shows "\<exists>s. math_pow10 k = Fin s \<and> \<bar>s - pow10 k\<bar> \<le> pow10 k / 2 ^ 52"
proof -
  have "math_pow10 (- 4) = Fin (7378697629483821 / 73786976294838206464)"
    by (simp add: math_pow10_def pow10_values double_small_scale)
  moreover have "math_pow10 0 = Fin 1" "math_pow10 4 = Fin 10000"
    using of_exact_int[of 1] of_exact_int[of 10000] by (simp_all add: math_pow10_def pow10_values)
  ultimately show ?thesis using assms by (auto simp: pow10_values)
qed

lemma decimals_of: "decimalsOf c = Inr d \<Longrightarrow> d = 2 \<or> d = 6"
  by (auto simp: decimalsOf_def DECIMALS_def split: if_splits option.splits)

text \<open>What a conversion yields: the exact product, rounded to the nearest unit up to the error.\<close>

lemma convert_error:
  assumes c: "convertMinor (Fin (of_int a)) (Fin r) df dt = Inr m" and d: "df = 2 \<or> df = 6" "dt = 2 \<or> dt = 6"
  shows "\<bar>of_int m - of_int a * r * pow10 (dt - df)\<bar> \<le> 1 / 2 + of_int a * r * pow10 (dt - df) / 2 ^ 50 + 1 / 2 ^ 1000"
    "0 \<le> m" "m \<le> MAX_SAFE_INTEGER"
proof -
  let ?X = "of_int a * r" and ?S = "pow10 (dt - df)"
  have a: "0 \<le> a" and r: "0 \<le> r"
    using c by (auto simp: convertMinor_def num_sign_def split: if_splits)
  have k: "dt - df = - 4 \<or> dt - df = 0 \<or> dt - df = 4" using d by auto
  obtain s where s: "math_pow10 (dt - df) = Fin s" "\<bar>s - ?S\<bar> \<le> ?S / 2 ^ 52" using scale_error[OF k] by blast
  have S: "0 < ?S" "?S \<le> 10 ^ 4" using k by (auto simp: pow10_values)
  have X: "0 \<le> ?X" using a r by simp
  have s_pos: "0 < s"
  proof -
    have "?S / 2 ^ 52 < ?S" using S(1) by (simp add: divide_less_eq)
    then show ?thesis using s(2) by linarith
  qed
  obtain p where p: "of_exact ?X = Fin p"
  proof (cases "of_exact ?X")
    case (Fin p)
    then show ?thesis by (rule that)
  qed (use c d s s_pos in \<open>auto simp: convertMinor_def num_sign_def Let_def split: if_splits num.splits\<close>)
  obtain z where z: "of_exact (p * s) = Fin z"
  proof (cases "of_exact (p * s)")
    case (Fin z)
    then show ?thesis by (rule that)
  qed (use c d s p in \<open>auto simp: convertMinor_def num_sign_def Let_def split: if_splits num.splits\<close>)
  have m: "m = \<lfloor>z + 1 / 2\<rfloor>" and safe: "\<bar>of_int m :: rat\<bar> \<le> of_int MAX_SAFE_INTEGER"
    using c d s p z by (auto simp: convertMinor_def Let_def split: if_splits)
  have e: "\<bar>z - ?X * ?S\<bar> \<le> ?X * ?S / 2 ^ 50 + 1 / 2 ^ 1000" "0 \<le> z"
    using product_error[OF X S p s(2) z] by auto
  have "\<bar>of_int m - z\<bar> \<le> 1 / 2" unfolding m by linarith
  then show "\<bar>of_int m - ?X * ?S\<bar> \<le> 1 / 2 + ?X * ?S / 2 ^ 50 + 1 / 2 ^ 1000" using e(1) by linarith
  show "0 \<le> m" using e(2) unfolding m by linarith
  show "m \<le> MAX_SAFE_INTEGER" using safe by (simp only: of_int_abs[symmetric] of_int_le_iff)
qed

text \<open>
  C10: a quote is the product of amount, rate and scale, rounded to the nearest minor unit of the target
  currency up to the error of the machine's products, which is below one part in \<open>2 ^ 50\<close>; it is not
  negative and not above the largest safe integer.
\<close>

theorem quote_error:
  assumes "pricing_quote rate (Fin (of_int a)) from to = Inr q" "rate from to = Inr (Fin r)"
    and "decimalsOf from = Inr df" "decimalsOf to = Inr dt"
  shows "\<bar>of_int (qt_amountMinor q) - of_int a * r * pow10 (dt - df)\<bar>
      \<le> 1 / 2 + of_int a * r * pow10 (dt - df) / 2 ^ 50 + 1 / 2 ^ 1000 \<and>
    0 \<le> qt_amountMinor q \<and> qt_amountMinor q \<le> MAX_SAFE_INTEGER \<and> qt_currency q = to"
proof -
  have c: "convertMinor (Fin (of_int a)) (Fin r) df dt = Inr (qt_amountMinor q)" and cur: "qt_currency q = to"
    using assms by (auto simp: pricing_quote_def split: sum.splits)
  show ?thesis using convert_error[OF c decimals_of[OF assms(3)] decimals_of[OF assms(4)]] cur by blast
qed

lemma demo_quote:
  "pricing_quote (\<lambda>_ _. Inr (Fin 2)) (Fin (of_int 150)) ''CNY'' ''USDT'' =
     Inr \<lparr>qt_amountMinor = 3000000, qt_amountDisplay = ''3.000000'', qt_currency = ''USDT'', qt_rate = Fin 2\<rparr>"
proof -
  have s: "math_pow10 4 = Fin 10000" using of_exact_int[of 10000] by (simp add: math_pow10_def pow10_values)
  have "num_mul (Fin 150) (Fin 2) = Fin 300" using of_exact_int[of 300] by simp
  moreover have "num_mul (Fin 300) (Fin 10000) = Fin 3000000" using of_exact_int[of 3000000] by simp
  moreover have "num_round (Fin 3000000) = Fin 3000000" by (simp add: floor_eq_iff)
  moreover have "is_integer 150" using is_integer_of_int[of 150] by simp
  ultimately have "convertMinor (Fin 150) (Fin 2) 2 6 = Inr 3000000"
    by (simp add: convertMinor_def s num_sign_def Let_def MAX_SAFE_INTEGER_def del: num_mul.simps num_round.simps)
  moreover have "formatMinor 3000000 6 = Inr ''3.000000''" by code_simp
  moreover have "decimalsOf ''CNY'' = Inr 2" "decimalsOf ''USDT'' = Inr 6" by code_simp+
  ultimately show ?thesis by (simp add: pricing_quote_def)
qed

theorem quote_error_witness:
  "\<bar>of_int 3000000 - of_int 150 * 2 * pow10 (6 - 2)\<bar> \<le> 1 / 2 + of_int 150 * 2 * pow10 (6 - 2) / 2 ^ 50 + (1 :: rat) / 2 ^ 1000"
proof -
  have "decimalsOf ''CNY'' = Inr 2" "decimalsOf ''USDT'' = Inr 6" by code_simp+
  then show ?thesis using quote_error[OF demo_quote, of 2 2 6] by simp
qed

text \<open>
  the cached provider answers from the feed's last usable table, in which every rate is a positive
  finite number and the base is present; an answer of the feed that is an error or has a rate that is
  not usable changes nothing, and before the first usable one the fallback answers.
\<close>

theorem fx_cache_serves_last:
  "caching_rate (refresh_all fetches (new_caching base fallback ttl)) a b =
     (case last_usable base fetches of None \<Rightarrow> fallback a b | Some t \<Rightarrow> static_rate t a b) \<and>
   (case last_usable base fetches of None \<Rightarrow> True | Some t \<Rightarrow> table_ok t)"
  using last_usable_ok[of base fetches] cached_last_usable[of fetches "new_caching base fallback ttl"]
  by (simp add: caching_rate_def new_caching_def split: option.split)

end
