(* ===== verification/Uri.thy ===== *)
theory Uri
  imports Bytes
begin

text \<open>
  Text from UTF-8 bytes, and \<open>encodeURIComponent\<close> and \<open>decodeURIComponent\<close>, with the round trip
  between them.
\<close>

section \<open>Text from bytes\<close>

text \<open>
  \<open>Buffer.toString('utf8')\<close> and the decoding of percent escapes. A character of the model holds the code
  points below 256; the bytes of any other code point stay in the text one by one.
\<close>

fun utf8_string :: "nat list \<Rightarrow> string" where
  "utf8_string [] = []"
| "utf8_string [b] = [char_of b]"
| "utf8_string (b # c # cs) =
     (if (b = 0xc2 \<or> b = 0xc3) \<and> 128 \<le> c \<and> c < 192
      then char_of ((b - 192) * 64 + (c - 128)) # utf8_string cs
      else char_of b # utf8_string (c # cs))"

text \<open>The bytes of one percent-escaped code point, as \<open>decodeURIComponent\<close> accepts it: well-formed UTF-8.\<close>

definition code_point_ok :: "nat list \<Rightarrow> bool" where
  "code_point_ok bs =
     (case bs of
        [a] \<Rightarrow> a < 128
      | [a, b] \<Rightarrow> 0xc2 \<le> a \<and> a \<le> 0xdf \<and> 128 \<le> b \<and> b < 192
      | [a, b, c] \<Rightarrow> 0xe0 \<le> a \<and> a \<le> 0xef \<and> 128 \<le> b \<and> b < 192 \<and> 128 \<le> c \<and> c < 192 \<and>
          (a = 0xe0 \<longrightarrow> 0xa0 \<le> b) \<and> (a = 0xed \<longrightarrow> b < 0xa0)
      | [a, b, c, d] \<Rightarrow> 0xf0 \<le> a \<and> a \<le> 0xf4 \<and> 128 \<le> b \<and> b < 192 \<and> 128 \<le> c \<and> c < 192 \<and> 128 \<le> d \<and> d < 192 \<and>
          (a = 0xf0 \<longrightarrow> 0x90 \<le> b) \<and> (a = 0xf4 \<longrightarrow> b < 0x90)
      | _ \<Rightarrow> False)"

definition code_point_length :: "nat \<Rightarrow> nat" where
  "code_point_length b = (if b < 128 then 1 else if b < 0xe0 then 2 else if b < 0xf0 then 3 else 4)"

text \<open>The next \<open>n\<close> escapes \<open>%XX\<close> of the text.\<close>

fun take_escapes :: "nat \<Rightarrow> string \<Rightarrow> (nat list \<times> string) option" where
  "take_escapes 0 s = Some ([], s)"
| "take_escapes (Suc n) (p # a # b # s) =
     (if p = CHR ''%''
      then case (hex_value a, hex_value b) of
             (Some h, Some l) \<Rightarrow> map_option (\<lambda>(bs, rest). ((16 * h + l) # bs, rest)) (take_escapes n s)
           | _ \<Rightarrow> None
      else None)"
| "take_escapes (Suc n) s = None"

lemma take_escapes_shorter: "take_escapes n s = Some (bs, rest) \<Longrightarrow> length s = length rest + 3 * n"
  by (induction n s arbitrary: bs rest rule: take_escapes.induct) (auto split: if_splits option.splits)

text \<open>\<open>None\<close> is the \<open>URIError\<close> that \<open>decodeURIComponent\<close> throws.\<close>

function decodeURIComponent :: "string \<Rightarrow> string option" where
  "decodeURIComponent [] = Some []"
| "decodeURIComponent (c # cs) =
     (if c \<noteq> CHR ''%'' then map_option ((#) c) (decodeURIComponent cs)
      else case take_escapes 1 (c # cs) of
             None \<Rightarrow> None
           | Some (first, _) \<Rightarrow>
               (case take_escapes (code_point_length (hd first)) (c # cs) of
                  None \<Rightarrow> None
                | Some (bs, rest) \<Rightarrow>
                    if code_point_ok bs then map_option ((@) (utf8_string bs)) (decodeURIComponent rest) else None))"
  by pat_completeness auto
termination
proof (relation "measure length")
  fix c cs first rest0 bs rest x y
  assume "take_escapes 1 (c # cs) = Some x" "(first, rest0) = x"
    "take_escapes (code_point_length (hd first)) (c # cs) = Some y" "(bs, rest) = y"
  then have "length (c # cs) = length rest + 3 * code_point_length (hd first)" using take_escapes_shorter by blast
  moreover have "0 < code_point_length (hd first)" by (simp add: code_point_length_def)
  ultimately show "(rest, c # cs) \<in> measure length" by simp
qed auto

section \<open>Encoding\<close>

definition unreserved :: "char \<Rightarrow> bool" where
  "unreserved c = (let n = of_char c :: nat in
     (48 \<le> n \<and> n \<le> 57) \<or> (65 \<le> n \<and> n \<le> 90) \<or> (97 \<le> n \<and> n \<le> 122) \<or> c \<in> set ''-_.!~*()'' \<or> n = 39)"

definition hex_upper :: "nat \<Rightarrow> char" where
  "hex_upper d = (if d < 10 then char_of (48 + d) else char_of (55 + d))"

definition percent_byte :: "nat \<Rightarrow> string" where
  "percent_byte b = [CHR ''%'', hex_upper (b div 16), hex_upper (b mod 16)]"

definition encodeURIComponent :: "string \<Rightarrow> string" where
  "encodeURIComponent s =
     concat (map (\<lambda>c. if unreserved c then [c] else concat (map (\<lambda>b. percent_byte (unat b)) (utf8_char c))) s)"

section \<open>The round trip\<close>

lemma hex_value_upper [simp]: "d < 16 \<Longrightarrow> hex_value (hex_upper d) = Some d"
  by (auto simp: hex_value_def hex_upper_def Let_def)

lemma take_escapes_percent [simp]:
  "b < 256 \<Longrightarrow> take_escapes (Suc n) (percent_byte b @ s) = map_option (\<lambda>(bs, rest). (b # bs, rest)) (take_escapes n s)"
  by (auto simp: percent_byte_def split: option.split)

lemma percent_byte_cons: "percent_byte b @ s = CHR ''%'' # hex_upper (b div 16) # hex_upper (b mod 16) # s"
  by (simp add: percent_byte_def)

lemma decode_percent:
  assumes "code_point_ok bs" "list_all (\<lambda>b. b < 256) bs" "bs \<noteq> []" "code_point_length (hd bs) = length bs"
  shows "decodeURIComponent (concat (map percent_byte bs) @ s) = map_option ((@) (utf8_string bs)) (decodeURIComponent s)"
proof -
  have all: "list_all (\<lambda>b. b < 256) cs \<Longrightarrow> take_escapes (length cs) (concat (map percent_byte cs) @ s) = Some (cs, s)" for cs
    by (induction cs) simp_all
  obtain b cs where bs: "bs = b # cs" using assms(3) by (cases bs) auto
  let ?t = "concat (map percent_byte bs) @ s"
  have one: "take_escapes 1 ?t = Some ([b], concat (map percent_byte cs) @ s)"
    using assms(2) by (simp add: bs)
  have full: "take_escapes (code_point_length b) ?t = Some (bs, s)" using all[OF assms(2)] assms(4) by (simp add: bs)
  obtain t where t: "?t = CHR ''%'' # t" by (simp add: bs percent_byte_cons)
  show ?thesis
    using one full assms(1) unfolding t by simp
qed

lemma utf8_char_bytes: "list_all (\<lambda>b. b < 256) (map unat (utf8_char c))"
  by (simp add: list_all_iff unat_byte_less)

lemma utf8_char_code_point:
  "code_point_ok (map unat (utf8_char c)) \<and> code_point_length (hd (map unat (utf8_char c))) = length (utf8_char c) \<and>
     utf8_string (map unat (utf8_char c)) = [c]"
proof -
  let ?n = "of_char c :: nat"
  have n: "?n < 256" using nat_of_char_less_256[of c] by simp
  have small: "unat (word_of_nat m :: byte) = m" if "m < 256" for m
    using that by (simp add: unat_of_nat take_bit_nat_eq_self)
  show ?thesis
  proof (cases "?n < 128")
    case True
    then show ?thesis by (simp add: utf8_char_def small code_point_ok_def code_point_length_def)
  next
    case False
    define h where "h = ?n div 64"
    have h: "h = 2 \<or> h = 3" using n False unfolding h_def by arith
    have l: "?n mod 64 < 64" by simp
    have hl: "192 + h < 256" "128 + ?n mod 64 < 256" using h l by auto
    have u: "map unat (utf8_char c) = [192 + h, 128 + ?n mod 64]"
      using False small[OF hl(1)] small[OF hl(2)]
      by (simp add: utf8_char_def Let_def del: of_nat_add flip: h_def)
    have "h * 64 + ?n mod 64 = ?n" by (simp add: h_def)
    then have "char_of (h * 64 + ?n mod 64) = c" by simp
    then show ?thesis using h l u
      by (auto simp: u code_point_ok_def code_point_length_def utf8_char_def False Let_def)
  qed
qed

lemma decode_encode [simp]: "decodeURIComponent (encodeURIComponent s) = Some s"
proof (induction s)
  case (Cons c s)
  show ?case
  proof (cases "unreserved c")
    case True
    then have "c \<noteq> CHR ''%''" by (auto simp: unreserved_def)
    then show ?thesis using Cons True by (simp add: encodeURIComponent_def)
  next
    case False
    have "utf8_char c \<noteq> []" by (simp add: utf8_char_def Let_def)
    then show ?thesis
      using decode_percent[of "map unat (utf8_char c)" "encodeURIComponent s"] utf8_char_code_point[of c]
        utf8_char_bytes[of c] Cons False
      by (simp add: encodeURIComponent_def comp_def)
  qed
qed (simp add: encodeURIComponent_def)

lemma utf8_string_length: "length (utf8_string bs) \<le> length bs"
  by (induction bs rule: utf8_string.induct) auto

end
