(* ===== verification/JsonParse.thy ===== *)
theory JsonParse
  imports Uri
begin

text \<open>
  \<open>JSON.parse\<close>, with the round trip from \<open>JSON.stringify\<close>. The characters of a text are code points below
  256; an escape that names another one leaves the bytes of its UTF-8 form. A property whose name is a
  decimal number keeps its place among the others.
\<close>

section \<open>Tokens\<close>

definition json_space :: "char \<Rightarrow> bool" where
  "json_space c = (c = CHR 0x20 \<or> c = CHR 0x09 \<or> c = CHR 0x0A \<or> c = CHR 0x0D)"

definition skip_space :: "string \<Rightarrow> string" where
  "skip_space s = dropWhile json_space s"

text \<open>The characters after an opening quote, as UTF-16 code units, up to the closing one.\<close>

definition simple_escape :: "char \<Rightarrow> nat option" where
  "simple_escape c =
     (if c = CHR 0x22 then Some 34 else if c = CHR 0x5C then Some 92 else if c = CHR ''/'' then Some 47
      else if c = CHR ''b'' then Some 8 else if c = CHR ''f'' then Some 12 else if c = CHR ''n'' then Some 10
      else if c = CHR ''r'' then Some 13 else if c = CHR ''t'' then Some 9 else None)"

definition hex4 :: "char \<Rightarrow> char \<Rightarrow> char \<Rightarrow> char \<Rightarrow> nat option" where
  "hex4 a b c d =
     (case (hex_value a, hex_value b, hex_value c, hex_value d) of
        (Some w, Some x, Some y, Some z) \<Rightarrow> Some (((w * 16 + x) * 16 + y) * 16 + z)
      | _ \<Rightarrow> None)"

fun string_units :: "string \<Rightarrow> (nat list \<times> string) option" where
  "string_units [] = None"
| "string_units (c # s) =
     (if c = CHR 0x22 then Some ([], s)
      else if c = CHR 0x5C then
        (case s of
           [] \<Rightarrow> None
         | e # t \<Rightarrow>
             (case simple_escape e of
                Some u \<Rightarrow> map_option (\<lambda>(us, r). (u # us, r)) (string_units t)
              | None \<Rightarrow>
                  if e = CHR ''u'' then
                    (case t of
                       w # x # y # z # t' \<Rightarrow>
                         (case hex4 w x y z of
                            Some u \<Rightarrow> map_option (\<lambda>(us, r). (u # us, r)) (string_units t')
                          | None \<Rightarrow> None)
                     | _ \<Rightarrow> None)
                  else None))
      else if (of_char c :: nat) < 32 then None
      else map_option (\<lambda>(us, r). (of_char c # us, r)) (string_units s))"

text \<open>The UTF-8 bytes of a code point from 256 on.\<close>

definition wide_bytes :: "nat \<Rightarrow> nat list" where
  "wide_bytes n =
     (if n < 0x800 then [192 + n div 64, 128 + n mod 64]
      else if n < 0x10000 then [224 + n div 4096, 128 + n div 64 mod 64, 128 + n mod 64]
      else [240 + n div 262144, 128 + n div 4096 mod 64, 128 + n div 64 mod 64, 128 + n mod 64])"

definition unit_text :: "nat \<Rightarrow> string" where
  "unit_text n = (if n < 256 then [char_of n] else map char_of (wide_bytes n))"

fun units_text :: "nat list \<Rightarrow> string" where
  "units_text (h # l # us) =
     (if 0xD800 \<le> h \<and> h < 0xDC00 \<and> 0xDC00 \<le> l \<and> l < 0xE000
      then unit_text (0x10000 + (h - 0xD800) * 1024 + (l - 0xDC00)) @ units_text us
      else unit_text h @ units_text (l # us))"
| "units_text [u] = unit_text u"
| "units_text [] = []"

text \<open>A number: no plus sign, no leading zero, digits on both sides of a point and in an exponent.\<close>

definition number_char :: "char \<Rightarrow> bool" where
  "number_char c = (is_digit c \<or> c \<in> set ''+-.eE'')"

definition digits_ok :: "string \<Rightarrow> bool" where
  "digits_ok s = (s \<noteq> [] \<and> list_all is_digit s)"

definition mantissa_ok :: "string \<Rightarrow> bool" where
  "mantissa_ok s =
     (case split_on CHR ''.'' s of
        [i] \<Rightarrow> digits_ok i \<and> (length i = 1 \<or> hd i \<noteq> CHR ''0'')
      | [i, f] \<Rightarrow> digits_ok i \<and> (length i = 1 \<or> hd i \<noteq> CHR ''0'') \<and> digits_ok f
      | _ \<Rightarrow> False)"

definition number_ok :: "string \<Rightarrow> bool" where
  "number_ok t =
     (let u = (if t \<noteq> [] \<and> hd t = CHR ''-'' then tl t else t)
      in case split_on CHR ''e'' (map (\<lambda>c. if c = CHR ''E'' then CHR ''e'' else c) u) of
           [m] \<Rightarrow> mantissa_ok m
         | [m, x] \<Rightarrow> mantissa_ok m \<and>
             digits_ok (if x \<noteq> [] \<and> hd x \<in> set ''+-'' then tl x else x)
         | _ \<Rightarrow> False)"

definition json_of_num :: "num \<Rightarrow> json" where
  "json_of_num x =
     (case x of
        Fin q \<Rightarrow> if is_integer q then JNum \<lfloor>q\<rfloor> else JReal x
      | _ \<Rightarrow> JReal x)"

definition parse_number :: "string \<Rightarrow> (json \<times> string) option" where
  "parse_number s =
     (let t = takeWhile number_char s
      in if number_ok t then Some (json_of_num (js_number_of t), dropWhile number_char s) else None)"

definition literal :: "string \<Rightarrow> json \<Rightarrow> string \<Rightarrow> (json \<times> string) option" where
  "literal w v s = (if take (length w) s = w then Some (v, drop (length w) s) else None)"

definition parse_text :: "string \<Rightarrow> (string \<times> string) option" where
  "parse_text s = map_option (\<lambda>(us, r). (units_text us, r)) (string_units s)"

section \<open>Values\<close>

text \<open>
  \<open>fuel\<close> bounds the calls that are open at a time. Twice the length of the text is enough: of any two calls
  that are open inside one another, one has read a character more.
\<close>

fun parse_value :: "nat \<Rightarrow> string \<Rightarrow> (json \<times> string) option"
and parse_elements :: "nat \<Rightarrow> string \<Rightarrow> (json list \<times> string) option"
and parse_members :: "nat \<Rightarrow> string \<Rightarrow> ((string \<times> json) list \<times> string) option" where
  "parse_value 0 s = None"
| "parse_value (Suc n) s =
     (case skip_space s of
        [] \<Rightarrow> None
      | c # r \<Rightarrow>
          if c = CHR 0x22 then map_option (\<lambda>(t, r'). (JStr t, r')) (parse_text r)
          else if c = CHR ''['' then
            (case skip_space r of
               [] \<Rightarrow> None
             | d # r' \<Rightarrow> if d = CHR '']'' then Some (JArr [], r')
                 else map_option (\<lambda>(xs, r''). (JArr xs, r'')) (parse_elements n r))
          else if c = CHR ''{'' then
            (case skip_space r of
               [] \<Rightarrow> None
             | d # r' \<Rightarrow> if d = CHR ''}'' then Some (JObj [], r')
                 else map_option (\<lambda>(ps, r''). (JObj (foldl (\<lambda>m (k, v). jm_set k v m) [] ps), r'')) (parse_members n r))
          else if c = CHR ''t'' then literal ''true'' (JBool True) (c # r)
          else if c = CHR ''f'' then literal ''false'' (JBool False) (c # r)
          else if c = CHR ''n'' then literal ''null'' JNull (c # r)
          else parse_number (c # r))"
| "parse_elements 0 s = None"
| "parse_elements (Suc n) s =
     (case parse_value n s of
        None \<Rightarrow> None
      | Some (v, r) \<Rightarrow>
          (case skip_space r of
             [] \<Rightarrow> None
           | c # r' \<Rightarrow>
               if c = CHR '']'' then Some ([v], r')
               else if c = CHR '','' then map_option (\<lambda>(vs, r''). (v # vs, r'')) (parse_elements n r')
               else None))"
| "parse_members 0 s = None"
| "parse_members (Suc n) s =
     (case skip_space s of
        [] \<Rightarrow> None
      | q # r0 \<Rightarrow>
          if q \<noteq> CHR 0x22 then None
          else case parse_text r0 of
                 None \<Rightarrow> None
               | Some (k, r1) \<Rightarrow>
                   (case skip_space r1 of
                      [] \<Rightarrow> None
                    | d # r2 \<Rightarrow>
                        if d \<noteq> CHR '':'' then None
                        else case parse_value n r2 of
                               None \<Rightarrow> None
                             | Some (v, r3) \<Rightarrow>
                                 (case skip_space r3 of
                                    [] \<Rightarrow> None
                                  | c # r4 \<Rightarrow>
                                      if c = CHR ''}'' then Some ([(k, v)], r4)
                                      else if c = CHR '','' then
                                        map_option (\<lambda>(ps, r5). ((k, v) # ps, r5)) (parse_members n r4)
                                      else None)))"

text \<open>\<open>None\<close> is the \<open>SyntaxError\<close> it throws.\<close>

definition JSON_parse :: "string \<Rightarrow> json option" where
  "JSON_parse s =
     (case parse_value (2 * length s + 1) s of
        Some (v, r) \<Rightarrow> if skip_space r = [] then Some v else None
      | None \<Rightarrow> None)"

section \<open>The fuel is enough\<close>

lemma string_units_shorter: "string_units s = Some (us, r) \<Longrightarrow> length r < length s"
proof (induction s arbitrary: us rule: measure_induct_rule[of length])
  case (less s)
  have ih: "length t < length s \<Longrightarrow> string_units t = Some (us', r) \<Longrightarrow> length r < length s" for t us'
    using less.IH[of t us'] by linarith
  obtain c t where s: "s = c # t" using less.prems by (cases s) auto
  have res: "string_units (c # t) = Some (us, r)" using less.prems by (simp add: s)
  have "t = [] \<or> (\<exists>u us'. string_units u = Some (us', r) \<and> length u < length s) \<or> r = t"
    using res[unfolded string_units.simps] s
    by (auto simp del: string_units.simps split: if_splits list.splits option.splits)
  then show ?case
  proof (elim disjE exE conjE)
    assume "t = []"
    then show ?thesis using res s by (auto split: if_splits)
  qed (use ih s in auto)
qed

lemma parse_text_shorter: "parse_text s = Some (t, r) \<Longrightarrow> length r < length s"
  by (auto simp: parse_text_def dest: string_units_shorter)

lemma skip_space_shorter: "length (skip_space s) \<le> length s"
  by (simp add: skip_space_def length_dropWhile_le)

lemma skip_space_cons: "skip_space s = c # r \<Longrightarrow> length r < length s"
  using skip_space_shorter[of s] by simp

lemma literal_shorter: "literal w v s = Some (x, r) \<Longrightarrow> w \<noteq> [] \<Longrightarrow> length r < length s"
  by (cases w; cases s) (auto simp: literal_def split: if_splits)

lemma number_ok_nonempty: "\<not> number_ok []"
  by (simp add: number_ok_def mantissa_ok_def digits_ok_def)

lemma parse_number_shorter: "parse_number s = Some (v, r) \<Longrightarrow> length r < length s"
proof -
  assume "parse_number s = Some (v, r)"
  then have "number_ok (takeWhile number_char s)" and r: "r = dropWhile number_char s"
    by (auto simp: parse_number_def Let_def split: if_splits)
  then have "takeWhile number_char s \<noteq> []" using number_ok_nonempty by auto
  moreover have "length s = length (takeWhile number_char s) + length r"
    unfolding r by (metis length_append takeWhile_dropWhile_id)
  ultimately show ?thesis by simp
qed

lemmas token_shorter = parse_text_shorter skip_space_cons parse_number_shorter

lemma parse_shorter_all:
  "(\<forall>s v r. parse_value n s = Some (v, r) \<longrightarrow> length r < length s) \<and>
   (\<forall>s v r. parse_elements n s = Some (v, r) \<longrightarrow> length r < length s) \<and>
   (\<forall>s v r. parse_members n s = Some (v, r) \<longrightarrow> length r < length s)"
proof (induction n)
  case (Suc n)
  then have ih: "\<And>s v r. parse_value n s = Some (v, r) \<Longrightarrow> length r < length s"
    "\<And>s v r. parse_elements n s = Some (v, r) \<Longrightarrow> length r < length s"
    "\<And>s v r. parse_members n s = Some (v, r) \<Longrightarrow> length r < length s" by blast+
  have "length r < length s" if "parse_value (Suc n) s = Some (v, r)" for s v r
    using that by (auto split: if_splits list.splits dest!: token_shorter literal_shorter ih)
  moreover have "length r < length s" if "parse_elements (Suc n) s = Some (v, r)" for s v r
    using that by (auto split: if_splits list.splits option.splits dest!: token_shorter ih)
  moreover have "length r < length s" if "parse_members (Suc n) s = Some (v, r)" for s v r
    using that by (auto split: if_splits list.splits option.splits dest!: token_shorter ih)
  ultimately show ?case by blast
qed simp

lemma parse_shorter:
  "parse_value n s = Some (v, r) \<Longrightarrow> length r < length s"
  "parse_elements n s = Some (vs, r) \<Longrightarrow> length r < length s"
  "parse_members n s = Some (ps, r) \<Longrightarrow> length r < length s"
  using parse_shorter_all[of n] by blast+

lemma parse_fuel_all:
  "(\<forall>s m. 2 * length s < n \<longrightarrow> 2 * length s < m \<longrightarrow> parse_value n s = parse_value m s) \<and>
   (\<forall>s m. 2 * length s + 1 < n \<longrightarrow> 2 * length s + 1 < m \<longrightarrow> parse_elements n s = parse_elements m s) \<and>
   (\<forall>s m. 2 * length s + 1 < n \<longrightarrow> 2 * length s + 1 < m \<longrightarrow> parse_members n s = parse_members m s)"
proof (induction n)
  case (Suc n)
  then have v: "\<And>s m. 2 * length s < n \<Longrightarrow> 2 * length s < m \<Longrightarrow> parse_value n s = parse_value m s"
    and e: "\<And>s m. 2 * length s + 1 < n \<Longrightarrow> 2 * length s + 1 < m \<Longrightarrow> parse_elements n s = parse_elements m s"
    and b: "\<And>s m. 2 * length s + 1 < n \<Longrightarrow> 2 * length s + 1 < m \<Longrightarrow> parse_members n s = parse_members m s"
    by blast+
  have "parse_value (Suc n) s = parse_value m s" if lim: "2 * length s < Suc n" "2 * length s < m" for s m
  proof -
    obtain k where m: "m = Suc k" using lim by (cases m) auto
    show ?thesis
    proof (cases "skip_space s")
      case (Cons c r)
      then have "length r < length s" by (rule skip_space_cons)
      then have "2 * length r + 1 < n" "2 * length r + 1 < k" using lim m by linarith+
      then show ?thesis using e[of r k] b[of r k] by (simp add: m Cons split: list.split)
    qed (simp add: m)
  qed
  moreover have "parse_elements (Suc n) s = parse_elements m s" if lim: "2 * length s + 1 < Suc n" "2 * length s + 1 < m" for s m
  proof -
    obtain k where m: "m = Suc k" using lim by (cases m) auto
    have pv: "parse_value n s = parse_value k s" using v[of s k] lim m by simp
    show ?thesis
    proof (cases "parse_value k s")
      case (Some vr)
      obtain x r where vr: "vr = (x, r)" by (cases vr)
      have r: "length r < length s" using Some vr parse_shorter(1) by blast
      have "parse_elements n r' = parse_elements k r'" if "skip_space r = c # r'" for c r'
        using skip_space_cons[OF that] r lim m by (intro e) linarith+
      then show ?thesis by (simp add: m pv Some vr split: list.split)
    qed (simp add: m pv)
  qed
  moreover have "parse_members (Suc n) s = parse_members m s" if lim: "2 * length s + 1 < Suc n" "2 * length s + 1 < m" for s m
  proof -
    obtain k where m: "m = Suc k" using lim by (cases m) auto
    have pv: "parse_value n r2 = parse_value k r2" if "length r2 < length s" for r2
      using that lim m by (intro v) linarith+
    have pm: "parse_members n r2 = parse_members k r2" if "length r2 < length s" for r2
      using that lim m by (intro b) linarith+
    show ?thesis
    proof (cases "skip_space s")
      case (Cons q r0)
      then have r0: "length r0 < length s" by (rule skip_space_cons)
      show ?thesis
      proof (cases "parse_text r0")
        case (Some kr)
        obtain key r1 where kr: "kr = (key, r1)" by (cases kr)
        have r1: "length r1 < length r0" using Some kr parse_text_shorter by blast
        show ?thesis
        proof (cases "skip_space r1")
          case (Cons d r2)
          then have r2: "length r2 < length s" using skip_space_cons[OF Cons] r0 r1 by linarith
          show ?thesis
          proof (cases "parse_value k r2")
            case (Some xr)
            obtain x r3 where xr: "xr = (x, r3)" by (cases xr)
            have r3: "length r3 < length s" using Some xr parse_shorter(1) r2 less_trans by blast
            have "parse_members n r4 = parse_members k r4" if "skip_space r3 = c # r4" for c r4
              using skip_space_cons[OF that] r3 by (intro pm) linarith
            then show ?thesis
              using pv[OF r2] Some \<open>skip_space s = q # r0\<close> \<open>parse_text r0 = Some kr\<close> Cons
              by (simp add: m kr xr split: list.split)
          qed (use pv[OF r2] \<open>skip_space s = q # r0\<close> \<open>parse_text r0 = Some kr\<close> Cons in \<open>simp add: m kr\<close>)
        qed (use \<open>skip_space s = q # r0\<close> Some in \<open>simp add: m kr\<close>)
      qed (use Cons in \<open>simp add: m\<close>)
    qed (simp add: m)
  qed
  ultimately show ?case by blast
qed simp

lemma parse_value_fuel: "2 * length s < n \<Longrightarrow> 2 * length s < m \<Longrightarrow> parse_value n s = parse_value m s"
  using parse_fuel_all[of n] by blast

text \<open>Any larger fuel gives the same.\<close>

lemma JSON_parse_fuel:
  "2 * length s < n \<Longrightarrow>
     JSON_parse s = (case parse_value n s of Some (v, r) \<Rightarrow> if skip_space r = [] then Some v else None | None \<Rightarrow> None)"
  using parse_value_fuel[of s "2 * length s + 1" n] by (simp add: JSON_parse_def)

section \<open>Reading what was printed: tokens\<close>

lemma of_char_eq_char: "(of_char c :: nat) = of_char d \<longleftrightarrow> c = d"
  by (simp add: of_char_eq_iff)

lemma hex4_byte: "n < 256 \<Longrightarrow> hex4 CHR ''0'' CHR ''0'' (hex_digit (n div 16)) (hex_digit (n mod 16)) = Some n"
proof -
  assume "n < 256"
  then have "n div 16 < 16" by linarith
  moreover have "hex_value CHR ''0'' = Some 0" by (simp add: hex_value_def)
  ultimately show ?thesis by (simp add: hex4_def)
qed

lemma string_units_char:
  "string_units (json_char c @ s) = map_option (\<lambda>(us, r). (of_char c # us, r)) (string_units s)"
proof -
  let ?n = "of_char c :: nat"
  consider "?n \<in> {34, 92, 8, 9, 10, 12, 13}" | "?n \<notin> {34, 92, 8, 9, 10, 12, 13}" "?n < 32"
    | "?n \<notin> {34, 92}" "\<not> ?n < 32" by auto
  then show ?thesis
  proof cases
    case 1
    then show ?thesis by (auto simp: json_char_def Let_def simple_escape_def)
  next
    case 2
    then show ?thesis
      using hex4_byte[of ?n] by (simp add: json_char_def Let_def simple_escape_def)
  next
    case 3
    have "c \<noteq> CHR 0x22" "c \<noteq> CHR 0x5C" using 3 by auto
    then show ?thesis using 3 by (simp add: json_char_def Let_def)
  qed
qed

lemma string_units_string:
  "string_units (concat (map json_char t) @ CHR 0x22 # r) = Some (map of_char t, r)"
  by (induction t) (simp_all add: string_units_char)

lemma units_text_bytes: "units_text (map of_char t) = t"
proof (induction t)
  case (Cons c t)
  have c: "(of_char c :: nat) < 256" using nat_of_char_less_256[of c] by simp
  then have small: "\<not> 55296 \<le> (of_char c :: nat)" by linarith
  have "unit_text (of_char c) = [c]" using c by (simp add: unit_text_def)
  then show ?case using Cons small by (cases t) auto
qed simp

lemma parse_text_string: "parse_text (concat (map json_char t) @ CHR 0x22 # r) = Some (t, r)"
  by (simp add: parse_text_def string_units_string units_text_bytes)

definition delimited :: "string \<Rightarrow> bool" where
  "delimited r = (r = [] \<or> \<not> number_char (hd r))"

lemma nat_digits_hd_nonzero: "0 < n \<Longrightarrow> hd (nat_digits n) \<noteq> CHR ''0''"
proof (induction n rule: nat_digits.induct)
  case (1 n)
  show ?case
  proof (cases "n < 10")
    case True
    then have "n \<in> {1, 2, 3, 4, 5, 6, 7, 8, 9}" using 1(2) by auto
    then show ?thesis using True by (auto simp: nat_digits.simps digit_char_def char_of_def)
  next
    case False
    then have "hd (nat_digits (n div 10)) \<noteq> CHR ''0''" using 1 by simp
    then show ?thesis using False by (subst nat_digits.simps) simp
  qed
qed

lemma nat_digits_leading: "length (nat_digits n) = 1 \<or> hd (nat_digits n) \<noteq> CHR ''0''"
  using nat_digits_hd_nonzero[of n] by (cases "n = 0") (simp_all add: nat_digits.simps[of 0])

lemma mantissa_digits: "mantissa_ok (nat_digits n)"
proof -
  have d: "list_all is_digit (nat_digits n)" by (rule nat_digits_digit)
  have "split_on CHR ''.'' (nat_digits n) = [nat_digits n]" using digits_no_dot[OF d] by (rule split_on_no_sep)
  then show ?thesis using d nat_digits_leading[of n] by (simp add: mantissa_ok_def digits_ok_def)
qed

lemma number_ok_int: "number_ok (string_of_int i)"
proof -
  have e: "split_on CHR ''e'' (map (\<lambda>c. if c = CHR ''E'' then CHR ''e'' else c) (nat_digits n)) = [nat_digits n]" for n
  proof -
    have d: "list_all is_digit (nat_digits n)" by (rule nat_digits_digit)
    have "map (\<lambda>c. if c = CHR ''E'' then CHR ''e'' else c) (nat_digits n) = nat_digits n"
      using digits_no_e[OF d] by (auto intro!: map_idI)
    then show ?thesis using digits_no_e[OF d] by (simp add: split_on_no_sep)
  qed
  have "hd (nat_digits n) \<noteq> CHR ''-''" for n
    using nat_digits_hd[of n] by (auto simp: is_digit_def)
  then show ?thesis by (auto simp: number_ok_def string_of_int_def e mantissa_digits)
qed

lemma int_number_chars: "list_all number_char (string_of_int i)"
  using nat_digits_digit[of "nat (- i)"] nat_digits_digit[of "nat i"]
  by (auto simp: string_of_int_def number_char_def list_all_iff)

lemma js_Number_neg: "js_Number (''-'' @ nat_digits n) = Some (- of_nat n)"
proof -
  let ?s = "nat_digits n"
  have d: "list_all is_digit ?s" by (rule nat_digits_digit)
  have "\<not> is_space (last ?s)" using d by (auto intro!: digit_not_space simp: list_all_iff)
  then have "trim (CHR ''-'' # ?s) = CHR ''-'' # ?s" by (intro trim_id) (simp_all add: is_space_def)
  then show ?thesis using with_exponent_digits[OF d] by (simp add: js_Number_def)
qed

lemma js_Number_string_of_int: "js_Number (string_of_int i) = Some (of_int i)"
  using js_Number_of_int[of i] js_Number_neg[of "nat (- i)"] by (cases "i < 0") (simp_all add: string_of_int_def)

lemma trim_string_of_int [simp]: "trim (string_of_int i) = string_of_int i"
proof -
  have d: "list_all is_digit (nat_digits n)" for n by (rule nat_digits_digit)
  have "\<not> is_space (hd (nat_digits n))" "\<not> is_space (last (nat_digits n))" for n
    using d[of n] by (auto intro!: digit_not_space simp: list_all_iff)
  then show ?thesis by (intro trim_id) (auto simp: string_of_int_def is_space_def)
qed

lemma take2_of_int:
  "to_lower (take 2 (string_of_int i)) \<notin> {''0x'', ''0o'', ''0b''}"
proof -
  have "\<forall>c \<in> set (string_of_int i). is_digit c \<or> c = CHR ''-''"
    using nat_digits_digit[of "nat (- i)"] nat_digits_digit[of "nat i"] by (auto simp: string_of_int_def list_all_iff)
  then have all: "\<forall>c \<in> set (take 2 (string_of_int i)). is_digit c \<or> c = CHR ''-''" by (meson in_set_takeD)
  have low: "lower_char c = c" if "is_digit c \<or> c = CHR ''-''" for c
    using that by (auto simp: lower_char_def is_digit_def Let_def)
  have "to_lower (take 2 (string_of_int i)) = take 2 (string_of_int i)"
    unfolding to_lower_def using all low by (intro map_idI) blast
  moreover have "take 2 (string_of_int i) \<notin> {''0x'', ''0o'', ''0b''}"
  proof
    assume "take 2 (string_of_int i) \<in> {''0x'', ''0o'', ''0b''}"
    then show False using all by (auto simp: is_digit_def)
  qed
  ultimately show ?thesis by simp
qed

lemma js_number_of_int: "\<bar>i\<bar> \<le> 2 ^ 53 \<Longrightarrow> js_number_of (string_of_int i) = Fin (of_int i)"
proof -
  assume small: "\<bar>i\<bar> \<le> 2 ^ 53"
  have "CHR ''I'' \<notin> set (string_of_int i)"
    using nat_digits_digit[of "nat (- i)"] nat_digits_digit[of "nat i"]
    by (auto simp: string_of_int_def list_all_iff is_digit_def)
  then have "string_of_int i \<noteq> ''Infinity''" "string_of_int i \<noteq> ''+Infinity''" "string_of_int i \<noteq> ''-Infinity''" by auto
  then show ?thesis
    using take2_of_int[of i] of_exact_int[OF small] by (simp add: js_number_of_def js_Number_string_of_int Let_def)
qed

lemma parse_number_int:
  assumes "\<bar>i\<bar> \<le> 2 ^ 53" "delimited r"
  shows "parse_number (string_of_int i @ r) = Some (JNum i, r)"
proof -
  have t: "takeWhile number_char (string_of_int i @ r) = string_of_int i"
    and d: "dropWhile number_char (string_of_int i @ r) = r"
    using int_number_chars[of i] assms(2)
    by (cases r; auto simp: takeWhile_append dropWhile_append list_all_iff delimited_def)+
  show ?thesis
    by (simp add: parse_number_def t d number_ok_int js_number_of_int[OF assms(1)] json_of_num_def)
qed

section \<open>Reading what was printed: values\<close>

text \<open>The values whose numbers are integers a double holds and whose objects have distinct names.\<close>

fun plain :: "json \<Rightarrow> bool" where
  "plain JNull = True"
| "plain (JBool b) = True"
| "plain (JNum i) = (\<bar>i\<bar> \<le> 2 ^ 53)"
| "plain (JReal x) = False"
| "plain (JStr s) = True"
| "plain (JArr xs) = list_all plain xs"
| "plain (JObj ps) = (distinct (map fst ps) \<and> list_all (\<lambda>(k, v). plain v) ps)"

definition value_char :: "char \<Rightarrow> bool" where
  "value_char c = (c \<in> set ''ntf[{'' \<or> c = CHR 0x22 \<or> is_digit c \<or> c = CHR ''-'')"

lemma value_char_facts:
  "value_char c \<Longrightarrow> \<not> json_space c \<and> c \<noteq> CHR '']''"
  by (auto simp: value_char_def json_space_def is_digit_def)

lemma string_of_int_head: "\<exists>c t. string_of_int i = c # t \<and> (is_digit c \<or> c = CHR ''-'')"
  using nat_digits_hd[of "nat i"] by (cases "nat_digits (nat i)") (auto simp: string_of_int_def)

lemma json_text_head: "plain j \<Longrightarrow> \<exists>c t. json_text j = c # t \<and> value_char c"
proof (cases j)
  case (JNum i)
  then show ?thesis using string_of_int_head[of i] by (auto simp: value_char_def)
qed (auto simp: value_char_def json_string_def)

lemma json_text_skip: "plain j \<Longrightarrow> skip_space (json_text j @ r) = json_text j @ r"
  using json_text_head[of j] value_char_facts by (auto simp: skip_space_def)

lemma json_string_cons: "json_string s @ r = CHR 0x22 # concat (map json_char s) @ CHR 0x22 # r"
  by (simp add: json_string_def)

lemma foldl_jm_set:
  "distinct (map fst (m @ ps)) \<Longrightarrow> foldl (\<lambda>m (k, v). jm_set k v m) m ps = m @ ps"
proof (induction ps arbitrary: m)
  case (Cons p ps)
  obtain k v where p: "p = (k, v)" by (cases p)
  have "jm_set k v m = m @ [(k, v)]"
    using Cons.prems by (intro jm_set_fresh) (auto simp: p map_of_eq_None_iff)
  then show ?case using Cons.IH[of "m @ [(k, v)]"] Cons.prems by (simp add: p)
qed simp

definition reads_back :: "json \<Rightarrow> bool" where
  "reads_back j =
     (\<forall>n r. delimited r \<longrightarrow> 2 * length (json_text j @ r) < n \<longrightarrow> parse_value n (json_text j @ r) = Some (j, r))"

lemma reads_backD:
  "reads_back j \<Longrightarrow> delimited r \<Longrightarrow> 2 * length (json_text j @ r) < n \<Longrightarrow> parse_value n (json_text j @ r) = Some (j, r)"
  by (simp add: reads_back_def)

lemma delimited_simps [simp]: "delimited (CHR '','' # r)" "delimited (CHR '']'' # r)" "delimited (CHR ''}'' # r)" "delimited []"
  by (simp_all add: delimited_def number_char_def is_digit_def)

lemma skip_space_simps [simp]:
  "skip_space (CHR '','' # r) = CHR '','' # r" "skip_space (CHR '']'' # r) = CHR '']'' # r"
  "skip_space (CHR ''}'' # r) = CHR ''}'' # r" "skip_space (CHR '':'' # r) = CHR '':'' # r"
  "skip_space (CHR 0x22 # r) = CHR 0x22 # r" "skip_space (CHR ''['' # r) = CHR ''['' # r"
  "skip_space (CHR ''{'' # r) = CHR ''{'' # r"
  by (simp_all add: skip_space_def json_space_def)

lemma parse_elements_text:
  "xs \<noteq> [] \<Longrightarrow> \<forall>x \<in> set xs. reads_back x \<Longrightarrow>
     2 * length (join_with '','' (map json_text xs) @ CHR '']'' # r) + 1 < n \<Longrightarrow>
     parse_elements n (join_with '','' (map json_text xs) @ CHR '']'' # r) = Some (xs, r)"
proof (induction xs arbitrary: n)
  case (Cons x xs)
  obtain k where n: "n = Suc k" using Cons.prems by (cases n) auto
  have x: "reads_back x" using Cons.prems by simp
  show ?case
  proof (cases xs)
    case Nil
    have "parse_value k (json_text x @ CHR '']'' # r) = Some (x, CHR '']'' # r)"
      using Cons.prems n Nil by (intro reads_backD[OF x]) auto
    then show ?thesis by (simp add: Nil n)
  next
    case (Cons y ys)
    let ?rest = "join_with '','' (map json_text xs) @ CHR '']'' # r"
    have v: "parse_value k (json_text x @ CHR '','' # ?rest) = Some (x, CHR '','' # ?rest)"
      using Cons.prems n Cons by (intro reads_backD[OF x]) auto
    have "parse_elements k ?rest = Some (xs, r)"
      using Cons.prems n Cons by (intro Cons.IH) auto
    then show ?thesis using v by (simp add: Cons n)
  qed
qed simp

lemma parse_members_text:
  "ps \<noteq> [] \<Longrightarrow> \<forall>p \<in> set ps. reads_back (snd p) \<Longrightarrow>
     2 * length (join_with '','' (map (\<lambda>(k, v). json_string k @ '':'' @ json_text v) ps) @ CHR ''}'' # r) + 1 < n \<Longrightarrow>
     parse_members n (join_with '','' (map (\<lambda>(k, v). json_string k @ '':'' @ json_text v) ps) @ CHR ''}'' # r) = Some (ps, r)"
proof (induction ps arbitrary: n)
  case (Cons p ps)
  obtain m where n: "n = Suc m" using Cons.prems by (cases n) auto
  obtain k v where p: "p = (k, v)" by (cases p)
  have v: "reads_back v" using Cons.prems p by simp
  show ?case
  proof (cases ps)
    case Nil
    have "parse_value m (json_text v @ CHR ''}'' # r) = Some (v, CHR ''}'' # r)"
      using Cons.prems n Nil p by (intro reads_backD[OF v]) (auto simp: json_string_def)
    then show ?thesis by (simp add: Nil n p json_string_cons parse_text_string)
  next
    case (Cons q qs)
    let ?rest = "join_with '','' (map (\<lambda>(k, v). json_string k @ '':'' @ json_text v) ps) @ CHR ''}'' # r"
    have pv: "parse_value m (json_text v @ CHR '','' # ?rest) = Some (v, CHR '','' # ?rest)"
      using Cons.prems n Cons p by (intro reads_backD[OF v]) (auto simp: json_string_def)
    have "parse_members m ?rest = Some (ps, r)"
      using Cons.prems n Cons p by (intro Cons.IH) (auto simp: json_string_def)
    then show ?thesis using pv by (simp add: Cons n p json_string_cons parse_text_string split: prod.split)
  qed
qed simp

lemma plain_reads_back: "plain j \<Longrightarrow> reads_back j"
proof (induction j)
  case JNull
  show ?case unfolding reads_back_def
  proof (intro allI impI)
    fix n r assume "2 * length (json_text JNull @ r) < n"
    then show "parse_value n (json_text JNull @ r) = Some (JNull, r)"
      by (cases n) (simp_all add: skip_space_def json_space_def literal_def)
  qed
next
  case (JBool b)
  show ?case unfolding reads_back_def
  proof (intro allI impI)
    fix n r assume "2 * length (json_text (JBool b) @ r) < n"
    then show "parse_value n (json_text (JBool b) @ r) = Some (JBool b, r)"
      by (cases n) (auto simp: skip_space_def json_space_def literal_def)
  qed
next
  case (JNum i)
  show ?case unfolding reads_back_def
  proof (intro allI impI)
    fix n r assume r: "delimited r" and n: "2 * length (json_text (JNum i) @ r) < n"
    obtain c t where c: "string_of_int i = c # t" and vc: "is_digit c \<or> c = CHR ''-''"
      using string_of_int_head[of i] by blast
    obtain m where m: "n = Suc m" using n by (cases n) auto
    have s: "skip_space (string_of_int i @ r) = c # t @ r" using json_text_skip[OF JNum.prems, of r] c by simp
    have "c \<notin> {CHR 0x22, CHR ''['', CHR ''{'', CHR ''t'', CHR ''f'', CHR ''n''}" using vc by (auto simp: is_digit_def)
    then have "parse_value n (string_of_int i @ r) = parse_number (string_of_int i @ r)"
      using s c by (simp add: m)
    then show "parse_value n (json_text (JNum i) @ r) = Some (JNum i, r)"
      using parse_number_int[OF _ r, of i] JNum.prems by simp
  qed
next
  case (JStr s)
  show ?case unfolding reads_back_def
  proof (intro allI impI)
    fix n r assume "2 * length (json_text (JStr s) @ r) < n"
    then show "parse_value n (json_text (JStr s) @ r) = Some (JStr s, r)"
      by (cases n) (simp_all add: json_string_cons parse_text_string)
  qed
next
  case (JArr xs)
  show ?case unfolding reads_back_def
  proof (intro allI impI)
    fix n r assume n: "2 * length (json_text (JArr xs) @ r) < n"
    obtain m where m: "n = Suc m" using n by (cases n) auto
    show "parse_value n (json_text (JArr xs) @ r) = Some (JArr xs, r)"
    proof (cases xs)
      case (Cons x ys)
      have all: "\<forall>x \<in> set xs. reads_back x" using JArr by (auto simp: list_all_iff)
      let ?rest = "join_with '','' (map json_text xs) @ CHR '']'' # r"
      have e: "parse_elements m ?rest = Some (xs, r)"
        using all Cons n m by (intro parse_elements_text) auto
      have "plain x" using JArr.prems Cons by simp
      then obtain c t where "json_text x = c # t" "value_char c" using json_text_head by blast
      then obtain t' where t': "?rest = c # t'" using Cons by (cases ys) auto
      have "skip_space (c # t') = c # t'" "c \<noteq> CHR '']''"
        using value_char_facts[OF \<open>value_char c\<close>] by (auto simp: skip_space_def)
      then show ?thesis using e unfolding t' by (simp add: m t')
    qed (simp add: m)
  qed
next
  case (JObj ps)
  show ?case unfolding reads_back_def
  proof (intro allI impI)
    fix n r assume n: "2 * length (json_text (JObj ps) @ r) < n"
    obtain m where m: "n = Suc m" using n by (cases n) auto
    show "parse_value n (json_text (JObj ps) @ r) = Some (JObj ps, r)"
    proof (cases ps)
      case (Cons p qs)
      have all: "\<forall>p \<in> set ps. reads_back (snd p)" using JObj by (fastforce simp: list_all_iff)
      let ?rest = "join_with '','' (map (\<lambda>(k, v). json_string k @ '':'' @ json_text v) ps) @ CHR ''}'' # r"
      have e: "parse_members m ?rest = Some (ps, r)"
        using all Cons n m by (intro parse_members_text) auto
      obtain t' where t': "?rest = CHR 0x22 # t'" using Cons by (cases qs; cases p) (auto simp: json_string_def)
      have "foldl (\<lambda>m (k, v). jm_set k v m) [] ps = ps" using foldl_jm_set[of "[]" ps] JObj.prems by simp
      have "json_text (JObj ps) @ r = CHR ''{'' # CHR 0x22 # t'" using t' by simp
      then show ?thesis
        using e \<open>foldl (\<lambda>m (k, v). jm_set k v m) [] ps = ps\<close> unfolding t' by (simp add: m del: json_text.simps)
    qed (simp add: m)
  qed
qed simp

text \<open>
  \<open>JSON.parse\<close> of the text \<open>JSON.stringify\<close> prints gives the value back: strings with any of the
  characters that are escaped, integers a double holds, and arrays and objects of any depth.
\<close>

theorem json_roundtrip:
  assumes "plain j"
  shows "JSON_parse (json_text j) = Some j"
proof -
  have "parse_value (2 * length (json_text j) + 1) (json_text j @ []) = Some (j, [])"
    by (rule reads_backD[OF plain_reads_back[OF assms]]) simp_all
  then show ?thesis by (simp add: JSON_parse_def skip_space_def)
qed

theorem json_roundtrip_witness:
  "JSON_parse (json_text (JObj [(''a'', JArr [JNum (- 12), JNull]), (''b'', JStr [CHR 0x22, CHR 0x0A])])) =
     Some (JObj [(''a'', JArr [JNum (- 12), JNull]), (''b'', JStr [CHR 0x22, CHR 0x0A])])"
  by (rule json_roundtrip) simp

end
