(* ===== verification/RateFeed.thy ===== *)
theory RateFeed
  imports Pricing JsonParse Usdt
begin

text \<open>
  The HTTP feed of exchange rates of \<^verbatim>\<open>src/pricing/cachingExchangeRates.ts\<close>: the request, and the reading of
  its answer. The HTTP client is a parameter.
\<close>

text \<open>\<open>Object.entries\<close>, and a property's value.\<close>

definition json_entries :: "json \<Rightarrow> (string \<times> json) list" where
  "json_entries j =
     (case j of
        JObj ps \<Rightarrow> ps
      | JArr xs \<Rightarrow> zip (map nat_digits [0..<length xs]) xs
      | _ \<Rightarrow> [])"

definition json_field :: "json \<Rightarrow> string \<Rightarrow> json option" where
  "json_field j k = (case j of JObj ps \<Rightarrow> jm_get ps k | _ \<Rightarrow> None)"

definition is_object :: "json \<Rightarrow> bool" where
  "is_object j = (case j of JObj _ \<Rightarrow> True | JArr _ \<Rightarrow> True | _ \<Rightarrow> False)"

definition finite_number :: "json \<Rightarrow> rat option" where
  "finite_number j = (case j of JNum i \<Rightarrow> Some (of_int i) | JReal (Fin q) \<Rightarrow> Some q | _ \<Rightarrow> None)"

definition read_rates :: "(string \<times> json) list \<Rightarrow> (string, num) jsmap \<Rightarrow> (string, num) jsmap" where
  "read_rates es m =
     foldl (\<lambda>m (currency, v). case finite_number v of Some q \<Rightarrow> jm_set currency (Fin q) m | None \<Rightarrow> m) m es"

definition defaultParse :: "string \<Rightarrow> string \<Rightarrow> (string, num) jsmap result" where
  "defaultParse body base =
     (case JSON_parse body of
        None \<Rightarrow> Inl (PlainError ''SyntaxError'')
      | Some j \<Rightarrow>
          if \<not> is_object j then Inl (PlainError ''HttpRateFeed: response is not a JSON object'')
          else let source = (case json_field j ''rates'' of Some r \<Rightarrow> if is_object r then r else j | None \<Rightarrow> j)
               in Inr (with_base base (read_rates (json_entries source) [])))"

text \<open>\<open>url.replace(/\{base\}/g, rep)\<close>; \<open>rep\<close> has no dollar sign.\<close>

function replace_base :: "string \<Rightarrow> string \<Rightarrow> string" where
  "replace_base rep [] = []"
| "replace_base rep (c # cs) =
     (if take 6 (c # cs) = ''{base}'' then rep @ replace_base rep (drop 5 cs) else c # replace_base rep cs)"
  by pat_completeness auto
termination by (relation "measure (\<lambda>(_, s). length s)") auto

definition fetchRates ::
  "(http_request \<Rightarrow> http_response result) \<Rightarrow> string \<Rightarrow> string \<Rightarrow> (string, num) jsmap result" where
  "fetchRates request feedUrl base =
     (let url = replace_base (encodeURIComponent base) feedUrl
      in case request \<lparr>hq_method = ''GET'', hq_url = url, hq_headers = [], hq_body = None\<rparr> of
           Inl err \<Rightarrow> Inl err
         | Inr res \<Rightarrow>
             if hs_status res < 200 \<or> 300 \<le> hs_status res
             then Inl (PlainError (''HttpRateFeed: GET '' @ url @ '' returned non-2xx status '' @ string_of_int (hs_status res)))
             else defaultParse (hs_body res) base)"

text \<open>Every rate the feed reports is a finite number, and the base is among them.\<close>

definition is_finite :: "num \<Rightarrow> bool" where
  "is_finite v = (case v of Fin _ \<Rightarrow> True | _ \<Rightarrow> False)"

lemma finite_update:
  "list_all (\<lambda>(_, v). is_finite v) m \<Longrightarrow> list_all (\<lambda>(_, v). is_finite v) (jm_set k (Fin q) m)"
  by (induction m) (auto simp: is_finite_def)

lemma finite_fold:
  "list_all (\<lambda>(_, v). is_finite v) m \<Longrightarrow> list_all (\<lambda>(_, v). is_finite v) (read_rates es m)"
proof (induction es arbitrary: m)
  case (Cons p es)
  obtain c v where p: "p = (c, v)" by (cases p)
  show ?case
  proof (cases "finite_number v")
    case None
    then show ?thesis using Cons by (simp add: p read_rates_def)
  next
    case (Some q)
    then show ?thesis using Cons.IH[OF finite_update[OF Cons.prems, of c q]] by (simp add: p read_rates_def)
  qed
qed (simp add: read_rates_def)

lemma fetchRates_finite:
  assumes "fetchRates request feedUrl base = Inr rates"
  shows "list_all (\<lambda>(_, v). is_finite v) rates \<and> jm_get rates base \<noteq> None"
proof -
  obtain body where "defaultParse body base = Inr rates"
    using assms by (auto simp: fetchRates_def Let_def split: sum.splits if_splits)
  then obtain es where es: "rates = with_base base (read_rates es [])"
    by (auto simp: defaultParse_def Let_def split: option.splits if_splits)
  have "list_all (\<lambda>(_, v). is_finite v) (read_rates es [])" by (rule finite_fold) simp
  then have "list_all (\<lambda>(_, v). is_finite v) rates"
    using finite_update[of "read_rates es []" base 1] by (simp add: es with_base_def)
  then show ?thesis using with_base_has[of base "read_rates es []"] by (simp add: es)
qed

text \<open>An answer that is not a JSON object with a success status is an error.\<close>

lemma fetchRates_bad_status:
  "request \<lparr>hq_method = ''GET'', hq_url = replace_base (encodeURIComponent base) u, hq_headers = [], hq_body = None\<rparr> = Inr res \<Longrightarrow>
     hs_status res < 200 \<or> 300 \<le> hs_status res \<Longrightarrow> \<exists>err. fetchRates request u base = Inl err"
  by (auto simp: fetchRates_def)

lemma fetchRates_not_json:
  "JSON_parse body = None \<Longrightarrow> \<exists>err. defaultParse body base = Inl err"
  by (simp add: defaultParse_def)

end
