(* ===== verification/ApiViews.thy ===== *)
theory ApiViews
  imports PaymentService RefundService Reports Accounts Alerts Lifecycle Pricing RateFeed
begin

text \<open>
  The JSON values that the routes of \<^verbatim>\<open>src/api/routes.ts\<close> send: \<open>JSON.stringify\<close> of the domain's objects, with
  their properties in the order in which the code builds them, an absent property left out; and
  \<open>orderView\<close>, the projection of an order that clients see.
\<close>

section \<open>Orders and payments\<close>

fun render_name :: "render_as \<Rightarrow> string" where
  "render_name Qrcode = ''qrcode''"
| "render_name Address = ''address''"
| "render_name Redirect = ''redirect''"

definition strings_json :: "(string, string) jsmap \<Rightarrow> json" where
  "strings_json m = JObj (map (\<lambda>(k, v). (k, JStr v)) m)"

definition payInfo_json :: "create_payment_result \<Rightarrow> json" where
  "payInfo_json p = JObj [(''method'', JStr (method_name (c_method p))), (''payTarget'', JStr (c_payTarget p)),
     (''renderAs'', JStr (render_name (c_renderAs p))), (''extra'', strings_json (c_extra p))]"

definition orderView_fields :: "order \<Rightarrow> (string \<times> json) list result" where
  "orderView_fields ord =
     (case fromMinorUnits (o_amount ord) (o_currency ord) of
        Inl err \<Rightarrow> Inl err
      | Inr display \<Rightarrow>
          Inr ([(''orderId'', JStr (o_id ord)), (''outTradeNo'', JStr (o_outTradeNo ord)),
                (''planId'', JStr (o_planId ord)), (''method'', JStr (method_name (o_method ord))),
                (''status'', JStr (order_status_name (o_status ord))), (''currency'', JStr (currency_name (o_currency ord))),
                (''amount'', JNum (o_amount ord)), (''amountDisplay'', JStr display),
                (''refundedAmount'', JNum (case o_refundedAmount ord of None \<Rightarrow> 0 | Some a \<Rightarrow> a))] @
               opt_field ''providerTxnId'' JStr (o_providerTxnId ord) @
               [(''createdAt'', JNum (o_createdAt ord)), (''expiresAt'', JNum (o_expiresAt ord))] @
               opt_field ''paidAt'' JNum (o_paidAt ord) @
               opt_field ''payInfo'' payInfo_json (md_payInfo (o_metadata ord)) @
               (if md_payInfo (o_metadata ord) \<noteq> None
                then [(''qrImagePath'', JStr (''/api/orders/'' @ o_id ord @ ''/qrcode.svg''))] else [])))"

definition orderView :: "order \<Rightarrow> json result" where
  "orderView ord = (case orderView_fields ord of Inl err \<Rightarrow> Inl err | Inr props \<Rightarrow> Inr (JObj props))"

text \<open>\<open>{ ...orderView(order), payInfo }\<close>: a property that is there keeps its place.\<close>

definition createdView :: "order \<Rightarrow> create_payment_result \<Rightarrow> json result" where
  "createdView ord p =
     (case orderView_fields ord of
        Inl err \<Rightarrow> Inl err
      | Inr props \<Rightarrow> Inr (JObj (jm_set ''payInfo'' (payInfo_json p) props)))"

definition refund_json :: "refund \<Rightarrow> json" where
  "refund_json r = JObj
     ([(''id'', JStr (r_id r)), (''orderId'', JStr (r_orderId r)), (''outRefundNo'', JStr (r_outRefundNo r)),
       (''amount'', JNum (r_amount r)), (''currency'', JStr (currency_name (r_currency r)))] @
      opt_field ''reason'' JStr (r_reason r) @ [(''status'', JStr (refund_status_name (r_status r)))] @
      opt_field ''providerRefundId'' JStr (r_providerRefundId r) @
      [(''rawStatus'', JStr (r_rawStatus r)), (''createdAt'', JNum (r_createdAt r)), (''updatedAt'', JNum (r_updatedAt r))])"

definition plan_json :: "plan \<Rightarrow> json result" where
  "plan_json p =
     (case fromMinorUnits (p_priceCnyFen p) CNY of
        Inl err \<Rightarrow> Inl err
      | Inr cny \<Rightarrow>
          (case fromMinorUnits (p_priceUsdtMicro p) USDT of
             Inl err \<Rightarrow> Inl err
           | Inr usdt \<Rightarrow>
               Inr (JObj [(''id'', JStr (p_id p)), (''name'', JStr (p_name p)), (''durationDays'', JNum (p_durationDays p)),
                 (''trafficGb'', JNum (p_trafficGb p)), (''deviceLimit'', JNum (p_deviceLimit p)),
                 (''priceCnyFen'', JNum (p_priceCnyFen p)), (''priceUsdtMicro'', JNum (p_priceUsdtMicro p)),
                 (''enabled'', JBool (p_enabled p)), (''priceCnyDisplay'', JStr cny), (''priceUsdtDisplay'', JStr usdt)])))"

definition methods_json :: "payment_method list \<Rightarrow> json" where
  "methods_json ms = JArr (map (\<lambda>m. JStr (method_name m)) ms)"

section \<open>Accounts\<close>

definition user_json :: "public_user \<Rightarrow> json" where
  "user_json u = JObj ([(''id'', JStr (pu_id u)), (''email'', JStr (pu_email u)), (''locale'', JStr (pu_locale u))] @
     opt_field ''name'' JStr (pu_name u) @ [(''createdAt'', JNum (pu_createdAt u))])"

definition login_json :: "public_user \<times> string \<Rightarrow> json" where
  "login_json r = JObj [(''user'', user_json (fst r)), (''apiKey'', JStr (snd r))]"

definition merchant_fields :: "public_merchant \<Rightarrow> (string \<times> json) list" where
  "merchant_fields m = [(''id'', JStr (pm_id m)), (''name'', JStr (pm_name m)),
     (''status'', JStr (merchant_status_name (pm_status m)))] @ opt_field ''usdtHdPath'' JStr (pm_usdtHdPath m) @
     [(''createdAt'', JNum (pm_createdAt m)), (''updatedAt'', JNum (pm_updatedAt m))]"

definition merchant_json :: "merchant \<Rightarrow> json" where
  "merchant_json m = JObj (merchant_fields (toPublicMerchant m))"

section \<open>Sweeps, deliveries, audit\<close>

definition sweep_json :: "sweep_job \<Rightarrow> json" where
  "sweep_json j = JObj
     ([(''id'', JStr (j_id j)), (''orderId'', JStr (j_orderId j)), (''depositIndex'', JNum (j_depositIndex j)),
       (''depositAddress'', JStr (j_depositAddress j)), (''collectionAddress'', JStr (j_collectionAddress j)),
       (''amountMicro'', JNum (j_amountMicro j)), (''status'', JStr (sweep_status_value (j_status j)))] @
      opt_field ''gasTxId'' JStr (j_gasTxId j) @ opt_field ''sweepTxId'' JStr (j_sweepTxId j) @
      [(''attempts'', JNum (j_attempts j))] @ opt_field ''lastError'' JStr (j_lastError j) @
      [(''createdAt'', JNum (j_createdAt j)), (''updatedAt'', JNum (j_updatedAt j)), (''nextAttemptAt'', JNum (j_nextAttemptAt j))])"

fun delivery_status_name :: "delivery_status \<Rightarrow> string" where
  "delivery_status_name D_pending = ''pending''"
| "delivery_status_name D_delivered = ''delivered''"
| "delivery_status_name D_dead = ''dead''"

definition event_json :: "outbound_event \<Rightarrow> json" where
  "event_json ev = JObj [(''id'', JStr (oe_id ev)), (''type'', JStr (event_type_name (oe_type ev))),
     (''payload'', oe_payload ev), (''createdAt'', JNum (oe_createdAt ev))]"

definition delivery_json :: "webhook_delivery \<Rightarrow> json" where
  "delivery_json d = JObj
     ([(''id'', JStr (wd_id d)), (''event'', event_json (wd_event d)), (''url'', JStr (wd_url d)),
       (''status'', JStr (delivery_status_name (wd_status d))), (''attempts'', JNum (wd_attempts d)),
       (''nextAttemptAt'', JNum (wd_nextAttemptAt d))] @
      opt_field ''lastError'' JStr (wd_lastError d) @ opt_field ''lastStatus'' JNum (wd_lastStatus d) @
      [(''createdAt'', JNum (wd_createdAt d)), (''updatedAt'', JNum (wd_updatedAt d))] @
      opt_field ''deliveredAt'' JNum (wd_deliveredAt d))"

definition audit_json :: "audit_event \<Rightarrow> json" where
  "audit_json a = JObj
     ([(''id'', JStr (a_id a)), (''at'', JNum (a_at a)), (''action'', JStr (a_action a))] @
      opt_field ''actor'' JStr (a_actor a) @ opt_field ''subjectId'' JStr (a_subjectId a) @
      opt_field ''metadata'' (\<lambda>m. m) (a_metadata a))"

section \<open>Reports\<close>

definition by_status_json :: "(order_status, int) jsmap \<Rightarrow> json" where
  "by_status_json m = JObj (map (\<lambda>(st, n). (order_status_name st, JNum n)) m)"

definition summary_json :: "summary_report \<Rightarrow> json" where
  "summary_json r = JObj
     [(''ordersTotal'', JNum (int (sr_ordersTotal r))), (''byStatus'', by_status_json (sr_byStatus r)),
      (''currencies'', JArr (map (\<lambda>c. JObj [(''currency'', JStr (currency_name (ct_currency c))),
         (''paidCount'', JNum (ct_paidCount c)), (''grossMinor'', JNum (ct_grossMinor c)),
         (''grossDisplay'', JStr (ct_grossDisplay c)), (''refundedMinor'', JNum (ct_refundedMinor c)),
         (''refundedDisplay'', JStr (ct_refundedDisplay c)), (''netMinor'', JNum (ct_netMinor c)),
         (''netDisplay'', JStr (ct_netDisplay c))]) (sr_currencies r))),
      (''byMethod'', JArr (map (\<lambda>m. JObj [(''method'', JStr (method_name (mt_method m))),
         (''currency'', JStr (currency_name (mt_currency m))), (''paidCount'', JNum (mt_paidCount m)),
         (''grossMinor'', JNum (mt_grossMinor m)), (''grossDisplay'', JStr (mt_grossDisplay m))]) (sr_byMethod r))),
      (''refundsTotal'', JNum (int (sr_refundsTotal r)))]"

definition order_summary_json :: "order_summary_report \<Rightarrow> json" where
  "order_summary_json r = JObj
     [(''ordersTotal'', JNum (int (os_total r))), (''byStatus'', by_status_json (os_statuses r)),
      (''currencies'', JArr (map (\<lambda>(c, g). JObj [(''currency'', JStr (currency_name (cw_currency c))),
         (''paidCount'', JNum (cw_paidCount c)), (''grossMinor'', JNum (cw_grossMinor c)), (''grossDisplay'', JStr g)])
         (os_currencies r))),
      (''byMethod'', JArr (map (\<lambda>(m, g). JObj [(''method'', JStr (method_name (pr_method m))),
         (''currency'', JStr (currency_name (pr_currency m))), (''paidCount'', JNum (pr_paidCount m)),
         (''grossMinor'', JNum (pr_grossMinor m)), (''grossDisplay'', JStr g)]) (os_methods r)))]"

definition discrepancy_json :: "discrepancy \<Rightarrow> json" where
  "discrepancy_json d = JObj [(''type'', JStr (discrepancy_name (dc_type d))), (''orderId'', JStr (dc_orderId d)),
     (''detail'', JStr (dc_detail d))]"

definition alert_json :: "alert \<Rightarrow> json" where
  "alert_json a = JObj [(''severity'', JStr (severity_name (at_severity a))), (''title'', JStr (at_title a)),
     (''summary'', JStr (at_summary a)), (''details'', JArr (map JStr (at_details a)))]"

definition reconciliation_json :: "reconciliation_report \<Rightarrow> alert option \<Rightarrow> json" where
  "reconciliation_json r a = JObj
     [(''ranAt'', JNum (rp_ranAt r)), (''checkedOrders'', JNum (int (rp_checkedOrders r))),
      (''checkedRefunds'', JNum (int (rp_checkedRefunds r))),
      (''discrepancies'', JArr (map discrepancy_json (rp_discrepancies r))),
      (''healedStaleOrders'', JNum (int (rp_healedStaleOrders r))),
      (''alert'', case a of None \<Rightarrow> JNull | Some x \<Rightarrow> alert_json x)]"

definition readiness_json :: "readiness_report \<Rightarrow> json" where
  "readiness_json r = JObj
     [(''status'', JStr (case ry_status r of Ready \<Rightarrow> ''ok'' | Degraded \<Rightarrow> ''degraded'')),
      (''checks'', JArr (map (\<lambda>row. JObj ([(''name'', JStr (rr_name row)), (''ok'', JBool (rr_ok row)),
         (''critical'', JBool (rr_critical row))] @ opt_field ''detail'' JStr (rr_detail row))) (ry_checks r)))]"

definition num_json :: "num \<Rightarrow> json" where
  "num_json x = (case x of Fin q \<Rightarrow> if is_integer q then JNum \<lfloor>q\<rfloor> else JReal x | _ \<Rightarrow> JReal x)"

definition quote_json :: "quote \<Rightarrow> json" where
  "quote_json q = JObj [(''amountMinor'', JNum (qt_amountMinor q)), (''amountDisplay'', JStr (qt_amountDisplay q)),
     (''currency'', JStr (qt_currency q)), (''rate'', num_json (qt_rate q))]"

definition counts_json :: "process_counts \<Rightarrow> json" where
  "counts_json n = JObj [(''delivered'', JNum (int (pc_delivered n))), (''retried'', JNum (int (pc_retried n))),
     (''dead'', JNum (int (pc_dead n)))]"

definition page_json :: "nat \<Rightarrow> int \<Rightarrow> int \<Rightarrow> json list \<Rightarrow> json" where
  "page_json n pageLimit off items = JObj [(''total'', JNum (int n)), (''limit'', JNum pageLimit), (''offset'', JNum off), (''items'', JArr items)]"

end
