(* ===== verification/Http.thy ===== *)
theory Http
  imports Uri RateLimit Metrics
begin

text \<open>
  \<^verbatim>\<open>src/api/http.ts\<close>: the router with its path matching, the headers it sets, the collection of a request
  body, and the dispatch of a request to its handler with rate limiting, metrics and error mapping.

  A request is what Node's HTTP server and URL parser make of the bytes received. The state \<open>'s\<close> is the
  application's; the limiter and the metrics are reached through the functions of the options records,
  as the code reaches them through interfaces. Log lines are not modelled.
\<close>

section \<open>Requests and responses\<close>

text \<open>A header's value is a string, or an array of strings for a header that may be repeated.\<close>

datatype header_value = One string | Many "string list"

text \<open>
  \<open>rq_url\<close> is the path name and the search parameters that \<open>new URL\<close> finds; \<open>None\<close> when it throws
  (a request target such as two slashes is no URL).
\<close>

record request =
  rq_method :: "string option"
  rq_url :: "(string \<times> (string \<times> string) list) option"
  rq_headers :: "(string, header_value) jsmap"
  rq_remote :: "string option"

text \<open>A response is not ended as long as it has no body; its status is 200 until one is written.\<close>

record response =
  rp_status :: nat
  rp_headers :: "(string, string) jsmap"
  rp_body :: "string option"

definition new_response :: response where
  "new_response = \<lparr>rp_status = 200, rp_headers = [], rp_body = None\<rparr>"

definition setHeader :: "string \<Rightarrow> string \<Rightarrow> response \<Rightarrow> response" where
  "setHeader name value res = res\<lparr>rp_headers := jm_set name value (rp_headers res)\<rparr>"

definition headersSent :: "response \<Rightarrow> bool" where
  "headersSent res = (rp_body res \<noteq> None)"

text \<open>Writing to a response that has ended throws \<open>ERR_HTTP_HEADERS_SENT\<close>.\<close>

definition sendRaw :: "response \<Rightarrow> nat \<Rightarrow> string \<Rightarrow> string \<Rightarrow> unit result \<times> response" where
  "sendRaw res status contentType body =
     (if headersSent res then (Inl (PlainError ''ERR_HTTP_HEADERS_SENT''), res)
      else (Inr (), (setHeader ''Content-Type'' contentType res)\<lparr>rp_status := status, rp_body := Some body\<rparr>))"

definition sendJson :: "response \<Rightarrow> nat \<Rightarrow> json \<Rightarrow> unit result \<times> response" where
  "sendJson res status body =
     (let payload = json_text body in sendRaw res status ''application/json; charset=utf-8'' payload)"

definition error_body :: "string \<Rightarrow> string \<Rightarrow> json" where
  "error_body code message = JObj [(''error'', JStr code), (''message'', JStr message)]"

record ctx =
  cx_method :: string
  cx_path :: string
  cx_params :: "(string, string) jsmap"
  cx_query :: "(string \<times> string) list"
  cx_rawBody :: string
  cx_headers :: "(string, string) jsmap"
  cx_requestId :: string

text \<open>A handler writes to the response and changes the state; what it wrote before a throw stays.\<close>

type_synonym 's handler = "env \<Rightarrow> ctx \<Rightarrow> response \<Rightarrow> 's \<Rightarrow> unit result \<times> response \<times> 's"

section \<open>The router\<close>

record 's route =
  rt_method :: string
  rt_pattern :: string
  rt_segments :: "string list"
  rt_handler :: "'s handler"

record 's router_metrics =
  rm_requests :: "labels \<Rightarrow> 's \<Rightarrow> 's"
  rm_duration :: "labels \<Rightarrow> int \<Rightarrow> 's \<Rightarrow> 's"
  rm_rateLimited :: "(labels \<Rightarrow> 's \<Rightarrow> 's) option"

text \<open>\<open>rl_check t key\<close> is the limiter's decision at time \<open>t\<close>, or the error its promise is rejected with.\<close>

record 's rate_limit =
  rl_check :: "int \<Rightarrow> string \<Rightarrow> 's \<Rightarrow> rate_decision result \<times> 's"
  rl_skipRoutes :: "string list"

record security =
  sc_corsOrigins :: "string list"
  sc_requestTimeoutMs :: int
  sc_maxBodyBytes :: nat
  sc_securityHeaders :: bool

record 's router =
  ro_routes :: "'s route list"
  ro_metrics :: "'s router_metrics option"
  ro_rateLimit :: "'s rate_limit option"
  ro_security :: "security option"
  ro_deprecated :: "(string, string option) jsmap"

definition new_router :: "'s router_metrics option \<Rightarrow> 's rate_limit option \<Rightarrow> security option \<Rightarrow> 's router" where
  "new_router m r s = \<lparr>ro_routes = [], ro_metrics = m, ro_rateLimit = r, ro_security = s, ro_deprecated = []\<rparr>"

definition upper_char :: "char \<Rightarrow> char" where
  "upper_char c = (let n = of_char c :: nat in if 97 \<le> n \<and> n \<le> 122 then char_of (n - 32) else c)"

definition to_upper :: "string \<Rightarrow> string" where
  "to_upper s = map upper_char s"

definition starts_with :: "string \<Rightarrow> string \<Rightarrow> bool" where
  "starts_with p s = (take (length p) s = p)"

definition slashed :: "string \<Rightarrow> string" where
  "slashed pattern = (if starts_with ''/'' pattern then pattern else ''/'' @ pattern)"

definition path_segments :: "string \<Rightarrow> string list" where
  "path_segments path = filter (\<lambda>s. s \<noteq> []) (split_on CHR ''/'' path)"

definition add_route :: "string \<Rightarrow> string \<Rightarrow> 's handler \<Rightarrow> 's router \<Rightarrow> 's router" where
  "add_route meth pattern handler r =
     r\<lparr>ro_routes := ro_routes r @ [\<lparr>rt_method = to_upper meth, rt_pattern = slashed pattern,
        rt_segments = path_segments pattern, rt_handler = handler\<rparr>]\<rparr>"

definition aliasPrefix :: "string \<Rightarrow> string \<Rightarrow> 's router \<Rightarrow> 's router" where
  "aliasPrefix from to r =
     foldl (\<lambda>r' route.
         if rt_pattern route = from \<or> starts_with (from @ ''/'') (rt_pattern route)
         then add_route (rt_method route) (to @ drop (length from) (rt_pattern route)) (rt_handler route) r'
         else r') r (ro_routes r)"

definition markDeprecated :: "string \<Rightarrow> string option \<Rightarrow> 's router \<Rightarrow> 's router" where
  "markDeprecated pattern sunset r = r\<lparr>ro_deprecated := jm_set (slashed pattern) sunset (ro_deprecated r)\<rparr>"

definition listRoutes :: "'s router \<Rightarrow> (string \<times> string) list" where
  "listRoutes r = map (\<lambda>x. (rt_method x, rt_pattern x)) (ro_routes r)"

section \<open>Matching\<close>

text \<open>One route against the parts of a path; the parameters found so far are passed on.\<close>

fun match_segments :: "string list \<Rightarrow> string list \<Rightarrow> (string, string) jsmap \<Rightarrow> (string, string) jsmap option result" where
  "match_segments (seg # segs) (part # parts) params =
     (if starts_with '':'' seg
      then case decodeURIComponent part of
             None \<Rightarrow> Inl (PlainError ''URI malformed'')
           | Some v \<Rightarrow> match_segments segs parts (jm_set (drop 1 seg) v params)
      else if seg \<noteq> part then Inr None
      else match_segments segs parts params)"
| "match_segments _ _ params = Inr (Some params)"

fun match_routes :: "string \<Rightarrow> string list \<Rightarrow> 's route list \<Rightarrow> ('s route \<times> (string, string) jsmap) option result" where
  "match_routes meth parts [] = Inr None"
| "match_routes meth parts (route # routes) =
     (if rt_method route \<noteq> meth then match_routes meth parts routes
      else if length (rt_segments route) \<noteq> length parts then match_routes meth parts routes
      else case match_segments (rt_segments route) parts [] of
             Inl err \<Rightarrow> Inl err
           | Inr (Some params) \<Rightarrow> Inr (Some (route, params))
           | Inr None \<Rightarrow> match_routes meth parts routes)"

definition match_path :: "string \<Rightarrow> string \<Rightarrow> 's router \<Rightarrow> ('s route \<times> (string, string) jsmap) option result" where
  "match_path meth path r = match_routes meth (path_segments path) (ro_routes r)"

section \<open>Headers\<close>

definition API_VERSION :: string where
  "API_VERSION = ''v1''"

definition applySecurityHeaders :: "security option \<Rightarrow> string option \<Rightarrow> response \<Rightarrow> response" where
  "applySecurityHeaders sec origin res =
     (let res0 = setHeader ''X-API-Version'' API_VERSION res
      in case sec of
           None \<Rightarrow> res0
         | Some s \<Rightarrow>
             let res1 = (if sc_securityHeaders s
                   then setHeader ''X-DNS-Prefetch-Control'' ''off'' (setHeader ''Referrer-Policy'' ''no-referrer''
                     (setHeader ''X-Frame-Options'' ''DENY'' (setHeader ''X-Content-Type-Options'' ''nosniff'' res0)))
                   else res0)
             in if sc_corsOrigins s \<noteq> []
                then if ''*'' \<in> set (sc_corsOrigins s) then setHeader ''Access-Control-Allow-Origin'' ''*'' res1
                     else if truthy origin \<and> the origin \<in> set (sc_corsOrigins s)
                       then setHeader ''Vary'' ''Origin'' (setHeader ''Access-Control-Allow-Origin'' (the origin) res1)
                       else res1
                else res1)"

fun header_text :: "header_value \<Rightarrow> string" where
  "header_text (One s) = s"
| "header_text (Many ss) = join_with '','' ss"

text \<open>The headers with their names in lower case; a later one replaces an earlier one of the same name.\<close>

definition flat_headers :: "(string, header_value) jsmap \<Rightarrow> (string, string) jsmap" where
  "flat_headers hs = foldl (\<lambda>m (k, v). jm_set (to_lower k) (header_text v) m) [] hs"

definition clientIp :: "request \<Rightarrow> (string, string) jsmap \<Rightarrow> string" where
  "clientIp req headers =
     (case jm_get headers ''x-forwarded-for'' of
        Some xff \<Rightarrow> if xff \<noteq> [] then trim (hd (split_on CHR '','' xff))
                    else (case rq_remote req of None \<Rightarrow> ''unknown'' | Some a \<Rightarrow> a)
      | None \<Rightarrow> (case rq_remote req of None \<Rightarrow> ''unknown'' | Some a \<Rightarrow> a))"

section \<open>The body of a request\<close>

text \<open>
  The listeners of \<open>handle\<close>: they gather the body until it ends and hand its text to \<open>dispatch\<close>, or answer
  the request themselves and destroy it, after which it sends no more events.
\<close>

datatype body_event = Data "nat list" | End | Failed string | Timed_out

record collector =
  bc_size :: nat
  bc_chunks :: "nat list list"
  bc_res :: response
  bc_destroyed :: bool
  bc_body :: "string option"

definition new_collector :: collector where
  "new_collector = \<lparr>bc_size = 0, bc_chunks = [], bc_res = new_response, bc_destroyed = False, bc_body = None\<rparr>"

definition max_body :: "security option \<Rightarrow> nat" where
  "max_body sec = (case sec of None \<Rightarrow> 1000000 | Some s \<Rightarrow> sc_maxBodyBytes s)"

definition send_unless_sent :: "nat \<Rightarrow> string \<Rightarrow> string \<Rightarrow> response \<Rightarrow> response" where
  "send_unless_sent status code message res =
     (if headersSent res then res else snd (sendJson res status (error_body code message)))"

fun collect_event :: "security option \<Rightarrow> body_event \<Rightarrow> collector \<Rightarrow> collector" where
  "collect_event sec (Data c) bc =
     (if bc_destroyed bc then bc
      else let n = bc_size bc + length c
           in if n > max_body sec
              then bc\<lparr>bc_size := n, bc_destroyed := True,
                bc_res := send_unless_sent 413 ''PAYLOAD_TOO_LARGE'' ''request body too large'' (bc_res bc)\<rparr>
              else bc\<lparr>bc_size := n, bc_chunks := bc_chunks bc @ [c]\<rparr>)"
| "collect_event sec End bc =
     (if bc_destroyed bc then bc else bc\<lparr>bc_body := Some (utf8_string (concat (bc_chunks bc)))\<rparr>)"
| "collect_event sec (Failed err) bc =
     (if bc_destroyed bc then bc else bc\<lparr>bc_res := send_unless_sent 400 ''BAD_REQUEST'' ''stream error'' (bc_res bc)\<rparr>)"
| "collect_event sec Timed_out bc =
     (if bc_destroyed bc then bc
      else case sec of
             None \<Rightarrow> bc
           | Some s \<Rightarrow>
               if 0 < sc_requestTimeoutMs s
               then bc\<lparr>bc_destroyed := True,
                 bc_res := send_unless_sent 503 ''REQUEST_TIMEOUT'' ''request timed out'' (bc_res bc)\<rparr>
               else bc)"

definition collect :: "security option \<Rightarrow> body_event list \<Rightarrow> collector" where
  "collect sec evs = foldl (\<lambda>bc ev. collect_event sec ev bc) new_collector evs"

section \<open>Dispatch\<close>

text \<open>\<open>Rejected\<close>: the promise of \<open>dispatch\<close>, which nobody awaits, is rejected.\<close>

datatype outcome = Answered response | Rejected

definition record_request :: "'s router \<Rightarrow> string \<Rightarrow> string \<Rightarrow> int \<Rightarrow> response \<Rightarrow> 's \<Rightarrow> 's" where
  "record_request r meth label durationMs res s =
     (case ro_metrics r of
        None \<Rightarrow> s
      | Some m \<Rightarrow> rm_duration m [(''route'', label)] durationMs
          (rm_requests m [(''method'', meth), (''route'', label), (''code'', nat_digits (rp_status res))] s))"

definition request_id :: "env \<Rightarrow> request \<Rightarrow> string" where
  "request_id e req =
     (case jm_get (rq_headers req) ''x-request-id'' of
        Some v \<Rightarrow> if header_text v \<noteq> [] then header_text v else uuid_at e 0
      | None \<Rightarrow> uuid_at e 0)"

definition deprecation_headers :: "'s router \<Rightarrow> string \<Rightarrow> response \<Rightarrow> response" where
  "deprecation_headers r label res =
     (case jm_get (ro_deprecated r) label of
        None \<Rightarrow> res
      | Some sunset \<Rightarrow>
          let res1 = setHeader ''Deprecation'' ''true'' res
          in if truthy sunset then setHeader ''Sunset'' (the sunset) res1 else res1)"

text \<open>The limiter's decision in the response, and whether the request goes on; or the limiter's error.\<close>

definition limit_request :: "env \<Rightarrow> 's router \<Rightarrow> request \<Rightarrow> string \<Rightarrow> response \<Rightarrow> 's \<Rightarrow> bool result \<times> response \<times> 's" where
  "limit_request e r req label res s =
     (case ro_rateLimit r of
        None \<Rightarrow> (Inr True, res, s)
      | Some rl \<Rightarrow>
          if label \<in> set (rl_skipRoutes rl) then (Inr True, res, s)
          else let ip = clientIp req (flat_headers (rq_headers req)) in
               (case rl_check rl (now_at e 2) (ip @ ''|'' @ label) s of
                  (Inl err, s1) \<Rightarrow> (Inl err, res, s1)
                | (Inr d, s1) \<Rightarrow>
               let res1 = setHeader ''X-RateLimit-Reset'' (string_of_int (ceil_div (rd_resetAt d) 1000))
                     (setHeader ''X-RateLimit-Remaining'' (string_of_int (rd_remaining d))
                       (setHeader ''X-RateLimit-Limit'' (string_of_int (rd_limit d)) res))
               in if rd_allowed d then (Inr True, res1, s1)
                  else let res2 = snd (sendJson (setHeader ''Retry-After'' (string_of_int (rd_retryAfterSec d)) res1) 429
                             (error_body ''RATE_LIMITED'' ''too many requests''));
                           s2 = (case ro_metrics r of
                                   Some m \<Rightarrow> (case rm_rateLimited m of Some inc \<Rightarrow> inc [(''route'', label)] s1 | None \<Rightarrow> s1)
                                 | None \<Rightarrow> s1)
                       in (Inr False, res2, s2)))"

definition is_app_error :: "app_error \<Rightarrow> bool" where
  "is_app_error err = (case err of PlainError _ \<Rightarrow> False | _ \<Rightarrow> True)"

text \<open>The \<open>catch\<close> around a handler.\<close>

definition send_error :: "app_error \<Rightarrow> response \<Rightarrow> unit result \<times> response" where
  "send_error err res =
     (if is_app_error err then sendJson res (http_status err) (error_body (error_code err) (error_message err))
      else sendJson res 500 (error_body ''INTERNAL'' ''internal server error''))"

text \<open>
  \<open>timedOut\<close>: the request's timer fires while the handler waits, and its callback ends the response with
  status 503.
\<close>

definition run_handler :: "env \<Rightarrow> 's handler \<Rightarrow> ctx \<Rightarrow> bool \<Rightarrow> response \<Rightarrow> 's \<Rightarrow> outcome \<times> response \<times> 's" where
  "run_handler e handler cx timedOut res s =
     (let res0 = (if timedOut then send_unless_sent 503 ''REQUEST_TIMEOUT'' ''request timed out'' res else res);
          (r1, res1, s1) = handler e cx res0 s
      in case r1 of
           Inr _ \<Rightarrow> (Answered res1, res1, s1)
         | Inl err \<Rightarrow>
             (case send_error err res1 of
                (Inr _, res2) \<Rightarrow> (Answered res2, res2, s1)
              | (Inl _, res2) \<Rightarrow> (Rejected, res2, s1)))"

definition preflight :: "response \<Rightarrow> response" where
  "preflight res =
     (setHeader ''Access-Control-Max-Age'' ''600''
       (setHeader ''Access-Control-Allow-Headers'' ''Content-Type, Authorization, Idempotency-Key''
         (setHeader ''Access-Control-Allow-Methods'' ''GET, POST, OPTIONS'' res)))\<lparr>rp_status := 204, rp_body := Some []\<rparr>"

definition dispatch_route ::
  "env \<Rightarrow> 's router \<Rightarrow> request \<Rightarrow> string \<Rightarrow> bool \<Rightarrow> ctx \<Rightarrow> 's route \<Rightarrow> response \<Rightarrow> 's \<Rightarrow> outcome \<times> 's" where
  "dispatch_route e r req meth timedOut cx route res s =
     (let label = rt_pattern route;
          took = now_at e 1 - now_at e 0;
          (ok, res1, s1) = limit_request e r req label (deprecation_headers r label res) s
      in case ok of
           Inl err \<Rightarrow> (Rejected, s1)
         | Inr goes_on \<Rightarrow>
             if \<not> goes_on then (Answered res1, record_request r meth label took res1 s1)
             else let (out, res2, s2) = run_handler (env_from 3 e) (rt_handler route) cx timedOut res1 s1
                  in (out, record_request r meth label took res2 s2))"

definition dispatch :: "env \<Rightarrow> 's router \<Rightarrow> request \<Rightarrow> string \<Rightarrow> bool \<Rightarrow> 's \<Rightarrow> outcome \<times> 's" where
  "dispatch e r req rawBody timedOut s =
     (case rq_url req of
        None \<Rightarrow> (Rejected, s)
      | Some (path, query) \<Rightarrow>
          let meth = (case rq_method req of None \<Rightarrow> ''GET'' | Some m \<Rightarrow> m);
              res0 = applySecurityHeaders (ro_security r) (map_option header_text (jm_get (rq_headers req) ''origin'')) new_response;
              requestId = request_id e req;
              res1 = setHeader ''X-Request-Id'' requestId res0
          in if meth = ''OPTIONS'' \<and> (case ro_security r of None \<Rightarrow> False | Some sec \<Rightarrow> sc_corsOrigins sec \<noteq> [])
             then (Answered (preflight res1), s)
             else case match_path meth path r of
                    Inl err \<Rightarrow> (Rejected, s)
                  | Inr None \<Rightarrow>
                      let res2 = snd (sendJson res1 404 (error_body ''NOT_FOUND''
                            (''no route for '' @ (case rq_method req of None \<Rightarrow> ''undefined'' | Some m \<Rightarrow> m) @ '' '' @ path)))
                      in (Answered res2, record_request r meth ''unmatched'' (now_at e 1 - now_at e 0) res2 s)
                  | Inr (Some (route, params)) \<Rightarrow>
                      dispatch_route e r req meth timedOut
                        \<lparr>cx_method = meth, cx_path = path, cx_params = params, cx_query = query, cx_rawBody = rawBody,
                         cx_headers = flat_headers (rq_headers req), cx_requestId = requestId\<rparr> route res1 s)"

section \<open>The body is bounded\<close>

definition data_size :: "body_event list \<Rightarrow> nat" where
  "data_size evs = (\<Sum>ev \<leftarrow> evs. case ev of Data c \<Rightarrow> length c | _ \<Rightarrow> 0)"

lemma send_unless_sent_ended [simp]:
  "headersSent (send_unless_sent st code msg res)"
  by (simp add: send_unless_sent_def sendJson_def sendRaw_def headersSent_def)

lemma send_unless_sent_kept:
  "headersSent res \<Longrightarrow> send_unless_sent st code msg res = res"
  by (simp add: send_unless_sent_def)

lemma send_unless_sent_fresh:
  "\<not> headersSent res \<Longrightarrow> rp_status (send_unless_sent st code msg res) = st"
  by (simp add: send_unless_sent_def sendJson_def sendRaw_def setHeader_def)

definition collector_ok :: "security option \<Rightarrow> collector \<Rightarrow> bool" where
  "collector_ok sec bc =
     ((\<not> bc_destroyed bc \<longrightarrow> bc_size bc = length (concat (bc_chunks bc)) \<and> bc_size bc \<le> max_body sec) \<and>
      (bc_destroyed bc \<longrightarrow> headersSent (bc_res bc)) \<and>
      (\<forall>b. bc_body bc = Some b \<longrightarrow> length b \<le> max_body sec))"

lemma collector_ok_step:
  assumes "collector_ok sec bc"
  shows "collector_ok sec (collect_event sec ev bc)"
  using assms utf8_string_length[of "concat (bc_chunks bc)"]
  by (cases ev) (auto simp: collector_ok_def Let_def split: option.splits)

lemma collector_ok_foldl:
  "collector_ok sec bc \<Longrightarrow> collector_ok sec (foldl (\<lambda>b ev. collect_event sec ev b) bc evs)"
  by (induction evs arbitrary: bc) (simp_all add: collector_ok_step)

lemma collector_ok_collect: "collector_ok sec (collect sec evs)"
  unfolding collect_def by (rule collector_ok_foldl) (simp add: collector_ok_def new_collector_def)

text \<open>Without a destroy the size is what arrived.\<close>

lemma collect_size:
  "\<not> bc_destroyed (foldl (\<lambda>b ev. collect_event sec ev b) bc evs) \<Longrightarrow>
     bc_size (foldl (\<lambda>b ev. collect_event sec ev b) bc evs) = bc_size bc + data_size evs"
proof (induction evs arbitrary: bc)
  case (Cons ev evs)
  let ?bc = "collect_event sec ev bc"
  have stays: "bc_destroyed b \<Longrightarrow> bc_destroyed (foldl (\<lambda>b ev. collect_event sec ev b) b es)" for b es
  proof (induction es arbitrary: b)
    case (Cons e es)
    then show ?case by (cases e) simp_all
  qed simp
  have alive: "\<not> bc_destroyed ?bc" using Cons.prems stays[of ?bc evs] by auto
  have "bc_size ?bc = bc_size bc + (case ev of Data c \<Rightarrow> length c | _ \<Rightarrow> 0)"
    using alive by (cases ev) (auto simp: Let_def split: if_splits option.splits)
  then show ?case using Cons.IH[of ?bc] Cons.prems by (simp add: data_size_def)
qed (simp add: data_size_def)

text \<open>The first answer stands.\<close>

lemma collect_answer_stays:
  "headersSent (bc_res bc) \<Longrightarrow> bc_res (foldl (\<lambda>b ev. collect_event sec ev b) bc evs) = bc_res bc"
proof (induction evs arbitrary: bc)
  case (Cons ev evs)
  then have "bc_res (collect_event sec ev bc) = bc_res bc"
    by (cases ev) (auto simp: send_unless_sent_kept Let_def split: option.splits)
  then show ?case using Cons by simp
qed simp

section \<open>Rate limiting comes before the handler\<close>

text \<open>Two routers that differ in their handlers only.\<close>

definition same_paths :: "'s router \<Rightarrow> 's router \<Rightarrow> bool" where
  "same_paths r r' =
     (ro_metrics r' = ro_metrics r \<and> ro_rateLimit r' = ro_rateLimit r \<and> ro_security r' = ro_security r \<and>
      ro_deprecated r' = ro_deprecated r \<and>
      list_all2 (\<lambda>x y. rt_method y = rt_method x \<and> rt_pattern y = rt_pattern x \<and> rt_segments y = rt_segments x)
        (ro_routes r) (ro_routes r'))"

definition matched_label :: "('s route \<times> (string, string) jsmap) option result \<Rightarrow> (string \<times> (string, string) jsmap) option result" where
  "matched_label m = map_sum id (map_option (\<lambda>(x, ps). (rt_pattern x, ps))) m"

lemma match_routes_same:
  "list_all2 (\<lambda>x y. rt_method y = rt_method x \<and> rt_pattern y = rt_pattern x \<and> rt_segments y = rt_segments x) rs rs' \<Longrightarrow>
     matched_label (match_routes meth parts rs') = matched_label (match_routes meth parts rs)"
  by (induction rule: list_all2_induct) (auto simp: matched_label_def split: option.split sum.split)

lemma match_path_same:
  assumes "same_paths r r'" "match_path meth path r = Inr (Some (route, params))"
  obtains route' where "match_path meth path r' = Inr (Some (route', params))" "rt_pattern route' = rt_pattern route"
proof -
  have "matched_label (match_path meth path r') = matched_label (match_path meth path r)"
    using match_routes_same assms(1) by (auto simp: same_paths_def match_path_def)
  then show ?thesis
    using assms(2) that by (cases "match_path meth path r'") (auto simp: matched_label_def split: option.splits)
qed

lemma limit_request_same: "same_paths r r' \<Longrightarrow> limit_request e r' req label res s = limit_request e r req label res s"
proof -
  assume "same_paths r r'"
  then have same: "ro_metrics r' = ro_metrics r" "ro_rateLimit r' = ro_rateLimit r" by (simp_all add: same_paths_def)
  show ?thesis unfolding limit_request_def same ..
qed

lemma record_request_same: "same_paths r r' \<Longrightarrow> record_request r' meth label took res s = record_request r meth label took res s"
  by (simp add: record_request_def same_paths_def)

definition method_of :: "request \<Rightarrow> string" where
  "method_of req = (case rq_method req of None \<Rightarrow> ''GET'' | Some m \<Rightarrow> m)"

text \<open>The headers set before a route is looked for.\<close>

definition first_response :: "env \<Rightarrow> 's router \<Rightarrow> request \<Rightarrow> response" where
  "first_response e r req = setHeader ''X-Request-Id'' (request_id e req)
     (applySecurityHeaders (ro_security r) (map_option header_text (jm_get (rq_headers req) ''origin'')) new_response)"

definition is_preflight :: "'s router \<Rightarrow> request \<Rightarrow> bool" where
  "is_preflight r req =
     (method_of req = ''OPTIONS'' \<and> (case ro_security r of None \<Rightarrow> False | Some sec \<Rightarrow> sc_corsOrigins sec \<noteq> []))"

definition context_of :: "env \<Rightarrow> request \<Rightarrow> string \<Rightarrow> (string \<times> string) list \<Rightarrow> (string, string) jsmap \<Rightarrow> string \<Rightarrow> ctx" where
  "context_of e req path query params rawBody =
     \<lparr>cx_method = method_of req, cx_path = path, cx_params = params, cx_query = query, cx_rawBody = rawBody,
      cx_headers = flat_headers (rq_headers req), cx_requestId = request_id e req\<rparr>"

lemma dispatch_matched:
  assumes "rq_url req = Some (path, query)" "\<not> is_preflight r req"
    and "match_path (method_of req) path r = Inr (Some (route, params))"
  shows "dispatch e r req rawBody timedOut s =
     dispatch_route e r req (method_of req) timedOut (context_of e req path query params rawBody) route
       (first_response e r req) s"
proof -
  have no: "(method_of req = ''OPTIONS'' \<and> (case ro_security r of None \<Rightarrow> False | Some sec \<Rightarrow> sc_corsOrigins sec \<noteq> [])) = False"
    using assms(2) by (simp add: is_preflight_def)
  show ?thesis
    by (simp only: dispatch_def assms(1) option.case prod.case Let_def flip: method_of_def)
      (simp only: no if_False assms(3) sum.case option.case prod.case context_of_def first_response_def)
qed

lemma setHeader_simps [simp]:
  "rp_status (setHeader k v res) = rp_status res" "rp_body (setHeader k v res) = rp_body res"
  "headersSent (setHeader k v res) = headersSent res"
  by (simp_all add: setHeader_def headersSent_def)

lemma new_response_unsent [simp]: "\<not> headersSent new_response"
  by (simp add: new_response_def headersSent_def)

lemma security_unsent [simp]: "headersSent (applySecurityHeaders sec o' res) = headersSent res"
  by (auto simp: applySecurityHeaders_def Let_def split: option.split)

lemma first_response_unsent [simp]: "\<not> headersSent (first_response e r req)"
  by (simp add: first_response_def)

lemma deprecation_unsent [simp]: "headersSent (deprecation_headers r label res) = headersSent res"
  by (auto simp: deprecation_headers_def Let_def split: option.split)

lemma sendJson_unsent:
  "\<not> headersSent res \<Longrightarrow> sendJson res status body =
     (Inr (), (setHeader ''Content-Type'' ''application/json; charset=utf-8'' res)\<lparr>rp_status := status,
        rp_body := Some (json_text body)\<rparr>)"
  by (simp add: sendJson_def sendRaw_def)

lemma sendJson_sent: "headersSent res \<Longrightarrow> sendJson res status body = (Inl (PlainError ''ERR_HTTP_HEADERS_SENT''), res)"
  by (simp add: sendJson_def sendRaw_def)

lemma headersSent_body [simp]: "headersSent (res\<lparr>rp_status := st, rp_body := Some b\<rparr>)"
  by (simp add: headersSent_def)

lemma limit_request_unsent:
  "limit_request e r req label res s = (Inr True, res1, s1) \<Longrightarrow> headersSent res1 = headersSent res"
  by (auto simp: limit_request_def Let_def split: option.splits if_splits prod.splits sum.splits)

text \<open>The key under which a request is counted.\<close>

definition limit_key :: "request \<Rightarrow> string \<Rightarrow> string" where
  "limit_key req label = clientIp req (flat_headers (rq_headers req)) @ ''|'' @ label"

definition count_limited :: "'s router \<Rightarrow> string \<Rightarrow> 's \<Rightarrow> 's" where
  "count_limited r label s =
     (case ro_metrics r of
        Some m \<Rightarrow> (case rm_rateLimited m of Some inc \<Rightarrow> inc [(''route'', label)] s | None \<Rightarrow> s)
      | None \<Rightarrow> s)"

text \<open>What a refused request gets.\<close>

definition limited_response :: "rate_decision \<Rightarrow> response \<Rightarrow> response" where
  "limited_response d res =
     snd (sendJson (setHeader ''Retry-After'' (string_of_int (rd_retryAfterSec d))
       (setHeader ''X-RateLimit-Reset'' (string_of_int (ceil_div (rd_resetAt d) 1000))
         (setHeader ''X-RateLimit-Remaining'' (string_of_int (rd_remaining d))
           (setHeader ''X-RateLimit-Limit'' (string_of_int (rd_limit d)) res)))) 429
       (error_body ''RATE_LIMITED'' ''too many requests''))"

lemma limit_request_denied:
  assumes "ro_rateLimit r = Some rl" "label \<notin> set (rl_skipRoutes rl)"
    and "rl_check rl (now_at e 2) (limit_key req label) s = (Inr d, s1)" "\<not> rd_allowed d"
  shows "limit_request e r req label res s = (Inr False, limited_response d res, count_limited r label s1)"
  using assms by (simp add: limit_request_def limit_key_def limited_response_def count_limited_def)

lemma dispatch_limited:
  assumes "rq_url req = Some (path, query)" "\<not> is_preflight r req"
    and "match_path (method_of req) path r = Inr (Some (route, params))"
    and "ro_rateLimit r = Some rl" "rt_pattern route \<notin> set (rl_skipRoutes rl)"
    and "rl_check rl (now_at e 2) (limit_key req (rt_pattern route)) s = (Inr d, s1)" "\<not> rd_allowed d"
  shows "dispatch e r req rawBody timedOut s =
     (let label = rt_pattern route;
          res = limited_response d (deprecation_headers r label (first_response e r req))
      in (Answered res, record_request r (method_of req) label (now_at e 1 - now_at e 0) res (count_limited r label s1)))"
  using limit_request_denied[OF assms(4-7)]
  by (simp add: dispatch_matched[OF assms(1-3)] dispatch_route_def Let_def)

text \<open>A limiter that fails, as the Redis one does while its server is away, leaves the request unanswered.\<close>

lemma dispatch_limiter_fails:
  assumes "rq_url req = Some (path, query)" "\<not> is_preflight r req"
    and "match_path (method_of req) path r = Inr (Some (route, params))"
    and "ro_rateLimit r = Some rl" "rt_pattern route \<notin> set (rl_skipRoutes rl)"
    and "rl_check rl (now_at e 2) (limit_key req (rt_pattern route)) s = (Inl err, s1)"
  shows "dispatch e r req rawBody timedOut s = (Rejected, s1)"
  using assms(4-6) by (simp add: dispatch_matched[OF assms(1-3)] dispatch_route_def limit_request_def limit_key_def Let_def)

text \<open>A limiter whose checks always come to a decision.\<close>

definition limiter_decides :: "'s rate_limit option \<Rightarrow> bool" where
  "limiter_decides o' \<longleftrightarrow> (\<forall>rl t k s. o' = Some rl \<longrightarrow> is_ok (fst (rl_check rl t k s)))"

lemma limit_request_decides:
  assumes "limiter_decides (ro_rateLimit r)"
  obtains goes_on res1 s1 where "limit_request e r req label res s = (Inr goes_on, res1, s1)"
proof (cases "ro_rateLimit r")
  case None
  then show ?thesis using that by (simp add: limit_request_def)
next
  case (Some rl)
  let ?c = "rl_check rl (now_at e 2) (clientIp req (flat_headers (rq_headers req)) @ ''|'' @ label) s"
  have "is_ok (fst ?c)" using assms Some by (simp add: limiter_decides_def)
  then obtain d s1 where "?c = (Inr d, s1)" by (cases ?c; cases "fst ?c") auto
  then show ?thesis using that Some by (cases "label \<in> set (rl_skipRoutes rl)"; cases "rd_allowed d") (simp_all add: limit_request_def Let_def)
qed

section \<open>Paths that match\<close>

definition decodable :: "string \<Rightarrow> bool" where
  "decodable path = list_all (\<lambda>part. decodeURIComponent part \<noteq> None) (path_segments path)"

lemma match_segments_decodable:
  "list_all (\<lambda>part. decodeURIComponent part \<noteq> None) parts \<Longrightarrow> \<exists>m. match_segments segs parts params = Inr m"
  by (induction segs parts params rule: match_segments.induct) (auto split: option.split)

lemma match_routes_decodable:
  "list_all (\<lambda>part. decodeURIComponent part \<noteq> None) parts \<Longrightarrow> \<exists>m. match_routes meth parts rs = Inr m"
proof (induction rs)
  case (Cons route rs)
  obtain m where "match_segments (rt_segments route) parts [] = Inr m"
    using match_segments_decodable[OF Cons.prems] by blast
  then show ?case using Cons by (simp split: option.split)
qed simp

lemma match_path_decodable: "decodable path \<Longrightarrow> \<exists>m. match_path meth path r = Inr m"
  by (simp add: decodable_def match_path_def match_routes_decodable)

lemma match_routes_sound:
  "match_routes meth parts rs = Inr (Some (route, params)) \<Longrightarrow>
     route \<in> set rs \<and> rt_method route = meth \<and> match_segments (rt_segments route) parts [] = Inr (Some params)"
  by (induction rs) (auto split: if_splits sum.splits option.splits)

lemma match_path_sound:
  "match_path meth path r = Inr (Some (route, params)) \<Longrightarrow> route \<in> set (ro_routes r) \<and> rt_method route = meth"
  unfolding match_path_def by (auto dest: match_routes_sound)

lemma dispatch_unmatched_error:
  "rq_url req = Some (path, query) \<Longrightarrow> \<not> is_preflight r req \<Longrightarrow> match_path (method_of req) path r = Inl err \<Longrightarrow>
     dispatch e r req rawBody timedOut s = (Rejected, s)"
  by (auto simp: dispatch_def is_preflight_def method_of_def Let_def)

section \<open>Every request is answered\<close>

text \<open>
  The contract of a handler: it ends the response when it returns, leaves it open when it throws, and
  throws when it is given one that has ended.
\<close>

locale answering =
  fixes r :: "'s router"
  assumes returns: "route \<in> set (ro_routes r) \<Longrightarrow> rt_handler route e cx res s = (Inr u, res', s') \<Longrightarrow> headersSent res'"
    and throws: "route \<in> set (ro_routes r) \<Longrightarrow> rt_handler route e cx res s = (Inl err, res', s') \<Longrightarrow>
      headersSent res' = headersSent res"
    and late: "route \<in> set (ro_routes r) \<Longrightarrow> headersSent res \<Longrightarrow> \<not> is_ok (fst (rt_handler route e cx res s))"
begin

lemma run_handler_answers:
  assumes "route \<in> set (ro_routes r)" "\<not> headersSent res"
  shows "\<exists>res' s'. run_handler e (rt_handler route) cx False res s = (Answered res', res', s') \<and> headersSent res'"
proof (cases "rt_handler route e cx res s")
  case (fields r1 res1 s1)
  show ?thesis
  proof (cases r1)
    case (Inl err)
    then have "\<not> headersSent res1" using throws[OF assms(1)] fields assms(2) by auto
    then show ?thesis using fields Inl by (simp add: run_handler_def send_error_def sendJson_unsent)
  next
    case (Inr u)
    then show ?thesis using returns[OF assms(1)] fields by (auto simp: run_handler_def)
  qed
qed

lemma run_handler_error:
  assumes "route \<in> set (ro_routes r)" "\<not> headersSent res" "rt_handler route e cx res s = (Inl err, res1, s1)"
  shows "\<exists>res'. run_handler e (rt_handler route) cx False res s = (Answered res', res', s1) \<and>
    rp_status res' = (if is_app_error err then http_status err else 500) \<and>
    rp_body res' = Some (json_text (if is_app_error err then error_body (error_code err) (error_message err)
      else error_body ''INTERNAL'' ''internal server error''))"
proof -
  have "\<not> headersSent res1" using throws[OF assms(1,3)] assms(2) by simp
  then show ?thesis using assms(3) by (simp add: run_handler_def send_error_def sendJson_unsent)
qed

lemma run_handler_late:
  assumes "route \<in> set (ro_routes r)"
  shows "fst (run_handler e (rt_handler route) cx True res s) = Rejected"
proof -
  let ?res = "send_unless_sent 503 ''REQUEST_TIMEOUT'' ''request timed out'' res"
  have sent: "headersSent ?res" by simp
  obtain err res1 s1 where h: "rt_handler route e cx ?res s = (Inl err, res1, s1)"
    using late[OF assms sent, of e cx s] by (cases "rt_handler route e cx ?res s") (auto simp: is_ok_def split: sum.splits)
  then have "headersSent res1" using throws[OF assms h] sent by simp
  then show ?thesis using h by (simp add: run_handler_def send_error_def sendJson_sent)
qed

lemma dispatch_answers:
  assumes "rq_url req = Some (path, query)" "is_preflight r req \<or> decodable path" "limiter_decides (ro_rateLimit r)"
  shows "\<exists>res s'. dispatch e r req rawBody False s = (Answered res, s') \<and> headersSent res"
proof (cases "is_preflight r req")
  case True
  then show ?thesis
    using assms(1) by (simp add: dispatch_def is_preflight_def method_of_def Let_def preflight_def headersSent_def)
next
  case False
  then obtain m where m: "match_path (method_of req) path r = Inr m"
    using assms(2) match_path_decodable by blast
  show ?thesis
  proof (cases m)
    case None
    then show ?thesis
      using assms(1) m False
      by (auto simp: dispatch_def is_preflight_def method_of_def Let_def sendJson_def sendRaw_def headersSent_def)
  next
    case (Some found)
    obtain route params where found: "found = (route, params)" by (cases found)
    have route: "route \<in> set (ro_routes r)" using match_path_sound m Some found by blast
    let ?lim = "limit_request e r req (rt_pattern route) (deprecation_headers r (rt_pattern route) (first_response e r req)) s"
    obtain ok res1 s1 where lim: "?lim = (Inr ok, res1, s1)" by (rule limit_request_decides[OF assms(3)])
    show ?thesis
    proof (cases ok)
      case True
      then have "\<not> headersSent res1" using limit_request_unsent lim by fastforce
      then show ?thesis
        using run_handler_answers[OF route, of res1 "env_from 3 e" "context_of e req path query params rawBody" s1]
          lim True m Some found
        by (auto simp: dispatch_matched[OF assms(1) False] dispatch_route_def)
    next
      case no: False
      have "headersSent res1"
        using lim no by (auto simp: limit_request_def Let_def sendJson_def sendRaw_def headersSent_def
            split: option.splits if_splits prod.splits sum.splits)
      then show ?thesis using lim no m Some found by (simp add: dispatch_matched[OF assms(1) False] dispatch_route_def)
    qed
  qed
qed

lemma dispatch_late:
  assumes "rq_url req = Some (path, query)" "\<not> is_preflight r req"
    and "match_path (method_of req) path r = Inr (Some (route, params))"
    and "fst (limit_request e r req (rt_pattern route)
      (deprecation_headers r (rt_pattern route) (first_response e r req)) s) = Inr True"
  shows "fst (dispatch e r req rawBody True s) = Rejected"
proof -
  have route: "route \<in> set (ro_routes r)" using match_path_sound assms(3) by blast
  show ?thesis
    using run_handler_late[OF route] assms(4)
    by (simp add: dispatch_matched[OF assms(1-3)] dispatch_route_def split_beta Let_def)
qed

end

end
