(* ===== verification/Api.thy ===== *)
theory Api
  imports ApiViews Http Csv QrSvg
begin

text \<open>
  \<^verbatim>\<open>src/api/routes.ts\<close>: what the routes depend on, the helpers that read a request, and the handler of each
  route, composed by \<open>buildRouter\<close>.

  The state is the services' world with the accounts' stores, the notifications sent, the metrics and the
  windows of the rate limiter; accounts and services share one audit log. The OpenAPI document and the
  page of \<open>/docs\<close>, two constants of the code, are parameters.
\<close>

section \<open>Dependencies\<close>

record api_state =
  as_world :: world
  as_users :: user_store
  as_merchants :: merchant_store
  as_notes :: "notification_event list"
  as_metrics :: metrics
  as_windows :: windows

text \<open>
  \<open>ad_salt\<close> is what \<open>randomBytes(16)\<close> returns to a registration; \<open>ad_collectors\<close> are the metrics' collectors,
  which read the stores; \<open>ad_webhooks\<close> holds the signing key's function, the settings, and what the receiver
  answers to each attempt of one pass.
\<close>

record api_deps =
  ad_payments :: payment_deps
  ad_refunds :: refund_deps
  ad_healer :: bool
  ad_reminderWindowMs :: int
  ad_notifier :: notifier
  ad_scrypt :: scrypt
  ad_salt :: "byte list"
  ad_rates :: rates
  ad_checks :: "health_check list"
  ad_alertSink :: "env \<Rightarrow> alert \<Rightarrow> world \<Rightarrow> unit result \<times> world"
  ad_processedEventTtlMs :: int
  ad_plans :: "plan list"
  ad_enabledMethods :: "payment_method list"
  ad_adminToken :: "string option"
  ad_adminTokenPrevious :: "string option"
  ad_collectors :: "(world \<Rightarrow> metrics \<Rightarrow> metrics) list option"
  ad_routerMetrics :: "api_state router_metrics option"
  ad_rateLimit :: "api_state rate_limit option"
  ad_security :: "security option"
  ad_usdtWatcher :: "(nat \<Rightarrow> payment_deps) option"
  ad_webhooks :: "(hmac \<times> webhook_config \<times> (nat \<Rightarrow> http_client)) option"
  ad_sweepJobs :: bool
  ad_sweepService :: bool
  ad_merchants :: bool
  ad_openApi :: "payment_method list \<Rightarrow> json"
  ad_docsHtml :: string

text \<open>An operation of the services, or of the accounts, on the whole state.\<close>

definition on_world :: "(world \<Rightarrow> 'a result \<times> world) \<Rightarrow> api_state \<Rightarrow> 'a result \<times> api_state" where
  "on_world f s = (let (r, w) = f (as_world s) in (r, s\<lparr>as_world := w\<rparr>))"

definition accounts_of :: "api_state \<Rightarrow> accounts" where
  "accounts_of s = \<lparr>ac_users = as_users s, ac_merchants = as_merchants s, ac_audit = w_audit (as_world s)\<rparr>"

definition on_accounts :: "(accounts \<Rightarrow> 'a result \<times> accounts) \<Rightarrow> api_state \<Rightarrow> 'a result \<times> api_state" where
  "on_accounts f s =
     (let (r, a) = f (accounts_of s)
      in (r, s\<lparr>as_users := ac_users a, as_merchants := ac_merchants a, as_world := (as_world s)\<lparr>w_audit := ac_audit a\<rparr>\<rparr>))"

text \<open>A step that may throw and leaves the state alone.\<close>

definition needs :: "'a result \<Rightarrow> ('a \<Rightarrow> 's \<Rightarrow> 'b result \<times> 's) \<Rightarrow> 's \<Rightarrow> 'b result \<times> 's" where
  "needs r f s = (case r of Inl err \<Rightarrow> (Inl err, s) | Inr x \<Rightarrow> f x s)"

section \<open>Reading a request\<close>

text \<open>\<open>parseJsonBody\<close>: the properties of the body; an empty list when it is not an object.\<close>

definition parseJsonBody :: "ctx \<Rightarrow> (string \<times> json) list" where
  "parseJsonBody cx =
     (if cx_rawBody cx = [] then []
      else case JSON_parse (cx_rawBody cx) of Some (JObj ps) \<Rightarrow> ps | _ \<Rightarrow> [])"

definition requireString :: "(string \<times> json) list \<Rightarrow> string \<Rightarrow> string result" where
  "requireString body key =
     (case jm_get body key of
        Some (JStr v) \<Rightarrow> if trim v = [] then Inl (ValidationError (''missing or invalid field: '' @ key)) else Inr (trim v)
      | _ \<Rightarrow> Inl (ValidationError (''missing or invalid field: '' @ key)))"

definition optionalString :: "(string \<times> json) list \<Rightarrow> string \<Rightarrow> string option" where
  "optionalString body key = (case jm_get body key of Some (JStr v) \<Rightarrow> Some v | _ \<Rightarrow> None)"

definition bearerToken :: "ctx \<Rightarrow> string" where
  "bearerToken cx =
     (let header = (case jm_get (cx_headers cx) ''authorization'' of None \<Rightarrow> [] | Some h \<Rightarrow> h)
      in if starts_with ''Bearer '' header then drop 7 header else [])"

definition merchantScope :: "api_deps \<Rightarrow> ctx \<Rightarrow> api_state \<Rightarrow> merchant option result" where
  "merchantScope d cx s =
     (let key = jm_get (cx_headers cx) ''x-merchant-key''
      in if \<not> truthy key then Inr None
         else if \<not> ad_merchants d then Inl (AuthError ''multi-tenant is not enabled'' 403)
         else case merchant_authenticate (the key) (accounts_of s) of
                None \<Rightarrow> Inl (AuthError ''invalid merchant key'' 401)
              | Some m \<Rightarrow> Inr (Some m))"

definition assertOrderScope :: "order \<Rightarrow> merchant option \<Rightarrow> unit result" where
  "assertOrderScope ord scope =
     (case scope of
        None \<Rightarrow> Inr ()
      | Some m \<Rightarrow>
          if (case o_merchantId ord of None \<Rightarrow> DEFAULT_MERCHANT_ID | Some i \<Rightarrow> i) \<noteq> m_id m
          then Inl (NotFoundError (''order not found: '' @ o_id ord)) else Inr ())"

definition requireAdmin :: "ctx \<Rightarrow> string option \<Rightarrow> string option \<Rightarrow> unit result" where
  "requireAdmin cx adminToken adminTokenPrevious =
     (if \<not> truthy adminToken then Inl (AuthError ''admin endpoints are disabled (set ADMIN_TOKEN)'' 403)
      else let header = (case jm_get (cx_headers cx) ''authorization'' of None \<Rightarrow> [] | Some h \<Rightarrow> h);
               token = (if starts_with ''Bearer '' header then drop 7 header else []);
               valid = (safeEqual token (the adminToken) \<or> (truthy adminTokenPrevious \<and> safeEqual token (the adminTokenPrevious)))
           in if \<not> valid then Inl (AuthError ''invalid admin token'' 401) else Inr ())"

definition adminGuard :: "env \<Rightarrow> api_deps \<Rightarrow> ctx \<Rightarrow> api_state \<Rightarrow> unit result \<times> api_state" where
  "adminGuard e d cx s =
     (case requireAdmin cx (ad_adminToken d) (ad_adminTokenPrevious d) of
        Inl err \<Rightarrow> (Inl err, s)
      | Inr _ \<Rightarrow> (Inr (), s\<lparr>as_world := audit_world e ''admin.access'' None (Some (cx_path cx))
          (JObj [(''method'', JStr (cx_method cx))]) (as_world s)\<rparr>))"

definition query_get :: "(string \<times> string) list \<Rightarrow> string \<Rightarrow> string option" where
  "query_get q name = jm_get q name"

definition intParam :: "(string \<times> string) list \<Rightarrow> string \<Rightarrow> int \<Rightarrow> int \<Rightarrow> int result" where
  "intParam q name def mx =
     (case query_get q name of
        None \<Rightarrow> Inr def
      | Some raw \<Rightarrow>
          (case js_number_of raw of
             Fin n \<Rightarrow> if \<not> is_integer n \<or> n < 0 then Inl (ValidationError (''invalid '' @ name)) else Inr (min \<lfloor>n\<rfloor> mx)
           | _ \<Rightarrow> Inl (ValidationError (''invalid '' @ name))))"

text \<open>\<open>q.get(name) ? intParam(..) : undefined\<close>\<close>

definition optionalInt :: "(string \<times> string) list \<Rightarrow> string \<Rightarrow> int option result" where
  "optionalInt q name =
     (if truthy (query_get q name) then map_sum id Some (intParam q name 0 MAX_SAFE_INTEGER) else Inr None)"

definition refund_status_of :: "string \<Rightarrow> refund_status option" where
  "refund_status_of s = find (\<lambda>st. refund_status_name st = s) [R_PENDING, R_SUCCESS, R_FAILED, R_MANUAL]"

definition order_status_of :: "string \<Rightarrow> order_status option" where
  "order_status_of s = find (\<lambda>st. order_status_name st = s) [PENDING, PAID, FULFILLED, EXPIRED, CANCELLED, REFUNDED, FAILED]"

definition method_of_name :: "string \<Rightarrow> payment_method option" where
  "method_of_name s = find (\<lambda>m. method_name m = s) ALL_METHODS"

definition refundFilter :: "(string \<times> string) list \<Rightarrow> refund_filter result" where
  "refundFilter q =
     (let status = query_get q ''status''
      in if truthy status \<and> refund_status_of (the status) = None
         then Inl (ValidationError (''invalid status: '' @ the status))
         else case optionalInt q ''from'' of Inl err \<Rightarrow> Inl err | Inr f \<Rightarrow>
             (case optionalInt q ''to'' of Inl err \<Rightarrow> Inl err | Inr t \<Rightarrow>
                Inr \<lparr>rf_status = (if truthy status then refund_status_of (the status) else None), rf_from = f, rf_to = t\<rparr>))"

definition reportFilter :: "(string \<times> string) list \<Rightarrow> report_filter result" where
  "reportFilter q =
     (case optionalInt q ''from'' of Inl err \<Rightarrow> Inl err | Inr f \<Rightarrow>
     (case optionalInt q ''to'' of Inl err \<Rightarrow> Inl err | Inr t \<Rightarrow>
        let meth = query_get q ''method''; status = query_get q ''status''
        in if truthy meth \<and> method_of_name (the meth) = None
           then Inl (ValidationError (''invalid method: '' @ the meth))
           else if truthy status \<and> order_status_of (the status) = None
           then Inl (ValidationError (''invalid status: '' @ the status))
           else Inr \<lparr>pf_from = f, pf_to = t, pf_method = (if truthy meth then method_of_name (the meth) else None),
             pf_status = (if truthy status then order_status_of (the status) else None), pf_merchantId = None\<rparr>))"

section \<open>Handlers\<close>

text \<open>
  Most handlers compute what they answer and send it at their end; \<open>Raw\<close> has the headers set before.
\<close>

datatype reply = Json nat json | Raw nat "(string \<times> string) list" string string

type_synonym api_handler = "env \<Rightarrow> ctx \<Rightarrow> api_state \<Rightarrow> reply result \<times> api_state"

definition send_reply :: "reply \<Rightarrow> response \<Rightarrow> unit result \<times> response" where
  "send_reply rep rsp =
     (case rep of
        Json status body \<Rightarrow> sendJson rsp status body
      | Raw status hs ct body \<Rightarrow>
          if hs \<noteq> [] \<and> headersSent rsp then (Inl (PlainError ''ERR_HTTP_HEADERS_SENT''), rsp)
          else sendRaw (foldl (\<lambda>r (k, v). setHeader k v r) rsp hs) status ct body)"

definition replying :: "api_handler \<Rightarrow> api_state handler" where
  "replying f e cx rsp s =
     (case f e cx s of
        (Inl err, s1) \<Rightarrow> (Inl err, rsp, s1)
      | (Inr rep, s1) \<Rightarrow> (let (r, rsp1) = send_reply rep rsp in (r, rsp1, s1)))"

text \<open>\<open>await adminGuard(ctx, deps)\<close> before the rest.\<close>

definition guarded :: "api_deps \<Rightarrow> api_state handler \<Rightarrow> api_state handler" where
  "guarded d h e cx rsp s =
     (case adminGuard e d cx s of
        (Inl err, s1) \<Rightarrow> (Inl err, rsp, s1)
      | (Inr _, s1) \<Rightarrow> h (env_from 1 e) cx rsp s1)"

text \<open>\<open>try { .. } catch (err) { throw g(err) }\<close>\<close>

definition catching :: "(ctx \<Rightarrow> app_error \<Rightarrow> app_error) \<Rightarrow> api_state handler \<Rightarrow> api_state handler" where
  "catching g h e cx rsp s =
     (case h e cx rsp s of
        (Inl err, rsp1, s1) \<Rightarrow> (Inl (g cx err), rsp1, s1)
      | r \<Rightarrow> r)"

definition param :: "ctx \<Rightarrow> string \<Rightarrow> string" where
  "param cx name = (case jm_get (cx_params cx) name of None \<Rightarrow> [] | Some v \<Rightarrow> v)"

subsection \<open>Public\<close>

definition h_healthz :: "api_deps \<Rightarrow> api_handler" where
  "h_healthz d e cx s = (Inr (Json 200 (JObj [(''status'', JStr ''ok''), (''methods'', methods_json (ad_enabledMethods d))])), s)"

definition h_version :: "api_deps \<Rightarrow> api_handler" where
  "h_version d e cx s = (Inr (Json 200 (JObj [(''app'', JStr ''1.0.0''), (''api'', JStr API_VERSION),
     (''supported'', JArr [JStr ''v1''])])), s)"

definition h_readyz :: "api_deps \<Rightarrow> api_handler" where
  "h_readyz d e cx s =
     (let report = readiness_run None (ad_checks d)
      in (Inr (Json (if ry_status report = Ready then 200 else 503) (readiness_json report)), s))"

definition h_metrics :: "api_deps \<Rightarrow> api_handler" where
  "h_metrics d e cx s =
     (let (body, mx) = (case ad_collectors d of
            None \<Rightarrow> ([], as_metrics s)
          | Some cs \<Rightarrow> metrics_render (map (\<lambda>c. c (as_world s)) cs) (as_metrics s))
      in (Inr (Raw 200 [] ''text/plain; version=0.0.4; charset=utf-8'' body), s\<lparr>as_metrics := mx\<rparr>))"

definition h_plans :: "api_deps \<Rightarrow> api_handler" where
  "h_plans d e cx s =
     (case map_result plan_json (listPlans (ad_plans d)) of
        Inl err \<Rightarrow> (Inl err, s)
      | Inr plans \<Rightarrow> (Inr (Json 200 (JObj [(''plans'', JArr plans), (''enabledMethods'', methods_json (ad_enabledMethods d))])), s))"

text \<open>The checks of the quote, then the quote itself in a \<open>try\<close>.\<close>

definition quote_args :: "ctx \<Rightarrow> (num \<times> string \<times> string) result" where
  "quote_args cx =
     (let amount = (case query_get (cx_query cx) ''amount'' of None \<Rightarrow> Fin 0 | Some raw \<Rightarrow> js_number_of raw);
          from = (case query_get (cx_query cx) ''from'' of None \<Rightarrow> [] | Some f \<Rightarrow> f);
          to = (case query_get (cx_query cx) ''to'' of None \<Rightarrow> [] | Some t \<Rightarrow> t)
      in if \<not> is_integer_num amount \<or> num_sign amount < 0
         then Inl (ValidationError ''amount must be a non-negative integer (minor units)'')
         else if from = [] \<or> to = [] then Inl (ValidationError ''from and to currencies are required'')
         else Inr (amount, from, to))"

definition h_quote :: "api_deps \<Rightarrow> api_state handler" where
  "h_quote d e cx rsp s =
     (case quote_args cx of
        Inl err \<Rightarrow> (Inl err, rsp, s)
      | Inr (amount, from, to) \<Rightarrow>
          catching (\<lambda>_ err. ValidationError (error_message err))
            (replying (\<lambda>e cx s.
               (case pricing_quote (ad_rates d) amount from to of
                  Inl err \<Rightarrow> (Inl err, s)
                | Inr q \<Rightarrow> (Inr (Json 200 (quote_json q)), s)))) e cx rsp s)"

subsection \<open>Users\<close>

definition h_register :: "api_deps \<Rightarrow> api_handler" where
  "h_register d e cx s =
     (let body = parseJsonBody cx
      in needs (requireString body ''email'') (\<lambda>email.
         needs (requireString body ''password'') (\<lambda>password s.
           bindR (on_accounts (register e (ad_scrypt d) (ad_salt d)
               \<lparr>ri_email = email, ri_password = password, ri_locale = optionalString body ''locale'',
                ri_name = optionalString body ''name''\<rparr>) s)
             (\<lambda>r s1. (Inr (Json 201 (login_json r)), s1)))) s)"

definition h_login :: "api_deps \<Rightarrow> api_handler" where
  "h_login d e cx s =
     (let body = parseJsonBody cx
      in needs (requireString body ''email'') (\<lambda>email.
         needs (requireString body ''password'') (\<lambda>password s.
           bindR (on_accounts (login e (ad_scrypt d) email password) s)
             (\<lambda>r s1. (Inr (Json 200 (login_json r)), s1)))) s)"

definition h_me :: "api_deps \<Rightarrow> api_handler" where
  "h_me d e cx s =
     needs (user_authenticate (bearerToken cx) (accounts_of s)) (\<lambda>u s.
       (Inr (Json 200 (user_json (toPublicUser u))), s)) s"

definition h_rotate_user_key :: "api_deps \<Rightarrow> api_handler" where
  "h_rotate_user_key d e cx s =
     needs (user_authenticate (bearerToken cx) (accounts_of s)) (\<lambda>u s.
       bindR (on_accounts (rotateApiKey e (u_id u)) s) (\<lambda>apiKey s1.
         (Inr (Json 200 (JObj [(''apiKey'', JStr apiKey)])), s1))) s"

subsection \<open>Orders\<close>

text \<open>The fields of the body and the checks of the method.\<close>

definition order_args :: "api_deps \<Rightarrow> (string \<times> json) list \<Rightarrow> (string \<times> string \<times> payment_method) result" where
  "order_args d body =
     (case requireString body ''userId'' of Inl err \<Rightarrow> Inl err | Inr userId \<Rightarrow>
     (case requireString body ''planId'' of Inl err \<Rightarrow> Inl err | Inr planId \<Rightarrow>
     (case requireString body ''method'' of Inl err \<Rightarrow> Inl err | Inr name \<Rightarrow>
       (case method_of_name name of
          None \<Rightarrow> Inl (ValidationError (''unsupported method: '' @ name))
        | Some m \<Rightarrow>
            if m \<notin> set (ad_enabledMethods d) then Inl (ValidationError (''payment method not enabled: '' @ name))
            else Inr (userId, planId, m)))))"

definition h_create_order :: "api_deps \<Rightarrow> api_handler" where
  "h_create_order d e cx s =
     (let body = parseJsonBody cx
      in needs (order_args d body) (\<lambda>(userId, planId, m).
         let header = jm_get (cx_headers cx) ''idempotency-key'';
             idempotencyKey = (if truthy header then header else optionalString body ''idempotencyKey'')
         in needs (merchantScope d cx s) (\<lambda>scope s.
              bindR (on_world (createOrder e (ad_payments d)
                  \<lparr>ci_userId = userId, ci_planId = planId, ci_method = m, ci_idempotencyKey = idempotencyKey,
                   ci_merchantId = map_option m_id scope\<rparr>) s)
                (\<lambda>(ord, payInfo) s1. needs (createdView ord payInfo) (\<lambda>view s2. (Inr (Json 201 view), s2)) s1))) s)"

definition find_order :: "ctx \<Rightarrow> api_state \<Rightarrow> order result" where
  "find_order cx s =
     (case getOrder (param cx ''id'') (as_world s) of
        None \<Rightarrow> Inl (NotFoundError (''order not found: '' @ param cx ''id''))
      | Some ord \<Rightarrow> Inr ord)"

definition h_get_order :: "api_deps \<Rightarrow> api_handler" where
  "h_get_order d e cx s =
     needs (merchantScope d cx s) (\<lambda>scope s.
     needs (find_order cx s) (\<lambda>ord.
     needs (assertOrderScope ord scope) (\<lambda>_.
     needs (orderView ord) (\<lambda>view s. (Inr (Json 200 view), s)))) s) s"

definition list_page :: "ctx \<Rightarrow> int \<Rightarrow> int \<Rightarrow> (int \<times> int) result" where
  "list_page cx def mx =
     (case intParam (cx_query cx) ''limit'' def mx of Inl err \<Rightarrow> Inl err | Inr n \<Rightarrow>
     (case intParam (cx_query cx) ''offset'' 0 MAX_SAFE_INTEGER of Inl err \<Rightarrow> Inl err | Inr off \<Rightarrow> Inr (n, off)))"

definition h_merchant_orders :: "api_deps \<Rightarrow> api_handler" where
  "h_merchant_orders d e cx s =
     needs (merchantScope d cx s) (\<lambda>scope.
       case scope of
         None \<Rightarrow> (\<lambda>s. (Inl (AuthError ''X-Merchant-Key required'' 401), s))
       | Some m \<Rightarrow>
           needs (list_page cx 50 500) (\<lambda>(n, off).
           needs (reportFilter (cx_query cx)) (\<lambda>f s.
             let (n_total, items) = report_listOrders (f\<lparr>pf_merchantId := Some (m_id m)\<rparr>) (nat n) (nat off) (w_orders (as_world s))
             in needs (map_result orderView items) (\<lambda>views s. (Inr (Json 200 (page_json n_total n off views)), s)) s))) s"

definition h_qrcode :: "api_deps \<Rightarrow> api_state handler" where
  "h_qrcode d e cx rsp s =
     (case find_order cx s of
        Inl err \<Rightarrow> (Inl err, rsp, s)
      | Inr ord \<Rightarrow>
          let payTarget = map_option c_payTarget (md_payInfo (o_metadata ord))
          in if \<not> truthy payTarget
             then (let (r, rsp1) = sendJson rsp 404 (error_body ''NO_QR'' ''order has no payment target to encode'')
                   in (r, rsp1, s))
             else case intParam (cx_query cx) ''m'' 6 20 of
                    Inl err \<Rightarrow> (Inl err, rsp, s)
                  | Inr moduleSize \<Rightarrow>
                      if headersSent rsp then (Inl (PlainError ''ERR_HTTP_HEADERS_SENT''), rsp, s)
                      else let rsp1 = setHeader ''Cache-Control'' ''no-store'' rsp
                           in case qrToSvg (the payTarget) (Some (nat moduleSize)) None of
                                Inl err \<Rightarrow> (Inl err, rsp1, s)
                              | Inr svg \<Rightarrow> (let (r, rsp2) = sendRaw rsp1 200 ''image/svg+xml; charset=utf-8'' svg in (r, rsp2, s)))"

definition h_sync :: "api_deps \<Rightarrow> api_handler" where
  "h_sync d e cx s =
     bindR (on_world (syncOrder e (ad_payments d) (param cx ''id'')) s) (\<lambda>ord.
       needs (orderView ord) (\<lambda>view s1. (Inr (Json 200 view), s1)))"

definition amount_arg :: "(string \<times> json) list \<Rightarrow> js_number option result" where
  "amount_arg body =
     (case jm_get body ''amount'' of
        None \<Rightarrow> Inr None
      | Some (JNum i) \<Rightarrow> Inr (Some (JsInt i))
      | Some _ \<Rightarrow> Inl (ValidationError ''amount must be an integer in minor units''))"

definition h_refund :: "api_deps \<Rightarrow> api_handler" where
  "h_refund d e cx s =
     (let body = parseJsonBody cx
      in needs (amount_arg body) (\<lambda>amount s.
           bindR (on_world (refundOrder e (ad_refunds d) (param cx ''id'')
               \<lparr>ri_amount = amount, ri_reason = optionalString body ''reason'',
                ri_outRefundNo = optionalString body ''outRefundNo''\<rparr>) s)
             (\<lambda>r s1. (Inr (Json 201 (refund_json r)), s1))) s)"

definition h_order_refunds :: "api_deps \<Rightarrow> api_handler" where
  "h_order_refunds d e cx s =
     (Inr (Json 200 (JObj [(''refunds'', JArr (map refund_json (listOrderRefunds (param cx ''id'') (as_world s))))])), s)"

subsection \<open>Provider callbacks and internal passes\<close>

definition raw_of :: "ctx \<Rightarrow> raw_callback" where
  "raw_of cx = \<lparr>raw_body = cx_rawBody cx, raw_headers = cx_headers cx\<rparr>"

definition ack_reply :: "callback_ack \<Rightarrow> reply" where
  "ack_reply a = Raw (nat (ack_status a)) [] (ack_contentType a) (ack_body a)"

definition h_notify :: "payment_method \<Rightarrow> api_deps \<Rightarrow> api_handler" where
  "h_notify m d e cx s =
     bindR (on_world (handleCallback e (ad_payments d) m (raw_of cx)) s) (\<lambda>a s1. (Inr (ack_reply a), s1))"

definition h_notify_refund :: "api_deps \<Rightarrow> api_handler" where
  "h_notify_refund d e cx s =
     bindR (on_world (handleRefundCallback e (ad_refunds d) Wechat (raw_of cx)) s) (\<lambda>a s1. (Inr (ack_reply a), s1))"

definition h_usdt_reconcile :: "api_deps \<Rightarrow> api_handler" where
  "h_usdt_reconcile d e cx s =
     (let (settled, w) = (case ad_usdtWatcher d of
            None \<Rightarrow> (0, as_world s)
          | Some deps \<Rightarrow> reconcileOnce e deps (as_world s))
      in (Inr (Json 200 (JObj [(''settled'', JNum (int settled))])), s\<lparr>as_world := w\<rparr>))"

definition h_maintenance :: "api_deps \<Rightarrow> api_handler" where
  "h_maintenance d e cx s =
     (let (removed, ev) = event_sweep e (ad_processedEventTtlMs d) (w_events (as_world s))
      in (Inr (Json 200 (JObj [(''removed'', JNum (int removed))])), s\<lparr>as_world := (as_world s)\<lparr>w_events := ev\<rparr>\<rparr>))"

definition h_webhooks_process :: "api_deps \<Rightarrow> api_handler" where
  "h_webhooks_process d e cx s =
     (case ad_webhooks d of
        None \<Rightarrow> (Inr (Json 200 (counts_json \<lparr>pc_delivered = 0, pc_retried = 0, pc_dead = 0\<rparr>)), s)
      | Some (hm, cfg, request) \<Rightarrow>
          let (r, st) = webhook_processDue e hm cfg request 50 (w_hooks (as_world s));
              s1 = s\<lparr>as_world := (as_world s)\<lparr>w_hooks := st\<rparr>\<rparr>
          in needs r (\<lambda>n s2. (Inr (Json 200 (counts_json n)), s2)) s1)"

definition h_openapi :: "api_deps \<Rightarrow> api_handler" where
  "h_openapi d e cx s = (Inr (Json 200 (ad_openApi d (ad_enabledMethods d))), s)"

definition h_docs :: "api_deps \<Rightarrow> api_handler" where
  "h_docs d e cx s = (Inr (Raw 200 [] ''text/html; charset=utf-8'' (ad_docsHtml d)), s)"

subsection \<open>Administration\<close>

definition h_summary :: "api_deps \<Rightarrow> api_handler" where
  "h_summary d e cx s =
     needs (reportFilter (cx_query cx)) (\<lambda>f s.
       needs (report_summary f (w_orders (as_world s)) (w_refunds (as_world s))) (\<lambda>r s. (Inr (Json 200 (summary_json r)), s)) s) s"

definition h_orders_summary :: "api_deps \<Rightarrow> api_handler" where
  "h_orders_summary d e cx s =
     needs (reportFilter (cx_query cx)) (\<lambda>f s.
       needs (report_orderSummary f (w_orders (as_world s))) (\<lambda>r s. (Inr (Json 200 (order_summary_json r)), s)) s) s"

definition h_admin_orders :: "api_deps \<Rightarrow> api_handler" where
  "h_admin_orders d e cx s =
     needs (list_page cx 50 500) (\<lambda>(n, off).
     needs (reportFilter (cx_query cx)) (\<lambda>f s.
       let (n_total, items) = report_listOrders f (nat n) (nat off) (w_orders (as_world s))
       in needs (map_result orderView items) (\<lambda>views s. (Inr (Json 200 (page_json n_total n off views)), s)) s)) s"

definition h_admin_refunds :: "api_deps \<Rightarrow> api_handler" where
  "h_admin_refunds d e cx s =
     needs (list_page cx 50 500) (\<lambda>(n, off).
     needs (refundFilter (cx_query cx)) (\<lambda>f s.
       let (n_total, items) = report_listRefunds f (nat n) (nat off) (w_refunds (as_world s))
       in (Inr (Json 200 (page_json n_total n off (map refund_json items))), s))) s"

definition no_tenants :: reply where
  "no_tenants = Json 404 (error_body ''NOT_ENABLED'' ''multi-tenant is not enabled'')"

definition h_create_merchant :: "api_deps \<Rightarrow> api_handler" where
  "h_create_merchant d e cx s =
     (if \<not> ad_merchants d then (Inr no_tenants, s)
      else let body = parseJsonBody cx
           in needs (requireString body ''name'') (\<lambda>name s.
                bindR (on_accounts (create_merchant e
                    \<lparr>cm_name = name, cm_id = None, cm_usdtHdPath = optionalString body ''usdtHdPath''\<rparr>) s)
                  (\<lambda>m s1. (Inr (Json 201 (JObj (merchant_fields (toPublicMerchant m) @ [(''apiKey'', JStr (m_apiKey m))]))), s1))) s)"

definition h_merchants :: "api_deps \<Rightarrow> api_handler" where
  "h_merchants d e cx s =
     (if \<not> ad_merchants d then (Inr no_tenants, s)
      else let items = map merchant_json (list_merchants (accounts_of s))
           in (Inr (Json 200 (JObj [(''total'', JNum (int (length items))), (''items'', JArr items)])), s))"

definition h_rotate_merchant_key :: "api_deps \<Rightarrow> api_handler" where
  "h_rotate_merchant_key d e cx s =
     (if \<not> ad_merchants d then (Inr no_tenants, s)
      else bindR (on_accounts (rotateKey e (param cx ''id'')) s) (\<lambda>m s1.
        (Inr (Json 200 (JObj [(''id'', JStr (m_id m)), (''apiKey'', JStr (m_apiKey m))])), s1)))"

definition status_arg :: "(string \<times> json) list \<Rightarrow> merchant_status result" where
  "status_arg body =
     (case jm_get body ''status'' of
        Some (JStr st) \<Rightarrow>
          if st = ''active'' then Inr Active else if st = ''suspended'' then Inr Suspended
          else Inl (ValidationError (''status must be '' @ json_string ''active'' @ '' or '' @ json_string ''suspended''))
      | _ \<Rightarrow> Inl (ValidationError (''status must be '' @ json_string ''active'' @ '' or '' @ json_string ''suspended'')))"

definition h_merchant_status :: "api_deps \<Rightarrow> api_handler" where
  "h_merchant_status d e cx s =
     (if \<not> ad_merchants d then (Inr no_tenants, s)
      else needs (status_arg (parseJsonBody cx)) (\<lambda>status s.
        bindR (on_accounts (setStatus e (param cx ''id'') status) s) (\<lambda>m s1. (Inr (Json 200 (merchant_json m)), s1))) s)"

definition no_sweeps :: reply where
  "no_sweeps = Json 404 (error_body ''NOT_ENABLED'' ''USDT per-order sweeping is not enabled'')"

definition h_sweeps :: "api_deps \<Rightarrow> api_handler" where
  "h_sweeps d e cx s =
     (if \<not> ad_sweepJobs d then (Inr no_sweeps, s)
      else let statusFilter = query_get (cx_query cx) ''status'';
               jobs = sweep_all (w_sweeps (as_world s));
               items = (if truthy statusFilter then filter (\<lambda>j. sweep_status_value (j_status j) = the statusFilter) jobs else jobs)
           in needs (list_page cx 100 1000) (\<lambda>(n, off) s.
                (Inr (Json 200 (page_json (length items) n off
                   (map sweep_json (js_slice (nat off) (nat off + nat n) items)))), s)) s)"

definition h_sweep_retry :: "api_deps \<Rightarrow> api_handler" where
  "h_sweep_retry d e cx s =
     (if \<not> ad_sweepService d then (Inr no_sweeps, s)
      else let (r, st) = sweep_retry e (param cx ''orderId'') (w_sweeps (as_world s));
               s1 = s\<lparr>as_world := (as_world s)\<lparr>w_sweeps := st\<rparr>\<rparr>
           in needs r (\<lambda>job s2.
                (Inr (case job of
                   None \<Rightarrow> Json 404 (error_body ''NOT_FOUND'' ''no FAILED sweep job for that order'')
                 | Some j \<Rightarrow> Json 200 (JObj [(''requeued'', JBool True), (''job'', sweep_json j)])), s2)) s1)"

definition attachment :: "string \<Rightarrow> (string \<times> string) list" where
  "attachment name = [(''Content-Disposition'', ''attachment; filename='' @ [CHR 0x22] @ name @ [CHR 0x22])]"

definition h_orders_csv :: "api_deps \<Rightarrow> api_handler" where
  "h_orders_csv d e cx s =
     needs (reportFilter (cx_query cx)) (\<lambda>f s.
       (Inr (Raw 200 (attachment ''orders.csv'') ''text/csv; charset=utf-8''
          (ordersToCsv (snd (report_listOrders f 100000 0 (w_orders (as_world s)))))), s)) s"

definition h_refunds_csv :: "api_deps \<Rightarrow> api_handler" where
  "h_refunds_csv d e cx s =
     (Inr (Raw 200 (attachment ''refunds.csv'') ''text/csv; charset=utf-8''
        (refundsToCsv (snd (report_listRefunds \<lparr>rf_status = None, rf_from = None, rf_to = None\<rparr> 100000 0
           (w_refunds (as_world s)))))), s)"

definition on_subs ::
  "(sub_store \<times> notification_event list \<Rightarrow> 'a result \<times> sub_store \<times> notification_event list) \<Rightarrow> api_state \<Rightarrow> 'a result \<times> api_state" where
  "on_subs f s =
     (let (r, st, notes) = f (w_subs (as_world s), as_notes s)
      in (r, s\<lparr>as_world := (as_world s)\<lparr>w_subs := st\<rparr>, as_notes := notes\<rparr>))"

definition h_expiry :: "api_deps \<Rightarrow> api_handler" where
  "h_expiry d e cx s =
     bindR (on_subs (sendExpiryReminders e (ad_reminderWindowMs d) (ad_notifier d)) s) (\<lambda>reminders s1.
     bindR (on_subs (deactivateExpired (env_from 1 e) (ad_notifier d)) s1) (\<lambda>deactivated s2.
       (Inr (Json 200 (JObj [(''reminders'', JNum (int reminders)), (''deactivated'', JNum (int deactivated))])), s2)))"

definition h_reconciliation :: "api_deps \<Rightarrow> api_handler" where
  "h_reconciliation d e cx s =
     (let n = length (order_all (w_orders (as_world s)))
      in bindR (on_world (reconcile_run e (query_get (cx_query cx) ''heal'' = Some ''true'') (ad_healer d)) s) (\<lambda>report s1.
           let alert = formatReconciliationAlert report
           in bindR (case alert of
                  None \<Rightarrow> (Inr (), s1)
                | Some a \<Rightarrow> on_world (ad_alertSink d (env_from (n + 2) e) a) s1) (\<lambda>_ s2.
                (Inr (Json 200 (reconciliation_json report alert)), s2))))"

definition delivery_status_of :: "string \<Rightarrow> delivery_status option" where
  "delivery_status_of s = find (\<lambda>st. delivery_status_name st = s) [D_pending, D_delivered, D_dead]"

definition h_webhooks :: "api_deps \<Rightarrow> api_handler" where
  "h_webhooks d e cx s =
     (if ad_webhooks d = None then (Inr (Json 200 (page_json 0 0 0 [])), s)
      else let status = query_get (cx_query cx) ''status''
           in if truthy status \<and> delivery_status_of (the status) = None
              then (Inl (ValidationError (''invalid status: '' @ the status)), s)
              else needs (list_page cx 50 500) (\<lambda>(n, off) s.
                let (n_total, items) = webhook_list (w_hooks (as_world s))
                      (if truthy status then delivery_status_of (the status) else None) (nat n) (nat off)
                in (Inr (Json 200 (page_json n_total n off (map delivery_json items))), s)) s)"

text \<open>The body of the \<open>try\<close>.\<close>

definition h_webhook_retry :: "api_deps \<Rightarrow> api_handler" where
  "h_webhook_retry d e cx s =
     (let (r, st) = webhook_retry e (param cx ''id'') (w_hooks (as_world s));
          s1 = s\<lparr>as_world := (as_world s)\<lparr>w_hooks := st\<rparr>\<rparr>
      in needs r (\<lambda>delivery s2. (Inr (Json 200 (delivery_json delivery)), s2)) s1)"

definition webhook_retry_handler :: "api_deps \<Rightarrow> api_state handler" where
  "webhook_retry_handler d =
     (if ad_webhooks d = None then replying (\<lambda>e cx s. (Inl (NotFoundError ''webhooks are not configured''), s))
      else catching (\<lambda>cx _. NotFoundError (''delivery not found: '' @ param cx ''id'')) (replying (h_webhook_retry d)))"

definition audit_args :: "(string \<times> string) list \<Rightarrow> audit_query result" where
  "audit_args q =
     (case optionalInt q ''from'' of Inl err \<Rightarrow> Inl err | Inr f \<Rightarrow>
     (case optionalInt q ''to'' of Inl err \<Rightarrow> Inl err | Inr t \<Rightarrow>
     (case intParam q ''limit'' 50 500 of Inl err \<Rightarrow> Inl err | Inr n \<Rightarrow>
     (case intParam q ''offset'' 0 MAX_SAFE_INTEGER of Inl err \<Rightarrow> Inl err | Inr off \<Rightarrow>
        Inr \<lparr>aq_action = query_get q ''action'', aq_actor = query_get q ''actor'', aq_subjectId = query_get q ''subjectId'',
          aq_from = f, aq_to = t, aq_limit = Some (nat n), aq_offset = Some (nat off)\<rparr>))))"

definition h_audit :: "api_deps \<Rightarrow> api_handler" where
  "h_audit d e cx s =
     needs (audit_args (cx_query cx)) (\<lambda>q s.
       let (n_total, items) = (case w_audit (as_world s) of None \<Rightarrow> (0, []) | Some al \<Rightarrow> audit_query q al)
       in (Inr (Json 200 (JObj [(''total'', JNum (int n_total)), (''items'', JArr (map audit_json items))])), s)) s"

section \<open>The router\<close>

type_synonym route_entry = "string \<times> string \<times> api_state handler"

text \<open>The routes in the order of \<open>buildRouter\<close>: public ones, then those that begin with the guard.\<close>

definition public_routes :: "api_deps \<Rightarrow> route_entry list" where
  "public_routes d =
     [(''GET'', ''/healthz'', replying (h_healthz d)),
      (''GET'', ''/version'', replying (h_version d)),
      (''GET'', ''/readyz'', replying (h_readyz d)),
      (''GET'', ''/metrics'', replying (h_metrics d)),
      (''GET'', ''/api/plans'', replying (h_plans d)),
      (''GET'', ''/api/pricing/quote'', h_quote d),
      (''POST'', ''/api/users/register'', replying (h_register d)),
      (''POST'', ''/api/users/login'', replying (h_login d)),
      (''GET'', ''/api/users/me'', replying (h_me d)),
      (''POST'', ''/api/users/me/rotate-key'', replying (h_rotate_user_key d)),
      (''POST'', ''/api/orders'', replying (h_create_order d)),
      (''GET'', ''/api/orders/:id'', replying (h_get_order d)),
      (''GET'', ''/api/merchant/orders'', replying (h_merchant_orders d)),
      (''GET'', ''/api/orders/:id/qrcode.svg'', h_qrcode d),
      (''POST'', ''/api/orders/:id/sync'', replying (h_sync d)),
      (''POST'', ''/api/orders/:id/refund'', replying (h_refund d)),
      (''GET'', ''/api/orders/:id/refunds'', replying (h_order_refunds d)),
      (''POST'', ''/api/notify/wechat'', replying (h_notify Wechat d)),
      (''POST'', ''/api/notify/alipay'', replying (h_notify Alipay d)),
      (''POST'', ''/api/notify/wechat/refund'', replying (h_notify_refund d)),
      (''POST'', ''/internal/usdt/reconcile'', replying (h_usdt_reconcile d)),
      (''POST'', ''/internal/maintenance/sweep'', replying (h_maintenance d)),
      (''POST'', ''/internal/webhooks/process'', replying (h_webhooks_process d)),
      (''GET'', ''/openapi.json'', replying (h_openapi d)),
      (''GET'', ''/docs'', replying (h_docs d))]"

definition admin_routes :: "api_deps \<Rightarrow> route_entry list" where
  "admin_routes d = map (\<lambda>(meth, pattern, h). (meth, pattern, guarded d h))
     [(''GET'', ''/admin/reports/summary'', replying (h_summary d)),
      (''GET'', ''/admin/reports/orders-summary'', replying (h_orders_summary d)),
      (''GET'', ''/admin/orders'', replying (h_admin_orders d)),
      (''GET'', ''/admin/refunds'', replying (h_admin_refunds d)),
      (''POST'', ''/admin/merchants'', replying (h_create_merchant d)),
      (''GET'', ''/admin/merchants'', replying (h_merchants d)),
      (''POST'', ''/admin/merchants/:id/rotate-key'', replying (h_rotate_merchant_key d)),
      (''POST'', ''/admin/merchants/:id/status'', replying (h_merchant_status d)),
      (''GET'', ''/admin/sweeps'', replying (h_sweeps d)),
      (''POST'', ''/admin/sweeps/:orderId/retry'', replying (h_sweep_retry d)),
      (''GET'', ''/admin/orders.csv'', replying (h_orders_csv d)),
      (''GET'', ''/admin/refunds.csv'', replying (h_refunds_csv d)),
      (''POST'', ''/admin/expiry/run'', replying (h_expiry d)),
      (''POST'', ''/admin/reconciliation'', replying (h_reconciliation d)),
      (''GET'', ''/admin/webhooks'', replying (h_webhooks d)),
      (''POST'', ''/admin/webhooks/:id/retry'', webhook_retry_handler d)]"

definition audit_route :: "api_deps \<Rightarrow> route_entry" where
  "audit_route d = (''GET'', ''/admin/audit'', guarded d (replying (h_audit d)))"

definition add_entry :: "api_state router \<Rightarrow> route_entry \<Rightarrow> api_state router" where
  "add_entry r entry = (let (meth, pattern, h) = entry in add_route meth pattern h r)"

definition buildRouter :: "api_deps \<Rightarrow> api_state router" where
  "buildRouter d =
     (let r = foldl add_entry (new_router (ad_routerMetrics d) (ad_rateLimit d) (ad_security d)) (public_routes d @ admin_routes d)
      in add_entry (aliasPrefix ''/api'' ''/api/v1'' r) (audit_route d))"

section \<open>Every handler answers\<close>

definition answers :: "'s handler \<Rightarrow> bool" where
  "answers h = (\<forall>e cx rsp s. case h e cx rsp s of
     (Inr _, rsp', _) \<Rightarrow> headersSent rsp' \<and> \<not> headersSent rsp
   | (Inl _, rsp', _) \<Rightarrow> headersSent rsp' = headersSent rsp)"

lemma answersI:
  "(\<And>e cx rsp s u rsp' s'. h e cx rsp s = (Inr u, rsp', s') \<Longrightarrow> headersSent rsp' \<and> \<not> headersSent rsp) \<Longrightarrow>
   (\<And>e cx rsp s err rsp' s'. h e cx rsp s = (Inl err, rsp', s') \<Longrightarrow> headersSent rsp' = headersSent rsp) \<Longrightarrow> answers h"
  unfolding answers_def by (auto split: prod.split sum.split)

lemma answers_case:
  "answers h \<Longrightarrow> case h e cx rsp s of
     (Inr _, rsp', _) \<Rightarrow> headersSent rsp' \<and> \<not> headersSent rsp
   | (Inl _, rsp', _) \<Rightarrow> headersSent rsp' = headersSent rsp"
  by (simp add: answers_def)

lemma answersD:
  "answers h \<Longrightarrow> h e cx rsp s = (Inr u, rsp', s') \<Longrightarrow> headersSent rsp' \<and> \<not> headersSent rsp"
  "answers h \<Longrightarrow> h e cx rsp s = (Inl err, rsp', s') \<Longrightarrow> headersSent rsp' = headersSent rsp"
proof -
  assume h: "answers h"
  note c = answers_case[OF h, where e = e and cx = cx and rsp = rsp and s = s]
  show "headersSent rsp' \<and> \<not> headersSent rsp" if b: "h e cx rsp s = (Inr u, rsp', s')"
    using c unfolding b prod.case sum.case .
  show "headersSent rsp' = headersSent rsp" if b: "h e cx rsp s = (Inl err, rsp', s')"
    using c unfolding b prod.case sum.case .
qed

lemma setHeaders_sent: "headersSent (foldl (\<lambda>r (k, v). setHeader k v r) rsp hs) = headersSent rsp"
proof (induction hs arbitrary: rsp)
  case (Cons p hs)
  obtain k v where "p = (k, v)" by (cases p)
  then show ?case using Cons.IH[of "setHeader k v rsp"] by simp
qed simp

lemma send_reply_answers:
  "send_reply rep rsp = (Inr u, rsp') \<Longrightarrow> headersSent rsp' \<and> \<not> headersSent rsp"
  "send_reply rep rsp = (Inl err, rsp') \<Longrightarrow> headersSent rsp' = headersSent rsp"
  by (auto simp: send_reply_def sendJson_def sendRaw_def setHeaders_sent Let_def split: reply.splits if_splits)

lemma replying_answers [intro]: "answers (replying f)"
proof (rule answersI)
  fix e cx rsp s u rsp' s' err
  show "replying f e cx rsp s = (Inr u, rsp', s') \<Longrightarrow> headersSent rsp' \<and> \<not> headersSent rsp"
    using send_reply_answers(1)[of _ rsp u rsp'] by (auto simp: replying_def Let_def split: prod.splits sum.splits)
  show "replying f e cx rsp s = (Inl err, rsp', s') \<Longrightarrow> headersSent rsp' = headersSent rsp"
    using send_reply_answers(2)[of _ rsp err rsp'] by (auto simp: replying_def Let_def split: prod.splits sum.splits)
qed

lemma guarded_answers [intro]: "answers h \<Longrightarrow> answers (guarded d h)"
  by (rule answersI) (auto simp: guarded_def dest: answersD split: prod.splits sum.splits)

lemma catching_answers [intro]: "answers h \<Longrightarrow> answers (catching g h)"
  by (rule answersI) (auto simp: catching_def dest: answersD split: prod.splits sum.splits)

lemma quote_answers: "answers (h_quote d)"
proof (rule answersI)
  have inner: "answers (catching g (replying f))" for g f by (intro catching_answers replying_answers)
  fix e cx rsp s u rsp' s' err
  show "h_quote d e cx rsp s = (Inr u, rsp', s') \<Longrightarrow> headersSent rsp' \<and> \<not> headersSent rsp"
    by (auto simp: h_quote_def dest: answersD[OF inner] split: sum.splits)
  show "h_quote d e cx rsp s = (Inl err, rsp', s') \<Longrightarrow> headersSent rsp' = headersSent rsp"
    by (auto simp: h_quote_def dest: answersD[OF inner] split: sum.splits)
qed

lemma qrcode_answers: "answers (h_qrcode d)"
  by (rule answersI)
    (auto simp: h_qrcode_def Let_def sendJson_def sendRaw_def split: sum.splits if_splits)

lemma webhook_retry_answers: "answers (webhook_retry_handler d)"
  by (auto simp: webhook_retry_handler_def)

lemma routes_answer: "(meth, pattern, h) \<in> set (public_routes d @ admin_routes d @ [audit_route d]) \<Longrightarrow> answers h"
  by (auto simp: public_routes_def admin_routes_def audit_route_def
      intro: quote_answers qrcode_answers webhook_retry_answers)

text \<open>The routes a router of entries has.\<close>

definition route_of :: "route_entry \<Rightarrow> api_state route" where
  "route_of entry = (let (meth, pattern, h) = entry in
     \<lparr>rt_method = to_upper meth, rt_pattern = slashed pattern, rt_segments = path_segments pattern, rt_handler = h\<rparr>)"

lemma add_entry_routes: "ro_routes (add_entry r x) = ro_routes r @ [route_of x]"
  by (simp add: add_entry_def add_route_def route_of_def split_beta Let_def)

lemma add_entries_routes: "ro_routes (foldl add_entry r xs) = ro_routes r @ map route_of xs"
  by (induction xs arbitrary: r) (simp_all add: add_entry_routes)

definition alias_route :: "string \<Rightarrow> string \<Rightarrow> 's route \<Rightarrow> 's route" where
  "alias_route from to x =
     (let pattern = to @ drop (length from) (rt_pattern x)
      in \<lparr>rt_method = to_upper (rt_method x), rt_pattern = slashed pattern, rt_segments = path_segments pattern,
          rt_handler = rt_handler x\<rparr>)"

definition under :: "string \<Rightarrow> 's route \<Rightarrow> bool" where
  "under from x = (rt_pattern x = from \<or> starts_with (from @ ''/'') (rt_pattern x))"

lemma alias_fold:
  "ro_routes (foldl (\<lambda>r' route.
         if rt_pattern route = from \<or> starts_with (from @ ''/'') (rt_pattern route)
         then add_route (rt_method route) (to @ drop (length from) (rt_pattern route)) (rt_handler route) r'
         else r') r rs) = ro_routes r @ map (alias_route from to) (filter (under from) rs)"
  by (induction rs arbitrary: r) (auto simp: under_def alias_route_def add_route_def Let_def)

lemma alias_routes:
  "ro_routes (aliasPrefix from to r) = ro_routes r @ map (alias_route from to) (filter (under from) (ro_routes r))"
  unfolding aliasPrefix_def by (rule alias_fold)

lemma buildRouter_routes:
  "ro_routes (buildRouter d) =
     (let rs = map route_of (public_routes d @ admin_routes d)
      in rs @ map (alias_route ''/api'' ''/api/v1'') (filter (under ''/api'') rs) @ [route_of (audit_route d)])"
  by (simp add: buildRouter_def Let_def add_entry_routes alias_routes add_entries_routes new_router_def)

lemma alias_handler [simp]: "rt_handler (alias_route from to x) = rt_handler x"
  by (simp add: alias_route_def Let_def)

lemma buildRouter_handlers:
  assumes "x \<in> set (ro_routes (buildRouter d))"
  obtains meth pattern h where "(meth, pattern, h) \<in> set (public_routes d @ admin_routes d @ [audit_route d])" "rt_handler x = h"
proof -
  have h: "rt_handler (route_of entry) = snd (snd entry)" for entry by (simp add: route_of_def split_beta)
  let ?S = "set (public_routes d @ admin_routes d @ [audit_route d])"
  have "set (ro_routes (buildRouter d)) \<subseteq> route_of ` ?S \<union> alias_route ''/api'' ''/api/v1'' ` route_of ` ?S"
    by (auto simp: buildRouter_routes Let_def)
  then have "x \<in> route_of ` ?S \<or> x \<in> alias_route ''/api'' ''/api/v1'' ` route_of ` ?S" using assms by blast
  then have "\<exists>entry. entry \<in> ?S \<and> rt_handler x = snd (snd entry)"
  proof
    assume "x \<in> route_of ` ?S"
    then obtain entry where "entry \<in> ?S" "x = route_of entry" by (rule imageE)
    then show ?thesis using h by blast
  next
    assume "x \<in> alias_route ''/api'' ''/api/v1'' ` route_of ` ?S"
    then obtain y where y: "y \<in> route_of ` ?S" "x = alias_route ''/api'' ''/api/v1'' y" by (rule imageE)
    obtain entry where "entry \<in> ?S" "y = route_of entry" using y(1) by (rule imageE)
    then show ?thesis using h[of entry] y(2) by (metis alias_handler)
  qed
  then obtain entry where "entry \<in> ?S" "rt_handler x = snd (snd entry)" by blast
  then show ?thesis using that[of "fst entry" "fst (snd entry)" "snd (snd entry)"] by simp
qed

interpretation api: answering "buildRouter d"
proof
  fix route :: "api_state route" and e cx rsp s u rsp' s' err
  assume "route \<in> set (ro_routes (buildRouter d))"
  then have h: "answers (rt_handler route)" by (metis buildRouter_handlers routes_answer)
  show "rt_handler route e cx rsp s = (Inr u, rsp', s') \<Longrightarrow> headersSent rsp'"
    using answersD(1)[OF h] by blast
  show "rt_handler route e cx rsp s = (Inl err, rsp', s') \<Longrightarrow> headersSent rsp' = headersSent rsp"
    using answersD(2)[OF h] by blast
  show "headersSent rsp \<Longrightarrow> \<not> is_ok (fst (rt_handler route e cx rsp s))"
    using answers_case[OF h, where e = e and cx = cx and rsp = rsp and s = s] by (auto simp: is_ok_def split: prod.splits sum.splits)
qed

end
