(* ===== verification/ApiProps.thy ===== *)
theory ApiProps
  imports Api
begin

text \<open>
  What the API's router guarantees: every well-formed request is answered, administration needs a token,
  the reads of a tenant see its own orders only, and the versioned prefix is the same interface.
\<close>

section \<open>Every request is answered\<close>

text \<open>How a deployment without a shared limiter limits requests: the in-process windows of the state.\<close>

definition in_process_limit :: "int \<Rightarrow> int \<Rightarrow> api_state rate_limit" where
  "in_process_limit maxReq windowMs =
     \<lparr>rl_check = (\<lambda>t key s. let (dec, ws) = rate_check maxReq windowMs t key (as_windows s) in (Inr dec, s\<lparr>as_windows := ws\<rparr>)),
      rl_skipRoutes = [''/healthz'', ''/metrics'']\<rparr>"

lemma in_process_decides: "limiter_decides (Some (in_process_limit maxReq windowMs))"
  by (simp add: limiter_decides_def in_process_limit_def split_beta Let_def)

lemma add_entry_options [simp]:
  "ro_metrics (add_entry r x) = ro_metrics r" "ro_rateLimit (add_entry r x) = ro_rateLimit r"
  "ro_security (add_entry r x) = ro_security r" "ro_deprecated (add_entry r x) = ro_deprecated r"
  by (simp_all add: add_entry_def add_route_def split_beta)

lemma add_entries_options [simp]:
  "ro_metrics (foldl add_entry r xs) = ro_metrics r" "ro_rateLimit (foldl add_entry r xs) = ro_rateLimit r"
  "ro_security (foldl add_entry r xs) = ro_security r" "ro_deprecated (foldl add_entry r xs) = ro_deprecated r"
  by (induction xs arbitrary: r) simp_all

lemma alias_options [simp]:
  "ro_metrics (aliasPrefix a b r) = ro_metrics r \<and> ro_rateLimit (aliasPrefix a b r) = ro_rateLimit r \<and>
   ro_security (aliasPrefix a b r) = ro_security r \<and> ro_deprecated (aliasPrefix a b r) = ro_deprecated r"
proof -
  have "ro_metrics (foldl (\<lambda>r' x. if P x then add_route (m x) (p x) (h x) r' else r') r rs) = ro_metrics r \<and>
    ro_rateLimit (foldl (\<lambda>r' x. if P x then add_route (m x) (p x) (h x) r' else r') r rs) = ro_rateLimit r \<and>
    ro_security (foldl (\<lambda>r' x. if P x then add_route (m x) (p x) (h x) r' else r') r rs) = ro_security r \<and>
    ro_deprecated (foldl (\<lambda>r' x. if P x then add_route (m x) (p x) (h x) r' else r') r rs) = ro_deprecated r"
    for P m p h and rs :: "'a route list"
    by (induction rs arbitrary: r) (simp_all add: add_route_def)
  then show ?thesis unfolding aliasPrefix_def .
qed

lemma buildRouter_options [simp]:
  "ro_metrics (buildRouter d) = ad_routerMetrics d" "ro_rateLimit (buildRouter d) = ad_rateLimit d"
  "ro_security (buildRouter d) = ad_security d" "ro_deprecated (buildRouter d) = []"
  by (simp_all add: buildRouter_def Let_def new_router_def)

text \<open>
  C9: a request whose target is a URL and whose path has no malformed percent escape is answered, whatever
  its method, headers and body, whichever handler it reaches and whatever that throws, provided that the
  request's timer has not fired before the handler ends and that the rate limiter's check does not fail: there
  is no limiter, or it is one whose checks always come to a decision, as the in-process one is.
\<close>

theorem api_answers:
  assumes "rq_url req = Some (path, query)" "is_preflight (buildRouter d) req \<or> decodable path"
    and "limiter_decides (ad_rateLimit d)"
  shows "\<exists>res s'. dispatch e (buildRouter d) req rawBody False s = (Answered res, s') \<and> headersSent res"
  by (rule api.dispatch_answers) (use assms in simp_all)

definition demo_api_deps :: api_deps where
  "demo_api_deps = \<lparr>ad_payments = demo_deps (demo_provider 100), ad_refunds = demo_refund_deps (demo_refunding R_SUCCESS True),
     ad_healer = True, ad_reminderWindowMs = 0, ad_notifier = (\<lambda>_. Inr ()), ad_scrypt = demo_scrypt, ad_salt = demo_salt,
     ad_rates = (\<lambda>_ _. Inr (Fin 2)), ad_checks = [], ad_alertSink = (\<lambda>_ _ w. (Inr (), w)), ad_processedEventTtlMs = 0,
     ad_plans = PLANS, ad_enabledMethods = [Wechat], ad_adminToken = Some ''secret'', ad_adminTokenPrevious = None,
     ad_collectors = None, ad_routerMetrics = None, ad_rateLimit = None, ad_security = None, ad_usdtWatcher = None,
     ad_webhooks = None, ad_sweepJobs = False, ad_sweepService = False, ad_merchants = True,
     ad_openApi = (\<lambda>_. JNull), ad_docsHtml = []\<rparr>"

definition demo_request :: "string \<Rightarrow> string \<Rightarrow> (string, header_value) jsmap \<Rightarrow> request" where
  "demo_request meth path hs = \<lparr>rq_method = Some meth, rq_url = Some (path, []), rq_headers = hs, rq_remote = Some ''10.0.0.1''\<rparr>"

definition demo_state :: "world \<Rightarrow> merchant list \<Rightarrow> api_state" where
  "demo_state w ms = \<lparr>as_world = w, as_users = empty_user_store,
     as_merchants = foldl (\<lambda>st m. case merchant_create m st of Inr st' \<Rightarrow> st' | Inl _ \<Rightarrow> st) empty_merchant_store ms,
     as_notes = [], as_metrics = empty_metrics, as_windows = []\<rparr>"

theorem api_answers_witness:
  "\<exists>res s'. dispatch (env_at 0) (buildRouter (demo_api_deps\<lparr>ad_rateLimit := Some (in_process_limit 1 60000)\<rparr>))
     (demo_request ''GET'' ''/api/orders/o1'' []) [] False (demo_state empty_world []) = (Answered res, s') \<and> headersSent res"
  by (rule api_answers[where path = "''/api/orders/o1''" and query = "[]"])
    (simp add: demo_request_def, rule disjI2, code_simp, simp add: in_process_decides)

section \<open>Paths that are not well formed\<close>

lemma split_on_prefix: "CHR ''/'' \<notin> set p \<Longrightarrow> split_on CHR ''/'' (p @ CHR ''/'' # q) = p # split_on CHR ''/'' q"
  by (rule split_on_append_sep)

lemma path_segments_api:
  "path_segments (''/api/'' @ rest) = ''api'' # path_segments rest"
  by (simp add: path_segments_def)

lemma path_segments_part: "part \<noteq> [] \<Longrightarrow> CHR ''/'' \<notin> set part \<Longrightarrow> path_segments part = [part]"
  by (simp add: path_segments_def split_on_no_sep)

lemma path_segments_under: "CHR ''/'' \<notin> set p \<Longrightarrow> p \<noteq> [] \<Longrightarrow> path_segments (p @ CHR ''/'' # q) = p # path_segments q"
  by (simp add: path_segments_def split_on_append_sep)

lemma slash_lead: "path_segments (CHR ''/'' # q) = path_segments q"
  by (simp add: path_segments_def)

lemma upper_methods [simp]: "to_upper ''GET'' = ''GET''" "to_upper ''POST'' = ''POST''"
  by code_simp+

text \<open>The public routes with their segments.\<close>

definition entry_route :: "string \<Rightarrow> string list \<Rightarrow> string \<Rightarrow> 's handler \<Rightarrow> 's route" where
  "entry_route meth segs pattern h = \<lparr>rt_method = meth, rt_pattern = pattern, rt_segments = segs, rt_handler = h\<rparr>"

lemma public_table:
  "map route_of (public_routes d) =
     [entry_route ''GET'' [''healthz''] ''/healthz'' (replying (h_healthz d)),
      entry_route ''GET'' [''version''] ''/version'' (replying (h_version d)),
      entry_route ''GET'' [''readyz''] ''/readyz'' (replying (h_readyz d)),
      entry_route ''GET'' [''metrics''] ''/metrics'' (replying (h_metrics d)),
      entry_route ''GET'' [''api'', ''plans''] ''/api/plans'' (replying (h_plans d)),
      entry_route ''GET'' [''api'', ''pricing'', ''quote''] ''/api/pricing/quote'' (h_quote d),
      entry_route ''POST'' [''api'', ''users'', ''register''] ''/api/users/register'' (replying (h_register d)),
      entry_route ''POST'' [''api'', ''users'', ''login''] ''/api/users/login'' (replying (h_login d)),
      entry_route ''GET'' [''api'', ''users'', ''me''] ''/api/users/me'' (replying (h_me d)),
      entry_route ''POST'' [''api'', ''users'', ''me'', ''rotate-key''] ''/api/users/me/rotate-key'' (replying (h_rotate_user_key d)),
      entry_route ''POST'' [''api'', ''orders''] ''/api/orders'' (replying (h_create_order d)),
      entry_route ''GET'' [''api'', ''orders'', '':id''] ''/api/orders/:id'' (replying (h_get_order d)),
      entry_route ''GET'' [''api'', ''merchant'', ''orders''] ''/api/merchant/orders'' (replying (h_merchant_orders d)),
      entry_route ''GET'' [''api'', ''orders'', '':id'', ''qrcode.svg''] ''/api/orders/:id/qrcode.svg'' (h_qrcode d),
      entry_route ''POST'' [''api'', ''orders'', '':id'', ''sync''] ''/api/orders/:id/sync'' (replying (h_sync d)),
      entry_route ''POST'' [''api'', ''orders'', '':id'', ''refund''] ''/api/orders/:id/refund'' (replying (h_refund d)),
      entry_route ''GET'' [''api'', ''orders'', '':id'', ''refunds''] ''/api/orders/:id/refunds'' (replying (h_order_refunds d)),
      entry_route ''POST'' [''api'', ''notify'', ''wechat''] ''/api/notify/wechat'' (replying (h_notify Wechat d)),
      entry_route ''POST'' [''api'', ''notify'', ''alipay''] ''/api/notify/alipay'' (replying (h_notify Alipay d)),
      entry_route ''POST'' [''api'', ''notify'', ''wechat'', ''refund''] ''/api/notify/wechat/refund'' (replying (h_notify_refund d)),
      entry_route ''POST'' [''internal'', ''usdt'', ''reconcile''] ''/internal/usdt/reconcile'' (replying (h_usdt_reconcile d)),
      entry_route ''POST'' [''internal'', ''maintenance'', ''sweep''] ''/internal/maintenance/sweep'' (replying (h_maintenance d)),
      entry_route ''POST'' [''internal'', ''webhooks'', ''process''] ''/internal/webhooks/process'' (replying (h_webhooks_process d)),
      entry_route ''GET'' [''openapi.json''] ''/openapi.json'' (replying (h_openapi d)),
      entry_route ''GET'' [''docs''] ''/docs'' (replying (h_docs d))]"
  by (simp add: public_routes_def route_of_def entry_route_def slashed_def starts_with_def path_segments_def)

lemma buildRouter_public:
  "\<exists>rest. ro_routes (buildRouter d) = map route_of (public_routes d) @ rest"
  by (simp add: buildRouter_routes Let_def)

lemma match_bad_id:
  assumes "part \<noteq> []" "CHR ''/'' \<notin> set part" "decodeURIComponent part = None"
  shows "match_path ''GET'' (''/api/orders/'' @ part) (buildRouter d) = Inl (PlainError ''URI malformed'')"
proof -
  obtain rest where r: "ro_routes (buildRouter d) = map route_of (public_routes d) @ rest" using buildRouter_public by blast
  have seg: "path_segments (''/api/orders/'' @ part) = [''api'', ''orders'', part]"
    using assms(1,2) by (simp add: path_segments_def split_on_no_sep)
  show ?thesis
    unfolding match_path_def seg r public_table using assms(3) by (simp add: entry_route_def starts_with_def)
qed

text \<open>
  a read of an order whose id has a malformed percent escape is never answered: the error of
  \<open>decodeURIComponent\<close> leaves the unawaited promise rejected, for which Node ends the process.
\<close>

theorem malformed_id_rejected:
  assumes "part \<noteq> []" "CHR ''/'' \<notin> set part" "decodeURIComponent part = None"
    and "rq_url req = Some (''/api/orders/'' @ part, query)" "rq_method req = Some ''GET''"
  shows "dispatch e (buildRouter d) req rawBody timedOut s = (Rejected, s)"
proof (rule dispatch_unmatched_error)
  show "rq_url req = Some (''/api/orders/'' @ part, query)" by (rule assms(4))
  show "\<not> is_preflight (buildRouter d) req" using assms(5) by (simp add: is_preflight_def method_of_def)
  show "match_path (method_of req) (''/api/orders/'' @ part) (buildRouter d) = Inl (PlainError ''URI malformed'')"
    using match_bad_id[OF assms(1-3)] assms(5) by (simp add: method_of_def)
qed

theorem malformed_id_rejected_witness:
  "dispatch (env_at 0) (buildRouter demo_api_deps) (demo_request ''GET'' ''/api/orders/%zz'' []) [] False (demo_state empty_world [])
     = (Rejected, demo_state empty_world [])"
proof (rule malformed_id_rejected)
  show "decodeURIComponent ''%zz'' = None" by code_simp
qed (simp_all add: demo_request_def)

text \<open>
  a request whose timer fires while its handler waits is answered with status 503, and then the
  handler's own answer throws, and so does the error answer: the promise is rejected.
\<close>

theorem late_handler_rejected:
  assumes "rq_url req = Some (path, query)" "\<not> is_preflight (buildRouter d) req"
    and "match_path (method_of req) path (buildRouter d) = Inr (Some (route, params))"
    and "ad_rateLimit d = None"
  shows "fst (dispatch e (buildRouter d) req rawBody True s) = Rejected"
proof (rule api.dispatch_late[OF assms(1-3)])
  have "ro_rateLimit (buildRouter d) = None"
    using assms(4) by simp
  then show "fst (limit_request e (buildRouter d) req (rt_pattern route)
      (deprecation_headers (buildRouter d) (rt_pattern route) (first_response e (buildRouter d) req)) s) = Inr True"
    by (simp add: limit_request_def)
qed

theorem late_handler_rejected_witness:
  "fst (dispatch (env_at 0) (buildRouter demo_api_deps) (demo_request ''GET'' ''/healthz'' []) [] True (demo_state empty_world []))
     = Rejected"
proof -
  obtain rest where r: "ro_routes (buildRouter demo_api_deps) = map route_of (public_routes demo_api_deps) @ rest"
    using buildRouter_public by blast
  have seg: "path_segments ''/healthz'' = [''healthz'']" by code_simp
  have "match_path ''GET'' ''/healthz'' (buildRouter demo_api_deps) =
      Inr (Some (entry_route ''GET'' [''healthz''] ''/healthz'' (replying (h_healthz demo_api_deps)), []))"
    unfolding match_path_def seg r public_table by (simp add: entry_route_def starts_with_def)
  then show ?thesis
    by (intro late_handler_rejected[where path = "''/healthz''" and query = "[]"])
      (simp_all add: demo_request_def method_of_def is_preflight_def demo_api_deps_def)
qed

section \<open>What a handler leaves behind\<close>

text \<open>What the combinators do to the state.\<close>

lemma snd_needs: "snd (needs r f s) = (case r of Inl _ \<Rightarrow> s | Inr x \<Rightarrow> snd (f x s))"
  by (simp add: needs_def split: sum.split)

lemma snd_bindR: "snd (bindR m f) = (case fst m of Inl _ \<Rightarrow> snd m | Inr x \<Rightarrow> snd (f x (snd m)))"
  by (cases m; cases "fst m") auto

lemma world_on_world [simp]: "as_world (snd (on_world f s)) = snd (f (as_world s))"
  by (simp add: on_world_def split_beta Let_def)

lemma world_bind_on_world:
  "(\<And>x s1. snd (g x s1) = s1) \<Longrightarrow> as_world (snd (bindR (on_world f s) g)) = snd (f (as_world s))"
  by (simp add: snd_bindR split: sum.split)

lemma snd_needs_quiet: "(\<And>x s. snd (f x s) = s) \<Longrightarrow> snd (needs r f s) = s"
  by (simp add: snd_needs split: sum.split)

lemma replying_state: "snd (snd (replying f e cx rsp s)) = snd (f e cx s)"
  by (simp add: replying_def split_beta Let_def split: sum.split prod.split)

lemma catching_state: "snd (snd (catching g h e cx rsp s)) = snd (snd (h e cx rsp s))"
  by (simp add: catching_def split_beta split: sum.split prod.split)

lemma run_handler_state: "snd (snd (run_handler e h cx timedOut rsp s)) =
  snd (snd (h e cx (if timedOut then send_unless_sent 503 ''REQUEST_TIMEOUT'' ''request timed out'' rsp else rsp) s))"
  by (simp add: run_handler_def split_beta Let_def split: sum.split)

section \<open>Administration needs a token\<close>

text \<open>The tokens that open the administration: the current one and, while keys rotate, the one before.\<close>

definition admin_tokens :: "api_deps \<Rightarrow> string set" where
  "admin_tokens d =
     (if truthy (ad_adminToken d)
      then insert (the (ad_adminToken d)) (if truthy (ad_adminTokenPrevious d) then {the (ad_adminTokenPrevious d)} else {})
      else {})"

lemma safeEqual_eq: "safeEqual a b = (a = b)"
  by (auto simp: safeEqual_def)

lemma requireAdmin_token:
  "is_ok (requireAdmin cx (ad_adminToken d) (ad_adminTokenPrevious d)) = (bearerToken cx \<in> admin_tokens d)"
  unfolding requireAdmin_def admin_tokens_def bearerToken_def safeEqual_eq Let_def by auto

lemma requireAdmin_refuses:
  "bearerToken cx \<notin> admin_tokens d \<Longrightarrow>
     \<exists>msg st. requireAdmin cx (ad_adminToken d) (ad_adminTokenPrevious d) = Inl (AuthError msg st) \<and> (st = 401 \<or> st = 403)"
  unfolding requireAdmin_token[of cx d, symmetric] requireAdmin_def Let_def by auto

lemma guarded_refuses:
  "bearerToken cx \<notin> admin_tokens d \<Longrightarrow>
     \<exists>msg st. guarded d h e cx rsp s = (Inl (AuthError msg st), rsp, s) \<and> (st = 401 \<or> st = 403)"
  using requireAdmin_refuses[of cx d] by (auto simp: guarded_def adminGuard_def)

lemma public_not_admin:
  "x \<in> set (map route_of (public_routes d)) \<Longrightarrow> \<not> starts_with ''/admin'' (rt_pattern x)"
  unfolding public_table by (auto simp: entry_route_def starts_with_def)

lemma alias_not_admin:
  "\<not> starts_with ''/admin'' (rt_pattern (alias_route ''/api'' ''/api/v1'' x))"
  by (simp add: alias_route_def slashed_def starts_with_def Let_def)

lemma admin_route_guarded:
  assumes "x \<in> set (ro_routes (buildRouter d))" "starts_with ''/admin'' (rt_pattern x)"
  shows "\<exists>h. rt_handler x = guarded d h"
proof -
  have "x \<in> route_of ` set (admin_routes d) \<or> x = route_of (audit_route d)"
    using assms public_not_admin[of x d] alias_not_admin by (auto simp: buildRouter_routes Let_def)
  then show ?thesis by (auto simp: admin_routes_def audit_route_def route_of_def)
qed

text \<open>
  C4: no route under \<open>/admin\<close> does anything for a request without a token: the handler throws the 401 or
  403 error, sends nothing and leaves the whole state as it was, the audit log included.
\<close>

theorem admin_needs_token:
  assumes "x \<in> set (ro_routes (buildRouter d))" "starts_with ''/admin'' (rt_pattern x)"
    and "bearerToken cx \<notin> admin_tokens d"
  shows "\<exists>msg st. rt_handler x e cx rsp s = (Inl (AuthError msg st), rsp, s) \<and> (st = 401 \<or> st = 403)"
proof -
  obtain h where "rt_handler x = guarded d h" using admin_route_guarded[OF assms(1,2)] by blast
  then show ?thesis using guarded_refuses[OF assms(3)] by simp
qed

definition demo_ctx :: "string \<Rightarrow> (string, string) jsmap \<Rightarrow> (string, string) jsmap \<Rightarrow> ctx" where
  "demo_ctx body params hs = \<lparr>cx_method = ''GET'', cx_path = ''/'', cx_params = params, cx_query = [], cx_rawBody = body,
     cx_headers = hs, cx_requestId = ''r1''\<rparr>"

theorem admin_needs_token_witness:
  "\<exists>msg st. rt_handler (route_of (audit_route demo_api_deps)) (env_at 0) (demo_ctx [] [] [(''authorization'', ''Bearer guess'')])
     new_response (demo_state empty_world []) = (Inl (AuthError msg st), new_response, demo_state empty_world []) \<and> (st = 401 \<or> st = 403)"
proof (rule admin_needs_token)
  show "route_of (audit_route demo_api_deps) \<in> set (ro_routes (buildRouter demo_api_deps))"
    by (simp add: buildRouter_routes Let_def)
  show "starts_with ''/admin'' (rt_pattern (route_of (audit_route demo_api_deps)))"
    by (simp add: route_of_def audit_route_def slashed_def starts_with_def)
  show "bearerToken (demo_ctx [] [] [(''authorization'', ''Bearer guess'')]) \<notin> admin_tokens demo_api_deps"
    by code_simp
qed

text \<open>An admitted request is in the audit log before its handler runs.\<close>

lemma guarded_audited:
  assumes "bearerToken cx \<in> admin_tokens d" "w_audit (as_world s) = Some al"
  shows "\<exists>al'. guarded d h e cx rsp s = h (env_from 1 e) cx rsp (s\<lparr>as_world := (as_world s)\<lparr>w_audit := Some al'\<rparr>\<rparr>) \<and>
    al' = snd (audit_record e \<lparr>ai_action = ''admin.access'', ai_actor = None, ai_subjectId = Some (cx_path cx),
      ai_metadata = Some (JObj [(''method'', JStr (cx_method cx))]), ai_at = None\<rparr> al)"
proof -
  have "is_ok (requireAdmin cx (ad_adminToken d) (ad_adminTokenPrevious d))" using assms(1) by (simp add: requireAdmin_token)
  then obtain u where "requireAdmin cx (ad_adminToken d) (ad_adminTokenPrevious d) = Inr u"
    by (auto simp: is_ok_def split: sum.splits)
  then show ?thesis using assms(2) by (simp add: guarded_def adminGuard_def audit_world_def audit_opt_def)
qed

section \<open>Tenants\<close>

lemma merchantScope_key:
  "merchantScope d cx s = Inr (Some m) \<Longrightarrow>
     \<exists>key. jm_get (cx_headers cx) ''x-merchant-key'' = Some key \<and> key \<noteq> [] \<and>
       merchant_authenticate key (accounts_of s) = Some m"
  by (auto simp: merchantScope_def truthy_def Let_def split: if_splits option.splits)

lemma merchantScope_same: "as_merchants s' = as_merchants s \<Longrightarrow> merchantScope d cx s' = merchantScope d cx s"
proof -
  assume "as_merchants s' = as_merchants s"
  then have same: "merchant_authenticate k (accounts_of s') = merchant_authenticate k (accounts_of s)" for k
    by (simp add: merchant_authenticate_def accounts_of_def)
  show ?thesis unfolding merchantScope_def same ..
qed

text \<open>The orders of a tenant.\<close>

definition orders_of :: "string \<Rightarrow> api_state \<Rightarrow> order list" where
  "orders_of m s = filter (\<lambda>ord. orderMerchant ord = m) (order_all (w_orders (as_world s)))"

definition orders_wf :: "api_state \<Rightarrow> bool" where
  "orders_wf s = order_store_wf (w_orders (as_world s))"

lemma orders_of_find:
  assumes "orders_wf s"
  shows "(order_findById (w_orders (as_world s)) i = Some ord \<and> orderMerchant ord = m) = (ord \<in> set (orders_of m s) \<and> o_id ord = i)"
  using order_list.listing_iff[OF assms[unfolded orders_wf_def]] order_repo.find_key[OF assms[unfolded orders_wf_def]]
  by (auto simp: orders_of_def)

text \<open>The order a tenant is shown under an id: its own, or none.\<close>

definition own_order :: "string \<Rightarrow> string \<Rightarrow> api_state \<Rightarrow> order option" where
  "own_order m i s = find (\<lambda>ord. o_id ord = i) (orders_of m s)"

lemma own_order_find:
  assumes "orders_wf s"
  shows "own_order m i s =
    (case order_findById (w_orders (as_world s)) i of
       None \<Rightarrow> None | Some ord \<Rightarrow> if orderMerchant ord = m then Some ord else None)"
proof (cases "own_order m i s")
  case None
  then have "ord \<notin> set (orders_of m s) \<or> o_id ord \<noteq> i" for ord by (auto simp: own_order_def find_None_iff)
  then show ?thesis using None orders_of_find[OF assms, of i _ m] by (auto split: option.split)
next
  case (Some ord)
  then have "ord \<in> set (orders_of m s)" "o_id ord = i" by (auto simp: own_order_def find_Some_iff)
  then show ?thesis using Some orders_of_find[OF assms, of i ord m] by simp
qed

lemma get_order_scoped:
  assumes "merchantScope d cx s = Inr (Some m)" "orders_wf s"
  shows "fst (h_get_order d e cx s) =
     (case own_order (m_id m) (param cx ''id'') s of
        None \<Rightarrow> Inl (NotFoundError (''order not found: '' @ param cx ''id''))
      | Some ord \<Rightarrow> map_sum id (Json 200) (orderView ord))"
proof (cases "order_findById (w_orders (as_world s)) (param cx ''id'')")
  case None
  then show ?thesis
    by (simp add: h_get_order_def needs_def assms(1) find_order_def getOrder_def own_order_find[OF assms(2)])
next
  case (Some ord)
  have id: "o_id ord = param cx ''id''" using order_repo.find_key[OF assms(2)[unfolded orders_wf_def] Some] .
  show ?thesis
    by (simp add: h_get_order_def needs_def assms(1) find_order_def getOrder_def own_order_find[OF assms(2)] Some
        assertOrderScope_def orderMerchant_def id split: sum.split)
qed

text \<open>What the listing of a tenant depends on.\<close>

lemma tenant_matched:
  assumes "of_merchantId f = Some m" "m \<noteq> []"
  shows "matched_sorted (w_orders (as_world s)) f =
     sort_key (\<lambda>ord. - o_createdAt ord) (filter (order_matches f) (orders_of m s))"
proof -
  have "order_matches f ord \<Longrightarrow> orderMerchant ord = m" for ord
    using assms by (simp add: order_matches_iff truthy_def)
  then have "filter (order_matches f) (order_all (w_orders (as_world s))) = filter (order_matches f) (orders_of m s)"
    by (auto simp: orders_of_def intro!: filter_cong)
  then show ?thesis by (simp add: matched_sorted_def)
qed

lemma tenant_listing:
  assumes "merchantScope d cx s = Inr (Some m)" "m_id m \<noteq> []" "merchantScope d cx s' = Inr (Some m)"
    and "orders_of (m_id m) s' = orders_of (m_id m) s"
  shows "fst (h_merchant_orders d e cx s') = fst (h_merchant_orders d e cx s)"
proof -
  have "report_listOrders (f\<lparr>pf_merchantId := Some (m_id m)\<rparr>) n off (w_orders (as_world s')) =
      report_listOrders (f\<lparr>pf_merchantId := Some (m_id m)\<rparr>) n off (w_orders (as_world s))" for f n off
    using assms(2,4) by (simp add: report_listOrders_def order_query_eq tenant_matched)
  then show ?thesis
    by (simp add: h_merchant_orders_def needs_def assms(1,3) split_beta Let_def split: sum.split)
qed

text \<open>
  C5: A tenant's reads show its own orders alone. What \<open>GET /api/orders/:id\<close> and \<open>GET /api/merchant/orders\<close> answer
  to a request with a tenant's key, an order or a page of orders with their total, depends on the orders of
  that tenant only: two states that differ in the orders of others (and in everything else but the merchants)
  give the same answers, so that these two reads tell nothing about another tenant's orders, not even whether an
  id exists. No other route is covered: the synchronisation, refunds and QR code of an order and a reused
  idempotency key do not look at the tenant.
\<close>

theorem tenant_sees_own_orders:
  assumes "merchantScope d cx s = Inr (Some m)" "m_id m \<noteq> []" "as_merchants s' = as_merchants s"
    and "orders_wf s" "orders_wf s'" "orders_of (m_id m) s' = orders_of (m_id m) s"
  shows "fst (h_get_order d e cx s') = fst (h_get_order d e cx s) \<and>
    fst (h_merchant_orders d e cx s') = fst (h_merchant_orders d e cx s)"
proof -
  have sc: "merchantScope d cx s' = Inr (Some m)" using merchantScope_same[OF assms(3)] assms(1) by simp
  show ?thesis
    using tenant_listing[OF assms(1,2) sc assms(6)]
    by (simp add: get_order_scoped[OF assms(1,4)] get_order_scoped[OF sc assms(5)] own_order_def assms(6))
qed

section \<open>Refunds by anybody\<close>

lemma match_refund:
  assumes "part \<noteq> []" "CHR ''/'' \<notin> set part" "decodeURIComponent part = Some orderId"
  shows "match_path ''POST'' (''/api/orders/'' @ part @ ''/refund'') (buildRouter d) =
    Inr (Some (entry_route ''POST'' [''api'', ''orders'', '':id'', ''refund''] ''/api/orders/:id/refund'' (replying (h_refund d)),
      [(''id'', orderId)]))"
proof -
  obtain rest where r: "ro_routes (buildRouter d) = map route_of (public_routes d) @ rest" using buildRouter_public by blast
  have seg: "path_segments (''/api/orders/'' @ part @ ''/refund'') = [''api'', ''orders'', part, ''refund'']"
    using assms(1,2) by (simp add: path_segments_def split_on_append_sep split_on_no_sep)
  show ?thesis
    unfolding match_path_def seg r public_table using assms(3) by (simp add: entry_route_def starts_with_def)
qed

text \<open>The limiter and the metrics leave orders, refunds and subscriptions alone.\<close>

definition world_kept :: "api_deps \<Rightarrow> bool" where
  "world_kept d \<longleftrightarrow>
     (\<forall>rl t k s. ad_rateLimit d = Some rl \<longrightarrow> as_world (snd (rl_check rl t k s)) = as_world s) \<and>
     (\<forall>m. ad_routerMetrics d = Some m \<longrightarrow> (\<forall>l s. as_world (rm_requests m l s) = as_world s) \<and>
        (\<forall>l v s. as_world (rm_duration m l v s) = as_world s) \<and>
        (\<forall>f l s. rm_rateLimited m = Some f \<longrightarrow> as_world (f l s) = as_world s))"

lemma limit_request_kept:
  "world_kept d \<Longrightarrow> as_world (snd (snd (limit_request e (buildRouter d) req label rsp s))) = as_world s"
  by (simp add: limit_request_def world_kept_def split_beta Let_def split: option.split sum.split)

lemma record_request_kept:
  "world_kept d \<Longrightarrow> as_world (record_request (buildRouter d) meth label took rsp s) = as_world s"
  by (simp add: record_request_def world_kept_def split: option.split)

text \<open>
  C35: Anybody refunds. A POST without a body to \<open>/api/orders/<id>/refund\<close> runs the full refund of that order
  whatever its headers say: no token and no tenant key is looked at, not even with tenants and an
  administrator's token configured. All that is asked is that the rate limiter, where there is one, lets the
  request through, and that it and the metrics write nothing but their own counts.
\<close>

theorem refund_without_credentials:
  assumes "rq_url req = Some (''/api/orders/'' @ part @ ''/refund'', query)" "rq_method req = Some ''POST''"
    and "part \<noteq> []" "CHR ''/'' \<notin> set part" "decodeURIComponent part = Some orderId"
    and kept: "world_kept d"
    and admitted: "\<And>rl. ad_rateLimit d = Some rl \<Longrightarrow>
      \<exists>dec s1. rl_check rl (now_at e 2) (limit_key req ''/api/orders/:id/refund'') s = (Inr dec, s1) \<and> rd_allowed dec"
  shows "as_world (snd (dispatch e (buildRouter d) req [] timedOut s)) =
    snd (refundOrder (env_from 3 e) (ad_refunds d) orderId \<lparr>ri_amount = None, ri_reason = None, ri_outRefundNo = None\<rparr> (as_world s))"
proof -
  have no: "\<not> is_preflight (buildRouter d) req" using assms(2) by (simp add: is_preflight_def method_of_def)
  have m: "match_path (method_of req) (''/api/orders/'' @ part @ ''/refund'') (buildRouter d) =
    Inr (Some (entry_route ''POST'' [''api'', ''orders'', '':id'', ''refund''] ''/api/orders/:id/refund'' (replying (h_refund d)),
      [(''id'', orderId)]))"
    using match_refund[OF assms(3-5)] assms(2) by (simp add: method_of_def)
  have world: "as_world (snd (h_refund d e' cx s)) =
      snd (refundOrder e' (ad_refunds d) (param cx ''id'') \<lparr>ri_amount = None, ri_reason = None, ri_outRefundNo = None\<rparr> (as_world s))"
    if "cx_rawBody cx = []" for e' cx s
    using that by (simp add: h_refund_def parseJsonBody_def amount_arg_def optionalString_def needs_def world_bind_on_world)
  let ?lim = "\<lambda>rsp. limit_request e (buildRouter d) req ''/api/orders/:id/refund'' rsp s"
  have on: "fst (?lim rsp) = Inr True" for rsp
    using admitted by (cases "ad_rateLimit d") (auto simp: limit_request_def limit_key_def Let_def)
  have same: "as_world (snd (snd (?lim rsp))) = as_world s" for rsp by (rule limit_request_kept[OF kept])
  show ?thesis
    unfolding dispatch_matched[OF assms(1) no m] dispatch_route_def Let_def split_beta
    by (simp add: on entry_route_def run_handler_state replying_state world context_of_def record_request_kept[OF kept] same param_def)
qed

definition demo_scoped :: ctx where
  "demo_scoped = demo_ctx [] [(''id'', ''1'')] [(''x-merchant-key'', ''mk_1'')]"

definition demo_tenant_a :: merchant where
  "demo_tenant_a = \<lparr>m_id = ''a'', m_name = ''A'', m_status = Active, m_apiKey = ''mk_1'', m_apiKeyPrevious = None,
     m_usdtHdPath = None, m_createdAt = 0, m_updatedAt = 0\<rparr>"

lemma demo_empty_orders: "order_store_wf (w_orders empty_world)" "order_all (w_orders empty_world) = []"
  by (simp_all add: empty_world_def) (simp add: empty_order_store_def order_all_def)

text \<open>The order \<open>1\<close> belongs to the default tenant: to tenant \<open>a\<close> it is as if it were not there.\<close>

theorem tenant_sees_own_orders_witness:
  "fst (h_get_order demo_api_deps (env_at 0) demo_scoped (demo_state demo_world1 [demo_tenant_a])) =
     Inl (NotFoundError ''order not found: 1'')"
proof -
  let ?s = "demo_state empty_world [demo_tenant_a]" and ?s' = "demo_state demo_world1 [demo_tenant_a]"
  have sc: "merchantScope demo_api_deps demo_scoped ?s = Inr (Some demo_tenant_a)" by code_simp
  have "order_all (w_orders demo_world1) = [demo_pending_order]"
    by (simp add: demo_world1_def demo_world_def demo_store_simps order_all_def)
  then have wf: "orders_wf ?s" "orders_wf ?s'" "orders_of ''a'' ?s' = orders_of ''a'' ?s"
    using demo_world1_wf(1) by (simp_all add: orders_wf_def orders_of_def demo_state_def demo_empty_orders orderMerchant_def
        demo_order_def DEFAULT_MERCHANT_ID_def)
  have "fst (h_get_order demo_api_deps (env_at 0) demo_scoped ?s') = fst (h_get_order demo_api_deps (env_at 0) demo_scoped ?s)"
    using tenant_sees_own_orders[OF sc _ _ wf(1,2)] wf(3) by (simp add: demo_state_def demo_tenant_a_def)
  then show ?thesis
    by (simp add: get_order_scoped[OF sc wf(1)]) (simp add: own_order_def orders_of_def demo_state_def
        demo_empty_orders demo_scoped_def demo_ctx_def param_def)
qed

text \<open>A server with a limiter and metrics, which here count nothing.\<close>

definition demo_served :: api_deps where
  "demo_served = demo_api_deps\<lparr>ad_rateLimit := Some (in_process_limit 1 60000),
     ad_routerMetrics := Some \<lparr>rm_requests = (\<lambda>l s. s), rm_duration = (\<lambda>l v s. s), rm_rateLimited = Some (\<lambda>l s. s)\<rparr>\<rparr>"

lemma demo_served_kept: "world_kept demo_served"
  by (simp add: world_kept_def demo_served_def in_process_limit_def split_beta Let_def)

theorem refund_without_credentials_witness:
  "as_world (snd (dispatch (env_at 0) (buildRouter demo_served) (demo_request ''POST'' ''/api/orders/1/refund'' []) [] False
      (demo_state demo_world1 [demo_tenant_a]))) =
     snd (refundOrder (env_from 3 (env_at 0)) (ad_refunds demo_api_deps) ''1''
       \<lparr>ri_amount = None, ri_reason = None, ri_outRefundNo = None\<rparr> demo_world1)"
proof -
  let ?req = "demo_request ''POST'' ''/api/orders/1/refund'' []" and ?s = "demo_state demo_world1 [demo_tenant_a]"
  have p: "decodeURIComponent ''1'' = Some ''1''" by code_simp
  have u: "rq_url ?req = Some (''/api/orders/'' @ ''1'' @ ''/refund'', [])" "rq_method ?req = Some ''POST''"
    by (simp_all add: demo_request_def)
  have a: "\<exists>dec s1. rl_check rl (now_at (env_at 0) 2) (limit_key ?req ''/api/orders/:id/refund'') ?s = (Inr dec, s1) \<and> rd_allowed dec"
    if "ad_rateLimit demo_served = Some rl" for rl
    using that by (auto simp: demo_served_def in_process_limit_def rate_check_def demo_state_def Let_def)
  show ?thesis
    using refund_without_credentials[OF u _ _ p demo_served_kept a]
    by (simp add: demo_served_def demo_api_deps_def demo_state_def)
qed

section \<open>The versioned interface\<close>

text \<open>The handler that serves a path, with its parameters.\<close>

definition served :: "string \<Rightarrow> string \<Rightarrow> 's router \<Rightarrow> ('s handler \<times> (string, string) jsmap) option result" where
  "served meth path r = map_sum id (map_option (\<lambda>(x, ps). (rt_handler x, ps))) (match_path meth path r)"

definition found_route :: "string \<Rightarrow> string list \<Rightarrow> 's route list \<Rightarrow> ('s handler \<times> (string, string) jsmap) option result" where
  "found_route meth parts rs = map_sum id (map_option (\<lambda>(x, ps). (rt_handler x, ps))) (match_routes meth parts rs)"

lemma found_append:
  "found_route meth parts (xs @ ys) = (case found_route meth parts xs of Inr None \<Rightarrow> found_route meth parts ys | r \<Rightarrow> r)"
  by (induction xs) (auto simp: found_route_def split: sum.split option.split)

lemma found_none:
  "(\<And>x. x \<in> set xs \<Longrightarrow> length (rt_segments x) = length parts \<Longrightarrow> match_segments (rt_segments x) parts [] = Inr None) \<Longrightarrow>
     found_route meth parts xs = Inr None"
  by (induction xs) (auto simp: found_route_def)

lemma found_map:
  assumes "\<And>x. x \<in> set xs \<Longrightarrow> rt_method (g x) = rt_method x \<and> rt_handler (g x) = rt_handler x \<and>
      (length (rt_segments (g x)) = length parts' \<longleftrightarrow> length (rt_segments x) = length parts) \<and>
      match_segments (rt_segments (g x)) parts' [] = match_segments (rt_segments x) parts []"
  shows "found_route meth parts' (map g xs) = found_route meth parts xs"
  using assms by (induction xs) (auto simp: found_route_def split: option.split sum.split)

lemma found_filter:
  assumes "\<And>x. x \<in> set xs \<Longrightarrow> \<not> P x \<Longrightarrow> match_segments (rt_segments x) parts [] = Inr None"
  shows "found_route meth parts (filter P xs) = found_route meth parts xs"
  using assms by (induction xs) (auto simp: found_route_def split: option.split sum.split)

text \<open>How the routes begin: under \<open>/api\<close> with a second part that is fixed and not the version, or elsewhere.\<close>

definition versionable :: "'s route \<Rightarrow> bool" where
  "versionable x = (case rt_segments x of
     a # b # segs \<Rightarrow> under ''/api'' x \<and> a = ''api'' \<and> b \<noteq> ''v1'' \<and> \<not> starts_with '':'' b \<and> to_upper (rt_method x) = rt_method x \<and>
       rt_segments (alias_route ''/api'' ''/api/v1'' x) = ''api'' # ''v1'' # b # segs
   | _ \<Rightarrow> False)"

definition elsewhere :: "'s route \<Rightarrow> bool" where
  "elsewhere x = (case rt_segments x of a # _ \<Rightarrow> \<not> under ''/api'' x \<and> a \<noteq> ''api'' \<and> \<not> starts_with '':'' a | _ \<Rightarrow> False)"

lemma routes_begin:
  "\<forall>x \<in> set (map route_of (public_routes d @ admin_routes d)). versionable x \<or> elsewhere x"
  "elsewhere (route_of (audit_route d))"
proof -
  have "\<forall>x \<in> set (map route_of (public_routes d)). versionable x \<or> elsewhere x"
    unfolding public_table by (simp add: versionable_def elsewhere_def under_def entry_route_def starts_with_def alias_route_def path_segments_def)
  moreover have "\<forall>x \<in> set (map route_of (admin_routes d)). elsewhere x"
    by (simp add: admin_routes_def route_of_def elsewhere_def under_def starts_with_def slashed_def path_segments_def)
  ultimately show "\<forall>x \<in> set (map route_of (public_routes d @ admin_routes d)). versionable x \<or> elsewhere x" by auto
  show "elsewhere (route_of (audit_route d))"
    by (simp add: audit_route_def route_of_def elsewhere_def under_def starts_with_def slashed_def path_segments_def)
qed

lemma versionable_parts:
  assumes "versionable x"
  obtains b segs where "rt_segments x = ''api'' # b # segs" "b \<noteq> ''v1''" "\<not> starts_with '':'' b"
    "rt_segments (alias_route ''/api'' ''/api/v1'' x) = ''api'' # ''v1'' # b # segs" "under ''/api'' x"
    "rt_method (alias_route ''/api'' ''/api/v1'' x) = rt_method x"
  using assms by (auto simp: versionable_def alias_route_def Let_def split: list.splits)

lemma fixed_parts [simp]: "starts_with '':'' ''api'' = False" "starts_with '':'' ''v1'' = False"
  by (simp_all add: starts_with_def)

lemma elsewhere_none:
  "elsewhere x \<Longrightarrow> match_segments (rt_segments x) (''api'' # parts) [] = Inr None"
  by (auto simp: elsewhere_def split: list.splits)

lemma version_not_direct:
  assumes "versionable x \<or> elsewhere x"
  shows "match_segments (rt_segments x) (''api'' # ''v1'' # parts) [] = Inr None"
  using assms by (elim disjE versionable_parts) (auto simp: elsewhere_none)

lemma match_version:
  assumes "versionable x"
  shows "rt_method (alias_route ''/api'' ''/api/v1'' x) = rt_method x \<and>
    (length (rt_segments (alias_route ''/api'' ''/api/v1'' x)) = length (''api'' # ''v1'' # parts) \<longleftrightarrow>
       length (rt_segments x) = length (''api'' # parts)) \<and>
    match_segments (rt_segments (alias_route ''/api'' ''/api/v1'' x)) (''api'' # ''v1'' # parts) [] =
      match_segments (rt_segments x) (''api'' # parts) []"
  using assms by (elim versionable_parts) simp

lemma alias_not_plain:
  assumes "versionable x" "seg \<noteq> ''v1''"
  shows "match_segments (rt_segments (alias_route ''/api'' ''/api/v1'' x)) (''api'' # seg # parts) [] = Inr None"
  using assms by (elim versionable_parts) simp

lemma found_version:
  assumes rs: "\<forall>x \<in> set rs. versionable x \<or> elsewhere x" and a: "elsewhere a" and seg: "seg \<noteq> ''v1''"
  defines "al \<equiv> map (alias_route ''/api'' ''/api/v1'') (filter (under ''/api'') rs)"
  shows "found_route meth (''api'' # ''v1'' # seg # segs) (rs @ al @ [a]) = found_route meth (''api'' # seg # segs) (rs @ al @ [a])"
proof -
  let ?v = "''api'' # ''v1'' # seg # segs" and ?p = "''api'' # seg # segs"
  have nu: "elsewhere x \<Longrightarrow> \<not> under ''/api'' x" for x :: "'a route" by (auto simp: elsewhere_def split: list.splits)
  have fs: "versionable x" if "x \<in> set (filter (under ''/api'') rs)" for x
    using that rs nu[of x] by auto
  have un: "\<not> under ''/api'' x \<Longrightarrow> elsewhere x" if "x \<in> set rs" for x
    using that rs by (auto elim: versionable_parts)
  have end_none: "found_route meth (''api'' # parts) [a] = Inr None" for parts
    by (rule found_none) (simp add: elsewhere_none[OF a])
  have v1: "found_route meth ?v rs = Inr None"
    by (rule found_none) (use rs in \<open>simp add: version_not_direct\<close>)
  have "found_route meth ?v al = found_route meth ?p (filter (under ''/api'') rs)"
    unfolding al_def
  proof (rule found_map)
    fix x
    assume "x \<in> set (filter (under ''/api'') rs)"
    from match_version[OF fs[OF this], of "seg # segs"]
    show "rt_method (alias_route ''/api'' ''/api/v1'' x) = rt_method x \<and>
        rt_handler (alias_route ''/api'' ''/api/v1'' x) = rt_handler x \<and>
        (length (rt_segments (alias_route ''/api'' ''/api/v1'' x)) = length ?v \<longleftrightarrow> length (rt_segments x) = length ?p) \<and>
        match_segments (rt_segments (alias_route ''/api'' ''/api/v1'' x)) ?v [] = match_segments (rt_segments x) ?p []"
      by (simp only: alias_handler simp_thms)
  qed
  also have "\<dots> = found_route meth ?p rs"
    by (rule found_filter) (use un elsewhere_none in blast)
  finally have v2: "found_route meth ?v al = found_route meth ?p rs" .
  have p: "found_route meth ?p al = Inr None"
    by (rule found_none) (auto simp: al_def dest!: fs[simplified] intro: alias_not_plain[OF _ seg])
  show ?thesis unfolding found_append v1 v2 p end_none by (simp split: sum.split option.split)
qed

text \<open>
  The interface under \<open>/api/v1\<close> is the one under \<open>/api\<close>: for every method, both paths reach the same handler
  with the same parameters, or neither is served, or both end in the same error.
\<close>

theorem versioned_prefix:
  assumes "path_segments rest = seg # segs" "seg \<noteq> ''v1''"
  shows "served meth (''/api/v1/'' @ rest) (buildRouter d) = served meth (''/api/'' @ rest) (buildRouter d)"
proof -
  have p: "path_segments (''/api/v1/'' @ rest) = ''api'' # ''v1'' # seg # segs" "path_segments (''/api/'' @ rest) = ''api'' # seg # segs"
    using assms(1) by (simp_all add: path_segments_def)
  have "ro_routes (buildRouter d) = (let rs = map route_of (public_routes d @ admin_routes d) in
      rs @ map (alias_route ''/api'' ''/api/v1'') (filter (under ''/api'') rs) @ [route_of (audit_route d)])"
    by (rule buildRouter_routes)
  then show ?thesis
    using found_version[OF routes_begin(1)[of d] routes_begin(2)[of d] assms(2), of meth segs]
    by (simp only: served_def match_path_def p Let_def found_route_def)
qed

theorem versioned_prefix_witness:
  "served ''GET'' ''/api/v1/plans'' (buildRouter demo_api_deps) = served ''GET'' ''/api/plans'' (buildRouter demo_api_deps)"
proof -
  have "path_segments ''plans'' = [''plans'']" by code_simp
  from versioned_prefix[OF this, of "''GET''" demo_api_deps] show ?thesis by simp
qed

section \<open>What reaches a handler\<close>

lemma collect_data:
  assumes "\<not> bc_destroyed bc" "bc_size bc = length (concat (bc_chunks bc))" "bc_size bc + length (concat cs) \<le> max_body sec"
  shows "foldl (\<lambda>b ev. collect_event sec ev b) bc (map Data cs) =
    bc\<lparr>bc_size := bc_size bc + length (concat cs), bc_chunks := bc_chunks bc @ cs\<rparr>"
  using assms
proof (induction cs arbitrary: bc)
  case (Cons c cs)
  let ?bc = "bc\<lparr>bc_size := bc_size bc + length c, bc_chunks := bc_chunks bc @ [c]\<rparr>"
  have "collect_event sec (Data c) bc = ?bc" using Cons.prems by (simp add: Let_def)
  then show ?case using Cons.IH[of ?bc] Cons.prems by simp
qed simp

lemma collect_destroyed: "bc_destroyed bc \<Longrightarrow> foldl (\<lambda>b ev. collect_event sec ev b) bc evs = bc"
proof (induction evs)
  case (Cons ev evs)
  then show ?case by (cases ev) simp_all
qed simp

lemma collect_too_much:
  assumes "\<not> bc_destroyed bc" "\<not> headersSent (bc_res bc)" "bc_body bc = None"
    "bc_size bc \<le> max_body sec" "bc_size bc + length (concat cs) > max_body sec"
  shows "\<exists>b. foldl (\<lambda>b ev. collect_event sec ev b) bc (map Data cs) = b \<and> bc_destroyed b \<and> bc_body b = None \<and>
    headersSent (bc_res b) \<and> rp_status (bc_res b) = 413"
  using assms
proof (induction cs arbitrary: bc)
  case (Cons c cs)
  show ?case
  proof (cases "bc_size bc + length c > max_body sec")
    case True
    let ?b = "bc\<lparr>bc_size := bc_size bc + length c, bc_destroyed := True,
      bc_res := send_unless_sent 413 ''PAYLOAD_TOO_LARGE'' ''request body too large'' (bc_res bc)\<rparr>"
    have "collect_event sec (Data c) bc = ?b" using True Cons.prems by (simp add: Let_def)
    then show ?thesis using Cons.prems by (simp add: collect_destroyed send_unless_sent_fresh)
  next
    case False
    let ?b = "bc\<lparr>bc_size := bc_size bc + length c, bc_chunks := bc_chunks bc @ [c]\<rparr>"
    have "collect_event sec (Data c) bc = ?b" using False Cons.prems by (simp add: Let_def)
    then show ?thesis using Cons.IH[of ?b] Cons.prems False by simp
  qed
qed simp

text \<open>
  A body is bounded. However it is cut into chunks, a body of at most the permitted size reaches the router
  whole, as the text of its bytes, with nothing answered yet; a larger one is never handed on, and is
  answered with status 413.
\<close>

theorem body_collected:
  "let bc = collect sec (map Data chunks @ [End])
   in (bc_body bc, rp_status (bc_res bc), headersSent (bc_res bc)) =
      (if length (concat chunks) \<le> max_body sec then (Some (utf8_string (concat chunks)), 200, False) else (None, 413, True))"
proof (cases "length (concat chunks) \<le> max_body sec")
  case True
  then have "foldl (\<lambda>b ev. collect_event sec ev b) new_collector (map Data chunks) =
      new_collector\<lparr>bc_size := bc_size new_collector + length (concat chunks), bc_chunks := bc_chunks new_collector @ chunks\<rparr>"
    by (intro collect_data) (simp_all add: new_collector_def)
  then show ?thesis using True by (simp add: collect_def) (simp add: new_collector_def new_response_def headersSent_def)
next
  case False
  then have "\<exists>b. foldl (\<lambda>b ev. collect_event sec ev b) new_collector (map Data chunks) = b \<and> bc_destroyed b \<and> bc_body b = None \<and>
      headersSent (bc_res b) \<and> rp_status (bc_res b) = 413"
    by (intro collect_too_much) (simp_all add: new_collector_def)
  then show ?thesis using False by (auto simp: collect_def)
qed

lemma flat_forwarded:
  "flat_headers ((''x-forwarded-for'', One ip) # hs) = foldl (\<lambda>m (k, v). jm_set (to_lower k) (header_text v) m) [(''x-forwarded-for'', ip)] hs"
proof -
  have "to_lower ''x-forwarded-for'' = ''x-forwarded-for''" by code_simp
  then show ?thesis by (simp add: flat_headers_def)
qed

text \<open>
  The limit per client does not bind a client that names itself. Whatever the windows hold and wherever the
  request comes from, a header \<open>X-Forwarded-For\<close> with a name that no open window is counted under lets the
  request through.
\<close>

theorem forwarded_for_evades:
  assumes "ad_rateLimit d = Some (in_process_limit maxReq windowMs)" "0 < maxReq"
    and "rq_headers req = [(''x-forwarded-for'', One ip)]" "ip \<noteq> []" "CHR '','' \<notin> set ip" "trim ip = ip"
    and "\<forall>w. jm_get (as_windows s) (ip @ ''|'' @ label) = Some w \<longrightarrow> wn_resetAt w \<le> now_at e 2"
  shows "fst (limit_request e (buildRouter d) req label rsp s) = Inr True"
proof -
  have "clientIp req (flat_headers (rq_headers req)) = ip"
    using assms(3-6) by (simp add: flat_forwarded clientIp_def split_on_no_sep)
  moreover have "rd_allowed (fst (rate_check maxReq windowMs t k ws))"
    if "\<forall>w. jm_get ws k = Some w \<longrightarrow> wn_resetAt w \<le> t" for t k ws
    using that assms(2) by (auto simp: rate_check_def Let_def split: option.split)
  ultimately show ?thesis
    using assms(1,7) by (auto simp: limit_request_def in_process_limit_def split_beta Let_def)
qed

definition spoofed_request :: request where
  "spoofed_request = \<lparr>rq_method = Some ''POST'', rq_url = Some (''/api/users/login'', []),
     rq_headers = [(''x-forwarded-for'', One ''203.0.113.7'')], rq_remote = Some ''10.0.0.1''\<rparr>"

theorem forwarded_for_evades_witness:
  "fst (limit_request (env_at 0) (buildRouter (demo_api_deps\<lparr>ad_rateLimit := Some (in_process_limit 1 60000)\<rparr>)) spoofed_request
     ''/api/users/login'' new_response
     ((demo_state empty_world [])\<lparr>as_windows := [(''10.0.0.1|/api/users/login'', \<lparr>wn_count = 1, wn_resetAt = 60000\<rparr>)]\<rparr>)) = Inr True"
proof (rule forwarded_for_evades[where maxReq = 1 and windowMs = 60000 and ip = "''203.0.113.7''"])
  show "trim ''203.0.113.7'' = ''203.0.113.7''" by code_simp
qed (simp_all add: spoofed_request_def)

text \<open>
  What the API sends, it can read: the body \<open>sendJson\<close> writes for an object, with strings that need escaping
  and arrays and objects of any depth in it, gives \<open>parseJsonBody\<close> the same properties back.
\<close>

theorem body_roundtrip:
  assumes "plain (JObj ps)" "sendJson rsp status (JObj ps) = (Inr u, rsp')"
  shows "\<exists>body. rp_body rsp' = Some body \<and> parseJsonBody (cx\<lparr>cx_rawBody := body\<rparr>) = ps"
proof -
  have "rp_body rsp' = Some (json_text (JObj ps))"
    using assms(2) by (auto simp: sendJson_def sendRaw_def Let_def split: if_splits)
  moreover have "parse_value (2 * length (json_text (JObj ps)) + 1) (json_text (JObj ps) @ []) = Some (JObj ps, [])"
    by (rule reads_backD[OF plain_reads_back[OF assms(1)]]) simp_all
  moreover have "json_text (JObj ps) \<noteq> []" by simp
  ultimately show ?thesis by (simp add: parseJsonBody_def JSON_parse_def skip_space_def)
qed

theorem body_roundtrip_witness:
  "\<exists>body. rp_body (snd (sendJson new_response 200 (JObj [(''a'', JArr [JNum (- 12), JNull]), (''b'', JStr [CHR 0x22, CHR 0x0A])]))) =
      Some body \<and> parseJsonBody ((demo_ctx [] [] [])\<lparr>cx_rawBody := body\<rparr>) =
      [(''a'', JArr [JNum (- 12), JNull]), (''b'', JStr [CHR 0x22, CHR 0x0A])]"
proof -
  have "plain (JObj [(''a'', JArr [JNum (- 12), JNull]), (''b'', JStr [CHR 0x22, CHR 0x0A])])" by simp
  from body_roundtrip[OF this, of new_response 200 "()" _ "demo_ctx [] [] []"] show ?thesis
    by (simp add: sendJson_unsent)
qed

end
