(* ===== verification/ApiSystem.thy ===== *)
theory ApiSystem
  imports ApiProps System
begin

text \<open>
  The API over the services: whatever a request does to the shared state is a sequence of the services'
  operations, so that their invariants hold of everything that comes in over HTTP.
\<close>

section \<open>Ids that are used up\<close>

text \<open>Between two states: no new order, the same refunds, no subscription under an id outside \<open>K\<close>.\<close>

definition draws :: "string set \<Rightarrow> world \<Rightarrow> world \<Rightarrow> bool" where
  "draws K w w' \<longleftrightarrow> (\<forall>k. order_findById (w_orders w) k = None \<longrightarrow> order_findById (w_orders w') k = None) \<and>
     w_refunds w' = w_refunds w \<and> (\<forall>k. sub_find (w_subs w) k = None \<and> k \<notin> K \<longrightarrow> sub_find (w_subs w') k = None)"

lemma draws_refl [simp]: "draws K w w"
  by (simp add: draws_def)

lemma draws_from: "draws K w1 w' \<Longrightarrow> w_orders w1 = w_orders w \<Longrightarrow> w_refunds w1 = w_refunds w \<Longrightarrow> w_subs w1 = w_subs w \<Longrightarrow> draws K w w'"
  by (simp add: draws_def)

lemma granted_draws:
  assumes "sub_store_wf st" "granted e ord plan st = (s, st')" "sub_find st k = None" "k \<noteq> uuid_at e 0"
  shows "sub_find st' k = None"
proof (cases "\<exists>x. sub_findActiveByUser st (o_userId ord) = Some x \<and> s_expiresAt x > now_at e 0")
  case True
  then obtain x where x: "sub_findActiveByUser st (o_userId ord) = Some x" "s_expiresAt x > now_at e 0" by blast
  then have "st' = sub_update (renewed (now_at e 0) ord plan x) st" using assms(2) by (auto simp: granted_def Let_def)
  moreover have "sub_find st (s_id x) = Some x" using sub_repo.current_stored[OF assms(1) x(1)] by simp
  ultimately show ?thesis using assms(3) by (auto simp: sub_repo.stored_update renewed_def)
next
  case False
  then have "st' = sub_create (started e (now_at e 0) ord plan) st"
    using assms(2) by (auto simp: granted_def Let_def split: option.splits if_splits)
  then show ?thesis using assms(3,4) by (simp add: sub_repo.stored_create started_def)
qed

lemma applyPayment_draws:
  assumes ok: "system_ok mode w" and fr: "fresh e w" and pl: "pd_plans d = PLANS"
  shows "draws {uuid_at e 1} w (snd (applyPayment e d i paid w))"
proof (cases "order_findById (w_orders w) i")
  case None
  then show ?thesis by (simp add: applyPayment_def)
next
  case (Some ord)
  note D = system_okD[OF ok] and L = ledger_okD[OF system_okD(1)[OF ok]]
  show ?thesis
  proof (cases "acceptable paid ord")
    case False
    then show ?thesis using applyPayment_refused(1)[OF Some] by simp
  next
    case True
    obtain plan where plan: "getPlan (pd_plans d) (o_planId ord) = Some plan"
      using D(5)[OF Some] by (auto simp: order_good_def pl)
    have id: "o_id ord = i" by (rule order_repo.find_key[OF L(1) Some])
    obtain w' where run: "applyPayment e d i paid w = (Inr (final_order e paid ord), w')"
      and f: "w_subs w' = settled_subs e d paid ord w" "w_refunds w' = w_refunds w"
      using applyPayment_accepted[OF Some id True plan, of e] by blast
    obtain s where g: "granted (env_from 1 e) (paid_order e paid ord) plan (w_subs w) = (s, w_subs w')"
      unfolding f(1) settled_subs_def fulfill_paid[OF plan] by (metis prod.collapse snd_conv)
    show ?thesis
      using granted_draws[OF D(3) g] Some f(2)
      by (auto simp: draws_def run applyPayment_find(3)[OF L(1) Some True plan run])
  qed
qed

lemma syncOrder_draws:
  assumes "system_ok mode w" "fresh e w" "pd_plans d = PLANS"
  shows "draws {uuid_at e 2} w (snd (syncOrder e d i w))"
proof -
  have m: "draws K w (snd (mark_event e x w))" for K x by (simp add: draws_def)
  have ok: "system_ok mode (snd (mark_event e x w))" for x
    using marked_step(1)[OF assms] by (simp add: system_next_def)
  have "draws {uuid_at (env_from 1 e) 1} (snd (mark_event e x w)) (snd (applyPayment (env_from 1 e) d k paid (snd (mark_event e x w))))"
    for x k paid
    by (rule applyPayment_draws[OF ok _ assms(3)]) (simp add: fresh_from assms(2))
  moreover have "uuid_at (env_from 1 e) 1 = uuid_at e 2" by (simp add: numeral_2_eq_2)
  ultimately have ap: "draws {uuid_at e 2} (snd (mark_event e x w)) (snd (applyPayment (env_from 1 e) d k paid (snd (mark_event e x w))))"
    for x k paid by simp
  have a: "draws {uuid_at e 2} w (snd (applyPayment (env_from 1 e) d k paid (snd (mark_event e x w))))" for x k paid
    by (rule draws_from[OF ap]) simp_all
  show ?thesis
  proof (cases "order_findById (w_orders w) i")
    case (Some ord)
    show ?thesis
    proof (cases "provider_of (pd_providers d) (o_method ord)")
      case (Inr prov)
      show ?thesis
      proof (cases "pp_queryPayment prov ord")
        case q: (Inr q)
        note run = Some Inr q
        show ?thesis
        proof (cases "o_status ord \<noteq> PENDING \<or> \<not> q_paid q \<or> \<not> truthy (q_providerTxnId q)")
          case True
          then show ?thesis by (auto simp: syncOrder_def run)
        next
          case False
          then show ?thesis using m a by (simp add: syncOrder_def run Let_def split_beta)
        qed
      qed (simp add: syncOrder_def Some Inr)
    qed (simp add: syncOrder_def Some)
  qed (simp add: syncOrder_def)
qed

text \<open>The ids are new to the state and different from each other.\<close>

definition unused :: "env \<Rightarrow> world \<Rightarrow> bool" where
  "unused e w \<longleftrightarrow> fresh e w \<and> inj (uuid_at e)"

lemma inj_from: "inj (uuid_at e) \<Longrightarrow> inj (uuid_at (env_from n e))"
  by (rule injI) (simp add: inj_eq)

lemma unused_from: "unused e w \<Longrightarrow> unused (env_from n e) w"
  by (simp add: unused_def fresh_from inj_from)

lemma unused_frame:
  "unused e w \<Longrightarrow> w_orders w' = w_orders w \<Longrightarrow> w_refunds w' = w_refunds w \<Longrightarrow> w_subs w' = w_subs w \<Longrightarrow> unused e w'"
  by (simp add: unused_def fresh_def)

lemma unused_draws:
  assumes "unused e w" "draws {uuid_at e 2} w w'"
  shows "unused (env_from 8 e) w'"
proof -
  have inj: "inj (uuid_at e)" using assms(1) by (simp add: unused_def)
  then have "uuid_at e (8 + i) \<noteq> uuid_at e 2" for i by (simp add: inj_eq)
  then have "fresh (env_from 8 e) w'"
    using assms unfolding unused_def fresh_def draws_def by simp
  then show ?thesis using inj_from[OF inj] by (simp add: unused_def)
qed

lemma env_from_from [simp]: "env_from m (env_from n e) = env_from (n + m) e"
  by (simp add: env_from_def add.assoc)

lemma reconcile_loop_steps:
  assumes "\<And>i. pd_plans (d i) = PLANS"
  shows "system_ok mode w \<Longrightarrow> unused (env_from (8 * i) e) w \<Longrightarrow>
    (system_step mode)\<^sup>*\<^sup>* w (snd (reconcile_loop e d i xs settled w))"
proof (induction xs arbitrary: i settled w)
  case (Cons x xs)
  let ?e = "env_from (8 * i) e"
  let ?w = "snd (syncOrder ?e (d i) (o_id x) w)"
  have fr: "fresh ?e w" using Cons.prems(2) by (simp add: unused_def)
  have step: "system_step mode w ?w" by (rule system_step.sync[OF fr assms])
  have ok: "system_ok mode ?w" using system_step_next[OF step Cons.prems(1)] by (simp add: system_next_def)
  have "unused (env_from 8 ?e) ?w"
    by (rule unused_draws[OF Cons.prems(2) syncOrder_draws[OF Cons.prems(1) fr assms]])
  then have un: "unused (env_from (8 * (i + 1)) e) ?w" by (simp add: algebra_simps)
  obtain r w1 where run: "syncOrder ?e (d i) (o_id x) w = (r, w1)" by fastforce
  show ?case
    using Cons.IH[OF ok un] step unfolding run
    by (auto simp: run split: sum.split intro: converse_rtranclp_into_rtranclp)
qed simp

section \<open>Handlers take the system's steps\<close>

text \<open>
  The parts the API is given: the services sell the catalogue's plans in the system's address mode, and the
  alert sink, the limiter and the metrics leave orders, refunds and subscriptions alone.
\<close>

definition same_books :: "world \<Rightarrow> world \<Rightarrow> bool" where
  "same_books w w' \<longleftrightarrow> w_orders w' = w_orders w \<and> w_refunds w' = w_refunds w \<and> w_subs w' = w_subs w"

definition deployed :: "address_mode option \<Rightarrow> api_deps \<Rightarrow> bool" where
  "deployed mode d \<longleftrightarrow> pd_plans (ad_payments d) = PLANS \<and> pd_usdtAddressMode (ad_payments d) = mode \<and>
     (\<forall>f i. ad_usdtWatcher d = Some f \<longrightarrow> pd_plans (f i) = PLANS) \<and>
     (\<forall>e a w. same_books w (snd (ad_alertSink d e a w))) \<and>
     (\<forall>rl t k s. ad_rateLimit d = Some rl \<longrightarrow> as_world (snd (rl_check rl t k s)) = as_world s) \<and>
     (\<forall>m. ad_routerMetrics d = Some m \<longrightarrow> (\<forall>l s. as_world (rm_requests m l s) = as_world s) \<and>
        (\<forall>l v s. as_world (rm_duration m l v s) = as_world s) \<and>
        (\<forall>f l s. rm_rateLimited m = Some f \<longrightarrow> as_world (f l s) = as_world s))"

definition stepping :: "address_mode option \<Rightarrow> api_handler \<Rightarrow> bool" where
  "stepping mode f \<longleftrightarrow> (\<forall>e cx s. system_ok mode (as_world s) \<and> unused e (as_world s) \<longrightarrow>
     (system_step mode)\<^sup>*\<^sup>* (as_world s) (as_world (snd (f e cx s))))"

definition handler_steps :: "address_mode option \<Rightarrow> api_state handler \<Rightarrow> bool" where
  "handler_steps mode h \<longleftrightarrow> (\<forall>e cx rsp s. system_ok mode (as_world s) \<and> unused e (as_world s) \<longrightarrow>
     (system_step mode)\<^sup>*\<^sup>* (as_world s) (as_world (snd (snd (h e cx rsp s)))))"

lemma steppingI:
  "(\<And>e cx s. system_ok mode (as_world s) \<Longrightarrow> unused e (as_world s) \<Longrightarrow>
     (system_step mode)\<^sup>*\<^sup>* (as_world s) (as_world (snd (f e cx s)))) \<Longrightarrow> stepping mode f"
  by (simp add: stepping_def)

lemma handler_stepsI:
  "(\<And>e cx rsp s. system_ok mode (as_world s) \<Longrightarrow> unused e (as_world s) \<Longrightarrow>
     (system_step mode)\<^sup>*\<^sup>* (as_world s) (as_world (snd (snd (h e cx rsp s))))) \<Longrightarrow> handler_steps mode h"
  by (simp add: handler_steps_def)

lemma handler_stepsD:
  "handler_steps mode h \<Longrightarrow> system_ok mode (as_world s) \<Longrightarrow> unused e (as_world s) \<Longrightarrow>
     (system_step mode)\<^sup>*\<^sup>* (as_world s) (as_world (snd (snd (h e cx rsp s))))"
  by (simp add: handler_steps_def)

lemma books_steps: "same_books w w' \<Longrightarrow> (system_step mode)\<^sup>*\<^sup>* w w'"
  unfolding same_books_def by (intro r_into_rtranclp system_step.environment) simp_all

lemma same_books_refl [simp]: "same_books w w"
  by (simp add: same_books_def)

lemma quiet_stepping: "(\<And>e cx s. same_books (as_world s) (as_world (snd (f e cx s)))) \<Longrightarrow> stepping mode f"
  by (intro steppingI books_steps)

lemma books_on_accounts [simp]: "same_books (as_world s) (as_world (snd (on_accounts f s)))"
  by (simp add: on_accounts_def split_beta Let_def same_books_def)

lemmas reading = snd_needs snd_bindR Let_def split_beta

lemma replying_steps: "stepping mode f \<Longrightarrow> handler_steps mode (replying f)"
  by (intro handler_stepsI) (simp add: replying_state stepping_def)

lemma guarded_steps:
  assumes "handler_steps mode h"
  shows "handler_steps mode (guarded d h)"
proof (rule handler_stepsI)
  fix e and cx :: ctx and rsp and s :: api_state
  assume ok: "system_ok mode (as_world s)" and un: "unused e (as_world s)"
  show "(system_step mode)\<^sup>*\<^sup>* (as_world s) (as_world (snd (snd (guarded d h e cx rsp s))))"
  proof (cases "requireAdmin cx (ad_adminToken d) (ad_adminTokenPrevious d)")
    case (Inl err)
    then show ?thesis by (simp add: guarded_def adminGuard_def)
  next
    case (Inr u)
    let ?w = "audit_world e ''admin.access'' None (Some (cx_path cx)) (JObj [(''method'', JStr (cx_method cx))]) (as_world s)"
    have st: "system_step mode (as_world s) ?w" by (rule system_step.environment) simp_all
    have "system_ok mode ?w" using system_step_next[OF st ok] by (simp add: system_next_def)
    moreover have "unused (env_from 1 e) ?w" by (rule unused_frame[OF unused_from[OF un]]) simp_all
    ultimately have "(system_step mode)\<^sup>*\<^sup>* ?w (as_world (snd (snd (h (env_from 1 e) cx rsp (s\<lparr>as_world := ?w\<rparr>)))))"
      using handler_stepsD[OF assms, where s = "s\<lparr>as_world := ?w\<rparr>"] by simp
    then show ?thesis using st Inr by (simp add: guarded_def adminGuard_def)
  qed
qed

lemma catching_steps: "handler_steps mode h \<Longrightarrow> handler_steps mode (catching g h)"
  by (intro handler_stepsI) (simp add: catching_state handler_steps_def)

text \<open>Handlers that only read orders, refunds and subscriptions.\<close>

lemma books_simps [simp]:
  "same_books (as_world s) ((as_world s)\<lparr>w_audit := a\<rparr>)" "same_books (as_world s) ((as_world s)\<lparr>w_events := ev\<rparr>)"
  "same_books (as_world s) ((as_world s)\<lparr>w_hooks := h\<rparr>)" "same_books (as_world s) ((as_world s)\<lparr>w_sweeps := sw\<rparr>)"
  by (simp_all add: same_books_def)

lemma as_metrics_world [simp]: "as_world (s\<lparr>as_metrics := m\<rparr>) = as_world s"
  by simp

lemma quiet_public:
  "stepping mode (h_healthz d)" "stepping mode (h_version d)" "stepping mode (h_readyz d)" "stepping mode (h_metrics d)"
  "stepping mode (h_plans d)" "stepping mode (h_openapi d)" "stepping mode (h_docs d)"
  by (rule quiet_stepping; simp add: h_healthz_def h_version_def h_readyz_def h_metrics_def h_plans_def h_openapi_def
      h_docs_def reading split: sum.split)+

lemma quiet_users:
  "stepping mode (h_register d)" "stepping mode (h_login d)" "stepping mode (h_me d)" "stepping mode (h_rotate_user_key d)"
  by (rule quiet_stepping; simp add: h_register_def h_login_def h_me_def h_rotate_user_key_def reading split: sum.split)+

lemma quiet_reads:
  "stepping mode (h_get_order d)" "stepping mode (h_order_refunds d)" "stepping mode (h_summary d)"
  "stepping mode (h_orders_summary d)" "stepping mode (h_admin_orders d)" "stepping mode (h_admin_refunds d)"
  "stepping mode (h_orders_csv d)" "stepping mode (h_refunds_csv d)" "stepping mode (h_audit d)"
  by (rule quiet_stepping; simp add: h_get_order_def h_order_refunds_def h_summary_def h_orders_summary_def h_admin_orders_def
      h_admin_refunds_def h_orders_csv_def h_refunds_csv_def h_audit_def reading split: sum.split)+

lemma quiet_merchant_orders: "stepping mode (h_merchant_orders d)"
  by (rule quiet_stepping) (simp add: h_merchant_orders_def reading split: sum.split option.split)

lemma quiet_merchants:
  "stepping mode (h_create_merchant d)" "stepping mode (h_merchants d)" "stepping mode (h_rotate_merchant_key d)"
  "stepping mode (h_merchant_status d)"
  by (rule quiet_stepping; simp add: h_create_merchant_def h_merchants_def h_rotate_merchant_key_def h_merchant_status_def
      reading split: sum.split)+

lemma quiet_work:
  "stepping mode (h_maintenance d)" "stepping mode (h_webhooks_process d)" "stepping mode (h_sweeps d)"
  "stepping mode (h_sweep_retry d)" "stepping mode (h_webhooks d)" "stepping mode (h_webhook_retry d)"
  by (rule quiet_stepping; simp add: h_maintenance_def h_webhooks_process_def h_sweeps_def h_sweep_retry_def h_webhooks_def
      h_webhook_retry_def reading split: sum.split option.split prod.split)+

lemma quote_steps: "handler_steps mode (h_quote d)"
  by (rule handler_stepsI)
    (simp add: h_quote_def catching_state replying_state split_beta split: sum.split)

lemma qrcode_steps: "handler_steps mode (h_qrcode d)"
  by (rule handler_stepsI) (simp add: h_qrcode_def Let_def split_beta split: sum.split)

text \<open>Handlers that run one of the services' operations.\<close>

lemma unused_fresh: "unused e w \<Longrightarrow> fresh e w"
  by (simp add: unused_def)

lemma create_stepping:
  assumes "deployed mode d"
  shows "stepping mode (h_create_order d)"
proof (rule steppingI)
  fix e and cx :: ctx and s :: api_state
  assume un: "unused e (as_world s)"
  have "(system_step mode)\<^sup>*\<^sup>* (as_world s) (snd (createOrder e (ad_payments d) inp (as_world s)))" for inp
    using assms unused_fresh[OF un] unfolding deployed_def by (intro r_into_rtranclp system_step.create) simp_all
  then show "(system_step mode)\<^sup>*\<^sup>* (as_world s) (as_world (snd (h_create_order d e cx s)))"
    by (simp add: h_create_order_def reading split: sum.split)
qed

lemma notify_stepping:
  assumes "deployed mode d"
  shows "stepping mode (h_notify m d)" "stepping mode (h_sync d)"
proof -
  have pl: "pd_plans (ad_payments d) = PLANS" using assms by (simp add: deployed_def)
  show "stepping mode (h_notify m d)"
    using pl by (intro steppingI) (simp add: h_notify_def world_bind_on_world, intro r_into_rtranclp system_step.callback unused_fresh)
  have q: "snd (needs r f s) = s" if "\<And>x s. snd (f x s) = s" for r f and s :: api_state
    using that by (simp add: snd_needs split: sum.split)
  show "stepping mode (h_sync d)"
    using pl by (intro steppingI) (simp add: h_sync_def world_bind_on_world snd_needs_quiet, intro r_into_rtranclp system_step.sync unused_fresh)
qed

lemma refund_stepping: "stepping mode (h_refund d)" "stepping mode (h_notify_refund d)"
proof -
  show "stepping mode (h_notify_refund d)"
    by (intro steppingI) (simp add: h_notify_refund_def world_bind_on_world, intro r_into_rtranclp system_step.refund_callback)
  show "stepping mode (h_refund d)"
  proof (rule steppingI)
    fix e and cx :: ctx and s :: api_state
    assume un: "unused e (as_world s)"
    have "(system_step mode)\<^sup>*\<^sup>* (as_world s) (snd (refundOrder e (ad_refunds d) i inp (as_world s)))" for i inp
      by (intro r_into_rtranclp system_step.refund unused_fresh[OF un])
    then show "(system_step mode)\<^sup>*\<^sup>* (as_world s) (as_world (snd (h_refund d e cx s)))"
      by (simp add: h_refund_def Let_def snd_needs world_bind_on_world split: sum.split)
  qed
qed

lemma usdt_reconcile_stepping:
  assumes "deployed mode d"
  shows "stepping mode (h_usdt_reconcile d)"
proof (rule steppingI)
  fix e and cx :: ctx and s :: api_state
  assume h: "system_ok mode (as_world s)" "unused e (as_world s)"
  have "(system_step mode)\<^sup>*\<^sup>* (as_world s) (snd (reconcileOnce e f (as_world s)))" if "ad_usdtWatcher d = Some f" for f
    using assms that h unfolding reconcileOnce_def deployed_def
    by (intro reconcile_loop_steps[where i = 0]) (simp_all add: unused_from)
  then show "(system_step mode)\<^sup>*\<^sup>* (as_world s) (as_world (snd (h_usdt_reconcile d e cx s)))"
    by (simp add: h_usdt_reconcile_def reading split: option.split)
qed

lemma world_on_subs:
  "as_world (snd (on_subs f s)) = (as_world s)\<lparr>w_subs := fst (snd (f (w_subs (as_world s), as_notes s)))\<rparr>"
  by (simp add: on_subs_def split_beta Let_def)

lemma expiry_stepping: "stepping mode (h_expiry d)"
proof (rule steppingI)
  fix e and cx :: ctx and s :: api_state
  let ?s1 = "snd (on_subs (sendExpiryReminders e (ad_reminderWindowMs d) (ad_notifier d)) s)"
  have one: "system_step mode (as_world s) (as_world ?s1)" unfolding world_on_subs by (rule system_step.remind)
  have two: "system_step mode (as_world ?s1) (as_world (snd (on_subs (deactivateExpired (env_from 1 e) (ad_notifier d)) ?s1)))"
    unfolding world_on_subs by (rule system_step.deactivate)
  have "as_world (snd (h_expiry d e cx s)) \<in> {as_world ?s1, as_world (snd (on_subs (deactivateExpired (env_from 1 e) (ad_notifier d)) ?s1))}"
    by (simp add: h_expiry_def snd_bindR split: sum.split)
  then show "(system_step mode)\<^sup>*\<^sup>* (as_world s) (as_world (snd (h_expiry d e cx s)))"
    using one two by (auto intro: converse_rtranclp_into_rtranclp)
qed

lemma reconcile_run_steps: "(system_step mode)\<^sup>*\<^sup>* w (snd (reconcile_run e heal healer w))"
proof -
  have "snd (reconcile_run e heal healer w) \<in> {w, snd (expireStaleOrders (env_from 1 e) w)}"
    by (simp add: reconcile_run_def Let_def snd_bindR split: sum.split)
  then show ?thesis using system_step.expire[where e = "env_from 1 e" and w = w] by auto
qed

lemma reconciliation_stepping:
  assumes "deployed mode d"
  shows "stepping mode (h_reconciliation d)"
proof (rule steppingI)
  fix e and cx :: ctx and s :: api_state
  let ?run = "reconcile_run e (query_get (cx_query cx) ''heal'' = Some ''true'') (ad_healer d)"
  let ?s1 = "snd (on_world ?run s)"
  have "same_books (as_world ?s1) (as_world (snd (h_reconciliation d e cx s)))"
  proof -
    have sink: "same_books w (snd (ad_alertSink d e' a w))" for e' a w using assms by (simp add: deployed_def)
    then show ?thesis
      by (simp add: h_reconciliation_def Let_def snd_bindR split: sum.split option.split)
  qed
  then show "(system_step mode)\<^sup>*\<^sup>* (as_world s) (as_world (snd (h_reconciliation d e cx s)))"
    using reconcile_run_steps books_steps by (metis rtranclp_trans world_on_world)
qed

section \<open>A request takes the system's steps\<close>

lemma webhook_retry_steps: "handler_steps mode (webhook_retry_handler d)"
  by (auto simp: webhook_retry_handler_def intro!: catching_steps replying_steps quiet_stepping quiet_work)

lemmas free_steppings = quiet_public quiet_users quiet_reads quiet_merchant_orders quiet_merchants quiet_work
  refund_stepping expiry_stepping

lemmas deployed_steppings = create_stepping notify_stepping usdt_reconcile_stepping reconciliation_stepping

lemma routes_step:
  assumes "deployed mode d" "(meth, pattern, h) \<in> set (public_routes d @ admin_routes d @ [audit_route d])"
  shows "handler_steps mode h"
  using assms(2)
  by (auto simp: public_routes_def admin_routes_def audit_route_def
      intro: guarded_steps replying_steps quote_steps qrcode_steps webhook_retry_steps deployed_steppings[OF assms(1)] free_steppings)

lemma router_steps:
  assumes "deployed mode d" "x \<in> set (ro_routes (buildRouter d))"
  shows "handler_steps mode (rt_handler x)"
  using buildRouter_handlers[OF assms(2)] routes_step[OF assms(1)] by metis

lemma limit_request_world:
  assumes "deployed mode d"
  shows "as_world (snd (snd (limit_request e (buildRouter d) req label rsp s))) = as_world s"
  using assms by (simp add: limit_request_def deployed_def split_beta Let_def split: option.split sum.split)

lemma record_request_world:
  assumes "deployed mode d"
  shows "as_world (record_request (buildRouter d) meth label took rsp s) = as_world s"
  using assms by (simp add: record_request_def deployed_def split: option.split)

lemma dispatch_steps:
  assumes "deployed mode d" "system_ok mode (as_world s)" "unused e (as_world s)"
  shows "(system_step mode)\<^sup>*\<^sup>* (as_world s) (as_world (snd (dispatch e (buildRouter d) req rawBody timedOut s)))"
proof (cases "rq_url req")
  case None
  then show ?thesis by (simp add: dispatch_def)
next
  case (Some url)
  obtain path query where url: "rq_url req = Some (path, query)" using Some by (cases url) simp
  show ?thesis
  proof (cases "is_preflight (buildRouter d) req")
    case True
    then show ?thesis using url by (simp add: dispatch_def is_preflight_def method_of_def Let_def)
  next
    case no: False
    show ?thesis
    proof (cases "match_path (method_of req) path (buildRouter d)")
      case (Inl err)
      then show ?thesis using dispatch_unmatched_error[OF url no] by simp
    next
      case (Inr m)
      show ?thesis
      proof (cases m)
        case None
        then show ?thesis
          using url no Inr
          by (auto simp: dispatch_def is_preflight_def method_of_def Let_def record_request_world[OF assms(1)])
      next
        case (Some found)
        obtain route params where f: "match_path (method_of req) path (buildRouter d) = Inr (Some (route, params))"
          using Inr Some by (cases found) simp
        have "handler_steps mode (rt_handler route)" using router_steps[OF assms(1)] match_path_sound[OF f] by blast
        then have h: "(system_step mode)\<^sup>*\<^sup>* (as_world s1) (as_world (snd (snd (run_handler (env_from 3 e) (rt_handler route) cx timedOut rsp s1))))"
          if "as_world s1 = as_world s" for cx rsp s1
          unfolding run_handler_state using assms(2,3) that unused_from by (intro handler_stepsD) simp_all
        show ?thesis
          unfolding dispatch_matched[OF url no f] dispatch_route_def Let_def split_beta
          using h[OF limit_request_world[OF assms(1)]] limit_request_world[OF assms(1)]
          by (simp add: record_request_world[OF assms(1)] split: sum.split)
      qed
    qed
  qed
qed

text \<open>
  C3: Requests are the services' operations. Whatever a request is and however it ends, it takes the system from
  a reachable state to a reachable state: every order it finds is still there, has the same amount, method
  and plan and has moved along the transition table at most, and afterwards each order is granted to a
  subscription once if it has been paid and never if it has not.
\<close>

theorem requests_refine_services:
  assumes "deployed mode d" "reachable mode (as_world s)" "unused e (as_world s)"
    and "as_world (snd (dispatch e (buildRouter d) req rawBody timedOut s)) = w'"
  shows "reachable mode w' \<and>
    (\<forall>k a. order_findById (w_orders (as_world s)) k = Some a \<longrightarrow>
       (\<exists>b. order_findById (w_orders w') k = Some b \<and> order_moves a b)) \<and>
    (\<forall>k. grants (w_subs w') k =
       (case order_findById (w_orders w') k of None \<Rightarrow> 0 | Some ord \<Rightarrow> if o_paidAt ord = None then 0 else 1))"
proof -
  have ok: "system_ok mode (as_world s)" by (rule reachable_ok[OF assms(2)])
  have steps: "(system_step mode)\<^sup>*\<^sup>* (as_world s) w'"
    using dispatch_steps[OF assms(1) ok assms(3)] assms(4) by blast
  then have re: "reachable mode w'" using assms(2) unfolding reachable_def by (rule rtranclp_trans[rotated])
  note D = system_okD[OF reachable_ok[OF re]]
  have "order_findById (w_orders w') k = Some ord \<Longrightarrow> settled_status (o_status ord) = (o_paidAt ord \<noteq> None)" for k ord
    using D(5) by (simp add: order_good_def)
  then have "grants (w_subs w') k =
      (case order_findById (w_orders w') k of None \<Rightarrow> 0 | Some ord \<Rightarrow> if o_paidAt ord = None then 0 else 1)" for k
    using D(4) unfolding granted_once_def by (auto split: option.split)
  then show ?thesis using re steps_next[OF steps ok] by (simp add: system_next_def)
qed

definition counting_env :: env where
  "counting_env = \<lparr>now_at = (\<lambda>_. 500), uuid_at = (\<lambda>i. replicate (Suc i) CHR ''x''), random_at = (\<lambda>i. replicate (Suc i) CHR ''y'')\<rparr>"

text \<open>An order is placed over HTTP in an empty system.\<close>

definition demo_order_body :: string where
  "demo_order_body = json_text (JObj [(''userId'', JStr ''u1''), (''planId'', JStr ''monthly''), (''method'', JStr ''wechat'')])"

theorem requests_refine_services_witness:
  "reachable (Some Shared) (as_world (snd (dispatch counting_env (buildRouter demo_api_deps) (demo_request ''POST'' ''/api/orders'' [])
     demo_order_body False (demo_state empty_world []))))"
proof -
  have d: "deployed (Some Shared) demo_api_deps"
    by (simp add: deployed_def demo_api_deps_def demo_deps_def)
  have "inj (uuid_at counting_env)"
    by (rule injI) (metis (no_types, lifting) counting_env_def env.select_convs(2) length_replicate nat.inject)
  then have u: "unused counting_env (as_world (demo_state empty_world []))"
    by (simp add: unused_def fresh_def demo_state_def) (simp add: counting_env_def)
  have "reachable (Some Shared) (as_world (demo_state empty_world []))" by (simp add: reachable_def demo_state_def)
  from requests_refine_services[OF d this u refl] show ?thesis by blast
qed

end
