(* ===== verification/WebText.thy ===== *)
theory WebText
  imports Uri Doubles "HOL-Library.Char_ord" "HOL-Library.List_Lexorder"
begin

text \<open>
  Texts of the web that the payment providers exchange: \<open>application/x-www-form-urlencoded\<close> bodies as
  \<open>URLSearchParams\<close> reads and prints them, with the round trip between the two, and the ISO form of a time
  that \<open>toISOString\<close> prints.
\<close>

section \<open>Form bodies\<close>

definition form_unreserved :: "char \<Rightarrow> bool" where
  "form_unreserved c = (let n = of_char c :: nat in
     (48 \<le> n \<and> n \<le> 57) \<or> (65 \<le> n \<and> n \<le> 90) \<or> (97 \<le> n \<and> n \<le> 122) \<or> c \<in> set ''*-._'')"

definition form_encode :: "string \<Rightarrow> string" where
  "form_encode s = concat (map (\<lambda>c.
     if c = CHR '' '' then ''+''
     else if form_unreserved c then [c]
     else concat (map (\<lambda>b. percent_byte (unat b)) (utf8_char c))) s)"

definition form_text :: "(string \<times> string) list \<Rightarrow> string" where
  "form_text ps = join_with ''&'' (map (\<lambda>(k, v). form_encode k @ ''='' @ form_encode v) ps)"

text \<open>A percent sign without two hexadecimal digits after it stands for itself.\<close>

fun form_bytes :: "string \<Rightarrow> nat list" where
  "form_bytes [] = []"
| "form_bytes (c # a # b # s) =
     (if c = CHR ''+'' then 32 # form_bytes (a # b # s)
      else if c = CHR ''%''
        then (case (hex_value a, hex_value b) of
                (Some h, Some l) \<Rightarrow> (16 * h + l) # form_bytes s
              | _ \<Rightarrow> 37 # form_bytes (a # b # s))
      else map unat (utf8_char c) @ form_bytes (a # b # s))"
| "form_bytes (c # s) = (if c = CHR ''+'' then [32] else map unat (utf8_char c)) @ form_bytes s"

definition form_decode :: "string \<Rightarrow> string" where
  "form_decode s = utf8_string (form_bytes s)"

definition form_pair :: "string \<Rightarrow> string \<times> string" where
  "form_pair p = (form_decode (takeWhile (\<lambda>c. c \<noteq> CHR ''='') p), form_decode (drop 1 (dropWhile (\<lambda>c. c \<noteq> CHR ''='') p)))"

definition form_parse :: "string \<Rightarrow> (string \<times> string) list" where
  "form_parse s =
     (let s' = (case s of c # cs \<Rightarrow> if c = CHR ''?'' then cs else s | [] \<Rightarrow> [])
      in map form_pair (filter (\<lambda>p. p \<noteq> []) (split_on CHR ''&'' s')))"

section \<open>The round trip\<close>

lemma utf8_string_char: "utf8_string (map unat (utf8_char c) @ bs) = c # utf8_string bs"
proof -
  let ?n = "of_char c :: nat"
  have n: "?n < 256" using nat_of_char_less_256[of c] by simp
  have small: "unat (word_of_nat m :: byte) = m" if "m < 256" for m
    using that by (simp add: unat_of_nat take_bit_nat_eq_self)
  show ?thesis
  proof (cases "?n < 128")
    case True
    have u: "map unat (utf8_char c) = [?n]" using True small[of ?n] by (simp add: utf8_char_def)
    have "?n \<noteq> 0xc2 \<and> ?n \<noteq> 0xc3" using True by simp
    then show ?thesis unfolding u by (cases bs) simp_all
  next
    case False
    define h where "h = ?n div 64"
    have h: "h = 2 \<or> h = 3" using n False unfolding h_def by arith
    have l: "?n mod 64 < 64" by simp
    have hl: "192 + h < 256" "128 + ?n mod 64 < 256" using h l by auto
    have u: "map unat (utf8_char c) = [192 + h, 128 + ?n mod 64]"
      using False small[OF hl(1)] small[OF hl(2)]
      by (simp add: utf8_char_def Let_def del: of_nat_add flip: h_def)
    have "h * 64 + ?n mod 64 = ?n" by (simp add: h_def)
    then have "char_of (h * 64 + ?n mod 64) = c" by simp
    then show ?thesis using h l unfolding u by auto
  qed
qed

lemma form_bytes_plain:
  "c \<noteq> CHR ''+'' \<Longrightarrow> c \<noteq> CHR ''%'' \<Longrightarrow> form_bytes (c # s) = map unat (utf8_char c) @ form_bytes s"
  by (cases "(c # s)" rule: form_bytes.cases) auto

lemma form_bytes_plus: "form_bytes (CHR ''+'' # s) = 32 # form_bytes s"
  by (cases "(CHR ''+'' # s)" rule: form_bytes.cases) auto

lemma form_bytes_percent: "b < 256 \<Longrightarrow> form_bytes (percent_byte b @ s) = b # form_bytes s"
  by (auto simp: percent_byte_cons)

lemma form_bytes_percents:
  "list_all (\<lambda>b. b < 256) bs \<Longrightarrow> form_bytes (concat (map percent_byte bs) @ s) = bs @ form_bytes s"
  by (induction bs) (simp_all add: form_bytes_percent)

lemma form_encode_cons:
  "form_encode (c # s) = (if c = CHR '' '' then ''+'' else if form_unreserved c then [c]
     else concat (map percent_byte (map unat (utf8_char c)))) @ form_encode s"
  by (simp add: form_encode_def comp_def)

lemma form_bytes_encode: "form_bytes (form_encode s) = concat (map (\<lambda>c. map unat (utf8_char c)) s)"
proof (induction s)
  case (Cons c s)
  consider "c = CHR '' ''" | "c \<noteq> CHR '' ''" "form_unreserved c" | "c \<noteq> CHR '' ''" "\<not> form_unreserved c" by blast
  then show ?case
  proof cases
    case 1
    have "map unat (utf8_char CHR '' '') = [32]" by code_simp
    then show ?thesis using 1 Cons by (simp add: form_encode_cons form_bytes_plus)
  next
    case 2
    then have "c \<noteq> CHR ''+''" "c \<noteq> CHR ''%''" by (auto simp: form_unreserved_def)
    then show ?thesis using 2 Cons by (simp add: form_encode_cons form_bytes_plain)
  next
    case 3
    then show ?thesis
      using Cons form_bytes_percents[OF utf8_char_bytes[of c]] by (simp add: form_encode_cons)
  qed
qed (simp add: form_encode_def)

lemma form_decode_encode [simp]: "form_decode (form_encode s) = s"
proof -
  have "utf8_string (concat (map (\<lambda>c. map unat (utf8_char c)) s)) = s"
    by (induction s) (simp_all add: utf8_string_char)
  then show ?thesis by (simp add: form_decode_def form_bytes_encode)
qed

definition form_char :: "char \<Rightarrow> bool" where
  "form_char c = (c \<noteq> CHR ''&'' \<and> c \<noteq> CHR ''='' \<and> c \<noteq> CHR ''?'')"

lemma hex_upper_form: "d < 16 \<Longrightarrow> form_char (hex_upper d)"
proof -
  have "hex_value CHR ''&'' = None" "hex_value CHR ''='' = None" "hex_value CHR ''?'' = None" by code_simp+
  moreover assume "d < 16"
  then have "hex_value (hex_upper d) = Some d" by simp
  ultimately show ?thesis by (auto simp: form_char_def)
qed

lemma percent_form:
  assumes "b < 256"
  shows "list_all form_char (percent_byte b)"
proof -
  have "b div 16 < 16" "b mod 16 < 16" using assms by auto
  then show ?thesis using hex_upper_form by (simp add: percent_byte_def) (simp add: form_char_def)
qed

lemma percents_form: "list_all (\<lambda>b. b < 256) bs \<Longrightarrow> list_all form_char (concat (map percent_byte bs))"
  by (induction bs) (simp_all add: percent_form)

lemma form_encode_chars: "list_all form_char (form_encode s)"
proof (induction s)
  case (Cons c s)
  have "form_unreserved c \<Longrightarrow> form_char c" by (auto simp: form_unreserved_def form_char_def)
  moreover have "form_char CHR ''+''" by (simp add: form_char_def)
  moreover note percents_form[OF utf8_char_bytes[of c]]
  ultimately show ?case using Cons unfolding form_encode_cons by (simp del: map_map)
qed (simp add: form_encode_def)

lemma form_pair_encoded [simp]: "form_pair (form_encode k @ CHR ''='' # form_encode v) = (k, v)"
proof -
  have "\<forall>c \<in> set (form_encode k). c \<noteq> CHR ''=''" using form_encode_chars[of k] by (auto simp: list_all_iff form_char_def)
  then have "takeWhile (\<lambda>c. c \<noteq> CHR ''='') (form_encode k @ CHR ''='' # form_encode v) = form_encode k"
    "dropWhile (\<lambda>c. c \<noteq> CHR ''='') (form_encode k @ CHR ''='' # form_encode v) = CHR ''='' # form_encode v"
    by (simp_all add: takeWhile_append2 dropWhile_append2)
  then show ?thesis by (simp add: form_pair_def)
qed

theorem form_roundtrip: "form_parse (form_text ps) = ps"
proof (cases "ps = []")
  case False
  let ?es = "map (\<lambda>(k, v). form_encode k @ ''='' @ form_encode v) ps"
  have amp: "list_all (\<lambda>p. CHR ''&'' \<notin> set p) ?es"
    using form_encode_chars by (fastforce simp: list_all_iff form_char_def)
  have "hd (form_text ps) \<noteq> CHR ''?''"
  proof -
    obtain k v qs where ps: "ps = (k, v) # qs" using False by (cases ps) auto
    have "list_all form_char (form_encode k)" by (rule form_encode_chars)
    then show ?thesis unfolding ps form_text_def
      by (cases "form_encode k"; cases qs) (auto simp: form_char_def)
  qed
  then have "(case form_text ps of c # cs \<Rightarrow> if c = CHR ''?'' then cs else form_text ps | [] \<Rightarrow> []) = form_text ps"
    by (cases "form_text ps") auto
  moreover have "split_on CHR ''&'' (form_text ps) = ?es"
    unfolding form_text_def using split_on_join[of ?es "CHR ''&''"] amp False by (simp add: list_all_iff)
  moreover have "filter (\<lambda>p. p \<noteq> []) ?es = ?es" by (auto simp: filter_id_conv)
  moreover have "map form_pair ?es = ps" by (induction ps) auto
  ultimately show ?thesis by (simp add: form_parse_def Let_def)
qed (simp add: form_text_def form_parse_def)

section \<open>Times\<close>

text \<open>The year, month and day of the \<open>n\<close>-th day after 1 January 1970 in the Gregorian calendar.\<close>

definition civil_date :: "int \<Rightarrow> int \<times> int \<times> int" where
  "civil_date n =
     (let z = n + 719468;
          era = z div 146097;
          doe = z mod 146097;
          yoe = (doe - doe div 1460 + doe div 36524 - doe div 146096) div 365;
          doy = doe - (365 * yoe + yoe div 4 - yoe div 100);
          mp = (5 * doy + 2) div 153;
          m = (if mp < 10 then mp + 3 else mp - 9)
      in (yoe + era * 400 + (if m \<le> 2 then 1 else 0), m, doy - (153 * mp + 2) div 5 + 1))"

definition padded :: "nat \<Rightarrow> int \<Rightarrow> string" where
  "padded w n = padStart w CHR ''0'' (string_of_int n)"

definition iso_year :: "int \<Rightarrow> string" where
  "iso_year y = (if 0 \<le> y \<and> y \<le> 9999 then padded 4 y
     else (if y < 0 then ''-'' else ''+'') @ padded 6 \<bar>y\<bar>)"

text \<open>\<open>new Date(ms).toISOString()\<close> throws outside the range of times.\<close>

definition toISOString :: "int \<Rightarrow> string result" where
  "toISOString ms =
     (if \<bar>ms\<bar> > 8640000000000000 then Inl (PlainError ''RangeError: Invalid time value'')
      else let days = ms div 86400000; t = ms mod 86400000; (y, m, d) = civil_date days
           in Inr (iso_year y @ ''-'' @ padded 2 m @ ''-'' @ padded 2 d @ ''T'' @ padded 2 (t div 3600000) @ '':'' @
                padded 2 (t div 60000 mod 60) @ '':'' @ padded 2 (t div 1000 mod 60) @ ''.'' @ padded 3 (t mod 1000) @ ''Z''))"

lemma iso_examples:
  "toISOString 0 = Inr ''1970-01-01T00:00:00.000Z''"
  "toISOString 951825599999 = Inr ''2000-02-29T11:59:59.999Z''"
  "toISOString (- 1) = Inr ''1969-12-31T23:59:59.999Z''"
  by code_simp+

end
