(* ===== verification/Wechat.thy ===== *)
theory Wechat
  imports WebText RateFeed PaymentService
begin

text \<open>
  \<^verbatim>\<open>src/providers/wechat\<close>: the WeChat Pay provider, with its request signing and the verification and
  decryption of notifications.

  RSA, AES and the HTTP client are parameters. What WeChat sends is read by its documented types: a field of
  another type than the documented one counts as absent, and an absent text that the code uses all the same
  is the text \<open>undefined\<close>, which is what its templates make of it.
\<close>

section \<open>Parameters\<close>

text \<open>
  What is used of \<open>node:crypto\<close> and of its buffers: signing and verifying with RSA over SHA-256, which throw for
  a key they cannot use, AES-256-GCM decryption of a key, nonce, tag, additional data and ciphertext, which
  throws for one that does not authenticate, and the bytes of a base64 text.
\<close>

record crypto =
  nc_sign :: "string \<Rightarrow> string \<Rightarrow> string result"
  nc_verify :: "string \<Rightarrow> string \<Rightarrow> string \<Rightarrow> bool result"
  nc_gcm :: "byte list \<Rightarrow> byte list \<Rightarrow> byte list \<Rightarrow> byte list \<Rightarrow> byte list \<Rightarrow> byte list result"
  nc_base64 :: "string \<Rightarrow> byte list"

text \<open>\<^verbatim>\<open>src/utils/crypto.ts\<close>\<close>

definition rsaSignSha256 :: "crypto \<Rightarrow> string \<Rightarrow> string \<Rightarrow> string result" where
  "rsaSignSha256 cy msg privateKeyPem = nc_sign cy msg privateKeyPem"

definition rsaVerifySha256 :: "crypto \<Rightarrow> string \<Rightarrow> string \<Rightarrow> string \<Rightarrow> bool" where
  "rsaVerifySha256 cy msg signatureB64 publicKeyPem =
     (case nc_verify cy msg signatureB64 publicKeyPem of Inr ok \<Rightarrow> ok | Inl err \<Rightarrow> False)"

text \<open>\<open>data.subarray(data.length - 16)\<close> counts from the end when the index is negative.\<close>

definition tag_start :: "byte list \<Rightarrow> nat" where
  "tag_start data = (if 16 \<le> length data then length data - 16 else 2 * length data - 16)"

definition aesGcmDecrypt :: "crypto \<Rightarrow> string \<Rightarrow> string \<Rightarrow> string \<Rightarrow> string \<Rightarrow> string result" where
  "aesGcmDecrypt cy apiV3Key nonce associatedData ciphertextB64 =
     (let data = nc_base64 cy ciphertextB64;
          authTag = drop (tag_start data) data;
          ciphertext = take (tag_start data) data
      in case nc_gcm cy (utf8 apiV3Key) (utf8 nonce) authTag (utf8 associatedData) ciphertext of
           Inl err \<Rightarrow> Inl err
         | Inr bytes \<Rightarrow> Inr (utf8_string (map unat bytes)))"

type_synonym http = "http_request \<Rightarrow> http_response result"

record wechat_config =
  wx_appId :: string
  wx_mchId :: string
  wx_privateKeyPem :: string
  wx_serialNo :: string
  wx_apiV3Key :: string
  wx_platformPublicKeyPem :: string
  wx_platformPublicKeyNext :: "string option"
  wx_notifyUrl :: string
  wx_apiBase :: string

text \<open>What one call of the provider gets: \<open>this.now()\<close>, \<open>Date.now()\<close> and \<open>nonceStr(32)\<close>.\<close>

record call =
  cl_now :: int
  cl_date :: int
  cl_nonce :: string

section \<open>Reading JSON\<close>

definition text_at :: "json \<Rightarrow> string \<Rightarrow> string option" where
  "text_at j k = (case json_field j k of Some (JStr s) \<Rightarrow> Some s | _ \<Rightarrow> None)"

definition or_undefined :: "string option \<Rightarrow> string" where
  "or_undefined t = (case t of None \<Rightarrow> ''undefined'' | Some s \<Rightarrow> s)"

text \<open>\<open>JSON.parse\<close> of a text whose properties are read next, which throws for \<open>null\<close>.\<close>

definition parse_object :: "string \<Rightarrow> json result" where
  "parse_object body =
     (case JSON_parse body of
        None \<Rightarrow> Inl (PlainError ''SyntaxError'')
      | Some j \<Rightarrow> if j = JNull then Inl (PlainError ''TypeError'') else Inr j)"

definition int_at :: "json \<Rightarrow> string \<Rightarrow> int option" where
  "int_at j k = (case json_field j k of Some (JNum i) \<Rightarrow> Some i | _ \<Rightarrow> None)"

text \<open>\<open>amount?.payer_total ?? amount?.total\<close>\<close>

definition paid_total :: "json \<Rightarrow> int option" where
  "paid_total amount = (case int_at amount ''payer_total'' of Some i \<Rightarrow> Some i | None \<Rightarrow> int_at amount ''total'')"

section \<open>Signatures\<close>

definition newline :: string where
  "newline = [CHR 0x0A]"

definition quoted :: "string \<Rightarrow> string" where
  "quoted s = [CHR 0x22] @ s @ [CHR 0x22]"

definition signing_message :: "string \<Rightarrow> string \<Rightarrow> string \<Rightarrow> string \<Rightarrow> string \<Rightarrow> string" where
  "signing_message meth urlPath timestamp nonce body =
     meth @ newline @ urlPath @ newline @ timestamp @ newline @ nonce @ newline @ body @ newline"

definition buildAuthorizationHeader ::
  "crypto \<Rightarrow> wechat_config \<Rightarrow> call \<Rightarrow> string \<Rightarrow> string \<Rightarrow> string \<Rightarrow> string result" where
  "buildAuthorizationHeader cy cfg cl meth urlPath body =
     (let timestamp = string_of_int (cl_date cl div 1000)
      in case rsaSignSha256 cy (signing_message meth urlPath timestamp (cl_nonce cl) body) (wx_privateKeyPem cfg) of
           Inl err \<Rightarrow> Inl err
         | Inr signature \<Rightarrow>
             Inr (''WECHATPAY2-SHA256-RSA2048 '' @ ''mchid='' @ quoted (wx_mchId cfg) @ '','' @
               ''nonce_str='' @ quoted (cl_nonce cl) @ '','' @ ''signature='' @ quoted signature @ '','' @
               ''timestamp='' @ quoted timestamp @ '','' @ ''serial_no='' @ quoted (wx_serialNo cfg)))"

definition notification_message :: "string \<Rightarrow> string \<Rightarrow> string \<Rightarrow> string" where
  "notification_message timestamp nonce body = timestamp @ newline @ nonce @ newline @ body @ newline"

definition verifyNotificationSignature :: "crypto \<Rightarrow> string \<Rightarrow> string \<Rightarrow> string \<Rightarrow> string \<Rightarrow> string \<Rightarrow> bool" where
  "verifyNotificationSignature cy timestamp nonce body signatureB64 pem =
     rsaVerifySha256 cy (notification_message timestamp nonce body) signatureB64 pem"

section \<open>Payments\<close>

definition NATIVE_PATH :: string where
  "NATIVE_PATH = ''/v3/pay/transactions/native''"

definition create_body :: "wechat_config \<Rightarrow> order \<Rightarrow> string \<Rightarrow> (string \<times> json) list" where
  "create_body cfg ord expires =
     [(''appid'', JStr (wx_appId cfg)), (''mchid'', JStr (wx_mchId cfg)), (''description'', JStr (''VPN plan '' @ o_planId ord)),
      (''out_trade_no'', JStr (o_outTradeNo ord)), (''notify_url'', JStr (wx_notifyUrl cfg)),
      (''amount'', JObj [(''total'', JNum (o_amount ord)), (''currency'', JStr ''CNY'')]), (''time_expire'', JStr expires)]"

definition wechat_createPayment :: "wechat_config \<Rightarrow> crypto \<Rightarrow> http \<Rightarrow> call \<Rightarrow> order \<Rightarrow> create_payment_result result" where
  "wechat_createPayment cfg cy http cl ord =
     (case toISOString (o_expiresAt ord) of Inl err \<Rightarrow> Inl err | Inr expires \<Rightarrow>
      let body = json_text (JObj (create_body cfg ord expires))
      in (case buildAuthorizationHeader cy cfg cl ''POST'' NATIVE_PATH body of Inl err \<Rightarrow> Inl err | Inr auth \<Rightarrow>
         (case http \<lparr>hq_method = ''POST'', hq_url = wx_apiBase cfg @ NATIVE_PATH,
              hq_headers = [(''Authorization'', auth), (''Accept'', ''application/json''), (''Content-Type'', ''application/json''),
                (''User-Agent'', ''vpn-payment-backend/1.0'')], hq_body = Some body\<rparr> of
            Inl err \<Rightarrow> Inl err
          | Inr ans \<Rightarrow>
              if hs_status ans \<noteq> 200
              then Inl (ProviderError (''wechat create payment failed ('' @ string_of_int (hs_status ans) @ '')''))
              else (case parse_object (hs_body ans) of Inl err \<Rightarrow> Inl err | Inr parsed \<Rightarrow>
                 if \<not> truthy (text_at parsed ''code_url'') then Inl (ProviderError ''wechat returned no code_url'')
                 else Inr \<lparr>c_method = Wechat, c_payTarget = the (text_at parsed ''code_url''), c_renderAs = Qrcode,
                   c_extra = [(''currency'', ''CNY'')]\<rparr>))))"

definition query_path :: "wechat_config \<Rightarrow> order \<Rightarrow> string" where
  "query_path cfg ord = ''/v3/pay/transactions/out-trade-no/'' @ o_outTradeNo ord @ ''?mchid='' @ wx_mchId cfg"

definition wechat_queryPayment :: "wechat_config \<Rightarrow> crypto \<Rightarrow> http \<Rightarrow> call \<Rightarrow> order \<Rightarrow> query_result result" where
  "wechat_queryPayment cfg cy http cl ord =
     (let path = query_path cfg ord
      in case buildAuthorizationHeader cy cfg cl ''GET'' path [] of Inl err \<Rightarrow> Inl err | Inr auth \<Rightarrow>
         (case http \<lparr>hq_method = ''GET'', hq_url = wx_apiBase cfg @ path,
              hq_headers = [(''Authorization'', auth), (''Accept'', ''application/json'')], hq_body = None\<rparr> of
            Inl err \<Rightarrow> Inl err
          | Inr ans \<Rightarrow>
              if hs_status ans \<noteq> 200
              then Inl (ProviderError (''wechat query failed ('' @ string_of_int (hs_status ans) @ '')''))
              else (case parse_object (hs_body ans) of Inl err \<Rightarrow> Inl err | Inr data \<Rightarrow>
                 Inr \<lparr>q_paid = (text_at data ''trade_state'' = Some ''SUCCESS''),
                   q_providerTxnId = text_at data ''transaction_id'',
                   q_paidAmount = (case json_field data ''amount'' of None \<Rightarrow> None | Some a \<Rightarrow> paid_total a),
                   q_rawStatus = or_undefined (text_at data ''trade_state'')\<rparr>)))"

section \<open>Notifications\<close>

definition MAX_CLOCK_SKEW_SECONDS :: rat where
  "MAX_CLOCK_SKEW_SECONDS = 300"

text \<open>\<open>Math.abs(this.now() / 1000 - Number(timestamp))\<close>, unless it is not finite.\<close>

definition clock_skew :: "int \<Rightarrow> string \<Rightarrow> rat option" where
  "clock_skew now timestamp =
     (case (num_div (Fin (of_int now)) (Fin 1000), js_number_of timestamp) of
        (Fin a, Fin b) \<Rightarrow> (case of_exact (a - b) of Fin q \<Rightarrow> Some \<bar>q\<bar> | _ \<Rightarrow> None)
      | _ \<Rightarrow> None)"

definition platform_keys :: "wechat_config \<Rightarrow> string list" where
  "platform_keys cfg = map the (filter truthy [Some (wx_platformPublicKeyPem cfg), wx_platformPublicKeyNext cfg])"

text \<open>The checks of \<open>verifyAndDecrypt\<close> up to the signature.\<close>

definition authentic_headers :: "wechat_config \<Rightarrow> crypto \<Rightarrow> call \<Rightarrow> raw_callback \<Rightarrow> unit result" where
  "authentic_headers cfg cy cl cb =
     (let timestamp = jm_get (raw_headers cb) ''wechatpay-timestamp'';
          nonce = jm_get (raw_headers cb) ''wechatpay-nonce'';
          signature = jm_get (raw_headers cb) ''wechatpay-signature''
      in if \<not> truthy timestamp \<or> \<not> truthy nonce \<or> \<not> truthy signature
         then Inl (SignatureError ''missing WeChat signature headers'')
         else if (case clock_skew (cl_now cl) (the timestamp) of None \<Rightarrow> True | Some skew \<Rightarrow> skew > MAX_CLOCK_SKEW_SECONDS)
         then Inl (SignatureError ''WeChat notification timestamp out of range'')
         else if \<not> (\<exists>pem \<in> set (platform_keys cfg).
             verifyNotificationSignature cy (the timestamp) (the nonce) (raw_body cb) (the signature) pem)
         then Inl (SignatureError ''WeChat notification signature invalid'')
         else Inr ())"

text \<open>The resource's fields go into \<open>Buffer.from\<close> and the cipher, which throw when one is missing.\<close>

definition decrypted :: "wechat_config \<Rightarrow> crypto \<Rightarrow> json \<Rightarrow> json result" where
  "decrypted cfg cy resource =
     (case (text_at resource ''nonce'', text_at resource ''associated_data'', text_at resource ''ciphertext'') of
        (Some nonce, Some aad, Some ciphertext) \<Rightarrow>
          (case aesGcmDecrypt cy (wx_apiV3Key cfg) nonce aad ciphertext of
             Inl err \<Rightarrow> Inl err
           | Inr plaintext \<Rightarrow> parse_object plaintext)
      | _ \<Rightarrow> Inl (PlainError ''TypeError''))"

definition verifyAndDecrypt :: "wechat_config \<Rightarrow> crypto \<Rightarrow> call \<Rightarrow> raw_callback \<Rightarrow> (string \<times> json) result" where
  "verifyAndDecrypt cfg cy cl cb =
     (case authentic_headers cfg cy cl cb of Inl err \<Rightarrow> Inl err | Inr _ \<Rightarrow>
     (case parse_object (raw_body cb) of Inl err \<Rightarrow> Inl err | Inr envelope \<Rightarrow>
     (case json_field envelope ''resource'' of
        None \<Rightarrow> Inl (PlainError ''TypeError'')
      | Some resource \<Rightarrow>
          (case decrypted cfg cy resource of
             Inl err \<Rightarrow> Inl err
           | Inr data \<Rightarrow> Inr (or_undefined (text_at envelope ''id''), data)))))"

text \<open>
  A payment's notification has its amount in integers. One with neither total has the amount \<open>undefined\<close>
  (\<open>None\<close>), with which the code goes on.
\<close>

definition wechat_verifyCallback :: "wechat_config \<Rightarrow> crypto \<Rightarrow> call \<Rightarrow> raw_callback \<Rightarrow> callback_result result" where
  "wechat_verifyCallback cfg cy cl cb =
     (case verifyAndDecrypt cfg cy cl cb of Inl err \<Rightarrow> Inl err | Inr (eventId, d) \<Rightarrow>
      (case json_field d ''amount'' of
         None \<Rightarrow> Inl (PlainError ''TypeError'')
       | Some amount \<Rightarrow>
           if amount = JNull then Inl (PlainError ''TypeError'')
           else Inr \<lparr>cb_outTradeNo = or_undefined (text_at d ''out_trade_no''),
             cb_providerTxnId = or_undefined (text_at d ''transaction_id''),
             cb_paid = (text_at d ''trade_state'' = Some ''SUCCESS''), cb_paidAmount = paid_total amount, cb_currency = CNY,
             cb_eventId = eventId, cb_rawStatus = or_undefined (text_at d ''trade_state'')\<rparr>))"

definition wechat_verifyRefundCallback ::
  "wechat_config \<Rightarrow> crypto \<Rightarrow> call \<Rightarrow> raw_callback \<Rightarrow> refund_callback_result result" where
  "wechat_verifyRefundCallback cfg cy cl cb =
     (case verifyAndDecrypt cfg cy cl cb of Inl err \<Rightarrow> Inl err | Inr (eventId, d) \<Rightarrow>
        Inr \<lparr>rc_outRefundNo = or_undefined (text_at d ''out_refund_no''), rc_outTradeNo = or_undefined (text_at d ''out_trade_no''),
          rc_providerRefundId = or_undefined (text_at d ''refund_id''), rc_success = (text_at d ''refund_status'' = Some ''SUCCESS''),
          rc_eventId = eventId, rc_rawStatus = or_undefined (text_at d ''refund_status'')\<rparr>)"

definition wechat_callbackAck :: "bool \<Rightarrow> callback_ack" where
  "wechat_callbackAck success =
     (if success
      then \<lparr>ack_status = 200, ack_contentType = ''application/json'',
        ack_body = json_text (JObj [(''code'', JStr ''SUCCESS''), (''message'', JStr ''OK'')])\<rparr>
      else \<lparr>ack_status = 500, ack_contentType = ''application/json'',
        ack_body = json_text (JObj [(''code'', JStr ''FAIL''), (''message'', JStr ''FAILED'')])\<rparr>)"

section \<open>Refunds\<close>

definition REFUND_PATH :: string where
  "REFUND_PATH = ''/v3/refund/domestic/refunds''"

definition refund_body :: "wechat_config \<Rightarrow> order \<Rightarrow> refund_request \<Rightarrow> (string \<times> json) list" where
  "refund_body cfg ord req =
     [(''out_trade_no'', JStr (o_outTradeNo ord)), (''out_refund_no'', JStr (rq_outRefundNo req))] @
     opt_field ''reason'' JStr (rq_reason req) @
     [(''notify_url'', JStr (wx_notifyUrl cfg)),
      (''amount'', JObj [(''refund'', JNum (rq_amount req)), (''total'', JNum (rq_totalAmount req)), (''currency'', JStr ''CNY'')])]"

definition wechat_refund_status :: "string option \<Rightarrow> refund_status" where
  "wechat_refund_status st =
     (if st = Some ''SUCCESS'' then R_SUCCESS else if st = Some ''PROCESSING'' then R_PENDING else R_FAILED)"

definition wechat_refund :: "wechat_config \<Rightarrow> crypto \<Rightarrow> http \<Rightarrow> call \<Rightarrow> order \<Rightarrow> refund_request \<Rightarrow> refund_result result" where
  "wechat_refund cfg cy http cl ord req =
     (let body = json_text (JObj (refund_body cfg ord req))
      in case buildAuthorizationHeader cy cfg cl ''POST'' REFUND_PATH body of Inl err \<Rightarrow> Inl err | Inr auth \<Rightarrow>
         (case http \<lparr>hq_method = ''POST'', hq_url = wx_apiBase cfg @ REFUND_PATH,
              hq_headers = [(''Authorization'', auth), (''Accept'', ''application/json''), (''Content-Type'', ''application/json'')],
              hq_body = Some body\<rparr> of
            Inl err \<Rightarrow> Inl err
          | Inr ans \<Rightarrow>
              if hs_status ans \<noteq> 200
              then Inl (ProviderError (''wechat refund failed ('' @ string_of_int (hs_status ans) @ '')''))
              else (case parse_object (hs_body ans) of Inl err \<Rightarrow> Inl err | Inr data \<Rightarrow>
                 Inr \<lparr>rr_providerRefundId = text_at data ''refund_id'', rr_status = wechat_refund_status (text_at data ''status''),
                   rr_rawStatus = (case text_at data ''status'' of None \<Rightarrow> ''UNKNOWN'' | Some st \<Rightarrow> st)\<rparr>)))"

definition WechatPayProvider :: "wechat_config \<Rightarrow> crypto \<Rightarrow> http \<Rightarrow> call \<Rightarrow> payment_provider" where
  "WechatPayProvider cfg cy http cl =
     \<lparr>pp_createPayment = wechat_createPayment cfg cy http cl, pp_verifyCallback = wechat_verifyCallback cfg cy cl,
      pp_queryPayment = wechat_queryPayment cfg cy http cl, pp_callbackAck = wechat_callbackAck,
      pp_refund = Some (wechat_refund cfg cy http cl),
      pp_verifyRefundCallback = Some (wechat_verifyRefundCallback cfg cy cl)\<rparr>"

end
