(* ===== verification/Alipay.thy ===== *)
theory Alipay
  imports Wechat
begin

text \<open>
  \<^verbatim>\<open>src/providers/alipay\<close>: the Alipay provider, with the RSA2 signing of parameters. The text of the local
  time in a request is a parameter of the call; what Alipay sends is read as in \<open>Wechat\<close>.
\<close>

record alipay_config =
  al_appId :: string
  al_privateKeyPem :: string
  al_alipayPublicKeyPem :: string
  al_notifyUrl :: string
  al_gateway :: string
  al_signType :: string

type_synonym params = "(string, string) jsmap"

section \<open>Signatures\<close>

definition param_at :: "params \<Rightarrow> string \<Rightarrow> string" where
  "param_at ps k = or_undefined (jm_get ps k)"

definition signed_key :: "params \<Rightarrow> string \<Rightarrow> bool" where
  "signed_key ps k = (k \<noteq> ''sign'' \<and> k \<noteq> ''sign_type'' \<and> truthy (jm_get ps k))"

definition buildSignContent :: "params \<Rightarrow> string" where
  "buildSignContent ps =
     join_with ''&'' (map (\<lambda>k. k @ ''='' @ param_at ps k) (sort (filter (signed_key ps) (map fst ps))))"

definition signParams :: "crypto \<Rightarrow> params \<Rightarrow> string \<Rightarrow> string result" where
  "signParams cy ps privateKeyPem = rsaSignSha256 cy (buildSignContent ps) privateKeyPem"

definition verifyParams :: "crypto \<Rightarrow> params \<Rightarrow> string \<Rightarrow> bool" where
  "verifyParams cy ps pem =
     (let sign = jm_get ps ''sign''
      in if \<not> truthy sign then False else rsaVerifySha256 cy (buildSignContent ps) (the sign) pem)"

section \<open>Requests\<close>

definition commonParams :: "alipay_config \<Rightarrow> string \<Rightarrow> string \<Rightarrow> (string \<times> json) list \<Rightarrow> params" where
  "commonParams cfg timestamp meth bizContent =
     [(''app_id'', al_appId cfg), (''method'', meth), (''format'', ''JSON''), (''charset'', ''utf-8''),
      (''sign_type'', al_signType cfg), (''timestamp'', timestamp), (''version'', ''1.0''),
      (''notify_url'', al_notifyUrl cfg), (''biz_content'', json_text (JObj bizContent))]"

text \<open>The parameters with their signature, as the body that is posted.\<close>

definition signed_params :: "alipay_config \<Rightarrow> crypto \<Rightarrow> params \<Rightarrow> params result" where
  "signed_params cfg cy ps =
     (case signParams cy ps (al_privateKeyPem cfg) of Inl err \<Rightarrow> Inl err | Inr sig \<Rightarrow> Inr (jm_set ''sign'' sig ps))"

definition post_params :: "alipay_config \<Rightarrow> http \<Rightarrow> params \<Rightarrow> http_response result" where
  "post_params cfg http ps =
     http \<lparr>hq_method = ''POST'', hq_url = al_gateway cfg,
       hq_headers = [(''Content-Type'', ''application/x-www-form-urlencoded;charset=utf-8'')], hq_body = Some (form_text ps)\<rparr>"

text \<open>Sign, post, and read the answer's object; \<open>what\<close> names the request in the error.\<close>

definition alipay_request ::
  "alipay_config \<Rightarrow> crypto \<Rightarrow> http \<Rightarrow> string \<Rightarrow> string \<Rightarrow> string \<Rightarrow> (string \<times> json) list \<Rightarrow> json result" where
  "alipay_request cfg cy http timestamp what meth bizContent =
     (case signed_params cfg cy (commonParams cfg timestamp meth bizContent) of Inl err \<Rightarrow> Inl err | Inr ps \<Rightarrow>
     (case post_params cfg http ps of
        Inl err \<Rightarrow> Inl err
      | Inr ans \<Rightarrow>
          if hs_status ans \<noteq> 200 then Inl (ProviderError (''alipay '' @ what @ '' failed ('' @ string_of_int (hs_status ans) @ '')''))
          else parse_object (hs_body ans)))"

section \<open>Payments\<close>

definition alipay_createPayment :: "alipay_config \<Rightarrow> crypto \<Rightarrow> http \<Rightarrow> string \<Rightarrow> order \<Rightarrow> create_payment_result result" where
  "alipay_createPayment cfg cy http timestamp ord =
     (case fromMinorUnits (o_amount ord) CNY of Inl err \<Rightarrow> Inl err | Inr amount \<Rightarrow>
     (case alipay_request cfg cy http timestamp ''precreate'' ''alipay.trade.precreate''
         [(''out_trade_no'', JStr (o_outTradeNo ord)), (''total_amount'', JStr amount),
          (''subject'', JStr (''VPN plan '' @ o_planId ord))] of
        Inl err \<Rightarrow> Inl err
      | Inr parsed \<Rightarrow>
          let r = (case json_field parsed ''alipay_trade_precreate_response'' of None \<Rightarrow> JNull | Some r \<Rightarrow> r)
          in if text_at r ''code'' \<noteq> Some ''10000'' \<or> \<not> truthy (text_at r ''qr_code'')
             then Inl (ProviderError (''alipay precreate rejected: '' @
               (case text_at r ''msg'' of None \<Rightarrow> ''unknown'' | Some m \<Rightarrow> m)))
             else Inr \<lparr>c_method = Alipay, c_payTarget = the (text_at r ''qr_code''), c_renderAs = Qrcode,
               c_extra = [(''currency'', ''CNY'')]\<rparr>))"

definition trade_paid :: "string \<Rightarrow> bool" where
  "trade_paid status = (status = ''TRADE_SUCCESS'' \<or> status = ''TRADE_FINISHED'')"

definition alipay_queryPayment :: "alipay_config \<Rightarrow> crypto \<Rightarrow> http \<Rightarrow> string \<Rightarrow> order \<Rightarrow> query_result result" where
  "alipay_queryPayment cfg cy http timestamp ord =
     (case alipay_request cfg cy http timestamp ''query'' ''alipay.trade.query'' [(''out_trade_no'', JStr (o_outTradeNo ord))] of
        Inl err \<Rightarrow> Inl err
      | Inr parsed \<Rightarrow>
          let r = (case json_field parsed ''alipay_trade_query_response'' of None \<Rightarrow> JObj [] | Some r \<Rightarrow> r);
              status = (case text_at r ''trade_status'' of None \<Rightarrow> [] | Some s \<Rightarrow> s);
              amount = text_at r ''total_amount''
          in case (if truthy amount then map_sum id Some (toMinorUnits (MoneyStr (the amount)) CNY) else Inr None) of
               Inl err \<Rightarrow> Inl err
             | Inr paidAmount \<Rightarrow> Inr \<lparr>q_paid = trade_paid status, q_providerTxnId = text_at r ''trade_no'',
                 q_paidAmount = paidAmount, q_rawStatus = status\<rparr>)"

section \<open>Notifications\<close>

text \<open>The parameters of a form body: a later one of the same name replaces an earlier one.\<close>

definition form_params :: "string \<Rightarrow> params" where
  "form_params body = foldl (\<lambda>ps (k, v). jm_set k v ps) [] (form_parse body)"

definition alipay_verifyCallback :: "alipay_config \<Rightarrow> crypto \<Rightarrow> raw_callback \<Rightarrow> callback_result result" where
  "alipay_verifyCallback cfg cy cb =
     (let ps = form_params (raw_body cb)
      in if \<not> verifyParams cy ps (al_alipayPublicKeyPem cfg)
         then Inl (SignatureError ''alipay notification signature invalid'')
         else if truthy (jm_get ps ''app_id'') \<and> jm_get ps ''app_id'' \<noteq> Some (al_appId cfg)
         then Inl (SignatureError ''alipay app_id mismatch'')
         else let status = (case jm_get ps ''trade_status'' of None \<Rightarrow> [] | Some s \<Rightarrow> s);
                  amount = jm_get ps ''total_amount''
              in case (if truthy amount then toMinorUnits (MoneyStr (the amount)) CNY else Inr 0) of
                   Inl err \<Rightarrow> Inl err
                 | Inr paidAmount \<Rightarrow>
                     Inr \<lparr>cb_outTradeNo = param_at ps ''out_trade_no'', cb_providerTxnId = param_at ps ''trade_no'',
                       cb_paid = trade_paid status, cb_paidAmount = Some paidAmount, cb_currency = CNY,
                       cb_eventId = (if truthy (jm_get ps ''notify_id'') then the (jm_get ps ''notify_id'')
                         else param_at ps ''trade_no'' @ '':'' @ status),
                       cb_rawStatus = status\<rparr>)"

definition alipay_callbackAck :: "bool \<Rightarrow> callback_ack" where
  "alipay_callbackAck success =
     \<lparr>ack_status = 200, ack_contentType = ''text/plain'', ack_body = (if success then ''success'' else ''failure'')\<rparr>"

section \<open>Refunds\<close>

definition alipay_refund :: "alipay_config \<Rightarrow> crypto \<Rightarrow> http \<Rightarrow> string \<Rightarrow> order \<Rightarrow> refund_request \<Rightarrow> refund_result result" where
  "alipay_refund cfg cy http timestamp ord req =
     (case fromMinorUnits (rq_amount req) CNY of Inl err \<Rightarrow> Inl err | Inr amount \<Rightarrow>
     (case alipay_request cfg cy http timestamp ''refund'' ''alipay.trade.refund''
         ([(''out_trade_no'', JStr (o_outTradeNo ord)), (''refund_amount'', JStr amount),
           (''out_request_no'', JStr (rq_outRefundNo req))] @ opt_field ''refund_reason'' JStr (rq_reason req)) of
        Inl err \<Rightarrow> Inl err
      | Inr parsed \<Rightarrow>
          let r = (case json_field parsed ''alipay_trade_refund_response'' of None \<Rightarrow> JNull | Some r \<Rightarrow> r)
          in if text_at r ''code'' \<noteq> Some ''10000''
             then Inl (ProviderError (''alipay refund rejected: '' @ (case text_at r ''msg'' of None \<Rightarrow> ''unknown'' | Some m \<Rightarrow> m)))
             else Inr \<lparr>rr_providerRefundId = text_at r ''trade_no'', rr_status = R_SUCCESS,
               rr_rawStatus = (case text_at r ''fund_change'' of None \<Rightarrow> ''Y'' | Some x \<Rightarrow> x)\<rparr>))"

definition AlipayProvider :: "alipay_config \<Rightarrow> crypto \<Rightarrow> http \<Rightarrow> string \<Rightarrow> payment_provider" where
  "AlipayProvider cfg cy http timestamp =
     \<lparr>pp_createPayment = alipay_createPayment cfg cy http timestamp, pp_verifyCallback = alipay_verifyCallback cfg cy,
      pp_queryPayment = alipay_queryPayment cfg cy http timestamp, pp_callbackAck = alipay_callbackAck,
      pp_refund = Some (alipay_refund cfg cy http timestamp), pp_verifyRefundCallback = None\<rparr>"

section \<open>Signing and verifying\<close>

lemma signed_key_sign: "signed_key (jm_set ''sign'' sig ps) k = signed_key ps k"
  by (simp add: signed_key_def)

lemma sign_content_sign: "buildSignContent (jm_set ''sign'' sig ps) = buildSignContent ps"
proof -
  have no: "\<not> signed_key ps ''sign''" by (simp add: signed_key_def)
  have "filter (signed_key (jm_set ''sign'' sig ps)) (map fst (jm_set ''sign'' sig ps)) = filter (signed_key ps) (map fst ps)"
    using no by (simp add: signed_key_sign[abs_def] update_keys)
  moreover have "param_at (jm_set ''sign'' sig ps) k = param_at ps k" if "signed_key ps k" for k
    using that by (auto simp: param_at_def signed_key_def)
  ultimately show ?thesis
    unfolding buildSignContent_def by (intro arg_cong[where f = "join_with ''&''"] map_cong) auto
qed

lemma form_params_text: "distinct (map fst ps) \<Longrightarrow> form_params (form_text ps) = ps"
  using foldl_jm_set[of "[]" ps] by (simp add: form_params_def form_roundtrip)

text \<open>A pair of keys: what is signed with the one is verified with the other.\<close>

definition key_pair :: "crypto \<Rightarrow> string \<Rightarrow> string \<Rightarrow> bool" where
  "key_pair cy priv pub = (\<forall>m. \<exists>sig. rsaSignSha256 cy m priv = Inr sig \<and> sig \<noteq> [] \<and> rsaVerifySha256 cy m sig pub)"

text \<open>
  Alipay can verify what is sent to it. For every request the service makes, the form body it posts, read
  back parameter by parameter as a receiver does, carries a signature that verifies under the merchant's
  public key: signing the raw values, escaping them and reading them again agree.
\<close>

theorem alipay_request_verifies:
  assumes "key_pair cy (al_privateKeyPem cfg) pub"
  shows "\<exists>ps. signed_params cfg cy (commonParams cfg timestamp meth biz) = Inr ps \<and>
    verifyParams cy (form_params (form_text ps)) pub \<and>
    (\<forall>k. k \<noteq> ''sign'' \<longrightarrow> jm_get (form_params (form_text ps)) k = jm_get (commonParams cfg timestamp meth biz) k)"
proof -
  let ?c = "commonParams cfg timestamp meth biz"
  obtain sig where sig: "rsaSignSha256 cy (buildSignContent ?c) (al_privateKeyPem cfg) = Inr sig" "sig \<noteq> []"
    "rsaVerifySha256 cy (buildSignContent ?c) sig pub"
    using assms unfolding key_pair_def by blast
  let ?ps = "jm_set ''sign'' sig ?c"
  have "distinct (map fst ?c)" by (simp add: commonParams_def)
  then have "distinct (map fst ?ps)" by (rule distinct_update)
  then have read: "form_params (form_text ?ps) = ?ps" by (rule form_params_text)
  have "signed_params cfg cy ?c = Inr ?ps" using sig(1) by (simp add: signed_params_def signParams_def)
  moreover have "verifyParams cy ?ps pub" using sig by (simp add: verifyParams_def sign_content_sign Let_def)
  ultimately show ?thesis by (intro exI[of _ ?ps]) (simp add: read)
qed

definition demo_crypto :: crypto where
  "demo_crypto = \<lparr>nc_sign = (\<lambda>m pem. Inr (pem @ '':'' @ m)), nc_verify = (\<lambda>m sig pem. Inr (sig = pem @ '':'' @ m)),
     nc_gcm = (\<lambda>key iv tag aad c. Inr c), nc_base64 = (\<lambda>s. utf8 s @ replicate 16 0)\<rparr>"

definition demo_alipay :: alipay_config where
  "demo_alipay = \<lparr>al_appId = ''app1'', al_privateKeyPem = ''key'', al_alipayPublicKeyPem = ''pub'',
     al_notifyUrl = ''https://shop.example/api/notify/alipay'', al_gateway = ''https://openapi.alipay.com/gateway.do'', al_signType = ''RSA2''\<rparr>"

theorem alipay_request_verifies_witness:
  "\<exists>ps. signed_params demo_alipay demo_crypto (commonParams demo_alipay ''2024-05-01 10:00:00'' ''alipay.trade.query''
      [(''out_trade_no'', JStr ''VPN&1'')]) = Inr ps \<and> verifyParams demo_crypto (form_params (form_text ps)) ''key''"
proof -
  have "key_pair demo_crypto (al_privateKeyPem demo_alipay) ''key''"
    by (simp add: key_pair_def demo_crypto_def rsaSignSha256_def rsaVerifySha256_def demo_alipay_def)
  from alipay_request_verifies[OF this] show ?thesis by blast
qed

section \<open>What a signature covers\<close>

text \<open>Parameters whose texts cannot be confused with the separators.\<close>

definition separable :: "params \<Rightarrow> bool" where
  "separable ps = (\<forall>(k, v) \<in> set ps. CHR ''='' \<notin> set k \<and> CHR ''&'' \<notin> set k \<and> CHR ''&'' \<notin> set v)"

definition signed_value :: "params \<Rightarrow> string \<Rightarrow> string option" where
  "signed_value ps k = (if signed_key ps k then jm_get ps k else None)"

definition content_item :: "params \<Rightarrow> string \<Rightarrow> string" where
  "content_item ps k = k @ CHR ''='' # param_at ps k"

lemma separable_get: "separable ps \<Longrightarrow> jm_get ps k = Some v \<Longrightarrow> CHR ''='' \<notin> set k \<and> CHR ''&'' \<notin> set k \<and> CHR ''&'' \<notin> set v"
  unfolding separable_def by (auto dest: map_of_SomeD)

lemma signed_key_get:
  assumes "signed_key ps k"
  obtains v where "jm_get ps k = Some v" "v \<noteq> []" "param_at ps k = v"
  using assms by (auto simp: signed_key_def truthy_def param_at_def or_undefined_def split: option.splits)

definition signed_keys :: "params \<Rightarrow> string list" where
  "signed_keys ps = sort (filter (signed_key ps) (map fst ps))"

lemma signed_keys_set: "k \<in> set (signed_keys ps) \<longleftrightarrow> signed_key ps k"
proof -
  have "signed_key ps k \<Longrightarrow> k \<in> set (map fst ps)"
    by (auto elim!: signed_key_get dest!: map_of_SomeD intro: rev_image_eqI)
  then show ?thesis by (auto simp: signed_keys_def)
qed

lemma content_items: "buildSignContent ps = join_with ''&'' (map (content_item ps) (signed_keys ps))"
  unfolding buildSignContent_def signed_keys_def content_item_def by simp

lemma items_separable:
  assumes "separable ps"
  shows "list_all (\<lambda>p. CHR ''&'' \<notin> set p) (map (content_item ps) (signed_keys ps))"
proof -
  have "CHR ''&'' \<notin> set (content_item ps k)" if sk: "signed_key ps k" for k
  proof -
    obtain v where "jm_get ps k = Some v" "param_at ps k = v" using signed_key_get[OF sk] by blast
    then show ?thesis using separable_get[OF assms] by (simp add: content_item_def)
  qed
  then show ?thesis by (auto simp: list_all_iff signed_keys_set)
qed

lemma item_parts:
  assumes "separable ps" "signed_key ps k"
  shows "takeWhile (\<lambda>c. c \<noteq> CHR ''='') (content_item ps k) = k"
    "drop 1 (dropWhile (\<lambda>c. c \<noteq> CHR ''='') (content_item ps k)) = param_at ps k"
proof -
  obtain v where "jm_get ps k = Some v" using signed_key_get[OF assms(2)] by blast
  then have "\<forall>c \<in> set k. c \<noteq> CHR ''=''" using separable_get[OF assms(1)] by blast
  then show "takeWhile (\<lambda>c. c \<noteq> CHR ''='') (content_item ps k) = k"
    "drop 1 (dropWhile (\<lambda>c. c \<noteq> CHR ''='') (content_item ps k)) = param_at ps k"
    by (simp_all add: content_item_def takeWhile_append2 dropWhile_append2)
qed

lemma join_inj:
  assumes "list_all (\<lambda>p. CHR ''&'' \<notin> set p \<and> p \<noteq> []) xs" "list_all (\<lambda>p. CHR ''&'' \<notin> set p \<and> p \<noteq> []) ys"
    and "join_with ''&'' xs = join_with ''&'' ys"
  shows "xs = ys"
proof -
  have sp: "zs \<noteq> [] \<Longrightarrow> split_on CHR ''&'' (join_with ''&'' zs) = zs" if "list_all (\<lambda>p. CHR ''&'' \<notin> set p \<and> p \<noteq> []) zs" for zs
    using that by (intro split_on_join) (simp_all add: list_all_iff)
  have ne: "zs \<noteq> [] \<Longrightarrow> join_with ''&'' zs \<noteq> []" if "list_all (\<lambda>p. CHR ''&'' \<notin> set p \<and> p \<noteq> []) zs" for zs
    using that by (cases zs; cases "tl zs") auto
  have em: "join_with ''&'' [] = []" by simp
  show ?thesis
  proof (cases "xs = [] \<or> ys = []")
    case True
    then show ?thesis using ne[OF assms(1)] ne[OF assms(2)] assms(3) em by metis
  next
    case False
    then show ?thesis using sp[OF assms(1)] sp[OF assms(2)] assms(3) by metis
  qed
qed

text \<open>
  The signature covers every parameter that has a value. Two notifications whose texts do not contain the
  separators and that have the same signed content agree on every parameter but the signature's own two, when
  one with an empty value counts as absent: such parameters are not signed, and can be added or dropped.
\<close>

theorem alipay_signature_covers:
  assumes "separable ps" "separable ps'" "buildSignContent ps = buildSignContent ps'"
  shows "signed_value ps k = signed_value ps' k"
proof -
  let ?i = "\<lambda>qs. map (content_item qs) (signed_keys qs)"
  have all: "list_all (\<lambda>p. CHR ''&'' \<notin> set p \<and> p \<noteq> []) (?i qs)" if "separable qs" for qs
    using items_separable[OF that] by (simp add: list_all_iff content_item_def)
  have items: "?i ps = ?i ps'"
    using join_inj[OF all[OF assms(1)] all[OF assms(2)]] assms(3) by (simp add: content_items)
  have into: "signed_key qs' j \<and> param_at qs' j = param_at qs j"
    if "signed_key qs j" "separable qs" "separable qs'" "?i qs = ?i qs'" for qs qs' j
  proof -
    have "content_item qs j \<in> set (?i qs')" using that(1) unfolding that(4)[symmetric] by (simp add: signed_keys_set)
    then obtain j' where j': "signed_key qs' j'" "content_item qs j = content_item qs' j'" by (auto simp: signed_keys_set)
    have "j = j'" "param_at qs j = param_at qs' j'"
      using item_parts[OF that(2,1)] item_parts[OF that(3) j'(1)] unfolding j'(2) by simp_all
    then show ?thesis using j'(1) by simp
  qed
  have val: "signed_key qs j \<Longrightarrow> signed_value qs j = Some (param_at qs j)" for qs j
    by (auto simp: signed_value_def elim: signed_key_get)
  show ?thesis
  proof (cases "signed_key ps k")
    case True
    then show ?thesis using into[OF True assms(1,2) items] val by simp
  next
    case False
    then have "\<not> signed_key ps' k" using into[OF _ assms(2,1) items[symmetric]] by blast
    then show ?thesis using False by (simp add: signed_value_def)
  qed
qed

theorem alipay_signature_covers_witness:
  "signed_value [(''b'', ''2''), (''sign'', ''x''), (''a'', ''1'')] ''a'' = signed_value [(''a'', ''1''), (''b'', ''2'')] ''a''"
proof (rule alipay_signature_covers)
  show "buildSignContent [(''b'', ''2''), (''sign'', ''x''), (''a'', ''1'')] = buildSignContent [(''a'', ''1''), (''b'', ''2'')]"
    by code_simp
qed (simp_all add: separable_def)

text \<open>With the separators in a text the content is ambiguous: one parameter can stand for two.\<close>

lemma alipay_content_ambiguous:
  "buildSignContent [(''a'', ''1''), (''b'', ''2'')] = buildSignContent [(''a'', ''1&b=2'')]"
  by code_simp

end
