(* ===== verification/ProviderProps.thy ===== *)
theory ProviderProps
  imports Alipay RefundService
begin

text \<open>
  The providers in the services: what a notification must be for the payment service to act on it, what it
  takes from it, and where the results of refunds go.
\<close>

section \<open>WeChat\<close>

text \<open>
  A notification is authentic when its three headers are there, its time is within the tolerance of the
  clock, and its signature over time, nonce and body verifies under a configured platform certificate.
\<close>

definition wechat_authentic :: "wechat_config \<Rightarrow> crypto \<Rightarrow> call \<Rightarrow> raw_callback \<Rightarrow> bool" where
  "wechat_authentic cfg cy cl cb =
     (\<exists>timestamp nonce sig pem skew.
        jm_get (raw_headers cb) ''wechatpay-timestamp'' = Some timestamp \<and> jm_get (raw_headers cb) ''wechatpay-nonce'' = Some nonce \<and>
        jm_get (raw_headers cb) ''wechatpay-signature'' = Some sig \<and>
        (pem = wx_platformPublicKeyPem cfg \<or> wx_platformPublicKeyNext cfg = Some pem) \<and> pem \<noteq> [] \<and>
        rsaVerifySha256 cy (notification_message timestamp nonce (raw_body cb)) sig pem \<and>
        clock_skew (cl_now cl) timestamp = Some skew \<and> skew \<le> 300)"

lemma platform_keys_set:
  "pem \<in> set (platform_keys cfg) \<longleftrightarrow> (pem = wx_platformPublicKeyPem cfg \<or> wx_platformPublicKeyNext cfg = Some pem) \<and> pem \<noteq> []"
  by (cases "wx_platformPublicKeyNext cfg") (auto simp: platform_keys_def truthy_def)

lemma truthy_Some: "truthy x \<Longrightarrow> x = Some (the x)"
  by (cases x) (simp_all add: truthy_def)

lemma authentic_headersD:
  assumes "authentic_headers cfg cy cl cb = Inr u"
  shows "wechat_authentic cfg cy cl cb"
proof -
  let ?get = "\<lambda>k. jm_get (raw_headers cb) k"
  have t: "truthy (?get ''wechatpay-timestamp'')" "truthy (?get ''wechatpay-nonce'')" "truthy (?get ''wechatpay-signature'')"
    and skew: "\<not> (case clock_skew (cl_now cl) (the (?get ''wechatpay-timestamp'')) of None \<Rightarrow> True | Some skew \<Rightarrow> skew > MAX_CLOCK_SKEW_SECONDS)"
    and sig: "\<exists>pem \<in> set (platform_keys cfg). verifyNotificationSignature cy (the (?get ''wechatpay-timestamp''))
        (the (?get ''wechatpay-nonce'')) (raw_body cb) (the (?get ''wechatpay-signature'')) pem"
    using assms by (simp_all add: authentic_headers_def Let_def split: if_splits)
  obtain pem where pem: "pem \<in> set (platform_keys cfg)" "rsaVerifySha256 cy (notification_message (the (?get ''wechatpay-timestamp''))
      (the (?get ''wechatpay-nonce'')) (raw_body cb)) (the (?get ''wechatpay-signature'')) pem"
    using sig by (auto simp: verifyNotificationSignature_def)
  obtain k where k: "clock_skew (cl_now cl) (the (?get ''wechatpay-timestamp'')) = Some k" "k \<le> 300"
    using skew by (auto simp: MAX_CLOCK_SKEW_SECONDS_def split: option.splits)
  show ?thesis
    unfolding wechat_authentic_def
    using truthy_Some[OF t(1)] truthy_Some[OF t(2)] truthy_Some[OF t(3)] pem k platform_keys_set by blast
qed

text \<open>The nonce, the associated data and the ciphertext of \<open>resource\<close> decrypt under the merchant's key to the text of \<open>data\<close>.\<close>

definition decrypts_to :: "wechat_config \<Rightarrow> crypto \<Rightarrow> json \<Rightarrow> json \<Rightarrow> bool" where
  "decrypts_to cfg cy resource data =
     (\<exists>nonce aad ciphertext plaintext.
        text_at resource ''nonce'' = Some nonce \<and> text_at resource ''associated_data'' = Some aad \<and>
        text_at resource ''ciphertext'' = Some ciphertext \<and>
        aesGcmDecrypt cy (wx_apiV3Key cfg) nonce aad ciphertext = Inr plaintext \<and> JSON_parse plaintext = Some data)"

lemma verifyAndDecryptD:
  assumes "verifyAndDecrypt cfg cy cl cb = Inr (eventId, d)"
  shows "wechat_authentic cfg cy cl cb"
    and "\<exists>envelope resource. parse_object (raw_body cb) = Inr envelope \<and> json_field envelope ''resource'' = Some resource \<and>
      decrypts_to cfg cy resource d"
proof -
  obtain u where "authentic_headers cfg cy cl cb = Inr u"
    using assms by (auto simp: verifyAndDecrypt_def split: sum.splits)
  then show "wechat_authentic cfg cy cl cb" by (rule authentic_headersD)
  obtain envelope resource where e: "parse_object (raw_body cb) = Inr envelope" "json_field envelope ''resource'' = Some resource"
    "decrypted cfg cy resource = Inr d"
    using assms by (auto simp: verifyAndDecrypt_def split: sum.splits option.splits)
  have "decrypts_to cfg cy resource d"
    using e(3) by (auto simp: decrypts_to_def decrypted_def parse_object_def split: sum.splits option.splits if_splits)
  then show "\<exists>envelope resource. parse_object (raw_body cb) = Inr envelope \<and> json_field envelope ''resource'' = Some resource \<and>
      decrypts_to cfg cy resource d"
    using e(1,2) by blast
qed

lemma callback_changes:
  assumes "pd_providers d m = Some prov" "handleCallback e d m raw w = (r, w')" "w' \<noteq> w"
  obtains c where "pp_verifyCallback prov raw = Inr c" "cb_paid c"
  using assms by (auto simp: handleCallback_def provider_of_def split: sum.splits if_splits)

text \<open>
  C6: Only authentic WeChat notifications act. If a POST to the WeChat callback changes anything at all, orders,
  events, subscriptions, deliveries or the audit log, then it carries a signature over its time, nonce and
  body that verifies under the current or the incoming platform certificate, its time is within 300 seconds
  of the clock, and its body is an envelope whose resource, by its own nonce, associated data and ciphertext,
  decrypts under the merchant's key to a payment in state SUCCESS.
\<close>

theorem wechat_only_authentic:
  assumes "pd_providers d Wechat = Some (WechatPayProvider cfg cy http cl)"
    and "handleCallback e d Wechat raw w = (r, w')" "w' \<noteq> w"
  shows "wechat_authentic cfg cy cl raw \<and>
    (\<exists>envelope resource data.
       parse_object (raw_body raw) = Inr envelope \<and> json_field envelope ''resource'' = Some resource \<and>
       decrypts_to cfg cy resource data \<and> text_at data ''trade_state'' = Some ''SUCCESS'')"
proof -
  obtain c where c: "wechat_verifyCallback cfg cy cl raw = Inr c" "cb_paid c"
    using callback_changes[OF assms] by (auto simp: WechatPayProvider_def)
  obtain eventId data where v: "verifyAndDecrypt cfg cy cl raw = Inr (eventId, data)"
    and s: "text_at data ''trade_state'' = Some ''SUCCESS''"
    using c by (auto simp: wechat_verifyCallback_def split: sum.splits option.splits prod.splits if_splits)
  show ?thesis using verifyAndDecryptD[OF v] s by blast
qed

section \<open>Alipay\<close>

text \<open>
  C7: Only authentic Alipay notifications act. If a POST to the Alipay callback changes anything at all, then the
  parameters of its body carry a signature over the rest of them that verifies under Alipay's key, they are
  not addressed to another application, and they report a completed trade.
\<close>

theorem alipay_only_authentic:
  assumes "pd_providers d Alipay = Some (AlipayProvider cfg cy http timestamp)"
    and "handleCallback e d Alipay raw w = (r, w')" "w' \<noteq> w"
  shows "let ps = form_params (raw_body raw) in
    (\<exists>sig status. jm_get ps ''sign'' = Some sig \<and> rsaVerifySha256 cy (buildSignContent ps) sig (al_alipayPublicKeyPem cfg) \<and>
       jm_get ps ''trade_status'' = Some status \<and> trade_paid status) \<and>
    (jm_get ps ''app_id'' \<in> {None, Some [], Some (al_appId cfg)})"
proof -
  let ?ps = "form_params (raw_body raw)"
  obtain c where c: "alipay_verifyCallback cfg cy raw = Inr c" "cb_paid c"
    using callback_changes[OF assms] by (auto simp: AlipayProvider_def)
  have v: "verifyParams cy ?ps (al_alipayPublicKeyPem cfg)"
    and app: "\<not> (truthy (jm_get ?ps ''app_id'') \<and> jm_get ?ps ''app_id'' \<noteq> Some (al_appId cfg))"
    and paid: "trade_paid (case jm_get ?ps ''trade_status'' of None \<Rightarrow> [] | Some s \<Rightarrow> s)"
    using c by (auto simp: alipay_verifyCallback_def Let_def split: if_splits sum.splits)
  have "\<exists>sig. jm_get ?ps ''sign'' = Some sig \<and> rsaVerifySha256 cy (buildSignContent ?ps) sig (al_alipayPublicKeyPem cfg)"
    using v by (auto simp: verifyParams_def Let_def truthy_def split: if_splits option.splits)
  moreover have "\<exists>status. jm_get ?ps ''trade_status'' = Some status \<and> trade_paid status"
    using paid by (cases "jm_get ?ps ''trade_status''") (auto simp: trade_paid_def)
  moreover have "jm_get ?ps ''app_id'' \<in> {None, Some [], Some (al_appId cfg)}"
    using app by (cases "jm_get ?ps ''app_id''") (auto simp: truthy_def)
  ultimately show ?thesis by (auto simp: Let_def)
qed

section \<open>The results of WeChat refunds\<close>

text \<open>
  WeChat's refund results are lost. The refund request names the same notification URL as the payment request,
  so that WeChat reports the result of a refund to the payment callback. There an authentic report, which has
  no trade state, is acknowledged as a success, after which WeChat does not repeat it, and nothing changes:
  a refund that was accepted for processing stays pending for ever.
\<close>

theorem wechat_refund_result_lost:
  assumes "pd_providers d Wechat = Some (WechatPayProvider cfg cy http cl)"
    and "verifyAndDecrypt cfg cy cl raw = Inr (eventId, data)"
    and "text_at data ''refund_status'' = Some status" "text_at data ''trade_state'' = None"
    and "json_field data ''amount'' = Some amount" "amount \<noteq> JNull"
  shows "jm_get (refund_body cfg ord req) ''notify_url'' = jm_get (create_body cfg ord expires) ''notify_url'' \<and>
    handleCallback e d Wechat raw w = (Inr (wechat_callbackAck True), w) \<and>
    (\<exists>res. wechat_verifyRefundCallback cfg cy cl raw = Inr res)"
proof -
  have "wechat_verifyCallback cfg cy cl raw = Inr \<lparr>cb_outTradeNo = or_undefined (text_at data ''out_trade_no''),
      cb_providerTxnId = or_undefined (text_at data ''transaction_id''), cb_paid = False, cb_paidAmount = paid_total amount, cb_currency = CNY,
      cb_eventId = eventId, cb_rawStatus = ''undefined''\<rparr>"
    using assms(2,4-6) by (simp add: wechat_verifyCallback_def or_undefined_def)
  then have "handleCallback e d Wechat raw w = (Inr (wechat_callbackAck True), w)"
    using assms(1) by (simp add: handleCallback_def provider_of_def WechatPayProvider_def)
  moreover have "jm_get (refund_body cfg ord req) ''notify_url'' = jm_get (create_body cfg ord expires) ''notify_url''"
    by (simp add: refund_body_def create_body_def opt_field_def split: option.split)
  ultimately show ?thesis using assms(2) by (simp add: wechat_verifyRefundCallback_def)
qed

section \<open>Worked examples\<close>

definition demo_wechat :: wechat_config where
  "demo_wechat = \<lparr>wx_appId = ''wx1'', wx_mchId = ''m1'', wx_privateKeyPem = ''priv'', wx_serialNo = ''s1'', wx_apiV3Key = ''v3'',
     wx_platformPublicKeyPem = ''old'', wx_platformPublicKeyNext = Some ''pk'',
     wx_notifyUrl = ''https://shop.example/api/notify/wechat'', wx_apiBase = ''https://api.mch.weixin.qq.com''\<rparr>"

definition demo_call :: call where
  "demo_call = \<lparr>cl_now = 0, cl_date = 0, cl_nonce = ''n0''\<rparr>"

definition wechat_envelope :: "json \<Rightarrow> json" where
  "wechat_envelope data = JObj [(''id'', JStr ''ev1''), (''resource'', JObj [(''ciphertext'', JStr (json_text data)),
     (''nonce'', JStr ''n1''), (''associated_data'', JStr [])])]"

definition wechat_raw :: "json \<Rightarrow> raw_callback" where
  "wechat_raw data = (let body = json_text (wechat_envelope data) in
     \<lparr>raw_body = body, raw_headers = [(''wechatpay-timestamp'', ''0''), (''wechatpay-nonce'', ''n2''),
       (''wechatpay-signature'', ''pk:'' @ notification_message ''0'' ''n2'' body)]\<rparr>)"

lemma parse_plain: "plain j \<Longrightarrow> JSON_parse (json_text j) = Some j"
proof -
  assume "plain j"
  then have "parse_value (2 * length (json_text j) + 1) (json_text j @ []) = Some (j, [])"
    by (intro reads_backD plain_reads_back) simp_all
  then show ?thesis by (simp add: JSON_parse_def skip_space_def)
qed

lemma demo_decrypt: "aesGcmDecrypt demo_crypto key nonce aad s = Inr s"
proof -
  have "utf8_string (map unat (utf8 t)) = t" for t by (induction t) (simp_all add: utf8_def utf8_string_char)
  then show ?thesis by (simp add: aesGcmDecrypt_def demo_crypto_def tag_start_def Let_def)
qed

lemma demo_skew: "clock_skew 0 ''0'' = Some 0"
  by code_simp

lemma wechat_raw_decrypts:
  assumes "plain data" "data \<noteq> JNull"
  shows "verifyAndDecrypt demo_wechat demo_crypto demo_call (wechat_raw data) = Inr (''ev1'', data)"
proof -
  have "plain (wechat_envelope data)" "wechat_envelope data \<noteq> JNull" by (simp_all add: wechat_envelope_def)
  then have env: "parse_object (raw_body (wechat_raw data)) = Inr (wechat_envelope data)"
    by (simp add: parse_object_def wechat_raw_def Let_def parse_plain)
  have "decrypted demo_wechat demo_crypto (JObj [(''ciphertext'', JStr (json_text data)), (''nonce'', JStr ''n1''),
      (''associated_data'', JStr [])]) = Inr data"
    using assms by (simp add: decrypted_def text_at_def json_field_def demo_decrypt parse_object_def parse_plain)
  moreover have "authentic_headers demo_wechat demo_crypto demo_call (wechat_raw data) = Inr ()"
    by (simp add: authentic_headers_def Let_def wechat_raw_def demo_call_def demo_skew MAX_CLOCK_SKEW_SECONDS_def
        platform_keys_def demo_wechat_def verifyNotificationSignature_def demo_crypto_def rsaSignSha256_def rsaVerifySha256_def truthy_def)
  ultimately show ?thesis
    using env by (simp add: verifyAndDecrypt_def wechat_envelope_def json_field_def text_at_def or_undefined_def)
qed

definition wechat_paid_data :: json where
  "wechat_paid_data = JObj [(''out_trade_no'', JStr ''none''), (''transaction_id'', JStr ''t1''), (''trade_state'', JStr ''SUCCESS''),
     (''amount'', JObj [(''total'', JNum 1500)])]"

definition wechat_deps :: payment_deps where
  "wechat_deps = (demo_deps (demo_provider 1500))\<lparr>pd_providers := (\<lambda>_. Some (WechatPayProvider demo_wechat demo_crypto (\<lambda>_. Inl (PlainError ''offline'')) demo_call))\<rparr>"

lemma marked_differs: "\<not> event_seen (w_events w) k \<Longrightarrow> snd (mark_event e k w) \<noteq> w"
  using mark_event_seen[of e k w k] by metis

lemma no_event_seen: "\<not> event_seen (w_events empty_world) k"
  by (simp add: empty_world_def no_event)

lemma unknown_order_callback:
  assumes "pd_providers d m = Some prov" "pp_verifyCallback prov raw = Inr c" "cb_paid c"
  shows "handleCallback e d m raw empty_world =
    (Inr (pp_callbackAck prov False), snd (mark_event e (callback_key m (cb_eventId c)) empty_world))"
proof -
  obtain isNew w1 where m: "mark_event e (callback_key m (cb_eventId c)) empty_world = (isNew, w1)" by fastforce
  then have "isNew" using mark_event_new[of e _ empty_world] no_event_seen by (metis fst_conv)
  moreover have "w_orders w1 = w_orders empty_world" using m mark_event_frame(1)[of e _ empty_world] by (metis snd_conv)
  then have "order_findByOutTradeNo (w_orders w1) x = None" for x by (simp add: empty_world_def demo_store_simps)
  ultimately show ?thesis using assms m by (simp add: handleCallback_def provider_of_def)
qed

theorem wechat_only_authentic_witness:
  "wechat_authentic demo_wechat demo_crypto demo_call (wechat_raw wechat_paid_data)"
proof -
  let ?p = "WechatPayProvider demo_wechat demo_crypto (\<lambda>_. Inl (PlainError ''offline'')) demo_call"
  have v: "verifyAndDecrypt demo_wechat demo_crypto demo_call (wechat_raw wechat_paid_data) = Inr (''ev1'', wechat_paid_data)"
    by (rule wechat_raw_decrypts) (simp_all add: wechat_paid_data_def)
  have "wechat_verifyCallback demo_wechat demo_crypto demo_call (wechat_raw wechat_paid_data) =
      Inr \<lparr>cb_outTradeNo = ''none'', cb_providerTxnId = ''t1'', cb_paid = True, cb_paidAmount = Some 1500, cb_currency = CNY,
        cb_eventId = ''ev1'', cb_rawStatus = ''SUCCESS''\<rparr>"
    using v by (simp add: wechat_verifyCallback_def wechat_paid_data_def json_field_def text_at_def or_undefined_def
        paid_total_def int_at_def)
  then have cb: "pp_verifyCallback ?p (wechat_raw wechat_paid_data) = Inr \<lparr>cb_outTradeNo = ''none'', cb_providerTxnId = ''t1'', cb_paid = True,
      cb_paidAmount = Some 1500, cb_currency = CNY, cb_eventId = ''ev1'', cb_rawStatus = ''SUCCESS''\<rparr>"
    by (simp add: WechatPayProvider_def)
  have p: "pd_providers wechat_deps Wechat = Some ?p" by (simp add: wechat_deps_def)
  note run = unknown_order_callback[OF p cb, of "env_at 0"]
  from wechat_only_authentic[OF p run marked_differs[OF no_event_seen]] show ?thesis by simp
qed

definition wechat_refunded_data :: json where
  "wechat_refunded_data = JObj [(''out_refund_no'', JStr ''R1''), (''refund_id'', JStr ''w1''), (''refund_status'', JStr ''SUCCESS''),
     (''amount'', JObj [(''total'', JNum 1500), (''refund'', JNum 500), (''payer_total'', JNum 1500)])]"

theorem wechat_refund_result_lost_witness:
  "handleCallback (env_at 0) wechat_deps Wechat (wechat_raw wechat_refunded_data) empty_world = (Inr (wechat_callbackAck True), empty_world)"
proof -
  have v: "verifyAndDecrypt demo_wechat demo_crypto demo_call (wechat_raw wechat_refunded_data) = Inr (''ev1'', wechat_refunded_data)"
    by (rule wechat_raw_decrypts) (simp_all add: wechat_refunded_data_def)
  have p: "pd_providers wechat_deps Wechat =
      Some (WechatPayProvider demo_wechat demo_crypto (\<lambda>_. Inl (PlainError ''offline'')) demo_call)"
    by (simp add: wechat_deps_def)
  show ?thesis
    using wechat_refund_result_lost[OF p v, of "''SUCCESS''"]
    by (simp add: wechat_refunded_data_def text_at_def json_field_def paid_total_def int_at_def)
qed

definition alipay_paid_params :: params where
  "alipay_paid_params = [(''app_id'', ''app1''), (''trade_no'', ''t1''), (''trade_status'', ''TRADE_SUCCESS''),
     (''sign'', ''pub:app_id=app1&trade_no=t1&trade_status=TRADE_SUCCESS'')]"

theorem alipay_only_authentic_witness:
  "let ps = form_params (form_text alipay_paid_params) in
    (\<exists>sig status. jm_get ps ''sign'' = Some sig \<and> rsaVerifySha256 demo_crypto (buildSignContent ps) sig ''pub'' \<and>
       jm_get ps ''trade_status'' = Some status \<and> trade_paid status)"
proof -
  let ?raw = "\<lparr>raw_body = form_text alipay_paid_params, raw_headers = []\<rparr>"
  let ?p = "AlipayProvider demo_alipay demo_crypto (\<lambda>_. Inl (PlainError ''offline'')) []"
  let ?d = "(demo_deps (demo_provider 1500))\<lparr>pd_providers := (\<lambda>_. Some ?p)\<rparr>"
  have ps: "form_params (form_text alipay_paid_params) = alipay_paid_params"
    by (rule form_params_text) (simp add: alipay_paid_params_def)
  have content: "buildSignContent alipay_paid_params = ''app_id=app1&trade_no=t1&trade_status=TRADE_SUCCESS''" by code_simp
  have "alipay_verifyCallback demo_alipay demo_crypto ?raw = Inr \<lparr>cb_outTradeNo = ''undefined'', cb_providerTxnId = ''t1'',
      cb_paid = True, cb_paidAmount = Some 0, cb_currency = CNY, cb_eventId = ''t1:TRADE_SUCCESS'', cb_rawStatus = ''TRADE_SUCCESS''\<rparr>"
    by (simp add: alipay_verifyCallback_def ps verifyParams_def content Let_def)
      (simp add: alipay_paid_params_def demo_crypto_def rsaSignSha256_def rsaVerifySha256_def demo_alipay_def truthy_def param_at_def or_undefined_def trade_paid_def)
  then have cb: "pp_verifyCallback ?p ?raw = Inr \<lparr>cb_outTradeNo = ''undefined'', cb_providerTxnId = ''t1'',
      cb_paid = True, cb_paidAmount = Some 0, cb_currency = CNY, cb_eventId = ''t1:TRADE_SUCCESS'', cb_rawStatus = ''TRADE_SUCCESS''\<rparr>"
    by (simp add: AlipayProvider_def)
  have p: "pd_providers ?d Alipay = Some ?p" by simp
  note run = unknown_order_callback[OF p cb, of "env_at 0"]
  from alipay_only_authentic[OF p run marked_differs[OF no_event_seen]] show ?thesis
    by (auto simp: Let_def demo_alipay_def)
qed

end
