(* ===== verification/TronWeb.thy ===== *)
theory TronWeb
  imports RateFeed Sweep
begin

text \<open>
  \<^verbatim>\<open>src/providers/usdt/tronWebTreasury.ts\<close>: the treasury over the \<open>tronweb\<close> package. The package is a
  parameter: \<open>tron_class\<close> is what its class computes by itself, \<open>tron_node\<close> what the nodes it calls
  answer during one operation. An instance is the options it was made from. Answers are JSON, read at the types
  the code declares for them; log lines are left out.
\<close>

section \<open>The package\<close>

record tron_options =
  to_fullHost :: string
  to_privateKey :: string
  to_headers :: "(string \<times> string) list option"

record tron_account =
  ta_address :: string
  ta_privateKey :: string

record tron_class =
  tc_new :: "tron_options \<Rightarrow> unit result"
  tc_fromMnemonic :: "string \<Rightarrow> string \<Rightarrow> tron_account result"
  tc_fromHex :: "string \<Rightarrow> string result"
  tc_fromPrivateKey :: "string \<Rightarrow> string result"

text \<open>What \<open>require('tronweb')\<close> yields: the class under one of two names, or the module itself.\<close>

record tron_module =
  tm_TronWeb :: "tron_class option"
  tm_default :: "tron_class option"
  tm_itself :: tron_class

text \<open>
  A contract's raw return value: a text, a number, a bigint, an object by its \<open>toString()\<close>, or nothing that has
  one.
\<close>

datatype raw_value = Raw_text string | Raw_number num | Raw_bigint int | Raw_object string | Raw_none

record tron_node =
  tn_balanceOf :: "tron_options \<Rightarrow> string \<Rightarrow> string \<Rightarrow> raw_value result"
  tn_transfer :: "tron_options \<Rightarrow> string \<Rightarrow> string \<Rightarrow> int \<Rightarrow> string result"
  tn_getBalance :: "tron_options \<Rightarrow> string \<Rightarrow> (num + string) result"
  tn_sendTransaction :: "tron_options \<Rightarrow> string \<Rightarrow> int \<Rightarrow> json result"
  tn_getTransactionInfo :: "tron_options \<Rightarrow> string \<Rightarrow> json result"
  tn_getConfirmedTransaction :: "tron_options \<Rightarrow> string \<Rightarrow> json result"
  tn_getCurrentBlock :: "tron_options \<Rightarrow> json result"

section \<open>JavaScript on numbers and answers\<close>

fun num_add :: "num \<Rightarrow> num \<Rightarrow> num" where
  "num_add (Fin a) (Fin b) = of_exact (a + b)"
| "num_add (Fin a) y = y"
| "num_add x (Fin b) = x"
| "num_add x y = (if x = y then x else Not_num)"

fun num_neg :: "num \<Rightarrow> num" where
  "num_neg (Fin a) = Fin (- a)"
| "num_neg Pos_inf = Neg_inf"
| "num_neg Neg_inf = Pos_inf"
| "num_neg Not_num = Not_num"

fun num_le :: "num \<Rightarrow> num \<Rightarrow> bool" where
  "num_le (Fin a) (Fin b) = (a \<le> b)"
| "num_le x y = (x \<noteq> Not_num \<and> y \<noteq> Not_num \<and> (x = Neg_inf \<or> y = Pos_inf))"

text \<open>\<open>typeof v === 'number'\<close>\<close>

definition number_at :: "json option \<Rightarrow> num option" where
  "number_at v = (case v of Some (JNum i) \<Rightarrow> Some (Fin (of_int i)) | Some (JReal x) \<Rightarrow> Some x | _ \<Rightarrow> None)"

text \<open>\<open>j.k\<close>, which throws on \<open>null\<close>, and \<open>j?.k\<close>.\<close>

definition property_of :: "json \<Rightarrow> string \<Rightarrow> json option result" where
  "property_of j k = (if j = JNull then Inl (PlainError ''TypeError'') else Inr (json_field j k))"

definition optional_property :: "json option \<Rightarrow> string \<Rightarrow> json option" where
  "optional_property v k = (case v of None \<Rightarrow> None | Some j \<Rightarrow> json_field j k)"

definition text_of :: "json option \<Rightarrow> string option" where
  "text_of v = (case v of Some (JStr s) \<Rightarrow> Some s | _ \<Rightarrow> None)"

definition first_item :: "json option \<Rightarrow> json option" where
  "first_item v = (case v of Some (JArr (x # xs)) \<Rightarrow> Some x | Some (JObj ps) \<Rightarrow> jm_get ps ''0'' | _ \<Rightarrow> None)"

section \<open>The treasury\<close>

record tron_config =
  tw_fullHost :: string
  tw_apiKey :: "string option"
  tw_mnemonic :: string
  tw_hdPath :: "string option"
  tw_feePrivateKeys :: "string list"
  tw_contractAddress :: string
  tw_minConfirmations :: num

record tron_treasury =
  tt_cfg :: tron_config
  tt_TronWeb :: tron_class
  tt_base :: tron_options
  tt_feePool :: "tron_options round_robin"
  tt_hdPath :: string
  tt_feeAddresses :: "string list option"

definition DEFAULT_HD_PATH :: string where
  "DEFAULT_HD_PATH = ''m/44'' @ [CHR 0x27] @ ''/195'' @ [CHR 0x27] @ ''/0'' @ [CHR 0x27] @ ''/0''"

definition instanceOptions :: "tron_config \<Rightarrow> string \<Rightarrow> tron_options" where
  "instanceOptions cfg privateKey =
     \<lparr>to_fullHost = tw_fullHost cfg, to_privateKey = privateKey,
      to_headers = (if truthy (tw_apiKey cfg) then Some [(''TRON-PRO-API-KEY'', the (tw_apiKey cfg))] else None)\<rparr>"

text \<open>One instance per key, in order, until one throws.\<close>

fun new_instances :: "tron_class \<Rightarrow> tron_config \<Rightarrow> string list \<Rightarrow> tron_options list result" where
  "new_instances cls cfg [] = Inr []"
| "new_instances cls cfg (key # keys) =
     (case tc_new cls (instanceOptions cfg key) of
        Inl err \<Rightarrow> Inl err
      | Inr u \<Rightarrow> (case new_instances cls cfg keys of
            Inl err \<Rightarrow> Inl err
          | Inr os \<Rightarrow> Inr (instanceOptions cfg key # os)))"

definition new_TronWebTreasury :: "tron_module option \<Rightarrow> tron_config \<Rightarrow> tron_treasury result" where
  "new_TronWebTreasury required cfg =
     (if length (tw_feePrivateKeys cfg) = 0
      then Inl (PlainError ''TronWebTreasury: at least one fee private key is required'')
      else case required of
        None \<Rightarrow> Inl (PlainError (''USDT per-order mode requires the '' @ [CHR 0x27] @ ''tronweb'' @ [CHR 0x27] @
            '' package. Run `npm install tronweb`.''))
      | Some m \<Rightarrow>
          let cls = (case tm_TronWeb m of Some c \<Rightarrow> c | None \<Rightarrow> (case tm_default m of Some c \<Rightarrow> c | None \<Rightarrow> tm_itself m));
              hdPath = (case tw_hdPath cfg of Some p \<Rightarrow> p | None \<Rightarrow> DEFAULT_HD_PATH)
          in case new_instances cls cfg (tw_feePrivateKeys cfg) of
               Inl err \<Rightarrow> Inl err
             | Inr feeInstances \<Rightarrow>
                 (case rb_new feeInstances of
                    Inl err \<Rightarrow> Inl err
                  | Inr pool \<Rightarrow> Inr \<lparr>tt_cfg = cfg, tt_TronWeb = cls, tt_base = feeInstances ! 0, tt_feePool = pool,
                      tt_hdPath = hdPath, tt_feeAddresses = None\<rparr>))"

section \<open>Addresses and keys\<close>

definition derivation_path :: "tron_treasury \<Rightarrow> int \<Rightarrow> string" where
  "derivation_path t index = tt_hdPath t @ ''/'' @ string_of_int index"

definition deriveAccount :: "tron_treasury \<Rightarrow> int \<Rightarrow> tron_account result" where
  "deriveAccount t index = tc_fromMnemonic (tt_TronWeb t) (tw_mnemonic (tt_cfg t)) (derivation_path t index)"

definition privateKeyForIndex :: "tron_treasury \<Rightarrow> int \<Rightarrow> string result" where
  "privateKeyForIndex t index = (case deriveAccount t index of Inl err \<Rightarrow> Inl err | Inr a \<Rightarrow> Inr (ta_privateKey a))"

definition toBase58 :: "tron_treasury \<Rightarrow> string \<Rightarrow> string result" where
  "toBase58 t address = (if take 1 address = ''T'' then Inr address else tc_fromHex (tt_TronWeb t) address)"

definition tw_deriveDepositAddress :: "tron_treasury \<Rightarrow> int \<Rightarrow> (int \<times> string) result" where
  "tw_deriveDepositAddress t index =
     (case deriveAccount t index of
        Inl err \<Rightarrow> Inl err
      | Inr account \<Rightarrow> (case toBase58 t (ta_address account) of Inl err \<Rightarrow> Inl err | Inr a \<Rightarrow> Inr (index, a)))"

section \<open>Balances\<close>

fun toDecimalString :: "raw_value \<Rightarrow> string" where
  "toDecimalString (Raw_text s) = s"
| "toDecimalString (Raw_number x) = num_text x"
| "toDecimalString (Raw_bigint i) = string_of_int i"
| "toDecimalString (Raw_object s) = s"
| "toDecimalString Raw_none = ''0''"

definition tw_trc20BalanceMicro :: "tron_treasury \<Rightarrow> tron_node \<Rightarrow> string \<Rightarrow> num result" where
  "tw_trc20BalanceMicro t nd address =
     (case tn_balanceOf nd (tt_base t) (tw_contractAddress (tt_cfg t)) address of
        Inl err \<Rightarrow> Inl err
      | Inr raw \<Rightarrow> Inr (js_number_of (toDecimalString raw)))"

definition tw_trxBalanceSun :: "tron_treasury \<Rightarrow> tron_node \<Rightarrow> string \<Rightarrow> num result" where
  "tw_trxBalanceSun t nd address =
     (case tn_getBalance nd (tt_base t) address of
        Inl err \<Rightarrow> Inl err
      | Inr sun \<Rightarrow> Inr (case sun of Inl x \<Rightarrow> x | Inr s \<Rightarrow> js_number_of s))"

text \<open>The first error of a list of calls, or all their values; of several that fail together the first is reported.\<close>

fun collect :: "'a result list \<Rightarrow> 'a list result" where
  "collect [] = Inr []"
| "collect (r # rs) = (case r of Inl err \<Rightarrow> Inl err | Inr x \<Rightarrow>
     (case collect rs of Inl err \<Rightarrow> Inl err | Inr xs \<Rightarrow> Inr (x # xs)))"

definition fee_addresses :: "tron_treasury \<Rightarrow> string list result" where
  "fee_addresses t =
     (case tt_feeAddresses t of
        Some as \<Rightarrow> Inr as
      | None \<Rightarrow> collect (map (tc_fromPrivateKey (tt_TronWeb t)) (tw_feePrivateKeys (tt_cfg t))))"

definition tw_feeBalanceSun :: "tron_treasury \<Rightarrow> tron_node \<Rightarrow> num result \<times> tron_treasury" where
  "tw_feeBalanceSun t nd =
     (case fee_addresses t of
        Inl err \<Rightarrow> (Inl err, t)
      | Inr as \<Rightarrow>
          ((case collect (map (tw_trxBalanceSun t nd) as) of
              Inl err \<Rightarrow> Inl err
            | Inr balances \<Rightarrow> Inr (foldl num_add (Fin 0) balances)),
           t\<lparr>tt_feeAddresses := Some as\<rparr>))"

section \<open>Gas and sweeps\<close>

text \<open>\<open>res.txid ?? res.transaction?.txID\<close>\<close>

definition sent_id :: "json \<Rightarrow> string option result" where
  "sent_id res =
     (case property_of res ''txid'' of
        Inl err \<Rightarrow> Inl err
      | Inr txid \<Rightarrow> Inr (case text_of txid of
            Some s \<Rightarrow> Some s
          | None \<Rightarrow> text_of (optional_property (json_field res ''transaction'') ''txID'')))"

definition tw_fuelGas :: "tron_treasury \<Rightarrow> tron_node \<Rightarrow> string \<Rightarrow> int \<Rightarrow> string result \<times> tron_treasury" where
  "tw_fuelGas t nd toAddress amountSun =
     (let (feeWallet, pool) = rb_next (tt_feePool t)
      in (case tn_sendTransaction nd feeWallet toAddress amountSun of
            Inl err \<Rightarrow> Inl err
          | Inr res \<Rightarrow> (case sent_id res of
                Inl err \<Rightarrow> Inl err
              | Inr txId \<Rightarrow> if truthy txId then Inr (the txId)
                  else Inl (PlainError ''fuelGas: tronweb sendTransaction returned no transaction id'')),
          t\<lparr>tt_feePool := pool\<rparr>))"

definition tw_sweepTrc20 ::
  "tron_treasury \<Rightarrow> tron_node \<Rightarrow> int \<Rightarrow> string \<Rightarrow> string \<Rightarrow> int \<Rightarrow> string result" where
  "tw_sweepTrc20 t nd depositIndex fromAddress toAddress amountMicro =
     (case privateKeyForIndex t depositIndex of
        Inl err \<Rightarrow> Inl err
      | Inr privateKey \<Rightarrow>
          let signer = instanceOptions (tt_cfg t) privateKey
          in case tc_new (tt_TronWeb t) signer of
               Inl err \<Rightarrow> Inl err
             | Inr u \<Rightarrow> tn_transfer nd signer (tw_contractAddress (tt_cfg t)) toAddress amountMicro)"

section \<open>Confirmation\<close>

text \<open>The body of the \<open>try\<close>, and \<open>isConfirmed\<close> itself.\<close>

definition confirmation :: "tron_treasury \<Rightarrow> tron_node \<Rightarrow> string \<Rightarrow> bool result" where
  "confirmation t nd txId =
     (case tn_getTransactionInfo nd (tt_base t) txId of
        Inl err \<Rightarrow> Inl err
      | Inr info \<Rightarrow> (case property_of info ''blockNumber'' of
          Inl err \<Rightarrow> Inl err
        | Inr v \<Rightarrow> (case number_at v of
            None \<Rightarrow>
              (case tn_getConfirmedTransaction nd (tt_base t) txId of
                 Inl err \<Rightarrow> Inl err
               | Inr conf \<Rightarrow> (case property_of conf ''ret'' of
                   Inl err \<Rightarrow> Inl err
                 | Inr ret \<Rightarrow> Inr (optional_property (first_item ret) ''contractRet'' = Some (JStr ''SUCCESS''))))
          | Some blockNumber \<Rightarrow>
              (case tn_getCurrentBlock nd (tt_base t) of
                 Inl err \<Rightarrow> Inl err
               | Inr block \<Rightarrow> (case property_of block ''block_header'' of
                   Inl err \<Rightarrow> Inl err
                 | Inr header \<Rightarrow>
                     Inr (case number_at (optional_property (optional_property header ''raw_data'') ''number'') of
                        Some head \<Rightarrow> num_le (tw_minConfirmations (tt_cfg t)) (num_add head (num_neg blockNumber))
                      | None \<Rightarrow> num_le (tw_minConfirmations (tt_cfg t)) (Fin 1)))))))"

definition tw_isConfirmed :: "tron_treasury \<Rightarrow> tron_node \<Rightarrow> string \<Rightarrow> bool" where
  "tw_isConfirmed t nd txId = (case confirmation t nd txId of Inl err \<Rightarrow> False | Inr b \<Rightarrow> b)"

section \<open>Derivation\<close>

lemma derivation_path_inj: "derivation_path t i = derivation_path t j \<longleftrightarrow> i = j"
  using string_of_int_inj by (auto simp: derivation_path_def)

text \<open>
  With a package that derives different addresses at different paths, the adapter is a wallet that derives
  different addresses at different indices: what the allocator of deposit addresses relies on.
\<close>

theorem adapter_derives_injectively:
  assumes "\<And>p q a b x. tc_fromMnemonic (tt_TronWeb t) (tw_mnemonic (tt_cfg t)) p = Inr a \<Longrightarrow>
      tc_fromMnemonic (tt_TronWeb t) (tw_mnemonic (tt_cfg t)) q = Inr b \<Longrightarrow>
      toBase58 t (ta_address a) = Inr x \<Longrightarrow> toBase58 t (ta_address b) = Inr x \<Longrightarrow> p = q"
  shows "wallet_injective (\<lambda>i. case tw_deriveDepositAddress t i of Inl err \<Rightarrow> Inl err | Inr (j, a) \<Rightarrow> Inr a)"
  unfolding wallet_injective_def
proof (intro allI impI, elim conjE)
  fix i j x
  assume "(case tw_deriveDepositAddress t i of Inl err \<Rightarrow> Inl err | Inr (k, a) \<Rightarrow> Inr a) = Inr x"
    and "(case tw_deriveDepositAddress t j of Inl err \<Rightarrow> Inl err | Inr (k, a) \<Rightarrow> Inr a) = Inr x"
  then obtain a b where "deriveAccount t i = Inr a" "toBase58 t (ta_address a) = Inr x"
    and "deriveAccount t j = Inr b" "toBase58 t (ta_address b) = Inr x"
    by (auto simp: tw_deriveDepositAddress_def split: sum.splits)
  then have "derivation_path t i = derivation_path t j" using assms by (simp add: deriveAccount_def)
  then show "i = j" by (simp add: derivation_path_inj)
qed

text \<open>The key a sweep signs with is the key of the address that was handed out for the index.\<close>

definition signs_for :: "tron_treasury \<Rightarrow> tron_options \<Rightarrow> string \<Rightarrow> bool" where
  "signs_for t signer address \<longleftrightarrow> tc_fromPrivateKey (tt_TronWeb t) (to_privateKey signer) = Inr address"

theorem sweep_signs_for_deposit:
  assumes law: "\<And>p acc. tc_fromMnemonic (tt_TronWeb t) (tw_mnemonic (tt_cfg t)) p = Inr acc \<Longrightarrow>
      tc_fromPrivateKey (tt_TronWeb t) (ta_privateKey acc) = toBase58 t (ta_address acc)"
    and derived: "tw_deriveDepositAddress t index = Inr (i, address)"
    and sent: "tw_sweepTrc20 t nd index fromAddress toAddress amount = Inr txId"
  shows "\<exists>signer. signs_for t signer address \<and> to_fullHost signer = tw_fullHost (tt_cfg t) \<and>
    tn_transfer nd signer (tw_contractAddress (tt_cfg t)) toAddress amount = Inr txId"
proof -
  obtain acc where acc: "deriveAccount t index = Inr acc" "toBase58 t (ta_address acc) = Inr address"
    using derived by (auto simp: tw_deriveDepositAddress_def split: sum.splits)
  have "tn_transfer nd (instanceOptions (tt_cfg t) (ta_privateKey acc)) (tw_contractAddress (tt_cfg t)) toAddress amount
      = Inr txId"
    using sent acc(1) by (simp add: tw_sweepTrc20_def privateKeyForIndex_def Let_def split: sum.splits)
  moreover have "signs_for t (instanceOptions (tt_cfg t) (ta_privateKey acc)) address"
    using law[OF acc(1)[unfolded deriveAccount_def]] acc(2) by (simp add: signs_for_def instanceOptions_def)
  ultimately show ?thesis by (intro exI[of _ "instanceOptions (tt_cfg t) (ta_privateKey acc)"])
    (simp add: instanceOptions_def)
qed

section \<open>The fee wallets\<close>

lemma new_instances_eq: "new_instances cls cfg keys = Inr os \<Longrightarrow> os = map (instanceOptions cfg) keys"
  by (induction keys arbitrary: os) (auto split: sum.splits)

lemma new_treasury_fields:
  assumes "new_TronWebTreasury m cfg = Inr t"
  shows "tt_cfg t = cfg" "tw_feePrivateKeys cfg \<noteq> []" "tt_feeAddresses t = None"
    "rb_items (tt_feePool t) = map (instanceOptions cfg) (tw_feePrivateKeys cfg)" "rb_cursor (tt_feePool t) = 0"
  using assms by (auto simp: new_TronWebTreasury_def rb_new_def Let_def dest: new_instances_eq split: if_splits option.splits sum.splits)

text \<open>Requests for gas, one after another, each meeting the node as it is then.\<close>

fun fuel_all :: "tron_treasury \<Rightarrow> (tron_node \<times> string \<times> int) list \<Rightarrow> string result list \<times> tron_treasury" where
  "fuel_all t [] = ([], t)"
| "fuel_all t ((nd, toAddress, amount) # reqs) =
     (let (r, t1) = tw_fuelGas t nd toAddress amount; (rs, t2) = fuel_all t1 reqs in (r # rs, t2))"

text \<open>What a request for gas yields from a given wallet.\<close>

definition fuelled_by :: "tron_options \<Rightarrow> tron_node \<times> string \<times> int \<Rightarrow> string result" where
  "fuelled_by wallet req =
     (case req of (nd, toAddress, amount) \<Rightarrow>
       (case tn_sendTransaction nd wallet toAddress amount of
          Inl err \<Rightarrow> Inl err
        | Inr res \<Rightarrow> (case sent_id res of
              Inl err \<Rightarrow> Inl err
            | Inr txId \<Rightarrow> if truthy txId then Inr (the txId)
                else Inl (PlainError ''fuelGas: tronweb sendTransaction returned no transaction id''))))"

lemma fuel_all_eq:
  "fst (fuel_all t reqs) = map (\<lambda>(i, req). fuelled_by (rb_items (tt_feePool t) ! (i mod rb_size (tt_feePool t))) req)
     (zip [rb_cursor (tt_feePool t)..<rb_cursor (tt_feePool t) + length reqs] reqs)"
proof (induction reqs arbitrary: t)
  case (Cons req reqs)
  obtain nd to_addr amount where req: "req = (nd, to_addr, amount)" by (cases req)
  let ?t1 = "t\<lparr>tt_feePool := (tt_feePool t)\<lparr>rb_cursor := rb_cursor (tt_feePool t) + 1\<rparr>\<rparr>"
  have step: "tw_fuelGas t nd to_addr amount =
      (fuelled_by (rb_items (tt_feePool t) ! (rb_cursor (tt_feePool t) mod rb_size (tt_feePool t))) req, ?t1)"
    by (simp add: tw_fuelGas_def rb_next_def fuelled_by_def req rb_size_def Let_def)
  have "fst (fuel_all t (req # reqs)) =
      fuelled_by (rb_items (tt_feePool t) ! (rb_cursor (tt_feePool t) mod rb_size (tt_feePool t))) req # fst (fuel_all ?t1 reqs)"
    using step by (simp add: req split_beta Let_def)
  also have "fst (fuel_all ?t1 reqs) = map (\<lambda>(i, req). fuelled_by (rb_items (tt_feePool t) ! (i mod rb_size (tt_feePool t))) req)
     (zip [Suc (rb_cursor (tt_feePool t))..<Suc (rb_cursor (tt_feePool t)) + length reqs] reqs)"
    using Cons.IH[of ?t1] by (simp add: rb_size_def)
  finally show ?case by (simp add: upt_conv_Cons del: upt_Suc)
qed simp

theorem fee_wallets_rotate:
  assumes "new_TronWebTreasury m cfg = Inr t" "i < length reqs"
  shows "fst (fuel_all t reqs) ! i =
    fuelled_by (instanceOptions cfg (tw_feePrivateKeys cfg ! (i mod length (tw_feePrivateKeys cfg)))) (reqs ! i)"
proof -
  note f = new_treasury_fields[OF assms(1)]
  have "i mod length (tw_feePrivateKeys cfg) < length (tw_feePrivateKeys cfg)" using f(2) by simp
  then show ?thesis using assms(2) f by (simp add: fuel_all_eq rb_size_def)
qed

section \<open>Confirmation\<close>

lemma mined_confirmation:
  assumes "tn_getTransactionInfo nd (tt_base t) txId = Inr (JObj info)" "jm_get info ''blockNumber'' = Some (JNum b)"
    and "tn_getCurrentBlock nd (tt_base t) =
      Inr (JObj [(''block_header'', JObj [(''raw_data'', JObj [(''number'', JNum h)])])])"
  shows "tw_isConfirmed t nd txId = num_le (tw_minConfirmations (tt_cfg t)) (of_exact (of_int h - of_int b))"
  using assms by (simp add: tw_isConfirmed_def confirmation_def property_of_def json_field_def number_at_def
      optional_property_def)

text \<open>A call that fails leaves the transfer unconfirmed; so does a threshold that is not a number.\<close>

lemma failing_lookup_unconfirmed:
  "tn_getTransactionInfo nd (tt_base t) txId = Inl err \<Longrightarrow> \<not> tw_isConfirmed t nd txId"
  by (simp add: tw_isConfirmed_def confirmation_def)

text \<open>
  C32: A transfer that ran out of energy moves no tokens, but it is mined like any other. \<open>isConfirmed\<close> reads its
  block number and not its receipt, so the sweep it belongs to is closed as done.
\<close>

theorem reverted_sweep_settled:
  assumes job: "stores w job" "j_status job = S_SWEEPING" "j_sweepTxId job = Some tx" "tx \<noteq> []"
    and info: "tn_getTransactionInfo nd (tt_base t) tx = Inr (JObj info)" "jm_get info ''blockNumber'' = Some (JNum b)"
      "jm_get info ''receipt'' = Some (JObj [(''result'', JStr ''OUT_OF_ENERGY'')])"
    and head: "tn_getCurrentBlock nd (tt_base t) =
      Inr (JObj [(''block_header'', JObj [(''raw_data'', JObj [(''number'', JNum h)])])])"
    and deep: "tw_minConfirmations (tt_cfg t) = Fin (of_int n)" "n \<le> h - b" "\<bar>h - b\<bar> \<le> 2 ^ 53"
  shows "let (r, job', w') = process_job e (tr\<lparr>t_isConfirmed := \<lambda>x. Inr (tw_isConfirmed t nd x)\<rparr>) pol job w
    in r = Inr () \<and> j_status job' = S_SWEPT"
proof -
  let ?T = "tr\<lparr>t_isConfirmed := \<lambda>x. Inr (tw_isConfirmed t nd x)\<rparr>"
  have "of_exact (of_int h - of_int b) = Fin (of_int (h - b))"
    using of_exact_int[OF deep(3)] by simp
  moreover have "(of_int n :: rat) \<le> of_int (h - b)" using deep(2) by (simp only: of_int_le_iff)
  ultimately have "tw_isConfirmed t nd tx"
    using mined_confirmation[OF info(1,2) head] deep(1) by simp
  then have "job_after e ?T pol job = saved_at (now_at e 0) (now_at e 0) (job\<lparr>j_status := S_SWEPT\<rparr>)"
    using job(2-4) by (simp add: job_after_def confirmed_def truthy_def Let_def)
  moreover have "wrote (job_after e ?T pol job) w (process_job e ?T pol job w)"
    by (rule process_job_wrote[OF job(1)]) (simp add: job(2) isSweepTerminal_def)
  ultimately show ?thesis by (auto simp: wrote_def saved_at_def)
qed

section \<open>Worked examples\<close>

definition demo_class :: tron_class where
  "demo_class = \<lparr>tc_new = (\<lambda>_. Inr ()), tc_fromMnemonic = (\<lambda>m p. Inr \<lparr>ta_address = ''T'' @ p, ta_privateKey = p\<rparr>),
     tc_fromHex = Inr, tc_fromPrivateKey = (\<lambda>k. Inr (''T'' @ k))\<rparr>"

definition demo_tron_config :: tron_config where
  "demo_tron_config = \<lparr>tw_fullHost = ''https://node'', tw_apiKey = Some ''key'', tw_mnemonic = ''words'', tw_hdPath = Some ''m'',
     tw_feePrivateKeys = [''fee1'', ''fee2''], tw_contractAddress = ''TUSDT'', tw_minConfirmations = Fin 19\<rparr>"

definition demo_tron :: tron_treasury where
  "demo_tron = \<lparr>tt_cfg = demo_tron_config, tt_TronWeb = demo_class, tt_base = instanceOptions demo_tron_config ''fee1'',
     tt_feePool = \<lparr>rb_items = map (instanceOptions demo_tron_config) [''fee1'', ''fee2''], rb_cursor = 0\<rparr>,
     tt_hdPath = ''m'', tt_feeAddresses = None\<rparr>"

text \<open>A node that knows one transfer, mined in block 100 and out of energy, under a head at block 130.\<close>

definition demo_node :: tron_node where
  "demo_node = \<lparr>tn_balanceOf = (\<lambda>_ _ _. Inr (Raw_text ''5000000'')), tn_transfer = (\<lambda>_ _ _ _. Inr ''tx1''),
     tn_getBalance = (\<lambda>_ _. Inr (Inr ''7'')),
     tn_sendTransaction = (\<lambda>wallet _ _. Inr (JObj [(''txid'', JStr (to_privateKey wallet))])),
     tn_getTransactionInfo = (\<lambda>_ _. Inr (JObj [(''blockNumber'', JNum 100),
        (''receipt'', JObj [(''result'', JStr ''OUT_OF_ENERGY'')])])),
     tn_getConfirmedTransaction = (\<lambda>_ _. Inl (PlainError ''unused'')),
     tn_getCurrentBlock = (\<lambda>_. Inr (JObj [(''block_header'', JObj [(''raw_data'', JObj [(''number'', JNum 130)])])]))\<rparr>"

theorem adapter_derives_injectively_witness:
  "wallet_injective (\<lambda>i. case tw_deriveDepositAddress demo_tron i of Inl err \<Rightarrow> Inl err | Inr (j, a) \<Rightarrow> Inr a)"
  by (rule adapter_derives_injectively) (auto simp: demo_tron_def demo_class_def toBase58_def)

theorem sweep_signs_for_deposit_witness:
  "\<exists>signer. signs_for demo_tron signer ''Tm/4'' \<and> to_fullHost signer = ''https://node'' \<and>
     tn_transfer demo_node signer ''TUSDT'' ''Tcollect'' 5 = Inr ''tx1''"
proof -
  have "\<exists>signer. signs_for demo_tron signer ''Tm/4'' \<and> to_fullHost signer = tw_fullHost (tt_cfg demo_tron) \<and>
     tn_transfer demo_node signer (tw_contractAddress (tt_cfg demo_tron)) ''Tcollect'' 5 = Inr ''tx1''"
  proof (rule sweep_signs_for_deposit[where i = 4 and index = 4 and fromAddress = "''Tm/4''"])
    show "tc_fromPrivateKey (tt_TronWeb demo_tron) (ta_privateKey acc) = toBase58 demo_tron (ta_address acc)"
      if "tc_fromMnemonic (tt_TronWeb demo_tron) (tw_mnemonic (tt_cfg demo_tron)) p = Inr acc" for p acc
      using that by (auto simp: demo_tron_def demo_class_def toBase58_def)
    show "tw_deriveDepositAddress demo_tron 4 = Inr (4, ''Tm/4'')"
      by (simp add: tw_deriveDepositAddress_def deriveAccount_def derivation_path_def toBase58_def demo_tron_def
          demo_class_def string_of_int_def nat_digits.simps digit_char_def char_of_def bit_iff_odd)
    show "tw_sweepTrc20 demo_tron demo_node 4 ''Tm/4'' ''Tcollect'' 5 = Inr ''tx1''"
      by (simp add: tw_sweepTrc20_def privateKeyForIndex_def deriveAccount_def demo_tron_def demo_class_def demo_node_def)
  qed
  then show ?thesis by (simp add: demo_tron_def demo_tron_config_def)
qed

theorem fee_wallets_rotate_witness:
  "fst (fuel_all demo_tron (replicate 4 (demo_node, ''Tdep'', 15))) ! 3 = Inr ''fee2''"
proof -
  have "new_TronWebTreasury (Some \<lparr>tm_TronWeb = Some demo_class, tm_default = None, tm_itself = demo_class\<rparr>) demo_tron_config =
      Inr demo_tron"
    by (simp add: new_TronWebTreasury_def demo_tron_def demo_tron_config_def demo_class_def rb_new_def Let_def)
  from fee_wallets_rotate[OF this, of 3 "replicate 4 (demo_node, ''Tdep'', 15)"] show ?thesis
    by (simp add: demo_tron_config_def fuelled_by_def demo_node_def sent_id_def property_of_def json_field_def text_of_def
        instanceOptions_def numeral_3_eq_3 mod_Suc)
qed

theorem reverted_sweep_settled_witness:
  "let (r, job', w') = process_job (env_at 9) (demo_treasury\<lparr>t_isConfirmed := \<lambda>x. Inr (tw_isConfirmed demo_tron demo_node x)\<rparr>)
       demo_policy ((demo_job ''j1'' ''o1'' 20 S_SWEEPING 0)\<lparr>j_sweepTxId := Some ''tx1''\<rparr>) demo_sweep_world
   in r = Inr () \<and> j_status job' = S_SWEPT"
  by (rule reverted_sweep_settled[where tx = "''tx1''" and b = 100 and h = 130 and n = 19 and
        info = "[(''blockNumber'', JNum 100), (''receipt'', JObj [(''result'', JStr ''OUT_OF_ENERGY'')])]"])
    (simp_all add: demo_stores demo_job_def demo_node_def demo_tron_def demo_tron_config_def)

end
