(* ===== verification/Secrets.thy ===== *)
theory Secrets
  imports Prelude
begin

text \<open>
  \<^verbatim>\<open>src/secrets/secretProvider.ts\<close> and \<^verbatim>\<open>src/secrets/cachingSecretProvider.ts\<close>: named secrets from the
  environment, from a fixed table, and from a remote store behind a cache that never blocks. The remote
  store is a parameter: what each of its fetches answers, and when, are events of a step relation.
\<close>

record secret =
  sec_current :: string
  sec_previous :: "string option"

section \<open>Secrets of the environment\<close>

definition normalizeValue :: "string option \<Rightarrow> string option" where
  "normalizeValue v = (if v = None \<or> v = Some [] then None else v)"

definition env_get :: "(string \<Rightarrow> string option) \<Rightarrow> string \<Rightarrow> string option" where
  "env_get penv name = normalizeValue (penv name)"

definition env_getRotating :: "(string \<Rightarrow> string option) \<Rightarrow> string \<Rightarrow> secret option" where
  "env_getRotating penv name =
     (case env_get penv name of
        None \<Rightarrow> None
      | Some current \<Rightarrow>
          (case normalizeValue (penv (name @ ''_PREVIOUS'')) of
             None \<Rightarrow> Some \<lparr>sec_current = current, sec_previous = None\<rparr>
           | Some previous \<Rightarrow> Some \<lparr>sec_current = current, sec_previous = Some previous\<rparr>))"

section \<open>Secrets of a fixed table\<close>

text \<open>An entry is a plain text or a full secret; the constructor makes secrets of all of them.\<close>

definition static_secrets :: "(string \<times> (secret + string)) list \<Rightarrow> (string, secret) jsmap" where
  "static_secrets entries =
     foldl (\<lambda>m (name, value). jm_set name
        (case value of Inr s \<Rightarrow> \<lparr>sec_current = s, sec_previous = None\<rparr> | Inl v \<Rightarrow> v) m) [] entries"

definition static_get :: "(string, secret) jsmap \<Rightarrow> string \<Rightarrow> string option" where
  "static_get m name = (case jm_get m name of None \<Rightarrow> None | Some s \<Rightarrow> Some (sec_current s))"

definition static_getRotating :: "(string, secret) jsmap \<Rightarrow> string \<Rightarrow> secret option" where
  "static_getRotating m name =
     (case jm_get m name of
        None \<Rightarrow> None
      | Some s \<Rightarrow> Some (case sec_previous s of
            None \<Rightarrow> \<lparr>sec_current = sec_current s, sec_previous = None\<rparr>
          | Some p \<Rightarrow> \<lparr>sec_current = sec_current s, sec_previous = Some p\<rparr>))"

section \<open>The cache\<close>

record cache_entry =
  ce_value :: secret
  ce_expiresAt :: int

text \<open>
  What a fetch ends with: an error, or the secret when the store has one. A promise is \<open>Fetching\<close> until its
  fetch ends; then its \<open>then\<close> callback has run and it is \<open>Landed\<close>; after its \<open>finally\<close> callback it is \<open>Settled\<close>,
  and whoever waits for it gets the outcome.
\<close>

type_synonym fetch_outcome = "secret option result"

datatype fetch_state = Fetching | Landed fetch_outcome | Settled fetch_outcome

record secret_cache =
  sc_ttlMs :: int
  sc_cache :: "(string, cache_entry) jsmap"
  sc_inFlight :: "(string, nat) jsmap"
  sc_promises :: "(string \<times> fetch_state) list"

definition DEFAULT_TTL_MS :: int where
  "DEFAULT_TTL_MS = 300000"

definition new_secret_cache :: "int option \<Rightarrow> secret_cache" where
  "new_secret_cache ttlMs =
     \<lparr>sc_ttlMs = (case ttlMs of Some t \<Rightarrow> t | None \<Rightarrow> DEFAULT_TTL_MS), sc_cache = [], sc_inFlight = [], sc_promises = []\<rparr>"

text \<open>\<open>refresh\<close> up to its first wait: the promise it returns, and the fetch it starts unless one is under way.\<close>

definition secret_refresh :: "string \<Rightarrow> secret_cache \<Rightarrow> nat \<times> secret_cache" where
  "secret_refresh name st =
     (case jm_get (sc_inFlight st) name of
        Some existing \<Rightarrow> (existing, st)
      | None \<Rightarrow> let p = length (sc_promises st)
          in (p, st\<lparr>sc_promises := sc_promises st @ [(name, Fetching)],
               sc_inFlight := jm_set name p (sc_inFlight st)\<rparr>))"

text \<open>The callbacks of the promise \<open>p\<close>, when its fetch has ended at the time \<open>now\<close>.\<close>

definition secret_landed :: "nat \<Rightarrow> fetch_outcome \<Rightarrow> int \<Rightarrow> secret_cache \<Rightarrow> secret_cache" where
  "secret_landed p outcome now st =
     (let name = fst (sc_promises st ! p); st1 = st\<lparr>sc_promises := (sc_promises st)[p := (name, Landed outcome)]\<rparr>
      in case outcome of
           Inl err \<Rightarrow> st1
         | Inr None \<Rightarrow> st1\<lparr>sc_cache := jm_delete name (sc_cache st)\<rparr>
         | Inr (Some v) \<Rightarrow>
             st1\<lparr>sc_cache := jm_set name \<lparr>ce_value = v, ce_expiresAt = now + sc_ttlMs st\<rparr> (sc_cache st)\<rparr>)"

definition secret_settled :: "nat \<Rightarrow> fetch_outcome \<Rightarrow> secret_cache \<Rightarrow> secret_cache" where
  "secret_settled p outcome st =
     (let name = fst (sc_promises st ! p)
      in st\<lparr>sc_promises := (sc_promises st)[p := (name, Settled outcome)],
           sc_inFlight := jm_delete name (sc_inFlight st)\<rparr>)"

text \<open>\<open>backgroundRefresh\<close> starts what \<open>refresh\<close> starts; its rejection is logged and goes no further.\<close>

definition backgroundRefresh :: "string \<Rightarrow> secret_cache \<Rightarrow> secret_cache" where
  "backgroundRefresh name st = snd (secret_refresh name st)"

definition secret_serve :: "int \<Rightarrow> string \<Rightarrow> secret_cache \<Rightarrow> secret option \<times> secret_cache" where
  "secret_serve now name st =
     (case jm_get (sc_cache st) name of
        None \<Rightarrow> (None, backgroundRefresh name st)
      | Some entry \<Rightarrow>
          (Some (ce_value entry), if now \<ge> ce_expiresAt entry then backgroundRefresh name st else st))"

definition cached_get :: "int \<Rightarrow> string \<Rightarrow> secret_cache \<Rightarrow> string option \<times> secret_cache" where
  "cached_get now name st =
     (let (value, st1) = secret_serve now name st
      in (case value of None \<Rightarrow> None | Some v \<Rightarrow> Some (sec_current v), st1))"

definition cached_getRotating :: "int \<Rightarrow> string \<Rightarrow> secret_cache \<Rightarrow> secret option \<times> secret_cache" where
  "cached_getRotating now name st =
     (let (value, st1) = secret_serve now name st
      in (case value of
            None \<Rightarrow> None
          | Some v \<Rightarrow> Some (case sec_previous v of
                None \<Rightarrow> \<lparr>sec_current = sec_current v, sec_previous = None\<rparr>
              | Some p \<Rightarrow> \<lparr>sec_current = sec_current v, sec_previous = Some p\<rparr>), st1))"

definition secret_prime :: "string list \<Rightarrow> secret_cache \<Rightarrow> secret_cache" where
  "secret_prime names st = foldl (\<lambda>st name. backgroundRefresh name st) st names"

section \<open>Runs\<close>

text \<open>
  Every interleaving of calls, of fetches that end and of callbacks that run; \<open>log\<close> keeps what the fetches
  that did not fail have brought, the latest first, with the time.
\<close>

inductive secret_run :: "int option \<Rightarrow> secret_cache \<Rightarrow> (string \<times> (secret \<times> int) option) list \<Rightarrow> bool"
  for ttl where
  start: "secret_run ttl (new_secret_cache ttl) []"
| call_get: "secret_run ttl st log \<Longrightarrow> secret_run ttl (snd (cached_get now name st)) log"
| call_getRotating: "secret_run ttl st log \<Longrightarrow> secret_run ttl (snd (cached_getRotating now name st)) log"
| call_refresh: "secret_run ttl st log \<Longrightarrow> secret_run ttl (snd (secret_refresh name st)) log"
| fetch_failed: "secret_run ttl st log \<Longrightarrow> p < length (sc_promises st) \<Longrightarrow> sc_promises st ! p = (name, Fetching) \<Longrightarrow>
    secret_run ttl (secret_landed p (Inl err) now st) log"
| fetch_ended: "secret_run ttl st log \<Longrightarrow> p < length (sc_promises st) \<Longrightarrow> sc_promises st ! p = (name, Fetching) \<Longrightarrow>
    secret_run ttl (secret_landed p (Inr v) now st) ((name, map_option (\<lambda>s. (s, now)) v) # log)"
| finished: "secret_run ttl st log \<Longrightarrow> p < length (sc_promises st) \<Longrightarrow> sc_promises st ! p = (name, Landed outcome) \<Longrightarrow>
    secret_run ttl (secret_settled p outcome st) log"

definition under_way :: "secret_cache \<Rightarrow> string \<Rightarrow> nat \<Rightarrow> bool" where
  "under_way st name p \<longleftrightarrow> p < length (sc_promises st) \<and> fst (sc_promises st ! p) = name \<and>
     (case snd (sc_promises st ! p) of Settled outcome \<Rightarrow> False | _ \<Rightarrow> True)"

text \<open>The table of fetches in flight holds exactly the promises that are not settled.\<close>

definition in_flight_ok :: "secret_cache \<Rightarrow> bool" where
  "in_flight_ok st \<longleftrightarrow> (\<forall>name p. jm_get (sc_inFlight st) name = Some p \<longleftrightarrow> under_way st name p)"

lemma in_flight_start: "in_flight_ok (new_secret_cache ttl)"
  by (simp add: in_flight_ok_def new_secret_cache_def under_way_def)

lemma in_flight_iff: "in_flight_ok st \<Longrightarrow> jm_get (sc_inFlight st) name = Some p \<longleftrightarrow> under_way st name p"
  by (simp add: in_flight_ok_def)

lemma in_flight_refresh:
  assumes ok: "in_flight_ok st"
  shows "in_flight_ok (snd (secret_refresh name st))"
proof (cases "jm_get (sc_inFlight st) name")
  case None
  then have none: "\<not> under_way st name q" for q using in_flight_iff[OF ok, of name q] by simp
  let ?st = "snd (secret_refresh name st)"
  have "under_way ?st n q \<longleftrightarrow> under_way st n q \<or> (n = name \<and> q = length (sc_promises st))" for n q
    using None by (auto simp: secret_refresh_def under_way_def Let_def nth_append less_Suc_eq)
  moreover have "jm_get (sc_inFlight ?st) n = Some q \<longleftrightarrow>
      (if n = name then q = length (sc_promises st) else under_way st n q)" for n q
    using None in_flight_iff[OF ok] by (auto simp: secret_refresh_def Let_def)
  ultimately show ?thesis using none by (simp add: in_flight_ok_def)
next
  case (Some p)
  then show ?thesis using ok by (simp add: secret_refresh_def)
qed

lemma in_flight_serve: "in_flight_ok st \<Longrightarrow> in_flight_ok (snd (secret_serve now name st))"
  by (auto simp: secret_serve_def backgroundRefresh_def in_flight_refresh split: option.splits)

lemma landed_under_way:
  assumes "p < length (sc_promises st)" "sc_promises st ! p = (name, Fetching)"
  shows "under_way (secret_landed p outcome now st) = under_way st"
    "sc_inFlight (secret_landed p outcome now st) = sc_inFlight st"
  using assms
  by (auto simp: secret_landed_def under_way_def Let_def nth_list_update fun_eq_iff split: sum.splits option.splits)

lemma in_flight_settled:
  assumes ok: "in_flight_ok st" and p: "p < length (sc_promises st)" "sc_promises st ! p = (name, Landed outcome)"
  shows "in_flight_ok (secret_settled p outcome st)"
  unfolding in_flight_ok_def
proof (intro allI)
  fix n q
  have own: "jm_get (sc_inFlight st) name = Some p" using ok p by (simp add: in_flight_ok_def under_way_def)
  have "under_way (secret_settled p outcome st) n q \<longleftrightarrow> under_way st n q \<and> q \<noteq> p"
    using p by (auto simp: secret_settled_def under_way_def Let_def nth_list_update)
  moreover have "jm_get (sc_inFlight st) n = Some q \<longleftrightarrow> under_way st n q" for n q
    using ok by (simp add: in_flight_ok_def)
  moreover have "under_way st name q \<longleftrightarrow> q = p" for q using own in_flight_iff[OF ok, of name q] by auto
  moreover have "under_way st n p \<longleftrightarrow> n = name" using p by (auto simp: under_way_def)
  ultimately show "jm_get (sc_inFlight (secret_settled p outcome st)) n = Some q \<longleftrightarrow>
      under_way (secret_settled p outcome st) n q"
    using p by (cases "n = name") (auto simp: secret_settled_def Let_def)
qed

lemma cached_get_state [simp]: "snd (cached_get now name st) = snd (secret_serve now name st)"
  "snd (cached_getRotating now name st) = snd (secret_serve now name st)"
  by (simp_all add: cached_get_def cached_getRotating_def split_beta Let_def)

lemma run_in_flight_ok: "secret_run ttl st log \<Longrightarrow> in_flight_ok st"
proof (induction rule: secret_run.induct)
  case start
  show ?case by (rule in_flight_start)
next
  case (call_get st log now name)
  then show ?case by (simp add: in_flight_serve)
next
  case (call_getRotating st log now name)
  then show ?case by (simp add: in_flight_serve)
next
  case (call_refresh st log name)
  then show ?case by (simp add: in_flight_refresh)
next
  case (fetch_failed st log p name err now)
  then show ?case by (simp add: in_flight_ok_def landed_under_way)
next
  case (fetch_ended st log p name v now)
  then show ?case by (simp add: in_flight_ok_def landed_under_way)
next
  case (finished st log p name outcome)
  then show ?case by (simp add: in_flight_settled)
qed

text \<open>However calls and answers interleave, at most one fetch of a secret is under way.\<close>

theorem one_fetch_per_secret:
  "secret_run ttl st log \<Longrightarrow> under_way st name p \<Longrightarrow> under_way st name q \<Longrightarrow> p = q"
  using run_in_flight_ok[of ttl st log] by (metis in_flight_ok_def option.inject)

section \<open>What is served\<close>

text \<open>The entry of a secret, from what the fetches have brought.\<close>

definition latest :: "int option \<Rightarrow> (string \<times> (secret \<times> int) option) list \<Rightarrow> string \<Rightarrow> cache_entry option" where
  "latest ttl log name =
     (case map_of log name of
        Some (Some (s, t)) \<Rightarrow> Some \<lparr>ce_value = s, ce_expiresAt = t + sc_ttlMs (new_secret_cache ttl)\<rparr>
      | _ \<Rightarrow> None)"

lemma refresh_keeps:
  "sc_cache (snd (secret_refresh name st)) = sc_cache st" "sc_ttlMs (snd (secret_refresh name st)) = sc_ttlMs st"
  by (simp_all add: secret_refresh_def Let_def split: option.split)

lemma serve_keeps:
  "sc_cache (snd (secret_serve now name st)) = sc_cache st" "sc_ttlMs (snd (secret_serve now name st)) = sc_ttlMs st"
  by (simp_all add: secret_serve_def backgroundRefresh_def refresh_keeps split: option.split)

lemma run_cache:
  "secret_run ttl st log \<Longrightarrow> (\<forall>name. jm_get (sc_cache st) name = latest ttl log name) \<and> sc_ttlMs st = sc_ttlMs (new_secret_cache ttl)"
proof (induction rule: secret_run.induct)
  case start
  show ?case by (simp add: new_secret_cache_def latest_def)
next
  case (fetch_ended st log p name v now)
  then show ?case by (cases v) (auto simp: secret_landed_def latest_def Let_def)
qed (auto simp: serve_keeps refresh_keeps secret_landed_def secret_settled_def Let_def)

lemma refresh_under_way:
  assumes "in_flight_ok st"
  shows "\<exists>p. under_way (snd (secret_refresh name st)) name p"
proof (cases "jm_get (sc_inFlight st) name")
  case None
  then have "under_way (snd (secret_refresh name st)) name (length (sc_promises st))"
    by (simp add: secret_refresh_def under_way_def Let_def)
  then show ?thesis ..
next
  case (Some p)
  then have "under_way st name p" using in_flight_iff[OF assms] by simp
  then show ?thesis using Some by (auto simp: secret_refresh_def)
qed

text \<open>
  C30: A read never waits: it serves what the last fetch that did not fail has brought, and when that is nothing or
  too old, a fetch is under way when it returns.
\<close>

theorem secret_served:
  assumes "secret_run ttl st log" "cached_getRotating now name st = (value, st')"
  shows "value = map_option ce_value (latest ttl log name) \<and>
    ((case latest ttl log name of None \<Rightarrow> True | Some entry \<Rightarrow> ce_expiresAt entry \<le> now) \<longrightarrow> (\<exists>p. under_way st' name p))"
proof (intro conjI impI)
  have c: "jm_get (sc_cache st) name = latest ttl log name" using run_cache[OF assms(1)] by simp
  have copy: "(case sec_previous v of None \<Rightarrow> \<lparr>sec_current = sec_current v, sec_previous = None\<rparr>
      | Some p \<Rightarrow> \<lparr>sec_current = sec_current v, sec_previous = Some p\<rparr>) = v" for v :: secret
    by (cases v) (simp split: option.split)
  show "value = map_option ce_value (latest ttl log name)"
    using assms(2) c by (auto simp: cached_getRotating_def secret_serve_def copy split: option.splits)
  assume old: "case latest ttl log name of None \<Rightarrow> True | Some entry \<Rightarrow> ce_expiresAt entry \<le> now"
  have "st' = snd (secret_serve now name st)" using assms(2) cached_get_state(2)[of now name st] by simp
  then have "st' = snd (secret_refresh name st)"
    using c old by (auto simp: secret_serve_def backgroundRefresh_def split: option.splits)
  then show "\<exists>p. under_way st' name p"
    using refresh_under_way[OF run_in_flight_ok[OF assms(1)]] by simp
qed

section \<open>Worked example\<close>

text \<open>A miss starts a fetch; it brings a secret at time 50, which is served from then on.\<close>

definition demo_secret_run :: "nat \<Rightarrow> secret_cache" where
  "demo_secret_run n =
     (let st1 = snd (secret_refresh ''K'' (new_secret_cache (Some 100)));
          st2 = secret_landed 0 (Inr (Some \<lparr>sec_current = ''v1'', sec_previous = None\<rparr>)) 50 st1
      in if n = 0 then new_secret_cache (Some 100) else if n = 1 then st1 else st2)"

lemma demo_secret_reached:
  "secret_run (Some 100) (demo_secret_run 2) [(''K'', Some (\<lparr>sec_current = ''v1'', sec_previous = None\<rparr>, 50))]"
proof -
  have "secret_run (Some 100) (demo_secret_run 1) []"
    using call_refresh[OF start, of "Some 100" "''K''"] by (simp add: demo_secret_run_def)
  from fetch_ended[OF this, of 0 "''K''" "Some \<lparr>sec_current = ''v1'', sec_previous = None\<rparr>" 50]
  show ?thesis by (simp add: demo_secret_run_def secret_refresh_def new_secret_cache_def Let_def)
qed

theorem secret_served_witness:
  "let (value, st') = cached_getRotating 150 ''K'' (demo_secret_run 2) in
     value = Some \<lparr>sec_current = ''v1'', sec_previous = None\<rparr> \<and> (\<exists>p. under_way st' ''K'' p)"
proof -
  let ?r = "cached_getRotating 150 ''K'' (demo_secret_run 2)"
  have "latest (Some 100) [(''K'', Some (\<lparr>sec_current = ''v1'', sec_previous = None\<rparr>, 50))] ''K'' =
      Some \<lparr>ce_value = \<lparr>sec_current = ''v1'', sec_previous = None\<rparr>, ce_expiresAt = 150\<rparr>"
    by (simp add: latest_def new_secret_cache_def)
  then show ?thesis
    using secret_served[OF demo_secret_reached, of 150 "''K''" "fst ?r" "snd ?r", OF prod.collapse[symmetric]]
    by (simp add: split_beta Let_def)
qed

end
