(* ===== verification/EmailText.thy ===== *)
theory EmailText
  imports Subscriptions Accounts WebText
begin

text \<open>
  \<^verbatim>\<open>src/notifications/emailTemplates.ts\<close> and \<^verbatim>\<open>src/notifications/emailNotifier.ts\<close>: localized billing mail, and
  the notifier that writes it. The Chinese texts do not fit 8-bit characters: the text of a mail is a list of
  UTF-16 code units (\<open>utext\<close>), in which an ordinary string is embedded by \<open>units\<close>. The mail sender is a
  parameter.
\<close>

section \<open>Texts of code units\<close>

type_synonym utext = "nat list"

definition units :: "string \<Rightarrow> utext" where
  "units s = map of_char s"

text \<open>The code units \<open>trim\<close> removes.\<close>

definition space_unit :: "nat \<Rightarrow> bool" where
  "space_unit u = (u \<in> {9, 10, 11, 12, 13, 32, 160, 5760, 8232, 8233, 8239, 8287, 12288, 65279} \<or> 8192 \<le> u \<and> u \<le> 8202)"

definition trim_units :: "utext \<Rightarrow> utext" where
  "trim_units s = rev (dropWhile space_unit (rev (dropWhile space_unit s)))"

fun join_units :: "utext \<Rightarrow> utext list \<Rightarrow> utext" where
  "join_units sep [] = []"
| "join_units sep [x] = x"
| "join_units sep (x # y # xs) = x @ sep @ join_units sep (y # xs)"

section \<open>Templates\<close>

datatype mail_locale = zh_CN | en_locale

datatype email_type = payment_receipt | refund_notice | expiry_reminder | expired_notice

record email_data =
  ed_userName :: "string option"
  ed_planName :: string
  ed_amountMinor :: "int option"
  ed_currency :: "currency option"
  ed_expiryDate :: "string option"
  ed_reference :: "string option"

record rendered_email =
  re_subject :: utext
  re_text :: utext
  re_html :: utext

definition normaliseLocale :: "string \<Rightarrow> mail_locale" where
  "normaliseLocale l = (if l \<in> set SUPPORTED_LOCALES then (if l = ''zh-CN'' then zh_CN else en_locale) else en_locale)"

definition mail_money :: "email_data \<Rightarrow> string result" where
  "mail_money d =
     (case (ed_amountMinor d, ed_currency d) of
        (Some a, Some c) \<Rightarrow>
          (case fromMinorUnits a c of Inl err \<Rightarrow> Inl err | Inr t \<Rightarrow> Inr (t @ '' '' @ currency_name c))
      | _ \<Rightarrow> Inr [])"

text \<open>Each \<open>replace\<close> of \<open>esc\<close>, one after the other.\<close>

definition replace_unit :: "nat \<Rightarrow> utext \<Rightarrow> utext \<Rightarrow> utext" where
  "replace_unit c t s = concat (map (\<lambda>u. if u = c then t else [u]) s)"

definition esc :: "utext \<Rightarrow> utext" where
  "esc s = replace_unit 34 (units ''&quot;'') (replace_unit 62 (units ''&gt;'') (replace_unit 60 (units ''&lt;'')
     (replace_unit 38 (units ''&amp;'') s)))"

text \<open>The subject and lines of each template, Chinese and English.\<close>

definition payment_receipt_zh :: "string \<Rightarrow> email_data \<Rightarrow> utext \<times> utext list" where
  "payment_receipt_zh amount d =
     ([25903, 20184, 25104, 21151, 65306] @ units (ed_planName d),
      [(if truthy (ed_userName d) then units (the (ed_userName d)) @ [65292] else []) @ [24744, 22909, 65306],
       [25105, 20204, 24050, 25910, 21040, 24744, 30340, 20184, 27454, 65292, 24863, 35874, 24744, 36141, 20080] @ units '' VPN '' @ [26381, 21153, 12290],
       [22871, 39184, 65306] @ units (ed_planName d),
       [37329, 39069, 65306] @ units amount,
       (if truthy (ed_reference d) then [35746, 21333, 21495, 65306] @ units (the (ed_reference d)) else []),
       [24744, 30340, 26381, 21153, 24050, 24320, 36890, 65292, 31069, 24744, 20351, 29992, 24841, 24555, 12290]])"

definition payment_receipt_en :: "string \<Rightarrow> email_data \<Rightarrow> utext \<times> utext list" where
  "payment_receipt_en amount d =
     (units ''Payment received: '' @ units (ed_planName d),
      [(if truthy (ed_userName d) then units ''Hi '' @ units (the (ed_userName d)) @ units '','' else units ''Hello,''),
       units ''Thank you for your purchase. Your payment has been received.'',
       units ''Plan: '' @ units (ed_planName d),
       units ''Amount: '' @ units amount,
       (if truthy (ed_reference d) then units ''Order: '' @ units (the (ed_reference d)) else []),
       units ''Your service is now active. Enjoy!''])"

definition refund_notice_zh :: "string \<Rightarrow> email_data \<Rightarrow> utext \<times> utext list" where
  "refund_notice_zh amount d =
     ([36864, 27454, 36890, 30693, 65306] @ units (ed_planName d),
      [(if truthy (ed_userName d) then units (the (ed_userName d)) @ [65292] else []) @ [24744, 22909, 65306],
       [24744, 30340, 36864, 27454, 24050, 22788, 29702, 12290],
       [22871, 39184, 65306] @ units (ed_planName d),
       [36864, 27454, 37329, 39069, 65306] @ units amount,
       (if truthy (ed_reference d) then [36864, 27454, 21333, 21495, 65306] @ units (the (ed_reference d)) else []),
       [27454, 39033, 23558, 25353, 21407, 36335, 36864, 22238, 65292, 35831, 30041, 24847, 21040, 36134, 12290]])"

definition refund_notice_en :: "string \<Rightarrow> email_data \<Rightarrow> utext \<times> utext list" where
  "refund_notice_en amount d =
     (units ''Refund processed: '' @ units (ed_planName d),
      [(if truthy (ed_userName d) then units ''Hi '' @ units (the (ed_userName d)) @ units '','' else units ''Hello,''),
       units ''Your refund has been processed.'',
       units ''Plan: '' @ units (ed_planName d),
       units ''Refund amount: '' @ units amount,
       (if truthy (ed_reference d) then units ''Refund ref: '' @ units (the (ed_reference d)) else []),
       units ''The amount will be returned to your original payment method.''])"

definition expiry_reminder_zh :: "email_data \<Rightarrow> utext \<times> utext list" where
  "expiry_reminder_zh d =
     ([32493, 36153, 25552, 37266, 65306] @ units (ed_planName d) @ units '' '' @ [21363, 23558, 21040, 26399],
      [(if truthy (ed_userName d) then units (the (ed_userName d)) @ [65292] else []) @ [24744, 22909, 65306],
       [24744, 30340] @ units '' VPN '' @ [35746, 38405, 21363, 23558, 21040, 26399, 12290],
       [22871, 39184, 65306] @ units (ed_planName d),
       (if truthy (ed_expiryDate d) then [21040, 26399, 26102, 38388, 65306] @ units (the (ed_expiryDate d)) else []),
       [35831, 21450, 26102, 32493, 36153, 65292, 20197, 20813, 26381, 21153, 20013, 26029, 12290]])"

definition expiry_reminder_en :: "email_data \<Rightarrow> utext \<times> utext list" where
  "expiry_reminder_en d =
     (units ''Renewal reminder: '' @ units (ed_planName d) @ units '' is expiring soon'',
      [(if truthy (ed_userName d) then units ''Hi '' @ units (the (ed_userName d)) @ units '','' else units ''Hello,''),
       units ''Your VPN subscription is about to expire.'',
       units ''Plan: '' @ units (ed_planName d),
       (if truthy (ed_expiryDate d) then units ''Expires: '' @ units (the (ed_expiryDate d)) else []),
       units ''Please renew in time to avoid any interruption.''])"

definition expired_notice_zh :: "email_data \<Rightarrow> utext \<times> utext list" where
  "expired_notice_zh d =
     ([26381, 21153, 24050, 21040, 26399, 65306] @ units (ed_planName d),
      [(if truthy (ed_userName d) then units (the (ed_userName d)) @ [65292] else []) @ [24744, 22909, 65306],
       [24744, 30340] @ units '' VPN '' @ [35746, 38405, 24050, 21040, 26399, 65292, 26381, 21153, 24050, 26242, 20572, 12290],
       [22871, 39184, 65306] @ units (ed_planName d),
       [32493, 36153, 21518, 21363, 21487, 31435, 21363, 24674, 22797, 20351, 29992, 65292, 27426, 36814, 22238, 26469, 12290]])"

definition expired_notice_en :: "email_data \<Rightarrow> utext \<times> utext list" where
  "expired_notice_en d =
     (units ''Subscription expired: '' @ units (ed_planName d),
      [(if truthy (ed_userName d) then units ''Hi '' @ units (the (ed_userName d)) @ units '','' else units ''Hello,''),
       units ''Your VPN subscription has expired and service is now paused.'',
       units ''Plan: '' @ units (ed_planName d),
       units ''Renew any time to restore access instantly. Welcome back!''])"

definition TEMPLATES :: "mail_locale \<Rightarrow> email_type \<Rightarrow> email_data \<Rightarrow> (utext \<times> utext list) result" where
  "TEMPLATES loc ty d =
     (case ty of
        payment_receipt \<Rightarrow> (case mail_money d of Inl err \<Rightarrow> Inl err
          | Inr amount \<Rightarrow> Inr (case loc of zh_CN \<Rightarrow> payment_receipt_zh amount d | en_locale \<Rightarrow> payment_receipt_en amount d))
      | refund_notice \<Rightarrow> (case mail_money d of Inl err \<Rightarrow> Inl err
          | Inr amount \<Rightarrow> Inr (case loc of zh_CN \<Rightarrow> refund_notice_zh amount d | en_locale \<Rightarrow> refund_notice_en amount d))
      | expiry_reminder \<Rightarrow> Inr (case loc of zh_CN \<Rightarrow> expiry_reminder_zh d | en_locale \<Rightarrow> expiry_reminder_en d)
      | expired_notice \<Rightarrow> Inr (case loc of zh_CN \<Rightarrow> expired_notice_zh d | en_locale \<Rightarrow> expired_notice_en d))"

definition renderEmail :: "email_type \<Rightarrow> string \<Rightarrow> email_data \<Rightarrow> rendered_email result" where
  "renderEmail ty l d =
     (case TEMPLATES (normaliseLocale l) ty d of
        Inl err \<Rightarrow> Inl err
      | Inr (subject, lines) \<Rightarrow>
          let body = filter (\<lambda>x. trim_units x \<noteq> []) lines
          in Inr \<lparr>re_subject = subject, re_text = join_units [10] body,
               re_html = units ''<div>'' @ concat (map (\<lambda>x. units ''<p>'' @ esc x @ units ''</p>'') body) @ units ''</div>''\<rparr>)"

section \<open>The notifier\<close>

record outgoing_email =
  oe_to :: string
  oe_subject :: utext
  oe_text :: utext
  oe_html :: utext

type_synonym mail_sender = "outgoing_email \<Rightarrow> unit result"

fun EVENT_TO_EMAIL :: "notification_type \<Rightarrow> email_type" where
  "EVENT_TO_EMAIL subscription_expiring = expiry_reminder"
| "EVENT_TO_EMAIL subscription_expired = expired_notice"

text \<open>The data of a notification's mail; \<open>new Date(..)\<close> may throw.\<close>

definition notification_data :: "plan list \<Rightarrow> user_contact \<Rightarrow> notification_event \<Rightarrow> email_data result" where
  "notification_data plans contact ev =
     (case toISOString (n_expiresAt ev) of
        Inl err \<Rightarrow> Inl err
      | Inr isoText \<Rightarrow> Inr \<lparr>ed_userName = uc_name contact,
          ed_planName = (case getPlan plans (n_planId ev) of Some p \<Rightarrow> p_name p | None \<Rightarrow> n_planId ev),
          ed_amountMinor = None, ed_currency = None, ed_expiryDate = Some (js_slice 0 10 isoText), ed_reference = None\<rparr>)"

definition mail_notify :: "mail_sender \<Rightarrow> (string \<Rightarrow> user_contact option) \<Rightarrow> plan list \<Rightarrow> notifier" where
  "mail_notify send users plans ev =
     (case users (n_userId ev) of
        None \<Rightarrow> Inr ()
      | Some contact \<Rightarrow>
          if uc_email contact = [] then Inr ()
          else (case notification_data plans contact ev of
              Inl err \<Rightarrow> Inl err
            | Inr d \<Rightarrow> (case renderEmail (EVENT_TO_EMAIL (n_type ev)) (uc_locale contact) d of
                Inl err \<Rightarrow> Inl err
              | Inr r \<Rightarrow> send \<lparr>oe_to = uc_email contact, oe_subject = re_subject r, oe_text = re_text r, oe_html = re_html r\<rparr>)))"

text \<open>The senders and notifiers for development and tests: one logs and succeeds, the other keeps what it is given.\<close>

definition ConsoleMailSender :: mail_sender where
  "ConsoleMailSender email = Inr ()"

definition recording_send :: "outgoing_email \<Rightarrow> outgoing_email list \<Rightarrow> outgoing_email list" where
  "recording_send email sent = sent @ [email]"

definition LoggerNotifier :: notifier where
  "LoggerNotifier ev = Inr ()"

section \<open>Escaping\<close>

text \<open>What the escaping makes of one code unit, and the reader's inverse.\<close>

definition esc_unit :: "nat \<Rightarrow> utext" where
  "esc_unit u = (if u = 38 then units ''&amp;'' else if u = 60 then units ''&lt;'' else if u = 62 then units ''&gt;''
     else if u = 34 then units ''&quot;'' else [u])"

lemma replace_unit_simps [simp]:
  "replace_unit c t [] = []"
  "replace_unit c t (u # s) = (if u = c then t else [u]) @ replace_unit c t s"
  "replace_unit c t (s1 @ s2) = replace_unit c t s1 @ replace_unit c t s2"
  by (simp_all add: replace_unit_def)

lemma esc_eq: "esc s = concat (map esc_unit s)"
proof (induction s)
  case (Cons u s)
  have "esc (u # s) = esc [u] @ esc s" by (simp add: esc_def)
  moreover have "esc [u] = esc_unit u" by (simp add: esc_def esc_unit_def units_def)
  ultimately show ?case using Cons.IH by simp
qed (simp add: esc_def)

fun unescape :: "utext \<Rightarrow> utext" where
  "unescape [] = []"
| "unescape (u # s) =
     (if u = 38 \<and> take 4 s = units ''amp;'' then 38 # unescape (drop 4 s)
      else if u = 38 \<and> take 3 s = units ''lt;'' then 60 # unescape (drop 3 s)
      else if u = 38 \<and> take 3 s = units ''gt;'' then 62 # unescape (drop 3 s)
      else if u = 38 \<and> take 5 s = units ''quot;'' then 34 # unescape (drop 5 s)
      else u # unescape s)"

lemma unescape_esc_unit: "unescape (esc_unit u @ s) = u # unescape s"
  by (auto simp: esc_unit_def units_def)

text \<open>
  Whatever a user calls himself, his text stays text: what a line of a mail becomes in HTML has no markup of its
  own, and a reader of HTML gets the line back.
\<close>

theorem escaped_text: "unescape (esc s) = s \<and> set (esc s) \<inter> {60, 62, 34} = {}"
proof -
  have "unescape (concat (map esc_unit s)) = s" by (induction s) (simp_all add: unescape_esc_unit)
  moreover have "set (esc_unit u) \<inter> {60, 62, 34} = {}" for u by (simp add: esc_unit_def units_def)
  ultimately show ?thesis by (auto simp: esc_eq)
qed

section \<open>A notification that fails\<close>

lemma remind_blocked:
  fixes now
  defines "ev \<equiv> notification_of subscription_expiring now"
  assumes wf: "sub_store_wf st" and order: "sub_listActive st = pre @ s # post"
    and due: "dueForReminder now windowEnd s" and fails: "\<not> is_ok (notify (ev s))"
  shows "\<exists>err st' sent. remind_loop now windowEnd notify (sub_listActive st) n (st, ns) = (Inl err, st', ns @ map ev sent) \<and>
    set sent \<subseteq> set pre \<and>
    (\<forall>i x. sub_find st i = Some x \<longrightarrow>
      sub_find st' i = Some (if x \<in> set sent then x\<lparr>s_expiryNotifiedAt := Some now\<rparr> else x))"
proof -
  let ?D = "filter (dueForReminder now windowEnd) (sub_listActive st)"
  let ?P = "\<lambda>s. is_ok (notify (ev s))" and ?f = "\<lambda>s. s\<lparr>s_expiryNotifiedAt := Some now\<rparr>"
  define sent where "sent = delivered notify ev ?D"
  have D: "?D = filter (dueForReminder now windowEnd) pre @ s # filter (dueForReminder now windowEnd) post"
    using due by (simp add: order)
  have sent_pre: "sent = takeWhile ?P (filter (dueForReminder now windowEnd) pre)"
    unfolding sent_def delivered_def D by (simp add: takeWhile_tail fails)
  then have "length sent < length ?D" unfolding D using length_takeWhile_le[of ?P "filter (dueForReminder now windowEnd) pre"] by simp
  then obtain x rest where left: "drop (length sent) ?D = x # rest" by (cases "drop (length sent) ?D") simp_all
  have run: "remind_loop now windowEnd notify (sub_listActive st) n (st, ns) =
      (Inl (projl (notify (ev x))), fold (\<lambda>s. sub_update (?f s)) sent st, ns @ map ev sent)"
    using left unfolding remind_loop_eq ev_def[symmetric] sent_def by simp
  have pre: "set sent \<subseteq> set pre" unfolding sent_pre by (auto dest: set_takeWhileD)
  have take: "sent = take (length sent) ?D" unfolding sent_def by (rule delivered_take)
  have sub: "set sent \<subseteq> set (sub_listActive st)" using pre order by auto
  have "distinct (map s_id sent)" using take distinct_map_take[OF distinct_active[OF wf]] by metis
  note U = sub_update_each[OF wf listActive_snapshot[OF wf sub] this, of ?f]
  have "sub_find (fold (\<lambda>s. sub_update (?f s)) sent st) i = Some (if x \<in> set sent then ?f x else x)"
    if "sub_find st i = Some x" for i x using U that by simp
  then show ?thesis using run pre by blast
qed

lemma refused_mail:
  assumes "users (n_userId ev) = Some contact" "uc_email contact \<noteq> []"
    and "\<And>m. oe_to m = uc_email contact \<Longrightarrow> \<exists>err. send m = Inl err"
  shows "\<exists>err. mail_notify send users plans ev = Inl err"
  using assms by (auto simp: mail_notify_def Let_def split: sum.split)

text \<open>
  C33: A mail that cannot be sent ends the whole pass. Let a subscription be due for a reminder whose mail is
  refused. The pass ends in an error; only subscriptions listed before it have been reminded and marked;
  every other one, in particular this one and all that are listed behind it, is as it was and was sent no
  notification; and no expired subscription has been deactivated. As the next pass meets the same
  subscription again, this lasts until it leaves the window.
\<close>

theorem refused_mail_stops_expiry:
  assumes wf: "sub_store_wf st" and order: "sub_listActive st = pre @ s # post"
    and due: "dueForReminder (now_at e 0) (now_at e 0 + reminderWindowMs) s"
    and contact: "users (s_userId s) = Some contact" "uc_email contact \<noteq> []"
    and refused: "\<And>m. oe_to m = uc_email contact \<Longrightarrow> \<exists>err. send m = Inl err"
  shows "\<exists>err st' sent. expiry_runOnce e reminderWindowMs (mail_notify send users plans) (st, ns) =
      (Inl err, st', ns @ map (notification_of subscription_expiring (now_at e 0)) sent) \<and>
    set sent \<subseteq> set pre \<and>
    (\<forall>i x. sub_find st i = Some x \<longrightarrow>
      sub_find st' i = Some (if x \<in> set sent then x\<lparr>s_expiryNotifiedAt := Some (now_at e 0)\<rparr> else x)) \<and>
    (\<forall>x \<in> set (s # post). sub_find st' (s_id x) = Some x \<and> x \<notin> set sent) \<and>
    (\<forall>i x. sub_find st i = Some x \<and> s_active x \<longrightarrow> (\<exists>y. sub_find st' i = Some y \<and> s_active y))"
proof -
  let ?ev = "notification_of subscription_expiring (now_at e 0)"
  have "\<exists>err. mail_notify send users plans (?ev s) = Inl err"
    by (rule refused_mail[OF _ contact(2)]) (simp_all add: notification_of_def contact(1) refused)
  then have "\<not> is_ok (mail_notify send users plans (?ev s))" by auto
  from remind_blocked[where notify = "mail_notify send users plans" and n = 0 and ns = ns, OF wf order due this]
  obtain err st' sent where R: "remind_loop (now_at e 0) (now_at e 0 + reminderWindowMs) (mail_notify send users plans)
      (sub_listActive st) 0 (st, ns) = (Inl err, st', ns @ map ?ev sent)" "set sent \<subseteq> set pre"
    "\<And>i x. sub_find st i = Some x \<Longrightarrow> sub_find st' i = Some (if x \<in> set sent then x\<lparr>s_expiryNotifiedAt := Some (now_at e 0)\<rparr> else x)"
    by blast
  have "expiry_runOnce e reminderWindowMs (mail_notify send users plans) (st, ns) = (Inl err, st', ns @ map ?ev sent)"
    using R(1) by (simp add: expiry_runOnce_def sendExpiryReminders_def Let_def)
  moreover have "sub_find st' (s_id x) = Some x \<and> x \<notin> set sent" if x: "x \<in> set (s # post)" for x
  proof -
    have "distinct (map s_id (filter (\<lambda>_. True) (sub_listActive st)))" by (rule distinct_active[OF wf])
    then have "x \<notin> set pre" using x by (auto simp: order)
    then have "x \<notin> set sent" using R(2) by blast
    moreover have "sub_find st (s_id x) = Some x" using x order sub_listActive_iff[OF wf, of x] by auto
    ultimately show ?thesis using R(3)[of "s_id x" x] by simp
  qed
  moreover have "\<exists>y. sub_find st' i = Some y \<and> s_active y" if "sub_find st i = Some x" "s_active x" for i x
    using R(3)[OF that(1)] that(2) by (cases "x \<in> set sent") simp_all
  ultimately show ?thesis using R(2,3) by blast
qed

text \<open>
  Two subscriptions: one expires soon and its user's mail is refused; the other expired long ago, and stays active.
\<close>

definition demo_expired :: subscription where
  "demo_expired = demo_sub\<lparr>s_id := ''s2'', s_userId := ''u2'', s_expiresAt := 100\<rparr>"

theorem refused_mail_stops_expiry_witness:
  "\<exists>err w. expiry_runOnce (env_at 900) 200
       (mail_notify (\<lambda>m. if oe_to m = ''a@b.c'' then Inl (PlainError ''SMTP expected 250 but got: 550'') else Inr ())
         (\<lambda>u. if u = ''u1'' then Some \<lparr>uc_email = ''a@b.c'', uc_locale = ''en'', uc_name = None\<rparr> else None) PLANS)
       (sub_create demo_expired demo_sub_store, []) = (Inl err, w) \<and>
     sub_find (fst w) ''s2'' = Some demo_expired"
proof -
  let ?send = "\<lambda>m. if oe_to m = ''a@b.c'' then Inl (PlainError ''SMTP expected 250 but got: 550'') else Inr ()"
  let ?users = "\<lambda>u. if u = ''u1'' then Some \<lparr>uc_email = ''a@b.c'', uc_locale = ''en'', uc_name = None\<rparr> else None"
  let ?st = "sub_create demo_expired demo_sub_store"
  have wf: "sub_store_wf ?st"
    by (rule sub_create_wf[OF demo_sub_store_wf]) (simp_all add: demo_sub_store_eq sub_find_def demo_expired_def demo_sub_def)
  have l: "sub_listActive ?st = [] @ demo_sub # [demo_expired]"
    by (simp add: demo_sub_store_eq sub_listActive_def sub_create_def demo_expired_def demo_sub_def)
  have d: "dueForReminder (now_at (env_at 900) 0) (now_at (env_at 900) 0 + 200) demo_sub"
    by (simp add: demo_sub_def dueForReminder_def)
  have c: "?users (s_userId demo_sub) = Some \<lparr>uc_email = ''a@b.c'', uc_locale = ''en'', uc_name = None\<rparr>"
    "uc_email \<lparr>uc_email = ''a@b.c'', uc_locale = ''en'', uc_name = None\<rparr> \<noteq> []" by (simp_all add: demo_sub_def)
  obtain err st' sent where r: "expiry_runOnce (env_at 900) 200 (mail_notify ?send ?users PLANS) (?st, []) =
      (Inl err, st', map (notification_of subscription_expiring (now_at (env_at 900) 0)) sent)"
    and k: "\<forall>x \<in> set (demo_sub # [demo_expired]). sub_find st' (s_id x) = Some x \<and> x \<notin> set sent"
    using refused_mail_stops_expiry[where send = ?send and users = ?users and plans = PLANS and ns = "[]", OF wf l d c] by auto
  have "s_id demo_expired = ''s2''" by (simp add: demo_expired_def)
  then have "sub_find st' ''s2'' = Some demo_expired" using k by auto
  then show ?thesis using r by auto
qed

end
