(* ===== verification/Smtp.thy ===== *)
theory Smtp
  imports EmailText
begin

text \<open>
  \<^verbatim>\<open>src/notifications/smtpMailSender.ts\<close>: the mail as the bytes of a MIME message, and the SMTP dialogue. The
  server is a parameter: the pieces its answers arrive in, and the error that ends the connection when there are
  no more. \<open>Math.random\<close> and the clock are arguments.
\<close>

section \<open>Bytes of a text\<close>

text \<open>\<open>Buffer.from(s, 'utf8')\<close> on code units; a surrogate without its partner becomes U+FFFD.\<close>

fun utf8_units :: "utext \<Rightarrow> nat list" where
  "utf8_units [] = []"
| "utf8_units (u # us) =
     (if u < 128 then u # utf8_units us
      else if u < 2048 then [192 + u div 64, 128 + u mod 64] @ utf8_units us
      else if 55296 \<le> u \<and> u \<le> 56319 \<and> us \<noteq> [] \<and> 56320 \<le> hd us \<and> hd us \<le> 57343 then
        let cp = 65536 + (u - 55296) * 1024 + (hd us - 56320)
        in [240 + cp div 262144, 128 + cp div 4096 mod 64, 128 + cp div 64 mod 64, 128 + cp mod 64] @ utf8_units (tl us)
      else if 55296 \<le> u \<and> u \<le> 57343 then [239, 191, 189] @ utf8_units us
      else [224 + u div 4096, 128 + u div 64 mod 64, 128 + u mod 64] @ utf8_units us)"

definition base64_char :: "nat \<Rightarrow> char" where
  "base64_char n =
     (if n < 26 then char_of (65 + n) else if n < 52 then char_of (71 + n) else if n < 62 then char_of (n - 4)
      else if n = 62 then CHR ''+'' else CHR ''/'')"

fun base64 :: "nat list \<Rightarrow> string" where
  "base64 [] = []"
| "base64 [a] = [base64_char (a div 4), base64_char (a mod 4 * 16), CHR ''='', CHR ''='']"
| "base64 [a, b] =
     [base64_char (a div 4), base64_char (a mod 4 * 16 + b div 16), base64_char (b mod 16 * 4), CHR ''='']"
| "base64 (a # b # c # bs) =
     [base64_char (a div 4), base64_char (a mod 4 * 16 + b div 16), base64_char (b mod 16 * 4 + c div 64),
      base64_char (c mod 64)] @ base64 bs"

section \<open>The message\<close>

definition CRLF :: string where
  "CRLF = [CHR 0x0D, CHR 0x0A]"

definition encodeHeaderWord :: "utext \<Rightarrow> string" where
  "encodeHeaderWord s =
     (if list_all (\<lambda>u. u < 128) s then map char_of s else ''=?UTF-8?B?'' @ base64 (utf8_units s) @ ''?='')"

text \<open>The pieces of at most 76 characters that \<open>match(/.{1,76}/g)\<close> finds in a text without line ends.\<close>

function pieces76 :: "string \<Rightarrow> string list" where
  "pieces76 s = (if s = [] then [] else take 76 s # pieces76 (drop 76 s))"
  by pat_completeness auto
termination by (relation "measure length") auto

declare pieces76.simps [simp del]

definition wrap76 :: "string \<Rightarrow> string" where
  "wrap76 b64 = join_with CRLF (pieces76 b64)"

definition base64Part :: "string \<Rightarrow> utext \<Rightarrow> string \<Rightarrow> string" where
  "base64Part contentType body boundary =
     join_with CRLF [''--'' @ boundary, ''Content-Type: '' @ contentType @ ''; charset=UTF-8'',
       ''Content-Transfer-Encoding: base64'', [], wrap76 (base64 (utf8_units body))]"

text \<open>\<open>n.toString(16)\<close>, and \<open>toUTCString\<close> of a time in range.\<close>

function hex_text :: "nat \<Rightarrow> string" where
  "hex_text n = (if n < 16 then [hex_digit n] else hex_text (n div 16) @ [hex_digit (n mod 16)])"
  by pat_completeness auto
termination by (relation "measure id") auto

declare hex_text.simps [simp del]

definition toUTCString :: "int \<Rightarrow> string" where
  "toUTCString ms =
     (let days = ms div 86400000; t = ms mod 86400000; (y, m, d) = civil_date days
      in [''Sun'', ''Mon'', ''Tue'', ''Wed'', ''Thu'', ''Fri'', ''Sat''] ! nat ((days + 4) mod 7) @ '', '' @ padded 2 d @ '' '' @
         [''Jan'', ''Feb'', ''Mar'', ''Apr'', ''May'', ''Jun'', ''Jul'', ''Aug'', ''Sep'', ''Oct'', ''Nov'', ''Dec''] ! nat (m - 1) @ '' '' @
         (if y < 0 then ''-'' @ padded 4 (- y) else padded 4 y) @ '' '' @ padded 2 (t div 3600000) @ '':'' @
         padded 2 (t div 60000 mod 60) @ '':'' @ padded 2 (t div 1000 mod 60) @ '' GMT'')"

definition mime_headers :: "string \<Rightarrow> string \<Rightarrow> int \<Rightarrow> outgoing_email \<Rightarrow> string list" where
  "mime_headers boundary from_addr now email =
     [''From: '' @ from_addr, ''To: '' @ oe_to email, ''Subject: '' @ encodeHeaderWord (oe_subject email),
      ''Date: '' @ toUTCString now, ''MIME-Version: 1.0'',
      ''Content-Type: multipart/alternative; boundary='' @ [CHR 0x22] @ boundary @ [CHR 0x22]]"

definition mime_boundary :: "string \<Rightarrow> int \<Rightarrow> string" where
  "mime_boundary rand now = ''bnd_'' @ rand @ hex_text (nat now)"

definition buildMimeMessage :: "string \<Rightarrow> int \<Rightarrow> string \<Rightarrow> outgoing_email \<Rightarrow> string" where
  "buildMimeMessage rand now from_addr email =
     (let boundary = mime_boundary rand now
      in join_with CRLF (mime_headers boundary from_addr now email) @ CRLF @ CRLF @
         base64Part ''text/plain'' (oe_text email) boundary @ CRLF @
         base64Part ''text/html'' (oe_html email) boundary @ CRLF @ ''--'' @ boundary @ ''--'' @ CRLF)"

text \<open>\<open>split('\r\n')\<close>\<close>

function split_crlf :: "string \<Rightarrow> string list" where
  "split_crlf [] = [[]]"
| "split_crlf (c # s) =
     (if c = CHR 0x0D \<and> s \<noteq> [] \<and> hd s = CHR 0x0A then [] # split_crlf (tl s)
      else (case split_crlf s of [] \<Rightarrow> [[c]] | l # ls \<Rightarrow> (c # l) # ls))"
  by pat_completeness auto
termination by (relation "measure length") auto

definition dotStuff :: "string \<Rightarrow> string" where
  "dotStuff msg = join_with CRLF (map (\<lambda>l. if take 1 l = ''.'' then ''.'' @ l else l) (split_crlf msg))"

section \<open>The connection\<close>

text \<open>\<open>/^\d{3} /\<close>\<close>

definition final_line :: "string \<Rightarrow> bool" where
  "final_line l = (4 \<le> length l \<and> is_digit (l ! 0) \<and> is_digit (l ! 1) \<and> is_digit (l ! 2) \<and> l ! 3 = CHR '' '')"

record smtp_reply =
  rp_code :: nat
  rp_text :: string

text \<open>\<open>tryResolve\<close>: the first complete reply of the buffer, and the buffer after it.\<close>

definition take_reply :: "string \<Rightarrow> (smtp_reply \<times> string) option" where
  "take_reply buffer =
     (let lines = split_crlf buffer; i = length (takeWhile (\<lambda>l. \<not> final_line l) lines)
      in if i < length lines
         then Some (\<lparr>rp_code = digits_val (take 3 (lines ! i)), rp_text = join_with [CHR 0x0A] (take (i + 1) lines)\<rparr>,
                    drop (length (join_with CRLF (take (i + 1) lines)) + 2) buffer)
         else None)"

record smtp_conn =
  cn_buffer :: string
  cn_pieces :: "string list"
  cn_ending :: app_error
  cn_written :: "string list"

text \<open>\<open>read\<close>: wait for pieces until the buffer holds a reply, or the connection ends.\<close>

fun await_reply :: "string \<Rightarrow> string list \<Rightarrow> (smtp_reply \<times> string \<times> string list) option" where
  "await_reply buffer [] = (case take_reply buffer of Some (r, b) \<Rightarrow> Some (r, b, []) | None \<Rightarrow> None)"
| "await_reply buffer (p # ps) =
     (case take_reply buffer of Some (r, b) \<Rightarrow> Some (r, b, p # ps) | None \<Rightarrow> await_reply (buffer @ p) ps)"

definition smtp_read :: "smtp_conn \<Rightarrow> smtp_reply result \<times> smtp_conn" where
  "smtp_read c =
     (case await_reply (cn_buffer c) (cn_pieces c) of
        None \<Rightarrow> (Inl (cn_ending c), c\<lparr>cn_buffer := cn_buffer c @ concat (cn_pieces c), cn_pieces := []\<rparr>)
      | Some (r, b, ps) \<Rightarrow> (Inr r, c\<lparr>cn_buffer := b, cn_pieces := ps\<rparr>))"

definition smtp_write :: "string \<Rightarrow> smtp_conn \<Rightarrow> smtp_conn" where
  "smtp_write s c = c\<lparr>cn_written := cn_written c @ [s]\<rparr>"

definition smtp_expect :: "nat \<Rightarrow> smtp_conn \<Rightarrow> smtp_reply result \<times> smtp_conn" where
  "smtp_expect code c =
     bindR (smtp_read c) (\<lambda>r c.
       if rp_code r \<noteq> code
       then (Inl (PlainError (''SMTP expected '' @ nat_digits code @ '' but got: '' @ rp_text r)), c)
       else (Inr r, c))"

definition smtp_cmd :: "string \<Rightarrow> nat \<Rightarrow> smtp_conn \<Rightarrow> smtp_reply result \<times> smtp_conn" where
  "smtp_cmd line code c = smtp_expect code (smtp_write (line @ CRLF) c)"

section \<open>Sending\<close>

text \<open>Host, port and \<open>secure\<close> say whom \<open>connect\<close> reaches, which is the server parameter.\<close>

record smtp_config =
  sm_host :: string
  sm_port :: num
  sm_secure :: bool
  sm_user :: "string option"
  sm_pass :: "string option"
  sm_from :: string

definition smtp_auth :: "smtp_config \<Rightarrow> smtp_conn \<Rightarrow> unit result \<times> smtp_conn" where
  "smtp_auth cfg c =
     (if truthy (sm_user cfg) \<and> truthy (sm_pass cfg) then
        bindR (smtp_cmd ''AUTH LOGIN'' 334 c) (\<lambda>_ c.
        bindR (smtp_cmd (base64 (utf8_units (units (the (sm_user cfg))))) 334 c) (\<lambda>_ c.
        bindR (smtp_cmd (base64 (utf8_units (units (the (sm_pass cfg))))) 235 c) (\<lambda>_ c. (Inr (), c))))
      else (Inr (), c))"

definition smtp_dialogue :: "smtp_config \<Rightarrow> string \<Rightarrow> int \<Rightarrow> outgoing_email \<Rightarrow> smtp_conn \<Rightarrow> unit result \<times> smtp_conn" where
  "smtp_dialogue cfg rand now email c =
     bindR (smtp_expect 220 c) (\<lambda>_ c.
     bindR (smtp_cmd ''EHLO localhost'' 250 c) (\<lambda>_ c.
     bindR (smtp_auth cfg c) (\<lambda>_ c.
     bindR (smtp_cmd (''MAIL FROM:<'' @ sm_from cfg @ ''>'') 250 c) (\<lambda>_ c.
     bindR (smtp_cmd (''RCPT TO:<'' @ oe_to email @ ''>'') 250 c) (\<lambda>_ c.
     bindR (smtp_cmd ''DATA'' 354 c) (\<lambda>_ c.
     bindR (smtp_expect 250
       (smtp_write (dotStuff (buildMimeMessage rand now (sm_from cfg) email) @ CRLF @ ''.'' @ CRLF) c)) (\<lambda>_ c.
     (Inr (), snd (smtp_cmd ''QUIT'' 221 c)))))))))"

definition smtp_open :: "string list \<Rightarrow> app_error \<Rightarrow> smtp_conn" where
  "smtp_open pieces ending = \<lparr>cn_buffer = [], cn_pieces = pieces, cn_ending = ending, cn_written = []\<rparr>"

definition smtp_send :: "smtp_config \<Rightarrow> string list \<times> app_error \<Rightarrow> string \<Rightarrow> int \<Rightarrow> mail_sender" where
  "smtp_send cfg server rand now email = fst (smtp_dialogue cfg rand now email (smtp_open (fst server) (snd server)))"

section \<open>Base64\<close>

definition base64_value :: "char \<Rightarrow> nat option" where
  "base64_value c = (let n = of_char c in
     if 65 \<le> n \<and> n \<le> 90 then Some (n - 65) else if 97 \<le> n \<and> n \<le> 122 then Some (n - 71)
     else if 48 \<le> n \<and> n \<le> 57 then Some (n + 4) else if n = 43 then Some 62 else if n = 47 then Some 63 else None)"

lemma base64_char_value: "n < 64 \<Longrightarrow> base64_value (base64_char n) = Some n"
  by (auto simp: base64_value_def base64_char_def Let_def)

text \<open>The reader's side: four characters for three bytes, padded at the end.\<close>

fun base64_decode :: "string \<Rightarrow> nat list option" where
  "base64_decode [] = Some []"
| "base64_decode (p # q # r # s # cs) =
     (case (base64_value p, base64_value q) of
        (Some a, Some b) \<Rightarrow>
          if r = CHR ''='' then (if s = CHR ''='' \<and> cs = [] then Some [a * 4 + b div 16] else None)
          else (case base64_value r of
              None \<Rightarrow> None
            | Some c \<Rightarrow>
                if s = CHR ''='' then (if cs = [] then Some [a * 4 + b div 16, b mod 16 * 16 + c div 4] else None)
                else (case (base64_value s, base64_decode cs) of
                    (Some d, Some bs) \<Rightarrow> Some ([a * 4 + b div 16, b mod 16 * 16 + c div 4, c mod 4 * 64 + d] @ bs)
                  | _ \<Rightarrow> None))
      | _ \<Rightarrow> None)"
| "base64_decode cs = None"

definition base64_alphabet :: "char \<Rightarrow> bool" where
  "base64_alphabet c \<longleftrightarrow> base64_value c \<noteq> None \<or> c = CHR ''=''"

lemma base64_char_alphabet: "n < 64 \<Longrightarrow> base64_char n \<noteq> CHR ''=''"
  using base64_char_value[of n] by (auto simp: base64_value_def)

lemma sextet_bounds:
  fixes a b c :: nat
  shows "a < 256 \<Longrightarrow> a div 4 < 64" "b < 256 \<Longrightarrow> a mod 4 * 16 + b div 16 < 64" "b mod 16 * 4 < 64"
    "c < 256 \<Longrightarrow> b mod 16 * 4 + c div 64 < 64"
  by linarith+

lemma sextet_joins:
  fixes a b c :: nat
  shows "b < 256 \<Longrightarrow> (a mod 4 * 16 + b div 16) div 16 = a mod 4" "b < 256 \<Longrightarrow> (a mod 4 * 16 + b div 16) mod 16 = b div 16"
    "c < 256 \<Longrightarrow> (b mod 16 * 4 + c div 64) div 4 = b mod 16" "c < 256 \<Longrightarrow> (b mod 16 * 4 + c div 64) mod 4 = c div 64"
  by (simp_all add: div_less mod_less)

lemma high_bits:
  fixes b c :: nat
  shows "b < 256 \<Longrightarrow> b div 16 div 16 = 0" "b < 256 \<Longrightarrow> b div 16 mod 16 = b div 16"
    "c < 256 \<Longrightarrow> c div 64 div 4 = 0" "c < 256 \<Longrightarrow> c div 64 mod 4 = c div 64"
  by simp_all

lemmas base64_simps = high_bits sextet_bounds sextet_joins base64_char_value base64_char_alphabet

lemma base64_roundtrip: "list_all (\<lambda>b. b < 256) bs \<Longrightarrow> base64_decode (base64 bs) = Some bs"
  by (induction bs rule: base64.induct) (simp_all add: base64_simps)

lemma base64_chars: "list_all (\<lambda>b. b < 256) bs \<Longrightarrow> list_all base64_alphabet (base64 bs)"
  by (induction bs rule: base64.induct) (simp_all add: base64_alphabet_def base64_simps)

lemma utf8_units_bytes: "list_all (\<lambda>u. u < 65536) us \<Longrightarrow> list_all (\<lambda>b. b < 256) (utf8_units us)"
proof (induction us rule: utf8_units.induct)
  case (2 u us)
  then show ?case
    by (cases us) (auto simp: Let_def)
qed simp

section \<open>Transparency\<close>

lemma split_crlf_nonempty [simp]: "split_crlf s \<noteq> []"
  by (induction s rule: split_crlf.induct) (auto split: list.split)

lemma split_crlf_append: "split_crlf (a @ CRLF @ b) = split_crlf a @ split_crlf b"
proof (induction a rule: split_crlf.induct)
  case 1
  show ?case by (simp add: CRLF_def)
next
  case (2 c s)
  show ?case
  proof (cases "c = CHR 0x0D \<and> s \<noteq> [] \<and> hd s = CHR 0x0A")
    case True
    then show ?thesis using 2(1) by (cases s) auto
  next
    case False
    then have "\<not> (c = CHR 0x0D \<and> s @ CRLF @ b \<noteq> [] \<and> hd (s @ CRLF @ b) = CHR 0x0A)"
      by (cases s) (auto simp: CRLF_def)
    then show ?thesis using 2(2)[OF False] False by (auto split: list.split)
  qed
qed

lemma split_crlf_hd: "split_crlf s = l # ls \<Longrightarrow> l \<noteq> [] \<Longrightarrow> s \<noteq> [] \<and> hd s = hd l"
  by (cases s) (auto split: if_splits list.splits)

lemma split_crlf_lines: "l \<in> set (split_crlf s) \<Longrightarrow> split_crlf l = [l]"
proof (induction s arbitrary: l rule: split_crlf.induct)
  case (2 c s)
  show ?case
  proof (cases "c = CHR 0x0D \<and> s \<noteq> [] \<and> hd s = CHR 0x0A")
    case True
    then show ?thesis using 2(1)[OF True] 2(3) by auto
  next
    case False
    obtain k ks where k: "split_crlf s = k # ks" by (cases "split_crlf s") auto
    have "split_crlf k = [k]" using 2(2)[OF False, of k] k by simp
    moreover have "\<not> (c = CHR 0x0D \<and> k \<noteq> [] \<and> hd k = CHR 0x0A)" using False split_crlf_hd[OF k] by auto
    ultimately have "split_crlf (c # k) = [c # k]" by auto
    then show ?thesis using 2(2)[OF False, of l] 2(3) k False by auto
  qed
qed simp

lemma split_crlf_join:
  "ls \<noteq> [] \<Longrightarrow> (\<And>l. l \<in> set ls \<Longrightarrow> split_crlf l = [l]) \<Longrightarrow> split_crlf (join_with CRLF ls) = ls"
  by (induction ls rule: induct_list012) (simp_all add: split_crlf_append)

lemma join_split_crlf: "join_with CRLF (split_crlf s) = s"
proof (induction s rule: split_crlf.induct)
  case (2 c s)
  show ?case
  proof (cases "c = CHR 0x0D \<and> s \<noteq> [] \<and> hd s = CHR 0x0A")
    case True
    then obtain t where t: "s = CHR 0x0A # t" by (cases s) auto
    then have "join_with CRLF (split_crlf t) = t" using 2(1)[OF True] by simp
    then show ?thesis using True t by (cases "split_crlf t") (auto simp: CRLF_def)
  next
    case False
    obtain k ks where k: "split_crlf s = k # ks" by (cases "split_crlf s") auto
    then show ?thesis using 2(2)[OF False] False by (cases ks) auto
  qed
qed simp

text \<open>The receiver of \<open>DATA\<close>: lines up to a lone dot, without the dot that stuffing put before others.\<close>

fun receive_data :: "string list \<Rightarrow> (string list \<times> string list) option" where
  "receive_data [] = None"
| "receive_data (l # ls) =
     (if l = ''.'' then Some ([], ls)
      else (case receive_data ls of
          None \<Rightarrow> None
        | Some (m, rest) \<Rightarrow> Some ((if take 1 l = ''.'' then drop 1 l else l) # m, rest)))"

definition stuff :: "string \<Rightarrow> string" where
  "stuff l = (if take 1 l = ''.'' then ''.'' @ l else l)"

lemma receive_stuffed: "receive_data (map stuff ls @ ''.'' # rest) = Some (ls, rest)"
proof (induction ls)
  case (Cons l ls)
  then show ?case by (cases l) (auto simp: stuff_def)
qed simp

text \<open>Whatever its lines are, a message arrives as it was: no line of it ends the data.\<close>

theorem data_transparent:
  "receive_data (split_crlf (dotStuff m @ CRLF @ ''.'' @ CRLF @ rest)) = Some (split_crlf m, split_crlf rest)"
proof -
  have "split_crlf (stuff l) = [stuff l]" if "l \<in> set (split_crlf m)" for l
    using split_crlf_lines[OF that] by (simp add: stuff_def)
  then have "split_crlf (dotStuff m) = map stuff (split_crlf m)"
    unfolding dotStuff_def stuff_def[symmetric] by (intro split_crlf_join) auto
  moreover have "split_crlf ''.'' = [''.'']" by simp
  ultimately have "split_crlf (dotStuff m @ CRLF @ ''.'' @ CRLF @ rest) = map stuff (split_crlf m) @ ''.'' # split_crlf rest"
    by (simp only: split_crlf_append) simp
  then show ?thesis by (simp only: receive_stuffed)
qed

lemma concat_pieces76: "concat (pieces76 s) = s"
proof (induction s rule: pieces76.induct)
  case (1 s)
  then show ?case by (cases "s = []") (simp_all add: pieces76.simps[of s] pieces76.simps[of "[]"])
qed

text \<open>The lines of a part hold the bytes of its text.\<close>

theorem part_readable:
  assumes "list_all (\<lambda>u. u < 65536) body"
  shows "base64_decode (concat (pieces76 (base64 (utf8_units body)))) = Some (utf8_units body)"
  using base64_roundtrip[OF utf8_units_bytes[OF assms]] by (simp add: concat_pieces76)

section \<open>The dialogue\<close>

text \<open>The dialogue as a list of what is written and which code must answer.\<close>

definition auth_steps :: "smtp_config \<Rightarrow> (string list \<times> nat) list" where
  "auth_steps cfg =
     (if truthy (sm_user cfg) \<and> truthy (sm_pass cfg) then
        [([''AUTH LOGIN'' @ CRLF], 334), ([base64 (utf8_units (units (the (sm_user cfg)))) @ CRLF], 334),
         ([base64 (utf8_units (units (the (sm_pass cfg)))) @ CRLF], 235)] else [])"

definition smtp_steps :: "smtp_config \<Rightarrow> string \<Rightarrow> int \<Rightarrow> outgoing_email \<Rightarrow> (string list \<times> nat) list" where
  "smtp_steps cfg rand now email =
     [([], 220), ([''EHLO localhost'' @ CRLF], 250)] @ auth_steps cfg @
     [([''MAIL FROM:<'' @ sm_from cfg @ ''>'' @ CRLF], 250), ([''RCPT TO:<'' @ oe_to email @ ''>'' @ CRLF], 250),
      ([''DATA'' @ CRLF], 354),
      ([dotStuff (buildMimeMessage rand now (sm_from cfg) email) @ CRLF @ ''.'' @ CRLF], 250)]"

fun run_steps :: "(string list \<times> nat) list \<Rightarrow> smtp_conn \<Rightarrow> unit result \<times> smtp_conn" where
  "run_steps [] c = (Inr (), c)"
| "run_steps ((ws, code) # steps) c = bindR (smtp_expect code (fold smtp_write ws c)) (\<lambda>_ c. run_steps steps c)"

lemma bindR_assoc: "bindR (bindR m f) g = bindR m (\<lambda>a s. bindR (f a s) g)"
  by (cases "(m, f)" rule: bindR.cases) auto

lemma run_steps_append: "run_steps (xs @ ys) c = bindR (run_steps xs c) (\<lambda>_ c. run_steps ys c)"
  by (induction xs c rule: run_steps.induct) (auto simp: bindR_assoc intro!: arg_cong[where f = "bindR _"])

lemma run_steps_fun:
  "run_steps [] = (\<lambda>c. (Inr (), c))"
  "run_steps ((ws, code) # steps) = (\<lambda>c. bindR (smtp_expect code (fold smtp_write ws c)) (\<lambda>_. run_steps steps))"
  by (simp_all add: fun_eq_iff)

lemma auth_run: "smtp_auth cfg c = run_steps (auth_steps cfg) c"
  by (simp add: smtp_auth_def auth_steps_def smtp_cmd_def run_steps_fun del: run_steps.simps)

lemma dialogue_steps:
  "smtp_dialogue cfg rand now email c =
     bindR (run_steps (smtp_steps cfg rand now email) c) (\<lambda>_ c. (Inr (), snd (smtp_cmd ''QUIT'' 221 c)))"
  unfolding smtp_dialogue_def smtp_steps_def auth_run run_steps_append bindR_assoc
  by (simp add: bindR_assoc smtp_cmd_def run_steps_fun del: run_steps.simps)

text \<open>The codes of the first replies a server sends.\<close>

fun reply_codes :: "nat \<Rightarrow> string \<Rightarrow> string list \<Rightarrow> nat list option" where
  "reply_codes 0 buffer ps = Some []"
| "reply_codes (Suc n) buffer ps =
     (case await_reply buffer ps of
        None \<Rightarrow> None
      | Some (r, b, ps') \<Rightarrow> (case reply_codes n b ps' of None \<Rightarrow> None | Some codes \<Rightarrow> Some (rp_code r # codes)))"

lemma fold_write [simp]: "cn_buffer (fold smtp_write ws c) = cn_buffer c" "cn_pieces (fold smtp_write ws c) = cn_pieces c"
  "cn_written (fold smtp_write ws c) = cn_written c @ ws"
  by (induction ws arbitrary: c) (simp_all add: smtp_write_def)

lemma run_steps_ok:
  "fst (run_steps steps c) = Inr () \<longleftrightarrow> reply_codes (length steps) (cn_buffer c) (cn_pieces c) = Some (map snd steps)"
proof (induction steps c rule: run_steps.induct)
  case (2 ws code steps c)
  show ?case
  proof (cases "await_reply (cn_buffer c) (cn_pieces c)")
    case None
    then show ?thesis by (simp add: smtp_expect_def smtp_read_def)
  next
    case (Some x)
    obtain r b ps where x: "x = (r, b, ps)" by (cases x)
    show ?thesis
    proof (cases "rp_code r = code")
      case True
      then show ?thesis using 2 Some x
        by (auto simp: smtp_expect_def smtp_read_def split: option.splits)
    next
      case False
      then show ?thesis using Some x by (auto simp: smtp_expect_def smtp_read_def split: option.splits)
    qed
  qed
qed simp

lemma expect_written: "cn_written (snd (smtp_expect code c)) = cn_written c"
  by (auto simp: smtp_expect_def smtp_read_def split: option.split)

text \<open>What is written: the lines of the steps so far, each after the replies to all before it.\<close>

lemma run_steps_written:
  "run_steps steps c = (r, c') \<Longrightarrow> \<exists>k \<le> length steps. cn_written c' = cn_written c @ concat (map fst (take k steps)) \<and>
     reply_codes (k - 1) (cn_buffer c) (cn_pieces c) = Some (map snd (take (k - 1) steps)) \<and> (r = Inr () \<longrightarrow> k = length steps)"
proof (induction steps c arbitrary: r c' rule: run_steps.induct)
  case (2 ws code steps c)
  let ?x = "smtp_expect code (fold smtp_write ws c)"
  have w: "cn_written (snd ?x) = cn_written c @ ws" by (simp add: expect_written)
  show ?case
  proof (cases "fst ?x")
    case (Inl err)
    then have "(r, c') = (Inl err, snd ?x)" using 2(2) by (cases ?x) simp
    then show ?thesis using w by (intro exI[of _ 1]) simp
  next
    case (Inr reply)
    then have run: "run_steps steps (snd ?x) = (r, c')" using 2(2) by (cases ?x) simp
    obtain b ps where aw: "await_reply (cn_buffer c) (cn_pieces c) = Some (reply, b, ps)" "rp_code reply = code"
      "cn_buffer (snd ?x) = b" "cn_pieces (snd ?x) = ps"
      using Inr by (auto simp: smtp_expect_def smtp_read_def split: option.splits if_splits)
    from 2(1)[OF run] obtain k where k: "k \<le> length steps"
      "cn_written c' = (cn_written c @ ws) @ concat (map fst (take k steps))"
      "reply_codes (k - 1) b ps = Some (map snd (take (k - 1) steps))" "r = Inr () \<longrightarrow> k = length steps"
      using w aw by auto
    have "reply_codes k (cn_buffer c) (cn_pieces c) = Some (map snd (take k ((ws, code) # steps)))"
      using k(3) aw(1,2) by (cases k) simp_all
    then show ?thesis using k by (intro exI[of _ "Suc k"]) simp
  qed
qed simp

text \<open>
  C29: A mail counts as sent exactly when the server gave each code that is asked for, in order. Whatever the server
  does, nothing is written before the replies to everything before it were as they should be: no password without
  a challenge, no message without a go-ahead. And the message that is written arrives, line by line, as it was.
\<close>

theorem mail_sent_when_accepted:
  "let steps = smtp_steps cfg rand now email; (r, c) = smtp_dialogue cfg rand now email (smtp_open pieces ending)
   in (r = Inr () \<longleftrightarrow> reply_codes (length steps) [] pieces = Some (map snd steps)) \<and>
     (\<exists>k \<le> length steps. reply_codes (k - 1) [] pieces = Some (map snd (take (k - 1) steps)) \<and>
        cn_written c = concat (map fst (take k steps)) @ (if r = Inr () then [''QUIT'' @ CRLF] else [])) \<and>
     receive_data (split_crlf (concat (fst (last steps)))) =
       Some (split_crlf (buildMimeMessage rand now (sm_from cfg) email), [[]])"
proof -
  let ?steps = "smtp_steps cfg rand now email" and ?open = "smtp_open pieces ending"
  let ?d = "smtp_dialogue cfg rand now email ?open"
  obtain r0 c0 where run: "run_steps ?steps ?open = (r0, c0)" by (cases "run_steps ?steps ?open")
  have d: "?d = (r0, if r0 = Inr () then snd (smtp_cmd ''QUIT'' 221 c0) else c0)"
    using run by (cases r0) (simp_all add: dialogue_steps)
  have iff: "r0 = Inr () \<longleftrightarrow> reply_codes (length ?steps) [] pieces = Some (map snd ?steps)"
    using run_steps_ok[of ?steps ?open] run by (simp add: smtp_open_def)
  obtain k where k: "k \<le> length ?steps" "cn_written c0 = concat (map fst (take k ?steps))"
    "reply_codes (k - 1) [] pieces = Some (map snd (take (k - 1) ?steps))"
    using run_steps_written[OF run] by (auto simp: smtp_open_def)
  have "cn_written (snd ?d) = concat (map fst (take k ?steps)) @ (if r0 = Inr () then [''QUIT'' @ CRLF] else [])"
    using k(2) by (simp add: d smtp_cmd_def expect_written smtp_write_def)
  moreover have "receive_data (split_crlf (concat (fst (last ?steps)))) =
      Some (split_crlf (buildMimeMessage rand now (sm_from cfg) email), [[]])"
    using data_transparent[of "buildMimeMessage rand now (sm_from cfg) email" "[]"] by (simp add: smtp_steps_def)
  ultimately show ?thesis using iff k(1,3) by (auto simp: d Let_def)
qed

end
