(* ===== verification/Logging.thy ===== *)
theory Logging
  imports JsonParse WebText
begin

text \<open>
  \<^verbatim>\<open>src/utils/logger.ts\<close> and \<^verbatim>\<open>src/observability/requestContext.ts\<close>: the lines of the log. \<open>AsyncLocalStorage\<close>
  gives whatever runs in a scope the scope's value, so the context is an argument. Meta data has properties of its
  own with values that JSON can print.
\<close>

section \<open>Request context\<close>

record request_context =
  rc_requestId :: string

text \<open>\<open>fn\<close> gets the store it runs in.\<close>

definition runWithRequestId :: "string \<Rightarrow> (request_context option \<Rightarrow> 'a) \<Rightarrow> 'a" where
  "runWithRequestId requestId fn = fn (Some \<lparr>rc_requestId = requestId\<rparr>)"

definition currentRequestId :: "request_context option \<Rightarrow> string option" where
  "currentRequestId store = (case store of None \<Rightarrow> None | Some c \<Rightarrow> Some (rc_requestId c))"

section \<open>Levels\<close>

datatype log_level = L_debug | L_info | L_warn | L_error

fun level_name :: "log_level \<Rightarrow> string" where
  "level_name L_debug = ''debug''"
| "level_name L_info = ''info''"
| "level_name L_warn = ''warn''"
| "level_name L_error = ''error''"

fun log_order :: "log_level \<Rightarrow> nat" where
  "log_order L_debug = 10"
| "log_order L_info = 20"
| "log_order L_warn = 30"
| "log_order L_error = 40"

text \<open>The least order that is printed, from \<open>LOG_LEVEL\<close>; an unknown name counts as \<open>info\<close>.\<close>

definition log_threshold :: "string option \<Rightarrow> nat" where
  "log_threshold logLevel =
     (let lvl = to_lower (if truthy logLevel then the logLevel else ''info'')
      in if lvl = ''silent'' then 100
         else if lvl = ''debug'' then 10 else if lvl = ''info'' then 20 else if lvl = ''warn'' then 30
         else if lvl = ''error'' then 40 else log_order L_info)"

section \<open>Emitting\<close>

record log_output =
  lg_stdout :: string
  lg_stderr :: string

record log_call =
  lc_level :: log_level
  lc_msg :: string
  lc_meta :: "(string \<times> json) list option"
  lc_context :: "request_context option"
  lc_now :: int

text \<open>The object of a line: a later property of the same name takes the earlier one's place.\<close>

definition log_record :: "string \<Rightarrow> log_call \<Rightarrow> json" where
  "log_record time c =
     (let meta = (case lc_meta c of None \<Rightarrow> [] | Some m \<Rightarrow> m);
          requestId = currentRequestId (lc_context c);
          own = [(''t'', JStr time), (''level'', JStr (level_name (lc_level c))), (''msg'', JStr (lc_msg c))] @
            (if truthy requestId \<and> \<not> (lc_meta c \<noteq> None \<and> jm_has meta ''requestId'')
             then [(''requestId'', JStr (the requestId))] else [])
      in JObj (foldl (\<lambda>m (k, v). jm_set k v m) own meta))"

definition log_emit :: "string option \<Rightarrow> log_call \<Rightarrow> log_output \<Rightarrow> unit result \<times> log_output" where
  "log_emit logLevel c out =
     (if log_order (lc_level c) < log_threshold logLevel then (Inr (), out)
      else (case toISOString (lc_now c) of
          Inl err \<Rightarrow> (Inl err, out)
        | Inr time \<Rightarrow>
            let line = json_text (log_record time c) @ [CHR 0x0A]
            in (Inr (), if lc_level c = L_error \<or> lc_level c = L_warn then out\<lparr>lg_stderr := lg_stderr out @ line\<rparr>
                 else out\<lparr>lg_stdout := lg_stdout out @ line\<rparr>)))"

section \<open>One call, one line\<close>

text \<open>Printed JSON has no control characters, whatever texts are in it.\<close>

definition printable :: "char \<Rightarrow> bool" where
  "printable c \<longleftrightarrow> 32 \<le> (of_char c :: nat)"

lemma printable_literals [simp]:
  "printable CHR ''[''" "printable CHR '']''" "printable CHR ''{''" "printable CHR ''}''" "printable CHR '',''"
  "printable CHR '':''" "printable CHR 0x22" "printable CHR 0x5C" "printable CHR ''.''" "printable CHR ''-''"
  "printable CHR ''+''" "printable CHR ''0''" "printable CHR ''a''" "printable CHR ''b''" "printable CHR ''e''" "printable CHR ''f''"
  "printable CHR ''l''" "printable CHR ''n''" "printable CHR ''r''" "printable CHR ''s''" "printable CHR ''t''" "printable CHR ''u''"
  by (simp_all add: printable_def)

lemma printable_hex: "n < 16 \<Longrightarrow> printable (hex_digit n)"
  by (simp add: printable_def hex_digit_def)

lemma printable_json_char: "list_all printable (json_char c)"
proof -
  have "(of_char c :: nat) < 256" by simp
  then have "printable (hex_digit (of_char c div 16))" "printable (hex_digit (of_char c mod 16))"
    by (intro printable_hex; linarith)+
  moreover have "\<not> (of_char c :: nat) < 32 \<Longrightarrow> printable c" by (simp add: printable_def)
  ultimately show ?thesis by (simp add: json_char_def Let_def)
qed

lemma printable_json_string: "list_all printable (json_string s)"
  using printable_json_char by (induction s) (auto simp: json_string_def)

lemma printable_digits: "list_all printable (nat_digits n)"
proof -
  have "list_all is_digit (nat_digits n)" by (rule nat_digits_digit)
  then show ?thesis by (auto simp: list_all_iff is_digit_def printable_def)
qed

lemma printable_int: "list_all printable (string_of_int i)"
  using printable_digits by (simp add: string_of_int_def)

lemma printable_take: "list_all printable s \<Longrightarrow> list_all printable (take n s)" "list_all printable s \<Longrightarrow> list_all printable (drop n s)"
  by (auto simp: list_all_iff dest: in_set_takeD in_set_dropD)

lemma printable_number: "list_all printable (number_text x)"
proof -
  have z: "list_all printable (zeros n)" for n by (simp add: zeros_def list_all_iff)
  have "list_all printable (pos_text y)" for y
    by (auto simp: pos_text_def Let_def split_beta z printable_digits printable_take)
  then show ?thesis by (simp add: number_text_def)
qed

lemma printable_join: "list_all printable sep \<Longrightarrow> (\<And>x. x \<in> set xs \<Longrightarrow> list_all printable x) \<Longrightarrow> list_all printable (join_with sep xs)"
  by (induction xs rule: induct_list012) simp_all

theorem json_text_printable: "list_all printable (json_text j)"
proof (induction j rule: json_text.induct)
  case (6 xs)
  have "list_all printable (join_with '','' (map json_text xs))"
    using 6 by (intro printable_join) auto
  then show ?case by simp
next
  case (7 ps)
  have "list_all printable (join_with '','' (map (\<lambda>(k, v). json_string k @ '':'' @ json_text v) ps))"
    using 7 by (intro printable_join) (auto simp: printable_json_string)
  then show ?case by simp
qed (auto simp: printable_int printable_json_string printable_number split: num.split)

section \<open>The log as its reader sees it\<close>

definition log_all :: "string option \<Rightarrow> log_call list \<Rightarrow> log_output" where
  "log_all logLevel cs = foldl (\<lambda>out c. snd (log_emit logLevel c out)) \<lparr>lg_stdout = [], lg_stderr = []\<rparr> cs"

definition to_stderr :: "log_call \<Rightarrow> bool" where
  "to_stderr c \<longleftrightarrow> lc_level c \<in> {L_error, L_warn}"

text \<open>The records that reach a stream.\<close>

definition log_records :: "string option \<Rightarrow> (log_call \<Rightarrow> bool) \<Rightarrow> log_call list \<Rightarrow> json list" where
  "log_records logLevel stream cs =
     map (\<lambda>c. log_record (projr (toISOString (lc_now c))) c)
       (filter (\<lambda>c. log_threshold logLevel \<le> log_order (lc_level c) \<and> stream c) cs)"

definition log_lines :: "json list \<Rightarrow> string" where
  "log_lines js = concat (map (\<lambda>j. json_text j @ [CHR 0x0A]) js)"

lemma log_records_Cons: "log_records lv P (c # cs) = log_records lv P [c] @ log_records lv P cs"
  by (simp add: log_records_def)

lemma log_lines_append: "log_lines (js @ ks) = log_lines js @ log_lines ks"
  by (simp add: log_lines_def)

lemma emit_text:
  assumes "\<bar>lc_now c\<bar> \<le> 8640000000000000"
  shows "lg_stdout (snd (log_emit lv c out)) = lg_stdout out @ log_lines (log_records lv (\<lambda>c. \<not> to_stderr c) [c])"
    "lg_stderr (snd (log_emit lv c out)) = lg_stderr out @ log_lines (log_records lv to_stderr [c])"
proof -
  obtain time where "toISOString (lc_now c) = Inr time" using assms by (simp add: toISOString_def Let_def split_beta)
  then show "lg_stdout (snd (log_emit lv c out)) = lg_stdout out @ log_lines (log_records lv (\<lambda>c. \<not> to_stderr c) [c])"
    "lg_stderr (snd (log_emit lv c out)) = lg_stderr out @ log_lines (log_records lv to_stderr [c])"
    by (auto simp: log_records_def log_lines_def log_emit_def to_stderr_def Let_def)
qed

lemma log_all_text:
  assumes "\<And>c. c \<in> set cs \<Longrightarrow> \<bar>lc_now c\<bar> \<le> 8640000000000000"
  shows "lg_stdout (foldl (\<lambda>out c. snd (log_emit lv c out)) out cs) =
      lg_stdout out @ log_lines (log_records lv (\<lambda>c. \<not> to_stderr c) cs) \<and>
    lg_stderr (foldl (\<lambda>out c. snd (log_emit lv c out)) out cs) = lg_stderr out @ log_lines (log_records lv to_stderr cs)"
  using assms
proof (induction cs arbitrary: out)
  case (Cons c cs)
  then show ?case
    by (simp add: emit_text log_records_Cons[of _ _ c cs] log_lines_append)
qed (simp add: log_records_def log_lines_def)

lemma json_text_no_newline: "CHR 0x0A \<notin> set (json_text j)"
  using json_text_printable[of j] by (auto simp: list_all_iff printable_def)

lemma split_log_lines: "butlast (split_on CHR 0x0A (log_lines js)) = map json_text js"
proof (induction js)
  case (Cons j js)
  have "split_on CHR 0x0A (log_lines (j # js)) = json_text j # split_on CHR 0x0A (log_lines js)"
    using split_on_append_sep[OF json_text_no_newline[of j]] by (simp add: log_lines_def)
  then show ?case using Cons.IH by simp
qed (simp add: log_lines_def)

text \<open>
  C31: Whatever texts callers log, names, messages of a remote party, anything, each call that is loud enough makes
  one line of its stream, and the reader of the line gets the call's record back: nobody forges a line.
\<close>

theorem log_reads_back:
  assumes times: "\<And>c. c \<in> set cs \<Longrightarrow> \<bar>lc_now c\<bar> \<le> 8640000000000000"
    and plain: "list_all plain (log_records lv (\<lambda>c. \<not> to_stderr c) cs)" "list_all plain (log_records lv to_stderr cs)"
  shows "map JSON_parse (butlast (split_on CHR 0x0A (lg_stdout (log_all lv cs)))) = map Some (log_records lv (\<lambda>c. \<not> to_stderr c) cs) \<and>
    map JSON_parse (butlast (split_on CHR 0x0A (lg_stderr (log_all lv cs)))) = map Some (log_records lv to_stderr cs)"
proof -
  have "map JSON_parse (map json_text js) = map Some js" if "list_all plain js" for js
    using that by (induction js) (simp_all add: json_roundtrip)
  then show ?thesis using plain by (simp add: log_all_def log_all_text times split_log_lines)
qed

theorem log_reads_back_witness:
  "let c = \<lparr>lc_level = L_warn, lc_msg = ''no email'' @ [CHR 0x0A, CHR 0x22], lc_meta = Some [(''userId'', JStr [CHR 0x0A])],
        lc_context = Some \<lparr>rc_requestId = ''r1''\<rparr>, lc_now = 0\<rparr> in
     map JSON_parse (butlast (split_on CHR 0x0A (lg_stderr (log_all None [c, c\<lparr>lc_level := L_debug\<rparr>])))) =
       [Some (JObj [(''t'', JStr ''1970-01-01T00:00:00.000Z''), (''level'', JStr ''warn''),
          (''msg'', JStr (''no email'' @ [CHR 0x0A, CHR 0x22])), (''requestId'', JStr ''r1''), (''userId'', JStr [CHR 0x0A])])]"
proof -
  let ?c = "\<lparr>lc_level = L_warn, lc_msg = ''no email'' @ [CHR 0x0A, CHR 0x22], lc_meta = Some [(''userId'', JStr [CHR 0x0A])],
        lc_context = Some \<lparr>rc_requestId = ''r1''\<rparr>, lc_now = 0\<rparr>"
  have lv: "log_threshold None = 20" by (simp add: log_threshold_def to_lower_def lower_char_def Let_def)
  have rec: "log_records None to_stderr [?c, ?c\<lparr>lc_level := L_debug\<rparr>] =
      [JObj [(''t'', JStr ''1970-01-01T00:00:00.000Z''), (''level'', JStr ''warn''),
          (''msg'', JStr (''no email'' @ [CHR 0x0A, CHR 0x22])), (''requestId'', JStr ''r1''), (''userId'', JStr [CHR 0x0A])]]"
    "log_records None (\<lambda>c. \<not> to_stderr c) [?c, ?c\<lparr>lc_level := L_debug\<rparr>] = []"
    by (simp_all add: log_records_def lv to_stderr_def log_record_def currentRequestId_def jm_has_def iso_examples Let_def)
  have times: "\<bar>lc_now c\<bar> \<le> 8640000000000000" if "c \<in> set [?c, ?c\<lparr>lc_level := L_debug\<rparr>]" for c
    using that by auto
  show ?thesis
    using log_reads_back[of "[?c, ?c\<lparr>lc_level := L_debug\<rparr>]" None, OF times] unfolding rec by (simp add: Let_def)
qed

end
