(* ===== verification/SqlStore.thy ===== *)
theory SqlStore
  imports Api Wechat "HOL-Library.Monad_Syntax"
begin

text \<open>
  The PostgreSQL repositories of \<^verbatim>\<open>src/storage/sql\<close>: the statements they send, with their parameters, and what
  they make of the rows that come back. The client is a parameter: a function of the statement's text, its
  parameters and the database. White space in statements is normalised. Rows are read at the types of the
  model; a row that holds something else (a status nobody writes, a fraction for a count) has no reading.
\<close>

section \<open>Values, rows and clients\<close>

datatype sql_value = SNull | SText string | SInt int | SBool bool | SJson json

type_synonym sql_row = "(string \<times> sql_value) list"

record sql_answer =
  sq_rows :: "sql_row list"
  sq_rowCount :: "nat option"

type_synonym 'db sql_client = "string \<Rightarrow> sql_value list \<Rightarrow> 'db \<Rightarrow> sql_answer result \<times> 'db"

definition sql_text :: "string option \<Rightarrow> sql_value" where
  "sql_text x = (case x of None \<Rightarrow> SNull | Some s \<Rightarrow> SText s)"

definition sql_int :: "int option \<Rightarrow> sql_value" where
  "sql_int x = (case x of None \<Rightarrow> SNull | Some i \<Rightarrow> SInt i)"

text \<open>\<open>num\<close>, \<open>str\<close>, \<open>optNum\<close> and \<open>optStr\<close>: \<open>Number(v)\<close> and \<open>String(v)\<close>, an absent column being \<open>undefined\<close>.\<close>

definition sql_num :: "sql_value option \<Rightarrow> int option" where
  "sql_num v = (case v of
     Some (SText s) \<Rightarrow> int_of_num (js_number_of s) | Some (SInt i) \<Rightarrow> Some i
   | Some (SBool b) \<Rightarrow> Some (if b then 1 else 0) | Some SNull \<Rightarrow> Some 0 | _ \<Rightarrow> None)"

definition sql_str :: "sql_value option \<Rightarrow> string option" where
  "sql_str v = (case v of
     Some (SText s) \<Rightarrow> Some s | Some (SInt i) \<Rightarrow> Some (string_of_int i)
   | Some (SBool b) \<Rightarrow> Some (if b then ''true'' else ''false'') | Some SNull \<Rightarrow> Some ''null''
   | Some (SJson j) \<Rightarrow> None | None \<Rightarrow> Some ''undefined'')"

definition sql_optNum :: "sql_value option \<Rightarrow> int option option" where
  "sql_optNum v = (if v = None \<or> v = Some SNull then Some None else map_option Some (sql_num v))"

definition sql_optStr :: "sql_value option \<Rightarrow> string option option" where
  "sql_optStr v = (if v = None \<or> v = Some SNull then Some None else map_option Some (sql_str v))"

text \<open>\<open>typeof v === 'string' ? JSON.parse(v) : (v ?? dflt)\<close>\<close>

definition sql_json :: "json \<Rightarrow> sql_value option \<Rightarrow> json option" where
  "sql_json dflt v = (case v of
     Some (SText s) \<Rightarrow> JSON_parse s | Some (SJson j) \<Rightarrow> Some j
   | Some (SInt i) \<Rightarrow> Some (JNum i) | Some (SBool b) \<Rightarrow> Some (JBool b) | _ \<Rightarrow> Some dflt)"

section \<open>Names of the enumerations, read back\<close>

definition currency_of :: "string \<Rightarrow> currency option" where
  "currency_of s = find (\<lambda>c. currency_name c = s) [CNY, USDT]"

definition render_of :: "string \<Rightarrow> render_as option" where
  "render_of s = find (\<lambda>r. render_name r = s) [Qrcode, Address, Redirect]"

definition sweep_status_of :: "string \<Rightarrow> sweep_status option" where
  "sweep_status_of s = find (\<lambda>r. sweep_status_value r = s) [S_PENDING, S_GAS_FUELING, S_SWEEPING, S_SWEPT, S_EMPTY, S_FAILED]"

definition merchant_status_of :: "string \<Rightarrow> merchant_status option" where
  "merchant_status_of s = find (\<lambda>r. merchant_status_name r = s) [Active, Suspended]"

section \<open>Order metadata as JSON\<close>

text \<open>The record's three keys; \<open>payInfo\<close> holds the JSON text of a payment result.\<close>

definition metadata_json :: "order_metadata \<Rightarrow> json" where
  "metadata_json md = JObj (opt_field ''depositAddress'' JStr (md_depositAddress md) @
     opt_field ''depositIndex'' JStr (md_depositIndex md) @
     opt_field ''payInfo'' (\<lambda>p. JStr (json_text (payInfo_json p))) (md_payInfo md))"

definition strings_of :: "json \<Rightarrow> (string, string) jsmap option" where
  "strings_of j = (case j of JObj ps \<Rightarrow>
     those (map (\<lambda>(k, v). case v of JStr s \<Rightarrow> Some (k, s) | _ \<Rightarrow> None) ps) | _ \<Rightarrow> None)"

definition payInfo_of :: "json \<Rightarrow> create_payment_result option" where
  "payInfo_of j = do {
     m \<leftarrow> Option.bind (text_at j ''method'') method_of_name;
     t \<leftarrow> text_at j ''payTarget'';
     r \<leftarrow> Option.bind (text_at j ''renderAs'') render_of;
     x \<leftarrow> Option.bind (json_field j ''extra'') strings_of;
     Some \<lparr>c_method = m, c_payTarget = t, c_renderAs = r, c_extra = x\<rparr> }"

definition metadata_of :: "json \<Rightarrow> order_metadata option" where
  "metadata_of j = do {
     p \<leftarrow> (case text_at j ''payInfo'' of
            None \<Rightarrow> Some None
          | Some t \<Rightarrow> map_option Some (Option.bind (JSON_parse t) payInfo_of));
     Some \<lparr>md_depositAddress = text_at j ''depositAddress'', md_depositIndex = text_at j ''depositIndex'', md_payInfo = p\<rparr> }"

section \<open>Rows to entities\<close>

definition rowToOrder :: "sql_row \<Rightarrow> order option" where
  "rowToOrder row = (let r = jm_get row in do {
     i \<leftarrow> sql_str (r ''id'');
     merchantId \<leftarrow> sql_optStr (r ''merchant_id'');
     outTradeNo \<leftarrow> sql_str (r ''out_trade_no'');
     userId \<leftarrow> sql_str (r ''user_id'');
     planId \<leftarrow> sql_str (r ''plan_id'');
     m \<leftarrow> Option.bind (sql_str (r ''method'')) method_of_name;
     c \<leftarrow> Option.bind (sql_str (r ''currency'')) currency_of;
     amount \<leftarrow> sql_num (r ''amount'');
     status \<leftarrow> Option.bind (sql_str (r ''status'')) order_status_of;
     providerTxnId \<leftarrow> sql_optStr (r ''provider_txn_id'');
     idempotencyKey \<leftarrow> sql_optStr (r ''idempotency_key'');
     createdAt \<leftarrow> sql_num (r ''created_at'');
     updatedAt \<leftarrow> sql_num (r ''updated_at'');
     expiresAt \<leftarrow> sql_num (r ''expires_at'');
     paidAt \<leftarrow> sql_optNum (r ''paid_at'');
     refundedAmount \<leftarrow> (if r ''refunded_amount'' = Some SNull \<or> r ''refunded_amount'' = None then Some 0
        else sql_num (r ''refunded_amount''));
     md \<leftarrow> Option.bind (sql_json (JObj []) (r ''metadata'')) metadata_of;
     Some \<lparr>o_id = i, o_merchantId = Some (case merchantId of None \<Rightarrow> ''default'' | Some x \<Rightarrow> x), o_outTradeNo = outTradeNo,
       o_userId = userId, o_planId = planId, o_method = m, o_currency = c, o_amount = amount, o_status = status,
       o_providerTxnId = providerTxnId, o_idempotencyKey = idempotencyKey, o_createdAt = createdAt,
       o_updatedAt = updatedAt, o_expiresAt = expiresAt, o_paidAt = paidAt, o_refundedAmount = Some refundedAmount,
       o_metadata = md\<rparr> })"

definition rowToRefund :: "sql_row \<Rightarrow> refund option" where
  "rowToRefund row = (let r = jm_get row in do {
     i \<leftarrow> sql_str (r ''id'');
     orderId \<leftarrow> sql_str (r ''order_id'');
     outRefundNo \<leftarrow> sql_str (r ''out_refund_no'');
     amount \<leftarrow> sql_num (r ''amount'');
     c \<leftarrow> Option.bind (sql_str (r ''currency'')) currency_of;
     reason \<leftarrow> sql_optStr (r ''reason'');
     status \<leftarrow> Option.bind (sql_str (r ''status'')) refund_status_of;
     providerRefundId \<leftarrow> sql_optStr (r ''provider_refund_id'');
     rawStatus \<leftarrow> sql_str (r ''raw_status'');
     createdAt \<leftarrow> sql_num (r ''created_at'');
     updatedAt \<leftarrow> sql_num (r ''updated_at'');
     Some \<lparr>r_id = i, r_orderId = orderId, r_outRefundNo = outRefundNo, r_amount = amount, r_currency = c, r_reason = reason,
       r_status = status, r_providerRefundId = providerRefundId, r_rawStatus = rawStatus, r_createdAt = createdAt,
       r_updatedAt = updatedAt\<rparr> })"

text \<open>\<open>Boolean(v)\<close>\<close>

definition sql_bool :: "sql_value option \<Rightarrow> bool" where
  "sql_bool v = (case v of
     Some (SBool b) \<Rightarrow> b | Some (SText s) \<Rightarrow> s \<noteq> [] | Some (SInt i) \<Rightarrow> i \<noteq> 0 | Some (SJson j) \<Rightarrow> True | _ \<Rightarrow> False)"

definition texts_of :: "json \<Rightarrow> string list option" where
  "texts_of j = (case j of JArr xs \<Rightarrow> those (map (\<lambda>v. case v of JStr s \<Rightarrow> Some s | _ \<Rightarrow> None) xs) | _ \<Rightarrow> None)"

definition rowToSubscription :: "sql_row \<Rightarrow> subscription option" where
  "rowToSubscription row = (let r = jm_get row in do {
     i \<leftarrow> sql_str (r ''id'');
     userId \<leftarrow> sql_str (r ''user_id'');
     planId \<leftarrow> sql_str (r ''plan_id'');
     startsAt \<leftarrow> sql_num (r ''starts_at'');
     expiresAt \<leftarrow> sql_num (r ''expires_at'');
     trafficGb \<leftarrow> sql_num (r ''traffic_gb'');
     deviceLimit \<leftarrow> sql_num (r ''device_limit'');
     orderIds \<leftarrow> Option.bind (sql_json (JArr []) (r ''order_ids'')) texts_of;
     notifiedAt \<leftarrow> sql_optNum (r ''expiry_notified_at'');
     createdAt \<leftarrow> sql_num (r ''created_at'');
     updatedAt \<leftarrow> sql_num (r ''updated_at'');
     Some \<lparr>s_id = i, s_userId = userId, s_planId = planId, s_startsAt = startsAt, s_expiresAt = expiresAt,
       s_trafficGb = trafficGb, s_deviceLimit = deviceLimit, s_active = sql_bool (r ''active''), s_orderIds = orderIds,
       s_expiryNotifiedAt = notifiedAt, s_createdAt = createdAt, s_updatedAt = updatedAt\<rparr> })"

definition rowToDepositAddress :: "sql_row \<Rightarrow> deposit_address option" where
  "rowToDepositAddress row = (let r = jm_get row in do {
     i \<leftarrow> sql_num (r ''index'');
     address \<leftarrow> sql_str (r ''address'');
     orderId \<leftarrow> sql_str (r ''order_id'');
     createdAt \<leftarrow> sql_num (r ''created_at'');
     Some \<lparr>d_index = i, d_address = address, d_orderId = orderId, d_createdAt = createdAt\<rparr> })"

definition rowToSweepJob :: "sql_row \<Rightarrow> sweep_job option" where
  "rowToSweepJob row = (let r = jm_get row in do {
     i \<leftarrow> sql_str (r ''id'');
     orderId \<leftarrow> sql_str (r ''order_id'');
     depositIndex \<leftarrow> sql_num (r ''deposit_index'');
     depositAddress \<leftarrow> sql_str (r ''deposit_address'');
     collectionAddress \<leftarrow> sql_str (r ''collection_address'');
     amountMicro \<leftarrow> sql_num (r ''amount_micro'');
     status \<leftarrow> Option.bind (sql_str (r ''status'')) sweep_status_of;
     gasTxId \<leftarrow> sql_optStr (r ''gas_tx_id'');
     sweepTxId \<leftarrow> sql_optStr (r ''sweep_tx_id'');
     attempts \<leftarrow> sql_num (r ''attempts'');
     lastError \<leftarrow> sql_optStr (r ''last_error'');
     createdAt \<leftarrow> sql_num (r ''created_at'');
     updatedAt \<leftarrow> sql_num (r ''updated_at'');
     nextAttemptAt \<leftarrow> sql_num (r ''next_attempt_at'');
     Some \<lparr>j_id = i, j_orderId = orderId, j_depositIndex = depositIndex, j_depositAddress = depositAddress,
       j_collectionAddress = collectionAddress, j_amountMicro = amountMicro, j_status = status, j_gasTxId = gasTxId,
       j_sweepTxId = sweepTxId, j_attempts = attempts, j_lastError = lastError, j_createdAt = createdAt,
       j_updatedAt = updatedAt, j_nextAttemptAt = nextAttemptAt\<rparr> })"

definition rowToMerchant :: "sql_row \<Rightarrow> merchant option" where
  "rowToMerchant row = (let r = jm_get row in do {
     i \<leftarrow> sql_str (r ''id'');
     n \<leftarrow> sql_str (r ''name'');
     status \<leftarrow> Option.bind (sql_str (r ''status'')) merchant_status_of;
     apiKey \<leftarrow> sql_str (r ''api_key'');
     apiKeyPrevious \<leftarrow> sql_optStr (r ''api_key_previous'');
     usdtHdPath \<leftarrow> sql_optStr (r ''usdt_hd_path'');
     createdAt \<leftarrow> sql_num (r ''created_at'');
     updatedAt \<leftarrow> sql_num (r ''updated_at'');
     Some \<lparr>m_id = i, m_name = n, m_status = status, m_apiKey = apiKey, m_apiKeyPrevious = apiKeyPrevious,
       m_usdtHdPath = usdtHdPath, m_createdAt = createdAt, m_updatedAt = updatedAt\<rparr> })"

definition rowToUser :: "sql_row \<Rightarrow> user option" where
  "rowToUser row = (let r = jm_get row in do {
     i \<leftarrow> sql_str (r ''id'');
     email \<leftarrow> sql_str (r ''email'');
     loc \<leftarrow> sql_str (r ''locale'');
     n \<leftarrow> sql_optStr (r ''name'');
     passwordHash \<leftarrow> sql_str (r ''password_hash'');
     apiKey \<leftarrow> sql_str (r ''api_key'');
     createdAt \<leftarrow> sql_num (r ''created_at'');
     updatedAt \<leftarrow> sql_num (r ''updated_at'');
     Some \<lparr>u_id = i, u_email = email, u_locale = loc, u_name = n, u_passwordHash = passwordHash, u_apiKey = apiKey,
       u_createdAt = createdAt, u_updatedAt = updatedAt\<rparr> })"

definition rowToAuditEvent :: "sql_row \<Rightarrow> audit_event option" where
  "rowToAuditEvent row = (let r = jm_get row in do {
     i \<leftarrow> sql_str (r ''id'');
     at_time \<leftarrow> sql_num (r ''at'');
     action \<leftarrow> sql_str (r ''action'');
     actor \<leftarrow> sql_optStr (r ''actor'');
     subjectId \<leftarrow> sql_optStr (r ''subject_id'');
     metadata \<leftarrow> (if r ''metadata'' = Some SNull \<or> r ''metadata'' = None then Some None
        else map_option Some (sql_json JNull (r ''metadata'')));
     Some \<lparr>a_id = i, a_at = at_time, a_action = action, a_actor = actor, a_subjectId = subjectId, a_metadata = metadata\<rparr> })"

end
