(* ===== verification/SqlRepos.thy ===== *)
theory SqlRepos
  imports SqlStore
begin

text \<open>
  The repositories of \<^verbatim>\<open>src/storage/sql\<close> over a client, and \<^verbatim>\<open>pgClient.ts\<close>.
\<close>

section \<open>Statements\<close>

text \<open>\<open>$1,$2,..\<close>\<close>

definition placeholder :: "nat \<Rightarrow> string" where
  "placeholder n = ''$'' @ nat_digits n"

definition insert_text :: "string \<Rightarrow> string list \<Rightarrow> string" where
  "insert_text table cols = ''INSERT INTO '' @ table @ '' ('' @ join_with '', '' cols @ '') VALUES ('' @
     join_with '','' (map (\<lambda>i. placeholder (i + 1)) [0..<length cols]) @ '')''"

text \<open>The columns set, from \<open>$2\<close> on; \<open>$1\<close> is the id.\<close>

definition update_text :: "string \<Rightarrow> string list \<Rightarrow> string" where
  "update_text table cols = ''UPDATE '' @ table @ '' SET '' @
     join_with '', '' (map (\<lambda>(i, c). c @ ''='' @ placeholder (i + 2)) (enumerate 0 cols)) @ '' WHERE id=$1''"

definition select_by :: "string \<Rightarrow> string \<Rightarrow> string" where
  "select_by table col_name = ''SELECT * FROM '' @ table @ '' WHERE '' @ col_name @ '' = $1''"

section \<open>Calls\<close>

text \<open>A row that has no reading ends the call (see \<open>SqlStore\<close>).\<close>

definition read_with :: "(sql_row \<Rightarrow> 'a option) \<Rightarrow> sql_row \<Rightarrow> 'a result" where
  "read_with rowTo row = (case rowTo row of None \<Rightarrow> Inl (PlainError ''unreadable row'') | Some x \<Rightarrow> Inr x)"

fun read_rows :: "(sql_row \<Rightarrow> 'a option) \<Rightarrow> sql_row list \<Rightarrow> 'a list result" where
  "read_rows rowTo [] = Inr []"
| "read_rows rowTo (row # rows) = (case read_with rowTo row of Inl err \<Rightarrow> Inl err | Inr x \<Rightarrow>
     (case read_rows rowTo rows of Inl err \<Rightarrow> Inl err | Inr xs \<Rightarrow> Inr (x # xs)))"

definition sql_write :: "'db sql_client \<Rightarrow> string \<Rightarrow> sql_value list \<Rightarrow> 'a \<Rightarrow> 'db \<Rightarrow> 'a result \<times> 'db" where
  "sql_write q stmt ps x db = bindR (q stmt ps db) (\<lambda>_ db. (Inr x, db))"

definition sql_one :: "(sql_row \<Rightarrow> 'a option) \<Rightarrow> 'db sql_client \<Rightarrow> string \<Rightarrow> sql_value list \<Rightarrow> 'db \<Rightarrow> 'a option result \<times> 'db" where
  "sql_one rowTo q stmt ps db = bindR (q stmt ps db) (\<lambda>ans db.
     (case sq_rows ans of
        [] \<Rightarrow> Inr None
      | row # _ \<Rightarrow> (case read_with rowTo row of Inl err \<Rightarrow> Inl err | Inr x \<Rightarrow> Inr (Some x)), db))"

definition sql_many :: "(sql_row \<Rightarrow> 'a option) \<Rightarrow> 'db sql_client \<Rightarrow> string \<Rightarrow> sql_value list \<Rightarrow> 'db \<Rightarrow> 'a list result \<times> 'db" where
  "sql_many rowTo q stmt ps db = bindR (q stmt ps db) (\<lambda>ans db. (read_rows rowTo (sq_rows ans), db))"

section \<open>Conditions\<close>

text \<open>A condition is a column, an operator and the value it is compared with; its text has \<open>?\<close> for the value.\<close>

type_synonym sql_condition = "string \<times> string \<times> sql_value"

definition condition_text :: "sql_condition \<Rightarrow> string" where
  "condition_text c = (case c of (col, oper, v) \<Rightarrow> col @ '' '' @ oper @ '' ?'')"

text \<open>\<open>replace('?', ..)\<close>: the first one.\<close>

fun replace_question :: "string \<Rightarrow> string \<Rightarrow> string" where
  "replace_question t [] = []"
| "replace_question t (c # s) = (if c = CHR ''?'' then t @ s else c # replace_question t s)"

text \<open>\<open>add\<close>, for one condition after another: the clauses and the parameters.\<close>

definition add_condition :: "string list \<times> sql_value list \<Rightarrow> sql_condition \<Rightarrow> string list \<times> sql_value list" where
  "add_condition acc c =
     (let params = snd acc @ [snd (snd c)]
      in (fst acc @ [replace_question (placeholder (length params)) (condition_text c)], params))"

definition add_conditions :: "sql_condition list \<Rightarrow> string list \<times> sql_value list" where
  "add_conditions cs = foldl add_condition ([], []) cs"

definition where_text :: "string list \<Rightarrow> string" where
  "where_text clauses = (if clauses \<noteq> [] then '' WHERE '' @ join_with '' AND '' clauses else [])"

text \<open>\<open>Number(rows[0]?.total ?? 0)\<close>, for a count that the database sends as a decimal text.\<close>

definition total_of :: "sql_answer \<Rightarrow> int result" where
  "total_of ans =
     (case sq_rows ans of
        [] \<Rightarrow> Inr 0
      | row # _ \<Rightarrow> (case jm_get row ''total'' of
            None \<Rightarrow> Inr 0
          | Some SNull \<Rightarrow> Inr 0
          | v \<Rightarrow> (case sql_num v of None \<Rightarrow> Inl (PlainError ''unreadable row'') | Some n \<Rightarrow> Inr n)))"

text \<open>A page of the rows that meet the conditions, newest first, and how many meet them.\<close>

definition page_texts :: "string \<Rightarrow> string \<Rightarrow> sql_condition list \<Rightarrow> string \<times> string" where
  "page_texts table order_col cs =
     (let (clauses, params) = add_conditions cs; wh = where_text clauses; n = length params
      in (''SELECT COUNT(*) AS total FROM '' @ table @ wh,
          ''SELECT * FROM '' @ table @ wh @ '' ORDER BY '' @ order_col @ '' DESC LIMIT '' @ placeholder (n + 1) @
            '' OFFSET '' @ placeholder (n + 2)))"

definition sql_page :: "(sql_answer \<Rightarrow> int result) \<Rightarrow> (sql_row \<Rightarrow> 'a option) \<Rightarrow> 'db sql_client \<Rightarrow> string \<Rightarrow> string \<Rightarrow> sql_condition list \<Rightarrow> nat \<Rightarrow> nat \<Rightarrow>
    'db \<Rightarrow> (int \<times> 'a list) result \<times> 'db" where
  "sql_page count_of rowTo q table order_col cs page_size page_start db =
     (let params = snd (add_conditions cs)
      in bindR (q (fst (page_texts table order_col cs)) params db) (\<lambda>countRes db.
         case count_of countRes of
           Inl err \<Rightarrow> (Inl err, db)
         | Inr n \<Rightarrow>
             bindR (q (snd (page_texts table order_col cs)) (params @ [SInt (int page_size), SInt (int page_start)]) db) (\<lambda>listRes db.
               (case read_rows rowTo (sq_rows listRes) of Inl err \<Rightarrow> Inl err | Inr items \<Rightarrow> Inr (n, items), db))))"

section \<open>Orders\<close>

definition order_columns :: "string list" where
  "order_columns = [''id'', ''merchant_id'', ''out_trade_no'', ''user_id'', ''plan_id'', ''method'', ''currency'', ''amount'',
     ''status'', ''provider_txn_id'', ''idempotency_key'', ''created_at'', ''updated_at'', ''expires_at'', ''paid_at'',
     ''refunded_amount'', ''metadata'']"

definition order_params :: "order \<Rightarrow> sql_value list" where
  "order_params ord = [SText (o_id ord), SText (case o_merchantId ord of None \<Rightarrow> ''default'' | Some m \<Rightarrow> m),
     SText (o_outTradeNo ord), SText (o_userId ord), SText (o_planId ord), SText (method_name (o_method ord)),
     SText (currency_name (o_currency ord)), SInt (o_amount ord), SText (order_status_name (o_status ord)),
     sql_text (o_providerTxnId ord), sql_text (o_idempotencyKey ord), SInt (o_createdAt ord), SInt (o_updatedAt ord),
     SInt (o_expiresAt ord), sql_int (o_paidAt ord), SInt (refunded ord), SText (json_text (metadata_json (o_metadata ord)))]"

definition sql_order_create :: "'db sql_client \<Rightarrow> order \<Rightarrow> 'db \<Rightarrow> order result \<times> 'db" where
  "sql_order_create q ord db = sql_write q (insert_text ''orders'' order_columns) (order_params ord) ord db"

definition sql_order_findById :: "'db sql_client \<Rightarrow> string \<Rightarrow> 'db \<Rightarrow> order option result \<times> 'db" where
  "sql_order_findById q i db = sql_one rowToOrder q (select_by ''orders'' ''id'') [SText i] db"

definition sql_order_findByOutTradeNo :: "'db sql_client \<Rightarrow> string \<Rightarrow> 'db \<Rightarrow> order option result \<times> 'db" where
  "sql_order_findByOutTradeNo q n db = sql_one rowToOrder q (select_by ''orders'' ''out_trade_no'') [SText n] db"

definition sql_order_findByIdempotencyKey :: "'db sql_client \<Rightarrow> string \<Rightarrow> 'db \<Rightarrow> order option result \<times> 'db" where
  "sql_order_findByIdempotencyKey q k db = sql_one rowToOrder q (select_by ''orders'' ''idempotency_key'') [SText k] db"

definition quoted_sql :: "string \<Rightarrow> string" where
  "quoted_sql s = [CHR 0x27] @ s @ [CHR 0x27]"

definition sql_order_findPendingByMethod :: "'db sql_client \<Rightarrow> payment_method \<Rightarrow> 'db \<Rightarrow> order list result \<times> 'db" where
  "sql_order_findPendingByMethod q m db = sql_many rowToOrder q
     (''SELECT * FROM orders WHERE status = '' @ quoted_sql (order_status_name PENDING) @ '' AND method = $1'')
     [SText (method_name m)] db"

definition order_update_columns :: "string list" where
  "order_update_columns = [''status'', ''provider_txn_id'', ''updated_at'', ''paid_at'', ''refunded_amount'', ''metadata'']"

definition order_update_params :: "order \<Rightarrow> sql_value list" where
  "order_update_params ord = [SText (o_id ord), SText (order_status_name (o_status ord)), sql_text (o_providerTxnId ord),
     SInt (o_updatedAt ord), sql_int (o_paidAt ord), SInt (refunded ord), SText (json_text (metadata_json (o_metadata ord)))]"

definition sql_order_update :: "'db sql_client \<Rightarrow> order \<Rightarrow> 'db \<Rightarrow> order result \<times> 'db" where
  "sql_order_update q ord db = sql_write q (update_text ''orders'' order_update_columns) (order_update_params ord) ord db"

definition order_conditions :: "order_filter \<Rightarrow> sql_condition list" where
  "order_conditions f =
     (if truthy (of_merchantId f) then [(''merchant_id'', ''='', SText (the (of_merchantId f)))] else []) @
     (case of_status f of None \<Rightarrow> [] | Some s \<Rightarrow> [(''status'', ''='', SText (order_status_name s))]) @
     (case of_method f of None \<Rightarrow> [] | Some m \<Rightarrow> [(''method'', ''='', SText (method_name m))]) @
     (case of_from f of None \<Rightarrow> [] | Some t \<Rightarrow> [(''created_at'', ''>='', SInt t)]) @
     (case of_to f of None \<Rightarrow> [] | Some t \<Rightarrow> [(''created_at'', ''<'', SInt t)])"

definition sql_order_query :: "'db sql_client \<Rightarrow> order_filter \<Rightarrow> nat \<Rightarrow> nat \<Rightarrow> 'db \<Rightarrow> (int \<times> order list) result \<times> 'db" where
  "sql_order_query q f page_size page_start db = sql_page total_of rowToOrder q ''orders'' ''created_at'' (order_conditions f) page_size page_start db"

definition sql_order_all :: "'db sql_client \<Rightarrow> 'db \<Rightarrow> order list result \<times> 'db" where
  "sql_order_all q db = sql_many rowToOrder q ''SELECT * FROM orders'' [] db"

text \<open>\<open>summarize\<close>: three statements under the same conditions.\<close>

definition paid_where :: "string \<Rightarrow> string" where
  "paid_where wh = (if wh \<noteq> [] then wh @ '' AND'' else '' WHERE'') @ '' paid_at IS NOT NULL AND status IN ('' @
     join_with '','' (map (quoted_sql \<circ> order_status_name) [PAID, FULFILLED, REFUNDED]) @ '')''"

definition summary_texts :: "sql_condition list \<Rightarrow> string list" where
  "summary_texts cs =
     (let wh = where_text (fst (add_conditions cs))
      in [''SELECT COUNT(*) AS total FROM orders'' @ wh,
          ''SELECT status, COUNT(*) AS c FROM orders'' @ wh @ '' GROUP BY status'',
          ''SELECT method, currency, COUNT(*) AS c, COALESCE(SUM(amount),0) AS g FROM orders'' @ paid_where wh @
            '' GROUP BY method, currency''])"

definition status_count :: "sql_row \<Rightarrow> (order_status \<times> int) option" where
  "status_count row = do {
     s \<leftarrow> Option.bind (sql_str (jm_get row ''status'')) order_status_of;
     n \<leftarrow> sql_num (jm_get row ''c'');
     Some (s, n) }"

definition rowToPaid :: "sql_row \<Rightarrow> paid_row option" where
  "rowToPaid row = do {
     m \<leftarrow> Option.bind (sql_str (jm_get row ''method'')) method_of_name;
     c \<leftarrow> Option.bind (sql_str (jm_get row ''currency'')) currency_of;
     n \<leftarrow> sql_num (jm_get row ''c'');
     g \<leftarrow> sql_num (jm_get row ''g'');
     Some \<lparr>pr_method = m, pr_currency = c, pr_paidCount = n, pr_grossMinor = g\<rparr> }"

definition sql_order_summarize :: "'db sql_client \<Rightarrow> order_filter \<Rightarrow> 'db \<Rightarrow> order_summary result \<times> 'db" where
  "sql_order_summarize q f db =
     (let cs = order_conditions f; params = snd (add_conditions cs); ts = summary_texts cs
      in bindR (q (ts ! 0) params db) (\<lambda>totalRes db.
         case total_of totalRes of
           Inl err \<Rightarrow> (Inl err, db)
         | Inr n \<Rightarrow> bindR (sql_many status_count q (ts ! 1) params db) (\<lambda>counts db.
             bindR (sql_many rowToPaid q (ts ! 2) params db) (\<lambda>paid db.
               (Inr \<lparr>sm_ordersTotal = nat n, sm_byStatus = foldl (\<lambda>m (s, c). jm_set s c m) [] counts, sm_paid = paid\<rparr>, db)))))"

section \<open>Refunds\<close>

definition refund_columns :: "string list" where
  "refund_columns = [''id'', ''order_id'', ''out_refund_no'', ''amount'', ''currency'', ''reason'', ''status'',
     ''provider_refund_id'', ''raw_status'', ''created_at'', ''updated_at'']"

definition refund_params :: "refund \<Rightarrow> sql_value list" where
  "refund_params rf = [SText (r_id rf), SText (r_orderId rf), SText (r_outRefundNo rf), SInt (r_amount rf),
     SText (currency_name (r_currency rf)), sql_text (r_reason rf), SText (refund_status_name (r_status rf)),
     sql_text (r_providerRefundId rf), SText (r_rawStatus rf), SInt (r_createdAt rf), SInt (r_updatedAt rf)]"

definition sql_refund_create :: "'db sql_client \<Rightarrow> refund \<Rightarrow> 'db \<Rightarrow> refund result \<times> 'db" where
  "sql_refund_create q rf db = sql_write q (insert_text ''refunds'' refund_columns) (refund_params rf) rf db"

definition sql_refund_findById :: "'db sql_client \<Rightarrow> string \<Rightarrow> 'db \<Rightarrow> refund option result \<times> 'db" where
  "sql_refund_findById q i db = sql_one rowToRefund q (select_by ''refunds'' ''id'') [SText i] db"

definition sql_refund_findByOutRefundNo :: "'db sql_client \<Rightarrow> string \<Rightarrow> 'db \<Rightarrow> refund option result \<times> 'db" where
  "sql_refund_findByOutRefundNo q n db = sql_one rowToRefund q (select_by ''refunds'' ''out_refund_no'') [SText n] db"

definition sql_refund_findByOrder :: "'db sql_client \<Rightarrow> string \<Rightarrow> 'db \<Rightarrow> refund list result \<times> 'db" where
  "sql_refund_findByOrder q oid db =
     sql_many rowToRefund q (select_by ''refunds'' ''order_id'' @ '' ORDER BY created_at'') [SText oid] db"

definition sql_refund_update :: "'db sql_client \<Rightarrow> refund \<Rightarrow> 'db \<Rightarrow> refund result \<times> 'db" where
  "sql_refund_update q rf db = sql_write q
     (update_text ''refunds'' [''status'', ''provider_refund_id'', ''raw_status'', ''updated_at''])
     [SText (r_id rf), SText (refund_status_name (r_status rf)), sql_text (r_providerRefundId rf), SText (r_rawStatus rf),
      SInt (r_updatedAt rf)] rf db"

definition refund_conditions :: "refund_filter \<Rightarrow> sql_condition list" where
  "refund_conditions f =
     (case rf_status f of None \<Rightarrow> [] | Some s \<Rightarrow> [(''status'', ''='', SText (refund_status_name s))]) @
     (case rf_from f of None \<Rightarrow> [] | Some t \<Rightarrow> [(''created_at'', ''>='', SInt t)]) @
     (case rf_to f of None \<Rightarrow> [] | Some t \<Rightarrow> [(''created_at'', ''<'', SInt t)])"

definition sql_refund_query :: "'db sql_client \<Rightarrow> refund_filter \<Rightarrow> nat \<Rightarrow> nat \<Rightarrow> 'db \<Rightarrow> (int \<times> refund list) result \<times> 'db" where
  "sql_refund_query q f page_size page_start db =
     sql_page total_of rowToRefund q ''refunds'' ''created_at'' (refund_conditions f) page_size page_start db"

definition sql_refund_all :: "'db sql_client \<Rightarrow> 'db \<Rightarrow> refund list result \<times> 'db" where
  "sql_refund_all q db = sql_many rowToRefund q ''SELECT * FROM refunds'' [] db"

section \<open>Subscriptions and processed events\<close>

definition order_ids_text :: "subscription \<Rightarrow> string" where
  "order_ids_text s = json_text (JArr (map JStr (s_orderIds s)))"

definition sub_columns :: "string list" where
  "sub_columns = [''id'', ''user_id'', ''plan_id'', ''starts_at'', ''expires_at'', ''traffic_gb'', ''device_limit'', ''active'',
     ''order_ids'', ''expiry_notified_at'', ''created_at'', ''updated_at'']"

definition sub_params :: "subscription \<Rightarrow> sql_value list" where
  "sub_params s = [SText (s_id s), SText (s_userId s), SText (s_planId s), SInt (s_startsAt s), SInt (s_expiresAt s),
     SInt (s_trafficGb s), SInt (s_deviceLimit s), SBool (s_active s), SText (order_ids_text s),
     sql_int (s_expiryNotifiedAt s), SInt (s_createdAt s), SInt (s_updatedAt s)]"

definition sql_sub_findActiveByUser :: "'db sql_client \<Rightarrow> string \<Rightarrow> 'db \<Rightarrow> subscription option result \<times> 'db" where
  "sql_sub_findActiveByUser q u db =
     sql_one rowToSubscription q (select_by ''subscriptions'' ''user_id'' @ '' AND active = true'') [SText u] db"

definition sql_sub_create :: "'db sql_client \<Rightarrow> subscription \<Rightarrow> 'db \<Rightarrow> subscription result \<times> 'db" where
  "sql_sub_create q s db = sql_write q (insert_text ''subscriptions'' sub_columns) (sub_params s) s db"

definition sql_sub_update :: "'db sql_client \<Rightarrow> subscription \<Rightarrow> 'db \<Rightarrow> subscription result \<times> 'db" where
  "sql_sub_update q s db = sql_write q
     (update_text ''subscriptions'' [''plan_id'', ''starts_at'', ''expires_at'', ''traffic_gb'', ''device_limit'', ''active'',
        ''order_ids'', ''expiry_notified_at'', ''updated_at''])
     [SText (s_id s), SText (s_planId s), SInt (s_startsAt s), SInt (s_expiresAt s), SInt (s_trafficGb s),
      SInt (s_deviceLimit s), SBool (s_active s), SText (order_ids_text s), sql_int (s_expiryNotifiedAt s),
      SInt (s_updatedAt s)] s db"

definition sql_sub_listActive :: "'db sql_client \<Rightarrow> 'db \<Rightarrow> subscription list result \<times> 'db" where
  "sql_sub_listActive q db = sql_many rowToSubscription q ''SELECT * FROM subscriptions WHERE active = true'' [] db"

definition row_count :: "sql_answer \<Rightarrow> nat" where
  "row_count ans = (case sq_rowCount ans of None \<Rightarrow> 0 | Some n \<Rightarrow> n)"

definition sql_markIfNew :: "'db sql_client \<Rightarrow> int \<Rightarrow> string \<Rightarrow> 'db \<Rightarrow> bool result \<times> 'db" where
  "sql_markIfNew q now eventId db =
     bindR (q (insert_text ''processed_events'' [''event_id'', ''created_at''] @ '' ON CONFLICT (event_id) DO NOTHING'')
       [SText eventId, SInt now] db) (\<lambda>ans db. (Inr (0 < row_count ans), db))"

definition sql_event_sweep :: "'db sql_client \<Rightarrow> int \<Rightarrow> int \<Rightarrow> 'db \<Rightarrow> nat result \<times> 'db" where
  "sql_event_sweep q now olderThanMs db =
     bindR (q ''DELETE FROM processed_events WHERE created_at < $1'' [SInt (now - olderThanMs)] db)
       (\<lambda>ans db. (Inr (row_count ans), db))"

section \<open>Deposit addresses and sweep jobs\<close>

definition sql_deposit_nextIndex :: "'db sql_client \<Rightarrow> 'db \<Rightarrow> int result \<times> 'db" where
  "sql_deposit_nextIndex q db =
     bindR (q (''SELECT nextval('' @ quoted_sql ''deposit_address_index_seq'' @ '') AS idx'') [] db) (\<lambda>ans db.
       (case sq_rows ans of
          [] \<Rightarrow> Inl (PlainError ''TypeError'')
        | row # _ \<Rightarrow> (case sql_num (jm_get row ''idx'') of None \<Rightarrow> Inl (PlainError ''unreadable row'') | Some i \<Rightarrow> Inr i), db))"

definition deposit_columns :: "string list" where
  "deposit_columns = [''index'', ''address'', ''order_id'', ''created_at'']"

definition deposit_params :: "deposit_address \<Rightarrow> sql_value list" where
  "deposit_params d = [SInt (d_index d), SText (d_address d), SText (d_orderId d), SInt (d_createdAt d)]"

definition sql_deposit_save :: "'db sql_client \<Rightarrow> deposit_address \<Rightarrow> 'db \<Rightarrow> deposit_address result \<times> 'db" where
  "sql_deposit_save q d db = sql_write q (insert_text ''deposit_addresses'' deposit_columns) (deposit_params d) d db"

definition sql_deposit_findByOrderId :: "'db sql_client \<Rightarrow> string \<Rightarrow> 'db \<Rightarrow> deposit_address option result \<times> 'db" where
  "sql_deposit_findByOrderId q oid db =
     sql_one rowToDepositAddress q (select_by ''deposit_addresses'' ''order_id'') [SText oid] db"

definition sql_deposit_findByAddress :: "'db sql_client \<Rightarrow> string \<Rightarrow> 'db \<Rightarrow> deposit_address option result \<times> 'db" where
  "sql_deposit_findByAddress q a db = sql_one rowToDepositAddress q (select_by ''deposit_addresses'' ''address'') [SText a] db"

definition sweep_columns :: "string list" where
  "sweep_columns = [''id'', ''order_id'', ''deposit_index'', ''deposit_address'', ''collection_address'', ''amount_micro'',
     ''status'', ''gas_tx_id'', ''sweep_tx_id'', ''attempts'', ''last_error'', ''created_at'', ''updated_at'', ''next_attempt_at'']"

definition sweep_params :: "sweep_job \<Rightarrow> sql_value list" where
  "sweep_params j = [SText (j_id j), SText (j_orderId j), SInt (j_depositIndex j), SText (j_depositAddress j),
     SText (j_collectionAddress j), SInt (j_amountMicro j), SText (sweep_status_value (j_status j)), sql_text (j_gasTxId j),
     sql_text (j_sweepTxId j), SInt (j_attempts j), sql_text (j_lastError j), SInt (j_createdAt j), SInt (j_updatedAt j),
     SInt (j_nextAttemptAt j)]"

definition sql_sweep_create :: "'db sql_client \<Rightarrow> sweep_job \<Rightarrow> 'db \<Rightarrow> sweep_job result \<times> 'db" where
  "sql_sweep_create q j db = sql_write q (insert_text ''sweep_jobs'' sweep_columns) (sweep_params j) j db"

definition sql_sweep_findById :: "'db sql_client \<Rightarrow> string \<Rightarrow> 'db \<Rightarrow> sweep_job option result \<times> 'db" where
  "sql_sweep_findById q i db = sql_one rowToSweepJob q (select_by ''sweep_jobs'' ''id'') [SText i] db"

definition sql_sweep_findByOrderId :: "'db sql_client \<Rightarrow> string \<Rightarrow> 'db \<Rightarrow> sweep_job option result \<times> 'db" where
  "sql_sweep_findByOrderId q oid db = sql_one rowToSweepJob q (select_by ''sweep_jobs'' ''order_id'') [SText oid] db"

definition sql_sweep_update :: "'db sql_client \<Rightarrow> sweep_job \<Rightarrow> 'db \<Rightarrow> sweep_job result \<times> 'db" where
  "sql_sweep_update q j db = sql_write q
     (update_text ''sweep_jobs'' [''deposit_index'', ''deposit_address'', ''collection_address'', ''amount_micro'', ''status'',
        ''gas_tx_id'', ''sweep_tx_id'', ''attempts'', ''last_error'', ''updated_at'', ''next_attempt_at''])
     [SText (j_id j), SInt (j_depositIndex j), SText (j_depositAddress j), SText (j_collectionAddress j),
      SInt (j_amountMicro j), SText (sweep_status_value (j_status j)), sql_text (j_gasTxId j), sql_text (j_sweepTxId j),
      SInt (j_attempts j), sql_text (j_lastError j), SInt (j_updatedAt j), SInt (j_nextAttemptAt j)] j db"

definition sql_sweep_due :: "'db sql_client \<Rightarrow> int \<Rightarrow> nat \<Rightarrow> 'db \<Rightarrow> sweep_job list result \<times> 'db" where
  "sql_sweep_due q now page_size db = sql_many rowToSweepJob q
     (''SELECT * FROM sweep_jobs WHERE status IN ('' @ join_with '','' (map quoted_sql [''PENDING'', ''GAS_FUELING'', ''SWEEPING'']) @
        '') AND next_attempt_at <= $1 ORDER BY created_at ASC LIMIT $2'') [SInt now, SInt (int page_size)] db"

definition sql_sweep_all :: "'db sql_client \<Rightarrow> 'db \<Rightarrow> sweep_job list result \<times> 'db" where
  "sql_sweep_all q db = sql_many rowToSweepJob q ''SELECT * FROM sweep_jobs ORDER BY created_at ASC'' [] db"

section \<open>Merchants and users\<close>

definition merchant_columns :: "string list" where
  "merchant_columns = [''id'', ''name'', ''status'', ''api_key'', ''api_key_previous'', ''usdt_hd_path'', ''created_at'', ''updated_at'']"

definition merchant_params :: "merchant \<Rightarrow> sql_value list" where
  "merchant_params m = [SText (m_id m), SText (m_name m), SText (merchant_status_name (m_status m)), SText (m_apiKey m),
     sql_text (m_apiKeyPrevious m), sql_text (m_usdtHdPath m), SInt (m_createdAt m), SInt (m_updatedAt m)]"

definition sql_merchant_create :: "'db sql_client \<Rightarrow> merchant \<Rightarrow> 'db \<Rightarrow> merchant result \<times> 'db" where
  "sql_merchant_create q m db = sql_write q (insert_text ''merchants'' merchant_columns) (merchant_params m) m db"

definition sql_merchant_findById :: "'db sql_client \<Rightarrow> string \<Rightarrow> 'db \<Rightarrow> merchant option result \<times> 'db" where
  "sql_merchant_findById q i db = sql_one rowToMerchant q (select_by ''merchants'' ''id'') [SText i] db"

definition sql_merchant_findByApiKey :: "'db sql_client \<Rightarrow> string \<Rightarrow> 'db \<Rightarrow> merchant option result \<times> 'db" where
  "sql_merchant_findByApiKey q k db =
     sql_one rowToMerchant q (select_by ''merchants'' ''api_key'' @ '' OR api_key_previous = $1'') [SText k] db"

definition sql_merchant_update :: "'db sql_client \<Rightarrow> merchant \<Rightarrow> 'db \<Rightarrow> merchant result \<times> 'db" where
  "sql_merchant_update q m db = sql_write q
     (update_text ''merchants'' [''name'', ''status'', ''api_key'', ''api_key_previous'', ''usdt_hd_path'', ''updated_at''])
     [SText (m_id m), SText (m_name m), SText (merchant_status_name (m_status m)), SText (m_apiKey m),
      sql_text (m_apiKeyPrevious m), sql_text (m_usdtHdPath m), SInt (m_updatedAt m)] m db"

definition sql_merchant_list :: "'db sql_client \<Rightarrow> 'db \<Rightarrow> merchant list result \<times> 'db" where
  "sql_merchant_list q db = sql_many rowToMerchant q ''SELECT * FROM merchants ORDER BY created_at ASC'' [] db"

definition user_columns :: "string list" where
  "user_columns = [''id'', ''email'', ''locale'', ''name'', ''password_hash'', ''api_key'', ''created_at'', ''updated_at'']"

definition user_params :: "user \<Rightarrow> sql_value list" where
  "user_params u = [SText (u_id u), SText (u_email u), SText (u_locale u), sql_text (u_name u), SText (u_passwordHash u),
     SText (u_apiKey u), SInt (u_createdAt u), SInt (u_updatedAt u)]"

definition sql_user_create :: "'db sql_client \<Rightarrow> user \<Rightarrow> 'db \<Rightarrow> user result \<times> 'db" where
  "sql_user_create q u db =
     (let stored = u\<lparr>u_email := to_lower (u_email u)\<rparr>
      in bindR (q (insert_text ''users'' user_columns @ '' ON CONFLICT (email) DO NOTHING'') (user_params stored) db)
        (\<lambda>ans db. (if row_count ans = 0 then Inl (PlainError (''email already registered: '' @ u_email stored)) else Inr stored, db)))"

definition sql_user_findById :: "'db sql_client \<Rightarrow> string \<Rightarrow> 'db \<Rightarrow> user option result \<times> 'db" where
  "sql_user_findById q i db = sql_one rowToUser q (select_by ''users'' ''id'') [SText i] db"

definition sql_user_findByEmail :: "'db sql_client \<Rightarrow> string \<Rightarrow> 'db \<Rightarrow> user option result \<times> 'db" where
  "sql_user_findByEmail q email db = sql_one rowToUser q (select_by ''users'' ''email'') [SText (to_lower email)] db"

definition sql_user_findByApiKey :: "'db sql_client \<Rightarrow> string \<Rightarrow> 'db \<Rightarrow> user option result \<times> 'db" where
  "sql_user_findByApiKey q k db = sql_one rowToUser q (select_by ''users'' ''api_key'') [SText k] db"

definition sql_user_update :: "'db sql_client \<Rightarrow> user \<Rightarrow> 'db \<Rightarrow> user result \<times> 'db" where
  "sql_user_update q u db =
     (let stored = u\<lparr>u_email := to_lower (u_email u)\<rparr>
      in bindR (q (update_text ''users'' [''email'', ''locale'', ''name'', ''password_hash'', ''api_key'', ''updated_at''])
           [SText (u_id stored), SText (u_email stored), SText (u_locale stored), sql_text (u_name stored),
            SText (u_passwordHash stored), SText (u_apiKey stored), SInt (u_updatedAt stored)] db)
        (\<lambda>ans db. (if row_count ans = 0 then Inl (PlainError (''unknown user: '' @ u_id stored)) else Inr stored, db)))"

section \<open>Audit log\<close>

definition audit_columns :: "string list" where
  "audit_columns = [''id'', ''at'', ''action'', ''actor'', ''subject_id'', ''metadata'']"

definition audit_params :: "audit_event \<Rightarrow> sql_value list" where
  "audit_params ev = [SText (a_id ev), SInt (a_at ev), SText (a_action ev), sql_text (a_actor ev), sql_text (a_subjectId ev),
     SText (json_text (case a_metadata ev of None \<Rightarrow> JObj [] | Some m \<Rightarrow> m))]"

definition sql_audit_record :: "'db sql_client \<Rightarrow> env \<Rightarrow> audit_input \<Rightarrow> 'db \<Rightarrow> audit_event result \<times> 'db" where
  "sql_audit_record q e inp db =
     (let ev = \<lparr>a_id = uuid_at e 0, a_at = (case ai_at inp of Some t \<Rightarrow> t | None \<Rightarrow> now_at e 0), a_action = ai_action inp,
            a_actor = ai_actor inp, a_subjectId = ai_subjectId inp, a_metadata = ai_metadata inp\<rparr>
      in sql_write q (insert_text ''audit_events'' audit_columns) (audit_params ev) ev db)"

definition audit_conditions :: "audit_query \<Rightarrow> sql_condition list" where
  "audit_conditions f =
     (case aq_action f of None \<Rightarrow> [] | Some x \<Rightarrow> [(''action'', ''='', SText x)]) @
     (case aq_actor f of None \<Rightarrow> [] | Some x \<Rightarrow> [(''actor'', ''='', SText x)]) @
     (case aq_subjectId f of None \<Rightarrow> [] | Some x \<Rightarrow> [(''subject_id'', ''='', SText x)]) @
     (case aq_from f of None \<Rightarrow> [] | Some t \<Rightarrow> [(''at'', ''>='', SInt t)]) @
     (case aq_to f of None \<Rightarrow> [] | Some t \<Rightarrow> [(''at'', ''<'', SInt t)])"

definition audit_total :: "sql_answer \<Rightarrow> int result" where
  "audit_total ans =
     (case sql_num (case sq_rows ans of [] \<Rightarrow> None | row # _ \<Rightarrow> jm_get row ''total'') of
        None \<Rightarrow> Inl (PlainError ''unreadable row'') | Some n \<Rightarrow> Inr n)"

definition sql_audit_query :: "'db sql_client \<Rightarrow> audit_query \<Rightarrow> 'db \<Rightarrow> (int \<times> audit_event list) result \<times> 'db" where
  "sql_audit_query q f db = sql_page audit_total rowToAuditEvent q ''audit_events'' ''at'' (audit_conditions f)
     (case aq_limit f of None \<Rightarrow> DEFAULT_LIMIT | Some n \<Rightarrow> n) (case aq_offset f of None \<Rightarrow> 0 | Some n \<Rightarrow> n) db"

section \<open>The client\<close>

text \<open>
  \<open>createPgClient\<close>: \<open>Pool\<close> is the driver's constructor, absent when the package is not installed; the client hands
  its statements to the pool.
\<close>

definition createPgClient :: "(string \<Rightarrow> int \<Rightarrow> 'db sql_client) option \<Rightarrow> string \<Rightarrow> int option \<Rightarrow> 'db sql_client result" where
  "createPgClient Pool connectionString max_conns =
     (case Pool of
        Some pool \<Rightarrow> Inr (pool connectionString (case max_conns of None \<Rightarrow> 10 | Some n \<Rightarrow> n))
      | None \<Rightarrow> Inl (PlainError (''DATABASE_URL is set but the '' @ quoted_sql ''pg'' @
        '' package is not installed. Run `npm install pg` (it is declared as an optional dependency).'')))"

definition pg_ping :: "'db sql_client \<Rightarrow> 'db \<Rightarrow> string result \<times> 'db" where
  "pg_ping pool db = bindR (pool ''SELECT 1'' [] db) (\<lambda>_ db. (Inr ''PONG'', db))"

definition loadSchemaSql :: "(string \<Rightarrow> string option) \<Rightarrow> string list \<Rightarrow> string result" where
  "loadSchemaSql readFile candidates =
     (case List.find (\<lambda>p. readFile p \<noteq> None) candidates of
        Some path \<Rightarrow> Inr (the (readFile path))
      | None \<Rightarrow> Inl (PlainError (''schema.sql not found (looked in: '' @ join_with '', '' candidates @ '')'')))"

definition runMigrations :: "(string \<Rightarrow> string option) \<Rightarrow> string list \<Rightarrow> 'db sql_client \<Rightarrow> 'db \<Rightarrow> unit result \<times> 'db" where
  "runMigrations readFile candidates q db =
     (case loadSchemaSql readFile candidates of
        Inl err \<Rightarrow> (Inl err, db)
      | Inr schema \<Rightarrow> bindR (q schema [] db) (\<lambda>_ db. (Inr (), db)))"

end
