(* ===== verification/SqlProps.thy ===== *)
theory SqlProps
  imports SqlRepos
begin

text \<open>
  What the SQL repositories keep: an entity that is inserted reads back as it was, a filter selects what the
  in-memory store selects, and no clause's text depends on data. The schema's column types are those of
  \<^verbatim>\<open>src/storage/sql/schema.sql\<close>; what the driver returns for them (a bigint as a text, a jsonb parsed) is its
  documented behaviour. An insertion that PostgreSQL refuses, for a text with a NUL character or an INTEGER of more
  than 32 bits, has no row and is not represented.
\<close>

section \<open>What comes back\<close>

datatype col_type = T_text | T_bigint | T_integer | T_boolean | T_jsonb

definition returned :: "col_type \<Rightarrow> sql_value \<Rightarrow> sql_value" where
  "returned ty v =
     (case (ty, v) of
        (T_bigint, SInt i) \<Rightarrow> SText (string_of_int i)
      | (T_jsonb, SText t) \<Rightarrow> (case JSON_parse t of None \<Rightarrow> SNull | Some j \<Rightarrow> SJson j)
      | _ \<Rightarrow> v)"

text \<open>The row that an insertion makes, as a later query gets it.\<close>

definition stored_row :: "(string \<times> col_type) list \<Rightarrow> string list \<Rightarrow> sql_value list \<Rightarrow> sql_row" where
  "stored_row schema cols params =
     map (\<lambda>(c, v). (c, returned (case map_of schema c of None \<Rightarrow> T_text | Some ty \<Rightarrow> ty) v)) (zip cols params)"

definition orders_schema :: "(string \<times> col_type) list" where
  "orders_schema = [(''amount'', T_bigint), (''created_at'', T_bigint), (''updated_at'', T_bigint), (''expires_at'', T_bigint),
     (''paid_at'', T_bigint), (''refunded_amount'', T_bigint), (''metadata'', T_jsonb)]"

definition refunds_schema :: "(string \<times> col_type) list" where
  "refunds_schema = [(''amount'', T_bigint), (''created_at'', T_bigint), (''updated_at'', T_bigint)]"

definition subscriptions_schema :: "(string \<times> col_type) list" where
  "subscriptions_schema = [(''starts_at'', T_bigint), (''expires_at'', T_bigint), (''traffic_gb'', T_integer),
     (''device_limit'', T_integer), (''active'', T_boolean), (''order_ids'', T_jsonb), (''expiry_notified_at'', T_bigint),
     (''created_at'', T_bigint), (''updated_at'', T_bigint)]"

definition sweep_jobs_schema :: "(string \<times> col_type) list" where
  "sweep_jobs_schema = [(''deposit_index'', T_bigint), (''amount_micro'', T_bigint), (''attempts'', T_integer),
     (''created_at'', T_bigint), (''updated_at'', T_bigint), (''next_attempt_at'', T_bigint)]"

definition deposits_schema :: "(string \<times> col_type) list" where
  "deposits_schema = [(''index'', T_bigint), (''created_at'', T_bigint)]"

definition accounts_schema :: "(string \<times> col_type) list" where
  "accounts_schema = [(''created_at'', T_bigint), (''updated_at'', T_bigint)]"

section \<open>Reading values\<close>

definition exact :: "int \<Rightarrow> bool" where
  "exact i \<longleftrightarrow> \<bar>i\<bar> \<le> 2 ^ 53"

lemma sql_num_text: "exact i \<Longrightarrow> sql_num (Some (SText (string_of_int i))) = Some i"
  by (simp add: sql_num_def js_number_of_int int_of_num_def exact_def is_integer_def)

lemma sql_read_simps [simp]:
  "sql_num (Some (SInt i)) = Some i" "sql_str (Some (SText s)) = Some s"
  "sql_optStr (Some (sql_text x)) = Some x"
  "sql_optNum (Some SNull) = Some None" "sql_optStr (Some (SText s)) = Some (Some s)"
  by (simp_all add: sql_num_def sql_str_def sql_optStr_def sql_optNum_def sql_text_def split: option.split)

lemma sql_optNum_text: "exact i \<Longrightarrow> sql_optNum (Some (SText (string_of_int i))) = Some (Some i)"
  by (simp add: sql_optNum_def sql_num_text)

lemma returned_simps [simp]:
  "returned T_text v = v" "returned T_integer v = v" "returned T_boolean v = v"
  "returned T_bigint (SInt i) = SText (string_of_int i)" "returned T_bigint SNull = SNull"
  by (simp_all add: returned_def)

lemma sql_optNum_returned:
  "(\<And>i. x = Some i \<Longrightarrow> exact i) \<Longrightarrow> sql_optNum (Some (returned T_bigint (sql_int x))) = Some x"
  by (cases x) (simp_all add: sql_int_def sql_optNum_text)

lemma names_read [simp]:
  "method_of_name (method_name m) = Some m" "currency_of (currency_name c) = Some c"
  "order_status_of (order_status_name s) = Some s" "refund_status_of (refund_status_name r) = Some r"
  "sweep_status_of (sweep_status_value w) = Some w" "merchant_status_of (merchant_status_name a) = Some a"
  "render_of (render_name x) = Some x"
proof -
  show "method_of_name (method_name m) = Some m" by (cases m) (simp_all add: method_of_name_def ALL_METHODS_def)
  show "currency_of (currency_name c) = Some c" by (cases c) (simp_all add: currency_of_def)
  show "order_status_of (order_status_name s) = Some s" by (cases s) (simp_all add: order_status_of_def)
  show "refund_status_of (refund_status_name r) = Some r" by (cases r) (simp_all add: refund_status_of_def)
  show "sweep_status_of (sweep_status_value w) = Some w" by (cases w) (simp_all add: sweep_status_of_def)
  show "merchant_status_of (merchant_status_name a) = Some a" by (cases a) (simp_all add: merchant_status_of_def)
  show "render_of (render_name x) = Some x" by (cases x) (simp_all add: render_of_def)
qed

section \<open>Metadata\<close>

definition metadata_ok :: "order_metadata \<Rightarrow> bool" where
  "metadata_ok md \<longleftrightarrow> (case md_payInfo md of None \<Rightarrow> True | Some p \<Rightarrow> distinct (map fst (c_extra p)))"

lemma strings_read: "strings_of (strings_json m) = Some m"
proof -
  have "those (map (\<lambda>(k, v). case v of JStr s \<Rightarrow> Some (k, s) | _ \<Rightarrow> None) (map (\<lambda>(k, v). (k, JStr v)) m)) = Some m"
    by (induction m) auto
  then show ?thesis by (simp only: strings_of_def strings_json_def json.case)
qed

lemma payInfo_read: "payInfo_of (payInfo_json p) = Some p"
  by (simp add: payInfo_of_def payInfo_json_def text_at_def json_field_def strings_read)

lemma payInfo_plain: "distinct (map fst (c_extra p)) \<Longrightarrow> plain (payInfo_json p)"
  by (auto simp: payInfo_json_def strings_json_def comp_def case_prod_unfold list_all_iff)

lemma metadata_plain: "plain (metadata_json md)"
  by (auto simp: metadata_json_def opt_field_def split: option.split)

lemma metadata_read: "metadata_ok md \<Longrightarrow> metadata_of (metadata_json md) = Some md"
proof -
  assume ok: "metadata_ok md"
  have t: "text_at (metadata_json md) ''depositAddress'' = md_depositAddress md"
    "text_at (metadata_json md) ''depositIndex'' = md_depositIndex md"
    "text_at (metadata_json md) ''payInfo'' = map_option (\<lambda>p. json_text (payInfo_json p)) (md_payInfo md)"
    by (auto simp: text_at_def json_field_def metadata_json_def opt_field_def split: option.split)
  show ?thesis
  proof (cases "md_payInfo md")
    case None
    then show ?thesis by (simp add: metadata_of_def t)
  next
    case (Some p)
    then have "JSON_parse (json_text (payInfo_json p)) = Some (payInfo_json p)"
      using ok by (intro json_roundtrip payInfo_plain) (simp add: metadata_ok_def)
    then show ?thesis using Some by (simp add: metadata_of_def t payInfo_read)
  qed
qed

lemma jsonb_returned: "plain j \<Longrightarrow> sql_json d (Some (returned T_jsonb (SText (json_text j)))) = Some j"
  by (simp add: returned_def json_roundtrip sql_json_def)

lemma order_ids_returned:
  "sql_json d (Some (returned T_jsonb (SText (order_ids_text s)))) = Some (JArr (map JStr (s_orderIds s)))"
  unfolding order_ids_text_def by (rule jsonb_returned) (simp add: list_all_iff)

lemma texts_read: "texts_of (JArr (map JStr xs)) = Some xs"
proof -
  have "those (map (\<lambda>v. case v of JStr s \<Rightarrow> Some s | _ \<Rightarrow> None) (map JStr xs)) = Some xs" by (induction xs) auto
  then show ?thesis by (simp only: texts_of_def json.case)
qed

section \<open>Round trips\<close>

definition order_exact :: "order \<Rightarrow> bool" where
  "order_exact ord \<longleftrightarrow> exact (o_amount ord) \<and> exact (o_createdAt ord) \<and> exact (o_updatedAt ord) \<and> exact (o_expiresAt ord) \<and>
     exact (refunded ord) \<and> (\<forall>i. o_paidAt ord = Some i \<longrightarrow> exact i) \<and> metadata_ok (o_metadata ord)"

lemma order_read_back:
  assumes "order_exact ord"
  shows "rowToOrder (stored_row orders_schema order_columns (order_params ord)) =
    Some (ord\<lparr>o_merchantId := Some (orderMerchant ord), o_refundedAmount := Some (refunded ord)\<rparr>)"
proof -
  have paid: "sql_optNum (Some (returned T_bigint (sql_int (o_paidAt ord)))) = Some (o_paidAt ord)"
    using assms by (intro sql_optNum_returned) (simp add: order_exact_def)
  have md: "metadata_of (metadata_json (o_metadata ord)) = Some (o_metadata ord)"
    using assms by (intro metadata_read) (simp add: order_exact_def)
  show ?thesis
    using assms
    by (simp add: rowToOrder_def stored_row_def orders_schema_def order_columns_def order_params_def Let_def paid md
        jsonb_returned[OF metadata_plain] order_exact_def sql_num_text orderMerchant_def DEFAULT_MERCHANT_ID_def split: option.split)
qed

lemma refund_read_back:
  assumes "exact (r_amount rf)" "exact (r_createdAt rf)" "exact (r_updatedAt rf)"
  shows "rowToRefund (stored_row refunds_schema refund_columns (refund_params rf)) = Some rf"
  using assms
  by (simp add: rowToRefund_def stored_row_def refunds_schema_def refund_columns_def refund_params_def Let_def sql_num_text)

definition sub_exact :: "subscription \<Rightarrow> bool" where
  "sub_exact s \<longleftrightarrow> exact (s_startsAt s) \<and> exact (s_expiresAt s) \<and> exact (s_createdAt s) \<and> exact (s_updatedAt s) \<and>
     (\<forall>i. s_expiryNotifiedAt s = Some i \<longrightarrow> exact i)"

lemma sub_read_back:
  assumes "sub_exact s"
  shows "rowToSubscription (stored_row subscriptions_schema sub_columns (sub_params s)) = Some s"
proof -
  have n: "sql_optNum (Some (returned T_bigint (sql_int (s_expiryNotifiedAt s)))) = Some (s_expiryNotifiedAt s)"
    using assms by (intro sql_optNum_returned) (simp add: sub_exact_def)
  show ?thesis
    using assms
    by (simp add: rowToSubscription_def stored_row_def subscriptions_schema_def sub_columns_def sub_params_def Let_def n
        order_ids_returned texts_read sub_exact_def sql_num_text sql_bool_def)
qed

definition job_exact :: "sweep_job \<Rightarrow> bool" where
  "job_exact j \<longleftrightarrow> exact (j_depositIndex j) \<and> exact (j_amountMicro j) \<and> exact (j_createdAt j) \<and> exact (j_updatedAt j) \<and>
     exact (j_nextAttemptAt j)"

lemma job_read_back:
  "job_exact j \<Longrightarrow> rowToSweepJob (stored_row sweep_jobs_schema sweep_columns (sweep_params j)) = Some j"
  by (simp add: rowToSweepJob_def stored_row_def sweep_jobs_schema_def sweep_columns_def sweep_params_def Let_def
      job_exact_def sql_num_text)

lemma deposit_read_back:
  "exact (d_index d) \<Longrightarrow> exact (d_createdAt d) \<Longrightarrow>
     rowToDepositAddress (stored_row deposits_schema deposit_columns (deposit_params d)) = Some d"
  by (simp add: rowToDepositAddress_def stored_row_def deposits_schema_def deposit_columns_def deposit_params_def Let_def
      sql_num_text)

lemma account_read_back:
  "exact (m_createdAt m) \<Longrightarrow> exact (m_updatedAt m) \<Longrightarrow>
     rowToMerchant (stored_row accounts_schema merchant_columns (merchant_params m)) = Some m"
  "exact (u_createdAt u) \<Longrightarrow> exact (u_updatedAt u) \<Longrightarrow>
     rowToUser (stored_row accounts_schema user_columns (user_params u)) = Some u"
  by (simp_all add: rowToMerchant_def rowToUser_def stored_row_def accounts_schema_def merchant_columns_def
      merchant_params_def user_columns_def user_params_def Let_def sql_num_text)

text \<open>
  C26: What the database gives back. Whatever is stored, an order, a refund, a subscription or a sweep job, its row reads
  back as the entity that was inserted, each value in its own field; only an order without a tenant comes back with
  the default one, and one without refunds with a refunded amount of zero.
\<close>

theorem rows_read_back:
  assumes "order_exact ord" "exact (r_amount rf)" "exact (r_createdAt rf)" "exact (r_updatedAt rf)" "sub_exact s" "job_exact j"
  shows "rowToOrder (stored_row orders_schema order_columns (order_params ord)) =
      Some (ord\<lparr>o_merchantId := Some (orderMerchant ord), o_refundedAmount := Some (refunded ord)\<rparr>) \<and>
    rowToRefund (stored_row refunds_schema refund_columns (refund_params rf)) = Some rf \<and>
    rowToSubscription (stored_row subscriptions_schema sub_columns (sub_params s)) = Some s \<and>
    rowToSweepJob (stored_row sweep_jobs_schema sweep_columns (sweep_params j)) = Some j"
  using assms by (simp add: order_read_back refund_read_back sub_read_back job_read_back)

section \<open>Updates\<close>

text \<open>\<open>UPDATE .. SET\<close>: the columns listed get the new values, the others stay.\<close>

definition updated_row :: "(string \<times> col_type) list \<Rightarrow> string list \<Rightarrow> sql_value list \<Rightarrow> sql_row \<Rightarrow> sql_row" where
  "updated_row schema cols params row =
     map (\<lambda>(c, v). (c, case map_of (stored_row schema cols params) c of None \<Rightarrow> v | Some w \<Rightarrow> w)) row"

text \<open>An update writes the whole entity, as long as the fields it does not list are what they were.\<close>

theorem order_update_row:
  assumes "o_id new = o_id old" "orderMerchant new = orderMerchant old" "o_outTradeNo new = o_outTradeNo old"
    "o_userId new = o_userId old" "o_planId new = o_planId old" "o_method new = o_method old" "o_currency new = o_currency old"
    "o_amount new = o_amount old" "o_idempotencyKey new = o_idempotencyKey old" "o_createdAt new = o_createdAt old"
    "o_expiresAt new = o_expiresAt old"
  shows "updated_row orders_schema order_update_columns (tl (order_update_params new))
      (stored_row orders_schema order_columns (order_params old)) =
    stored_row orders_schema order_columns (order_params new)"
proof -
  have m: "(case o_merchantId new of None \<Rightarrow> ''default'' | Some m \<Rightarrow> m) = (case o_merchantId old of None \<Rightarrow> ''default'' | Some m \<Rightarrow> m)"
    using assms(2) unfolding orderMerchant_def DEFAULT_MERCHANT_ID_def .
  show ?thesis
    using assms
    by (simp add: updated_row_def stored_row_def orders_schema_def order_columns_def order_update_columns_def order_params_def
        order_update_params_def m)
qed

section \<open>Conditions\<close>

text \<open>What a condition says of a row, as inserted: \<open>=\<close> compares values, and no comparison holds of \<open>NULL\<close>.\<close>

definition meets :: "sql_row \<Rightarrow> sql_condition \<Rightarrow> bool" where
  "meets row c =
     (case c of (col, oper, v) \<Rightarrow>
       (case (map_of row col, v) of
          (Some (SInt a), SInt b) \<Rightarrow> (oper = ''='' \<and> a = b) \<or> (oper = ''>='' \<and> b \<le> a) \<or> (oper = ''<'' \<and> a < b)
        | (Some (SText a), SText b) \<Rightarrow> oper = ''='' \<and> a = b
        | _ \<Rightarrow> False))"

lemma enum_names [simp]:
  "(order_status_name a = order_status_name b) = (a = b)" "(refund_status_name x = refund_status_name y) = (x = y)"
  by (metis names_read(3) option.inject) (metis names_read(4) option.inject)

lemma order_row_values:
  "map_of (zip order_columns (order_params ord)) ''merchant_id'' = Some (SText (orderMerchant ord))"
  "map_of (zip order_columns (order_params ord)) ''status'' = Some (SText (order_status_name (o_status ord)))"
  "map_of (zip order_columns (order_params ord)) ''method'' = Some (SText (method_name (o_method ord)))"
  "map_of (zip order_columns (order_params ord)) ''created_at'' = Some (SInt (o_createdAt ord))"
  by (simp_all add: order_columns_def order_params_def orderMerchant_def DEFAULT_MERCHANT_ID_def split: option.split)

lemma refund_row_values:
  "map_of (zip refund_columns (refund_params rf)) ''status'' = Some (SText (refund_status_name (r_status rf)))"
  "map_of (zip refund_columns (refund_params rf)) ''created_at'' = Some (SInt (r_createdAt rf))"
  by (simp_all add: refund_columns_def refund_params_def)

lemma audit_row_values:
  "map_of (zip audit_columns (audit_params ev)) ''action'' = Some (SText (a_action ev))"
  "map_of (zip audit_columns (audit_params ev)) ''actor'' = Some (sql_text (a_actor ev))"
  "map_of (zip audit_columns (audit_params ev)) ''subject_id'' = Some (sql_text (a_subjectId ev))"
  "map_of (zip audit_columns (audit_params ev)) ''at'' = Some (SInt (a_at ev))"
  by (simp_all add: audit_columns_def audit_params_def)

lemma meets_text: "map_of row k = Some (sql_text x) \<Longrightarrow> meets row (k, ''='', SText y) = (x = Some y)"
  "map_of row k = Some (SText z) \<Longrightarrow> meets row (k, ''='', SText y) = (z = y)"
  by (simp_all add: meets_def sql_text_def split: option.split)

lemma meets_int: "map_of row k = Some (SInt a) \<Longrightarrow> meets row (k, ''>='', SInt b) = (b \<le> a)"
  "map_of row k = Some (SInt a) \<Longrightarrow> meets row (k, ''<'', SInt b) = (a < b)"
  by (simp_all add: meets_def)

text \<open>
  C27: The conditions of a query select the rows of exactly the entities that the in-memory stores' filters select: for
  orders, with the tenant's isolation, for refunds and for audit events.
\<close>

theorem sql_filters_agree:
  "list_all (meets (zip order_columns (order_params ord))) (order_conditions f) = order_matches f ord \<and>
   list_all (meets (zip refund_columns (refund_params rf))) (refund_conditions g) = refund_matches g rf \<and>
   list_all (meets (zip audit_columns (audit_params ev))) (audit_conditions h) = audit_matches h ev"
proof (intro conjI)
  show "list_all (meets (zip order_columns (order_params ord))) (order_conditions f) = order_matches f ord"
    by (cases "of_status f"; cases "of_method f"; cases "of_from f"; cases "of_to f")
      (simp_all add: order_conditions_def order_matches_def meets_text meets_int order_row_values not_le not_less)
  show "list_all (meets (zip refund_columns (refund_params rf))) (refund_conditions g) = refund_matches g rf"
    by (cases "rf_status g"; cases "rf_from g"; cases "rf_to g")
      (simp_all add: refund_conditions_def refund_matches_def meets_text meets_int refund_row_values not_le not_less)
  show "list_all (meets (zip audit_columns (audit_params ev))) (audit_conditions h) = audit_matches h ev"
    by (cases "aq_action h"; cases "aq_actor h"; cases "aq_subjectId h"; cases "aq_from h"; cases "aq_to h")
      (simp_all add: audit_conditions_def audit_matches_def meets_text meets_int audit_row_values not_le not_less)
qed

section \<open>Statements\<close>

lemma add_conditions_snoc:
  "add_conditions (cs @ [c]) =
     (fst (add_conditions cs) @ [replace_question (placeholder (length (snd (add_conditions cs)) + 1)) (condition_text c)],
      snd (add_conditions cs) @ [snd (snd c)])"
  by (simp add: add_conditions_def add_condition_def Let_def)

lemma add_conditions_shape:
  "snd (add_conditions cs) = map (snd \<circ> snd) cs \<and> length (fst (add_conditions cs)) = length cs \<and>
   (\<forall>i < length cs. fst (add_conditions cs) ! i = replace_question (placeholder (i + 1)) (condition_text (cs ! i)))"
proof (induction cs rule: rev_induct)
  case Nil
  then show ?case by (simp add: add_conditions_def)
next
  case (snoc c cs)
  then show ?case by (auto simp: add_conditions_snoc nth_append less_Suc_eq)
qed

lemma replace_question_at: "CHR ''?'' \<notin> set xs \<Longrightarrow> replace_question t (xs @ CHR ''?'' # ys) = xs @ t @ ys"
  by (induction xs) auto

lemma condition_placeholder:
  assumes "CHR ''?'' \<notin> set col_name" "CHR ''?'' \<notin> set oper"
  shows "replace_question t (condition_text (col_name, oper, v)) = col_name @ '' '' @ oper @ '' '' @ t"
  using assms replace_question_at[of "col_name @ '' '' @ oper @ '' ''" t "[]"] by (simp add: condition_text_def)

lemma order_conditions_plain:
  "c \<in> set (order_conditions f) \<Longrightarrow> CHR ''?'' \<notin> set (fst c) \<and> CHR ''?'' \<notin> set (fst (snd c))"
  by (cases "of_status f"; cases "of_method f"; cases "of_from f"; cases "of_to f")
    (auto simp: order_conditions_def split: if_splits)

text \<open>
  No clause holds data. Whatever tenant, status, method or times a filter of orders names, the i-th clause compares one
  of five fixed columns with the i-th placeholder, and the value is the i-th parameter.
\<close>

definition order_clauses :: "(string \<times> string) set" where
  "order_clauses = {(''merchant_id'', ''=''), (''status'', ''=''), (''method'', ''=''), (''created_at'', ''>=''), (''created_at'', ''<'')}"

theorem clauses_hold_no_data:
  assumes "i < length (order_conditions f)"
  shows "\<exists>(column_name, oper) \<in> order_clauses.
    fst (add_conditions (order_conditions f)) ! i = column_name @ '' '' @ oper @ '' '' @ placeholder (i + 1) \<and>
    snd (add_conditions (order_conditions f)) ! i = snd (snd (order_conditions f ! i))"
proof -
  obtain col_name oper v where c: "order_conditions f ! i = (col_name, oper, v)" by (cases "order_conditions f ! i")
  have m: "(col_name, oper, v) \<in> set (order_conditions f)" using assms c by (metis nth_mem)
  then have "CHR ''?'' \<notin> set col_name" "CHR ''?'' \<notin> set oper" using order_conditions_plain by fastforce+
  moreover have "(col_name, oper) \<in> order_clauses"
    using m by (cases "of_status f"; cases "of_method f"; cases "of_from f"; cases "of_to f")
      (auto simp: order_conditions_def order_clauses_def split: if_splits)
  ultimately show ?thesis
    using add_conditions_shape[of "order_conditions f"] assms
    by (intro bexI[of _ "(col_name, oper)"]) (simp_all add: c condition_placeholder)
qed

section \<open>Empty idempotency keys\<close>

text \<open>
  The in-memory store does not index an empty key, so any number of orders may carry it; the statement sends it as a
  value of its unique column, where the schema takes it once (only \<open>NULL\<close> is exempt).
\<close>

lemma empty_key_is_a_value:
  "o_idempotencyKey ord = Some [] \<Longrightarrow> map_of (zip order_columns (order_params ord)) ''idempotency_key'' = Some (SText [])"
  "o_idempotencyKey ord = None \<Longrightarrow> map_of (zip order_columns (order_params ord)) ''idempotency_key'' = Some SNull"
  by (simp_all add: order_columns_def order_params_def sql_text_def)

section \<open>Examples\<close>

definition sql_demo_order :: order where
  "sql_demo_order = \<lparr>o_id = ''o-1'', o_merchantId = Some ''m-1'', o_outTradeNo = ''V1'', o_userId = ''u-1'', o_planId = ''monthly'',
     o_method = Wechat, o_currency = CNY, o_amount = 2500, o_status = PAID, o_providerTxnId = Some ''T1'',
     o_idempotencyKey = Some [], o_createdAt = 1700000000000, o_updatedAt = 1700000000500, o_expiresAt = 1700001800000,
     o_paidAt = Some 1700000000500, o_refundedAmount = Some 0,
     o_metadata = \<lparr>md_depositAddress = None, md_depositIndex = None,
       md_payInfo = Some \<lparr>c_method = Wechat, c_payTarget = ''weixin://x'', c_renderAs = Qrcode, c_extra = []\<rparr>\<rparr>\<rparr>"

definition sql_demo_refund :: refund where
  "sql_demo_refund = \<lparr>r_id = ''r-1'', r_orderId = ''o-1'', r_outRefundNo = ''R1'', r_amount = 1000, r_currency = CNY,
     r_reason = None, r_status = R_PENDING, r_providerRefundId = None, r_rawStatus = ''CREATED'', r_createdAt = 1700000001000,
     r_updatedAt = 1700000001000\<rparr>"

definition sql_demo_sub :: subscription where
  "sql_demo_sub = \<lparr>s_id = ''s-1'', s_userId = ''u-1'', s_planId = ''monthly'', s_startsAt = 1700000000500,
     s_expiresAt = 1702592000500, s_trafficGb = 200, s_deviceLimit = 5, s_active = True, s_orderIds = [''o-1''],
     s_expiryNotifiedAt = None, s_createdAt = 1700000000500, s_updatedAt = 1700000000500\<rparr>"

definition sql_demo_job :: sweep_job where
  "sql_demo_job = \<lparr>j_id = ''j-1'', j_orderId = ''o-2'', j_depositIndex = 7, j_depositAddress = ''T1'', j_collectionAddress = ''T2'',
     j_amountMicro = 2500000, j_status = S_PENDING, j_gasTxId = None, j_sweepTxId = None, j_attempts = 0, j_lastError = None,
     j_createdAt = 1700000000500, j_updatedAt = 1700000000500, j_nextAttemptAt = 1700000000500\<rparr>"

lemma sql_demo_exact:
  "order_exact sql_demo_order" "sub_exact sql_demo_sub" "job_exact sql_demo_job"
  by (simp_all add: order_exact_def sub_exact_def job_exact_def exact_def sql_demo_order_def sql_demo_sub_def sql_demo_job_def
      refunded_def metadata_ok_def)

lemma rows_read_back_witness:
  "order_exact sql_demo_order \<and>
   rowToOrder (stored_row orders_schema order_columns (order_params sql_demo_order)) = Some sql_demo_order \<and>
   rowToSweepJob (stored_row sweep_jobs_schema sweep_columns (sweep_params sql_demo_job)) = Some sql_demo_job"
proof -
  have "exact (r_amount sql_demo_refund)" "exact (r_createdAt sql_demo_refund)" "exact (r_updatedAt sql_demo_refund)"
    by (simp_all add: exact_def sql_demo_refund_def)
  from rows_read_back[OF sql_demo_exact(1) this sql_demo_exact(2,3)]
  show ?thesis using sql_demo_exact(1) by (simp add: sql_demo_order_def orderMerchant_def refunded_def)
qed

end
