(* ===== verification/OpenApi.thy ===== *)
theory OpenApi
  imports ApiProps
begin

text \<open>
  \<^verbatim>\<open>src/api/openapi.ts\<close>: the OpenAPI document of the interface, operation by operation and schema by schema, and its
  check against the router. Texts beyond 8-bit characters are held by their UTF-8 bytes.
\<close>

section \<open>Building blocks\<close>

definition JSON_CONTENT :: string where
  "JSON_CONTENT = ''application/json''"

definition ref :: "string \<Rightarrow> json" where
  "ref schema_name = JObj [(''$ref'', JStr (''#/components/schemas/'' @ schema_name))]"

definition jsonBody :: "json \<Rightarrow> bool \<Rightarrow> json" where
  "jsonBody schema required =
     JObj [(''required'', JBool required), (''content'', JObj [(JSON_CONTENT, JObj [(''schema'', schema)])])]"

definition jsonResponse :: "string \<Rightarrow> json \<Rightarrow> json" where
  "jsonResponse description schema =
     JObj [(''description'', JStr description), (''content'', JObj [(JSON_CONTENT, JObj [(''schema'', schema)])])]"

definition errorResponse :: "string \<Rightarrow> json" where
  "errorResponse description = jsonResponse description (ref ''ErrorResponse'')"

definition orderIdParam :: json where
  "orderIdParam = JObj [(''name'', JStr ''id''), (''in'', JStr ''path''), (''required'', JBool True),
     (''description'', JStr ''Order id.''), (''schema'', JObj [(''type'', JStr ''string'')])]"

definition reportFilterParams :: "json list" where
  "reportFilterParams =
     [JObj [(''name'', JStr ''from''), (''in'', JStr ''query''), (''required'', JBool False),
        (''description'', JStr ''Start epoch millis (inclusive).''), (''schema'', JObj [(''type'', JStr ''integer'')])],
      JObj [(''name'', JStr ''to''), (''in'', JStr ''query''), (''required'', JBool False),
        (''description'', JStr ''End epoch millis (inclusive).''), (''schema'', JObj [(''type'', JStr ''integer'')])],
      JObj [(''name'', JStr ''method''), (''in'', JStr ''query''), (''required'', JBool False),
        (''schema'', JObj [(''$ref'', JStr ''#/components/schemas/PaymentMethod'')])],
      JObj [(''name'', JStr ''status''), (''in'', JStr ''query''), (''required'', JBool False),
        (''schema'', JObj [(''$ref'', JStr ''#/components/schemas/OrderStatus'')])]]"

definition paginationParams :: "json list" where
  "paginationParams =
     [JObj [(''name'', JStr ''limit''), (''in'', JStr ''query''), (''required'', JBool False),
        (''description'', JStr ''Max items (default 50, cap 500).''),
        (''schema'', JObj [(''type'', JStr ''integer''), (''minimum'', JNum 0), (''maximum'', JNum 500)])],
      JObj [(''name'', JStr ''offset''), (''in'', JStr ''query''), (''required'', JBool False),
        (''description'', JStr ''Items to skip (default 0).''),
        (''schema'', JObj [(''type'', JStr ''integer''), (''minimum'', JNum 0)])]]"

definition paginatedSchema :: "json \<Rightarrow> json" where
  "paginatedSchema itemRef = JObj [(''type'', JStr ''object''),
     (''properties'', JObj [
        (''total'', JObj [(''type'', JStr ''integer'')]),
        (''limit'', JObj [(''type'', JStr ''integer'')]),
        (''offset'', JObj [(''type'', JStr ''integer'')]),
        (''items'', JObj [(''type'', JStr ''array''), (''items'', itemRef)])]),
     (''required'', JArr [JStr ''total'', JStr ''limit'', JStr ''offset'', JStr ''items''])]"

definition webhookOperation :: "string \<Rightarrow> string \<Rightarrow> json" where
  "webhookOperation summary operationId = JObj [
     (''tags'', JArr [JStr ''Webhooks'']),
     (''summary'', JStr summary),
     (''operationId'', JStr operationId),
     (''description'', JStr (''Provider callback. The raw request body is preserved for signature '' @
        ''verification; do not re-encode it. Signature material is passed via '' @
        ''provider-specific headers.'')),
     (''requestBody'', JObj [
        (''required'', JBool True),
        (''description'', JStr ''Raw provider-signed callback body (JSON or XML depending on provider).''),
        (''content'', JObj [
           (''application/json'', JObj [(''schema'', JObj [(''type'', JStr ''object''), (''additionalProperties'', JBool True)])]),
           (''application/xml'', JObj [(''schema'', JObj [(''type'', JStr ''string'')])]),
           (''text/plain'', JObj [(''schema'', JObj [(''type'', JStr ''string'')])])])]),
     (''responses'', JObj [
        (''200'', JObj [
           (''description'', JStr ''Acknowledgement in the provider-expected format.''),
           (''content'', JObj [
              (''application/json'', JObj [(''schema'', JObj [(''type'', JStr ''string'')])]),
              (''application/xml'', JObj [(''schema'', JObj [(''type'', JStr ''string'')])]),
              (''text/plain'', JObj [(''schema'', JObj [(''type'', JStr ''string'')])])])]),
        (''400'', JObj [
           (''description'', JStr ''Signature verification failed or malformed callback.''),
           (''content'', JObj [(''text/plain'', JObj [(''schema'', JObj [(''type'', JStr ''string'')])])])])])]"

section \<open>Operations\<close>

definition op_getHealthz :: json where
  "op_getHealthz =
    JObj [
      (''tags'', JArr [JStr ''Health'']),
      (''summary'', JStr ''Liveness probe''),
      (''operationId'', JStr ''getHealthz''),
      (''responses'', JObj [
        (''200'', jsonResponse ''Service is healthy.'' (JObj [
          (''type'', JStr ''object''),
          (''properties'', JObj [
            (''status'', JObj [(''type'', JStr ''string''), (''example'', JStr ''ok'')]),
            (''methods'', JObj [(''type'', JStr ''array''), (''items'', ref ''PaymentMethod'')])]),
          (''required'', JArr [JStr ''status'', JStr ''methods''])]))])]"

definition op_getReadyz :: json where
  "op_getReadyz =
    JObj [
      (''tags'', JArr [JStr ''Health'']),
      (''summary'', JStr ''Deep readiness probe (200 ready, 503 degraded)''),
      (''operationId'', JStr ''getReadyz''),
      (''responses'', JObj [
        (''200'', jsonResponse ''Service is ready.'' (JObj [
          (''type'', JStr ''object''),
          (''properties'', JObj [
            (''status'', JObj [(''type'', JStr ''string''), (''example'', JStr ''ok'')]),
            (''checks'', JObj [(''type'', JStr ''array''), (''items'', JObj [(''type'', JStr ''object'')])])]),
          (''required'', JArr [JStr ''status'', JStr ''checks''])])),
        (''503'', jsonResponse ''Service is degraded (a critical check failed).'' (JObj [
          (''type'', JStr ''object''),
          (''properties'', JObj [
            (''status'', JObj [(''type'', JStr ''string''), (''example'', JStr ''degraded'')]),
            (''checks'', JObj [(''type'', JStr ''array''), (''items'', JObj [(''type'', JStr ''object'')])])])]))])]"

definition op_getVersion :: json where
  "op_getVersion =
    JObj [
      (''tags'', JArr [JStr ''Health'']),
      (''summary'', JStr ''Application and API version information''),
      (''operationId'', JStr ''getVersion''),
      (''responses'', JObj [
        (''200'', jsonResponse ''Version metadata for this deployment.'' (JObj [
          (''type'', JStr ''object''),
          (''properties'', JObj [
            (''app'', JObj [(''type'', JStr ''string''), (''description'', JStr ''Application version.'')]),
            (''api'', JObj [(''type'', JStr ''string''), (''description'', JStr ''Current API version.'')]),
            (''supported'', JObj [
              (''type'', JStr ''array''),
              (''items'', JObj [(''type'', JStr ''string'')]),
              (''description'', JStr ''API versions this deployment accepts.'')])]),
          (''required'', JArr [JStr ''app'', JStr ''api'', JStr ''supported''])]))])]"

definition op_getMetrics :: json where
  "op_getMetrics =
    JObj [
      (''tags'', JArr [JStr ''Health'']),
      (''summary'', JStr ''Prometheus metrics scrape endpoint''),
      (''operationId'', JStr ''getMetrics''),
      (''responses'', JObj [
        (''200'', JObj [
          (''description'', JStr ''Prometheus text exposition format.''),
          (''content'', JObj [(''text/plain'', JObj [(''schema'', JObj [(''type'', JStr ''string'')])])])])])]"

definition op_getOpenApiJson :: json where
  "op_getOpenApiJson =
    JObj [
      (''tags'', JArr [JStr ''Health'']),
      (''summary'', JStr ''This OpenAPI 3.0.3 specification as JSON''),
      (''operationId'', JStr ''getOpenApiJson''),
      (''responses'', JObj [
        (''200'', jsonResponse ''The OpenAPI document.'' (JObj [(''type'', JStr ''object'')]))])]"

definition op_getDocs :: json where
  "op_getDocs =
    JObj [
      (''tags'', JArr [JStr ''Health'']),
      (''summary'', JStr ''Swagger UI documentation page''),
      (''operationId'', JStr ''getDocs''),
      (''responses'', JObj [
        (''200'', JObj [
          (''description'', JStr ''An HTML page rendering the API docs.''),
          (''content'', JObj [(''text/html'', JObj [(''schema'', JObj [(''type'', JStr ''string'')])])])])])]"

definition op_listPlans :: json where
  "op_listPlans =
    JObj [
      (''tags'', JArr [JStr ''Plans'']),
      (''summary'', JStr ''List purchasable plans''),
      (''operationId'', JStr ''listPlans''),
      (''responses'', JObj [
        (''200'', jsonResponse ''Available plans and enabled payment methods.'' (JObj [
          (''type'', JStr ''object''),
          (''properties'', JObj [
            (''plans'', JObj [(''type'', JStr ''array''), (''items'', ref ''Plan'')]),
            (''enabledMethods'', JObj [(''type'', JStr ''array''), (''items'', ref ''PaymentMethod'')])]),
          (''required'', JArr [JStr ''plans'', JStr ''enabledMethods''])]))])]"

definition op_pricingQuote :: json where
  "op_pricingQuote =
    JObj [
      (''tags'', JArr [JStr ''Plans'']),
      (''summary'', JStr ''Convert an amount between currencies at the current rate''),
      (''operationId'', JStr ''pricingQuote''),
      (''parameters'', JArr [
        JObj [
          (''name'', JStr ''amount''),
          (''in'', JStr ''query''),
          (''required'', JBool True),
          (''description'', JStr ''Amount to convert, as a non-negative integer in minor units.''),
          (''schema'', JObj [(''type'', JStr ''integer''), (''minimum'', JNum 0)])],
        JObj [
          (''name'', JStr ''from''),
          (''in'', JStr ''query''),
          (''required'', JBool True),
          (''description'', JStr ''Source currency.''),
          (''schema'', JObj [(''type'', JStr ''string'')])],
        JObj [
          (''name'', JStr ''to''),
          (''in'', JStr ''query''),
          (''required'', JBool True),
          (''description'', JStr ''Target currency.''),
          (''schema'', JObj [(''type'', JStr ''string'')])]]),
      (''responses'', JObj [
        (''200'', jsonResponse ''The converted quote.'' (JObj [(''type'', JStr ''object''), (''additionalProperties'', JBool True)])),
        (''400'', errorResponse ''Invalid amount or unsupported currency pair.'')])]"

definition op_registerUser :: json where
  "op_registerUser =
    JObj [
      (''tags'', JArr [JStr ''Accounts'']),
      (''summary'', JStr ''Register a new account''),
      (''operationId'', JStr ''registerUser''),
      (''requestBody'', jsonBody (ref ''RegisterRequest'') True),
      (''responses'', JObj [
        (''201'', jsonResponse ''Account created; returns the user and its API key.'' (ref ''AuthResult'')),
        (''400'', errorResponse ''Invalid request body.''),
        (''409'', errorResponse ''Email already registered.'')])]"

definition op_loginUser :: json where
  "op_loginUser =
    JObj [
      (''tags'', JArr [JStr ''Accounts'']),
      (''summary'', JStr ''Log in and obtain an API key''),
      (''operationId'', JStr ''loginUser''),
      (''requestBody'', jsonBody (ref ''LoginRequest'') True),
      (''responses'', JObj [
        (''200'', jsonResponse ''Authenticated; returns the user and its API key.'' (ref ''AuthResult'')),
        (''400'', errorResponse ''Invalid request body.''),
        (''401'', errorResponse ''Invalid credentials.'')])]"

definition op_getCurrentUser :: json where
  "op_getCurrentUser =
    JObj [
      (''tags'', JArr [JStr ''Accounts'']),
      (''summary'', JStr ''Get the authenticated user''),
      (''operationId'', JStr ''getCurrentUser''),
      (''security'', JArr [JObj [(''bearerAuth'', JArr [])]]),
      (''responses'', JObj [
        (''200'', jsonResponse ''The authenticated user.'' (ref ''PublicUser'')),
        (''401'', errorResponse ''Missing or invalid API key.'')])]"

definition op_rotateApiKey :: json where
  "op_rotateApiKey =
    JObj [
      (''tags'', JArr [JStr ''Accounts'']),
      (''summary'', JStr ''Rotate the authenticated user API key''),
      (''operationId'', JStr ''rotateApiKey''),
      (''security'', JArr [JObj [(''bearerAuth'', JArr [])]]),
      (''responses'', JObj [
        (''200'', jsonResponse ''The new API key.'' (JObj [
          (''type'', JStr ''object''),
          (''properties'', JObj [(''apiKey'', JObj [(''type'', JStr ''string'')])]),
          (''required'', JArr [JStr ''apiKey''])])),
        (''401'', errorResponse ''Missing or invalid API key.'')])]"

definition op_createOrder :: json where
  "op_createOrder =
    JObj [
      (''tags'', JArr [JStr ''Orders'']),
      (''summary'', JStr ''Create an order and start a payment''),
      (''operationId'', JStr ''createOrder''),
      (''parameters'', JArr [
        JObj [
          (''name'', JStr ''Idempotency-Key''),
          (''in'', JStr ''header''),
          (''required'', JBool False),
          (''description'', JStr ''Optional key to dedupe order creation across retries.''),
          (''schema'', JObj [(''type'', JStr ''string'')])]]),
      (''requestBody'', jsonBody (ref ''CreateOrderRequest'') True),
      (''responses'', JObj [
        (''201'', jsonResponse ''Order created with provider pay information.'' (ref ''OrderWithPayInfo'')),
        (''400'', errorResponse ''Invalid body or payment method not enabled.''),
        (''404'', errorResponse ''Plan or user not found.'')])]"

definition op_getOrder :: json where
  "op_getOrder =
    JObj [
      (''tags'', JArr [JStr ''Orders'']),
      (''summary'', JStr ''Get an order by id''),
      (''operationId'', JStr ''getOrder''),
      (''parameters'', JArr [orderIdParam]),
      (''responses'', JObj [
        (''200'', jsonResponse ''The order.'' (ref ''Order'')),
        (''404'', errorResponse ''Order not found.'')])]"

definition op_getOrderQrCode :: json where
  "op_getOrderQrCode =
    JObj [
      (''tags'', JArr [JStr ''Orders'']),
      (''summary'', JStr ''Scannable QR image (SVG) for the order pay target''),
      (''operationId'', JStr ''getOrderQrCode''),
      (''parameters'', JArr [
        orderIdParam,
        JObj [
          (''name'', JStr ''m''),
          (''in'', JStr ''query''),
          (''required'', JBool False),
          (''description'', JStr (''Module pixel size (6'' @ [CHR 0xE2, CHR 0x80, CHR 0x93] @ ''20, default 6).'')),
          (''schema'', JObj [(''type'', JStr ''integer'')])]]),
      (''responses'', JObj [
        (''200'', JObj [
          (''description'', JStr ''QR code as an SVG image.''),
          (''content'', JObj [(''image/svg+xml'', JObj [(''schema'', JObj [(''type'', JStr ''string'')])])])]),
        (''404'', errorResponse ''Order not found or has no pay target.'')])]"

definition op_syncOrder :: json where
  "op_syncOrder =
    JObj [
      (''tags'', JArr [JStr ''Orders'']),
      (''summary'', JStr ''Poll the provider and settle the order if paid''),
      (''operationId'', JStr ''syncOrder''),
      (''parameters'', JArr [orderIdParam]),
      (''responses'', JObj [
        (''200'', jsonResponse ''The (possibly updated) order.'' (ref ''Order'')),
        (''404'', errorResponse ''Order not found.'')])]"

definition op_refundOrder :: json where
  "op_refundOrder =
    JObj [
      (''tags'', JArr [JStr ''Refunds'']),
      (''summary'', JStr ''Refund an order (full or partial)''),
      (''operationId'', JStr ''refundOrder''),
      (''parameters'', JArr [orderIdParam]),
      (''requestBody'', jsonBody (ref ''RefundRequest'') False),
      (''responses'', JObj [
        (''201'', jsonResponse ''Refund created.'' (ref ''Refund'')),
        (''400'', errorResponse ''Invalid amount or order not refundable.''),
        (''404'', errorResponse ''Order not found.'')])]"

definition op_listOrderRefunds :: json where
  "op_listOrderRefunds =
    JObj [
      (''tags'', JArr [JStr ''Refunds'']),
      (''summary'', JStr ''List refunds for an order''),
      (''operationId'', JStr ''listOrderRefunds''),
      (''parameters'', JArr [orderIdParam]),
      (''responses'', JObj [
        (''200'', jsonResponse ''Refunds for the order.'' (JObj [
          (''type'', JStr ''object''),
          (''properties'', JObj [(''refunds'', JObj [(''type'', JStr ''array''), (''items'', ref ''Refund'')])]),
          (''required'', JArr [JStr ''refunds''])])),
        (''404'', errorResponse ''Order not found.'')])]"

definition op_wechatNotify :: json where
  "op_wechatNotify =
    webhookOperation ''WeChat Pay payment callback'' ''wechatNotify''"

definition op_wechatRefundNotify :: json where
  "op_wechatRefundNotify =
    webhookOperation ''WeChat Pay refund-result callback'' ''wechatRefundNotify''"

definition op_alipayNotify :: json where
  "op_alipayNotify =
    webhookOperation ''Alipay payment callback'' ''alipayNotify''"

definition op_reconcileUsdt :: json where
  "op_reconcileUsdt =
    JObj [
      (''tags'', JArr [JStr ''Admin'']),
      (''summary'', JStr ''Trigger a USDT on-chain reconciliation pass''),
      (''operationId'', JStr ''reconcileUsdt''),
      (''responses'', JObj [
        (''200'', jsonResponse ''Number of orders settled by this pass.'' (JObj [
          (''type'', JStr ''object''),
          (''properties'', JObj [(''settled'', JObj [(''type'', JStr ''integer'')])]),
          (''required'', JArr [JStr ''settled''])]))])]"

definition op_maintenanceSweep :: json where
  "op_maintenanceSweep =
    JObj [
      (''tags'', JArr [JStr ''Admin'']),
      (''summary'', JStr ''Sweep expired processed-event dedupe records''),
      (''operationId'', JStr ''maintenanceSweep''),
      (''responses'', JObj [
        (''200'', jsonResponse ''Number of dedupe records removed.'' (JObj [
          (''type'', JStr ''object''),
          (''properties'', JObj [(''removed'', JObj [(''type'', JStr ''integer'')])]),
          (''required'', JArr [JStr ''removed''])]))])]"

definition op_processWebhooks :: json where
  "op_processWebhooks =
    JObj [
      (''tags'', JArr [JStr ''Admin'']),
      (''summary'', JStr ''Drain due outbound webhook deliveries''),
      (''operationId'', JStr ''processWebhooks''),
      (''responses'', JObj [
        (''200'', jsonResponse ''Counts of deliveries processed.'' (JObj [
          (''type'', JStr ''object''),
          (''properties'', JObj [
            (''delivered'', JObj [(''type'', JStr ''integer'')]),
            (''retried'', JObj [(''type'', JStr ''integer'')]),
            (''dead'', JObj [(''type'', JStr ''integer'')])]),
          (''required'', JArr [JStr ''delivered'', JStr ''retried'', JStr ''dead''])]))])]"

definition op_adminReportSummary :: json where
  "op_adminReportSummary =
    JObj [
      (''tags'', JArr [JStr ''Admin'']),
      (''summary'', JStr ''Aggregate revenue / order report''),
      (''operationId'', JStr ''adminReportSummary''),
      (''security'', JArr [JObj [(''bearerAuth'', JArr [])]]),
      (''parameters'', JArr reportFilterParams),
      (''responses'', JObj [
        (''200'', jsonResponse ''The report summary.'' (JObj [(''type'', JStr ''object''), (''additionalProperties'', JBool True)])),
        (''401'', errorResponse ''Missing or invalid admin token.''),
        (''403'', errorResponse ''Admin endpoints disabled.'')])]"

definition op_adminOrdersSummary :: json where
  "op_adminOrdersSummary =
    JObj [
      (''tags'', JArr [JStr ''Admin'']),
      (''summary'', JStr ''Order-side aggregation (SQL GROUP BY pushdown)''),
      (''operationId'', JStr ''adminOrdersSummary''),
      (''security'', JArr [JObj [(''bearerAuth'', JArr [])]]),
      (''parameters'', JArr reportFilterParams),
      (''responses'', JObj [
        (''200'', jsonResponse ''The order summary.'' (JObj [(''type'', JStr ''object''), (''additionalProperties'', JBool True)])),
        (''401'', errorResponse ''Missing or invalid admin token.''),
        (''403'', errorResponse ''Admin endpoints disabled.'')])]"

definition op_adminListOrders :: json where
  "op_adminListOrders =
    JObj [
      (''tags'', JArr [JStr ''Admin'']),
      (''summary'', JStr ''List orders (paginated)''),
      (''operationId'', JStr ''adminListOrders''),
      (''security'', JArr [JObj [(''bearerAuth'', JArr [])]]),
      (''parameters'', JArr (reportFilterParams @ paginationParams)),
      (''responses'', JObj [
        (''200'', jsonResponse ''Paginated orders.'' (paginatedSchema (ref ''Order''))),
        (''401'', errorResponse ''Missing or invalid admin token.''),
        (''403'', errorResponse ''Admin endpoints disabled.'')])]"

definition op_adminListRefunds :: json where
  "op_adminListRefunds =
    JObj [
      (''tags'', JArr [JStr ''Admin'']),
      (''summary'', JStr ''List refunds (paginated)''),
      (''operationId'', JStr ''adminListRefunds''),
      (''security'', JArr [JObj [(''bearerAuth'', JArr [])]]),
      (''parameters'', JArr paginationParams),
      (''responses'', JObj [
        (''200'', jsonResponse ''Paginated refunds.'' (paginatedSchema (ref ''Refund''))),
        (''401'', errorResponse ''Missing or invalid admin token.''),
        (''403'', errorResponse ''Admin endpoints disabled.'')])]"

definition op_listMerchantOrders :: json where
  "op_listMerchantOrders =
    JObj [
      (''tags'', JArr [JStr ''Orders'']),
      (''summary'', JStr (''List the calling merchant'' @ [CHR 0x27] @ ''s own orders'')),
      (''description'', JStr ''Requires a valid `X-Merchant-Key` header; scoped to that tenant.''),
      (''operationId'', JStr ''listMerchantOrders''),
      (''parameters'', JArr (reportFilterParams @ paginationParams)),
      (''responses'', JObj [
        (''200'', jsonResponse ''Paginated orders for the tenant.'' (paginatedSchema (ref ''Order''))),
        (''401'', errorResponse ''Missing or invalid merchant key.'')])]"

definition op_adminCreateMerchant :: json where
  "op_adminCreateMerchant =
    JObj [
      (''tags'', JArr [JStr ''Admin'']),
      (''summary'', JStr ''Create a merchant/tenant''),
      (''operationId'', JStr ''adminCreateMerchant''),
      (''security'', JArr [JObj [(''bearerAuth'', JArr [])]]),
      (''requestBody'', jsonBody (JObj [
        (''type'', JStr ''object''),
        (''required'', JArr [JStr ''name'']),
        (''properties'', JObj [
          (''name'', JObj [(''type'', JStr ''string'')]),
          (''usdtHdPath'', JObj [(''type'', JStr ''string'')])])]) True),
      (''responses'', JObj [
        (''201'', jsonResponse ''The created merchant, including its API key (shown once).'' (JObj [(''type'', JStr ''object''), (''additionalProperties'', JBool True)])),
        (''401'', errorResponse ''Missing or invalid admin token.''),
        (''403'', errorResponse ''Admin endpoints disabled.'')])]"

definition op_adminListMerchants :: json where
  "op_adminListMerchants =
    JObj [
      (''tags'', JArr [JStr ''Admin'']),
      (''summary'', JStr ''List merchants/tenants''),
      (''operationId'', JStr ''adminListMerchants''),
      (''security'', JArr [JObj [(''bearerAuth'', JArr [])]]),
      (''responses'', JObj [
        (''200'', jsonResponse ''All merchants (public projection).'' (JObj [(''type'', JStr ''object''), (''additionalProperties'', JBool True)])),
        (''401'', errorResponse ''Missing or invalid admin token.''),
        (''403'', errorResponse ''Admin endpoints disabled.'')])]"

definition op_adminRotateMerchantKey :: json where
  "op_adminRotateMerchantKey =
    JObj [
      (''tags'', JArr [JStr ''Admin'']),
      (''summary'', JStr (''Rotate a merchant'' @ [CHR 0x27] @ ''s API key'')),
      (''operationId'', JStr ''adminRotateMerchantKey''),
      (''security'', JArr [JObj [(''bearerAuth'', JArr [])]]),
      (''parameters'', JArr [
        JObj [
          (''name'', JStr ''id''),
          (''in'', JStr ''path''),
          (''required'', JBool True),
          (''description'', JStr ''Merchant id.''),
          (''schema'', JObj [(''type'', JStr ''string'')])]]),
      (''responses'', JObj [
        (''200'', jsonResponse ''The new API key.'' (JObj [(''type'', JStr ''object''), (''additionalProperties'', JBool True)])),
        (''401'', errorResponse ''Missing or invalid admin token.''),
        (''404'', errorResponse ''Merchant not found.'')])]"

definition op_adminSetMerchantStatus :: json where
  "op_adminSetMerchantStatus =
    JObj [
      (''tags'', JArr [JStr ''Admin'']),
      (''summary'', JStr ''Activate or suspend a merchant''),
      (''operationId'', JStr ''adminSetMerchantStatus''),
      (''security'', JArr [JObj [(''bearerAuth'', JArr [])]]),
      (''parameters'', JArr [
        JObj [
          (''name'', JStr ''id''),
          (''in'', JStr ''path''),
          (''required'', JBool True),
          (''description'', JStr ''Merchant id.''),
          (''schema'', JObj [(''type'', JStr ''string'')])]]),
      (''requestBody'', jsonBody (JObj [
        (''type'', JStr ''object''),
        (''required'', JArr [JStr ''status'']),
        (''properties'', JObj [
          (''status'', JObj [(''type'', JStr ''string''), (''enum'', JArr [JStr ''active'', JStr ''suspended''])])])]) True),
      (''responses'', JObj [
        (''200'', jsonResponse ''The updated merchant.'' (JObj [(''type'', JStr ''object''), (''additionalProperties'', JBool True)])),
        (''401'', errorResponse ''Missing or invalid admin token.''),
        (''404'', errorResponse ''Merchant not found.'')])]"

definition op_adminListSweeps :: json where
  "op_adminListSweeps =
    JObj [
      (''tags'', JArr [JStr ''Admin'']),
      (''summary'', JStr (''List USDT sweep ('' @ [CHR 0xE4, CHR 0xBA, CHR 0x8C, CHR 0xE6, CHR 0xAC, CHR 0xA1, CHR 0xE5, CHR 0xBD, CHR 0x92, CHR 0xE9, CHR 0x9B, CHR 0x86] @ '') jobs'')),
      (''operationId'', JStr ''adminListSweeps''),
      (''security'', JArr [JObj [(''bearerAuth'', JArr [])]]),
      (''parameters'', JArr ([
        JObj [
          (''name'', JStr ''status''),
          (''in'', JStr ''query''),
          (''required'', JBool False),
          (''description'', JStr ''Filter by sweep status (PENDING, GAS_FUELING, SWEEPING, SWEPT, EMPTY, FAILED).''),
          (''schema'', JObj [(''type'', JStr ''string'')])]] @ paginationParams)),
      (''responses'', JObj [
        (''200'', jsonResponse ''Paginated sweep jobs.'' (JObj [(''type'', JStr ''object''), (''additionalProperties'', JBool True)])),
        (''401'', errorResponse ''Missing or invalid admin token.''),
        (''403'', errorResponse ''Admin endpoints disabled.''),
        (''404'', errorResponse ''Per-order USDT sweeping is not enabled.'')])]"

definition op_adminRetrySweep :: json where
  "op_adminRetrySweep =
    JObj [
      (''tags'', JArr [JStr ''Admin'']),
      (''summary'', JStr ''Requeue a FAILED USDT sweep job''),
      (''operationId'', JStr ''adminRetrySweep''),
      (''security'', JArr [JObj [(''bearerAuth'', JArr [])]]),
      (''parameters'', JArr [
        JObj [
          (''name'', JStr ''orderId''),
          (''in'', JStr ''path''),
          (''required'', JBool True),
          (''description'', JStr ''Order id of the FAILED sweep.''),
          (''schema'', JObj [(''type'', JStr ''string'')])]]),
      (''responses'', JObj [
        (''200'', jsonResponse ''The requeued sweep job.'' (JObj [(''type'', JStr ''object''), (''additionalProperties'', JBool True)])),
        (''401'', errorResponse ''Missing or invalid admin token.''),
        (''403'', errorResponse ''Admin endpoints disabled.''),
        (''404'', errorResponse ''No FAILED sweep for that order, or sweeping not enabled.'')])]"

definition op_adminOrdersCsv :: json where
  "op_adminOrdersCsv =
    JObj [
      (''tags'', JArr [JStr ''Admin'']),
      (''summary'', JStr ''Export orders as CSV''),
      (''operationId'', JStr ''adminOrdersCsv''),
      (''security'', JArr [JObj [(''bearerAuth'', JArr [])]]),
      (''parameters'', JArr reportFilterParams),
      (''responses'', JObj [
        (''200'', JObj [
          (''description'', JStr ''Orders in CSV format (attachment).''),
          (''content'', JObj [(''text/csv'', JObj [(''schema'', JObj [(''type'', JStr ''string'')])])])]),
        (''401'', errorResponse ''Missing or invalid admin token.''),
        (''403'', errorResponse ''Admin endpoints disabled.'')])]"

definition op_adminRefundsCsv :: json where
  "op_adminRefundsCsv =
    JObj [
      (''tags'', JArr [JStr ''Admin'']),
      (''summary'', JStr ''Export refunds as CSV''),
      (''operationId'', JStr ''adminRefundsCsv''),
      (''security'', JArr [JObj [(''bearerAuth'', JArr [])]]),
      (''responses'', JObj [
        (''200'', JObj [
          (''description'', JStr ''Refunds in CSV format (attachment).''),
          (''content'', JObj [(''text/csv'', JObj [(''schema'', JObj [(''type'', JStr ''string'')])])])]),
        (''401'', errorResponse ''Missing or invalid admin token.''),
        (''403'', errorResponse ''Admin endpoints disabled.'')])]"

definition op_adminQueryAudit :: json where
  "op_adminQueryAudit =
    JObj [
      (''tags'', JArr [JStr ''Admin'']),
      (''summary'', JStr ''Query the audit log''),
      (''operationId'', JStr ''adminQueryAudit''),
      (''security'', JArr [JObj [(''bearerAuth'', JArr [])]]),
      (''parameters'', JArr ([
        JObj [
          (''name'', JStr ''action''),
          (''in'', JStr ''query''),
          (''required'', JBool False),
          (''description'', JStr ''Filter by action.''),
          (''schema'', JObj [(''type'', JStr ''string'')])],
        JObj [
          (''name'', JStr ''actor''),
          (''in'', JStr ''query''),
          (''required'', JBool False),
          (''description'', JStr ''Filter by actor.''),
          (''schema'', JObj [(''type'', JStr ''string'')])],
        JObj [
          (''name'', JStr ''subjectId''),
          (''in'', JStr ''query''),
          (''required'', JBool False),
          (''description'', JStr ''Filter by subject id.''),
          (''schema'', JObj [(''type'', JStr ''string'')])],
        JObj [
          (''name'', JStr ''from''),
          (''in'', JStr ''query''),
          (''required'', JBool False),
          (''description'', JStr ''Start epoch millis (inclusive).''),
          (''schema'', JObj [(''type'', JStr ''integer'')])],
        JObj [
          (''name'', JStr ''to''),
          (''in'', JStr ''query''),
          (''required'', JBool False),
          (''description'', JStr ''End epoch millis (inclusive).''),
          (''schema'', JObj [(''type'', JStr ''integer'')])]] @ paginationParams)),
      (''responses'', JObj [
        (''200'', jsonResponse ''Matching audit-log entries.'' (JObj [(''type'', JStr ''object''), (''additionalProperties'', JBool True)])),
        (''401'', errorResponse ''Missing or invalid admin token.''),
        (''403'', errorResponse ''Admin endpoints disabled.'')])]"

definition op_adminListWebhooks :: json where
  "op_adminListWebhooks =
    JObj [
      (''tags'', JArr [JStr ''Admin'']),
      (''summary'', JStr ''List outbound webhook deliveries''),
      (''operationId'', JStr ''adminListWebhooks''),
      (''security'', JArr [JObj [(''bearerAuth'', JArr [])]]),
      (''parameters'', JArr ([
        JObj [
          (''name'', JStr ''status''),
          (''in'', JStr ''query''),
          (''required'', JBool False),
          (''description'', JStr ''Filter by delivery status.''),
          (''schema'', JObj [
            (''type'', JStr ''string''),
            (''enum'', JArr [JStr ''pending'', JStr ''delivered'', JStr ''dead''])])]] @ paginationParams)),
      (''responses'', JObj [
        (''200'', jsonResponse ''Paginated webhook deliveries.'' (JObj [
          (''type'', JStr ''object''),
          (''properties'', JObj [
            (''total'', JObj [(''type'', JStr ''integer'')]),
            (''limit'', JObj [(''type'', JStr ''integer'')]),
            (''offset'', JObj [(''type'', JStr ''integer'')]),
            (''items'', JObj [
              (''type'', JStr ''array''),
              (''items'', JObj [(''type'', JStr ''object''), (''additionalProperties'', JBool True)])])]),
          (''required'', JArr [JStr ''total'', JStr ''limit'', JStr ''offset'', JStr ''items''])])),
        (''400'', errorResponse ''Invalid status filter.''),
        (''401'', errorResponse ''Missing or invalid admin token.''),
        (''403'', errorResponse ''Admin endpoints disabled.'')])]"

definition op_adminRetryWebhook :: json where
  "op_adminRetryWebhook =
    JObj [
      (''tags'', JArr [JStr ''Admin'']),
      (''summary'', JStr ''Requeue a webhook delivery for immediate retry''),
      (''operationId'', JStr ''adminRetryWebhook''),
      (''security'', JArr [JObj [(''bearerAuth'', JArr [])]]),
      (''parameters'', JArr [
        JObj [
          (''name'', JStr ''id''),
          (''in'', JStr ''path''),
          (''required'', JBool True),
          (''description'', JStr ''Webhook delivery id.''),
          (''schema'', JObj [(''type'', JStr ''string'')])]]),
      (''responses'', JObj [
        (''200'', jsonResponse ''The requeued delivery.'' (JObj [(''type'', JStr ''object''), (''additionalProperties'', JBool True)])),
        (''401'', errorResponse ''Missing or invalid admin token.''),
        (''403'', errorResponse ''Admin endpoints disabled.''),
        (''404'', errorResponse ''Delivery not found or webhooks not configured.'')])]"

definition op_adminReconciliation :: json where
  "op_adminReconciliation =
    JObj [
      (''tags'', JArr [JStr ''Admin'']),
      (''summary'', JStr ''Run a financial-consistency reconciliation pass''),
      (''operationId'', JStr ''adminReconciliation''),
      (''security'', JArr [JObj [(''bearerAuth'', JArr [])]]),
      (''parameters'', JArr [
        JObj [
          (''name'', JStr ''heal''),
          (''in'', JStr ''query''),
          (''required'', JBool False),
          (''description'', JStr (''When '' @ [CHR 0x22] @ ''true'' @ [CHR 0x22] @ '', attempt to heal detected discrepancies.'')),
          (''schema'', JObj [(''type'', JStr ''string''), (''enum'', JArr [JStr ''true'', JStr ''false''])])]]),
      (''responses'', JObj [
        (''200'', jsonResponse ''The reconciliation report and any raised alert.'' (JObj [(''type'', JStr ''object''), (''additionalProperties'', JBool True)])),
        (''401'', errorResponse ''Missing or invalid admin token.''),
        (''403'', errorResponse ''Admin endpoints disabled.'')])]"

definition op_adminRunExpiry :: json where
  "op_adminRunExpiry =
    JObj [
      (''tags'', JArr [JStr ''Admin'']),
      (''summary'', JStr ''Run an expiry pass (reminders + deactivation)''),
      (''operationId'', JStr ''adminRunExpiry''),
      (''security'', JArr [JObj [(''bearerAuth'', JArr [])]]),
      (''responses'', JObj [
        (''200'', jsonResponse ''Counts of reminders sent and subs deactivated.'' (JObj [
          (''type'', JStr ''object''),
          (''properties'', JObj [
            (''reminders'', JObj [(''type'', JStr ''integer'')]),
            (''deactivated'', JObj [(''type'', JStr ''integer'')])]),
          (''required'', JArr [JStr ''reminders'', JStr ''deactivated''])])),
        (''401'', errorResponse ''Missing or invalid admin token.''),
        (''403'', errorResponse ''Admin endpoints disabled.'')])]"

section \<open>Schemas\<close>

definition schema_PaymentMethod :: json where
  "schema_PaymentMethod =
    JObj [
      (''type'', JStr ''string''),
      (''enum'', JArr [JStr ''wechat'', JStr ''alipay'', JStr ''usdt''])]"

definition schema_Currency :: json where
  "schema_Currency =
    JObj [(''type'', JStr ''string''), (''enum'', JArr [JStr ''CNY'', JStr ''USDT''])]"

definition schema_OrderStatus :: json where
  "schema_OrderStatus =
    JObj [
      (''type'', JStr ''string''),
      (''enum'', JArr [
        JStr ''PENDING'',
        JStr ''PAID'',
        JStr ''FULFILLED'',
        JStr ''EXPIRED'',
        JStr ''CANCELLED'',
        JStr ''REFUNDED'',
        JStr ''FAILED''])]"

definition schema_Plan :: json where
  "schema_Plan =
    JObj [
      (''type'', JStr ''object''),
      (''description'', JStr ''A purchasable VPN plan. Prices are integers in minor units.''),
      (''properties'', JObj [
        (''id'', JObj [(''type'', JStr ''string'')]),
        (''name'', JObj [(''type'', JStr ''string'')]),
        (''durationDays'', JObj [(''type'', JStr ''integer'')]),
        (''trafficGb'', JObj [(''type'', JStr ''integer''), (''description'', JStr ''0 means unlimited.'')]),
        (''deviceLimit'', JObj [(''type'', JStr ''integer'')]),
        (''priceCnyFen'', JObj [
          (''type'', JStr ''integer''),
          (''description'', JStr ''Price in CNY minor units (fen).'')]),
        (''priceUsdtMicro'', JObj [
          (''type'', JStr ''integer''),
          (''description'', JStr ''Price in USDT minor units (micro).'')]),
        (''enabled'', JObj [(''type'', JStr ''boolean'')]),
        (''priceCnyDisplay'', JObj [(''type'', JStr ''string''), (''description'', JStr ''Human-readable CNY price.'')]),
        (''priceUsdtDisplay'', JObj [(''type'', JStr ''string''), (''description'', JStr ''Human-readable USDT price.'')])]),
      (''required'', JArr [
        JStr ''id'',
        JStr ''name'',
        JStr ''durationDays'',
        JStr ''priceCnyFen'',
        JStr ''priceUsdtMicro'',
        JStr ''enabled''])]"

definition schema_Order :: json where
  "schema_Order =
    JObj [
      (''type'', JStr ''object''),
      (''description'', JStr ''Public projection of an order. Amounts are integers in minor units.''),
      (''properties'', JObj [
        (''orderId'', JObj [(''type'', JStr ''string'')]),
        (''outTradeNo'', JObj [
          (''type'', JStr ''string''),
          (''description'', JStr ''Merchant order number (out_trade_no).'')]),
        (''userId'', JObj [(''type'', JStr ''string'')]),
        (''planId'', JObj [(''type'', JStr ''string'')]),
        (''method'', ref ''PaymentMethod''),
        (''currency'', ref ''Currency''),
        (''amount'', JObj [
          (''type'', JStr ''integer''),
          (''description'', JStr ''Amount due in minor units.'')]),
        (''amountDisplay'', JObj [(''type'', JStr ''string'')]),
        (''status'', ref ''OrderStatus''),
        (''refundedAmount'', JObj [
          (''type'', JStr ''integer''),
          (''description'', JStr ''Total refunded so far, in minor units.'')]),
        (''providerTxnId'', JObj [(''type'', JStr ''string''), (''nullable'', JBool True)]),
        (''createdAt'', JObj [(''type'', JStr ''integer''), (''description'', JStr ''Epoch millis.'')]),
        (''expiresAt'', JObj [(''type'', JStr ''integer''), (''description'', JStr ''Epoch millis.'')]),
        (''paidAt'', JObj [
          (''type'', JStr ''integer''),
          (''nullable'', JBool True),
          (''description'', JStr ''Epoch millis.'')])]),
      (''required'', JArr [
        JStr ''orderId'',
        JStr ''outTradeNo'',
        JStr ''planId'',
        JStr ''method'',
        JStr ''currency'',
        JStr ''amount'',
        JStr ''status''])]"

definition schema_OrderWithPayInfo :: json where
  "schema_OrderWithPayInfo =
    JObj [
      (''allOf'', JArr [
        ref ''Order'',
        JObj [
          (''type'', JStr ''object''),
          (''properties'', JObj [
            (''payInfo'', JObj [
              (''type'', JStr ''object''),
              (''description'', JStr ''Provider-specific pay target (QR payload, address or redirect URL).''),
              (''additionalProperties'', JBool True),
              (''nullable'', JBool True)])])]])]"

definition schema_Refund :: json where
  "schema_Refund =
    JObj [
      (''type'', JStr ''object''),
      (''description'', JStr ''A refund against an order. Amounts are integers in minor units.''),
      (''properties'', JObj [
        (''id'', JObj [(''type'', JStr ''string'')]),
        (''orderId'', JObj [(''type'', JStr ''string'')]),
        (''outRefundNo'', JObj [(''type'', JStr ''string''), (''description'', JStr ''Merchant refund number.'')]),
        (''amount'', JObj [
          (''type'', JStr ''integer''),
          (''description'', JStr ''Refund amount in minor units.'')]),
        (''currency'', ref ''Currency''),
        (''status'', JObj [(''type'', JStr ''string'')]),
        (''reason'', JObj [(''type'', JStr ''string''), (''nullable'', JBool True)]),
        (''createdAt'', JObj [
          (''type'', JStr ''integer''),
          (''nullable'', JBool True),
          (''description'', JStr ''Epoch millis.'')])]),
      (''required'', JArr [
        JStr ''id'',
        JStr ''orderId'',
        JStr ''outRefundNo'',
        JStr ''amount'',
        JStr ''currency'',
        JStr ''status''])]"

definition schema_PublicUser :: json where
  "schema_PublicUser =
    JObj [
      (''type'', JStr ''object''),
      (''description'', JStr ''Public projection of a user (never includes secrets).''),
      (''properties'', JObj [
        (''id'', JObj [(''type'', JStr ''string'')]),
        (''email'', JObj [(''type'', JStr ''string''), (''format'', JStr ''email'')]),
        (''locale'', JObj [(''type'', JStr ''string''), (''example'', JStr ''zh-CN'')]),
        (''name'', JObj [(''type'', JStr ''string''), (''nullable'', JBool True)]),
        (''createdAt'', JObj [(''type'', JStr ''integer''), (''description'', JStr ''Epoch millis.'')])]),
      (''required'', JArr [JStr ''id'', JStr ''email'', JStr ''locale'', JStr ''createdAt''])]"

definition schema_AuthResult :: json where
  "schema_AuthResult =
    JObj [
      (''type'', JStr ''object''),
      (''description'', JStr ''A user together with its API key (returned on register/login).''),
      (''properties'', JObj [
        (''user'', ref ''PublicUser''),
        (''apiKey'', JObj [
          (''type'', JStr ''string''),
          (''description'', JStr ''Opaque API key for Bearer auth.'')])]),
      (''required'', JArr [JStr ''user'', JStr ''apiKey''])]"

definition schema_RegisterRequest :: json where
  "schema_RegisterRequest =
    JObj [
      (''type'', JStr ''object''),
      (''properties'', JObj [
        (''email'', JObj [(''type'', JStr ''string''), (''format'', JStr ''email'')]),
        (''password'', JObj [(''type'', JStr ''string''), (''format'', JStr ''password'')]),
        (''locale'', JObj [
          (''type'', JStr ''string''),
          (''nullable'', JBool True),
          (''example'', JStr ''zh-CN'')]),
        (''name'', JObj [(''type'', JStr ''string''), (''nullable'', JBool True)])]),
      (''required'', JArr [JStr ''email'', JStr ''password''])]"

definition schema_LoginRequest :: json where
  "schema_LoginRequest =
    JObj [
      (''type'', JStr ''object''),
      (''properties'', JObj [
        (''email'', JObj [(''type'', JStr ''string''), (''format'', JStr ''email'')]),
        (''password'', JObj [(''type'', JStr ''string''), (''format'', JStr ''password'')])]),
      (''required'', JArr [JStr ''email'', JStr ''password''])]"

definition schema_CreateOrderRequest :: json where
  "schema_CreateOrderRequest =
    JObj [
      (''type'', JStr ''object''),
      (''properties'', JObj [
        (''userId'', JObj [(''type'', JStr ''string'')]),
        (''planId'', JObj [(''type'', JStr ''string'')]),
        (''method'', ref ''PaymentMethod''),
        (''idempotencyKey'', JObj [
          (''type'', JStr ''string''),
          (''nullable'', JBool True),
          (''description'', JStr ''Alternative to the Idempotency-Key header.'')])]),
      (''required'', JArr [JStr ''userId'', JStr ''planId'', JStr ''method''])]"

definition schema_RefundRequest :: json where
  "schema_RefundRequest =
    JObj [
      (''type'', JStr ''object''),
      (''description'', JStr ''Omit amount for a full refund.''),
      (''properties'', JObj [
        (''amount'', JObj [
          (''type'', JStr ''integer''),
          (''nullable'', JBool True),
          (''description'', JStr ''Partial refund amount in minor units.'')]),
        (''reason'', JObj [(''type'', JStr ''string''), (''nullable'', JBool True)]),
        (''outRefundNo'', JObj [
          (''type'', JStr ''string''),
          (''nullable'', JBool True),
          (''description'', JStr ''Optional merchant refund number.'')])])]"

definition schema_ErrorResponse :: json where
  "schema_ErrorResponse =
    JObj [
      (''type'', JStr ''object''),
      (''description'', JStr ''Standard error envelope.''),
      (''properties'', JObj [
        (''error'', JObj [
          (''type'', JStr ''object''),
          (''properties'', JObj [
            (''code'', JObj [(''type'', JStr ''string''), (''example'', JStr ''VALIDATION_ERROR'')]),
            (''message'', JObj [(''type'', JStr ''string'')])]),
          (''required'', JArr [JStr ''code'', JStr ''message''])])]),
      (''required'', JArr [JStr ''error''])]"

section \<open>The document\<close>

definition openapi_info :: "string \<Rightarrow> json" where
  "openapi_info methodsNote =
    JObj [
      (''title'', JStr ''VPN Payment Backend API''),
      (''version'', JStr ''1.0.0''),
      (''description'', JStr (''Commercial-grade payment backend for a VPN service. Supports WeChat Pay, '' @
        ''Alipay and USDT (TRC20). All monetary amounts are integers in minor units '' @
        ''(CNY: fen; USDT: micro, 6 decimals). '' @
        ''Every `/api/*` endpoint is also served under the explicit `/api/v1/*` alias; '' @
        ''both are canonical for the current major version. Responses carry an '' @
        ''`X-API-Version` header indicating the resolved API version. '' @
        methodsNote))]"

definition openapi_tags :: json where
  "openapi_tags =
    JArr [
      JObj [
        (''name'', JStr ''Health''),
        (''description'', JStr ''Liveness, metrics and API documentation.'')],
      JObj [
        (''name'', JStr ''Plans''),
        (''description'', JStr ''Purchasable VPN plans and pricing.'')],
      JObj [
        (''name'', JStr ''Accounts''),
        (''description'', JStr ''User registration, login and API-key management.'')],
      JObj [
        (''name'', JStr ''Orders''),
        (''description'', JStr ''Order creation, lookup and settlement.'')],
      JObj [(''name'', JStr ''Refunds''), (''description'', JStr ''Full and partial refunds.'')],
      JObj [
        (''name'', JStr ''Webhooks''),
        (''description'', JStr ''Provider callbacks with raw signed bodies.'')],
      JObj [
        (''name'', JStr ''Admin''),
        (''description'', JStr ''Reporting and reconciliation (bearer-token protected).'')]]"

definition openapi_security :: json where
  "openapi_security =
    JObj [
      (''bearerAuth'', JObj [
        (''type'', JStr ''http''),
        (''scheme'', JStr ''bearer''),
        (''description'', JStr (''For user endpoints, pass the account API key as `Authorization: Bearer <apiKey>`. '' @
          ''For /admin endpoints, pass the configured admin token.''))])]"

definition openapi_paths :: "(string \<times> json) list" where
  "openapi_paths =
    [(''/healthz'', JObj [(''get'', op_getHealthz)]),
     (''/readyz'', JObj [(''get'', op_getReadyz)]),
     (''/version'', JObj [(''get'', op_getVersion)]),
     (''/metrics'', JObj [(''get'', op_getMetrics)]),
     (''/openapi.json'', JObj [(''get'', op_getOpenApiJson)]),
     (''/docs'', JObj [(''get'', op_getDocs)]),
     (''/api/plans'', JObj [(''get'', op_listPlans)]),
     (''/api/pricing/quote'', JObj [(''get'', op_pricingQuote)]),
     (''/api/users/register'', JObj [(''post'', op_registerUser)]),
     (''/api/users/login'', JObj [(''post'', op_loginUser)]),
     (''/api/users/me'', JObj [(''get'', op_getCurrentUser)]),
     (''/api/users/me/rotate-key'', JObj [(''post'', op_rotateApiKey)]),
     (''/api/orders'', JObj [(''post'', op_createOrder)]),
     (''/api/orders/{id}'', JObj [(''get'', op_getOrder)]),
     (''/api/orders/{id}/qrcode.svg'', JObj [(''get'', op_getOrderQrCode)]),
     (''/api/orders/{id}/sync'', JObj [(''post'', op_syncOrder)]),
     (''/api/orders/{id}/refund'', JObj [(''post'', op_refundOrder)]),
     (''/api/orders/{id}/refunds'', JObj [(''get'', op_listOrderRefunds)]),
     (''/api/notify/wechat'', JObj [(''post'', op_wechatNotify)]),
     (''/api/notify/wechat/refund'', JObj [(''post'', op_wechatRefundNotify)]),
     (''/api/notify/alipay'', JObj [(''post'', op_alipayNotify)]),
     (''/internal/usdt/reconcile'', JObj [(''post'', op_reconcileUsdt)]),
     (''/internal/maintenance/sweep'', JObj [(''post'', op_maintenanceSweep)]),
     (''/internal/webhooks/process'', JObj [(''post'', op_processWebhooks)]),
     (''/admin/reports/summary'', JObj [(''get'', op_adminReportSummary)]),
     (''/admin/reports/orders-summary'', JObj [(''get'', op_adminOrdersSummary)]),
     (''/admin/orders'', JObj [(''get'', op_adminListOrders)]),
     (''/admin/refunds'', JObj [(''get'', op_adminListRefunds)]),
     (''/api/merchant/orders'', JObj [(''get'', op_listMerchantOrders)]),
     (''/admin/merchants'', JObj [(''post'', op_adminCreateMerchant), (''get'', op_adminListMerchants)]),
     (''/admin/merchants/{id}/rotate-key'', JObj [(''post'', op_adminRotateMerchantKey)]),
     (''/admin/merchants/{id}/status'', JObj [(''post'', op_adminSetMerchantStatus)]),
     (''/admin/sweeps'', JObj [(''get'', op_adminListSweeps)]),
     (''/admin/sweeps/{orderId}/retry'', JObj [(''post'', op_adminRetrySweep)]),
     (''/admin/orders.csv'', JObj [(''get'', op_adminOrdersCsv)]),
     (''/admin/refunds.csv'', JObj [(''get'', op_adminRefundsCsv)]),
     (''/admin/audit'', JObj [(''get'', op_adminQueryAudit)]),
     (''/admin/webhooks'', JObj [(''get'', op_adminListWebhooks)]),
     (''/admin/webhooks/{id}/retry'', JObj [(''post'', op_adminRetryWebhook)]),
     (''/admin/reconciliation'', JObj [(''post'', op_adminReconciliation)]),
     (''/admin/expiry/run'', JObj [(''post'', op_adminRunExpiry)])]"

definition openapi_schemas :: "(string \<times> json) list" where
  "openapi_schemas =
    [(''PaymentMethod'', schema_PaymentMethod),
     (''Currency'', schema_Currency),
     (''OrderStatus'', schema_OrderStatus),
     (''Plan'', schema_Plan),
     (''Order'', schema_Order),
     (''OrderWithPayInfo'', schema_OrderWithPayInfo),
     (''Refund'', schema_Refund),
     (''PublicUser'', schema_PublicUser),
     (''AuthResult'', schema_AuthResult),
     (''RegisterRequest'', schema_RegisterRequest),
     (''LoginRequest'', schema_LoginRequest),
     (''CreateOrderRequest'', schema_CreateOrderRequest),
     (''RefundRequest'', schema_RefundRequest),
     (''ErrorResponse'', schema_ErrorResponse)]"

text \<open>The paths under \<open>/api/\<close> once more under \<open>/api/v1/\<close>.\<close>

definition mirror_paths :: "(string \<times> json) list \<Rightarrow> (string \<times> json) list" where
  "mirror_paths ps = foldl (\<lambda>qs key.
     if starts_with ''/api/'' key then (case jm_get qs key of None \<Rightarrow> qs | Some v \<Rightarrow> jm_set (''/api/v1/'' @ drop 5 key) v qs)
     else qs) ps (map fst ps)"

definition methods_note :: "string list \<Rightarrow> string" where
  "methods_note enabledMethods =
     (if length enabledMethods > 0
      then ''Enabled payment methods on this deployment: '' @ join_with '', '' enabledMethods @ ''.''
      else ''No payment methods are currently enabled on this deployment.'')"

definition buildOpenApiSpec :: "string list \<Rightarrow> json" where
  "buildOpenApiSpec enabledMethods = JObj [
     (''openapi'', JStr ''3.0.3''),
     (''info'', openapi_info (methods_note enabledMethods)),
     (''servers'', JArr [JObj [(''url'', JStr ''/''), (''description'', JStr ''Current deployment'')]]),
     (''tags'', openapi_tags),
     (''paths'', JObj (mirror_paths openapi_paths)),
     (''components'', JObj [(''securitySchemes'', openapi_security), (''schemas'', JObj openapi_schemas)])]"

section \<open>Well-formedness\<close>

text \<open>A reference names a schema of the document.\<close>

definition schema_ref :: "string \<Rightarrow> bool" where
  "schema_ref s = list_ex (\<lambda>(n, schema). s = ''#/components/schemas/'' @ n) openapi_schemas"

fun refs_ok :: "json \<Rightarrow> bool" where
  "refs_ok (JArr xs) = list_all refs_ok xs"
| "refs_ok (JObj ps) = list_all (\<lambda>(k, v). (k = ''$ref'' \<longrightarrow> (case v of JStr s \<Rightarrow> schema_ref s | _ \<Rightarrow> False)) \<and> refs_ok v) ps"
| "refs_ok j = True"

definition sound :: "json \<Rightarrow> bool" where
  "sound j \<longleftrightarrow> plain j \<and> refs_ok j"

lemma sound_simps [simp]:
  "sound (JStr s)" "sound (JBool b)" "sound (JNum i) = (\<bar>i\<bar> \<le> 2 ^ 53)" "sound (JArr xs) = list_all sound xs"
  by (auto simp: sound_def list_all_iff)

lemma sound_obj [simp]:
  "sound (JObj ps) = (distinct (map fst ps) \<and>
     list_all (\<lambda>(k, v). (k = ''$ref'' \<longrightarrow> (case v of JStr s \<Rightarrow> schema_ref s | _ \<Rightarrow> False)) \<and> sound v) ps)"
  by (auto simp: sound_def list_all_iff)

lemma sound_ref [simp]: "sound (ref n) = schema_ref (''#/components/schemas/'' @ n)"
  by (simp add: ref_def)

lemma known_schemas [simp]:
  "schema_ref ''#/components/schemas/PaymentMethod''"
  "schema_ref ''#/components/schemas/Currency''"
  "schema_ref ''#/components/schemas/OrderStatus''"
  "schema_ref ''#/components/schemas/Plan''"
  "schema_ref ''#/components/schemas/Order''"
  "schema_ref ''#/components/schemas/OrderWithPayInfo''"
  "schema_ref ''#/components/schemas/Refund''"
  "schema_ref ''#/components/schemas/PublicUser''"
  "schema_ref ''#/components/schemas/AuthResult''"
  "schema_ref ''#/components/schemas/RegisterRequest''"
  "schema_ref ''#/components/schemas/LoginRequest''"
  "schema_ref ''#/components/schemas/CreateOrderRequest''"
  "schema_ref ''#/components/schemas/RefundRequest''"
  "schema_ref ''#/components/schemas/ErrorResponse''"
  by (simp_all add: schema_ref_def openapi_schemas_def)

lemma sound_blocks [simp]:
  "sound (jsonResponse d schema) = sound schema" "sound (jsonBody schema b) = sound schema" "sound (errorResponse d)"
  "sound orderIdParam" "sound (paginatedSchema schema) = sound schema" "sound (webhookOperation t i)"
  by (simp_all add: jsonResponse_def jsonBody_def JSON_CONTENT_def errorResponse_def orderIdParam_def
      paginatedSchema_def webhookOperation_def)

lemma sound_params [simp]: "list_all sound reportFilterParams" "list_all sound paginationParams"
  by (simp_all add: reportFilterParams_def paginationParams_def)

lemma blocks_objects [simp]:
  "(case ref n of JStr s \<Rightarrow> P s | _ \<Rightarrow> False) = False"
  by (simp add: ref_def)

lemma sound_operations:
  "list_all (\<lambda>(p, item). sound item) openapi_paths"
  by (simp add: openapi_paths_def op_getHealthz_def op_getReadyz_def op_getVersion_def op_getMetrics_def op_getOpenApiJson_def op_getDocs_def
    op_listPlans_def op_pricingQuote_def op_registerUser_def op_loginUser_def op_getCurrentUser_def
    op_rotateApiKey_def op_createOrder_def op_getOrder_def op_getOrderQrCode_def op_syncOrder_def
    op_refundOrder_def op_listOrderRefunds_def op_wechatNotify_def op_wechatRefundNotify_def op_alipayNotify_def
    op_reconcileUsdt_def op_maintenanceSweep_def op_processWebhooks_def op_adminReportSummary_def
    op_adminOrdersSummary_def op_adminListOrders_def op_adminListRefunds_def op_listMerchantOrders_def
    op_adminCreateMerchant_def op_adminListMerchants_def op_adminRotateMerchantKey_def
    op_adminSetMerchantStatus_def op_adminListSweeps_def op_adminRetrySweep_def op_adminOrdersCsv_def
    op_adminRefundsCsv_def op_adminQueryAudit_def op_adminListWebhooks_def op_adminRetryWebhook_def
    op_adminReconciliation_def op_adminRunExpiry_def)

lemma sound_schemas:
  "list_all (\<lambda>(n, schema). sound schema) openapi_schemas"
  by (simp add: openapi_schemas_def schema_PaymentMethod_def schema_Currency_def schema_OrderStatus_def schema_Plan_def schema_Order_def
    schema_OrderWithPayInfo_def schema_Refund_def schema_PublicUser_def schema_AuthResult_def
    schema_RegisterRequest_def schema_LoginRequest_def schema_CreateOrderRequest_def schema_RefundRequest_def
    schema_ErrorResponse_def)

lemma starts_with_api: "starts_with ''/api/'' k \<Longrightarrow> k = ''/api/'' @ drop 5 k"
proof -
  assume *: "starts_with ''/api/'' k"
  have len: "length ''/api/'' = 5" by simp
  have "take 5 k = ''/api/''" using * unfolding starts_with_def len .
  then show "k = ''/api/'' @ drop 5 k" using append_take_drop_id[of 5 k] by metis
qed

text \<open>The mirrored paths come after the others, in the same order.\<close>

lemma mirror_from:
  fixes ps :: "(string \<times> json) list"
  assumes "distinct (map fst ps)" "list_all (\<lambda>k. \<not> starts_with ''/api/v1/'' k) (map fst ps)"
  defines "api \<equiv> \<lambda>(k, v). starts_with ''/api/'' k" and "versioned \<equiv> \<lambda>(k, v). (''/api/v1/'' @ drop 5 k, v)"
  shows "ps = xs @ ys \<Longrightarrow> foldl (\<lambda>qs key.
       if starts_with ''/api/'' key then (case jm_get qs key of None \<Rightarrow> qs | Some v \<Rightarrow> jm_set (''/api/v1/'' @ drop 5 key) v qs)
       else qs) (ps @ map versioned (filter api xs)) (map fst ys) = ps @ map versioned (filter api ps)"
proof (induction ys arbitrary: xs)
  case (Cons y ys)
  obtain k v where y: "y = (k, v)" by (cases y)
  show ?case
  proof (cases "starts_with ''/api/'' k")
    case False
    then show ?thesis using Cons.IH[of "xs @ [y]"] Cons.prems y by (simp add: api_def)
  next
    case True
    let ?qs = "ps @ map versioned (filter api xs)"
    have "jm_get ps k = Some v" using assms(1) Cons.prems y by (intro map_of_is_SomeI) simp_all
    then have get: "jm_get ?qs k = Some v" by (simp add: map_add_def map_of_append split: option.split)
    have fresh: "''/api/v1/'' @ drop 5 k \<notin> fst ` set ?qs"
    proof
      assume "''/api/v1/'' @ drop 5 k \<in> fst ` set ?qs"
      moreover have "''/api/v1/'' @ drop 5 k \<notin> fst ` set ps"
      proof
        assume "''/api/v1/'' @ drop 5 k \<in> fst ` set ps"
        then have "\<not> starts_with ''/api/v1/'' (''/api/v1/'' @ drop 5 k)" using assms(2) unfolding list_all_iff set_map by (rule bspec[rotated])
        then show False by (simp add: starts_with_def)
      qed
      ultimately obtain k' v' where "(k', v') \<in> set xs" "starts_with ''/api/'' k'" "drop 5 k' = drop 5 k"
        by (auto simp: api_def versioned_def)
      then have "k' = k" using starts_with_api[of k'] starts_with_api[OF True] by metis
      then show False using \<open>(k', v') \<in> set xs\<close> assms(1) Cons.prems y by force
    qed
    have set: "jm_set (''/api/v1/'' @ drop 5 k) v ?qs = ps @ map versioned (filter api (xs @ [y]))"
      using fresh True by (subst jm_set_fresh) (simp_all add: y api_def versioned_def del: map_of_append add: map_of_eq_None_iff)
    have ps: "ps = (xs @ [y]) @ ys" using Cons.prems by simp
    show ?thesis
      by (simp only: y list.map fst_conv foldl_Cons True if_True get option.case set Cons.IH[OF ps, unfolded y] set[unfolded y])
  qed
qed simp

lemma mirrored:
  "mirror_paths openapi_paths = openapi_paths @
     map (\<lambda>(k, v). (''/api/v1/'' @ drop 5 k, v)) (filter (\<lambda>(k, v). starts_with ''/api/'' k) openapi_paths)"
proof -
  have "map fst openapi_paths = map fst openapi_paths \<and> distinct (map fst openapi_paths) \<and>
      list_all (\<lambda>k. \<not> starts_with ''/api/v1/'' k) (map fst openapi_paths)"
    by (simp add: openapi_paths_def starts_with_def)
  then show ?thesis using mirror_from[of openapi_paths "[]" openapi_paths] by (simp add: mirror_paths_def)
qed

lemma schema_names: "map fst openapi_schemas =
    [''PaymentMethod'', ''Currency'', ''OrderStatus'', ''Plan'', ''Order'', ''OrderWithPayInfo'', ''Refund'', ''PublicUser'',
     ''AuthResult'', ''RegisterRequest'', ''LoginRequest'', ''CreateOrderRequest'', ''RefundRequest'', ''ErrorResponse'']"
  by (simp add: openapi_schemas_def)

section \<open>The document against the router\<close>

definition path_items :: "json \<Rightarrow> (string \<times> json) list" where
  "path_items doc = (case json_field doc ''paths'' of Some (JObj ps) \<Rightarrow> ps | _ \<Rightarrow> [])"

definition operations :: "json \<Rightarrow> (string \<times> string \<times> json) list" where
  "operations doc = concat (map (\<lambda>(p, item). case item of JObj ms \<Rightarrow> map (\<lambda>(m, oper). (to_upper m, p, oper)) ms | _ \<Rightarrow> [])
     (path_items doc))"

definition asks_bearer :: "json \<Rightarrow> bool" where
  "asks_bearer oper = (json_field oper ''security'' = Some (JArr [JObj [(''bearerAuth'', JArr [])]]))"

text \<open>The names of the required parameters that are in the path, and the ones the path has.\<close>

definition declared_params :: "json \<Rightarrow> string list" where
  "declared_params oper =
     (case json_field oper ''parameters'' of
        Some (JArr ps) \<Rightarrow> concat (map (\<lambda>p.
          if json_field p ''in'' = Some (JStr ''path'') \<and> json_field p ''required'' = Some (JBool True)
          then (case json_field p ''name'' of Some (JStr s) \<Rightarrow> [s] | _ \<Rightarrow> []) else []) ps)
      | _ \<Rightarrow> [])"

definition braced :: "string \<Rightarrow> string" where
  "braced s = ''{'' @ s @ ''}''"

definition path_variables :: "string \<Rightarrow> string list" where
  "path_variables p = map (\<lambda>s. drop 1 (butlast s)) (filter (\<lambda>s. take 1 s = ''{'') (path_segments p))"

text \<open>A route's pattern as a path of the document.\<close>

definition documented_path :: "string \<Rightarrow> string" where
  "documented_path pattern =
     concat (map (\<lambda>s. ''/'' @ (if take 1 s = '':'' then braced (drop 1 s) else s)) (path_segments pattern))"

definition account_path :: "string \<Rightarrow> bool" where
  "account_path p = (p \<in> {''/api/users/me'', ''/api/users/me/rotate-key'', ''/api/v1/users/me'', ''/api/v1/users/me/rotate-key''})"

lemma spec_paths: "path_items (buildOpenApiSpec ms) = mirror_paths openapi_paths"
  by (simp add: path_items_def buildOpenApiSpec_def json_field_def)

definition route_paths :: "(string \<times> string) list" where
  "route_paths =
     [(''GET'', ''/healthz''), (''GET'', ''/version''), (''GET'', ''/readyz''), (''GET'', ''/metrics''),
      (''GET'', ''/api/plans''), (''GET'', ''/api/pricing/quote''), (''POST'', ''/api/users/register''),
      (''POST'', ''/api/users/login''), (''GET'', ''/api/users/me''), (''POST'', ''/api/users/me/rotate-key''),
      (''POST'', ''/api/orders''), (''GET'', ''/api/orders/:id''), (''GET'', ''/api/merchant/orders''),
      (''GET'', ''/api/orders/:id/qrcode.svg''), (''POST'', ''/api/orders/:id/sync''), (''POST'', ''/api/orders/:id/refund''),
      (''GET'', ''/api/orders/:id/refunds''), (''POST'', ''/api/notify/wechat''), (''POST'', ''/api/notify/alipay''),
      (''POST'', ''/api/notify/wechat/refund''), (''POST'', ''/internal/usdt/reconcile''),
      (''POST'', ''/internal/maintenance/sweep''), (''POST'', ''/internal/webhooks/process''), (''GET'', ''/openapi.json''),
      (''GET'', ''/docs''), (''GET'', ''/admin/reports/summary''), (''GET'', ''/admin/reports/orders-summary''),
      (''GET'', ''/admin/orders''), (''GET'', ''/admin/refunds''), (''POST'', ''/admin/merchants''), (''GET'', ''/admin/merchants''),
      (''POST'', ''/admin/merchants/:id/rotate-key''), (''POST'', ''/admin/merchants/:id/status''), (''GET'', ''/admin/sweeps''),
      (''POST'', ''/admin/sweeps/:orderId/retry''), (''GET'', ''/admin/orders.csv''), (''GET'', ''/admin/refunds.csv''),
      (''POST'', ''/admin/expiry/run''), (''POST'', ''/admin/reconciliation''), (''GET'', ''/admin/webhooks''),
      (''POST'', ''/admin/webhooks/:id/retry'')]"

definition all_route_paths :: "(string \<times> string) list" where
  "all_route_paths = route_paths @
     map (\<lambda>(m, p). (m, ''/api/v1'' @ drop 4 p)) (filter (\<lambda>(m, p). starts_with ''/api/'' p) route_paths) @
     [(''GET'', ''/admin/audit'')]"

lemma plain_routes:
  "map (\<lambda>x. (rt_method x, rt_pattern x)) (map route_of (public_routes d @ admin_routes d)) = route_paths"
  by (simp add: public_routes_def admin_routes_def route_of_def route_paths_def slashed_def starts_with_def)

lemma router_paths:
  "map (\<lambda>x. (rt_method x, rt_pattern x)) (ro_routes (buildRouter d)) = all_route_paths"
proof -
  let ?rs = "map route_of (public_routes d @ admin_routes d)"
  let ?key = "\<lambda>x. (rt_method x, rt_pattern x)"
  let ?versioned = "\<lambda>(m, p). (to_upper m, ''/api/v1'' @ drop 4 p)"
  have f: "map ?key (map (alias_route ''/api'' ''/api/v1'') (filter (under ''/api'') rs)) =
      map ?versioned (filter (\<lambda>(m, p). p = ''/api'' \<or> starts_with ''/api/'' p) (map ?key rs))" for rs :: "api_state route list"
    by (induction rs) (simp_all add: alias_route_def Let_def under_def slashed_def starts_with_def eval_nat_numeral)
  have "map ?versioned (filter (\<lambda>(m, p). p = ''/api'' \<or> starts_with ''/api/'' p) route_paths) =
      map (\<lambda>(m, p). (m, ''/api/v1'' @ drop 4 p)) (filter (\<lambda>(m, p). starts_with ''/api/'' p) route_paths)"
    by code_simp
  then show ?thesis
    by (simp only: buildRouter_routes Let_def map_append[of ?key] f plain_routes all_route_paths_def)
      (simp add: audit_route_def route_of_def slashed_def starts_with_def)
qed

definition doc_table :: "(string \<times> string \<times> bool) list" where
  "doc_table = map (\<lambda>(m, p). (m, documented_path p, starts_with ''/admin'' p \<or> account_path p)) all_route_paths"

lemma operation_security:
  "\<not> asks_bearer op_getHealthz"
  "\<not> asks_bearer op_getReadyz"
  "\<not> asks_bearer op_getVersion"
  "\<not> asks_bearer op_getMetrics"
  "\<not> asks_bearer op_getOpenApiJson"
  "\<not> asks_bearer op_getDocs"
  "\<not> asks_bearer op_listPlans"
  "\<not> asks_bearer op_pricingQuote"
  "\<not> asks_bearer op_registerUser"
  "\<not> asks_bearer op_loginUser"
  "asks_bearer op_getCurrentUser"
  "asks_bearer op_rotateApiKey"
  "\<not> asks_bearer op_createOrder"
  "\<not> asks_bearer op_getOrder"
  "\<not> asks_bearer op_getOrderQrCode"
  "\<not> asks_bearer op_syncOrder"
  "\<not> asks_bearer op_refundOrder"
  "\<not> asks_bearer op_listOrderRefunds"
  "\<not> asks_bearer op_wechatNotify"
  "\<not> asks_bearer op_wechatRefundNotify"
  "\<not> asks_bearer op_alipayNotify"
  "\<not> asks_bearer op_reconcileUsdt"
  "\<not> asks_bearer op_maintenanceSweep"
  "\<not> asks_bearer op_processWebhooks"
  "asks_bearer op_adminReportSummary"
  "asks_bearer op_adminOrdersSummary"
  "asks_bearer op_adminListOrders"
  "asks_bearer op_adminListRefunds"
  "\<not> asks_bearer op_listMerchantOrders"
  "asks_bearer op_adminCreateMerchant"
  "asks_bearer op_adminListMerchants"
  "asks_bearer op_adminRotateMerchantKey"
  "asks_bearer op_adminSetMerchantStatus"
  "asks_bearer op_adminListSweeps"
  "asks_bearer op_adminRetrySweep"
  "asks_bearer op_adminOrdersCsv"
  "asks_bearer op_adminRefundsCsv"
  "asks_bearer op_adminQueryAudit"
  "asks_bearer op_adminListWebhooks"
  "asks_bearer op_adminRetryWebhook"
  "asks_bearer op_adminReconciliation"
  "asks_bearer op_adminRunExpiry"
  by (simp_all add: asks_bearer_def json_field_def webhookOperation_def
    op_getHealthz_def op_getReadyz_def op_getVersion_def op_getMetrics_def op_getOpenApiJson_def op_getDocs_def
    op_listPlans_def op_pricingQuote_def op_registerUser_def op_loginUser_def op_getCurrentUser_def
    op_rotateApiKey_def op_createOrder_def op_getOrder_def op_getOrderQrCode_def op_syncOrder_def
    op_refundOrder_def op_listOrderRefunds_def op_wechatNotify_def op_wechatRefundNotify_def op_alipayNotify_def
    op_reconcileUsdt_def op_maintenanceSweep_def op_processWebhooks_def op_adminReportSummary_def
    op_adminOrdersSummary_def op_adminListOrders_def op_adminListRefunds_def op_listMerchantOrders_def
    op_adminCreateMerchant_def op_adminListMerchants_def op_adminRotateMerchantKey_def
    op_adminSetMerchantStatus_def op_adminListSweeps_def op_adminRetrySweep_def op_adminOrdersCsv_def
    op_adminRefundsCsv_def op_adminQueryAudit_def op_adminListWebhooks_def op_adminRetryWebhook_def
    op_adminReconciliation_def op_adminRunExpiry_def)

lemma operation_params:
  "declared_params op_getHealthz = []"
  "declared_params op_getReadyz = []"
  "declared_params op_getVersion = []"
  "declared_params op_getMetrics = []"
  "declared_params op_getOpenApiJson = []"
  "declared_params op_getDocs = []"
  "declared_params op_listPlans = []"
  "declared_params op_pricingQuote = []"
  "declared_params op_registerUser = []"
  "declared_params op_loginUser = []"
  "declared_params op_getCurrentUser = []"
  "declared_params op_rotateApiKey = []"
  "declared_params op_createOrder = []"
  "declared_params op_getOrder = [''id'']"
  "declared_params op_getOrderQrCode = [''id'']"
  "declared_params op_syncOrder = [''id'']"
  "declared_params op_refundOrder = [''id'']"
  "declared_params op_listOrderRefunds = [''id'']"
  "declared_params op_wechatNotify = []"
  "declared_params op_wechatRefundNotify = []"
  "declared_params op_alipayNotify = []"
  "declared_params op_reconcileUsdt = []"
  "declared_params op_maintenanceSweep = []"
  "declared_params op_processWebhooks = []"
  "declared_params op_adminReportSummary = []"
  "declared_params op_adminOrdersSummary = []"
  "declared_params op_adminListOrders = []"
  "declared_params op_adminListRefunds = []"
  "declared_params op_listMerchantOrders = []"
  "declared_params op_adminCreateMerchant = []"
  "declared_params op_adminListMerchants = []"
  "declared_params op_adminRotateMerchantKey = [''id'']"
  "declared_params op_adminSetMerchantStatus = [''id'']"
  "declared_params op_adminListSweeps = []"
  "declared_params op_adminRetrySweep = [''orderId'']"
  "declared_params op_adminOrdersCsv = []"
  "declared_params op_adminRefundsCsv = []"
  "declared_params op_adminQueryAudit = []"
  "declared_params op_adminListWebhooks = []"
  "declared_params op_adminRetryWebhook = [''id'']"
  "declared_params op_adminReconciliation = []"
  "declared_params op_adminRunExpiry = []"
  by (simp_all add: declared_params_def json_field_def webhookOperation_def orderIdParam_def reportFilterParams_def
    paginationParams_def
    op_getHealthz_def op_getReadyz_def op_getVersion_def op_getMetrics_def op_getOpenApiJson_def op_getDocs_def
    op_listPlans_def op_pricingQuote_def op_registerUser_def op_loginUser_def op_getCurrentUser_def
    op_rotateApiKey_def op_createOrder_def op_getOrder_def op_getOrderQrCode_def op_syncOrder_def
    op_refundOrder_def op_listOrderRefunds_def op_wechatNotify_def op_wechatRefundNotify_def op_alipayNotify_def
    op_reconcileUsdt_def op_maintenanceSweep_def op_processWebhooks_def op_adminReportSummary_def
    op_adminOrdersSummary_def op_adminListOrders_def op_adminListRefunds_def op_listMerchantOrders_def
    op_adminCreateMerchant_def op_adminListMerchants_def op_adminRotateMerchantKey_def
    op_adminSetMerchantStatus_def op_adminListSweeps_def op_adminRetrySweep_def op_adminOrdersCsv_def
    op_adminRefundsCsv_def op_adminQueryAudit_def op_adminListWebhooks_def op_adminRetryWebhook_def
    op_adminReconciliation_def op_adminRunExpiry_def)

lemma upper_names [simp]: "to_upper ''get'' = ''GET''" "to_upper ''post'' = ''POST''"
  by code_simp+

lemma operations_listed:
  "map (\<lambda>(m, p, oper). (m, p, asks_bearer oper)) (operations (buildOpenApiSpec ms)) =
     [(''GET'', ''/healthz'', False),
      (''GET'', ''/readyz'', False),
      (''GET'', ''/version'', False),
      (''GET'', ''/metrics'', False),
      (''GET'', ''/openapi.json'', False),
      (''GET'', ''/docs'', False),
      (''GET'', ''/api/plans'', False),
      (''GET'', ''/api/pricing/quote'', False),
      (''POST'', ''/api/users/register'', False),
      (''POST'', ''/api/users/login'', False),
      (''GET'', ''/api/users/me'', True),
      (''POST'', ''/api/users/me/rotate-key'', True),
      (''POST'', ''/api/orders'', False),
      (''GET'', ''/api/orders/{id}'', False),
      (''GET'', ''/api/orders/{id}/qrcode.svg'', False),
      (''POST'', ''/api/orders/{id}/sync'', False),
      (''POST'', ''/api/orders/{id}/refund'', False),
      (''GET'', ''/api/orders/{id}/refunds'', False),
      (''POST'', ''/api/notify/wechat'', False),
      (''POST'', ''/api/notify/wechat/refund'', False),
      (''POST'', ''/api/notify/alipay'', False),
      (''POST'', ''/internal/usdt/reconcile'', False),
      (''POST'', ''/internal/maintenance/sweep'', False),
      (''POST'', ''/internal/webhooks/process'', False),
      (''GET'', ''/admin/reports/summary'', True),
      (''GET'', ''/admin/reports/orders-summary'', True),
      (''GET'', ''/admin/orders'', True),
      (''GET'', ''/admin/refunds'', True),
      (''GET'', ''/api/merchant/orders'', False),
      (''POST'', ''/admin/merchants'', True),
      (''GET'', ''/admin/merchants'', True),
      (''POST'', ''/admin/merchants/{id}/rotate-key'', True),
      (''POST'', ''/admin/merchants/{id}/status'', True),
      (''GET'', ''/admin/sweeps'', True),
      (''POST'', ''/admin/sweeps/{orderId}/retry'', True),
      (''GET'', ''/admin/orders.csv'', True),
      (''GET'', ''/admin/refunds.csv'', True),
      (''GET'', ''/admin/audit'', True),
      (''GET'', ''/admin/webhooks'', True),
      (''POST'', ''/admin/webhooks/{id}/retry'', True),
      (''POST'', ''/admin/reconciliation'', True),
      (''POST'', ''/admin/expiry/run'', True),
      (''GET'', ''/api/v1/plans'', False),
      (''GET'', ''/api/v1/pricing/quote'', False),
      (''POST'', ''/api/v1/users/register'', False),
      (''POST'', ''/api/v1/users/login'', False),
      (''GET'', ''/api/v1/users/me'', True),
      (''POST'', ''/api/v1/users/me/rotate-key'', True),
      (''POST'', ''/api/v1/orders'', False),
      (''GET'', ''/api/v1/orders/{id}'', False),
      (''GET'', ''/api/v1/orders/{id}/qrcode.svg'', False),
      (''POST'', ''/api/v1/orders/{id}/sync'', False),
      (''POST'', ''/api/v1/orders/{id}/refund'', False),
      (''GET'', ''/api/v1/orders/{id}/refunds'', False),
      (''POST'', ''/api/v1/notify/wechat'', False),
      (''POST'', ''/api/v1/notify/wechat/refund'', False),
      (''POST'', ''/api/v1/notify/alipay'', False),
      (''GET'', ''/api/v1/merchant/orders'', False)]"
  unfolding operations_def spec_paths mirrored
  by (simp add: openapi_paths_def starts_with_def operation_security)

lemma listed_table:
  "set [(''GET'', ''/healthz'', False),
      (''GET'', ''/readyz'', False),
      (''GET'', ''/version'', False),
      (''GET'', ''/metrics'', False),
      (''GET'', ''/openapi.json'', False),
      (''GET'', ''/docs'', False),
      (''GET'', ''/api/plans'', False),
      (''GET'', ''/api/pricing/quote'', False),
      (''POST'', ''/api/users/register'', False),
      (''POST'', ''/api/users/login'', False),
      (''GET'', ''/api/users/me'', True),
      (''POST'', ''/api/users/me/rotate-key'', True),
      (''POST'', ''/api/orders'', False),
      (''GET'', ''/api/orders/{id}'', False),
      (''GET'', ''/api/orders/{id}/qrcode.svg'', False),
      (''POST'', ''/api/orders/{id}/sync'', False),
      (''POST'', ''/api/orders/{id}/refund'', False),
      (''GET'', ''/api/orders/{id}/refunds'', False),
      (''POST'', ''/api/notify/wechat'', False),
      (''POST'', ''/api/notify/wechat/refund'', False),
      (''POST'', ''/api/notify/alipay'', False),
      (''POST'', ''/internal/usdt/reconcile'', False),
      (''POST'', ''/internal/maintenance/sweep'', False),
      (''POST'', ''/internal/webhooks/process'', False),
      (''GET'', ''/admin/reports/summary'', True),
      (''GET'', ''/admin/reports/orders-summary'', True),
      (''GET'', ''/admin/orders'', True),
      (''GET'', ''/admin/refunds'', True),
      (''GET'', ''/api/merchant/orders'', False),
      (''POST'', ''/admin/merchants'', True),
      (''GET'', ''/admin/merchants'', True),
      (''POST'', ''/admin/merchants/{id}/rotate-key'', True),
      (''POST'', ''/admin/merchants/{id}/status'', True),
      (''GET'', ''/admin/sweeps'', True),
      (''POST'', ''/admin/sweeps/{orderId}/retry'', True),
      (''GET'', ''/admin/orders.csv'', True),
      (''GET'', ''/admin/refunds.csv'', True),
      (''GET'', ''/admin/audit'', True),
      (''GET'', ''/admin/webhooks'', True),
      (''POST'', ''/admin/webhooks/{id}/retry'', True),
      (''POST'', ''/admin/reconciliation'', True),
      (''POST'', ''/admin/expiry/run'', True),
      (''GET'', ''/api/v1/plans'', False),
      (''GET'', ''/api/v1/pricing/quote'', False),
      (''POST'', ''/api/v1/users/register'', False),
      (''POST'', ''/api/v1/users/login'', False),
      (''GET'', ''/api/v1/users/me'', True),
      (''POST'', ''/api/v1/users/me/rotate-key'', True),
      (''POST'', ''/api/v1/orders'', False),
      (''GET'', ''/api/v1/orders/{id}'', False),
      (''GET'', ''/api/v1/orders/{id}/qrcode.svg'', False),
      (''POST'', ''/api/v1/orders/{id}/sync'', False),
      (''POST'', ''/api/v1/orders/{id}/refund'', False),
      (''GET'', ''/api/v1/orders/{id}/refunds'', False),
      (''POST'', ''/api/v1/notify/wechat'', False),
      (''POST'', ''/api/v1/notify/wechat/refund'', False),
      (''POST'', ''/api/v1/notify/alipay'', False),
      (''GET'', ''/api/v1/merchant/orders'', False)] = set doc_table"
  by code_simp

text \<open>
  The document describes the interface. The operations it lists are the routes of the router, the versioned ones
  included, no more and no fewer, whatever the deployment; it asks for a bearer token exactly on the
  administration's routes, all of which check it, and on the two routes of the signed-in user.
\<close>

theorem openapi_matches_routes:
  "set (map (\<lambda>(m, p, oper). (m, p, asks_bearer oper)) (operations (buildOpenApiSpec ms))) =
   set (map (\<lambda>x. (rt_method x, documented_path (rt_pattern x), starts_with ''/admin'' (rt_pattern x) \<or> account_path (rt_pattern x)))
     (ro_routes (buildRouter d)))"
proof -
  have "doc_table = map (\<lambda>x. (rt_method x, documented_path (rt_pattern x),
      starts_with ''/admin'' (rt_pattern x) \<or> account_path (rt_pattern x))) (ro_routes (buildRouter d))"
    unfolding doc_table_def router_paths[of d, symmetric] by (simp add: comp_def)
  then show ?thesis by (simp only: operations_listed listed_table)
qed

section \<open>The document as JSON\<close>

lemma mirror_sound:
  "list_all (\<lambda>(k, v). sound v) ps \<Longrightarrow> list_all (\<lambda>(k, v). sound v) (map (\<lambda>(k, v). (f k, v)) (filter P ps))"
  by (auto simp: list_all_iff)

lemma mirrored_keys: "distinct (map fst (mirror_paths openapi_paths)) \<and> ''$ref'' \<notin> set (map fst (mirror_paths openapi_paths))"
  unfolding mirrored by (simp add: openapi_paths_def starts_with_def)

lemma sound_named:
  "''$ref'' \<notin> set (map fst ps) \<Longrightarrow> sound (JObj ps) = (distinct (map fst ps) \<and> list_all (\<lambda>(k, v). sound v) ps)"
proof -
  assume "''$ref'' \<notin> set (map fst ps)"
  then have "k \<noteq> ''$ref''" if "(k, v) \<in> set ps" for k v using that by force
  then show ?thesis by (auto simp: list_all_iff)
qed

lemma spec_sound: "sound (buildOpenApiSpec ms)"
proof -
  have "list_all (\<lambda>(k, v). sound v) (mirror_paths openapi_paths)"
    unfolding mirrored list_all_append using sound_operations by (intro conjI mirror_sound)
  then have paths: "sound (JObj (mirror_paths openapi_paths))" using mirrored_keys by (simp add: sound_named del: sound_obj)
  have schemas: "sound (JObj openapi_schemas)"
    using sound_schemas by (simp add: sound_named schema_names del: sound_obj)
  have "sound (openapi_info n)" "sound openapi_tags" "sound openapi_security" for n
    by (simp_all add: openapi_info_def openapi_tags_def openapi_security_def)
  then show ?thesis
    using paths schemas unfolding buildOpenApiSpec_def by (simp del: sound_obj add: sound_named)
qed

lemma params_listed:
  "list_all (\<lambda>(m, p, oper). declared_params oper = path_variables p) (operations (buildOpenApiSpec ms))"
  unfolding operations_def spec_paths mirrored
  by (simp add: openapi_paths_def starts_with_def operation_params path_variables_def path_segments_def)

text \<open>
  What a client gets for \<open>GET /openapi.json\<close> reads back as the document; each reference in it names a schema that is
  there, and each operation declares the variables of its path, in order, and no others.
\<close>

theorem openapi_well_formed:
  "JSON_parse (json_text (buildOpenApiSpec ms)) = Some (buildOpenApiSpec ms) \<and> refs_ok (buildOpenApiSpec ms) \<and>
   list_all (\<lambda>(m, p, oper). declared_params oper = path_variables p) (operations (buildOpenApiSpec ms))"
  using spec_sound[of ms] params_listed[of ms] by (simp add: sound_def json_roundtrip)

text \<open>An operation and its mirror share their id, which the format wants to be unique.\<close>

lemma shared_operation_ids:
  "\<not> distinct (map (\<lambda>(m, p, oper). json_field oper ''operationId'') (operations (buildOpenApiSpec ms)))"
proof
  let ?xs = "operations (buildOpenApiSpec ms)" and ?f = "\<lambda>(m, p, oper). json_field oper ''operationId''"
  have a: "(''GET'', ''/api/plans'', op_listPlans) \<in> set ?xs" and b: "(''GET'', ''/api/v1/plans'', op_listPlans) \<in> set ?xs"
    unfolding operations_def spec_paths mirrored by (simp_all add: openapi_paths_def starts_with_def)
  assume "distinct (map ?f ?xs)"
  then have "inj_on ?f (set ?xs)" by (simp only: distinct_map)
  from inj_onD[OF this _ a b] show False by simp
qed

end
