(* ===== verification/Spec2Isabelle.thy ===== *)
theory Spec2Isabelle
  imports Interleave Accounts RateLimit Csv Metrics Alerts Lifecycle Reports QrSvg RateFeed ApiSystem ProviderProps TronWeb Secrets Smtp Logging SqlProps OpenApi
begin

text \<open>
  Verification of the VPN payment backend (the TypeScript service under \<^verbatim>\<open>src/src\<close>): orders for VPN plans are
  placed over HTTP, paid by WeChat, Alipay or USDT on TRON, granted as subscriptions, refunded, reported on,
  and, for USDT, swept to a collection wallet.

  \<^bold>\<open>How the program is put together.\<close> \<open>container.ts\<close> wires services over repositories: \<open>PaymentService\<close> creates
  orders, asks a provider for the payment, and settles it on a callback or a poll; a settled order is granted
  by \<open>SubscriptionService\<close>; \<open>RefundService\<close> reserves, issues and settles refunds; \<open>SweepService\<close> collects USDT
  deposits; \<open>ReconciliationService\<close> and \<open>ReportService\<close> read the books; \<open>WebhookDispatcher\<close> and the audit log are
  told of what happens; \<open>routes.ts\<close> exposes all of it through the router of \<open>http.ts\<close>. The services share their
  repositories, which the model keeps in one record \<open>world\<close>; an operation is a function from a world to a
  result and a world.

  \<^bold>\<open>Theories, in the order of import.\<close>
  \<^item> \<open>Prelude\<close>, \<open>Bytes\<close>, \<open>Json\<close>, \<open>Uri\<close>, \<open>JsonParse\<close>, \<open>Doubles\<close>: the shared library. Errors as values
    (\<open>app_error\<close>, \<open>'a result\<close>, \<open>bindR\<close>), JavaScript maps with insertion order (\<open>jsmap\<close>), slices, \<open>padStart\<close> and
    the like; \<open>JSON.stringify\<close> and \<open>JSON.parse\<close>; UTF-8 and percent encoding; binary64 rounding and printing.
  \<^item> \<open>Domain\<close>: \<^verbatim>\<open>domain/*.ts\<close>. \<open>Money\<close>: \<^verbatim>\<open>core/money.ts\<close>. \<open>OrderStateMachine\<close>: \<^verbatim>\<open>core/orderStateMachine.ts\<close>.
  \<^item> \<open>Repository\<close>, \<open>OrderStore\<close>, \<open>RefundStore\<close>, \<open>SubscriptionStore\<close>, \<open>EventStore\<close>, \<open>DepositStores\<close>,
    \<open>AccountStores\<close>: the interfaces of \<^verbatim>\<open>storage/repository.ts\<close> as locales, and the in-memory stores of
    \<^verbatim>\<open>storage/memoryStore.ts\<close> with the interpretations that discharge their laws. \<open>Locker\<close>: its per-key lock
    as a step relation over waiting, running and finished calls.
  \<^item> \<open>AuditLog\<close>, \<open>Webhooks\<close>, \<open>Subscriptions\<close>, \<open>Usdt\<close>, \<open>Sweep\<close>: the services with a state of their own; \<open>World\<close>
    joins the states.
  \<^item> \<open>PaymentService\<close>, \<open>RefundService\<close>, \<open>Reports\<close>, \<open>Accounts\<close>: the services over the world and the accounts.
    \<open>System\<close>: every sequence of their operations as an inductive step relation, with the invariant
    \<open>system_ok\<close> of all its reachable states.
  \<^item> \<open>RateLimit\<close>, \<open>Metrics\<close>, \<open>Csv\<close>, \<open>Alerts\<close>, \<open>Lifecycle\<close>, \<open>Pricing\<close>, \<open>RateFeed\<close>: \<^verbatim>\<open>api/rateLimiter.ts\<close> and the
    Redis one, \<^verbatim>\<open>observability\<close>, \<^verbatim>\<open>reporting\<close>, \<^verbatim>\<open>alerting\<close>, \<^verbatim>\<open>health\<close> and \<^verbatim>\<open>lifecycle\<close>, \<^verbatim>\<open>pricing\<close>.
  \<^item> \<open>Galois\<close>, \<open>ReedSolomon\<close>, \<open>QrData\<close>, \<open>QrLayout\<close>, \<open>QrMatrix\<close>, \<open>QrCode\<close>, \<open>QrSvg\<close>: \<^verbatim>\<open>qr/*.ts\<close>.
  \<^item> \<open>Interleave\<close>: settlements and expiries taken apart at their awaits and interleaved in any way under the lock
    of \<open>Locker\<close>, as a step relation.
  \<^item> \<open>WebText\<close>, \<open>Wechat\<close>, \<open>Alipay\<close>, \<open>ProviderProps\<close>: \<^verbatim>\<open>providers/wechat\<close> and \<^verbatim>\<open>providers/alipay\<close>, with form bodies and
    ISO times, and what a notification must be for the payment service to act on it. \<open>TronWeb\<close>:
    \<^verbatim>\<open>providers/usdt/tronWebTreasury.ts\<close>.
  \<^item> \<open>Http\<close>: \<^verbatim>\<open>api/http.ts\<close>; \<open>ApiViews\<close> and \<open>Api\<close>: \<^verbatim>\<open>api/routes.ts\<close>, one definition \<open>h_..\<close> per route, composed by
    \<open>buildRouter\<close>; \<open>ApiProps\<close> and \<open>ApiSystem\<close>: what the interface guarantees; \<open>OpenApi\<close>: \<^verbatim>\<open>api/openapi.ts\<close>, one
    definition \<open>op_..\<close> or \<open>schema_..\<close> per operation and schema, compared with the router.
  \<^item> \<open>Secrets\<close>: \<^verbatim>\<open>secrets\<close>; \<open>EmailText\<close> and \<open>Smtp\<close>: \<^verbatim>\<open>notifications\<close>; \<open>Logging\<close>: \<^verbatim>\<open>utils/logger.ts\<close> and
    \<^verbatim>\<open>observability/requestContext.ts\<close>.
  \<^item> \<open>SqlStore\<close>, \<open>SqlRepos\<close>, \<open>SqlProps\<close>: \<^verbatim>\<open>storage/sql\<close>, its row mappings and its statements with their parameters.

  \<^bold>\<open>What the groups of lemmas show.\<close>
  \<^item> Each store keeps its well-formedness and implements its interface; the services use only the laws.
  \<^item> Each operation is characterised on every branch, errors included: a good payment notice settles and grants its
    order at once, an unfit one changes no order, a refund is reserved, issued and recorded so that the ledger adds up;
    once a round of a sweep job has recorded a transfer, no later round sends another, until an operator
    retries the job after it has FAILED; a webhook is tried on schedule and then given up.
  \<^item> \<open>System\<close>: paid exactly once, balanced books, no transfer pays two orders, legal histories, in every
    state that whole operations reach one after another; \<open>ApiSystem\<close>: each HTTP request, whatever it is, is a
    sequence of those operations. \<open>Interleave\<close>: settlements of one order that overlap pay and grant it once, and
    settlements of two orders of one user that overlap can lose a grant, as the lock is per order.
  \<^item> Reports and reconciliation find exactly what is there; money, CSV, JSON, QR symbols, SQL rows and Reed-Solomon
    codes round-trip or satisfy their reference definition.
  \<^item> Administration needs a token, a tenant's reads of orders show its own alone, bodies and rates are bounded, and
    every well-formed request is answered unless its timer fires first or the limiter's check fails.
  \<^item> Notifications of WeChat and Alipay act only when they are authentic; the SMTP dialogue, the cached secrets, the
    mails and the log lines do what their components promise.
  \<^item> Some properties show what the code gets wrong, on the model: their names and texts say so.

  \<^bold>\<open>Conventions, bounds and fuel.\<close> JavaScript numbers that are counts, times and minor units are \<open>int\<close> where the
  code keeps them integral; where rounding matters (quotes, exchange rates, query parameters, JSON) they are
  binary64 values over exact rationals (\<open>Doubles\<close>). Strings are lists of code units below 256; the bytes of a
  code point beyond that which a decoder meets stay in the text one by one. \<open>env\<close> gives the answers of the
  clock and of \<open>randomUUID\<close> and \<open>randomBytes\<close> by position; an operation that calls another hands it \<open>env_from k\<close>, so that no answer is used twice.
  \<open>JSON_parse\<close> recurses on fuel \<open>2 * length + 1\<close>, shown enough for every text \<open>JSON.stringify\<close> prints and
  irrelevant beyond (\<open>parse_value\<close> is monotone in it); \<open>shortest\<close> tries at most 17 significant digits; the search for a unique amount stops at its configured maximum.
  All other recursion is structural or comes with a termination proof.

  \<^bold>\<open>Parameters.\<close> What is not under \<^verbatim>\<open>src\<close> is an argument: scrypt, HMAC, RSA and AES (\<open>node:crypto\<close>), the Redis
  client and the PostgreSQL client (their commands answer or fail), the HTTP client (a function from request to
  answer), the classes of the tronweb package, the mail server (the pieces its answers arrive in), the remote
  store of secrets, the HTTP server and URL parser (a \<open>request\<close> is what they deliver). A provider of payments, the
  treasury, the notifier and the rate limiter are records of functions, which the theories of the code's own
  implementations fill in. The routes take the OpenAPI document and the page of \<open>/docs\<close> as arguments.
  In \<open>PaymentService\<close>, \<open>RefundService\<close> and \<open>System\<close> an operation runs to its end on the state as it finds it, so
  that \<open>withLock\<close> is its body; what the lock does for operations that overlap is proved in \<open>Locker\<close> and \<open>Interleave\<close>.
  There the calls of \<open>withLock\<close> by settlements and expiries are interleaved; creation of orders and refunds are not.

  \<^bold>\<open>Not modelled.\<close> What the database does with a statement, beyond the rows an insertion gives back; timers (their
  passes are operations); the HTML page of \<open>/docs\<close>; the reading of the environment, the wiring in
  \<open>container.ts\<close> and the start of the server; the wrapper of the ioredis package; and the scripts. Prototype
  properties of objects (a currency named \<open>constructor\<close>) are absent: maps have own properties only.
\<close>

end
